(* ===== verification/Ksa_Prelude.thy ===== *)
theory Ksa_Prelude
  imports Main "HOL-Library.Word" "HOL-Library.State_Monad"
begin

text \<open>
  Shared vocabulary of the development: the machine integers of the Rust
  sources as words (a signed and an unsigned integer of the same width are the
  same word, read by \<^term>\<open>sint\<close> and \<^term>\<open>uint\<close>), and generic facts about shifts,
  two-digit numbers and restoring division that the numeric components share.
\<close>

unbundle bit_operations_syntax

type_synonym u8 = "8 word"
type_synonym u16 = "16 word"
type_synonym u32 = "32 word"
type_synonym i8 = "8 word"
type_synonym i16 = "16 word"
type_synonym i32 = "32 word"

subsection \<open>Fallible code\<close>

fun and_then :: "'e + 'a \<Rightarrow> ('a \<Rightarrow> 'e + 'b) \<Rightarrow> 'e + 'b" where
  "and_then (Inl e) f = Inl e"
| "and_then (Inr x) f = f x"

fun map_err :: "('e \<Rightarrow> 'd) \<Rightarrow> 'e + 'a \<Rightarrow> 'd + 'a" where
  "map_err f (Inl e) = Inl (f e)"
| "map_err f (Inr x) = Inr x"

fun is_ok :: "'e + 'a \<Rightarrow> bool" where
  "is_ok (Inl e) \<longleftrightarrow> False"
| "is_ok (Inr x) \<longleftrightarrow> True"

definition ascii :: "string \<Rightarrow> u8 list" where
  "ascii s = map of_char s"

definition checked_mul :: "u32 \<Rightarrow> u32 \<Rightarrow> u32 option" where
  "checked_mul a b = (if unat a * unat b < 2 ^ 32 then Some (a * b) else None)"

lemma and_then_Inr [simp]: "and_then r f = Inr y \<longleftrightarrow> (\<exists>x. r = Inr x \<and> f x = Inr y)"
  by (cases r) auto

lemma if_Inl_eq_Inr [simp]: "(if b then Inl e else r) = Inr y \<longleftrightarrow> \<not> b \<and> r = Inr y"
  by auto

lemma case_option_Inr [simp]:
  "(case r of None \<Rightarrow> Inl e | Some d \<Rightarrow> f d) = Inr y \<longleftrightarrow> (\<exists>d. r = Some d \<and> f d = Inr y)"
  by (cases r) auto

lemma not_ok_iff: "\<not> is_ok r \<longleftrightarrow> (\<exists>e. r = Inl e)"
  by (cases r) auto

lemma is_ok_iff: "is_ok r \<longleftrightarrow> (\<exists>x. r = Inr x)"
  by (cases r) auto

lemma ascii_simps [simp]: "ascii [] = []" "ascii (c # s) = of_char c # ascii s"
  by (simp_all add: ascii_def)

subsection \<open>Machine words\<close>

lemma unat_push_bit_mod:
  fixes x :: "'a::len word"
  shows "unat (push_bit s x) = (unat x * 2 ^ s) mod 2 ^ LENGTH('a)"
  by (subst unsigned_push_bit_eq) (simp add: take_bit_eq_mod push_bit_eq_mult)

lemma unat_drop_bit_div:
  fixes x :: "'a::len word"
  shows "unat (drop_bit s x) = unat x div 2 ^ s"
  by (subst unat_drop_bit_eq) (simp add: drop_bit_eq_div)

lemma unat_take_bit_mod:
  fixes x :: "'a::len word"
  shows "unat (take_bit s x) = unat x mod 2 ^ s"
  by (subst unsigned_take_bit_eq) (simp add: take_bit_eq_mod)

lemma unat_push_drop_split:
  fixes x :: "'a::len word"
  assumes "s \<le> LENGTH('a)"
  shows "unat (push_bit s x) + 2 ^ LENGTH('a) * unat (drop_bit (LENGTH('a) - s) x) = unat x * 2 ^ s"
proof -
  have p: "(2::nat) ^ LENGTH('a) = 2 ^ (LENGTH('a) - s) * 2 ^ s"
    using assms by (simp flip: power_add)
  have "unat (push_bit s x) = (unat x mod 2 ^ (LENGTH('a) - s)) * 2 ^ s"
    by (simp only: unat_push_bit_mod p mod_mult_mult2)
  moreover have "unat (drop_bit (LENGTH('a) - s) x) = unat x div 2 ^ (LENGTH('a) - s)"
    by (rule unat_drop_bit_div)
  ultimately have "unat (push_bit s x) + 2 ^ LENGTH('a) * unat (drop_bit (LENGTH('a) - s) x)
      = (unat x mod 2 ^ (LENGTH('a) - s) + 2 ^ (LENGTH('a) - s) * (unat x div 2 ^ (LENGTH('a) - s))) * 2 ^ s"
    by (simp only: p distrib_left mult.assoc mult.commute mult.left_commute)
  then show ?thesis by (simp only: mod_mult_div_eq)
qed

lemma bit_u32_less: "bit (x :: u32) n \<Longrightarrow> n < 32"
  using bit_imp_le_length [of x n] by simp

lemma drop_bit_and_1:
  fixes x :: "'a::len word"
  shows "drop_bit p x AND 1 = of_bool (bit x p)"
  by (simp add: and_one_eq bit_iff_odd_drop_bit mod_2_eq_odd)

lemma two_digit_mod:
  fixes H L :: nat
  assumes "0 < B"
  shows "(H * B + L) mod (B * B) = (H + L div B) mod B * B + L mod B"
proof -
  have "(H * B + L) mod (B * B) = B * ((H * B + L) div B mod B) + (H * B + L) mod B"
    by (rule mod_mult2_eq)
  then show ?thesis using assms by (simp add: mult.commute)
qed

lemma div_two_step: "(x::nat) < 2 * D \<Longrightarrow> x div D = (if D \<le> x then 1 else 0)"
  by (auto simp: div_nat_eqI)

lemma div_mod_double_step:
  fixes P D b :: nat
  assumes "b < 2" "0 < D"
  shows "(2 * P + b) div D = 2 * (P div D) + (if D \<le> 2 * (P mod D) + b then 1 else 0)"
    and "(2 * P + b) mod D =
      (if D \<le> 2 * (P mod D) + b then 2 * (P mod D) + b - D else 2 * (P mod D) + b)"
proof -
  let ?r = "2 * (P mod D) + b"
  have "2 * P = 2 * (P div D) * D + 2 * (P mod D)"
    using div_mult_mod_eq [of P D] by (metis distrib_left mult.assoc)
  then have e: "2 * P + b = ?r + (2 * (P div D)) * D" by simp
  have "P mod D < D" using assms by simp
  then have lt: "?r < 2 * D" using assms(1) by linarith
  have d: "(2 * P + b) div D = 2 * (P div D) + ?r div D"
    unfolding e using assms(2) by (subst div_mult_self1) simp_all
  show "(2 * P + b) div D = 2 * (P div D) + (if D \<le> ?r then 1 else 0)"
    by (simp only: d div_two_step [OF lt])
  have "(2 * P + b) mod D = ?r mod D"
    unfolding e by (rule mod_mult_self1)
  then show "(2 * P + b) mod D = (if D \<le> ?r then ?r - D else ?r)"
    using lt by (auto simp: le_mod_geq)
qed

end
