(* ===== verification/Limb_Arithmetic.thy ===== *)
theory Limb_Arithmetic
  imports Ksa_Prelude
begin

text \<open>
  The 64-bit integers of \<^verbatim>\<open>core/src/numeric.rs\<close>, built from two 32-bit limbs, and
  the unsigned routines on them: widening multiplication from four 16-bit partial
  products, shifts, restoring division by 32-bit and 16-bit divisors and the
  bisection square root. Each is proved to compute the function on natural numbers
  it stands for, through the abstraction \<^verbatim>\<open>value64\<close>.
\<close>

record Unsigned64 =
  low :: u32
  high :: u32

definition value64 :: "Unsigned64 \<Rightarrow> nat" where
  "value64 v = unat (high v) * 2 ^ 32 + unat (low v)"

definition magnitude :: "i32 \<Rightarrow> u32" where
  "magnitude value =
     (if value = 0x80000000 then 0x80000000
      else if value <s 0 then - value
      else value)"

definition add_words :: "Unsigned64 \<Rightarrow> u32 \<Rightarrow> u32 \<Rightarrow> Unsigned64" where
  "add_words value add_low add_high =
     (let previous = low value;
          l = low value + add_low;
          h = high value + add_high
      in if l < previous then \<lparr>low = l, high = h + 1\<rparr> else \<lparr>low = l, high = h\<rparr>)"

definition multiply_unsigned_32 :: "u32 \<Rightarrow> u32 \<Rightarrow> Unsigned64" where
  "multiply_unsigned_32 a b =
     (let a_low = a AND 0xffff;
          a_high = drop_bit 16 a;
          b_low = b AND 0xffff;
          b_high = drop_bit 16 b;
          product_00 = a_low * b_low;
          product_01 = a_low * b_high;
          product_10 = a_high * b_low;
          product_11 = a_high * b_high;
          result = \<lparr>low = product_00, high = 0\<rparr>;
          result = add_words result (push_bit 16 product_01) (drop_bit 16 product_01);
          result = add_words result (push_bit 16 product_10) (drop_bit 16 product_10)
      in result\<lparr>high := high result + product_11\<rparr>)"

definition shift_left_32 :: "u32 \<Rightarrow> nat \<Rightarrow> Unsigned64" where
  "shift_left_32 value shift =
     (if shift = 0 then \<lparr>low = value, high = 0\<rparr>
      else \<lparr>low = push_bit shift value, high = drop_bit (32 - shift) value\<rparr>)"

definition shift_right :: "Unsigned64 \<Rightarrow> nat \<Rightarrow> Unsigned64" where
  "shift_right value shift =
     (if shift = 0 then value
      else \<lparr>low = drop_bit shift (low value) OR push_bit (32 - shift) (high value),
            high = drop_bit shift (high value)\<rparr>)"

definition increment :: "Unsigned64 \<Rightarrow> Unsigned64" where
  "increment value =
     (let l = low value + 1
      in if l = 0 then \<lparr>low = l, high = high value + 1\<rparr> else \<lparr>low = l, high = high value\<rparr>)"

definition bit_at :: "Unsigned64 \<Rightarrow> nat \<Rightarrow> u8" where
  "bit_at value position =
     (if position < 32 then ucast (drop_bit position (low value) AND 1)
      else ucast (drop_bit (position - 32) (high value) AND 1))"

definition set_bit64 :: "Unsigned64 \<Rightarrow> nat \<Rightarrow> Unsigned64" where
  "set_bit64 value position =
     (if position < 32 then value\<lparr>low := low value OR push_bit position 1\<rparr>
      else value\<lparr>high := high value OR push_bit (position - 32) 1\<rparr>)"

subsection \<open>Values\<close>

lemma unat_u32_less: "unat (x :: u32) < 4294967296"
  using unsigned_less [of x, where ?'a = nat] by simp

lemma value64_less: "value64 v < 2 ^ 64"
  using unat_u32_less [of "high v"] unat_u32_less [of "low v"] unfolding value64_def by simp

lemma value64_div [simp]: "value64 v div 2 ^ 32 = unat (high v)"
  using unat_u32_less [of "low v"] by (simp add: value64_def)

lemma value64_mod [simp]: "value64 v mod 2 ^ 32 = unat (low v)"
  using unat_u32_less [of "low v"] by (simp add: value64_def)

lemma value64_inject: "value64 v = value64 w \<longleftrightarrow> low v = low w \<and> high v = high w"
proof
  assume e: "value64 v = value64 w"
  have "unat (low v) = unat (low w)" "unat (high v) = unat (high w)"
    using e value64_div [of v] value64_div [of w] value64_mod [of v] value64_mod [of w] by simp_all
  then show "low v = low w \<and> high v = high w" by (simp add: word_unat_eq_iff)
qed (simp add: value64_def)

lemma value64_add_words:
  "value64 (add_words v l h) = (value64 v + unat l + 2 ^ 32 * unat h) mod 2 ^ 64"
proof -
  let ?L = "unat (low v)" and ?H = "unat (high v)"
  have lt: "?L + unat l < 2 * 2 ^ 32"
    using unat_u32_less [of "low v"] unat_u32_less [of l] by simp
  have c: "low v + l < low v \<longleftrightarrow> 2 ^ 32 \<le> ?L + unat l"
    using unat_u32_less [of "low v"] unat_u32_less [of l]
    by (auto simp add: word_less_nat_alt unat_plus_if')
  have "value64 (add_words v l h) =
      (?H + unat h + (?L + unat l) div 2 ^ 32) mod 2 ^ 32 * 2 ^ 32 + (?L + unat l) mod 2 ^ 32"
    unfolding div_two_step [OF lt]
    by (simp add: add_words_def value64_def c unat_word_ariths Let_def mod_simps)
  also have "\<dots> = ((?H + unat h) * 2 ^ 32 + (?L + unat l)) mod (2 ^ 32 * 2 ^ 32)"
    by (subst two_digit_mod) simp_all
  finally show ?thesis by (simp add: value64_def algebra_simps)
qed

lemma unat_and_ffff: "unat (a AND 0xffff :: u32) = unat a mod 2 ^ 16"
proof -
  have "a AND 0xffff = take_bit 16 a"
    by (simp add: take_bit_eq_mask mask_numeral)
  then show ?thesis by (simp only: unat_take_bit_mod)
qed

lemma unat_half_product:
  assumes "unat a < 2 ^ 16" "unat b < 2 ^ 16"
  shows "unat (a * b :: u32) = unat a * unat b"
proof -
  have "unat a * unat b < 2 ^ 16 * 2 ^ 16" using assms by (intro mult_strict_mono) auto
  then show ?thesis by (simp add: unat_word_ariths)
qed

lemma push_drop_16: "unat (push_bit 16 x) + 2 ^ 32 * unat (drop_bit 16 x) = unat (x :: u32) * 2 ^ 16"
  using unat_push_drop_split [of 16 x] by simp

theorem value64_multiply_unsigned_32: "value64 (multiply_unsigned_32 a b) = unat a * unat b"
proof -
  define al ah bl bh where "al = a AND 0xffff" and "ah = drop_bit 16 a"
    and "bl = b AND 0xffff" and "bh = drop_bit 16 b"
  note defs = al_def ah_def bl_def bh_def
  have ub: "unat al < 2 ^ 16" "unat bl < 2 ^ 16" "unat ah < 2 ^ 16" "unat bh < 2 ^ 16"
    using unat_u32_less [of a] unat_u32_less [of b]
    by (auto simp: defs unat_and_ffff unat_drop_bit_div)
  note p = unat_half_product [OF ub(1,2)] unat_half_product [OF ub(1,4)]
    unat_half_product [OF ub(3,2)] unat_half_product [OF ub(3,4)]
  have split: "unat a = unat ah * 2 ^ 16 + unat al" "unat b = unat bh * 2 ^ 16 + unat bl"
    by (simp_all add: defs unat_and_ffff unat_drop_bit_div)
  let ?r0 = "\<lparr>low = al * bl, high = 0\<rparr> :: Unsigned64"
  let ?r1 = "add_words ?r0 (push_bit 16 (al * bh)) (drop_bit 16 (al * bh))"
  let ?r2 = "add_words ?r1 (push_bit 16 (ah * bl)) (drop_bit 16 (ah * bl))"
  have v1: "value64 ?r1 = (unat al * unat bl + unat al * unat bh * 2 ^ 16) mod 2 ^ 64"
    using push_drop_16 [of "al * bh"] value64_def [of ?r0] by (simp add: value64_add_words p add.assoc)
  have v2: "value64 ?r2 = (unat al * unat bl + unat al * unat bh * 2 ^ 16
      + unat ah * unat bl * 2 ^ 16) mod 2 ^ 64"
    unfolding value64_add_words [of ?r1] v1
    using push_drop_16 [of "ah * bl"] by (simp add: p mod_simps add.assoc)
  have "multiply_unsigned_32 a b = add_words ?r2 0 (ah * bh)"
    by (simp add: multiply_unsigned_32_def add_words_def defs Let_def)
  then have "value64 (multiply_unsigned_32 a b) = (unat a * unat b) mod 2 ^ 64"
    unfolding split
    by (simp only: value64_add_words [of ?r2] v2) (simp add: p mod_simps algebra_simps)
  moreover have "unat a * unat b < 2 ^ 32 * 2 ^ 32"
    using unat_u32_less [of a] unat_u32_less [of b] by (intro mult_strict_mono) simp_all
  ultimately show ?thesis by simp
qed


subsection \<open>Shifts\<close>

lemma value64_shift_left_32:
  assumes "s \<le> 31"
  shows "value64 (shift_left_32 x s) = unat x * 2 ^ s"
proof (cases "s = 0")
  case False
  then show ?thesis
    using unat_push_drop_split [of s x] assms by (simp add: shift_left_32_def value64_def)
qed (simp add: shift_left_32_def value64_def)

lemma bit_value64:
  "bit (value64 v) n \<longleftrightarrow> (if n < 32 then bit (low v) n else bit (high v) (n - 32))"
proof -
  have e: "value64 v = (unat (low v)) OR (push_bit 32 (unat (high v)))"
  proof -
    have "unat (low v) AND push_bit 32 (unat (high v)) = 0"
      by (rule bit_eqI) (auto simp: bit_simps dest: bit_u32_less)
    then show ?thesis
      unfolding value64_def by (subst disjunctive_add_eq_or [symmetric]) (simp_all add: push_bit_eq_mult)
  qed
  show ?thesis by (auto simp: e bit_simps dest: bit_u32_less)
qed

lemma bit_at_value64: "bit_at v p = of_bool (bit (value64 v) p)"
  by (simp add: bit_at_def bit_value64 drop_bit_and_1)

lemma value64_shift_right:
  assumes "s \<le> 31"
  shows "value64 (shift_right v s) = value64 v div 2 ^ s"
proof -
  have "value64 (shift_right v s) = drop_bit s (value64 v)"
    using assms by (intro bit_eqI) (auto simp: bit_value64 shift_right_def bit_simps ac_simps dest: bit_u32_less)
  then show ?thesis by (simp only: drop_bit_eq_div)
qed

lemma value64_set_bit64:
  assumes "p < 64"
  shows "value64 (set_bit64 v p) = set_bit p (value64 v)"
  using assms by (intro bit_eqI) (auto simp: bit_value64 set_bit64_def bit_simps)


lemma value64_increment: "value64 (increment v) = (value64 v + 1) mod 2 ^ 64"
proof -
  have "low v + 1 < low v \<longleftrightarrow> low v + 1 = 0"
  proof (cases "low v + 1 = 0")
    case True
    then have "low v = - 1" by (simp add: eq_neg_iff_add_eq_0)
    then have "low v \<noteq> 0" by auto
    with True show ?thesis by (simp add: word_gt_0)
  next
    case False
    then have "unat (low v + 1) = Suc (unat (low v))"
      using unatSuc [of "low v"] by (simp add: add.commute)
    with False show ?thesis by (simp add: word_less_nat_alt)
  qed
  then have "increment v = add_words v 1 0"
    by (simp add: increment_def add_words_def Let_def)
  then show ?thesis by (simp add: value64_add_words)
qed

subsection \<open>Shift-and-subtract division\<close>

fun divide_bits_loop :: "Unsigned64 \<Rightarrow> u32 \<Rightarrow> nat \<Rightarrow> Unsigned64 \<Rightarrow> u32 \<Rightarrow> Unsigned64 \<times> u32" where
  "divide_bits_loop numerator divisor 0 quot remainder = (quot, remainder)"
| "divide_bits_loop numerator divisor (Suc position) quot remainder =
     (let remainder = push_bit 1 remainder OR ucast (bit_at numerator position)
      in if divisor \<le> remainder
         then divide_bits_loop numerator divisor position (set_bit64 quot position) (remainder - divisor)
         else divide_bits_loop numerator divisor position quot remainder)"

definition divide_unsigned_64_by_16_bits :: "Unsigned64 \<Rightarrow> u16 \<Rightarrow> nat \<Rightarrow> Unsigned64 \<times> u16" where
  "divide_unsigned_64_by_16_bits numerator denominator bit_count =
     (let (quot, remainder) =
        divide_bits_loop numerator (ucast denominator) bit_count \<lparr>low = 0, high = 0\<rparr> 0
      in (quot, ucast remainder))"

definition divide_unsigned_64_by_32 :: "Unsigned64 \<Rightarrow> u32 \<Rightarrow> Unsigned64 \<times> u32" where
  "divide_unsigned_64_by_32 numerator denominator =
     divide_bits_loop numerator denominator 64 \<lparr>low = 0, high = 0\<rparr> 0"

fun divide_unsigned_32_by_16_loop :: "u32 \<Rightarrow> u32 \<Rightarrow> nat \<Rightarrow> u32 \<Rightarrow> u32 \<Rightarrow> u32 \<times> u32" where
  "divide_unsigned_32_by_16_loop numerator divisor 0 quot remainder = (quot, remainder)"
| "divide_unsigned_32_by_16_loop numerator divisor (Suc position) quot remainder =
     (let remainder = push_bit 1 remainder OR (drop_bit position numerator AND 1)
      in if divisor \<le> remainder
         then divide_unsigned_32_by_16_loop numerator divisor position
                (quot OR push_bit position 1) (remainder - divisor)
         else divide_unsigned_32_by_16_loop numerator divisor position quot remainder)"

definition divide_unsigned_32_by_16 :: "u32 \<Rightarrow> u16 \<Rightarrow> u32 \<times> u16" where
  "divide_unsigned_32_by_16 numerator denominator =
     (let (quot, remainder) =
        divide_unsigned_32_by_16_loop numerator (ucast denominator) 32 0 0
      in (quot, ucast remainder))"

lemma unat_shift_in:
  fixes r :: u32
  assumes "unat r < 2 ^ 31"
  shows "unat (push_bit 1 r OR of_bool b) = 2 * unat r + of_bool b"
proof -
  have "push_bit 1 r AND of_bool b = 0"
    by (rule bit_word_eqI) (simp only: bit_and_iff bit_push_bit_iff, auto simp: bit_simps)
  then have "push_bit 1 r OR of_bool b = push_bit 1 r + of_bool b"
    by (simp add: disjunctive_add_eq_or)
  moreover have "unat (push_bit 1 r) = 2 * unat r"
    using assms by (subst unat_push_bit_mod) simp
  ultimately show ?thesis using assms by (simp add: unat_word_ariths)
qed

lemma nat_div_bit: "(N::nat) div 2 ^ p = 2 * (N div 2 ^ Suc p) + of_bool (bit N p)"
proof -
  have "N div 2 ^ p = 2 * (N div 2 ^ p div 2) + (N div 2 ^ p) mod 2" by simp
  then show ?thesis
    by (simp add: bit_iff_odd mod_2_eq_odd div_mult2_eq mult.commute [of 2])
qed

lemma divide_bits_loop_correct:
  assumes "0 < unat d" "unat d \<le> 2 ^ 31" "p \<le> 64"
    and "value64 q = 2 ^ p * (value64 n div 2 ^ p div unat d)"
    and "unat r = value64 n div 2 ^ p mod unat d"
    and "divide_bits_loop n d p q r = (q', r')"
  shows "value64 q' = value64 n div unat d" "unat r' = value64 n mod unat d"
proof -
  have "value64 q' = value64 n div unat d \<and> unat r' = value64 n mod unat d"
    using assms(3-)
  proof (induction p arbitrary: q r)
    case 0
    then show ?case by simp
  next
    case (Suc p)
    let ?P = "value64 n div 2 ^ Suc p" and ?b = "bit (value64 n) p"
    let ?r = "push_bit 1 r OR ucast (bit_at n p)"
    have "?P mod unat d < unat d" using assms(1) by simp
    then have "unat r < 2 ^ 31" using assms(2) Suc.prems(3) by linarith
    then have ur: "unat ?r = 2 * (?P mod unat d) + of_bool ?b"
      using unat_shift_in [of r ?b]
      by (cases ?b) (simp_all only: bit_at_value64 Suc.prems(3) of_bool_eq unsigned_0 unsigned_1)
    have nd: "value64 n div 2 ^ p = 2 * ?P + of_bool ?b" by (rule nat_div_bit)
    note step = div_mod_double_step [of "of_bool ?b" "unat d" ?P, folded nd ur]
    have div_e: "value64 n div 2 ^ p div unat d = 2 * (?P div unat d) + (if unat d \<le> unat ?r then 1 else 0)"
      and mod_e: "value64 n div 2 ^ p mod unat d = (if unat d \<le> unat ?r then unat ?r - unat d else unat ?r)"
      using step assms(1) by (auto simp: of_bool_def)
    show ?case
    proof (cases "d \<le> ?r")
      case True
      then have le: "unat d \<le> unat ?r" by (simp add: word_le_nat_alt)
      have "\<not> bit (value64 q) p"
        using Suc.prems(2) by (simp add: bit_iff_odd mult.assoc)
      then have "value64 (set_bit64 q p) = value64 q + 2 ^ p"
        using Suc.prems(1) by (simp add: value64_set_bit64 set_bit_eq)
      then have q2: "value64 (set_bit64 q p) = 2 ^ p * (value64 n div 2 ^ p div unat d)"
        using le Suc.prems(2) by (simp add: div_e algebra_simps)
      have r2: "unat (?r - d) = value64 n div 2 ^ p mod unat d"
        using le True by (simp add: mod_e unat_sub)
      show ?thesis
        using Suc.IH [OF _ q2 r2] Suc.prems True by (simp add: Let_def)
    next
      case False
      then have "\<not> unat d \<le> unat ?r" by (simp add: word_le_nat_alt)
      then show ?thesis
        using Suc.IH [of q ?r] Suc.prems False by (simp add: Let_def div_e mod_e algebra_simps)
    qed
  qed
  then show "value64 q' = value64 n div unat d" "unat r' = value64 n mod unat d" by auto
qed


lemma divide_unsigned_64_by_32_correct:
  assumes "0 < unat d" "unat d \<le> 2 ^ 31" "divide_unsigned_64_by_32 n d = (q, r)"
  shows "value64 q = value64 n div unat d" "unat r = value64 n mod unat d"
proof -
  have z: "value64 n div 2 ^ 64 = 0" using value64_less [of n] by simp
  show "value64 q = value64 n div unat d" "unat r = value64 n mod unat d"
    using divide_bits_loop_correct [of d 64 "\<lparr>low = 0, high = 0\<rparr>" n 0 q r] assms z
    by (simp_all add: divide_unsigned_64_by_32_def value64_def [of "\<lparr>low = 0, high = 0\<rparr>"])
qed

lemma unat_u16_less: "unat (x :: u16) < 65536"
  using unsigned_less [of x, where ?'a = nat] by simp

lemma unat_ucast_u16 [simp]: "unat (ucast (x :: u16) :: u32) = unat x"
  using unat_u16_less [of x] by (simp add: unsigned_ucast_eq take_bit_eq_mod)

lemma unat_ucast_down_16: "unat (x :: u32) < 65536 \<Longrightarrow> unat (ucast x :: u16) = unat x"
  by (simp add: take_bit_eq_mod unsigned_ucast_eq)

lemma divide_unsigned_64_by_16_bits_correct:
  assumes "0 < unat d" "bits \<le> 64" "value64 n < 2 ^ bits"
    and "divide_unsigned_64_by_16_bits n d bits = (q, r)"
  shows "value64 q = value64 n div unat d" "unat r = value64 n mod unat d"
proof -
  let ?d = "ucast d :: u32"
  obtain r' where r': "divide_bits_loop n ?d bits \<lparr>low = 0, high = 0\<rparr> 0 = (q, r')" "r = ucast r'"
    using assms(4) by (auto simp: divide_unsigned_64_by_16_bits_def split: prod.splits)
  have d: "0 < unat ?d" "unat ?d \<le> 2 ^ 31" "unat ?d < 65536"
    using assms(1) unat_u16_less [of d] by simp_all
  have "value64 q = value64 n div unat ?d" "unat r' = value64 n mod unat ?d"
    using divide_bits_loop_correct [OF d(1,2) assms(2) _ _ r'(1)] assms(3)
    by (simp_all add: value64_def [of "\<lparr>low = 0, high = 0\<rparr>"])
  moreover have "value64 n mod unat ?d < 65536"
    using d mod_less_divisor [of "unat ?d" "value64 n"] by linarith
  ultimately show "value64 q = value64 n div unat d" "unat r = value64 n mod unat d"
    by (simp_all add: r'(2) unat_ucast_down_16)
qed

lemma divide_unsigned_32_by_16_loop_sim:
  "p \<le> 32 \<Longrightarrow> divide_unsigned_32_by_16_loop n d p q r = (q', r') \<Longrightarrow>
     divide_bits_loop \<lparr>low = n, high = 0\<rparr> d p \<lparr>low = q, high = 0\<rparr> r = (\<lparr>low = q', high = 0\<rparr>, r')"
proof (induction p arbitrary: q r)
  case (Suc p)
  have b: "ucast (bit_at \<lparr>low = n, high = 0\<rparr> p) = drop_bit p n AND 1"
    using Suc.prems(1) by (simp add: bit_at_def drop_bit_and_1)
  show ?case
    using Suc by (simp add: b set_bit64_def Let_def split: if_splits)
qed simp

lemma divide_unsigned_32_by_16_correct:
  assumes "0 < unat d" "divide_unsigned_32_by_16 n d = (q, r)"
  shows "unat q = unat n div unat d" "unat r = unat n mod unat d"
proof -
  obtain r' where r': "divide_unsigned_32_by_16_loop n (ucast d) 32 0 0 = (q, r')" "r = ucast r'"
    using assms(2) by (auto simp: divide_unsigned_32_by_16_def split: prod.splits)
  have "divide_unsigned_64_by_16_bits \<lparr>low = n, high = 0\<rparr> d 32 = (\<lparr>low = q, high = 0\<rparr>, r)"
    using divide_unsigned_32_by_16_loop_sim [OF _ r'(1)]
    by (simp add: divide_unsigned_64_by_16_bits_def r'(2))
  from divide_unsigned_64_by_16_bits_correct [OF assms(1) _ _ this]
  show "unat q = unat n div unat d" "unat r = unat n mod unat d"
    using unat_u32_less [of n] by (simp_all add: value64_def)
qed


subsection \<open>Integer square root by bisection\<close>

definition fits64 :: "Unsigned64 \<Rightarrow> Unsigned64 \<Rightarrow> bool" where
  "fits64 square target \<longleftrightarrow>
     high square < high target \<or> (high square = high target \<and> low square \<le> low target)"

lemma fits64_value64: "fits64 v w \<longleftrightarrow> value64 v \<le> value64 w"
proof (cases "high v = high w")
  case True
  then show ?thesis by (simp add: fits64_def value64_def word_le_nat_alt)
next
  case False
  then have ne: "unat (high v) \<noteq> unat (high w)" by (simp add: word_unat_eq_iff)
  show ?thesis
  proof (cases "unat (high v) < unat (high w)")
    case True
    then have "(unat (high v) + 1) * 2 ^ 32 \<le> unat (high w) * 2 ^ 32" by (intro mult_right_mono) simp_all
    then show ?thesis
      using True False unat_u32_less [of "low v"] by (simp add: fits64_def value64_def word_less_nat_alt)
  next
    case nl: False
    with ne have "unat (high w) + 1 \<le> unat (high v)" by simp
    then have "(unat (high w) + 1) * 2 ^ 32 \<le> unat (high v) * 2 ^ 32" by (intro mult_right_mono) simp_all
    then show ?thesis
      using nl False unat_u32_less [of "low w"] by (simp add: fits64_def value64_def word_less_nat_alt)
  qed
qed

function sqrt_floor_loop :: "Unsigned64 \<Rightarrow> u32 \<Rightarrow> u32 \<Rightarrow> u32 \<Rightarrow> u32" where
  "sqrt_floor_loop target lo hi answer =
     (let middle = lo + drop_bit 1 (hi - lo);
          square = multiply_unsigned_32 middle middle
      in if fits64 square target
         then (if middle = 0xffffffff then middle
               else if middle + 1 > hi then middle
               else sqrt_floor_loop target (middle + 1) hi middle)
         else (if middle = 0 then answer
               else if lo > middle - 1 then answer
               else sqrt_floor_loop target lo (middle - 1) answer))"
  by pat_completeness auto

lemma unat_middle:
  assumes "lo \<le> (hi :: u32)"
  shows "unat (lo + drop_bit 1 (hi - lo)) = unat lo + (unat hi - unat lo) div 2"
proof -
  have "unat (drop_bit 1 (hi - lo)) = (unat hi - unat lo) div 2"
    using assms by (subst unat_drop_bit_div) (simp add: unat_sub)
  moreover have "unat lo + (unat hi - unat lo) div 2 < 2 ^ 32"
    using assms unat_u32_less [of hi] by (simp add: word_le_nat_alt)
  ultimately show ?thesis by (simp add: unat_word_ariths)
qed

lemma unat_plus_one: "(x :: u32) \<noteq> 0xffffffff \<Longrightarrow> unat (x + 1) = unat x + 1"
proof -
  assume "x \<noteq> 0xffffffff"
  then have "unat x \<noteq> 4294967295" using word_unat_eq_iff [of x "0xffffffff"] by simp
  then have "unat x + 1 < 2 ^ 32" using unat_u32_less [of x] by simp
  then show ?thesis by (simp add: unat_word_ariths)
qed

lemma unat_minus_1: "(x :: u32) \<noteq> 0 \<Longrightarrow> unat (x - 1) = unat x - 1"
  by (rule unat_minus_one)

termination sqrt_floor_loop
proof (relation "measure (\<lambda>(target, lo, hi, answer). if lo \<le> hi then unat hi - unat lo else 2 ^ 32)",
    goal_cases)
  case 1
  show ?case by simp
next
  case (2 target lo hi answer middle square)
  show ?case
  proof (cases "lo \<le> hi")
    case True
    have "unat (middle + 1) = unat middle + 1" using 2(4) by (rule unat_plus_one)
    moreover have "unat middle = unat lo + (unat hi - unat lo) div 2"
      unfolding 2(1) by (rule unat_middle [OF True])
    ultimately show ?thesis
      using 2(5) True by (simp add: word_le_nat_alt word_less_nat_alt) arith
  next
    case False
    then show ?thesis
      using 2(5) unat_u32_less [of hi] by (simp add: word_le_nat_alt word_less_nat_alt)
  qed
next
  case (3 target lo hi answer middle square)
  show ?case
  proof (cases "lo \<le> hi")
    case True
    have "unat (middle - 1) = unat middle - 1" "0 < unat middle"
      using 3(4) by (simp_all add: unat_minus_1 unat_gt_0)
    moreover have "unat middle = unat lo + (unat hi - unat lo) div 2"
      unfolding 3(1) by (rule unat_middle [OF True])
    ultimately show ?thesis
      using 3(5) True by (simp add: word_le_nat_alt word_less_nat_alt) arith
  next
    case False
    then show ?thesis
      using 3(5) unat_u32_less [of "middle - 1"] by (simp add: word_le_nat_alt word_less_nat_alt)
  qed
qed

declare sqrt_floor_loop.simps [simp del]

definition sqrt_floor_unsigned_64 :: "Unsigned64 \<Rightarrow> u32" where
  "sqrt_floor_unsigned_64 target = sqrt_floor_loop target 0 0xffffffff 0"

lemma sqrt_floor_loop_correct:
  assumes "lo \<le> hi"
    and "unat lo = 0 \<and> answer = 0 \<or> unat lo = unat answer + 1 \<and> (unat answer)\<^sup>2 \<le> value64 target"
    and "value64 target < (unat hi + 1)\<^sup>2"
  defines "r \<equiv> unat (sqrt_floor_loop target lo hi answer)"
  shows "r\<^sup>2 \<le> value64 target \<and> value64 target < (r + 1)\<^sup>2"
  using assms(1-3) unfolding r_def
proof (induction target lo hi answer rule: sqrt_floor_loop.induct)
  case (1 target lo hi answer)
  define m where "m = lo + drop_bit 1 (hi - lo)"
  note unfold = sqrt_floor_loop.simps [of target lo hi answer, folded m_def, unfolded Let_def]
  note IH = "1.IH" [OF m_def refl]
  have mid: "unat m = unat lo + (unat hi - unat lo) div 2"
    unfolding m_def by (rule unat_middle [OF "1.prems"(1)])
  have sq: "value64 (multiply_unsigned_32 m m) = (unat m)\<^sup>2"
    by (simp add: value64_multiply_unsigned_32 power2_eq_square)
  have lh: "unat lo \<le> unat hi" using "1.prems"(1) by (simp add: word_le_nat_alt)
  show ?case
  proof (cases "fits64 (multiply_unsigned_32 m m) target")
    case True
    then have le: "(unat m)\<^sup>2 \<le> value64 target" by (simp add: fits64_value64 sq)
    show ?thesis
    proof (cases "m = 0xffffffff")
      case ff: True
      then have "sqrt_floor_loop target lo hi answer = 0xffffffff"
        using True by (simp add: unfold)
      then show ?thesis using le ff value64_less [of target] by (simp add: power2_eq_square)
    next
      case nf: False
      note m1 = unat_plus_one [OF nf]
      show ?thesis
      proof (cases "m + 1 > hi")
        case out: True
        then have "unat m = unat hi" using lh mid m1 by (simp add: word_less_nat_alt)
        moreover have "sqrt_floor_loop target lo hi answer = m"
          using True nf out by (simp add: unfold)
        ultimately show ?thesis using le "1.prems"(3) by simp
      next
        case False
        have "sqrt_floor_loop target lo hi answer = sqrt_floor_loop target (m + 1) hi m"
          using True nf False by (simp add: unfold)
        then show ?thesis
          using IH(1) [OF True nf False] le m1 "1.prems"(3) False by simp
      qed
    qed
  next
    case False
    then have gt: "value64 target < (unat m)\<^sup>2" by (simp add: fits64_value64 sq)
    then have n0: "m \<noteq> 0" by auto
    note m1 = unat_minus_1 [OF n0]
    have mpos: "0 < unat m" using n0 by (simp add: unat_gt_0)
    show ?thesis
    proof (cases "lo > m - 1")
      case out: True
      then have eq: "unat m = unat lo" using mid m1 mpos by (simp add: word_less_nat_alt)
      moreover have "sqrt_floor_loop target lo hi answer = answer"
        using False n0 out by (simp add: unfold)
      ultimately show ?thesis using gt "1.prems"(2) mpos by auto
    next
      case inside: False
      have "sqrt_floor_loop target lo hi answer = sqrt_floor_loop target lo (m - 1) answer"
        using False n0 inside by (simp add: unfold)
      then show ?thesis
        using IH(2) [OF False n0 inside] gt m1 mpos "1.prems"(2) inside by simp
    qed
  qed
qed

lemma sqrt_floor_unsigned_64_correct:
  defines "r \<equiv> \<lambda>target. unat (sqrt_floor_unsigned_64 target)"
  shows "(r target)\<^sup>2 \<le> value64 target \<and> value64 target < (r target + 1)\<^sup>2"
  unfolding r_def sqrt_floor_unsigned_64_def
  using value64_less [of target] by (intro sqrt_floor_loop_correct) (simp_all add: power2_eq_square)

end
