(* ===== verification/Fault_Status.thy ===== *)
theory Fault_Status
  imports Ksa_Prelude
begin

text \<open>
  The fault register of \<^verbatim>\<open>core/src/numeric.rs\<close>. Every fixed-point routine of the
  program takes \<^verbatim>\<open>status: &mut NumericStatus\<close>; it is modelled as a computation in
  the state monad over the register. Two views of such a computation carry all
  later proofs: it is \<^emph>\<open>sticky\<close> when it never clears a recorded fault, and it is
  \<^emph>\<open>clean\<close> with a result when, started on a clear register, it returns that result
  and leaves the register clear. For sticky computations the clean runs of a
  sequence are exactly the sequences of clean runs (\<^verbatim>\<open>clean_bind\<close>).
\<close>

unbundle bit_operations_syntax

datatype NumericFault = Saturation | DivisionByZero | InvalidShift | InvalidInput

fun fault_bits :: "NumericFault \<Rightarrow> u8" where
  "fault_bits Saturation = 0x01"
| "fault_bits DivisionByZero = 0x02"
| "fault_bits InvalidShift = 0x04"
| "fault_bits InvalidInput = 0x08"

type_synonym NumericStatus = u8

type_synonym 'a num = "(NumericStatus, 'a) state"

definition CLEAR :: NumericStatus where
  "CLEAR = 0"

definition is_clear :: "NumericStatus \<Rightarrow> bool" where
  "is_clear status \<longleftrightarrow> status = 0"

definition contains_fault :: "NumericStatus \<Rightarrow> NumericFault \<Rightarrow> bool" where
  "contains_fault status fault \<longleftrightarrow> status AND fault_bits fault \<noteq> 0"

definition record_fault :: "NumericFault \<Rightarrow> unit num" where
  "record_fault fault = State (\<lambda>status. ((), status OR fault_bits fault))"

definition fail_with :: "NumericFault \<Rightarrow> 'a \<Rightarrow> 'a num" where
  "fail_with fault value = do { record_fault fault; State_Monad.return value }"

named_theorems sticky \<open>recorded faults are never lost\<close>
named_theorems clean \<open>what a run that records no fault returns\<close>

definition sticky :: "'a num \<Rightarrow> bool" where
  "sticky m \<longleftrightarrow> state_io_rel (\<lambda>st st'. st AND st' = st) m"

definition clean :: "'a num \<Rightarrow> 'a \<Rightarrow> bool" where
  "clean m x \<longleftrightarrow> run_state m CLEAR = (x, CLEAR)"

lemma stickyD: "sticky m \<Longrightarrow> run_state m st = (x, st') \<Longrightarrow> st AND st' = st"
  unfolding sticky_def by (drule (1) state_io_relD) simp

lemma stickyI: "(\<And>st x st'. run_state m st = (x, st') \<Longrightarrow> st AND st' = st) \<Longrightarrow> sticky m"
  unfolding sticky_def by (rule state_io_relI) blast

lemma sticky_clear: "sticky m \<Longrightarrow> run_state m st = (x, CLEAR) \<Longrightarrow> st = CLEAR"
  by (drule (1) stickyD) (simp add: CLEAR_def)

lemma run_state_record_fault [simp]: "run_state (record_fault f) st = ((), st OR fault_bits f)"
  by (simp add: record_fault_def)

lemma run_state_fail_with [simp]: "run_state (fail_with f v) st = (v, st OR fault_bits f)"
  by (simp add: fail_with_def)

lemma fault_bits_neq_0 [simp]: "fault_bits f \<noteq> 0"
  by (cases f) simp_all

lemma and_or_absorb: "(a :: u8) AND (a OR b) = a"
  by (rule bit_word_eqI) (auto simp: bit_simps)

lemma sticky_return [sticky]: "sticky (State_Monad.return x)"
  by (rule stickyI) auto

lemma sticky_record_fault [sticky]: "sticky (record_fault f)"
  by (rule stickyI) (auto simp: and_or_absorb)

lemma sticky_bind [sticky]:
  assumes "sticky m" "\<And>x. sticky (f x)"
  shows "sticky (State_Monad.bind m f)"
proof (rule stickyI)
  fix st y st'
  assume "run_state (State_Monad.bind m f) st = (y, st')"
  then obtain x s where "run_state m st = (x, s)" "run_state (f x) s = (y, st')"
    by (auto split: prod.splits)
  then have "st AND s = st" "s AND st' = s" using assms by (auto dest: stickyD)
  then show "st AND st' = st" by (metis and.assoc)
qed

lemma sticky_fail_with [sticky]: "sticky (fail_with f v)"
  by (simp add: fail_with_def sticky)

lemma sticky_if [sticky]: "sticky m \<Longrightarrow> sticky n \<Longrightarrow> sticky (if b then m else n)"
  by simp

lemma or_eq_0_u8: "(a :: u8) OR b = 0 \<longleftrightarrow> a = 0 \<and> b = 0"
  by (simp add: or_eq_0_iff)

lemma clean_return [clean]: "clean (State_Monad.return x) y \<longleftrightarrow> x = y"
  by (simp add: clean_def)

lemma clean_fail_with [clean]: "\<not> clean (fail_with f v) y"
  by (simp add: clean_def CLEAR_def)

lemma clean_bind [clean]:
  assumes "\<And>x. sticky (f x)"
  shows "clean (State_Monad.bind m f) y \<longleftrightarrow> (\<exists>x. clean m x \<and> clean (f x) y)"
  using assms by (auto simp: clean_def split: prod.splits dest: sticky_clear)

lemma clean_bindI: "clean m x \<Longrightarrow> clean (f x) y \<Longrightarrow> clean (State_Monad.bind m f) y"
  by (simp add: clean_def)

lemma clean_unique: "clean m x \<Longrightarrow> clean m y \<Longrightarrow> x = y"
  by (simp add: clean_def)

end
