(* ===== verification/Numeric.thy ===== *)
theory Numeric
  imports Limb_Arithmetic Fault_Status
begin

text \<open>
  The public fixed-point primitives of \<^verbatim>\<open>core/src/numeric.rs\<close>: scaled multiplication,
  scaled division (rounding, truncating and the reduced 16-bit fast path), addition
  and subtraction. Each is proved equal to an integer specification: the exact
  result, rounded half away from zero, saturated to the range of \<^verbatim>\<open>i32\<close>, with the
  fault register updated accordingly.
\<close>

definition i32_MIN :: i32 where "i32_MIN = 0x80000000"
definition i32_MAX :: i32 where "i32_MAX = 0x7fffffff"

definition signed_from_magnitude :: "Unsigned64 \<Rightarrow> bool \<Rightarrow> i32 num" where
  "signed_from_magnitude value negative =
     (if negative
      then (if high value \<noteq> 0 \<or> 0x80000000 < low value then fail_with Saturation i32_MIN
            else if low value = 0x80000000 then State_Monad.return i32_MIN
            else State_Monad.return (- low value))
      else (if high value \<noteq> 0 \<or> 0x7fffffff < low value then fail_with Saturation i32_MAX
            else State_Monad.return (low value)))"

definition multiply_scaled :: "i32 \<Rightarrow> i32 \<Rightarrow> nat \<Rightarrow> i32 num" where
  "multiply_scaled a b shift =
     (if 31 < shift then fail_with InvalidShift 0
      else let negative = ((a <s 0) \<noteq> (b <s 0));
               product = multiply_unsigned_32 (magnitude a) (magnitude b);
               product = (if shift \<noteq> 0 then add_words product (push_bit (shift - 1) 1) 0 else product)
           in signed_from_magnitude (shift_right product shift) negative)"

definition divide_scaled :: "i32 \<Rightarrow> i32 \<Rightarrow> nat \<Rightarrow> i32 num" where
  "divide_scaled numerator denominator shift =
     (if denominator = 0 then fail_with DivisionByZero 0
      else if 31 < shift then fail_with InvalidShift 0
      else let negative = ((numerator <s 0) \<noteq> (denominator <s 0));
               divisor = magnitude denominator;
               shifted = shift_left_32 (magnitude numerator) shift;
               (quot, remainder) = divide_unsigned_64_by_32 shifted divisor;
               quot = (if divisor - remainder \<le> remainder then increment quot else quot)
           in signed_from_magnitude quot negative)"

definition divide_scaled_truncating :: "i32 \<Rightarrow> i32 \<Rightarrow> nat \<Rightarrow> i32 num" where
  "divide_scaled_truncating numerator denominator shift =
     (if denominator = 0 then fail_with DivisionByZero 0
      else if 31 < shift then fail_with InvalidShift 0
      else let negative = ((numerator <s 0) \<noteq> (denominator <s 0));
               shifted = shift_left_32 (magnitude numerator) shift;
               (quot, _) = divide_unsigned_64_by_32 shifted (magnitude denominator)
           in signed_from_magnitude quot negative)"

definition divide_scaled_reduced_u16 :: "nat \<Rightarrow> nat \<Rightarrow> nat \<Rightarrow> i32 \<Rightarrow> i32 \<Rightarrow> i32 num" where
  "divide_scaled_reduced_u16 SHIFT DENOMINATOR_REDUCTION NUMERATOR_BITS numerator denominator =
     (if 31 < SHIFT \<or> SHIFT < DENOMINATOR_REDUCTION \<or> NUMERATOR_BITS = 0 \<or> 32 < NUMERATOR_BITS
         \<or> 64 < NUMERATOR_BITS + SHIFT - DENOMINATOR_REDUCTION
      then divide_scaled numerator denominator SHIFT
      else let divisor = magnitude denominator;
               reduction_mask =
                 (if DENOMINATOR_REDUCTION = 0 then 0 else push_bit DENOMINATOR_REDUCTION 1 - 1);
               reduced_divisor = drop_bit DENOMINATOR_REDUCTION divisor;
               numerator_magnitude = magnitude numerator;
               numerator_fits =
                 (NUMERATOR_BITS = 32 \<or> numerator_magnitude < push_bit NUMERATOR_BITS 1)
           in if denominator = 0 \<or> divisor AND reduction_mask \<noteq> 0 \<or> reduced_divisor = 0
                 \<or> 0xffff < reduced_divisor \<or> \<not> numerator_fits
              then divide_scaled numerator denominator SHIFT
              else let reduced_shift = SHIFT - DENOMINATOR_REDUCTION;
                       shifted = shift_left_32 numerator_magnitude reduced_shift;
                       bit_count = NUMERATOR_BITS + reduced_shift;
                       (quot, remainder) =
                         divide_unsigned_64_by_16_bits shifted (ucast reduced_divisor) bit_count;
                       quot = (if reduced_divisor - ucast remainder \<le> ucast remainder
                               then increment quot else quot)
                   in signed_from_magnitude quot ((numerator <s 0) \<noteq> (denominator <s 0)))"

subsection \<open>Addition and subtraction\<close>

definition add_i32 :: "i32 \<Rightarrow> i32 \<Rightarrow> i32 num" where
  "add_i32 a b =
     (if 0 <s b \<and> i32_MAX - b <s a then fail_with Saturation i32_MAX
      else if b <s 0 \<and> a <s i32_MIN - b then fail_with Saturation i32_MIN
      else State_Monad.return (a + b))"

definition subtract_i32 :: "i32 \<Rightarrow> i32 \<Rightarrow> i32 num" where
  "subtract_i32 a b =
     (if 0 <s b \<and> a <s i32_MIN + b then fail_with Saturation i32_MIN
      else if b <s 0 \<and> i32_MAX + b <s a then fail_with Saturation i32_MAX
      else State_Monad.return (a - b))"

subsection \<open>Reference arithmetic\<close>

definition saturating_i32 :: "int \<Rightarrow> i32 num" where
  "saturating_i32 x =
     (if x < - (2 ^ 31) then fail_with Saturation i32_MIN
      else if 2 ^ 31 - 1 < x then fail_with Saturation i32_MAX
      else State_Monad.return (word_of_int x))"

definition round_half_away :: "int \<Rightarrow> int \<Rightarrow> int" where
  "round_half_away n d = sgn n * sgn d * ((2 * \<bar>n\<bar> + \<bar>d\<bar>) div (2 * \<bar>d\<bar>))"

definition truncate_div :: "int \<Rightarrow> int \<Rightarrow> int" where
  "truncate_div n d = sgn n * sgn d * (\<bar>n\<bar> div \<bar>d\<bar>)"

lemma saturating_i32_in_range:
  "- 2147483648 \<le> x \<Longrightarrow> x \<le> 2147483647 \<Longrightarrow> saturating_i32 x = State_Monad.return (word_of_int x)"
  by (simp add: saturating_i32_def)

lemma sint_i32_ge: "- 2147483648 \<le> sint (x :: i32)"
  using sint_ge [of x] by simp

lemma sint_i32_less: "sint (x :: i32) < 2147483648"
  using sint_lt [of x] by simp

lemma sint_word_of_int_i32:
  "- 2147483648 \<le> x \<Longrightarrow> x < 2147483648 \<Longrightarrow> sint (word_of_int x :: i32) = x"
  by (simp add: sint_sbintrunc' signed_take_bit_int_eq_self)

lemma sint_uint_i32: "sint (x :: i32) = (if uint x < 2147483648 then uint x else uint x - 4294967296)"
proof (cases "uint x < 2147483648")
  case True
  have "sint x = sint (word_of_int (uint x) :: i32)" by simp
  also have "\<dots> = uint x" using True uint_nonnegative [of x] by (intro sint_word_of_int_i32) linarith+
  finally show ?thesis using True by simp
next
  case False
  have "(4294967296 :: i32) = 0" by (simp add: word_uint_eq_iff)
  then have "word_of_int (uint x - 4294967296) = x" by simp
  then have "sint x = sint (word_of_int (uint x - 4294967296) :: i32)" by (simp only:)
  also have "\<dots> = uint x - 4294967296"
    using False uint_bounded [of x] by (intro sint_word_of_int_i32) simp_all
  finally show ?thesis using False by simp
qed

lemma uint_eq_sint: "0 \<le> sint (x :: i32) \<Longrightarrow> uint x = sint x"
  using uint_bounded [of x] by (simp add: sint_uint_i32 split: if_splits)

lemma unat_magnitude: "int (unat (magnitude a)) = \<bar>sint a\<bar>"
proof -
  have b: "uint a < 4294967296" using uint_bounded [of a] by simp
  consider "a = 0x80000000" | "a \<noteq> 0x80000000" "a <s 0" | "\<not> a <s 0" "a \<noteq> 0x80000000" by blast
  then show ?thesis
  proof cases
    case 2
    then have "sint a < 0" by (simp add: word_sless_alt)
    moreover have "uint a \<noteq> 2147483648" using 2 by (simp add: word_uint_eq_iff)
    moreover have "uint (- a) = 4294967296 - uint a"
      using calculation b by (subst uint_word_ariths) (simp add: sint_uint_i32 mod_minus_eq zmod_zminus1_eq_if split: if_splits)
    ultimately show ?thesis using 2 b by (simp add: magnitude_def sint_uint_i32 uint_nat [symmetric] split: if_splits)
  next
    case 3
    then have "0 \<le> sint a" by (simp add: word_sless_alt)
    then show ?thesis using 3 b by (simp add: magnitude_def sint_uint_i32 uint_nat [symmetric] split: if_splits)
  qed (simp add: magnitude_def)
qed


lemma uint_magnitude: "uint (magnitude a) = \<bar>sint a\<bar>"
  using unat_magnitude [of a] by simp

lemma unat_magnitude_le: "unat (magnitude a) \<le> 2147483648"
  using unat_magnitude [of a] sint_i32_ge [of a] sint_i32_less [of a] by linarith

lemma magnitude_eq_0 [simp]: "unat (magnitude a) = 0 \<longleftrightarrow> a = 0"
proof -
  have "int (unat (magnitude a)) = 0 \<longleftrightarrow> a = 0"
    by (simp only: unat_magnitude abs_eq_0 signed_eq_0_iff)
  then show ?thesis by (simp only: of_nat_eq_0_iff)
qed

lemma signed_from_magnitude_eq:
  "signed_from_magnitude v negative =
     saturating_i32 (if negative then - int (value64 v) else int (value64 v))"
proof (cases "high v = 0")
  case True
  then have v: "int (value64 v) = uint (low v)" by (simp add: value64_def)
  have n: "\<not> 2147483647 < - uint (low v)" "\<not> uint (low v) < - 2147483648"
    using uint_nonnegative [of "low v"] by linarith+
  have m: "(- 2147483648 :: u32) = 2147483648" by (simp add: word_uint_eq_iff)
  have e: "low v = 0x80000000 \<longleftrightarrow> uint (low v) = 2147483648"
    by (simp add: word_uint_eq_iff)
  show ?thesis
    unfolding signed_from_magnitude_def saturating_i32_def v
    using True n by (cases "low v = 0x80000000") (auto simp: e m word_less_alt i32_MIN_def i32_MAX_def)
next
  case False
  then have "unat (high v) \<noteq> 0" by (simp add: unat_0_iff)
  then have "1 * 2 ^ 32 \<le> unat (high v) * 2 ^ 32" by (intro mult_right_mono) simp_all
  then have "2 ^ 32 \<le> value64 v" by (simp add: value64_def)
  then show ?thesis
    using False by (simp add: signed_from_magnitude_def saturating_i32_def)
qed

lemma sgn_product_cases:
  fixes x y q :: int
  assumes "x = 0 \<or> y = 0 \<Longrightarrow> q = 0"
  shows "(if (x < 0) \<noteq> (y < 0) then - q else q) = sgn x * sgn y * q"
  using assms by (auto simp: sgn_if)

theorem multiply_scaled_eq:
  "multiply_scaled a b shift =
     (if 31 < shift then fail_with InvalidShift 0
      else saturating_i32 (round_half_away (sint a * sint b) (2 ^ shift)))"
proof (cases "31 < shift")
  case False
  let ?p = "multiply_unsigned_32 (magnitude a) (magnitude b)"
  let ?q = "if shift \<noteq> 0 then add_words ?p (push_bit (shift - 1) 1) 0 else ?p"
  let ?N = "unat (magnitude a) * unat (magnitude b)"
  have "?N \<le> 2147483648 * 2147483648"
    using unat_magnitude_le [of a] unat_magnitude_le [of b] by (intro mult_mono) simp_all
  moreover have "unat (push_bit (shift - 1) 1 :: u32) = 2 ^ (shift - 1)" if "shift \<noteq> 0"
  proof -
    have "(2::nat) ^ (shift - 1) < 2 ^ 32"
      using False by (intro power_strict_increasing) simp_all
    then show ?thesis by (subst unat_push_bit_mod) simp
  qed
  moreover have "(2::nat) ^ (shift - 1) \<le> 2 ^ 31" using False by (intro power_increasing) simp_all
  ultimately have q: "value64 ?q = ?N + (if shift \<noteq> 0 then 2 ^ (shift - 1) else 0)"
    by (simp add: value64_add_words value64_multiply_unsigned_32)
  have r: "value64 (shift_right ?q shift) = (2 * ?N + 2 ^ shift) div (2 * 2 ^ shift)"
  proof (cases "shift = 0")
    case False
    then have "2 * ?N + 2 ^ shift = 2 * (?N + 2 ^ (shift - 1))"
      by (simp add: power_eq_if)
    then have "(2 * ?N + 2 ^ shift) div (2 * 2 ^ shift) = (?N + 2 ^ (shift - 1)) div 2 ^ shift"
      by (simp only: div_mult_mult1 zero_neq_numeral not_False_eq_True)
    with \<open>\<not> 31 < shift\<close> False q show ?thesis by (simp add: value64_shift_right)
  qed (simp add: value64_shift_right value64_multiply_unsigned_32)
  have N: "int ?N = \<bar>sint a * sint b\<bar>" by (simp add: uint_magnitude abs_mult)
  define Q where "Q = int (value64 (shift_right ?q shift))"
  have Q: "Q = (2 * \<bar>sint a * sint b\<bar> + 2 ^ shift) div (2 * 2 ^ shift)"
    unfolding Q_def r N [symmetric] by (simp add: zdiv_int)
  have "multiply_scaled a b shift =
      saturating_i32 (if (sint a < 0) \<noteq> (sint b < 0) then - Q else Q)"
    using False by (simp add: multiply_scaled_def signed_from_magnitude_eq word_sless_alt Let_def Q_def)
  also have "(if (sint a < 0) \<noteq> (sint b < 0) then - Q else Q) = sgn (sint a) * sgn (sint b) * Q"
    by (rule sgn_product_cases) (auto simp: Q)
  finally show ?thesis
    using False by (simp add: round_half_away_def sgn_mult Q)
qed (simp add: multiply_scaled_def)

lemma round_up_quotient:
  fixes n d :: nat
  assumes "0 < d"
  shows "n div d + (if d - n mod d \<le> n mod d then 1 else 0) = (2 * n + d) div (2 * d)"
proof -
  have lt: "n mod d < d" using assms by simp
  have "2 * n + d = (2 * (n mod d) + d) + (n div d) * (2 * d)"
    using div_mult_mod_eq [of n d] by (metis add.assoc add.commute distrib_left mult.assoc mult.left_commute)
  then have "(2 * n + d) div (2 * d) = n div d + (2 * (n mod d) + d) div (2 * d)"
    using assms by (metis add.commute div_mult_self1 mult_eq_0_iff neq0_conv zero_neq_numeral)
  also have "(2 * (n mod d) + d) div (2 * d) = (if 2 * d \<le> 2 * (n mod d) + d then 1 else 0)"
    using lt by (intro div_two_step) simp
  finally show ?thesis using lt by auto
qed


lemma divide_rounded_value:
  assumes "0 < unat d" "unat d \<le> 2 ^ 31" "value64 n < 2 ^ 63"
    and "value64 q = value64 n div unat d" "unat r = value64 n mod unat d"
  shows "value64 (if d - r \<le> r then increment q else q) = (2 * value64 n + unat d) div (2 * unat d)"
proof -
  have lt: "value64 n mod unat d < unat d" using assms(1) by simp
  then have "r \<le> d" using assms(5) by (simp add: word_le_nat_alt)
  then have "d - r \<le> r \<longleftrightarrow> unat d - value64 n mod unat d \<le> value64 n mod unat d"
    by (simp add: word_le_nat_alt unat_sub assms(5))
  moreover have "value64 n div unat d + 1 < 2 ^ 64"
  proof -
    have "value64 n div unat d < 2 ^ 63"
      using div_le_dividend assms(3) by (rule le_less_trans)
    then show ?thesis by simp
  qed
  ultimately show ?thesis
    using round_up_quotient [OF assms(1), of "value64 n"]
    by (simp add: value64_increment assms(4) split: if_splits)
qed

lemma value64_shifted_magnitude:
  assumes "s \<le> 31"
  shows "value64 (shift_left_32 (magnitude a) s) < 2 ^ 63"
    "int (value64 (shift_left_32 (magnitude a) s)) = \<bar>sint a * 2 ^ s\<bar>"
proof -
  have v: "value64 (shift_left_32 (magnitude a) s) = unat (magnitude a) * 2 ^ s"
    using assms by (rule value64_shift_left_32)
  have "unat (magnitude a) * 2 ^ s \<le> 2147483648 * 2 ^ 31"
    using unat_magnitude_le [of a] assms by (intro mult_mono power_increasing) simp_all
  then show "value64 (shift_left_32 (magnitude a) s) < 2 ^ 63" unfolding v by simp
  show "int (value64 (shift_left_32 (magnitude a) s)) = \<bar>sint a * 2 ^ s\<bar>"
    unfolding v by (simp add: uint_magnitude abs_mult)
qed

lemma divide_scaled_value:
  assumes "b \<noteq> 0" "s \<le> 31"
    and "(q, r) = divide_unsigned_64_by_32 (shift_left_32 (magnitude a) s) (magnitude b)"
  shows "int (value64 q) = \<bar>sint a * 2 ^ s\<bar> div \<bar>sint b\<bar>"
    "int (value64 (if magnitude b - r \<le> r then increment q else q))
       = (2 * \<bar>sint a * 2 ^ s\<bar> + \<bar>sint b\<bar>) div (2 * \<bar>sint b\<bar>)"
proof -
  let ?n = "shift_left_32 (magnitude a) s" and ?d = "magnitude b"
  have d: "0 < unat ?d" "unat ?d \<le> 2 ^ 31"
    using assms(1) magnitude_eq_0 [of b] unat_magnitude_le [of b] by (auto simp del: magnitude_eq_0)
  note qr = divide_unsigned_64_by_32_correct [OF d assms(3) [symmetric]]
  note n = value64_shifted_magnitude [OF assms(2), of a]
  show "int (value64 q) = \<bar>sint a * 2 ^ s\<bar> div \<bar>sint b\<bar>"
    unfolding qr n(2) [symmetric] unat_magnitude [symmetric] by (rule zdiv_int)
  show "int (value64 (if ?d - r \<le> r then increment q else q))
       = (2 * \<bar>sint a * 2 ^ s\<bar> + \<bar>sint b\<bar>) div (2 * \<bar>sint b\<bar>)"
    unfolding divide_rounded_value [OF d n(1) qr] n(2) [symmetric] unat_magnitude [symmetric]
    by (simp add: zdiv_int)
qed

theorem divide_scaled_eq:
  "divide_scaled a b s =
     (if b = 0 then fail_with DivisionByZero 0
      else if 31 < s then fail_with InvalidShift 0
      else saturating_i32 (round_half_away (sint a * 2 ^ s) (sint b)))"
proof (cases "b = 0 \<or> 31 < s")
  case False
  obtain q r where qr: "(q, r) = divide_unsigned_64_by_32 (shift_left_32 (magnitude a) s) (magnitude b)"
    by (metis surj_pair)
  define Q where "Q = int (value64 (if magnitude b - r \<le> r then increment q else q))"
  have Q: "Q = (2 * \<bar>sint a * 2 ^ s\<bar> + \<bar>sint b\<bar>) div (2 * \<bar>sint b\<bar>)"
    unfolding Q_def using False by (intro divide_scaled_value(2) [OF _ _ qr]) simp_all
  have b0: "sint b \<noteq> 0" using False by (simp add: signed_eq_0_iff)
  have "divide_scaled a b s = saturating_i32 (if (sint a < 0) \<noteq> (sint b < 0) then - Q else Q)"
    using False by (simp add: divide_scaled_def qr [symmetric] signed_from_magnitude_eq word_sless_alt
        Let_def Q_def)
  also have "(if (sint a < 0) \<noteq> (sint b < 0) then - Q else Q) = sgn (sint a) * sgn (sint b) * Q"
    using b0 by (intro sgn_product_cases) (auto simp: Q)
  finally show ?thesis using False by (simp add: round_half_away_def sgn_mult Q)
qed (auto simp: divide_scaled_def)

theorem divide_scaled_truncating_eq:
  "divide_scaled_truncating a b s =
     (if b = 0 then fail_with DivisionByZero 0
      else if 31 < s then fail_with InvalidShift 0
      else saturating_i32 (truncate_div (sint a * 2 ^ s) (sint b)))"
proof (cases "b = 0 \<or> 31 < s")
  case False
  obtain q r where qr: "(q, r) = divide_unsigned_64_by_32 (shift_left_32 (magnitude a) s) (magnitude b)"
    by (metis surj_pair)
  define Q where "Q = int (value64 q)"
  have Q: "Q = \<bar>sint a * 2 ^ s\<bar> div \<bar>sint b\<bar>"
    unfolding Q_def using False by (intro divide_scaled_value(1) [OF _ _ qr]) simp_all
  have b0: "sint b \<noteq> 0" using False by (simp add: signed_eq_0_iff)
  have "divide_scaled_truncating a b s = saturating_i32 (if (sint a < 0) \<noteq> (sint b < 0) then - Q else Q)"
    using False by (simp add: divide_scaled_truncating_def qr [symmetric] signed_from_magnitude_eq
        word_sless_alt Let_def Q_def)
  also have "(if (sint a < 0) \<noteq> (sint b < 0) then - Q else Q) = sgn (sint a) * sgn (sint b) * Q"
    using b0 by (intro sgn_product_cases) (auto simp: Q)
  finally show ?thesis using False by (simp add: truncate_div_def sgn_mult Q)
qed (auto simp: divide_scaled_truncating_def)


subsection \<open>Reduced division\<close>

lemma round_half_away_scale:
  assumes "0 < c"
  shows "round_half_away (c * n) (c * d) = round_half_away n d"
proof -
  have "(2 * (c * \<bar>n\<bar>) + c * \<bar>d\<bar>) div (2 * (c * \<bar>d\<bar>)) = (c * (2 * \<bar>n\<bar> + \<bar>d\<bar>)) div (c * (2 * \<bar>d\<bar>))"
    by (simp add: algebra_simps)
  then show ?thesis using assms by (simp add: round_half_away_def abs_mult sgn_mult)
qed

lemma reduced_divisor_exact:
  assumes "magnitude b AND (if R = 0 then 0 else push_bit R 1 - 1) = 0" "R \<le> 31"
  shows "unat (magnitude b) = 2 ^ R * unat (drop_bit R (magnitude b))"
proof -
  have "take_bit R (magnitude b) = 0"
    using assms by (cases "R = 0") (simp_all add: mask_eq_decr_exp take_bit_eq_mask)
  then have "unat (magnitude b) mod 2 ^ R = 0"
    by (metis unat_0 unat_take_bit_mod)
  then show ?thesis by (subst unat_drop_bit_div) auto
qed

lemma unat_push_bit_one: "n \<le> 31 \<Longrightarrow> unat (push_bit n 1 :: u32) = 2 ^ n"
proof -
  assume "n \<le> 31"
  then have "(2::nat) ^ n < 2 ^ 32" by (intro power_strict_increasing) simp_all
  then show ?thesis by (subst unat_push_bit_mod) simp
qed

lemma numerator_fits_less:
  assumes "NB \<le> 32" "NB = 32 \<or> m < push_bit NB 1"
  shows "unat (m :: u32) < 2 ^ NB"
proof (cases "NB = 32")
  case True
  then show ?thesis using unat_u32_less [of m] by simp
next
  case False
  then show ?thesis
    using assms unat_push_bit_one [of NB] by (simp add: word_less_nat_alt)
qed

lemma reduced_quotient_value:
  assumes "s \<le> 31" "NB + s \<le> 64" "NB \<le> 32" "NB = 32 \<or> magnitude a < push_bit NB 1"
    and "0 < unat (rd :: u32)" "unat rd \<le> 65535"
    and "divide_unsigned_64_by_16_bits (shift_left_32 (magnitude a) s) (ucast rd) (NB + s) = (q, r)"
  shows "int (value64 (if rd - ucast r \<le> ucast r then increment q else q))
    = (2 * \<bar>sint a * 2 ^ s\<bar> + int (unat rd)) div (2 * int (unat rd))"
proof -
  let ?n = "shift_left_32 (magnitude a) s"
  have e: "unat (ucast rd :: u16) = unat rd" using assms(6) by (intro unat_ucast_down_16) simp
  have "value64 ?n < 2 ^ (NB + s)"
    using numerator_fits_less [OF assms(3,4)] assms(1) by (simp add: value64_shift_left_32 power_add)
  then have q: "value64 q = value64 ?n div unat rd" "unat (ucast r :: u32) = value64 ?n mod unat rd"
    using divide_unsigned_64_by_16_bits_correct [OF _ assms(2) _ assms(7)] assms(5) by (simp_all add: e)
  note n = value64_shifted_magnitude [OF assms(1), of a]
  have "unat rd \<le> 2 ^ 31" using assms(6) by simp
  from divide_rounded_value [OF assms(5) this n(1) q] show ?thesis
    unfolding n(2) [symmetric] by (simp add: zdiv_int)
qed

lemma round_half_away_reduced:
  assumes "R \<le> S" "\<bar>b\<bar> = 2 ^ R * d" "0 < d"
  shows "sgn a * sgn b * ((2 * \<bar>a * 2 ^ (S - R)\<bar> + d) div (2 * d)) = round_half_away (a * 2 ^ S) b"
proof -
  have b: "b = 2 ^ R * (sgn b * d)" using assms(2) by (metis mult.left_commute sgn_mult_abs)
  have "sgn b \<noteq> 0" using assms by (auto simp: sgn_if)
  then have "\<bar>sgn b\<bar> = 1" "sgn (sgn b) = sgn b" by (auto simp: sgn_if)
  then have "sgn a * sgn b * ((2 * \<bar>a * 2 ^ (S - R)\<bar> + d) div (2 * d))
      = round_half_away (a * 2 ^ (S - R)) (sgn b * d)"
    using assms(3) by (simp add: round_half_away_def sgn_mult abs_mult)
  also have "\<dots> = round_half_away (2 ^ R * (a * 2 ^ (S - R))) (2 ^ R * (sgn b * d))"
    by (simp add: round_half_away_scale)
  also note b [symmetric]
  also have "2 ^ R * (a * 2 ^ (S - R)) = a * 2 ^ S"
    using assms(1) by (simp add: mult.left_commute flip: power_add)
  finally show ?thesis .
qed

theorem divide_scaled_reduced_u16_eq:
  "divide_scaled_reduced_u16 S R NB a b = divide_scaled a b S"
proof -
  let ?rd = "drop_bit R (magnitude b)"
  let ?slow = "31 < S \<or> S < R \<or> NB = 0 \<or> 32 < NB \<or> 64 < NB + S - R
    \<or> b = 0 \<or> magnitude b AND (if R = 0 then 0 else push_bit R 1 - 1) \<noteq> 0 \<or> ?rd = 0
    \<or> 0xffff < ?rd \<or> \<not> (NB = 32 \<or> magnitude a < push_bit NB 1)"
  show ?thesis
  proof (cases ?slow)
    case True
    then show ?thesis by (auto simp: divide_scaled_reduced_u16_def Let_def)
  next
    case False
    have g1: "\<not> (31 < S \<or> S < R \<or> NB = 0 \<or> 32 < NB \<or> 64 < NB + S - R)"
      and g2: "\<not> (b = 0 \<or> magnitude b AND (if R = 0 then 0 else push_bit R 1 - 1) \<noteq> 0 \<or> ?rd = 0
        \<or> 0xffff < ?rd \<or> \<not> (NB = 32 \<or> magnitude a < push_bit NB 1))"
      using False by blast+
    have "unat (magnitude b) = 2 ^ R * unat ?rd"
      using False by (intro reduced_divisor_exact) auto
    then have bb: "\<bar>sint b\<bar> = 2 ^ R * int (unat ?rd)" unfolding unat_magnitude [symmetric] by simp
    have rd: "0 < unat ?rd" "unat ?rd \<le> 65535" and le: "R \<le> S" "S - R \<le> 31" "NB + (S - R) \<le> 64" "NB \<le> 32"
      using False by (auto simp: word_less_nat_alt unat_gt_0)
    obtain q r where
      qr: "divide_unsigned_64_by_16_bits (shift_left_32 (magnitude a) (S - R)) (ucast ?rd) (NB + (S - R)) = (q, r)"
      by fastforce
    define Q where "Q = int (value64 (if ?rd - ucast r \<le> ucast r then increment q else q))"
    have Q: "Q = (2 * \<bar>sint a * 2 ^ (S - R)\<bar> + int (unat ?rd)) div (2 * int (unat ?rd))"
      unfolding Q_def using False by (intro reduced_quotient_value [OF le(2-4) _ rd qr]) simp
    have "divide_scaled_reduced_u16 S R NB a b =
        saturating_i32 (if (sint a < 0) \<noteq> (sint b < 0) then - Q else Q)"
      unfolding divide_scaled_reduced_u16_def Let_def if_not_P [OF g1] if_not_P [OF g2] qr prod.case
        signed_from_magnitude_eq by (simp only: word_sless_alt signed_0 Q_def)
    also have "(if (sint a < 0) \<noteq> (sint b < 0) then - Q else Q) = sgn (sint a) * sgn (sint b) * Q"
      using rd(1) bb by (intro sgn_product_cases) (auto simp: Q)
    also have "\<dots> = round_half_away (sint a * 2 ^ S) (sint b)"
      unfolding Q using le(1) bb rd(1) by (intro round_half_away_reduced) (simp_all only: of_nat_0_less_iff)
    finally show ?thesis using False by (simp add: divide_scaled_eq)
  qed
qed


subsection \<open>Addition and subtraction saturate\<close>

lemma sint_i32_add:
  "- 2147483648 \<le> sint a + sint b \<Longrightarrow> sint a + sint b < 2147483648 \<Longrightarrow> sint (a + b :: i32) = sint a + sint b"
  by (simp add: sint_word_add signed_take_bit_int_eq_self)

lemma sint_i32_diff:
  "- 2147483648 \<le> sint a - sint b \<Longrightarrow> sint a - sint b < 2147483648 \<Longrightarrow> sint (a - b :: i32) = sint a - sint b"
  by (simp add: sint_word_diff signed_take_bit_int_eq_self)

lemma sint_i32_limits [simp]: "sint i32_MAX = 2147483647" "sint i32_MIN = - 2147483648"
  by (simp_all add: i32_MAX_def i32_MIN_def)

lemma word_of_int_sint_add: "word_of_int (sint a + sint b) = (a + b :: i32)"
  by (simp add: wi_hom_add [symmetric])

lemma word_of_int_sint_diff: "word_of_int (sint a - sint b) = (a - b :: i32)"
  by (simp add: wi_hom_sub [symmetric])

theorem add_i32_eq: "add_i32 a b = saturating_i32 (sint a + sint b)"
proof -
  note r = sint_i32_ge [of a] sint_i32_less [of a] sint_i32_ge [of b] sint_i32_less [of b]
  have hi: "0 <s b \<and> i32_MAX - b <s a \<longleftrightarrow> 2147483647 < sint a + sint b"
    using r sint_i32_diff [of i32_MAX b] by (auto simp: word_sless_alt)
  have lo: "b <s 0 \<and> a <s i32_MIN - b \<longleftrightarrow> sint a + sint b < - 2147483648"
    using r sint_i32_diff [of i32_MIN b] by (auto simp: word_sless_alt)
  show ?thesis
    unfolding add_i32_def hi lo saturating_i32_def word_of_int_sint_add by simp
qed

theorem subtract_i32_eq: "subtract_i32 a b = saturating_i32 (sint a - sint b)"
proof -
  note r = sint_i32_ge [of a] sint_i32_less [of a] sint_i32_ge [of b] sint_i32_less [of b]
  have lo: "0 <s b \<and> a <s i32_MIN + b \<longleftrightarrow> sint a - sint b < - 2147483648"
    using r sint_i32_add [of i32_MIN b] by (auto simp: word_sless_alt)
  have hi: "b <s 0 \<and> i32_MAX + b <s a \<longleftrightarrow> 2147483647 < sint a - sint b"
    using r sint_i32_add [of i32_MAX b] by (auto simp: word_sless_alt)
  show ?thesis
    unfolding subtract_i32_def hi lo saturating_i32_def word_of_int_sint_diff by simp
qed

subsection \<open>Clean runs of the primitives\<close>

lemma sticky_saturating_i32 [sticky]: "sticky (saturating_i32 x)"
  by (simp add: saturating_i32_def sticky)

lemma clean_saturating_i32 [clean]: "clean (saturating_i32 x) y \<longleftrightarrow> sint y = x"
proof
  assume "clean (saturating_i32 x) y"
  then show "sint y = x"
    by (auto simp: saturating_i32_def clean sint_word_of_int_i32 split: if_splits)
next
  assume "sint y = x"
  then show "clean (saturating_i32 x) y"
    using sint_i32_ge [of y] sint_i32_less [of y] by (auto simp: saturating_i32_def clean)
qed

lemma sticky_multiply_scaled [sticky]: "sticky (multiply_scaled a b s)"
  by (simp add: multiply_scaled_eq sticky)

lemma sticky_divide_scaled [sticky]: "sticky (divide_scaled a b s)"
  by (simp add: divide_scaled_eq sticky)

lemma sticky_divide_scaled_reduced_u16 [sticky]: "sticky (divide_scaled_reduced_u16 S R NB a b)"
  by (simp add: divide_scaled_reduced_u16_eq sticky)

lemma sticky_add_i32 [sticky]: "sticky (add_i32 a b)"
  by (simp add: add_i32_eq sticky)

lemma sticky_subtract_i32 [sticky]: "sticky (subtract_i32 a b)"
  by (simp add: subtract_i32_eq sticky)

lemma clean_multiply_scaled [clean]:
  "clean (multiply_scaled a b s) y \<longleftrightarrow> s \<le> 31 \<and> sint y = round_half_away (sint a * sint b) (2 ^ s)"
  by (auto simp: multiply_scaled_eq clean)

lemma clean_divide_scaled [clean]:
  "clean (divide_scaled a b s) y \<longleftrightarrow> b \<noteq> 0 \<and> s \<le> 31 \<and> sint y = round_half_away (sint a * 2 ^ s) (sint b)"
  by (auto simp: divide_scaled_eq clean)

lemma clean_divide_scaled_reduced_u16 [clean]:
  "clean (divide_scaled_reduced_u16 S R NB a b) y \<longleftrightarrow>
     b \<noteq> 0 \<and> S \<le> 31 \<and> sint y = round_half_away (sint a * 2 ^ S) (sint b)"
  by (simp add: divide_scaled_reduced_u16_eq clean)

lemma clean_add_i32 [clean]: "clean (add_i32 a b) y \<longleftrightarrow> sint y = sint a + sint b"
  by (simp add: add_i32_eq clean)

lemma clean_subtract_i32 [clean]: "clean (subtract_i32 a b) y \<longleftrightarrow> sint y = sint a - sint b"
  by (simp add: subtract_i32_eq clean)

subsection \<open>The arithmetic contract\<close>

lemma run_state_saturating_i32:
  "run_state (saturating_i32 x) st =
     (if x < - (2 ^ 31) then (i32_MIN, st OR 0x01)
      else if 2 ^ 31 \<le> x then (i32_MAX, st OR 0x01)
      else (word_of_int x, st))"
  by (auto simp: saturating_i32_def)

text \<open>
  C33: scaled multiplication. For every pair of operands, every shift and every
  content of the fault register, \<^verbatim>\<open>multiply_scaled\<close> returns the exact product
  divided by the power of two, rounded half away from zero; a result outside the
  range of \<^verbatim>\<open>i32\<close> is replaced by the nearest bound and records a saturation, a
  shift above 31 returns zero and records an invalid shift, and nothing else
  touches the register.
\<close>
theorem multiply_scaled_run:
  "run_state (multiply_scaled a b shift) st =
     (if 31 < shift then (0, st OR 0x04)
      else let r = round_half_away (sint a * sint b) (2 ^ shift)
           in if r < - (2 ^ 31) then (i32_MIN, st OR 0x01)
              else if 2 ^ 31 \<le> r then (i32_MAX, st OR 0x01)
              else (word_of_int r, st))"
  by (simp add: multiply_scaled_eq run_state_saturating_i32 Let_def)

text \<open>
  Scaled division. \<^verbatim>\<open>divide_scaled\<close> returns the exact quotient of the shifted
  numerator, rounded half away from zero and saturated; a zero denominator and an
  invalid shift return zero and record their faults, in that order of precedence.
\<close>
theorem divide_scaled_run:
  "run_state (divide_scaled a b shift) st =
     (if b = 0 then (0, st OR 0x02)
      else if 31 < shift then (0, st OR 0x04)
      else let r = round_half_away (sint a * 2 ^ shift) (sint b)
           in if r < - (2 ^ 31) then (i32_MIN, st OR 0x01)
              else if 2 ^ 31 \<le> r then (i32_MAX, st OR 0x01)
              else (word_of_int r, st))"
  by (simp add: divide_scaled_eq run_state_saturating_i32 Let_def)

text \<open>
  Truncating scaled division returns the quotient of the shifted numerator
  rounded towards zero and saturated, with the faults of the rounding division.
\<close>
theorem divide_scaled_truncating_run:
  "run_state (divide_scaled_truncating a b shift) st =
     (if b = 0 then (0, st OR 0x02)
      else if 31 < shift then (0, st OR 0x04)
      else let r = truncate_div (sint a * 2 ^ shift) (sint b)
           in if r < - (2 ^ 31) then (i32_MIN, st OR 0x01)
              else if 2 ^ 31 \<le> r then (i32_MAX, st OR 0x01)
              else (word_of_int r, st))"
  by (simp add: divide_scaled_truncating_eq run_state_saturating_i32 Let_def)

text \<open>
  The reduced 16-bit division, whatever its const parameters, gives on every
  input the result and the faults of the general scaled division: its shortened
  bit count and reduced divisor never change an answer.
\<close>
theorem divide_scaled_reduced_u16_agrees:
  "run_state (divide_scaled_reduced_u16 S R NB a b) st = run_state (divide_scaled a b S) st"
  by (simp only: divide_scaled_reduced_u16_eq)

text \<open>
  \<^verbatim>\<open>add\<close> and \<^verbatim>\<open>subtract\<close>, whose overflow tests are themselves computed in wrapping
  32-bit arithmetic, return the saturated exact sum and difference.
\<close>
theorem add_subtract_run:
  "run_state (add_i32 a b) st =
     (let r = sint a + sint b
      in if r < - (2 ^ 31) then (i32_MIN, st OR 0x01)
         else if 2 ^ 31 \<le> r then (i32_MAX, st OR 0x01) else (word_of_int r, st))
   \<and> run_state (subtract_i32 a b) st =
     (let r = sint a - sint b
      in if r < - (2 ^ 31) then (i32_MIN, st OR 0x01)
         else if 2 ^ 31 \<le> r then (i32_MAX, st OR 0x01) else (word_of_int r, st))"
  by (simp add: add_i32_eq subtract_i32_eq run_state_saturating_i32 Let_def)

end
