(* ===== verification/Byte_Records.thy ===== *)
theory Byte_Records
  imports Ksa_Prelude
begin

text \<open>
  Fixed-layout little-endian records: the field readers and writers that
  \<^verbatim>\<open>core/src/scenario.rs\<close>, \<^verbatim>\<open>core/src/telemetry.rs\<close> and \<^verbatim>\<open>interface/src/phase6.rs\<close> each
  declare, with the read-over-write laws collected in \<^verbatim>\<open>record_access\<close>. Every use in
  the sources is at a constant offset inside a record of known length.
\<close>

unbundle bit_operations_syntax

subsection \<open>Little-endian fields\<close>

definition to_le_bytes16 :: "u16 \<Rightarrow> u8 list" where
  "to_le_bytes16 v = [ucast v, ucast (drop_bit 8 v)]"

definition to_le_bytes32 :: "u32 \<Rightarrow> u8 list" where
  "to_le_bytes32 v =
     [ucast v, ucast (drop_bit 8 v), ucast (drop_bit 16 v), ucast (drop_bit 24 v)]"

definition from_le_bytes16 :: "u8 \<Rightarrow> u8 \<Rightarrow> u16" where
  "from_le_bytes16 b0 b1 = ucast b0 OR push_bit 8 (ucast b1)"

definition from_le_bytes32 :: "u8 \<Rightarrow> u8 \<Rightarrow> u8 \<Rightarrow> u8 \<Rightarrow> u32" where
  "from_le_bytes32 b0 b1 b2 b3 =
     ucast b0 OR push_bit 8 (ucast b1) OR push_bit 16 (ucast b2) OR push_bit 24 (ucast b3)"

definition read_u16 :: "u8 list \<Rightarrow> nat \<Rightarrow> u16" where
  "read_u16 bytes offset = from_le_bytes16 (bytes ! offset) (bytes ! (offset + 1))"

definition read_u32 :: "u8 list \<Rightarrow> nat \<Rightarrow> u32" where
  "read_u32 bytes offset =
     from_le_bytes32 (bytes ! offset) (bytes ! (offset + 1)) (bytes ! (offset + 2)) (bytes ! (offset + 3))"

definition read_i32 :: "u8 list \<Rightarrow> nat \<Rightarrow> i32" where
  "read_i32 bytes offset = read_u32 bytes offset"

definition copy_from_slice :: "u8 list \<Rightarrow> nat \<Rightarrow> u8 list \<Rightarrow> u8 list" where
  "copy_from_slice output offset source =
     take offset output @ source @ drop (offset + length source) output"

definition write_u16 :: "u8 list \<Rightarrow> nat \<Rightarrow> u16 \<Rightarrow> u8 list" where
  "write_u16 output offset value = copy_from_slice output offset (to_le_bytes16 value)"

definition write_u32 :: "u8 list \<Rightarrow> nat \<Rightarrow> u32 \<Rightarrow> u8 list" where
  "write_u32 output offset value = copy_from_slice output offset (to_le_bytes32 value)"

definition write_i32 :: "u8 list \<Rightarrow> nat \<Rightarrow> i32 \<Rightarrow> u8 list" where
  "write_i32 output offset value = write_u32 output offset value"

lemma bit_u8_ge: "8 \<le> n \<Longrightarrow> \<not> bit (x :: u8) n"
  using bit_imp_le_length [of x n] by auto

lemma from_to_le_bytes16 [simp]: "from_le_bytes16 (ucast v) (ucast (drop_bit 8 v)) = v"
  by (rule bit_word_eqI) (auto simp: from_le_bytes16_def bit_simps)

lemma from_to_le_bytes32 [simp]:
  "from_le_bytes32 (ucast v) (ucast (drop_bit 8 v)) (ucast (drop_bit 16 v)) (ucast (drop_bit 24 v)) = v"
proof (rule bit_word_eqI)
  fix n :: nat
  assume "n < LENGTH(32)"
  then consider "n < 8" | "8 \<le> n" "n < 16" | "16 \<le> n" "n < 24" | "24 \<le> n" "n < 32" by fastforce
  then show "bit (from_le_bytes32 (ucast v) (ucast (drop_bit 8 v)) (ucast (drop_bit 16 v))
      (ucast (drop_bit 24 v))) n = bit v n"
    by cases (auto simp: from_le_bytes32_def bit_simps)
qed

lemma to_from_le_bytes16 [simp]: "to_le_bytes16 (from_le_bytes16 b0 b1) = [b0, b1]"
  by (auto simp: to_le_bytes16_def from_le_bytes16_def bit_simps bit_u8_ge intro!: bit_word_eqI)

lemma to_from_le_bytes32 [simp]: "to_le_bytes32 (from_le_bytes32 b0 b1 b2 b3) = [b0, b1, b2, b3]"
  by (auto simp: to_le_bytes32_def from_le_bytes32_def bit_simps bit_u8_ge intro!: bit_word_eqI)

lemma length_to_le_bytes [simp]: "length (to_le_bytes16 v) = 2" "length (to_le_bytes32 w) = 4"
  by (simp_all add: to_le_bytes16_def to_le_bytes32_def)

named_theorems record_access \<open>reads of byte records after writes\<close>

lemma length_copy_from_slice [record_access]:
  "i + length src \<le> length out \<Longrightarrow> length (copy_from_slice out i src) = length out"
  by (simp add: copy_from_slice_def)

lemma nth_copy_from_slice:
  assumes "i + length src \<le> length out" "j < length out"
  shows "copy_from_slice out i src ! j =
    (if j < i then out ! j else if j < i + length src then src ! (j - i) else out ! j)"
  using assms by (auto simp: copy_from_slice_def nth_append min_def)

lemma take_copy_from_slice [record_access]:
  "n \<le> i \<Longrightarrow> i \<le> length out \<Longrightarrow> take n (copy_from_slice out i src) = take n out"
  by (simp add: copy_from_slice_def min_def)

lemma drop_take_copy_from_slice:
  "i + length src \<le> length out \<Longrightarrow> take (length src) (drop i (copy_from_slice out i src)) = src"
  by (simp add: copy_from_slice_def)

lemma nth_write_u16 [record_access]:
  "i + 2 \<le> length out \<Longrightarrow> j < length out \<Longrightarrow> j < i \<or> i + 2 \<le> j \<Longrightarrow> write_u16 out i v ! j = out ! j"
  by (auto simp: write_u16_def nth_copy_from_slice)

lemma nth_write_u32 [record_access]:
  "i + 4 \<le> length out \<Longrightarrow> j < length out \<Longrightarrow> j < i \<or> i + 4 \<le> j \<Longrightarrow> write_u32 out i v ! j = out ! j"
  by (auto simp: write_u32_def nth_copy_from_slice)

lemma length_write [record_access]:
  "i + 2 \<le> length out \<Longrightarrow> length (write_u16 out i v) = length out"
  "i + 4 \<le> length out \<Longrightarrow> length (write_u32 out i w) = length out"
  by (simp_all add: write_u16_def write_u32_def length_copy_from_slice)

lemma read_write_u16_same [record_access]:
  "i + 2 \<le> length out \<Longrightarrow> read_u16 (write_u16 out i v) i = v"
  by (simp add: read_u16_def write_u16_def nth_copy_from_slice to_le_bytes16_def)

lemma read_write_u32_same [record_access]:
  "i + 4 \<le> length out \<Longrightarrow> read_u32 (write_u32 out i v) i = v"
  by (simp add: read_u32_def write_u32_def nth_copy_from_slice to_le_bytes32_def numeral_3_eq_3 numeral_2_eq_2)

lemma read_write_other [record_access]:
  "i + 2 \<le> length out \<Longrightarrow> j + 2 \<le> length out \<Longrightarrow> j + 2 \<le> i \<or> i + 2 \<le> j \<Longrightarrow> read_u16 (write_u16 out i v) j = read_u16 out j"
  "i + 4 \<le> length out \<Longrightarrow> j + 2 \<le> length out \<Longrightarrow> j + 2 \<le> i \<or> i + 4 \<le> j \<Longrightarrow> read_u16 (write_u32 out i w) j = read_u16 out j"
  "i + 2 \<le> length out \<Longrightarrow> j + 4 \<le> length out \<Longrightarrow> j + 4 \<le> i \<or> i + 2 \<le> j \<Longrightarrow> read_u32 (write_u16 out i v) j = read_u32 out j"
  "i + 4 \<le> length out \<Longrightarrow> j + 4 \<le> length out \<Longrightarrow> j + 4 \<le> i \<or> i + 4 \<le> j \<Longrightarrow> read_u32 (write_u32 out i w) j = read_u32 out j"
  by (auto simp: read_u16_def read_u32_def record_access)

lemma take_write [record_access]:
  "n \<le> i \<Longrightarrow> i \<le> length out \<Longrightarrow> take n (write_u16 out i v) = take n out"
  "n \<le> i \<Longrightarrow> i \<le> length out \<Longrightarrow> take n (write_u32 out i w) = take n out"
  by (simp_all add: write_u16_def write_u32_def take_copy_from_slice)

lemma read_copy_other [record_access]:
  "i + length src \<le> length out \<Longrightarrow> j + 2 \<le> length out \<Longrightarrow> j + 2 \<le> i \<or> i + length src \<le> j \<Longrightarrow>
     read_u16 (copy_from_slice out i src) j = read_u16 out j"
  "i + length src \<le> length out \<Longrightarrow> j + 4 \<le> length out \<Longrightarrow> j + 4 \<le> i \<or> i + length src \<le> j \<Longrightarrow>
     read_u32 (copy_from_slice out i src) j = read_u32 out j"
  by (auto simp: read_u16_def read_u32_def nth_copy_from_slice)

lemma nth_copy_other [record_access]:
  "i + length src \<le> length out \<Longrightarrow> j < length out \<Longrightarrow> j < i \<or> i + length src \<le> j \<Longrightarrow>
     copy_from_slice out i src ! j = out ! j"
  by (auto simp: nth_copy_from_slice)

lemma read_update_other [record_access]:
  "i < j \<or> j + 2 \<le> i \<Longrightarrow> read_u16 (out[i := b]) j = read_u16 out j"
  "i < j \<or> j + 4 \<le> i \<Longrightarrow> read_u32 (out[i := b]) j = read_u32 out j"
  by (auto simp: read_u16_def read_u32_def)

lemma read_take [record_access]:
  "j + 2 \<le> n \<Longrightarrow> read_u16 (take n out) j = read_u16 out j"
  "j + 4 \<le> n \<Longrightarrow> read_u32 (take n out) j = read_u32 out j"
  by (auto simp: read_u16_def read_u32_def)

lemma slice_write_other:
  "j + k \<le> i \<Longrightarrow> i \<le> length out \<Longrightarrow> take k (drop j (copy_from_slice out i src)) = take k (drop j out)"
  by (simp add: take_drop take_copy_from_slice add.commute)

lemma write_append:
  "i + length src \<le> length x \<Longrightarrow> copy_from_slice (x @ y) i src = copy_from_slice x i src @ y"
  "i + 2 \<le> length x \<Longrightarrow> write_u16 (x @ y) i v = write_u16 x i v @ y"
  "i + 4 \<le> length x \<Longrightarrow> write_u32 (x @ y) i w = write_u32 x i w @ y"
  by (simp_all add: write_u16_def write_u32_def copy_from_slice_def)

lemma read_append:
  "i + 2 \<le> length x \<Longrightarrow> read_u16 (x @ y) i = read_u16 x i"
  "i + 4 \<le> length x \<Longrightarrow> read_u32 (x @ y) i = read_u32 x i"
  by (simp_all add: read_u16_def read_u32_def nth_append)

end
