(* ===== verification/Checksums.thy ===== *)
theory Checksums
  imports Byte_Records
begin

text \<open>
  The checksums of the sources (CRC-32, CRC-16 and FNV-1a). All three absorb one
  byte at a time by a permutation of their state; the locale \<^verbatim>\<open>byte_hash\<close> derives
  from that alone that changing one byte changes the checksum, and \<^verbatim>\<open>sealed_record\<close>
  lifts it to records that carry their own checksum in a trailing field.
\<close>

unbundle bit_operations_syntax

subsection \<open>The checksums of the source\<close>

definition crc32_bit :: "u32 \<Rightarrow> u32" where
  "crc32_bit crc = drop_bit 1 crc XOR (0xedb88320 AND (0 - (crc AND 1)))"

definition crc32_byte :: "u32 \<Rightarrow> u8 \<Rightarrow> u32" where
  "crc32_byte crc byte = (crc32_bit ^^ 8) (crc XOR ucast byte)"

definition crc32_ieee :: "u8 list \<Rightarrow> u32" where
  "crc32_ieee bytes = NOT (foldl crc32_byte 0xffffffff bytes)"

definition crc16_bit :: "u16 \<Rightarrow> u16" where
  "crc16_bit c = (if c AND 0x8000 \<noteq> 0 then push_bit 1 c XOR 0x1021 else push_bit 1 c)"

definition crc16_byte :: "u16 \<Rightarrow> u8 \<Rightarrow> u16" where
  "crc16_byte c byte = (crc16_bit ^^ 8) (c XOR push_bit 8 (ucast byte))"

definition crc16_ccitt :: "u8 list \<Rightarrow> u16" where
  "crc16_ccitt bytes = foldl crc16_byte 0xffff bytes"

definition fnv1a_byte :: "u32 \<Rightarrow> u8 \<Rightarrow> u32" where
  "fnv1a_byte value byte = (value XOR ucast byte) * 16777619"

definition fnv1a_32 :: "u8 list \<Rightarrow> u32" where
  "fnv1a_32 bytes = foldl fnv1a_byte 2166136261 bytes"

subsection \<open>Byte-wise permutation checksums\<close>

locale byte_hash =
  fixes step :: "'s \<Rightarrow> u8 \<Rightarrow> 's"
  assumes step_state_inj: "step s b = step s' b \<Longrightarrow> s = s'"
    and step_byte_inj: "step s b = step s b' \<Longrightarrow> b = b'"
begin

lemma fold_state_inj: "foldl step s bs = foldl step s' bs \<Longrightarrow> s = s'"
  by (induction bs arbitrary: s s') (auto dest: step_state_inj)

lemma fold_detects:
  assumes "i < length bs" "b \<noteq> bs ! i"
  shows "foldl step s (bs[i := b]) \<noteq> foldl step s bs"
proof
  assume e: "foldl step s (bs[i := b]) = foldl step s bs"
  let ?s = "foldl step s (take i bs)"
  have "foldl step (step ?s b) (drop (Suc i) bs) = foldl step (step ?s (bs ! i)) (drop (Suc i) bs)"
    using e assms(1) upd_conv_take_nth_drop [OF assms(1), of b] id_take_nth_drop [OF assms(1)]
    by (metis foldl_Cons foldl_append)
  then have "step ?s b = step ?s (bs ! i)" by (rule fold_state_inj)
  then show False using assms(2) by (blast dest: step_byte_inj)
qed

end

locale sealed_record = byte_hash step
  for step :: "'s \<Rightarrow> u8 \<Rightarrow> 's" +
  fixes checksum :: "u8 list \<Rightarrow> 's"
    and seed :: 's and finish :: "'s \<Rightarrow> 's"
    and stored :: "u8 list \<Rightarrow> nat \<Rightarrow> 's" and bytes_of :: "'s \<Rightarrow> u8 list" and width :: nat
  assumes checksum_fold: "checksum bs = finish (foldl step seed bs)"
    and finish_inj: "finish s = finish s' \<Longrightarrow> s = s'"
    and stored_bytes: "n + width \<le> length bs \<Longrightarrow> stored bs n = c \<longleftrightarrow> take width (drop n bs) = bytes_of c"
    and bytes_of_inj: "bytes_of c = bytes_of c' \<Longrightarrow> c = c'"
begin

lemma corruption_detected:
  assumes "n + width \<le> length bs" "i < n + width" "b \<noteq> bs ! i"
    and "checksum (take n bs) = stored bs n"
  shows "checksum (take n (bs[i := b])) \<noteq> stored (bs[i := b]) n"
proof
  assume e: "checksum (take n (bs[i := b])) = stored (bs[i := b]) n"
  have old: "take width (drop n bs) = bytes_of (checksum (take n bs))"
    using stored_bytes [OF assms(1)] assms(4) by metis
  have new: "take width (drop n (bs[i := b])) = bytes_of (checksum (take n (bs[i := b])))"
    using stored_bytes [of n "bs[i := b]"] assms(1) e by (metis length_list_update)
  show False
  proof (cases "i < n")
    case True
    then have "checksum (take n (bs[i := b])) = checksum (take n bs)"
      using old new by (simp add: drop_update_cancel bytes_of_inj)
    then have "foldl step seed ((take n bs)[i := b]) = foldl step seed (take n bs)"
      by (simp add: checksum_fold finish_inj take_update_swap)
    then show False using fold_detects [of i "take n bs" b seed] True assms(1,3) by simp
  next
    case False
    then have "take n (bs[i := b]) = take n bs" by simp
    then have "take width (drop n (bs[i := b])) ! (i - n) = take width (drop n bs) ! (i - n)"
      using old new by simp
    then show False using False assms by (simp add: nth_drop)
  qed
qed

end


subsection \<open>The checksums are byte-wise permutations\<close>

lemma xor_left_inj: "(a :: 'a::len word) XOR b = a XOR c \<Longrightarrow> b = c"
  by (metis xor.left_commute xor_self_eq xor.right_neutral)

lemma xor_right_inj: "(b :: 'a::len word) XOR a = c XOR a \<Longrightarrow> b = c"
  by (metis xor.commute xor_left_inj)

lemma crc32_bit_alt: "crc32_bit x = drop_bit 1 x XOR (if odd x then 0xedb88320 else 0)"
proof -
  have "x AND 1 = of_bool (odd x)" by (simp add: and_one_eq mod_2_eq_odd)
  then show ?thesis by (simp add: crc32_bit_def)
qed

lemma crc32_bit_inj: "crc32_bit x = crc32_bit y \<Longrightarrow> x = y"
proof -
  assume e: "crc32_bit x = crc32_bit y"
  have top: "bit (crc32_bit z) 31 \<longleftrightarrow> odd z" for z
    by (auto simp: crc32_bit_alt bit_simps dest: bit_imp_le_length)
  have o: "odd x \<longleftrightarrow> odd y" using top e by metis
  then have d: "drop_bit 1 x = drop_bit 1 y"
    using e unfolding crc32_bit_alt by (auto dest: xor_right_inj)
  show "x = y"
  proof (rule bit_word_eqI)
    fix n
    show "bit x n = bit y n"
      using o arg_cong [OF d, of "\<lambda>w. bit w (n - 1)"] by (cases n) (simp_all add: bit_0 bit_drop_bit_eq)
  qed
qed

lemma ucast_u8_inj:
  "(ucast b :: u32) = ucast (b' :: u8) \<Longrightarrow> b = b'" "(ucast b :: u16) = ucast (b' :: u8) \<Longrightarrow> b = b'"
proof -
  have "uint b < 256" "uint b' < 256" using uint_bounded [of b] uint_bounded [of b'] by simp_all
  then show "(ucast b :: u32) = ucast b' \<Longrightarrow> b = b'" "(ucast b :: u16) = ucast b' \<Longrightarrow> b = b'"
    by (auto dest!: arg_cong [of _ _ uint] simp: unsigned_ucast_eq take_bit_eq_mod word_uint_eq_iff)
qed

lemma inj_crc32_bit: "inj crc32_bit"
  by (rule injI) (rule crc32_bit_inj)

interpretation crc32: byte_hash crc32_byte
proof
  fix s s' :: u32 and b b' :: u8
  show "s = s'" if "crc32_byte s b = crc32_byte s' b"
    by (rule xor_right_inj, rule injD [OF inj_fn [OF inj_crc32_bit]], rule that [unfolded crc32_byte_def])
  show "b = b'" if "crc32_byte s b = crc32_byte s b'"
    by (rule ucast_u8_inj(1), rule xor_left_inj, rule injD [OF inj_fn [OF inj_crc32_bit]],
        rule that [unfolded crc32_byte_def])
qed

lemma crc16_bit_alt: "crc16_bit x = push_bit 1 x XOR (if bit x 15 then 0x1021 else 0)"
proof -
  have "x AND 0x8000 \<noteq> 0 \<longleftrightarrow> bit x 15"
    using and_exp_eq_0_iff_not_bit [of x 15] by simp
  then show ?thesis by (simp add: crc16_bit_def)
qed

lemma crc16_bit_inj: "crc16_bit x = crc16_bit y \<Longrightarrow> x = y"
proof -
  assume e: "crc16_bit x = crc16_bit y"
  have low: "bit (crc16_bit z) 0 \<longleftrightarrow> bit z 15" for z
    by (simp only: crc16_bit_alt bit_xor_iff bit_push_bit_iff) simp
  have o: "bit x 15 \<longleftrightarrow> bit y 15" using low e by metis
  then have d: "push_bit 1 x = push_bit 1 y"
    using e unfolding crc16_bit_alt by (auto dest: xor_right_inj)
  show "x = y"
  proof (rule bit_word_eqI)
    fix n
    assume "n < LENGTH(16)"
    then consider "n = 15" | "n + 1 < 16" by fastforce
    then show "bit x n = bit y n"
    proof cases
      case 2
      then show ?thesis
        using arg_cong [OF d, of "\<lambda>w. bit w (n + 1)"] by (simp only: bit_push_bit_iff) simp
    qed (simp add: o)
  qed
qed

lemma push_bit_8_ucast_inj:
  assumes "(push_bit 8 (ucast b) :: u16) = push_bit 8 (ucast (b' :: u8))"
  shows "b = b'"
proof (rule bit_word_eqI)
  fix n
  assume "n < LENGTH(8)"
  then show "bit b n = bit b' n"
    using arg_cong [OF assms, of "\<lambda>w. bit w (n + 8)"] by (simp only: bit_push_bit_iff) (simp add: bit_ucast_iff)
qed

lemma inj_crc16_bit: "inj crc16_bit"
  by (rule injI) (rule crc16_bit_inj)

interpretation crc16: byte_hash crc16_byte
proof
  fix s s' :: u16 and b b' :: u8
  show "s = s'" if "crc16_byte s b = crc16_byte s' b"
    by (rule xor_right_inj, rule injD [OF inj_fn [OF inj_crc16_bit]], rule that [unfolded crc16_byte_def])
  show "b = b'" if "crc16_byte s b = crc16_byte s b'"
    by (rule push_bit_8_ucast_inj, rule xor_left_inj, rule injD [OF inj_fn [OF inj_crc16_bit]],
        rule that [unfolded crc16_byte_def])
qed

lemma fnv_prime_inverse: "(16777619 :: u32) * 899433627 = 1"
  by (simp add: word_uint_eq_iff uint_word_ariths)

interpretation fnv1a: byte_hash fnv1a_byte
proof
  fix s s' :: u32 and b b' :: u8
  have cancel: "x * 16777619 = y * 16777619 \<Longrightarrow> x = y" for x y :: u32
  proof -
    assume "x * 16777619 = y * 16777619"
    then have "x * (16777619 * 899433627) = y * (16777619 * 899433627)"
      by (simp only: mult.assoc [symmetric])
    then show "x = y" by (simp only: fnv_prime_inverse mult_1_right)
  qed
  show "fnv1a_byte s b = fnv1a_byte s' b \<Longrightarrow> s = s'"
    unfolding fnv1a_byte_def by (drule cancel) (rule xor_right_inj)
  show "fnv1a_byte s b = fnv1a_byte s b' \<Longrightarrow> b = b'"
    unfolding fnv1a_byte_def by (drule cancel) (blast dest: xor_left_inj ucast_u8_inj)
qed

lemma take4_drop:
  "n + 4 \<le> length bs \<Longrightarrow> take 4 (drop n bs) = [bs ! n, bs ! (n + 1), bs ! (n + 2), bs ! (n + 3)]"
  by (rule nth_equalityI) (auto simp: less_Suc_eq numeral_eq_Suc)

lemma take2_drop: "n + 2 \<le> length bs \<Longrightarrow> take 2 (drop n bs) = [bs ! n, bs ! (n + 1)]"
  by (rule nth_equalityI) (auto simp: less_Suc_eq numeral_eq_Suc)

lemma to_le_bytes_inj:
  "to_le_bytes32 c = to_le_bytes32 c' \<Longrightarrow> c = c'" "to_le_bytes16 d = to_le_bytes16 d' \<Longrightarrow> d = d'"
proof -
  show "c = c'" if "to_le_bytes32 c = to_le_bytes32 c'"
  proof -
    let ?dec = "\<lambda>l. from_le_bytes32 (l ! 0) (l ! 1) (l ! 2) (l ! 3)"
    have "?dec (to_le_bytes32 c) = ?dec (to_le_bytes32 c')" using that by simp
    then show ?thesis by (simp add: to_le_bytes32_def numeral_2_eq_2 numeral_3_eq_3)
  qed
  show "d = d'" if "to_le_bytes16 d = to_le_bytes16 d'"
  proof -
    let ?dec = "\<lambda>l. from_le_bytes16 (l ! 0) (l ! 1)"
    have "?dec (to_le_bytes16 d) = ?dec (to_le_bytes16 d')" using that by simp
    then show ?thesis by (simp add: to_le_bytes16_def)
  qed
qed

interpretation crc32_record: sealed_record crc32_byte crc32_ieee "0xffffffff" "\<lambda>s. NOT s"
  read_u32 to_le_bytes32 4
proof unfold_locales
  fix bs :: "u8 list" and s s' c c' :: u32 and n
  show "crc32_ieee bs = NOT (foldl crc32_byte 0xffffffff bs)" by (rule crc32_ieee_def)
  show "NOT s = NOT s' \<Longrightarrow> s = s'" by simp
  show "n + 4 \<le> length bs \<Longrightarrow> (read_u32 bs n = c) = (take 4 (drop n bs) = to_le_bytes32 c)"
    by (simp add: take4_drop read_u32_def flip: to_from_le_bytes32) (blast dest: to_le_bytes_inj)
  show "to_le_bytes32 c = to_le_bytes32 c' \<Longrightarrow> c = c'" by (rule to_le_bytes_inj)
qed

interpretation crc16_record: sealed_record crc16_byte crc16_ccitt "0xffff" id
  read_u16 to_le_bytes16 2
proof unfold_locales
  fix bs :: "u8 list" and s s' c c' :: u16 and n
  show "crc16_ccitt bs = id (foldl crc16_byte 0xffff bs)" by (simp add: crc16_ccitt_def)
  show "id s = id s' \<Longrightarrow> s = s'" by simp
  show "n + 2 \<le> length bs \<Longrightarrow> (read_u16 bs n = c) = (take 2 (drop n bs) = to_le_bytes16 c)"
    by (simp add: take2_drop read_u16_def flip: to_from_le_bytes16) (blast dest: to_le_bytes_inj)
  show "to_le_bytes16 c = to_le_bytes16 c' \<Longrightarrow> c = c'" by (rule to_le_bytes_inj)
qed

end
