(* ===== verification/Scenario.thy ===== *)
theory Scenario
  imports Numeric Checksums
begin

text \<open>
  The scenario image of phase 1 (\<^verbatim>\<open>core/src/scenario.rs\<close>, with the fixed-point storage
  types of \<^verbatim>\<open>core/src/quantities.rs\<close>): a fixed record of 76 bytes, its parser and its
  validator. The parser is proved to accept exactly the images that pass the
  declared checks, every accepted scenario satisfies the ranges the simulator
  relies on, and no single corrupted byte goes unnoticed.
\<close>

unbundle bit_operations_syntax

subsection \<open>Quantities\<close>

type_synonym Time = i32
type_synonym Altitude = i32
type_synonym Velocity = i32
type_synonym Acceleration = i32
type_synonym Mass = i32
type_synonym MassFlow = i32
type_synonym Force = i32
type_synonym NetForce = i32
type_synonym Density = i32
type_synonym Cda = i32

subsection \<open>Records and errors\<close>

definition SCENARIO_IMAGE_LENGTH :: nat where "SCENARIO_IMAGE_LENGTH = 76"
definition SCENARIO_VERSION :: u16 where "SCENARIO_VERSION = 1"

definition NUMERIC_CONTRACT_ID :: u32 where
  "NUMERIC_CONTRACT_ID = fnv1a_32 (ascii ''ksa64.numeric.phase1-v1'')"

definition SIMPLE_EARTH_ENVIRONMENT_ID :: u32 where
  "SIMPLE_EARTH_ENVIRONMENT_ID = fnv1a_32 (ascii ''earth.simple-atmosphere.v1'')"

definition MAGIC :: "u8 list" where "MAGIC = ascii ''KSC1''"
definition MAX_TIMESTEP_Q16 :: i32 where "MAX_TIMESTEP_Q16 = 8192"
definition MAX_DURATION_Q16 :: u32 where "MAX_DURATION_Q16 = 268435456"
definition MAX_STEPS :: u32 where "MAX_STEPS = 32768"
definition MIN_ALTITUDE_Q12 :: i32 where "MIN_ALTITUDE_Q12 = - 8192"
definition MAX_ALTITUDE_Q12 :: i32 where "MAX_ALTITUDE_Q12 = 8192000"
definition MIN_VELOCITY_Q24 :: i32 where "MIN_VELOCITY_Q24 = - 134217728"
definition MAX_VELOCITY_Q24 :: i32 where "MAX_VELOCITY_Q24 = 134217728"
definition MAX_MASS_Q12 :: i32 where "MAX_MASS_Q12 = 20480000"
definition MAX_THRUST_Q12 :: i32 where "MAX_THRUST_Q12 = 409600000"
definition MAX_MASS_FLOW_Q16 :: i32 where "MAX_MASS_FLOW_Q16 = 6553600"
definition MAX_CDA_Q16 :: i32 where "MAX_CDA_Q16 = 131072000"
definition MAX_ACCELERATION_Q28 :: i32 where "MAX_ACCELERATION_Q28 = 26843546"
definition CONSERVATIVE_GRAVITY_Q28 :: i32 where "CONSERVATIVE_GRAVITY_Q28 = 3221225"

lemmas scenario_limits = SCENARIO_IMAGE_LENGTH_def SCENARIO_VERSION_def MAX_TIMESTEP_Q16_def
  MAX_DURATION_Q16_def MAX_STEPS_def MIN_ALTITUDE_Q12_def MAX_ALTITUDE_Q12_def MIN_VELOCITY_Q24_def
  MAX_VELOCITY_Q24_def MAX_MASS_Q12_def MAX_THRUST_Q12_def MAX_MASS_FLOW_Q16_def MAX_CDA_Q16_def
  MAX_ACCELERATION_Q28_def CONSERVATIVE_GRAVITY_Q28_def

datatype ScenarioField = Timestep | Steps | TelemetryStride | AltitudeField | VelocityField
  | TotalMass | Propellant | DryMass | Thrust | MassFlowField | BurnDuration | CdaField

datatype ScenarioError = Length | Magic | Version | RecordLength | Checksum | NumericContract
  | Environment | FieldRange ScenarioField | MassInvariant | Duration | BurnAlignment
  | AccelerationEnvelope | NumericFault

record InitialConditions =
  altitude :: Altitude
  velocity :: Velocity
  total_mass :: Mass
  propellant :: Mass

record VehicleConfig =
  dry_mass :: Mass
  thrust :: Force
  mass_flow :: MassFlow
  burn_duration :: Time
  cda :: Cda

record Scenario =
  scenario_id :: u32
  timestep :: Time
  steps :: u32
  telemetry_stride :: u16
  flags :: u16
  seed :: u32
  initial :: InitialConditions
  vehicle :: VehicleConfig
  environment_id :: u32

subsection \<open>The parser\<close>

definition in_range :: "i32 \<Rightarrow> i32 \<Rightarrow> i32 \<Rightarrow> ScenarioField \<Rightarrow> ScenarioError + unit" where
  "in_range value minimum maximum field =
     (if value <s minimum \<or> maximum <s value then Inl (FieldRange field) else Inr ())"

definition rem_i32 :: "i32 \<Rightarrow> i32 \<Rightarrow> i32" where
  "rem_i32 a b = word_of_int (sint a - truncate_div (sint a) (sint b) * sint b)"

definition parse_scenario_image :: "u8 list \<Rightarrow> ScenarioError + Scenario" where
  "parse_scenario_image bytes =
     (if length bytes \<noteq> SCENARIO_IMAGE_LENGTH then Inl ScenarioError.Length
      else if take 4 bytes \<noteq> MAGIC then Inl ScenarioError.Magic
      else if read_u16 bytes 4 \<noteq> SCENARIO_VERSION then Inl ScenarioError.Version
      else if unat (read_u16 bytes 6) \<noteq> SCENARIO_IMAGE_LENGTH then Inl ScenarioError.RecordLength
      else if crc32_ieee (take 72 bytes) \<noteq> read_u32 bytes 72 then Inl ScenarioError.Checksum
      else if read_u32 bytes 8 \<noteq> NUMERIC_CONTRACT_ID then Inl ScenarioError.NumericContract
      else let env_id = read_u32 bytes 68 in
      if env_id \<noteq> SIMPLE_EARTH_ENVIRONMENT_ID then Inl ScenarioError.Environment
      else
      let ts = read_i32 bytes 16;
          st = read_u32 bytes 20;
          stride = read_u16 bytes 24;
          alt = read_i32 bytes 32;
          vel = read_i32 bytes 36;
          tm = read_i32 bytes 40;
          pr = read_i32 bytes 44;
          dm = read_i32 bytes 48;
          th = read_i32 bytes 52;
          mf = read_i32 bytes 56;
          bd = read_i32 bytes 60;
          ca = read_i32 bytes 64
      in and_then (in_range ts 1 MAX_TIMESTEP_Q16 Timestep) (\<lambda>_.
      if st = 0 \<or> MAX_STEPS < st then Inl (FieldRange Steps)
      else if stride = 0 \<or> st < ucast stride then Inl (FieldRange TelemetryStride)
      else and_then (in_range alt MIN_ALTITUDE_Q12 MAX_ALTITUDE_Q12 AltitudeField) (\<lambda>_.
      and_then (in_range vel MIN_VELOCITY_Q24 MAX_VELOCITY_Q24 VelocityField) (\<lambda>_.
      and_then (in_range tm 1 MAX_MASS_Q12 TotalMass) (\<lambda>_.
      and_then (in_range pr 0 MAX_MASS_Q12 Propellant) (\<lambda>_.
      and_then (in_range dm 1 MAX_MASS_Q12 DryMass) (\<lambda>_.
      and_then (in_range th 0 MAX_THRUST_Q12 Thrust) (\<lambda>_.
      and_then (in_range mf 0 MAX_MASS_FLOW_Q16 MassFlowField) (\<lambda>_.
      and_then (in_range bd 0 MAX_DURATION_Q16 BurnDuration) (\<lambda>_.
      and_then (in_range ca 0 MAX_CDA_Q16 CdaField) (\<lambda>_.
      if tm <s dm \<or> tm <s pr \<or> tm - pr <s dm then Inl MassInvariant
      else case checked_mul ts st of
        None \<Rightarrow> Inl Duration
      | Some duration \<Rightarrow>
          if MAX_DURATION_Q16 < duration \<or> duration < bd then Inl Duration
          else if rem_i32 bd ts \<noteq> 0 then Inl BurnAlignment
          else
          let (conservative_acceleration, numeric_status) =
                run_state (do { thrust_acceleration \<leftarrow> divide_scaled th dm 28;
                                add_i32 thrust_acceleration CONSERVATIVE_GRAVITY_Q28 }) CLEAR
          in if \<not> is_clear numeric_status then Inl ScenarioError.NumericFault
             else if MAX_ACCELERATION_Q28 <s conservative_acceleration then Inl AccelerationEnvelope
             else Inr \<lparr>scenario_id = read_u32 bytes 12, timestep = ts, steps = st,
                       telemetry_stride = stride, flags = read_u16 bytes 26,
                       seed = read_u32 bytes 28,
                       initial = \<lparr>altitude = alt, velocity = vel, total_mass = tm, propellant = pr\<rparr>,
                       vehicle = \<lparr>dry_mass = dm, thrust = th, mass_flow = mf, burn_duration = bd,
                                  cda = ca\<rparr>,
                       environment_id = env_id\<rparr>)))))))))))"

subsection \<open>What a valid scenario is\<close>

definition valid_scenario :: "Scenario \<Rightarrow> bool" where
  "valid_scenario s \<longleftrightarrow>
     environment_id s = SIMPLE_EARTH_ENVIRONMENT_ID
     \<and> 1 \<le> sint (timestep s) \<and> sint (timestep s) \<le> 8192
     \<and> 1 \<le> uint (steps s) \<and> uint (steps s) \<le> 32768
     \<and> 1 \<le> uint (telemetry_stride s) \<and> uint (telemetry_stride s) \<le> uint (steps s)
     \<and> - 8192 \<le> sint (altitude (initial s)) \<and> sint (altitude (initial s)) \<le> 8192000
     \<and> - 134217728 \<le> sint (velocity (initial s)) \<and> sint (velocity (initial s)) \<le> 134217728
     \<and> sint (total_mass (initial s)) \<le> 20480000
     \<and> 0 \<le> sint (propellant (initial s))
     \<and> 1 \<le> sint (dry_mass (vehicle s))
     \<and> sint (dry_mass (vehicle s)) + sint (propellant (initial s)) \<le> sint (total_mass (initial s))
     \<and> 0 \<le> sint (thrust (vehicle s)) \<and> sint (thrust (vehicle s)) \<le> 409600000
     \<and> 0 \<le> sint (mass_flow (vehicle s)) \<and> sint (mass_flow (vehicle s)) \<le> 6553600
     \<and> 0 \<le> sint (cda (vehicle s)) \<and> sint (cda (vehicle s)) \<le> 131072000
     \<and> sint (timestep s) * uint (steps s) \<le> 268435456
     \<and> 0 \<le> sint (burn_duration (vehicle s))
     \<and> sint (burn_duration (vehicle s)) \<le> sint (timestep s) * uint (steps s)
     \<and> sint (burn_duration (vehicle s)) mod sint (timestep s) = 0
     \<and> round_half_away (sint (thrust (vehicle s)) * 2 ^ 28) (sint (dry_mass (vehicle s))) + 3221225
         \<le> 26843546"

definition scenario_of_image :: "u8 list \<Rightarrow> Scenario" where
  "scenario_of_image bytes =
     \<lparr>scenario_id = read_u32 bytes 12, timestep = read_u32 bytes 16, steps = read_u32 bytes 20,
      telemetry_stride = read_u16 bytes 24, flags = read_u16 bytes 26, seed = read_u32 bytes 28,
      initial = \<lparr>altitude = read_u32 bytes 32, velocity = read_u32 bytes 36,
                 total_mass = read_u32 bytes 40, propellant = read_u32 bytes 44\<rparr>,
      vehicle = \<lparr>dry_mass = read_u32 bytes 48, thrust = read_u32 bytes 52,
                 mass_flow = read_u32 bytes 56, burn_duration = read_u32 bytes 60,
                 cda = read_u32 bytes 64\<rparr>,
      environment_id = read_u32 bytes 68\<rparr>"

definition well_formed_image :: "u8 list \<Rightarrow> bool" where
  "well_formed_image bytes \<longleftrightarrow> length bytes = 76 \<and> take 4 bytes = ascii ''KSC1''
     \<and> read_u16 bytes 4 = 1 \<and> read_u16 bytes 6 = 76
     \<and> crc32_ieee (take 72 bytes) = read_u32 bytes 72 \<and> read_u32 bytes 8 = NUMERIC_CONTRACT_ID"

subsection \<open>The parser accepts exactly the valid images\<close>

lemma in_range_Inr [simp]:
  "in_range v lo hi f = Inr u \<longleftrightarrow> sint lo \<le> sint v \<and> sint v \<le> sint hi"
  by (auto simp: in_range_def word_sless_alt)

lemma checked_mul_Some [simp]:
  "checked_mul a b = Some d \<longleftrightarrow> uint a * uint b < 2 ^ 32 \<and> d = a * b"
proof -
  have "unat a * unat b < 2 ^ 32 \<longleftrightarrow> int (unat a * unat b) < int (2 ^ 32)"
    by (simp only: of_nat_less_iff)
  then have "unat a * unat b < 2 ^ 32 \<longleftrightarrow> uint a * uint b < 2 ^ 32" by simp
  then show ?thesis by (auto simp: checked_mul_def)
qed

lemma rem_i32_nonneg:
  assumes "0 \<le> sint a" "0 < sint b"
  shows "rem_i32 a b = 0 \<longleftrightarrow> sint a mod sint b = 0"
proof -
  have "truncate_div (sint a) (sint b) = sint a div sint b"
    using assms by (cases "sint a = 0") (simp_all add: truncate_div_def)
  then have "rem_i32 a b = word_of_int (sint a mod sint b)"
    by (simp add: rem_i32_def minus_div_mult_eq_mod)
  moreover have "0 \<le> sint a mod sint b" "sint a mod sint b < sint b"
    using assms by simp_all
  moreover have "sint b < 2147483648" by (rule sint_i32_less)
  ultimately have "sint (rem_i32 a b) = sint a mod sint b"
    by (simp only: ) (rule sint_word_of_int_i32; linarith)
  then show ?thesis by (metis signed_eq_0_iff)
qed

lemma checked_run_Inr:
  "(case run_state m CLEAR of (x, status) \<Rightarrow>
      if \<not> is_clear status then Inl e else if limit <s x then Inl e' else Inr r) = Inr y
   \<longleftrightarrow> (\<exists>x. clean m x \<and> sint x \<le> sint limit) \<and> r = y"
  by (cases "run_state m CLEAR") (auto simp: clean_def CLEAR_def is_clear_def word_sless_alt)

lemma acceleration_envelope:
  assumes "0 \<le> sint th" "0 < sint dm"
  shows "(\<exists>x. clean (do { a \<leftarrow> divide_scaled th dm 28; add_i32 a CONSERVATIVE_GRAVITY_Q28 }) x
            \<and> sint x \<le> sint MAX_ACCELERATION_Q28)
     \<longleftrightarrow> round_half_away (sint th * 2 ^ 28) (sint dm) + 3221225 \<le> 26843546"
proof -
  let ?q = "round_half_away (sint th * 2 ^ 28) (sint dm)"
  have q: "0 \<le> ?q" using assms by (simp add: round_half_away_def sgn_if zero_le_mult_iff pos_imp_zdiv_nonneg_iff)
  show ?thesis
  proof
    assume le: "?q + 3221225 \<le> 26843546"
    then have "sint (word_of_int ?q :: i32) = ?q" "sint (word_of_int (?q + 3221225) :: i32) = ?q + 3221225"
      using q by (intro sint_word_of_int_i32; linarith)+
    with le assms show "\<exists>x. clean (do { a \<leftarrow> divide_scaled th dm 28; add_i32 a CONSERVATIVE_GRAVITY_Q28 }) x
            \<and> sint x \<le> sint MAX_ACCELERATION_Q28"
      by (intro exI [of _ "word_of_int (?q + 3221225)"] conjI clean_bindI [where x = "word_of_int ?q"])
         (auto simp: clean scenario_limits)
  qed (auto simp: clean sticky scenario_limits)
qed

lemma uint_ge_1_iff: "1 \<le> uint (x :: 'a::len word) \<longleftrightarrow> x \<noteq> 0"
proof (cases "x = 0")
  case False
  then have "uint x \<noteq> 0" by (simp add: word_uint_eq_iff)
  moreover have "0 \<le> uint x" by simp
  ultimately have "1 \<le> uint x" by linarith
  with False show ?thesis by simp
qed simp

lemma steps_range:
  "\<not> (st = 0 \<or> MAX_STEPS < st) \<longleftrightarrow> 1 \<le> uint st \<and> uint st \<le> 32768"
  by (auto simp: MAX_STEPS_def word_less_def uint_ge_1_iff)

lemma stride_range:
  "\<not> (stride = 0 \<or> st < (ucast (stride :: u16) :: u32)) \<longleftrightarrow> 1 \<le> uint stride \<and> uint stride \<le> uint st"
proof -
  have "uint (ucast stride :: u32) = uint stride"
    by (simp add: unsigned_ucast_eq take_bit_eq_mod uint_bounded less_trans [OF uint_bounded [of stride]])
  then show ?thesis
    by (auto simp: word_less_def uint_ge_1_iff)
qed

lemma mass_range:
  assumes "0 \<le> sint (pr :: i32)" "1 \<le> sint tm" "1 \<le> sint dm"
  shows "\<not> (tm <s dm \<or> tm <s pr \<or> tm - pr <s dm) \<longleftrightarrow> sint dm + sint pr \<le> sint tm"
proof -
  have "sint (tm - pr) = sint tm - sint pr"
    using assms sint_i32_less [of pr] sint_i32_less [of tm] by (intro sint_i32_diff) simp_all
  then show ?thesis using assms by (auto simp: word_sless_alt)
qed

lemma duration_range:
  assumes "1 \<le> sint (ts :: i32)" "sint ts \<le> 8192" "1 \<le> uint (st :: u32)" "uint st \<le> 32768"
    and "0 \<le> sint (bd :: i32)"
  shows "(\<exists>d. checked_mul ts st = Some d \<and> \<not> (MAX_DURATION_Q16 < d \<or> d < bd))
    \<longleftrightarrow> sint ts * uint st \<le> 268435456 \<and> sint bd \<le> sint ts * uint st"
proof -
  have u: "uint ts = sint ts" "uint bd = sint bd" using assms by (simp_all add: uint_eq_sint)
  have le: "sint ts * uint st \<le> 8192 * 32768" using assms by (intro mult_mono) simp_all
  moreover have "0 \<le> sint ts * uint st" using assms by simp
  ultimately have "uint (ts * st) = sint ts * uint st" by (simp add: uint_word_ariths u)
  then show ?thesis using le u by (auto simp: MAX_DURATION_Q16_def word_less_def)
qed

lemma sint_scenario_limits:
  "sint (0 :: i32) = 0" "sint (1 :: i32) = 1" "sint MAX_TIMESTEP_Q16 = 8192"
  "sint MIN_ALTITUDE_Q12 = - 8192" "sint MAX_ALTITUDE_Q12 = 8192000"
  "sint MIN_VELOCITY_Q24 = - 134217728" "sint MAX_VELOCITY_Q24 = 134217728"
  "sint MAX_MASS_Q12 = 20480000" "sint MAX_THRUST_Q12 = 409600000"
  "sint MAX_MASS_FLOW_Q16 = 6553600" "sint MAX_DURATION_Q16 = 268435456" "sint MAX_CDA_Q16 = 131072000"
  by (simp_all add: scenario_limits)

lemma image_length_field: "unat (w :: u16) = 76 \<longleftrightarrow> w = 76"
  by (simp add: word_unat_eq_iff)

lemma parse_conditions:
  "parse_scenario_image bytes = Inr s \<longleftrightarrow>
    well_formed_image bytes \<and> read_u32 bytes 68 = SIMPLE_EARTH_ENVIRONMENT_ID
    \<and> (1 \<le> sint (read_u32 bytes 16) \<and> sint (read_u32 bytes 16) \<le> 8192)
    \<and> \<not> (read_u32 bytes 20 = 0 \<or> MAX_STEPS < read_u32 bytes 20)
    \<and> \<not> (read_u16 bytes 24 = 0 \<or> read_u32 bytes 20 < ucast (read_u16 bytes 24))
    \<and> (- 8192 \<le> sint (read_u32 bytes 32) \<and> sint (read_u32 bytes 32) \<le> 8192000)
    \<and> (- 134217728 \<le> sint (read_u32 bytes 36) \<and> sint (read_u32 bytes 36) \<le> 134217728)
    \<and> (1 \<le> sint (read_u32 bytes 40) \<and> sint (read_u32 bytes 40) \<le> 20480000)
    \<and> (0 \<le> sint (read_u32 bytes 44) \<and> sint (read_u32 bytes 44) \<le> 20480000)
    \<and> (1 \<le> sint (read_u32 bytes 48) \<and> sint (read_u32 bytes 48) \<le> 20480000)
    \<and> (0 \<le> sint (read_u32 bytes 52) \<and> sint (read_u32 bytes 52) \<le> 409600000)
    \<and> (0 \<le> sint (read_u32 bytes 56) \<and> sint (read_u32 bytes 56) \<le> 6553600)
    \<and> (0 \<le> sint (read_u32 bytes 60) \<and> sint (read_u32 bytes 60) \<le> 268435456)
    \<and> (0 \<le> sint (read_u32 bytes 64) \<and> sint (read_u32 bytes 64) \<le> 131072000)
    \<and> \<not> (read_u32 bytes 40 <s read_u32 bytes 48 \<or> read_u32 bytes 40 <s read_u32 bytes 44
           \<or> read_u32 bytes 40 - read_u32 bytes 44 <s read_u32 bytes 48)
    \<and> (\<exists>d. checked_mul (read_u32 bytes 16) (read_u32 bytes 20) = Some d
           \<and> \<not> (MAX_DURATION_Q16 < d \<or> d < read_u32 bytes 60))
    \<and> rem_i32 (read_u32 bytes 60) (read_u32 bytes 16) = 0
    \<and> (\<exists>x. clean (do { a \<leftarrow> divide_scaled (read_u32 bytes 52) (read_u32 bytes 48) 28;
                       add_i32 a CONSERVATIVE_GRAVITY_Q28 }) x \<and> sint x \<le> sint MAX_ACCELERATION_Q28)
    \<and> s = scenario_of_image bytes"
  unfolding parse_scenario_image_def Let_def read_i32_def well_formed_image_def scenario_of_image_def
  by (simp only: if_Inl_eq_Inr and_then_Inr in_range_Inr not_not checked_run_Inr image_length_field
      case_option_Inr ex_simps simp_thms sint_scenario_limits SCENARIO_IMAGE_LENGTH_def
      SCENARIO_VERSION_def MAGIC_def) blast

lemma parse_scenario_image_sound:
  assumes "parse_scenario_image bytes = Inr s"
  shows "well_formed_image bytes \<and> s = scenario_of_image bytes \<and> valid_scenario s"
proof -
  note c = assms [unfolded parse_conditions steps_range stride_range]
  have "sint (read_u32 bytes 48) + sint (read_u32 bytes 44) \<le> sint (read_u32 bytes 40)"
    using c mass_range [of "read_u32 bytes 44" "read_u32 bytes 40" "read_u32 bytes 48"] by blast
  moreover have "sint (read_u32 bytes 16) * uint (read_u32 bytes 20) \<le> 268435456
      \<and> sint (read_u32 bytes 60) \<le> sint (read_u32 bytes 16) * uint (read_u32 bytes 20)"
    using c duration_range [of "read_u32 bytes 16" "read_u32 bytes 20" "read_u32 bytes 60"] by blast
  moreover have "sint (read_u32 bytes 60) mod sint (read_u32 bytes 16) = 0"
    by (rule rem_i32_nonneg [THEN iffD1]) (use c in linarith)+
  moreover have "round_half_away (sint (read_u32 bytes 52) * 2 ^ 28) (sint (read_u32 bytes 48)) + 3221225 \<le> 26843546"
    by (rule acceleration_envelope [THEN iffD1]) (use c in linarith, use c in linarith, use c in blast)
  ultimately show ?thesis
    using c by (simp add: valid_scenario_def scenario_of_image_def)
qed

lemma parse_scenario_image_complete:
  assumes "well_formed_image bytes" "valid_scenario (scenario_of_image bytes)"
  shows "parse_scenario_image bytes = Inr (scenario_of_image bytes)"
proof -
  note v = assms(2) [unfolded valid_scenario_def scenario_of_image_def, simplified]
  have m: "1 \<le> sint (read_u32 bytes 40)" using v by linarith
  have "\<not> (read_u32 bytes 40 <s read_u32 bytes 48 \<or> read_u32 bytes 40 <s read_u32 bytes 44
      \<or> read_u32 bytes 40 - read_u32 bytes 44 <s read_u32 bytes 48)"
    using v m by (subst mass_range) simp_all
  moreover have "\<exists>d. checked_mul (read_u32 bytes 16) (read_u32 bytes 20) = Some d
      \<and> \<not> (MAX_DURATION_Q16 < d \<or> d < read_u32 bytes 60)"
    using v by (subst duration_range) simp_all
  moreover have "rem_i32 (read_u32 bytes 60) (read_u32 bytes 16) = 0"
    using v by (subst rem_i32_nonneg) simp_all
  moreover have "\<exists>x. clean (do { a \<leftarrow> divide_scaled (read_u32 bytes 52) (read_u32 bytes 48) 28;
      add_i32 a CONSERVATIVE_GRAVITY_Q28 }) x \<and> sint x \<le> sint MAX_ACCELERATION_Q28"
    using v by (subst acceleration_envelope) simp_all
  moreover have "sint (read_u32 bytes 44) \<le> 20480000" "sint (read_u32 bytes 48) \<le> 20480000"
    "sint (read_u32 bytes 60) \<le> 268435456" using v by linarith+
  ultimately show ?thesis
    unfolding parse_conditions steps_range stride_range using assms(1) v m by blast
qed

subsection \<open>Encoding\<close>

text \<open>
  The reference encoding of a scenario: the image an external scenario compiler has
  to produce. It is part of the specification, the program only reads images.
\<close>

definition scenario_body :: "Scenario \<Rightarrow> u8 list" where
  "scenario_body s = ascii ''KSC1'' @ to_le_bytes16 1 @ to_le_bytes16 76
     @ to_le_bytes32 NUMERIC_CONTRACT_ID @ to_le_bytes32 (scenario_id s)
     @ to_le_bytes32 (timestep s) @ to_le_bytes32 (steps s) @ to_le_bytes16 (telemetry_stride s)
     @ to_le_bytes16 (flags s) @ to_le_bytes32 (seed s)
     @ to_le_bytes32 (altitude (initial s)) @ to_le_bytes32 (velocity (initial s))
     @ to_le_bytes32 (total_mass (initial s)) @ to_le_bytes32 (propellant (initial s))
     @ to_le_bytes32 (dry_mass (vehicle s)) @ to_le_bytes32 (thrust (vehicle s))
     @ to_le_bytes32 (mass_flow (vehicle s)) @ to_le_bytes32 (burn_duration (vehicle s))
     @ to_le_bytes32 (cda (vehicle s)) @ to_le_bytes32 (environment_id s)"

definition encode_scenario :: "Scenario \<Rightarrow> u8 list" where
  "encode_scenario s = scenario_body s @ to_le_bytes32 (crc32_ieee (scenario_body s))"

lemma length_scenario_body [simp]: "length (scenario_body s) = 72"
  by (simp add: scenario_body_def)

lemma encode_scenario_well_formed: "well_formed_image (encode_scenario s)"
proof -
  have "read_u32 (encode_scenario s) 72 = crc32_ieee (scenario_body s)"
    by (simp add: encode_scenario_def read_u32_def nth_append to_le_bytes32_def)
  moreover have "take 4 (encode_scenario s) = ascii ''KSC1''"
    by (simp add: encode_scenario_def scenario_body_def)
  moreover have "read_u16 (encode_scenario s) 4 = 1" "read_u16 (encode_scenario s) 6 = 76"
    "read_u32 (encode_scenario s) 8 = NUMERIC_CONTRACT_ID"
    by (simp_all add: encode_scenario_def scenario_body_def read_u16_def read_u32_def
        to_le_bytes16_def to_le_bytes32_def from_le_bytes16_def)
  ultimately show ?thesis by (simp add: well_formed_image_def encode_scenario_def)
qed

lemma scenario_of_encoded: "scenario_of_image (encode_scenario s) = s"
  by (cases s rule: Scenario.cases)
     (simp add: scenario_of_image_def encode_scenario_def scenario_body_def read_u16_def read_u32_def
      to_le_bytes16_def to_le_bytes32_def)

definition reference_scenario :: Scenario where
  "reference_scenario =
     \<lparr>scenario_id = 7, timestep = 4096, steps = 16, telemetry_stride = 5, flags = 0, seed = 99,
      initial = \<lparr>altitude = 0, velocity = 0, total_mass = 40960, propellant = 20480\<rparr>,
      vehicle = \<lparr>dry_mass = 8192, thrust = 655, mass_flow = 65536, burn_duration = 32768, cda = 65536\<rparr>,
      environment_id = SIMPLE_EARTH_ENVIRONMENT_ID\<rparr>"

lemma reference_scenario_valid: "valid_scenario reference_scenario"
  by (simp add: valid_scenario_def reference_scenario_def round_half_away_def)

lemma reference_image_parses: "parse_scenario_image (encode_scenario reference_scenario) = Inr reference_scenario"
  using parse_scenario_image_complete [of "encode_scenario reference_scenario"]
  by (simp add: encode_scenario_well_formed scenario_of_encoded reference_scenario_valid)

subsection \<open>The contract of the scenario parser\<close>

text \<open>
  C32: the parser accepts an image exactly when its envelope is right (length, magic,
  version, record length, checksum, numeric contract) and the scenario its fields
  spell out is valid, and then it returns that scenario. Validity includes the
  derived conditions: mass split, duration, burn alignment and the acceleration
  envelope, with no overflow hidden in their evaluation.
\<close>
theorem parse_scenario_image_spec:
  "parse_scenario_image bytes = Inr s \<longleftrightarrow>
     well_formed_image bytes \<and> s = scenario_of_image bytes \<and> valid_scenario s"
  using parse_scenario_image_sound parse_scenario_image_complete by blast

text \<open>
  Every valid scenario has an image, and an encoded scenario is accepted, with
  itself as the result, exactly when it is valid.
\<close>
theorem scenario_image_roundtrip:
  "parse_scenario_image (encode_scenario s) = Inr s \<longleftrightarrow> valid_scenario s"
  using parse_scenario_image_sound [of "encode_scenario s" s]
    parse_scenario_image_complete [of "encode_scenario s"]
  by (auto simp: encode_scenario_well_formed scenario_of_encoded)

text \<open>
  An accepted image in which any one byte is replaced by a different one is
  rejected, wherever the byte lies (the checksum field included).
\<close>
theorem scenario_corruption_rejected:
  assumes "parse_scenario_image bytes = Inr s" "i < 76" "b \<noteq> bytes ! i"
  shows "\<not> is_ok (parse_scenario_image (bytes[i := b]))"
proof
  assume "is_ok (parse_scenario_image (bytes[i := b]))"
  then have "well_formed_image (bytes[i := b])"
    using parse_scenario_image_sound by (auto simp: is_ok_iff)
  moreover have "well_formed_image bytes" using assms(1) parse_scenario_image_sound by blast
  ultimately show False
    using crc32_record.corruption_detected [of 72 bytes i b] assms(2,3) by (simp add: well_formed_image_def)
qed

theorem scenario_corruption_rejected_witness:
  "\<not> is_ok (parse_scenario_image ((encode_scenario reference_scenario)[0 := 0]))"
  using scenario_corruption_rejected [OF reference_image_parses, of 0 0]
  by (simp add: encode_scenario_def scenario_body_def)

end
