(* ===== verification/Interpolation.thy ===== *)
theory Interpolation
  imports Numeric
begin

text \<open>
  The vector magnitudes and the table interpolation of \<^verbatim>\<open>core/src/numeric.rs\<close>.
  The two interpolation routines share their search loop and differ in the
  fraction they compute; the locale \<^verbatim>\<open>q16_fraction\<close> states what the loop needs
  of the fraction and is interpreted on both.
\<close>

unbundle bit_operations_syntax

subsection \<open>Magnitudes\<close>

definition sqrt_floor_scaled_u32 :: "u32 \<Rightarrow> nat \<Rightarrow> u32 num" where
  "sqrt_floor_scaled_u32 value shift =
     (if 31 < shift then fail_with InvalidShift 0
      else State_Monad.return (sqrt_floor_unsigned_64 (shift_left_32 value shift)))"

definition overflowing_add :: "u32 \<Rightarrow> u32 \<Rightarrow> u32 \<times> bool" where
  "overflowing_add a b = (a + b, 2 ^ 32 \<le> unat a + unat b)"

definition add_unsigned_64_checked :: "Unsigned64 \<Rightarrow> Unsigned64 \<Rightarrow> Unsigned64 num" where
  "add_unsigned_64_checked value addend =
     (let (l, carry) = overflowing_add (low value) (low addend);
          (h, overflow_high) = overflowing_add (high value) (high addend);
          (h, overflow_carry) = overflowing_add h (of_bool carry)
      in if overflow_high \<or> overflow_carry
         then fail_with Saturation \<lparr>low = 0xffffffff, high = 0xffffffff\<rparr>
         else State_Monad.return \<lparr>low = l, high = h\<rparr>)"

definition square_magnitude :: "i32 \<Rightarrow> Unsigned64" where
  "square_magnitude c = multiply_unsigned_32 (magnitude c) (magnitude c)"

definition magnitude4_floor :: "i32 \<Rightarrow> i32 \<Rightarrow> i32 \<Rightarrow> i32 \<Rightarrow> u32 num" where
  "magnitude4_floor w x y z =
     do { let squared = square_magnitude w;
          squared \<leftarrow> add_unsigned_64_checked squared (square_magnitude x);
          squared \<leftarrow> add_unsigned_64_checked squared (square_magnitude y);
          squared \<leftarrow> add_unsigned_64_checked squared (square_magnitude z);
          State_Monad.return (sqrt_floor_unsigned_64 squared) }"

definition magnitude3_floor :: "i32 \<Rightarrow> i32 \<Rightarrow> i32 \<Rightarrow> u32 num" where
  "magnitude3_floor x y z =
     do { let squared = square_magnitude x;
          squared \<leftarrow> add_unsigned_64_checked squared (square_magnitude y);
          squared \<leftarrow> add_unsigned_64_checked squared (square_magnitude z);
          State_Monad.return (sqrt_floor_unsigned_64 squared) }"

subsection \<open>Interpolation\<close>

definition divide_unsigned_fraction_q16_integral_q12 :: "i32 \<Rightarrow> i32 \<Rightarrow> i32 num" where
  "divide_unsigned_fraction_q16_integral_q12 numerator_q12 denominator_q12 =
     (if numerator_q12 <s 0 \<or> denominator_q12 \<le>s 0 \<or> denominator_q12 \<le>s numerator_q12
         \<or> denominator_q12 AND 0x0fff \<noteq> 0
         \<or> 0xffff <s signed_drop_bit 12 denominator_q12
         \<or> 0x0fffffff <s numerator_q12
      then fail_with InvalidInput 0
      else let scaled_numerator = push_bit 4 numerator_q12;
               denominator_units = ucast (signed_drop_bit 12 denominator_q12) :: u16;
               (quot, remainder) = divide_unsigned_32_by_16 scaled_numerator denominator_units;
               quot = (if (ucast denominator_units - ucast remainder :: u32) \<le> ucast remainder
                       then quot + 1 else quot)
           in State_Monad.return quot)"

definition clamp_i32 :: "i32 \<Rightarrow> i32 \<Rightarrow> i32 \<Rightarrow> i32" where
  "clamp_i32 v minimum maximum =
     (if v <s minimum then minimum else if maximum <s v then maximum else v)"

function interpolate_loop ::
  "(i32 \<Rightarrow> i32 \<Rightarrow> i32 num) \<Rightarrow> i32 \<Rightarrow> i32 list \<Rightarrow> i32 list \<Rightarrow> nat \<Rightarrow> nat \<Rightarrow> i32 num" where
  "interpolate_loop fraction_of x xs ys last_index index =
     (if index < last_index
      then let x0 = xs ! index; x1 = xs ! (index + 1)
           in if x1 \<le>s x0 then fail_with InvalidInput 0
              else if x <s x1
              then do { numerator \<leftarrow> subtract_i32 x x0;
                        denominator \<leftarrow> subtract_i32 x1 x0;
                        fraction \<leftarrow> fraction_of numerator denominator;
                        range \<leftarrow> subtract_i32 (ys ! (index + 1)) (ys ! index);
                        delta \<leftarrow> multiply_scaled range fraction 16;
                        add_i32 (ys ! index) delta }
              else interpolate_loop fraction_of x xs ys last_index (index + 1)
      else fail_with InvalidInput 0)"
  by pat_completeness auto
termination
  by (relation "measure (\<lambda>(_, _, _, _, last_index, index). last_index - index)") auto

declare interpolate_loop.simps [simp del]

definition interpolate_with ::
  "(i32 \<Rightarrow> i32 \<Rightarrow> i32 num) \<Rightarrow> i32 \<Rightarrow> i32 list \<Rightarrow> i32 list \<Rightarrow> i32 num" where
  "interpolate_with fraction_of x xs ys =
     (if xs = [] \<or> length xs \<noteq> length ys then fail_with InvalidInput 0
      else if x \<le>s xs ! 0 then State_Monad.return (ys ! 0)
      else let last_index = length xs - 1
           in if xs ! last_index \<le>s x then State_Monad.return (ys ! last_index)
              else interpolate_loop fraction_of x xs ys last_index 0)"

definition clamped_fraction :: "i32 \<Rightarrow> i32 \<Rightarrow> i32 num" where
  "clamped_fraction numerator denominator =
     do { fraction \<leftarrow> divide_scaled numerator denominator 16;
          State_Monad.return (clamp_i32 fraction 0 65535) }"

definition interpolate_clamped :: "i32 \<Rightarrow> i32 list \<Rightarrow> i32 list \<Rightarrow> i32 num" where
  "interpolate_clamped = interpolate_with clamped_fraction"

definition interpolate_clamped_integral_q12 :: "i32 \<Rightarrow> i32 list \<Rightarrow> i32 list \<Rightarrow> i32 num" where
  "interpolate_clamped_integral_q12 = interpolate_with divide_unsigned_fraction_q16_integral_q12"

subsection \<open>Magnitudes are exact floors\<close>

lemma add_unsigned_64_checked_value:
  "if value64 v + value64 w < 2 ^ 64
   then \<exists>u. add_unsigned_64_checked v w = State_Monad.return u \<and> value64 u = value64 v + value64 w
   else add_unsigned_64_checked v w = fail_with Saturation \<lparr>low = 0xffffffff, high = 0xffffffff\<rparr>"
proof -
  let ?s = "unat (low v) + unat (low w)" and ?h = "unat (high v) + unat (high w)"
  let ?c = "of_bool (2 ^ 32 \<le> ?s)"
  have lt: "?s < 2 * 2 ^ 32" using unat_u32_less [of "low v"] unat_u32_less [of "low w"] by simp
  have "?s div 2 ^ 32 = ?c" using div_two_step [OF lt] by (simp only: of_bool_def)
  then have s: "?s = ?c * 2 ^ 32 + ?s mod 2 ^ 32" by (metis div_mult_mod_eq)
  have sum: "value64 v + value64 w = (?h + ?c) * 2 ^ 32 + ?s mod 2 ^ 32"
    using s by (simp add: value64_def algebra_simps)
  have m: "?s mod 2 ^ 32 < 2 ^ 32" by simp
  have fits: "value64 v + value64 w < 2 ^ 64 \<longleftrightarrow> ?h + ?c < 2 ^ 32"
    unfolding sum using m by auto
  show ?thesis
  proof (cases "?h + ?c < 2 ^ 32")
    case True
    then have "unat (high v + high w) = ?h" by (simp add: unat_word_ariths)
    with True have "unat (high v + high w + of_bool (2 ^ 32 \<le> ?s)) = ?h + ?c"
      by (cases "2 ^ 32 \<le> ?s") (simp_all add: unat_word_ariths)
    moreover have "unat (low v + low w) = ?s mod 2 ^ 32" by (simp add: unat_word_ariths)
    ultimately show ?thesis
      using True fits sum \<open>unat (high v + high w) = ?h\<close>
      by (auto simp: add_unsigned_64_checked_def overflowing_add_def value64_def)
  next
    case False
    show ?thesis
    proof (cases "?h < 2 ^ 32")
      case True
      then have "unat (high v + high w) = ?h" by (simp add: unat_word_ariths)
      then show ?thesis
        using True False fits
        by (cases "2 ^ 32 \<le> ?s") (simp_all add: add_unsigned_64_checked_def overflowing_add_def)
    next
      case big: False
      then show ?thesis
        using False fits by (simp add: add_unsigned_64_checked_def overflowing_add_def)
    qed
  qed
qed


lemma value64_square_magnitude: "int (value64 (square_magnitude c)) = (sint c)\<^sup>2"
  by (simp add: square_magnitude_def value64_multiply_unsigned_32 uint_magnitude power2_eq_square)

lemma square_magnitude_le: "value64 (square_magnitude c) \<le> 2 ^ 62"
proof -
  have "unat (magnitude c) * unat (magnitude c) \<le> 2147483648 * 2147483648"
    using unat_magnitude_le [of c] by (intro mult_mono) simp_all
  then show ?thesis by (simp add: square_magnitude_def value64_multiply_unsigned_32)
qed

lemma add_unsigned_64_exact:
  assumes "value64 v + value64 w < 2 ^ 64"
  obtains u where "add_unsigned_64_checked v w = State_Monad.return u" "value64 u = value64 v + value64 w"
  using add_unsigned_64_checked_value [of v w] assms by auto

lemma magnitude3_floor_exact:
  "\<exists>r. magnitude3_floor x y z = State_Monad.return r
     \<and> (uint r)\<^sup>2 \<le> (sint x)\<^sup>2 + (sint y)\<^sup>2 + (sint z)\<^sup>2
     \<and> (sint x)\<^sup>2 + (sint y)\<^sup>2 + (sint z)\<^sup>2 < (uint r + 1)\<^sup>2"
proof -
  note le = square_magnitude_le [of x] square_magnitude_le [of y] square_magnitude_le [of z]
  obtain u where u: "add_unsigned_64_checked (square_magnitude x) (square_magnitude y) = State_Monad.return u"
    "value64 u = value64 (square_magnitude x) + value64 (square_magnitude y)"
    using le by (elim add_unsigned_64_exact [rotated]) simp
  obtain t where t: "add_unsigned_64_checked u (square_magnitude z) = State_Monad.return t"
    "value64 t = value64 u + value64 (square_magnitude z)"
    using le u(2) by (elim add_unsigned_64_exact [rotated]) simp
  let ?r = "sqrt_floor_unsigned_64 t"
  have "magnitude3_floor x y z = State_Monad.return ?r"
    by (simp add: magnitude3_floor_def u(1) t(1))
  moreover have "int (value64 t) = (sint x)\<^sup>2 + (sint y)\<^sup>2 + (sint z)\<^sup>2"
    by (simp add: t(2) u(2) value64_square_magnitude)
  moreover have "int ((unat ?r)\<^sup>2) \<le> int (value64 t)" "int (value64 t) < int ((unat ?r + 1)\<^sup>2)"
    using sqrt_floor_unsigned_64_correct [of t] by (simp_all only: of_nat_le_iff of_nat_less_iff)
  ultimately show ?thesis by (auto simp: add.commute)
qed

lemma square_magnitude_max:
  "2 ^ 62 \<le> value64 (square_magnitude c) \<longleftrightarrow> c = i32_MIN"
proof -
  have "2 ^ 62 \<le> value64 (square_magnitude c) \<longleftrightarrow> (2147483648 :: nat)\<^sup>2 \<le> (unat (magnitude c))\<^sup>2"
    by (simp add: square_magnitude_def value64_multiply_unsigned_32 power2_eq_square)
  also have "\<dots> \<longleftrightarrow> 2147483648 \<le> unat (magnitude c)" by (simp only: power2_nat_le_eq_le)
  also have "\<dots> \<longleftrightarrow> 2147483648 \<le> \<bar>sint c\<bar>"
    using unat_magnitude [of c] by linarith
  also have "\<dots> \<longleftrightarrow> sint c = sint i32_MIN"
    using sint_i32_ge [of c] sint_i32_less [of c] by auto
  finally show ?thesis by (metis signed_word_eqI)
qed

lemma sqrt_floor_all_ones: "sqrt_floor_unsigned_64 \<lparr>low = 0xffffffff, high = 0xffffffff\<rparr> = 0xffffffff"
proof -
  let ?r = "sqrt_floor_unsigned_64 \<lparr>low = 0xffffffff, high = 0xffffffff\<rparr>"
  have "18446744073709551615 < (unat ?r + 1)\<^sup>2"
    using sqrt_floor_unsigned_64_correct [of "\<lparr>low = 0xffffffff, high = 0xffffffff\<rparr>"]
    by (simp add: value64_def)
  then have "(4294967296 :: nat)\<^sup>2 \<le> (unat ?r + 1)\<^sup>2" by simp
  then have "4294967296 \<le> unat ?r + 1" by (simp only: power2_nat_le_eq_le)
  then have "unat ?r = 4294967295" using unat_u32_less [of ?r] by linarith
  then show ?thesis by (simp add: word_unat_eq_iff)
qed

lemma magnitude4_floor_exact:
  "if w = i32_MIN \<and> x = i32_MIN \<and> y = i32_MIN \<and> z = i32_MIN
   then magnitude4_floor w x y z = fail_with Saturation 0xffffffff
   else \<exists>r. magnitude4_floor w x y z = State_Monad.return r
     \<and> (uint r)\<^sup>2 \<le> (sint w)\<^sup>2 + (sint x)\<^sup>2 + (sint y)\<^sup>2 + (sint z)\<^sup>2
     \<and> (sint w)\<^sup>2 + (sint x)\<^sup>2 + (sint y)\<^sup>2 + (sint z)\<^sup>2 < (uint r + 1)\<^sup>2"
proof -
  note le = square_magnitude_le [of w] square_magnitude_le [of x] square_magnitude_le [of y]
    square_magnitude_le [of z]
  obtain v where v: "add_unsigned_64_checked (square_magnitude w) (square_magnitude x) = State_Monad.return v"
    "value64 v = value64 (square_magnitude w) + value64 (square_magnitude x)"
    using le by (elim add_unsigned_64_exact [rotated]) simp
  obtain u where u: "add_unsigned_64_checked v (square_magnitude y) = State_Monad.return u"
    "value64 u = value64 v + value64 (square_magnitude y)"
    using le v(2) by (elim add_unsigned_64_exact [rotated]) simp
  let ?S = "value64 u + value64 (square_magnitude z)"
  have sum: "int ?S = (sint w)\<^sup>2 + (sint x)\<^sup>2 + (sint y)\<^sup>2 + (sint z)\<^sup>2"
    by (simp add: u(2) v(2) value64_square_magnitude)
  have top: "2 ^ 64 \<le> ?S \<longleftrightarrow> w = i32_MIN \<and> x = i32_MIN \<and> y = i32_MIN \<and> z = i32_MIN"
    unfolding square_magnitude_max [symmetric] u(2) v(2) using le by auto
  have run: "magnitude4_floor w x y z = do { squared \<leftarrow> add_unsigned_64_checked u (square_magnitude z);
      State_Monad.return (sqrt_floor_unsigned_64 squared) }"
    by (simp add: magnitude4_floor_def v(1) u(1))
  show ?thesis
  proof (cases "2 ^ 64 \<le> ?S")
    case True
    then have "add_unsigned_64_checked u (square_magnitude z)
        = fail_with Saturation \<lparr>low = 0xffffffff, high = 0xffffffff\<rparr>"
      using add_unsigned_64_checked_value [of u "square_magnitude z"] by (simp split: if_splits)
    then have "magnitude4_floor w x y z = fail_with Saturation 0xffffffff"
      by (simp add: run fail_with_def sqrt_floor_all_ones)
    with True top show ?thesis by simp
  next
    case False
    then obtain t where t: "add_unsigned_64_checked u (square_magnitude z) = State_Monad.return t"
      "value64 t = ?S" by (elim add_unsigned_64_exact [rotated]) simp
    have "int ((unat (sqrt_floor_unsigned_64 t))\<^sup>2) \<le> int (value64 t)"
      "int (value64 t) < int ((unat (sqrt_floor_unsigned_64 t) + 1)\<^sup>2)"
      using sqrt_floor_unsigned_64_correct [of t] by (simp_all only: of_nat_le_iff of_nat_less_iff)
    with False top t sum show ?thesis by (auto simp: run add.commute)
  qed
qed

subsection \<open>Interpolation stays between its knots\<close>

lemma round_half_away_fraction:
  assumes "0 \<le> f" "f \<le> 65536"
  shows "0 \<le> r \<Longrightarrow> 0 \<le> round_half_away (r * f) 65536 \<and> round_half_away (r * f) 65536 \<le> r"
    and "r \<le> 0 \<Longrightarrow> r \<le> round_half_away (r * f) 65536 \<and> round_half_away (r * f) 65536 \<le> 0"
proof -
  have main: "0 \<le> round_half_away (r * f) 65536 \<and> round_half_away (r * f) 65536 \<le> r" if "0 \<le> r" for r
  proof -
    have "0 \<le> r * f" "r * f \<le> r * 65536" using assms that by (auto intro: mult_left_mono)
    then have "(2 * (r * f) + 65536) div 131072 \<le> (2 * (r * 65536) + 65536) div 131072"
      by (intro zdiv_mono1) linarith+
    moreover have "(2 * (r * 65536) + 65536) div 131072 = r" by simp
    ultimately show ?thesis
      using that \<open>0 \<le> r * f\<close> by (auto simp: round_half_away_def sgn_if)
  qed
  show "0 \<le> r \<Longrightarrow> 0 \<le> round_half_away (r * f) 65536 \<and> round_half_away (r * f) 65536 \<le> r" by (rule main)
  have "round_half_away (r * f) 65536 = - round_half_away (- r * f) 65536"
    by (simp add: round_half_away_def sgn_minus)
  then show "r \<le> 0 \<Longrightarrow> r \<le> round_half_away (r * f) 65536 \<and> round_half_away (r * f) 65536 \<le> 0"
    using main [of "- r"] by simp
qed

locale q16_fraction =
  fixes fraction_of :: "i32 \<Rightarrow> i32 \<Rightarrow> i32 num"
    and admissible :: "int \<Rightarrow> bool"
  assumes sticky_fraction: "sticky (fraction_of n d)"
    and fraction_bounded: "0 \<le> sint n \<Longrightarrow> sint n < sint d \<Longrightarrow> admissible (sint d) \<Longrightarrow>
      \<exists>f. clean (fraction_of n d) f \<and> 0 \<le> sint f \<and> sint f \<le> 65536"
    and fraction_zero: "0 < sint d \<Longrightarrow> admissible (sint d) \<Longrightarrow> clean (fraction_of 0 d) 0"
begin

definition knots_ok :: "i32 list \<Rightarrow> bool" where
  "knots_ok xs \<longleftrightarrow> (\<forall>i. i + 1 < length xs \<longrightarrow>
     sint (xs ! i) < sint (xs ! (i + 1)) \<and> admissible (sint (xs ! (i + 1)) - sint (xs ! i))
     \<and> sint (xs ! (i + 1)) - sint (xs ! i) < 2147483648)"

lemma knots_mono:
  assumes "knots_ok xs" "i \<le> j" "j < length xs"
  shows "sint (xs ! i) \<le> sint (xs ! j)"
  using assms(2,3)
proof (induction j rule: dec_induct)
  case (step j)
  then have "sint (xs ! j) < sint (xs ! (j + 1))" using assms(1) by (auto simp: knots_ok_def)
  with step show ?case by simp
qed simp

lemma segment_bounded:
  assumes "sint x0 \<le> sint x" "sint x < sint x1" "admissible (sint x1 - sint x0)"
    and "sint x1 - sint x0 < 2147483648" "\<bar>sint y1 - sint y0\<bar> < 2147483648"
  shows "\<exists>y. clean (do { numerator \<leftarrow> subtract_i32 x x0;
                      denominator \<leftarrow> subtract_i32 x1 x0;
                      fraction \<leftarrow> fraction_of numerator denominator;
                      range \<leftarrow> subtract_i32 y1 y0;
                      delta \<leftarrow> multiply_scaled range fraction 16;
                      add_i32 y0 delta }) y
     \<and> min (sint y0) (sint y1) \<le> sint y \<and> sint y \<le> max (sint y0) (sint y1)"
proof -
  have n: "sint (x - x0) = sint x - sint x0" and d: "sint (x1 - x0) = sint x1 - sint x0"
    and r: "sint (y1 - y0) = sint y1 - sint y0"
    using assms by (auto intro!: sint_i32_diff)
  obtain f where f: "clean (fraction_of (x - x0) (x1 - x0)) f" "0 \<le> sint f" "sint f \<le> 65536"
    using fraction_bounded [of "x - x0" "x1 - x0"] assms n d by auto
  define D where "D = round_half_away ((sint y1 - sint y0) * sint f) 65536"
  have D: "min (sint y0) (sint y1) \<le> sint y0 + D \<and> sint y0 + D \<le> max (sint y0) (sint y1)"
    using round_half_away_fraction [OF f(2,3), of "sint y1 - sint y0"] unfolding D_def by linarith
  note b = sint_i32_ge [of y0] sint_i32_less [of y0] sint_i32_ge [of y1] sint_i32_less [of y1]
  have "sint (word_of_int D :: i32) = D"
    using round_half_away_fraction [OF f(2,3), of "sint y1 - sint y0"] assms(5)
    unfolding D_def [symmetric] by (intro sint_word_of_int_i32) linarith+
  moreover have "sint (word_of_int (sint y0 + D) :: i32) = sint y0 + D"
    using D b by (intro sint_word_of_int_i32) linarith+
  ultimately have steps: "clean (multiply_scaled (y1 - y0) f 16) (word_of_int D)"
    "clean (add_i32 y0 (word_of_int D)) (word_of_int (sint y0 + D))"
    and res: "sint (word_of_int (sint y0 + D) :: i32) = sint y0 + D"
    by (simp_all only: clean r D_def) simp_all
  have "clean (subtract_i32 x x0) (x - x0)" "clean (subtract_i32 x1 x0) (x1 - x0)"
    "clean (subtract_i32 y1 y0) (y1 - y0)"
    by (simp_all add: clean n d r)
  with f(1) steps D res show ?thesis
    by (intro exI [of _ "word_of_int (sint y0 + D)"] conjI) (blast intro: clean_bindI, simp_all only:)
qed

lemma loop_bounded:
  assumes "knots_ok xs" "length xs = length ys" "index < length xs"
    and "sint (xs ! index) \<le> sint x" "sint x < sint (xs ! (length xs - 1))"
    and "\<forall>y \<in> set ys. lo \<le> sint y \<and> sint y \<le> hi" "hi - lo < 2147483648"
  shows "\<exists>y. clean (interpolate_loop fraction_of x xs ys (length xs - 1) index) y
     \<and> lo \<le> sint y \<and> sint y \<le> hi"
  using assms
proof (induction "length xs - 1 - index" arbitrary: index)
  case 0
  then have "index = length xs - 1" by simp
  with 0 show ?case by simp
next
  case (Suc k)
  then have i: "index < length xs - 1" "index + 1 < length xs" by simp_all
  let ?x0 = "xs ! index" and ?x1 = "xs ! (index + 1)"
  have k: "sint ?x0 < sint ?x1" "admissible (sint ?x1 - sint ?x0)" "sint ?x1 - sint ?x0 < 2147483648"
    using Suc.prems(1) i(2) by (auto simp: knots_ok_def)
  then have ns: "\<not> ?x1 \<le>s ?x0" by (simp add: word_sle_eq)
  show ?case
  proof (cases "sint x < sint ?x1")
    case True
    let ?y0 = "ys ! index" and ?y1 = "ys ! (index + 1)"
    have "?y0 \<in> set ys" "?y1 \<in> set ys"
      using Suc.prems(2) i(2) by (intro nth_mem; simp)+
    then have y: "lo \<le> sint ?y0" "sint ?y0 \<le> hi" "lo \<le> sint ?y1" "sint ?y1 \<le> hi"
      using Suc.prems(6) by blast+
    then have "\<bar>sint ?y1 - sint ?y0\<bar> < 2147483648" using Suc.prems(7) by linarith
    then show ?thesis
      using segment_bounded [OF Suc.prems(4) True k(2,3), of ?y1 ?y0] True i(1) ns y
      by (subst interpolate_loop.simps) (fastforce simp: word_sless_alt Let_def)
  next
    case False
    then have "\<exists>y. clean (interpolate_loop fraction_of x xs ys (length xs - 1) (index + 1)) y
        \<and> lo \<le> sint y \<and> sint y \<le> hi"
      using Suc.prems Suc.hyps(2) i by (intro Suc.hyps(1)) auto
    then show ?thesis
      using False i(1) ns by (subst interpolate_loop.simps) (simp add: word_sless_alt Let_def)
  qed
qed

lemma interpolation_bounded:
  assumes "knots_ok xs" "xs \<noteq> []" "length xs = length ys"
    and "\<forall>y \<in> set ys. lo \<le> sint y \<and> sint y \<le> hi" "hi - lo < 2147483648"
  shows "\<exists>y. clean (interpolate_with fraction_of x xs ys) y \<and> lo \<le> sint y \<and> sint y \<le> hi"
proof -
  have n: "0 < length xs" "0 < length ys" using assms(2,3) by auto
  consider "x \<le>s xs ! 0" | "\<not> x \<le>s xs ! 0" "xs ! (length xs - 1) \<le>s x"
    | "\<not> x \<le>s xs ! 0" "\<not> xs ! (length xs - 1) \<le>s x" by blast
  then show ?thesis
  proof cases
    case 1
    moreover have "ys ! 0 \<in> set ys" using n by (intro nth_mem)
    ultimately show ?thesis
      using assms(2-4) by (auto simp: interpolate_with_def clean)
  next
    case 2
    moreover have "ys ! (length xs - 1) \<in> set ys" using assms(3) n by (intro nth_mem) simp
    ultimately show ?thesis
      using assms(2-4) by (auto simp: interpolate_with_def clean)
  next
    case 3
    then show ?thesis
      using loop_bounded [OF assms(1,3) n(1) _ _ assms(4,5), of x] assms(2,3)
      by (auto simp: interpolate_with_def word_sle_eq)
  qed
qed

lemma loop_at_knot:
  assumes "knots_ok xs" "i + 1 < length xs" "index \<le> i"
    and "\<bar>sint (ys ! (i + 1)) - sint (ys ! i)\<bar> < 2147483648"
  shows "clean (interpolate_loop fraction_of (xs ! i) xs ys (length xs - 1) index) (ys ! i)"
  using assms(3)
proof (induction "i - index" arbitrary: index)
  case 0
  let ?x0 = "xs ! i" and ?x1 = "xs ! (i + 1)" and ?y0 = "ys ! i" and ?y1 = "ys ! (i + 1)"
  have k: "sint ?x0 < sint ?x1" "admissible (sint ?x1 - sint ?x0)" "sint ?x1 - sint ?x0 < 2147483648"
    using assms(1,2) by (auto simp: knots_ok_def)
  have "sint (?x1 - ?x0) = sint ?x1 - sint ?x0" "sint (?y1 - ?y0) = sint ?y1 - sint ?y0"
    using k assms(4) by (auto intro!: sint_i32_diff)
  then have "clean (subtract_i32 ?x0 ?x0) 0" "clean (subtract_i32 ?x1 ?x0) (?x1 - ?x0)"
    "clean (subtract_i32 ?y1 ?y0) (?y1 - ?y0)" "clean (fraction_of 0 (?x1 - ?x0)) 0"
    "clean (multiply_scaled (?y1 - ?y0) 0 16) 0" "clean (add_i32 ?y0 0) ?y0"
    using k fraction_zero [of "?x1 - ?x0"] by (simp_all add: clean round_half_away_def)
  then show ?case
    using 0 k(1) assms(2) by (subst interpolate_loop.simps)
      (auto simp: word_sless_alt word_sle_eq Let_def intro!: clean_bindI)
next
  case (Suc m)
  then have lt: "index < i" by simp
  have "sint (xs ! index) < sint (xs ! (index + 1))" and le: "sint (xs ! (index + 1)) \<le> sint (xs ! i)"
    using lt assms(1,2) knots_mono [OF assms(1), of "index + 1" i] by (auto simp: knots_ok_def)
  moreover have "clean (interpolate_loop fraction_of (xs ! i) xs ys (length xs - 1) (index + 1)) (ys ! i)"
    using Suc by (intro Suc.hyps(1)) simp_all
  ultimately show ?case
    using lt assms(2) by (subst interpolate_loop.simps) (auto simp: word_sless_alt word_sle_eq Let_def)
qed

end

lemma sticky_clamped_fraction [sticky]: "sticky (clamped_fraction n d)"
  by (simp add: clamped_fraction_def sticky)

lemma round_half_away_nonneg: "0 \<le> n \<Longrightarrow> 0 < d \<Longrightarrow> round_half_away n d = (2 * n + d) div (2 * d)"
  by (cases "n = 0") (simp_all add: round_half_away_def)

lemma fraction_round_bounds:
  assumes "0 \<le> n" "n < d"
  shows "0 \<le> round_half_away (n * 65536) d" "round_half_away (n * 65536) d \<le> 65536"
proof -
  have e: "round_half_away (n * 65536) d = (2 * (n * 65536) + d) div (2 * d)"
    using assms by (intro round_half_away_nonneg) simp_all
  show "0 \<le> round_half_away (n * 65536) d" unfolding e using assms by (simp add: pos_imp_zdiv_nonneg_iff)
  have "(2 * (n * 65536) + d) div (2 * d) \<le> (65536 * (2 * d) + d) div (2 * d)"
    using assms by (intro zdiv_mono1) simp_all
  also have "\<dots> = 65536" using assms by simp
  finally show "round_half_away (n * 65536) d \<le> 65536" unfolding e .
qed

interpretation general: q16_fraction clamped_fraction "\<lambda>_. True"
proof
  fix n d :: i32
  show "sticky (clamped_fraction n d)" by (rule sticky_clamped_fraction)
  assume nd: "0 \<le> sint n" "sint n < sint d"
  let ?f = "round_half_away (sint n * 65536) (sint d)"
  have "sint (word_of_int ?f :: i32) = ?f"
    using fraction_round_bounds [OF nd] by (intro sint_word_of_int_i32) linarith+
  moreover have "d \<noteq> 0" using nd by auto
  ultimately have "clean (divide_scaled n d 16) (word_of_int ?f)" by (simp add: clean)
  then show "\<exists>f. clean (clamped_fraction n d) f \<and> 0 \<le> sint f \<and> sint f \<le> 65536"
    unfolding clamped_fraction_def
    by (intro exI [of _ "clamp_i32 (word_of_int ?f) 0 65535"] conjI clean_bindI)
       (auto simp: clean clamp_i32_def word_sless_alt)
next
  fix d :: i32
  assume "0 < sint d"
  then have "clean (divide_scaled 0 d 16) 0" by (auto simp: clean round_half_away_def)
  then show "clean (clamped_fraction 0 d) 0"
    unfolding clamped_fraction_def by (rule clean_bindI) (simp add: clean clamp_i32_def word_sless_alt)
qed


definition integral_span :: "int \<Rightarrow> bool" where
  "integral_span d \<longleftrightarrow> d mod 4096 = 0 \<and> d div 4096 \<le> 65535"

lemma uint_and_0fff: "uint (x AND 0x0fff :: u32) = uint x mod 4096"
proof -
  have "x AND 0x0fff = take_bit 12 x" by (simp add: take_bit_eq_mask mask_numeral)
  then have "uint (x AND 0x0fff) = take_bit 12 (uint x)" by (simp only: unsigned_take_bit_eq)
  then show ?thesis by (simp add: take_bit_eq_mod)
qed

lemma fraction_integral_eq_divide_scaled:
  assumes "0 \<le> sint n" "sint n < sint d" "integral_span (sint d)"
  shows "divide_unsigned_fraction_q16_integral_q12 n d = divide_scaled n d 16"
proof -
  let ?u = "sint d div 4096"
  let ?w = "signed_drop_bit 12 d"
  have u: "sint d = 4096 * ?u" "0 < ?u" "?u \<le> 65535"
    using assms by (auto simp: integral_span_def)
  have w: "sint ?w = ?u" by (simp add: sint_signed_drop_bit_eq drop_bit_eq_div)
  have d0: "d AND 0x0fff = 0"
    using assms by (simp add: word_uint_eq_iff uint_and_0fff uint_eq_sint integral_span_def)
  have n: "sint n < 268435456" using u assms(2) by linarith
  let ?du = "ucast ?w :: u16"
  have "unat ?w < 65536" "int (unat ?w) = ?u"
    using w u uint_eq_sint [of ?w] by (simp_all add: nat_less_iff unat_eq_nat_uint)
  then have du: "int (unat ?du) = ?u" by (simp only: unat_ucast_down_16)
  have du0: "0 < unat ?du" using du u(2) by linarith
  have sn: "int (unat (push_bit 4 n)) = 16 * sint n"
  proof -
    have "uint n = sint n" using assms(1) by (rule uint_eq_sint)
    then have "unat n < 268435456" "int (unat n) = sint n"
      using n assms(1) by (simp_all add: unat_eq_nat_uint nat_less_iff)
    then show ?thesis by (subst unat_push_bit_mod) simp
  qed
  obtain q r where qr: "divide_unsigned_32_by_16 (push_bit 4 n) ?du = (q, r)" by fastforce
  note c = divide_unsigned_32_by_16_correct [OF du0 qr]
  have lt: "unat (push_bit 4 n) mod unat ?du < unat ?du" using du0 by simp
  define up where "up \<longleftrightarrow> (ucast ?du - ucast r :: u32) \<le> ucast r"
  have "up \<longleftrightarrow> unat ?du - unat r \<le> unat r"
    using lt c(2) by (simp add: up_def word_le_nat_alt unat_sub)
  then have "unat q + (if up then 1 else 0) = (2 * unat (push_bit 4 n) + unat ?du) div (2 * unat ?du)"
    using round_up_quotient [OF du0, of "unat (push_bit 4 n)"] c by simp
  moreover have "unat q \<le> unat (push_bit 4 n)" unfolding c(1) by (rule div_le_dividend)
  then have "unat q < 4294967295" using sn n by linarith
  then have "unat (if up then q + 1 else q) = unat q + (if up then 1 else 0)"
    by (simp add: unat_word_ariths)
  ultimately have "int (unat (if up then q + 1 else q)) = (2 * (16 * sint n) + ?u) div (2 * ?u)"
    unfolding sn [symmetric] du [symmetric] by (simp add: zdiv_int)
  also have "\<dots> = round_half_away (16 * sint n) ?u"
    using assms(1) u(2) by (intro round_half_away_nonneg [symmetric]) simp_all
  also have "\<dots> = round_half_away (4096 * (16 * sint n)) (4096 * ?u)"
    by (rule round_half_away_scale [symmetric]) simp
  finally have val: "uint (if up then q + 1 else q) = round_half_away (sint n * 65536) (sint d)"
    using u(1) by (simp add: mult.commute)
  have "divide_unsigned_fraction_q16_integral_q12 n d = State_Monad.return (if up then q + 1 else q)"
    using assms n w u d0 qr
    by (simp add: divide_unsigned_fraction_q16_integral_q12_def word_sless_alt word_sle_eq up_def Let_def)
  also have "\<dots> = saturating_i32 (round_half_away (sint n * 65536) (sint d))"
  proof -
    have "word_of_int (round_half_away (sint n * 65536) (sint d)) = (if up then q + 1 else q)"
      unfolding val [symmetric] by (rule word_of_int_uint)
    then show ?thesis
      using fraction_round_bounds [OF assms(1,2)] by (simp only: saturating_i32_in_range)
  qed
  finally show ?thesis using assms by (auto simp: divide_scaled_eq)
qed

lemma sticky_fraction_integral [sticky]: "sticky (divide_unsigned_fraction_q16_integral_q12 n d)"
  by (simp add: divide_unsigned_fraction_q16_integral_q12_def Let_def sticky split: prod.splits)

interpretation integral: q16_fraction divide_unsigned_fraction_q16_integral_q12 integral_span
proof
  fix n d :: i32
  show "sticky (divide_unsigned_fraction_q16_integral_q12 n d)" by (rule sticky_fraction_integral)
  assume nd: "0 \<le> sint n" "sint n < sint d" "integral_span (sint d)"
  let ?f = "round_half_away (sint n * 65536) (sint d)"
  note b = fraction_round_bounds [OF nd(1,2)]
  have f: "sint (word_of_int ?f :: i32) = ?f" using b by (intro sint_word_of_int_i32) linarith+
  show "\<exists>f. clean (divide_unsigned_fraction_q16_integral_q12 n d) f \<and> 0 \<le> sint f \<and> sint f \<le> 65536"
    using b f nd by (intro exI [of _ "word_of_int ?f"])
      (auto simp: fraction_integral_eq_divide_scaled [OF nd] clean)
next
  fix d :: i32
  assume "0 < sint d" "integral_span (sint d)"
  then show "clean (divide_unsigned_fraction_q16_integral_q12 0 d) 0"
    by (subst fraction_integral_eq_divide_scaled) (auto simp: clean round_half_away_def)
qed

subsection \<open>The contracts of magnitudes and interpolation\<close>

text \<open>
  Vector magnitudes. The three-component magnitude is, on every input, the
  floor of the Euclidean norm and never records a fault; the four-component
  magnitude is too, except on the one input whose squared norm does not fit in 64
  bits, where it saturates to the largest \<^verbatim>\<open>u32\<close> and records the saturation.
\<close>
theorem magnitude_floor_exact:
  "(\<exists>r. magnitude3_floor x y z = State_Monad.return r
      \<and> (uint r)\<^sup>2 \<le> (sint x)\<^sup>2 + (sint y)\<^sup>2 + (sint z)\<^sup>2
      \<and> (sint x)\<^sup>2 + (sint y)\<^sup>2 + (sint z)\<^sup>2 < (uint r + 1)\<^sup>2)
   \<and> (if w = i32_MIN \<and> x = i32_MIN \<and> y = i32_MIN \<and> z = i32_MIN
      then magnitude4_floor w x y z = fail_with Saturation 0xffffffff
      else \<exists>r. magnitude4_floor w x y z = State_Monad.return r
        \<and> (uint r)\<^sup>2 \<le> (sint w)\<^sup>2 + (sint x)\<^sup>2 + (sint y)\<^sup>2 + (sint z)\<^sup>2
        \<and> (sint w)\<^sup>2 + (sint x)\<^sup>2 + (sint y)\<^sup>2 + (sint z)\<^sup>2 < (uint r + 1)\<^sup>2)"
  using magnitude3_floor_exact magnitude4_floor_exact by blast

lemma sint_shifted_units: "sint (signed_drop_bit 12 (d :: i32)) = sint d div 4096"
  by (simp add: sint_signed_drop_bit_eq drop_bit_eq_div)

lemma integral_span_of_guard:
  assumes "0 \<le> sint (d :: i32)"
  shows "d AND 0x0fff = 0 \<longleftrightarrow> sint d mod 4096 = 0"
  using assms by (simp add: word_uint_eq_iff uint_and_0fff uint_eq_sint)

text \<open>
  The short division used for table fractions. It accepts exactly the proper
  fractions over a span of at most 65535 whole kilometres, where it equals the
  general scaled division, and answers every other input with an invalid-input
  fault.
\<close>
theorem fraction_fast_path:
  "divide_unsigned_fraction_q16_integral_q12 n d =
     (if 0 \<le> sint n \<and> sint n < sint d \<and> sint d mod 4096 = 0 \<and> sint d div 4096 \<le> 65535
      then divide_scaled n d 16 else fail_with InvalidInput 0)"
proof (cases "0 \<le> sint n \<and> sint n < sint d \<and> sint d mod 4096 = 0 \<and> sint d div 4096 \<le> 65535")
  case True
  then show ?thesis by (simp add: fraction_integral_eq_divide_scaled integral_span_def)
next
  case False
  then have "n <s 0 \<or> d \<le>s 0 \<or> d \<le>s n \<or> d AND 0x0fff \<noteq> 0 \<or> 0xffff <s signed_drop_bit 12 d"
    using integral_span_of_guard [of d] by (auto simp: word_sless_alt word_sle_eq sint_shifted_units)
  with False show ?thesis
    unfolding divide_unsigned_fraction_q16_integral_q12_def by argo
qed

text \<open>
  General table interpolation. Over strictly increasing knots, every lookup
  completes without a fault and stays between the smallest and the largest
  ordinate of the table, whatever the abscissa.
\<close>
theorem interpolate_clamped_bounded:
  assumes "xs \<noteq> []" "length xs = length ys"
    and "\<forall>i. i + 1 < length xs \<longrightarrow> sint (xs ! i) < sint (xs ! (i + 1))
           \<and> sint (xs ! (i + 1)) - sint (xs ! i) < 2147483648"
    and "\<forall>y \<in> set ys. lo \<le> sint y \<and> sint y \<le> hi" "hi - lo < 2147483648"
  shows "\<exists>y. run_state (interpolate_clamped x xs ys) CLEAR = (y, CLEAR) \<and> lo \<le> sint y \<and> sint y \<le> hi"
proof -
  have "general.knots_ok xs" using assms(3) by (simp add: general.knots_ok_def)
  then show ?thesis
    unfolding interpolate_clamped_def clean_def [symmetric]
    using assms by (intro general.interpolation_bounded) auto
qed

theorem interpolate_clamped_bounded_witness:
  "\<exists>y. run_state (interpolate_clamped 1000 [0, 4096, 8192] [100, 300, 200]) CLEAR = (y, CLEAR)
     \<and> 100 \<le> sint y \<and> sint y \<le> 300"
  by (rule interpolate_clamped_bounded) (auto simp: less_Suc_eq nth_Cons split: nat.splits)

text \<open>
  The two interpolation routines do not round alike. Just below the upper knot
  of a wide span the general routine clamps its fraction to 65535, while the
  integral one lets it reach 65536 and already returns the upper ordinate.
\<close>
theorem interpolation_routines_differ:
  "run_state (interpolate_clamped 131071 [0, 131072] [0, 65536]) CLEAR = (65535, CLEAR)
   \<and> run_state (interpolate_clamped_integral_q12 131071 [0, 131072] [0, 65536]) CLEAR = (65536, CLEAR)"
  by (simp add: interpolate_clamped_def interpolate_clamped_integral_q12_def interpolate_with_def
      interpolate_loop.simps clamped_fraction_def fraction_integral_eq_divide_scaled integral_span_def
      subtract_i32_eq add_i32_eq multiply_scaled_eq divide_scaled_eq saturating_i32_def
      round_half_away_def clamp_i32_def word_sless_alt word_sle_eq Let_def CLEAR_def)

end
