(* ===== verification/Earth_Environment.thy ===== *)
theory Earth_Environment
  imports Scenario Interpolation
begin

text \<open>
  The phase 1 Earth environment (\<^verbatim>\<open>core/src/environment.rs\<close>) over its generated tables
  (\<^verbatim>\<open>phase1/generated/environment_v1.rs\<close>). The tables pass their own validation, and
  sampling them is total: no altitude makes a lookup fault.
\<close>

unbundle bit_operations_syntax

subsection \<open>Tables\<close>

definition ENVIRONMENT_NAME :: string where "ENVIRONMENT_NAME = ''earth.simple-atmosphere.v1''"
definition ENVIRONMENT_ID :: u32 where "ENVIRONMENT_ID = 0x28feb243"
definition TABLE_LENGTH :: nat where "TABLE_LENGTH = 19"

definition ALTITUDE_KNOTS_Q12 :: "i32 list" where
  "ALTITUDE_KNOTS_Q12 =
     [0, 8192, 20480, 40960, 61440, 81920, 122880, 163840, 204800, 286720, 409600, 491520,
      819200, 1228800, 2048000, 3072000, 4096000, 6144000, 8192000]"

definition DENSITY_Q28 :: "i32 list" where
  "DENSITY_Q28 =
     [328833434, 270177602, 197599634, 111000745, 52279147, 23866596, 4941897, 1072668, 275683,
      22235, 143, 0, 0, 0, 0, 0, 0, 0, 0]"

definition GRAVITY_Q28 :: "i32 list" where
  "GRAVITY_Q28 =
     [2632453, 2630801, 2628325, 2624208, 2620100, 2616002, 2607835, 2599706, 2591615, 2575545,
      2551720, 2536019, 2474645, 2401010, 2263267, 2107142, 1966631, 1724709, 1524829]"

subsection \<open>Operations\<close>

record EnvironmentSample =
  density :: Density
  gravity :: Acceleration

function tables_loop :: "nat \<Rightarrow> bool" where
  "tables_loop index =
     (if index < TABLE_LENGTH
      then if DENSITY_Q28 ! index <s 0 \<or> GRAVITY_Q28 ! index \<le>s 0 then False
           else if index \<noteq> 0 \<and>
             (let span = ALTITUDE_KNOTS_Q12 ! index - ALTITUDE_KNOTS_Q12 ! (index - 1)
              in span \<le>s 0 \<or> span AND 0x0fff \<noteq> 0 \<or> 65535 <s signed_drop_bit 12 span) then False
           else tables_loop (index + 1)
      else True)"
  by pat_completeness auto
termination
  by (relation "measure (\<lambda>index. TABLE_LENGTH - index)") auto

declare tables_loop.simps [simp del]

definition tables_are_valid :: bool where
  "tables_are_valid \<longleftrightarrow>
     (if TABLE_LENGTH = 0
         \<or> length ALTITUDE_KNOTS_Q12 \<noteq> length DENSITY_Q28
         \<or> length ALTITUDE_KNOTS_Q12 \<noteq> length GRAVITY_Q28
         \<or> ENVIRONMENT_ID \<noteq> SIMPLE_EARTH_ENVIRONMENT_ID
         \<or> ENVIRONMENT_NAME \<noteq> ''earth.simple-atmosphere.v1''
      then False else tables_loop 0)"

definition sample :: "Altitude \<Rightarrow> EnvironmentSample num" where
  "sample alt =
     do { d \<leftarrow> interpolate_clamped_integral_q12 alt ALTITUDE_KNOTS_Q12 DENSITY_Q28;
          g \<leftarrow> interpolate_clamped_integral_q12 alt ALTITUDE_KNOTS_Q12 GRAVITY_Q28;
          State_Monad.return \<lparr>density = d, gravity = g\<rparr> }"

subsection \<open>The tables\<close>

lemma table_lengths [simp]:
  "length ALTITUDE_KNOTS_Q12 = 19" "length DENSITY_Q28 = 19" "length GRAVITY_Q28 = 19"
  "TABLE_LENGTH = 19"
  by (simp_all add: ALTITUDE_KNOTS_Q12_def DENSITY_Q28_def GRAVITY_Q28_def TABLE_LENGTH_def)

lemma environment_identity: "SIMPLE_EARTH_ENVIRONMENT_ID = 0x28feb243"
  by (simp add: SIMPLE_EARTH_ENVIRONMENT_ID_def fnv1a_32_def fnv1a_byte_def of_char_def)

lemma earth_knots: "integral.knots_ok ALTITUDE_KNOTS_Q12"
proof -
  have "\<forall>i \<in> set [0..<18]. sint (ALTITUDE_KNOTS_Q12 ! i) < sint (ALTITUDE_KNOTS_Q12 ! (i + 1))
     \<and> integral_span (sint (ALTITUDE_KNOTS_Q12 ! (i + 1)) - sint (ALTITUDE_KNOTS_Q12 ! i))
     \<and> sint (ALTITUDE_KNOTS_Q12 ! (i + 1)) - sint (ALTITUDE_KNOTS_Q12 ! i) < 2147483648"
    by (simp add: ALTITUDE_KNOTS_Q12_def upt_rec integral_span_def)
  then show ?thesis by (auto simp: integral.knots_ok_def)
qed

lemma tables_loop_valid: "tables_loop 0"
  by (simp add: tables_loop.simps ALTITUDE_KNOTS_Q12_def DENSITY_Q28_def GRAVITY_Q28_def
      word_sless_alt word_sle_eq)

lemma sticky_interpolate_loop [sticky]:
  assumes "\<And>n d. sticky (fraction_of n d)"
  shows "sticky (interpolate_loop fraction_of x xs ys last_index index)"
proof (induction "last_index - index" arbitrary: index)
  case 0
  then show ?case by (subst interpolate_loop.simps) (simp add: sticky)
next
  case (Suc k)
  then have "sticky (interpolate_loop fraction_of x xs ys last_index (index + 1))" by simp
  then show ?case by (subst interpolate_loop.simps) (simp add: sticky assms Let_def)
qed

lemma sticky_interpolate_integral [sticky]: "sticky (interpolate_clamped_integral_q12 x xs ys)"
  by (simp add: interpolate_clamped_integral_q12_def interpolate_with_def Let_def sticky)

lemma sticky_sample [sticky]: "sticky (sample alt)"
  by (simp add: sample_def sticky)

lemma density_range: "\<forall>y \<in> set DENSITY_Q28. 0 \<le> sint y \<and> sint y \<le> 328833434"
  by (simp add: DENSITY_Q28_def)

lemma gravity_range: "\<forall>y \<in> set GRAVITY_Q28. 1524829 \<le> sint y \<and> sint y \<le> 2632453"
  by (simp add: GRAVITY_Q28_def)

lemma sample_clean:
  "\<exists>e. clean (sample alt) e \<and> 0 \<le> sint (density e) \<and> sint (density e) \<le> 328833434
     \<and> 1524829 \<le> sint (gravity e) \<and> sint (gravity e) \<le> 2632453"
proof -
  have nonempty: "ALTITUDE_KNOTS_Q12 \<noteq> []" by (simp add: ALTITUDE_KNOTS_Q12_def)
  obtain d where "clean (interpolate_clamped_integral_q12 alt ALTITUDE_KNOTS_Q12 DENSITY_Q28) d"
    "0 \<le> sint d" "sint d \<le> 328833434"
    using integral.interpolation_bounded [OF earth_knots nonempty _ density_range]
    unfolding interpolate_clamped_integral_q12_def by fastforce
  moreover obtain g where "clean (interpolate_clamped_integral_q12 alt ALTITUDE_KNOTS_Q12 GRAVITY_Q28) g"
    "1524829 \<le> sint g" "sint g \<le> 2632453"
    using integral.interpolation_bounded [OF earth_knots nonempty _ gravity_range]
    unfolding interpolate_clamped_integral_q12_def by fastforce
  ultimately show ?thesis
    unfolding sample_def
    by (intro exI [of _ "\<lparr>density = d, gravity = g\<rparr>"] conjI clean_bindI) (simp_all add: clean)
qed

text \<open>
  The generated tables pass the program's own validation, and sampling them is
  total and bounded. For every altitude, including altitudes far outside the
  table, both lookups complete without a fault, the density is between zero and
  its sea-level value and the gravity between its values at the top and the bottom
  of the table.
\<close>
theorem earth_sample_total:
  "tables_are_valid \<and>
   (\<exists>e. run_state (sample alt) CLEAR = (e, CLEAR)
      \<and> 0 \<le> sint (density e) \<and> sint (density e) \<le> 328833434
      \<and> 1524829 \<le> sint (gravity e) \<and> sint (gravity e) \<le> 2632453)"
  using sample_clean [of alt] tables_loop_valid
  by (simp add: tables_are_valid_def ENVIRONMENT_ID_def environment_identity ENVIRONMENT_NAME_def clean_def)

end
