(* ===== verification/Vertical_Dynamics.thy ===== *)
theory Vertical_Dynamics
  imports Earth_Environment
begin

text \<open>
  The vertical truth state and its checked single-step integration
  (\<^verbatim>\<open>core/src/vehicle.rs\<close> and \<^verbatim>\<open>core/src/dynamics.rs\<close>). An integer specification of the
  forces and of the semi-implicit step is stated next to the fixed-point code, and
  the code is proved to compute it: from a state within the flight envelope no
  intermediate operation saturates, and the step fails exactly when the
  specification leaves the envelope.
\<close>

unbundle bit_operations_syntax

subsection \<open>State\<close>

record VerticalTruthState =
  step :: u32
  time :: Time
  altitude :: Altitude
  velocity :: Velocity
  acceleration :: Acceleration
  total_mass :: Mass
  propellant :: Mass

definition initial_truth :: "Scenario \<Rightarrow> VerticalTruthState" where
  "initial_truth s =
     \<lparr>step = 0, time = 0,
      altitude = InitialConditions.altitude (initial s),
      velocity = InitialConditions.velocity (initial s),
      acceleration = 0,
      total_mass = InitialConditions.total_mass (initial s),
      propellant = InitialConditions.propellant (initial s)\<rparr>"

record VerticalForceSnapshot =
  engine_active :: bool
  thrust_force :: Force
  weight :: Force
  drag :: Force
  net_force :: NetForce
  force_acceleration :: Acceleration

datatype VerticalStepError = NumericFault | ScenarioComplete

record VerticalStepResult =
  truth :: VerticalTruthState
  forces :: VerticalForceSnapshot
  propellant_consumed :: Mass
  engine_cutoff :: bool

subsection \<open>Forces\<close>

definition MAX_NET_FORCE_Q12 :: i32 where "MAX_NET_FORCE_Q12 = 2048000"

definition contains_i32 :: "i32 \<Rightarrow> i32 \<Rightarrow> i32 \<Rightarrow> bool" where
  "contains_i32 lo hi value \<longleftrightarrow> lo \<le>s value \<and> value \<le>s hi"

definition velocity_magnitude :: "i32 \<Rightarrow> i32 num" where
  "velocity_magnitude value =
     (if value = i32_MIN then fail_with InvalidInput 0
      else if value <s 0 then State_Monad.return (- value)
      else State_Monad.return value)"

definition halve_nonnegative :: "i32 \<Rightarrow> i32 num" where
  "halve_nonnegative value =
     (if value <s 0 then fail_with InvalidInput 0
      else State_Monad.return (signed_drop_bit 1 value + (value AND 1)))"

definition evaluate_vertical_forces ::
  "VehicleConfig \<Rightarrow> VerticalTruthState \<Rightarrow> EnvironmentSample \<Rightarrow> VerticalForceSnapshot num" where
  "evaluate_vertical_forces veh tr env =
     do { let vel = velocity tr;
          speed \<leftarrow> velocity_magnitude vel;
          speed_squared \<leftarrow> multiply_scaled speed speed 28;
          density_speed_squared \<leftarrow> multiply_scaled (density env) speed_squared 28;
          twice_drag \<leftarrow> multiply_scaled density_speed_squared (cda veh) 24;
          drag_magnitude \<leftarrow> halve_nonnegative twice_drag;
          dr \<leftarrow> (if 0 <s vel then subtract_i32 0 drag_magnitude
                 else if vel <s 0 then State_Monad.return drag_magnitude
                 else State_Monad.return 0);
          wt \<leftarrow> multiply_scaled (total_mass tr) (gravity env) 28;
          let active = 0 <s propellant tr \<and> time tr <s burn_duration veh;
          let th = (if active then thrust veh else 0);
          thrust_minus_weight \<leftarrow> subtract_i32 th wt;
          net \<leftarrow> add_i32 thrust_minus_weight dr;
          acc \<leftarrow> divide_scaled_reduced_u16 28 7 21 net (total_mass tr);
          (if \<not> contains_i32 (- MAX_NET_FORCE_Q12) MAX_NET_FORCE_Q12 net
              \<or> \<not> contains_i32 (- MAX_ACCELERATION_Q28) MAX_ACCELERATION_Q28 acc
           then record_fault InvalidInput else State_Monad.return ());
          State_Monad.return
            \<lparr>engine_active = active, thrust_force = th, weight = wt, drag = dr, net_force = net,
             force_acceleration = acc\<rparr> }"

subsection \<open>The checked step\<close>

definition min_i32 :: "i32 \<Rightarrow> i32 \<Rightarrow> i32" where
  "min_i32 a b = (if b <s a then b else a)"

definition advance_vertical_state ::
  "Scenario \<Rightarrow> VerticalTruthState \<Rightarrow> (VerticalStepError + VerticalStepResult) num" where
  "advance_vertical_state scenario tr =
     do { status \<leftarrow> State_Monad.get;
          if \<not> is_clear status then State_Monad.return (Inl NumericFault)
          else if steps scenario \<le> step tr then State_Monad.return (Inl ScenarioComplete)
          else do {
            env \<leftarrow> sample (altitude tr);
            fs \<leftarrow> evaluate_vertical_forces (vehicle scenario) tr env;
            status \<leftarrow> State_Monad.get;
            if \<not> is_clear status then State_Monad.return (Inl NumericFault)
            else do {
              let dt = timestep scenario;
              delta_velocity \<leftarrow> multiply_scaled (force_acceleration fs) dt 20;
              vel \<leftarrow> add_i32 (velocity tr) delta_velocity;
              delta_altitude \<leftarrow> multiply_scaled vel dt 28;
              alt \<leftarrow> add_i32 (altitude tr) delta_altitude;
              ti \<leftarrow> add_i32 (time tr) dt;
              requested \<leftarrow> (if engine_active fs then multiply_scaled (mass_flow (vehicle scenario)) dt 20
                            else State_Monad.return 0);
              let consumed = min_i32 requested (propellant tr);
              pr \<leftarrow> subtract_i32 (propellant tr) consumed;
              tm \<leftarrow> subtract_i32 (total_mass tr) consumed;
              (if \<not> contains_i32 MIN_ALTITUDE_Q12 MAX_ALTITUDE_Q12 alt
                  \<or> \<not> contains_i32 MIN_VELOCITY_Q24 MAX_VELOCITY_Q24 vel
                  \<or> tm <s dry_mass (vehicle scenario) \<or> pr <s 0 \<or> tm <s pr
               then record_fault InvalidInput else State_Monad.return ());
              status \<leftarrow> State_Monad.get;
              if \<not> is_clear status then State_Monad.return (Inl NumericFault)
              else State_Monad.return (Inr
                \<lparr>truth = \<lparr>step = step tr + 1, time = ti, altitude = alt, velocity = vel,
                          acceleration = force_acceleration fs, total_mass = tm, propellant = pr\<rparr>,
                 forces = fs, propellant_consumed = consumed,
                 engine_cutoff = engine_active fs
                   \<and> (pr = 0 \<or> burn_duration (vehicle scenario) \<le>s ti)\<rparr>) } } }"

subsection \<open>Integer specification\<close>

definition drag_spec :: "int \<Rightarrow> int \<Rightarrow> int \<Rightarrow> int" where
  "drag_spec rho v area =
     (let speed_squared = round_half_away (\<bar>v\<bar> * \<bar>v\<bar>) (2 ^ 28);
          pressure = round_half_away (rho * speed_squared) (2 ^ 28);
          twice = round_half_away (pressure * area) (2 ^ 24)
      in - sgn v * ((twice + 1) div 2))"

definition engine_on :: "Scenario \<Rightarrow> VerticalTruthState \<Rightarrow> bool" where
  "engine_on s tr \<longleftrightarrow> 0 < sint (propellant tr) \<and> sint (time tr) < sint (burn_duration (vehicle s))"

definition earth_sample :: "i32 \<Rightarrow> EnvironmentSample" where
  "earth_sample alt = fst (run_state (sample alt) CLEAR)"

definition net_force_spec :: "Scenario \<Rightarrow> VerticalTruthState \<Rightarrow> int" where
  "net_force_spec s tr =
     (if engine_on s tr then sint (thrust (vehicle s)) else 0)
     - round_half_away (sint (total_mass tr) * sint (gravity (earth_sample (altitude tr)))) (2 ^ 28)
     + drag_spec (sint (density (earth_sample (altitude tr)))) (sint (velocity tr)) (sint (cda (vehicle s)))"

definition acceleration_spec :: "Scenario \<Rightarrow> VerticalTruthState \<Rightarrow> int" where
  "acceleration_spec s tr = round_half_away (net_force_spec s tr * 2 ^ 28) (sint (total_mass tr))"

definition velocity_spec :: "Scenario \<Rightarrow> VerticalTruthState \<Rightarrow> int" where
  "velocity_spec s tr =
     sint (velocity tr) + round_half_away (acceleration_spec s tr * sint (timestep s)) (2 ^ 20)"

definition altitude_spec :: "Scenario \<Rightarrow> VerticalTruthState \<Rightarrow> int" where
  "altitude_spec s tr =
     sint (altitude tr) + round_half_away (velocity_spec s tr * sint (timestep s)) (2 ^ 28)"

definition consumed_spec :: "Scenario \<Rightarrow> VerticalTruthState \<Rightarrow> int" where
  "consumed_spec s tr =
     (if engine_on s tr
      then min (round_half_away (sint (mass_flow (vehicle s)) * sint (timestep s)) (2 ^ 20))
             (sint (propellant tr))
      else 0)"

definition within_envelope :: "Scenario \<Rightarrow> VerticalTruthState \<Rightarrow> bool" where
  "within_envelope s tr \<longleftrightarrow>
     \<bar>net_force_spec s tr\<bar> \<le> 2048000 \<and> \<bar>acceleration_spec s tr\<bar> \<le> 26843546
     \<and> - 8192 \<le> altitude_spec s tr \<and> altitude_spec s tr \<le> 8192000
     \<and> \<bar>velocity_spec s tr\<bar> \<le> 134217728"

definition step_spec :: "Scenario \<Rightarrow> VerticalTruthState \<Rightarrow> VerticalStepResult \<Rightarrow> bool" where
  "step_spec s tr r \<longleftrightarrow>
     step (truth r) = step tr + 1
     \<and> sint (time (truth r)) = sint (time tr) + sint (timestep s)
     \<and> sint (altitude (truth r)) = altitude_spec s tr
     \<and> sint (velocity (truth r)) = velocity_spec s tr
     \<and> sint (acceleration (truth r)) = acceleration_spec s tr
     \<and> sint (total_mass (truth r)) = sint (total_mass tr) - consumed_spec s tr
     \<and> sint (propellant (truth r)) = sint (propellant tr) - consumed_spec s tr
     \<and> sint (propellant_consumed r) = consumed_spec s tr
     \<and> (engine_cutoff r \<longleftrightarrow> engine_on s tr \<and> (sint (propellant (truth r)) = 0
           \<or> sint (burn_duration (vehicle s)) \<le> sint (time (truth r))))"

definition truth_ok :: "Scenario \<Rightarrow> VerticalTruthState \<Rightarrow> bool" where
  "truth_ok s tr \<longleftrightarrow>
     uint (step tr) \<le> uint (steps s)
     \<and> sint (time tr) = uint (step tr) * sint (timestep s)
     \<and> - 8192 \<le> sint (altitude tr) \<and> sint (altitude tr) \<le> 8192000
     \<and> \<bar>sint (velocity tr)\<bar> \<le> 134217728
     \<and> 0 \<le> sint (propellant tr)
     \<and> sint (propellant tr) \<le> sint (InitialConditions.propellant (initial s))
     \<and> sint (total_mass tr) - sint (propellant tr)
         = sint (InitialConditions.total_mass (initial s)) - sint (InitialConditions.propellant (initial s))"

subsection \<open>Operations that stay in range\<close>

lemma round_half_away_le:
  assumes "\<bar>n\<bar> \<le> B * d" "0 < d"
  shows "\<bar>round_half_away n d\<bar> \<le> B"
proof -
  have "(2 * \<bar>n\<bar> + d) div (2 * d) \<le> (B * (2 * d) + d) div (2 * d)"
    using assms by (intro zdiv_mono1) auto
  also have "\<dots> = B" using assms(2) by simp
  finally have "(2 * \<bar>n\<bar> + d) div (2 * d) \<le> B" .
  moreover have "0 \<le> (2 * \<bar>n\<bar> + d) div (2 * d)" using assms(2) by (simp add: pos_imp_zdiv_nonneg_iff)
  ultimately show ?thesis
    using assms(2) by (auto simp: round_half_away_def sgn_if abs_mult)
qed

lemma round_half_away_ge_0: "0 \<le> n \<Longrightarrow> 0 < d \<Longrightarrow> 0 \<le> round_half_away n d"
  by (simp add: round_half_away_def sgn_if zero_le_mult_iff pos_imp_zdiv_nonneg_iff)

lemma saturating_i32_exact:
  assumes "- 2147483648 \<le> x" "x \<le> 2147483647"
  obtains w where "saturating_i32 x = State_Monad.return w" "sint w = x"
  using assms saturating_i32_in_range [OF assms] sint_word_of_int_i32 [of x] by simp

lemma multiply_exact:
  assumes "s \<le> 31" "\<bar>sint a * sint b\<bar> \<le> B * 2 ^ s" "B \<le> 2147483647"
  obtains w where "multiply_scaled a b s = State_Monad.return w"
    "sint w = round_half_away (sint a * sint b) (2 ^ s)" "\<bar>sint w\<bar> \<le> B"
proof -
  have b: "\<bar>round_half_away (sint a * sint b) (2 ^ s)\<bar> \<le> B"
    using assms(2) by (intro round_half_away_le) simp_all
  obtain w where "saturating_i32 (round_half_away (sint a * sint b) (2 ^ s)) = State_Monad.return w"
    "sint w = round_half_away (sint a * sint b) (2 ^ s)"
    using b assms(3) by (elim saturating_i32_exact [rotated 2]) linarith+
  then show ?thesis using that [of w] assms(1) b by (simp add: multiply_scaled_eq)
qed

lemma add_exact:
  assumes "\<bar>sint a + sint b\<bar> \<le> 2147483647"
  obtains w where "add_i32 a b = State_Monad.return w" "sint w = sint a + sint b"
proof -
  obtain w where "saturating_i32 (sint a + sint b) = State_Monad.return w" "sint w = sint a + sint b"
    using assms by (elim saturating_i32_exact [rotated 2]) linarith+
  then show ?thesis using that [of w] by (simp add: add_i32_eq)
qed

lemma subtract_exact:
  assumes "\<bar>sint a - sint b\<bar> \<le> 2147483647"
  obtains w where "subtract_i32 a b = State_Monad.return w" "sint w = sint a - sint b"
proof -
  obtain w where "saturating_i32 (sint a - sint b) = State_Monad.return w" "sint w = sint a - sint b"
    using assms by (elim saturating_i32_exact [rotated 2]) linarith+
  then show ?thesis using that [of w] by (simp add: subtract_i32_eq)
qed

lemma velocity_magnitude_exact:
  assumes "\<bar>sint v\<bar> \<le> 134217728"
  obtains w where "velocity_magnitude v = State_Monad.return w" "sint w = \<bar>sint v\<bar>"
proof -
  have "v \<noteq> i32_MIN" using assms by auto
  moreover have "sint (- v) = - sint v" using assms sint_i32_diff [of 0 v] by simp
  ultimately show ?thesis
    using that [of "- v"] that [of v]
    by (cases "sint v < 0") (simp_all add: velocity_magnitude_def word_sless_alt)
qed

lemma halve_exact:
  assumes "0 \<le> sint x"
  obtains w where "halve_nonnegative x = State_Monad.return w" "sint w = (sint x + 1) div 2"
proof -
  have "x AND 1 = take_bit 1 x" by (simp add: and_one_eq take_bit_eq_mod mod_2_eq_odd)
  then have "uint (x AND 1) = take_bit 1 (uint x)" by (simp only: unsigned_take_bit_eq)
  then have u: "uint (x AND 1) = sint x mod 2"
    using assms by (simp add: take_bit_eq_mod uint_eq_sint)
  have "uint (x AND 1) < 2147483648" using u by (simp add: le_less_trans [of "_ mod 2" 1])
  then have a: "sint (x AND 1) = sint x mod 2" using u sint_uint_i32 [of "x AND 1"] by simp
  have d: "sint (signed_drop_bit 1 x) = sint x div 2"
    by (simp add: sint_signed_drop_bit_eq drop_bit_eq_div)
  have e: "sint x div 2 + sint x mod 2 = (sint x + 1) div 2" by presburger
  have "sint (signed_drop_bit 1 x + (x AND 1)) = sint (signed_drop_bit 1 x) + sint (x AND 1)"
    using assms sint_i32_less [of x] by (intro sint_i32_add) (unfold a d e, simp_all)
  also have "\<dots> = (sint x + 1) div 2" unfolding a d by (rule e)
  finally show ?thesis using that assms by (simp add: halve_nonnegative_def word_sless_alt)
qed

subsection \<open>Forces follow the specification\<close>

lemma earth_sample_run: "run_state (sample alt) CLEAR = (earth_sample alt, CLEAR)"
  using sample_clean [of alt] by (auto simp: clean_def earth_sample_def)

lemma earth_sample_bounds:
  "0 \<le> sint (density (earth_sample alt))" "sint (density (earth_sample alt)) \<le> 328833434"
  "0 \<le> sint (gravity (earth_sample alt))" "sint (gravity (earth_sample alt)) \<le> 2632453"
  using sample_clean [of alt] by (auto simp: clean_def earth_sample_def)

lemma multiply_bounded:
  assumes "\<bar>sint a\<bar> \<le> A" "\<bar>sint b\<bar> \<le> B" "A * B \<le> C * 2 ^ s" "s \<le> 31" "C \<le> 2147483647"
  obtains w where "multiply_scaled a b s = State_Monad.return w"
    "sint w = round_half_away (sint a * sint b) (2 ^ s)" "\<bar>sint w\<bar> \<le> C"
proof -
  have "\<bar>sint a\<bar> * \<bar>sint b\<bar> \<le> A * B" using assms by (intro mult_mono) auto
  then have "\<bar>sint a * sint b\<bar> \<le> C * 2 ^ s" using assms(3) by (simp add: abs_mult)
  then show ?thesis using that assms(4,5) by (elim multiply_exact [rotated]) simp_all
qed

definition drag_code :: "i32 \<Rightarrow> i32 \<Rightarrow> i32 \<Rightarrow> i32 num" where
  "drag_code rho vel area =
     do { speed \<leftarrow> velocity_magnitude vel;
          speed_squared \<leftarrow> multiply_scaled speed speed 28;
          density_speed_squared \<leftarrow> multiply_scaled rho speed_squared 28;
          twice_drag \<leftarrow> multiply_scaled density_speed_squared area 24;
          drag_magnitude \<leftarrow> halve_nonnegative twice_drag;
          if 0 <s vel then subtract_i32 0 drag_magnitude
          else if vel <s 0 then State_Monad.return drag_magnitude
          else State_Monad.return 0 }"

lemma drag_code_exact:
  assumes "\<bar>sint vel\<bar> \<le> 134217728" "0 \<le> sint rho" "sint rho \<le> 328833434"
    and "0 \<le> sint area" "sint area \<le> 131072000"
  obtains w where "drag_code rho vel area = State_Monad.return w"
    "sint w = drag_spec (sint rho) (sint vel) (sint area)" "\<bar>sint w\<bar> \<le> 400000000"
proof -
  obtain sp where sp: "velocity_magnitude vel = State_Monad.return sp" "sint sp = \<bar>sint vel\<bar>"
    using assms(1) by (rule velocity_magnitude_exact)
  obtain s2 where s2: "multiply_scaled sp sp 28 = State_Monad.return s2"
    "sint s2 = round_half_away (sint sp * sint sp) (2 ^ 28)" "\<bar>sint s2\<bar> \<le> 67108864"
    by (rule multiply_bounded [of sp 134217728 sp 134217728 67108864 28]) (use assms(1) sp(2) in simp_all)
  have s20: "0 \<le> sint s2" unfolding s2(2) by (intro round_half_away_ge_0) simp_all
  obtain q where q: "multiply_scaled rho s2 28 = State_Monad.return q"
    "sint q = round_half_away (sint rho * sint s2) (2 ^ 28)" "\<bar>sint q\<bar> \<le> 82208359"
    by (rule multiply_bounded [of rho 328833434 s2 67108864 82208359 28]) (use assms s2(3) in simp_all)
  have q0: "0 \<le> sint q" unfolding q(2) using assms(2) s20 by (intro round_half_away_ge_0) simp_all
  obtain t where t: "multiply_scaled q area 24 = State_Monad.return t"
    "sint t = round_half_away (sint q * sint area) (2 ^ 24)" "\<bar>sint t\<bar> \<le> 642252805"
    by (rule multiply_bounded [of q 82208359 area 131072000 642252805 24]) (use assms q(3) in simp_all)
  have t0: "0 \<le> sint t" unfolding t(2) using assms(4) q0 by (intro round_half_away_ge_0) simp_all
  obtain h where h: "halve_nonnegative t = State_Monad.return h" "sint h = (sint t + 1) div 2"
    using t0 by (rule halve_exact)
  have hb: "0 \<le> sint h" "sint h \<le> 400000000" using h(2) t(3) t0 by auto
  obtain n where n: "subtract_i32 0 h = State_Monad.return n" "sint n = - sint h"
    using hb subtract_exact [of 0 h] by auto
  have "drag_spec (sint rho) (sint vel) (sint area) = - sgn (sint vel) * sint h"
    unfolding h(2) t(2) q(2) s2(2) sp(2) drag_spec_def Let_def ..
  moreover have "drag_code rho vel area =
      State_Monad.return (if 0 < sint vel then n else if sint vel < 0 then h else 0)"
    by (simp add: drag_code_def sp(1) s2(1) q(1) t(1) h(1) n(1) word_sless_alt)
  ultimately show ?thesis
    using that [of "if 0 < sint vel then n else if sint vel < 0 then h else 0"] hb n(2)
    by (auto simp: sgn_if)
qed

lemma truth_ok_mass:
  assumes "valid_scenario s" "truth_ok s tr"
  shows "sint (dry_mass (vehicle s)) \<le> sint (total_mass tr) - sint (propellant tr)"
    "1 \<le> sint (total_mass tr)" "sint (total_mass tr) \<le> 20480000"
  using assms by (auto simp: valid_scenario_def truth_ok_def)

lemma saturating_run:
  assumes "B < 2147483647"
  obtains w st where "run_state (saturating_i32 x) CLEAR = (w, st)"
    "if \<bar>x\<bar> \<le> B then sint w = x \<and> st = CLEAR else B < \<bar>sint w\<bar>"
proof (cases "- (2 ^ 31) \<le> x \<and> x < 2 ^ 31")
  case True
  then show ?thesis
    using that [of "word_of_int x" CLEAR] sint_word_of_int_i32 [of x]
    by (auto simp: run_state_saturating_i32)
next
  case False
  then show ?thesis
    using that [of i32_MIN "CLEAR OR 1"] that [of i32_MAX "CLEAR OR 1"] assms
    by (auto simp: run_state_saturating_i32)
qed

lemma bind_return_state: "State_Monad.bind (State_Monad.return x) f = f x"
  by simp

lemma evaluate_forces_drag:
  "evaluate_vertical_forces veh tr env =
     do { dr \<leftarrow> drag_code (density env) (velocity tr) (cda veh);
          wt \<leftarrow> multiply_scaled (total_mass tr) (gravity env) 28;
          let active = 0 <s propellant tr \<and> time tr <s burn_duration veh;
          let th = (if active then thrust veh else 0);
          thrust_minus_weight \<leftarrow> subtract_i32 th wt;
          net \<leftarrow> add_i32 thrust_minus_weight dr;
          acc \<leftarrow> divide_scaled_reduced_u16 28 7 21 net (total_mass tr);
          (if \<not> contains_i32 (- MAX_NET_FORCE_Q12) MAX_NET_FORCE_Q12 net
              \<or> \<not> contains_i32 (- MAX_ACCELERATION_Q28) MAX_ACCELERATION_Q28 acc
           then record_fault InvalidInput else State_Monad.return ());
          State_Monad.return
            \<lparr>engine_active = active, thrust_force = th, weight = wt, drag = dr, net_force = net,
             force_acceleration = acc\<rparr> }"
  by (simp only: evaluate_vertical_forces_def drag_code_def Let_def bind_assoc)

lemma contains_symmetric [simp]:
  "contains_i32 (- MAX_NET_FORCE_Q12) MAX_NET_FORCE_Q12 x \<longleftrightarrow> \<bar>sint x\<bar> \<le> 2048000"
  "contains_i32 (- MAX_ACCELERATION_Q28) MAX_ACCELERATION_Q28 x \<longleftrightarrow> \<bar>sint x\<bar> \<le> 26843546"
  by (auto simp: contains_i32_def word_sle_eq MAX_NET_FORCE_Q12_def MAX_ACCELERATION_Q28_def)

lemma contains_recorded: "contains_fault (st OR fault_bits f) f"
proof -
  have "(st OR fault_bits f) AND fault_bits f = fault_bits f"
    by (rule bit_word_eqI) (auto simp: bit_simps)
  then show ?thesis by (simp add: contains_fault_def)
qed

lemma evaluate_forces_exact:
  assumes "valid_scenario s" "truth_ok s tr"
  obtains f st where
    "run_state (evaluate_vertical_forces (vehicle s) tr (earth_sample (altitude tr))) CLEAR = (f, st)"
    "engine_active f \<longleftrightarrow> engine_on s tr"
    "if \<bar>net_force_spec s tr\<bar> \<le> 2048000 \<and> \<bar>acceleration_spec s tr\<bar> \<le> 26843546
     then st = CLEAR \<and> sint (net_force f) = net_force_spec s tr
       \<and> sint (force_acceleration f) = acceleration_spec s tr
     else contains_fault st InvalidInput"
proof -
  let ?e = "earth_sample (altitude tr)"
  note m = truth_ok_mass [OF assms] and eb = earth_sample_bounds [of "altitude tr"]
  obtain dr where dr: "drag_code (density ?e) (velocity tr) (cda (vehicle s)) = State_Monad.return dr"
    "sint dr = drag_spec (sint (density ?e)) (sint (velocity tr)) (sint (cda (vehicle s)))"
    "\<bar>sint dr\<bar> \<le> 400000000"
    by (rule drag_code_exact [of "velocity tr" "density ?e" "cda (vehicle s)"])
       (use assms eb in \<open>simp_all add: valid_scenario_def truth_ok_def\<close>)
  obtain wt where wt: "multiply_scaled (total_mass tr) (gravity ?e) 28 = State_Monad.return wt"
    "sint wt = round_half_away (sint (total_mass tr) * sint (gravity ?e)) (2 ^ 28)" "\<bar>sint wt\<bar> \<le> 1000000"
    by (rule multiply_bounded [of "total_mass tr" 20480000 "gravity ?e" 2632453 1000000 28])
       (use m eb in simp_all)
  define th where "th = (if engine_on s tr then thrust (vehicle s) else 0)"
  have thb: "0 \<le> sint th" "sint th \<le> 409600000"
    using assms(1) by (auto simp: th_def valid_scenario_def)
  obtain tw where tw: "subtract_i32 th wt = State_Monad.return tw" "sint tw = sint th - sint wt"
    by (rule subtract_exact [of th wt]) (use thb wt(3) in linarith)
  obtain net where net: "add_i32 tw dr = State_Monad.return net" "sint net = sint tw + sint dr"
    by (rule add_exact [of tw dr]) (use thb wt(3) tw(2) dr(3) in linarith)
  have ns: "sint net = net_force_spec s tr"
    by (simp add: net(2) tw(2) wt(2) dr(2) th_def net_force_spec_def)
  have on: "0 <s propellant tr \<and> time tr <s burn_duration (vehicle s) \<longleftrightarrow> engine_on s tr"
    by (simp add: engine_on_def word_sless_alt)
  have m0: "total_mass tr \<noteq> 0" using m(2) by auto
  have acc: "divide_scaled_reduced_u16 28 7 21 net (total_mass tr) = saturating_i32 (acceleration_spec s tr)"
    using m0 by (simp add: divide_scaled_reduced_u16_eq divide_scaled_eq ns acceleration_spec_def)
  obtain w st where w: "run_state (saturating_i32 (acceleration_spec s tr)) CLEAR = (w, st)"
    "if \<bar>acceleration_spec s tr\<bar> \<le> 26843546 then sint w = acceleration_spec s tr \<and> st = CLEAR
     else 26843546 < \<bar>sint w\<bar>"
    by (rule saturating_run [of 26843546]) simp_all
  define f where "f = \<lparr>engine_active = engine_on s tr, thrust_force = th, weight = wt, drag = dr,
    net_force = net, force_acceleration = w\<rparr>"
  define bad where "bad \<longleftrightarrow> \<not> \<bar>sint net\<bar> \<le> 2048000 \<or> \<not> \<bar>sint w\<bar> \<le> 26843546"
  have run: "run_state (evaluate_vertical_forces (vehicle s) tr ?e) CLEAR =
      (f, if bad then st OR fault_bits InvalidInput else st)"
    unfolding evaluate_forces_drag dr(1) bind_return_state wt(1) Let_def on th_def [symmetric] tw(1)
      net(1) acc by (simp add: w(1) f_def bad_def)
  show ?thesis
  proof (rule that [OF run])
    show "engine_active f \<longleftrightarrow> engine_on s tr" by (simp add: f_def)
    show "if \<bar>net_force_spec s tr\<bar> \<le> 2048000 \<and> \<bar>acceleration_spec s tr\<bar> \<le> 26843546
      then (if bad then st OR fault_bits InvalidInput else st) = CLEAR
        \<and> sint (net_force f) = net_force_spec s tr \<and> sint (force_acceleration f) = acceleration_spec s tr
      else contains_fault (if bad then st OR fault_bits InvalidInput else st) InvalidInput"
      using w(2) ns contains_recorded [of st InvalidInput]
      by (auto simp: bad_def f_def split: if_splits)
  qed
qed

subsection \<open>The step follows the specification\<close>

definition integrate :: "Scenario \<Rightarrow> VerticalTruthState \<Rightarrow> VerticalForceSnapshot
    \<Rightarrow> (VerticalStepError + VerticalStepResult) num" where
  "integrate scenario tr fs =
     do { let dt = timestep scenario;
          delta_velocity \<leftarrow> multiply_scaled (force_acceleration fs) dt 20;
          vel \<leftarrow> add_i32 (velocity tr) delta_velocity;
          delta_altitude \<leftarrow> multiply_scaled vel dt 28;
          alt \<leftarrow> add_i32 (altitude tr) delta_altitude;
          ti \<leftarrow> add_i32 (time tr) dt;
          requested \<leftarrow> (if engine_active fs then multiply_scaled (mass_flow (vehicle scenario)) dt 20
                        else State_Monad.return 0);
          let consumed = min_i32 requested (propellant tr);
          pr \<leftarrow> subtract_i32 (propellant tr) consumed;
          tm \<leftarrow> subtract_i32 (total_mass tr) consumed;
          (if \<not> contains_i32 MIN_ALTITUDE_Q12 MAX_ALTITUDE_Q12 alt
              \<or> \<not> contains_i32 MIN_VELOCITY_Q24 MAX_VELOCITY_Q24 vel
              \<or> tm <s dry_mass (vehicle scenario) \<or> pr <s 0 \<or> tm <s pr
           then record_fault InvalidInput else State_Monad.return ());
          status \<leftarrow> State_Monad.get;
          if \<not> is_clear status then State_Monad.return (Inl NumericFault)
          else State_Monad.return (Inr
            \<lparr>truth = \<lparr>step = step tr + 1, time = ti, altitude = alt, velocity = vel,
                      acceleration = force_acceleration fs, total_mass = tm, propellant = pr\<rparr>,
             forces = fs, propellant_consumed = consumed,
             engine_cutoff = engine_active fs
               \<and> (pr = 0 \<or> burn_duration (vehicle scenario) \<le>s ti)\<rparr>) }"

lemma advance_integrate:
  "advance_vertical_state scenario tr =
     do { status \<leftarrow> State_Monad.get;
          if \<not> is_clear status then State_Monad.return (Inl NumericFault)
          else if steps scenario \<le> step tr then State_Monad.return (Inl ScenarioComplete)
          else do {
            env \<leftarrow> sample (altitude tr);
            fs \<leftarrow> evaluate_vertical_forces (vehicle scenario) tr env;
            status \<leftarrow> State_Monad.get;
            if \<not> is_clear status then State_Monad.return (Inl NumericFault)
            else integrate scenario tr fs } }"
  by (simp only: advance_vertical_state_def integrate_def)

lemma contains_state_ranges [simp]:
  "contains_i32 MIN_ALTITUDE_Q12 MAX_ALTITUDE_Q12 x \<longleftrightarrow> - 8192 \<le> sint x \<and> sint x \<le> 8192000"
  "contains_i32 MIN_VELOCITY_Q24 MAX_VELOCITY_Q24 x \<longleftrightarrow> \<bar>sint x\<bar> \<le> 134217728"
  by (auto simp: contains_i32_def word_sle_eq scenario_limits)

lemma min_i32_sint: "sint (min_i32 a b) = min (sint a) (sint b)"
  by (simp add: min_i32_def word_sless_alt)

lemma uint_u32_less: "uint (x :: u32) < 4294967296"
  by (rule order.strict_trans2 [OF uint_bounded]) simp

lemma uint_next:
  assumes "uint (x :: u32) < uint (y :: u32)"
  shows "uint (x + 1) = uint x + 1"
proof -
  have "uint x + 1 < 4294967296" using assms uint_u32_less [of y] by linarith
  then show ?thesis by (simp add: uint_word_ariths)
qed

lemma time_within:
  assumes "valid_scenario s" "truth_ok s tr" "uint (step tr) < uint (steps s)"
  shows "0 \<le> sint (time tr)" "sint (time tr) + sint (timestep s) \<le> 268435456"
proof -
  have dt: "1 \<le> sint (timestep s)" "sint (timestep s) * uint (steps s) \<le> 268435456"
    using assms(1) by (simp_all add: valid_scenario_def)
  have t: "sint (time tr) = uint (step tr) * sint (timestep s)" using assms(2) by (simp add: truth_ok_def)
  show "0 \<le> sint (time tr)" using t dt by simp
  have "(uint (step tr) + 1) * sint (timestep s) \<le> uint (steps s) * sint (timestep s)"
    using assms(3) dt by (intro mult_right_mono) simp_all
  moreover have "uint (steps s) * sint (timestep s) \<le> 268435456"
    using dt(2) by (simp only: mult.commute)
  moreover have "(uint (step tr) + 1) * sint (timestep s) = sint (time tr) + sint (timestep s)"
    by (simp only: t distrib_right mult_1)
  ultimately show "sint (time tr) + sint (timestep s) \<le> 268435456" by linarith
qed

lemma integrate_exact:
  assumes v: "valid_scenario s" and ok: "truth_ok s tr" and lt: "uint (step tr) < uint (steps s)"
    and on: "engine_active f \<longleftrightarrow> engine_on s tr"
    and acc: "sint (force_acceleration f) = acceleration_spec s tr" "\<bar>acceleration_spec s tr\<bar> \<le> 26843546"
  shows "if - 8192 \<le> altitude_spec s tr \<and> altitude_spec s tr \<le> 8192000 \<and> \<bar>velocity_spec s tr\<bar> \<le> 134217728
    then \<exists>r. run_state (integrate s tr f) CLEAR = (Inr r, CLEAR) \<and> step_spec s tr r \<and> forces r = f
    else \<exists>st. run_state (integrate s tr f) CLEAR = (Inl NumericFault, st) \<and> contains_fault st InvalidInput"
proof -
  note m = truth_ok_mass [OF v ok] and tw = time_within [OF v ok lt]
  have b: "1 \<le> sint (timestep s)" "sint (timestep s) \<le> 8192"
    "0 \<le> sint (mass_flow (vehicle s))" "sint (mass_flow (vehicle s)) \<le> 6553600"
    using v by (simp_all add: valid_scenario_def)
  have o: "\<bar>sint (velocity tr)\<bar> \<le> 134217728" "- 8192 \<le> sint (altitude tr)" "sint (altitude tr) \<le> 8192000"
    "0 \<le> sint (propellant tr)"
    using ok by (simp_all add: truth_ok_def)
  obtain dv where dv: "multiply_scaled (force_acceleration f) (timestep s) 20 = State_Monad.return dv"
    "sint dv = round_half_away (sint (force_acceleration f) * sint (timestep s)) (2 ^ 20)" "\<bar>sint dv\<bar> \<le> 209716"
    by (rule multiply_bounded [of "force_acceleration f" 26843546 "timestep s" 8192 209716 20])
       (use b acc in simp_all)
  obtain vel where vel: "add_i32 (velocity tr) dv = State_Monad.return vel" "sint vel = sint (velocity tr) + sint dv"
    by (rule add_exact [of "velocity tr" dv]) (use o dv(3) in linarith)
  obtain dh where dh: "multiply_scaled vel (timestep s) 28 = State_Monad.return dh"
    "sint dh = round_half_away (sint vel * sint (timestep s)) (2 ^ 28)" "\<bar>sint dh\<bar> \<le> 4103"
    by (rule multiply_bounded [of vel 134427444 "timestep s" 8192 4103 28]) (use b vel(2) o dv(3) in simp_all)
  obtain alt where alt: "add_i32 (altitude tr) dh = State_Monad.return alt" "sint alt = sint (altitude tr) + sint dh"
    by (rule add_exact [of "altitude tr" dh]) (use o dh(3) in linarith)
  obtain ti where ti: "add_i32 (time tr) (timestep s) = State_Monad.return ti"
    "sint ti = sint (time tr) + sint (timestep s)"
    by (rule add_exact [of "time tr" "timestep s"]) (use tw b in linarith)
  obtain mf where mf: "multiply_scaled (mass_flow (vehicle s)) (timestep s) 20 = State_Monad.return mf"
    "sint mf = round_half_away (sint (mass_flow (vehicle s)) * sint (timestep s)) (2 ^ 20)"
    by (rule multiply_bounded [of "mass_flow (vehicle s)" 6553600 "timestep s" 8192 51200 20]) (use b in simp_all)
  define req where "req = (if engine_active f then mf else 0)"
  define con where "con = min_i32 req (propellant tr)"
  have "0 \<le> sint mf" unfolding mf(2) using b by (intro round_half_away_ge_0) simp_all
  then have con: "sint con = consumed_spec s tr" "0 \<le> sint con" "sint con \<le> sint (propellant tr)"
    using o(4) by (auto simp: con_def min_i32_sint req_def consumed_spec_def on mf(2))
  obtain pr where pr: "subtract_i32 (propellant tr) con = State_Monad.return pr"
    "sint pr = sint (propellant tr) - sint con"
    by (rule subtract_exact [of "propellant tr" con]) (use con o(4) sint_i32_less [of "propellant tr"] in linarith)
  obtain tm where tm: "subtract_i32 (total_mass tr) con = State_Monad.return tm"
    "sint tm = sint (total_mass tr) - sint con"
    by (rule subtract_exact [of "total_mass tr" con])
       (use con m o(4) sint_i32_less [of "propellant tr"] in linarith)
  have d1: "1 \<le> sint (dry_mass (vehicle s))" using v by (simp add: valid_scenario_def)
  have mass: "\<not> tm <s dry_mass (vehicle s)" "\<not> pr <s 0" "\<not> tm <s pr"
    using con pr(2) tm(2) m d1 by (auto simp: word_sless_alt)
  have specs: "sint vel = velocity_spec s tr" "sint alt = altitude_spec s tr"
    by (simp_all add: vel(2) dv(2) alt(2) dh(2) acc(1) velocity_spec_def altitude_spec_def)
  have req: "(if engine_active f then multiply_scaled (mass_flow (vehicle s)) (timestep s) 20
      else State_Monad.return 0) = State_Monad.return req"
    by (simp add: req_def mf(1))
  have "pr = 0 \<longleftrightarrow> sint pr = 0" by (simp add: signed_eq_0_iff)
  then show ?thesis
    unfolding integrate_def Let_def dv(1) vel(1) dh(1) alt(1) ti(1) req bind_return_state con_def [symmetric]
      pr(1) tm(1)
    using specs mass con pr(2) tm(2) ti(2) acc(1) contains_recorded [of CLEAR InvalidInput]
    by (auto simp: step_spec_def on word_sle_eq is_clear_def CLEAR_def)
qed

lemma advance_exact:
  assumes v: "valid_scenario s" and ok: "truth_ok s tr" and lt: "uint (step tr) < uint (steps s)"
  shows "if within_envelope s tr
    then \<exists>r. run_state (advance_vertical_state s tr) CLEAR = (Inr r, CLEAR) \<and> step_spec s tr r
    else \<exists>st. run_state (advance_vertical_state s tr) CLEAR = (Inl NumericFault, st)
      \<and> contains_fault st InvalidInput"
proof -
  let ?forces_ok = "\<bar>net_force_spec s tr\<bar> \<le> 2048000 \<and> \<bar>acceleration_spec s tr\<bar> \<le> 26843546"
  obtain f st where f:
    "run_state (evaluate_vertical_forces (vehicle s) tr (earth_sample (altitude tr))) CLEAR = (f, st)"
    "engine_active f \<longleftrightarrow> engine_on s tr"
    "if ?forces_ok then st = CLEAR \<and> sint (net_force f) = net_force_spec s tr
       \<and> sint (force_acceleration f) = acceleration_spec s tr
     else contains_fault st InvalidInput"
    using evaluate_forces_exact [OF v ok] .
  have run: "run_state (advance_vertical_state s tr) CLEAR =
      (if is_clear st then run_state (integrate s tr f) st else (Inl NumericFault, st))"
    using lt f(1) by (simp add: advance_integrate is_clear_def CLEAR_def [symmetric] earth_sample_run word_le_def)
  show ?thesis
  proof (cases ?forces_ok)
    case True
    then have "run_state (advance_vertical_state s tr) CLEAR = run_state (integrate s tr f) CLEAR"
      using f(3) is_clear_def [of CLEAR] by (simp add: run CLEAR_def [symmetric])
    then show ?thesis
      using integrate_exact [OF v ok lt f(2)] f(3) True by (auto simp: within_envelope_def split: if_splits)
  next
    case False
    then have "contains_fault st InvalidInput" using f(3) by simp
    moreover from this have "\<not> is_clear st" by (auto simp: contains_fault_def is_clear_def)
    ultimately show ?thesis using False by (auto simp: run within_envelope_def)
  qed
qed

lemma initial_truth_ok: "valid_scenario s \<Longrightarrow> truth_ok s (initial_truth s)"
  by (auto simp: valid_scenario_def truth_ok_def initial_truth_def)

lemma consumed_spec_bounds:
  assumes "valid_scenario s" "truth_ok s tr"
  shows "0 \<le> consumed_spec s tr" "consumed_spec s tr \<le> sint (propellant tr)"
proof -
  have "0 \<le> round_half_away (sint (mass_flow (vehicle s)) * sint (timestep s)) (2 ^ 20)"
    using assms(1) by (intro round_half_away_ge_0) (simp_all add: valid_scenario_def)
  then show "0 \<le> consumed_spec s tr" "consumed_spec s tr \<le> sint (propellant tr)"
    using assms(2) by (auto simp: consumed_spec_def truth_ok_def)
qed

lemma step_preserves_truth_ok:
  assumes "valid_scenario s" "truth_ok s tr" "uint (step tr) < uint (steps s)"
    and "within_envelope s tr" "step_spec s tr r"
  shows "truth_ok s (truth r)"
  using assms consumed_spec_bounds [OF assms(1,2)]
  by (auto simp: truth_ok_def step_spec_def within_envelope_def uint_next [OF assms(3)] distrib_right)

lemma advance_faulted:
  "\<not> is_clear st \<Longrightarrow> run_state (advance_vertical_state s tr) st = (Inl NumericFault, st)"
  by (simp add: advance_integrate)

lemma advance_complete:
  "uint (steps s) \<le> uint (step tr) \<Longrightarrow>
   run_state (advance_vertical_state s tr) CLEAR = (Inl ScenarioComplete, CLEAR)"
  by (simp add: advance_integrate is_clear_def CLEAR_def word_le_def)

lemma earth_sample_ground: "earth_sample 0 = \<lparr>density = 328833434, gravity = 2632453\<rparr>"
  by (simp add: earth_sample_def sample_def interpolate_clamped_integral_q12_def interpolate_with_def
      ALTITUDE_KNOTS_Q12_def DENSITY_Q28_def GRAVITY_Q28_def word_sle_eq)

lemma reference_start_within: "within_envelope reference_scenario (initial_truth reference_scenario)"
  by (simp add: within_envelope_def net_force_spec_def acceleration_spec_def velocity_spec_def
      altitude_spec_def engine_on_def drag_spec_def initial_truth_def reference_scenario_def
      earth_sample_ground round_half_away_def)

lemma reference_start_before_end:
  "uint (step (initial_truth reference_scenario)) < uint (steps reference_scenario)"
  by (simp add: initial_truth_def reference_scenario_def)

lemmas reference_start = reference_scenario_valid initial_truth_ok [OF reference_scenario_valid]
  reference_start_before_end

subsection \<open>The contract of the step\<close>

text \<open>
  C8: the checked step computes the integer specification. From a clear register,
  in a valid scenario and a state that satisfies the flight invariant, a step
  before the end succeeds exactly when the specified forces and successor lie
  within the envelope; it then returns the semi-implicit successor of the
  specification with no rounding or saturation beyond the specified ones, and the
  register stays clear. Otherwise it returns the numeric-fault error and records an
  invalid input.
\<close>
theorem advance_vertical_state_correct:
  assumes "valid_scenario s" "truth_ok s tr" "uint (step tr) < uint (steps s)"
  shows "if within_envelope s tr
    then \<exists>r. run_state (advance_vertical_state s tr) CLEAR = (Inr r, CLEAR) \<and> step_spec s tr r
    else \<exists>st. run_state (advance_vertical_state s tr) CLEAR = (Inl NumericFault, st)
      \<and> contains_fault st InvalidInput"
  by (rule advance_exact [OF assms])

theorem advance_vertical_state_correct_witness:
  "\<exists>r. run_state (advance_vertical_state reference_scenario (initial_truth reference_scenario)) CLEAR
       = (Inr r, CLEAR) \<and> step_spec reference_scenario (initial_truth reference_scenario) r"
  using advance_vertical_state_correct [OF reference_start] reference_start_within by simp

text \<open>
  The flight invariant. A successful step from a state that satisfies it leads
  to a state that satisfies it: the elapsed time is the number of steps times the
  timestep, altitude and velocity stay in range, the propellant is between zero and
  its initial value, and total mass minus propellant is the constant dry load of
  the start, so mass is consumed only as propellant.
\<close>
theorem advance_preserves_invariant:
  assumes "valid_scenario s" "truth_ok s tr"
    and "run_state (advance_vertical_state s tr) CLEAR = (Inr r, st)"
  shows "truth_ok s (truth r) \<and> uint (step (truth r)) = uint (step tr) + 1
    \<and> sint (dry_mass (vehicle s)) \<le> sint (total_mass (truth r))
    \<and> sint (total_mass tr) - sint (total_mass (truth r)) = sint (propellant_consumed r)
    \<and> 0 \<le> sint (propellant_consumed r) \<and> st = CLEAR"
proof -
  have lt: "uint (step tr) < uint (steps s)"
    using assms(3) advance_complete [of s tr] by (cases "uint (steps s) \<le> uint (step tr)") auto
  have e: "within_envelope s tr" "step_spec s tr r" "st = CLEAR"
    using advance_exact [OF assms(1,2) lt] assms(3) by (auto split: if_splits)
  have t: "truth_ok s (truth r)" by (rule step_preserves_truth_ok [OF assms(1,2) lt e(1,2)])
  have "0 \<le> sint (propellant (truth r))" using t by (simp add: truth_ok_def)
  then have "sint (dry_mass (vehicle s)) \<le> sint (total_mass (truth r))"
    using truth_ok_mass(1) [OF assms(1) t] by linarith
  then show ?thesis
    using t e consumed_spec_bounds [OF assms(1,2)] uint_next [OF lt] by (simp add: step_spec_def)
qed

theorem advance_preserves_invariant_witness:
  "\<exists>r. run_state (advance_vertical_state reference_scenario (initial_truth reference_scenario)) CLEAR
       = (Inr r, CLEAR) \<and> truth_ok reference_scenario (truth r)"
proof -
  obtain r where "run_state (advance_vertical_state reference_scenario (initial_truth reference_scenario)) CLEAR
       = (Inr r, CLEAR)"
    using advance_exact [OF reference_start] reference_start_within by auto
  then show ?thesis using advance_preserves_invariant [OF reference_start(1,2)] by blast
qed

text \<open>
  The step is fail-closed. On a register that already holds a fault it returns
  the numeric-fault error without touching the register, and at the end of the
  scenario it reports completion on a clear register.
\<close>
theorem advance_fail_closed:
  "run_state (advance_vertical_state s tr) st =
     (if st \<noteq> CLEAR then (Inl NumericFault, st)
      else if uint (steps s) \<le> uint (step tr) then (Inl ScenarioComplete, CLEAR)
      else run_state (advance_vertical_state s tr) CLEAR)"
  using advance_faulted [of st s tr] advance_complete [of s tr] by (auto simp: is_clear_def CLEAR_def)

end
