(* ===== verification/Mission.thy ===== *)
theory Mission
  imports Vertical_Dynamics
begin

text \<open>
  Deterministic mission execution (\<^verbatim>\<open>core/src/mission.rs\<close>): the loop over checked steps
  with its rolling state checksum, the observer it reports to, and the two public
  runners. The observer is a parameter, as the trait \<^verbatim>\<open>MissionObserver\<close> is in the
  source; the locale \<^verbatim>\<open>accepting_observer\<close> states when it cannot influence a mission.
\<close>

unbundle bit_operations_syntax

subsection \<open>State checksums\<close>

definition VERTICAL_CHECKSUM_OFFSET :: u32 where "VERTICAL_CHECKSUM_OFFSET = 2166136261"
definition FNV_PRIME :: u32 where "FNV_PRIME = 16777619"

function hash_word_loop :: "u32 \<Rightarrow> u32 \<Rightarrow> nat \<Rightarrow> u32" where
  "hash_word_loop checksum word shift =
     (if shift < 32
      then hash_word_loop ((checksum XOR (drop_bit shift word AND 0xff)) * FNV_PRIME) word (shift + 8)
      else checksum)"
  by pat_completeness auto
termination
  by (relation "measure (\<lambda>(_, _, shift). 32 - shift)") auto

declare hash_word_loop.simps [simp del]

definition hash_word :: "u32 \<Rightarrow> u32 \<Rightarrow> u32" where
  "hash_word checksum word = hash_word_loop checksum word 0"

definition hash_vertical_truth :: "u32 \<Rightarrow> VerticalTruthState \<Rightarrow> u32" where
  "hash_vertical_truth checksum tr =
     (let checksum = hash_word checksum (step tr);
          checksum = hash_word checksum (time tr);
          checksum = hash_word checksum (altitude tr);
          checksum = hash_word checksum (velocity tr);
          checksum = hash_word checksum (acceleration tr);
          checksum = hash_word checksum (total_mass tr)
      in hash_word checksum (propellant tr))"

subsection \<open>Results and observations\<close>

record DynamicsSummary =
  final_truth :: VerticalTruthState
  cutoff_events :: u16

record DynamicsFailure =
  last_truth :: VerticalTruthState
  cutoff_events :: u16
  numeric_status :: NumericStatus
  cause :: VerticalStepError

record MissionSummary =
  final_truth :: VerticalTruthState
  checksum :: u32
  cutoff_events :: u16

record MissionFailure =
  last_truth :: VerticalTruthState
  checksum :: u32
  cutoff_events :: u16
  numeric_status :: NumericStatus
  cause :: VerticalStepError

record ExecutionSummary =
  final_truth :: VerticalTruthState
  checksum :: u32
  cutoff_events :: u16

record ExecutionFailure =
  last_truth :: VerticalTruthState
  checksum :: u32
  cutoff_events :: u16
  numeric_status :: NumericStatus
  cause :: VerticalStepError

record MissionObservation =
  obs_truth :: VerticalTruthState
  obs_checksum :: u32
  obs_engine_active :: bool
  obs_engine_cutoff :: bool
  obs_propellant_depleted :: bool
  obs_end_of_run :: bool

datatype 'e ExecutionError = Dynamics ExecutionFailure | Observer 'e VerticalTruthState u32 u16

type_synonym ('o, 'e) observer = "'o \<Rightarrow> MissionObservation \<Rightarrow> ('e + unit) \<times> 'o"

definition noop_observe :: "(unit, 'e) observer" where
  "noop_observe self observation = (Inr (), self)"

definition mission_engine_active :: "Scenario \<Rightarrow> VerticalTruthState \<Rightarrow> bool" where
  "mission_engine_active scenario tr \<longleftrightarrow>
     0 <s propellant tr \<and> time tr <s burn_duration (vehicle scenario)"

subsection \<open>The mission loop\<close>

lemma advance_increments_step:
  assumes "run_state (advance_vertical_state s tr) st = (Inr r, st')"
  shows "step (truth r) = step tr + 1 \<and> step tr < steps s"
  using assms
  by (auto simp: advance_integrate integrate_def Let_def split: prod.splits if_splits)

lemma advance_decreases:
  assumes "run_state (advance_vertical_state s tr) st = (Inr r, st')"
  shows "unat (steps s) - unat (step (truth r)) < unat (steps s) - unat (step tr)"
proof -
  have r: "step (truth r) = step tr + 1" and lt: "unat (step tr) < unat (steps s)"
    using advance_increments_step [OF assms] by (simp_all add: word_less_nat_alt)
  have "unat (step tr) + 1 < 4294967296" using lt unat_u32_less [of "steps s"] by linarith
  then have "unat (step tr + 1) = unat (step tr) + 1" by (simp add: unat_word_ariths)
  with lt show ?thesis by (simp add: r)
qed

function mission_loop :: "bool \<Rightarrow> ('o, 'e) observer \<Rightarrow> Scenario \<Rightarrow> VerticalTruthState \<Rightarrow> u32 \<Rightarrow> u16
    \<Rightarrow> NumericStatus \<Rightarrow> 'o \<Rightarrow> ('e ExecutionError + ExecutionSummary) \<times> 'o" where
  "mission_loop CHECKSUM observe scenario tr ck cutoffs status obs =
     (if step tr < steps scenario
      then (case run_state (advance_vertical_state scenario tr) status of
          (Inr sr, status) \<Rightarrow>
            let previous_propellant = propellant tr;
                tr' = truth sr;
                ck = (if CHECKSUM then hash_vertical_truth ck tr' else ck);
                cutoffs = (if engine_cutoff sr then cutoffs + 1 else cutoffs)
            in (case observe obs
                   \<lparr>obs_truth = tr', obs_checksum = ck,
                    obs_engine_active = mission_engine_active scenario tr',
                    obs_engine_cutoff = engine_cutoff sr,
                    obs_propellant_depleted = 0 <s previous_propellant \<and> propellant tr' = 0,
                    obs_end_of_run = step tr' = steps scenario\<rparr> of
                  (Inl error, obs) \<Rightarrow> (Inl (Observer error tr' ck cutoffs), obs)
                | (Inr u, obs) \<Rightarrow>
                    mission_loop CHECKSUM observe scenario (truth sr) ck cutoffs status obs)
        | (Inl e, status) \<Rightarrow>
            (Inl (Dynamics \<lparr>last_truth = tr, checksum = ck, cutoff_events = cutoffs,
               numeric_status = status, cause = e\<rparr>), obs))
      else (Inr \<lparr>final_truth = tr, checksum = ck, cutoff_events = cutoffs\<rparr>, obs))"
  by pat_completeness auto
termination
  by (relation "measure (\<lambda>(_, _, scenario, tr, _). unat (steps scenario) - unat (step tr))")
     (auto dest: advance_decreases [OF sym])

declare mission_loop.simps [simp del]

definition execute_vertical_mission ::
  "bool \<Rightarrow> ('o, 'e) observer \<Rightarrow> Scenario \<Rightarrow> 'o \<Rightarrow> ('e ExecutionError + ExecutionSummary) \<times> 'o" where
  "execute_vertical_mission CHECKSUM observe scenario obs =
     (let tr = initial_truth scenario;
          ck = VERTICAL_CHECKSUM_OFFSET;
          cutoffs = 0;
          status = CLEAR
      in (case observe obs
             \<lparr>obs_truth = tr, obs_checksum = ck,
              obs_engine_active = mission_engine_active scenario tr,
              obs_engine_cutoff = False, obs_propellant_depleted = False, obs_end_of_run = False\<rparr> of
            (Inl error, obs) \<Rightarrow> (Inl (Observer error tr ck cutoffs), obs)
          | (Inr u, obs) \<Rightarrow> mission_loop CHECKSUM observe scenario tr ck cutoffs status obs))"

text \<open>
  The error type of the no-op observer is empty in the source (\<^verbatim>\<open>Infallible\<close>), so the
  arm for observer errors of the two runners has no value to return; here it keeps
  the state the error carries, and is never taken (\<^verbatim>\<open>noop_never_fails\<close> below).
\<close>

definition run_vertical_dynamics :: "Scenario \<Rightarrow> DynamicsFailure + DynamicsSummary" where
  "run_vertical_dynamics scenario =
     (case fst (execute_vertical_mission False (noop_observe :: (unit, unit) observer) scenario ()) of
        Inr summary \<Rightarrow>
          Inr \<lparr>DynamicsSummary.final_truth = ExecutionSummary.final_truth summary,
               DynamicsSummary.cutoff_events = ExecutionSummary.cutoff_events summary\<rparr>
      | Inl (Dynamics failure) \<Rightarrow>
          Inl \<lparr>DynamicsFailure.last_truth = ExecutionFailure.last_truth failure,
               DynamicsFailure.cutoff_events = ExecutionFailure.cutoff_events failure,
               DynamicsFailure.numeric_status = ExecutionFailure.numeric_status failure,
               DynamicsFailure.cause = ExecutionFailure.cause failure\<rparr>
      | Inl (Observer error tr ck cutoffs) \<Rightarrow>
          Inl \<lparr>DynamicsFailure.last_truth = tr, DynamicsFailure.cutoff_events = cutoffs,
               DynamicsFailure.numeric_status = CLEAR, DynamicsFailure.cause = NumericFault\<rparr>)"

definition mission_summary :: "ExecutionSummary \<Rightarrow> MissionSummary" where
  "mission_summary summary =
     \<lparr>MissionSummary.final_truth = ExecutionSummary.final_truth summary,
      MissionSummary.checksum = ExecutionSummary.checksum summary,
      MissionSummary.cutoff_events = ExecutionSummary.cutoff_events summary\<rparr>"

definition mission_failure :: "ExecutionFailure \<Rightarrow> MissionFailure" where
  "mission_failure failure =
     \<lparr>MissionFailure.last_truth = ExecutionFailure.last_truth failure,
      MissionFailure.checksum = ExecutionFailure.checksum failure,
      MissionFailure.cutoff_events = ExecutionFailure.cutoff_events failure,
      MissionFailure.numeric_status = ExecutionFailure.numeric_status failure,
      MissionFailure.cause = ExecutionFailure.cause failure\<rparr>"

definition run_vertical_mission :: "Scenario \<Rightarrow> MissionFailure + MissionSummary" where
  "run_vertical_mission scenario =
     (case fst (execute_vertical_mission True (noop_observe :: (unit, unit) observer) scenario ()) of
        Inr summary \<Rightarrow> Inr (mission_summary summary)
      | Inl (Dynamics failure) \<Rightarrow> Inl (mission_failure failure)
      | Inl (Observer error tr ck cutoffs) \<Rightarrow>
          Inl \<lparr>MissionFailure.last_truth = tr, MissionFailure.checksum = ck,
               MissionFailure.cutoff_events = cutoffs, MissionFailure.numeric_status = CLEAR,
               MissionFailure.cause = NumericFault\<rparr>)"

subsection \<open>Trajectories\<close>

inductive reachable :: "Scenario \<Rightarrow> VerticalTruthState \<Rightarrow> bool" for s where
  start: "reachable s (initial_truth s)"
| flight: "reachable s tr \<Longrightarrow> run_state (advance_vertical_state s tr) CLEAR = (Inr r, CLEAR)
    \<Longrightarrow> reachable s (truth r)"

inductive flown :: "Scenario \<Rightarrow> VerticalTruthState list \<Rightarrow> VerticalTruthState \<Rightarrow> bool" for s where
  flown_start: "flown s [] (initial_truth s)"
| flown_step: "flown s trs tr \<Longrightarrow> run_state (advance_vertical_state s tr) CLEAR = (Inr r, CLEAR)
    \<Longrightarrow> flown s (trs @ [truth r]) (truth r)"

inductive_cases reachable_cases: "reachable s tr"

lemma reachable_truth_ok:
  assumes "valid_scenario s" "reachable s tr"
  shows "truth_ok s tr"
  using assms(2)
proof induction
  case start
  show ?case using assms(1) by (rule initial_truth_ok)
next
  case (flight tr r)
  have lt: "uint (step tr) < uint (steps s)"
    using advance_increments_step [OF flight.hyps(2)] by (simp add: word_less_def)
  have "within_envelope s tr" "step_spec s tr r"
    using advance_exact [OF assms(1) flight.IH lt] flight.hyps(2) by (auto split: if_splits)
  then show ?case by (rule step_preserves_truth_ok [OF assms(1) flight.IH lt])
qed

lemma flown_reachable: "flown s trs tr \<Longrightarrow> reachable s tr"
  by (induction rule: flown.induct) (auto intro: reachable.intros)

lemma engine_active_on: "mission_engine_active s tr \<longleftrightarrow> engine_on s tr"
  by (simp add: mission_engine_active_def engine_on_def word_sless_alt)

lemma step_engine:
  assumes "valid_scenario s" "truth_ok s tr" "step_spec s tr r"
  shows "engine_cutoff r \<longleftrightarrow> engine_on s tr \<and> \<not> engine_on s (truth r)"
    and "engine_on s (truth r) \<Longrightarrow> engine_on s tr"
proof -
  note b = consumed_spec_bounds [OF assms(1,2)]
  have dt: "1 \<le> sint (timestep s)" using assms(1) by (simp add: valid_scenario_def)
  have p: "0 \<le> sint (propellant tr)" using assms(2) by (simp add: truth_ok_def)
  show "engine_cutoff r \<longleftrightarrow> engine_on s tr \<and> \<not> engine_on s (truth r)"
    and "engine_on s (truth r) \<Longrightarrow> engine_on s tr"
    using assms(3) b dt p unfolding step_spec_def engine_on_def by linarith+
qed

subsection \<open>Observers that cannot interfere\<close>

locale accepting_observer =
  fixes observe :: "('o, 'e) observer" and inv :: "'o \<Rightarrow> bool"
  assumes accepts: "inv obs \<Longrightarrow> \<exists>obs'. observe obs ob = (Inr (), obs') \<and> inv obs'"
begin

lemma loop_like_noop:
  "inv obs \<Longrightarrow> map_err (map_ExecutionError (\<lambda>_. ())) (fst (mission_loop C observe s tr ck k st obs))
     = fst (mission_loop C (noop_observe :: (unit, unit) observer) s tr ck k st ())"
proof (induction "unat (steps s) - unat (step tr)" arbitrary: tr ck k st obs rule: less_induct)
  case less
  show ?case
  proof (cases "step tr < steps s")
    case True
    obtain q st' where q: "run_state (advance_vertical_state s tr) st = (q, st')" by fastforce
    show ?thesis
    proof (cases q)
      case (Inl e)
      then show ?thesis
        using True q by (subst (1 2) mission_loop.simps) simp
    next
      case (Inr r)
      define ck' where "ck' = (if C then hash_vertical_truth ck (truth r) else ck)"
      define k' where "k' = (if engine_cutoff r then k + 1 else k)"
      define ob where "ob = \<lparr>obs_truth = truth r, obs_checksum = ck',
          obs_engine_active = mission_engine_active s (truth r), obs_engine_cutoff = engine_cutoff r,
          obs_propellant_depleted = 0 <s propellant tr \<and> propellant (truth r) = 0,
          obs_end_of_run = step (truth r) = steps s\<rparr>"
      obtain obs' where o: "observe obs ob = (Inr (), obs')" "inv obs'"
        using accepts [OF less.prems] by blast
      have "mission_loop C observe s tr ck k st obs = mission_loop C observe s (truth r) ck' k' st' obs'"
        using True q Inr o(1)
        by (subst mission_loop.simps) (simp add: ob_def ck'_def k'_def Let_def)
      moreover have "mission_loop C (noop_observe :: (unit, unit) observer) s tr ck k st ()
          = mission_loop C noop_observe s (truth r) ck' k' st' ()"
        using True q Inr
        by (subst mission_loop.simps) (simp add: noop_observe_def ck'_def k'_def Let_def)
      ultimately show ?thesis
        using less.hyps [OF _ o(2), of "truth r"] advance_decreases [of s tr st r st'] q Inr by simp
    qed
  next
    case False
    then show ?thesis by (subst (1 2) mission_loop.simps) simp
  qed
qed

lemma mission_like_noop:
  assumes "inv obs"
  shows "map_err (map_ExecutionError (\<lambda>_. ())) (fst (execute_vertical_mission C observe s obs))
     = fst (execute_vertical_mission C (noop_observe :: (unit, unit) observer) s ())"
proof -
  let ?ob = "\<lparr>obs_truth = initial_truth s, obs_checksum = VERTICAL_CHECKSUM_OFFSET,
    obs_engine_active = mission_engine_active s (initial_truth s), obs_engine_cutoff = False,
    obs_propellant_depleted = False, obs_end_of_run = False\<rparr>"
  obtain obs' where "observe obs ?ob = (Inr (), obs')" "inv obs'" using accepts [OF assms] by blast
  then show ?thesis
    by (simp add: execute_vertical_mission_def Let_def noop_observe_def loop_like_noop)
qed

end

interpretation noop: accepting_observer noop_observe "\<lambda>_. True"
  by unfold_locales (simp add: noop_observe_def)

subsection \<open>Missions follow the trajectory\<close>

definition rolling_checksum :: "bool \<Rightarrow> VerticalTruthState list \<Rightarrow> u32" where
  "rolling_checksum C trs = (if C then foldl hash_vertical_truth VERTICAL_CHECKSUM_OFFSET trs
     else VERTICAL_CHECKSUM_OFFSET)"

definition cutoff_count :: "Scenario \<Rightarrow> VerticalTruthState \<Rightarrow> u16" where
  "cutoff_count s tr = of_bool (engine_on s (initial_truth s) \<and> \<not> engine_on s tr)"

definition completed :: "bool \<Rightarrow> Scenario \<Rightarrow> ExecutionSummary \<Rightarrow> bool" where
  "completed C s m \<longleftrightarrow> (\<exists>trs tr. flown s trs tr \<and> step tr = steps s
     \<and> m = \<lparr>final_truth = tr, checksum = rolling_checksum C trs, cutoff_events = cutoff_count s tr\<rparr>)"

definition aborted :: "bool \<Rightarrow> Scenario \<Rightarrow> ExecutionFailure \<Rightarrow> bool" where
  "aborted C s f \<longleftrightarrow> (\<exists>trs tr st. flown s trs tr \<and> step tr < steps s \<and> \<not> within_envelope s tr
     \<and> contains_fault st InvalidInput
     \<and> f = \<lparr>last_truth = tr, checksum = rolling_checksum C trs, cutoff_events = cutoff_count s tr,
            numeric_status = st, cause = NumericFault\<rparr>)"

lemma flown_step_engine:
  assumes "valid_scenario s" "truth_ok s tr" "step_spec s tr r" "reachable s tr"
  shows "cutoff_count s (truth r) = (if engine_cutoff r then cutoff_count s tr + 1 else cutoff_count s tr)"
proof -
  have "engine_on s (initial_truth s)" if "engine_on s tr"
    using assms(4) that
  proof induction
    case (flight tr r)
    have ok: "truth_ok s tr" using reachable_truth_ok [OF assms(1) flight.hyps(1)] .
    have lt: "uint (step tr) < uint (steps s)"
      using advance_increments_step [OF flight.hyps(2)] by (simp add: word_less_def)
    have "step_spec s tr r"
      using advance_exact [OF assms(1) ok lt] flight.hyps(2) by (auto split: if_splits)
    then show ?case using step_engine(2) [OF assms(1) ok] flight by blast
  qed simp
  then show ?thesis
    using step_engine [OF assms(1-3)]
    by (cases "engine_on s tr"; cases "engine_on s (truth r)") (simp_all add: cutoff_count_def)
qed

lemma loop_outcome:
  assumes "valid_scenario s"
  shows "flown s trs tr \<Longrightarrow>
    case fst (mission_loop C (noop_observe :: (unit, unit) observer) s tr (rolling_checksum C trs)
      (cutoff_count s tr) CLEAR ()) of
      Inr m \<Rightarrow> completed C s m
    | Inl (Dynamics f) \<Rightarrow> aborted C s f
    | Inl (Observer e tr' ck k) \<Rightarrow> False"
proof (induction "unat (steps s) - unat (step tr)" arbitrary: trs tr rule: less_induct)
  case less
  have ok: "truth_ok s tr" using reachable_truth_ok [OF assms flown_reachable [OF less.prems]] .
  show ?case
  proof (cases "step tr < steps s")
    case True
    then have lt: "uint (step tr) < uint (steps s)" by (simp add: word_less_def)
    show ?thesis
    proof (cases "within_envelope s tr")
      case w: True
      then obtain r where r: "run_state (advance_vertical_state s tr) CLEAR = (Inr r, CLEAR)" "step_spec s tr r"
        using advance_exact [OF assms ok lt] by auto
      have fl: "flown s (trs @ [truth r]) (truth r)" using less.prems r(1) by (rule flown_step)
      have "mission_loop C (noop_observe :: (unit, unit) observer) s tr (rolling_checksum C trs)
          (cutoff_count s tr) CLEAR () = mission_loop C noop_observe s (truth r)
            (rolling_checksum C (trs @ [truth r])) (cutoff_count s (truth r)) CLEAR ()"
        using True r(1) flown_step_engine [OF assms ok r(2) flown_reachable [OF less.prems]]
        by (subst mission_loop.simps) (simp add: noop_observe_def rolling_checksum_def Let_def)
      then show ?thesis using less.hyps [OF advance_decreases [OF r(1)] fl] by simp
    next
      case False
      then obtain st where "run_state (advance_vertical_state s tr) CLEAR = (Inl NumericFault, st)"
        "contains_fault st InvalidInput"
        using advance_exact [OF assms ok lt] by auto
      then show ?thesis
        using True False less.prems
        by (subst mission_loop.simps) (auto simp: aborted_def)
    qed
  next
    case False
    moreover have "step tr = steps s"
      using False ok by (simp add: truth_ok_def word_less_def word_uint_eq_iff)
    ultimately show ?thesis
      using less.prems by (subst mission_loop.simps) (auto simp: completed_def)
  qed
qed

lemma flown_length: "flown s trs tr \<Longrightarrow> length trs = unat (step tr)"
proof (induction rule: flown.induct)
  case (flown_step trs tr r)
  have "step (truth r) = step tr + 1" and lt: "unat (step tr) < unat (steps s)"
    using advance_increments_step [OF flown_step.hyps(2)] by (simp_all add: word_less_nat_alt)
  moreover have "unat (step tr) + 1 < 4294967296" using lt unat_u32_less [of "steps s"] by linarith
  then have "unat (step tr + 1) = unat (step tr) + 1" by (simp add: unat_word_ariths)
  ultimately show ?case using flown_step.IH by simp
qed (simp add: initial_truth_def)

lemma noop_execution:
  "fst (execute_vertical_mission C (noop_observe :: (unit, unit) observer) s ()) =
     fst (mission_loop C (noop_observe :: (unit, unit) observer) s (initial_truth s)
       VERTICAL_CHECKSUM_OFFSET 0 CLEAR ())"
  by (simp add: execute_vertical_mission_def noop_observe_def)

lemma execution_outcome:
  assumes "valid_scenario s"
  shows "case fst (execute_vertical_mission C (noop_observe :: (unit, unit) observer) s ()) of
      Inr m \<Rightarrow> completed C s m
    | Inl (Dynamics f) \<Rightarrow> aborted C s f
    | Inl (Observer e tr' ck k) \<Rightarrow> False"
proof -
  have "rolling_checksum C [] = VERTICAL_CHECKSUM_OFFSET" "cutoff_count s (initial_truth s) = 0"
    by (simp_all add: rolling_checksum_def cutoff_count_def)
  then show ?thesis using loop_outcome [OF assms flown_start, of C] by (simp add: noop_execution)
qed

subsection \<open>Checksums do not influence the dynamics\<close>

fun forget_error :: "'e ExecutionError \<Rightarrow> 'e ExecutionError" where
  "forget_error (Dynamics f) = Dynamics (f\<lparr>checksum := 0\<rparr>)"
| "forget_error (Observer e tr ck k) = Observer e tr 0 k"

definition forget :: "'e ExecutionError + ExecutionSummary \<Rightarrow> 'e ExecutionError + ExecutionSummary" where
  "forget = map_sum forget_error (\<lambda>m. m\<lparr>ExecutionSummary.checksum := 0\<rparr>)"

lemma loop_checksum_irrelevant:
  "forget (fst (mission_loop C (noop_observe :: (unit, unit) observer) s tr ck k st ()))
     = forget (fst (mission_loop D (noop_observe :: (unit, unit) observer) s tr ck' k st ()))"
proof (induction "unat (steps s) - unat (step tr)" arbitrary: tr ck ck' k st rule: less_induct)
  case less
  show ?case
  proof (cases "step tr < steps s")
    case True
    obtain q st' where q: "run_state (advance_vertical_state s tr) st = (q, st')" by fastforce
    show ?thesis
    proof (cases q)
      case (Inl e)
      then show ?thesis
        using True q by (subst (1 2) mission_loop.simps) (simp add: forget_def)
    next
      case (Inr r)
      have run: "mission_loop B (noop_observe :: (unit, unit) observer) s tr c k st ()
          = mission_loop B noop_observe s (truth r)
              (if B then hash_vertical_truth c (truth r) else c)
              (if engine_cutoff r then k + 1 else k) st' ()" for B c
        using True q Inr by (subst mission_loop.simps) (simp add: noop_observe_def Let_def)
      show ?thesis
        unfolding run [of C] run [of D]
        using advance_decreases [of s tr st r st'] q Inr by (intro less.hyps) simp
    qed
  next
    case False
    then show ?thesis by (subst (1 2) mission_loop.simps) (simp add: forget_def)
  qed
qed

lemma loop_never_observer_error:
  "fst (mission_loop C (noop_observe :: (unit, unit) observer) s tr ck k st ()) \<noteq> Inl (Observer e t c n)"
proof (induction "unat (steps s) - unat (step tr)" arbitrary: tr ck k st rule: less_induct)
  case less
  obtain q st' where q: "run_state (advance_vertical_state s tr) st = (q, st')" by fastforce
  show ?case
    using less advance_decreases [of s tr st _ st'] q
    by (subst mission_loop.simps) (cases q; simp add: noop_observe_def Let_def)
qed

lemma noop_never_fails:
  "fst (execute_vertical_mission C (noop_observe :: (unit, unit) observer) s ()) \<noteq> Inl (Observer e t c n)"
  by (simp only: noop_execution loop_never_observer_error not_False_eq_True)

subsection \<open>The state checksum is FNV-1a of the canonical bytes\<close>

definition truth_bytes :: "VerticalTruthState \<Rightarrow> u8 list" where
  "truth_bytes tr = to_le_bytes32 (step tr) @ to_le_bytes32 (time tr) @ to_le_bytes32 (altitude tr)
     @ to_le_bytes32 (velocity tr) @ to_le_bytes32 (acceleration tr) @ to_le_bytes32 (total_mass tr)
     @ to_le_bytes32 (propellant tr)"

lemma low_byte: "(x :: u32) AND 0xff = ucast (ucast x :: u8)"
proof -
  have "x AND 0xff = take_bit 8 x" by (simp add: take_bit_eq_mask mask_numeral)
  also have "\<dots> = ucast (ucast x :: u8)"
    by (rule bit_word_eqI) (auto simp: bit_simps)
  finally show ?thesis .
qed

lemma hash_word_fnv: "hash_word c w = foldl fnv1a_byte c (to_le_bytes32 w)"
  by (simp add: hash_word_def hash_word_loop.simps to_le_bytes32_def fnv1a_byte_def low_byte FNV_PRIME_def)

lemma hash_truth_fnv: "hash_vertical_truth c tr = foldl fnv1a_byte c (truth_bytes tr)"
  by (simp add: hash_vertical_truth_def truth_bytes_def hash_word_fnv)

lemma rolling_checksum_fnv: "rolling_checksum True trs = fnv1a_32 (concat (map truth_bytes trs))"
proof -
  have "foldl hash_vertical_truth c trs = foldl fnv1a_byte c (concat (map truth_bytes trs))" for c
    by (induction trs arbitrary: c) (simp_all add: hash_truth_fnv)
  then show ?thesis by (simp add: rolling_checksum_def fnv1a_32_def VERTICAL_CHECKSUM_OFFSET_def)
qed

lemma forget_checksum_eq:
  "f\<lparr>ExecutionFailure.checksum := 0\<rparr> = (g :: ExecutionFailure)\<lparr>ExecutionFailure.checksum := 0\<rparr> \<longleftrightarrow>
     ExecutionFailure.last_truth f = ExecutionFailure.last_truth g
     \<and> ExecutionFailure.cutoff_events f = ExecutionFailure.cutoff_events g
     \<and> ExecutionFailure.numeric_status f = ExecutionFailure.numeric_status g
     \<and> ExecutionFailure.cause f = ExecutionFailure.cause g"
  "m\<lparr>ExecutionSummary.checksum := 0\<rparr> = (n :: ExecutionSummary)\<lparr>ExecutionSummary.checksum := 0\<rparr> \<longleftrightarrow>
     ExecutionSummary.final_truth m = ExecutionSummary.final_truth n
     \<and> ExecutionSummary.cutoff_events m = ExecutionSummary.cutoff_events n"
  by (cases f; cases g; simp) (cases m; cases n; simp)

subsection \<open>The contract of the mission runner\<close>

text \<open>
  C2: a mission always ends, in one of two ways. In a valid scenario it either
  completes after exactly the configured number of checked steps, in a state of
  the trajectory that satisfies the flight invariant, or it stops at the first
  state of the trajectory whose specified successor leaves the envelope and reports
  that state with the fault. Either way the checksum is the FNV-1a hash of the
  canonical bytes of all successors in order, and the engine cut off at most once.
\<close>
theorem mission_outcome:
  assumes "valid_scenario s"
  shows "\<exists>trs tr. flown s trs tr \<and> truth_ok s tr \<and> length trs = unat (step tr) \<and>
    (case run_vertical_mission s of
       Inr m \<Rightarrow> step tr = steps s \<and> MissionSummary.final_truth m = tr
         \<and> MissionSummary.checksum m = fnv1a_32 (concat (map truth_bytes trs))
         \<and> MissionSummary.cutoff_events m = of_bool (engine_on s (initial_truth s) \<and> \<not> engine_on s tr)
     | Inl f \<Rightarrow> step tr < steps s \<and> \<not> within_envelope s tr \<and> MissionFailure.last_truth f = tr
         \<and> MissionFailure.checksum f = fnv1a_32 (concat (map truth_bytes trs))
         \<and> MissionFailure.cutoff_events f = of_bool (engine_on s (initial_truth s) \<and> \<not> engine_on s tr)
         \<and> MissionFailure.cause f = NumericFault
         \<and> contains_fault (MissionFailure.numeric_status f) InvalidInput)"
proof -
  have ok: "truth_ok s tr" if "flown s trs tr" for trs tr
    using reachable_truth_ok [OF assms flown_reachable [OF that]] .
  show ?thesis
    using execution_outcome [OF assms, of True] ok flown_length
    by (fastforce simp: run_vertical_mission_def mission_summary_def mission_failure_def completed_def
        aborted_def rolling_checksum_fnv cutoff_count_def split: sum.splits ExecutionError.splits)
qed

theorem mission_outcome_witness:
  "\<exists>trs tr. flown reference_scenario trs tr \<and> length trs = unat (step tr) \<and>
     (case run_vertical_mission reference_scenario of
        Inr m \<Rightarrow> step tr = 16 \<and> MissionSummary.final_truth m = tr
      | Inl f \<Rightarrow> step tr < 16 \<and> MissionFailure.last_truth f = tr)"
  using mission_outcome [OF reference_scenario_valid]
  by (fastforce simp: reference_scenario_def split: sum.splits)

text \<open>
  The runner without checksums computes the same flight. For every scenario,
  valid or not, its result is the result of the checksumming runner with the
  checksum left out.
\<close>
theorem dynamics_runner_agrees:
  "run_vertical_dynamics s =
     (case run_vertical_mission s of
        Inr m \<Rightarrow> Inr \<lparr>DynamicsSummary.final_truth = MissionSummary.final_truth m,
                     DynamicsSummary.cutoff_events = MissionSummary.cutoff_events m\<rparr>
      | Inl f \<Rightarrow> Inl \<lparr>DynamicsFailure.last_truth = MissionFailure.last_truth f,
                     DynamicsFailure.cutoff_events = MissionFailure.cutoff_events f,
                     DynamicsFailure.numeric_status = MissionFailure.numeric_status f,
                     DynamicsFailure.cause = MissionFailure.cause f\<rparr>)"
proof -
  let ?run = "\<lambda>C. fst (execute_vertical_mission C (noop_observe :: (unit, unit) observer) s ())"
  have "forget (?run False) = forget (?run True)"
    unfolding noop_execution by (rule loop_checksum_irrelevant)
  then show ?thesis
    using noop_never_fails [of False s] noop_never_fails [of True s]
    by (cases "?run False" rule: sum.exhaust [case_product sum.exhaust [of "?run True"]])
       (auto simp: forget_checksum_eq run_vertical_dynamics_def run_vertical_mission_def forget_def mission_summary_def
        mission_failure_def split: ExecutionError.splits sum.splits)
qed

text \<open>
  A flipped byte never cancels out of the state checksum. If the canonical
  bytes of two trajectories differ in exactly one position, their checksums differ.
\<close>
theorem trajectory_checksum_detects:
  assumes "concat (map truth_bytes trs') = (concat (map truth_bytes trs))[i := b]"
    and "i < length (concat (map truth_bytes trs))" "b \<noteq> concat (map truth_bytes trs) ! i"
  shows "rolling_checksum True trs' \<noteq> rolling_checksum True trs"
  using fnv1a.fold_detects [OF assms(2,3)] by (simp add: rolling_checksum_fnv assms(1) fnv1a_32_def)

theorem trajectory_checksum_detects_witness:
  "rolling_checksum True [(initial_truth reference_scenario)\<lparr>step := 1\<rparr>]
     \<noteq> rolling_checksum True [initial_truth reference_scenario]"
  by (rule trajectory_checksum_detects [where i = 0 and b = 1])
     (simp_all add: truth_bytes_def to_le_bytes32_def initial_truth_def)

end
