(* ===== verification/Telemetry.thy ===== *)
theory Telemetry
  imports Mission
begin

text \<open>
  Canonical telemetry of phase 1 (\<^verbatim>\<open>core/src/telemetry.rs\<close>): the header and frame
  codecs and the emitter that observes a mission and writes its stream to a sink.
  The sink is a parameter, as the trait \<^verbatim>\<open>TelemetrySink\<close> is in the source. A buffer
  that the source fills in place is a list that the writer returns updated.
\<close>

unbundle bit_operations_syntax

subsection \<open>Flags and frames\<close>

definition TELEMETRY_VERSION :: u16 where "TELEMETRY_VERSION = 1"
definition TELEMETRY_HEADER_LENGTH :: nat where "TELEMETRY_HEADER_LENGTH = 32"
definition TELEMETRY_FRAME_LENGTH :: nat where "TELEMETRY_FRAME_LENGTH = 40"
definition HEADER_MAGIC :: "u8 list" where "HEADER_MAGIC = ascii ''KST1''"

datatype TelemetryWriteError = Length

type_synonym TelemetryStatus = u16
type_synonym TelemetryEvents = u16

definition ENGINE_ACTIVE :: u16 where "ENGINE_ACTIVE = 0x0001"
definition ENGINE_CUTOFF :: u16 where "ENGINE_CUTOFF = 0x0001"
definition PROPELLANT_DEPLETED :: u16 where "PROPELLANT_DEPLETED = 0x0002"
definition NUMERIC_FAULT :: u16 where "NUMERIC_FAULT = 0x0004"
definition END_OF_RUN :: u16 where "END_OF_RUN = 0x0008"
definition NONE :: TelemetryEvents where "NONE = 0"

lemmas telemetry_flags = ENGINE_ACTIVE_def ENGINE_CUTOFF_def PROPELLANT_DEPLETED_def NUMERIC_FAULT_def
  END_OF_RUN_def NONE_def
lemmas telemetry_lengths = TELEMETRY_HEADER_LENGTH_def TELEMETRY_FRAME_LENGTH_def

definition from_engine_active :: "bool \<Rightarrow> TelemetryStatus" where
  "from_engine_active active = (if active then ENGINE_ACTIVE else 0)"

definition new_events :: "bool \<Rightarrow> bool \<Rightarrow> bool \<Rightarrow> bool \<Rightarrow> TelemetryEvents" where
  "new_events cutoff depleted numeric_fault end_of_run =
     (let bits = 0;
          bits = (if cutoff then bits OR ENGINE_CUTOFF else bits);
          bits = (if depleted then bits OR PROPELLANT_DEPLETED else bits);
          bits = (if numeric_fault then bits OR NUMERIC_FAULT else bits)
      in if end_of_run then bits OR END_OF_RUN else bits)"

record TelemetryFrame =
  step :: u32
  time :: Time
  altitude :: Altitude
  velocity :: Velocity
  acceleration :: Acceleration
  total_mass :: Mass
  propellant :: Mass
  status :: TelemetryStatus
  events :: TelemetryEvents
  state_checksum :: u32

definition from_truth :: "VerticalTruthState \<Rightarrow> TelemetryStatus \<Rightarrow> TelemetryEvents \<Rightarrow> u32 \<Rightarrow> TelemetryFrame" where
  "from_truth tr stat ev ck =
     \<lparr>step = VerticalTruthState.step tr, time = VerticalTruthState.time tr,
      altitude = VerticalTruthState.altitude tr, velocity = VerticalTruthState.velocity tr,
      acceleration = VerticalTruthState.acceleration tr, total_mass = VerticalTruthState.total_mass tr,
      propellant = VerticalTruthState.propellant tr, status = stat, events = ev, state_checksum = ck\<rparr>"

subsection \<open>Writers\<close>

definition write_telemetry_header :: "Scenario \<Rightarrow> u8 list \<Rightarrow> TelemetryWriteError + u8 list" where
  "write_telemetry_header scenario output =
     (if length output \<noteq> TELEMETRY_HEADER_LENGTH then Inl TelemetryWriteError.Length
      else
      let output = copy_from_slice output 0 HEADER_MAGIC;
          output = write_u16 output 4 TELEMETRY_VERSION;
          output = write_u16 output 6 (of_nat TELEMETRY_HEADER_LENGTH);
          output = write_u16 output 8 (of_nat TELEMETRY_FRAME_LENGTH);
          output = write_u16 output 10 0;
          output = write_u32 output 12 NUMERIC_CONTRACT_ID;
          output = write_u32 output 16 (scenario_id scenario);
          output = write_i32 output 20 (timestep scenario);
          output = write_u16 output 24 (telemetry_stride scenario);
          output = write_u16 output 26 0;
          checksum = crc32_ieee (take 28 output)
      in Inr (write_u32 output 28 checksum))"

definition write_telemetry_frame :: "TelemetryFrame \<Rightarrow> u8 list \<Rightarrow> TelemetryWriteError + u8 list" where
  "write_telemetry_frame frame output =
     (if length output \<noteq> TELEMETRY_FRAME_LENGTH then Inl TelemetryWriteError.Length
      else
      let output = write_u32 output 0 (step frame);
          output = write_i32 output 4 (time frame);
          output = write_i32 output 8 (altitude frame);
          output = write_i32 output 12 (velocity frame);
          output = write_i32 output 16 (acceleration frame);
          output = write_i32 output 20 (total_mass frame);
          output = write_i32 output 24 (propellant frame);
          output = write_u16 output 28 (status frame);
          output = write_u16 output 30 (events frame);
          output = write_u32 output 32 (state_checksum frame);
          checksum = crc32_ieee (take 36 output)
      in Inr (write_u32 output 36 checksum))"

subsection \<open>Readers\<close>

record TelemetryHeader =
  numeric_contract_id :: u32
  header_scenario_id :: u32
  header_timestep :: Time
  header_stride :: u16

datatype TelemetryReadError = Length | Magic | Version | HeaderLength | FrameLength | Reserved
  | NumericContract | ScenarioIdentity | Timestep | TelemetryStride | StatusBits | EventBits | Checksum

definition parse_telemetry_header :: "u8 list \<Rightarrow> TelemetryReadError + TelemetryHeader" where
  "parse_telemetry_header input =
     (if length input \<noteq> TELEMETRY_HEADER_LENGTH then Inl TelemetryReadError.Length
      else if take 4 input \<noteq> HEADER_MAGIC then Inl TelemetryReadError.Magic
      else if read_u16 input 4 \<noteq> TELEMETRY_VERSION then Inl TelemetryReadError.Version
      else if unat (read_u16 input 6) \<noteq> TELEMETRY_HEADER_LENGTH then Inl HeaderLength
      else if unat (read_u16 input 8) \<noteq> TELEMETRY_FRAME_LENGTH then Inl FrameLength
      else if read_u16 input 10 \<noteq> 0 \<or> read_u16 input 26 \<noteq> 0 then Inl Reserved
      else if read_u32 input 12 \<noteq> NUMERIC_CONTRACT_ID then Inl TelemetryReadError.NumericContract
      else if crc32_ieee (take 28 input) \<noteq> read_u32 input 28 then Inl TelemetryReadError.Checksum
      else Inr \<lparr>numeric_contract_id = read_u32 input 12, header_scenario_id = read_u32 input 16,
                header_timestep = read_i32 input 20, header_stride = read_u16 input 24\<rparr>)"

definition parse_telemetry_header_for_scenario ::
  "u8 list \<Rightarrow> Scenario \<Rightarrow> TelemetryReadError + TelemetryHeader" where
  "parse_telemetry_header_for_scenario input scenario =
     and_then (parse_telemetry_header input) (\<lambda>header.
       if header_scenario_id header \<noteq> scenario_id scenario then Inl ScenarioIdentity
       else if header_timestep header \<noteq> timestep scenario then Inl TelemetryReadError.Timestep
       else if header_stride header \<noteq> telemetry_stride scenario then Inl TelemetryReadError.TelemetryStride
       else Inr header)"

definition parse_telemetry_frame :: "u8 list \<Rightarrow> TelemetryReadError + TelemetryFrame" where
  "parse_telemetry_frame input =
     (if length input \<noteq> TELEMETRY_FRAME_LENGTH then Inl TelemetryReadError.Length
      else if crc32_ieee (take 36 input) \<noteq> read_u32 input 36 then Inl TelemetryReadError.Checksum
      else
      let status_bits = read_u16 input 28 in
      if status_bits AND NOT ENGINE_ACTIVE \<noteq> 0 then Inl StatusBits
      else
      let event_bits = read_u16 input 30;
          accepted_event_bits = ENGINE_CUTOFF OR PROPELLANT_DEPLETED OR NUMERIC_FAULT OR END_OF_RUN
      in if event_bits AND NOT accepted_event_bits \<noteq> 0 then Inl EventBits
      else Inr \<lparr>step = read_u32 input 0, time = read_i32 input 4, altitude = read_i32 input 8,
                velocity = read_i32 input 12, acceleration = read_i32 input 16,
                total_mass = read_i32 input 20, propellant = read_i32 input 24,
                status = status_bits, events = event_bits, state_checksum = read_u32 input 32\<rparr>)"

subsection \<open>The emitter\<close>

type_synonym ('s, 'e) record_writer = "'s \<Rightarrow> u8 list \<Rightarrow> ('e + unit) \<times> 's"

record 's MissionTelemetryEmitter =
  sink :: 's
  stride :: u32
  pending_events :: TelemetryEvents
  frames_written :: u32

definition zeroed_frame :: "u8 list" where "zeroed_frame = replicate TELEMETRY_FRAME_LENGTH 0"
definition zeroed_header :: "u8 list" where "zeroed_header = replicate TELEMETRY_HEADER_LENGTH 0"

definition filled :: "'e + u8 list \<Rightarrow> u8 list \<Rightarrow> u8 list" where
  "filled result output = (case result of Inr written \<Rightarrow> written | Inl e \<Rightarrow> output)"

definition emit :: "('s, 'e) record_writer \<Rightarrow> 's MissionTelemetryEmitter \<Rightarrow> VerticalTruthState \<Rightarrow> bool
    \<Rightarrow> TelemetryEvents \<Rightarrow> u32 \<Rightarrow> ('e + unit) \<times> 's MissionTelemetryEmitter" where
  "emit write_frame self tr active ev ck =
     (let frame = from_truth tr (from_engine_active active) ev ck;
          output = filled (write_telemetry_frame frame zeroed_frame) zeroed_frame
      in case write_frame (sink self) output of
           (Inl error, snk) \<Rightarrow> (Inl error, self\<lparr>sink := snk\<rparr>)
         | (Inr u, snk) \<Rightarrow> (Inr (), self\<lparr>sink := snk, frames_written := frames_written self + 1\<rparr>))"

definition emit_fault :: "('s, 'e) record_writer \<Rightarrow> 's MissionTelemetryEmitter \<Rightarrow> Scenario \<Rightarrow> MissionFailure
    \<Rightarrow> ('e + unit) \<times> 's MissionTelemetryEmitter" where
  "emit_fault write_frame self scenario failure =
     (let tr = MissionFailure.last_truth failure;
          ev = pending_events self OR new_events False False True True;
          active = 0 <s VerticalTruthState.propellant tr
            \<and> VerticalTruthState.time tr <s burn_duration (vehicle scenario)
      in emit write_frame self tr active ev (MissionFailure.checksum failure))"

definition emitter_observe :: "('s, 'e) record_writer \<Rightarrow> ('s MissionTelemetryEmitter, 'e) observer" where
  "emitter_observe write_frame self observation =
     (let self = self\<lparr>pending_events := pending_events self OR
            new_events (obs_engine_cutoff observation) (obs_propellant_depleted observation) False
              (obs_end_of_run observation)\<rparr>;
          st = VerticalTruthState.step (obs_truth observation);
          stride_boundary = (st div stride self * stride self = st);
          should_emit = (st = 0 \<or> stride_boundary \<or> obs_end_of_run observation)
      in if should_emit
         then case emit write_frame self (obs_truth observation) (obs_engine_active observation)
                     (pending_events self) (obs_checksum observation) of
                (Inl error, self) \<Rightarrow> (Inl error, self)
              | (Inr u, self) \<Rightarrow> (Inr (), self\<lparr>pending_events := NONE\<rparr>)
         else (Inr (), self))"

record TelemetryMissionSummary =
  mission :: MissionSummary
  summary_frames :: u32

datatype 'e TelemetryMissionFailure =
    Header 'e
  | Frame 'e VerticalTruthState u32 u16 u32
  | Simulation MissionFailure bool u32
  | SimulationAndFrame MissionFailure 'e u32

definition run_vertical_mission_with_telemetry ::
  "('s, 'e) record_writer \<Rightarrow> ('s, 'e) record_writer \<Rightarrow> Scenario \<Rightarrow> 's
    \<Rightarrow> ('e TelemetryMissionFailure + TelemetryMissionSummary) \<times> 's" where
  "run_vertical_mission_with_telemetry write_header write_frame scenario snk =
     (let header = filled (write_telemetry_header scenario zeroed_header) zeroed_header
      in case write_header snk header of
           (Inl e, snk) \<Rightarrow> (Inl (Header e), snk)
         | (Inr u, snk) \<Rightarrow>
           (let emitter = \<lparr>sink = snk, stride = ucast (telemetry_stride scenario),
                  pending_events = NONE, frames_written = 0\<rparr>
            in case execute_vertical_mission True (emitter_observe write_frame) scenario emitter of
                 (Inr summary, emitter) \<Rightarrow>
                   (Inr \<lparr>mission = mission_summary summary, summary_frames = frames_written emitter\<rparr>,
                    sink emitter)
               | (Inl (Observer error tr ck cutoffs), emitter) \<Rightarrow>
                   (Inl (Frame error tr ck cutoffs (frames_written emitter)), sink emitter)
               | (Inl (Dynamics failure), emitter) \<Rightarrow>
                   (let failure = mission_failure failure
                    in case emit_fault write_frame emitter scenario failure of
                         (Inr u, emitter) \<Rightarrow>
                           (Inl (Simulation failure True (frames_written emitter)), sink emitter)
                       | (Inl error, emitter) \<Rightarrow>
                           (Inl (SimulationAndFrame failure error (frames_written emitter)), sink emitter))))"

subsection \<open>Codec round trips\<close>

definition frame_body :: "TelemetryFrame \<Rightarrow> u8 list \<Rightarrow> u8 list" where
  "frame_body frame output =
     (let output = write_u32 output 0 (step frame);
          output = write_u32 output 4 (time frame);
          output = write_u32 output 8 (altitude frame);
          output = write_u32 output 12 (velocity frame);
          output = write_u32 output 16 (acceleration frame);
          output = write_u32 output 20 (total_mass frame);
          output = write_u32 output 24 (propellant frame);
          output = write_u16 output 28 (status frame);
          output = write_u16 output 30 (events frame)
      in write_u32 output 32 (state_checksum frame))"

lemma write_frame_body:
  "length output = 40 \<Longrightarrow> write_telemetry_frame frame output =
     Inr (write_u32 (frame_body frame output) 36 (crc32_ieee (take 36 (frame_body frame output))))"
  by (simp add: write_telemetry_frame_def frame_body_def write_i32_def Let_def telemetry_lengths)

lemma length_frame_body [simp]: "length output = 40 \<Longrightarrow> length (frame_body frame output) = 40"
  by (simp add: frame_body_def record_access)

lemma frame_body_fields:
  assumes "length output = 40"
  shows "read_u32 (frame_body f output) 0 = step f" "read_u32 (frame_body f output) 4 = time f"
    "read_u32 (frame_body f output) 8 = altitude f" "read_u32 (frame_body f output) 12 = velocity f"
    "read_u32 (frame_body f output) 16 = acceleration f" "read_u32 (frame_body f output) 20 = total_mass f"
    "read_u32 (frame_body f output) 24 = propellant f" "read_u16 (frame_body f output) 28 = status f"
    "read_u16 (frame_body f output) 30 = events f" "read_u32 (frame_body f output) 32 = state_checksum f"
  using assms by (simp_all add: frame_body_def record_access)

definition framed :: "TelemetryFrame \<Rightarrow> u8 list \<Rightarrow> u8 list" where
  "framed f output = write_u32 (frame_body f output) 36 (crc32_ieee (take 36 (frame_body f output)))"

lemma length_framed [simp]: "length output = 40 \<Longrightarrow> length (framed f output) = 40"
  by (simp add: framed_def record_access)

lemma framed_fields:
  assumes "length output = 40"
  shows "read_u32 (framed f output) 0 = step f" "read_u32 (framed f output) 4 = time f"
    "read_u32 (framed f output) 8 = altitude f" "read_u32 (framed f output) 12 = velocity f"
    "read_u32 (framed f output) 16 = acceleration f" "read_u32 (framed f output) 20 = total_mass f"
    "read_u32 (framed f output) 24 = propellant f" "read_u16 (framed f output) 28 = status f"
    "read_u16 (framed f output) 30 = events f" "read_u32 (framed f output) 32 = state_checksum f"
    "crc32_ieee (take 36 (framed f output)) = read_u32 (framed f output) 36"
  using assms by (simp_all add: framed_def frame_body_fields record_access)

lemma parse_framed:
  "length output = 40 \<Longrightarrow> parse_telemetry_frame (framed f output) =
     (if status f AND NOT 1 \<noteq> 0 then Inl StatusBits
      else if events f AND NOT 15 \<noteq> 0 then Inl EventBits else Inr f)"
  by (simp add: parse_telemetry_frame_def framed_fields read_i32_def telemetry_lengths telemetry_flags)

lemma zeroed_lengths [simp]: "length zeroed_frame = 40" "length zeroed_header = 32"
  by (simp_all add: zeroed_frame_def zeroed_header_def telemetry_lengths)

definition frame_bytes :: "TelemetryFrame \<Rightarrow> u8 list" where
  "frame_bytes f = filled (write_telemetry_frame f zeroed_frame) zeroed_frame"

lemma frame_bytes_framed: "frame_bytes f = framed f zeroed_frame"
  by (simp add: frame_bytes_def filled_def write_frame_body framed_def)

lemma length_frame_bytes [simp]: "length (frame_bytes f) = 40"
  by (simp add: frame_bytes_framed)

definition header_body :: "Scenario \<Rightarrow> u8 list \<Rightarrow> u8 list" where
  "header_body s output =
     (let output = copy_from_slice output 0 HEADER_MAGIC;
          output = write_u16 output 4 1;
          output = write_u16 output 6 32;
          output = write_u16 output 8 40;
          output = write_u16 output 10 0;
          output = write_u32 output 12 NUMERIC_CONTRACT_ID;
          output = write_u32 output 16 (scenario_id s);
          output = write_u32 output 20 (timestep s);
          output = write_u16 output 24 (telemetry_stride s)
      in write_u16 output 26 0)"

lemma write_header_body:
  "length output = 32 \<Longrightarrow> write_telemetry_header s output =
     Inr (write_u32 (header_body s output) 28 (crc32_ieee (take 28 (header_body s output))))"
  by (simp add: write_telemetry_header_def header_body_def write_i32_def Let_def telemetry_lengths
      TELEMETRY_VERSION_def)

lemma length_header_magic [simp]: "length HEADER_MAGIC = 4"
  by (simp add: HEADER_MAGIC_def)

lemma length_header_body [simp]: "length output = 32 \<Longrightarrow> length (header_body s output) = 32"
  by (simp add: header_body_def record_access)

lemma take_copy_start: "take (length src) (copy_from_slice out 0 src) = src"
  by (simp add: copy_from_slice_def)

definition header_bytes :: "Scenario \<Rightarrow> u8 list" where
  "header_bytes s = filled (write_telemetry_header s zeroed_header) zeroed_header"

lemma header_bytes_body:
  "header_bytes s = write_u32 (header_body s zeroed_header) 28 (crc32_ieee (take 28 (header_body s zeroed_header)))"
  by (simp add: header_bytes_def filled_def write_header_body)

lemma length_header_bytes [simp]: "length (header_bytes s) = 32"
  by (simp add: header_bytes_body record_access)

lemma header_magic: "take 4 (header_bytes s) = HEADER_MAGIC"
  using take_copy_start [of HEADER_MAGIC zeroed_header]
  by (simp add: header_bytes_body header_body_def record_access)

lemma header_bytes_fields:
  "read_u16 (header_bytes s) 4 = 1" "read_u16 (header_bytes s) 6 = 32" "read_u16 (header_bytes s) 8 = 40"
  "read_u16 (header_bytes s) 10 = 0" "read_u16 (header_bytes s) 26 = 0"
  "read_u32 (header_bytes s) 12 = NUMERIC_CONTRACT_ID" "read_u32 (header_bytes s) 16 = scenario_id s"
  "read_u32 (header_bytes s) 20 = timestep s" "read_u16 (header_bytes s) 24 = telemetry_stride s"
  "crc32_ieee (take 28 (header_bytes s)) = read_u32 (header_bytes s) 28"
  by (simp_all add: header_bytes_body header_body_def record_access)

lemma parse_header_bytes:
  "parse_telemetry_header (header_bytes s) =
     Inr \<lparr>numeric_contract_id = NUMERIC_CONTRACT_ID, header_scenario_id = scenario_id s,
          header_timestep = timestep s, header_stride = telemetry_stride s\<rparr>"
  by (simp add: parse_telemetry_header_def header_bytes_fields header_magic read_i32_def telemetry_lengths
      TELEMETRY_VERSION_def)

lemma parse_frame_sealed:
  "parse_telemetry_frame bytes = Inr f \<Longrightarrow>
     length bytes = 40 \<and> crc32_ieee (take 36 bytes) = read_u32 bytes 36"
  by (auto simp: parse_telemetry_frame_def telemetry_lengths Let_def split: if_splits)

lemma parse_header_sealed:
  "parse_telemetry_header bytes = Inr h \<Longrightarrow>
     length bytes = 32 \<and> crc32_ieee (take 28 bytes) = read_u32 bytes 28"
  by (auto simp: parse_telemetry_header_def telemetry_lengths split: if_splits)

subsection \<open>The contract of the codecs\<close>

text \<open>
  The frame codec round trips. Whatever the buffer held, writing succeeds exactly
  on buffers of 40 bytes, and what was written parses back to the same frame unless
  the frame carries reserved status or event bits, which the reader refuses.
\<close>
theorem telemetry_frame_roundtrip:
  "case write_telemetry_frame f output of
     Inl e \<Rightarrow> length output \<noteq> 40
   | Inr w \<Rightarrow> length output = 40 \<and> length w = 40 \<and> parse_telemetry_frame w =
       (if status f AND NOT 1 \<noteq> 0 then Inl StatusBits
        else if events f AND NOT 15 \<noteq> 0 then Inl EventBits else Inr f)"
proof (cases "length output = 40")
  case True
  then have "write_telemetry_frame f output = Inr (framed f output)"
    by (simp add: write_frame_body framed_def)
  with True show ?thesis by (simp add: parse_framed)
qed (simp add: write_telemetry_frame_def telemetry_lengths)

text \<open>
  The stream header round trips: the header written for a scenario is accepted by
  the reader that binds it to that scenario, with the identity, timestep and stride
  of the scenario.
\<close>
theorem telemetry_header_roundtrip:
  "write_telemetry_header s zeroed_header = Inr (header_bytes s)
   \<and> parse_telemetry_header_for_scenario (header_bytes s) s =
     Inr \<lparr>numeric_contract_id = NUMERIC_CONTRACT_ID, header_scenario_id = scenario_id s,
          header_timestep = timestep s, header_stride = telemetry_stride s\<rparr>"
  by (simp add: parse_telemetry_header_for_scenario_def parse_header_bytes)
     (simp add: header_bytes_body write_header_body)

text \<open>
  An accepted frame or header in which one byte is replaced is rejected.
\<close>
theorem telemetry_corruption_rejected:
  assumes "parse_telemetry_frame fb = Inr f" "i < 40" "b \<noteq> fb ! i"
    and "parse_telemetry_header hb = Inr h" "j < 32" "c \<noteq> hb ! j"
  shows "\<not> is_ok (parse_telemetry_frame (fb[i := b])) \<and> \<not> is_ok (parse_telemetry_header (hb[j := c]))"
proof
  show "\<not> is_ok (parse_telemetry_frame (fb[i := b]))"
    using crc32_record.corruption_detected [of 36 fb i b] parse_frame_sealed [OF assms(1)] assms(2,3)
      parse_frame_sealed by (auto simp: is_ok_iff)
  show "\<not> is_ok (parse_telemetry_header (hb[j := c]))"
    using crc32_record.corruption_detected [of 28 hb j c] parse_header_sealed [OF assms(4)] assms(5,6)
      parse_header_sealed by (auto simp: is_ok_iff)
qed

theorem telemetry_corruption_rejected_witness:
  "\<exists>fb hb. is_ok (parse_telemetry_frame fb) \<and> is_ok (parse_telemetry_header hb)
     \<and> \<not> is_ok (parse_telemetry_frame (fb[39 := NOT (fb ! 39)]))
     \<and> \<not> is_ok (parse_telemetry_header (hb[0 := NOT (hb ! 0)]))"
proof -
  let ?f = "from_truth (initial_truth reference_scenario) 0 0 0"
  have p: "parse_telemetry_frame (frame_bytes ?f) = Inr ?f"
    by (simp add: frame_bytes_framed parse_framed from_truth_def)
  have ne: "NOT x \<noteq> x" for x :: u8
  proof
    assume "NOT x = x"
    then have "bit (NOT x) 0 = bit x 0" by simp
    then show False by (simp add: bit_not_iff)
  qed
  show ?thesis
    by (rule exI [of _ "frame_bytes ?f"], rule exI [of _ "header_bytes reference_scenario"])
       (use telemetry_corruption_rejected [OF p _ ne parse_header_bytes _ ne, of 39 0] p parse_header_bytes
        in simp)
qed

subsection \<open>Recording sinks\<close>

text \<open>
  What the emitter needs of a sink so that a capture is complete: every write is
  accepted and appended to what is recorded.
\<close>

locale recording_sink =
  fixes write_header :: "('s, 'e) record_writer" and write_frame :: "('s, 'e) record_writer"
    and recorded :: "'s \<Rightarrow> u8 list"
  assumes header_recorded: "\<exists>snk'. write_header snk bytes = (Inr (), snk') \<and> recorded snk' = recorded snk @ bytes"
    and frame_recorded: "\<exists>snk'. write_frame snk bytes = (Inr (), snk') \<and> recorded snk' = recorded snk @ bytes"
begin

lemma emit_run:
  obtains snk where "recorded snk = recorded (sink self)
      @ frame_bytes (from_truth tr (from_engine_active active) ev ck)"
    "emit write_frame self tr active ev ck
      = (Inr (), self\<lparr>sink := snk, frames_written := frames_written self + 1\<rparr>)"
proof -
  let ?b = "frame_bytes (from_truth tr (from_engine_active active) ev ck)"
  obtain snk where "write_frame (sink self) ?b = (Inr (), snk)" "recorded snk = recorded (sink self) @ ?b"
    using frame_recorded by blast
  then show ?thesis
    using that [of snk] by (simp add: emit_def frame_bytes_def [symmetric])
qed

definition should_emit :: "u32 \<Rightarrow> MissionObservation \<Rightarrow> bool" where
  "should_emit str ob \<longleftrightarrow> VerticalTruthState.step (obs_truth ob) = 0
     \<or> VerticalTruthState.step (obs_truth ob) div str * str = VerticalTruthState.step (obs_truth ob)
     \<or> obs_end_of_run ob"

lemma observe_run:
  obtains self' where "emitter_observe write_frame self ob = (Inr (), self')" "stride self' = stride self"
    "let ev = pending_events self OR new_events (obs_engine_cutoff ob) (obs_propellant_depleted ob) False
           (obs_end_of_run ob)
     in if should_emit (stride self) ob
        then recorded (sink self') = recorded (sink self) @ frame_bytes (from_truth (obs_truth ob)
               (from_engine_active (obs_engine_active ob)) ev (obs_checksum ob))
             \<and> pending_events self' = NONE \<and> frames_written self' = frames_written self + 1
        else recorded (sink self') = recorded (sink self) \<and> pending_events self' = ev
             \<and> frames_written self' = frames_written self"
proof -
  define ev where "ev = pending_events self OR new_events (obs_engine_cutoff ob)
    (obs_propellant_depleted ob) False (obs_end_of_run ob)"
  show ?thesis
  proof (cases "should_emit (stride self) ob")
    case True
    obtain snk where snk: "recorded snk = recorded (sink (self\<lparr>pending_events := ev\<rparr>))
        @ frame_bytes (from_truth (obs_truth ob) (from_engine_active (obs_engine_active ob)) ev (obs_checksum ob))"
      "emit write_frame (self\<lparr>pending_events := ev\<rparr>) (obs_truth ob) (obs_engine_active ob) ev (obs_checksum ob)
        = (Inr (), (self\<lparr>pending_events := ev\<rparr>)\<lparr>sink := snk,
             frames_written := frames_written (self\<lparr>pending_events := ev\<rparr>) + 1\<rparr>)"
      by (rule emit_run)
    show ?thesis
      by (rule that [of "self\<lparr>pending_events := NONE, sink := snk, frames_written := frames_written self + 1\<rparr>"])
         (use True snk in \<open>simp_all add: emitter_observe_def Let_def should_emit_def ev_def\<close>)
  next
    case False
    show ?thesis
      by (rule that [of "self\<lparr>pending_events := ev\<rparr>"])
         (use False in \<open>simp_all add: emitter_observe_def Let_def should_emit_def ev_def\<close>)
  qed
qed

end

sublocale recording_sink \<subseteq> emitter: accepting_observer "emitter_observe write_frame" "\<lambda>_. True"
  by unfold_locales (use observe_run in blast)

end
