(* ===== verification/Stream_Capture.thy ===== *)
theory Stream_Capture
  imports Telemetry
begin

text \<open>
  Capturing and inspecting telemetry streams on the host (\<^verbatim>\<open>host/src/lib.rs\<close>): the sink
  that writes records to a byte writer, and the inspector that decodes a captured
  stream and checks it against its scenario. The theorem that closes the circle:
  whatever a valid mission does, its captured stream passes the inspection.
\<close>

unbundle bit_operations_syntax

subsection \<open>The writer sink\<close>

type_synonym ('w, 'e) write_all = "'w \<Rightarrow> u8 list \<Rightarrow> ('e + unit) \<times> 'w"

record 'w WriterTelemetrySink =
  writer :: 'w
  sink_frames_written :: u32
  sink_bytes_written :: nat

definition new_writer_sink :: "'w \<Rightarrow> 'w WriterTelemetrySink" where
  "new_writer_sink w = \<lparr>writer = w, sink_frames_written = 0, sink_bytes_written = 0\<rparr>"

definition writer_write_header :: "('w, 'e) write_all \<Rightarrow> ('w WriterTelemetrySink, 'e) record_writer" where
  "writer_write_header write_all self header =
     (case write_all (writer self) header of
        (Inl e, w) \<Rightarrow> (Inl e, self\<lparr>writer := w\<rparr>)
      | (Inr u, w) \<Rightarrow>
          (Inr (), self\<lparr>writer := w, sink_bytes_written := sink_bytes_written self + length header\<rparr>))"

definition writer_write_frame :: "('w, 'e) write_all \<Rightarrow> ('w WriterTelemetrySink, 'e) record_writer" where
  "writer_write_frame write_all self frame =
     (case write_all (writer self) frame of
        (Inl e, w) \<Rightarrow> (Inl e, self\<lparr>writer := w\<rparr>)
      | (Inr u, w) \<Rightarrow>
          (Inr (), self\<lparr>writer := w, sink_frames_written := sink_frames_written self + 1,
                    sink_bytes_written := sink_bytes_written self + length frame\<rparr>))"

definition capture_mission :: "('w, 'e) write_all \<Rightarrow> Scenario \<Rightarrow> 'w
    \<Rightarrow> ('e TelemetryMissionFailure + TelemetryMissionSummary) \<times> 'w" where
  "capture_mission write_all scenario w =
     (let (result, snk) = run_vertical_mission_with_telemetry (writer_write_header write_all)
            (writer_write_frame write_all) scenario (new_writer_sink w)
      in (result, writer snk))"

text \<open>The writer of an in-memory capture: a byte vector, which accepts every write.\<close>

definition vec_write_all :: "(u8 list, 'e) write_all" where
  "vec_write_all v bytes = (Inr (), v @ bytes)"

subsection \<open>The inspector\<close>

datatype StreamInspectionError = Framing | Empty | Header TelemetryReadError
  | Frame nat TelemetryReadError | InitialStep | InitialFrame | StepRange nat | StepOrder nat
  | Stride nat | MissionTime nat | NumericFaultWithoutEnd nat | TerminalBeforeEnd nat
  | MissingTerminal | SuccessfulEndStep

record StreamInspection =
  header :: TelemetryHeader
  frame_count :: nat
  stream_bytes :: nat
  stream_crc32 :: u32
  first_frame :: TelemetryFrame
  final_frame :: TelemetryFrame
  cutoff_event_frames :: u32
  depletion_event_frames :: u32
  numeric_fault_event_frames :: u32

record InspectionState =
  first_seen :: "TelemetryFrame option"
  final_seen :: "TelemetryFrame option"
  prior_step :: u32
  cutoffs_seen :: u32
  depletions_seen :: u32
  faults_seen :: u32

definition inspect_frame :: "Scenario \<Rightarrow> TelemetryHeader \<Rightarrow> nat \<Rightarrow> nat \<Rightarrow> InspectionState \<Rightarrow> TelemetryFrame
    \<Rightarrow> StreamInspectionError + InspectionState" where
  "inspect_frame scenario hdr count index st frame =
     (let ev = events frame;
          terminal = (ev AND END_OF_RUN \<noteq> 0);
          numeric_fault = (ev AND NUMERIC_FAULT \<noteq> 0);
          first_checks =
            (if index = 0
             then if step frame \<noteq> 0 then Inl InitialStep
                  else
                  let init = initial scenario;
                      expected_engine_active = (0 <s InitialConditions.propellant init
                        \<and> 0 <s burn_duration (vehicle scenario))
                  in if time frame \<noteq> 0
                        \<or> altitude frame \<noteq> InitialConditions.altitude init
                        \<or> velocity frame \<noteq> InitialConditions.velocity init
                        \<or> acceleration frame \<noteq> 0
                        \<or> total_mass frame \<noteq> InitialConditions.total_mass init
                        \<or> propellant frame \<noteq> InitialConditions.propellant init
                        \<or> status frame \<noteq> of_bool expected_engine_active
                        \<or> ev \<noteq> 0
                        \<or> state_checksum frame \<noteq> VERTICAL_CHECKSUM_OFFSET
                     then Inl InitialFrame
                     else Inr (st\<lparr>first_seen := Some frame\<rparr>)
             else
             let repeated_fault_truth = (terminal \<and> numeric_fault \<and> step frame = prior_step st)
             in if step frame \<le> prior_step st \<and> \<not> repeated_fault_truth then Inl (StepOrder index)
                else
                let str = ucast (header_stride hdr);
                    stride_aligned = (step frame div str * str = step frame)
                in if \<not> terminal \<and> \<not> stride_aligned then Inl (Stride index) else Inr st)
      in and_then first_checks (\<lambda>st.
         if steps scenario < step frame then Inl (StepRange index)
         else
         let expected_time = sint (header_timestep hdr) * uint (step frame)
         in if expected_time \<noteq> sint (time frame) then Inl (MissionTime index)
         else if numeric_fault \<and> \<not> terminal then Inl (NumericFaultWithoutEnd index)
         else if terminal \<and> index + 1 \<noteq> count then Inl (TerminalBeforeEnd index)
         else Inr (st\<lparr>cutoffs_seen := cutoffs_seen st + of_bool (ev AND ENGINE_CUTOFF \<noteq> 0),
                      depletions_seen := depletions_seen st + of_bool (ev AND PROPELLANT_DEPLETED \<noteq> 0),
                      faults_seen := faults_seen st + of_bool numeric_fault,
                      prior_step := step frame, final_seen := Some frame\<rparr>)))"

function inspect_loop :: "u8 list \<Rightarrow> Scenario \<Rightarrow> TelemetryHeader \<Rightarrow> nat \<Rightarrow> nat \<Rightarrow> InspectionState
    \<Rightarrow> StreamInspectionError + InspectionState" where
  "inspect_loop stream scenario hdr count index st =
     (if index < count
      then
      let start = TELEMETRY_HEADER_LENGTH + index * TELEMETRY_FRAME_LENGTH
      in and_then (map_err (Frame index)
             (parse_telemetry_frame (take TELEMETRY_FRAME_LENGTH (drop start stream))))
           (\<lambda>frame. and_then (inspect_frame scenario hdr count index st frame)
              (\<lambda>st. inspect_loop stream scenario hdr count (index + 1) st))
      else Inr st)"
  by pat_completeness auto
termination
  by (relation "measure (\<lambda>(_, _, _, count, index, _). count - index)") auto

declare inspect_loop.simps [simp del]

definition inspect_stream :: "u8 list \<Rightarrow> Scenario \<Rightarrow> StreamInspectionError + StreamInspection" where
  "inspect_stream stream scenario =
     (let payload_length = length stream - TELEMETRY_HEADER_LENGTH;
          complete_frames = payload_length div TELEMETRY_FRAME_LENGTH * TELEMETRY_FRAME_LENGTH
      in if length stream < TELEMETRY_HEADER_LENGTH \<or> complete_frames \<noteq> payload_length then Inl Framing
      else
      let count = (length stream - TELEMETRY_HEADER_LENGTH) div TELEMETRY_FRAME_LENGTH
      in if count = 0 then Inl Empty
      else and_then (map_err StreamInspectionError.Header
             (parse_telemetry_header_for_scenario (take TELEMETRY_HEADER_LENGTH stream) scenario))
      (\<lambda>hdr. and_then (inspect_loop stream scenario hdr count 0
             \<lparr>first_seen = None, final_seen = None, prior_step = 0, cutoffs_seen = 0,
              depletions_seen = 0, faults_seen = 0\<rparr>)
      (\<lambda>st. case first_seen st of
          None \<Rightarrow> Inl Empty
        | Some first \<Rightarrow>
          (case final_seen st of
             None \<Rightarrow> Inl Empty
           | Some final \<Rightarrow>
             if events final AND END_OF_RUN = 0 then Inl MissingTerminal
             else if events final AND NUMERIC_FAULT = 0 \<and> step final \<noteq> steps scenario
             then Inl SuccessfulEndStep
             else Inr \<lparr>header = hdr, frame_count = count, stream_bytes = length stream,
                       stream_crc32 = crc32_ieee stream, first_frame = first, final_frame = final,
                       cutoff_event_frames = cutoffs_seen st,
                       depletion_event_frames = depletions_seen st,
                       numeric_fault_event_frames = faults_seen st\<rparr>))))"

subsection \<open>The vector sink records\<close>

interpretation vec_sink: recording_sink "writer_write_header vec_write_all"
  "writer_write_frame vec_write_all" writer
  by unfold_locales (simp_all add: writer_write_header_def writer_write_frame_def vec_write_all_def)

subsection \<open>Well-formed frame sequences\<close>

definition aligned :: "Scenario \<Rightarrow> TelemetryFrame \<Rightarrow> bool" where
  "aligned s fr \<longleftrightarrow> step fr div ucast (telemetry_stride s) * ucast (telemetry_stride s) = step fr"

definition timed :: "Scenario \<Rightarrow> TelemetryFrame \<Rightarrow> bool" where
  "timed s fr \<longleftrightarrow> step fr \<le> steps s \<and> sint (timestep s) * uint (step fr) = sint (time fr)
     \<and> status fr AND NOT 1 = 0"

definition plain_frame :: "Scenario \<Rightarrow> TelemetryFrame \<Rightarrow> bool" where
  "plain_frame s fr \<longleftrightarrow> timed s fr \<and> aligned s fr \<and> events fr AND NOT 3 = 0"

definition initial_frame :: "Scenario \<Rightarrow> TelemetryFrame" where
  "initial_frame s = from_truth (initial_truth s)
     (from_engine_active (mission_engine_active s (initial_truth s))) 0 VERTICAL_CHECKSUM_OFFSET"

definition partial_stream :: "Scenario \<Rightarrow> TelemetryFrame list \<Rightarrow> u32 \<Rightarrow> bool" where
  "partial_stream s fs n \<longleftrightarrow> fs \<noteq> [] \<and> hd fs = initial_frame s \<and> (\<forall>fr \<in> set fs. plain_frame s fr)
     \<and> sorted_wrt (<) (map step fs) \<and> step (last fs) \<le> n"

definition terminal_frame :: "Scenario \<Rightarrow> TelemetryFrame list \<Rightarrow> TelemetryFrame \<Rightarrow> bool" where
  "terminal_frame s fs fr \<longleftrightarrow> timed s fr \<and> events fr AND NOT 15 = 0 \<and> events fr AND 8 \<noteq> 0
     \<and> (if events fr AND 4 = 0 then step fr = steps s \<and> step (last fs) < step fr
        else step (last fs) \<le> step fr)"

subsection \<open>The inspector accepts them\<close>

lemma frame_slice:
  assumes "index < length fs" "length hb = 32"
  shows "take 40 (drop (32 + index * 40) (hb @ concat (map frame_bytes fs))) = frame_bytes (fs ! index)"
  using assms
proof (induction fs arbitrary: index)
  case (Cons f fs)
  show ?case
  proof (cases index)
    case (Suc k)
    then have "32 + index * 40 = length (hb @ frame_bytes f) + k * 40" using Cons.prems by simp
    moreover have "take 40 (drop (k * 40) (concat (map frame_bytes fs))) = frame_bytes (fs ! k)"
      using Cons.IH [of k] Cons.prems Suc by simp
    ultimately show ?thesis using Suc Cons.prems by (simp add: add.commute)
  qed (use Cons.prems in simp)
qed simp

lemma and_submask:
  fixes x m n :: u16
  assumes "x AND m = 0" "m AND n = n"
  shows "x AND n = 0"
proof -
  have "x AND n = (x AND m) AND n" using assms(2) by (simp only: and.assoc)
  then show ?thesis using assms(1) by simp
qed

lemma plain_bits:
  fixes x :: u16
  assumes "x AND NOT 3 = 0"
  shows "x AND 4 = 0" "x AND 8 = 0" "x AND NOT 15 = 0"
  using and_submask [OF assms, of 4] and_submask [OF assms, of 8] and_submask [OF assms, of "NOT 15"]
  by simp_all

lemma parse_timed:
  "timed s fr \<Longrightarrow> events fr AND NOT 15 = 0 \<Longrightarrow> parse_telemetry_frame (frame_bytes fr) = Inr fr"
  by (simp add: timed_def frame_bytes_framed parse_framed)

definition header_of :: "Scenario \<Rightarrow> TelemetryHeader" where
  "header_of s = \<lparr>numeric_contract_id = NUMERIC_CONTRACT_ID, header_scenario_id = scenario_id s,
     header_timestep = timestep s, header_stride = telemetry_stride s\<rparr>"

lemma inspect_initial:
  assumes "valid_scenario s" "count \<noteq> 0"
  shows "\<exists>st'. inspect_frame s (header_of s) count 0 st (initial_frame s) = Inr st'
     \<and> first_seen st' = Some (initial_frame s) \<and> final_seen st' = Some (initial_frame s) \<and> prior_step st' = 0"
  by (simp add: inspect_frame_def initial_frame_def from_truth_def initial_truth_def header_of_def
      mission_engine_active_def from_engine_active_def telemetry_flags Let_def)

lemma inspect_plain:
  assumes "plain_frame s fr" "index \<noteq> 0" "prior_step st < step fr"
  shows "\<exists>st'. inspect_frame s (header_of s) count index st fr = Inr st'
     \<and> first_seen st' = first_seen st \<and> final_seen st' = Some fr \<and> prior_step st' = step fr"
  using assms plain_bits [of "events fr"]
  by (simp add: inspect_frame_def plain_frame_def timed_def aligned_def header_of_def telemetry_flags
      Let_def) (auto simp: not_le)

lemma inspect_terminal:
  assumes "timed s fr" "events fr AND 8 \<noteq> 0" "index \<noteq> 0" "index + 1 = count"
    and "if events fr AND 4 = 0 then prior_step st < step fr else prior_step st \<le> step fr"
  shows "\<exists>st'. inspect_frame s (header_of s) count index st fr = Inr st'
     \<and> first_seen st' = first_seen st \<and> final_seen st' = Some fr \<and> prior_step st' = step fr"
  using assms
  by (auto simp: inspect_frame_def timed_def header_of_def telemetry_flags Let_def split: if_splits)

lemma inspect_loop_accepts:
  assumes p: "partial_stream s gs n" and t: "terminal_frame s gs fr" and hb: "length hb = 32"
  shows "0 < index \<Longrightarrow> index \<le> length gs \<Longrightarrow> prior_step st = step (gs ! (index - 1)) \<Longrightarrow>
    \<exists>st'. inspect_loop (hb @ concat (map frame_bytes (gs @ [fr]))) s (header_of s) (length gs + 1) index st
        = Inr st' \<and> first_seen st' = first_seen st \<and> final_seen st' = Some fr"
proof (induction "length gs - index" arbitrary: index st)
  case 0
  let ?h = "hb @ concat (map frame_bytes (gs @ [fr]))"
  have i: "index = length gs" using 0 by simp
  have last: "step (last gs) = prior_step st" using 0 i by (simp add: last_conv_nth)
  have "take 40 (drop (32 + index * 40) ?h) = frame_bytes fr"
    using frame_slice [of index "gs @ [fr]" hb] hb i by simp
  moreover have "parse_telemetry_frame (frame_bytes fr) = Inr fr"
    using t by (intro parse_timed [of s]) (simp_all add: terminal_frame_def)
  moreover obtain st' where st': "inspect_frame s (header_of s) (length gs + 1) index st fr = Inr st'"
    "first_seen st' = first_seen st" "final_seen st' = Some fr"
    using inspect_terminal [of s fr index "length gs + 1" st] t i 0 last
    by (auto simp: terminal_frame_def split: if_splits)
  moreover have "inspect_loop ?h s (header_of s) (length gs + 1) (index + 1) st' = Inr st'"
    using i by (subst inspect_loop.simps) simp
  ultimately show ?case
    using i by (subst inspect_loop.simps) (simp add: telemetry_lengths)
next
  case (Suc k)
  let ?h = "hb @ concat (map frame_bytes (gs @ [fr]))"
  have i: "index < length gs" and k: "k = length gs - Suc index" using Suc.hyps(2) by simp_all
  have pl: "plain_frame s (gs ! index)" using p i by (auto simp: partial_stream_def)
  have "sorted_wrt (<) (map step gs)" using p by (simp add: partial_stream_def)
  then have lt: "prior_step st < step (gs ! index)"
    using sorted_wrt_nth_less [of "(<)" "map step gs" "index - 1" index] i Suc.prems by simp
  have "take 40 (drop (32 + index * 40) ?h) = frame_bytes (gs ! index)"
    using frame_slice [of index "gs @ [fr]" hb] hb i by (simp add: nth_append)
  moreover have "parse_telemetry_frame (frame_bytes (gs ! index)) = Inr (gs ! index)"
    using pl plain_bits(3) by (intro parse_timed [of s]) (simp_all add: plain_frame_def)
  moreover obtain st' where st': "inspect_frame s (header_of s) (length gs + 1) index st (gs ! index) = Inr st'"
    "first_seen st' = first_seen st" "prior_step st' = step (gs ! index)"
    using inspect_plain [OF pl _ lt] Suc.prems(1) by blast
  moreover obtain st'' where "inspect_loop ?h s (header_of s) (length gs + 1) (index + 1) st' = Inr st''"
    "first_seen st'' = first_seen st'" "final_seen st'' = Some fr"
    using Suc.hyps(1) [of "index + 1" st'] k i st'(3) by auto
  ultimately show ?case
    using i by (subst inspect_loop.simps) (simp add: telemetry_lengths)
qed

lemma inspect_stream_accepts:
  assumes v: "valid_scenario s" and p: "partial_stream s gs n" and t: "terminal_frame s gs fr"
  shows "\<exists>i. inspect_stream (header_bytes s @ concat (map frame_bytes (gs @ [fr]))) s = Inr i
     \<and> first_frame i = initial_frame s \<and> final_frame i = fr \<and> frame_count i = length gs + 1"
proof -
  let ?h = "header_bytes s @ concat (map frame_bytes (gs @ [fr]))"
  let ?st = "\<lparr>first_seen = None, final_seen = None, prior_step = 0, cutoffs_seen = 0,
    depletions_seen = 0, faults_seen = 0\<rparr>"
  have ne: "gs \<noteq> []" "gs ! 0 = initial_frame s"
    using p hd_conv_nth [of gs] by (auto simp: partial_stream_def)
  have "length (concat (map frame_bytes fs)) = length fs * 40" for fs by (induction fs) simp_all
  then have len: "length ?h = 32 + (length gs + 1) * 40" by simp
  have hdr: "parse_telemetry_header_for_scenario (take 32 ?h) s = Inr (header_of s)"
    by (simp add: parse_telemetry_header_for_scenario_def parse_header_bytes header_of_def)
  have s0: "take 40 (drop 32 ?h) = frame_bytes (initial_frame s)"
    using frame_slice [of 0 "gs @ [fr]" "header_bytes s"] ne by (simp add: nth_append)
  have "plain_frame s (initial_frame s)"
    using p list.set_sel(1) [of gs] by (auto simp: partial_stream_def)
  then have p0: "parse_telemetry_frame (frame_bytes (initial_frame s)) = Inr (initial_frame s)"
    using plain_bits(3) by (intro parse_timed [of s]) (simp_all add: plain_frame_def)
  obtain st1 where st1: "inspect_frame s (header_of s) (length gs + 1) 0 ?st (initial_frame s) = Inr st1"
    "first_seen st1 = Some (initial_frame s)" "prior_step st1 = 0"
    using inspect_initial [OF v, of "length gs + 1" ?st] by auto
  have pr: "prior_step st1 = step (gs ! (1 - 1))"
    by (simp add: st1(3) ne(2) initial_frame_def from_truth_def initial_truth_def)
  obtain st2 where st2: "inspect_loop ?h s (header_of s) (length gs + 1) 1 st1 = Inr st2"
    "first_seen st2 = Some (initial_frame s)" "final_seen st2 = Some fr"
    using inspect_loop_accepts [OF p t length_header_bytes _ _ pr] ne(1) st1(2)
    by (auto simp: Suc_le_eq)
  have loop: "inspect_loop ?h s (header_of s) (length gs + 1) 0 ?st = Inr st2"
    using s0 p0 st1(1) st2(1) by (subst inspect_loop.simps) (simp add: telemetry_lengths)
  show ?thesis
    using len hdr loop st2(2,3) t
    by (simp add: inspect_stream_def telemetry_lengths telemetry_flags terminal_frame_def Let_def
        split: if_splits)
qed

subsection \<open>The emitter produces them\<close>

lemma event_bits:
  fixes pend :: u16
  assumes "pend AND NOT 3 = 0"
  shows "(pend OR new_events c d False False) AND NOT 3 = 0"
    "(pend OR new_events c d False True) AND NOT 15 = 0"
    "(pend OR new_events c d False True) AND 8 \<noteq> 0" "(pend OR new_events c d False True) AND 4 = 0"
    "(pend OR new_events False False True True) AND NOT 15 = 0"
    "(pend OR new_events False False True True) AND 8 \<noteq> 0"
    "(pend OR new_events False False True True) AND 4 \<noteq> 0"
  using assms plain_bits [OF assms]
  by (cases c; cases d; simp add: new_events_def telemetry_flags bit.conj_disj_distrib2 or_eq_0_iff)+

lemma status_bits: "from_engine_active a AND NOT 1 = 0"
  by (simp add: from_engine_active_def telemetry_flags)

lemma truth_frame_timed:
  assumes "truth_ok s tr"
  shows "timed s (from_truth tr (from_engine_active a) ev ck)"
  using assms by (simp add: timed_def from_truth_def truth_ok_def word_le_def mult.commute
      status_bits [simplified])

lemma initial_partial:
  assumes "valid_scenario s"
  shows "partial_stream s [initial_frame s] 0"
  using truth_frame_timed [OF initial_truth_ok [OF assms]]
  by (simp add: partial_stream_def plain_frame_def initial_frame_def aligned_def from_truth_def initial_truth_def)

lemma partial_extend:
  assumes "partial_stream s fs n" "plain_frame s fr" "n < step fr"
  shows "partial_stream s (fs @ [fr]) (step fr)"
proof -
  have "step f \<le> step (last fs)" if f: "f \<in> set fs" for f
  proof -
    obtain i where "i < length fs" "f = fs ! i" using f by (auto simp: in_set_conv_nth)
    moreover have "fs \<noteq> []" using f by auto
    ultimately have "i = length fs - 1 \<or> i < length fs - 1" "f = fs ! i" "last fs = fs ! (length fs - 1)"
      by (auto simp: last_conv_nth)
    then show ?thesis
      using assms(1) sorted_wrt_nth_less [of "(<)" "map step fs" i "length fs - 1"]
      by (auto simp: partial_stream_def)
  qed
  then have "step f < step fr" if "f \<in> set fs" for f
    using that assms(1,3) by (fastforce simp: partial_stream_def)
  then show ?thesis using assms(1,2) by (auto simp: partial_stream_def sorted_wrt_append)
qed

context recording_sink
begin

definition captured :: "u8 list \<Rightarrow> Scenario \<Rightarrow> TelemetryFrame list \<Rightarrow> 's MissionTelemetryEmitter \<Rightarrow> u32 \<Rightarrow> bool" where
  "captured pre s fs obs n \<longleftrightarrow> partial_stream s fs n
     \<and> recorded (sink obs) = pre @ concat (map frame_bytes fs)
     \<and> stride obs = ucast (telemetry_stride s) \<and> pending_events obs AND NOT 3 = 0
     \<and> frames_written obs = of_nat (length fs)"

lemma observe_successor:
  assumes "captured pre s fs obs n" "truth_ok s (obs_truth ob)"
    and "n < VerticalTruthState.step (obs_truth ob)" "\<not> obs_end_of_run ob"
  obtains obs' fs' where "emitter_observe write_frame obs ob = (Inr (), obs')"
    "captured pre s fs' obs' (VerticalTruthState.step (obs_truth ob))"
proof -
  define ev where "ev = pending_events obs OR new_events (obs_engine_cutoff ob) (obs_propellant_depleted ob) False False"
  define fr where "fr = from_truth (obs_truth ob) (from_engine_active (obs_engine_active ob)) ev (obs_checksum ob)"
  have ev: "ev AND NOT 3 = 0" using assms(1) unfolding ev_def captured_def by (intro event_bits) simp
  have st: "step fr = VerticalTruthState.step (obs_truth ob)" "events fr = ev"
    by (simp_all add: fr_def from_truth_def)
  obtain obs' where o: "emitter_observe write_frame obs ob = (Inr (), obs')" "stride obs' = stride obs"
    "if should_emit (stride obs) ob
     then recorded (sink obs') = recorded (sink obs) @ frame_bytes fr
       \<and> pending_events obs' = NONE \<and> frames_written obs' = frames_written obs + 1
     else recorded (sink obs') = recorded (sink obs) \<and> pending_events obs' = ev
       \<and> frames_written obs' = frames_written obs"
    by (rule observe_run [of obs ob]) (use assms(4) in \<open>simp add: ev_def fr_def Let_def\<close>)
  show ?thesis
  proof (cases "should_emit (stride obs) ob")
    case True
    then have "plain_frame s fr"
      using assms truth_frame_timed [OF assms(2)] ev
      by (auto simp: plain_frame_def aligned_def st should_emit_def captured_def fr_def from_truth_def)
    then have "partial_stream s (fs @ [fr]) (step fr)"
      using assms(1,3) by (intro partial_extend [of s fs n]) (simp_all add: captured_def st)
    then show ?thesis
      using that [OF o(1), of "fs @ [fr]"] True o(2,3) assms(1)
      by (simp add: captured_def st NONE_def)
  next
    case False
    have "partial_stream s fs (VerticalTruthState.step (obs_truth ob))"
      using assms(1,3) by (auto simp: captured_def partial_stream_def)
    then show ?thesis using that [OF o(1), of fs] False o(2,3) assms(1) ev by (simp add: captured_def)
  qed
qed

lemma observe_end:
  assumes "captured pre s fs obs n" "truth_ok s (obs_truth ob)"
    and "n < VerticalTruthState.step (obs_truth ob)" "obs_end_of_run ob"
    and "VerticalTruthState.step (obs_truth ob) = steps s"
  obtains obs' fr where "emitter_observe write_frame obs ob = (Inr (), obs')"
    "terminal_frame s fs fr" "recorded (sink obs') = pre @ concat (map frame_bytes (fs @ [fr]))"
    "frames_written obs' = of_nat (length fs + 1)" "events fr AND NUMERIC_FAULT = 0"
    "\<exists>a ev. fr = from_truth (obs_truth ob) a ev (obs_checksum ob)"
proof -
  define ev where "ev = pending_events obs OR new_events (obs_engine_cutoff ob) (obs_propellant_depleted ob) False True"
  define fr where "fr = from_truth (obs_truth ob) (from_engine_active (obs_engine_active ob)) ev (obs_checksum ob)"
  have pend: "pending_events obs AND NOT 3 = 0" using assms(1) by (simp add: captured_def)
  have st: "step fr = VerticalTruthState.step (obs_truth ob)" "events fr = ev"
    by (simp_all add: fr_def from_truth_def)
  obtain obs' where o: "emitter_observe write_frame obs ob = (Inr (), obs')"
    "recorded (sink obs') = recorded (sink obs) @ frame_bytes fr" "frames_written obs' = frames_written obs + 1"
    by (rule observe_run [of obs ob]) (use assms(4) in \<open>simp add: ev_def fr_def Let_def should_emit_def\<close>)
  have "step (last fs) \<le> n" using assms(1) by (simp add: captured_def partial_stream_def)
  then have "terminal_frame s fs fr"
    using event_bits [OF pend] truth_frame_timed [OF assms(2)] assms(3,5)
    unfolding terminal_frame_def st(2) ev_def
    by (simp add: st(1)) (simp add: fr_def)
  then show ?thesis
    using that [OF o(1), of fr] o assms(1) event_bits(4) [OF pend] st(2)
    by (auto simp: captured_def ev_def NUMERIC_FAULT_def fr_def add.commute)
qed

lemma loop_captures:
  assumes "valid_scenario s"
  shows "reachable s tr \<Longrightarrow> VerticalTruthState.step tr < steps s
    \<Longrightarrow> captured pre s fs obs (VerticalTruthState.step tr) \<Longrightarrow>
    (case mission_loop True (emitter_observe write_frame) s tr ck k CLEAR obs of
      (Inr m, obs') \<Rightarrow> \<exists>gs n fr a ev. partial_stream s gs n \<and> terminal_frame s gs fr
        \<and> recorded (sink obs') = pre @ concat (map frame_bytes (gs @ [fr]))
        \<and> frames_written obs' = of_nat (length gs + 1) \<and> events fr AND NUMERIC_FAULT = 0
        \<and> fr = from_truth (ExecutionSummary.final_truth m) a ev (ExecutionSummary.checksum m)
    | (Inl (Dynamics f), obs') \<Rightarrow> \<exists>gs. truth_ok s (ExecutionFailure.last_truth f)
        \<and> captured pre s gs obs' (VerticalTruthState.step (ExecutionFailure.last_truth f))
    | (Inl (Observer e t c n), obs') \<Rightarrow> False)"
proof (induction "unat (steps s) - unat (VerticalTruthState.step tr)" arbitrary: tr ck k obs fs rule: less_induct)
  case less
  have ok: "truth_ok s tr" using reachable_truth_ok [OF assms less.prems(1)] .
  obtain q st where q: "run_state (advance_vertical_state s tr) CLEAR = (q, st)" by fastforce
  show ?case
  proof (cases q)
    case (Inl e)
    then show ?thesis
      using less.prems q ok by (subst mission_loop.simps) auto
  next
    case (Inr r)
    have run: "run_state (advance_vertical_state s tr) CLEAR = (Inr r, CLEAR)"
      using advance_exact [OF assms ok] less.prems(2) q Inr by (auto simp: word_less_def split: if_splits)
    have re: "reachable s (truth r)" using less.prems(1) run by (rule reachable.flight)
    have ok': "truth_ok s (truth r)" using reachable_truth_ok [OF assms re] .
    have nx: "VerticalTruthState.step tr < VerticalTruthState.step (truth r)"
      using advance_increments_step [OF run] uint_next [of "VerticalTruthState.step tr" "steps s"]
      by (simp add: word_less_def)
    define ck' where "ck' = hash_vertical_truth ck (truth r)"
    define k' where "k' = (if engine_cutoff r then k + 1 else k)"
    define ob where "ob = \<lparr>obs_truth = truth r, obs_checksum = ck',
        obs_engine_active = mission_engine_active s (truth r), obs_engine_cutoff = engine_cutoff r,
        obs_propellant_depleted = 0 <s VerticalTruthState.propellant tr
          \<and> VerticalTruthState.propellant (truth r) = 0,
        obs_end_of_run = VerticalTruthState.step (truth r) = steps s\<rparr>"
    have step: "mission_loop True (emitter_observe write_frame) s tr ck k CLEAR obs =
        mission_loop True (emitter_observe write_frame) s (truth r) ck' k' CLEAR obs'"
      if "emitter_observe write_frame obs ob = (Inr (), obs')" for obs'
      using that run less.prems(2)
      by (subst mission_loop.simps) (simp add: ob_def ck'_def k'_def Let_def)
    show ?thesis
    proof (cases "VerticalTruthState.step (truth r) = steps s")
      case True
      obtain obs' fr where o: "emitter_observe write_frame obs ob = (Inr (), obs')" "terminal_frame s fs fr"
        "recorded (sink obs') = pre @ concat (map frame_bytes (fs @ [fr]))"
        "frames_written obs' = of_nat (length fs + 1)" "events fr AND NUMERIC_FAULT = 0"
        "\<exists>a ev. fr = from_truth (truth r) a ev ck'"
        by (rule observe_end [OF less.prems(3), of ob]) (use True nx ok' in \<open>simp_all add: ob_def\<close>)
      have "mission_loop True (emitter_observe write_frame) s (truth r) ck' k' CLEAR obs' =
          (Inr \<lparr>ExecutionSummary.final_truth = truth r, checksum = ck', cutoff_events = k'\<rparr>, obs')"
        using True by (subst mission_loop.simps) simp
      then show ?thesis
        using step [OF o(1)] o(2-6) less.prems(3) by (auto simp: captured_def)
    next
      case False
      then have lt: "VerticalTruthState.step (truth r) < steps s"
        using ok' by (simp add: truth_ok_def word_less_def word_uint_eq_iff)
      obtain obs' fs' where o: "emitter_observe write_frame obs ob = (Inr (), obs')"
        "captured pre s fs' obs' (VerticalTruthState.step (truth r))"
        by (rule observe_successor [OF less.prems(3), of ob]) (use False nx ok' in \<open>simp_all add: ob_def\<close>)
      show ?thesis
        unfolding step [OF o(1)] by (rule less.hyps [OF advance_decreases [OF run] re lt o(2)])
    qed
  qed
qed

lemma start_captured:
  assumes v: "valid_scenario s"
    and obs: "recorded (sink obs) = pre" "stride obs = ucast (telemetry_stride s)"
      "pending_events obs = NONE" "frames_written obs = 0"
  obtains obs' where "captured pre s [initial_frame s] obs' 0"
    "execute_vertical_mission True (emitter_observe write_frame) s obs =
       mission_loop True (emitter_observe write_frame) s (initial_truth s) VERTICAL_CHECKSUM_OFFSET 0 CLEAR obs'"
proof -
  define ob where "ob = \<lparr>obs_truth = initial_truth s, obs_checksum = VERTICAL_CHECKSUM_OFFSET,
    obs_engine_active = mission_engine_active s (initial_truth s), obs_engine_cutoff = False,
    obs_propellant_depleted = False, obs_end_of_run = False\<rparr>"
  have ev: "NONE OR new_events False False False False = 0"
    by (simp add: NONE_def new_events_def)
  have emits: "should_emit (stride obs) ob" by (simp add: should_emit_def ob_def initial_truth_def)
  obtain obs' where o: "emitter_observe write_frame obs ob = (Inr (), obs')" "stride obs' = stride obs"
    "recorded (sink obs') = recorded (sink obs) @ frame_bytes (initial_frame s)"
    "pending_events obs' = NONE" "frames_written obs' = frames_written obs + 1"
    by (rule observe_run [of obs ob])
       (use emits ev obs(3) in \<open>simp add: Let_def initial_frame_def, simp add: ob_def\<close>)
  have "captured pre s [initial_frame s] obs' 0"
    using o obs initial_partial [OF v] by (simp add: captured_def NONE_def)
  moreover have "execute_vertical_mission True (emitter_observe write_frame) s obs =
       mission_loop True (emitter_observe write_frame) s (initial_truth s) VERTICAL_CHECKSUM_OFFSET 0 CLEAR obs'"
    using o(1) by (simp add: execute_vertical_mission_def ob_def)
  ultimately show ?thesis by (rule that)
qed

lemma fault_frame:
  assumes "captured pre s gs obs (VerticalTruthState.step (MissionFailure.last_truth f))"
    and "truth_ok s (MissionFailure.last_truth f)"
  obtains obs' fr where "emit_fault write_frame obs s f = (Inr (), obs')" "terminal_frame s gs fr"
    "recorded (sink obs') = pre @ concat (map frame_bytes (gs @ [fr]))"
    "events fr AND NUMERIC_FAULT \<noteq> 0" "frames_written obs' = of_nat (length gs + 1)"
    "\<exists>a ev. fr = from_truth (MissionFailure.last_truth f) a ev (MissionFailure.checksum f)"
proof -
  define ev where "ev = pending_events obs OR new_events False False True True"
  define active where "active \<longleftrightarrow> 0 <s VerticalTruthState.propellant (MissionFailure.last_truth f)
    \<and> VerticalTruthState.time (MissionFailure.last_truth f) <s burn_duration (vehicle s)"
  define fr where "fr = from_truth (MissionFailure.last_truth f) (from_engine_active active) ev
    (MissionFailure.checksum f)"
  have pend: "pending_events obs AND NOT 3 = 0" using assms(1) by (simp add: captured_def)
  have st: "step fr = VerticalTruthState.step (MissionFailure.last_truth f)" "events fr = ev"
    by (simp_all add: fr_def from_truth_def)
  obtain snk where snk: "recorded snk = recorded (sink obs) @ frame_bytes fr"
    "emit write_frame obs (MissionFailure.last_truth f) active ev (MissionFailure.checksum f)
      = (Inr (), obs\<lparr>sink := snk, frames_written := frames_written obs + 1\<rparr>)"
    unfolding fr_def by (rule emit_run)
  have "terminal_frame s gs fr"
    using assms event_bits(5-7) [OF pend] truth_frame_timed [OF assms(2)]
    unfolding terminal_frame_def st(2) ev_def captured_def partial_stream_def
    by (simp add: st(1)) (simp add: fr_def)
  then show ?thesis
    using that [of _ fr] snk assms(1) event_bits(7) [OF pend] st(2)
    by (auto simp: emit_fault_def active_def [symmetric] ev_def [symmetric] Let_def captured_def
        NUMERIC_FAULT_def fr_def)
qed

definition complete_capture :: "u8 list \<Rightarrow> Scenario \<Rightarrow> 's \<Rightarrow> VerticalTruthState \<Rightarrow> u32 \<Rightarrow> bool \<Rightarrow> u32 \<Rightarrow> bool" where
  "complete_capture pre s snk tr ck failed n \<longleftrightarrow> (\<exists>gs m fr a ev. partial_stream s gs m \<and> terminal_frame s gs fr
     \<and> recorded snk = pre @ concat (map frame_bytes (gs @ [fr])) \<and> n = of_nat (length gs + 1)
     \<and> (events fr AND NUMERIC_FAULT \<noteq> 0 \<longleftrightarrow> failed) \<and> fr = from_truth tr a ev ck)"

lemma telemetry_run:
  assumes v: "valid_scenario s"
  shows "case run_vertical_mission_with_telemetry write_header write_frame s snk of
      (Inr m, snk') \<Rightarrow> run_vertical_mission s = Inr (mission m)
        \<and> complete_capture (recorded snk @ header_bytes s) s snk' (MissionSummary.final_truth (mission m))
            (MissionSummary.checksum (mission m)) False (summary_frames m)
    | (Inl (Simulation f written n), snk') \<Rightarrow> written \<and> run_vertical_mission s = Inl f
        \<and> complete_capture (recorded snk @ header_bytes s) s snk' (MissionFailure.last_truth f)
            (MissionFailure.checksum f) True n
    | _ \<Rightarrow> False"
proof -
  let ?pre = "recorded snk @ header_bytes s"
  obtain snk1 where h: "write_header snk (header_bytes s) = (Inr (), snk1)" "recorded snk1 = ?pre"
    using header_recorded by blast
  define em where "em = \<lparr>sink = snk1, stride = ucast (telemetry_stride s), pending_events = NONE,
    frames_written = 0\<rparr>"
  obtain obs where o: "captured ?pre s [initial_frame s] obs 0"
    "execute_vertical_mission True (emitter_observe write_frame) s em =
       mission_loop True (emitter_observe write_frame) s (initial_truth s) VERTICAL_CHECKSUM_OFFSET 0 CLEAR obs"
    by (rule start_captured [OF v, of em ?pre]) (simp_all add: em_def h(2))
  have lt: "VerticalTruthState.step (initial_truth s) < steps s"
    using v by (simp add: initial_truth_def valid_scenario_def word_less_def)
  have cap0: "captured ?pre s [initial_frame s] obs (VerticalTruthState.step (initial_truth s))"
    using o(1) by (simp add: initial_truth_def)
  obtain res obs' where res: "execute_vertical_mission True (emitter_observe write_frame) s em = (res, obs')"
    by fastforce
  note loop = loop_captures [OF v reachable.start lt cap0, of VERTICAL_CHECKSUM_OFFSET 0, folded o(2)]
  have same: "map_err (map_ExecutionError (\<lambda>_. ())) res
      = fst (execute_vertical_mission True (noop_observe :: (unit, unit) observer) s ())"
    using emitter.mission_like_noop [where obs = em and C = True and s = s] res by simp
  have run: "run_vertical_mission_with_telemetry write_header write_frame s snk =
      (case (res, obs') of
         (Inr summary, emitter) \<Rightarrow>
           (Inr \<lparr>mission = mission_summary summary, summary_frames = frames_written emitter\<rparr>, sink emitter)
       | (Inl (Observer error tr ck cutoffs), emitter) \<Rightarrow>
           (Inl (TelemetryMissionFailure.Frame error tr ck cutoffs (frames_written emitter)), sink emitter)
       | (Inl (Dynamics failure), emitter) \<Rightarrow>
           (case emit_fault write_frame emitter s (mission_failure failure) of
              (Inr u, emitter) \<Rightarrow>
                (Inl (Simulation (mission_failure failure) True (frames_written emitter)), sink emitter)
            | (Inl error, emitter) \<Rightarrow>
                (Inl (SimulationAndFrame (mission_failure failure) error (frames_written emitter)), sink emitter)))"
    by (simp only: run_vertical_mission_with_telemetry_def Let_def header_bytes_def [symmetric] h(1)
        prod.case sum.case em_def [symmetric] res)
  show ?thesis
  proof (cases res)
    case (Inr m)
    have "run_vertical_mission s = Inr (mission_summary m)"
      using same Inr by (simp add: run_vertical_mission_def flip: same)
    then show ?thesis
      using loop by (auto simp: run res Inr complete_capture_def mission_summary_def)
  next
    case (Inl x)
    then obtain f where x: "x = Dynamics f" using loop by (cases x) (auto simp: res)
    have ok: "run_vertical_mission s = Inl (mission_failure f)"
      using same by (simp add: run_vertical_mission_def Inl x flip: same)
    obtain gs where gs: "truth_ok s (MissionFailure.last_truth (mission_failure f))"
      "captured ?pre s gs obs' (VerticalTruthState.step (MissionFailure.last_truth (mission_failure f)))"
      using loop by (auto simp: res Inl x mission_failure_def)
    obtain obs'' fr where e: "emit_fault write_frame obs' s (mission_failure f) = (Inr (), obs'')"
      "terminal_frame s gs fr" "recorded (sink obs'') = ?pre @ concat (map frame_bytes (gs @ [fr]))"
      "events fr AND NUMERIC_FAULT \<noteq> 0" "frames_written obs'' = of_nat (length gs + 1)"
      "\<exists>a ev. fr = from_truth (MissionFailure.last_truth (mission_failure f)) a ev
        (MissionFailure.checksum (mission_failure f))"
      using fault_frame [OF gs(2,1)] by blast
    have "complete_capture ?pre s (sink obs'') (MissionFailure.last_truth (mission_failure f))
        (MissionFailure.checksum (mission_failure f)) True (frames_written obs'')"
      unfolding complete_capture_def using e(2-6) gs(2) unfolding captured_def by blast
    then show ?thesis using ok by (simp add: run Inl x e(1))
  qed
qed

end

subsection \<open>Captured streams pass inspection\<close>

lemma fresh_sink: "writer (new_writer_sink w) = w"
  by (simp add: new_writer_sink_def)

text \<open>
  C9: the telemetry of a mission is complete and consistent. For a valid scenario and
  an in-memory writer, the capture never loses a record; its stream decodes and
  passes every check of the inspector (framing, header binding, initial frame, step
  order, stride, mission time, termination). Telemetry does not change the mission:
  the outcome is that of the plain runner, and the last frame carries the final or
  last valid state with its checksum, flagged as a fault exactly when the mission
  failed.
\<close>
theorem capture_passes_inspection:
  assumes "valid_scenario s"
  shows "case capture_mission (vec_write_all :: (u8 list, 'e) write_all) s [] of
      (Inr m, stream) \<Rightarrow> run_vertical_mission s = Inr (mission m)
        \<and> (\<exists>i a ev. inspect_stream stream s = Inr i \<and> first_frame i = initial_frame s
          \<and> final_frame i = from_truth (MissionSummary.final_truth (mission m)) a ev
              (MissionSummary.checksum (mission m))
          \<and> ev AND NUMERIC_FAULT = 0 \<and> summary_frames m = of_nat (frame_count i))
    | (Inl (Simulation f written n), stream) \<Rightarrow> written \<and> run_vertical_mission s = Inl f
        \<and> (\<exists>i a ev. inspect_stream stream s = Inr i \<and> first_frame i = initial_frame s
          \<and> final_frame i = from_truth (MissionFailure.last_truth f) a ev (MissionFailure.checksum f)
          \<and> ev AND NUMERIC_FAULT \<noteq> 0 \<and> n = of_nat (frame_count i))
    | _ \<Rightarrow> False"
proof -
  let ?wh = "writer_write_header (vec_write_all :: (u8 list, 'e) write_all)"
  let ?wf = "writer_write_frame (vec_write_all :: (u8 list, 'e) write_all)"
  obtain res snk where run: "run_vertical_mission_with_telemetry ?wh ?wf s (new_writer_sink []) = (res, snk)"
    by fastforce
  have cap: "\<exists>i a ev. inspect_stream (writer snk) s = Inr i \<and> first_frame i = initial_frame s
      \<and> final_frame i = from_truth tr a ev ck \<and> (ev AND NUMERIC_FAULT \<noteq> 0 \<longleftrightarrow> failed)
      \<and> n = of_nat (frame_count i)"
    if cc: "vec_sink.complete_capture (writer (new_writer_sink []) @ header_bytes s) s snk tr ck failed n"
    for tr ck failed n
  proof -
    obtain gs m fr a ev where c: "partial_stream s gs m" "terminal_frame s gs fr"
      "writer snk = header_bytes s @ concat (map frame_bytes (gs @ [fr]))" "n = of_nat (length gs + 1)"
      "events fr AND NUMERIC_FAULT \<noteq> 0 \<longleftrightarrow> failed" "fr = from_truth tr a ev ck"
      using cc unfolding vec_sink.complete_capture_def fresh_sink append_Nil by blast
    obtain i where "inspect_stream (writer snk) s = Inr i" "first_frame i = initial_frame s"
      "final_frame i = fr" "frame_count i = length gs + 1"
      using inspect_stream_accepts [OF assms c(1,2)] c(3) by auto
    moreover have "events fr = ev" by (simp add: c(6) from_truth_def)
    ultimately have "inspect_stream (writer snk) s = Inr i \<and> first_frame i = initial_frame s
        \<and> final_frame i = from_truth tr a ev ck \<and> (ev AND NUMERIC_FAULT \<noteq> 0 \<longleftrightarrow> failed)
        \<and> n = of_nat (frame_count i)"
      using c(4-6) by simp
    then show ?thesis by blast
  qed
  have "capture_mission (vec_write_all :: (u8 list, 'e) write_all) s [] = (res, writer snk)"
    by (simp add: capture_mission_def run)
  moreover note vec_sink.telemetry_run [OF assms, of "new_writer_sink []", where ?'a = 'e]
  ultimately show ?thesis
    using cap unfolding run
    by (simp split: sum.splits TelemetryMissionFailure.splits) blast+
qed

theorem capture_passes_inspection_witness:
  "\<exists>i. inspect_stream (snd (capture_mission (vec_write_all :: (u8 list, unit) write_all)
      reference_scenario [])) reference_scenario = Inr i"
  using capture_passes_inspection [OF reference_scenario_valid, where ?'e = unit]
  by (cases "capture_mission (vec_write_all :: (u8 list, unit) write_all) reference_scenario []")
     (auto split: sum.splits TelemetryMissionFailure.splits)

end
