(* ===== verification/Cobs.thy ===== *)
theory Cobs
  imports Checksums
begin

text \<open>
  Consistent-overhead byte stuffing of the link layer (\<^verbatim>\<open>interface/src/phase6.rs\<close>). The
  encoder patches block lengths into its output buffer after the fact; it is
  related to a structural reference encoder, and the decoder is proved to invert
  it. Both return the buffer they filled together with their result.
\<close>

unbundle bit_operations_syntax

subsection \<open>Errors\<close>

datatype CodecError = Length | Checksum | Reserved | Flags | Enum | Sequence

datatype LinkCodecError = Codec CodecError | Cobs | Version | Magic | Capacity

subsection \<open>Encoder and decoder\<close>

fun cobs_encode_loop :: "u8 list \<Rightarrow> u8 list \<Rightarrow> nat \<Rightarrow> nat \<Rightarrow> u8 \<Rightarrow> (LinkCodecError + nat) \<times> u8 list" where
  "cobs_encode_loop [] out w at code =
     (if length out \<le> at \<or> length out \<le> w then (Inl Capacity, out)
      else (Inr (w + 1), out[at := code, w := 0]))"
| "cobs_encode_loop (b # input) out w at code =
     (if b = 0
      then if length out \<le> at then (Inl Capacity, out)
           else cobs_encode_loop input (out[at := code]) (w + 1) w 1
      else if length out \<le> w then (Inl Capacity, out)
      else let out = out[w := b]; w = w + 1; code = code + 1
           in if code = 0xff
              then cobs_encode_loop input (out[at := code]) (w + 1) w 1
              else cobs_encode_loop input out w at code)"

definition cobs_encode :: "u8 list \<Rightarrow> u8 list \<Rightarrow> (LinkCodecError + nat) \<times> u8 list" where
  "cobs_encode input out =
     (if out = [] then (Inl Capacity, out) else cobs_encode_loop input out 1 0 1)"

function cobs_decode_loop :: "u8 list \<Rightarrow> u8 list \<Rightarrow> nat \<Rightarrow> nat \<Rightarrow> nat \<Rightarrow> (LinkCodecError + nat) \<times> u8 list" where
  "cobs_decode_loop input out finish r w =
     (if r < finish
      then let code = unat (input ! r)
           in if code = 0 then (Inl LinkCodecError.Cobs, out)
              else let r = r + 1; n = code - 1
              in if finish < r + n \<or> length out < w + n then (Inl LinkCodecError.Cobs, out)
              else let out = copy_from_slice out w (take n (drop r input)); r = r + n; w = w + n
              in if code \<noteq> 0xff \<and> r < finish
                 then if length out \<le> w then (Inl Capacity, out)
                      else cobs_decode_loop input (out[w := 0]) finish r (w + 1)
                 else cobs_decode_loop input out finish r w
      else (Inr w, out))"
  by pat_completeness auto
termination
  by (relation "measure (\<lambda>(_, _, finish, r, _). finish - r)") auto

declare cobs_decode_loop.simps [simp del]

definition cobs_decode :: "u8 list \<Rightarrow> u8 list \<Rightarrow> (LinkCodecError + nat) \<times> u8 list" where
  "cobs_decode input out =
     (if input = [] \<or> input ! (length input - 1) \<noteq> 0 then (Inl LinkCodecError.Cobs, out)
      else cobs_decode_loop input out (length input - 1) 0 0)"

subsection \<open>The reference encoding\<close>

fun stuff :: "u8 list \<Rightarrow> u8 list \<Rightarrow> u8 list" where
  "stuff run [] = of_nat (length run + 1) # run"
| "stuff run (b # input) =
     (if b = 0 then of_nat (length run + 1) # run @ stuff [] input
      else if length run = 253 then 255 # run @ b # stuff [] input
      else stuff (run @ [b]) input)"

definition stuffed :: "u8 list \<Rightarrow> u8 list" where
  "stuffed input = stuff [] input @ [0]"

lemma stuff_nonempty [simp]: "stuff run input \<noteq> []" "length (stuff run input) \<noteq> 0"
  by (induction run input rule: stuff.induct) auto

lemma stuff_length:
  assumes "length run \<le> 253"
  shows "length (stuff run input) \<le> length run + length input + 1 + (length run + length input) div 254"
  using assms
proof (induction run input rule: stuff.induct)
  case (2 run b input)
  show ?case
  proof (cases "b = 0")
    case True
    then show ?thesis using 2 by simp
  next
    case b: False
    show ?thesis
    proof (cases "length run = 253")
      case True
      have "length (stuff [] input) \<le> length input + 1 + length input div 254"
        using 2(2) [OF b True] by simp
      then show ?thesis using b True by simp
    next
      case False
      then show ?thesis using 2(3) [OF b False] 2(4) b by simp
    qed
  qed
qed simp

lemma stuff_longer: "length run < length (stuff run input)"
  by (induction run input rule: stuff.induct) auto

lemma code_nonzero: "length run \<le> 253 \<Longrightarrow> (of_nat (length run + 1) :: u8) \<noteq> 0"
  using of_nat_inverse [of "length run + 1" "of_nat (length run + 1) :: u8"] by (auto simp: unat_of_nat)

lemma unat_code: "n \<le> 254 \<Longrightarrow> unat (of_nat (n + 1) :: u8) = n + 1"
  by (simp only: unat_of_nat) simp

lemma stuff_no_zero:
  assumes "0 \<notin> set run" "length run \<le> 253"
  shows "0 \<notin> set (stuff run input)"
  using assms
proof (induction run input rule: stuff.induct)
  case (1 run)
  then show ?case using code_nonzero [of run] by auto
next
  case (2 run b input)
  then show ?case using code_nonzero [of run] by auto
qed

subsection \<open>The encoder computes it\<close>

lemma update_placeholder:
  assumes "take at out = E" "at < length out" "take (length run) (drop (at + 1) out) = run"
    and "at + 1 + length run \<le> length out"
  shows "take (at + 1 + length run) (out[at := c]) = E @ c # run"
proof -
  have "out[at := c] = E @ c # drop (at + 1) out"
    using assms(1,2) by (metis Suc_eq_plus1 upd_conv_take_nth_drop)
  moreover have "length E = at" using assms(1,2) by auto
  ultimately show ?thesis using assms(3) by simp
qed

definition encodes :: "(LinkCodecError + nat) \<times> u8 list \<Rightarrow> nat \<Rightarrow> u8 list \<Rightarrow> bool" where
  "encodes res room bytes \<longleftrightarrow>
     (if length bytes \<le> room
      then \<exists>out'. res = (Inr (length bytes), out') \<and> length out' = room \<and> take (length bytes) out' = bytes
      else \<exists>out'. res = (Inl Capacity, out'))"

lemma cobs_encode_loop_full:
  "length out \<le> at \<Longrightarrow> length out < w \<Longrightarrow> \<exists>out'. cobs_encode_loop input out w at code = (Inl Capacity, out')"
  by (cases input) auto

lemma cobs_encode_loop_stuff:
  assumes "take at out = E" "take (length run) (drop (at + 1) out) = run" "length run \<le> 253"
    and "w = at + 1 + length run" "code = of_nat (length run + 1)" "at \<le> length out"
    and "w \<le> length out + 1"
  shows "encodes (cobs_encode_loop input out w at code) (length out) (E @ stuff run input @ [0])"
  using assms
proof (induction input arbitrary: out w at code E run)
  case Nil
  have E: "length E = at" using Nil.prems(1,6) by auto
  show ?case
  proof (cases "w < length out")
    case True
    then have at: "at < length out" using Nil.prems(4) by simp
    have t: "take w (out[at := code]) = E @ code # run"
      using update_placeholder [OF Nil.prems(1) at Nil.prems(2), of code] True Nil.prems(4) by simp
    have "take (Suc w) (out[at := code, w := 0]) = take w (out[at := code]) @ [0]"
      using True by (simp add: take_Suc_conv_app_nth)
    then show ?thesis using True at Nil.prems(4,5) t E by (simp add: encodes_def)
  next
    case False
    then show ?thesis using Nil.prems(4) E by (auto simp: encodes_def)
  qed
next
  case (Cons b input)
  have E: "length E = at" using Cons.prems(1,6) by auto
  show ?case
  proof (cases "b = 0")
    case zero: True
    have bytes: "E @ stuff run (b # input) @ [0] = (E @ code # run) @ stuff [] input @ [0]"
      using zero Cons.prems(5) by simp
    show ?thesis
    proof (cases "w \<le> length out")
      case True
      then have at: "at < length out" using Cons.prems(4) by simp
      have t: "take w (out[at := code]) = E @ code # run"
        using update_placeholder [OF Cons.prems(1) at Cons.prems(2), of code] True Cons.prems(4) by simp
      have "encodes (cobs_encode_loop input (out[at := code]) (w + 1) w 1) (length (out[at := code]))
          ((E @ code # run) @ stuff [] input @ [0])"
        by (rule Cons.IH [OF t]) (use True in simp_all)
      then show ?thesis unfolding bytes using zero at by simp
    next
      case False
      then show ?thesis
        using cobs_encode_loop_full [of "out[at := code]" w "w + 1" input 1] zero Cons.prems(4) E
        by (auto simp: encodes_def)
    qed
  next
    case nz: False
    show ?thesis
    proof (cases "w < length out")
      case w: True
      then have at: "at < length out" using Cons.prems(4) by simp
      let ?out = "out[w := b]"
      have tE: "take at ?out = E" using Cons.prems(1,4) by simp
      have drop: "take (length (run @ [b])) (drop (at + 1) ?out) = run @ [b]"
        using Cons.prems(2,4) w by (simp add: drop_update_swap take_Suc_conv_app_nth)
      have code: "code + 1 = of_nat (length (run @ [b]) + 1)" using Cons.prems(5) by simp
      have "code + 1 = 0xff \<longleftrightarrow> length run = 253"
        unfolding code using unat_code [of "length (run @ [b])"] Cons.prems(3)
        by (auto simp: word_unat_eq_iff)
      moreover have "encodes (cobs_encode_loop input (?out[at := code + 1]) (w + 1 + 1) (w + 1) 1)
          (length out) (E @ stuff run (b # input) @ [0])" if full: "length run = 253"
      proof -
        have t: "take (w + 1) (?out[at := code + 1]) = E @ (code + 1) # run @ [b]"
          using update_placeholder [OF tE _ drop, of "code + 1"] at w Cons.prems(4) by simp
        have "encodes (cobs_encode_loop input (?out[at := code + 1]) (w + 1 + 1) (w + 1) 1)
            (length (?out[at := code + 1])) ((E @ (code + 1) # run @ [b]) @ stuff [] input @ [0])"
          by (rule Cons.IH [OF t]) (use w in simp_all)
        then show ?thesis using nz full code by simp
      qed
      moreover have "encodes (cobs_encode_loop input ?out (w + 1) at (code + 1)) (length out)
          (E @ stuff run (b # input) @ [0])" if "length run \<noteq> 253"
      proof -
        have "encodes (cobs_encode_loop input ?out (w + 1) at (code + 1)) (length ?out)
            (E @ stuff (run @ [b]) input @ [0])"
          by (rule Cons.IH [OF tE drop _ _ code]) (use that Cons.prems w at in simp_all)
        then show ?thesis using nz that by simp
      qed
      ultimately show ?thesis using nz w by (auto simp: Let_def)
    next
      case False
      have "length run + 1 < length (stuff run (b # input))"
        using nz stuff_longer [of "run @ [b]" input] by (cases "length run = 253") auto
      then show ?thesis using nz False Cons.prems(4) E by (auto simp: encodes_def)
    qed
  qed
qed

lemma cobs_encode_stuffed:
  assumes "out \<noteq> []"
  shows "encodes (cobs_encode input out) (length out) (stuffed input)"
proof -
  have "encodes (cobs_encode_loop input out 1 0 1) (length out) ([] @ stuff [] input @ [0])"
    by (rule cobs_encode_loop_stuff) (use assms in \<open>simp_all add: Suc_le_eq\<close>)
  then show ?thesis using assms by (simp add: cobs_encode_def stuffed_def)
qed

subsection \<open>The decoder inverts it\<close>

lemma nth_append_exact: "(P @ x # ys) ! length P = x"
  by simp

lemma decode_block:
  assumes input: "input = P @ of_nat (n + 1) # block @ rest @ [0]" and n: "length block = n" "n \<le> 254"
    and D: "take w out = D" "w \<le> length out" "w + n \<le> length out"
    and finish: "finish = length input - 1" and r: "r = length P"
  shows "cobs_decode_loop input out finish r w =
    (let out' = copy_from_slice out w block
     in if n \<noteq> 254 \<and> rest \<noteq> []
        then if length out \<le> w + n then (Inl Capacity, out')
             else cobs_decode_loop input (out'[w + n := 0]) finish (r + 1 + n) (w + n + 1)
        else cobs_decode_loop input out' finish (r + 1 + n) (w + n))"
proof -
  have code: "unat (input ! r) = n + 1"
    using unat_code [OF n(2)] by (simp add: input r nth_append)
  have slice: "take n (drop (r + 1) input) = block" using n(1) by (simp add: input r)
  have fin: "finish = r + 1 + n + length rest" using n(1) by (simp add: finish input r)
  have len: "length (copy_from_slice out w block) = length out"
    using D n(1) by (intro length_copy_from_slice) simp
  show ?thesis
    using code slice fin len D(3) by (subst cobs_decode_loop.simps) (simp add: Let_def)
qed

lemma take_copied:
  "take w out = D \<Longrightarrow> w + length block \<le> length out \<Longrightarrow>
   take (w + length block) (copy_from_slice out w block) = D @ block"
  by (auto simp: copy_from_slice_def)

lemma cobs_decode_loop_stuff:
  assumes "length run \<le> 253"
  shows "input = P @ stuff run ys @ [0] \<Longrightarrow> take w out = D \<Longrightarrow> length D = w \<Longrightarrow>
    w + length run + length ys \<le> length out \<Longrightarrow>
    \<exists>out'. cobs_decode_loop input out (length input - 1) (length P) w = (Inr (w + length run + length ys), out')
      \<and> length out' = length out \<and> take (w + length run + length ys) out' = D @ run @ ys"
  using assms
proof (induction ys arbitrary: run P w out D)
  case Nil
  let ?out = "copy_from_slice out w run"
  have b: "cobs_decode_loop input out (length input - 1) (length P) w =
      cobs_decode_loop input ?out (length input - 1) (length P + 1 + length run) (w + length run)"
    using Nil.prems by (subst decode_block [where n = "length run" and block = run and rest = "[]" and P = P]) auto
  have "cobs_decode_loop input ?out (length input - 1) (length P + 1 + length run) (w + length run)
      = (Inr (w + length run), ?out)"
    using Nil.prems(1) by (subst cobs_decode_loop.simps) simp
  then show ?case
    using b Nil.prems take_copied [of w out D run] length_copy_from_slice [of w run out] by simp
next
  case (Cons y ys)
  have wo: "w \<le> length out" using Cons.prems(4) by simp
  consider "y = 0" | "y \<noteq> 0" "length run = 253" | "y \<noteq> 0" "length run \<noteq> 253" by blast
  then show ?case
  proof cases
    case 1
    let ?out = "(copy_from_slice out w run)[w + length run := 0]"
    have len: "length ?out = length out"
      using Cons.prems(4) length_copy_from_slice [of w run out] by simp
    have b: "cobs_decode_loop input out (length input - 1) (length P) w =
        cobs_decode_loop input ?out (length input - 1) (length P + 1 + length run) (w + length run + 1)"
      using Cons.prems 1 wo
      by (subst decode_block [where n = "length run" and block = run and rest = "stuff [] ys" and P = P]) auto
    let ?P = "P @ of_nat (length run + 1) # run"
    have t: "take (w + length run + 1) ?out = D @ run @ [0]"
      using take_copied [of w out D run] Cons.prems(2,4) len by (simp add: take_Suc_conv_app_nth)
    have "\<exists>out'. cobs_decode_loop input ?out (length input - 1) (length ?P) (w + length run + 1)
        = (Inr (w + length run + 1 + length ([] :: u8 list) + length ys), out') \<and> length out' = length ?out
        \<and> take (w + length run + 1 + length ([] :: u8 list) + length ys) out' = (D @ run @ [0]) @ [] @ ys"
      by (rule Cons.IH [OF _ t]) (use Cons.prems 1 len in simp_all)
    then show ?thesis using b len 1 by (simp add: add.commute add.left_commute)
  next
    case 2
    let ?blk = "run @ [y]"
    let ?out = "copy_from_slice out w ?blk"
    have len: "length ?out = length out"
      using Cons.prems(4) length_copy_from_slice [of w ?blk out] by simp
    have b: "cobs_decode_loop input out (length input - 1) (length P) w =
        cobs_decode_loop input ?out (length input - 1) (length P + 1 + 254) (w + 254)"
      using Cons.prems 2 wo
      by (subst decode_block [where n = 254 and block = ?blk and rest = "stuff [] ys" and P = P]) auto
    let ?P = "P @ 255 # ?blk"
    have t: "take (w + 254) ?out = D @ ?blk"
      using take_copied [of w out D ?blk] Cons.prems(2,4) 2 by simp
    have "\<exists>out'. cobs_decode_loop input ?out (length input - 1) (length ?P) (w + 254)
        = (Inr (w + 254 + length ([] :: u8 list) + length ys), out') \<and> length out' = length ?out
        \<and> take (w + 254 + length ([] :: u8 list) + length ys) out' = (D @ ?blk) @ [] @ ys"
      by (rule Cons.IH [OF _ t]) (use Cons.prems 2 len in simp_all)
    then show ?thesis using b len 2 by (simp add: add.commute add.left_commute)
  next
    case 3
    then have "\<exists>out'. cobs_decode_loop input out (length input - 1) (length P) w
        = (Inr (w + length (run @ [y]) + length ys), out') \<and> length out' = length out
        \<and> take (w + length (run @ [y]) + length ys) out' = D @ (run @ [y]) @ ys"
      using Cons.prems by (intro Cons.IH) simp_all
    then show ?thesis by simp
  qed
qed

lemma cobs_decode_stuffed:
  assumes "length ys \<le> length out"
  shows "\<exists>out'. cobs_decode (stuffed ys) out = (Inr (length ys), out') \<and> length out' = length out
    \<and> take (length ys) out' = ys"
proof -
  have "\<exists>out'. cobs_decode_loop (stuffed ys) out (length (stuffed ys) - 1) (length ([] :: u8 list)) 0
      = (Inr (0 + length ([] :: u8 list) + length ys), out') \<and> length out' = length out
      \<and> take (0 + length ([] :: u8 list) + length ys) out' = [] @ [] @ ys"
    by (rule cobs_decode_loop_stuff) (use assms in \<open>simp_all add: stuffed_def\<close>)
  then show ?thesis by (simp add: cobs_decode_def) (simp add: stuffed_def nth_append)
qed

lemma stuffed_length: "length (stuffed ys) \<le> length ys + 2 + length ys div 254"
  using stuff_length [of "[]" ys] by (simp add: stuffed_def)

lemma stuffed_delimited: "0 \<notin> set (butlast (stuffed ys))" "last (stuffed ys) = 0" "stuffed ys \<noteq> []"
  using stuff_no_zero [of "[]" ys] by (simp_all add: stuffed_def)

subsection \<open>The contract of the byte stuffing\<close>

text \<open>
  Byte stuffing round trips within its bound. Encoding succeeds whenever the
  output has room for the payload, two bytes and one more per 254 bytes; what it
  writes is free of zero bytes up to its final delimiter, and decoding it into any
  buffer that can hold the payload gives the payload back.
\<close>
theorem cobs_roundtrip:
  assumes "length ys + 2 + length ys div 254 \<le> length out" "length ys \<le> length dec"
  shows "\<exists>n out' dec'. cobs_encode ys out = (Inr n, out') \<and> n \<le> length out
    \<and> last (take n out') = 0 \<and> 0 \<notin> set (butlast (take n out'))
    \<and> cobs_decode (take n out') dec = (Inr (length ys), dec') \<and> take (length ys) dec' = ys"
proof -
  have ne: "out \<noteq> []" using assms(1) by auto
  have le: "length (stuffed ys) \<le> length out" using stuffed_length [of ys] assms(1) by linarith
  then obtain out' where e: "cobs_encode ys out = (Inr (length (stuffed ys)), out')"
    "take (length (stuffed ys)) out' = stuffed ys"
    using cobs_encode_stuffed [OF ne, of ys] by (auto simp: encodes_def)
  obtain dec' where d: "cobs_decode (stuffed ys) dec = (Inr (length ys), dec')" "take (length ys) dec' = ys"
    using cobs_decode_stuffed [OF assms(2)] by blast
  show ?thesis
    by (intro exI conjI, rule e(1), rule le) (simp_all only: e(2) stuffed_delimited not_False_eq_True, rule d(1), rule d(2))
qed

theorem cobs_roundtrip_witness:
  "\<exists>n out' dec'. cobs_encode [1, 0, 2] (replicate 5 0) = (Inr n, out') \<and> n \<le> length (replicate 5 (0 :: u8))
     \<and> last (take n out') = 0 \<and> 0 \<notin> set (butlast (take n out'))
     \<and> cobs_decode (take n out') (replicate 3 0) = (Inr (length [1, 0, 2 :: u8]), dec')
     \<and> take (length [1, 0, 2 :: u8]) dec' = [1, 0, 2]"
  by (rule cobs_roundtrip) simp_all

text \<open>
  Encoding is exact about capacity. It fails only with a capacity error, and only
  when the stuffed payload and its delimiter do not fit in the output.
\<close>
theorem cobs_encode_capacity:
  "fst (cobs_encode ys out) =
     (if length (stuffed ys) \<le> length out then Inr (length (stuffed ys)) else Inl Capacity)"
proof (cases "out = []")
  case True
  then show ?thesis by (simp add: cobs_encode_def stuffed_def)
next
  case False
  then show ?thesis using cobs_encode_stuffed [OF False, of ys] by (auto simp: encodes_def split: if_splits)
qed

end
