(* ===== verification/Link_Codec.thy ===== *)
theory Link_Codec
  imports Cobs
begin

text \<open>
  Link frames and capability records of phase 6 (\<^verbatim>\<open>interface/src/phase6.rs\<close>): the
  36-byte header, payload and CRC-32 of a frame, framed by byte stuffing. Codecs
  that fill a caller's buffer return it together with their result.
\<close>

unbundle bit_operations_syntax

subsection \<open>Records\<close>

definition KLF6_HEADER_LENGTH :: nat where "KLF6_HEADER_LENGTH = 36"
definition KLF6_MAX_PAYLOAD :: nat where "KLF6_MAX_PAYLOAD = 512"
definition KLF6_MAX_DECODED :: nat where "KLF6_MAX_DECODED = 552"
definition KLF6_MAX_ENCODED :: nat where "KLF6_MAX_ENCODED = 556"
definition KLF6_MAGIC :: "u8 list" where "KLF6_MAGIC = ascii ''KLF6''"
definition LINK_FLAG_MASK :: u16 where "LINK_FLAG_MASK = 15"
definition CAP_MASK :: u32 where "CAP_MASK = 31"
definition CAPABILITY_PAYLOAD_LENGTH :: nat where "CAPABILITY_PAYLOAD_LENGTH = 28"

lemmas klf6_limits = KLF6_HEADER_LENGTH_def KLF6_MAX_PAYLOAD_def KLF6_MAX_DECODED_def
  KLF6_MAX_ENCODED_def LINK_FLAG_MASK_def CAP_MASK_def CAPABILITY_PAYLOAD_LENGTH_def

datatype EndpointRole = World | Flight | MissionControl | Broker

fun role_tag :: "EndpointRole \<Rightarrow> u8" where
  "role_tag World = 1" | "role_tag Flight = 2" | "role_tag MissionControl = 3" | "role_tag Broker = 4"

datatype LinkMode = ExactPaced | Realtime32

fun mode_tag :: "LinkMode \<Rightarrow> u8" where
  "mode_tag ExactPaced = 1" | "mode_tag Realtime32 = 2"

datatype LinkRecordType = Hello | Capabilities | Start | CanonicalSensor | CanonicalCommand | Commit
  | CanonicalTelemetry | GroundTrackingFixRecord | Alarm | Stop | Heartbeat | PackageObject
  | GroundTelemetry | GroundTrackingObservation | UplinkStage | UplinkCommit | UplinkCancel
  | UplinkAcknowledgement | PredictionSummary | EventJournalRecord | ProcedureAction

fun record_type_tag :: "LinkRecordType \<Rightarrow> u8" where
  "record_type_tag Hello = 1"
| "record_type_tag Capabilities = 2"
| "record_type_tag Start = 3"
| "record_type_tag CanonicalSensor = 4"
| "record_type_tag CanonicalCommand = 5"
| "record_type_tag Commit = 6"
| "record_type_tag CanonicalTelemetry = 7"
| "record_type_tag GroundTrackingFixRecord = 8"
| "record_type_tag Alarm = 9"
| "record_type_tag Stop = 10"
| "record_type_tag Heartbeat = 11"
| "record_type_tag PackageObject = 12"
| "record_type_tag GroundTelemetry = 13"
| "record_type_tag GroundTrackingObservation = 14"
| "record_type_tag UplinkStage = 15"
| "record_type_tag UplinkCommit = 16"
| "record_type_tag UplinkCancel = 17"
| "record_type_tag UplinkAcknowledgement = 18"
| "record_type_tag PredictionSummary = 19"
| "record_type_tag EventJournalRecord = 20"
| "record_type_tag ProcedureAction = 21"

definition parse_record_type :: "u8 \<Rightarrow> CodecError + LinkRecordType" where
  "parse_record_type v =
     (if v = 1 then Inr Hello
      else if v = 2 then Inr Capabilities
      else if v = 3 then Inr Start
      else if v = 4 then Inr CanonicalSensor
      else if v = 5 then Inr CanonicalCommand
      else if v = 6 then Inr Commit
      else if v = 7 then Inr CanonicalTelemetry
      else if v = 8 then Inr GroundTrackingFixRecord
      else if v = 9 then Inr Alarm
      else if v = 10 then Inr Stop
      else if v = 11 then Inr Heartbeat
      else if v = 12 then Inr PackageObject
      else if v = 13 then Inr GroundTelemetry
      else if v = 14 then Inr GroundTrackingObservation
      else if v = 15 then Inr UplinkStage
      else if v = 16 then Inr UplinkCommit
      else if v = 17 then Inr UplinkCancel
      else if v = 18 then Inr UplinkAcknowledgement
      else if v = 19 then Inr PredictionSummary
      else if v = 20 then Inr EventJournalRecord
      else if v = 21 then Inr ProcedureAction
      else Inl Enum)"

record LinkHeader =
  record_type :: LinkRecordType
  link_flags :: u16
  session_id :: u32
  sequence :: u32
  acknowledgement :: u32
  measurement_epoch :: u32
  production_epoch :: u32
  effective_epoch :: u32

record LinkFrame =
  frame_header :: LinkHeader
  payload :: "u8 list"

record LinkCapabilities =
  role :: EndpointRole
  mode :: LinkMode
  cap_flags :: u32
  link_contract_id :: u32
  vehicle_contract_id :: u32
  avionics_contract_id :: u32
  max_payload :: u16
  fast_hz :: u8
  navigation_hz :: u8
  guidance_hz :: u8

definition fill0 :: "u8 list \<Rightarrow> u8 list" where
  "fill0 o' = replicate (length o') 0"

subsection \<open>Capability records\<close>

definition capability_fields_bad :: "LinkCapabilities \<Rightarrow> bool" where
  "capability_fields_bad v \<longleftrightarrow>
     cap_flags v AND NOT CAP_MASK \<noteq> 0 \<or> KLF6_MAX_PAYLOAD < unat (max_payload v)
     \<or> fast_hz v = 0 \<or> navigation_hz v = 0 \<or> guidance_hz v = 0"

definition write_capabilities :: "LinkCapabilities \<Rightarrow> u8 list \<Rightarrow> (CodecError + unit) \<times> u8 list" where
  "write_capabilities v out =
     (if length out \<noteq> CAPABILITY_PAYLOAD_LENGTH then (Inl CodecError.Length, out)
      else if capability_fields_bad v then (Inl Flags, out)
      else
      let out = fill0 out;
          out = out[0 := role_tag (role v)];
          out = out[1 := mode_tag (mode v)];
          out = write_u32 out 4 (cap_flags v);
          out = write_u32 out 8 (link_contract_id v);
          out = write_u32 out 12 (vehicle_contract_id v);
          out = write_u32 out 16 (avionics_contract_id v);
          out = write_u16 out 20 (max_payload v);
          out = out[22 := fast_hz v];
          out = out[23 := navigation_hz v];
          out = out[24 := guidance_hz v]
      in (Inr (), out))"

definition parse_capabilities :: "u8 list \<Rightarrow> CodecError + LinkCapabilities" where
  "parse_capabilities b =
     (if length b \<noteq> CAPABILITY_PAYLOAD_LENGTH then Inl CodecError.Length
      else if b ! 2 \<noteq> 0 \<or> b ! 3 \<noteq> 0 \<or> b ! 25 \<noteq> 0 \<or> b ! 26 \<noteq> 0 \<or> b ! 27 \<noteq> 0 then Inl Reserved
      else and_then
        (if b ! 0 = 1 then Inr World else if b ! 0 = 2 then Inr Flight
         else if b ! 0 = 3 then Inr MissionControl else if b ! 0 = 4 then Inr Broker else Inl Enum)
      (\<lambda>rl. and_then
        (if b ! 1 = 1 then Inr ExactPaced else if b ! 1 = 2 then Inr Realtime32 else Inl Enum)
      (\<lambda>md.
        let v = \<lparr>role = rl, mode = md, cap_flags = read_u32 b 4, link_contract_id = read_u32 b 8,
                 vehicle_contract_id = read_u32 b 12, avionics_contract_id = read_u32 b 16,
                 max_payload = read_u16 b 20, fast_hz = b ! 22, navigation_hz = b ! 23,
                 guidance_hz = b ! 24\<rparr>
        in if capability_fields_bad v then Inl Flags else Inr v)))"

subsection \<open>Link frames\<close>

definition write_link_decoded :: "LinkFrame \<Rightarrow> u8 list \<Rightarrow> (LinkCodecError + nat) \<times> u8 list" where
  "write_link_decoded f out =
     (if KLF6_MAX_PAYLOAD < length (payload f) then (Inl Capacity, out)
      else if link_flags (frame_header f) AND NOT LINK_FLAG_MASK \<noteq> 0 then (Inl (Codec Flags), out)
      else
      let n = KLF6_HEADER_LENGTH + length (payload f) + 4
      in if length out < n then (Inl Capacity, out)
      else
      let h = frame_header f;
          out = copy_from_slice out 0 (replicate n 0);
          out = copy_from_slice out 0 KLF6_MAGIC;
          out = out[4 := 6];
          out = out[5 := record_type_tag (record_type h)];
          out = write_u16 out 6 (link_flags h);
          out = write_u32 out 8 (session_id h);
          out = write_u32 out 12 (sequence h);
          out = write_u32 out 16 (acknowledgement h);
          out = write_u32 out 20 (measurement_epoch h);
          out = write_u32 out 24 (production_epoch h);
          out = write_u32 out 28 (effective_epoch h);
          out = write_u16 out 32 (of_nat (length (payload f)));
          out = copy_from_slice out 36 (payload f);
          c = 36 + length (payload f);
          crc = crc32_ieee (take c out)
      in (Inr n, write_u32 out c crc))"

definition parse_link_decoded :: "u8 list \<Rightarrow> LinkCodecError + LinkFrame" where
  "parse_link_decoded b =
     (if length b < 40 \<or> KLF6_MAX_DECODED < length b then Inl (Codec CodecError.Length)
      else if take 4 b \<noteq> KLF6_MAGIC then Inl Magic
      else if b ! 4 \<noteq> 6 then Inl Version
      else if b ! 34 \<noteq> 0 \<or> b ! 35 \<noteq> 0 then Inl (Codec Reserved)
      else
      let n = unat (read_u16 b 32)
      in if KLF6_MAX_PAYLOAD < n \<or> length b \<noteq> 40 + n then Inl (Codec CodecError.Length)
      else
      let c = 36 + n
      in if crc32_ieee (take c b) \<noteq> read_u32 b c then Inl (Codec Checksum)
      else
      let flags = read_u16 b 6
      in if flags AND NOT LINK_FLAG_MASK \<noteq> 0 then Inl (Codec Flags)
      else and_then (map_err Codec (parse_record_type (b ! 5))) (\<lambda>rt.
        Inr \<lparr>frame_header = \<lparr>record_type = rt, link_flags = flags, session_id = read_u32 b 8,
               sequence = read_u32 b 12, acknowledgement = read_u32 b 16,
               measurement_epoch = read_u32 b 20, production_epoch = read_u32 b 24,
               effective_epoch = read_u32 b 28\<rparr>,
             payload = take (c - 36) (drop 36 b)\<rparr>))"

definition write_link_frame :: "LinkFrame \<Rightarrow> u8 list \<Rightarrow> u8 list
    \<Rightarrow> (LinkCodecError + nat) \<times> u8 list \<times> u8 list" where
  "write_link_frame f decoded encoded =
     (case write_link_decoded f decoded of
        (Inl e, decoded) \<Rightarrow> (Inl e, decoded, encoded)
      | (Inr n, decoded) \<Rightarrow>
          (let (result, encoded) = cobs_encode (take n decoded) encoded in (result, decoded, encoded)))"

definition parse_link_frame :: "u8 list \<Rightarrow> u8 list \<Rightarrow> (LinkCodecError + LinkFrame) \<times> u8 list" where
  "parse_link_frame encoded decoded =
     (case cobs_decode encoded decoded of
        (Inl e, decoded) \<Rightarrow> (Inl e, decoded)
      | (Inr n, decoded) \<Rightarrow> (parse_link_decoded (take n decoded), decoded))"

subsection \<open>Tags\<close>

lemma parse_record_type_tag [simp]: "parse_record_type (record_type_tag t) = Inr t"
  by (cases t) (simp_all add: parse_record_type_def)

lemma parse_record_type_Inr: "parse_record_type v = Inr t \<longleftrightarrow> v = record_type_tag t"
proof
  assume "parse_record_type v = Inr t"
  then show "v = record_type_tag t" by (auto simp: parse_record_type_def split: if_splits)
qed simp

lemma length_fill0 [simp]: "length (fill0 out) = length out"
  by (simp add: fill0_def)

lemma nth_fill0 [simp]: "i < length out \<Longrightarrow> fill0 out ! i = 0"
  by (simp add: fill0_def)

subsection \<open>Capability records round trip\<close>

definition capability_image :: "LinkCapabilities \<Rightarrow> u8 list \<Rightarrow> u8 list" where
  "capability_image v out =
     (let out = (fill0 out)[0 := role_tag (role v), 1 := mode_tag (mode v)];
          out = write_u32 (write_u32 out 4 (cap_flags v)) 8 (link_contract_id v);
          out = write_u32 (write_u32 out 12 (vehicle_contract_id v)) 16 (avionics_contract_id v);
          out = write_u16 out 20 (max_payload v)
      in out[22 := fast_hz v, 23 := navigation_hz v, 24 := guidance_hz v])"

lemma write_capabilities_image:
  "write_capabilities v out =
     (if length out \<noteq> 28 then (Inl CodecError.Length, out)
      else if capability_fields_bad v then (Inl Flags, out) else (Inr (), capability_image v out))"
  by (simp add: write_capabilities_def capability_image_def Let_def CAPABILITY_PAYLOAD_LENGTH_def)

lemma capability_image_fields:
  assumes "length out = 28"
    and b_def: "b = capability_image v out"
  shows "length b = 28" "b ! 0 = role_tag (role v)" "b ! 1 = mode_tag (mode v)"
    "b ! 2 = 0" "b ! 3 = 0" "b ! 25 = 0" "b ! 26 = 0" "b ! 27 = 0"
    "read_u32 b 4 = cap_flags v" "read_u32 b 8 = link_contract_id v"
    "read_u32 b 12 = vehicle_contract_id v" "read_u32 b 16 = avionics_contract_id v"
    "read_u16 b 20 = max_payload v" "b ! 22 = fast_hz v" "b ! 23 = navigation_hz v" "b ! 24 = guidance_hz v"
  using assms(1) by (simp_all add: b_def capability_image_def record_access)

lemma parse_capability_image:
  assumes "length out = 28"
  shows "parse_capabilities (capability_image v out) =
    (if capability_fields_bad v then Inl Flags else Inr v)"
proof -
  note fields = capability_image_fields [OF assms refl, of v]
  have mode: "capability_image v out ! Suc 0 = mode_tag (mode v)" using fields(3) by simp
  have v: "v = \<lparr>role = role v, mode = mode v, cap_flags = cap_flags v,
      link_contract_id = link_contract_id v, vehicle_contract_id = vehicle_contract_id v,
      avionics_contract_id = avionics_contract_id v, max_payload = max_payload v, fast_hz = fast_hz v,
      navigation_hz = navigation_hz v, guidance_hz = guidance_hz v\<rparr>" by simp
  show ?thesis
    by (subst (2 3) v, cases "role v"; cases "mode v")
      (simp_all add: parse_capabilities_def fields mode CAPABILITY_PAYLOAD_LENGTH_def Let_def)
qed

subsection \<open>Link frames round trip\<close>

definition link_header_image :: "LinkHeader \<Rightarrow> nat \<Rightarrow> u8 list \<Rightarrow> u8 list" where
  "link_header_image h n out =
     (let out = (copy_from_slice out 0 KLF6_MAGIC)[4 := 6, 5 := record_type_tag (record_type h)];
          out = write_u32 (write_u16 out 6 (link_flags h)) 8 (session_id h);
          out = write_u32 (write_u32 out 12 (sequence h)) 16 (acknowledgement h);
          out = write_u32 (write_u32 out 20 (measurement_epoch h)) 24 (production_epoch h)
      in write_u16 (write_u32 out 28 (effective_epoch h)) 32 (of_nat n))"

definition link_header_bytes :: "LinkHeader \<Rightarrow> nat \<Rightarrow> u8 list" where
  "link_header_bytes h n = link_header_image h n (replicate 36 0)"

definition link_bytes :: "LinkFrame \<Rightarrow> u8 list" where
  "link_bytes f =
     (let body = link_header_bytes (frame_header f) (length (payload f)) @ payload f
      in body @ to_le_bytes32 (crc32_ieee body))"

lemma length_klf6_magic [simp]: "length KLF6_MAGIC = 4"
  by (simp add: KLF6_MAGIC_def)

lemma link_header_image_append:
  "36 \<le> length x \<Longrightarrow> link_header_image h n (x @ y) = link_header_image h n x @ y"
  by (simp add: link_header_image_def write_append record_access list_update_append1)

lemma length_link_header_bytes [simp]: "length (link_header_bytes h n) = 36"
  by (simp add: link_header_bytes_def link_header_image_def record_access)

lemma length_link_bytes [simp]: "length (link_bytes f) = 40 + length (payload f)"
  by (simp add: link_bytes_def Let_def)

lemma write_link_decoded_bytes:
  "write_link_decoded f out =
     (if 512 < length (payload f) then (Inl Capacity, out)
      else if link_flags (frame_header f) AND NOT LINK_FLAG_MASK \<noteq> 0 then (Inl (Codec Flags), out)
      else if length out < 40 + length (payload f) then (Inl Capacity, out)
      else (Inr (40 + length (payload f)), link_bytes f @ drop (40 + length (payload f)) out))"
proof -
  let ?n = "length (payload f)" and ?h = "frame_header f"
  let ?tail = "replicate (4 + ?n) (0 :: u8) @ drop (40 + ?n) out"
  have z: "copy_from_slice out 0 (replicate (40 + ?n) 0) = replicate 36 0 @ ?tail"
    by (simp add: copy_from_slice_def flip: replicate_add append_assoc)
  have img: "link_header_image ?h ?n (replicate 36 0 @ ?tail) = link_header_bytes ?h ?n @ ?tail"
    by (simp add: link_header_image_append link_header_bytes_def)
  have pay: "copy_from_slice (link_header_bytes ?h ?n @ ?tail) 36 (payload f)
      = link_header_bytes ?h ?n @ payload f @ replicate 4 0 @ drop (40 + ?n) out"
    by (simp add: copy_from_slice_def)
  have seal: "write_u32 (link_header_bytes ?h ?n @ payload f @ replicate 4 0 @ drop (40 + ?n) out) (36 + ?n) v
      = (link_header_bytes ?h ?n @ payload f) @ to_le_bytes32 v @ drop (40 + ?n) out" for v
    by (simp add: write_u32_def copy_from_slice_def)
  show ?thesis
    using seal [of "crc32_ieee (link_header_bytes ?h ?n @ payload f)"] pay img
    unfolding write_link_decoded_def Let_def link_bytes_def KLF6_HEADER_LENGTH_def KLF6_MAX_PAYLOAD_def
    by (simp add: z link_header_image_def)
qed

lemma link_header_bytes_fields:
  shows "take 4 (link_header_bytes h n) = KLF6_MAGIC" "link_header_bytes h n ! 4 = 6"
    "link_header_bytes h n ! 5 = record_type_tag (record_type h)"
    "link_header_bytes h n ! 34 = 0" "link_header_bytes h n ! 35 = 0"
    "read_u16 (link_header_bytes h n) 6 = link_flags h" "read_u32 (link_header_bytes h n) 8 = session_id h"
    "read_u32 (link_header_bytes h n) 12 = sequence h" "read_u32 (link_header_bytes h n) 16 = acknowledgement h"
    "read_u32 (link_header_bytes h n) 20 = measurement_epoch h"
    "read_u32 (link_header_bytes h n) 24 = production_epoch h"
    "read_u32 (link_header_bytes h n) 28 = effective_epoch h"
    "read_u16 (link_header_bytes h n) 32 = of_nat n"
proof -
  have m: "take 4 (copy_from_slice x 0 KLF6_MAGIC) = KLF6_MAGIC" for x
    by (simp add: copy_from_slice_def)
  show "take 4 (link_header_bytes h n) = KLF6_MAGIC" "link_header_bytes h n ! 4 = 6"
    "link_header_bytes h n ! 5 = record_type_tag (record_type h)"
    "link_header_bytes h n ! 34 = 0" "link_header_bytes h n ! 35 = 0"
    "read_u16 (link_header_bytes h n) 6 = link_flags h" "read_u32 (link_header_bytes h n) 8 = session_id h"
    "read_u32 (link_header_bytes h n) 12 = sequence h" "read_u32 (link_header_bytes h n) 16 = acknowledgement h"
    "read_u32 (link_header_bytes h n) 20 = measurement_epoch h"
    "read_u32 (link_header_bytes h n) 24 = production_epoch h"
    "read_u32 (link_header_bytes h n) 28 = effective_epoch h"
    "read_u16 (link_header_bytes h n) 32 = of_nat n"
    by (simp_all add: link_header_bytes_def link_header_image_def record_access m)
qed

lemma parse_link_bytes:
  assumes "length (payload f) \<le> 512"
  shows "parse_link_decoded (link_bytes f) =
    (if link_flags (frame_header f) AND NOT LINK_FLAG_MASK \<noteq> 0 then Inl (Codec Flags) else Inr f)"
proof -
  have u: "unat (of_nat (length (payload f)) :: u16) = length (payload f)"
    using assms by (simp add: unat_of_nat)
  have c: "read_u32 (x @ to_le_bytes32 v) (length x) = v" for x v
    by (simp add: read_u32_def nth_append to_le_bytes32_def)
  have seal: "read_u32 (link_bytes f) (36 + length (payload f)) = crc32_ieee (take (36 + length (payload f)) (link_bytes f))"
    using c [of "link_header_bytes (frame_header f) (length (payload f)) @ payload f"]
    by (simp add: link_bytes_def Let_def)
  have body: "link_bytes f = link_header_bytes (frame_header f) (length (payload f)) @ payload f
      @ drop (36 + length (payload f)) (link_bytes f)"
    by (simp add: link_bytes_def Let_def)
  have fields: "take 4 (link_bytes f) = KLF6_MAGIC" "link_bytes f ! 4 = 6"
      "link_bytes f ! 5 = record_type_tag (record_type (frame_header f))"
      "link_bytes f ! 34 = 0" "link_bytes f ! 35 = 0"
      "read_u16 (link_bytes f) 6 = link_flags (frame_header f)"
      "read_u32 (link_bytes f) 8 = session_id (frame_header f)"
      "read_u32 (link_bytes f) 12 = sequence (frame_header f)"
      "read_u32 (link_bytes f) 16 = acknowledgement (frame_header f)"
      "read_u32 (link_bytes f) 20 = measurement_epoch (frame_header f)"
      "read_u32 (link_bytes f) 24 = production_epoch (frame_header f)"
      "read_u32 (link_bytes f) 28 = effective_epoch (frame_header f)"
      "read_u16 (link_bytes f) 32 = of_nat (length (payload f))"
      "take (length (payload f)) (drop 36 (link_bytes f)) = payload f"
    by (subst body, simp add: link_header_bytes_fields read_append nth_append)+
  show ?thesis
    unfolding parse_link_decoded_def Let_def
    using assms by (simp add: fields u seal KLF6_MAX_DECODED_def KLF6_MAX_PAYLOAD_def)
qed

lemma parse_link_decoded_Inr:
  assumes "parse_link_decoded b = Inr f"
  shows "length b = 40 + length (payload f)" "length (payload f) \<le> 512"
    "crc32_ieee (take (36 + length (payload f)) b) = read_u32 b (36 + length (payload f))"
    "length (payload f) = unat (read_u16 b 32)"
  using assms
  by (auto simp: parse_link_decoded_def Let_def KLF6_MAX_PAYLOAD_def KLF6_MAX_DECODED_def split: if_splits)

lemma write_link_frame_stuffed:
  assumes "length (payload f) \<le> 512" "link_flags (frame_header f) AND NOT LINK_FLAG_MASK = 0"
    and "552 \<le> length decoded" "556 \<le> length encoded"
  shows "\<exists>n decoded' encoded'. write_link_frame f decoded encoded = (Inr n, decoded', encoded')
    \<and> take n encoded' = stuffed (link_bytes f)
    \<and> n \<le> 556 \<and> length encoded' = length encoded"
proof -
  let ?d = "link_bytes f"
  have room: "40 + length (payload f) \<le> length decoded" using assms by simp
  have "length (stuffed ?d) \<le> length ?d + 2 + length ?d div 254" by (rule stuffed_length)
  also have "\<dots> \<le> 556"
  proof -
    have "length ?d \<le> 552" using assms(1) by simp
    then have "length ?d div 254 \<le> 552 div 254" by (rule div_le_mono)
    then show ?thesis using \<open>length ?d \<le> 552\<close> by simp
  qed
  finally have le: "length (stuffed ?d) \<le> 556" .
  have ne: "encoded \<noteq> []" using assms(4) by auto
  obtain encoded' where e: "cobs_encode ?d encoded = (Inr (length (stuffed ?d)), encoded')"
      "take (length (stuffed ?d)) encoded' = stuffed ?d" "length encoded' = length encoded"
    using cobs_encode_stuffed [OF ne, of ?d] le assms(4) by (auto simp: encodes_def)
  have "write_link_frame f decoded encoded = (Inr (length (stuffed ?d)), ?d @ drop (40 + length (payload f)) decoded, encoded')"
    using assms(1,2) room e(1) by (simp add: write_link_frame_def write_link_decoded_bytes)
  then show ?thesis using e(2,3) le by blast
qed

lemma parse_link_frame_stuffed:
  assumes "length ys \<le> length decoded"
  shows "fst (parse_link_frame (stuffed ys) decoded) = parse_link_decoded ys"
  using cobs_decode_stuffed [OF assms] by (auto simp: parse_link_frame_def)

subsection \<open>The contract of the link codec\<close>

text \<open>
  Capability records round trip. Writing accepts exactly buffers of 28 bytes and
  records within the contract (known flags, payload bound, nonzero rates), leaves a
  refused buffer alone, and what it writes parses back to the same record.
\<close>
theorem capabilities_roundtrip:
  "case write_capabilities v out of
     (Inl e, out') \<Rightarrow> out' = out \<and> (e = CodecError.Length \<and> length out \<noteq> 28
       \<or> e = Flags \<and> length out = 28 \<and> capability_fields_bad v)
   | (Inr u, out') \<Rightarrow> length out = 28 \<and> \<not> capability_fields_bad v
       \<and> length out' = 28 \<and> parse_capabilities out' = Inr v"
  by (simp add: write_capabilities_image parse_capability_image capability_image_fields(1) [OF _ refl])

text \<open>
  Every link frame within the contract crosses the link. For a payload of at most
  512 bytes and known flags, framing into buffers of the declared maximum sizes
  succeeds, uses at most 556 bytes and ends in the only delimiter, and the receiving
  side's parser gives back the header and the payload that were sent.
\<close>
theorem link_frame_roundtrip:
  assumes "length (payload f) \<le> KLF6_MAX_PAYLOAD" "link_flags (frame_header f) AND NOT LINK_FLAG_MASK = 0"
    and "length decoded = KLF6_MAX_DECODED" "length encoded = KLF6_MAX_ENCODED"
    and "length decoded2 = KLF6_MAX_DECODED"
  shows "\<exists>n decoded' encoded'. write_link_frame f decoded encoded = (Inr n, decoded', encoded')
    \<and> n \<le> KLF6_MAX_ENCODED \<and> last (take n encoded') = 0 \<and> 0 \<notin> set (butlast (take n encoded'))
    \<and> fst (parse_link_frame (take n encoded') decoded2) = Inr f"
proof -
  note sizes = assms [unfolded KLF6_MAX_PAYLOAD_def KLF6_MAX_DECODED_def KLF6_MAX_ENCODED_def]
  let ?d = "link_bytes f"
  obtain n decoded' encoded' where w: "write_link_frame f decoded encoded = (Inr n, decoded', encoded')"
      "take n encoded' = stuffed ?d" "n \<le> 556"
    using write_link_frame_stuffed [of f decoded encoded] sizes by auto
  have "length ?d \<le> length decoded2" using sizes by simp
  then have "fst (parse_link_frame (take n encoded') decoded2) = Inr f"
    unfolding w(2) using sizes by (simp add: parse_link_frame_stuffed parse_link_bytes)
  then show ?thesis
    using w(1,3) stuffed_delimited [of ?d] unfolding w(2) [symmetric] KLF6_MAX_ENCODED_def by blast
qed

definition sample_frame :: LinkFrame where
  "sample_frame = \<lparr>frame_header = \<lparr>record_type = CanonicalCommand, link_flags = 3, session_id = 7,
     sequence = 11, acknowledgement = 10, measurement_epoch = 0, production_epoch = 1,
     effective_epoch = 2\<rparr>, payload = [1, 0, 2]\<rparr>"

theorem link_frame_roundtrip_witness:
  "\<exists>n decoded' encoded'. write_link_frame sample_frame (replicate 552 0) (replicate 556 0)
      = (Inr n, decoded', encoded')
    \<and> n \<le> KLF6_MAX_ENCODED \<and> last (take n encoded') = 0 \<and> 0 \<notin> set (butlast (take n encoded'))
    \<and> fst (parse_link_frame (take n encoded') (replicate 552 0)) = Inr sample_frame"
  by (rule link_frame_roundtrip) (simp_all add: sample_frame_def klf6_limits)

text \<open>
  An accepted decoded link frame in which any one byte is replaced is rejected,
  whether the byte is in the header, the payload or the stored checksum.
\<close>
theorem link_corruption_rejected:
  assumes "parse_link_decoded b = Inr f" "i < length b" "x \<noteq> b ! i"
  shows "\<not> is_ok (parse_link_decoded (b[i := x]))"
proof
  assume "is_ok (parse_link_decoded (b[i := x]))"
  then obtain g where g: "parse_link_decoded (b[i := x]) = Inr g" by (auto simp: is_ok_iff)
  note old = parse_link_decoded_Inr [OF assms(1)] and new = parse_link_decoded_Inr [OF g]
  have n: "length (payload g) = length (payload f)" using old(1) new(1) by simp
  show False
    using crc32_record.corruption_detected [of "36 + length (payload f)" b i x] old(1,3) new(3) assms(2,3)
    by (simp add: n)
qed

theorem link_corruption_rejected_witness:
  "\<exists>b. parse_link_decoded b = Inr sample_frame \<and> length b = 43
     \<and> \<not> is_ok (parse_link_decoded (b[37 := b ! 37 + 1]))"
proof -
  let ?b = "link_bytes sample_frame"
  have p: "parse_link_decoded ?b = Inr sample_frame"
    by (subst parse_link_bytes) (simp_all add: sample_frame_def LINK_FLAG_MASK_def)
  have l: "length ?b = 43" using parse_link_decoded_Inr(1) [OF p] by (simp add: sample_frame_def)
  then show ?thesis using link_corruption_rejected [OF p, of 37 "?b ! 37 + 1"] p by (intro exI [of _ ?b]) simp
qed

end
