(* ===== verification/Realtime_Cells.thy ===== *)
theory Realtime_Cells
  imports Link_Codec
begin

text \<open>
  The fixed-length realtime cells of phase 6 (\<^verbatim>\<open>interface/src/phase6.rs\<close>): inertial,
  command, aiding and status cells, each sealed by a CRC-16, and the ground tracking
  fix. Arrays of two and three are pairs and triples; the loops that store them are
  folds over the index.
\<close>

unbundle bit_operations_syntax

subsection \<open>Arrays and prefixes\<close>

type_synonym 'a vec3 = "'a \<times> 'a \<times> 'a"

fun at3 :: "'a vec3 \<Rightarrow> nat \<Rightarrow> 'a" where
  "at3 (x, y, z) i = (if i = 0 then x else if i = 1 then y else z)"

definition for3 :: "(nat \<Rightarrow> 's \<Rightarrow> 's) \<Rightarrow> 's \<Rightarrow> 's" where
  "for3 f s = fold f [0..<3] s"

definition make3 :: "(nat \<Rightarrow> 'a) \<Rightarrow> 'a vec3" where
  "make3 f = (f 0, f 1, f 2)"

lemma for3_unfold [simp]: "for3 f s = f 2 (f 1 (f 0 s))"
  by (simp add: for3_def upt_rec numeral_3_eq_3 numeral_2_eq_2)

lemma make3_at3 [simp]: "(at3 v 0, at3 v (Suc 0), at3 v 2) = v"
  by (cases v) simp

definition read_i16 :: "u8 list \<Rightarrow> nat \<Rightarrow> i16" where
  "read_i16 b i = read_u16 b i"

definition write_i16 :: "u8 list \<Rightarrow> nat \<Rightarrow> i16 \<Rightarrow> u8 list" where
  "write_i16 out i v = write_u16 out i v"

definition KLR6_SYNC :: "u8 list" where "KLR6_SYNC = [0xd6, 0x5a]"
definition KLR6_READY :: "u8 list" where "KLR6_READY = [0xd6, 0x5a, 6, 0]"

definition cell_prefix :: "u8 list \<Rightarrow> u8 \<Rightarrow> u16 \<Rightarrow> u16 \<Rightarrow> u16 \<Rightarrow> u8 list" where
  "cell_prefix out kind session a b =
     (let out = copy_from_slice out 0 KLR6_SYNC;
          out = out[2 := 6];
          out = out[3 := kind];
          out = write_u16 out 4 session;
          out = write_u16 out 6 a
      in write_u16 out 8 b)"

definition cell_check :: "u8 list \<Rightarrow> nat \<Rightarrow> u8 \<Rightarrow> CodecError + unit" where
  "cell_check b n kind =
     (if length b \<noteq> n then Inl CodecError.Length
      else if take 2 b \<noteq> KLR6_SYNC \<or> b ! 2 \<noteq> 6 \<or> b ! 3 \<noteq> kind then Inl Enum
      else if crc16_ccitt (take (n - 2) b) \<noteq> read_u16 b (n - 2) then Inl Checksum
      else Inr ())"

subsection \<open>Inertial cells\<close>

record RealtimeInertialCell =
  ri_session :: u16
  ri_measurement_epoch :: u16
  ri_production_epoch :: u16
  ri_validity :: u8
  ri_flags :: u8
  platform_angle :: "i16 vec3"
  angular_rate :: "i16 vec3"
  delta_velocity :: "i16 vec3"
  gimbal_applied :: "i16 \<times> i16"
  stage_status :: u16

definition write_realtime_inertial :: "RealtimeInertialCell \<Rightarrow> u8 list \<Rightarrow> (CodecError + unit) \<times> u8 list" where
  "write_realtime_inertial v out =
     (if length out \<noteq> 40 then (Inl CodecError.Length, out)
      else
      let out = fill0 out;
          out = cell_prefix out 1 (ri_session v) (ri_measurement_epoch v) (ri_production_epoch v);
          out = out[10 := ri_validity v];
          out = out[11 := ri_flags v];
          out = for3 (\<lambda>a out.
                  let out = write_i16 out (12 + a * 2) (at3 (platform_angle v) a);
                      out = write_i16 out (18 + a * 2) (at3 (angular_rate v) a)
                  in write_i16 out (24 + a * 2) (at3 (delta_velocity v) a)) out;
          out = write_i16 out 30 (fst (gimbal_applied v));
          out = write_i16 out 32 (snd (gimbal_applied v));
          out = write_u16 out 34 (stage_status v);
          c = crc16_ccitt (take 38 out)
      in (Inr (), write_u16 out 38 c))"

definition parse_realtime_inertial :: "u8 list \<Rightarrow> CodecError + RealtimeInertialCell" where
  "parse_realtime_inertial b =
     and_then (cell_check b 40 1) (\<lambda>u.
       if b ! 36 \<noteq> 0 \<or> b ! 37 \<noteq> 0 then Inl Reserved
       else
       let p = make3 (\<lambda>a. read_i16 b (12 + a * 2));
           r = make3 (\<lambda>a. read_i16 b (18 + a * 2));
           d = make3 (\<lambda>a. read_i16 b (24 + a * 2))
       in Inr \<lparr>ri_session = read_u16 b 4, ri_measurement_epoch = read_u16 b 6,
               ri_production_epoch = read_u16 b 8, ri_validity = b ! 10, ri_flags = b ! 11,
               platform_angle = p, angular_rate = r, delta_velocity = d,
               gimbal_applied = (read_i16 b 30, read_i16 b 32), stage_status = read_u16 b 34\<rparr>)"

subsection \<open>Command cells\<close>

record RealtimeCommandCell =
  rc_session :: u16
  rc_source_epoch :: u16
  rc_effective_epoch :: u16
  rc_flags :: u8
  discrete :: u8
  gimbal :: "i16 \<times> i16"
  rcs :: "i8 vec3"
  rc_status :: u8

definition write_realtime_command :: "RealtimeCommandCell \<Rightarrow> u8 list \<Rightarrow> (CodecError + unit) \<times> u8 list" where
  "write_realtime_command v out =
     (if length out \<noteq> 24 then (Inl CodecError.Length, out)
      else
      let out = fill0 out;
          out = cell_prefix out 2 (rc_session v) (rc_source_epoch v) (rc_effective_epoch v);
          out = out[10 := rc_flags v];
          out = out[11 := discrete v];
          out = write_i16 out 12 (fst (gimbal v));
          out = write_i16 out 14 (snd (gimbal v));
          out = out[16 := at3 (rcs v) 0];
          out = out[17 := at3 (rcs v) 1];
          out = out[18 := at3 (rcs v) 2];
          out = out[19 := rc_status v];
          c = crc16_ccitt (take 22 out)
      in (Inr (), write_u16 out 22 c))"

definition parse_realtime_command :: "u8 list \<Rightarrow> CodecError + RealtimeCommandCell" where
  "parse_realtime_command b =
     and_then (cell_check b 24 2) (\<lambda>u.
       if b ! 20 \<noteq> 0 \<or> b ! 21 \<noteq> 0 then Inl Reserved
       else Inr \<lparr>rc_session = read_u16 b 4, rc_source_epoch = read_u16 b 6,
                 rc_effective_epoch = read_u16 b 8, rc_flags = b ! 10, discrete = b ! 11,
                 gimbal = (read_i16 b 12, read_i16 b 14), rcs = (b ! 16, b ! 17, b ! 18),
                 rc_status = b ! 19\<rparr>)"

subsection \<open>Aiding cells\<close>

record RealtimeAidCell =
  ra_session :: u16
  ra_measurement_epoch :: u16
  ra_production_epoch :: u16
  ra_validity :: u16
  ra_events :: u16
  onboard_time_q16 :: i32
  barometer_q12 :: i32
  gps_position_q12 :: "i32 vec3"
  gps_velocity_q24 :: "i32 vec3"
  star_angle :: "i16 vec3"
  rcs_propellant_q12 :: i32
  vehicle_status :: u32

definition write_realtime_aid :: "RealtimeAidCell \<Rightarrow> u8 list \<Rightarrow> (CodecError + unit) \<times> u8 list" where
  "write_realtime_aid v out =
     (if length out \<noteq> 64 then (Inl CodecError.Length, out)
      else
      let out = fill0 out;
          out = cell_prefix out 3 (ra_session v) (ra_measurement_epoch v) (ra_production_epoch v);
          out = write_u16 out 10 (ra_validity v);
          out = write_u16 out 12 (ra_events v);
          out = write_i32 out 14 (onboard_time_q16 v);
          out = write_i32 out 18 (barometer_q12 v);
          out = for3 (\<lambda>a out.
                  let out = write_i32 out (22 + a * 4) (at3 (gps_position_q12 v) a);
                      out = write_i32 out (34 + a * 4) (at3 (gps_velocity_q24 v) a)
                  in write_i16 out (46 + a * 2) (at3 (star_angle v) a)) out;
          out = write_i32 out 52 (rcs_propellant_q12 v);
          out = write_u32 out 56 (vehicle_status v);
          c = crc16_ccitt (take 62 out)
      in (Inr (), write_u16 out 62 c))"

definition parse_realtime_aid :: "u8 list \<Rightarrow> CodecError + RealtimeAidCell" where
  "parse_realtime_aid b =
     and_then (cell_check b 64 3) (\<lambda>u.
       if b ! 60 \<noteq> 0 \<or> b ! 61 \<noteq> 0 then Inl Reserved
       else
       let p = make3 (\<lambda>a. read_i32 b (22 + a * 4));
           v = make3 (\<lambda>a. read_i32 b (34 + a * 4));
           s = make3 (\<lambda>a. read_i16 b (46 + a * 2))
       in Inr \<lparr>ra_session = read_u16 b 4, ra_measurement_epoch = read_u16 b 6,
               ra_production_epoch = read_u16 b 8, ra_validity = read_u16 b 10, ra_events = read_u16 b 12,
               onboard_time_q16 = read_i32 b 14, barometer_q12 = read_i32 b 18,
               gps_position_q12 = p, gps_velocity_q24 = v, star_angle = s,
               rcs_propellant_q12 = read_i32 b 52, vehicle_status = read_u32 b 56\<rparr>)"

subsection \<open>Status cells\<close>

record RealtimeStatusCell =
  rs_session :: u16
  rs_source_epoch :: u16
  rs_production_epoch :: u16
  rs_mode :: u8
  rs_flags :: u8
  alarms :: u16
  navigation_position_q12 :: "i32 vec3"
  navigation_velocity_q24 :: "i32 vec3"
  flight_checksum :: u32
  deadline_misses :: u16

definition write_realtime_status :: "RealtimeStatusCell \<Rightarrow> u8 list \<Rightarrow> (CodecError + unit) \<times> u8 list" where
  "write_realtime_status v out =
     (if length out \<noteq> 48 then (Inl CodecError.Length, out)
      else
      let out = fill0 out;
          out = cell_prefix out 4 (rs_session v) (rs_source_epoch v) (rs_production_epoch v);
          out = out[10 := rs_mode v];
          out = out[11 := rs_flags v];
          out = write_u16 out 12 (alarms v);
          out = for3 (\<lambda>a out.
                  let out = write_i32 out (14 + a * 4) (at3 (navigation_position_q12 v) a)
                  in write_i32 out (26 + a * 4) (at3 (navigation_velocity_q24 v) a)) out;
          out = write_u32 out 38 (flight_checksum v);
          out = write_u16 out 42 (deadline_misses v);
          c = crc16_ccitt (take 46 out)
      in (Inr (), write_u16 out 46 c))"

definition parse_realtime_status :: "u8 list \<Rightarrow> CodecError + RealtimeStatusCell" where
  "parse_realtime_status b =
     and_then (cell_check b 48 4) (\<lambda>u.
       if b ! 44 \<noteq> 0 \<or> b ! 45 \<noteq> 0 then Inl Reserved
       else
       let p = make3 (\<lambda>a. read_i32 b (14 + a * 4));
           v = make3 (\<lambda>a. read_i32 b (26 + a * 4))
       in Inr \<lparr>rs_session = read_u16 b 4, rs_source_epoch = read_u16 b 6,
               rs_production_epoch = read_u16 b 8, rs_mode = b ! 10, rs_flags = b ! 11,
               alarms = read_u16 b 12, navigation_position_q12 = p, navigation_velocity_q24 = v,
               flight_checksum = read_u32 b 38, deadline_misses = read_u16 b 42\<rparr>)"

subsection \<open>Ground tracking fixes\<close>

record GroundTrackingFix =
  fix_id :: u32
  fix_measurement_epoch :: u32
  fix_production_epoch :: u32
  position_ecef_q12 :: "i32 vec3"
  velocity_ecef_q24 :: "i32 vec3"
  network_id :: u16
  fix_validity :: u16

definition write_ground_tracking_fix :: "GroundTrackingFix \<Rightarrow> u8 list \<Rightarrow> (CodecError + unit) \<times> u8 list" where
  "write_ground_tracking_fix v out =
     (if length out \<noteq> 40 then (Inl CodecError.Length, out)
      else
      let out = fill0 out;
          out = write_u32 out 0 (fix_id v);
          out = write_u32 out 4 (fix_measurement_epoch v);
          out = write_u32 out 8 (fix_production_epoch v);
          out = for3 (\<lambda>a out.
                  let out = write_i32 out (12 + a * 4) (at3 (position_ecef_q12 v) a)
                  in write_i32 out (24 + a * 4) (at3 (velocity_ecef_q24 v) a)) out;
          out = write_u16 out 36 (network_id v)
      in (Inr (), write_u16 out 38 (fix_validity v)))"

definition parse_ground_tracking_fix :: "u8 list \<Rightarrow> CodecError + GroundTrackingFix" where
  "parse_ground_tracking_fix b =
     (if length b \<noteq> 40 then Inl CodecError.Length
      else
      let p = make3 (\<lambda>a. read_i32 b (12 + a * 4));
          v = make3 (\<lambda>a. read_i32 b (24 + a * 4))
      in Inr \<lparr>fix_id = read_u32 b 0, fix_measurement_epoch = read_u32 b 4,
              fix_production_epoch = read_u32 b 8, position_ecef_q12 = p, velocity_ecef_q24 = v,
              network_id = read_u16 b 36, fix_validity = read_u16 b 38\<rparr>)"

subsection \<open>Round trips\<close>

text \<open>
  The access laws with the record's length as an explicit value, which keeps the
  rewriting of long chains of writes linear.
\<close>

named_theorems sized_access \<open>reads after writes in a record of known length\<close>

lemma length_sized [sized_access]:
  "length out = n \<Longrightarrow> i + 2 \<le> n \<Longrightarrow> length (write_u16 out i v) = n"
  "length out = n \<Longrightarrow> i + 4 \<le> n \<Longrightarrow> length (write_u32 out i w) = n"
  by (simp_all add: record_access)

lemma read_same_sized [sized_access]:
  "length out = n \<Longrightarrow> i + 2 \<le> n \<Longrightarrow> read_u16 (write_u16 out i v) i = v"
  "length out = n \<Longrightarrow> i + 4 \<le> n \<Longrightarrow> read_u32 (write_u32 out i w) i = w"
  by (simp_all add: record_access)

lemma read_other_sized [sized_access]:
  "length out = n \<Longrightarrow> i + 2 \<le> n \<Longrightarrow> j + 2 \<le> n \<Longrightarrow> j + 2 \<le> i \<or> i + 2 \<le> j \<Longrightarrow>
     read_u16 (write_u16 out i v) j = read_u16 out j"
  "length out = n \<Longrightarrow> i + 4 \<le> n \<Longrightarrow> j + 2 \<le> n \<Longrightarrow> j + 2 \<le> i \<or> i + 4 \<le> j \<Longrightarrow>
     read_u16 (write_u32 out i w) j = read_u16 out j"
  "length out = n \<Longrightarrow> i + 2 \<le> n \<Longrightarrow> j + 4 \<le> n \<Longrightarrow> j + 4 \<le> i \<or> i + 2 \<le> j \<Longrightarrow>
     read_u32 (write_u16 out i v) j = read_u32 out j"
  "length out = n \<Longrightarrow> i + 4 \<le> n \<Longrightarrow> j + 4 \<le> n \<Longrightarrow> j + 4 \<le> i \<or> i + 4 \<le> j \<Longrightarrow>
     read_u32 (write_u32 out i w) j = read_u32 out j"
  by (simp_all add: record_access)

lemma nth_sized [sized_access]:
  "length out = n \<Longrightarrow> i + 2 \<le> n \<Longrightarrow> j < n \<Longrightarrow> j < i \<or> i + 2 \<le> j \<Longrightarrow> write_u16 out i v ! j = out ! j"
  "length out = n \<Longrightarrow> i + 4 \<le> n \<Longrightarrow> j < n \<Longrightarrow> j < i \<or> i + 4 \<le> j \<Longrightarrow> write_u32 out i w ! j = out ! j"
  by (simp_all add: record_access)

lemma take_sized [sized_access]:
  "length out = n \<Longrightarrow> i \<le> n \<Longrightarrow> k \<le> i \<Longrightarrow> take k (write_u16 out i v) = take k out"
  "length out = n \<Longrightarrow> i \<le> n \<Longrightarrow> k \<le> i \<Longrightarrow> take k (write_u32 out i w) = take k out"
  by (simp_all add: record_access)

lemma length_klr6_sync [simp]: "length KLR6_SYNC = 2"
  by (simp add: KLR6_SYNC_def)

lemma length_cell_prefix [sized_access]:
  "length out = n \<Longrightarrow> 10 \<le> n \<Longrightarrow> length (cell_prefix out k s a b) = n"
  by (simp add: cell_prefix_def record_access)

lemma cell_prefix_fields [sized_access]:
  assumes "length out = n" "10 \<le> n"
  shows "take 2 (cell_prefix out k s a b) = KLR6_SYNC" "cell_prefix out k s a b ! 2 = 6"
    "cell_prefix out k s a b ! 3 = k" "read_u16 (cell_prefix out k s a b) 4 = s"
    "read_u16 (cell_prefix out k s a b) 6 = a" "read_u16 (cell_prefix out k s a b) 8 = b"
    "10 \<le> i \<Longrightarrow> i < n \<Longrightarrow> cell_prefix out k s a b ! i = out ! i"
proof -
  have m: "take 2 (copy_from_slice x 0 KLR6_SYNC) = KLR6_SYNC" for x
    by (simp add: copy_from_slice_def)
  show "take 2 (cell_prefix out k s a b) = KLR6_SYNC" "cell_prefix out k s a b ! 2 = 6"
    "cell_prefix out k s a b ! 3 = k" "read_u16 (cell_prefix out k s a b) 4 = s"
    "read_u16 (cell_prefix out k s a b) 6 = a" "read_u16 (cell_prefix out k s a b) 8 = b"
    "10 \<le> i \<Longrightarrow> i < n \<Longrightarrow> cell_prefix out k s a b ! i = out ! i"
    using assms by (simp_all add: cell_prefix_def record_access m)
qed

lemmas cell_access = read_i16_def write_i16_def read_i32_def write_i32_def make3_def Let_def
  read_update_other sized_access

definition seal16 :: "u8 list \<Rightarrow> u8 list" where
  "seal16 b = write_u16 b (length b - 2) (crc16_ccitt (take (length b - 2) b))"

lemma seal16_fields:
  assumes "length b = n" "2 \<le> n"
  shows "length (seal16 b) = n" "k + 2 \<le> n \<Longrightarrow> take k (seal16 b) = take k b"
    "j + 2 < n \<Longrightarrow> seal16 b ! j = b ! j"
    "j + 4 \<le> n \<Longrightarrow> read_u16 (seal16 b) j = read_u16 b j"
    "j + 6 \<le> n \<Longrightarrow> read_u32 (seal16 b) j = read_u32 b j"
    "read_u16 (seal16 b) (n - 2) = crc16_ccitt (take (n - 2) (seal16 b))"
proof -
  obtain m where n: "n = m + 2" using assms(2) le_Suc_ex by (metis add.commute)
  then show "length (seal16 b) = n" "k + 2 \<le> n \<Longrightarrow> take k (seal16 b) = take k b"
    "j + 2 < n \<Longrightarrow> seal16 b ! j = b ! j"
    "j + 4 \<le> n \<Longrightarrow> read_u16 (seal16 b) j = read_u16 b j"
    "j + 6 \<le> n \<Longrightarrow> read_u32 (seal16 b) j = read_u32 b j"
    "read_u16 (seal16 b) (n - 2) = crc16_ccitt (take (n - 2) (seal16 b))"
    using assms(1) by (auto simp: seal16_def record_access)
qed

lemma cell_check_seal16:
  assumes "length b = n" "6 \<le> n" "take 2 b = KLR6_SYNC" "b ! 2 = 6" "b ! 3 = k"
  shows "cell_check (seal16 b) n k = Inr ()"
  using assms by (simp add: cell_check_def seal16_fields)

definition inertial_image :: "RealtimeInertialCell \<Rightarrow> u8 list \<Rightarrow> u8 list" where
  "inertial_image v out =
     (let out = cell_prefix (fill0 out) 1 (ri_session v) (ri_measurement_epoch v) (ri_production_epoch v);
          out = out[10 := ri_validity v, 11 := ri_flags v];
          out = for3 (\<lambda>a out.
                  let out = write_i16 out (12 + a * 2) (at3 (platform_angle v) a);
                      out = write_i16 out (18 + a * 2) (at3 (angular_rate v) a)
                  in write_i16 out (24 + a * 2) (at3 (delta_velocity v) a)) out;
          out = write_i16 (write_i16 out 30 (fst (gimbal_applied v))) 32 (snd (gimbal_applied v))
      in write_u16 out 34 (stage_status v))"

lemma inertial_image_fields:
  assumes "length out = 40" "b = inertial_image v out"
  shows "length b = 40" "take 2 b = KLR6_SYNC" "b ! 2 = 6" "b ! 3 = 1" "b ! 36 = 0" "b ! 37 = 0"
    "read_u16 b 4 = ri_session v" "read_u16 b 6 = ri_measurement_epoch v" "read_u16 b 8 = ri_production_epoch v"
    "b ! 10 = ri_validity v" "b ! 11 = ri_flags v" "read_u16 b 34 = stage_status v"
    "(read_u16 b 12, read_u16 b 14, read_u16 b 16) = platform_angle v"
    "(read_u16 b 18, read_u16 b 20, read_u16 b 22) = angular_rate v"
    "(read_u16 b 24, read_u16 b 26, read_u16 b 28) = delta_velocity v"
    "(read_u16 b 30, read_u16 b 32) = gimbal_applied v"
  using assms(1) by (simp_all add: assms(2) inertial_image_def cell_access)

lemma write_inertial_image:
  assumes "length out = 40"
  shows "write_realtime_inertial v out = (Inr (), seal16 (inertial_image v out))"
  using assms inertial_image_fields(1) [OF assms refl, of v]
  by (simp add: write_realtime_inertial_def seal16_def inertial_image_def Let_def)

lemma inertial_roundtrip:
  assumes "length out = 40"
  shows "parse_realtime_inertial (seal16 (inertial_image v out)) = Inr v"
proof -
  note f = inertial_image_fields [OF assms refl, of v] and sf = seal16_fields [OF inertial_image_fields(1) [OF assms refl, of v]]
  show ?thesis
    by (simp add: parse_realtime_inertial_def cell_check_seal16 f(1-4) make3_def read_i16_def sf)
       (simp add: f)
qed

definition command_image :: "RealtimeCommandCell \<Rightarrow> u8 list \<Rightarrow> u8 list" where
  "command_image v out =
     (let out = cell_prefix (fill0 out) 2 (rc_session v) (rc_source_epoch v) (rc_effective_epoch v);
          out = out[10 := rc_flags v, 11 := discrete v];
          out = write_i16 (write_i16 out 12 (fst (gimbal v))) 14 (snd (gimbal v))
      in out[16 := at3 (rcs v) 0, 17 := at3 (rcs v) 1, 18 := at3 (rcs v) 2, 19 := rc_status v])"

lemma command_image_fields:
  assumes "length out = 24" "b = command_image v out"
  shows "length b = 24" "take 2 b = KLR6_SYNC" "b ! 2 = 6" "b ! 3 = 2" "b ! 20 = 0" "b ! 21 = 0"
    "read_u16 b 4 = rc_session v" "read_u16 b 6 = rc_source_epoch v" "read_u16 b 8 = rc_effective_epoch v"
    "b ! 10 = rc_flags v" "b ! 11 = discrete v" "(read_u16 b 12, read_u16 b 14) = gimbal v"
    "(b ! 16, b ! 17, b ! 18) = rcs v" "b ! 19 = rc_status v"
  using assms(1) by (simp_all add: assms(2) command_image_def cell_access)

lemma write_command_image:
  assumes "length out = 24"
  shows "write_realtime_command v out = (Inr (), seal16 (command_image v out))"
  using assms command_image_fields(1) [OF assms refl, of v]
  by (simp add: write_realtime_command_def seal16_def command_image_def Let_def)

lemma command_roundtrip:
  assumes "length out = 24"
  shows "parse_realtime_command (seal16 (command_image v out)) = Inr v"
proof -
  note f = command_image_fields [OF assms refl, of v]
  show ?thesis
    by (simp add: parse_realtime_command_def cell_check_seal16 f(1-4) read_i16_def seal16_fields [OF f(1)])
       (simp add: f)
qed

definition aid_image :: "RealtimeAidCell \<Rightarrow> u8 list \<Rightarrow> u8 list" where
  "aid_image v out =
     (let out = cell_prefix (fill0 out) 3 (ra_session v) (ra_measurement_epoch v) (ra_production_epoch v);
          out = write_u16 (write_u16 out 10 (ra_validity v)) 12 (ra_events v);
          out = write_i32 (write_i32 out 14 (onboard_time_q16 v)) 18 (barometer_q12 v);
          out = for3 (\<lambda>a out.
                  let out = write_i32 out (22 + a * 4) (at3 (gps_position_q12 v) a);
                      out = write_i32 out (34 + a * 4) (at3 (gps_velocity_q24 v) a)
                  in write_i16 out (46 + a * 2) (at3 (star_angle v) a)) out
      in write_u32 (write_i32 out 52 (rcs_propellant_q12 v)) 56 (vehicle_status v))"

lemma aid_image_fields:
  assumes "length out = 64" "b = aid_image v out"
  shows "length b = 64" "take 2 b = KLR6_SYNC" "b ! 2 = 6" "b ! 3 = 3" "b ! 60 = 0" "b ! 61 = 0"
    "read_u16 b 4 = ra_session v" "read_u16 b 6 = ra_measurement_epoch v" "read_u16 b 8 = ra_production_epoch v"
    "read_u16 b 10 = ra_validity v" "read_u16 b 12 = ra_events v"
    "read_u32 b 14 = onboard_time_q16 v" "read_u32 b 18 = barometer_q12 v"
    "(read_u32 b 22, read_u32 b 26, read_u32 b 30) = gps_position_q12 v"
    "(read_u32 b 34, read_u32 b 38, read_u32 b 42) = gps_velocity_q24 v"
    "(read_u16 b 46, read_u16 b 48, read_u16 b 50) = star_angle v"
    "read_u32 b 52 = rcs_propellant_q12 v" "read_u32 b 56 = vehicle_status v"
  using assms(1) by (simp_all add: assms(2) aid_image_def cell_access)

lemma write_aid_image:
  assumes "length out = 64"
  shows "write_realtime_aid v out = (Inr (), seal16 (aid_image v out))"
  using assms aid_image_fields(1) [OF assms refl, of v]
  by (simp add: write_realtime_aid_def seal16_def aid_image_def Let_def)

lemma aid_roundtrip:
  assumes "length out = 64"
  shows "parse_realtime_aid (seal16 (aid_image v out)) = Inr v"
proof -
  note f = aid_image_fields [OF assms refl, of v]
  show ?thesis
    by (simp add: parse_realtime_aid_def cell_check_seal16 f(1-4) make3_def read_i16_def read_i32_def
        seal16_fields [OF f(1)]) (simp add: f)
qed

definition status_image :: "RealtimeStatusCell \<Rightarrow> u8 list \<Rightarrow> u8 list" where
  "status_image v out =
     (let out = cell_prefix (fill0 out) 4 (rs_session v) (rs_source_epoch v) (rs_production_epoch v);
          out = write_u16 (out[10 := rs_mode v, 11 := rs_flags v]) 12 (alarms v);
          out = for3 (\<lambda>a out.
                  let out = write_i32 out (14 + a * 4) (at3 (navigation_position_q12 v) a)
                  in write_i32 out (26 + a * 4) (at3 (navigation_velocity_q24 v) a)) out
      in write_u16 (write_u32 out 38 (flight_checksum v)) 42 (deadline_misses v))"

lemma status_image_fields:
  assumes "length out = 48" "b = status_image v out"
  shows "length b = 48" "take 2 b = KLR6_SYNC" "b ! 2 = 6" "b ! 3 = 4" "b ! 44 = 0" "b ! 45 = 0"
    "read_u16 b 4 = rs_session v" "read_u16 b 6 = rs_source_epoch v" "read_u16 b 8 = rs_production_epoch v"
    "b ! 10 = rs_mode v" "b ! 11 = rs_flags v" "read_u16 b 12 = alarms v"
    "(read_u32 b 14, read_u32 b 18, read_u32 b 22) = navigation_position_q12 v"
    "(read_u32 b 26, read_u32 b 30, read_u32 b 34) = navigation_velocity_q24 v"
    "read_u32 b 38 = flight_checksum v" "read_u16 b 42 = deadline_misses v"
  using assms(1) by (simp_all add: assms(2) status_image_def cell_access)

lemma write_status_image:
  assumes "length out = 48"
  shows "write_realtime_status v out = (Inr (), seal16 (status_image v out))"
  using assms status_image_fields(1) [OF assms refl, of v]
  by (simp add: write_realtime_status_def seal16_def status_image_def Let_def)

lemma status_roundtrip:
  assumes "length out = 48"
  shows "parse_realtime_status (seal16 (status_image v out)) = Inr v"
proof -
  note f = status_image_fields [OF assms refl, of v]
  show ?thesis
    by (simp add: parse_realtime_status_def cell_check_seal16 f(1-4) make3_def read_i32_def
        seal16_fields [OF f(1)]) (simp add: f)
qed

lemma fix_fields:
  assumes "length out = 40" "write_ground_tracking_fix v out = (r, b)"
  shows "r = Inr ()" "length b = 40" "read_u32 b 0 = fix_id v" "read_u32 b 4 = fix_measurement_epoch v"
    "read_u32 b 8 = fix_production_epoch v" "read_u16 b 36 = network_id v" "read_u16 b 38 = fix_validity v"
    "(read_u32 b 12, read_u32 b 16, read_u32 b 20) = position_ecef_q12 v"
    "(read_u32 b 24, read_u32 b 28, read_u32 b 32) = velocity_ecef_q24 v"
  using assms by (auto simp: write_ground_tracking_fix_def cell_access)

subsection \<open>The cell interface\<close>

text \<open>
  What the realtime link relies on: a cell codec refuses buffers of another length,
  round trips on its own, and accepts only cells whose trailing CRC-16 matches.
\<close>

locale cell_codec =
  fixes write_cell :: "'c \<Rightarrow> u8 list \<Rightarrow> (CodecError + unit) \<times> u8 list"
    and parse_cell :: "u8 list \<Rightarrow> CodecError + 'c" and cell_length :: nat and kind :: u8
  assumes write_refuses: "length out \<noteq> cell_length \<Longrightarrow> write_cell v out = (Inl CodecError.Length, out)"
    and write_parse: "length out = cell_length \<Longrightarrow>
      \<exists>b. write_cell v out = (Inr (), b) \<and> length b = cell_length \<and> parse_cell b = Inr v"
    and parse_checked: "parse_cell b = Inr v \<Longrightarrow> cell_check b cell_length kind = Inr ()"
    and two_le: "2 \<le> cell_length"
begin

lemma contract:
  "case write_cell v out of
     (Inl e, b) \<Rightarrow> e = CodecError.Length \<and> b = out \<and> length out \<noteq> cell_length
   | (Inr u, b) \<Rightarrow> length out = cell_length \<and> length b = cell_length \<and> parse_cell b = Inr v"
  using write_refuses [where out = out and v = v] write_parse [where out = out and v = v] by (cases "length out = cell_length") auto

lemma parse_sealed:
  assumes "parse_cell b = Inr v"
  shows "length b = cell_length" "crc16_ccitt (take (cell_length - 2) b) = read_u16 b (cell_length - 2)"
  using parse_checked [OF assms] by (auto simp: cell_check_def split: if_splits)

lemma corruption_rejected:
  assumes "parse_cell b = Inr v" "i < cell_length" "x \<noteq> b ! i"
  shows "\<not> is_ok (parse_cell (b[i := x]))"
  using crc16_record.corruption_detected [of "cell_length - 2" b i x] parse_sealed [OF assms(1)] assms(2,3)
    parse_sealed [of "b[i := x]"] two_le by (auto simp: is_ok_iff)

lemma transmission_corruption:
  assumes "write_cell v out = (Inr u, b)" "i < cell_length" "x \<noteq> b ! i"
  shows "\<not> is_ok (parse_cell (b[i := x]))"
proof -
  have "parse_cell b = Inr v" using contract [where v = v and out = out] assms(1) by simp
  then show ?thesis using assms(2,3) by (rule corruption_rejected)
qed

end

interpretation inertial: cell_codec write_realtime_inertial parse_realtime_inertial 40 1
proof
  show "\<exists>b. write_realtime_inertial v out = (Inr (), b) \<and> length b = 40 \<and> parse_realtime_inertial b = Inr v"
    if "length out = 40" for v out
    using that by (simp add: write_inertial_image inertial_roundtrip seal16_fields inertial_image_fields)
qed (auto simp: write_realtime_inertial_def parse_realtime_inertial_def)

interpretation command: cell_codec write_realtime_command parse_realtime_command 24 2
proof
  show "\<exists>b. write_realtime_command v out = (Inr (), b) \<and> length b = 24 \<and> parse_realtime_command b = Inr v"
    if "length out = 24" for v out
    using that by (simp add: write_command_image command_roundtrip seal16_fields command_image_fields)
qed (auto simp: write_realtime_command_def parse_realtime_command_def)

interpretation aid: cell_codec write_realtime_aid parse_realtime_aid 64 3
proof
  show "\<exists>b. write_realtime_aid v out = (Inr (), b) \<and> length b = 64 \<and> parse_realtime_aid b = Inr v"
    if "length out = 64" for v out
    using that by (simp add: write_aid_image aid_roundtrip seal16_fields aid_image_fields)
qed (auto simp: write_realtime_aid_def parse_realtime_aid_def)

interpretation status: cell_codec write_realtime_status parse_realtime_status 48 4
proof
  show "\<exists>b. write_realtime_status v out = (Inr (), b) \<and> length b = 48 \<and> parse_realtime_status b = Inr v"
    if "length out = 48" for v out
    using that by (simp add: write_status_image status_roundtrip seal16_fields status_image_fields)
qed (auto simp: write_realtime_status_def parse_realtime_status_def)

subsection \<open>The contract of the cells\<close>

text \<open>
  Sensor cells round trip. Inertial and aiding cells are written exactly into
  buffers of 40 and 64 bytes, every other buffer is refused unchanged, and what is
  written parses back to the same cell, signed axes included.
\<close>
theorem sensor_cells_roundtrip:
  "(case write_realtime_inertial v out of
      (Inl e, b) \<Rightarrow> e = CodecError.Length \<and> b = out \<and> length out \<noteq> 40
    | (Inr u, b) \<Rightarrow> length out = 40 \<and> length b = 40 \<and> parse_realtime_inertial b = Inr v)
   \<and> (case write_realtime_aid w out of
      (Inl e, b) \<Rightarrow> e = CodecError.Length \<and> b = out \<and> length out \<noteq> 64
    | (Inr u, b) \<Rightarrow> length out = 64 \<and> length b = 64 \<and> parse_realtime_aid b = Inr w)"
  by (rule conjI [OF inertial.contract aid.contract])

text \<open>
  Flight cells round trip: command and status cells, and the ground tracking fix
  the broker forwards, under the same contract at 24, 48 and 40 bytes.
\<close>
theorem flight_cells_roundtrip:
  "(case write_realtime_command v out of
      (Inl e, b) \<Rightarrow> e = CodecError.Length \<and> b = out \<and> length out \<noteq> 24
    | (Inr u, b) \<Rightarrow> length out = 24 \<and> length b = 24 \<and> parse_realtime_command b = Inr v)
   \<and> (case write_realtime_status w out of
      (Inl e, b) \<Rightarrow> e = CodecError.Length \<and> b = out \<and> length out \<noteq> 48
    | (Inr u, b) \<Rightarrow> length out = 48 \<and> length b = 48 \<and> parse_realtime_status b = Inr w)
   \<and> (case write_ground_tracking_fix x out of
      (Inl e, b) \<Rightarrow> e = CodecError.Length \<and> b = out \<and> length out \<noteq> 40
    | (Inr u, b) \<Rightarrow> length out = 40 \<and> length b = 40 \<and> parse_ground_tracking_fix b = Inr x)"
proof (intro conjI)
  show "case write_ground_tracking_fix x out of
      (Inl e, b) \<Rightarrow> e = CodecError.Length \<and> b = out \<and> length out \<noteq> 40
    | (Inr u, b) \<Rightarrow> length out = 40 \<and> length b = 40 \<and> parse_ground_tracking_fix b = Inr x"
  proof (cases "length out = 40")
    case True
    obtain r b where w: "write_ground_tracking_fix x out = (r, b)" by fastforce
    note f = fix_fields [OF True w]
    show ?thesis using w f True by (simp add: parse_ground_tracking_fix_def make3_def read_i32_def)
  qed (simp add: write_ground_tracking_fix_def)
qed (rule command.contract, rule status.contract)

definition sample_inertial :: RealtimeInertialCell where
  "sample_inertial = \<lparr>ri_session = 7, ri_measurement_epoch = 31, ri_production_epoch = 32, ri_validity = 7,
     ri_flags = 1, platform_angle = (- 100, 2, 3), angular_rate = (4, - 5, 6), delta_velocity = (7, 8, - 9),
     gimbal_applied = (1, - 1), stage_status = 2\<rparr>"

definition sample_command :: RealtimeCommandCell where
  "sample_command = \<lparr>rc_session = 7, rc_source_epoch = 32, rc_effective_epoch = 34, rc_flags = 1, discrete = 2,
     gimbal = (- 3, 4), rcs = (1, - 1, 0), rc_status = 5\<rparr>"

definition sample_aid :: RealtimeAidCell where
  "sample_aid = \<lparr>ra_session = 7, ra_measurement_epoch = 31, ra_production_epoch = 32, ra_validity = 3,
     ra_events = 0, onboard_time_q16 = 65536, barometer_q12 = 4096, gps_position_q12 = (1, - 2, 3),
     gps_velocity_q24 = (4, 5, - 6), star_angle = (0, 0, 1), rcs_propellant_q12 = 9, vehicle_status = 1\<rparr>"

definition sample_status :: RealtimeStatusCell where
  "sample_status = \<lparr>rs_session = 7, rs_source_epoch = 31, rs_production_epoch = 32, rs_mode = 2, rs_flags = 0,
     alarms = 0, navigation_position_q12 = (1, 2, - 3), navigation_velocity_q24 = (- 4, 5, 6),
     flight_checksum = 0xdeadbeef, deadline_misses = 0\<rparr>"

text \<open>
  A cell damaged in any one byte on the wire is rejected, for all four cell kinds.
\<close>
theorem cell_corruption_rejected:
  assumes "write_realtime_inertial vi oi = (Inr u, bi)" "i < 40" "xi \<noteq> bi ! i"
    and "write_realtime_command vc oc = (Inr u, bc)" "c < 24" "xc \<noteq> bc ! c"
    and "write_realtime_aid va oa = (Inr u, ba)" "a < 64" "xa \<noteq> ba ! a"
    and "write_realtime_status vs os = (Inr u, bs)" "s < 48" "xs \<noteq> bs ! s"
  shows "\<not> is_ok (parse_realtime_inertial (bi[i := xi])) \<and> \<not> is_ok (parse_realtime_command (bc[c := xc]))
    \<and> \<not> is_ok (parse_realtime_aid (ba[a := xa])) \<and> \<not> is_ok (parse_realtime_status (bs[s := xs]))"
  using inertial.transmission_corruption [OF assms(1-3)] command.transmission_corruption [OF assms(4-6)]
    aid.transmission_corruption [OF assms(7-9)] status.transmission_corruption [OF assms(10-12)] by blast

theorem cell_corruption_rejected_witness:
  "\<exists>bi bc ba bs. write_realtime_inertial sample_inertial (replicate 40 0) = (Inr (), bi)
     \<and> write_realtime_command sample_command (replicate 24 0) = (Inr (), bc)
     \<and> write_realtime_aid sample_aid (replicate 64 0) = (Inr (), ba)
     \<and> write_realtime_status sample_status (replicate 48 0) = (Inr (), bs)
     \<and> \<not> is_ok (parse_realtime_inertial (bi[0 := bi ! 0 + 1])) \<and> \<not> is_ok (parse_realtime_command (bc[23 := bc ! 23 + 1]))
     \<and> \<not> is_ok (parse_realtime_aid (ba[30 := ba ! 30 + 1])) \<and> \<not> is_ok (parse_realtime_status (bs[4 := bs ! 4 + 1]))"
proof -
  obtain bi bc ba bs where w: "write_realtime_inertial sample_inertial (replicate 40 0) = (Inr (), bi)"
      "write_realtime_command sample_command (replicate 24 0) = (Inr (), bc)"
      "write_realtime_aid sample_aid (replicate 64 0) = (Inr (), ba)"
      "write_realtime_status sample_status (replicate 48 0) = (Inr (), bs)"
    by (simp add: write_inertial_image write_command_image write_aid_image write_status_image)
  have ne: "x + 1 \<noteq> x" for x :: u8 by simp
  have "\<not> is_ok (parse_realtime_inertial (bi[0 := bi ! 0 + 1])) \<and> \<not> is_ok (parse_realtime_command (bc[23 := bc ! 23 + 1]))
     \<and> \<not> is_ok (parse_realtime_aid (ba[30 := ba ! 30 + 1])) \<and> \<not> is_ok (parse_realtime_status (bs[4 := bs ! 4 + 1]))"
    by (rule cell_corruption_rejected [OF w(1) _ ne w(2) _ ne w(3) _ ne w(4) _ ne]) simp_all
  with w show ?thesis by blast
qed

end
