(* ===== verification/Byte_Transport.thy ===== *)
theory Byte_Transport
  imports Realtime_Cells
begin

text \<open>
  Nonblocking byte transports of phase 6 (\<^verbatim>\<open>interface/src/phase6_transport.rs\<close>): the ring
  buffer, the in-memory transport, the ACIA and Ultimate UCI drivers over a device
  given as a parameter, and the staged transmitters. The ring buffer is shown to be a
  bounded first-in first-out queue, and the transmitters are proved against that
  interface.
\<close>

unbundle bit_operations_syntax

datatype TransportError = Disconnected | Fault | Capacity

type_synonym 't reader = "'t \<Rightarrow> (TransportError + u8 option) \<times> 't"
type_synonym 't writer = "'t \<Rightarrow> u8 \<Rightarrow> (TransportError + bool) \<times> 't"

subsection \<open>The ring buffer\<close>

record ByteQueue =
  ring :: "u8 list"
  read_index :: nat
  write_index :: nat
  queue_length :: nat

definition new_queue :: "nat \<Rightarrow> ByteQueue" where
  "new_queue n = \<lparr>ring = replicate n 0, read_index = 0, write_index = 0, queue_length = 0\<rparr>"

definition remaining :: "ByteQueue \<Rightarrow> nat" where
  "remaining self = length (ring self) - queue_length self"

definition queue_push :: "ByteQueue \<Rightarrow> u8 \<Rightarrow> (TransportError + unit) \<times> ByteQueue" where
  "queue_push self byte =
     (if queue_length self = length (ring self) then (Inl TransportError.Capacity, self)
      else
      let self = self\<lparr>ring := (ring self)[write_index self := byte]\<rparr>;
          self = self\<lparr>write_index := (if write_index self + 1 = length (ring self) then 0
                                     else write_index self + 1)\<rparr>
      in (Inr (), self\<lparr>queue_length := queue_length self + 1\<rparr>))"

definition queue_pop :: "ByteQueue \<Rightarrow> u8 option \<times> ByteQueue" where
  "queue_pop self =
     (if queue_length self = 0 then (None, self)
      else
      let byte = ring self ! read_index self;
          self = self\<lparr>read_index := (if read_index self + 1 = length (ring self) then 0
                                    else read_index self + 1)\<rparr>
      in (Some byte, self\<lparr>queue_length := queue_length self - 1\<rparr>))"

subsection \<open>The in-memory transport\<close>

record MemoryTransport =
  receive :: ByteQueue
  transmit :: ByteQueue
  mem_connected :: bool

definition new_memory :: "nat \<Rightarrow> nat \<Rightarrow> MemoryTransport" where
  "new_memory rx tx = \<lparr>receive = new_queue rx, transmit = new_queue tx, mem_connected = True\<rparr>"

definition inject :: "MemoryTransport \<Rightarrow> u8 \<Rightarrow> (TransportError + unit) \<times> MemoryTransport" where
  "inject self byte = (let (r, q) = queue_push (receive self) byte in (r, self\<lparr>receive := q\<rparr>))"

definition take_transmitted :: "MemoryTransport \<Rightarrow> u8 option \<times> MemoryTransport" where
  "take_transmitted self = (let (r, q) = queue_pop (transmit self) in (r, self\<lparr>transmit := q\<rparr>))"

definition set_connected :: "MemoryTransport \<Rightarrow> bool \<Rightarrow> MemoryTransport" where
  "set_connected self c = self\<lparr>mem_connected := c\<rparr>"

definition pending_transmit :: "MemoryTransport \<Rightarrow> nat" where
  "pending_transmit self = queue_length (transmit self)"

definition memory_try_read :: "MemoryTransport reader" where
  "memory_try_read self =
     (if \<not> mem_connected self then (Inl Disconnected, self)
      else let (r, q) = queue_pop (receive self) in (Inr r, self\<lparr>receive := q\<rparr>))"

definition memory_try_write :: "MemoryTransport writer" where
  "memory_try_write self byte =
     (if \<not> mem_connected self then (Inl Disconnected, self)
      else if remaining (transmit self) = 0 then (Inr False, self)
      else case queue_push (transmit self) byte of
        (Inl e, q) \<Rightarrow> (Inl e, self\<lparr>transmit := q\<rparr>)
      | (Inr u, q) \<Rightarrow> (Inr True, self\<lparr>transmit := q\<rparr>))"

subsection \<open>The ACIA driver\<close>

definition ACIA_STATUS_RX_READY :: u8 where "ACIA_STATUS_RX_READY = 0x08"
definition ACIA_STATUS_TX_EMPTY :: u8 where "ACIA_STATUS_TX_EMPTY = 0x10"
definition ACIA_STATUS_FAULT :: u8 where "ACIA_STATUS_FAULT = 0x07"

text \<open>The register file of the trait \<^verbatim>\<open>AciaRegisters\<close>.\<close>

record 'r AciaRegisters =
  acia_status :: "'r \<Rightarrow> u8 \<times> 'r"
  acia_read_data :: "'r \<Rightarrow> u8 \<times> 'r"
  acia_write_data :: "'r \<Rightarrow> u8 \<Rightarrow> 'r"

record 'r AciaTransport =
  registers :: 'r
  acia_connected :: bool

definition new_acia :: "'r \<Rightarrow> 'r AciaTransport" where
  "new_acia regs = \<lparr>registers = regs, acia_connected = True\<rparr>"

definition acia_try_read :: "'r AciaRegisters \<Rightarrow> 'r AciaTransport reader" where
  "acia_try_read dev self =
     (if \<not> acia_connected self then (Inl Disconnected, self)
      else
      let (stat, regs) = acia_status dev (registers self);
          self = self\<lparr>registers := regs\<rparr>
      in if stat AND ACIA_STATUS_FAULT \<noteq> 0
         then (Inl Fault, self\<lparr>acia_connected := False\<rparr>)
         else if stat AND ACIA_STATUS_RX_READY \<noteq> 0
         then let (byte, regs) = acia_read_data dev (registers self) in (Inr (Some byte), self\<lparr>registers := regs\<rparr>)
         else (Inr None, self))"

definition acia_try_write :: "'r AciaRegisters \<Rightarrow> 'r AciaTransport writer" where
  "acia_try_write dev self byte =
     (if \<not> acia_connected self then (Inl Disconnected, self)
      else
      let (stat, regs) = acia_status dev (registers self);
          self = self\<lparr>registers := regs\<rparr>
      in if stat AND ACIA_STATUS_FAULT \<noteq> 0
         then (Inl Fault, self\<lparr>acia_connected := False\<rparr>)
         else if stat AND ACIA_STATUS_TX_EMPTY = 0 then (Inr False, self)
         else (Inr True, self\<lparr>registers := acia_write_data dev (registers self) byte\<rparr>))"

subsection \<open>The Ultimate UCI driver\<close>

datatype UciPoll = PollPending | PollConnected | PollFault

text \<open>The device of the trait \<^verbatim>\<open>UciTcpDevice\<close>.\<close>

record 'd UciTcpDevice =
  begin_connect :: "'d \<Rightarrow> (TransportError + unit) \<times> 'd"
  poll_connect :: "'d \<Rightarrow> UciPoll \<times> 'd"
  try_receive :: "'d \<Rightarrow> (TransportError + u8 option) \<times> 'd"
  try_send :: "'d \<Rightarrow> u8 \<Rightarrow> (TransportError + bool) \<times> 'd"

datatype UciState = Idle | Connecting | Connected | Faulted

record 'd UltimateUciTransport =
  device :: 'd
  uci_state :: UciState

definition new_uci :: "'d \<Rightarrow> 'd UltimateUciTransport" where
  "new_uci d = \<lparr>device = d, uci_state = Idle\<rparr>"

definition uci_connect :: "'d UciTcpDevice \<Rightarrow> 'd UltimateUciTransport
    \<Rightarrow> (TransportError + unit) \<times> 'd UltimateUciTransport" where
  "uci_connect dev self =
     (if uci_state self \<noteq> Idle \<and> uci_state self \<noteq> Faulted then (Inr (), self)
      else case begin_connect dev (device self) of
        (Inl e, d) \<Rightarrow> (Inl e, self\<lparr>device := d\<rparr>)
      | (Inr u, d) \<Rightarrow> (Inr (), self\<lparr>device := d, uci_state := Connecting\<rparr>))"

definition uci_poll :: "'d UciTcpDevice \<Rightarrow> 'd UltimateUciTransport \<Rightarrow> 'd UltimateUciTransport" where
  "uci_poll dev self =
     (if uci_state self = Connecting
      then let (p, d) = poll_connect dev (device self)
           in self\<lparr>device := d, uci_state := (case p of PollPending \<Rightarrow> Connecting
                | PollConnected \<Rightarrow> Connected | PollFault \<Rightarrow> Faulted)\<rparr>
      else self)"

definition uci_try_read :: "'d UciTcpDevice \<Rightarrow> 'd UltimateUciTransport reader" where
  "uci_try_read dev self =
     (if uci_state self \<noteq> Connected then (Inl Disconnected, self)
      else case try_receive dev (device self) of
        (Inr value, d) \<Rightarrow> (Inr value, self\<lparr>device := d\<rparr>)
      | (Inl error, d) \<Rightarrow> (Inl error, self\<lparr>device := d, uci_state := Faulted\<rparr>))"

definition uci_try_write :: "'d UciTcpDevice \<Rightarrow> 'd UltimateUciTransport writer" where
  "uci_try_write dev self byte =
     (if uci_state self \<noteq> Connected then (Inl Disconnected, self)
      else case try_send dev (device self) byte of
        (Inr value, d) \<Rightarrow> (Inr value, self\<lparr>device := d\<rparr>)
      | (Inl error, d) \<Rightarrow> (Inl error, self\<lparr>device := d, uci_state := Faulted\<rparr>))"

definition uci_is_connected :: "'d UltimateUciTransport \<Rightarrow> bool" where
  "uci_is_connected self \<longleftrightarrow> uci_state self = Connected"

subsection \<open>Transmitters\<close>

function transmit_loop :: "'t writer \<Rightarrow> u8 list \<Rightarrow> nat \<Rightarrow> nat \<Rightarrow> 't \<Rightarrow> (TransportError + bool) \<times> nat \<times> 't" where
  "transmit_loop try_write bytes n offset transport =
     (if offset < n
      then case try_write transport (bytes ! offset) of
             (Inl e, transport) \<Rightarrow> (Inl e, offset, transport)
           | (Inr accepted, transport) \<Rightarrow>
               (if \<not> accepted then (Inr False, offset, transport)
                else transmit_loop try_write bytes n (offset + 1) transport)
      else (Inr True, offset, transport))"
  by pat_completeness auto
termination
  by (relation "measure (\<lambda>(_, _, n, offset, _). n - offset)") auto

declare transmit_loop.simps [simp del]

record LinkTransmitter =
  tx_encoded :: "u8 list"
  tx_length :: nat
  tx_offset :: nat

definition new_link_transmitter :: LinkTransmitter where
  "new_link_transmitter = \<lparr>tx_encoded = replicate KLF6_MAX_ENCODED 0, tx_length = 0, tx_offset = 0\<rparr>"

definition link_is_idle :: "LinkTransmitter \<Rightarrow> bool" where
  "link_is_idle self \<longleftrightarrow> tx_offset self = tx_length self"

definition link_stage :: "LinkTransmitter \<Rightarrow> LinkFrame \<Rightarrow> (LinkCodecError + unit) \<times> LinkTransmitter" where
  "link_stage self frame =
     (if \<not> link_is_idle self then (Inl LinkCodecError.Capacity, self)
      else case write_link_frame frame (replicate KLF6_MAX_DECODED 0) (tx_encoded self) of
        (Inl e, decoded, enc) \<Rightarrow> (Inl e, self\<lparr>tx_encoded := enc\<rparr>)
      | (Inr n, decoded, enc) \<Rightarrow> (Inr (), self\<lparr>tx_encoded := enc, tx_length := n, tx_offset := 0\<rparr>))"

definition link_transmit :: "'t writer \<Rightarrow> LinkTransmitter \<Rightarrow> 't \<Rightarrow> (TransportError + bool) \<times> LinkTransmitter \<times> 't" where
  "link_transmit try_write self transport =
     (let (r, offset, transport) = transmit_loop try_write (tx_encoded self) (tx_length self) (tx_offset self) transport
      in (r, self\<lparr>tx_offset := offset\<rparr>, transport))"

record ByteTransmitter =
  bt_bytes :: "u8 list"
  bt_length :: nat
  bt_offset :: nat

definition new_byte_transmitter :: "nat \<Rightarrow> ByteTransmitter" where
  "new_byte_transmitter n = \<lparr>bt_bytes = replicate n 0, bt_length = 0, bt_offset = 0\<rparr>"

definition bytes_is_idle :: "ByteTransmitter \<Rightarrow> bool" where
  "bytes_is_idle self \<longleftrightarrow> bt_offset self = bt_length self"

definition bytes_stage :: "ByteTransmitter \<Rightarrow> u8 list \<Rightarrow> (TransportError + unit) \<times> ByteTransmitter" where
  "bytes_stage self bytes =
     (if \<not> bytes_is_idle self \<or> length (bt_bytes self) < length bytes then (Inl TransportError.Capacity, self)
      else (Inr (), self\<lparr>bt_bytes := copy_from_slice (bt_bytes self) 0 bytes,
                        bt_length := length bytes, bt_offset := 0\<rparr>))"

definition bytes_transmit :: "'t writer \<Rightarrow> ByteTransmitter \<Rightarrow> 't \<Rightarrow> (TransportError + bool) \<times> ByteTransmitter \<times> 't" where
  "bytes_transmit try_write self transport =
     (let (r, offset, transport) = transmit_loop try_write (bt_bytes self) (bt_length self) (bt_offset self) transport
      in (r, self\<lparr>bt_offset := offset\<rparr>, transport))"

subsection \<open>Serial budgets\<close>

definition SERIAL_BITS_PER_BYTE_8N1 :: u32 where "SERIAL_BITS_PER_BYTE_8N1 = 10"
definition PAL_FAST_SLOT_MICROSECONDS :: u32 where "PAL_FAST_SLOT_MICROSECONDS = 31250"
definition USER_PORT_BAUD :: u32 where "USER_PORT_BAUD = 9600"
definition TURBO232_BAUD :: u32 where "TURBO232_BAUD = 57600"
definition REALTIME_WORLD_WORST_BYTES :: u16 where "REALTIME_WORLD_WORST_BYTES = 104"
definition REALTIME_FLIGHT_WORST_BYTES :: u16 where "REALTIME_FLIGHT_WORST_BYTES = 72"

record SerialSlotBudget =
  budget_baud :: u32
  budget_bytes :: u16
  wire_microseconds :: u32
  fits_fast_slot :: bool

text \<open>The products are those of a build without overflow checks.\<close>

definition serial_slot_budget :: "u32 \<Rightarrow> u16 \<Rightarrow> SerialSlotBudget" where
  "serial_slot_budget baud bytes =
     (let micros = (if baud = 0 then - 1
            else let bit_microseconds = ucast bytes * SERIAL_BITS_PER_BYTE_8N1 * 1000000;
                     quot = bit_microseconds div baud;
                     rest = bit_microseconds - quot * baud
                 in quot + (if rest = 0 then 0 else 1))
      in \<lparr>budget_baud = baud, budget_bytes = bytes, wire_microseconds = micros,
          fits_fast_slot = (micros \<le> PAL_FAST_SLOT_MICROSECONDS)\<rparr>)"

subsection \<open>The queue interface\<close>

datatype queue_op = Push u8 | Pop
datatype queue_reply = Pushed "TransportError + unit" | Popped "u8 option"

fun queue_run :: "('q \<Rightarrow> u8 \<Rightarrow> (TransportError + unit) \<times> 'q) \<Rightarrow> ('q \<Rightarrow> u8 option \<times> 'q) \<Rightarrow> 'q
    \<Rightarrow> queue_op list \<Rightarrow> queue_reply list" where
  "queue_run push pop q [] = []"
| "queue_run push pop q (Push b # ops) = (let (r, q) = push q b in Pushed r # queue_run push pop q ops)"
| "queue_run push pop q (Pop # ops) = (let (r, q) = pop q in Popped r # queue_run push pop q ops)"

text \<open>The specification: a list of at most \<^verbatim>\<open>n\<close> bytes.\<close>

fun fifo_run :: "nat \<Rightarrow> u8 list \<Rightarrow> queue_op list \<Rightarrow> queue_reply list" where
  "fifo_run n xs [] = []"
| "fifo_run n xs (Push b # ops) =
     (if length xs < n then Pushed (Inr ()) # fifo_run n (xs @ [b]) ops
      else Pushed (Inl TransportError.Capacity) # fifo_run n xs ops)"
| "fifo_run n xs (Pop # ops) =
     (case xs of [] \<Rightarrow> Popped None # fifo_run n [] ops | x # xs \<Rightarrow> Popped (Some x) # fifo_run n xs ops)"

locale bounded_fifo =
  fixes push :: "'q \<Rightarrow> u8 \<Rightarrow> (TransportError + unit) \<times> 'q" and pop :: "'q \<Rightarrow> u8 option \<times> 'q"
    and contents :: "'q \<Rightarrow> u8 list" and capacity :: "'q \<Rightarrow> nat" and invar :: "'q \<Rightarrow> bool"
  assumes bounded: "invar q \<Longrightarrow> length (contents q) \<le> capacity q"
    and push_room: "invar q \<Longrightarrow> length (contents q) < capacity q \<Longrightarrow>
      \<exists>q'. push q b = (Inr (), q') \<and> invar q' \<and> contents q' = contents q @ [b] \<and> capacity q' = capacity q"
    and push_full: "invar q \<Longrightarrow> length (contents q) = capacity q \<Longrightarrow> push q b = (Inl TransportError.Capacity, q)"
    and pop_empty: "invar q \<Longrightarrow> contents q = [] \<Longrightarrow> pop q = (None, q)"
    and pop_first: "invar q \<Longrightarrow> contents q = x # xs \<Longrightarrow>
      \<exists>q'. pop q = (Some x, q') \<and> invar q' \<and> contents q' = xs \<and> capacity q' = capacity q"
begin

lemma run_refines: "invar q \<Longrightarrow> queue_run push pop q ops = fifo_run (capacity q) (contents q) ops"
proof (induction ops arbitrary: q)
  case (Cons opn ops)
  show ?case
  proof (cases opn)
    case (Push b)
    then show ?thesis
      using Cons push_room [of q b] push_full [of q b] bounded [of q]
      by (cases "length (contents q) < capacity q") fastforce+
  next
    case Pop
    then show ?thesis
      using Cons pop_empty [of q] pop_first [of q] by (cases "contents q") fastforce+
  qed
qed simp

end

definition queue_contents :: "ByteQueue \<Rightarrow> u8 list" where
  "queue_contents q = map (\<lambda>i. ring q ! ((read_index q + i) mod length (ring q))) [0..<queue_length q]"

definition queue_invar :: "ByteQueue \<Rightarrow> bool" where
  "queue_invar q \<longleftrightarrow> queue_length q \<le> length (ring q)
     \<and> (read_index q < length (ring q) \<or> length (ring q) = 0 \<and> read_index q = 0)
     \<and> write_index q = (read_index q + queue_length q) mod length (ring q)"

abbreviation queue_capacity :: "ByteQueue \<Rightarrow> nat" where
  "queue_capacity q \<equiv> length (ring q)"

lemma length_queue_contents [simp]: "length (queue_contents q) = queue_length q"
  by (simp add: queue_contents_def)

lemma ring_positions:
  fixes r i j n :: nat
  assumes "r < n" "i < n" "j < n" "(r + i) mod n = (r + j) mod n"
  shows "i = j"
proof -
  have "(r + k) mod n = (if r + k < n then r + k else r + k - n)" if "k < n" for k
    using that assms(1) by (simp add: mod_if)
  then show ?thesis using assms by (auto split: if_splits)
qed

lemma queue_push_room:
  assumes inv: "queue_invar q" and room: "queue_length q < queue_capacity q"
  shows "\<exists>q'. queue_push q b = (Inr (), q') \<and> queue_invar q' \<and> queue_contents q' = queue_contents q @ [b]
    \<and> queue_capacity q' = queue_capacity q"
proof -
  let ?n = "queue_capacity q" and ?w = "write_index q"
  let ?q = "q\<lparr>ring := (ring q)[?w := b], write_index := (if ?w + 1 = ?n then 0 else ?w + 1),
      queue_length := queue_length q + 1\<rparr>"
  have w: "?w = (read_index q + queue_length q) mod ?n" "?w < ?n" "read_index q < ?n"
    using inv room by (auto simp: queue_invar_def intro!: mod_less_divisor)
  have other: "(read_index q + i) mod ?n \<noteq> ?w" if "i < queue_length q" for i
    using ring_positions [of "read_index q" ?n i "queue_length q"] that w room by auto
  have "queue_push q b = (Inr (), ?q)" using room by (simp add: queue_push_def Let_def)
  moreover have "queue_invar ?q"
    using inv room w by (auto simp: queue_invar_def mod_Suc)
  moreover have "queue_contents ?q = queue_contents q @ [b]"
    using w(2) by (simp add: queue_contents_def w(1) [symmetric]) (auto simp: other [THEN not_sym])
  ultimately show ?thesis by (intro exI [of _ ?q]) simp
qed

lemma queue_pop_first:
  assumes inv: "queue_invar q" and ne: "queue_contents q = x # xs"
  shows "\<exists>q'. queue_pop q = (Some x, q') \<and> queue_invar q' \<and> queue_contents q' = xs
    \<and> queue_capacity q' = queue_capacity q"
proof -
  let ?n = "queue_capacity q" and ?r = "read_index q"
  obtain m where m: "queue_length q = Suc m"
    using ne length_queue_contents [of q] by (cases "queue_length q") auto
  have r: "?r < ?n" using inv m by (auto simp: queue_invar_def)
  let ?q = "q\<lparr>read_index := Suc ?r mod ?n, queue_length := m\<rparr>"
  have wrap: "(if ?r + 1 = ?n then 0 else ?r + 1) = Suc ?r mod ?n" using r by (simp add: mod_Suc)
  have split: "queue_contents q = ring q ! ?r # map (\<lambda>i. ring q ! ((Suc ?r + i) mod ?n)) [0..<m]"
    using r unfolding queue_contents_def m by (simp add: upt_conv_Cons map_Suc_upt [symmetric] del: upt_Suc)
  have "queue_pop q = (Some (ring q ! ?r), ?q)" using m by (simp add: queue_pop_def Let_def wrap [simplified])
  moreover have "queue_invar ?q"
  proof -
    have "Suc ?r mod ?n < ?n" using r by (intro mod_less_divisor) linarith
    moreover have "(Suc ?r mod ?n + m) mod ?n = write_index q" using inv m by (simp add: queue_invar_def mod_simps)
    ultimately show ?thesis using inv m by (simp add: queue_invar_def)
  qed
  moreover have "queue_contents ?q = map (\<lambda>i. ring q ! ((Suc ?r + i) mod ?n)) [0..<m]"
    by (simp add: queue_contents_def mod_simps)
  ultimately show ?thesis using ne split by (intro exI [of _ ?q]) simp
qed

interpretation byte_queue: bounded_fifo queue_push queue_pop queue_contents queue_capacity queue_invar
proof
  fix q :: ByteQueue and b x :: u8 and xs :: "u8 list"
  show "queue_invar q \<Longrightarrow> length (queue_contents q) \<le> queue_capacity q" by (simp add: queue_invar_def)
  show "queue_invar q \<Longrightarrow> length (queue_contents q) < queue_capacity q \<Longrightarrow>
      \<exists>q'. queue_push q b = (Inr (), q') \<and> queue_invar q' \<and> queue_contents q' = queue_contents q @ [b]
        \<and> queue_capacity q' = queue_capacity q"
    by (rule queue_push_room) simp_all
  show "queue_invar q \<Longrightarrow> queue_contents q = x # xs \<Longrightarrow> \<exists>q'. queue_pop q = (Some x, q') \<and> queue_invar q'
      \<and> queue_contents q' = xs \<and> queue_capacity q' = queue_capacity q"
    by (rule queue_pop_first)
  show "queue_invar q \<Longrightarrow> length (queue_contents q) = queue_capacity q \<Longrightarrow>
      queue_push q b = (Inl TransportError.Capacity, q)"
    by (simp add: queue_push_def)
  show "queue_invar q \<Longrightarrow> queue_contents q = [] \<Longrightarrow> queue_pop q = (None, q)"
    using length_queue_contents [of q] by (simp add: queue_pop_def del: length_queue_contents)
qed

lemma new_queue_facts [simp]:
  "queue_invar (new_queue n)" "queue_contents (new_queue n) = []" "queue_capacity (new_queue n) = n"
  by (auto simp: queue_invar_def queue_contents_def new_queue_def)

text \<open>
  What a transmitter relies on: a ready transport takes each byte in order while it
  has room and refuses without loss when it has none.
\<close>

locale byte_sink =
  fixes try_write :: "'t writer" and sent :: "'t \<Rightarrow> u8 list" and room :: "'t \<Rightarrow> nat" and ready :: "'t \<Rightarrow> bool"
  assumes write_room: "ready t \<Longrightarrow> 0 < room t \<Longrightarrow> \<exists>t'. try_write t b = (Inr True, t') \<and> ready t'
      \<and> sent t' = sent t @ [b] \<and> room t' = room t - 1"
    and write_full: "ready t \<Longrightarrow> room t = 0 \<Longrightarrow> try_write t b = (Inr False, t)"
begin

lemma transmit_progress:
  assumes "ready t" "offset \<le> n" "n \<le> length bytes" "k = min (room t) (n - offset)"
  shows "\<exists>t'. transmit_loop try_write bytes n offset t = (Inr (k = n - offset), offset + k, t') \<and> ready t'
    \<and> sent t' = sent t @ take k (drop offset bytes) \<and> room t' = room t - k"
  using assms
proof (induction "n - offset" arbitrary: offset t k)
  case 0
  then show ?case by (simp add: transmit_loop.simps)
next
  case (Suc m)
  show ?case
  proof (cases "room t = 0")
    case True
    then show ?thesis
      using Suc.prems Suc.hyps(2) write_full [of t] by (simp add: transmit_loop.simps [of _ _ n offset])
  next
    case False
    obtain t1 where t1: "try_write t (bytes ! offset) = (Inr True, t1)" "ready t1"
        "sent t1 = sent t @ [bytes ! offset]" "room t1 = room t - 1"
      using write_room [of t "bytes ! offset"] Suc.prems(1) False by auto
    have lt: "offset < n" and m: "m = n - (offset + 1)" using Suc.hyps(2) by simp_all
    define j where "j = min (room t1) (n - (offset + 1))"
    then have j: "k = Suc j" "j = min (room t1) (n - (offset + 1))"
      using Suc.prems(4) Suc.hyps(2) False t1(4) by linarith+
    obtain t' where t': "transmit_loop try_write bytes n (offset + 1) t1 = (Inr (j = n - (offset + 1)), offset + 1 + j, t')"
        "ready t'" "sent t' = sent t1 @ take j (drop (offset + 1) bytes)" "room t' = room t1 - j"
      using Suc.hyps(1) [of "offset + 1" t1 j, OF m t1(2) _ Suc.prems(3) j(2)] lt by auto
    have tk: "take k (drop offset bytes) = bytes ! offset # take j (drop (offset + 1) bytes)"
      using lt Suc.prems(3) by (simp add: j(1) Cons_nth_drop_Suc [symmetric])
    have eq: "(j = n - (offset + 1)) = (k = n - offset)" "offset + 1 + j = offset + k"
      using lt by (auto simp: j(1))
    have "transmit_loop try_write bytes n offset t = (Inr (k = n - offset), offset + k, t')"
      using t'(1) t1(1) lt unfolding eq by (subst transmit_loop.simps) simp
    then show ?thesis using t' t1 tk by (simp add: j(1))
  qed
qed

end

definition memory_ready :: "MemoryTransport \<Rightarrow> bool" where
  "memory_ready t \<longleftrightarrow> mem_connected t \<and> queue_invar (receive t) \<and> queue_invar (transmit t)"

abbreviation sent_bytes :: "MemoryTransport \<Rightarrow> u8 list" where
  "sent_bytes t \<equiv> queue_contents (transmit t)"

abbreviation pending_bytes :: "MemoryTransport \<Rightarrow> u8 list" where
  "pending_bytes t \<equiv> queue_contents (receive t)"

interpretation memory_sink: byte_sink memory_try_write sent_bytes "\<lambda>t. remaining (transmit t)" memory_ready
proof
  fix t :: MemoryTransport and b
  assume r: "memory_ready t"
  show "\<exists>t'. memory_try_write t b = (Inr True, t') \<and> memory_ready t' \<and> sent_bytes t' = sent_bytes t @ [b]
      \<and> remaining (transmit t') = remaining (transmit t) - 1" if pos: "0 < remaining (transmit t)"
  proof -
    obtain q where q: "queue_push (transmit t) b = (Inr (), q)" "queue_invar q"
        "queue_contents q = sent_bytes t @ [b]" "queue_capacity q = queue_capacity (transmit t)"
      using byte_queue.push_room [of "transmit t" b] r pos by (auto simp: memory_ready_def remaining_def)
    have "queue_length q = queue_length (transmit t) + 1" using arg_cong [OF q(3), of length] by simp
    then show ?thesis using q r pos by (simp add: memory_try_write_def memory_ready_def remaining_def)
  qed
  show "memory_try_write t b = (Inr False, t)" if "remaining (transmit t) = 0"
    using r that by (simp add: memory_try_write_def memory_ready_def)
qed

subsection \<open>Drivers as state machines\<close>

text \<open>The connection states a UCI transport may move between.\<close>

fun uci_edge :: "UciState \<Rightarrow> UciState \<Rightarrow> bool" where
  "uci_edge Idle Connecting = True"
| "uci_edge Faulted Connecting = True"
| "uci_edge Connecting Connected = True"
| "uci_edge Connecting Faulted = True"
| "uci_edge Connected Faulted = True"
| "uci_edge s t = (s = t)"

inductive uci_step :: "'d UciTcpDevice \<Rightarrow> 'd UltimateUciTransport \<Rightarrow> 'd UltimateUciTransport \<Rightarrow> bool"
  for dev :: "'d UciTcpDevice" where
  connect: "uci_connect dev s = (r, s') \<Longrightarrow> uci_step dev s s'"
| poll: "uci_poll dev s = s' \<Longrightarrow> uci_step dev s s'"
| read: "uci_try_read dev s = (rr, s') \<Longrightarrow> uci_step dev s s'"
| send: "uci_try_write dev s b = (rw, s') \<Longrightarrow> uci_step dev s s'"

inductive_cases uci_stepE: "uci_step dev s s'"

lemmas uci_defs = uci_connect_def uci_poll_def uci_try_read_def uci_try_write_def

lemma uci_step_edge: "uci_step dev s s' \<Longrightarrow> uci_edge (uci_state s) (uci_state s')"
  by (erule uci_stepE; cases "uci_state s")
     (auto simp: uci_defs split: if_splits prod.splits sum.splits UciPoll.splits)

text \<open>
  C34: the ring buffer is a bounded first-in first-out queue. For every capacity and
  every sequence of pushes and pops, the replies of the wrapping-index implementation
  are those of a plain list that refuses pushes beyond the capacity.
\<close>
theorem queue_refines_fifo:
  "queue_run queue_push queue_pop (new_queue n) ops = fifo_run n [] ops"
  using byte_queue.run_refines [of "new_queue n" ops] by simp

text \<open>
  The UCI driver only moves along its connection diagram, whatever the device
  answers: it connects only through the connecting state, a device error while
  connected faults it, a fault is left only by a new connection attempt, and bytes
  are exchanged in the connected state only.
\<close>
theorem uci_follows_diagram:
  "(\<forall>s'. uci_step dev s s' \<longrightarrow> uci_edge (uci_state s) (uci_state s'))
   \<and> (uci_state s \<noteq> Connected \<longrightarrow>
        uci_try_read dev s = (Inl Disconnected, s) \<and> uci_try_write dev s b = (Inl Disconnected, s))
   \<and> (uci_state s = Connected \<longrightarrow>
        (uci_state (snd (uci_try_read dev s)) = Faulted \<longleftrightarrow> \<not> is_ok (fst (uci_try_read dev s)))
        \<and> (uci_state (snd (uci_try_write dev s b)) = Faulted \<longleftrightarrow> \<not> is_ok (fst (uci_try_write dev s b))))"
proof (intro conjI allI impI)
  show "uci_edge (uci_state s) (uci_state s')" if "uci_step dev s s'" for s'
    using that by (rule uci_step_edge)
qed (auto simp: uci_defs split: prod.splits sum.splits)

definition idle_device :: "unit UciTcpDevice" where
  "idle_device = \<lparr>begin_connect = \<lambda>d. (Inr (), d), poll_connect = \<lambda>d. (PollConnected, d),
     try_receive = \<lambda>d. (Inl Fault, d), try_send = \<lambda>d b. (Inr True, d)\<rparr>"

theorem uci_follows_diagram_witness:
  "uci_edge Idle Connecting
   \<and> uci_try_write idle_device (new_uci ()) 5 = (Inl Disconnected, new_uci ())
   \<and> uci_state (snd (uci_try_read idle_device \<lparr>device = (), uci_state = Connected\<rparr>)) = Faulted"
proof -
  let ?c = "\<lparr>device = (), uci_state = Connected\<rparr>"
  have "uci_step idle_device (new_uci ()) \<lparr>device = (), uci_state = Connecting\<rparr>"
    by (rule uci_step.connect [where r = "Inr ()"]) (simp add: uci_connect_def idle_device_def new_uci_def)
  then show ?thesis
    using uci_follows_diagram [of idle_device "new_uci ()" 5] uci_follows_diagram [of idle_device ?c 5]
    by (auto simp: new_uci_def uci_try_read_def idle_device_def)
qed

text \<open>
  The ACIA driver latches faults. Once the status register reports a fault, the
  driver is disconnected and every later read or write is refused without touching
  the registers; while no fault is reported a write is accepted exactly when the
  transmit register is empty and a read yields a byte exactly when one is ready.
\<close>
theorem acia_latches_faults:
  "case acia_status dev (registers s) of (stat, regs) \<Rightarrow>
     acia_connected s \<longrightarrow>
       (if stat AND ACIA_STATUS_FAULT \<noteq> 0
        then (\<exists>s'. acia_try_read dev s = (Inl Fault, s') \<and> acia_try_write dev s b = (Inl Fault, s')
              \<and> acia_try_read dev s' = (Inl Disconnected, s') \<and> acia_try_write dev s' b = (Inl Disconnected, s'))
        else (fst (acia_try_write dev s b) = Inr (bit stat 4)
              \<and> fst (acia_try_read dev s) = Inr (if bit stat 3 then Some (fst (acia_read_data dev regs)) else None)))"
proof -
  obtain stat regs where st: "acia_status dev (registers s) = (stat, regs)" by fastforce
  have bits: "stat AND 8 = 0 \<longleftrightarrow> \<not> bit stat 3" "stat AND 16 = 0 \<longleftrightarrow> \<not> bit stat 4"
    using and_exp_eq_0_iff_not_bit [of stat 3] and_exp_eq_0_iff_not_bit [of stat 4] by simp_all
  show ?thesis
    unfolding st prod.case
    by (cases "stat AND ACIA_STATUS_FAULT = 0")
       (simp_all add: acia_try_read_def acia_try_write_def ACIA_STATUS_RX_READY_def ACIA_STATUS_TX_EMPTY_def
        st bits split_beta Let_def)
qed

definition faulty_registers :: "u8 AciaRegisters" where
  "faulty_registers = \<lparr>acia_status = \<lambda>r. (r, r), acia_read_data = \<lambda>r. (0x41, r), acia_write_data = \<lambda>r b. r\<rparr>"

theorem acia_latches_faults_witness:
  "(\<exists>s'. acia_try_read faulty_registers (new_acia 1) = (Inl Fault, s') \<and> acia_try_read faulty_registers s' = (Inl Disconnected, s'))
   \<and> fst (acia_try_read faulty_registers (new_acia 8)) = Inr (Some 0x41)"
  using acia_latches_faults [where dev = faulty_registers and s = "new_acia 1"]
    acia_latches_faults [where dev = faulty_registers and s = "new_acia 8"]
  by (auto simp: new_acia_def faulty_registers_def ACIA_STATUS_FAULT_def bit_numeral_rec)

subsection \<open>Serial budgets\<close>

lemma ceiling_div: "0 < b \<Longrightarrow> (a + b - 1) div b = a div b + (if a mod b = 0 then 0 else 1)" for a b :: nat
proof -
  assume b: "0 < b"
  have "a + b - 1 = a mod b + b - 1 + a div b * b" using div_mult_mod_eq [of a b] b by linarith
  then have "(a + b - 1) div b = a div b + (a mod b + b - 1) div b" by (metis b div_mult_self1 not_gr_zero)
  moreover have "(a mod b + b - 1) div b = (if a mod b = 0 then 0 else 1)"
  proof (cases "a mod b = 0")
    case False
    with mod_less_divisor [OF b, of a] have "b \<le> a mod b + b - 1" "a mod b + b - 1 < 2 * b" by linarith+
    then show ?thesis using False by (simp add: div_two_step)
  qed (use b in simp)
  ultimately show ?thesis by simp
qed

lemma wire_product:
  assumes "unat (bytes :: u16) \<le> 429"
  shows "unat (ucast bytes * SERIAL_BITS_PER_BYTE_8N1 * 1000000 :: u32) = unat bytes * 10000000"
proof -
  have u: "unat (ucast bytes :: u32) = unat bytes" using unsigned_less [of bytes, where ?'a = nat] by (simp add: unsigned_ucast_eq take_bit_nat_eq_self_iff)
  have "unat (ucast bytes * 10000000 :: u32) = unat bytes * 10000000"
    using assms by (subst unat_mult_lem [THEN iffD1]) (simp_all add: u)
  then show ?thesis by (simp add: SERIAL_BITS_PER_BYTE_8N1_def mult.commute)
qed

text \<open>
  The serial budget is the exact ceiling of the wire time for up to 429 bytes,
  and the product overflows from 430 bytes on: at the Turbo232 rate a slot of 430
  bytes, which takes 74653 microseconds, is then reported to fit in 88.
\<close>
theorem serial_slot_budget_exact:
  "(baud \<noteq> 0 \<longrightarrow> unat bytes \<le> 429 \<longrightarrow>
      unat (wire_microseconds (serial_slot_budget baud bytes)) = (unat bytes * 10000000 + unat baud - 1) div unat baud)
   \<and> wire_microseconds (serial_slot_budget TURBO232_BAUD 430) = 88
   \<and> fits_fast_slot (serial_slot_budget TURBO232_BAUD 430)"
proof (intro conjI impI)
  assume nz: "baud \<noteq> 0" and le: "unat bytes \<le> 429"
  let ?p = "ucast bytes * SERIAL_BITS_PER_BYTE_8N1 * 1000000 :: u32"
  have p: "unat ?p = unat bytes * 10000000" by (rule wire_product [OF le])
  have pos: "0 < unat baud" using nz by (simp add: unat_gt_0)
  have m: "?p - ?p div baud * baud = ?p mod baud" by (rule minus_div_mult_eq_mod)
  have z: "?p mod baud = 0 \<longleftrightarrow> unat ?p mod unat baud = 0"
    unfolding unat_mod_distrib [symmetric] unat_eq_zero ..
  have "unat (?p div baud) \<le> unat ?p" by (simp add: unat_div_distrib)
  then have "unat (?p div baud) + 1 < 2 ^ 32" using le unfolding p by simp
  then have "unat (?p div baud + 1) = unat (?p div baud) + 1"
    by (subst unat_add_lem [THEN iffD1]) simp_all
  then have "unat (?p div baud + (if ?p mod baud = 0 then 0 else 1)) = (unat ?p + unat baud - 1) div unat baud"
    by (simp add: ceiling_div [OF pos, simplified] z unat_div_distrib)
  then show "unat (wire_microseconds (serial_slot_budget baud bytes)) = (unat bytes * 10000000 + unat baud - 1) div unat baud"
    unfolding serial_slot_budget_def Let_def m using nz by (simp add: p)
qed (simp_all add: serial_slot_budget_def TURBO232_BAUD_def SERIAL_BITS_PER_BYTE_8N1_def
      PAL_FAST_SLOT_MICROSECONDS_def)

theorem serial_slot_budget_exact_witness:
  "unat (wire_microseconds (serial_slot_budget TURBO232_BAUD REALTIME_WORLD_WORST_BYTES)) = 18056
   \<and> unat (wire_microseconds (serial_slot_budget USER_PORT_BAUD REALTIME_FLIGHT_WORST_BYTES)) = 75000"
  using serial_slot_budget_exact [of TURBO232_BAUD REALTIME_WORLD_WORST_BYTES]
    serial_slot_budget_exact [of USER_PORT_BAUD REALTIME_FLIGHT_WORST_BYTES]
  by (simp add: TURBO232_BAUD_def USER_PORT_BAUD_def REALTIME_WORLD_WORST_BYTES_def REALTIME_FLIGHT_WORST_BYTES_def)

end
