(* ===== verification/Link_Pumps.thy ===== *)
theory Link_Pumps
  imports Byte_Transport
begin

text \<open>
  The incremental receivers of phase 6 (\<^verbatim>\<open>interface/src/phase6_transport.rs\<close>): the delimiter
  receiver of link frames and the synchronising receiver of realtime cells. Their
  polling loops run until the transport has no byte left or a record is complete; as
  a transport may keep delivering bytes, the loop is a partial function, and it is
  proved to return over every transport that holds finitely many bytes.
\<close>

unbundle bit_operations_syntax

subsection \<open>Polling\<close>

text \<open>
  One loop iteration maps the receiver and a byte to a result, or to none when the
  source continues.
\<close>

partial_function (option) poll_loop :: "'t reader \<Rightarrow> (TransportError \<Rightarrow> 'e) \<Rightarrow> ('r \<Rightarrow> u8 \<Rightarrow> ('e + 'a option) option \<times> 'r)
    \<Rightarrow> 'r \<Rightarrow> 't \<Rightarrow> (('e + 'a option) \<times> 'r \<times> 't) option" where
  "poll_loop try_read wrap step self transport =
     (case try_read transport of
        (Inl e, transport) \<Rightarrow> Some (Inl (wrap e), self, transport)
      | (Inr None, transport) \<Rightarrow> Some (Inr None, self, transport)
      | (Inr (Some byte), transport) \<Rightarrow>
          (case step self byte of
             (Some result, self) \<Rightarrow> Some (result, self, transport)
           | (None, self) \<Rightarrow> poll_loop try_read wrap step self transport))"

subsection \<open>The link receiver\<close>

datatype ReceiveError = Transport TransportError | FrameCodec LinkCodecError | Overflow

record LinkReceiver =
  rx_encoded :: "u8 list"
  rx_decoded :: "u8 list"
  rx_length :: nat
  rx_overflow :: bool

definition new_link_receiver :: LinkReceiver where
  "new_link_receiver = \<lparr>rx_encoded = replicate KLF6_MAX_ENCODED 0, rx_decoded = replicate KLF6_MAX_DECODED 0,
     rx_length = 0, rx_overflow = False\<rparr>"

definition receive_byte :: "LinkReceiver \<Rightarrow> u8 \<Rightarrow> (ReceiveError + LinkFrame option) option \<times> LinkReceiver" where
  "receive_byte self byte =
     (if byte \<noteq> 0
      then if rx_length self + 1 < length (rx_encoded self)
           then (None, self\<lparr>rx_encoded := (rx_encoded self)[rx_length self := byte], rx_length := rx_length self + 1\<rparr>)
           else (None, self\<lparr>rx_overflow := True\<rparr>)
      else if rx_overflow self then (Some (Inl Overflow), self\<lparr>rx_length := 0, rx_overflow := False\<rparr>)
      else if rx_length self = 0 then (None, self)
      else
      let self = self\<lparr>rx_encoded := (rx_encoded self)[rx_length self := 0]\<rparr>;
          n = rx_length self + 1;
          self = self\<lparr>rx_length := 0\<rparr>
      in case parse_link_frame (take n (rx_encoded self)) (rx_decoded self) of
           (Inl e, decoded) \<Rightarrow> (Some (Inl (FrameCodec e)), self\<lparr>rx_decoded := decoded\<rparr>)
         | (Inr f, decoded) \<Rightarrow> (Some (Inr (Some f)), self\<lparr>rx_decoded := decoded\<rparr>))"

definition link_poll :: "'t reader \<Rightarrow> LinkReceiver \<Rightarrow> 't
    \<Rightarrow> ((ReceiveError + LinkFrame option) \<times> LinkReceiver \<times> 't) option" where
  "link_poll try_read self transport = poll_loop try_read Transport receive_byte self transport"

subsection \<open>The realtime cell receiver\<close>

datatype RealtimeCellKind = Inertial | Command | Aid | Status

fun kind_length :: "RealtimeCellKind \<Rightarrow> nat" where
  "kind_length Inertial = 40" | "kind_length Command = 24" | "kind_length Aid = 64" | "kind_length Status = 48"

definition from_tag :: "u8 \<Rightarrow> RealtimeCellKind option" where
  "from_tag tag =
     (if tag = 1 then Some Inertial else if tag = 2 then Some Command
      else if tag = 3 then Some Aid else if tag = 4 then Some Status else None)"

datatype RealtimeReceiveError = CellTransport TransportError | CellChecksum

record RealtimeCellReceiver =
  cell_bytes :: "u8 list"
  cell_fill :: u8
  needed :: u8

definition new_cell_receiver :: RealtimeCellReceiver where
  "new_cell_receiver = \<lparr>cell_bytes = replicate 64 0, cell_fill = 0, needed = 0\<rparr>"

definition cell_receive_byte :: "RealtimeCellReceiver \<Rightarrow> u8
    \<Rightarrow> (RealtimeReceiveError + (RealtimeCellKind \<times> u8 list) option) option \<times> RealtimeCellReceiver" where
  "cell_receive_byte self byte =
     (if cell_fill self = 0
      then if byte \<noteq> KLR6_SYNC ! 0 then (None, self)
           else (None, self\<lparr>cell_bytes := (cell_bytes self)[0 := byte], cell_fill := 1\<rparr>)
      else if cell_fill self = 1
      then if byte \<noteq> KLR6_SYNC ! 1
           then (None, self\<lparr>cell_fill := (if byte = KLR6_SYNC ! 0 then 1 else 0)\<rparr>)
           else (None, self\<lparr>cell_bytes := (cell_bytes self)[1 := byte], cell_fill := 2\<rparr>)
      else if cell_fill self = 2
      then if byte \<noteq> 6 then (None, self\<lparr>cell_fill := 0\<rparr>)
           else (None, self\<lparr>cell_bytes := (cell_bytes self)[2 := byte], cell_fill := 3\<rparr>)
      else if cell_fill self = 3
      then case from_tag byte of
             None \<Rightarrow> (None, self\<lparr>cell_fill := 0\<rparr>)
           | Some kind \<Rightarrow> (None, self\<lparr>cell_bytes := (cell_bytes self)[3 := byte], cell_fill := 4,
                                     needed := of_nat (kind_length kind)\<rparr>)
      else
      let self = self\<lparr>cell_bytes := (cell_bytes self)[unat (cell_fill self) := byte]\<rparr>;
          self = self\<lparr>cell_fill := cell_fill self + 1\<rparr>
      in if cell_fill self = needed self
         then let kind = the (from_tag (cell_bytes self ! 3));
                  n = unat (cell_fill self);
                  self = self\<lparr>cell_fill := 0\<rparr>;
                  expected = from_le_bytes16 (cell_bytes self ! (n - 2)) (cell_bytes self ! (n - 1))
              in if crc16_ccitt (take (n - 2) (cell_bytes self)) \<noteq> expected then (Some (Inl CellChecksum), self)
                 else (Some (Inr (Some (kind, take n (cell_bytes self)))), self)
         else (None, self))"

definition cell_poll :: "'t reader \<Rightarrow> RealtimeCellReceiver \<Rightarrow> 't
    \<Rightarrow> ((RealtimeReceiveError + (RealtimeCellKind \<times> u8 list) option) \<times> RealtimeCellReceiver \<times> 't) option" where
  "cell_poll try_read self transport = poll_loop try_read CellTransport cell_receive_byte self transport"

subsection \<open>Receiving over finite sources\<close>

fun consume :: "('r \<Rightarrow> u8 \<Rightarrow> 'x option \<times> 'r) \<Rightarrow> 'r \<Rightarrow> u8 list \<Rightarrow> 'x option \<times> 'r \<times> u8 list" where
  "consume step self [] = (None, self, [])"
| "consume step self (b # bs) =
     (case step self b of (None, self) \<Rightarrow> consume step self bs | (Some x, self) \<Rightarrow> (Some x, self, bs))"

text \<open>
  What a receiver relies on: a ready transport hands over its pending bytes in order
  and reports none when they are used up.
\<close>

locale byte_source =
  fixes try_read :: "'t reader" and pending :: "'t \<Rightarrow> u8 list" and ready :: "'t \<Rightarrow> bool"
  assumes read_none: "ready t \<Longrightarrow> pending t = [] \<Longrightarrow> \<exists>t'. try_read t = (Inr None, t') \<and> ready t' \<and> pending t' = []"
    and read_some: "ready t \<Longrightarrow> pending t = b # bs \<Longrightarrow>
      \<exists>t'. try_read t = (Inr (Some b), t') \<and> ready t' \<and> pending t' = bs"
begin

lemma poll_returns:
  assumes "ready t"
  shows "\<exists>t'. poll_loop try_read wrap step self t =
      (case consume step self (pending t) of
         (None, self', rest) \<Rightarrow> Some (Inr None, self', t') | (Some r, self', rest) \<Rightarrow> Some (r, self', t'))
    \<and> ready t' \<and> pending t' = snd (snd (consume step self (pending t)))"
  using assms
proof (induction "pending t" arbitrary: t self)
  case Nil
  obtain t' where "try_read t = (Inr None, t')" "ready t'" "pending t' = []"
    using read_none [of t] Nil by auto
  with Nil show ?case by (subst poll_loop.simps) (auto simp flip: Nil.hyps)
next
  case (Cons b bs)
  obtain t1 where t1: "try_read t = (Inr (Some b), t1)" "ready t1" "pending t1 = bs"
    using read_some [of t b bs] Cons.prems Cons.hyps(2) by auto
  show ?case
  proof (cases "step self b")
    case (Pair r self1)
    show ?thesis
    proof (cases r)
      case None
      then show ?thesis
        using Cons.hyps(1) [OF t1(3) [symmetric] t1(2), of self1] t1 Pair
        by (subst poll_loop.simps) (simp flip: Cons.hyps(2))
    next
      case (Some x)
      then show ?thesis using t1 Pair by (subst poll_loop.simps) (auto simp flip: Cons.hyps(2))
    qed
  qed
qed

lemma poll_result:
  assumes "ready t" "consume step self (pending t) = (Some r, self', rest)"
  shows "\<exists>t'. poll_loop try_read wrap step self t = Some (r, self', t') \<and> ready t' \<and> pending t' = rest"
  using poll_returns [OF assms(1), of wrap step self] assms(2) by auto

end

interpretation memory_source: byte_source memory_try_read pending_bytes memory_ready
proof
  fix t :: MemoryTransport and b bs
  assume r: "memory_ready t"
  show "\<exists>t'. memory_try_read t = (Inr None, t') \<and> memory_ready t' \<and> pending_bytes t' = []" if "pending_bytes t = []"
    using r that byte_queue.pop_empty [of "receive t"] by (simp add: memory_try_read_def memory_ready_def)
  show "\<exists>t'. memory_try_read t = (Inr (Some b), t') \<and> memory_ready t' \<and> pending_bytes t' = bs"
    if e: "pending_bytes t = b # bs"
  proof -
    obtain q where "queue_pop (receive t) = (Some b, q)" "queue_invar q" "queue_contents q = bs"
      using byte_queue.pop_first [of "receive t" b bs] r e by (auto simp: memory_ready_def)
    then show ?thesis using r by (simp add: memory_try_read_def memory_ready_def)
  qed
qed

lemma consume_append:
  "consume step self (xs @ ys) =
     (case consume step self xs of
        (None, self', rest) \<Rightarrow> consume step self' ys | (Some r, self', rest) \<Rightarrow> (Some r, self', rest @ ys))"
  by (induction xs arbitrary: self) (auto split: prod.splits option.splits)

subsection \<open>The link receiver between delimiters\<close>

lemma cobs_decode_loop_length:
  "finish \<le> length input \<Longrightarrow> length (snd (cobs_decode_loop input out finish r w)) = length out"
proof (induction input out finish r w rule: cobs_decode_loop.induct)
  case (1 input out finish r w)
  let ?c = "unat (input ! r)"
  let ?r = "r + 1 + (?c - 1)" and ?w = "w + (?c - 1)"
  let ?out = "copy_from_slice out w (take (?c - 1) (drop (r + 1) input))"
  show ?case
  proof (cases "r < finish \<and> ?c \<noteq> 0 \<and> ?r \<le> finish \<and> ?w \<le> length out")
    case False
    then show ?thesis by (subst cobs_decode_loop.simps) (auto simp: Let_def)
  next
    case True
    have "length (take (?c - 1) (drop (r + 1) input)) \<le> ?c - 1" by simp
    then have l: "length ?out = length out" using True by (intro length_copy_from_slice) linarith
    show ?thesis
    proof (cases "?c \<noteq> 0xff \<and> ?r < finish")
      case c: True
      then show ?thesis
        using 1(1) [OF _ refl _ refl refl _ refl refl refl c] 1(3) True l
        by (subst cobs_decode_loop.simps) (simp add: Let_def)
    next
      case c: False
      then show ?thesis
        using 1(2) [OF _ refl _ refl refl _ refl refl refl c] 1(3) True l
        by (subst cobs_decode_loop.simps) (auto simp: Let_def)
    qed
  qed
qed

lemma parse_link_frame_length: "length (snd (parse_link_frame enc dec)) = length dec"
  using cobs_decode_loop_length [of "length enc - 1" enc dec 0 0]
  by (auto simp: parse_link_frame_def cobs_decode_def split: prod.splits sum.splits if_splits)

definition link_receiver_inv :: "LinkReceiver \<Rightarrow> bool" where
  "link_receiver_inv rx \<longleftrightarrow> length (rx_encoded rx) = KLF6_MAX_ENCODED \<and> length (rx_decoded rx) = KLF6_MAX_DECODED
     \<and> rx_length rx < KLF6_MAX_ENCODED"

definition link_receiver_ready :: "LinkReceiver \<Rightarrow> bool" where
  "link_receiver_ready rx \<longleftrightarrow> link_receiver_inv rx \<and> rx_length rx = 0 \<and> \<not> rx_overflow rx"

lemma receive_nonzero:
  assumes "0 \<notin> set g" "link_receiver_inv rx"
  shows "\<exists>rx'. consume receive_byte rx g = (None, rx', []) \<and> link_receiver_inv rx'
    \<and> rx_length rx' = min 555 (rx_length rx + length g)
    \<and> rx_overflow rx' = (rx_overflow rx \<or> 555 < rx_length rx + length g)
    \<and> take (rx_length rx') (rx_encoded rx') = take 555 (take (rx_length rx) (rx_encoded rx) @ g)"
  using assms
proof (induction g arbitrary: rx)
  case Nil
  then show ?case by (cases "rx_length rx = 555") (auto simp: link_receiver_inv_def KLF6_MAX_ENCODED_def)
next
  case (Cons b g)
  let ?l = "rx_length rx"
  have inv: "length (rx_encoded rx) = 556" "?l < 556"
    using Cons.prems by (simp_all add: link_receiver_inv_def KLF6_MAX_ENCODED_def)
  show ?case
  proof (cases "?l < 555")
    case True
    let ?rx = "rx\<lparr>rx_encoded := (rx_encoded rx)[?l := b], rx_length := ?l + 1\<rparr>"
    have "take (?l + 1) ((rx_encoded rx)[?l := b]) = take ?l (rx_encoded rx) @ [b]"
      using inv by (simp add: take_Suc_conv_app_nth)
    moreover have "receive_byte rx b = (None, ?rx)" "link_receiver_inv ?rx"
      using True Cons.prems inv by (simp_all add: receive_byte_def link_receiver_inv_def KLF6_MAX_ENCODED_def)
    ultimately show ?thesis using Cons.IH [of ?rx] Cons.prems(1) by simp
  next
    case False
    let ?rx = "rx\<lparr>rx_overflow := True\<rparr>"
    have l: "?l = 555" using False inv by simp
    have "receive_byte rx b = (None, ?rx)" "link_receiver_inv ?rx"
      using l Cons.prems inv by (simp_all add: receive_byte_def link_receiver_inv_def KLF6_MAX_ENCODED_def)
    then show ?thesis using Cons.IH [of ?rx] Cons.prems(1) inv l by simp
  qed
qed

lemma receive_delimiter:
  assumes inv: "link_receiver_inv rx"
  shows "\<exists>rx'. link_receiver_ready rx' \<and> receive_byte rx 0 =
    (if rx_overflow rx then Some (Inl Overflow)
     else if rx_length rx = 0 then None
     else Some (map_sum FrameCodec Some (fst (parse_link_frame (take (rx_length rx) (rx_encoded rx) @ [0]) (rx_decoded rx)))), rx')"
proof -
  let ?l = "rx_length rx"
  have l: "?l < 556" "length (rx_encoded rx) = 556" "length (rx_decoded rx) = 552"
    using inv by (simp_all add: link_receiver_inv_def KLF6_MAX_ENCODED_def KLF6_MAX_DECODED_def)
  have t: "take (?l + 1) ((rx_encoded rx)[?l := 0]) = take ?l (rx_encoded rx) @ [0]"
    using l by (simp add: take_Suc_conv_app_nth)
  obtain r dec where p: "parse_link_frame (take ?l (rx_encoded rx) @ [0]) (rx_decoded rx) = (r, dec)" by fastforce
  have "length dec = 552" using parse_link_frame_length [of _ "rx_decoded rx"] p l by (metis snd_conv)
  then show ?thesis
    using inv l p t
    by (cases r) (auto simp: receive_byte_def link_receiver_ready_def link_receiver_inv_def klf6_limits Let_def)
qed

lemma receive_segment:
  assumes "0 \<notin> set g" "link_receiver_inv rx"
  defines "p \<equiv> take (rx_length rx) (rx_encoded rx) @ g"
  shows "\<exists>rx' dec. link_receiver_ready rx' \<and> length dec = 552 \<and>
    consume receive_byte rx (g @ 0 # rest) =
      (if rx_overflow rx \<or> 555 < rx_length rx + length g then (Some (Inl Overflow), rx', rest)
       else if rx_length rx + length g = 0 then consume receive_byte rx' rest
       else (Some (map_sum FrameCodec Some (fst (parse_link_frame (p @ [0]) dec))), rx', rest))"
proof -
  obtain rx1 where rx1: "consume receive_byte rx g = (None, rx1, [])" "link_receiver_inv rx1"
      "rx_length rx1 = min 555 (rx_length rx + length g)"
      "rx_overflow rx1 = (rx_overflow rx \<or> 555 < rx_length rx + length g)"
      "take (rx_length rx1) (rx_encoded rx1) = take 555 p"
    using receive_nonzero [OF assms(1,2)] unfolding p_def by blast
  have lp: "length p = rx_length rx + length g"
    using assms(2) by (simp add: p_def link_receiver_inv_def)
  obtain rx2 where rx2: "link_receiver_ready rx2" "receive_byte rx1 0 =
      (if rx_overflow rx1 then Some (Inl Overflow) else if rx_length rx1 = 0 then None
       else Some (map_sum FrameCodec Some (fst (parse_link_frame (take 555 p @ [0]) (rx_decoded rx1)))), rx2)"
    using receive_delimiter [OF rx1(2)] unfolding rx1(5) by blast
  have d: "length (rx_decoded rx1) = 552" using rx1(2) by (simp add: link_receiver_inv_def KLF6_MAX_DECODED_def)
  show ?thesis
    by (intro exI [of _ rx2] exI [of _ "rx_decoded rx1"] conjI rx2(1) d)
       (use rx1 rx2(2) lp in \<open>auto simp: consume_append\<close>)
qed

definition in_contract :: "LinkFrame \<Rightarrow> bool" where
  "in_contract f \<longleftrightarrow> length (payload f) \<le> KLF6_MAX_PAYLOAD \<and> link_flags (frame_header f) AND NOT LINK_FLAG_MASK = 0"

lemma link_encoding_length: "in_contract f \<Longrightarrow> length (stuffed (link_bytes f)) \<le> 556"
proof -
  assume "in_contract f"
  then have n: "length (link_bytes f) \<le> 552" by (simp add: in_contract_def KLF6_MAX_PAYLOAD_def)
  then have "length (link_bytes f) div 254 \<le> 552 div 254" by (rule div_le_mono)
  then show ?thesis using stuffed_length [of "link_bytes f"] n by simp
qed

lemma receive_frame:
  assumes "link_receiver_ready rx" "in_contract f"
  shows "\<exists>rx'. link_receiver_ready rx' \<and>
    consume receive_byte rx (stuffed (link_bytes f) @ rest) = (Some (Inr (Some f)), rx', rest)"
proof -
  let ?g = "stuff [] (link_bytes f)"
  have rx: "link_receiver_inv rx" "rx_length rx = 0" "\<not> rx_overflow rx"
    using assms(1) by (simp_all add: link_receiver_ready_def)
  have z: "0 \<notin> set ?g" by (rule stuff_no_zero) simp_all
  have l: "length ?g \<le> 555" using link_encoding_length [OF assms(2)] by (simp add: stuffed_def)
  have ne: "length ?g \<noteq> 0" by (rule stuff_nonempty)
  have p: "parse_link_decoded (link_bytes f) = Inr f" "length (link_bytes f) \<le> 552"
    using assms(2) by (simp_all add: in_contract_def parse_link_bytes KLF6_MAX_PAYLOAD_def)
  obtain rx' dec where r: "link_receiver_ready rx'" "length dec = 552"
      "consume receive_byte rx (?g @ 0 # rest) =
        (Some (map_sum FrameCodec Some (fst (parse_link_frame (stuffed (link_bytes f)) dec))), rx', rest)"
    using receive_segment [OF z rx(1), of rest] rx(2,3) l ne by (auto simp: stuffed_def)
  then show ?thesis
    using p by (auto simp: stuffed_def parse_link_frame_stuffed [unfolded stuffed_def])
qed

lemma write_link_frame_encoding:
  assumes "in_contract f" "length encoded = 556"
  shows "\<exists>n decoded' encoded'. write_link_frame f (replicate KLF6_MAX_DECODED 0) encoded = (Inr n, decoded', encoded')
    \<and> take n encoded' = stuffed (link_bytes f) \<and> n \<le> 556 \<and> length encoded' = 556"
  using write_link_frame_stuffed [of f "replicate KLF6_MAX_DECODED 0" encoded] assms
  by (simp add: in_contract_def klf6_limits)

subsection \<open>The cell receiver\<close>

definition cell_receiver_inv :: "RealtimeCellReceiver \<Rightarrow> bool" where
  "cell_receiver_inv rx \<longleftrightarrow> length (cell_bytes rx) = 64 \<and>
     (cell_fill rx \<in> {0, 1, 2, 3} \<or>
      (case from_tag (cell_bytes rx ! 3) of None \<Rightarrow> False
       | Some kind \<Rightarrow> needed rx = of_nat (kind_length kind) \<and> 4 \<le> unat (cell_fill rx)
           \<and> unat (cell_fill rx) < kind_length kind))"

definition cell_receiver_ready :: "RealtimeCellReceiver \<Rightarrow> bool" where
  "cell_receiver_ready rx \<longleftrightarrow> length (cell_bytes rx) = 64 \<and> cell_fill rx = 0"

lemma kind_length_bounds: "4 < kind_length k" "kind_length k \<le> 64" "unat (of_nat (kind_length k) :: u8) = kind_length k"
  by (cases k; simp)+

lemma fill_next:
  fixes fill :: u8
  assumes "unat fill < 64"
  shows "unat (fill + 1) = unat fill + 1"
  using assms by (subst unat_add_lem [THEN iffD1]) simp_all

lemma cell_receiver_inv_step:
  assumes "cell_receiver_inv rx"
  shows "cell_receiver_inv (snd (cell_receive_byte rx b))"
proof (cases "cell_fill rx \<in> {0, 1, 2, 3}")
  case True
  have len: "length (cell_bytes rx) = 64" using assms by (simp add: cell_receiver_inv_def)
  from True consider "cell_fill rx = 0" | "cell_fill rx = 1" | "cell_fill rx = 2" | "cell_fill rx = 3" by blast
  then show ?thesis
  proof cases
    case 4
    show ?thesis
    proof (cases "from_tag b")
      case (Some k)
      then show ?thesis using 4 len kind_length_bounds(1) [of k] by (simp add: cell_receive_byte_def cell_receiver_inv_def)
    qed (simp add: 4 len cell_receive_byte_def cell_receiver_inv_def)
  qed (simp_all add: len cell_receive_byte_def cell_receiver_inv_def)
next
  case False
  then obtain k where k: "length (cell_bytes rx) = 64" "from_tag (cell_bytes rx ! 3) = Some k"
      "needed rx = of_nat (kind_length k)" "4 \<le> unat (cell_fill rx)" "unat (cell_fill rx) < kind_length k"
    using assms by (auto simp: cell_receiver_inv_def split: option.splits)
  have u: "unat (cell_fill rx + 1) = unat (cell_fill rx) + 1"
    using k(5) kind_length_bounds(2) [of k] by (intro fill_next) simp
  have "cell_fill rx + 1 \<noteq> needed rx \<Longrightarrow> unat (cell_fill rx) + 1 \<noteq> kind_length k"
    using k(3) u kind_length_bounds(3) [of k] by (metis unsigned_word_eqI)
  then show ?thesis
    using False k u by (auto simp: cell_receive_byte_def cell_receiver_inv_def Let_def)
qed

lemma cell_header:
  assumes "cell_receiver_ready rx" "from_tag tag = Some k"
  shows "\<exists>rx'. consume cell_receive_byte rx ([0xd6, 0x5a, 6, tag] @ bs) = consume cell_receive_byte rx' bs
    \<and> length (cell_bytes rx') = 64 \<and> cell_fill rx' = 4 \<and> needed rx' = of_nat (kind_length k)
    \<and> take 4 (cell_bytes rx') = [0xd6, 0x5a, 6, tag]"
proof -
  let ?b = "(cell_bytes rx)[0 := 0xd6, 1 := 0x5a, 2 := 6, 3 := tag]"
  have "take 4 ?b = [0xd6, 0x5a, 6, tag]"
    using assms(1) by (intro nth_equalityI) (auto simp: cell_receiver_ready_def less_Suc_eq numeral_eq_Suc)
  then show ?thesis
    using assms by (intro exI [of _ "rx\<lparr>cell_bytes := ?b, cell_fill := 4, needed := of_nat (kind_length k)\<rparr>"])
      (simp add: cell_receive_byte_def KLR6_SYNC_def cell_receiver_ready_def)
qed

lemma cell_body:
  assumes "length (cell_bytes rx) = 64" "needed rx = of_nat (kind_length k)" "4 \<le> unat (cell_fill rx)"
    and "take (unat (cell_fill rx)) (cell_bytes rx) = p" "from_tag (p ! 3) = Some k"
    and "unat (cell_fill rx) + length bs = kind_length k" "bs \<noteq> []"
  shows "\<exists>rx'. cell_receiver_ready rx' \<and> consume cell_receive_byte rx (bs @ rest) =
    (Some (if crc16_ccitt (take (kind_length k - 2) (p @ bs)) = read_u16 (p @ bs) (kind_length k - 2)
           then Inr (Some (k, p @ bs)) else Inl CellChecksum), rx', rest)"
  using assms
proof (induction bs arbitrary: rx p)
  case (Cons b bs)
  let ?m = "unat (cell_fill rx)" and ?n = "kind_length k"
  let ?b = "(cell_bytes rx)[?m := b]"
  have m: "?m < ?n" "?n \<le> 64" "?m < 64" using Cons.prems(6) kind_length_bounds(2) [of k] by auto
  have u: "unat (cell_fill rx + 1) = ?m + 1" using m by (intro fill_next) simp
  have lp: "length p = ?m" using Cons.prems(1,4) m by auto
  have tk: "take (?m + 1) ?b = p @ [b]" using Cons.prems(1,4) m by (simp add: take_Suc_conv_app_nth)
  have early: "cell_fill rx \<noteq> 0" "cell_fill rx \<noteq> 1" "cell_fill rx \<noteq> 2" "cell_fill rx \<noteq> 3"
    using Cons.prems(3) by auto
  have tag: "?b ! 3 = p ! 3" using Cons.prems(3) unfolding Cons.prems(4) [symmetric] by simp
  have full: "cell_fill rx + 1 = needed rx \<longleftrightarrow> ?m + 1 = ?n"
    using u kind_length_bounds(3) [of k] Cons.prems(2) by (metis unsigned_word_eqI)
  show ?case
  proof (cases "bs = []")
    case True
    then have n: "?m + 1 = ?n" using Cons.prems(6) by simp
    have pb: "take ?n ?b = p @ [b]" using tk n by simp
    have c: "take (?n - 2) ?b = take (?n - 2) (p @ [b])" unfolding pb [symmetric] by (simp add: min_def)
    have e: "from_le_bytes16 (?b ! (?n - 2)) (?b ! (?n - 1)) = read_u16 (p @ [b]) (?n - 2)"
    proof -
      have "?n - 2 + 1 = ?n - 1" using n Cons.prems(3) by simp
      then show ?thesis unfolding pb [symmetric] read_u16_def using n Cons.prems(3) by simp
    qed
    have "u = unat (cell_fill rx + 1) \<Longrightarrow> u = ?n" for u using u n by simp
    then show ?thesis
      using True early full n tag Cons.prems(1,5) u pb c e
      by (auto simp: cell_receive_byte_def cell_receiver_ready_def Let_def)
  next
    case False
    let ?rx = "rx\<lparr>cell_bytes := ?b, cell_fill := cell_fill rx + 1\<rparr>"
    have "?m + 1 \<noteq> ?n" using False Cons.prems(6) by (cases bs) simp_all
    then have "cell_receive_byte rx b = (None, ?rx)"
      using early full by (simp add: cell_receive_byte_def Let_def)
    moreover have "\<exists>rx'. cell_receiver_ready rx' \<and> consume cell_receive_byte ?rx (bs @ rest) =
      (Some (if crc16_ccitt (take (?n - 2) ((p @ [b]) @ bs)) = read_u16 ((p @ [b]) @ bs) (?n - 2)
           then Inr (Some (k, (p @ [b]) @ bs)) else Inl CellChecksum), rx', rest)"
      by (rule Cons.IH) (use Cons.prems False u tk lp in \<open>simp_all add: nth_append\<close>)
    ultimately show ?thesis
      by (simp only: append_Cons append_Nil append_assoc consume.simps prod.case option.case)
  qed
qed simp

lemma ready_preamble_skipped:
  assumes "cell_receiver_ready rx"
  shows "\<exists>rx'. cell_receiver_ready rx' \<and> consume cell_receive_byte rx (KLR6_READY @ bs) = consume cell_receive_byte rx' bs"
  using assms
  by (intro exI [of _ "rx\<lparr>cell_bytes := (cell_bytes rx)[0 := 0xd6, 1 := 0x5a, 2 := 6], cell_fill := 0\<rparr>"])
     (simp add: KLR6_READY_def KLR6_SYNC_def cell_receive_byte_def cell_receiver_ready_def from_tag_def)

lemma ready_preambles_skipped:
  assumes "cell_receiver_ready rx"
  shows "\<exists>rx'. cell_receiver_ready rx' \<and>
    consume cell_receive_byte rx (concat (replicate j KLR6_READY) @ bs) = consume cell_receive_byte rx' bs"
  using assms
proof (induction j arbitrary: rx)
  case (Suc j)
  obtain rx1 where "cell_receiver_ready rx1" "consume cell_receive_byte rx (KLR6_READY @ concat (replicate j KLR6_READY) @ bs)
      = consume cell_receive_byte rx1 (concat (replicate j KLR6_READY) @ bs)"
    using ready_preamble_skipped [OF Suc.prems] by blast
  then show ?case using Suc.IH [of rx1] by simp
qed auto

subsection \<open>The contract of the link pumps\<close>

text \<open>
  Polling the link receiver over a finite transport returns at the next delimiter.
  A ready receiver turns the bytes before the delimiter into the frame the codec
  reads from them, or the codec's error, and into an overflow error exactly when
  there are more than 555 of them; it consumes nothing beyond the delimiter and is
  ready again.
\<close>
theorem link_poll_segment:
  assumes "link_receiver_ready rx" "memory_ready t" "pending_bytes t = g @ 0 # rest" "0 \<notin> set g" "g \<noteq> []"
  shows "\<exists>rx' t' dec. link_poll memory_try_read rx t =
      Some (if 555 < length g then Inl Overflow else map_sum FrameCodec Some (fst (parse_link_frame (g @ [0]) dec)), rx', t')
    \<and> length dec = KLF6_MAX_DECODED \<and> link_receiver_ready rx' \<and> memory_ready t' \<and> pending_bytes t' = rest"
proof -
  have rx: "link_receiver_inv rx" "rx_length rx = 0" "\<not> rx_overflow rx"
    using assms(1) by (simp_all add: link_receiver_ready_def)
  obtain rx' dec where r: "link_receiver_ready rx'" "length dec = 552" "consume receive_byte rx (pending_bytes t) =
      (Some (if 555 < length g then Inl Overflow else map_sum FrameCodec Some (fst (parse_link_frame (g @ [0]) dec))), rx', rest)"
    using receive_segment [OF assms(4) rx(1), of rest] rx(2,3) assms(3,5) by auto
  then show ?thesis
    using memory_source.poll_result [OF assms(2) r(3), of Transport] unfolding link_poll_def KLF6_MAX_DECODED_def by blast
qed

definition loaded :: "u8 list \<Rightarrow> MemoryTransport" where
  "loaded bs = \<lparr>receive = \<lparr>ring = bs, read_index = 0, write_index = 0, queue_length = length bs\<rparr>,
     transmit = new_queue 556, mem_connected = True\<rparr>"

lemma loaded_facts [simp]:
  "memory_ready (loaded bs)" "pending_bytes (loaded bs) = bs" "sent_bytes (loaded bs) = []"
  "queue_capacity (transmit (loaded bs)) = 556" "remaining (transmit (loaded bs)) = 556"
proof -
  show "pending_bytes (loaded bs) = bs"
    by (rule nth_equalityI) (simp_all add: loaded_def queue_contents_def)
qed (auto simp: loaded_def memory_ready_def queue_invar_def remaining_def new_queue_def queue_contents_def)

lemma new_link_receiver_ready [simp]: "link_receiver_ready new_link_receiver"
  by (simp add: new_link_receiver_def link_receiver_ready_def link_receiver_inv_def KLF6_MAX_ENCODED_def)

theorem link_poll_segment_witness:
  "\<exists>rx' t'. link_poll memory_try_read new_link_receiver (loaded (replicate 600 1 @ [0, 7]))
      = Some (Inl Overflow, rx', t') \<and> link_receiver_ready rx' \<and> pending_bytes t' = [7]"
  using link_poll_segment [of new_link_receiver "loaded (replicate 600 1 @ [0, 7])" "replicate 600 1" "[7]"]
  by fastforce

text \<open>
  C17: frames cross the link. Every frame within the contract can be staged by an idle
  transmitter; pumping it into an empty transport sends it whole and leaves the
  transmitter idle; and a ready receiver that polls a transport holding these bytes,
  whatever follows them, returns exactly that frame and is ready for what follows.
\<close>
theorem link_delivery:
  assumes "in_contract f" "link_is_idle tx" "length (tx_encoded tx) = KLF6_MAX_ENCODED"
    and "memory_ready a" "sent_bytes a = []" "KLF6_MAX_ENCODED \<le> queue_capacity (transmit a)"
    and "link_receiver_ready rx"
  shows "\<exists>tx' tx'' a'. link_stage tx f = (Inr (), tx') \<and> link_transmit memory_try_write tx' a = (Inr True, tx'', a')
    \<and> link_is_idle tx'' \<and> memory_ready a'
    \<and> (\<forall>b rest. memory_ready b \<and> pending_bytes b = sent_bytes a' @ rest \<longrightarrow>
        (\<exists>rx' b'. link_poll memory_try_read rx b = Some (Inr (Some f), rx', b') \<and> link_receiver_ready rx'
          \<and> memory_ready b' \<and> pending_bytes b' = rest))"
proof -
  let ?s = "stuffed (link_bytes f)"
  obtain n dec enc where w: "write_link_frame f (replicate KLF6_MAX_DECODED 0) (tx_encoded tx) = (Inr n, dec, enc)"
      "take n enc = ?s" "n \<le> 556" "length enc = 556"
    using write_link_frame_encoding [OF assms(1), of "tx_encoded tx"] assms(3) by (auto simp: KLF6_MAX_ENCODED_def)
  let ?tx = "tx\<lparr>tx_encoded := enc, tx_length := n, tx_offset := 0\<rparr>"
  have stage: "link_stage tx f = (Inr (), ?tx)" using assms(2) w(1) by (simp add: link_stage_def)
  have "queue_length (transmit a) = 0" using arg_cong [OF assms(5), of length] by simp
  then have "n = min (remaining (transmit a)) (n - 0)"
    using assms(6) w(3) by (simp add: remaining_def KLF6_MAX_ENCODED_def)
  then obtain a' where a': "transmit_loop memory_try_write enc n 0 a = (Inr True, n, a')" "memory_ready a'" "sent_bytes a' = ?s"
    using memory_sink.transmit_progress [OF assms(4), of 0 n enc n] w assms(5) by auto
  have "link_transmit memory_try_write ?tx a = (Inr True, ?tx\<lparr>tx_offset := n\<rparr>, a')"
    using a'(1) by (simp add: link_transmit_def)
  moreover have "\<exists>rx' b'. link_poll memory_try_read rx b = Some (Inr (Some f), rx', b') \<and> link_receiver_ready rx'
      \<and> memory_ready b' \<and> pending_bytes b' = rest"
    if b: "memory_ready b" "pending_bytes b = sent_bytes a' @ rest" for b rest
  proof -
    obtain rx' where r: "link_receiver_ready rx'" "consume receive_byte rx (pending_bytes b) = (Some (Inr (Some f)), rx', rest)"
      using receive_frame [OF assms(7,1), of rest] b(2) a'(3) by auto
    then show ?thesis using memory_source.poll_result [OF b(1) r(2), of Transport] unfolding link_poll_def by blast
  qed
  ultimately show ?thesis using stage a'(2)
    by (intro exI [of _ ?tx] exI [of _ "?tx\<lparr>tx_offset := n\<rparr>"] exI [of _ a']) (simp add: link_is_idle_def)
qed

theorem link_delivery_witness:
  "\<exists>tx' tx'' a' rx' b'. link_stage new_link_transmitter sample_frame = (Inr (), tx')
     \<and> link_transmit memory_try_write tx' (loaded []) = (Inr True, tx'', a')
     \<and> link_poll memory_try_read new_link_receiver (loaded (sent_bytes a' @ [9])) = Some (Inr (Some sample_frame), rx', b')
     \<and> pending_bytes b' = [9]"
proof -
  have "in_contract sample_frame" by (simp add: in_contract_def sample_frame_def klf6_limits)
  then obtain tx' tx'' a' where "link_stage new_link_transmitter sample_frame = (Inr (), tx')"
      "link_transmit memory_try_write tx' (loaded []) = (Inr True, tx'', a')"
      "\<exists>rx' b'. link_poll memory_try_read new_link_receiver (loaded (sent_bytes a' @ [9])) = Some (Inr (Some sample_frame), rx', b')
        \<and> link_receiver_ready rx' \<and> memory_ready b' \<and> pending_bytes b' = [9]"
    using link_delivery [of sample_frame new_link_transmitter "loaded []" new_link_receiver]
    by (fastforce simp: link_is_idle_def new_link_transmitter_def KLF6_MAX_ENCODED_def)
  then show ?thesis by blast
qed

text \<open>
  C18: the receiver resynchronises. Whatever state the receiver is in and whatever bytes
  precede the next delimiter, a frame sent after that delimiter is returned by the
  first or the second poll.
\<close>
theorem link_resynchronises:
  assumes "link_receiver_inv rx" "0 \<notin> set g" "in_contract f" "length encoded = KLF6_MAX_ENCODED"
    and "write_link_frame f (replicate KLF6_MAX_DECODED 0) encoded = (Inr n, decoded', encoded')"
    and "memory_ready t" "pending_bytes t = g @ 0 # take n encoded' @ rest"
  shows "\<exists>r rx' t'. link_poll memory_try_read rx t = Some (r, rx', t') \<and>
    (r = Inr (Some f) \<and> pending_bytes t' = rest
     \<or> (\<exists>rx'' t''. link_poll memory_try_read rx' t' = Some (Inr (Some f), rx'', t'') \<and> pending_bytes t'' = rest))"
proof -
  have s: "take n encoded' = stuffed (link_bytes f)"
    using write_link_frame_encoding [OF assms(3), of encoded] assms(4,5) by (auto simp: KLF6_MAX_ENCODED_def)
  obtain rx1 dec where r1: "link_receiver_ready rx1" "consume receive_byte rx (pending_bytes t) =
      (if rx_overflow rx \<or> 555 < rx_length rx + length g then (Some (Inl Overflow), rx1, take n encoded' @ rest)
       else if rx_length rx + length g = 0 then consume receive_byte rx1 (take n encoded' @ rest)
       else (Some (map_sum FrameCodec Some (fst (parse_link_frame ((take (rx_length rx) (rx_encoded rx) @ g) @ [0]) dec))),
         rx1, take n encoded' @ rest))"
    using receive_segment [OF assms(2,1), of "take n encoded' @ rest"] assms(7) by auto
  obtain rx2 where r2: "consume receive_byte rx1 (take n encoded' @ rest) = (Some (Inr (Some f)), rx2, rest)"
    using receive_frame [OF r1(1) assms(3), of rest] s by auto
  show ?thesis
  proof (cases "\<exists>x. consume receive_byte rx (pending_bytes t) = (Some x, rx1, take n encoded' @ rest)")
    case True
    then obtain x t1 where p1: "link_poll memory_try_read rx t = Some (x, rx1, t1)" "memory_ready t1"
        "pending_bytes t1 = take n encoded' @ rest"
      using memory_source.poll_result [OF assms(6), of receive_byte rx _ rx1 _ Transport] unfolding link_poll_def by metis
    then show ?thesis
      using memory_source.poll_result [OF p1(2), of receive_byte rx1 _ rx2 rest Transport] r2
      unfolding link_poll_def by (metis p1(3))
  next
    case False
    then have "consume receive_byte rx (pending_bytes t) = (Some (Inr (Some f)), rx2, rest)"
      using r1(2) r2 by (auto split: if_splits)
    then show ?thesis
      using memory_source.poll_result [OF assms(6), of receive_byte rx _ rx2 rest Transport] unfolding link_poll_def by metis
  qed
qed

definition noisy_transport :: MemoryTransport where
  "noisy_transport = loaded ([3, 4] @ 0 # stuffed (link_bytes sample_frame) @ [9])"

theorem link_resynchronises_witness:
  "\<exists>r rx' t'. link_poll memory_try_read (new_link_receiver\<lparr>rx_length := 5, rx_overflow := True\<rparr>) noisy_transport = Some (r, rx', t') \<and>
    (r = Inr (Some sample_frame) \<and> pending_bytes t' = [9]
     \<or> (\<exists>rx'' t''. link_poll memory_try_read rx' t' = Some (Inr (Some sample_frame), rx'', t'') \<and> pending_bytes t'' = [9]))"
proof -
  have c: "in_contract sample_frame" by (simp add: in_contract_def sample_frame_def klf6_limits)
  obtain n dec enc where w: "write_link_frame sample_frame (replicate KLF6_MAX_DECODED 0) (replicate 556 0) = (Inr n, dec, enc)"
      "take n enc = stuffed (link_bytes sample_frame)"
    using write_link_frame_encoding [OF c, of "replicate 556 0"] by auto
  show ?thesis
    by (rule link_resynchronises [where g = "[3, 4]", OF _ _ c _ w(1)])
       (simp_all add: link_receiver_inv_def new_link_receiver_def KLF6_MAX_ENCODED_def noisy_transport_def w(2))
qed

text \<open>
  Cells cross the realtime link. Over a finite transport, a ready cell receiver
  skips any number of readiness preambles and returns the next cell with a valid
  header, whatever follows it: the cell's kind and exactly its bytes when its CRC-16
  matches, and a checksum error otherwise. It is ready again in both cases.
\<close>
theorem cell_delivery:
  assumes "cell_receiver_ready rx" "from_tag tag = Some kind" "length cell = kind_length kind"
    and "take 4 cell = KLR6_SYNC @ [6, tag]"
    and "memory_ready t" "pending_bytes t = concat (replicate j KLR6_READY) @ cell @ rest"
  shows "\<exists>rx' t'. cell_poll memory_try_read rx t =
      Some (if crc16_ccitt (take (kind_length kind - 2) cell) = read_u16 cell (kind_length kind - 2)
            then Inr (Some (kind, cell)) else Inl CellChecksum, rx', t')
    \<and> cell_receiver_ready rx' \<and> memory_ready t' \<and> pending_bytes t' = rest"
proof -
  obtain body where cell: "cell = [0xd6, 0x5a, 6, tag] @ body"
    using assms(4) append_take_drop_id [of 4 cell] by (metis KLR6_SYNC_def append_Cons append_Nil)
  have lb: "4 + length body = kind_length kind" using assms(3) cell by simp
  obtain rx1 where r1: "cell_receiver_ready rx1"
      "consume cell_receive_byte rx (pending_bytes t) = consume cell_receive_byte rx1 ([0xd6, 0x5a, 6, tag] @ (body @ rest))"
    using ready_preambles_skipped [OF assms(1), of j "cell @ rest"] assms(6) cell by auto
  obtain rx2 where r2: "consume cell_receive_byte rx (pending_bytes t) = consume cell_receive_byte rx2 (body @ rest)"
      "length (cell_bytes rx2) = 64" "cell_fill rx2 = 4" "needed rx2 = of_nat (kind_length kind)"
      "take 4 (cell_bytes rx2) = [0xd6, 0x5a, 6, tag]"
    using cell_header [OF r1(1) assms(2), of "body @ rest"] r1(2) by auto
  have "body \<noteq> []" using lb kind_length_bounds(1) [of kind] by auto
  then obtain rx3 where r3: "cell_receiver_ready rx3" "consume cell_receive_byte rx (pending_bytes t) =
      (Some (if crc16_ccitt (take (kind_length kind - 2) cell) = read_u16 cell (kind_length kind - 2)
             then Inr (Some (kind, cell)) else Inl CellChecksum), rx3, rest)"
    using cell_body [of rx2 kind "[0xd6, 0x5a, 6, tag]" body rest] r2 assms(2) lb unfolding cell by auto
  then show ?thesis
    using memory_source.poll_result [OF assms(5) r3(2), of CellTransport] unfolding cell_poll_def by blast
qed

theorem cell_delivery_witness:
  "\<exists>cell rx' t'. write_realtime_command sample_command (replicate 24 0) = (Inr (), cell)
     \<and> cell_poll memory_try_read new_cell_receiver (loaded (KLR6_READY @ cell @ [1])) = Some (Inr (Some (Command, cell)), rx', t')
     \<and> parse_realtime_command cell = Inr sample_command \<and> pending_bytes t' = [1]"
proof -
  obtain cell where w: "write_realtime_command sample_command (replicate 24 0) = (Inr (), cell)"
      "parse_realtime_command cell = Inr sample_command"
    using command.write_parse [of "replicate 24 0" sample_command] by auto
  have chk: "cell_check cell 24 2 = Inr ()" by (rule command.parse_checked [OF w(2)])
  then have c: "length cell = 24" "take 2 cell = KLR6_SYNC" "cell ! 2 = 6" "cell ! 3 = 2"
      "crc16_ccitt (take 22 cell) = read_u16 cell 22"
    by (auto simp: cell_check_def split: if_splits)
  have t4: "take 4 cell = KLR6_SYNC @ [6, 2]"
    using c take_add [of 2 2 cell] take2_drop [of 2 cell] by simp
  have "\<exists>rx' t'. cell_poll memory_try_read new_cell_receiver (loaded (KLR6_READY @ cell @ [1])) =
      Some (if crc16_ccitt (take (kind_length Command - 2) cell) = read_u16 cell (kind_length Command - 2)
            then Inr (Some (Command, cell)) else Inl CellChecksum, rx', t')
    \<and> cell_receiver_ready rx' \<and> memory_ready t' \<and> pending_bytes t' = [1]"
    by (rule cell_delivery [OF _ _ _ t4, where j = 1])
       (use c in \<open>simp_all add: from_tag_def cell_receiver_ready_def new_cell_receiver_def\<close>)
  then show ?thesis using w c by auto
qed

text \<open>
  The cell receiver never leaves its buffer. After any sequence of bytes, started
  from a new receiver, its buffer holds 64 bytes, and while it collects a cell the
  kind byte it stored is known, the length it waits for is that kind's and the fill
  is below it, so that no store, no kind lookup and no length arithmetic can go out
  of range.
\<close>
theorem cell_receiver_safe:
  "cell_receiver_inv (fold (\<lambda>b rx. snd (cell_receive_byte rx b)) bytes new_cell_receiver)"
proof -
  have "cell_receiver_inv rx \<Longrightarrow> cell_receiver_inv (fold (\<lambda>b rx. snd (cell_receive_byte rx b)) bytes rx)" for rx
    by (induction bytes arbitrary: rx) (simp_all add: cell_receiver_inv_step)
  then show ?thesis by (simp add: cell_receiver_inv_def new_cell_receiver_def)
qed

end
