(* ===== verification/Operations_Records.thy ===== *)
theory Operations_Records
  imports Realtime_Cells
begin

text \<open>
  The mission-operations records of phase 11 (\<^verbatim>\<open>interface/src/phase11.rs\<close>): package
  manifests, mission plans, package object segments, uplink loads and control records,
  and journal records, with the tags of their enumerations. Arrays of a fixed length
  are lists or tuples.
\<close>

unbundle bit_operations_syntax

subsection \<open>Saturating arithmetic\<close>

definition saturating_add :: "u32 \<Rightarrow> u32 \<Rightarrow> u32" where
  "saturating_add a b = (if unat a + unat b < 2 ^ 32 then a + b else - 1)"

lemma unat_saturating_add: "unat (saturating_add a b) = min (unat a + unat b) (2 ^ 32 - 1)"
proof (cases "unat a + unat b < 2 ^ 32")
  case True
  then have "unat (a + b) = unat a + unat b" by (subst unat_add_lem [THEN iffD1]) simp_all
  with True show ?thesis by (simp add: saturating_add_def)
qed (simp add: saturating_add_def unsigned_minus_1_eq_mask mask_eq_exp_minus_1)

subsection \<open>Packages\<close>

definition PACKAGE_CAP_MISSION_PLAN :: u32 where "PACKAGE_CAP_MISSION_PLAN = 1"
definition PACKAGE_CAP_GROUND_NAV_UPDATE :: u32 where "PACKAGE_CAP_GROUND_NAV_UPDATE = 2"
definition PACKAGE_CAP_TARGET_UPDATE :: u32 where "PACKAGE_CAP_TARGET_UPDATE = 4"
definition PACKAGE_CAP_BRANCH_SELECT :: u32 where "PACKAGE_CAP_BRANCH_SELECT = 8"
definition PACKAGE_CAP_NAV_MODE :: u32 where "PACKAGE_CAP_NAV_MODE = 16"
definition PACKAGE_CAP_HIGH_LEVEL_MODE :: u32 where "PACKAGE_CAP_HIGH_LEVEL_MODE = 32"
definition PACKAGE_CAP_MASK :: u32 where "PACKAGE_CAP_MASK = 255"
definition PACKAGE_TARGET_MASK :: u8 where "PACKAGE_TARGET_MASK = 7"
definition PACKAGE_SEGMENT_MASK :: u16 where "PACKAGE_SEGMENT_MASK = 31"
definition PACKAGE_LOAD_GROUND_NAV :: u16 where "PACKAGE_LOAD_GROUND_NAV = 1"
definition PACKAGE_LOAD_EVENT_TARGET :: u16 where "PACKAGE_LOAD_EVENT_TARGET = 2"
definition PACKAGE_LOAD_BRANCH :: u16 where "PACKAGE_LOAD_BRANCH = 4"
definition PACKAGE_LOAD_NAV_MODE :: u16 where "PACKAGE_LOAD_NAV_MODE = 8"
definition PACKAGE_LOAD_HIGH_LEVEL_MODE :: u16 where "PACKAGE_LOAD_HIGH_LEVEL_MODE = 16"
definition PACKAGE_LOAD_MASK :: u16 where "PACKAGE_LOAD_MASK = 31"

lemmas package_masks = PACKAGE_CAP_MISSION_PLAN_def PACKAGE_CAP_GROUND_NAV_UPDATE_def
  PACKAGE_CAP_TARGET_UPDATE_def PACKAGE_CAP_BRANCH_SELECT_def PACKAGE_CAP_NAV_MODE_def
  PACKAGE_CAP_HIGH_LEVEL_MODE_def PACKAGE_CAP_MASK_def PACKAGE_TARGET_MASK_def PACKAGE_SEGMENT_MASK_def
  PACKAGE_LOAD_GROUND_NAV_def PACKAGE_LOAD_EVENT_TARGET_def PACKAGE_LOAD_BRANCH_def
  PACKAGE_LOAD_NAV_MODE_def PACKAGE_LOAD_HIGH_LEVEL_MODE_def PACKAGE_LOAD_MASK_def

datatype FlightSoftwarePackageId = KsaG10rReferenceOpsV1 | SafeholdRecoveryV1

fun package_tag :: "FlightSoftwarePackageId \<Rightarrow> u32" where
  "package_tag KsaG10rReferenceOpsV1 = 0x11f50001" | "package_tag SafeholdRecoveryV1 = 0x11f50002"

definition parse_package :: "u32 \<Rightarrow> CodecError + FlightSoftwarePackageId" where
  "parse_package value =
     (if value = 0x11f50001 then Inr KsaG10rReferenceOpsV1
      else if value = 0x11f50002 then Inr SafeholdRecoveryV1 else Inl Enum)"

datatype FlightAbiId = GlobalKlr10V1

fun abi_tag :: "FlightAbiId \<Rightarrow> u32" where
  "abi_tag GlobalKlr10V1 = 0x10520001"

definition parse_abi :: "u32 \<Rightarrow> CodecError + FlightAbiId" where
  "parse_abi value = (if value = 0x10520001 then Inr GlobalKlr10V1 else Inl Enum)"

datatype PackageSafeStateId = ReferenceGlobalSafeV1 | EntryRecoverySafeholdV1

fun safe_state_tag :: "PackageSafeStateId \<Rightarrow> u8" where
  "safe_state_tag ReferenceGlobalSafeV1 = 1" | "safe_state_tag EntryRecoverySafeholdV1 = 2"

definition parse_safe_state :: "u8 \<Rightarrow> CodecError + PackageSafeStateId" where
  "parse_safe_state value =
     (if value = 1 then Inr ReferenceGlobalSafeV1
      else if value = 2 then Inr EntryRecoverySafeholdV1 else Inl Enum)"

datatype PackageCommandLossBehavior = FrozenKlr10HoldThenSafe | ImmediateSafehold

fun command_loss_tag :: "PackageCommandLossBehavior \<Rightarrow> u8" where
  "command_loss_tag FrozenKlr10HoldThenSafe = 1" | "command_loss_tag ImmediateSafehold = 2"

definition parse_command_loss :: "u8 \<Rightarrow> CodecError + PackageCommandLossBehavior" where
  "parse_command_loss value =
     (if value = 1 then Inr FrozenKlr10HoldThenSafe
      else if value = 2 then Inr ImmediateSafehold else Inl Enum)"

record PackageResourceClaim =
  persistent_bytes :: u16
  transient_bytes :: u16
  stack_bytes :: u16
  journal_records :: u8
  maximum_object_bytes :: u16

record FlightSoftwarePackageManifest =
  manifest_identity :: u32
  fm_package :: FlightSoftwarePackageId
  implementation_identity :: u32
  fm_abi :: FlightAbiId
  fm_vehicle_profile_identity :: u32
  mission_compatibility_identity :: u32
  capabilities :: u32
  segment_support :: u16
  command_load_support :: u16
  targets :: u8
  safe_state :: PackageSafeStateId
  command_loss :: PackageCommandLossBehavior
  resource :: PackageResourceClaim
  fm_fast_hz :: u8
  fm_navigation_hz :: u8
  fm_guidance_hz :: u8
  maximum_plan_events :: u8
  maximum_branches :: u8
  maximum_decisions :: u8
  code_identity :: u32
  configuration_identity :: u32
  resource_evidence_sha256 :: "u8 list"

subsection \<open>Mission plans\<close>

definition KMP11_MAX_EVENTS :: nat where "KMP11_MAX_EVENTS = 24"
definition KMP11_MAX_BRANCHES :: nat where "KMP11_MAX_BRANCHES = 8"
definition KMP11_MAX_DECISIONS :: nat where "KMP11_MAX_DECISIONS = 8"

datatype MissionEventKind = AttitudeOrGuidanceTarget | NavigationSource | HoldOrContinue
  | PlannedCorrection | RecoveryMode | AbortOrSafeState

fun event_kind_tag :: "MissionEventKind \<Rightarrow> u8" where
  "event_kind_tag AttitudeOrGuidanceTarget = 1" | "event_kind_tag NavigationSource = 2"
| "event_kind_tag HoldOrContinue = 3" | "event_kind_tag PlannedCorrection = 4"
| "event_kind_tag RecoveryMode = 5" | "event_kind_tag AbortOrSafeState = 6"

definition parse_event_kind :: "u8 \<Rightarrow> CodecError + MissionEventKind" where
  "parse_event_kind value =
     (if value = 1 then Inr AttitudeOrGuidanceTarget else if value = 2 then Inr NavigationSource
      else if value = 3 then Inr HoldOrContinue else if value = 4 then Inr PlannedCorrection
      else if value = 5 then Inr RecoveryMode else if value = 6 then Inr AbortOrSafeState else Inl Enum)"

datatype MissionEventTrigger = ExactRelease | PublicOnboardGuard

fun event_trigger_tag :: "MissionEventTrigger \<Rightarrow> u8" where
  "event_trigger_tag ExactRelease = 1" | "event_trigger_tag PublicOnboardGuard = 2"

definition parse_event_trigger :: "u8 \<Rightarrow> CodecError + MissionEventTrigger" where
  "parse_event_trigger value =
     (if value = 1 then Inr ExactRelease else if value = 2 then Inr PublicOnboardGuard else Inl Enum)"

datatype MissionFailurePolicy = FailClosed | Skip | SelectContingency

fun failure_policy_tag :: "MissionFailurePolicy \<Rightarrow> u8" where
  "failure_policy_tag FailClosed = 1" | "failure_policy_tag Skip = 2" | "failure_policy_tag SelectContingency = 3"

definition parse_failure_policy :: "u8 \<Rightarrow> CodecError + MissionFailurePolicy" where
  "parse_failure_policy value =
     (if value = 1 then Inr FailClosed else if value = 2 then Inr Skip
      else if value = 3 then Inr SelectContingency else Inl Enum)"

record MissionPlanEvent =
  event_id :: u16
  ev_kind :: MissionEventKind
  ev_trigger :: MissionEventTrigger
  ev_flags :: u16
  failure_policy :: MissionFailurePolicy
  ev_earliest_epoch :: u32
  ev_latest_epoch :: u32
  exact_epoch :: u32
  ev_prerequisite_events :: u32
  ev_required_capabilities :: u32
  ev_arguments :: "i32 list"
  guard_metric :: u16
  guard_comparison :: u8

definition EMPTY_EVENT :: MissionPlanEvent where
  "EMPTY_EVENT = \<lparr>event_id = 0, ev_kind = AttitudeOrGuidanceTarget, ev_trigger = ExactRelease, ev_flags = 0,
     failure_policy = FailClosed, ev_earliest_epoch = 0, ev_latest_epoch = 0, exact_epoch = 0,
     ev_prerequisite_events = 0, ev_required_capabilities = 0, ev_arguments = replicate 4 0,
     guard_metric = 0, guard_comparison = 0\<rparr>"

record ContingencyBranch =
  branch_id :: u8
  source_decision_id :: u8
  first_event_id :: u16
  br_flags :: u16
  br_earliest_epoch :: u32
  br_latest_epoch :: u32
  br_prerequisite_events :: u32
  br_required_capabilities :: u32
  br_arguments :: "i32 \<times> i32"

definition EMPTY_BRANCH :: ContingencyBranch where
  "EMPTY_BRANCH = \<lparr>branch_id = 0, source_decision_id = 0, first_event_id = 0, br_flags = 0,
     br_earliest_epoch = 0, br_latest_epoch = 0, br_prerequisite_events = 0, br_required_capabilities = 0,
     br_arguments = (0, 0)\<rparr>"

record OperatorDecisionPoint =
  decision_id :: u8
  default_branch_id :: u8
  dp_flags :: u16
  dp_earliest_epoch :: u32
  dp_latest_epoch :: u32
  required_event_mask :: u32
  timeout_branch_id :: u8

definition EMPTY_DECISION :: OperatorDecisionPoint where
  "EMPTY_DECISION = \<lparr>decision_id = 0, default_branch_id = 0, dp_flags = 0, dp_earliest_epoch = 0,
     dp_latest_epoch = 0, required_event_mask = 0, timeout_branch_id = 0\<rparr>"

record MissionPlan =
  plan_identity :: u32
  package_manifest_identity :: u32
  mp_package :: FlightSoftwarePackageId
  mp_abi :: FlightAbiId
  mp_vehicle_profile_identity :: u32
  mission_identity :: u32
  earth_identity :: u32
  environment_identity :: u32
  onboard_prediction_model :: u32
  ground_prediction_model :: u32
  mp_required_capabilities :: u32
  event_count :: u8
  branch_count :: u8
  decision_count :: u8
  plan_events :: "MissionPlanEvent list"
  branches :: "ContingencyBranch list"
  decisions :: "OperatorDecisionPoint list"

subsection \<open>Uplinks\<close>

datatype GlobalFrameId = LocalEnuV1 | EarthFixedEcefV1 | EarthInertialEciV1

fun frame_tag :: "GlobalFrameId \<Rightarrow> u8" where
  "frame_tag LocalEnuV1 = 1" | "frame_tag EarthFixedEcefV1 = 2" | "frame_tag EarthInertialEciV1 = 3"

definition parse_global_frame :: "u8 \<Rightarrow> CodecError + GlobalFrameId" where
  "parse_global_frame value =
     (if value = 1 then Inr LocalEnuV1 else if value = 2 then Inr EarthFixedEcefV1
      else if value = 3 then Inr EarthInertialEciV1 else Inl Enum)"

datatype UplinkLoadType = GroundNavigationUpdate | MissionEventTarget | ContingencyBranchSelect
  | NavigationMode | HighLevelMode

fun load_type_tag :: "UplinkLoadType \<Rightarrow> u8" where
  "load_type_tag GroundNavigationUpdate = 1" | "load_type_tag MissionEventTarget = 2"
| "load_type_tag ContingencyBranchSelect = 3" | "load_type_tag NavigationMode = 4"
| "load_type_tag HighLevelMode = 5"

definition parse_load_type :: "u8 \<Rightarrow> CodecError + UplinkLoadType" where
  "parse_load_type value =
     (if value = 1 then Inr GroundNavigationUpdate else if value = 2 then Inr MissionEventTarget
      else if value = 3 then Inr ContingencyBranchSelect else if value = 4 then Inr NavigationMode
      else if value = 5 then Inr HighLevelMode else Inl Enum)"

fun load_capability :: "UplinkLoadType \<Rightarrow> u32" where
  "load_capability GroundNavigationUpdate = PACKAGE_CAP_GROUND_NAV_UPDATE"
| "load_capability MissionEventTarget = PACKAGE_CAP_TARGET_UPDATE"
| "load_capability ContingencyBranchSelect = PACKAGE_CAP_BRANCH_SELECT"
| "load_capability NavigationMode = PACKAGE_CAP_NAV_MODE"
| "load_capability HighLevelMode = PACKAGE_CAP_HIGH_LEVEL_MODE"

fun load_support_bit :: "UplinkLoadType \<Rightarrow> u16" where
  "load_support_bit GroundNavigationUpdate = PACKAGE_LOAD_GROUND_NAV"
| "load_support_bit MissionEventTarget = PACKAGE_LOAD_EVENT_TARGET"
| "load_support_bit ContingencyBranchSelect = PACKAGE_LOAD_BRANCH"
| "load_support_bit NavigationMode = PACKAGE_LOAD_NAV_MODE"
| "load_support_bit HighLevelMode = PACKAGE_LOAD_HIGH_LEVEL_MODE"

record UplinkCommandLoad =
  load_identity :: u32
  ul_package_manifest_identity :: u32
  ul_plan_identity :: u32
  ul_abi :: FlightAbiId
  source_estimator_identity :: u32
  source_estimator_checksum :: u32
  stage_epoch :: u32
  not_before_epoch :: u32
  expires_epoch :: u32
  requested_effective_epoch :: u32
  ul_required_capabilities :: u32
  prerequisite_event_mask :: u32
  position_residual_limit_q12 :: i32
  velocity_residual_limit_q24 :: i32
  ul_frame :: GlobalFrameId
  load_type :: UplinkLoadType
  ul_arguments :: "i32 list"

datatype UplinkControlKind = StageReceipt | CommitRequest | CommitReceipt | Cancellation | ExecutionAcknowledgement

fun control_kind_tag :: "UplinkControlKind \<Rightarrow> u8" where
  "control_kind_tag StageReceipt = 1" | "control_kind_tag CommitRequest = 2" | "control_kind_tag CommitReceipt = 3"
| "control_kind_tag Cancellation = 4" | "control_kind_tag ExecutionAcknowledgement = 5"

definition parse_control_kind :: "u8 \<Rightarrow> CodecError + UplinkControlKind" where
  "parse_control_kind value =
     (if value = 1 then Inr StageReceipt else if value = 2 then Inr CommitRequest
      else if value = 3 then Inr CommitReceipt else if value = 4 then Inr Cancellation
      else if value = 5 then Inr ExecutionAcknowledgement else Inl Enum)"

datatype UplinkState = Empty | Staged | Committed | Executed | Cancelled | Rejected | Expired

fun uplink_state_tag :: "UplinkState \<Rightarrow> u8" where
  "uplink_state_tag Empty = 0" | "uplink_state_tag Staged = 1" | "uplink_state_tag Committed = 2"
| "uplink_state_tag Executed = 3" | "uplink_state_tag Cancelled = 4" | "uplink_state_tag Rejected = 5"
| "uplink_state_tag Expired = 6"

definition parse_uplink_state :: "u8 \<Rightarrow> CodecError + UplinkState" where
  "parse_uplink_state value =
     (if value = 0 then Inr Empty else if value = 1 then Inr Staged else if value = 2 then Inr Committed
      else if value = 3 then Inr Executed else if value = 4 then Inr Cancelled
      else if value = 5 then Inr Rejected else if value = 6 then Inr Expired else Inl Enum)"

datatype UplinkReasonCode = Accepted | Corrupt | Identity | Frame | Stale | Late | Unsupported | Capability
  | Prerequisite | Bounds | Residual | Occupied | Conflict | AlreadyApplied

fun reason_tag :: "UplinkReasonCode \<Rightarrow> u8" where
  "reason_tag Accepted = 0" | "reason_tag Corrupt = 1" | "reason_tag Identity = 2" | "reason_tag Frame = 3"
| "reason_tag Stale = 4" | "reason_tag Late = 5" | "reason_tag Unsupported = 6" | "reason_tag Capability = 7"
| "reason_tag Prerequisite = 8" | "reason_tag Bounds = 9" | "reason_tag Residual = 10"
| "reason_tag Occupied = 11" | "reason_tag Conflict = 12" | "reason_tag AlreadyApplied = 13"

definition parse_reason :: "u8 \<Rightarrow> CodecError + UplinkReasonCode" where
  "parse_reason value =
     (if value = 0 then Inr Accepted else if value = 1 then Inr Corrupt else if value = 2 then Inr Identity
      else if value = 3 then Inr Frame else if value = 4 then Inr Stale else if value = 5 then Inr Late
      else if value = 6 then Inr Unsupported else if value = 7 then Inr Capability
      else if value = 8 then Inr Prerequisite else if value = 9 then Inr Bounds
      else if value = 10 then Inr Residual else if value = 11 then Inr Occupied
      else if value = 12 then Inr Conflict else if value = 13 then Inr AlreadyApplied else Inl Enum)"

record UplinkControlRecord =
  uc_kind :: UplinkControlKind
  control_identity :: u32
  uc_load_identity :: u32
  uc_package_manifest_identity :: u32
  uc_plan_identity :: u32
  request_epoch :: u32
  uc_effective_epoch :: u32
  uc_state :: UplinkState
  uc_reason :: UplinkReasonCode
  receipt_checksum :: u32

subsection \<open>Journal records\<close>

datatype JournalEventKind = ModeEvent | NavigationSourceEvent | UplinkEvent | PredictionEvent
  | CommunicationsEvent | SafeStateEvent | AlarmEvent

fun journal_kind_tag :: "JournalEventKind \<Rightarrow> u8" where
  "journal_kind_tag ModeEvent = 1" | "journal_kind_tag NavigationSourceEvent = 2"
| "journal_kind_tag UplinkEvent = 3" | "journal_kind_tag PredictionEvent = 4"
| "journal_kind_tag CommunicationsEvent = 5" | "journal_kind_tag SafeStateEvent = 6"
| "journal_kind_tag AlarmEvent = 7"

definition parse_journal_kind :: "u8 \<Rightarrow> CodecError + JournalEventKind" where
  "parse_journal_kind value =
     (if value = 1 then Inr ModeEvent else if value = 2 then Inr NavigationSourceEvent
      else if value = 3 then Inr UplinkEvent else if value = 4 then Inr PredictionEvent
      else if value = 5 then Inr CommunicationsEvent else if value = 6 then Inr SafeStateEvent
      else if value = 7 then Inr AlarmEvent else Inl Enum)"

record EventJournalRecord =
  jr_sequence :: u32
  jr_epoch :: u32
  jr_kind :: JournalEventKind
  jr_flags :: u8
  primary_identity :: u32
  secondary_identity :: u32
  jr_arguments :: "i32 list"
  prior_chain :: u32
  chain :: u32

definition EMPTY_RECORD :: EventJournalRecord where
  "EMPTY_RECORD = \<lparr>jr_sequence = 0, jr_epoch = 0, jr_kind = ModeEvent, jr_flags = 0, primary_identity = 0,
     secondary_identity = 0, jr_arguments = replicate 4 0, prior_chain = 0, chain = 0\<rparr>"

subsection \<open>Package objects\<close>

datatype PackageObjectType = PackageManifestObject | MissionPlanObject | ProcedurePackObject | PackageConfigurationObject

fun object_type_tag :: "PackageObjectType \<Rightarrow> u8" where
  "object_type_tag PackageManifestObject = 1" | "object_type_tag MissionPlanObject = 2"
| "object_type_tag ProcedurePackObject = 3" | "object_type_tag PackageConfigurationObject = 4"

definition parse_object_type :: "u8 \<Rightarrow> CodecError + PackageObjectType" where
  "parse_object_type value =
     (if value = 1 then Inr PackageManifestObject else if value = 2 then Inr MissionPlanObject
      else if value = 3 then Inr ProcedurePackObject else if value = 4 then Inr PackageConfigurationObject
      else Inl Enum)"

record PackageObjectSegment =
  seg_object_type :: PackageObjectType
  seg_object_identity :: u32
  seg_total_length :: u32
  seg_total_crc32 :: u32
  segment_index :: u16
  seg_segment_count :: u16
  logical_offset :: u16
  seg_payload :: "u8 list"

subsection \<open>Tags are read back\<close>

lemma parse_tags [simp]:
  "parse_package (package_tag p) = Inr p" "parse_abi (abi_tag a) = Inr a"
  "parse_safe_state (safe_state_tag s) = Inr s" "parse_command_loss (command_loss_tag c) = Inr c"
  "parse_event_kind (event_kind_tag k) = Inr k" "parse_event_trigger (event_trigger_tag t) = Inr t"
  "parse_failure_policy (failure_policy_tag f) = Inr f" "parse_global_frame (frame_tag g) = Inr g"
  "parse_load_type (load_type_tag l) = Inr l" "parse_control_kind (control_kind_tag q) = Inr q"
  "parse_uplink_state (uplink_state_tag u) = Inr u" "parse_reason (reason_tag r) = Inr r"
  "parse_journal_kind (journal_kind_tag j) = Inr j" "parse_object_type (object_type_tag obj) = Inr obj"
proof -
  show "parse_package (package_tag p) = Inr p" by (cases p) (simp_all add: parse_package_def)
  show "parse_abi (abi_tag a) = Inr a" by (cases a) (simp_all add: parse_abi_def)
  show "parse_safe_state (safe_state_tag s) = Inr s" by (cases s) (simp_all add: parse_safe_state_def)
  show "parse_command_loss (command_loss_tag c) = Inr c" by (cases c) (simp_all add: parse_command_loss_def)
  show "parse_event_kind (event_kind_tag k) = Inr k" by (cases k) (simp_all add: parse_event_kind_def)
  show "parse_event_trigger (event_trigger_tag t) = Inr t" by (cases t) (simp_all add: parse_event_trigger_def)
  show "parse_failure_policy (failure_policy_tag f) = Inr f" by (cases f) (simp_all add: parse_failure_policy_def)
  show "parse_global_frame (frame_tag g) = Inr g" by (cases g) (simp_all add: parse_global_frame_def)
  show "parse_load_type (load_type_tag l) = Inr l" by (cases l) (simp_all add: parse_load_type_def)
  show "parse_control_kind (control_kind_tag q) = Inr q" by (cases q) (simp_all add: parse_control_kind_def)
  show "parse_uplink_state (uplink_state_tag u) = Inr u" by (cases u) (simp_all add: parse_uplink_state_def)
  show "parse_reason (reason_tag r) = Inr r" by (cases r) (simp_all add: parse_reason_def)
  show "parse_journal_kind (journal_kind_tag j) = Inr j" by (cases j) (simp_all add: parse_journal_kind_def)
  show "parse_object_type (object_type_tag obj) = Inr obj" by (cases obj) (simp_all add: parse_object_type_def)
qed

end
