(* ===== verification/Sealed_Records.thy ===== *)
theory Sealed_Records
  imports Realtime_Cells
begin

text \<open>
  The interface shared by the sealed records of phases 10 and 11: a writer that fills a
  buffer of one fixed length and ends it with a checksum over the rest, and a parser
  that accepts only sealed buffers. The locale derives the round trip in both outcomes
  and the rejection of every one-byte corruption. A record's fields are a list of
  stores; that they fit and do not overlap is checked once per record, and every read
  of the parser then follows from its store.
\<close>

unbundle bit_operations_syntax

subsection \<open>Field writes\<close>

text \<open>
  A record is written by a sequence of stores into a zero-filled buffer, each at a
  constant offset. A store is an offset with the bytes written there; the sequence is
  carried out in order.
\<close>

type_synonym store = "nat \<times> u8 list"

definition p8 :: "nat \<Rightarrow> u8 \<Rightarrow> store" where "p8 offset value = (offset, [value])"
definition p16 :: "nat \<Rightarrow> u16 \<Rightarrow> store" where "p16 offset value = (offset, to_le_bytes16 value)"
definition p32 :: "nat \<Rightarrow> u32 \<Rightarrow> store" where "p32 offset value = (offset, to_le_bytes32 value)"
definition pi16 :: "nat \<Rightarrow> i16 \<Rightarrow> store" where "pi16 offset value = p16 offset value"
definition pi32 :: "nat \<Rightarrow> i32 \<Rightarrow> store" where "pi32 offset value = p32 offset value"

definition put_fields :: "u8 list \<Rightarrow> store list \<Rightarrow> u8 list" where
  "put_fields output stores = foldl (\<lambda>output (offset, bytes). copy_from_slice output offset bytes) output stores"

definition each :: "nat \<Rightarrow> (nat \<Rightarrow> store list) \<Rightarrow> store list" where
  "each count body = concat (map body [0..<count])"

lemma each_unfold [simp]:
  "each 3 body = body 0 @ body 1 @ body 2" "each 4 body = body 0 @ body 1 @ body 2 @ body 3"
  by (simp_all add: each_def upt_rec numeral_eq_Suc)

fun fits :: "nat \<Rightarrow> store list \<Rightarrow> bool" where
  "fits n [] \<longleftrightarrow> True"
| "fits n ((i, bs) # ws) \<longleftrightarrow> i + length bs \<le> n \<and> fits n ws"

fun avoids :: "nat \<Rightarrow> nat \<Rightarrow> store list \<Rightarrow> bool" where
  "avoids i k [] \<longleftrightarrow> True"
| "avoids i k ((j, bs) # ws) \<longleftrightarrow> (i + k \<le> j \<or> j + length bs \<le> i) \<and> avoids i k ws"

fun apart :: "store list \<Rightarrow> bool" where
  "apart [] \<longleftrightarrow> True"
| "apart ((i, bs) # ws) \<longleftrightarrow> avoids i (length bs) ws \<and> apart ws"

lemma put_fields_simps [simp]:
  "put_fields out [] = out" "put_fields out ((i, bs) # ws) = put_fields (copy_from_slice out i bs) ws"
  by (simp_all add: put_fields_def)

lemma slice_copy_other:
  assumes "i + length bs \<le> length out" "j + k \<le> i \<or> i + length bs \<le> j"
  shows "take k (drop j (copy_from_slice out i bs)) = take k (drop j out)"
  using assms by (auto intro!: nth_equalityI simp: nth_copy_from_slice length_copy_from_slice)

lemma length_put_fields: "fits (length out) ws \<Longrightarrow> length (put_fields out ws) = length out"
  by (induction ws arbitrary: out rule: list.induct) (auto simp: length_copy_from_slice)

lemma put_fields_avoids:
  "fits (length out) ws \<Longrightarrow> avoids i k ws \<Longrightarrow> take k (drop i (put_fields out ws)) = take k (drop i out)"
  by (induction ws arbitrary: out rule: list.induct) (auto simp: length_copy_from_slice slice_copy_other)

lemma put_fields_stored:
  "fits (length out) ws \<Longrightarrow> apart ws \<Longrightarrow> (i, bs) \<in> set ws \<Longrightarrow> take (length bs) (drop i (put_fields out ws)) = bs"
proof (induction ws arbitrary: out rule: list.induct)
  case (Cons w ws)
  obtain j cs where w: "w = (j, cs)" by fastforce
  show ?case
  proof (cases "(i, bs) = w")
    case True
    then show ?thesis using Cons.prems w
      by (simp add: put_fields_avoids length_copy_from_slice drop_take_copy_from_slice)
  next
    case False
    then have "(i, bs) \<in> set ws" using Cons.prems(3) by simp
    then show ?thesis using Cons.IH [of "copy_from_slice out j cs"] Cons.prems w by (simp add: length_copy_from_slice)
  qed
qed simp

text \<open>A layout is a sequence of stores that fit and do not overlap.\<close>

definition layout :: "nat \<Rightarrow> store list \<Rightarrow> bool" where
  "layout n ws \<longleftrightarrow> fits n ws \<and> apart ws"

fun find_store :: "nat \<Rightarrow> store list \<Rightarrow> u8 list" where
  "find_store i [] = []"
| "find_store i ((j, bs) # ws) = (if i = j then bs else find_store i ws)"

lemma find_store_in: "find_store i ws \<noteq> [] \<Longrightarrow> (i, find_store i ws) \<in> set ws"
  by (induction ws rule: list.induct) (auto split: if_splits)

text \<open>
  What a read of a written record returns, by the store at its offset; the last branch
  keeps the read where no store decides it.
\<close>

definition lookup_slice :: "u8 list \<Rightarrow> store list \<Rightarrow> nat \<Rightarrow> nat \<Rightarrow> u8 list" where
  "lookup_slice out ws i k =
     (if 0 < k \<and> length (find_store i ws) = k then find_store i ws
      else if i + k \<le> length out \<and> avoids i k ws then replicate k 0
      else take k (drop i (put_fields (fill0 out) ws)))"

definition lookup8 :: "u8 list \<Rightarrow> store list \<Rightarrow> nat \<Rightarrow> u8" where
  "lookup8 out ws i =
     (if length (find_store i ws) = 1 then find_store i ws ! 0
      else if i < length out \<and> avoids i 1 ws then 0 else put_fields (fill0 out) ws ! i)"

definition lookup16 :: "u8 list \<Rightarrow> store list \<Rightarrow> nat \<Rightarrow> u16" where
  "lookup16 out ws i =
     (if length (find_store i ws) = 2 then from_le_bytes16 (find_store i ws ! 0) (find_store i ws ! 1)
      else read_u16 (put_fields (fill0 out) ws) i)"

definition lookup32 :: "u8 list \<Rightarrow> store list \<Rightarrow> nat \<Rightarrow> u32" where
  "lookup32 out ws i =
     (if length (find_store i ws) = 4
      then from_le_bytes32 (find_store i ws ! 0) (find_store i ws ! 1) (find_store i ws ! 2) (find_store i ws ! 3)
      else read_u32 (put_fields (fill0 out) ws) i)"

lemmas lookup_defs = lookup_slice_def lookup8_def lookup16_def lookup32_def

lemma take_drop_at:
  assumes "take k (drop i b) = bs" "length bs = k" "j < k"
  shows "b ! (i + j) = bs ! j"
proof -
  have "i + j < length b" using assms by auto
  then have "take k (drop i b) ! j = b ! (i + j)" using assms(3) by simp
  then show ?thesis using assms(1) by simp
qed

lemma layout_reads:
  assumes "length out = n" "layout n ws"
  shows "length (put_fields (fill0 out) ws) = n"
    "take k (drop i (put_fields (fill0 out) ws)) = lookup_slice out ws i k"
    "take k (put_fields (fill0 out) ws) = lookup_slice out ws 0 k"
    "put_fields (fill0 out) ws ! i = lookup8 out ws i"
    "read_u16 (put_fields (fill0 out) ws) i = lookup16 out ws i"
    "read_u32 (put_fields (fill0 out) ws) i = lookup32 out ws i"
proof -
  let ?b = "put_fields (fill0 out) ws"
  have ok: "fits (length (fill0 out)) ws" "apart ws" using assms by (simp_all add: layout_def)
  show len: "length ?b = n" using length_put_fields [OF ok(1)] assms(1) by simp
  have st: "take k (drop i ?b) = find_store i ws" if "0 < k" "length (find_store i ws) = k" for i k
    using put_fields_stored [OF ok find_store_in [of i ws]] that by auto
  have z: "take k (drop i ?b) = replicate k 0" if "i + k \<le> length out" "avoids i k ws" for i k
    using put_fields_avoids [OF ok(1)] that by (simp add: fill0_def min_def)
  show sl: "take k (drop i ?b) = lookup_slice out ws i k" for i k
    using st z by (auto simp: lookup_slice_def)
  show "take k ?b = lookup_slice out ws 0 k" using sl [of k 0] by simp
  have at: "?b ! (i + j) = find_store i ws ! j" if "length (find_store i ws) = k" "j < k" for i j k
    using take_drop_at [of k i ?b "find_store i ws" j] st that by simp
  show "?b ! i = lookup8 out ws i"
    using at [of i 1 0] z [of i 1] take_drop_at [of 1 i ?b "[0]" 0] by (auto simp: lookup8_def)
  show "read_u16 ?b i = lookup16 out ws i"
    using at [of i 2 0] at [of i 2 1] by (simp add: lookup16_def read_u16_def)
  show "read_u32 ?b i = lookup32 out ws i"
    using at [of i 4 0] at [of i 4 1] at [of i 4 2] at [of i 4 3] by (simp add: lookup32_def read_u32_def)
qed

lemma le_bytes_lookup [simp]:
  "from_le_bytes16 (to_le_bytes16 v ! 0) (to_le_bytes16 v ! Suc 0) = v"
  "from_le_bytes32 (to_le_bytes32 w ! 0) (to_le_bytes32 w ! Suc 0) (to_le_bytes32 w ! 2) (to_le_bytes32 w ! 3) = w"
proof -
  have n: "(2::nat) = Suc (Suc 0)" "(3::nat) = Suc (Suc (Suc 0))" by simp_all
  show "from_le_bytes16 (to_le_bytes16 v ! 0) (to_le_bytes16 v ! Suc 0) = v"
    "from_le_bytes32 (to_le_bytes32 w ! 0) (to_le_bytes32 w ! Suc 0) (to_le_bytes32 w ! 2) (to_le_bytes32 w ! 3) = w"
    unfolding n to_le_bytes16_def to_le_bytes32_def nth_Cons_0 nth_Cons_Suc
    by (rule from_to_le_bytes16, rule from_to_le_bytes32)
qed

lemma slice_update_32:
  "length out = n \<Longrightarrow> i + 4 \<le> n \<Longrightarrow> j + k \<le> i \<or> i + 4 \<le> j \<Longrightarrow> take k (drop j (write_u32 out i w)) = take k (drop j out)"
  "length out = n \<Longrightarrow> i + 2 \<le> n \<Longrightarrow> j + k \<le> i \<or> i + 2 \<le> j \<Longrightarrow> take k (drop j (write_u16 out i v)) = take k (drop j out)"
  by (simp_all add: write_u16_def write_u32_def slice_copy_other)

subsection \<open>Trailing checksums\<close>

definition seal32 :: "u8 list \<Rightarrow> u8 list" where
  "seal32 b = write_u32 b (length b - 4) (crc32_ieee (take (length b - 4) b))"

lemma seal32_fields:
  assumes "length b = n" "4 \<le> n"
  shows "length (seal32 b) = n" "k + 4 \<le> n \<Longrightarrow> take k (seal32 b) = take k b"
    "j + 4 < n \<Longrightarrow> seal32 b ! j = b ! j"
    "j + 6 \<le> n \<Longrightarrow> read_u16 (seal32 b) j = read_u16 b j"
    "j + 8 \<le> n \<Longrightarrow> read_u32 (seal32 b) j = read_u32 b j"
    "j + k + 4 \<le> n \<Longrightarrow> take k (drop j (seal32 b)) = take k (drop j b)"
    "read_u32 (seal32 b) (n - 4) = crc32_ieee (take (n - 4) (seal32 b))"
proof -
  obtain m where n: "n = m + 4" using assms(2) le_Suc_ex by (metis add.commute)
  then show "length (seal32 b) = n" "k + 4 \<le> n \<Longrightarrow> take k (seal32 b) = take k b"
    "j + 4 < n \<Longrightarrow> seal32 b ! j = b ! j"
    "j + 6 \<le> n \<Longrightarrow> read_u16 (seal32 b) j = read_u16 b j"
    "j + 8 \<le> n \<Longrightarrow> read_u32 (seal32 b) j = read_u32 b j"
    "j + k + 4 \<le> n \<Longrightarrow> take k (drop j (seal32 b)) = take k (drop j b)"
    "read_u32 (seal32 b) (n - 4) = crc32_ieee (take (n - 4) (seal32 b))"
    using assms(1) by (auto simp: seal32_def record_access slice_update_32)
qed

lemma seal16_slice:
  assumes "length b = n" "2 \<le> n" "j + k + 2 \<le> n"
  shows "take k (drop j (seal16 b)) = take k (drop j b)"
proof -
  obtain m where n: "n = m + 2" using assms(2) le_Suc_ex by (metis add.commute)
  then show ?thesis using assms by (auto simp: seal16_def slice_update_32)
qed

definition sealed16 :: "u8 list \<Rightarrow> bool" where
  "sealed16 b \<longleftrightarrow> crc16_ccitt (take (length b - 2) b) = read_u16 b (length b - 2)"

definition sealed32 :: "u8 list \<Rightarrow> bool" where
  "sealed32 b \<longleftrightarrow> crc32_ieee (take (length b - 4) b) = read_u32 b (length b - 4)"

lemma sealed_breaks:
  "2 \<le> length b \<Longrightarrow> sealed16 b \<Longrightarrow> i < length b \<Longrightarrow> x \<noteq> b ! i \<Longrightarrow> \<not> sealed16 (b[i := x])"
  "4 \<le> length b \<Longrightarrow> sealed32 b \<Longrightarrow> i < length b \<Longrightarrow> x \<noteq> b ! i \<Longrightarrow> \<not> sealed32 (b[i := x])"
  using crc16_record.corruption_detected [of "length b - 2" b i x] crc32_record.corruption_detected [of "length b - 4" b i x]
  by (auto simp: sealed16_def sealed32_def)

subsection \<open>The codec interface\<close>

text \<open>
  \<^verbatim>\<open>typed\<close> holds of the values of the source's type where the model's type is wider (an
  array of a fixed length that is a list here); \<^verbatim>\<open>valid\<close> is the contract the writer checks.
\<close>

locale sealed_codec =
  fixes write_rec :: "'v \<Rightarrow> u8 list \<Rightarrow> (CodecError + unit) \<times> u8 list"
    and parse_rec :: "u8 list \<Rightarrow> CodecError + 'v" and rec_length :: nat
    and typed :: "'v \<Rightarrow> bool" and valid :: "'v \<Rightarrow> bool" and sealed :: "u8 list \<Rightarrow> bool"
  assumes write_refuses: "length out \<noteq> rec_length \<or> \<not> valid v \<Longrightarrow> \<exists>e. write_rec v out = (Inl e, out)"
    and write_parse: "length out = rec_length \<Longrightarrow> typed v \<Longrightarrow> valid v \<Longrightarrow>
      \<exists>b. write_rec v out = (Inr (), b) \<and> length b = rec_length \<and> parse_rec b = Inr v"
    and parse_sealed: "parse_rec b = Inr v \<Longrightarrow> length b = rec_length \<and> sealed b"
    and seal_breaks: "length b = rec_length \<Longrightarrow> sealed b \<Longrightarrow> i < length b \<Longrightarrow> x \<noteq> b ! i \<Longrightarrow> \<not> sealed (b[i := x])"
begin

lemma contract:
  assumes "typed v"
  shows "case write_rec v out of
     (Inl e, b) \<Rightarrow> b = out \<and> (length out \<noteq> rec_length \<or> \<not> valid v)
   | (Inr u, b) \<Rightarrow> length out = rec_length \<and> valid v \<and> length b = rec_length \<and> parse_rec b = Inr v"
  using write_refuses [where out = out and v = v] write_parse [where out = out and v = v] assms
  by (cases "length out = rec_length \<and> valid v") auto

lemma corruption_rejected:
  assumes "parse_rec b = Inr v" "i < rec_length" "x \<noteq> b ! i"
  shows "\<not> is_ok (parse_rec (b[i := x]))"
  using parse_sealed [OF assms(1)] parse_sealed [of "b[i := x]"] seal_breaks [of b i x] assms(2,3) by (auto simp: is_ok_iff)

end

end
