(* ===== verification/Record_Fields.thy ===== *)
theory Record_Fields
  imports Sealed_Records
begin

text \<open>
  The field discipline of the phase 11 records.  A buffer holds a list of stores when each
  store's bytes are found at its offset, and is blank outside them when every other byte is
  zero.  A record whose parser accepts exactly the sealed buffers that hold its fields and
  are blank elsewhere has a codec that round trips in both directions: writing and parsing,
  and parsing and writing.
\<close>

unbundle bit_operations_syntax

subsection \<open>Buffers that hold stores\<close>

definition holds :: "u8 list \<Rightarrow> store list \<Rightarrow> bool" where
  "holds b ws \<longleftrightarrow> (\<forall>(i, bs) \<in> set ws. i + length bs \<le> length b \<and> take (length bs) (drop i b) = bs)"

definition blank :: "u8 list \<Rightarrow> nat \<Rightarrow> store list \<Rightarrow> bool" where
  "blank b n ws \<longleftrightarrow> (\<forall>j < n. (\<forall>(i, bs) \<in> set ws. j < i \<or> i + length bs \<le> j) \<longrightarrow> b ! j = 0)"

definition any_nonzero :: "u8 list \<Rightarrow> nat \<Rightarrow> nat \<Rightarrow> bool" where
  "any_nonzero b lo hi \<longleftrightarrow> (\<exists>byte \<in> set (take (hi - lo) (drop lo b)). byte \<noteq> 0)"

lemma any_nonzero_nth: "hi \<le> length b \<Longrightarrow> any_nonzero b lo hi \<longleftrightarrow> (\<exists>j. lo \<le> j \<and> j < hi \<and> b ! j \<noteq> 0)"
proof -
  assume len: "hi \<le> length b"
  have "any_nonzero b lo hi \<longleftrightarrow> (\<exists>k < hi - lo. b ! (lo + k) \<noteq> 0)"
    using len by (auto simp: any_nonzero_def set_conv_nth Bex_def)
  also have "\<dots> \<longleftrightarrow> (\<exists>j. lo \<le> j \<and> j < hi \<and> b ! j \<noteq> 0)"
  proof
    assume "\<exists>k < hi - lo. b ! (lo + k) \<noteq> 0"
    then show "\<exists>j. lo \<le> j \<and> j < hi \<and> b ! j \<noteq> 0" by (metis le_add1 less_diff_conv2 less_diff_conv add.commute)
  next
    assume "\<exists>j. lo \<le> j \<and> j < hi \<and> b ! j \<noteq> 0"
    then obtain j where "lo \<le> j" "j < hi" "b ! j \<noteq> 0" by blast
    then have "j - lo < hi - lo" "b ! (lo + (j - lo)) \<noteq> 0" by simp_all
    then show "\<exists>k < hi - lo. b ! (lo + k) \<noteq> 0" by blast
  qed
  finally show ?thesis .
qed

lemma any_nonzero_short [simp]:
  "hi \<le> lo + 4 \<Longrightarrow> hi \<le> length b \<Longrightarrow> any_nonzero b lo hi \<longleftrightarrow> (\<exists>j \<in> set [lo..<hi]. b ! j \<noteq> 0)"
  by (auto simp: any_nonzero_nth)

lemma holds_simps [simp]:
  "holds b []" "holds b (xs @ ys) \<longleftrightarrow> holds b xs \<and> holds b ys"
  "holds b ((i, bs) # ws) \<longleftrightarrow> i + length bs \<le> length b \<and> take (length bs) (drop i b) = bs \<and> holds b ws"
  by (auto simp: holds_def)

lemma holds_each: "holds b (each count body) \<longleftrightarrow> (\<forall>k < count. holds b (body k))"
  by (auto simp: holds_def each_def)

lemma slice_word_16: "i + 2 \<le> length b \<Longrightarrow> take 2 (drop i b) = to_le_bytes16 v \<longleftrightarrow> read_u16 b i = v"
proof
  assume len: "i + 2 \<le> length b"
  then have s: "take 2 (drop i b) = [b ! i, b ! (i + 1)]"
    by (auto intro!: nth_equalityI simp: less_Suc_eq numeral_2_eq_2)
  then show "take 2 (drop i b) = to_le_bytes16 v \<Longrightarrow> read_u16 b i = v"
    by (simp add: read_u16_def to_le_bytes16_def)
  show "read_u16 b i = v \<Longrightarrow> take 2 (drop i b) = to_le_bytes16 v"
    using s by (auto simp: read_u16_def)
qed

lemma slice_word_32: "i + 4 \<le> length b \<Longrightarrow> take 4 (drop i b) = to_le_bytes32 v \<longleftrightarrow> read_u32 b i = v"
proof
  assume len: "i + 4 \<le> length b"
  then have s: "take 4 (drop i b) = [b ! i, b ! (i + 1), b ! (i + 2), b ! (i + 3)]"
    by (auto intro!: nth_equalityI simp: less_Suc_eq numeral_eq_Suc)
  then show "take 4 (drop i b) = to_le_bytes32 v \<Longrightarrow> read_u32 b i = v"
    by (simp add: read_u32_def to_le_bytes32_def)
  show "read_u32 b i = v \<Longrightarrow> take 4 (drop i b) = to_le_bytes32 v"
    using s by (auto simp: read_u32_def)
qed

lemma holds_stores [simp]:
  "holds b (p8 i x # ws) \<longleftrightarrow> i < length b \<and> b ! i = x \<and> holds b ws"
  "holds b (p16 i v # ws) \<longleftrightarrow> i + 2 \<le> length b \<and> read_u16 b i = v \<and> holds b ws"
  "holds b (p32 i w # ws) \<longleftrightarrow> i + 4 \<le> length b \<and> read_u32 b i = w \<and> holds b ws"
  using slice_word_16 [of i b v] slice_word_32 [of i b w]
  by (auto simp: p8_def p16_def p32_def take_Suc_conv_app_nth Suc_le_eq)

subsection \<open>Written buffers\<close>

lemma holds_put_fields:
  assumes "length out = n" "layout n ws"
  shows "holds (put_fields (fill0 out) ws) ws" "blank (put_fields (fill0 out) ws) n ws"
    "length (put_fields (fill0 out) ws) = n"
proof -
  have ok: "fits (length (fill0 out)) ws" "apart ws" using assms by (simp_all add: layout_def)
  show len: "length (put_fields (fill0 out) ws) = n" using length_put_fields [OF ok(1)] assms(1) by simp
  have "i + length bs \<le> n" if "(i, bs) \<in> set ws" "fits n ws" for i bs ws
    using that by (induction ws rule: list.induct) auto
  then show "holds (put_fields (fill0 out) ws) ws"
    using put_fields_stored [OF ok] ok(1) len assms(1) by (auto simp: holds_def)
  have av: "avoids j 1 ws" if "\<forall>(i, bs) \<in> set ws. j < i \<or> i + length bs \<le> j" for j ws
    using that by (induction ws rule: list.induct) auto
  show "blank (put_fields (fill0 out) ws) n ws"
    unfolding blank_def
  proof (intro allI impI)
    fix j
    assume j: "j < n" "\<forall>(i, bs) \<in> set ws. j < i \<or> i + length bs \<le> j"
    have "take 1 (drop j (put_fields (fill0 out) ws)) = take 1 (drop j (fill0 out))"
      by (rule put_fields_avoids [OF ok(1) av [OF j(2)]])
    then show "put_fields (fill0 out) ws ! j = 0"
      using j(1) len assms(1) by (simp add: fill0_def take_Suc_conv_app_nth)
  qed
qed

lemma put_fields_holds:
  assumes "length b = n" "fits n ws" "holds b ws" "length out = n"
    "\<And>j. j < n \<Longrightarrow> out ! j = b ! j \<or> (\<exists>(i, bs) \<in> set ws. i \<le> j \<and> j < i + length bs)"
  shows "put_fields out ws = b"
  using assms(2-)
proof (induction ws arbitrary: out)
  case Nil
  then show ?case using assms(1) by (auto intro: nth_equalityI)
next
  case (Cons w ws)
  obtain i bs where w: "w = (i, bs)" by fastforce
  have f: "i + length bs \<le> n" "take (length bs) (drop i b) = bs" "fits n ws" "holds b ws"
    using Cons.prems(1,2) assms(1) w by auto
  let ?o = "copy_from_slice out i bs"
  have at: "?o ! j = b ! j" if "i \<le> j" "j < i + length bs" for j
    using take_drop_at [OF f(2) refl, of "j - i"] that f(1) Cons.prems(3) by (simp add: nth_copy_from_slice)
  have other: "?o ! j = out ! j" if "j < n" "\<not> (i \<le> j \<and> j < i + length bs)" for j
    using that f(1) Cons.prems(3) by (simp add: nth_copy_from_slice)
  have "put_fields ?o ws = b"
  proof (rule Cons.IH [OF f(3,4)])
    show "length ?o = n" using f(1) Cons.prems(3) by (simp add: length_copy_from_slice)
    fix j
    assume j: "j < n"
    show "?o ! j = b ! j \<or> (\<exists>(i, bs) \<in> set ws. i \<le> j \<and> j < i + length bs)"
    proof (cases "i \<le> j \<and> j < i + length bs")
      case False
      then show ?thesis using Cons.prems(4) [OF j] other [OF j] w by auto
    qed (use at in blast)
  qed
  then show ?case by (simp add: w)
qed

lemma put_fields_canonical:
  assumes "length b = n" "length out = n" "fits n ws" "holds b ws" "blank b n ws"
  shows "put_fields (fill0 out) ws = b"
proof (rule put_fields_holds [OF assms(1,3,4)])
  show "length (fill0 out) = n" using assms(2) by simp
  show "fill0 out ! j = b ! j \<or> (\<exists>(i, bs) \<in> set ws. i \<le> j \<and> j < i + length bs)" if "j < n" for j
    using assms(2,5) that by (fastforce simp: blank_def fill0_def not_less)
qed

subsection \<open>Layouts and gaps\<close>

lemma layout_stores [simp]:
  "fits n (p8 i x # ws) \<longleftrightarrow> i + 1 \<le> n \<and> fits n ws"
  "fits n (p16 i v # ws) \<longleftrightarrow> i + 2 \<le> n \<and> fits n ws"
  "fits n (p32 i w # ws) \<longleftrightarrow> i + 4 \<le> n \<and> fits n ws"
  "avoids j k (p8 i x # ws) \<longleftrightarrow> (j + k \<le> i \<or> i + 1 \<le> j) \<and> avoids j k ws"
  "avoids j k (p16 i v # ws) \<longleftrightarrow> (j + k \<le> i \<or> i + 2 \<le> j) \<and> avoids j k ws"
  "avoids j k (p32 i w # ws) \<longleftrightarrow> (j + k \<le> i \<or> i + 4 \<le> j) \<and> avoids j k ws"
  "apart (p8 i x # ws) \<longleftrightarrow> avoids i 1 ws \<and> apart ws"
  "apart (p16 i v # ws) \<longleftrightarrow> avoids i 2 ws \<and> apart ws"
  "apart (p32 i w # ws) \<longleftrightarrow> avoids i 4 ws \<and> apart ws"
  by (simp_all add: p8_def p16_def p32_def)

text \<open>The intervals of the first \<^verbatim>\<open>n\<close> bytes that no store covers.\<close>

fun cut :: "nat \<Rightarrow> nat \<Rightarrow> (nat \<times> nat) list \<Rightarrow> (nat \<times> nat) list" where
  "cut i k [] = []"
| "cut i k ((lo, hi) # r) =
     (if hi \<le> i \<or> i + k \<le> lo then (lo, hi) # cut i k r
      else (if lo < i then [(lo, i)] else []) @ (if i + k < hi then [(i + k, hi)] else []) @ cut i k r)"

fun uncovered_from :: "(nat \<times> nat) list \<Rightarrow> store list \<Rightarrow> (nat \<times> nat) list" where
  "uncovered_from r [] = r"
| "uncovered_from r ((i, bs) # ws) = uncovered_from (cut i (length bs) r) ws"

definition uncovered :: "nat \<Rightarrow> store list \<Rightarrow> (nat \<times> nat) list" where
  "uncovered n ws = uncovered_from [(0, n)] ws"

lemma uncovered_stores [simp]:
  "uncovered_from r (p8 i x # ws) = uncovered_from (cut i 1 r) ws"
  "uncovered_from r (p16 i v # ws) = uncovered_from (cut i 2 r) ws"
  "uncovered_from r (p32 i w # ws) = uncovered_from (cut i 4 r) ws"
  by (simp_all add: p8_def p16_def p32_def)

definition within :: "(nat \<times> nat) list \<Rightarrow> nat \<Rightarrow> bool" where
  "within r j \<longleftrightarrow> (\<exists>(lo, hi) \<in> set r. lo \<le> j \<and> j < hi)"

lemma within_simps:
  "within [] j \<longleftrightarrow> False" "within ((lo, hi) # r) j \<longleftrightarrow> lo \<le> j \<and> j < hi \<or> within r j"
  "within (r @ r') j \<longleftrightarrow> within r j \<or> within r' j"
  by (auto simp: within_def)

lemma within_cut: "within (cut i k r) j \<longleftrightarrow> within r j \<and> (j < i \<or> i + k \<le> j)"
proof (induction r)
  case (Cons x r)
  obtain lo hi where x: "x = (lo, hi)" by fastforce
  show ?case
  proof (cases "hi \<le> i \<or> i + k \<le> lo")
    case True
    then have "lo \<le> j \<and> j < hi \<longrightarrow> j < i \<or> i + k \<le> j" by linarith
    then show ?thesis using Cons.IH True by (auto simp: x within_simps)
  next
    case False
    then have "(lo < i \<and> lo \<le> j \<and> j < i \<or> i + k < hi \<and> i + k \<le> j \<and> j < hi)
        \<longleftrightarrow> (lo \<le> j \<and> j < hi \<and> (j < i \<or> i + k \<le> j))" by linarith
    then show ?thesis using Cons.IH False by (auto simp: x within_simps)
  qed
qed (simp add: within_simps)

lemma within_uncovered:
  "within (uncovered_from r ws) j \<longleftrightarrow> within r j \<and> (\<forall>(i, bs) \<in> set ws. j < i \<or> i + length bs \<le> j)"
  by (induction r ws rule: uncovered_from.induct) (auto simp: within_cut)

lemma uncovered_bound: "\<forall>(lo, hi) \<in> set r. hi \<le> n \<Longrightarrow> \<forall>(lo, hi) \<in> set (uncovered_from r ws). hi \<le> n"
proof (induction r ws rule: uncovered_from.induct)
  case (2 r i bs ws)
  have "\<forall>(lo, hi) \<in> set r. hi \<le> n \<Longrightarrow> \<forall>(lo, hi) \<in> set (cut i k r). hi \<le> n" for k
    by (induction i k r rule: cut.induct) auto
  then show ?case using 2 by simp
qed simp

lemma blank_uncovered:
  assumes "n \<le> length b"
  shows "blank b n ws \<longleftrightarrow> (\<forall>(lo, hi) \<in> set (uncovered n ws). \<not> any_nonzero b lo hi)"
proof -
  have "\<forall>(lo, hi) \<in> set (uncovered n ws). hi \<le> length b"
    using uncovered_bound [of "[(0, n)]" n ws] assms by (auto simp: uncovered_def)
  then have "(\<forall>(lo, hi) \<in> set (uncovered n ws). \<not> any_nonzero b lo hi)
      \<longleftrightarrow> (\<forall>(lo, hi) \<in> set (uncovered n ws). \<forall>j. lo \<le> j \<and> j < hi \<longrightarrow> b ! j = 0)"
    by (intro ball_cong) (fastforce simp: any_nonzero_nth)+
  also have "\<dots> \<longleftrightarrow> (\<forall>j. within (uncovered n ws) j \<longrightarrow> b ! j = 0)"
    unfolding within_def by blast
  finally have "(\<forall>(lo, hi) \<in> set (uncovered n ws). \<not> any_nonzero b lo hi) \<longleftrightarrow> (\<forall>j. within (uncovered n ws) j \<longrightarrow> b ! j = 0)" .
  moreover have "within (uncovered n ws) j \<longleftrightarrow> j < n \<and> (\<forall>(i, bs) \<in> set ws. j < i \<or> i + length bs \<le> j)" for j
    by (simp add: uncovered_def within_uncovered) (simp add: within_def)
  ultimately show ?thesis by (auto simp: blank_def)
qed

subsection \<open>Sealing\<close>

lemma holds_cong:
  assumes "take k b = take k c" "k \<le> length b" "k \<le> length c" "fits k ws"
  shows "holds b ws = holds c ws"
  using assms(4)
proof (induction ws rule: list.induct)
  case (Cons w ws)
  obtain i bs where w: "w = (i, bs)" by fastforce
  have "take (length bs) (drop i b) = take (length bs) (drop i c)" if "i + length bs \<le> k"
  proof -
    have "take (i + length bs) (take k b) = take (i + length bs) (take k c)" by (simp only: assms(1))
    then show ?thesis using that by (simp add: take_drop add.commute min_absorb1)
  qed
  then show ?case using Cons assms(2,3) w by auto
qed simp

lemma seal32_holds:
  assumes "length b = n" "4 \<le> n"
  shows "fits (n - 4) ws \<Longrightarrow> holds (seal32 b) ws = holds b ws" "blank (seal32 b) (n - 4) ws = blank b (n - 4) ws"
    "sealed32 (seal32 b)" "length (seal32 b) = n"
proof -
  note s = seal32_fields [OF assms]
  have t: "take (n - 4) (seal32 b) = take (n - 4) b" using s(2) [of "n - 4"] assms(2) by simp
  show l: "length (seal32 b) = n" by (rule s(1))
  show "fits (n - 4) ws \<Longrightarrow> holds (seal32 b) ws = holds b ws"
    by (rule holds_cong [OF t]) (use l assms in simp_all)
  show "blank (seal32 b) (n - 4) ws = blank b (n - 4) ws" using s(3) assms(2) by (auto simp: blank_def)
  show "sealed32 (seal32 b)" using s(7) l by (simp add: sealed32_def)
qed

lemma seal32_cancel:
  assumes "take (n - 4) c = take (n - 4) b" "length b = n" "length c = n" "4 \<le> n" "sealed32 b"
  shows "seal32 c = b"
proof -
  have r: "to_le_bytes32 (read_u32 b (n - 4)) = drop (n - 4) b"
  proof -
    have "take 4 (drop (n - 4) b) = to_le_bytes32 (read_u32 b (n - 4))"
      using slice_word_32 [of "n - 4" b] assms(2,4) by simp
    then show ?thesis using assms(2,4) by simp
  qed
  have "crc32_ieee (take (n - 4) c) = read_u32 b (n - 4)" using assms(1,2,5) by (simp add: sealed32_def)
  moreover have "seal32 c = take (n - 4) c @ to_le_bytes32 (crc32_ieee (take (n - 4) c)) @ drop (n - 4 + 4) c"
    by (simp only: seal32_def write_u32_def copy_from_slice_def length_to_le_bytes assms(3))
  ultimately have "seal32 c = take (n - 4) b @ drop (n - 4) b" using assms(1,3,4) r by simp
  then show ?thesis by simp
qed

subsection \<open>The record interface\<close>

locale canonical_codec = sealed_codec +
  assumes parse_write: "parse_rec b = Inr v \<Longrightarrow> length out = rec_length \<Longrightarrow> write_rec v out = (Inr (), b)"
begin

lemma encoding_unique:
  assumes "parse_rec b = Inr v" "parse_rec c = Inr v"
  shows "b = c"
  using parse_write [OF assms(1), of b] parse_write [OF assms(2), of b] parse_sealed [OF assms(1)] by simp

end

locale field_codec =
  fixes write_rec :: "'v \<Rightarrow> u8 list \<Rightarrow> (CodecError + unit) \<times> u8 list"
    and parse_rec :: "u8 list \<Rightarrow> CodecError + 'v" and rec_length :: nat
    and typed :: "'v \<Rightarrow> bool" and valid :: "'v \<Rightarrow> bool" and fields :: "'v \<Rightarrow> store list"
  assumes long: "4 \<le> rec_length"
    and write_invalid: "length out \<noteq> rec_length \<or> \<not> valid v \<Longrightarrow> \<exists>e. write_rec v out = (Inl e, out)"
    and write_valid: "length out = rec_length \<Longrightarrow> valid v \<Longrightarrow>
      write_rec v out = (Inr (), seal32 (put_fields (fill0 out) (fields v)))"
    and fields_layout: "typed v \<Longrightarrow> valid v \<Longrightarrow> layout (rec_length - 4) (fields v)"
    and parse_accepts: "length b = rec_length \<Longrightarrow> sealed32 b \<Longrightarrow> typed v \<Longrightarrow> valid v \<Longrightarrow>
      holds b (fields v) \<Longrightarrow> blank b (rec_length - 4) (fields v) \<Longrightarrow> parse_rec b = Inr v"
    and accepted_sealed: "parse_rec b = Inr v \<Longrightarrow> length b = rec_length \<and> sealed32 b"
begin

lemma layout_whole: "typed v \<Longrightarrow> valid v \<Longrightarrow> layout rec_length (fields v)"
proof -
  have "fits (n - 4) ws \<Longrightarrow> fits n ws" for n ws by (induction ws rule: list.induct) auto
  then show "typed v \<Longrightarrow> valid v \<Longrightarrow> layout rec_length (fields v)" using fields_layout by (auto simp: layout_def)
qed

lemma written_record:
  assumes "length out = rec_length" "typed v" "valid v"
  shows "length (seal32 (put_fields (fill0 out) (fields v))) = rec_length
    \<and> parse_rec (seal32 (put_fields (fill0 out) (fields v))) = Inr v"
proof -
  let ?b = "put_fields (fill0 out) (fields v)"
  note h = holds_put_fields [OF assms(1) layout_whole [OF assms(2,3)]]
  note s = seal32_holds [OF h(3) long]
  have "blank ?b (rec_length - 4) (fields v)" using h(2) by (auto simp: blank_def)
  then show ?thesis
    using parse_accepts [of "seal32 ?b" v] s h fields_layout [OF assms(2,3)] assms by (simp add: layout_def)
qed

end

sublocale field_codec \<subseteq> sealed_codec write_rec parse_rec rec_length typed valid sealed32
proof
  show "\<exists>b. write_rec v out = (Inr (), b) \<and> length b = rec_length \<and> parse_rec b = Inr v"
    if "length out = rec_length" "typed v" "valid v" for out v
    using written_record [OF that] write_valid that by simp
  show "\<not> sealed32 (b[i := x])" if "length b = rec_length" "sealed32 b" "i < length b" "x \<noteq> b ! i" for b i x
    using sealed_breaks(2) [of b i x] that long by simp
qed (simp_all add: write_invalid accepted_sealed)

text \<open>
  The parsers that also check the writer's contract and that every byte outside the fields
  is zero accept exactly the writer's buffers.
\<close>

locale record_codec = field_codec +
  assumes parse_accepted: "parse_rec b = Inr v \<Longrightarrow> typed v \<and> valid v
      \<and> holds b (fields v) \<and> blank b (rec_length - 4) (fields v)"
begin

lemma rewritten_record:
  assumes "parse_rec b = Inr v" "length out = rec_length"
  shows "write_rec v out = (Inr (), b)"
proof -
  have p: "length b = rec_length" "sealed32 b" "typed v" "valid v" "holds b (fields v)" "blank b (rec_length - 4) (fields v)"
    using parse_accepted [OF assms(1)] accepted_sealed [OF assms(1)] by simp_all
  let ?n = "rec_length - 4" and ?c = "put_fields (fill0 out) (fields v)"
  have f: "fits ?n (fields v)" using fields_layout [OF p(3,4)] by (simp add: layout_def)
  have b: "take ?n b = put_fields (take ?n (fill0 out)) (fields v)"
  proof -
    have "holds (take ?n b) (fields v) = holds b (fields v)"
      by (rule holds_cong [OF _ _ _ f]) (use p(1) in simp_all)
    moreover have "blank (take ?n b) ?n (fields v)" using p(6) by (auto simp: blank_def)
    moreover have "fill0 (take ?n out) = take ?n (fill0 out)" by (simp add: fill0_def)
    ultimately show ?thesis
      using put_fields_canonical [of "take ?n b" ?n "take ?n out" "fields v"] f p(1,5) assms(2) by simp
  qed
  have "put_fields (x @ y) ws = put_fields x ws @ y" if "fits (length x) ws" for x y ws
    using that by (induction ws arbitrary: x rule: list.induct) (auto simp: write_append length_copy_from_slice)
  from this [of "take ?n (fill0 out)" "fields v" "drop ?n (fill0 out)"]
  have "?c = take ?n b @ drop ?n (fill0 out)" using b f assms(2) by simp
  then have "seal32 ?c = b"
    using seal32_cancel [of rec_length ?c b] p(1,2) long assms(2) by simp
  then show ?thesis using write_valid [OF assms(2) p(4)] by simp
qed

end

sublocale record_codec \<subseteq> canonical_codec write_rec parse_rec rec_length typed valid sealed32
  by unfold_locales (rule rewritten_record)

end
