(* ===== verification/Operations_Codec.thy ===== *)
theory Operations_Codec
  imports Operations_Records Record_Fields
begin

text \<open>
  The fixed-length records of the mission-operations interface (\<^verbatim>\<open>interface/src/phase11.rs\<close>)
  whose parsers accept exactly what their writers produce: package manifests (KFS11), uplink
  loads (KUL11), uplink controls (KUA11), journal records (KEJ11), action-log records
  (KAL11) and prediction summaries (KPD11).
\<close>

unbundle bit_operations_syntax

subsection \<open>Package manifests\<close>

definition KFS11_LENGTH :: nat where "KFS11_LENGTH = 512"
definition KFS11_MAGIC :: "u8 list" where "KFS11_MAGIC = ascii ''KFS1''"
definition KFS11_VERSION :: u16 where "KFS11_VERSION = 1"

definition validate_manifest :: "FlightSoftwarePackageManifest \<Rightarrow> CodecError + unit" where
  "validate_manifest v =
     (if manifest_identity v = 0 \<or> implementation_identity v = 0 \<or> fm_vehicle_profile_identity v = 0
         \<or> mission_compatibility_identity v = 0 \<or> code_identity v = 0 \<or> configuration_identity v = 0
         \<or> capabilities v = 0 \<or> capabilities v AND NOT PACKAGE_CAP_MASK \<noteq> 0
         \<or> segment_support v = 0 \<or> segment_support v AND NOT PACKAGE_SEGMENT_MASK \<noteq> 0
         \<or> command_load_support v AND NOT PACKAGE_LOAD_MASK \<noteq> 0
         \<or> targets v = 0 \<or> targets v AND NOT PACKAGE_TARGET_MASK \<noteq> 0
         \<or> fm_fast_hz v \<noteq> 32 \<or> fm_navigation_hz v \<noteq> 8 \<or> fm_guidance_hz v \<noteq> 1
         \<or> 24 < maximum_plan_events v \<or> 8 < maximum_branches v \<or> 8 < maximum_decisions v
         \<or> persistent_bytes (resource v) = 0 \<or> transient_bytes (resource v) = 0 \<or> stack_bytes (resource v) = 0
         \<or> journal_records (resource v) = 0 \<or> maximum_object_bytes (resource v) = 0
         \<or> 4096 < maximum_object_bytes (resource v)
         \<or> (\<forall>byte \<in> set (resource_evidence_sha256 v). byte = 0)
      then Inl Flags
      else if command_load_support v \<noteq> 0
         \<and> capabilities v AND (PACKAGE_CAP_GROUND_NAV_UPDATE OR PACKAGE_CAP_TARGET_UPDATE OR PACKAGE_CAP_BRANCH_SELECT
              OR PACKAGE_CAP_NAV_MODE OR PACKAGE_CAP_HIGH_LEVEL_MODE) = 0
      then Inl Flags else Inr ())"

definition manifest_fields :: "FlightSoftwarePackageManifest \<Rightarrow> store list" where
  "manifest_fields v =
     [(0, KFS11_MAGIC), p16 4 KFS11_VERSION, p16 6 (of_nat KFS11_LENGTH), p32 8 (manifest_identity v),
      p32 12 (package_tag (fm_package v)), p32 16 (implementation_identity v), p32 20 (abi_tag (fm_abi v)),
      p32 24 (fm_vehicle_profile_identity v), p32 28 (mission_compatibility_identity v), p32 32 (capabilities v),
      p16 36 (segment_support v), p16 38 (command_load_support v), p8 40 (targets v),
      p8 41 (safe_state_tag (safe_state v)), p8 42 (command_loss_tag (command_loss v)), p8 44 (fm_fast_hz v),
      p8 45 (fm_navigation_hz v), p8 46 (fm_guidance_hz v), p8 47 (journal_records (resource v)),
      p16 48 (persistent_bytes (resource v)), p16 50 (transient_bytes (resource v)), p16 52 (stack_bytes (resource v)),
      p16 54 (maximum_object_bytes (resource v)), p8 56 (maximum_plan_events v), p8 57 (maximum_branches v),
      p8 58 (maximum_decisions v), p32 60 (code_identity v), p32 64 (configuration_identity v),
      (68, resource_evidence_sha256 v)]"

definition write_kfs11 :: "FlightSoftwarePackageManifest \<Rightarrow> u8 list \<Rightarrow> (CodecError + unit) \<times> u8 list" where
  "write_kfs11 v out =
     (if length out \<noteq> KFS11_LENGTH then (Inl Length, out)
      else case validate_manifest v of Inl e \<Rightarrow> (Inl e, out)
      | Inr u \<Rightarrow> (Inr (), seal32 (put_fields (fill0 out) (manifest_fields v))))"

definition parse_kfs11 :: "u8 list \<Rightarrow> CodecError + FlightSoftwarePackageManifest" where
  "parse_kfs11 b =
     (if length b \<noteq> KFS11_LENGTH then Inl Length
      else if take 4 b \<noteq> KFS11_MAGIC \<or> read_u16 b 4 \<noteq> KFS11_VERSION \<or> unat (read_u16 b 6) \<noteq> KFS11_LENGTH then Inl Enum
      else if crc32_ieee (take 508 b) \<noteq> read_u32 b 508 then Inl Checksum
      else if b ! 43 \<noteq> 0 \<or> b ! 59 \<noteq> 0 \<or> any_nonzero b 100 508 then Inl Reserved
      else
      and_then (parse_package (read_u32 b 12)) (\<lambda>package.
      and_then (parse_abi (read_u32 b 20)) (\<lambda>abi.
      and_then (parse_safe_state (b ! 41)) (\<lambda>safe.
      and_then (parse_command_loss (b ! 42)) (\<lambda>loss.
      let v = \<lparr>manifest_identity = read_u32 b 8, fm_package = package, implementation_identity = read_u32 b 16,
             fm_abi = abi, fm_vehicle_profile_identity = read_u32 b 24,
             mission_compatibility_identity = read_u32 b 28, capabilities = read_u32 b 32,
             segment_support = read_u16 b 36, command_load_support = read_u16 b 38, targets = b ! 40,
             safe_state = safe, command_loss = loss,
             resource = \<lparr>persistent_bytes = read_u16 b 48, transient_bytes = read_u16 b 50,
               stack_bytes = read_u16 b 52, journal_records = b ! 47, maximum_object_bytes = read_u16 b 54\<rparr>,
             fm_fast_hz = b ! 44, fm_navigation_hz = b ! 45, fm_guidance_hz = b ! 46, maximum_plan_events = b ! 56,
             maximum_branches = b ! 57, maximum_decisions = b ! 58, code_identity = read_u32 b 60,
             configuration_identity = read_u32 b 64, resource_evidence_sha256 = take 32 (drop 68 b)\<rparr>
      in and_then (validate_manifest v) (\<lambda>u. Inr v))))))"

definition parse_kfs11_for :: "u8 list \<Rightarrow> u32 \<Rightarrow> CodecError + FlightSoftwarePackageManifest" where
  "parse_kfs11_for b expected_manifest_identity =
     and_then (parse_kfs11 b) (\<lambda>manifest.
       if manifest_identity manifest \<noteq> expected_manifest_identity then Inl Sequence else Inr manifest)"

subsection \<open>Uplink loads\<close>

definition KUL11_LENGTH :: nat where "KUL11_LENGTH = 512"
definition KUA11_LENGTH :: nat where "KUA11_LENGTH = 128"

definition validate_uplink_load :: "UplinkCommandLoad \<Rightarrow> CodecError + unit" where
  "validate_uplink_load v =
     (if load_identity v = 0 \<or> ul_package_manifest_identity v = 0 \<or> ul_plan_identity v = 0
         \<or> source_estimator_identity v = 0 \<or> expires_epoch v < not_before_epoch v
         \<or> requested_effective_epoch v < not_before_epoch v \<or> expires_epoch v < requested_effective_epoch v
         \<or> ul_required_capabilities v AND NOT PACKAGE_CAP_MASK \<noteq> 0
         \<or> ul_required_capabilities v AND load_capability (load_type v) = 0
         \<or> position_residual_limit_q12 v <s 0 \<or> velocity_residual_limit_q24 v <s 0
      then Inl Flags else Inr ())"

definition uplink_load_fields :: "UplinkCommandLoad \<Rightarrow> store list" where
  "uplink_load_fields v =
     [(0, ascii ''KUL1''), p16 4 11, p16 6 (of_nat KUL11_LENGTH), p32 8 (load_identity v),
      p32 12 (ul_package_manifest_identity v), p32 16 (ul_plan_identity v), p32 20 (abi_tag (ul_abi v)),
      p32 24 (source_estimator_identity v), p32 28 (source_estimator_checksum v), p32 32 (stage_epoch v),
      p32 36 (not_before_epoch v), p32 40 (expires_epoch v), p32 44 (requested_effective_epoch v),
      p32 48 (ul_required_capabilities v), p32 52 (prerequisite_event_mask v),
      p32 56 (position_residual_limit_q12 v), p32 60 (velocity_residual_limit_q24 v),
      p8 64 (frame_tag (ul_frame v)), p8 65 (load_type_tag (load_type v))]
     @ each 16 (\<lambda>index. [p32 (68 + index * 4) (ul_arguments v ! index)])"

definition write_kul11 :: "UplinkCommandLoad \<Rightarrow> u8 list \<Rightarrow> (CodecError + unit) \<times> u8 list" where
  "write_kul11 v out =
     (if length out \<noteq> KUL11_LENGTH then (Inl Length, out)
      else case validate_uplink_load v of Inl e \<Rightarrow> (Inl e, out)
      | Inr u \<Rightarrow> (Inr (), seal32 (put_fields (fill0 out) (uplink_load_fields v))))"

definition parse_kul11 :: "u8 list \<Rightarrow> CodecError + UplinkCommandLoad" where
  "parse_kul11 b =
     (if length b \<noteq> KUL11_LENGTH then Inl Length
      else if take 4 b \<noteq> ascii ''KUL1'' \<or> read_u16 b 4 \<noteq> 11 \<or> read_u16 b 6 \<noteq> of_nat KUL11_LENGTH then Inl Enum
      else if crc32_ieee (take 508 b) \<noteq> read_u32 b 508 then Inl Checksum
      else if b ! 66 \<noteq> 0 \<or> b ! 67 \<noteq> 0 \<or> any_nonzero b 132 508 then Inl Reserved
      else
      and_then (parse_abi (read_u32 b 20)) (\<lambda>abi.
      and_then (parse_global_frame (b ! 64)) (\<lambda>frame.
      and_then (parse_load_type (b ! 65)) (\<lambda>loadtype.
      let v = \<lparr>load_identity = read_u32 b 8, ul_package_manifest_identity = read_u32 b 12,
             ul_plan_identity = read_u32 b 16, ul_abi = abi, source_estimator_identity = read_u32 b 24,
             source_estimator_checksum = read_u32 b 28, stage_epoch = read_u32 b 32, not_before_epoch = read_u32 b 36,
             expires_epoch = read_u32 b 40, requested_effective_epoch = read_u32 b 44,
             ul_required_capabilities = read_u32 b 48, prerequisite_event_mask = read_u32 b 52,
             position_residual_limit_q12 = read_i32 b 56, velocity_residual_limit_q24 = read_i32 b 60,
             ul_frame = frame, load_type = loadtype,
             ul_arguments = map (\<lambda>index. read_i32 b (68 + index * 4)) [0..<16]\<rparr>
      in and_then (validate_uplink_load v) (\<lambda>u. Inr v)))))"

subsection \<open>Uplink controls\<close>

definition control_identified :: "UplinkControlRecord \<Rightarrow> bool" where
  "control_identified v \<longleftrightarrow> control_identity v \<noteq> 0 \<and> uc_load_identity v \<noteq> 0
     \<and> uc_package_manifest_identity v \<noteq> 0 \<and> uc_plan_identity v \<noteq> 0"

definition control_fields :: "UplinkControlRecord \<Rightarrow> store list" where
  "control_fields v =
     [(0, ascii ''KUA1''), p8 4 11, p8 5 (control_kind_tag (uc_kind v)), p16 6 (of_nat KUA11_LENGTH),
      p32 8 (control_identity v), p32 12 (uc_load_identity v), p32 16 (uc_package_manifest_identity v),
      p32 20 (uc_plan_identity v), p32 24 (request_epoch v), p32 28 (uc_effective_epoch v),
      p8 32 (uplink_state_tag (uc_state v)), p8 33 (reason_tag (uc_reason v)), p32 36 (receipt_checksum v)]"

definition write_kua11 :: "UplinkControlRecord \<Rightarrow> u8 list \<Rightarrow> (CodecError + unit) \<times> u8 list" where
  "write_kua11 v out =
     (if length out \<noteq> KUA11_LENGTH then (Inl Length, out)
      else if \<not> control_identified v then (Inl Flags, out)
      else (Inr (), seal32 (put_fields (fill0 out) (control_fields v))))"

definition parse_kua11 :: "u8 list \<Rightarrow> CodecError + UplinkControlRecord" where
  "parse_kua11 b =
     (if length b \<noteq> KUA11_LENGTH then Inl Length
      else if take 4 b \<noteq> ascii ''KUA1'' \<or> b ! 4 \<noteq> 11 \<or> read_u16 b 6 \<noteq> of_nat KUA11_LENGTH then Inl Enum
      else if crc32_ieee (take 124 b) \<noteq> read_u32 b 124 then Inl Checksum
      else if b ! 34 \<noteq> 0 \<or> b ! 35 \<noteq> 0 \<or> any_nonzero b 40 124 then Inl Reserved
      else
      and_then (parse_control_kind (b ! 5)) (\<lambda>knd.
      and_then (parse_uplink_state (b ! 32)) (\<lambda>st.
      and_then (parse_reason (b ! 33)) (\<lambda>reason.
      let v = \<lparr>uc_kind = knd, control_identity = read_u32 b 8, uc_load_identity = read_u32 b 12,
             uc_package_manifest_identity = read_u32 b 16, uc_plan_identity = read_u32 b 20,
             request_epoch = read_u32 b 24, uc_effective_epoch = read_u32 b 28, uc_state = st, uc_reason = reason,
             receipt_checksum = read_u32 b 36\<rparr>
      in if \<not> control_identified v then Inl Flags else Inr v))))"

subsection \<open>Journal records\<close>

definition KEJ11_LENGTH :: nat where "KEJ11_LENGTH = 64"

definition journal_fields :: "EventJournalRecord \<Rightarrow> store list" where
  "journal_fields v =
     [p32 0 (jr_sequence v), p32 4 (jr_epoch v), p8 8 (journal_kind_tag (jr_kind v)), p8 9 (jr_flags v),
      p32 12 (primary_identity v), p32 16 (secondary_identity v)]
     @ each 4 (\<lambda>index. [p32 (20 + index * 4) (jr_arguments v ! index)])
     @ [p32 36 (prior_chain v), p32 40 (chain v)]"

definition write_kej11 :: "EventJournalRecord \<Rightarrow> u8 list \<Rightarrow> (CodecError + unit) \<times> u8 list" where
  "write_kej11 v out =
     (if length out \<noteq> KEJ11_LENGTH \<or> jr_sequence v = 0 \<or> jr_flags v AND NOT 3 \<noteq> 0 then (Inl Length, out)
      else (Inr (), seal32 (put_fields (fill0 out) (journal_fields v))))"

definition parse_kej11 :: "u8 list \<Rightarrow> CodecError + EventJournalRecord" where
  "parse_kej11 b =
     (if length b \<noteq> KEJ11_LENGTH then Inl Length
      else if crc32_ieee (take 60 b) \<noteq> read_u32 b 60 then Inl Checksum
      else if b ! 10 \<noteq> 0 \<or> b ! 11 \<noteq> 0 \<or> b ! 9 AND NOT 3 \<noteq> 0 \<or> any_nonzero b 44 60 then Inl Reserved
      else
      and_then (parse_journal_kind (b ! 8)) (\<lambda>knd.
      let v = \<lparr>jr_sequence = read_u32 b 0, jr_epoch = read_u32 b 4, jr_kind = knd, jr_flags = b ! 9,
             primary_identity = read_u32 b 12, secondary_identity = read_u32 b 16,
             jr_arguments = map (\<lambda>index. read_i32 b (20 + index * 4)) [0..<4],
             prior_chain = read_u32 b 36, chain = read_u32 b 40\<rparr>
      in if jr_sequence v = 0 then Inl Sequence else Inr v))"

subsection \<open>Action-log records\<close>

datatype OperationalRole = Observer | GuidedOperator | FlightController | FlightSoftwareEngineer | SimDirector
  | ScriptedOperator

fun role_id_tag :: "OperationalRole \<Rightarrow> u8" where
  "role_id_tag Observer = 1" | "role_id_tag GuidedOperator = 2" | "role_id_tag FlightController = 3"
| "role_id_tag FlightSoftwareEngineer = 4" | "role_id_tag SimDirector = 5" | "role_id_tag ScriptedOperator = 6"

definition parse_role_id :: "u8 \<Rightarrow> CodecError + OperationalRole" where
  "parse_role_id value =
     (if value = 1 then Inr Observer else if value = 2 then Inr GuidedOperator
      else if value = 3 then Inr FlightController else if value = 4 then Inr FlightSoftwareEngineer
      else if value = 5 then Inr SimDirector else if value = 6 then Inr ScriptedOperator else Inl Enum)"

definition KAL11_RECORD_LENGTH :: nat where "KAL11_RECORD_LENGTH = 64"

record ActionLogRecord =
  al_sequence :: u32
  al_epoch :: u32
  al_role :: OperationalRole
  action_kind :: UplinkControlKind
  al_state :: UplinkState
  al_reason :: UplinkReasonCode
  al_load_identity :: u32
  detail_identity :: u32
  procedure_step :: u16
  al_arguments :: "i32 list"
  al_prior_chain :: u32
  al_chain :: u32

definition action_fields :: "ActionLogRecord \<Rightarrow> store list" where
  "action_fields v =
     [p32 0 (al_sequence v), p32 4 (al_epoch v), p8 8 (role_id_tag (al_role v)), p8 9 (control_kind_tag (action_kind v)),
      p8 10 (uplink_state_tag (al_state v)), p8 11 (reason_tag (al_reason v)), p32 12 (al_load_identity v),
      p32 16 (detail_identity v), p16 20 (procedure_step v)]
     @ each 4 (\<lambda>index. [p32 (24 + index * 4) (al_arguments v ! index)])
     @ [p32 40 (al_prior_chain v), p32 44 (al_chain v)]"

definition write_kal11_record :: "ActionLogRecord \<Rightarrow> u8 list \<Rightarrow> (CodecError + unit) \<times> u8 list" where
  "write_kal11_record v out =
     (if length out \<noteq> KAL11_RECORD_LENGTH \<or> al_sequence v = 0 then (Inl Length, out)
      else (Inr (), seal32 (put_fields (fill0 out) (action_fields v))))"

definition parse_kal11_record :: "u8 list \<Rightarrow> CodecError + ActionLogRecord" where
  "parse_kal11_record b =
     (if length b \<noteq> KAL11_RECORD_LENGTH then Inl Length
      else if crc32_ieee (take 60 b) \<noteq> read_u32 b 60 then Inl Checksum
      else if b ! 22 \<noteq> 0 \<or> b ! 23 \<noteq> 0 \<or> any_nonzero b 48 60 then Inl Reserved
      else
      and_then (parse_role_id (b ! 8)) (\<lambda>rl.
      and_then (parse_control_kind (b ! 9)) (\<lambda>knd.
      and_then (parse_uplink_state (b ! 10)) (\<lambda>st.
      and_then (parse_reason (b ! 11)) (\<lambda>reason.
      let v = \<lparr>al_sequence = read_u32 b 0, al_epoch = read_u32 b 4, al_role = rl, action_kind = knd, al_state = st,
             al_reason = reason, al_load_identity = read_u32 b 12, detail_identity = read_u32 b 16,
             procedure_step = read_u16 b 20, al_arguments = map (\<lambda>index. read_i32 b (24 + index * 4)) [0..<4],
             al_prior_chain = read_u32 b 40, al_chain = read_u32 b 44\<rparr>
      in if al_sequence v = 0 then Inl Sequence else Inr v)))))"

subsection \<open>Prediction summaries\<close>

datatype PredictionProductKind = OnboardCompact | OnboardEstimateGroundPropagated | GroundEstimateProduct
  | SimTruthCounterfactual

fun product_tag :: "PredictionProductKind \<Rightarrow> u8" where
  "product_tag OnboardCompact = 1" | "product_tag OnboardEstimateGroundPropagated = 2"
| "product_tag GroundEstimateProduct = 3" | "product_tag SimTruthCounterfactual = 4"

definition parse_product :: "u8 \<Rightarrow> CodecError + PredictionProductKind" where
  "parse_product value =
     (if value = 1 then Inr OnboardCompact else if value = 2 then Inr OnboardEstimateGroundPropagated
      else if value = 3 then Inr GroundEstimateProduct else if value = 4 then Inr SimTruthCounterfactual else Inl Enum)"

datatype PredictionTerminalReason = ValidHorizon | AtmosphericImpact | ModelEnvelope | EstimateInvalid | PlanIncomplete

fun terminal_tag :: "PredictionTerminalReason \<Rightarrow> u8" where
  "terminal_tag ValidHorizon = 1" | "terminal_tag AtmosphericImpact = 2" | "terminal_tag ModelEnvelope = 3"
| "terminal_tag EstimateInvalid = 4" | "terminal_tag PlanIncomplete = 5"

definition parse_terminal :: "u8 \<Rightarrow> CodecError + PredictionTerminalReason" where
  "parse_terminal value =
     (if value = 1 then Inr ValidHorizon else if value = 2 then Inr AtmosphericImpact
      else if value = 3 then Inr ModelEnvelope else if value = 4 then Inr EstimateInvalid
      else if value = 5 then Inr PlanIncomplete else Inl Enum)"

record PredictionSummary =
  prediction_identity :: u32
  pd_model_identity :: u32
  pd_product :: PredictionProductKind
  source_estimate_identity :: u32
  source_estimate_checksum :: u32
  pd_package_manifest_identity :: u32
  pd_plan_identity :: u32
  pd_source_epoch :: u32
  generation_epoch :: u32
  valid_until_epoch :: u32
  pd_frame :: GlobalFrameId
  terminal_reason :: PredictionTerminalReason
  apogee_q12_km :: i32
  perigee_q12_km :: i32
  time_to_apogee_q16 :: u32
  time_to_impact_q16 :: u32
  impact_position_q12_km :: "i32 vec3"
  transition_epochs :: "u32 vec3"
  assumptions :: u32
  prediction_checksum :: u32

definition KPD11_LENGTH :: nat where "KPD11_LENGTH = 256"

definition prediction_bound :: "PredictionSummary \<Rightarrow> bool" where
  "prediction_bound v \<longleftrightarrow> \<not> (prediction_identity v = 0 \<or> pd_model_identity v = 0 \<or> source_estimate_identity v = 0
     \<or> pd_package_manifest_identity v = 0 \<or> pd_plan_identity v = 0 \<or> valid_until_epoch v < generation_epoch v)"

definition prediction_fields :: "PredictionSummary \<Rightarrow> store list" where
  "prediction_fields v =
     [(0, ascii ''KPD1''), p8 4 11, p8 5 (product_tag (pd_product v)), p16 6 (of_nat KPD11_LENGTH),
      p32 8 (prediction_identity v), p32 12 (pd_model_identity v), p32 16 (source_estimate_identity v),
      p32 20 (source_estimate_checksum v), p32 24 (pd_package_manifest_identity v), p32 28 (pd_plan_identity v),
      p32 32 (pd_source_epoch v), p32 36 (generation_epoch v), p32 40 (valid_until_epoch v),
      p8 44 (frame_tag (pd_frame v)), p8 45 (terminal_tag (terminal_reason v)), p32 48 (apogee_q12_km v),
      p32 52 (perigee_q12_km v), p32 56 (time_to_apogee_q16 v), p32 60 (time_to_impact_q16 v)]
     @ each 3 (\<lambda>axis. [p32 (64 + axis * 4) (at3 (impact_position_q12_km v) axis),
          p32 (76 + axis * 4) (at3 (transition_epochs v) axis)])
     @ [p32 88 (assumptions v), p32 92 (prediction_checksum v)]"

definition write_kpd11 :: "PredictionSummary \<Rightarrow> u8 list \<Rightarrow> (CodecError + unit) \<times> u8 list" where
  "write_kpd11 v out =
     (if length out \<noteq> KPD11_LENGTH \<or> \<not> prediction_bound v then (Inl Length, out)
      else (Inr (), seal32 (put_fields (fill0 out) (prediction_fields v))))"

definition parse_kpd11 :: "u8 list \<Rightarrow> CodecError + PredictionSummary" where
  "parse_kpd11 b =
     (if length b \<noteq> KPD11_LENGTH then Inl Length
      else if take 4 b \<noteq> ascii ''KPD1'' \<or> b ! 4 \<noteq> 11 \<or> read_u16 b 6 \<noteq> of_nat KPD11_LENGTH then Inl Enum
      else if crc32_ieee (take 252 b) \<noteq> read_u32 b 252 then Inl Checksum
      else if b ! 46 \<noteq> 0 \<or> b ! 47 \<noteq> 0 \<or> any_nonzero b 96 252 then Inl Reserved
      else
      and_then (parse_product (b ! 5)) (\<lambda>product.
      and_then (parse_global_frame (b ! 44)) (\<lambda>frame.
      and_then (parse_terminal (b ! 45)) (\<lambda>terminal.
      let v = \<lparr>prediction_identity = read_u32 b 8, pd_model_identity = read_u32 b 12, pd_product = product,
             source_estimate_identity = read_u32 b 16, source_estimate_checksum = read_u32 b 20,
             pd_package_manifest_identity = read_u32 b 24, pd_plan_identity = read_u32 b 28,
             pd_source_epoch = read_u32 b 32, generation_epoch = read_u32 b 36, valid_until_epoch = read_u32 b 40,
             pd_frame = frame, terminal_reason = terminal, apogee_q12_km = read_i32 b 48,
             perigee_q12_km = read_i32 b 52, time_to_apogee_q16 = read_u32 b 56, time_to_impact_q16 = read_u32 b 60,
             impact_position_q12_km = (read_i32 b 64, read_i32 b 68, read_i32 b 72),
             transition_epochs = (read_u32 b 76, read_u32 b 80, read_u32 b 84),
             assumptions = read_u32 b 88, prediction_checksum = read_u32 b 92\<rparr>
      in if \<not> prediction_bound v then Inl Flags else Inr v))))"

subsection \<open>The codecs\<close>

declare ascii_simps [simp del]

lemma holds_magic [simp]:
  "length (ascii [a, b, c, d]) = 4"
  "holds buf ((0, ascii [a, b, c, d]) # ws) \<longleftrightarrow> 4 \<le> length buf \<and> take 4 buf = ascii [a, b, c, d] \<and> holds buf ws"
  by (simp_all add: ascii_def numeral_eq_Suc)

lemma tag_parsed [simp]:
  "parse_package x = Inr p \<longleftrightarrow> x = package_tag p" "parse_abi x = Inr a \<longleftrightarrow> x = abi_tag a"
  "parse_safe_state y = Inr s \<longleftrightarrow> y = safe_state_tag s" "parse_command_loss y = Inr c \<longleftrightarrow> y = command_loss_tag c"
  "parse_global_frame y = Inr g \<longleftrightarrow> y = frame_tag g" "parse_load_type y = Inr l \<longleftrightarrow> y = load_type_tag l"
  "parse_control_kind y = Inr q \<longleftrightarrow> y = control_kind_tag q" "parse_uplink_state y = Inr u \<longleftrightarrow> y = uplink_state_tag u"
  "parse_reason y = Inr r \<longleftrightarrow> y = reason_tag r" "parse_journal_kind y = Inr j \<longleftrightarrow> y = journal_kind_tag j"
  "parse_role_id y = Inr w \<longleftrightarrow> y = role_id_tag w" "parse_product y = Inr k \<longleftrightarrow> y = product_tag k"
  "parse_terminal y = Inr t \<longleftrightarrow> y = terminal_tag t"
proof -
  show "parse_package x = Inr p \<longleftrightarrow> x = package_tag p" by (cases p) (auto simp: parse_package_def)
  show "parse_abi x = Inr a \<longleftrightarrow> x = abi_tag a" by (cases a) (auto simp: parse_abi_def)
  show "parse_safe_state y = Inr s \<longleftrightarrow> y = safe_state_tag s" by (cases s) (auto simp: parse_safe_state_def)
  show "parse_command_loss y = Inr c \<longleftrightarrow> y = command_loss_tag c" by (cases c) (auto simp: parse_command_loss_def)
  show "parse_global_frame y = Inr g \<longleftrightarrow> y = frame_tag g" by (cases g) (auto simp: parse_global_frame_def)
  show "parse_load_type y = Inr l \<longleftrightarrow> y = load_type_tag l" by (cases l) (auto simp: parse_load_type_def)
  show "parse_control_kind y = Inr q \<longleftrightarrow> y = control_kind_tag q" by (cases q) (auto simp: parse_control_kind_def)
  show "parse_uplink_state y = Inr u \<longleftrightarrow> y = uplink_state_tag u" by (cases u) (auto simp: parse_uplink_state_def)
  show "parse_reason y = Inr r \<longleftrightarrow> y = reason_tag r" by (cases r) (auto simp: parse_reason_def)
  show "parse_journal_kind y = Inr j \<longleftrightarrow> y = journal_kind_tag j" by (cases j) (auto simp: parse_journal_kind_def)
  show "parse_role_id y = Inr w \<longleftrightarrow> y = role_id_tag w" by (cases w) (auto simp: parse_role_id_def)
  show "parse_product y = Inr k \<longleftrightarrow> y = product_tag k" by (cases k) (auto simp: parse_product_def)
  show "parse_terminal y = Inr t \<longleftrightarrow> y = terminal_tag t" by (cases t) (auto simp: parse_terminal_def)
qed

lemma unat_u16: "n < 65536 \<Longrightarrow> unat (x :: u16) = n \<longleftrightarrow> x = of_nat n"
  by (auto simp: unat_of_nat)

lemmas record_reads = blank_uncovered uncovered_def read_i32_def pi32_def sealed32_def layout_def Let_def unat_u16

lemma length_kfs11_magic [simp]: "length KFS11_MAGIC = 4"
  by (simp add: KFS11_MAGIC_def)

lemmas kfs11_defs = write_kfs11_def parse_kfs11_def manifest_fields_def KFS11_LENGTH_def

interpretation kfs11: record_codec write_kfs11 parse_kfs11 512 "\<lambda>v. length (resource_evidence_sha256 v) = 32"
  "\<lambda>v. validate_manifest v = Inr ()" manifest_fields
proof
  show "\<exists>e. write_kfs11 v out = (Inl e, out)" if "length out \<noteq> 512 \<or> \<not> (\<lambda>v. validate_manifest v = Inr ()) v" for out v
    using that by (auto simp: kfs11_defs split: sum.splits)
  show "write_kfs11 v out = (Inr (), seal32 (put_fields (fill0 out) (manifest_fields v)))"
    if "length out = 512" "(\<lambda>v. validate_manifest v = Inr ()) v" for out v
    using that by (auto simp: kfs11_defs split: sum.splits)
  show "layout (512 - 4) (manifest_fields v)" if "(\<lambda>v. length (resource_evidence_sha256 v) = 32) v" "(\<lambda>v. validate_manifest v = Inr ()) v" for v
    using that by (simp add: kfs11_defs record_reads)
  show "parse_kfs11 b = Inr v"
    if "length b = 512" "sealed32 b" "(\<lambda>v. length (resource_evidence_sha256 v) = 32) v" "(\<lambda>v. validate_manifest v = Inr ()) v"
      "holds b (manifest_fields v)" "blank b (512 - 4) (manifest_fields v)" for b v
    using that by (cases "resource v"; cases v; simp add: record_reads manifest_fields_def; simp add: kfs11_defs record_reads)
  show "length b = 512 \<and> sealed32 b" if "parse_kfs11 b = Inr v" for b v
    using that by (auto simp: kfs11_defs record_reads)
  show "(\<lambda>v. length (resource_evidence_sha256 v) = 32) v \<and> (\<lambda>v. validate_manifest v = Inr ()) v \<and> holds b (manifest_fields v) \<and> blank b (512 - 4) (manifest_fields v)"
    if "parse_kfs11 b = Inr v" for b v
    using that by (clarsimp simp: kfs11_defs record_reads)
qed simp

text \<open>Arrays of a fixed length, read back element by element.\<close>

lemma list_of_nth:
  "length xs = 4 \<Longrightarrow> [xs ! 0, xs ! Suc 0, xs ! 2, xs ! 3] = xs"
  "length ys = 16 \<Longrightarrow> [ys ! 0, ys ! Suc 0, ys ! 2, ys ! 3, ys ! 4, ys ! 5, ys ! 6, ys ! 7, ys ! 8, ys ! 9, ys ! 10,
     ys ! 11, ys ! 12, ys ! 13, ys ! 14, ys ! 15] = ys"
  by (auto intro!: nth_equalityI simp: nth_Cons' less_Suc_eq numeral_eq_Suc)

lemma upt_short: "[0..<4] = [0, 1, 2, 3]" "[0..<16] = [0, 1, 2, 3, 4, 5, 6, 7, 8, 9, 10, 11, 12, 13, 14, 15]"
  by (simp_all add: upt_rec numeral_eq_Suc)

lemmas arrays = list_of_nth upt_short

lemma each_16 [simp]:
  "each 16 body = body 0 @ body 1 @ body 2 @ body 3 @ body 4 @ body 5 @ body 6 @ body 7 @ body 8 @ body 9 @ body 10
     @ body 11 @ body 12 @ body 13 @ body 14 @ body 15"
  by (simp add: each_def upt_rec numeral_eq_Suc)

lemmas kul11_defs = write_kul11_def parse_kul11_def uplink_load_fields_def KUL11_LENGTH_def arrays

interpretation kul11: record_codec write_kul11 parse_kul11 512 "\<lambda>v. length (ul_arguments v) = 16"
  "\<lambda>v. validate_uplink_load v = Inr ()" uplink_load_fields
proof
  show "\<exists>e. write_kul11 v out = (Inl e, out)" if "length out \<noteq> 512 \<or> \<not> (\<lambda>v. validate_uplink_load v = Inr ()) v" for out v
    using that by (auto simp: kul11_defs split: sum.splits)
  show "write_kul11 v out = (Inr (), seal32 (put_fields (fill0 out) (uplink_load_fields v)))"
    if "length out = 512" "(\<lambda>v. validate_uplink_load v = Inr ()) v" for out v
    using that by (auto simp: kul11_defs split: sum.splits)
  show "layout (512 - 4) (uplink_load_fields v)" if "(\<lambda>v. length (ul_arguments v) = 16) v" "(\<lambda>v. validate_uplink_load v = Inr ()) v" for v
    using that by (simp add: kul11_defs record_reads)
  show "parse_kul11 b = Inr v"
    if "length b = 512" "sealed32 b" "(\<lambda>v. length (ul_arguments v) = 16) v" "(\<lambda>v. validate_uplink_load v = Inr ()) v"
      "holds b (uplink_load_fields v)" "blank b (512 - 4) (uplink_load_fields v)" for b v
    using that by (cases v; simp add: record_reads uplink_load_fields_def; simp add: kul11_defs record_reads)
  show "length b = 512 \<and> sealed32 b" if "parse_kul11 b = Inr v" for b v
    using that by (auto simp: kul11_defs record_reads)
  show "(\<lambda>v. length (ul_arguments v) = 16) v \<and> (\<lambda>v. validate_uplink_load v = Inr ()) v \<and> holds b (uplink_load_fields v) \<and> blank b (512 - 4) (uplink_load_fields v)"
    if "parse_kul11 b = Inr v" for b v
    using that by (clarsimp simp: kul11_defs record_reads)
qed simp

lemmas kua11_defs = write_kua11_def parse_kua11_def control_fields_def KUA11_LENGTH_def control_identified_def

interpretation kua11: record_codec write_kua11 parse_kua11 128 "\<lambda>_. True"
  "control_identified" control_fields
proof
  show "\<exists>e. write_kua11 v out = (Inl e, out)" if "length out \<noteq> 128 \<or> \<not> (control_identified) v" for out v
    using that by (auto simp: kua11_defs split: sum.splits)
  show "write_kua11 v out = (Inr (), seal32 (put_fields (fill0 out) (control_fields v)))"
    if "length out = 128" "(control_identified) v" for out v
    using that by (auto simp: kua11_defs split: sum.splits)
  show "layout (128 - 4) (control_fields v)" if "(\<lambda>_. True) v" "(control_identified) v" for v
    using that by (simp add: kua11_defs record_reads)
  show "parse_kua11 b = Inr v"
    if "length b = 128" "sealed32 b" "(\<lambda>_. True) v" "(control_identified) v"
      "holds b (control_fields v)" "blank b (128 - 4) (control_fields v)" for b v
    using that by (cases v; simp add: record_reads control_fields_def; simp add: kua11_defs record_reads)
  show "length b = 128 \<and> sealed32 b" if "parse_kua11 b = Inr v" for b v
    using that by (auto simp: kua11_defs record_reads)
  show "(\<lambda>_. True) v \<and> (control_identified) v \<and> holds b (control_fields v) \<and> blank b (128 - 4) (control_fields v)"
    if "parse_kua11 b = Inr v" for b v
    using that by (clarsimp simp: kua11_defs record_reads)
qed simp

lemmas kej11_defs = write_kej11_def parse_kej11_def journal_fields_def KEJ11_LENGTH_def arrays

interpretation kej11: record_codec write_kej11 parse_kej11 64 "\<lambda>v. length (jr_arguments v) = 4"
  "\<lambda>v. jr_sequence v \<noteq> 0 \<and> jr_flags v AND NOT 3 = 0" journal_fields
proof
  show "\<exists>e. write_kej11 v out = (Inl e, out)" if "length out \<noteq> 64 \<or> \<not> (\<lambda>v. jr_sequence v \<noteq> 0 \<and> jr_flags v AND NOT 3 = 0) v" for out v
    using that by (auto simp: kej11_defs split: sum.splits)
  show "write_kej11 v out = (Inr (), seal32 (put_fields (fill0 out) (journal_fields v)))"
    if "length out = 64" "(\<lambda>v. jr_sequence v \<noteq> 0 \<and> jr_flags v AND NOT 3 = 0) v" for out v
    using that by (auto simp: kej11_defs split: sum.splits)
  show "layout (64 - 4) (journal_fields v)" if "(\<lambda>v. length (jr_arguments v) = 4) v" "(\<lambda>v. jr_sequence v \<noteq> 0 \<and> jr_flags v AND NOT 3 = 0) v" for v
    using that by (simp add: kej11_defs record_reads)
  show "parse_kej11 b = Inr v"
    if "length b = 64" "sealed32 b" "(\<lambda>v. length (jr_arguments v) = 4) v" "(\<lambda>v. jr_sequence v \<noteq> 0 \<and> jr_flags v AND NOT 3 = 0) v"
      "holds b (journal_fields v)" "blank b (64 - 4) (journal_fields v)" for b v
    using that by (cases v; simp add: record_reads journal_fields_def; simp add: kej11_defs record_reads)
  show "length b = 64 \<and> sealed32 b" if "parse_kej11 b = Inr v" for b v
    using that by (auto simp: kej11_defs record_reads)
  show "(\<lambda>v. length (jr_arguments v) = 4) v \<and> (\<lambda>v. jr_sequence v \<noteq> 0 \<and> jr_flags v AND NOT 3 = 0) v \<and> holds b (journal_fields v) \<and> blank b (64 - 4) (journal_fields v)"
    if "parse_kej11 b = Inr v" for b v
    using that by (clarsimp simp: kej11_defs record_reads)
qed simp

lemmas kal11_defs = write_kal11_record_def parse_kal11_record_def action_fields_def KAL11_RECORD_LENGTH_def arrays

interpretation kal11: record_codec write_kal11_record parse_kal11_record 64 "\<lambda>v. length (al_arguments v) = 4"
  "\<lambda>v. al_sequence v \<noteq> 0" action_fields
proof
  show "\<exists>e. write_kal11_record v out = (Inl e, out)" if "length out \<noteq> 64 \<or> \<not> (\<lambda>v. al_sequence v \<noteq> 0) v" for out v
    using that by (auto simp: kal11_defs split: sum.splits)
  show "write_kal11_record v out = (Inr (), seal32 (put_fields (fill0 out) (action_fields v)))"
    if "length out = 64" "(\<lambda>v. al_sequence v \<noteq> 0) v" for out v
    using that by (auto simp: kal11_defs split: sum.splits)
  show "layout (64 - 4) (action_fields v)" if "(\<lambda>v. length (al_arguments v) = 4) v" "(\<lambda>v. al_sequence v \<noteq> 0) v" for v
    using that by (simp add: kal11_defs record_reads)
  show "parse_kal11_record b = Inr v"
    if "length b = 64" "sealed32 b" "(\<lambda>v. length (al_arguments v) = 4) v" "(\<lambda>v. al_sequence v \<noteq> 0) v"
      "holds b (action_fields v)" "blank b (64 - 4) (action_fields v)" for b v
    using that by (cases v; simp add: record_reads action_fields_def; simp add: kal11_defs record_reads)
  show "length b = 64 \<and> sealed32 b" if "parse_kal11_record b = Inr v" for b v
    using that by (auto simp: kal11_defs record_reads)
  show "(\<lambda>v. length (al_arguments v) = 4) v \<and> (\<lambda>v. al_sequence v \<noteq> 0) v \<and> holds b (action_fields v) \<and> blank b (64 - 4) (action_fields v)"
    if "parse_kal11_record b = Inr v" for b v
    using that by (clarsimp simp: kal11_defs record_reads)
qed simp

lemmas kpd11_defs = write_kpd11_def parse_kpd11_def prediction_fields_def KPD11_LENGTH_def prediction_bound_def

interpretation kpd11: record_codec write_kpd11 parse_kpd11 256 "\<lambda>_. True"
  "prediction_bound" prediction_fields
proof
  show "\<exists>e. write_kpd11 v out = (Inl e, out)" if "length out \<noteq> 256 \<or> \<not> (prediction_bound) v" for out v
    using that by (auto simp: kpd11_defs split: sum.splits)
  show "write_kpd11 v out = (Inr (), seal32 (put_fields (fill0 out) (prediction_fields v)))"
    if "length out = 256" "(prediction_bound) v" for out v
    using that by (auto simp: kpd11_defs split: sum.splits)
  show "layout (256 - 4) (prediction_fields v)" if "(\<lambda>_. True) v" "(prediction_bound) v" for v
    using that by (simp add: kpd11_defs record_reads)
  show "parse_kpd11 b = Inr v"
    if "length b = 256" "sealed32 b" "(\<lambda>_. True) v" "(prediction_bound) v"
      "holds b (prediction_fields v)" "blank b (256 - 4) (prediction_fields v)" for b v
    using that by (cases v; simp add: record_reads prediction_fields_def; simp add: kpd11_defs record_reads)
  show "length b = 256 \<and> sealed32 b" if "parse_kpd11 b = Inr v" for b v
    using that by (auto simp: kpd11_defs record_reads)
  show "(\<lambda>_. True) v \<and> (prediction_bound) v \<and> holds b (prediction_fields v) \<and> blank b (256 - 4) (prediction_fields v)"
    if "parse_kpd11 b = Inr v" for b v
    using that by (clarsimp simp: kpd11_defs record_reads)
qed simp

subsection \<open>The contract of the records\<close>

text \<open>
  The operations records round trip.  For each of the six kinds the writer fills a buffer
  of exactly the record's length with bytes that parse back to the record when it is in
  contract, and refuses every other buffer or record with the buffer unchanged.
\<close>
theorem operations_records_roundtrip:
  assumes "length (resource_evidence_sha256 m) = 32" "length (ul_arguments l) = 16" "length (jr_arguments j) = 4" "length (al_arguments a) = 4"
  shows
  "(case write_kfs11 m out of
      (Inl e, b) \<Rightarrow> b = out \<and> (length out \<noteq> 512 \<or> \<not> (validate_manifest m = Inr ()))
    | (Inr u, b) \<Rightarrow> length b = 512 \<and> parse_kfs11 b = Inr m)
   \<and> (case write_kul11 l out of
      (Inl e, b) \<Rightarrow> b = out \<and> (length out \<noteq> 512 \<or> \<not> (validate_uplink_load l = Inr ()))
    | (Inr u, b) \<Rightarrow> length b = 512 \<and> parse_kul11 b = Inr l)
   \<and> (case write_kua11 c out of
      (Inl e, b) \<Rightarrow> b = out \<and> (length out \<noteq> 128 \<or> \<not> (control_identified c))
    | (Inr u, b) \<Rightarrow> length b = 128 \<and> parse_kua11 b = Inr c)
   \<and> (case write_kej11 j out of
      (Inl e, b) \<Rightarrow> b = out \<and> (length out \<noteq> 64 \<or> \<not> (jr_sequence j \<noteq> 0 \<and> jr_flags j AND NOT 3 = 0))
    | (Inr u, b) \<Rightarrow> length b = 64 \<and> parse_kej11 b = Inr j)
   \<and> (case write_kal11_record a out of
      (Inl e, b) \<Rightarrow> b = out \<and> (length out \<noteq> 64 \<or> \<not> (al_sequence a \<noteq> 0))
    | (Inr u, b) \<Rightarrow> length b = 64 \<and> parse_kal11_record b = Inr a)
   \<and> (case write_kpd11 p out of
      (Inl e, b) \<Rightarrow> b = out \<and> (length out \<noteq> 256 \<or> \<not> (prediction_bound p))
    | (Inr u, b) \<Rightarrow> length b = 256 \<and> parse_kpd11 b = Inr p)"
  using kfs11.contract [where v = m and out = out, OF assms(1)]
    kul11.contract [where v = l and out = out, OF assms(2)]
    kua11.contract [where v = c and out = out, simplified]
    kej11.contract [where v = j and out = out, OF assms(3)]
    kal11.contract [where v = a and out = out, OF assms(4)]
    kpd11.contract [where v = p and out = out, simplified]
  by (auto split: prod.splits sum.splits)

text \<open>
  C31: the operations records are canonical.  For each of the six kinds, whatever buffer the
  parser accepts is the one the writer produces for the parsed record, so every record has
  exactly one accepted encoding, with the declared reserved bytes zero.
\<close>
theorem operations_records_canonical:
  "(parse_kfs11 b = Inr m \<and> length out = 512 \<longrightarrow> write_kfs11 m out = (Inr (), b))
   \<and> (parse_kul11 b = Inr l \<and> length out = 512 \<longrightarrow> write_kul11 l out = (Inr (), b))
   \<and> (parse_kua11 b = Inr c \<and> length out = 128 \<longrightarrow> write_kua11 c out = (Inr (), b))
   \<and> (parse_kej11 b = Inr j \<and> length out = 64 \<longrightarrow> write_kej11 j out = (Inr (), b))
   \<and> (parse_kal11_record b = Inr a \<and> length out = 64 \<longrightarrow> write_kal11_record a out = (Inr (), b))
   \<and> (parse_kpd11 b = Inr p \<and> length out = 256 \<longrightarrow> write_kpd11 p out = (Inr (), b))"
  by (simp add: kfs11.rewritten_record kul11.rewritten_record kua11.rewritten_record kej11.rewritten_record
      kal11.rewritten_record kpd11.rewritten_record)

text \<open>
  An accepted operations record is no longer accepted when any one of its bytes is
  replaced, for all six kinds.
\<close>
theorem operations_corruption_rejected:
  "(parse_kfs11 b = Inr m \<and> i < 512 \<and> x \<noteq> b ! i \<longrightarrow> \<not> is_ok (parse_kfs11 (b[i := x])))
   \<and> (parse_kul11 b = Inr l \<and> i < 512 \<and> x \<noteq> b ! i \<longrightarrow> \<not> is_ok (parse_kul11 (b[i := x])))
   \<and> (parse_kua11 b = Inr c \<and> i < 128 \<and> x \<noteq> b ! i \<longrightarrow> \<not> is_ok (parse_kua11 (b[i := x])))
   \<and> (parse_kej11 b = Inr j \<and> i < 64 \<and> x \<noteq> b ! i \<longrightarrow> \<not> is_ok (parse_kej11 (b[i := x])))
   \<and> (parse_kal11_record b = Inr a \<and> i < 64 \<and> x \<noteq> b ! i \<longrightarrow> \<not> is_ok (parse_kal11_record (b[i := x])))
   \<and> (parse_kpd11 b = Inr p \<and> i < 256 \<and> x \<noteq> b ! i \<longrightarrow> \<not> is_ok (parse_kpd11 (b[i := x])))"
  by (intro conjI impI; elim conjE;
      erule (2) kfs11.corruption_rejected kul11.corruption_rejected kua11.corruption_rejected
        kej11.corruption_rejected kal11.corruption_rejected kpd11.corruption_rejected)

definition sample_manifest :: FlightSoftwarePackageManifest where
  "sample_manifest = \<lparr>manifest_identity = 0x11f5a001, fm_package = KsaG10rReferenceOpsV1,
     implementation_identity = 0x11f51001, fm_abi = GlobalKlr10V1, fm_vehicle_profile_identity = 5,
     mission_compatibility_identity = 0x10a00001, capabilities = PACKAGE_CAP_MASK, segment_support = PACKAGE_SEGMENT_MASK,
     command_load_support = PACKAGE_LOAD_MASK, targets = 7, safe_state = ReferenceGlobalSafeV1,
     command_loss = FrozenKlr10HoldThenSafe,
     resource = \<lparr>persistent_bytes = 4096, transient_bytes = 4096, stack_bytes = 512, journal_records = 32,
       maximum_object_bytes = 4096\<rparr>,
     fm_fast_hz = 32, fm_navigation_hz = 8, fm_guidance_hz = 1, maximum_plan_events = 24, maximum_branches = 8,
     maximum_decisions = 8, code_identity = 0x10530001, configuration_identity = 0x10520001,
     resource_evidence_sha256 = replicate 32 0x11\<rparr>"

definition sample_load :: UplinkCommandLoad where
  "sample_load = \<lparr>load_identity = 7, ul_package_manifest_identity = 0x11f5a001, ul_plan_identity = 0x11a00001,
     ul_abi = GlobalKlr10V1, source_estimator_identity = 1, source_estimator_checksum = 2, stage_epoch = 0,
     not_before_epoch = 2, expires_epoch = 12, requested_effective_epoch = 4,
     ul_required_capabilities = PACKAGE_CAP_HIGH_LEVEL_MODE, prerequisite_event_mask = 0,
     position_residual_limit_q12 = 0, velocity_residual_limit_q24 = 0, ul_frame = LocalEnuV1,
     load_type = HighLevelMode, ul_arguments = 2 # replicate 15 0\<rparr>"

definition sample_journal :: EventJournalRecord where
  "sample_journal = EMPTY_RECORD\<lparr>jr_sequence := 1\<rparr>"

definition sample_action :: ActionLogRecord where
  "sample_action = \<lparr>al_sequence = 1, al_epoch = 100, al_role = ScriptedOperator, action_kind = CommitRequest,
     al_state = Committed, al_reason = Accepted, al_load_identity = 7, detail_identity = 8, procedure_step = 4,
     al_arguments = [1, 2, 3, 4], al_prior_chain = 9, al_chain = 10\<rparr>"

lemma sample_records:
  "length (resource_evidence_sha256 sample_manifest) = 32" "length (ul_arguments sample_load) = 16"
  "length (jr_arguments sample_journal) = 4" "length (al_arguments sample_action) = 4"
  "validate_manifest sample_manifest = Inr ()" "validate_uplink_load sample_load = Inr ()"
  by (simp_all add: sample_manifest_def sample_load_def sample_journal_def EMPTY_RECORD_def sample_action_def
      validate_manifest_def validate_uplink_load_def package_masks)

theorem operations_records_roundtrip_witness:
  "case write_kul11 sample_load (replicate 512 0) of (Inl e, b) \<Rightarrow> False | (Inr u, b) \<Rightarrow> parse_kul11 b = Inr sample_load"
  using operations_records_roundtrip [OF sample_records(1-4), where out = "replicate 512 0"] sample_records(6)
  by (auto split: prod.splits sum.splits)

lemma sample_load_bytes: "\<exists>b. write_kul11 sample_load (replicate 512 0) = (Inr (), b) \<and> length b = 512 \<and> parse_kul11 b = Inr sample_load"
  using kul11.write_parse [of "replicate 512 0" sample_load] sample_records by simp

theorem operations_records_canonical_witness:
  "\<exists>b. parse_kul11 b = Inr sample_load \<and> write_kul11 sample_load (replicate 512 1) = (Inr (), b)"
proof -
  obtain b where "parse_kul11 b = Inr sample_load" using sample_load_bytes by blast
  then show ?thesis using operations_records_canonical [of b _ "replicate 512 1"] by (auto intro!: exI [of _ b])
qed

theorem operations_corruption_rejected_witness:
  "\<exists>b. parse_kul11 b = Inr sample_load \<and> \<not> is_ok (parse_kul11 (b[300 := b ! 300 + 1]))"
proof -
  obtain b where "parse_kul11 b = Inr sample_load" using sample_load_bytes by blast
  moreover have "b ! 300 + 1 \<noteq> b ! 300" by simp
  ultimately show ?thesis using operations_corruption_rejected [of b _ 300 "b ! 300 + 1"] by auto
qed

end
