(* ===== verification/Ground_Codec.thy ===== *)
theory Ground_Codec
  imports Operations_Codec
begin

text \<open>
  The remaining records of the mission-operations interface (\<^verbatim>\<open>interface/src/phase11.rs\<close>):
  action-log headers (KAL11), prediction path headers and points (KPP11), ground tracking
  observations (KGO11) and ground estimates (KGE11).  Their writers refuse records without
  identities; their parsers do not check that, and the observation parser skips the bytes
  its writer fills with zero, so the accepted buffers are more than the written ones.
\<close>

unbundle bit_operations_syntax

subsection \<open>Action-log headers\<close>

definition KAL11_HEADER_LENGTH :: nat where "KAL11_HEADER_LENGTH = 128"

record ActionLogHeader =
  session_definition_identity :: u32
  transcript_identity :: u32
  ah_package_manifest_identity :: u32
  ah_plan_identity :: u32
  action_count :: u32
  final_chain :: u32
  ah_complete :: bool

definition header_identified :: "ActionLogHeader \<Rightarrow> bool" where
  "header_identified v \<longleftrightarrow> \<not> (session_definition_identity v = 0 \<or> transcript_identity v = 0
     \<or> ah_package_manifest_identity v = 0 \<or> ah_plan_identity v = 0)"

definition header_fields :: "ActionLogHeader \<Rightarrow> store list" where
  "header_fields v =
     [(0, ascii ''KAL1''), p16 4 11, p16 6 (of_nat KAL11_HEADER_LENGTH), p32 8 (session_definition_identity v),
      p32 12 (transcript_identity v), p32 16 (ah_package_manifest_identity v), p32 20 (ah_plan_identity v),
      p32 24 (action_count v), p32 28 (final_chain v), p8 32 (if ah_complete v then 1 else 0)]"

definition write_kal11_header :: "ActionLogHeader \<Rightarrow> u8 list \<Rightarrow> (CodecError + unit) \<times> u8 list" where
  "write_kal11_header v out =
     (if length out \<noteq> KAL11_HEADER_LENGTH \<or> \<not> header_identified v then (Inl Length, out)
      else (Inr (), seal32 (put_fields (fill0 out) (header_fields v))))"

definition parse_kal11_header :: "u8 list \<Rightarrow> CodecError + ActionLogHeader" where
  "parse_kal11_header b =
     (if length b \<noteq> KAL11_HEADER_LENGTH then Inl Length
      else if take 4 b \<noteq> ascii ''KAL1'' \<or> read_u16 b 4 \<noteq> 11 \<or> read_u16 b 6 \<noteq> 128 then Inl Enum
      else if crc32_ieee (take 124 b) \<noteq> read_u32 b 124 then Inl Checksum
      else if 1 < b ! 32 \<or> any_nonzero b 33 124 then Inl Reserved
      else Inr \<lparr>session_definition_identity = read_u32 b 8, transcript_identity = read_u32 b 12,
             ah_package_manifest_identity = read_u32 b 16, ah_plan_identity = read_u32 b 20,
             action_count = read_u32 b 24, final_chain = read_u32 b 28, ah_complete = (b ! 32 \<noteq> 0)\<rparr>)"

subsection \<open>Prediction paths\<close>

definition KPP11_HEADER_LENGTH :: nat where "KPP11_HEADER_LENGTH = 128"
definition KPP11_POINT_LENGTH :: nat where "KPP11_POINT_LENGTH = 32"

record PredictionPathHeader =
  path_identity :: u32
  ph_model_identity :: u32
  ph_product :: PredictionProductKind
  ph_source_estimate_identity :: u32
  ph_source_estimate_checksum :: u32
  ph_package_manifest_identity :: u32
  ph_plan_identity :: u32
  ph_source_epoch :: u32
  ph_generation_epoch :: u32
  point_count :: u16
  cadence_releases :: u16
  ph_terminal_reason :: PredictionTerminalReason
  path_checksum :: u32

definition path_identified :: "PredictionPathHeader \<Rightarrow> bool" where
  "path_identified v \<longleftrightarrow> \<not> (path_identity v = 0 \<or> ph_model_identity v = 0 \<or> ph_source_estimate_identity v = 0
     \<or> ph_package_manifest_identity v = 0 \<or> ph_plan_identity v = 0 \<or> point_count v = 0 \<or> cadence_releases v = 0)"

definition path_fields :: "PredictionPathHeader \<Rightarrow> store list" where
  "path_fields v =
     [(0, ascii ''KPP1''), p8 4 11, p8 5 (product_tag (ph_product v)), p16 6 (of_nat KPP11_HEADER_LENGTH),
      p32 8 (path_identity v), p32 12 (ph_model_identity v), p32 16 (ph_source_estimate_identity v),
      p32 20 (ph_source_estimate_checksum v), p32 24 (ph_package_manifest_identity v), p32 28 (ph_plan_identity v),
      p32 32 (ph_source_epoch v), p32 36 (ph_generation_epoch v), p16 40 (point_count v), p16 42 (cadence_releases v),
      p8 44 (terminal_tag (ph_terminal_reason v)), p32 48 (path_checksum v)]"

definition write_kpp11_header :: "PredictionPathHeader \<Rightarrow> u8 list \<Rightarrow> (CodecError + unit) \<times> u8 list" where
  "write_kpp11_header v out =
     (if length out \<noteq> KPP11_HEADER_LENGTH \<or> \<not> path_identified v then (Inl Length, out)
      else (Inr (), seal32 (put_fields (fill0 out) (path_fields v))))"

definition parse_kpp11_header :: "u8 list \<Rightarrow> CodecError + PredictionPathHeader" where
  "parse_kpp11_header b =
     (if length b \<noteq> KPP11_HEADER_LENGTH then Inl Length
      else if take 4 b \<noteq> ascii ''KPP1'' \<or> b ! 4 \<noteq> 11 \<or> read_u16 b 6 \<noteq> 128 then Inl Enum
      else if crc32_ieee (take 124 b) \<noteq> read_u32 b 124 then Inl Checksum
      else if b ! 45 \<noteq> 0 \<or> b ! 46 \<noteq> 0 \<or> b ! 47 \<noteq> 0 \<or> any_nonzero b 52 124 then Inl Reserved
      else
      and_then (parse_product (b ! 5)) (\<lambda>product.
      and_then (parse_terminal (b ! 44)) (\<lambda>terminal.
      Inr \<lparr>path_identity = read_u32 b 8, ph_model_identity = read_u32 b 12, ph_product = product,
           ph_source_estimate_identity = read_u32 b 16, ph_source_estimate_checksum = read_u32 b 20,
           ph_package_manifest_identity = read_u32 b 24, ph_plan_identity = read_u32 b 28,
           ph_source_epoch = read_u32 b 32, ph_generation_epoch = read_u32 b 36, point_count = read_u16 b 40,
           cadence_releases = read_u16 b 42, ph_terminal_reason = terminal, path_checksum = read_u32 b 48\<rparr>)))"

record PredictionPathPoint =
  pt_epoch :: u32
  pt_frame :: GlobalFrameId
  pt_flags :: u8
  pt_position_q12_km :: "i32 vec3"
  pt_altitude_q12_km :: i32
  downrange_q12_km :: i32
  crossrange_q12_km :: i32

definition point_fields :: "PredictionPathPoint \<Rightarrow> store list" where
  "point_fields v =
     [p32 0 (pt_epoch v), p8 4 (frame_tag (pt_frame v)), p8 5 (pt_flags v)]
     @ each 3 (\<lambda>axis. [p32 (8 + axis * 4) (at3 (pt_position_q12_km v) axis)])
     @ [p32 20 (pt_altitude_q12_km v), p32 24 (downrange_q12_km v), p32 28 (crossrange_q12_km v)]"

definition write_kpp11_point :: "PredictionPathPoint \<Rightarrow> u8 list \<Rightarrow> (CodecError + unit) \<times> u8 list" where
  "write_kpp11_point v out =
     (if length out \<noteq> KPP11_POINT_LENGTH \<or> pt_flags v AND NOT 3 \<noteq> 0 then (Inl Length, out)
      else (Inr (), put_fields (fill0 out) (point_fields v)))"

definition parse_kpp11_point :: "u8 list \<Rightarrow> CodecError + PredictionPathPoint" where
  "parse_kpp11_point b =
     (if length b \<noteq> KPP11_POINT_LENGTH then Inl Length
      else if b ! 6 \<noteq> 0 \<or> b ! 7 \<noteq> 0 \<or> b ! 5 AND NOT 3 \<noteq> 0 then Inl Reserved
      else
      and_then (parse_global_frame (b ! 4)) (\<lambda>frame.
      Inr \<lparr>pt_epoch = read_u32 b 0, pt_frame = frame, pt_flags = b ! 5,
           pt_position_q12_km = (read_i32 b 8, read_i32 b 12, read_i32 b 16), pt_altitude_q12_km = read_i32 b 20,
           downrange_q12_km = read_i32 b 24, crossrange_q12_km = read_i32 b 28\<rparr>))"

subsection \<open>Ground records\<close>

record GroundTrackingObservation =
  source_identity :: u32
  observation_identity :: u32
  go_measurement_epoch :: u32
  receipt_epoch :: u32
  go_frame :: GlobalFrameId
  go_validity :: u8
  go_position_q12_km :: "i32 vec3"
  go_velocity_q24_km_s :: "i32 vec3"
  uncertainty_q16 :: "u32 vec3"
  observation_checksum :: u32

record GroundEstimate =
  estimator_identity :: u32
  estimate_identity :: u32
  source_observation_identity :: u32
  ge_measurement_epoch :: u32
  ge_production_epoch :: u32
  ge_frame :: GlobalFrameId
  ge_flags :: u8
  ge_position_q12_km :: "i32 vec3"
  ge_velocity_q24_km_s :: "i32 vec3"
  confidence_q16 :: "u32 vec3"
  residual_q16 :: "i32 vec3"
  estimator_checksum :: u32

definition ground_fields :: "string \<Rightarrow> u32 vec3 \<Rightarrow> u32 \<times> u32 \<Rightarrow> GlobalFrameId \<Rightarrow> u8 \<Rightarrow> i32 vec3 \<Rightarrow> i32 vec3
    \<Rightarrow> u32 vec3 \<Rightarrow> i32 vec3 \<Rightarrow> u32 \<Rightarrow> store list" where
  "ground_fields mg identities epochs frame flgs position vel first_words second_words ck =
     [(0, ascii mg), p8 4 11, p8 5 flgs, p16 6 128, p32 8 (at3 identities 0), p32 12 (at3 identities 1),
      p32 16 (at3 identities 2), p32 20 (fst epochs), p32 24 (snd epochs), p8 28 (frame_tag frame)]
     @ each 3 (\<lambda>axis. [p32 (32 + axis * 4) (at3 position axis), p32 (44 + axis * 4) (at3 vel axis),
          p32 (56 + axis * 4) (at3 first_words axis), p32 (68 + axis * 4) (at3 second_words axis)])
     @ [p32 80 ck]"

definition write_ground_common :: "string \<Rightarrow> u32 vec3 \<Rightarrow> u32 \<times> u32 \<Rightarrow> GlobalFrameId \<Rightarrow> u8 \<Rightarrow> i32 vec3 \<Rightarrow> i32 vec3
    \<Rightarrow> u32 vec3 \<Rightarrow> i32 vec3 \<Rightarrow> u32 \<Rightarrow> u8 list \<Rightarrow> (CodecError + unit) \<times> u8 list" where
  "write_ground_common mg identities epochs frame flgs position vel first_words second_words ck out =
     (if length out \<noteq> 128 \<or> at3 identities 0 = 0 \<or> at3 identities 1 = 0 \<or> flgs AND NOT 3 \<noteq> 0 then (Inl Length, out)
      else (Inr (), seal32 (put_fields (fill0 out)
             (ground_fields mg identities epochs frame flgs position vel first_words second_words ck))))"

definition check_ground_common :: "u8 list \<Rightarrow> string \<Rightarrow> CodecError + u8 list" where
  "check_ground_common b mg =
     (if length b \<noteq> 128 then Inl Length
      else if take 4 b \<noteq> ascii mg \<or> b ! 4 \<noteq> 11 \<or> read_u16 b 6 \<noteq> 128 then Inl Enum
      else if crc32_ieee (take 124 b) \<noteq> read_u32 b 124 then Inl Checksum
      else if b ! 29 \<noteq> 0 \<or> b ! 30 \<noteq> 0 \<or> b ! 31 \<noteq> 0 \<or> b ! 5 AND NOT 3 \<noteq> 0 \<or> any_nonzero b 84 124 then Inl Reserved
      else Inr b)"

definition write_kgo11 :: "GroundTrackingObservation \<Rightarrow> u8 list \<Rightarrow> (CodecError + unit) \<times> u8 list" where
  "write_kgo11 v =
     write_ground_common ''KGO1'' (source_identity v, observation_identity v, 0)
       (go_measurement_epoch v, receipt_epoch v) (go_frame v) (go_validity v) (go_position_q12_km v)
       (go_velocity_q24_km_s v) (uncertainty_q16 v) (0, 0, 0) (observation_checksum v)"

definition parse_kgo11 :: "u8 list \<Rightarrow> CodecError + GroundTrackingObservation" where
  "parse_kgo11 b =
     and_then (check_ground_common b ''KGO1'') (\<lambda>b.
     and_then (parse_global_frame (b ! 28)) (\<lambda>frame.
     Inr \<lparr>source_identity = read_u32 b 8, observation_identity = read_u32 b 12, go_measurement_epoch = read_u32 b 20,
          receipt_epoch = read_u32 b 24, go_frame = frame, go_validity = b ! 5,
          go_position_q12_km = (read_i32 b 32, read_i32 b 36, read_i32 b 40),
          go_velocity_q24_km_s = (read_i32 b 44, read_i32 b 48, read_i32 b 52),
          uncertainty_q16 = (read_u32 b 56, read_u32 b 60, read_u32 b 64), observation_checksum = read_u32 b 80\<rparr>))"

definition write_kge11 :: "GroundEstimate \<Rightarrow> u8 list \<Rightarrow> (CodecError + unit) \<times> u8 list" where
  "write_kge11 v =
     write_ground_common ''KGE1'' (estimator_identity v, estimate_identity v, source_observation_identity v)
       (ge_measurement_epoch v, ge_production_epoch v) (ge_frame v) (ge_flags v) (ge_position_q12_km v)
       (ge_velocity_q24_km_s v) (confidence_q16 v) (residual_q16 v) (estimator_checksum v)"

definition parse_kge11 :: "u8 list \<Rightarrow> CodecError + GroundEstimate" where
  "parse_kge11 b =
     and_then (check_ground_common b ''KGE1'') (\<lambda>b.
     and_then (parse_global_frame (b ! 28)) (\<lambda>frame.
     Inr \<lparr>estimator_identity = read_u32 b 8, estimate_identity = read_u32 b 12,
          source_observation_identity = read_u32 b 16, ge_measurement_epoch = read_u32 b 20,
          ge_production_epoch = read_u32 b 24, ge_frame = frame, ge_flags = b ! 5,
          ge_position_q12_km = (read_i32 b 32, read_i32 b 36, read_i32 b 40),
          ge_velocity_q24_km_s = (read_i32 b 44, read_i32 b 48, read_i32 b 52),
          confidence_q16 = (read_u32 b 56, read_u32 b 60, read_u32 b 64),
          residual_q16 = (read_i32 b 68, read_i32 b 72, read_i32 b 76), estimator_checksum = read_u32 b 80\<rparr>))"

subsection \<open>The codecs\<close>

text \<open>
  What the parsers accept is described by a writer without the identity check; the actual
  writer agrees with it on the records it does not refuse.
\<close>

definition seal_record :: "nat \<Rightarrow> ('v \<Rightarrow> bool) \<Rightarrow> ('v \<Rightarrow> store list) \<Rightarrow> 'v \<Rightarrow> u8 list \<Rightarrow> (CodecError + unit) \<times> u8 list" where
  "seal_record n ok flds v out =
     (if length out \<noteq> n \<or> \<not> ok v then (Inl Length, out) else (Inr (), seal32 (put_fields (fill0 out) (flds v))))"

definition observation_fields :: "GroundTrackingObservation \<Rightarrow> store list" where
  "observation_fields v =
     ground_fields ''KGO1'' (source_identity v, observation_identity v, 0)
       (go_measurement_epoch v, receipt_epoch v) (go_frame v) (go_validity v) (go_position_q12_km v)
       (go_velocity_q24_km_s v) (uncertainty_q16 v) (0, 0, 0) (observation_checksum v)"

definition estimate_fields :: "GroundEstimate \<Rightarrow> store list" where
  "estimate_fields v =
     ground_fields ''KGE1'' (estimator_identity v, estimate_identity v, source_observation_identity v)
       (ge_measurement_epoch v, ge_production_epoch v) (ge_frame v) (ge_flags v) (ge_position_q12_km v)
       (ge_velocity_q24_km_s v) (confidence_q16 v) (residual_q16 v) (estimator_checksum v)"

lemma byte_flag: "\<not> 1 < (x :: u8) \<Longrightarrow> x \<noteq> 0 \<Longrightarrow> x = 1"
  by (auto simp: word_less_nat_alt word_unat_eq_iff)

lemmas kal11h_defs = seal_record_def parse_kal11_header_def header_fields_def KAL11_HEADER_LENGTH_def

interpretation kal11h: record_codec "(seal_record 128 (\<lambda>_. True) header_fields)" parse_kal11_header 128 "\<lambda>_. True"
  "\<lambda>_. True" header_fields
proof
  show "\<exists>e. (seal_record 128 (\<lambda>_. True) header_fields) v out = (Inl e, out)" if "length out \<noteq> 128 \<or> \<not> (\<lambda>_. True) v" for out v
    using that by (auto simp: kal11h_defs split: sum.splits)
  show "(seal_record 128 (\<lambda>_. True) header_fields) v out = (Inr (), seal32 (put_fields (fill0 out) (header_fields v)))"
    if "length out = 128" "(\<lambda>_. True) v" for out v
    using that by (auto simp: kal11h_defs split: sum.splits)
  show "layout (128 - 4) (header_fields v)" if "(\<lambda>_. True) v" "(\<lambda>_. True) v" for v
    using that by (simp add: kal11h_defs record_reads)
  show "parse_kal11_header b = Inr v"
    if "length b = 128" "sealed32 b" "(\<lambda>_. True) v" "(\<lambda>_. True) v"
      "holds b (header_fields v)" "blank b (128 - 4) (header_fields v)" for b v
    using that by (cases v; simp add: record_reads header_fields_def; simp add: kal11h_defs record_reads)
  show "length b = 128 \<and> sealed32 b" if "parse_kal11_header b = Inr v" for b v
    using that by (auto simp: kal11h_defs record_reads)
  show "(\<lambda>_. True) v \<and> (\<lambda>_. True) v \<and> holds b (header_fields v) \<and> blank b (128 - 4) (header_fields v)"
    if "parse_kal11_header b = Inr v" for b v
    using that by (clarsimp simp: kal11h_defs record_reads) (rule byte_flag)
qed simp

lemmas kpp11_defs = seal_record_def parse_kpp11_header_def path_fields_def KPP11_HEADER_LENGTH_def

interpretation kpp11: record_codec "(seal_record 128 (\<lambda>_. True) path_fields)" parse_kpp11_header 128 "\<lambda>_. True"
  "\<lambda>_. True" path_fields
proof
  show "\<exists>e. (seal_record 128 (\<lambda>_. True) path_fields) v out = (Inl e, out)" if "length out \<noteq> 128 \<or> \<not> (\<lambda>_. True) v" for out v
    using that by (auto simp: kpp11_defs split: sum.splits)
  show "(seal_record 128 (\<lambda>_. True) path_fields) v out = (Inr (), seal32 (put_fields (fill0 out) (path_fields v)))"
    if "length out = 128" "(\<lambda>_. True) v" for out v
    using that by (auto simp: kpp11_defs split: sum.splits)
  show "layout (128 - 4) (path_fields v)" if "(\<lambda>_. True) v" "(\<lambda>_. True) v" for v
    using that by (simp add: kpp11_defs record_reads)
  show "parse_kpp11_header b = Inr v"
    if "length b = 128" "sealed32 b" "(\<lambda>_. True) v" "(\<lambda>_. True) v"
      "holds b (path_fields v)" "blank b (128 - 4) (path_fields v)" for b v
    using that by (cases v; simp add: record_reads path_fields_def; simp add: kpp11_defs record_reads)
  show "length b = 128 \<and> sealed32 b" if "parse_kpp11_header b = Inr v" for b v
    using that by (auto simp: kpp11_defs record_reads)
  show "(\<lambda>_. True) v \<and> (\<lambda>_. True) v \<and> holds b (path_fields v) \<and> blank b (128 - 4) (path_fields v)"
    if "parse_kpp11_header b = Inr v" for b v
    using that by (clarsimp simp: kpp11_defs record_reads)
qed simp

lemmas kge11_defs = seal_record_def parse_kge11_def estimate_fields_def check_ground_common_def ground_fields_def

interpretation kge11: record_codec "(seal_record 128 (\<lambda>v. ge_flags v AND NOT 3 = 0) estimate_fields)" parse_kge11 128 "\<lambda>_. True"
  "\<lambda>v. ge_flags v AND NOT 3 = 0" estimate_fields
proof
  show "\<exists>e. (seal_record 128 (\<lambda>v. ge_flags v AND NOT 3 = 0) estimate_fields) v out = (Inl e, out)" if "length out \<noteq> 128 \<or> \<not> (\<lambda>v. ge_flags v AND NOT 3 = 0) v" for out v
    using that by (auto simp: kge11_defs split: sum.splits)
  show "(seal_record 128 (\<lambda>v. ge_flags v AND NOT 3 = 0) estimate_fields) v out = (Inr (), seal32 (put_fields (fill0 out) (estimate_fields v)))"
    if "length out = 128" "(\<lambda>v. ge_flags v AND NOT 3 = 0) v" for out v
    using that by (auto simp: kge11_defs split: sum.splits)
  show "layout (128 - 4) (estimate_fields v)" if "(\<lambda>_. True) v" "(\<lambda>v. ge_flags v AND NOT 3 = 0) v" for v
    using that by (simp add: kge11_defs record_reads)
  show "parse_kge11 b = Inr v"
    if "length b = 128" "sealed32 b" "(\<lambda>_. True) v" "(\<lambda>v. ge_flags v AND NOT 3 = 0) v"
      "holds b (estimate_fields v)" "blank b (128 - 4) (estimate_fields v)" for b v
    using that by (cases v; simp add: record_reads estimate_fields_def ground_fields_def; simp add: kge11_defs record_reads)
  show "length b = 128 \<and> sealed32 b" if "parse_kge11 b = Inr v" for b v
    using that by (auto simp: kge11_defs record_reads)
  show "(\<lambda>_. True) v \<and> (\<lambda>v. ge_flags v AND NOT 3 = 0) v \<and> holds b (estimate_fields v) \<and> blank b (128 - 4) (estimate_fields v)"
    if "parse_kge11 b = Inr v" for b v
    using that by (clarsimp simp: kge11_defs record_reads)
qed simp

lemmas kgo11_defs = seal_record_def parse_kgo11_def observation_fields_def check_ground_common_def ground_fields_def

interpretation kgo11: field_codec "(seal_record 128 (\<lambda>v. go_validity v AND NOT 3 = 0) observation_fields)" parse_kgo11 128 "\<lambda>_. True"
  "\<lambda>v. go_validity v AND NOT 3 = 0" observation_fields
proof
  show "\<exists>e. (seal_record 128 (\<lambda>v. go_validity v AND NOT 3 = 0) observation_fields) v out = (Inl e, out)" if "length out \<noteq> 128 \<or> \<not> (\<lambda>v. go_validity v AND NOT 3 = 0) v" for out v
    using that by (auto simp: kgo11_defs split: sum.splits)
  show "(seal_record 128 (\<lambda>v. go_validity v AND NOT 3 = 0) observation_fields) v out = (Inr (), seal32 (put_fields (fill0 out) (observation_fields v)))"
    if "length out = 128" "(\<lambda>v. go_validity v AND NOT 3 = 0) v" for out v
    using that by (auto simp: kgo11_defs split: sum.splits)
  show "layout (128 - 4) (observation_fields v)" if "(\<lambda>_. True) v" "(\<lambda>v. go_validity v AND NOT 3 = 0) v" for v
    using that by (simp add: kgo11_defs record_reads)
  show "parse_kgo11 b = Inr v"
    if "length b = 128" "sealed32 b" "(\<lambda>_. True) v" "(\<lambda>v. go_validity v AND NOT 3 = 0) v"
      "holds b (observation_fields v)" "blank b (128 - 4) (observation_fields v)" for b v
    using that by (cases v; simp add: record_reads observation_fields_def ground_fields_def; simp add: kgo11_defs record_reads)
  show "length b = 128 \<and> sealed32 b" if "parse_kgo11 b = Inr v" for b v
    using that by (auto simp: kgo11_defs record_reads)
qed simp

lemma writers_seal:
  "write_kal11_header v out = (if header_identified v then seal_record 128 (\<lambda>_. True) header_fields v out else (Inl Length, out))"
  "write_kpp11_header w out = (if path_identified w then seal_record 128 (\<lambda>_. True) path_fields w out else (Inl Length, out))"
  "write_kge11 e out = (if estimator_identity e \<noteq> 0 \<and> estimate_identity e \<noteq> 0
     then seal_record 128 (\<lambda>v. ge_flags v AND NOT 3 = 0) estimate_fields e out else (Inl Length, out))"
  "write_kgo11 g out = (if source_identity g \<noteq> 0 \<and> observation_identity g \<noteq> 0
     then seal_record 128 (\<lambda>v. go_validity v AND NOT 3 = 0) observation_fields g out else (Inl Length, out))"
  by (simp_all add: write_kal11_header_def write_kpp11_header_def write_kge11_def write_kgo11_def write_ground_common_def
      seal_record_def estimate_fields_def observation_fields_def KAL11_HEADER_LENGTH_def KPP11_HEADER_LENGTH_def)

subsection \<open>Path points\<close>

lemma point_layout: "layout 32 (point_fields v)"
  by (simp add: layout_def point_fields_def)

lemma point_parse:
  assumes "length b = 32" "holds b (point_fields v)" "blank b 32 (point_fields v)" "pt_flags v AND NOT 3 = 0"
  shows "parse_kpp11_point b = Inr v"
  using assms
  by (cases v; simp add: record_reads point_fields_def; simp add: parse_kpp11_point_def KPP11_POINT_LENGTH_def record_reads)

lemma point_parsed:
  assumes "parse_kpp11_point b = Inr v"
  shows "length b = 32 \<and> holds b (point_fields v) \<and> blank b 32 (point_fields v) \<and> pt_flags v AND NOT 3 = 0"
  using assms
  by (clarsimp simp: parse_kpp11_point_def KPP11_POINT_LENGTH_def record_reads point_fields_def)

lemma point_canonical:
  assumes "length out = 32"
  shows "parse_kpp11_point b = Inr v \<Longrightarrow> write_kpp11_point v out = (Inr (), b)"
    "write_kpp11_point v out = (Inr (), b) \<Longrightarrow> parse_kpp11_point b = Inr v"
proof -
  show "parse_kpp11_point b = Inr v \<Longrightarrow> write_kpp11_point v out = (Inr (), b)"
    using point_parsed [of b v] put_fields_canonical [of b 32 out "point_fields v"] point_layout [of v] assms
    by (simp add: write_kpp11_point_def KPP11_POINT_LENGTH_def layout_def)
  show "write_kpp11_point v out = (Inr (), b) \<Longrightarrow> parse_kpp11_point b = Inr v"
    using holds_put_fields [OF assms point_layout] point_parse [of b v] assms
    by (auto simp: write_kpp11_point_def KPP11_POINT_LENGTH_def split: if_splits)
qed

subsection \<open>The contract of the records\<close>

lemma guarded_contract:
  assumes "case w of (Inl e, b) \<Rightarrow> b = out \<and> Q | (Inr u, b) \<Rightarrow> R b" "Q \<or> \<not> ok \<Longrightarrow> Q'" "\<And>b. R b \<Longrightarrow> R' b"
  shows "case (if ok then w else (Inl Length, out)) of (Inl e, b) \<Rightarrow> b = out \<and> Q' | (Inr u, b) \<Rightarrow> R' b"
  using assms by (auto split: prod.splits sum.splits)

text \<open>
  The ground, path and log-header records round trip.  For each of the five kinds the
  writer refuses, with the buffer unchanged, a wrong length, a missing identity and undefined
  flags, and otherwise its bytes parse back to the record.
\<close>
theorem ground_records_roundtrip:
  "(case write_kal11_header h out of
      (Inl e, b) \<Rightarrow> b = out \<and> \<not> (length out = 128 \<and> header_identified h)
    | (Inr u, b) \<Rightarrow> length b = 128 \<and> parse_kal11_header b = Inr h)
   \<and> (case write_kpp11_header p out of
      (Inl e, b) \<Rightarrow> b = out \<and> \<not> (length out = 128 \<and> path_identified p)
    | (Inr u, b) \<Rightarrow> length b = 128 \<and> parse_kpp11_header b = Inr p)
   \<and> (case write_kpp11_point q out of
      (Inl e, b) \<Rightarrow> b = out \<and> \<not> (length out = 32 \<and> pt_flags q AND NOT 3 = 0)
    | (Inr u, b) \<Rightarrow> length b = 32 \<and> parse_kpp11_point b = Inr q)
   \<and> (case write_kgo11 g out of
      (Inl e, b) \<Rightarrow> b = out \<and> \<not> (length out = 128 \<and> source_identity g \<noteq> 0 \<and> observation_identity g \<noteq> 0
        \<and> go_validity g AND NOT 3 = 0)
    | (Inr u, b) \<Rightarrow> length b = 128 \<and> parse_kgo11 b = Inr g)
   \<and> (case write_kge11 e out of
      (Inl er, b) \<Rightarrow> b = out \<and> \<not> (length out = 128 \<and> estimator_identity e \<noteq> 0 \<and> estimate_identity e \<noteq> 0
        \<and> ge_flags e AND NOT 3 = 0)
    | (Inr u, b) \<Rightarrow> length b = 128 \<and> parse_kge11 b = Inr e)"
proof -
  have 1: "case write_kal11_header h out of
      (Inl e, b) \<Rightarrow> b = out \<and> \<not> (length out = 128 \<and> header_identified h)
    | (Inr u, b) \<Rightarrow> length b = 128 \<and> parse_kal11_header b = Inr h"
    unfolding writers_seal by (rule guarded_contract [OF kal11h.contract [OF TrueI, where v = h and out = out]]) auto
  have 2: "case write_kpp11_header p out of
      (Inl e, b) \<Rightarrow> b = out \<and> \<not> (length out = 128 \<and> path_identified p)
    | (Inr u, b) \<Rightarrow> length b = 128 \<and> parse_kpp11_header b = Inr p"
    unfolding writers_seal by (rule guarded_contract [OF kpp11.contract [OF TrueI, where v = p and out = out]]) auto
  have 3: "case write_kgo11 g out of
      (Inl e, b) \<Rightarrow> b = out \<and> \<not> (length out = 128 \<and> source_identity g \<noteq> 0 \<and> observation_identity g \<noteq> 0
        \<and> go_validity g AND NOT 3 = 0)
    | (Inr u, b) \<Rightarrow> length b = 128 \<and> parse_kgo11 b = Inr g"
    unfolding writers_seal by (rule guarded_contract [OF kgo11.contract [OF TrueI, where v = g and out = out]]) auto
  have 4: "case write_kge11 e out of
      (Inl er, b) \<Rightarrow> b = out \<and> \<not> (length out = 128 \<and> estimator_identity e \<noteq> 0 \<and> estimate_identity e \<noteq> 0
        \<and> ge_flags e AND NOT 3 = 0)
    | (Inr u, b) \<Rightarrow> length b = 128 \<and> parse_kge11 b = Inr e"
    unfolding writers_seal by (rule guarded_contract [OF kge11.contract [OF TrueI, where v = e and out = out]]) auto
  have q: "case write_kpp11_point q out of
      (Inl e, b) \<Rightarrow> b = out \<and> \<not> (length out = 32 \<and> pt_flags q AND NOT 3 = 0)
    | (Inr u, b) \<Rightarrow> length b = 32 \<and> parse_kpp11_point b = Inr q"
  proof (cases "length out \<noteq> 32 \<or> pt_flags q AND NOT 3 \<noteq> 0")
    case False
    then have w: "write_kpp11_point q out = (Inr (), put_fields (fill0 out) (point_fields q))" and l: "length out = 32"
      by (simp_all add: write_kpp11_point_def KPP11_POINT_LENGTH_def)
    then show ?thesis using point_canonical(2) [OF l w] point_parsed by auto
  qed (auto simp: write_kpp11_point_def KPP11_POINT_LENGTH_def)
  show ?thesis using 1 2 q 3 4 by (intro conjI)
qed

text \<open>
  The parsers of these records are more lenient than their writers.  A record without
  identities, which the writer refuses, is accepted from the wire for each of the four
  sealed kinds, and two different buffers with valid checksums parse to the same tracking
  observation, since the parser skips the words its writer leaves zero.
\<close>
theorem ground_parsers_lenient:
  "(\<exists>b h. parse_kal11_header b = Inr h \<and> \<not> header_identified h)
   \<and> (\<exists>b p. parse_kpp11_header b = Inr p \<and> \<not> path_identified p)
   \<and> (\<exists>b e. parse_kge11 b = Inr e \<and> estimator_identity e = 0)
   \<and> (\<exists>b g. parse_kgo11 b = Inr g \<and> source_identity g = 0)
   \<and> (\<exists>b c g. b \<noteq> c \<and> parse_kgo11 b = Inr g \<and> parse_kgo11 c = Inr g)"
proof -
  let ?out = "replicate 128 0 :: u8 list"
  define h where "h = \<lparr>session_definition_identity = 0, transcript_identity = 0, ah_package_manifest_identity = 0,
    ah_plan_identity = 0, action_count = 0, final_chain = 0, ah_complete = False\<rparr>"
  define p where "p = \<lparr>path_identity = 0, ph_model_identity = 0, ph_product = OnboardCompact,
    ph_source_estimate_identity = 0, ph_source_estimate_checksum = 0, ph_package_manifest_identity = 0,
    ph_plan_identity = 0, ph_source_epoch = 0, ph_generation_epoch = 0, point_count = 0, cadence_releases = 0,
    ph_terminal_reason = ValidHorizon, path_checksum = 0\<rparr>"
  define e where "e = \<lparr>estimator_identity = 0, estimate_identity = 0, source_observation_identity = 0,
    ge_measurement_epoch = 0, ge_production_epoch = 0, ge_frame = LocalEnuV1, ge_flags = 0,
    ge_position_q12_km = (0, 0, 0), ge_velocity_q24_km_s = (0, 0, 0), confidence_q16 = (0, 0, 0),
    residual_q16 = (0, 0, 0), estimator_checksum = 0\<rparr>"
  define g where "g = \<lparr>source_identity = 0, observation_identity = 0, go_measurement_epoch = 0, receipt_epoch = 0,
    go_frame = LocalEnuV1, go_validity = 0, go_position_q12_km = (0, 0, 0), go_velocity_q24_km_s = (0, 0, 0),
    uncertainty_q16 = (0, 0, 0), observation_checksum = 0\<rparr>"
  have ids: "\<not> header_identified h" "\<not> path_identified p" "estimator_identity e = 0" "ge_flags e AND NOT 3 = 0"
      "go_validity g AND NOT 3 = 0" "source_identity g = 0"
    by (simp_all add: h_def p_def e_def g_def header_identified_def path_identified_def)
  have 1: "\<exists>b h. parse_kal11_header b = Inr h \<and> \<not> header_identified h"
    using kal11h.write_parse [of ?out h] ids(1) by auto
  have 2: "\<exists>b p. parse_kpp11_header b = Inr p \<and> \<not> path_identified p"
    using kpp11.write_parse [of ?out p] ids(2) by auto
  have 3: "\<exists>b e. parse_kge11 b = Inr e \<and> estimator_identity e = 0"
    using kge11.write_parse [of ?out e] ids(3,4) by auto
  obtain b where b: "length b = 128" "parse_kgo11 b = Inr g"
    using kgo11.write_parse [of ?out g] ids(5) by auto
  define c where "c = seal32 (b[16 := b ! 16 + 1])"
  have l: "length (b[16 := b ! 16 + 1]) = 128" using b(1) by simp
  note s = seal32_fields [OF l, simplified]
  have "c ! 16 = b ! 16 + 1" using s(3) [of 16] b(1) by (simp add: c_def)
  then have ne: "b \<noteq> c" by auto
  have "\<not> any_nonzero b 84 124"
    using b(2) by (simp add: parse_kgo11_def check_ground_common_def)
  then have z: "\<not> any_nonzero c 84 124" using s(3) b(1) l s(1) by (auto simp: c_def any_nonzero_nth)
  have "parse_kgo11 c = Inr g"
    using b z s l
    by (auto simp: parse_kgo11_def check_ground_common_def c_def read_i32_def record_access)
  then show ?thesis using 1 2 3 b(2) ne ids(6) by blast
qed

end
