(* ===== verification/Object_Transfer.thy ===== *)
theory Object_Transfer
  imports Operations_Codec
begin

text \<open>
  The transfer of package objects (\<^verbatim>\<open>interface/src/phase11.rs\<close>, KPX11 segments, and
  \<^verbatim>\<open>flight/src/phase11.rs\<close>, \<^verbatim>\<open>BoundedObjectReceiver\<close>).  An object of up to 4096 bytes is cut
  into segments of 480 bytes, each in a sealed record of 512; the receiver assembles them
  in order and verifies the checksum of the whole.
\<close>

unbundle bit_operations_syntax

subsection \<open>Segment records\<close>

definition KPX11_LENGTH :: nat where "KPX11_LENGTH = 512"
definition KPX11_PAYLOAD_MAX :: nat where "KPX11_PAYLOAD_MAX = 480"
definition KPX11_MAGIC :: "u8 list" where "KPX11_MAGIC = ascii ''KPX1''"

definition div_ceil :: "u32 \<Rightarrow> u32 \<Rightarrow> u32" where
  "div_ceil a b = (if a mod b = 0 then a div b else a div b + 1)"

definition saturating_sub :: "u32 \<Rightarrow> u32 \<Rightarrow> u32" where
  "saturating_sub a b = (if a \<le> b then 0 else a - b)"

definition segment_canonical :: "PackageObjectSegment \<Rightarrow> bool" where
  "segment_canonical value =
     (let expected_count = div_ceil (seg_total_length value) (of_nat KPX11_PAYLOAD_MAX);
          expected_offset = ucast (segment_index value) * of_nat KPX11_PAYLOAD_MAX;
          remaining = saturating_sub (seg_total_length value) expected_offset;
          expected_payload = unat (min remaining (of_nat KPX11_PAYLOAD_MAX))
      in \<not> (seg_object_identity value = 0 \<or> seg_total_length value = 0 \<or> 4096 < seg_total_length value
         \<or> seg_total_crc32 value = 0 \<or> seg_segment_count value = 0
         \<or> (ucast (seg_segment_count value) :: u32) \<noteq> expected_count
         \<or> seg_segment_count value \<le> segment_index value
         \<or> (ucast (logical_offset value) :: u32) \<noteq> expected_offset
         \<or> length (seg_payload value) \<noteq> expected_payload))"

definition segment_fields :: "PackageObjectSegment \<Rightarrow> store list" where
  "segment_fields value =
     [(0, KPX11_MAGIC), p8 4 11, p8 5 (object_type_tag (seg_object_type value)), p16 6 28,
      p32 8 (seg_object_identity value), p32 12 (seg_total_length value), p32 16 (seg_total_crc32 value),
      p16 20 (segment_index value), p16 22 (seg_segment_count value), p16 24 (logical_offset value),
      p16 26 (of_nat (length (seg_payload value))), (28, seg_payload value)]"

definition write_kpx11 :: "PackageObjectSegment \<Rightarrow> u8 list \<Rightarrow> (CodecError + unit) \<times> u8 list" where
  "write_kpx11 value output =
     (if length output \<noteq> KPX11_LENGTH then (Inl Length, output)
      else if \<not> segment_canonical value then (Inl Sequence, output)
      else (Inr (), seal32 (put_fields (fill0 output) (segment_fields value))))"

definition parse_kpx11 :: "u8 list \<Rightarrow> CodecError + PackageObjectSegment" where
  "parse_kpx11 input =
     (if length input \<noteq> KPX11_LENGTH then Inl Length
      else if take 4 input \<noteq> KPX11_MAGIC \<or> input ! 4 \<noteq> 11 \<or> read_u16 input 6 \<noteq> 28 then Inl Enum
      else if crc32_ieee (take 508 input) \<noteq> read_u32 input 508 then Inl Checksum
      else
        let payload_length = unat (read_u16 input 26)
        in if KPX11_PAYLOAD_MAX < payload_length \<or> any_nonzero input (28 + payload_length) 508 then Inl Reserved
        else
          and_then (parse_object_type (input ! 5)) (\<lambda>typ.
          let value = \<lparr>seg_object_type = typ, seg_object_identity = read_u32 input 8,
                 seg_total_length = read_u32 input 12, seg_total_crc32 = read_u32 input 16,
                 segment_index = read_u16 input 20, seg_segment_count = read_u16 input 22,
                 logical_offset = read_u16 input 24, seg_payload = take payload_length (drop 28 input)\<rparr>
          in and_then (fst (write_kpx11 value (replicate KPX11_LENGTH 0))) (\<lambda>_. Inr value)))"

subsection \<open>The receiver\<close>

datatype ObjectReceiveError = ObjSequence | ObjIdentity | ObjCapacity | ObjChecksum | ObjContract
datatype ObjectReceiveState = Receiving | Complete

record BoundedObjectReceiver =
  rc_bytes :: "u8 list"
  rc_object_type :: "PackageObjectType option"
  rc_object_identity :: u32
  rc_total_length :: u16
  rc_total_crc32 :: u32
  rc_segment_count :: u16
  next_segment :: u16
  rc_complete :: bool

definition new_object_receiver :: BoundedObjectReceiver where
  "new_object_receiver = \<lparr>rc_bytes = replicate 4096 0, rc_object_type = None, rc_object_identity = 0,
     rc_total_length = 0, rc_total_crc32 = 0, rc_segment_count = 0, next_segment = 0, rc_complete = False\<rparr>"

definition receiver_reset :: "BoundedObjectReceiver \<Rightarrow> BoundedObjectReceiver" where
  "receiver_reset self = self\<lparr>rc_object_type := None, rc_object_identity := 0, rc_total_length := 0,
     rc_total_crc32 := 0, rc_segment_count := 0, next_segment := 0, rc_complete := False\<rparr>"

definition receive_object :: "BoundedObjectReceiver \<Rightarrow> PackageObjectSegment
    \<Rightarrow> (ObjectReceiveError + ObjectReceiveState) \<times> BoundedObjectReceiver" where
  "receive_object self segment =
     (if seg_total_length segment = 0 \<or> of_nat (length (rc_bytes self)) < seg_total_length segment
      then (Inl ObjCapacity, self)
      else
        let self = (if segment_index segment = 0
              then (receiver_reset self)\<lparr>rc_object_type := Some (seg_object_type segment),
                     rc_object_identity := seg_object_identity segment,
                     rc_total_length := ucast (seg_total_length segment),
                     rc_total_crc32 := seg_total_crc32 segment,
                     rc_segment_count := seg_segment_count segment\<rparr>
              else self)
        in if rc_complete self \<or> rc_object_type self \<noteq> Some (seg_object_type segment)
              \<or> rc_object_identity self \<noteq> seg_object_identity segment
              \<or> (ucast (rc_total_length self) :: u32) \<noteq> seg_total_length segment
              \<or> rc_total_crc32 self \<noteq> seg_total_crc32 segment
              \<or> rc_segment_count self \<noteq> seg_segment_count segment
        then (Inl ObjIdentity, receiver_reset self)
        else if segment_index segment \<noteq> next_segment self
              \<or> unat (rc_total_length self) < unat (logical_offset segment) + length (seg_payload segment)
        then (Inl ObjSequence, receiver_reset self)
        else
          let start = unat (logical_offset segment);
              self = self\<lparr>rc_bytes := copy_from_slice (rc_bytes self) start (seg_payload segment)\<rparr>;
              self = self\<lparr>next_segment := (if next_segment self = 0xffff then 0xffff else next_segment self + 1)\<rparr>
          in if next_segment self \<noteq> rc_segment_count self then (Inr Receiving, self)
          else if crc32_ieee (take (unat (rc_total_length self)) (rc_bytes self)) \<noteq> rc_total_crc32 self
          then (Inl ObjChecksum, receiver_reset self)
          else (Inr Complete, self\<lparr>rc_complete := True\<rparr>))"

subsection \<open>The segment codec\<close>

lemma object_type_parsed [simp]: "parse_object_type y = Inr t \<longleftrightarrow> y = object_type_tag t"
  by (cases t) (auto simp: parse_object_type_def)

lemma length_kpx11_magic [simp]: "length KPX11_MAGIC = 4"
  by (simp add: KPX11_MAGIC_def)

lemma canonical_payload: "segment_canonical v \<Longrightarrow> length (seg_payload v) \<le> 480"
  by (auto simp: segment_canonical_def Let_def KPX11_PAYLOAD_MAX_def min_def word_le_nat_alt)

lemmas kpx11_defs = write_kpx11_def parse_kpx11_def KPX11_LENGTH_def KPX11_PAYLOAD_MAX_def

lemma segment_blank:
  assumes "length b = 512" "length (seg_payload v) \<le> 480"
  shows "blank b 508 (segment_fields v) \<longleftrightarrow> \<not> any_nonzero b (28 + length (seg_payload v)) 508"
proof -
  have "blank b 508 (segment_fields v) \<longleftrightarrow> (\<forall>(lo, hi) \<in> set (cut 28 (length (seg_payload v)) [(28, 508)]). \<not> any_nonzero b lo hi)"
    using assms by (simp add: blank_uncovered segment_fields_def uncovered_def)
  also have "\<dots> \<longleftrightarrow> \<not> any_nonzero b (28 + length (seg_payload v)) 508"
    using assms by (auto simp: any_nonzero_nth)
  finally show ?thesis .
qed

interpretation kpx11: record_codec write_kpx11 parse_kpx11 512 "\<lambda>_. True" segment_canonical segment_fields
proof
  show "\<exists>e. write_kpx11 v out = (Inl e, out)" if "length out \<noteq> 512 \<or> \<not> segment_canonical v" for out v
    using that by (auto simp: kpx11_defs)
  show "write_kpx11 v out = (Inr (), seal32 (put_fields (fill0 out) (segment_fields v)))"
    if "length out = 512" "segment_canonical v" for out v
    using that by (simp add: kpx11_defs)
  show "layout (512 - 4) (segment_fields v)" if "segment_canonical v" for v
    using canonical_payload [OF that] by (simp add: segment_fields_def layout_def)
  show "parse_kpx11 b = Inr v" if "length b = 512" "sealed32 b" "segment_canonical v"
      "holds b (segment_fields v)" "blank b (512 - 4) (segment_fields v)" for b v
  proof -
    note p = canonical_payload [OF that(3)]
    have h: "take 4 b = KPX11_MAGIC" "b ! 4 = 11" "b ! 5 = object_type_tag (seg_object_type v)" "read_u16 b 6 = 28"
        "read_u32 b 8 = seg_object_identity v" "read_u32 b 12 = seg_total_length v" "read_u32 b 16 = seg_total_crc32 v"
        "read_u16 b 20 = segment_index v" "read_u16 b 22 = seg_segment_count v" "read_u16 b 24 = logical_offset v"
        "read_u16 b 26 = of_nat (length (seg_payload v))" "take (length (seg_payload v)) (drop 28 b) = seg_payload v"
      using that(1,4) by (simp_all add: segment_fields_def)
    have u: "unat (of_nat (length (seg_payload v)) :: u16) = length (seg_payload v)" using p by (simp add: unat_of_nat)
    have z: "\<not> any_nonzero b (28 + length (seg_payload v)) 508"
      using that(1,5) segment_blank [OF that(1) p] by simp
    have w: "write_kpx11 v (replicate 512 0) = (Inr (), seal32 (put_fields (fill0 (replicate 512 0)) (segment_fields v)))"
      using that(3) by (simp add: kpx11_defs)
    have t: "parse_object_type (object_type_tag (seg_object_type v)) = Inr (seg_object_type v)" by simp
    have e: "\<lparr>seg_object_type = seg_object_type v, seg_object_identity = seg_object_identity v,
        seg_total_length = seg_total_length v, seg_total_crc32 = seg_total_crc32 v, segment_index = segment_index v,
        seg_segment_count = seg_segment_count v, logical_offset = logical_offset v, seg_payload = seg_payload v\<rparr> = v"
      by (cases v) simp
    show ?thesis
      using that(1,2) p z w t by (simp add: parse_kpx11_def KPX11_LENGTH_def KPX11_PAYLOAD_MAX_def h u sealed32_def e)
  qed
  show "length b = 512 \<and> sealed32 b" if "parse_kpx11 b = Inr v" for b v
    using that by (auto simp: kpx11_defs sealed32_def Let_def split: if_splits)
  show "True \<and> segment_canonical v \<and> holds b (segment_fields v) \<and> blank b (512 - 4) (segment_fields v)"
    if p: "parse_kpx11 b = Inr v" for b v
  proof -
    let ?n = "unat (read_u16 b 26)"
    have b: "length b = 512" "?n \<le> 480" "\<not> any_nonzero b (28 + ?n) 508" "segment_canonical v"
        "seg_payload v = take ?n (drop 28 b)" "take 4 b = KPX11_MAGIC" "b ! 4 = 11" "read_u16 b 6 = 28"
        "b ! 5 = object_type_tag (seg_object_type v)" "read_u32 b 8 = seg_object_identity v"
        "read_u32 b 12 = seg_total_length v" "read_u32 b 16 = seg_total_crc32 v" "read_u16 b 20 = segment_index v"
        "read_u16 b 22 = seg_segment_count v" "read_u16 b 24 = logical_offset v"
      using p by (auto simp: kpx11_defs Let_def split: if_splits)
    have l: "length (seg_payload v) = ?n" using b(1,2,5) by simp
    then have "read_u16 b 26 = of_nat (length (seg_payload v))" by simp
    then show ?thesis using b l segment_blank [OF b(1), of v] by (simp add: segment_fields_def)
  qed
qed simp

subsection \<open>Canonical segments over the naturals\<close>

lemma ceil_480: "(n + 479) div 480 = (if n mod 480 = 0 then n div 480 else n div 480 + (1::nat))"
proof -
  define q r where qr: "q = n div 480" "r = n mod 480"
  have e: "n = 480 * q + r" "r < 480" by (simp_all add: qr)
  have "(480 * q + r + 479) div 480 = (if r = 0 then q else q + 1)"
  proof (cases "r = 0")
    case False
    then have s: "480 * q + r + 479 = r - 1 + 480 * (q + 1)" by simp
    have "(r - 1 + 480 * (q + 1)) div 480 = q + 1 + (r - 1) div 480" by (rule div_mult_self2) simp
    moreover have "(r - 1) div 480 = 0" using e(2) by (intro div_less) linarith
    ultimately show ?thesis using False by (simp only: s if_False add_0_right)
  next
    case True
    have "(479 + 480 * q) div 480 = q + 479 div 480" by (rule div_mult_self2) simp
    then show ?thesis using True by (simp only: add_0_right add.commute if_True) simp
  qed
  then show ?thesis unfolding e(1) [symmetric] unfolding qr .
qed

lemma unat_div_ceil:
  assumes "unat a \<le> 4096"
  shows "unat (div_ceil a 480) = (unat a + 479) div 480"
proof -
  have m: "a mod 480 = 0 \<longleftrightarrow> unat a mod 480 = 0" by (simp add: word_unat_eq_iff unat_mod)
  have "unat (a div 480 + 1) = unat a div 480 + 1"
  proof -
    have "unat (a div 480) \<le> 8" using assms by (simp add: unat_div)
    then show ?thesis by (subst unat_add_lem [THEN iffD1]) (simp_all add: unat_div)
  qed
  then show ?thesis using m by (simp add: div_ceil_def ceil_480 unat_div)
qed

lemma unat_widened [simp]: "unat (ucast (x :: u16) :: u32) = unat x"
proof -
  have "unat x < 65536" using unsigned_less [of x, where ?'a = nat] by simp
  then show ?thesis by (simp add: unsigned_ucast_eq take_bit_nat_eq_self_iff)
qed

lemma unat_narrowed: "unat x < 65536 \<Longrightarrow> unat (ucast (x :: u32) :: u16) = unat x"
  by (simp add: unsigned_ucast_eq take_bit_nat_eq_self_iff)

lemma segment_canonical_iff:
  "segment_canonical v \<longleftrightarrow> seg_object_identity v \<noteq> 0 \<and> seg_total_crc32 v \<noteq> 0
     \<and> 0 < unat (seg_total_length v) \<and> unat (seg_total_length v) \<le> 4096
     \<and> unat (seg_segment_count v) = (unat (seg_total_length v) + 479) div 480
     \<and> unat (segment_index v) < unat (seg_segment_count v)
     \<and> unat (logical_offset v) = 480 * unat (segment_index v)
     \<and> length (seg_payload v) = min (unat (seg_total_length v) - 480 * unat (segment_index v)) 480"
proof -
  let ?T = "seg_total_length v" and ?i = "segment_index v"
  have i: "unat (ucast ?i * 480 :: u32) = 480 * unat ?i"
  proof -
    have "unat (ucast ?i :: u32) * unat (480 :: u32) < 2 ^ 32" using unsigned_less [of ?i, where ?'a = nat] by simp
    then show ?thesis by (subst unat_mult_lem [THEN iffD1]) simp_all
  qed
  have s: "unat (min (saturating_sub a b) 480) = min (unat a - unat b) 480" for a b :: u32
    by (auto simp: saturating_sub_def min_def word_le_nat_alt unat_sub)
  have c: "(ucast (seg_segment_count v) :: u32) = div_ceil ?T 480 \<longleftrightarrow> unat (seg_segment_count v) = (unat ?T + 479) div 480"
    if "unat ?T \<le> 4096"
    using unat_div_ceil [OF that] by (simp add: word_unat_eq_iff)
  have o': "(ucast (logical_offset v) :: u32) = ucast ?i * 480 \<longleftrightarrow> unat (logical_offset v) = 480 * unat ?i"
    by (simp add: word_unat_eq_iff i)
  have z: "?T \<noteq> 0 \<longleftrightarrow> 0 < unat ?T" "\<not> 4096 < ?T \<longleftrightarrow> unat ?T \<le> 4096" "\<not> seg_segment_count v \<le> ?i \<longleftrightarrow> unat ?i < unat (seg_segment_count v)"
    by (auto simp: unat_gt_0 word_less_nat_alt word_le_nat_alt)
  show ?thesis
    unfolding segment_canonical_def Let_def KPX11_PAYLOAD_MAX_def de_Morgan_disj not_not z of_nat_numeral o' s i
    using c by auto
qed

text \<open>The segments of an object, and the objects that can be transferred.\<close>

definition segment_of :: "PackageObjectType \<Rightarrow> u32 \<Rightarrow> u8 list \<Rightarrow> nat \<Rightarrow> PackageObjectSegment" where
  "segment_of ot oid data k =
     \<lparr>seg_object_type = ot, seg_object_identity = oid, seg_total_length = of_nat (length data),
      seg_total_crc32 = crc32_ieee data, segment_index = of_nat k,
      seg_segment_count = of_nat ((length data + 479) div 480), logical_offset = of_nat (480 * k),
      seg_payload = take 480 (drop (480 * k) data)\<rparr>"

definition segments_of :: "PackageObjectType \<Rightarrow> u32 \<Rightarrow> u8 list \<Rightarrow> PackageObjectSegment list" where
  "segments_of ot oid data = map (segment_of ot oid data) [0..<(length data + 479) div 480]"

definition deliverable :: "u32 \<Rightarrow> u8 list \<Rightarrow> bool" where
  "deliverable oid data \<longleftrightarrow> oid \<noteq> 0 \<and> data \<noteq> [] \<and> length data \<le> 4096 \<and> crc32_ieee data \<noteq> 0"

lemma segment_of_canonical:
  assumes "deliverable oid data" "k < (length data + 479) div 480"
  shows "segment_canonical (segment_of ot oid data k)"
proof -
  have l: "0 < length data" "length data \<le> 4096" using assms(1) by (simp_all add: deliverable_def)
  then have k: "k < 9" using assms(2) by linarith
  then have "unat (of_nat (480 * k) :: u16) = 480 * k" by (simp add: unat_of_nat del: of_nat_mult)
  then have "unat (480 * of_nat k :: u16) = 480 * k" by simp
  then show ?thesis using assms l k
    by (simp add: segment_canonical_iff segment_of_def deliverable_def unat_of_nat)
qed

subsection \<open>The receiver's invariant\<close>

definition receive_all :: "BoundedObjectReceiver \<Rightarrow> PackageObjectSegment list \<Rightarrow> BoundedObjectReceiver" where
  "receive_all self segments = foldl (\<lambda>self segment. snd (receive_object self segment)) self segments"

lemma receive_all_simps [simp]:
  "receive_all self [] = self" "receive_all self (s # ss) = receive_all (snd (receive_object self s)) ss"
  "receive_all self (xs @ ys) = receive_all (receive_all self xs) ys"
  by (simp_all add: receive_all_def)

definition receiver_blank :: "BoundedObjectReceiver \<Rightarrow> bool" where
  "receiver_blank self \<longleftrightarrow> rc_object_type self = None \<and> next_segment self = 0 \<and> \<not> rc_complete self"

definition receiver_wf :: "BoundedObjectReceiver \<Rightarrow> bool" where
  "receiver_wf self \<longleftrightarrow> length (rc_bytes self) = 4096
     \<and> (rc_object_type self \<noteq> None \<longrightarrow> 0 < unat (rc_total_length self) \<and> unat (rc_total_length self) \<le> 4096)
     \<and> (rc_complete self \<longrightarrow> rc_object_type self \<noteq> None \<and> next_segment self = rc_segment_count self
          \<and> crc32_ieee (take (unat (rc_total_length self)) (rc_bytes self)) = rc_total_crc32 self)"

lemma reset_fields [simp]:
  "rc_bytes (receiver_reset st) = rc_bytes st" "receiver_blank (receiver_reset st)"
  "rc_object_type (receiver_reset st) = None" "next_segment (receiver_reset st) = 0" "\<not> rc_complete (receiver_reset st)"
  by (simp_all add: receiver_reset_def receiver_blank_def)

lemma reset_wf [simp]: "receiver_wf (receiver_reset st) \<longleftrightarrow> length (rc_bytes st) = 4096"
  by (simp add: receiver_wf_def)

lemma new_receiver_wf [simp]: "receiver_wf new_object_receiver" "receiver_blank new_object_receiver"
  by (simp_all add: receiver_wf_def receiver_blank_def new_object_receiver_def)

text \<open>The state in which a segment's header is compared: renewed by a first segment.\<close>

definition opened :: "BoundedObjectReceiver \<Rightarrow> PackageObjectSegment \<Rightarrow> BoundedObjectReceiver" where
  "opened self segment =
     (if segment_index segment = 0
      then (receiver_reset self)\<lparr>rc_object_type := Some (seg_object_type segment),
             rc_object_identity := seg_object_identity segment, rc_total_length := ucast (seg_total_length segment),
             rc_total_crc32 := seg_total_crc32 segment, rc_segment_count := seg_segment_count segment\<rparr>
      else self)"

definition same_header :: "BoundedObjectReceiver \<Rightarrow> PackageObjectSegment \<Rightarrow> bool" where
  "same_header self segment \<longleftrightarrow> rc_object_type self = Some (seg_object_type segment)
     \<and> rc_object_identity self = seg_object_identity segment
     \<and> (ucast (rc_total_length self) :: u32) = seg_total_length segment
     \<and> rc_total_crc32 self = seg_total_crc32 segment \<and> rc_segment_count self = seg_segment_count segment"

definition stored :: "BoundedObjectReceiver \<Rightarrow> PackageObjectSegment \<Rightarrow> BoundedObjectReceiver" where
  "stored self segment = self\<lparr>
     rc_bytes := copy_from_slice (rc_bytes self) (unat (logical_offset segment)) (seg_payload segment),
     next_segment := (if next_segment self = 0xffff then 0xffff else next_segment self + 1)\<rparr>"

definition checksum_ok :: "BoundedObjectReceiver \<Rightarrow> bool" where
  "checksum_ok self \<longleftrightarrow> crc32_ieee (take (unat (rc_total_length self)) (rc_bytes self)) = rc_total_crc32 self"

lemma receive_object_phases:
  "receive_object self segment =
     (if seg_total_length segment = 0 \<or> of_nat (length (rc_bytes self)) < seg_total_length segment
      then (Inl ObjCapacity, self)
      else if rc_complete (opened self segment) \<or> \<not> same_header (opened self segment) segment
      then (Inl ObjIdentity, receiver_reset (opened self segment))
      else if segment_index segment \<noteq> next_segment (opened self segment)
           \<or> unat (rc_total_length (opened self segment)) < unat (logical_offset segment) + length (seg_payload segment)
      then (Inl ObjSequence, receiver_reset (opened self segment))
      else if next_segment (stored (opened self segment) segment) \<noteq> rc_segment_count (opened self segment)
      then (Inr Receiving, stored (opened self segment) segment)
      else if \<not> checksum_ok (stored (opened self segment) segment)
      then (Inl ObjChecksum, receiver_reset (stored (opened self segment) segment))
      else (Inr Complete, (stored (opened self segment) segment)\<lparr>rc_complete := True\<rparr>))"
  unfolding receive_object_def Let_def opened_def [symmetric]
  by (auto simp: same_header_def stored_def checksum_ok_def)

lemma opened_fields:
  assumes "receiver_wf st" "seg_total_length s \<noteq> 0" "\<not> of_nat (length (rc_bytes st)) < seg_total_length s"
  shows "length (rc_bytes (opened st s)) = 4096" "rc_bytes (opened st s) = rc_bytes st"
    "rc_object_type (opened st s) \<noteq> None \<Longrightarrow> 0 < unat (rc_total_length (opened st s)) \<and> unat (rc_total_length (opened st s)) \<le> 4096"
proof -
  have l: "length (rc_bytes st) = 4096" using assms(1) by (simp add: receiver_wf_def)
  then have t: "0 < unat (seg_total_length s)" "unat (seg_total_length s) \<le> 4096"
    using assms(2,3) by (simp_all add: unat_gt_0 word_less_nat_alt)
  show b: "rc_bytes (opened st s) = rc_bytes st" by (simp add: opened_def)
  then show "length (rc_bytes (opened st s)) = 4096" using l by simp
  have "unat (ucast (seg_total_length s) :: u16) = unat (seg_total_length s)"
    using t(2) by (intro unat_narrowed) simp
  then show "rc_object_type (opened st s) \<noteq> None \<Longrightarrow> 0 < unat (rc_total_length (opened st s)) \<and> unat (rc_total_length (opened st s)) \<le> 4096"
    using t assms(1) by (auto simp: opened_def receiver_wf_def)
qed

lemma receive_wf: "receiver_wf st \<Longrightarrow> receiver_wf (snd (receive_object st s))"
proof -
  assume wf: "receiver_wf st"
  show ?thesis
  proof (cases "seg_total_length s = 0 \<or> of_nat (length (rc_bytes st)) < seg_total_length s")
    case False
    then have d: "seg_total_length s \<noteq> 0" "\<not> of_nat (length (rc_bytes st)) < seg_total_length s" by simp_all
    note o' = opened_fields [OF wf d]
    let ?o = "opened st s"
    show ?thesis
    proof (cases "rc_complete ?o \<or> \<not> same_header ?o s \<or> segment_index s \<noteq> next_segment ?o
        \<or> unat (rc_total_length ?o) < unat (logical_offset s) + length (seg_payload s)")
      case True
      then show ?thesis using False o' by (auto simp: receive_object_phases)
    next
      case ok: False
      then have "rc_object_type ?o \<noteq> None" by (auto simp: same_header_def)
      then have t: "0 < unat (rc_total_length ?o)" "unat (rc_total_length ?o) \<le> 4096" using o'(3) by auto
      have l: "length (rc_bytes (stored ?o s)) = 4096"
        using ok t o'(1) by (simp add: stored_def length_copy_from_slice)
      have f: "rc_object_type (stored ?o s) = rc_object_type ?o" "rc_total_length (stored ?o s) = rc_total_length ?o"
          "rc_complete (stored ?o s) = rc_complete ?o" "rc_segment_count (stored ?o s) = rc_segment_count ?o"
        by (simp_all add: stored_def)
      show ?thesis using ok t l f \<open>rc_object_type ?o \<noteq> None\<close>
        by (auto simp: receive_object_phases wf) (auto simp: receiver_wf_def checksum_ok_def)
    qed
  qed (use wf in \<open>auto simp: receive_object_phases\<close>)
qed

lemma receive_all_wf: "receiver_wf st \<Longrightarrow> receiver_wf (receive_all st ss)"
  by (induction ss arbitrary: st) (simp_all add: receive_wf)

subsection \<open>Assembly\<close>

text \<open>
  The receiver has stored the segments \<^verbatim>\<open>zs\<close> of the current object: they are the first
  ones, carry its header, and their payloads are in place.
\<close>

definition assembled :: "BoundedObjectReceiver \<Rightarrow> PackageObjectSegment list \<Rightarrow> bool" where
  "assembled st zs \<longleftrightarrow> unat (next_segment st) = length zs
     \<and> (\<forall>k < length zs. segment_canonical (zs ! k) \<and> same_header st (zs ! k) \<and> unat (segment_index (zs ! k)) = k
          \<and> take (length (seg_payload (zs ! k))) (drop (480 * k) (rc_bytes st)) = seg_payload (zs ! k))"

lemma same_header_stored [simp]:
  "same_header (stored st s) r = same_header st r" "same_header (st\<lparr>rc_complete := c\<rparr>) r = same_header st r"
  by (simp_all add: same_header_def stored_def)

lemma assembled_complete [simp]: "assembled (st\<lparr>rc_complete := c\<rparr>) zs = assembled st zs"
  by (simp add: assembled_def)

lemma total_of_header:
  "same_header st s \<Longrightarrow> unat (rc_total_length st) = unat (seg_total_length s)"
proof -
  assume "same_header st s"
  then have "seg_total_length s = ucast (rc_total_length st)" by (simp add: same_header_def)
  then show ?thesis by simp
qed

lemma assembled_step:
  assumes "assembled st zs" "length (rc_bytes st) = 4096" "segment_canonical s" "same_header st s" "segment_index s = next_segment st"
  shows "assembled (stored st s) (zs @ [s])"
proof -
  note c = assms(3) [unfolded segment_canonical_iff]
  let ?n = "length zs"
  have n: "unat (segment_index s) = ?n" "unat (logical_offset s) = 480 * ?n" "?n < 10"
    using assms(1,5) c by (auto simp: assembled_def)
  have p: "length (seg_payload s) = min (unat (seg_total_length s) - 480 * ?n) 480" "480 * ?n + length (seg_payload s) \<le> 4096"
    using c n by auto
  have nx: "unat (next_segment (stored st s)) = Suc ?n"
  proof -
    have "unat (next_segment st) = ?n" using assms(1) by (simp add: assembled_def)
    moreover from this have "unat (next_segment st + 1) = unat (next_segment st) + 1"
      using n(3) by (subst unat_add_lem [THEN iffD1]) simp_all
    ultimately show ?thesis using n(3) by (auto simp: stored_def)
  qed
  have "take (length (seg_payload (zs ! k))) (drop (480 * k) (copy_from_slice (rc_bytes st) (480 * ?n) (seg_payload s)))
      = take (length (seg_payload (zs ! k))) (drop (480 * k) (rc_bytes st))" if "k < ?n" for k
  proof -
    have "segment_canonical (zs ! k)" using assms(1) that by (simp add: assembled_def)
    then have "length (seg_payload (zs ! k)) \<le> 480" by (rule canonical_payload)
    then have "480 * k + length (seg_payload (zs ! k)) \<le> 480 * ?n" using that by linarith
    then show ?thesis using p(2) assms(2) by (intro slice_copy_other) auto
  qed
  moreover have "take (length (seg_payload s)) (drop (480 * ?n) (copy_from_slice (rc_bytes st) (480 * ?n) (seg_payload s))) = seg_payload s"
    using p(2) assms(2) by (intro drop_take_copy_from_slice) auto
  ultimately show ?thesis
    using assms(1,3,4) nx n unfolding assembled_def same_header_stored length_append list.size
    by (auto simp: nth_append less_Suc_eq) (simp_all add: stored_def)
qed

lemma slices_equal:
  assumes "length xs = n" "length ys = n" "\<And>k. 480 * k < n \<Longrightarrow> take 480 (drop (480 * k) xs) = take 480 (drop (480 * k) ys)"
  shows "xs = ys"
proof (rule nth_equalityI)
  show "length xs = length ys" using assms(1,2) by simp
  fix j
  assume j: "j < length xs"
  let ?k = "j div 480" and ?r = "j mod 480"
  have e: "480 * ?k + ?r = j" "?r < 480" by simp_all
  have "take 480 (drop (480 * ?k) zs) ! ?r = zs ! j" if "length zs = n" for zs :: "'a list"
  proof -
    have "take 480 (drop (480 * ?k) zs) ! ?r = drop (480 * ?k) zs ! ?r" using e(2) by simp
    also have "\<dots> = zs ! (480 * ?k + ?r)" using that j assms(1) e(1) by (intro nth_drop) simp
    finally show ?thesis unfolding e(1) .
  qed
  moreover have "480 * ?k < n" using e(1) j assms(1) by linarith
  ultimately show "xs ! j = ys ! j" using assms by metis
qed

subsection \<open>What has been delivered\<close>

definition transfer_inv :: "PackageObjectSegment list \<Rightarrow> BoundedObjectReceiver \<Rightarrow> bool" where
  "transfer_inv h st \<longleftrightarrow> receiver_wf st \<and> (receiver_blank st \<or>
     (\<exists>ys zs. h = ys @ zs \<and> zs \<noteq> [] \<and> assembled st zs
        \<and> (if rc_complete st then length zs = unat (rc_segment_count st) else length zs < unat (rc_segment_count st))))"

lemma receive_accepts:
  assumes "receiver_wf st" "segment_canonical s" "assembled (opened st s) zs" "\<not> rc_complete (opened st s)"
    "same_header (opened st s) s" "segment_index s = next_segment (opened st s)"
  shows "assembled (stored (opened st s) s) (zs @ [s])"
    "snd (receive_object st s) = (if Suc (length zs) \<noteq> unat (seg_segment_count s) then stored (opened st s) s
       else if checksum_ok (stored (opened st s) s) then (stored (opened st s) s)\<lparr>rc_complete := True\<rparr>
       else receiver_reset (stored (opened st s) s))"
proof -
  note c = assms(2) [unfolded segment_canonical_iff]
  have l: "length (rc_bytes st) = 4096" using assms(1) by (simp add: receiver_wf_def)
  have cap: "\<not> (seg_total_length s = 0 \<or> of_nat (length (rc_bytes st)) < seg_total_length s)"
    using c l by (auto simp: word_less_nat_alt)
  then have "length (rc_bytes (opened st s)) = 4096" using opened_fields(1) [OF assms(1), of s] by simp
  then show a: "assembled (stored (opened st s) s) (zs @ [s])"
    using assembled_step assms(2-6) by blast
  have "unat (logical_offset s) + length (seg_payload s) \<le> unat (seg_total_length s)" using c by auto
  then have fits: "\<not> unat (rc_total_length (opened st s)) < unat (logical_offset s) + length (seg_payload s)"
    using total_of_header [OF assms(5)] by simp
  have "unat (next_segment (stored (opened st s) s)) = Suc (length zs)" using a by (simp add: assembled_def)
  moreover have "rc_segment_count (opened st s) = seg_segment_count s" using assms(5) by (simp add: same_header_def)
  ultimately have "next_segment (stored (opened st s) s) = rc_segment_count (opened st s) \<longleftrightarrow> Suc (length zs) = unat (seg_segment_count s)"
    by (simp add: word_unat_eq_iff)
  then show "snd (receive_object st s) = (if Suc (length zs) \<noteq> unat (seg_segment_count s) then stored (opened st s) s
       else if checksum_ok (stored (opened st s) s) then (stored (opened st s) s)\<lparr>rc_complete := True\<rparr>
       else receiver_reset (stored (opened st s) s))"
    using cap fits assms(4-6) by (auto simp: receive_object_phases)
qed

lemma receive_rejects:
  assumes "receiver_wf st" "segment_canonical s"
    "\<not> (\<not> rc_complete (opened st s) \<and> same_header (opened st s) s \<and> segment_index s = next_segment (opened st s))"
  shows "receiver_blank (snd (receive_object st s))"
proof -
  have "\<not> (seg_total_length s = 0 \<or> of_nat (length (rc_bytes st)) < seg_total_length s)"
    using assms(1,2) by (auto simp: word_less_nat_alt receiver_wf_def segment_canonical_iff)
  then show ?thesis using assms(3) by (auto simp: receive_object_phases)
qed

lemma stored_keeps [simp]:
  "rc_complete (stored st s) = rc_complete st" "rc_segment_count (stored st s) = rc_segment_count st"
  by (simp_all add: stored_def)

lemma transfer_inv_step:
  assumes "transfer_inv h st" "segment_canonical s"
  shows "transfer_inv (h @ [s]) (snd (receive_object st s))"
proof -
  have wf: "receiver_wf st" "receiver_wf (snd (receive_object st s))"
    using assms(1) receive_wf by (auto simp: transfer_inv_def)
  show ?thesis
  proof (cases "\<not> rc_complete (opened st s) \<and> same_header (opened st s) s \<and> segment_index s = next_segment (opened st s)")
    case True
    have "\<exists>ys zs. h = ys @ zs \<and> assembled (opened st s) zs"
    proof (cases "segment_index s = 0")
      case True
      then have "assembled (opened st s) []" by (simp add: assembled_def opened_def)
      then show ?thesis by (metis append_Nil2)
    next
      case False
      then have "opened st s = st" by (simp add: opened_def)
      then show ?thesis using assms(1) True by (auto simp: transfer_inv_def receiver_blank_def same_header_def)
    qed
    then obtain ys zs where z: "h = ys @ zs" "assembled (opened st s) zs" by blast
    have ok: "\<not> rc_complete (opened st s)" "same_header (opened st s) s" "segment_index s = next_segment (opened st s)"
      using True by simp_all
    note r = receive_accepts [OF wf(1) assms(2) z(2) ok]
    have "unat (segment_index s) = length zs" using z(2) ok(3) by (simp add: assembled_def)
    then have lt: "length zs < unat (seg_segment_count s)" using assms(2) by (simp add: segment_canonical_iff)
    have cnt: "rc_segment_count (opened st s) = seg_segment_count s" using ok(2) by (simp add: same_header_def)
    have "receiver_blank (snd (receive_object st s)) \<or>
      (assembled (snd (receive_object st s)) (zs @ [s]) \<and> (if rc_complete (snd (receive_object st s))
        then length (zs @ [s]) = unat (rc_segment_count (snd (receive_object st s)))
        else length (zs @ [s]) < unat (rc_segment_count (snd (receive_object st s)))))"
      using r lt ok(1) cnt by auto
    moreover have "h @ [s] = ys @ (zs @ [s])" "zs @ [s] \<noteq> []" using z(1) by simp_all
    ultimately show ?thesis using wf(2) unfolding transfer_inv_def by blast
  next
    case False
    then show ?thesis using receive_rejects [OF wf(1) assms(2)] wf(2) by (simp add: transfer_inv_def)
  qed
qed

lemma transfer_inv_all:
  assumes "\<forall>s \<in> set h. segment_canonical s"
  shows "transfer_inv h (receive_all new_object_receiver h)"
  using assms by (induction h rule: rev_induct) (auto simp: transfer_inv_step, simp add: transfer_inv_def)

definition delivered :: "BoundedObjectReceiver \<Rightarrow> (PackageObjectType \<times> u32 \<times> u8 list) option" where
  "delivered st = (if rc_complete st
     then map_option (\<lambda>ot. (ot, rc_object_identity st, take (unat (rc_total_length st)) (rc_bytes st))) (rc_object_type st)
     else None)"

lemma delivered_segments:
  assumes "receiver_wf st" "assembled st zs" "zs \<noteq> []" "length zs = unat (rc_segment_count st)" "delivered st = Some (ot, oid, data)"
  shows "zs = segments_of ot oid data \<and> deliverable oid data"
proof -
  let ?T = "unat (rc_total_length st)"
  have st: "rc_object_type st = Some ot" "oid = rc_object_identity st" "data = take ?T (rc_bytes st)"
      "rc_complete st" "length (rc_bytes st) = 4096" "?T \<le> 4096" "crc32_ieee data = rc_total_crc32 st"
    using assms(1,5) by (auto simp: delivered_def receiver_wf_def split: if_splits)
  have len: "length data = ?T" using st by simp
  have z: "segment_canonical (zs ! k)" "same_header st (zs ! k)" "unat (segment_index (zs ! k)) = k"
      "take (length (seg_payload (zs ! k))) (drop (480 * k) (rc_bytes st)) = seg_payload (zs ! k)" if "k < length zs" for k
    using assms(2) that by (simp_all add: assembled_def)
  have 0: "0 < length zs" using assms(3) by simp
  note c0 = z(1) [OF 0, unfolded segment_canonical_iff] and h0 = z(2) [OF 0]
  have count: "length zs = (length data + 479) div 480"
    using c0 h0 total_of_header [OF h0] assms(4) len by (simp add: same_header_def)
  have "zs ! k = segment_of ot oid data k" if k: "k < length zs" for k
  proof -
    note c = z(1) [OF k, unfolded segment_canonical_iff] and h = z(2) [OF k] and i = z(3) [OF k]
    have T: "unat (seg_total_length (zs ! k)) = length data" using total_of_header [OF h] len by simp
    have "take 480 (drop (480 * k) data) = take (min (length data - 480 * k) 480) (drop (480 * k) (rc_bytes st))"
      using len by (simp add: st(3) drop_take min.commute)
    also have "\<dots> = seg_payload (zs ! k)" using z(4) [OF k] c i T by simp
    finally have p: "seg_payload (zs ! k) = take 480 (drop (480 * k) data)" by simp
    have w: "x = of_nat n" if "unat x = n" for x :: u16 and n using that by auto
    have w': "x = of_nat n" if "unat x = n" for x :: u32 and n using that by auto
    show ?thesis
      unfolding segment_of_def
      using c h i T p st w [OF i] w [of "seg_segment_count (zs ! k)" "(length data + 479) div 480"]
        w [of "logical_offset (zs ! k)" "480 * k"] w' [OF T]
      by (intro PackageObjectSegment.equality) (simp_all add: same_header_def)
  qed
  then have "zs = segments_of ot oid data"
    by (intro nth_equalityI) (simp_all add: segments_of_def count)
  moreover have "deliverable oid data"
    using c0 h0 st total_of_header [OF h0] len by (auto simp: deliverable_def same_header_def)
  ultimately show ?thesis ..
qed

lemma canonical_fits: "segment_canonical s \<Longrightarrow> unat (logical_offset s) + length (seg_payload s) \<le> 4096"
  by (auto simp: segment_canonical_iff)

lemma length_stored:
  "unat (logical_offset s) + length (seg_payload s) \<le> length (rc_bytes st) \<Longrightarrow> length (rc_bytes (stored st s)) = length (rc_bytes st)"
  by (simp add: stored_def length_copy_from_slice)

lemma segments_deliver:
  assumes "deliverable oid data" "receiver_wf st" "0 < k" "k \<le> (length data + 479) div 480"
  shows "assembled (receive_all st (take k (segments_of ot oid data))) (take k (segments_of ot oid data))
    \<and> (rc_complete (receive_all st (take k (segments_of ot oid data))) \<longleftrightarrow> k = (length data + 479) div 480)"
  using assms(3,4)
proof (induction k)
  case (Suc k)
  let ?n = "(length data + 479) div 480" and ?ss = "segments_of ot oid data"
  let ?st = "receive_all st (take k ?ss)" and ?s = "segment_of ot oid data k"
  have wf: "receiver_wf ?st" using assms(2) by (rule receive_all_wf)
  have len: "length ?ss = ?n" "length data \<le> 4096" "0 < length data" using assms(1) by (simp_all add: segments_of_def deliverable_def)
  have at: "?ss ! j = segment_of ot oid data j" if "j < ?n" for j using that by (simp add: segments_of_def)
  have k: "k < ?n" "k < 9" using Suc.prems len(2) by linarith+
  have can: "segment_canonical ?s" using segment_of_canonical [OF assms(1) k(1)] .
  have ssk: "take (Suc k) ?ss = take k ?ss @ [?s]" using k(1) len(1) at by (simp add: take_Suc_conv_app_nth)
  have idx: "segment_index ?s = of_nat k" "unat (segment_index ?s) = k" using k(2) by (simp_all add: segment_of_def unat_of_nat)
  have "assembled (opened ?st ?s) (take k ?ss) \<and> \<not> rc_complete (opened ?st ?s) \<and> same_header (opened ?st ?s) ?s"
  proof (cases k)
    case 0
    have u: "unat (of_nat (length data) :: u16) = length data" "unat (of_nat (length data) :: u32) = length data"
      using len(2) by (simp_all add: unat_of_nat)
    have n: "unat (ucast (of_nat (length data) :: u32) :: u16) = unat (of_nat (length data) :: u32)"
      using u len(2) by (intro unat_narrowed) simp
    have "(ucast (ucast (of_nat (length data) :: u32) :: u16) :: u32) = of_nat (length data)"
      by (simp only: word_unat_eq_iff unat_widened n)
    then show ?thesis using 0 idx by (simp add: opened_def assembled_def same_header_def segment_of_def)
  next
    case (Suc j)
    have "segment_index ?s \<noteq> 0" using idx(2) Suc by auto
    then have o': "opened ?st ?s = ?st" by (simp add: opened_def)
    have ih: "assembled ?st (take k ?ss)" "\<not> rc_complete ?st" using Suc.IH Suc k(1) by auto
    then have "same_header ?st (take k ?ss ! 0)" using Suc k(1) len(1) by (simp add: assembled_def)
    then have "same_header ?st (segment_of ot oid data 0)" using Suc k(1) at by simp
    then have "same_header ?st ?s" by (simp add: same_header_def segment_of_def)
    then show ?thesis using o' ih by simp
  qed
  then have ok: "assembled (opened ?st ?s) (take k ?ss)" "\<not> rc_complete (opened ?st ?s)" "same_header (opened ?st ?s) ?s" by simp_all
  have lk: "length (take k ?ss) = k" using len(1) k(1) by simp
  then have "unat (next_segment (opened ?st ?s)) = k" using ok(1) by (simp add: assembled_def)
  then have nx: "segment_index ?s = next_segment (opened ?st ?s)" using idx(2) by (simp add: word_unat_eq_iff)
  note r = receive_accepts [OF wf can ok nx]
  have cnt: "unat (seg_segment_count ?s) = ?n" using can len by (simp add: segment_canonical_iff segment_of_def unat_of_nat)
  have "checksum_ok (stored (opened ?st ?s) ?s)" if "Suc k = ?n"
  proof -
    let ?o = "stored (opened ?st ?s) ?s"
    have h: "same_header ?o ?s" using ok(3) by simp
    have T: "unat (rc_total_length ?o) = length data"
      using total_of_header [OF h] len(2) by (simp add: segment_of_def unat_of_nat)
    have "length (rc_bytes (opened ?st ?s)) = 4096"
      using wf by (simp add: receiver_wf_def opened_def)
    then have lb: "length (rc_bytes ?o) = 4096"
      using canonical_fits [OF can] by (simp only: length_stored)
    have "take (length data) (rc_bytes ?o) = data"
    proof (rule slices_equal)
      show "length (take (length data) (rc_bytes ?o)) = length data" using lb len(2) by simp
      fix j
      assume j: "480 * j < length data"
      then have jn: "j < length (take k ?ss @ [?s])" using that lk by simp
      have e: "(take k ?ss @ [?s]) ! j = segment_of ot oid data j"
        using jn lk at k(1) by (auto simp: nth_append less_Suc_eq)
      have "take (length (seg_payload (segment_of ot oid data j))) (drop (480 * j) (rc_bytes ?o)) = seg_payload (segment_of ot oid data j)"
        using r(1) jn e unfolding assembled_def by metis
      then show "take 480 (drop (480 * j) (take (length data) (rc_bytes ?o))) = take 480 (drop (480 * j) data)"
        by (simp add: segment_of_def drop_take min.commute)
    qed simp
    then show ?thesis using h T by (simp add: checksum_ok_def same_header_def segment_of_def)
  qed
  moreover have "rc_complete (stored (opened ?st ?s) ?s) = False" using ok(2) by simp
  ultimately show ?case using r cnt lk unfolding ssk by (auto split: if_splits)
qed simp


subsection \<open>The contract of the transfer\<close>

definition decoded :: "u8 list list \<Rightarrow> PackageObjectSegment list" where
  "decoded bufs = concat (map (\<lambda>b. case parse_kpx11 b of Inr s \<Rightarrow> [s] | Inl e \<Rightarrow> []) bufs)"

definition encoded :: "PackageObjectSegment list \<Rightarrow> u8 list list" where
  "encoded segments = map (\<lambda>s. snd (write_kpx11 s (replicate KPX11_LENGTH 0))) segments"

lemma decoded_canonical: "\<forall>s \<in> set (decoded bufs). segment_canonical s"
  using kpx11.parse_accepted by (auto simp: decoded_def split: sum.splits)

lemma decoded_encoded: "\<forall>s \<in> set segments. segment_canonical s \<Longrightarrow> decoded (encoded segments) = segments"
proof (induction segments)
  case (Cons s segments)
  then obtain b where "write_kpx11 s (replicate 512 0) = (Inr (), b)" "parse_kpx11 b = Inr s"
    using kpx11.write_parse [of "replicate 512 0" s] by auto
  then show ?case using Cons by (simp add: decoded_def encoded_def KPX11_LENGTH_def)
qed (simp add: decoded_def encoded_def)

lemma segments_of_canonical: "deliverable oid data \<Longrightarrow> \<forall>s \<in> set (segments_of ot oid data). segment_canonical s"
  using segment_of_canonical by (auto simp: segments_of_def)

lemma complete_delivers:
  assumes "deliverable oid data" "receiver_wf st"
  shows "delivered (receive_all st (segments_of ot oid data)) = Some (ot, oid, data)"
proof -
  let ?n = "(length data + 479) div 480" and ?ss = "segments_of ot oid data"
  let ?st = "receive_all st ?ss"
  have d: "0 < length data" "length data \<le> 4096" using assms(1) by (simp_all add: deliverable_def)
  then have n: "0 < ?n" "?n \<le> 9" by linarith+
  have l: "length ?ss = ?n" by (simp add: segments_of_def)
  then have a: "assembled ?st ?ss" "rc_complete ?st" using segments_deliver [OF assms n(1), where ot = ot] by simp_all
  have wf: "receiver_wf ?st" using assms(2) by (rule receive_all_wf)
  have s0: "?ss ! 0 = segment_of ot oid data 0" using n(1) by (simp add: segments_of_def)
  then have h: "same_header ?st (segment_of ot oid data 0)" using a(1) n(1) l by (auto simp: assembled_def)
  obtain ot' oid' data' where e: "delivered ?st = Some (ot', oid', data')"
    using a(2) wf by (auto simp: delivered_def receiver_wf_def)
  have "length ?ss = unat (rc_segment_count ?st)" using h l n(2) by (simp add: same_header_def segment_of_def unat_of_nat)
  then have "?ss = segments_of ot' oid' data'"
    using delivered_segments [OF wf a(1) _ _ e] l n(1) by (metis list.size(3) not_less_zero)
  moreover have len: "length data' = length data"
    using e total_of_header [OF h] d wf by (auto simp: delivered_def segment_of_def unat_of_nat receiver_wf_def split: if_splits)
  ultimately have "segment_of ot oid data k = segment_of ot' oid' data' k" if "480 * k < length data" for k
    using that by (simp add: segments_of_def)
  then have "seg_payload (segment_of ot oid data k) = seg_payload (segment_of ot' oid' data' k)" if "480 * k < length data" for k
    using that by metis
  then have p: "take 480 (drop (480 * k) data') = take 480 (drop (480 * k) data)" if "480 * k < length data" for k
    using that unfolding segment_of_def PackageObjectSegment.simps by metis
  have "data' = data" by (rule slices_equal [OF len refl p])
  then show ?thesis using e h by (auto simp: delivered_def same_header_def segment_of_def split: if_splits)
qed

lemma object_transfer_facts:
  "delivered (receive_all new_object_receiver (decoded bufs)) = Some (ot, oid, data)
   \<longleftrightarrow> deliverable oid data \<and> (\<exists>ys. decoded bufs = ys @ segments_of ot oid data)"
proof
  let ?st = "receive_all new_object_receiver (decoded bufs)"
  assume d: "delivered ?st = Some (ot, oid, data)"
  then have c: "rc_complete ?st" by (simp add: delivered_def split: if_splits)
  then obtain ys zs where z: "decoded bufs = ys @ zs" "zs \<noteq> []" "assembled ?st zs" "length zs = unat (rc_segment_count ?st)"
    using transfer_inv_all [OF decoded_canonical, of bufs] by (auto simp: transfer_inv_def receiver_blank_def)
  then show "deliverable oid data \<and> (\<exists>ys. decoded bufs = ys @ segments_of ot oid data)"
    using delivered_segments [OF receive_all_wf [OF new_receiver_wf(1)] z(3,2,4) d] by blast
next
  assume "deliverable oid data \<and> (\<exists>ys. decoded bufs = ys @ segments_of ot oid data)"
  then show "delivered (receive_all new_object_receiver (decoded bufs)) = Some (ot, oid, data)"
    using complete_delivers receive_all_wf [OF new_receiver_wf(1)] by auto
qed

text \<open>
  C23: the object receiver delivers exactly what was sent.  After any sequence of buffers it
  holds a complete object if and only if the segments decoded from them end with the
  complete segmentation of that object, in order and without interruption; the object then
  has the identity, the bytes and the checksum that were announced.
\<close>
theorem object_transfer_exact:
  "delivered (receive_all new_object_receiver (decoded bufs)) = Some (ot, oid, data)
   \<longleftrightarrow> deliverable oid data \<and> (\<exists>ys. decoded bufs = ys @ segments_of ot oid data)"
  by (rule object_transfer_facts)

text \<open>
  Every object the protocol can carry is delivered.  Whatever buffers came before,
  the encoded segments of the object, received in order, complete it.
\<close>
theorem object_transfer_delivers:
  assumes "deliverable oid data"
  shows "length (encoded (segments_of ot oid data)) = (length data + 479) div 480
    \<and> (\<forall>b \<in> set (encoded (segments_of ot oid data)). length b = 512)
    \<and> delivered (receive_all new_object_receiver (decoded (noise @ encoded (segments_of ot oid data)))) = Some (ot, oid, data)"
proof -
  let ?ss = "segments_of ot oid data"
  have "length (snd (write_kpx11 s (replicate 512 0))) = 512" if "segment_canonical s" for s
    using kpx11.write_parse [of "replicate 512 0" s] that by auto
  then have "\<forall>b \<in> set (encoded ?ss). length b = 512"
    using segments_of_canonical [OF assms] by (auto simp: encoded_def KPX11_LENGTH_def)
  moreover have "decoded (noise @ encoded ?ss) = decoded noise @ ?ss"
    using decoded_encoded [OF segments_of_canonical [OF assms]] by (simp add: decoded_def)
  ultimately show ?thesis
    using complete_delivers [OF assms receive_all_wf [OF new_receiver_wf(1)]] by (simp add: encoded_def segments_of_def)
qed

lemma crc32_one_byte: "crc32_ieee [1] = 0xa505df1b"
proof -
  have "(f ^^ 8) x = f (f (f (f (f (f (f (f x)))))))" for f :: "u32 \<Rightarrow> u32" and x by (simp add: eval_nat_numeral)
  then show ?thesis unfolding crc32_ieee_def foldl.simps crc32_byte_def by (simp add: crc32_bit_def)
qed

theorem object_transfer_delivers_witness:
  "delivered (receive_all new_object_receiver (decoded ([1, 2, 3] # encoded (segments_of MissionPlanObject 7 [1]))))
     = Some (MissionPlanObject, 7, [1])"
proof -
  have "deliverable 7 [1]" by (simp add: deliverable_def crc32_one_byte)
  from object_transfer_delivers [OF this, of MissionPlanObject "[[1, 2, 3]]"] show ?thesis by simp
qed

text \<open>
  The state of the receiver is well formed after any sequence of segments, canonical or
  not: its buffer keeps its size, an open object has a length the buffer holds, a complete
  object matches its announced checksum; and every error other than a refused length
  leaves the receiver empty.
\<close>
theorem object_receiver_typed:
  "receiver_wf (receive_all new_object_receiver segments)
   \<and> (case receive_object (receive_all new_object_receiver segments) s of
        (Inl ObjCapacity, st) \<Rightarrow> st = receive_all new_object_receiver segments
      | (Inl e, st) \<Rightarrow> receiver_blank st
      | (Inr state, st) \<Rightarrow> rc_complete st = (state = Complete))"
proof -
  have c: "case (if a then (Inl ObjCapacity, st) else if b then (Inl ObjIdentity, receiver_reset u)
       else if c then (Inl ObjSequence, receiver_reset u) else if d then (Inr Receiving, v)
       else if e then (Inl ObjChecksum, receiver_reset v) else (Inr Complete, v\<lparr>rc_complete := True\<rparr>)) of
     (Inl ObjCapacity, w) \<Rightarrow> w = st | (Inl e, w) \<Rightarrow> receiver_blank w
     | (Inr state, w) \<Rightarrow> rc_complete w = (state = Complete)"
    if "\<not> b \<longrightarrow> \<not> rc_complete v" for a b c d e :: bool and st u v :: BoundedObjectReceiver
    using that by (cases a; cases b; cases c; cases d; cases e; simp)
  show ?thesis
  proof
    show "receiver_wf (receive_all new_object_receiver segments)" by (rule receive_all_wf [OF new_receiver_wf(1)])
    show "case receive_object (receive_all new_object_receiver segments) s of
        (Inl ObjCapacity, st) \<Rightarrow> st = receive_all new_object_receiver segments
      | (Inl e, st) \<Rightarrow> receiver_blank st
      | (Inr state, st) \<Rightarrow> rc_complete st = (state = Complete)"
      unfolding receive_object_phases by (rule c) simp
  qed
qed

end
