(* ===== verification/Plan_Codec.thy ===== *)
theory Plan_Codec
  imports Operations_Codec
begin

text \<open>
  The mission plan record KMP11 (\<^verbatim>\<open>interface/src/phase11.rs\<close>): 2048 bytes with a header and
  three tables of up to 24 events, 8 branches and 8 decisions, each table a run of blocks of
  one size followed by zeroes.  The tables are stores repeated at a stride; whether a table is
  read back, and what it leaves uncovered, is decided block by block.
\<close>

unbundle bit_operations_syntax

definition KMP11_LENGTH :: nat where "KMP11_LENGTH = 2048"
definition KMP11_MAGIC :: "u8 list" where "KMP11_MAGIC = ascii ''KMP1''"
definition KMP11_VERSION :: u16 where "KMP11_VERSION = 11"
definition KMP11_EVENT_OFFSET :: nat where "KMP11_EVENT_OFFSET = 128"
definition KMP11_EVENT_LENGTH :: nat where "KMP11_EVENT_LENGTH = 48"
definition KMP11_BRANCH_OFFSET :: nat where "KMP11_BRANCH_OFFSET = 1280"
definition KMP11_BRANCH_LENGTH :: nat where "KMP11_BRANCH_LENGTH = 32"
definition KMP11_DECISION_OFFSET :: nat where "KMP11_DECISION_OFFSET = 1536"
definition KMP11_DECISION_LENGTH :: nat where "KMP11_DECISION_LENGTH = 24"

lemmas kmp11_constants = KMP11_LENGTH_def KMP11_VERSION_def KMP11_EVENT_OFFSET_def KMP11_EVENT_LENGTH_def
  KMP11_BRANCH_OFFSET_def KMP11_BRANCH_LENGTH_def KMP11_DECISION_OFFSET_def KMP11_DECISION_LENGTH_def
  KMP11_MAX_EVENTS_def KMP11_MAX_BRANCHES_def KMP11_MAX_DECISIONS_def

subsection \<open>Validation\<close>

text \<open>A loop over indices that returns at the first error.\<close>

fun check_each :: "nat list \<Rightarrow> (nat \<Rightarrow> CodecError + unit) \<Rightarrow> CodecError + unit" where
  "check_each [] body = Inr ()"
| "check_each (i # is) body = and_then (body i) (\<lambda>u. check_each is body)"

definition validate_plan_event :: "MissionPlan \<Rightarrow> nat \<Rightarrow> CodecError + unit" where
  "validate_plan_event plan index =
     (let event = plan_events plan ! index
      in if unat (event_count plan) \<le> index then (if event \<noteq> EMPTY_EVENT then Inl Reserved else Inr ())
      else if event_id event = 0 \<or> ev_flags event \<noteq> 0 \<or> ev_latest_epoch event < ev_earliest_epoch event
           \<or> ev_required_capabilities event AND NOT PACKAGE_CAP_MASK \<noteq> 0 \<or> 5 < guard_comparison event
           \<or> ev_trigger event = ExactRelease
             \<and> (exact_epoch event < ev_earliest_epoch event \<or> ev_latest_epoch event < exact_epoch event)
      then Inl Flags
      else check_each [0..<index] (\<lambda>prior.
        if event_id (plan_events plan ! prior) = event_id event then Inl Sequence else Inr ()))"

definition validate_plan_branch :: "MissionPlan \<Rightarrow> nat \<Rightarrow> CodecError + unit" where
  "validate_plan_branch plan index =
     (let branch = branches plan ! index
      in if unat (branch_count plan) \<le> index then (if branch \<noteq> EMPTY_BRANCH then Inl Reserved else Inr ())
      else if branch_id branch = 0 \<or> first_event_id branch = 0 \<or> br_flags branch \<noteq> 0
           \<or> br_latest_epoch branch < br_earliest_epoch branch
           \<or> br_required_capabilities branch AND NOT PACKAGE_CAP_MASK \<noteq> 0
      then Inl Flags
      else check_each [0..<index] (\<lambda>prior.
        if branch_id (branches plan ! prior) = branch_id branch then Inl Sequence else Inr ()))"

definition validate_plan_decision :: "MissionPlan \<Rightarrow> nat \<Rightarrow> CodecError + unit" where
  "validate_plan_decision plan index =
     (let decision = decisions plan ! index
      in if unat (decision_count plan) \<le> index then (if decision \<noteq> EMPTY_DECISION then Inl Reserved else Inr ())
      else if decision_id decision = 0 \<or> dp_flags decision \<noteq> 0 \<or> dp_latest_epoch decision < dp_earliest_epoch decision
      then Inl Flags
      else check_each [0..<index] (\<lambda>prior.
        if decision_id (decisions plan ! prior) = decision_id decision then Inl Sequence else Inr ()))"

definition validate_plan :: "MissionPlan \<Rightarrow> CodecError + unit" where
  "validate_plan plan =
     (if plan_identity plan = 0 \<or> package_manifest_identity plan = 0 \<or> mp_vehicle_profile_identity plan = 0
         \<or> mission_identity plan = 0 \<or> earth_identity plan = 0 \<or> environment_identity plan = 0
         \<or> onboard_prediction_model plan = 0 \<or> ground_prediction_model plan = 0
         \<or> mp_required_capabilities plan AND NOT PACKAGE_CAP_MASK \<noteq> 0
         \<or> KMP11_MAX_EVENTS < unat (event_count plan) \<or> KMP11_MAX_BRANCHES < unat (branch_count plan)
         \<or> KMP11_MAX_DECISIONS < unat (decision_count plan)
      then Inl Flags
      else
        and_then (check_each [0..<KMP11_MAX_EVENTS] (validate_plan_event plan)) (\<lambda>u.
        and_then (check_each [0..<KMP11_MAX_BRANCHES] (validate_plan_branch plan)) (\<lambda>u.
        check_each [0..<KMP11_MAX_DECISIONS] (validate_plan_decision plan))))"

subsection \<open>Writing\<close>

definition event_fields :: "nat \<Rightarrow> MissionPlanEvent \<Rightarrow> store list" where
  "event_fields offset v =
     [p16 offset (event_id v), p8 (offset + 2) (event_kind_tag (ev_kind v)),
      p8 (offset + 3) (event_trigger_tag (ev_trigger v)), p16 (offset + 4) (ev_flags v),
      p8 (offset + 6) (failure_policy_tag (failure_policy v)), p32 (offset + 8) (ev_earliest_epoch v),
      p32 (offset + 12) (ev_latest_epoch v), p32 (offset + 16) (exact_epoch v),
      p32 (offset + 20) (ev_prerequisite_events v), p32 (offset + 24) (ev_required_capabilities v)]
     @ each 4 (\<lambda>argument. [p32 (offset + 28 + argument * 4) (ev_arguments v ! argument)])
     @ [p16 (offset + 44) (guard_metric v), p8 (offset + 46) (guard_comparison v)]"

definition branch_fields :: "nat \<Rightarrow> ContingencyBranch \<Rightarrow> store list" where
  "branch_fields offset v =
     [p8 offset (branch_id v), p8 (offset + 1) (source_decision_id v), p16 (offset + 2) (first_event_id v),
      p16 (offset + 4) (br_flags v), p32 (offset + 8) (br_earliest_epoch v), p32 (offset + 12) (br_latest_epoch v),
      p32 (offset + 16) (br_prerequisite_events v), p32 (offset + 20) (br_required_capabilities v),
      p32 (offset + 24) (fst (br_arguments v)), p32 (offset + 28) (snd (br_arguments v))]"

definition decision_fields :: "nat \<Rightarrow> OperatorDecisionPoint \<Rightarrow> store list" where
  "decision_fields offset v =
     [p8 offset (decision_id v), p8 (offset + 1) (default_branch_id v), p16 (offset + 2) (dp_flags v),
      p32 (offset + 4) (dp_earliest_epoch v), p32 (offset + 8) (dp_latest_epoch v),
      p32 (offset + 12) (required_event_mask v), p8 (offset + 16) (timeout_branch_id v)]"

definition plan_header_fields :: "MissionPlan \<Rightarrow> store list" where
  "plan_header_fields v =
     [(0, KMP11_MAGIC), p16 4 KMP11_VERSION, p16 6 (of_nat KMP11_LENGTH), p32 8 (plan_identity v),
      p32 12 (package_manifest_identity v), p32 16 (package_tag (mp_package v)), p32 20 (abi_tag (mp_abi v)),
      p32 24 (mp_vehicle_profile_identity v), p32 28 (mission_identity v), p32 32 (earth_identity v),
      p32 36 (environment_identity v), p32 40 (onboard_prediction_model v), p32 44 (ground_prediction_model v),
      p32 48 (mp_required_capabilities v), p8 52 (event_count v), p8 53 (branch_count v), p8 54 (decision_count v)]"

definition plan_fields :: "MissionPlan \<Rightarrow> store list" where
  "plan_fields v = plan_header_fields v
     @ each (unat (event_count v)) (\<lambda>index. event_fields (KMP11_EVENT_OFFSET + index * KMP11_EVENT_LENGTH) (plan_events v ! index))
     @ each (unat (branch_count v)) (\<lambda>index. branch_fields (KMP11_BRANCH_OFFSET + index * KMP11_BRANCH_LENGTH) (branches v ! index))
     @ each (unat (decision_count v)) (\<lambda>index. decision_fields (KMP11_DECISION_OFFSET + index * KMP11_DECISION_LENGTH) (decisions v ! index))"

definition write_kmp11 :: "MissionPlan \<Rightarrow> u8 list \<Rightarrow> (CodecError + unit) \<times> u8 list" where
  "write_kmp11 v out =
     (if length out \<noteq> KMP11_LENGTH then (Inl Length, out)
      else case validate_plan v of Inl e \<Rightarrow> (Inl e, out)
      | Inr u \<Rightarrow> (Inr (), seal32 (put_fields (fill0 out) (plan_fields v))))"

subsection \<open>Parsing\<close>

text \<open>A loop that fills the elements of an array, returning at the first error.\<close>

fun collect :: "nat list \<Rightarrow> (nat \<Rightarrow> CodecError + 'a) \<Rightarrow> CodecError + 'a list" where
  "collect [] body = Inr []"
| "collect (i # is) body = and_then (body i) (\<lambda>x. and_then (collect is body) (\<lambda>xs. Inr (x # xs)))"

definition parse_plan_event :: "u8 list \<Rightarrow> nat \<Rightarrow> CodecError + MissionPlanEvent" where
  "parse_plan_event b index =
     (let offset = KMP11_EVENT_OFFSET + index * KMP11_EVENT_LENGTH
      in if b ! (offset + 7) \<noteq> 0 \<or> b ! (offset + 47) \<noteq> 0 then Inl Reserved
      else
        and_then (parse_event_kind (b ! (offset + 2))) (\<lambda>knd.
        and_then (parse_event_trigger (b ! (offset + 3))) (\<lambda>trig.
        and_then (parse_failure_policy (b ! (offset + 6))) (\<lambda>policy.
        Inr \<lparr>event_id = read_u16 b offset, ev_kind = knd, ev_trigger = trig, ev_flags = read_u16 b (offset + 4),
             failure_policy = policy, ev_earliest_epoch = read_u32 b (offset + 8),
             ev_latest_epoch = read_u32 b (offset + 12), exact_epoch = read_u32 b (offset + 16),
             ev_prerequisite_events = read_u32 b (offset + 20), ev_required_capabilities = read_u32 b (offset + 24),
             ev_arguments = map (\<lambda>argument. read_i32 b (offset + 28 + argument * 4)) [0..<4],
             guard_metric = read_u16 b (offset + 44), guard_comparison = b ! (offset + 46)\<rparr>))))"

definition parse_plan_branch :: "u8 list \<Rightarrow> nat \<Rightarrow> CodecError + ContingencyBranch" where
  "parse_plan_branch b index =
     (let offset = KMP11_BRANCH_OFFSET + index * KMP11_BRANCH_LENGTH
      in if b ! (offset + 6) \<noteq> 0 \<or> b ! (offset + 7) \<noteq> 0 then Inl Reserved
      else Inr \<lparr>branch_id = b ! offset, source_decision_id = b ! (offset + 1),
             first_event_id = read_u16 b (offset + 2), br_flags = read_u16 b (offset + 4),
             br_earliest_epoch = read_u32 b (offset + 8), br_latest_epoch = read_u32 b (offset + 12),
             br_prerequisite_events = read_u32 b (offset + 16), br_required_capabilities = read_u32 b (offset + 20),
             br_arguments = (read_i32 b (offset + 24), read_i32 b (offset + 28))\<rparr>)"

definition parse_plan_decision :: "u8 list \<Rightarrow> nat \<Rightarrow> CodecError + OperatorDecisionPoint" where
  "parse_plan_decision b index =
     (let offset = KMP11_DECISION_OFFSET + index * KMP11_DECISION_LENGTH
      in if any_nonzero b (offset + 17) (offset + KMP11_DECISION_LENGTH) then Inl Reserved
      else Inr \<lparr>decision_id = b ! offset, default_branch_id = b ! (offset + 1), dp_flags = read_u16 b (offset + 2),
             dp_earliest_epoch = read_u32 b (offset + 4), dp_latest_epoch = read_u32 b (offset + 8),
             required_event_mask = read_u32 b (offset + 12), timeout_branch_id = b ! (offset + 16)\<rparr>)"

definition parse_kmp11 :: "u8 list \<Rightarrow> CodecError + MissionPlan" where
  "parse_kmp11 b =
     (if length b \<noteq> KMP11_LENGTH then Inl Length
      else if take 4 b \<noteq> KMP11_MAGIC \<or> read_u16 b 4 \<noteq> KMP11_VERSION \<or> unat (read_u16 b 6) \<noteq> KMP11_LENGTH then Inl Enum
      else if crc32_ieee (take (KMP11_LENGTH - 4) b) \<noteq> read_u32 b (KMP11_LENGTH - 4) then Inl Checksum
      else if any_nonzero b 55 128 \<or> any_nonzero b 1728 (KMP11_LENGTH - 4) then Inl Reserved
      else
      let ec = b ! 52; bc = b ! 53; dc = b ! 54
      in if KMP11_MAX_EVENTS < unat ec \<or> KMP11_MAX_BRANCHES < unat bc \<or> KMP11_MAX_DECISIONS < unat dc then Inl Flags
      else
      and_then (collect [0..<unat ec] (parse_plan_event b)) (\<lambda>es.
      if any_nonzero b (KMP11_EVENT_OFFSET + unat ec * KMP11_EVENT_LENGTH) KMP11_BRANCH_OFFSET then Inl Reserved
      else
      and_then (collect [0..<unat bc] (parse_plan_branch b)) (\<lambda>bs.
      if any_nonzero b (KMP11_BRANCH_OFFSET + unat bc * KMP11_BRANCH_LENGTH) KMP11_DECISION_OFFSET then Inl Reserved
      else
      and_then (collect [0..<unat dc] (parse_plan_decision b)) (\<lambda>ds.
      if any_nonzero b (KMP11_DECISION_OFFSET + unat dc * KMP11_DECISION_LENGTH) 1728 then Inl Reserved
      else
      and_then (parse_package (read_u32 b 16)) (\<lambda>package.
      and_then (parse_abi (read_u32 b 20)) (\<lambda>abi.
      let plan = \<lparr>plan_identity = read_u32 b 8, package_manifest_identity = read_u32 b 12, mp_package = package,
             mp_abi = abi, mp_vehicle_profile_identity = read_u32 b 24, mission_identity = read_u32 b 28,
             earth_identity = read_u32 b 32, environment_identity = read_u32 b 36,
             onboard_prediction_model = read_u32 b 40, ground_prediction_model = read_u32 b 44,
             mp_required_capabilities = read_u32 b 48, event_count = ec, branch_count = bc, decision_count = dc,
             plan_events = es @ replicate (KMP11_MAX_EVENTS - unat ec) EMPTY_EVENT,
             branches = bs @ replicate (KMP11_MAX_BRANCHES - unat bc) EMPTY_BRANCH,
             decisions = ds @ replicate (KMP11_MAX_DECISIONS - unat dc) EMPTY_DECISION\<rparr>
      in and_then (validate_plan plan) (\<lambda>u. Inr plan)))))))"

subsection \<open>Stores within an interval\<close>

definition spans :: "nat \<Rightarrow> nat \<Rightarrow> store list \<Rightarrow> bool" where
  "spans lo hi ws \<longleftrightarrow> (\<forall>(i, bs) \<in> set ws. lo \<le> i \<and> i + length bs \<le> hi)"

definition missed :: "store list \<Rightarrow> nat \<Rightarrow> bool" where
  "missed ws j \<longleftrightarrow> (\<forall>(i, bs) \<in> set ws. j < i \<or> i + length bs \<le> j)"

definition clear :: "u8 list \<Rightarrow> nat \<Rightarrow> nat \<Rightarrow> store list \<Rightarrow> bool" where
  "clear b lo hi ws \<longleftrightarrow> (\<forall>j. lo \<le> j \<and> j < hi \<and> missed ws j \<longrightarrow> b ! j = 0)"

lemma missed_append: "missed (xs @ ys) j \<longleftrightarrow> missed xs j \<and> missed ys j"
  by (simp add: missed_def ball_Un)

lemma spans_simps [simp]:
  "spans lo hi []" "spans lo hi ((i, bs) # ws) \<longleftrightarrow> lo \<le> i \<and> i + length bs \<le> hi \<and> spans lo hi ws"
  "spans lo hi (xs @ ys) \<longleftrightarrow> spans lo hi xs \<and> spans lo hi ys"
  by (auto simp: spans_def)

lemma spans_stores [simp]:
  "spans lo hi (p8 i x # ws) \<longleftrightarrow> lo \<le> i \<and> i + 1 \<le> hi \<and> spans lo hi ws"
  "spans lo hi (p16 i v # ws) \<longleftrightarrow> lo \<le> i \<and> i + 2 \<le> hi \<and> spans lo hi ws"
  "spans lo hi (p32 i w # ws) \<longleftrightarrow> lo \<le> i \<and> i + 4 \<le> hi \<and> spans lo hi ws"
  by (simp_all add: p8_def p16_def p32_def)

lemma spans_mono: "spans lo hi ws \<Longrightarrow> lo' \<le> lo \<Longrightarrow> hi \<le> hi' \<Longrightarrow> spans lo' hi' ws"
  by (fastforce simp: spans_def)

lemma fits_spans: "fits n ws \<longleftrightarrow> spans 0 n ws"
  by (induction ws rule: list.induct) auto

lemma avoids_iff: "avoids i k ws \<longleftrightarrow> (\<forall>(j, bs) \<in> set ws. i + k \<le> j \<or> j + length bs \<le> i)"
  by (induction ws rule: list.induct) auto

lemma apart_append:
  assumes "apart xs" "apart ys" "spans lo m xs" "spans m hi ys"
  shows "apart (xs @ ys)"
  using assms(1,3)
proof (induction xs rule: list.induct)
  case (Cons x xs)
  obtain i bs where x: "x = (i, bs)" by fastforce
  have "avoids i (length bs) ys" using Cons.prems(2) assms(4) x by (fastforce simp: avoids_iff spans_def)
  then have "avoids i (length bs) (xs @ ys)" using Cons.prems(1) x by (auto simp: avoids_iff)
  then show ?case using Cons x by simp
qed (use assms(2) in simp)

lemma blank_clear: "blank b n ws \<longleftrightarrow> clear b 0 n ws"
  by (auto simp: blank_def clear_def missed_def)

lemma clear_append:
  assumes "spans lo m xs" "spans m hi ys" "lo \<le> m" "m \<le> hi"
  shows "clear b lo hi (xs @ ys) \<longleftrightarrow> clear b lo m xs \<and> clear b m hi ys"
proof -
  have ys: "missed ys j" if "j < m" for j
    using assms(2) that by (fastforce simp: spans_def missed_def)
  have xs: "missed xs j" if "m \<le> j" for j
    using assms(1) that by (fastforce simp: spans_def missed_def)
  show ?thesis
  proof
    assume c: "clear b lo hi (xs @ ys)"
    have "b ! j = 0" if "lo \<le> j" "j < m" "missed xs j" for j
      using c that ys assms(4) by (simp add: clear_def missed_append)
    moreover have "b ! j = 0" if "m \<le> j" "j < hi" "missed ys j" for j
      using c that xs assms(3) by (simp add: clear_def missed_append)
    ultimately show "clear b lo m xs \<and> clear b m hi ys" by (simp add: clear_def)
  next
    assume c: "clear b lo m xs \<and> clear b m hi ys"
    have "b ! j = 0" if "lo \<le> j" "j < hi" "missed xs j" "missed ys j" for j
      using c that by (cases "j < m") (simp_all add: clear_def)
    then show "clear b lo hi (xs @ ys)" by (simp add: clear_def missed_append)
  qed
qed

lemma clear_uncovered:
  assumes "hi \<le> length b"
  shows "clear b lo hi ws \<longleftrightarrow> (\<forall>(l, h) \<in> set (uncovered_from [(lo, hi)] ws). \<not> any_nonzero b l h)"
proof -
  have "\<forall>(l, h) \<in> set (uncovered_from [(lo, hi)] ws). h \<le> length b"
    using uncovered_bound [of "[(lo, hi)]" "length b" ws] assms by simp
  then have "(\<forall>(l, h) \<in> set (uncovered_from [(lo, hi)] ws). \<not> any_nonzero b l h)
      \<longleftrightarrow> (\<forall>(l, h) \<in> set (uncovered_from [(lo, hi)] ws). \<forall>j. l \<le> j \<and> j < h \<longrightarrow> b ! j = 0)"
    by (intro ball_cong) (fastforce simp: any_nonzero_nth)+
  also have "\<dots> \<longleftrightarrow> (\<forall>j. within (uncovered_from [(lo, hi)] ws) j \<longrightarrow> b ! j = 0)"
    unfolding within_def by blast
  also have "\<dots> \<longleftrightarrow> clear b lo hi ws"
    by (auto simp: within_uncovered clear_def within_simps missed_def)
  finally show ?thesis by simp
qed

lemma clear_empty: "hi \<le> length b \<Longrightarrow> clear b lo hi [] \<longleftrightarrow> \<not> any_nonzero b lo hi"
  by (simp add: clear_uncovered)

lemma each_simps: "each 0 body = []" "each (Suc n) body = each n body @ body n"
  by (simp_all add: each_def)

lemma each_cong: "(\<And>k. k < n \<Longrightarrow> body k = body' k) \<Longrightarrow> each n body = each n body'"
  unfolding each_def by (intro arg_cong [where f = concat] map_cong) auto

subsection \<open>Tables\<close>

text \<open>
  A table is a run of blocks at a stride.  A block's parser accepts exactly the blocks that
  hold the fields of its result and are clear elsewhere; the loop over a table then does the
  same for all of them.
\<close>

locale record_table =
  fixes parse_block :: "u8 list \<Rightarrow> nat \<Rightarrow> CodecError + 'a" and block_fields :: "nat \<Rightarrow> 'a \<Rightarrow> store list"
    and base :: nat and size :: nat and typed :: "'a \<Rightarrow> bool"
  assumes block_spans: "typed x \<Longrightarrow> spans i (i + size) (block_fields i x)"
    and block_apart: "typed x \<Longrightarrow> apart (block_fields i x)"
    and parse_block: "base + Suc k * size \<le> length b \<Longrightarrow> parse_block b k = Inr x
      \<longleftrightarrow> typed x \<and> holds b (block_fields (base + k * size) x)
        \<and> clear b (base + k * size) (base + Suc k * size) (block_fields (base + k * size) x)"
begin

lemma stride: "base + Suc k * size = base + k * size + size"
  by simp

definition table :: "'a list \<Rightarrow> nat \<Rightarrow> store list" where
  "table xs n = each n (\<lambda>k. block_fields (base + k * size) (xs ! k))"

lemma table_layout:
  assumes "n \<le> length xs" "\<forall>x \<in> set xs. typed x"
  shows "spans base (base + n * size) (table xs n) \<and> apart (table xs n)"
  using assms(1)
proof (induction n)
  case (Suc n)
  have "typed (xs ! n)" using Suc.prems assms(2) by simp
  then have b: "spans (base + n * size) (base + Suc n * size) (block_fields (base + n * size) (xs ! n))"
      "apart (block_fields (base + n * size) (xs ! n))"
    unfolding stride using block_spans [of "xs ! n" "base + n * size"] block_apart by simp_all
  have s: "spans base (base + n * size) (table xs n)" "apart (table xs n)" using Suc by simp_all
  show ?case
    using apart_append [OF s(2) b(2) s(1) b(1)] spans_mono [OF s(1), of base "base + Suc n * size"]
      spans_mono [OF b(1), of base "base + Suc n * size"] by (simp add: table_def each_simps)
qed (simp add: table_def each_simps)

lemma table_clear:
  assumes "n \<le> length xs" "\<forall>x \<in> set xs. typed x"
  shows "clear b base (base + n * size) (table xs n)
    \<longleftrightarrow> (\<forall>k < n. clear b (base + k * size) (base + Suc k * size) (block_fields (base + k * size) (xs ! k)))"
  using assms(1)
proof (induction n)
  case (Suc n)
  have t: "typed (xs ! n)" using Suc.prems assms(2) by simp
  have s: "spans base (base + n * size) (table xs n)" using table_layout [of n xs] Suc.prems assms(2) by simp
  have e: "spans (base + n * size) (base + Suc n * size) (block_fields (base + n * size) (xs ! n))"
    unfolding stride by (rule block_spans [OF t])
  have "table xs (Suc n) = table xs n @ block_fields (base + n * size) (xs ! n)" by (simp add: table_def each_simps)
  then have "clear b base (base + Suc n * size) (table xs (Suc n)) \<longleftrightarrow> clear b base (base + n * size) (table xs n)
      \<and> clear b (base + n * size) (base + Suc n * size) (block_fields (base + n * size) (xs ! n))"
    using clear_append [OF s e] by simp
  then show ?case using Suc by (auto simp: less_Suc_eq)
qed (auto simp: table_def each_simps clear_def)

lemma collect_nth:
  "collect is body = Inr xs \<longleftrightarrow> length xs = length is \<and> (\<forall>k < length is. body (is ! k) = Inr (xs ! k))"
proof (induction "is" arbitrary: xs)
  case (Cons i "is")
  show ?case
  proof (cases xs)
    case (Cons x ys)
    then show ?thesis using Cons.IH [of ys] by (auto simp: nth_Cons' less_Suc_eq_0_disj)
  qed auto
qed auto

lemma parse_table:
  assumes "base + n * size \<le> length b"
  shows "collect [0..<n] (parse_block b) = Inr xs \<longleftrightarrow> length xs = n \<and> (\<forall>x \<in> set xs. typed x)
    \<and> holds b (table xs n) \<and> clear b base (base + n * size) (table xs n)"
proof -
  have "base + Suc k * size \<le> length b" if "k < n" for k
    using mult_le_mono1 [of "Suc k" n size] that assms by simp
  then have p: "parse_block b k = Inr (xs ! k) \<longleftrightarrow> typed (xs ! k) \<and> holds b (block_fields (base + k * size) (xs ! k))
      \<and> clear b (base + k * size) (base + Suc k * size) (block_fields (base + k * size) (xs ! k))" if "k < n" for k
    using parse_block that by blast
  show ?thesis
  proof (cases "length xs = n")
    case True
    have ty: "(\<forall>x \<in> set xs. typed x) \<longleftrightarrow> (\<forall>k < n. typed (xs ! k))" by (simp add: all_set_conv_all_nth True)
    have "collect [0..<n] (parse_block b) = Inr xs \<longleftrightarrow> (\<forall>k < n. parse_block b k = Inr (xs ! k))"
      using True by (auto simp: collect_nth)
    also have "\<dots> \<longleftrightarrow> (\<forall>k < n. typed (xs ! k)) \<and> (\<forall>k < n. holds b (block_fields (base + k * size) (xs ! k)))
        \<and> (\<forall>k < n. clear b (base + k * size) (base + Suc k * size) (block_fields (base + k * size) (xs ! k)))"
      using p by blast
    also have "\<dots> \<longleftrightarrow> (\<forall>x \<in> set xs. typed x) \<and> holds b (table xs n) \<and> clear b base (base + n * size) (table xs n)"
      using table_clear [of n xs b] True ty by (auto simp: table_def holds_each)
    finally show ?thesis using True by simp
  qed (auto simp: collect_nth)
qed

end

lemma plan_tags_parsed [simp]:
  "parse_event_kind y = Inr k \<longleftrightarrow> y = event_kind_tag k" "parse_event_trigger y = Inr t \<longleftrightarrow> y = event_trigger_tag t"
  "parse_failure_policy y = Inr f \<longleftrightarrow> y = failure_policy_tag f"
proof -
  show "parse_event_kind y = Inr k \<longleftrightarrow> y = event_kind_tag k" by (cases k) (auto simp: parse_event_kind_def)
  show "parse_event_trigger y = Inr t \<longleftrightarrow> y = event_trigger_tag t" by (cases t) (auto simp: parse_event_trigger_def)
  show "parse_failure_policy y = Inr f \<longleftrightarrow> y = failure_policy_tag f" by (cases f) (auto simp: parse_failure_policy_def)
qed

lemma event_gaps:
  assumes "i + 48 \<le> length b"
  shows "clear b i (i + 48) (event_fields i x) \<longleftrightarrow> b ! (i + 7) = 0 \<and> b ! (i + 47) = 0"
proof -
  have "{7 + i..<i + 8} = {i + 7}" "{47 + i..<i + 48} = {i + 47}" by auto
  then show ?thesis using assms by (simp add: clear_uncovered event_fields_def)
qed

lemma branch_gaps:
  assumes "i + 32 \<le> length b"
  shows "clear b i (i + 32) (branch_fields i x) \<longleftrightarrow> b ! (i + 6) = 0 \<and> b ! (i + 7) = 0"
proof -
  have "{6 + i..<i + 8} = {i + 6, i + 7}" by auto
  then show ?thesis using assms by (simp add: clear_uncovered branch_fields_def)
qed

lemma decision_gaps:
  assumes "i + 24 \<le> length b"
  shows "clear b i (i + 24) (decision_fields i x) \<longleftrightarrow> \<not> any_nonzero b (i + 17) (i + 24)"
  using assms by (simp add: clear_uncovered decision_fields_def add.commute)

interpretation event_table: record_table parse_plan_event event_fields 128 48 "\<lambda>x. length (ev_arguments x) = 4"
proof
  show "spans i (i + 48) (event_fields i x)" "apart (event_fields i x)" if "length (ev_arguments x) = 4" for i x
    by (simp_all add: event_fields_def)
  show "parse_plan_event b k = Inr x \<longleftrightarrow> length (ev_arguments x) = 4 \<and> holds b (event_fields (128 + k * 48) x)
      \<and> clear b (128 + k * 48) (128 + Suc k * 48) (event_fields (128 + k * 48) x)"
    if "128 + Suc k * 48 \<le> length b" for k b x
  proof -
    define i where "i = 128 + k * 48"
    have i: "i + 48 \<le> length b" "128 + Suc k * 48 = i + 48" using that by (simp_all add: i_def)
    have p: "parse_plan_event b k = Inr x \<longleftrightarrow> b ! (i + 7) = 0 \<and> b ! (i + 47) = 0
        \<and> length (ev_arguments x) = 4 \<and> holds b (event_fields i x)"
    proof
      assume "parse_plan_event b k = Inr x"
      then show "b ! (i + 7) = 0 \<and> b ! (i + 47) = 0 \<and> length (ev_arguments x) = 4 \<and> holds b (event_fields i x)"
        using i(1) by (auto simp: parse_plan_event_def event_fields_def kmp11_constants i_def [symmetric] Let_def
            read_i32_def upt_short)
    next
      assume "b ! (i + 7) = 0 \<and> b ! (i + 47) = 0 \<and> length (ev_arguments x) = 4 \<and> holds b (event_fields i x)"
      then show "parse_plan_event b k = Inr x"
        using i(1) by (cases x) (simp add: parse_plan_event_def event_fields_def kmp11_constants i_def [symmetric] Let_def
            read_i32_def arrays)
    qed
    show ?thesis unfolding i(2) i_def [symmetric] p event_gaps [OF i(1)] by blast
  qed
qed

interpretation branch_table: record_table parse_plan_branch branch_fields 1280 32 "\<lambda>_. True"
proof
  show "spans i (i + 32) (branch_fields i x)" "apart (branch_fields i x)" for i x
    by (simp_all add: branch_fields_def)
  show "parse_plan_branch b k = Inr x \<longleftrightarrow> True \<and> holds b (branch_fields (1280 + k * 32) x)
      \<and> clear b (1280 + k * 32) (1280 + Suc k * 32) (branch_fields (1280 + k * 32) x)"
    if "1280 + Suc k * 32 \<le> length b" for k b x
  proof -
    define i where "i = 1280 + k * 32"
    have i: "i + 32 \<le> length b" "1280 + Suc k * 32 = i + 32" using that by (simp_all add: i_def)
    show ?thesis unfolding i(2) i_def [symmetric] branch_gaps [OF i(1)] using i(1)
      by (cases x) (auto simp: parse_plan_branch_def branch_fields_def kmp11_constants i_def [symmetric] Let_def read_i32_def)
  qed
qed

interpretation decision_table: record_table parse_plan_decision decision_fields 1536 24 "\<lambda>_. True"
proof
  show "spans i (i + 24) (decision_fields i x)" "apart (decision_fields i x)" for i x
    by (simp_all add: decision_fields_def)
  show "parse_plan_decision b k = Inr x \<longleftrightarrow> True \<and> holds b (decision_fields (1536 + k * 24) x)
      \<and> clear b (1536 + k * 24) (1536 + Suc k * 24) (decision_fields (1536 + k * 24) x)"
    if "1536 + Suc k * 24 \<le> length b" for k b x
  proof -
    define i where "i = 1536 + k * 24"
    have i: "i + 24 \<le> length b" "1536 + Suc k * 24 = i + 24" using that by (simp_all add: i_def)
    show ?thesis unfolding i(2) i_def [symmetric] decision_gaps [OF i(1)] using i(1)
      by (cases x) (auto simp: parse_plan_decision_def decision_fields_def kmp11_constants i_def [symmetric] Let_def)
  qed
qed

subsection \<open>The plan record\<close>

abbreviation "event_run \<equiv> event_table.table"
abbreviation "branch_run \<equiv> branch_table.table"
abbreviation "decision_run \<equiv> decision_table.table"

definition plan_typed :: "MissionPlan \<Rightarrow> bool" where
  "plan_typed v \<longleftrightarrow> length (plan_events v) = 24 \<and> length (branches v) = 8 \<and> length (decisions v) = 8
     \<and> (\<forall>x \<in> set (plan_events v). length (ev_arguments x) = 4)"

lemma check_each_ok [simp]: "check_each is body = Inr () \<longleftrightarrow> (\<forall>i \<in> set is. body i = Inr ())"
  by (induction "is") auto

lemma beyond_counts:
  "validate_plan_event v k = Inr () \<Longrightarrow> unat (event_count v) \<le> k \<Longrightarrow> plan_events v ! k = EMPTY_EVENT"
  "validate_plan_branch v k = Inr () \<Longrightarrow> unat (branch_count v) \<le> k \<Longrightarrow> branches v ! k = EMPTY_BRANCH"
  "validate_plan_decision v k = Inr () \<Longrightarrow> unat (decision_count v) \<le> k \<Longrightarrow> decisions v ! k = EMPTY_DECISION"
  by (simp_all add: validate_plan_event_def validate_plan_branch_def validate_plan_decision_def Let_def)

lemma valid_plan_counts:
  assumes "validate_plan v = Inr ()"
  shows "unat (event_count v) \<le> 24" "unat (branch_count v) \<le> 8" "unat (decision_count v) \<le> 8"
    "unat (event_count v) \<le> k \<Longrightarrow> k < 24 \<Longrightarrow> plan_events v ! k = EMPTY_EVENT"
    "unat (branch_count v) \<le> k \<Longrightarrow> k < 8 \<Longrightarrow> branches v ! k = EMPTY_BRANCH"
    "unat (decision_count v) \<le> k \<Longrightarrow> k < 8 \<Longrightarrow> decisions v ! k = EMPTY_DECISION"
proof -
  note a = assms [unfolded validate_plan_def kmp11_constants if_Inl_eq_Inr and_then_Inr check_each_ok]
  show "unat (event_count v) \<le> 24" "unat (branch_count v) \<le> 8" "unat (decision_count v) \<le> 8" using a by auto
  show "unat (event_count v) \<le> k \<Longrightarrow> k < 24 \<Longrightarrow> plan_events v ! k = EMPTY_EVENT"
    "unat (branch_count v) \<le> k \<Longrightarrow> k < 8 \<Longrightarrow> branches v ! k = EMPTY_BRANCH"
    "unat (decision_count v) \<le> k \<Longrightarrow> k < 8 \<Longrightarrow> decisions v ! k = EMPTY_DECISION"
    using a by (auto intro: beyond_counts)
qed

lemma plan_fields_runs:
  "plan_fields v = plan_header_fields v @ event_run (plan_events v) (unat (event_count v))
     @ branch_run (branches v) (unat (branch_count v)) @ decision_run (decisions v) (unat (decision_count v))"
  by (simp add: plan_fields_def event_table.table_def branch_table.table_def decision_table.table_def kmp11_constants)

lemma length_kmp11_magic [simp]: "length KMP11_MAGIC = 4"
  by (simp add: KMP11_MAGIC_def)

lemma plan_header_layout: "spans 0 128 (plan_header_fields v)" "apart (plan_header_fields v)"
  by (simp_all add: plan_header_fields_def)

lemma plan_header_gap:
  assumes "length b = 2048"
  shows "clear b 0 128 (plan_header_fields v) \<longleftrightarrow> \<not> any_nonzero b 55 128"
  using assms by (simp add: clear_uncovered plan_header_fields_def)

lemma run_layout:
  assumes "plan_typed v" "unat (event_count v) \<le> 24" "unat (branch_count v) \<le> 8" "unat (decision_count v) \<le> 8"
  shows "spans 128 (128 + unat (event_count v) * 48) (event_run (plan_events v) (unat (event_count v)))"
    "apart (event_run (plan_events v) (unat (event_count v)))"
    "spans 1280 (1280 + unat (branch_count v) * 32) (branch_run (branches v) (unat (branch_count v)))"
    "apart (branch_run (branches v) (unat (branch_count v)))"
    "spans 1536 (1536 + unat (decision_count v) * 24) (decision_run (decisions v) (unat (decision_count v)))"
    "apart (decision_run (decisions v) (unat (decision_count v)))"
  using assms event_table.table_layout [of "unat (event_count v)" "plan_events v"]
    branch_table.table_layout [of "unat (branch_count v)" "branches v"]
    decision_table.table_layout [of "unat (decision_count v)" "decisions v"]
  by (simp_all add: plan_typed_def)

lemma plan_layout:
  assumes "plan_typed v" "unat (event_count v) \<le> 24" "unat (branch_count v) \<le> 8" "unat (decision_count v) \<le> 8"
  shows "layout 2044 (plan_fields v)"
proof -
  note r = run_layout [OF assms]
  have s: "spans 128 1280 (event_run (plan_events v) (unat (event_count v)))"
    "spans 1280 1536 (branch_run (branches v) (unat (branch_count v)))"
    "spans 1536 2044 (decision_run (decisions v) (unat (decision_count v)))"
    using spans_mono [OF r(1)] spans_mono [OF r(3)] spans_mono [OF r(5)] assms(2-4) by simp_all
  have "apart (branch_run (branches v) (unat (branch_count v)) @ decision_run (decisions v) (unat (decision_count v)))"
    by (rule apart_append [OF r(4,6) s(2,3)])
  moreover have b: "spans 1280 2044 (branch_run (branches v) (unat (branch_count v)) @ decision_run (decisions v) (unat (decision_count v)))"
    using spans_mono [OF s(2), of 1280 2044] spans_mono [OF s(3), of 1280 2044] by simp
  ultimately have "apart (event_run (plan_events v) (unat (event_count v)) @ branch_run (branches v) (unat (branch_count v))
      @ decision_run (decisions v) (unat (decision_count v)))"
    using apart_append [OF r(2) _ s(1)] by blast
  moreover have e: "spans 128 2044 (event_run (plan_events v) (unat (event_count v)) @ branch_run (branches v) (unat (branch_count v))
      @ decision_run (decisions v) (unat (decision_count v)))"
    using spans_mono [OF s(1), of 128 2044] spans_mono [OF b, of 128 2044] by simp
  ultimately have "apart (plan_fields v)"
    unfolding plan_fields_runs using apart_append [OF plan_header_layout(2) _ plan_header_layout(1)] by blast
  moreover have "spans 0 2044 (plan_fields v)"
    using spans_mono [OF plan_header_layout(1), of 0 2044] spans_mono [OF e, of 0 2044] by (simp add: plan_fields_runs)
  ultimately show ?thesis by (simp add: layout_def fits_spans)
qed

lemma clear_tail:
  assumes "spans lo m xs" "lo \<le> m" "m \<le> hi" "hi \<le> length b"
  shows "clear b lo hi xs \<longleftrightarrow> clear b lo m xs \<and> \<not> any_nonzero b m hi"
  using clear_append [OF assms(1), of hi "[]" b] clear_empty [OF assms(4), of m] assms(2,3) by simp

lemma plan_blank:
  assumes "length b = 2048" "plan_typed v" "unat (event_count v) \<le> 24" "unat (branch_count v) \<le> 8" "unat (decision_count v) \<le> 8"
  shows "blank b 2044 (plan_fields v) \<longleftrightarrow> \<not> any_nonzero b 55 128
    \<and> clear b 128 (128 + unat (event_count v) * 48) (event_run (plan_events v) (unat (event_count v)))
    \<and> \<not> any_nonzero b (128 + unat (event_count v) * 48) 1280
    \<and> clear b 1280 (1280 + unat (branch_count v) * 32) (branch_run (branches v) (unat (branch_count v)))
    \<and> \<not> any_nonzero b (1280 + unat (branch_count v) * 32) 1536
    \<and> clear b 1536 (1536 + unat (decision_count v) * 24) (decision_run (decisions v) (unat (decision_count v)))
    \<and> \<not> any_nonzero b (1536 + unat (decision_count v) * 24) 1728 \<and> \<not> any_nonzero b 1728 2044"
proof -
  let ?E = "event_run (plan_events v) (unat (event_count v))" and ?B = "branch_run (branches v) (unat (branch_count v))"
    and ?D = "decision_run (decisions v) (unat (decision_count v))"
  note r = run_layout [OF assms(2-5)]
  have s: "spans 128 1280 ?E" "spans 1280 1536 ?B" "spans 1536 1728 ?D" "spans 1536 2044 ?D"
    using spans_mono [OF r(1)] spans_mono [OF r(3)] spans_mono [OF r(5)] assms(3-5) by simp_all
  have b: "spans 1280 2044 (?B @ ?D)" using spans_mono [OF s(2), of 1280 2044] spans_mono [OF s(4), of 1280 2044] by simp
  have e: "spans 128 2044 (?E @ ?B @ ?D)" using spans_mono [OF s(1), of 128 2044] spans_mono [OF b, of 128 2044] by simp
  have 1: "clear b 0 2044 (plan_fields v) \<longleftrightarrow> clear b 0 128 (plan_header_fields v) \<and> clear b 128 2044 (?E @ ?B @ ?D)"
    unfolding plan_fields_runs by (rule clear_append [OF plan_header_layout(1) e]) simp_all
  have 2: "clear b 128 2044 (?E @ ?B @ ?D) \<longleftrightarrow> clear b 128 1280 ?E \<and> clear b 1280 2044 (?B @ ?D)"
    by (rule clear_append [OF s(1) b]) simp_all
  have 3: "clear b 1280 2044 (?B @ ?D) \<longleftrightarrow> clear b 1280 1536 ?B \<and> clear b 1536 2044 ?D"
    by (rule clear_append [OF s(2,4)]) simp_all
  have 4: "clear b 1536 2044 ?D \<longleftrightarrow> clear b 1536 1728 ?D \<and> \<not> any_nonzero b 1728 2044"
    by (rule clear_tail [OF s(3)]) (use assms(1) in simp_all)
  show ?thesis
    unfolding blank_clear 1 2 3 4 plan_header_gap [OF assms(1)]
    using clear_tail [OF r(1), of 1280 b] clear_tail [OF r(3), of 1536 b] clear_tail [OF r(5), of 1728 b] assms(1,3-5)
    by simp
qed

lemma run_padded:
  "length xs = n \<Longrightarrow> event_run (xs @ ys) n = event_run xs n"
  "length bs = n \<Longrightarrow> branch_run (bs @ cs) n = branch_run bs n"
  "length ds = n \<Longrightarrow> decision_run (ds @ es) n = decision_run ds n"
  by (auto simp: event_table.table_def branch_table.table_def decision_table.table_def nth_append intro!: each_cong)

lemma padded:
  assumes "length xs = m" "n \<le> m" "\<And>k. n \<le> k \<Longrightarrow> k < m \<Longrightarrow> xs ! k = e"
  shows "take n xs @ replicate (m - n) e = xs"
  using assms by (intro nth_equalityI) (auto simp: nth_append)

lemma parse_kmp11_accepted:
  assumes "parse_kmp11 b = Inr v"
  shows "length b = 2048 \<and> sealed32 b \<and> plan_typed v \<and> validate_plan v = Inr ()
    \<and> holds b (plan_fields v) \<and> blank b 2044 (plan_fields v)"
proof -
  obtain es bs ds where b: "length b = 2048" "take 4 b = KMP11_MAGIC" "read_u16 b 4 = 11" "unat (read_u16 b 6) = 2048"
      "crc32_ieee (take 2044 b) = read_u32 b 2044" "\<not> any_nonzero b 55 128" "\<not> any_nonzero b 1728 2044"
      "unat (b ! 52) \<le> 24" "unat (b ! 53) \<le> 8" "unat (b ! 54) \<le> 8"
    and e: "collect [0..<unat (b ! 52)] (parse_plan_event b) = Inr es" "\<not> any_nonzero b (128 + unat (b ! 52) * 48) 1280"
    and br: "collect [0..<unat (b ! 53)] (parse_plan_branch b) = Inr bs" "\<not> any_nonzero b (1280 + unat (b ! 53) * 32) 1536"
    and d: "collect [0..<unat (b ! 54)] (parse_plan_decision b) = Inr ds" "\<not> any_nonzero b (1536 + unat (b ! 54) * 24) 1728"
    and h: "read_u32 b 16 = package_tag (mp_package v)" "read_u32 b 20 = abi_tag (mp_abi v)"
      "read_u32 b 8 = plan_identity v" "read_u32 b 12 = package_manifest_identity v"
      "read_u32 b 24 = mp_vehicle_profile_identity v" "read_u32 b 28 = mission_identity v" "read_u32 b 32 = earth_identity v"
      "read_u32 b 36 = environment_identity v" "read_u32 b 40 = onboard_prediction_model v"
      "read_u32 b 44 = ground_prediction_model v" "read_u32 b 48 = mp_required_capabilities v"
      "b ! 52 = event_count v" "b ! 53 = branch_count v" "b ! 54 = decision_count v"
    and a: "plan_events v = es @ replicate (24 - unat (b ! 52)) EMPTY_EVENT"
      "branches v = bs @ replicate (8 - unat (b ! 53)) EMPTY_BRANCH" "decisions v = ds @ replicate (8 - unat (b ! 54)) EMPTY_DECISION"
    and ok: "validate_plan v = Inr ()"
  proof -
    show thesis
      using assms unfolding parse_kmp11_def kmp11_constants Let_def if_Inl_eq_Inr and_then_Inr tag_parsed
        de_Morgan_disj not_not not_less sum.inject
      by (elim exE conjE) (rule that; hypsubst; simp)
  qed
  have T: "length es = unat (b ! 52) \<and> (\<forall>x \<in> set es. length (ev_arguments x) = 4) \<and> holds b (event_run es (unat (b ! 52)))
      \<and> clear b 128 (128 + unat (b ! 52) * 48) (event_run es (unat (b ! 52)))"
    using event_table.parse_table [of "unat (b ! 52)" b es] e b by simp
  have B: "length bs = unat (b ! 53) \<and> holds b (branch_run bs (unat (b ! 53)))
      \<and> clear b 1280 (1280 + unat (b ! 53) * 32) (branch_run bs (unat (b ! 53)))"
    using branch_table.parse_table [of "unat (b ! 53)" b bs] br b by simp
  have D: "length ds = unat (b ! 54) \<and> holds b (decision_run ds (unat (b ! 54)))
      \<and> clear b 1536 (1536 + unat (b ! 54) * 24) (decision_run ds (unat (b ! 54)))"
    using decision_table.parse_table [of "unat (b ! 54)" b ds] d b by simp
  have ty: "plan_typed v" using a T B D b by (auto simp: plan_typed_def EMPTY_EVENT_def)
  have v6: "read_u16 b 6 = 2048" using b(4) by (simp add: unat_u16)
  have hh: "holds b (plan_header_fields v)"
    using b h v6 by (simp add: plan_header_fields_def kmp11_constants)
  have runs: "event_run (plan_events v) (unat (event_count v)) = event_run es (unat (b ! 52))"
    "branch_run (branches v) (unat (branch_count v)) = branch_run bs (unat (b ! 53))"
    "decision_run (decisions v) (unat (decision_count v)) = decision_run ds (unat (b ! 54))"
    using T B D by (simp_all add: a h(12-14) [symmetric] run_padded)
  have "holds b (plan_fields v)" unfolding plan_fields_runs runs using hh T B D by simp
  moreover have "blank b 2044 (plan_fields v)"
  proof -
    have c: "unat (event_count v) \<le> 24" "unat (branch_count v) \<le> 8" "unat (decision_count v) \<le> 8"
      using b(8-10) unfolding h(12-14) by simp_all
    show ?thesis unfolding plan_blank [OF b(1) ty c] runs using b(6,7) e(2) br(2) d(2) T B D by (simp add: h(12-14))
  qed
  ultimately show ?thesis using b ty ok by (simp add: sealed32_def)
qed

lemma parse_kmp11_accepts:
  assumes "length b = 2048" "sealed32 b" "plan_typed v" "validate_plan v = Inr ()" "holds b (plan_fields v)" "blank b 2044 (plan_fields v)"
  shows "parse_kmp11 b = Inr v"
proof -
  note c = valid_plan_counts [OF assms(4)]
  have lens: "length (plan_events v) = 24" "length (branches v) = 8" "length (decisions v) = 8" using assms(3) by (simp_all add: plan_typed_def)
  define es bs ds where l: "es = take (unat (event_count v)) (plan_events v)" "bs = take (unat (branch_count v)) (branches v)"
    "ds = take (unat (decision_count v)) (decisions v)"
  have p: "es @ replicate (24 - unat (event_count v)) EMPTY_EVENT = plan_events v"
    "bs @ replicate (8 - unat (branch_count v)) EMPTY_BRANCH = branches v"
    "ds @ replicate (8 - unat (decision_count v)) EMPTY_DECISION = decisions v"
    unfolding l using lens c by (intro padded; simp)+
  have n: "length es = unat (event_count v)" "length bs = unat (branch_count v)" "length ds = unat (decision_count v)"
    using lens c by (simp_all add: l)
  have runs: "event_run (plan_events v) (unat (event_count v)) = event_run es (unat (event_count v))"
    "branch_run (branches v) (unat (branch_count v)) = branch_run bs (unat (branch_count v))"
    "decision_run (decisions v) (unat (decision_count v)) = decision_run ds (unat (decision_count v))"
    using run_padded(1) [OF n(1), of "replicate (24 - unat (event_count v)) EMPTY_EVENT"]
      run_padded(2) [OF n(2), of "replicate (8 - unat (branch_count v)) EMPTY_BRANCH"]
      run_padded(3) [OF n(3), of "replicate (8 - unat (decision_count v)) EMPTY_DECISION"] unfolding p by simp_all
  have h: "holds b (plan_header_fields v)" "holds b (event_run es (unat (event_count v)))"
    "holds b (branch_run bs (unat (branch_count v)))" "holds b (decision_run ds (unat (decision_count v)))"
    using assms(5) unfolding plan_fields_runs runs by simp_all
  note z = assms(6) [unfolded plan_blank [OF assms(1,3) c(1-3)] runs]
  have hf: "take 4 b = KMP11_MAGIC" "read_u16 b 4 = 11" "read_u16 b 6 = 2048"
      "read_u32 b 16 = package_tag (mp_package v)" "read_u32 b 20 = abi_tag (mp_abi v)"
      "read_u32 b 8 = plan_identity v" "read_u32 b 12 = package_manifest_identity v"
      "read_u32 b 24 = mp_vehicle_profile_identity v" "read_u32 b 28 = mission_identity v" "read_u32 b 32 = earth_identity v"
      "read_u32 b 36 = environment_identity v" "read_u32 b 40 = onboard_prediction_model v"
      "read_u32 b 44 = ground_prediction_model v" "read_u32 b 48 = mp_required_capabilities v"
      "b ! 52 = event_count v" "b ! 53 = branch_count v" "b ! 54 = decision_count v"
    using h(1) assms(1) by (simp_all add: plan_header_fields_def kmp11_constants)
  have e: "collect [0..<unat (event_count v)] (parse_plan_event b) = Inr es"
  proof -
    have "\<forall>x \<in> set es. length (ev_arguments x) = 4" using assms(3) by (auto simp: l plan_typed_def dest: in_set_takeD)
    then show ?thesis using event_table.parse_table [of "unat (event_count v)" b es] n(1) h(2) z c(1) assms(1) by simp
  qed
  have br: "collect [0..<unat (branch_count v)] (parse_plan_branch b) = Inr bs"
    using branch_table.parse_table [of "unat (branch_count v)" b bs] n(2) h(3) z c(2) assms(1) by simp
  have d: "collect [0..<unat (decision_count v)] (parse_plan_decision b) = Inr ds"
    using decision_table.parse_table [of "unat (decision_count v)" b ds] n(3) h(4) z c(3) assms(1) by simp
  have eta: "\<lparr>plan_identity = plan_identity v, package_manifest_identity = package_manifest_identity v, mp_package = mp_package v,
     mp_abi = mp_abi v, mp_vehicle_profile_identity = mp_vehicle_profile_identity v, mission_identity = mission_identity v,
     earth_identity = earth_identity v, environment_identity = environment_identity v,
     onboard_prediction_model = onboard_prediction_model v, ground_prediction_model = ground_prediction_model v,
     mp_required_capabilities = mp_required_capabilities v, event_count = event_count v, branch_count = branch_count v,
     decision_count = decision_count v, plan_events = plan_events v, branches = branches v, decisions = decisions v\<rparr> = v"
    by (cases v) simp
  have tags: "parse_package (package_tag (mp_package v)) = Inr (mp_package v)" "parse_abi (abi_tag (mp_abi v)) = Inr (mp_abi v)"
    by simp_all
  have z': "\<not> any_nonzero b 55 128" "\<not> any_nonzero b 1728 2044" "\<not> any_nonzero b (128 + unat (event_count v) * 48) 1280"
    "\<not> any_nonzero b (1280 + unat (branch_count v) * 32) 1536" "\<not> any_nonzero b (1536 + unat (decision_count v) * 24) 1728"
    using z by simp_all
  show ?thesis
    using assms(1,2,4) z' c(1-3)
    by (simp add: parse_kmp11_def kmp11_constants Let_def hf e br d p eta tags sealed32_def del: any_nonzero_short)
qed

interpretation kmp11: record_codec write_kmp11 parse_kmp11 2048 plan_typed "\<lambda>v. validate_plan v = Inr ()" plan_fields
proof
  show "\<exists>e. write_kmp11 v out = (Inl e, out)" if "length out \<noteq> 2048 \<or> \<not> (\<lambda>v. validate_plan v = Inr ()) v" for out v
    using that by (auto simp: write_kmp11_def kmp11_constants split: sum.splits)
  show "write_kmp11 v out = (Inr (), seal32 (put_fields (fill0 out) (plan_fields v)))"
    if "length out = 2048" "(\<lambda>v. validate_plan v = Inr ()) v" for out v
    using that by (simp add: write_kmp11_def kmp11_constants)
  show "layout (2048 - 4) (plan_fields v)" if "plan_typed v" "(\<lambda>v. validate_plan v = Inr ()) v" for v
    using plan_layout [OF that(1) valid_plan_counts(1-3)] that(2) by simp
  show "parse_kmp11 b = Inr v" if "length b = 2048" "sealed32 b" "plan_typed v" "(\<lambda>v. validate_plan v = Inr ()) v"
      "holds b (plan_fields v)" "blank b (2048 - 4) (plan_fields v)" for b v
    using parse_kmp11_accepts that by simp
  show "length b = 2048 \<and> sealed32 b" if "parse_kmp11 b = Inr v" for b v
    using parse_kmp11_accepted [OF that] by simp
  show "plan_typed v \<and> (\<lambda>v. validate_plan v = Inr ()) v \<and> holds b (plan_fields v) \<and> blank b (2048 - 4) (plan_fields v)"
    if "parse_kmp11 b = Inr v" for b v
    using parse_kmp11_accepted [OF that] by simp
qed simp

subsection \<open>The contract of the plan record\<close>

text \<open>
  C30: the mission plan record is canonical.  The writer accepts exactly the valid plans and
  a buffer of 2048 bytes and leaves every other buffer alone; the bytes it writes are the
  only ones the parser maps to that plan; and whatever the parser accepts is a valid plan
  with arrays of the declared sizes, whose unused entries are empty.
\<close>
theorem mission_plan_canonical:
  assumes "plan_typed p"
  shows "(case write_kmp11 p out of
      (Inl e, b) \<Rightarrow> b = out \<and> \<not> (length out = 2048 \<and> validate_plan p = Inr ())
    | (Inr u, b) \<Rightarrow> length b = 2048 \<and> (\<forall>c. parse_kmp11 c = Inr p \<longleftrightarrow> c = b))
   \<and> (\<forall>c q. parse_kmp11 c = Inr q \<longrightarrow> plan_typed q \<and> validate_plan q = Inr ()
        \<and> (\<forall>k. unat (event_count q) \<le> k \<and> k < 24 \<longrightarrow> plan_events q ! k = EMPTY_EVENT))"
proof
  have c: "case write_kmp11 p out of
      (Inl e, b) \<Rightarrow> b = out \<and> (length out \<noteq> 2048 \<or> \<not> (validate_plan p = Inr ()))
    | (Inr u, b) \<Rightarrow> length out = 2048 \<and> validate_plan p = Inr () \<and> length b = 2048 \<and> parse_kmp11 b = Inr p"
    by (rule kmp11.contract [OF assms])
  show "case write_kmp11 p out of
      (Inl e, b) \<Rightarrow> b = out \<and> \<not> (length out = 2048 \<and> validate_plan p = Inr ())
    | (Inr u, b) \<Rightarrow> length b = 2048 \<and> (\<forall>c. parse_kmp11 c = Inr p \<longleftrightarrow> c = b)"
    using c kmp11.encoding_unique by (auto split: prod.splits sum.splits)
  show "\<forall>c q. parse_kmp11 c = Inr q \<longrightarrow> plan_typed q \<and> validate_plan q = Inr ()
      \<and> (\<forall>k. unat (event_count q) \<le> k \<and> k < 24 \<longrightarrow> plan_events q ! k = EMPTY_EVENT)"
    using parse_kmp11_accepted valid_plan_counts(4) by blast
qed

lemma plan_corruption:
  "parse_kmp11 b = Inr p \<Longrightarrow> i < 2048 \<Longrightarrow> x \<noteq> b ! i \<Longrightarrow> \<not> is_ok (parse_kmp11 (b[i := x]))"
  by (rule kmp11.corruption_rejected)

end
