(* ===== verification/Mission_Load.thy ===== *)
theory Mission_Load
  imports Object_Transfer Plan_Codec
begin

text \<open>
  The loading of a mission plan into the flight computer (\<^verbatim>\<open>flight/src/phase11.rs\<close>): the
  reference package's manifest and plan, and the activation of a plan from a received
  object.  The theorem composes the segment codec, the receiver, the plan codec and the
  compatibility checks.
\<close>

unbundle bit_operations_syntax

definition KSA_G10R_REFERENCE_OPS_MANIFEST_ID :: u32 where "KSA_G10R_REFERENCE_OPS_MANIFEST_ID = 0x11f5a001"
definition KSA_G10R_REFERENCE_OPS_IMPLEMENTATION_ID :: u32 where "KSA_G10R_REFERENCE_OPS_IMPLEMENTATION_ID = 0x11f51001"
definition GLOBAL_ECEF_PROFILE_ID :: u32 where "GLOBAL_ECEF_PROFILE_ID = 5"
definition KSA_G10R_MISSION_COMPATIBILITY_ID :: u32 where "KSA_G10R_MISSION_COMPATIBILITY_ID = 0x10a00001"

definition GLOBAL_FLIGHT_CONTRACT_ID :: u32 where "GLOBAL_FLIGHT_CONTRACT_ID = 0x10530001"
definition KLR10_CONTRACT_ID :: u32 where "KLR10_CONTRACT_ID = 0x10520001"
definition PACKAGE_TARGET_HOST :: u8 where "PACKAGE_TARGET_HOST = 1"
definition PACKAGE_TARGET_RUST_MOS :: u8 where "PACKAGE_TARGET_RUST_MOS = 2"
definition PACKAGE_TARGET_EXTERNAL :: u8 where "PACKAGE_TARGET_EXTERNAL = 4"

lemmas reference_constants = KSA_G10R_REFERENCE_OPS_MANIFEST_ID_def KSA_G10R_REFERENCE_OPS_IMPLEMENTATION_ID_def
  GLOBAL_ECEF_PROFILE_ID_def KSA_G10R_MISSION_COMPATIBILITY_ID_def GLOBAL_FLIGHT_CONTRACT_ID_def KLR10_CONTRACT_ID_def
  PACKAGE_TARGET_HOST_def PACKAGE_TARGET_RUST_MOS_def PACKAGE_TARGET_EXTERNAL_def

definition ksa_g10r_reference_ops_manifest :: FlightSoftwarePackageManifest where
  "ksa_g10r_reference_ops_manifest = \<lparr>manifest_identity = KSA_G10R_REFERENCE_OPS_MANIFEST_ID,
     fm_package = KsaG10rReferenceOpsV1, implementation_identity = KSA_G10R_REFERENCE_OPS_IMPLEMENTATION_ID,
     fm_abi = GlobalKlr10V1, fm_vehicle_profile_identity = GLOBAL_ECEF_PROFILE_ID,
     mission_compatibility_identity = KSA_G10R_MISSION_COMPATIBILITY_ID, capabilities = PACKAGE_CAP_MASK,
     segment_support = PACKAGE_SEGMENT_MASK, command_load_support = PACKAGE_LOAD_MASK,
     targets = PACKAGE_TARGET_HOST OR PACKAGE_TARGET_RUST_MOS OR PACKAGE_TARGET_EXTERNAL,
     safe_state = ReferenceGlobalSafeV1, command_loss = FrozenKlr10HoldThenSafe,
     resource = \<lparr>persistent_bytes = 4096, transient_bytes = 4096, stack_bytes = 512, journal_records = 32,
       maximum_object_bytes = 4096\<rparr>,
     fm_fast_hz = 32, fm_navigation_hz = 8, fm_guidance_hz = 1, maximum_plan_events = 24, maximum_branches = 8,
     maximum_decisions = 8, code_identity = GLOBAL_FLIGHT_CONTRACT_ID, configuration_identity = KLR10_CONTRACT_ID,
     resource_evidence_sha256 = replicate 32 0x11\<rparr>"

definition reference_correction :: MissionPlanEvent where
  "reference_correction = \<lparr>event_id = 1, ev_kind = PlannedCorrection, ev_trigger = ExactRelease, ev_flags = 0,
     failure_policy = FailClosed, ev_earliest_epoch = 100, ev_latest_epoch = 120, exact_epoch = 110,
     ev_prerequisite_events = 0, ev_required_capabilities = PACKAGE_CAP_TARGET_UPDATE, ev_arguments = replicate 4 0,
     guard_metric = 0, guard_comparison = 0\<rparr>"

definition ksa_g10r_reference_mission_plan :: MissionPlan where
  "ksa_g10r_reference_mission_plan = \<lparr>plan_identity = 0x11a00001,
     package_manifest_identity = KSA_G10R_REFERENCE_OPS_MANIFEST_ID, mp_package = KsaG10rReferenceOpsV1,
     mp_abi = GlobalKlr10V1, mp_vehicle_profile_identity = GLOBAL_ECEF_PROFILE_ID,
     mission_identity = KSA_G10R_MISSION_COMPATIBILITY_ID, earth_identity = 0x10e00001,
     environment_identity = 0x10a70001, onboard_prediction_model = 0x11d00001,
     ground_prediction_model = 0x11d00002, mp_required_capabilities = PACKAGE_CAP_MASK, event_count = 1,
     branch_count = 0, decision_count = 0,
     plan_events = (replicate KMP11_MAX_EVENTS EMPTY_EVENT)[0 := reference_correction],
     branches = replicate KMP11_MAX_BRANCHES EMPTY_BRANCH, decisions = replicate KMP11_MAX_DECISIONS EMPTY_DECISION\<rparr>"

subsection \<open>Activation\<close>

definition activate_mission_plan :: "BoundedObjectReceiver \<Rightarrow> FlightSoftwarePackageManifest \<Rightarrow> ObjectReceiveError + MissionPlan" where
  "activate_mission_plan self manifest =
     (if \<not> rc_complete self \<or> rc_object_type self \<noteq> Some MissionPlanObject \<or> unat (rc_total_length self) \<noteq> KMP11_LENGTH
      then Inl ObjSequence
      else
      and_then (map_err (\<lambda>_. ObjContract) (parse_kmp11 (take KMP11_LENGTH (rc_bytes self)))) (\<lambda>plan.
      if package_manifest_identity plan \<noteq> manifest_identity manifest \<or> mp_package plan \<noteq> fm_package manifest
         \<or> mp_abi plan \<noteq> fm_abi manifest \<or> mp_vehicle_profile_identity plan \<noteq> fm_vehicle_profile_identity manifest
         \<or> mission_identity plan \<noteq> mission_compatibility_identity manifest
         \<or> mp_required_capabilities plan AND NOT (capabilities manifest) \<noteq> 0
         \<or> maximum_plan_events manifest < event_count plan \<or> maximum_branches manifest < branch_count plan
         \<or> maximum_decisions manifest < decision_count plan
      then Inl ObjIdentity else Inr plan))"

text \<open>The compatibility of a plan with a package, as a predicate.\<close>

definition plan_fits :: "FlightSoftwarePackageManifest \<Rightarrow> MissionPlan \<Rightarrow> bool" where
  "plan_fits m p \<longleftrightarrow> package_manifest_identity p = manifest_identity m \<and> mp_package p = fm_package m
     \<and> mp_abi p = fm_abi m \<and> mp_vehicle_profile_identity p = fm_vehicle_profile_identity m
     \<and> mission_identity p = mission_compatibility_identity m
     \<and> mp_required_capabilities p AND NOT (capabilities m) = 0
     \<and> event_count p \<le> maximum_plan_events m \<and> branch_count p \<le> maximum_branches m \<and> decision_count p \<le> maximum_decisions m"

definition plan_bytes :: "MissionPlan \<Rightarrow> u8 list" where
  "plan_bytes p = snd (write_kmp11 p (replicate KMP11_LENGTH 0))"

lemma plan_bytes_parsed:
  assumes "plan_typed p" "validate_plan p = Inr ()"
  shows "length (plan_bytes p) = 2048" "parse_kmp11 (plan_bytes p) = Inr p"
  using kmp11.write_parse [of "replicate 2048 0" p] assms by (auto simp: plan_bytes_def KMP11_LENGTH_def)

lemma parsed_plan_bytes:
  assumes "parse_kmp11 b = Inr p"
  shows "b = plan_bytes p \<and> plan_typed p \<and> validate_plan p = Inr ()"
  using kmp11.parse_write [OF assms, of "replicate 2048 0"] parse_kmp11_accepted [OF assms]
  by (simp add: plan_bytes_def KMP11_LENGTH_def)

lemma activate_delivered:
  assumes "receiver_wf st"
  shows "activate_mission_plan st m = Inr p
    \<longleftrightarrow> plan_fits m p \<and> (\<exists>oid data. delivered st = Some (MissionPlanObject, oid, data) \<and> parse_kmp11 data = Inr p)"
proof -
  have len: "length data = 2048" if "parse_kmp11 data = Inr p" for data
    using parse_kmp11_accepted [OF that] by simp
  have e: "map_err f r = Inr x \<longleftrightarrow> r = Inr x" for f :: "'e \<Rightarrow> 'd" and r :: "'e + 'x" and x by (cases r) auto
  have t: "length (take (unat (rc_total_length st)) (rc_bytes st)) = unat (rc_total_length st)" if "rc_complete st"
    using assms that by (auto simp: receiver_wf_def)
  have T: "unat (rc_total_length st) = 2048"
    if "rc_complete st" "parse_kmp11 (take (unat (rc_total_length st)) (rc_bytes st)) = Inr p"
    using t [OF that(1)] len [OF that(2)] by simp
  show ?thesis
  proof (cases "rc_complete st \<and> rc_object_type st = Some MissionPlanObject \<and> unat (rc_total_length st) = 2048")
    case True
    then show ?thesis
      by (auto simp: activate_mission_plan_def delivered_def plan_fits_def e KMP11_LENGTH_def not_less)
  next
    case False
    then show ?thesis using T by (auto simp: activate_mission_plan_def delivered_def KMP11_LENGTH_def split: if_splits)
  qed
qed

text \<open>
  C4: the loading of a mission plan, end to end.  After any sequence of received buffers a
  plan is activated if and only if it is a valid plan compatible with the package and the
  decoded segments end with the complete segmentation of its one encoding as an object of
  type mission plan, whose identity and checksum are not zero.
\<close>
theorem mission_plan_activation:
  "activate_mission_plan (receive_all new_object_receiver (decoded bufs)) m = Inr p
   \<longleftrightarrow> plan_typed p \<and> validate_plan p = Inr () \<and> plan_fits m p \<and> crc32_ieee (plan_bytes p) \<noteq> 0
     \<and> (\<exists>oid ys. oid \<noteq> 0 \<and> decoded bufs = ys @ segments_of MissionPlanObject oid (plan_bytes p))"
proof -
  let ?st = "receive_all new_object_receiver (decoded bufs)"
  have wf: "receiver_wf ?st" by (rule receive_all_wf [OF new_receiver_wf(1)])
  have parsed: "parse_kmp11 data = Inr p \<longleftrightarrow> data = plan_bytes p \<and> plan_typed p \<and> validate_plan p = Inr ()" for data
    using parsed_plan_bytes plan_bytes_parsed by blast
  have "deliverable oid (plan_bytes p) \<longleftrightarrow> oid \<noteq> 0 \<and> crc32_ieee (plan_bytes p) \<noteq> 0"
    if "plan_typed p" "validate_plan p = Inr ()" for oid
    using plan_bytes_parsed(1) [OF that] by (auto simp: deliverable_def)
  then show ?thesis
    unfolding activate_delivered [OF wf] object_transfer_facts parsed by blast
qed

lemma reference_plan_valid:
  "plan_typed ksa_g10r_reference_mission_plan" "validate_plan ksa_g10r_reference_mission_plan = Inr ()"
  "plan_fits ksa_g10r_reference_ops_manifest ksa_g10r_reference_mission_plan"
  "validate_manifest ksa_g10r_reference_ops_manifest = Inr ()"
proof -
  show "plan_typed ksa_g10r_reference_mission_plan"
    by (simp add: plan_typed_def ksa_g10r_reference_mission_plan_def reference_correction_def kmp11_constants EMPTY_EVENT_def
        set_update_distinct eval_nat_numeral)
  show "validate_plan ksa_g10r_reference_mission_plan = Inr ()" by code_simp
  show "plan_fits ksa_g10r_reference_ops_manifest ksa_g10r_reference_mission_plan" by code_simp
  show "validate_manifest ksa_g10r_reference_ops_manifest = Inr ()" by code_simp
qed

theorem mission_plan_canonical_witness:
  "\<exists>b. write_kmp11 ksa_g10r_reference_mission_plan (replicate 2048 0) = (Inr (), b)
     \<and> (\<forall>c. parse_kmp11 c = Inr ksa_g10r_reference_mission_plan \<longleftrightarrow> c = b)"
proof (cases "write_kmp11 ksa_g10r_reference_mission_plan (replicate 2048 0)")
  case (Pair r b)
  then show ?thesis
    using mission_plan_canonical [OF reference_plan_valid(1), of "replicate 2048 0"] reference_plan_valid(2)
    by (cases r) auto
qed

end
