(* ===== verification/Event_Journal.thy ===== *)
theory Event_Journal
  imports Operations_Records
begin

text \<open>
  The event journal of the flight package (\<^verbatim>\<open>flight/src/phase11.rs\<close>): a ring of 32 chained
  records.  It refines an unbounded log of which the last 32 entries are kept; recovery
  reads the kept entries in order.
\<close>

unbundle bit_operations_syntax

definition EVENT_JOURNAL_CAPACITY :: nat where "EVENT_JOURNAL_CAPACITY = 32"

record EventJournal =
  jn_records :: "EventJournalRecord list"
  jn_start :: u8
  jn_len :: u8
  next_sequence :: u32
  jn_chain :: u32

definition new_event_journal :: EventJournal where
  "new_event_journal = \<lparr>jn_records = replicate EVENT_JOURNAL_CAPACITY EMPTY_RECORD, jn_start = 0, jn_len = 0,
     next_sequence = 1, jn_chain = 0x811c9dc5\<rparr>"

definition journal_hash_word :: "u32 \<Rightarrow> u32 \<Rightarrow> u32" where
  "journal_hash_word hash value = foldl (\<lambda>hash byte. (hash XOR ucast byte) * 0x01000193) hash (to_le_bytes32 value)"

definition hash_journal :: "u32 \<Rightarrow> u32 \<Rightarrow> u32 \<Rightarrow> u8 \<Rightarrow> u32 \<Rightarrow> u32 \<Rightarrow> i32 list \<Rightarrow> u32" where
  "hash_journal hash sq ep knd prim secnd args =
     (let hash = foldl journal_hash_word hash [sq, ep, ucast knd, prim, secnd]
      in foldl journal_hash_word hash args)"

definition journal_append :: "EventJournal \<Rightarrow> u32 \<Rightarrow> JournalEventKind \<Rightarrow> u32 \<Rightarrow> u32 \<Rightarrow> i32 list
    \<Rightarrow> EventJournalRecord \<times> EventJournal" where
  "journal_append self ep knd prim secnd args =
     (let prior = jn_chain self;
          self = self\<lparr>jn_chain := hash_journal (jn_chain self) (next_sequence self) ep (journal_kind_tag knd)
                   prim secnd args\<rparr>;
          entry = \<lparr>jr_sequence = next_sequence self, jr_epoch = ep, jr_kind = knd, jr_flags = 0,
                    primary_identity = prim, secondary_identity = secnd, jr_arguments = args,
                    prior_chain = prior, chain = jn_chain self\<rparr>;
          (index, self) =
            (if unat (jn_len self) < EVENT_JOURNAL_CAPACITY
             then ((unat (jn_start self) + unat (jn_len self)) mod EVENT_JOURNAL_CAPACITY,
                   self\<lparr>jn_len := jn_len self + 1\<rparr>)
             else (unat (jn_start self),
                   self\<lparr>jn_start := of_nat ((unat (jn_start self) + 1) mod EVENT_JOURNAL_CAPACITY)\<rparr>));
          self = self\<lparr>jn_records := (jn_records self)[index := entry],
                   next_sequence := saturating_add (next_sequence self) 1\<rparr>
      in (entry, self))"

definition recover_step :: "EventJournal \<Rightarrow> u32 \<Rightarrow> nat \<Rightarrow> nat \<times> EventJournalRecord list \<Rightarrow> nat \<times> EventJournalRecord list" where
  "recover_step self sq offset acc =
     (let (written, output) = acc;
          entry = jn_records self ! ((unat (jn_start self) + offset) mod EVENT_JOURNAL_CAPACITY)
      in if sq < jr_sequence entry \<and> written < length output
         then (written + 1, output[written := entry]) else (written, output))"

definition recover_after :: "EventJournal \<Rightarrow> u32 \<Rightarrow> EventJournalRecord list \<Rightarrow> nat \<times> EventJournalRecord list" where
  "recover_after self sq output =
     fold (recover_step self sq) [0..<unat (jn_len self)] (0, output)"

subsection \<open>The abstract log\<close>

text \<open>A requested entry, and the records an unbounded log would hold, oldest first.\<close>

type_synonym journal_entry = "u32 \<times> JournalEventKind \<times> u32 \<times> u32 \<times> i32 list"

fun log_from :: "u32 \<Rightarrow> u32 \<Rightarrow> journal_entry list \<Rightarrow> EventJournalRecord list" where
  "log_from sq prior [] = []"
| "log_from sq prior ((ep, knd, prim, secnd, args) # es) =
     (let next = hash_journal prior sq ep (journal_kind_tag knd) prim secnd args
      in \<lparr>jr_sequence = sq, jr_epoch = ep, jr_kind = knd, jr_flags = 0, primary_identity = prim,
          secondary_identity = secnd, jr_arguments = args, prior_chain = prior, chain = next\<rparr>
         # log_from (saturating_add sq 1) next es)"

fun append_all :: "EventJournal \<Rightarrow> journal_entry list \<Rightarrow> EventJournal" where
  "append_all self [] = self"
| "append_all self ((ep, knd, prim, secnd, args) # es) =
     append_all (snd (journal_append self ep knd prim secnd args)) es"

definition last_n :: "nat \<Rightarrow> 'a list \<Rightarrow> 'a list" where
  "last_n n xs = drop (length xs - n) xs"

definition contents :: "EventJournal \<Rightarrow> EventJournalRecord list" where
  "contents self = map (\<lambda>offset. jn_records self ! ((unat (jn_start self) + offset) mod EVENT_JOURNAL_CAPACITY))
     [0..<unat (jn_len self)]"

definition journal_wf :: "EventJournal \<Rightarrow> bool" where
  "journal_wf self \<longleftrightarrow> length (jn_records self) = EVENT_JOURNAL_CAPACITY
     \<and> unat (jn_start self) < EVENT_JOURNAL_CAPACITY \<and> unat (jn_len self) \<le> EVENT_JOURNAL_CAPACITY"

lemma last_n_snoc:
  "0 < n \<Longrightarrow> last_n n (xs @ [x]) = (if length xs < n then xs @ [x] else drop (length xs + 1 - n) xs @ [x])"
  by (auto simp: last_n_def)

lemma last_n_append: "last_n n (last_n n xs @ ys) = last_n n (xs @ ys)"
  by (cases "n \<le> length xs") (auto simp: last_n_def simp: add.commute)

lemma mod_32: "(a :: nat) < 32 \<Longrightarrow> b \<le> 32 \<Longrightarrow> (a + b) mod 32 = (if a + b < 32 then a + b else a + b - 32)"
  by (auto simp: mod_if)

lemma ring_update:
  assumes "length r = 32" "s < 32" "k < 32"
  shows "map (\<lambda>i. r[(s + k) mod 32 := x] ! ((s + i) mod 32)) [0..<k] = map (\<lambda>i. r ! ((s + i) mod 32)) [0..<k]"
    "r[(s + k) mod 32 := x] ! ((s + k) mod 32) = x"
    "map (\<lambda>i. r[s := x] ! (((s + 1) mod 32 + i) mod 32)) [0..<32] = tl (map (\<lambda>i. r ! ((s + i) mod 32)) [0..<32]) @ [x]"
proof -
  have ne: "(s + k) mod 32 \<noteq> (s + i) mod 32" if "i < k" for i
    using that assms(2,3) by (auto simp: mod_32)
  show "map (\<lambda>i. r[(s + k) mod 32 := x] ! ((s + i) mod 32)) [0..<k] = map (\<lambda>i. r ! ((s + i) mod 32)) [0..<k]"
  proof (rule map_cong [OF refl])
    fix i
    assume "i \<in> set [0..<k]"
    then show "r[(s + k) mod 32 := x] ! ((s + i) mod 32) = r ! ((s + i) mod 32)" using ne [of i] by simp
  qed
  show "r[(s + k) mod 32 := x] ! ((s + k) mod 32) = x" using assms(1) by simp
  have m: "((s + 1) mod 32 + i) mod 32 = (if i = 31 then s else (s + (i + 1)) mod 32)" if "i < 32" for i
    using that assms(2) by (auto simp: mod_if)
  have o: "(s + (i + 1)) mod 32 \<noteq> s" if "i < 31" for i using that assms(2) by (auto simp: mod_if)
  show "map (\<lambda>i. r[s := x] ! (((s + 1) mod 32 + i) mod 32)) [0..<32] = tl (map (\<lambda>i. r ! ((s + i) mod 32)) [0..<32]) @ [x]"
  proof (rule nth_equalityI)
    fix i
    assume "i < length (map (\<lambda>i. r[s := x] ! (((s + 1) mod 32 + i) mod 32)) [0..<32])"
    then have i: "i < 32" by simp
    then consider "i = 31" | "i < 31" by linarith
    then show "map (\<lambda>i. r[s := x] ! (((s + 1) mod 32 + i) mod 32)) [0..<32] ! i
        = (tl (map (\<lambda>i. r ! ((s + i) mod 32)) [0..<32]) @ [x]) ! i"
    proof cases
      case 1
      then show ?thesis using m [of 31] assms(1,2) by (simp add: nth_append)
    next
      case 2
      then show ?thesis using m [OF i] o [of i] i assms(1) by (simp add: nth_append nth_tl)
    qed
  qed simp
qed

lemma journal_append_chain:
  assumes "journal_append self ep knd prim secnd args = (entry, self')"
  shows "log_from (next_sequence self) (jn_chain self) [(ep, knd, prim, secnd, args)] = [entry]"
    "next_sequence self' = saturating_add (next_sequence self) 1" "jn_chain self' = chain entry"
  using assms by (auto simp: journal_append_def Let_def split: prod.splits if_splits)

lemma journal_append_contents:
  assumes "journal_wf self" "journal_append self ep knd prim secnd args = (entry, self')"
  shows "journal_wf self' \<and> contents self' = last_n 32 (contents self @ [entry])"
proof -
  have w: "length (jn_records self) = 32" "unat (jn_start self) < 32" "unat (jn_len self) \<le> 32"
    using assms(1) by (simp_all add: journal_wf_def EVENT_JOURNAL_CAPACITY_def)
  have l: "length (contents self) = unat (jn_len self)" by (simp add: contents_def)
  show ?thesis
  proof (cases "unat (jn_len self) < 32")
    case True
    then have inc: "unat (jn_len self + 1) = unat (jn_len self) + 1" by (subst unat_add_lem [THEN iffD1]) simp_all
    have "self' = self\<lparr>jn_chain := chain entry, jn_len := jn_len self + 1,
        jn_records := (jn_records self)[(unat (jn_start self) + unat (jn_len self)) mod 32 := entry],
        next_sequence := saturating_add (next_sequence self) 1\<rparr>"
      using assms(2) True by (auto simp: journal_append_def Let_def EVENT_JOURNAL_CAPACITY_def)
    then have "contents self' = contents self @ [entry]" "journal_wf self'"
      using ring_update(1,2) [OF w(1,2) True, of entry] w True inc
      by (simp_all add: contents_def EVENT_JOURNAL_CAPACITY_def journal_wf_def)
    then show ?thesis using l True by (simp add: last_n_def)
  next
    case False
    then have full: "unat (jn_len self) = 32" using w(3) by simp
    have st: "unat (of_nat ((unat (jn_start self) + 1) mod 32) :: u8) = (unat (jn_start self) + 1) mod 32"
      using mod_less_divisor [of 32 "unat (jn_start self) + 1"] by (simp add: unat_of_nat)
    have "self' = self\<lparr>jn_chain := chain entry, jn_start := of_nat ((unat (jn_start self) + 1) mod 32),
        jn_records := (jn_records self)[unat (jn_start self) := entry],
        next_sequence := saturating_add (next_sequence self) 1\<rparr>"
      using assms(2) False by (auto simp: journal_append_def Let_def EVENT_JOURNAL_CAPACITY_def)
    then have "contents self' = tl (contents self) @ [entry]" "journal_wf self'"
      using ring_update(3) [OF w(1,2), of 0 entry] w full st
      by (simp_all add: contents_def EVENT_JOURNAL_CAPACITY_def journal_wf_def)
    moreover have "drop (Suc 0) (contents self) = tl (contents self)" by (simp add: drop_Suc)
    ultimately show ?thesis using l full by (simp add: last_n_def)
  qed
qed

text \<open>Any sequence of appends keeps the last 32 entries of the unbounded log.\<close>

lemma append_all_contents:
  assumes "journal_wf self" "contents self = last_n 32 old"
  shows "journal_wf (append_all self es)
    \<and> contents (append_all self es) = last_n 32 (old @ log_from (next_sequence self) (jn_chain self) es)"
  using assms
proof (induction es arbitrary: self old)
  case (Cons e es)
  obtain ep knd prim secnd args where e: "e = (ep, knd, prim, secnd, args)" by (rule prod_cases5)
  obtain entry self' where a: "journal_append self ep knd prim secnd args = (entry, self')" by fastforce
  note c = journal_append_chain [OF a] and w = journal_append_contents [OF Cons.prems(1) a]
  have l: "log_from (next_sequence self) (jn_chain self) (e # es)
      = entry # log_from (next_sequence self') (jn_chain self') es"
    using c by (auto simp: e Let_def)
  have "contents self' = last_n 32 (old @ [entry])" using w Cons.prems(2) last_n_append by metis
  then show ?case using Cons.IH [of self' "old @ [entry]"] w l a by (simp add: e)
qed (simp add: last_n_def)

lemma new_journal_wf: "journal_wf new_event_journal" "contents new_event_journal = []"
  by (simp_all add: journal_wf_def new_event_journal_def contents_def EVENT_JOURNAL_CAPACITY_def)

subsection \<open>Recovery\<close>

definition copied :: "'a list \<Rightarrow> 'a list \<Rightarrow> nat \<times> 'a list" where
  "copied xs output = (min (length xs) (length output), take (length output) xs @ drop (length xs) output)"

lemma copied_snoc:
  "copied (xs @ [x]) output =
     (let (written, out) = copied xs output
      in if written < length out then (written + 1, out[written := x]) else (written, out))"
proof (cases "length xs < length output")
  case True
  then have "drop (length xs) output = output ! length xs # drop (Suc (length xs)) output"
    by (rule Cons_nth_drop_Suc [symmetric])
  then show ?thesis using True by (simp add: copied_def list_update_append min_def)
qed (simp add: copied_def min_def)

lemma recover_fold:
  "fold (recover_step self sq) [0..<k] (0, output)
     = copied (filter (\<lambda>r. sq < jr_sequence r)
         (map (\<lambda>offset. jn_records self ! ((unat (jn_start self) + offset) mod EVENT_JOURNAL_CAPACITY)) [0..<k])) output"
  by (induction k) (auto simp: copied_def [of "[]"] recover_step_def copied_snoc Let_def split: prod.splits)

lemma recover_after_contents:
  "recover_after self sq output = copied (filter (\<lambda>r. sq < jr_sequence r) (contents self)) output"
  by (simp add: recover_after_def recover_fold contents_def)

subsection \<open>The log\<close>

lemma log_from_simps:
  "length (log_from sq prior es) = length es"
  "log_from sq prior (es @ fs) = log_from sq prior es
     @ log_from (foldl (\<lambda>sq _. saturating_add sq 1) sq es) (foldl (\<lambda>_ r. chain r) prior (log_from sq prior es)) fs"
  by (induction es arbitrary: sq prior) (auto simp: Let_def)

lemma log_sequences:
  "unat sq + length es < 2 ^ 32 \<Longrightarrow> i < length es \<Longrightarrow> unat (jr_sequence (log_from sq prior es ! i)) = unat sq + i"
proof (induction es arbitrary: sq prior i)
  case (Cons e es)
  obtain ep knd prim secnd args where e: "e = (ep, knd, prim, secnd, args)" by (rule prod_cases5)
  have "unat (saturating_add sq 1) = unat sq + 1" using Cons.prems(1) by (simp add: unat_saturating_add)
  then show ?case using Cons by (cases i) (auto simp: e Let_def)
qed simp

definition record_bytes :: "EventJournalRecord \<Rightarrow> u8 list" where
  "record_bytes r = concat (map to_le_bytes32
     ([jr_sequence r, jr_epoch r, ucast (journal_kind_tag (jr_kind r)), primary_identity r, secondary_identity r]
      @ jr_arguments r))"

lemma journal_words_fnv: "foldl journal_hash_word h ws = foldl fnv1a_byte h (concat (map to_le_bytes32 ws))"
proof -
  have "journal_hash_word h w = foldl fnv1a_byte h (to_le_bytes32 w)" for h w
    by (simp add: journal_hash_word_def to_le_bytes32_def fnv1a_byte_def)
  then show ?thesis by (induction ws arbitrary: h) simp_all
qed

lemma hash_journal_fnv:
  "hash_journal h sq ep knd prim secnd args
     = foldl fnv1a_byte h (concat (map to_le_bytes32 ([sq, ep, ucast knd, prim, secnd] @ args)))"
  by (simp only: hash_journal_def journal_words_fnv Let_def map_append concat_append foldl_append)

lemma log_chain:
  "i < length es \<Longrightarrow>
     chain (log_from sq prior es ! i) = foldl fnv1a_byte prior (concat (map record_bytes (take (Suc i) (log_from sq prior es))))
     \<and> prior_chain (log_from sq prior es ! i) = (if i = 0 then prior else chain (log_from sq prior es ! (i - 1)))"
proof (induction es arbitrary: sq prior i)
  case (Cons e es)
  obtain ep knd prim secnd args where e: "e = (ep, knd, prim, secnd, args)" by (rule prod_cases5)
  show ?case
    using Cons.prems Cons.IH
    by (cases i) (auto simp: e Let_def hash_journal_fnv record_bytes_def nth_Cons')
qed simp

lemma journal_recovers_full:
  "recover_after (append_all new_event_journal es) sq output
     = copied (filter (\<lambda>r. sq < jr_sequence r) (last_n 32 (log_from 1 0x811c9dc5 es))) output"
  using append_all_contents [of new_event_journal "[]" es] new_journal_wf
  by (simp add: recover_after_contents last_n_def new_event_journal_def)

text \<open>
  The event journal.  After any sequence of appends to a fresh journal a recovery writes
  exactly the records above the requested sequence number, in order, from the last 32 of
  the unbounded log, as many as fit the output, and leaves the rest of the output as it was.
\<close>
theorem journal_recovers_log:
  "recover_after (append_all new_event_journal es) sq output
     = copied (filter (\<lambda>r. sq < jr_sequence r) (last_n 32 (log_from 1 0x811c9dc5 es))) output"
  by (rule journal_recovers_full)

lemma filter_suffix:
  assumes "\<And>i. i < length xs \<Longrightarrow> P (xs ! i) \<longleftrightarrow> k \<le> i"
  shows "filter P xs = drop k xs"
  using assms
proof (induction xs arbitrary: k)
  case (Cons x xs)
  have "P (xs ! i) \<longleftrightarrow> k - 1 \<le> i" if "i < length xs" for i
    using Cons.prems [of "Suc i"] that by auto
  then have "filter P xs = drop (k - 1) xs" by (rule Cons.IH)
  then show ?case using Cons.prems [of 0] by (cases k) auto
qed simp

text \<open>
  No event is lost to a receiver that is at most 32 records behind.  Asked for the
  records after the first \<^verbatim>\<open>length old\<close> ones, the journal returns all later ones, numbered
  consecutively, each carrying the FNV-1a hash of all records up to itself as its chain
  value and its predecessor's as its prior chain value.
\<close>
theorem journal_recovery_complete:
  assumes "length (old @ new) + 1 < 2 ^ 32" "length new \<le> 32" "length new \<le> length output"
  defines "full \<equiv> log_from 1 0x811c9dc5 (old @ new)"
  shows "recover_after (append_all new_event_journal (old @ new)) (of_nat (length old)) output
       = (length new, drop (length old) full @ drop (length new) output)
     \<and> length full = length (old @ new)
     \<and> (\<forall>i < length full. unat (jr_sequence (full ! i)) = i + 1
          \<and> chain (full ! i) = fnv1a_32 (concat (map record_bytes (take (Suc i) full)))
          \<and> (0 < i \<longrightarrow> prior_chain (full ! i) = chain (full ! (i - 1))))"
proof -
  have len: "length full = length (old @ new)" by (simp add: full_def log_from_simps)
  have sqs: "unat (jr_sequence (full ! i)) = i + 1" if "i < length full" for i
    using that log_sequences [where sq = 1 and es = "old @ new" and i = i and prior = "0x811c9dc5"] assms(1) len by (simp add: full_def)
  have ch: "chain (full ! i) = fnv1a_32 (concat (map record_bytes (take (Suc i) full)))"
      "0 < i \<Longrightarrow> prior_chain (full ! i) = chain (full ! (i - 1))" if "i < length full" for i
    using that log_chain [where i = i and es = "old @ new" and sq = 1 and prior = "0x811c9dc5"] len by (simp_all add: full_def fnv1a_32_def)
  have old: "unat (of_nat (length old) :: u32) = length old" using assms(1) by (simp add: unat_of_nat)
  let ?n = "length full - 32"
  have "filter (\<lambda>r. of_nat (length old) < jr_sequence r) (last_n 32 full) = drop (length old - ?n) (last_n 32 full)"
  proof (rule filter_suffix)
    fix i
    assume "i < length (last_n 32 full)"
    then have "?n + i < length full" by (simp add: last_n_def)
    then show "of_nat (length old) < jr_sequence (last_n 32 full ! i) \<longleftrightarrow> length old - ?n \<le> i"
      using sqs [of "?n + i"] old by (auto simp: last_n_def word_less_nat_alt)
  qed
  moreover have "?n \<le> length old" using len assms(2) by simp
  then have "drop (length old - ?n) (last_n 32 full) = drop (length old) full" by (simp add: last_n_def)
  ultimately have "recover_after (append_all new_event_journal (old @ new)) (of_nat (length old)) output
      = copied (drop (length old) full) output"
    by (simp add: journal_recovers_full full_def)
  then show ?thesis using len assms(3) sqs ch by (simp add: copied_def min_def)
qed

definition sample_entries :: "journal_entry list" where
  "sample_entries = [(0, CommunicationsEvent, 0, 0, [0, 0, 0, 0]), (7, ModeEvent, 1, 2, [3, 4, 5, 6])]"

theorem journal_recovery_complete_witness:
  "\<exists>r. recover_after (append_all new_event_journal sample_entries) 1 (replicate 4 EMPTY_RECORD)
       = (1, r # replicate 3 EMPTY_RECORD) \<and> jr_kind r = ModeEvent \<and> unat (jr_sequence r) = 2"
proof -
  define full where "full = log_from 1 0x811c9dc5 sample_entries"
  have len: "length sample_entries = 2" by (simp add: sample_entries_def)
  have f: "length full = 2" "jr_kind (full ! 1) = ModeEvent"
    by (simp_all add: full_def sample_entries_def Let_def)
  have "drop 1 full = full ! 1 # drop (Suc 1) full" using f by (metis Cons_nth_drop_Suc one_less_numeral_iff semiring_norm(76))
  then have d: "drop 1 full = [full ! 1]" using f by simp
  have m: "min (2::nat) 1 = 1" by simp
  note c = journal_recovery_complete [of "take 1 sample_entries" "drop 1 sample_entries" "replicate 4 EMPTY_RECORD",
    unfolded append_take_drop_id, folded full_def, unfolded length_take length_drop len m]
  have "recover_after (append_all new_event_journal sample_entries) 1 (replicate 4 EMPTY_RECORD)
      = (1, drop 1 full @ replicate 3 EMPTY_RECORD)" "unat (jr_sequence (full ! 1)) = 2"
    using c f by simp_all
  then show ?thesis using d f(2) by simp
qed

end
