(* ===== verification/Global_Cells.thy ===== *)
theory Global_Cells
  imports Operations_Records Sealed_Records
begin

text \<open>
  The raw cells of the phase 10 global-flight link (\<^verbatim>\<open>interface/src/phase10.rs\<close>): fast
  sensor, aiding, frame transition, command and status cells, each with its writer and
  its strict parser. Arrays of three and four are tuples, the twelve pulse quanta a
  list.
\<close>

unbundle bit_operations_syntax

subsection \<open>Constants and helpers\<close>

type_synonym 'a vec4 = "'a \<times> 'a \<times> 'a \<times> 'a"

fun at4 :: "'a vec4 \<Rightarrow> nat \<Rightarrow> 'a" where
  "at4 (w, x, y, z) i = (if i = 0 then w else if i = 1 then x else if i = 2 then y else z)"

definition make4 :: "(nat \<Rightarrow> 'a) \<Rightarrow> 'a vec4" where
  "make4 f = (f 0, f 1, f 2, f 3)"

lemma make4_at4 [simp]: "(at4 v 0, at4 v (Suc 0), at4 v 2, at4 v 3) = v"
  by (cases v) simp

definition KLR10_SYNC :: "u8 list" where "KLR10_SYNC = [0xda, 0x5a]"
definition GLOBAL_FAST_SENSOR_LENGTH :: nat where "GLOBAL_FAST_SENSOR_LENGTH = 64"
definition GLOBAL_AID_FRAME_LENGTH :: nat where "GLOBAL_AID_FRAME_LENGTH = 96"
definition GLOBAL_TRANSITION_LENGTH :: nat where "GLOBAL_TRANSITION_LENGTH = 192"
definition GLOBAL_COMMAND_LENGTH :: nat where "GLOBAL_COMMAND_LENGTH = 64"
definition GLOBAL_STATUS_LENGTH :: nat where "GLOBAL_STATUS_LENGTH = 96"

definition GLOBAL_FAST_DELTA_V :: u8 where "GLOBAL_FAST_DELTA_V = 1"
definition GLOBAL_FAST_DELTA_ANGLE :: u8 where "GLOBAL_FAST_DELTA_ANGLE = 2"
definition GLOBAL_FAST_ATTITUDE :: u8 where "GLOBAL_FAST_ATTITUDE = 4"
definition GLOBAL_FAST_VALID_MASK :: u8 where "GLOBAL_FAST_VALID_MASK = 63"
definition GLOBAL_AID_BAROMETER :: u8 where "GLOBAL_AID_BAROMETER = 1"
definition GLOBAL_AID_GNSS :: u8 where "GLOBAL_AID_GNSS = 2"
definition GLOBAL_AID_ATTITUDE :: u8 where "GLOBAL_AID_ATTITUDE = 4"
definition GLOBAL_AID_FRAME_SERVICE :: u8 where "GLOBAL_AID_FRAME_SERVICE = 8"
definition GLOBAL_AID_CONTINUITY :: u8 where "GLOBAL_AID_CONTINUITY = 16"
definition GLOBAL_AID_DEPLOYMENT_FEEDBACK :: u8 where "GLOBAL_AID_DEPLOYMENT_FEEDBACK = 32"
definition GLOBAL_AID_VALID_MASK :: u8 where "GLOBAL_AID_VALID_MASK = 63"
definition GLOBAL_COMMAND_DROGUE :: u8 where "GLOBAL_COMMAND_DROGUE = 1"
definition GLOBAL_COMMAND_MAIN :: u8 where "GLOBAL_COMMAND_MAIN = 2"
definition GLOBAL_COMMAND_SAFE :: u8 where "GLOBAL_COMMAND_SAFE = 4"
definition GLOBAL_COMMAND_DISCRETE_MASK :: u8 where "GLOBAL_COMMAND_DISCRETE_MASK = 7"
definition GLOBAL_COMMAND_HOLD :: u8 where "GLOBAL_COMMAND_HOLD = 1"
definition GLOBAL_COMMAND_RCS_RESERVED :: u8 where "GLOBAL_COMMAND_RCS_RESERVED = 4"
definition GLOBAL_COMMAND_FLAG_MASK :: u8 where "GLOBAL_COMMAND_FLAG_MASK = 7"

definition parse_frame_id :: "u8 \<Rightarrow> CodecError + GlobalFrameId" where
  "parse_frame_id v =
     (if v = 1 then Inr LocalEnuV1 else if v = 2 then Inr EarthFixedEcefV1
      else if v = 3 then Inr EarthInertialEciV1 else Inl Enum)"

definition global_prefix :: "u8 \<Rightarrow> u16 \<Rightarrow> u16 \<Rightarrow> u16 \<Rightarrow> store list" where
  "global_prefix kind session first second =
     [(0, KLR10_SYNC), p8 2 10, p8 3 kind, p16 4 session, p16 6 first, p16 8 second]"

definition global_check :: "u8 list \<Rightarrow> nat \<Rightarrow> u8 \<Rightarrow> CodecError + unit" where
  "global_check b n kind =
     (if length b \<noteq> n then Inl CodecError.Length
      else if take 2 b \<noteq> KLR10_SYNC \<or> b ! 2 \<noteq> 10 \<or> b ! 3 \<noteq> kind then Inl Enum
      else if crc16_ccitt (take (n - 2) b) \<noteq> read_u16 b (n - 2) then Inl Checksum
      else Inr ())"

subsection \<open>Fast sensor cells\<close>

record GlobalFastSensorCell =
  gf_session :: u16
  gf_measurement_epoch :: u16
  gf_production_epoch :: u16
  gf_frame :: GlobalFrameId
  gf_validity :: u8
  gf_mission_time_q16 :: u32
  delta_velocity_q24 :: "i16 vec3"
  delta_angle_q24 :: "i16 vec3"
  attitude_vector_q15 :: "i16 vec3"
  angular_rate_q15 :: "i16 vec3"
  dynamic_pressure_q10 :: i32
  mach_q12 :: i16
  gimbal_applied_q15 :: "i16 \<times> i16"
  rcs_propellant_q21 :: i32
  actuator_feedback :: u16
  gf_vehicle_status :: u16
  gf_sensor_checksum :: u16

definition fast_sensor_fields :: "GlobalFastSensorCell \<Rightarrow> store list" where
  "fast_sensor_fields v =
     global_prefix 1 (gf_session v) (gf_measurement_epoch v) (gf_production_epoch v)
     @ [p8 10 (frame_tag (gf_frame v)), p8 11 (gf_validity v), p32 12 (gf_mission_time_q16 v)]
     @ each 3 (\<lambda>axis. [pi16 (16 + axis * 2) (at3 (delta_velocity_q24 v) axis),
          pi16 (22 + axis * 2) (at3 (delta_angle_q24 v) axis),
          pi16 (28 + axis * 2) (at3 (attitude_vector_q15 v) axis),
          pi16 (34 + axis * 2) (at3 (angular_rate_q15 v) axis)])
     @ [pi32 40 (dynamic_pressure_q10 v), pi16 44 (mach_q12 v), pi16 46 (fst (gimbal_applied_q15 v)),
        pi16 48 (snd (gimbal_applied_q15 v)), pi32 50 (rcs_propellant_q21 v), p16 54 (actuator_feedback v),
        p16 56 (gf_vehicle_status v), p16 58 (gf_sensor_checksum v)]"

definition write_global_fast_sensor :: "GlobalFastSensorCell \<Rightarrow> u8 list \<Rightarrow> (CodecError + unit) \<times> u8 list" where
  "write_global_fast_sensor v out =
     (if length out \<noteq> GLOBAL_FAST_SENSOR_LENGTH \<or> gf_validity v AND NOT GLOBAL_FAST_VALID_MASK \<noteq> 0
      then (Inl Flags, out)
      else (Inr (), seal16 (put_fields (fill0 out) (fast_sensor_fields v))))"

definition parse_global_fast_sensor :: "u8 list \<Rightarrow> CodecError + GlobalFastSensorCell" where
  "parse_global_fast_sensor b =
     and_then (global_check b GLOBAL_FAST_SENSOR_LENGTH 1) (\<lambda>u.
       if b ! 11 AND NOT GLOBAL_FAST_VALID_MASK \<noteq> 0 \<or> b ! 60 \<noteq> 0 \<or> b ! 61 \<noteq> 0 then Inl Reserved
       else and_then (parse_frame_id (b ! 10)) (\<lambda>frame.
         Inr \<lparr>gf_session = read_u16 b 4, gf_measurement_epoch = read_u16 b 6, gf_production_epoch = read_u16 b 8,
              gf_frame = frame, gf_validity = b ! 11, gf_mission_time_q16 = read_u32 b 12,
              delta_velocity_q24 = make3 (\<lambda>axis. read_i16 b (16 + axis * 2)),
              delta_angle_q24 = make3 (\<lambda>axis. read_i16 b (22 + axis * 2)),
              attitude_vector_q15 = make3 (\<lambda>axis. read_i16 b (28 + axis * 2)),
              angular_rate_q15 = make3 (\<lambda>axis. read_i16 b (34 + axis * 2)),
              dynamic_pressure_q10 = read_i32 b 40, mach_q12 = read_i16 b 44,
              gimbal_applied_q15 = (read_i16 b 46, read_i16 b 48), rcs_propellant_q21 = read_i32 b 50,
              actuator_feedback = read_u16 b 54, gf_vehicle_status = read_u16 b 56,
              gf_sensor_checksum = read_u16 b 58\<rparr>))"

subsection \<open>Aiding cells\<close>

record GlobalAidFrameCell =
  ga_session :: u16
  ga_measurement_epoch :: u16
  ga_production_epoch :: u16
  ga_frame :: GlobalFrameId
  ga_validity :: u8
  ga_mission_time_q16 :: u32
  barometer_q12_km :: i32
  gnss_position_q12_km :: "i32 vec3"
  gnss_velocity_q24_km_s :: "i32 vec3"
  ga_attitude_q30 :: "i32 vec4"
  frame_rotation_q30 :: "i32 vec4"
  frame_omega_q24 :: "i32 vec3"
  ga_events :: u16
  continuity :: u16
  deployment_feedback :: u16

definition aid_frame_fields :: "GlobalAidFrameCell \<Rightarrow> store list" where
  "aid_frame_fields v =
     global_prefix 2 (ga_session v) (ga_measurement_epoch v) (ga_production_epoch v)
     @ [p8 10 (frame_tag (ga_frame v)), p8 11 (ga_validity v), p32 12 (ga_mission_time_q16 v),
        pi32 16 (barometer_q12_km v)]
     @ each 3 (\<lambda>axis. [pi32 (20 + axis * 4) (at3 (gnss_position_q12_km v) axis),
          pi32 (32 + axis * 4) (at3 (gnss_velocity_q24_km_s v) axis),
          pi32 (76 + axis * 4) (at3 (frame_omega_q24 v) axis)])
     @ each 4 (\<lambda>component. [pi32 (44 + component * 4) (at4 (ga_attitude_q30 v) component),
          pi32 (60 + component * 4) (at4 (frame_rotation_q30 v) component)])
     @ [p16 88 (ga_events v), p16 90 (continuity v), p16 92 (deployment_feedback v)]"

definition write_global_aid_frame :: "GlobalAidFrameCell \<Rightarrow> u8 list \<Rightarrow> (CodecError + unit) \<times> u8 list" where
  "write_global_aid_frame v out =
     (if length out \<noteq> GLOBAL_AID_FRAME_LENGTH \<or> ga_validity v AND NOT GLOBAL_AID_VALID_MASK \<noteq> 0
      then (Inl Flags, out)
      else (Inr (), seal16 (put_fields (fill0 out) (aid_frame_fields v))))"

definition parse_global_aid_frame :: "u8 list \<Rightarrow> CodecError + GlobalAidFrameCell" where
  "parse_global_aid_frame b =
     and_then (global_check b GLOBAL_AID_FRAME_LENGTH 2) (\<lambda>u.
       if b ! 11 AND NOT GLOBAL_AID_VALID_MASK \<noteq> 0 then Inl Flags
       else and_then (parse_frame_id (b ! 10)) (\<lambda>frame.
         Inr \<lparr>ga_session = read_u16 b 4, ga_measurement_epoch = read_u16 b 6, ga_production_epoch = read_u16 b 8,
              ga_frame = frame, ga_validity = b ! 11, ga_mission_time_q16 = read_u32 b 12,
              barometer_q12_km = read_i32 b 16,
              gnss_position_q12_km = make3 (\<lambda>axis. read_i32 b (20 + axis * 4)),
              gnss_velocity_q24_km_s = make3 (\<lambda>axis. read_i32 b (32 + axis * 4)),
              ga_attitude_q30 = make4 (\<lambda>component. read_i32 b (44 + component * 4)),
              frame_rotation_q30 = make4 (\<lambda>component. read_i32 b (60 + component * 4)),
              frame_omega_q24 = make3 (\<lambda>axis. read_i32 b (76 + axis * 4)),
              ga_events = read_u16 b 88, continuity = read_u16 b 90, deployment_feedback = read_u16 b 92\<rparr>))"

subsection \<open>Frame transition cells\<close>

record GlobalTransitionCell =
  gt_session :: u16
  gt_source_epoch :: u16
  gt_effective_epoch :: u16
  gt_from :: GlobalFrameId
  gt_to :: GlobalFrameId
  gt_flags :: u16
  gt_mission_time_q16 :: u32
  transform_identity :: u32
  rotation_q30 :: "i32 vec4"
  omega_q24 :: "i32 vec3"
  pre_position_q12 :: "i32 vec3"
  post_position_q12 :: "i32 vec3"
  pre_velocity_q24 :: "i32 vec3"
  post_velocity_q24 :: "i32 vec3"
  pre_attitude_q30 :: "i32 vec4"
  post_attitude_q30 :: "i32 vec4"
  pre_rate_q24 :: "i32 vec3"
  post_rate_q24 :: "i32 vec3"
  translation_q12 :: "i32 vec3"
  velocity_bias_q24 :: "i32 vec3"
  transition_checksum :: u32

definition transition_fields :: "GlobalTransitionCell \<Rightarrow> store list" where
  "transition_fields v =
     global_prefix 3 (gt_session v) (gt_source_epoch v) (gt_effective_epoch v)
     @ [p8 10 (frame_tag (gt_from v)), p8 11 (frame_tag (gt_to v)), p16 12 (gt_flags v),
        p32 16 (gt_mission_time_q16 v), p32 20 (transform_identity v)]
     @ each 4 (\<lambda>component. [pi32 (24 + component * 4) (at4 (rotation_q30 v) component),
          pi32 (112 + component * 4) (at4 (pre_attitude_q30 v) component),
          pi32 (128 + component * 4) (at4 (post_attitude_q30 v) component)])
     @ each 3 (\<lambda>axis. [pi32 (40 + axis * 4) (at3 (omega_q24 v) axis),
          pi32 (52 + axis * 4) (at3 (pre_position_q12 v) axis),
          pi32 (64 + axis * 4) (at3 (post_position_q12 v) axis),
          pi32 (76 + axis * 4) (at3 (pre_velocity_q24 v) axis),
          pi32 (88 + axis * 4) (at3 (post_velocity_q24 v) axis),
          pi32 (100 + axis * 4) (at3 (pre_rate_q24 v) axis),
          pi32 (144 + axis * 4) (at3 (post_rate_q24 v) axis),
          pi32 (156 + axis * 4) (at3 (translation_q12 v) axis),
          pi32 (168 + axis * 4) (at3 (velocity_bias_q24 v) axis)])
     @ [p32 180 (transition_checksum v)]"

definition write_global_transition :: "GlobalTransitionCell \<Rightarrow> u8 list \<Rightarrow> (CodecError + unit) \<times> u8 list" where
  "write_global_transition v out =
     (if length out \<noteq> GLOBAL_TRANSITION_LENGTH \<or> gt_flags v \<noteq> 0 then (Inl Flags, out)
      else (Inr (), seal16 (put_fields (fill0 out) (transition_fields v))))"

definition parse_global_transition :: "u8 list \<Rightarrow> CodecError + GlobalTransitionCell" where
  "parse_global_transition b =
     and_then (global_check b GLOBAL_TRANSITION_LENGTH 3) (\<lambda>u.
       if b ! 14 \<noteq> 0 \<or> b ! 15 \<noteq> 0 \<or> read_u16 b 12 \<noteq> 0 \<or> (\<exists>byte \<in> set (take 6 (drop 184 b)). byte \<noteq> 0)
       then Inl Reserved
       else and_then (parse_frame_id (b ! 10)) (\<lambda>from. and_then (parse_frame_id (b ! 11)) (\<lambda>to.
         Inr \<lparr>gt_session = read_u16 b 4, gt_source_epoch = read_u16 b 6, gt_effective_epoch = read_u16 b 8,
              gt_from = from, gt_to = to, gt_flags = 0, gt_mission_time_q16 = read_u32 b 16,
              transform_identity = read_u32 b 20,
              rotation_q30 = make4 (\<lambda>component. read_i32 b (24 + component * 4)),
              omega_q24 = make3 (\<lambda>axis. read_i32 b (40 + axis * 4)),
              pre_position_q12 = make3 (\<lambda>axis. read_i32 b (52 + axis * 4)),
              post_position_q12 = make3 (\<lambda>axis. read_i32 b (64 + axis * 4)),
              pre_velocity_q24 = make3 (\<lambda>axis. read_i32 b (76 + axis * 4)),
              post_velocity_q24 = make3 (\<lambda>axis. read_i32 b (88 + axis * 4)),
              pre_attitude_q30 = make4 (\<lambda>component. read_i32 b (112 + component * 4)),
              post_attitude_q30 = make4 (\<lambda>component. read_i32 b (128 + component * 4)),
              pre_rate_q24 = make3 (\<lambda>axis. read_i32 b (100 + axis * 4)),
              post_rate_q24 = make3 (\<lambda>axis. read_i32 b (144 + axis * 4)),
              translation_q12 = make3 (\<lambda>axis. read_i32 b (156 + axis * 4)),
              velocity_bias_q24 = make3 (\<lambda>axis. read_i32 b (168 + axis * 4)),
              transition_checksum = read_u32 b 180\<rparr>)))"

subsection \<open>Command cells\<close>

record GlobalCommandCell =
  gc_session :: u16
  gc_source_epoch :: u16
  gc_effective_epoch :: u16
  gc_frame :: GlobalFrameId
  gc_flags :: u8
  gc_discrete :: u8
  gimbal_q15 :: "i16 \<times> i16"
  rcs_pulse_quanta :: "u8 list"
  torque_demand_q12 :: "i32 vec3"
  gc_status :: u16
  command_checksum :: u32

definition command_fields :: "GlobalCommandCell \<Rightarrow> store list" where
  "command_fields v =
     global_prefix 4 (gc_session v) (gc_source_epoch v) (gc_effective_epoch v)
     @ [p8 10 (frame_tag (gc_frame v)), p8 11 (gc_flags v), p8 12 (gc_discrete v),
        pi16 14 (fst (gimbal_q15 v)), pi16 16 (snd (gimbal_q15 v)), (18, rcs_pulse_quanta v)]
     @ each 3 (\<lambda>axis. [pi32 (30 + axis * 4) (at3 (torque_demand_q12 v) axis)])
     @ [p16 42 (gc_status v), p32 44 (command_checksum v)]"

definition write_global_command :: "GlobalCommandCell \<Rightarrow> u8 list \<Rightarrow> (CodecError + unit) \<times> u8 list" where
  "write_global_command v out =
     (if length out \<noteq> GLOBAL_COMMAND_LENGTH \<or> gc_flags v AND NOT GLOBAL_COMMAND_FLAG_MASK \<noteq> 0
         \<or> gc_discrete v AND NOT GLOBAL_COMMAND_DISCRETE_MASK \<noteq> 0
         \<or> (\<exists>quantum \<in> set (rcs_pulse_quanta v). 8 < quantum)
      then (Inl Flags, out)
      else (Inr (), seal16 (put_fields (fill0 out) (command_fields v))))"

definition parse_global_command :: "u8 list \<Rightarrow> CodecError + GlobalCommandCell" where
  "parse_global_command b =
     and_then (global_check b GLOBAL_COMMAND_LENGTH 4) (\<lambda>u.
       if b ! 11 AND NOT GLOBAL_COMMAND_FLAG_MASK \<noteq> 0 \<or> b ! 12 AND NOT GLOBAL_COMMAND_DISCRETE_MASK \<noteq> 0
          \<or> b ! 13 \<noteq> 0 \<or> (\<exists>quantum \<in> set (take 12 (drop 18 b)). 8 < quantum)
          \<or> (\<exists>byte \<in> set (take 14 (drop 48 b)). byte \<noteq> 0)
       then Inl Reserved
       else and_then (parse_frame_id (b ! 10)) (\<lambda>frame.
         Inr \<lparr>gc_session = read_u16 b 4, gc_source_epoch = read_u16 b 6, gc_effective_epoch = read_u16 b 8,
              gc_frame = frame, gc_flags = b ! 11, gc_discrete = b ! 12,
              gimbal_q15 = (read_i16 b 14, read_i16 b 16), rcs_pulse_quanta = take 12 (drop 18 b),
              torque_demand_q12 = make3 (\<lambda>axis. read_i32 b (30 + axis * 4)),
              gc_status = read_u16 b 42, command_checksum = read_u32 b 44\<rparr>))"

subsection \<open>Status cells\<close>

record GlobalStatusCell =
  gs_session :: u16
  gs_source_epoch :: u16
  gs_production_epoch :: u16
  gs_frame :: GlobalFrameId
  gs_mode :: u8
  gs_flags :: u16
  gs_alarms :: u16
  gs_position_q12 :: "i32 vec3"
  gs_velocity_q24 :: "i32 vec3"
  gs_attitude_q30 :: "i32 vec4"
  gs_covariance_proxy_q16 :: "i32 vec3"
  gs_sensor_checksum :: u32
  gs_navigation_checksum :: u32
  gs_command_checksum :: u32
  gs_flight_checksum :: u32
  gs_deadline_misses :: u16
  gs_transition_count :: u8

definition status_fields :: "GlobalStatusCell \<Rightarrow> store list" where
  "status_fields v =
     global_prefix 5 (gs_session v) (gs_source_epoch v) (gs_production_epoch v)
     @ [p8 10 (frame_tag (gs_frame v)), p8 11 (gs_mode v), p16 12 (gs_flags v), p16 14 (gs_alarms v)]
     @ each 3 (\<lambda>axis. [pi32 (16 + axis * 4) (at3 (gs_position_q12 v) axis),
          pi32 (28 + axis * 4) (at3 (gs_velocity_q24 v) axis),
          pi32 (56 + axis * 4) (at3 (gs_covariance_proxy_q16 v) axis)])
     @ each 4 (\<lambda>component. [pi32 (40 + component * 4) (at4 (gs_attitude_q30 v) component)])
     @ [p32 68 (gs_sensor_checksum v), p32 72 (gs_navigation_checksum v), p32 76 (gs_command_checksum v),
        p32 80 (gs_flight_checksum v), p16 84 (gs_deadline_misses v), p8 86 (gs_transition_count v)]"

definition write_global_status :: "GlobalStatusCell \<Rightarrow> u8 list \<Rightarrow> (CodecError + unit) \<times> u8 list" where
  "write_global_status v out =
     (if length out \<noteq> GLOBAL_STATUS_LENGTH then (Inl CodecError.Length, out)
      else (Inr (), seal16 (put_fields (fill0 out) (status_fields v))))"

definition parse_global_status :: "u8 list \<Rightarrow> CodecError + GlobalStatusCell" where
  "parse_global_status b =
     and_then (global_check b GLOBAL_STATUS_LENGTH 5) (\<lambda>u.
       if \<exists>byte \<in> set (take 7 (drop 87 b)). byte \<noteq> 0 then Inl Reserved
       else and_then (parse_frame_id (b ! 10)) (\<lambda>frame.
         Inr \<lparr>gs_session = read_u16 b 4, gs_source_epoch = read_u16 b 6, gs_production_epoch = read_u16 b 8,
              gs_frame = frame, gs_mode = b ! 11, gs_flags = read_u16 b 12, gs_alarms = read_u16 b 14,
              gs_position_q12 = make3 (\<lambda>axis. read_i32 b (16 + axis * 4)),
              gs_velocity_q24 = make3 (\<lambda>axis. read_i32 b (28 + axis * 4)),
              gs_attitude_q30 = make4 (\<lambda>component. read_i32 b (40 + component * 4)),
              gs_covariance_proxy_q16 = make3 (\<lambda>axis. read_i32 b (56 + axis * 4)),
              gs_sensor_checksum = read_u32 b 68, gs_navigation_checksum = read_u32 b 72,
              gs_command_checksum = read_u32 b 76, gs_flight_checksum = read_u32 b 80,
              gs_deadline_misses = read_u16 b 84, gs_transition_count = b ! 86\<rparr>))"

end
