(* ===== verification/Global_Vectors.thy ===== *)
theory Global_Vectors
  imports Global_Cells Interpolation
begin

text \<open>
  The fixed-point vector and attitude arithmetic of the phase 10 flight software
  (\<^verbatim>\<open>flight/src/phase10.rs\<close>). Products are formed in 64-bit integers, which are words
  here, so that a sum that leaves the range wraps as in a build without overflow
  checks; \<^verbatim>\<open>>>\<close> on a signed integer is the arithmetic shift. The saturating operations
  of the standard library are defined by clamping the exact integer result.
\<close>

unbundle bit_operations_syntax

type_synonym i64 = "64 word"
type_synonym u64 = "64 word"
subsection \<open>Saturating integers\<close>

definition clamp_int :: "int \<Rightarrow> int \<Rightarrow> int \<Rightarrow> int" where
  "clamp_int lower upper value = (if value < lower then lower else if upper < value then upper else value)"

definition sat_i32 :: "int \<Rightarrow> i32" where
  "sat_i32 value = word_of_int (clamp_int (- (2 ^ 31)) (2 ^ 31 - 1) value)"

definition saturating_add_i32 :: "i32 \<Rightarrow> i32 \<Rightarrow> i32" where
  "saturating_add_i32 a b = sat_i32 (sint a + sint b)"

definition saturating_sub_i32 :: "i32 \<Rightarrow> i32 \<Rightarrow> i32" where
  "saturating_sub_i32 a b = sat_i32 (sint a - sint b)"

definition saturating_mul_i32 :: "i32 \<Rightarrow> i32 \<Rightarrow> i32" where
  "saturating_mul_i32 a b = sat_i32 (sint a * sint b)"

definition saturating_neg_i32 :: "i32 \<Rightarrow> i32" where
  "saturating_neg_i32 a = sat_i32 (- sint a)"

lemma clamp_int_bounds: "lower \<le> upper \<Longrightarrow> lower \<le> clamp_int lower upper v \<and> clamp_int lower upper v \<le> upper"
  by (simp add: clamp_int_def)

lemma clamp_int_id [simp]: "lower \<le> v \<Longrightarrow> v \<le> upper \<Longrightarrow> clamp_int lower upper v = v"
  by (simp add: clamp_int_def)

lemma sint_of_int_i32: "- (2 ^ 31) \<le> x \<Longrightarrow> x < 2 ^ 31 \<Longrightarrow> sint (word_of_int x :: i32) = x"
  by (simp add: sint_sbintrunc' signed_take_bit_int_eq_self)

lemma sint_of_int_i16: "- (2 ^ 15) \<le> x \<Longrightarrow> x < 2 ^ 15 \<Longrightarrow> sint (word_of_int x :: i16) = x"
  by (simp add: sint_sbintrunc' signed_take_bit_int_eq_self)

lemma sint_i32_range: "- (2 ^ 31) \<le> sint (x :: i32)" "sint (x :: i32) < 2 ^ 31"
  using sint_greater_eq [of x] sint_less [of x] by simp_all

lemma sint_i16_range: "- (2 ^ 15) \<le> sint (x :: i16)" "sint (x :: i16) < 2 ^ 15"
  using sint_greater_eq [of x] sint_less [of x] by simp_all

lemma sint_sat_i32: "sint (sat_i32 v) = clamp_int (- (2 ^ 31)) (2 ^ 31 - 1) v"
  unfolding sat_i32_def using clamp_int_bounds [of "- (2 ^ 31)" "2 ^ 31 - 1" v] by (subst sint_of_int_i32) simp_all

subsection \<open>Vectors and quaternions\<close>

definition Q30_ONE :: i32 where "Q30_ONE = 0x40000000"

definition blend :: "i32 \<Rightarrow> i32 \<Rightarrow> nat \<Rightarrow> i32" where
  "blend current measurement shift =
     saturating_add_i32 current (signed_drop_bit shift (saturating_sub_i32 measurement current))"

definition clamp_i16 :: "i32 \<Rightarrow> i16" where
  "clamp_i16 value = word_of_int (clamp_int (- (2 ^ 15)) (2 ^ 15 - 1) (sint value))"

definition rounded_shift :: "i64 \<Rightarrow> nat \<Rightarrow> i32" where
  "rounded_shift value shift =
     (let mag :: u64 = word_of_int \<bar>sint value\<bar>;
          rounded = drop_bit shift (mag + push_bit (shift - 1) 1);
          signed = (if value <s 0 then - rounded else rounded)
      in word_of_int (clamp_int (- (2 ^ 31)) (2 ^ 31 - 1) (sint signed)))"

definition add_vector :: "i32 vec3 \<Rightarrow> i32 vec3 \<Rightarrow> i32 vec3" where
  "add_vector left right = make3 (\<lambda>i. saturating_add_i32 (at3 left i) (at3 right i))"

definition subtract_vector :: "i32 vec3 \<Rightarrow> i32 vec3 \<Rightarrow> i32 vec3" where
  "subtract_vector left right = make3 (\<lambda>i. saturating_sub_i32 (at3 left i) (at3 right i))"

definition cross_rate_position :: "i32 vec3 \<Rightarrow> i32 vec3 \<Rightarrow> i32 vec3" where
  "cross_rate_position rate_q24 position_q12 =
     (let r = \<lambda>i. scast (at3 rate_q24 i) :: i64; p = \<lambda>i. scast (at3 position_q12 i) :: i64
      in (rounded_shift (r 1 * p 2 - r 2 * p 1) 12,
          rounded_shift (r 2 * p 0 - r 0 * p 2) 12,
          rounded_shift (r 0 * p 1 - r 1 * p 0) 12))"

definition rotate_vector :: "i32 vec4 \<Rightarrow> i32 vec3 \<Rightarrow> i32 vec3" where
  "rotate_vector rotation vector =
     (let w = scast (at4 rotation 0) :: i64; x = scast (at4 rotation 1); y = scast (at4 rotation 2);
          z = scast (at4 rotation 3);
          one = push_bit 30 1;
          matrix = ((one - signed_drop_bit 30 (2 * (y * y + z * z)),
                     signed_drop_bit 30 (2 * (x * y - w * z)),
                     signed_drop_bit 30 (2 * (x * z + w * y))),
                    (signed_drop_bit 30 (2 * (x * y + w * z)),
                     one - signed_drop_bit 30 (2 * (x * x + z * z)),
                     signed_drop_bit 30 (2 * (y * z - w * x))),
                    (signed_drop_bit 30 (2 * (x * z - w * y)),
                     signed_drop_bit 30 (2 * (y * z + w * x)),
                     one - signed_drop_bit 30 (2 * (x * x + y * y))))
      in make3 (\<lambda>row. rounded_shift
           (at3 (at3 matrix row) 0 * scast (at3 vector 0)
            + at3 (at3 matrix row) 1 * scast (at3 vector 1)
            + at3 (at3 matrix row) 2 * scast (at3 vector 2)) 30))"

definition quaternion_product :: "i32 vec4 \<Rightarrow> i32 vec4 \<Rightarrow> i32 vec4" where
  "quaternion_product left right =
     (let aw = scast (at4 left 0) :: i64; ax = scast (at4 left 1); ay = scast (at4 left 2); az = scast (at4 left 3);
          bw = scast (at4 right 0) :: i64; bx = scast (at4 right 1); bxy = scast (at4 right 2); bz = scast (at4 right 3)
      in (rounded_shift (aw * bw - ax * bx - ay * bxy - az * bz) 30,
          rounded_shift (aw * bx + ax * bw + ay * bz - az * bxy) 30,
          rounded_shift (aw * bxy - ax * bz + ay * bw + az * bx) 30,
          rounded_shift (aw * bz + ax * bxy - ay * bx + az * bw) 30))"

definition normalize_quaternion :: "i32 vec4 \<Rightarrow> i32 vec4" where
  "normalize_quaternion value =
     (case run_state (magnitude4_floor (at4 value 0) (at4 value 1) (at4 value 2) (at4 value 3)) CLEAR of
        (mag, status) \<Rightarrow>
          if \<not> is_clear status \<or> mag = 0 \<or> 0x7fffffff < mag then (Q30_ONE, 0, 0, 0)
          else
          let denominator = mag
          in case run_state
               (do { w \<leftarrow> divide_scaled_truncating (at4 value 0) denominator 30;
                     x \<leftarrow> divide_scaled_truncating (at4 value 1) denominator 30;
                     y \<leftarrow> divide_scaled_truncating (at4 value 2) denominator 30;
                     z \<leftarrow> divide_scaled_truncating (at4 value 3) denominator 30;
                     State_Monad.return (w, x, y, z) }) status of
               (normalized, status) \<Rightarrow> if is_clear status then normalized else (Q30_ONE, 0, 0, 0))"

definition attitude_error :: "i32 vec4 \<Rightarrow> i32 vec4 \<Rightarrow> i32 vec4" where
  "attitude_error current target =
     (let conjugate = (at4 current 0, - at4 current 1, - at4 current 2, - at4 current 3);
          error = normalize_quaternion (quaternion_product conjugate target)
      in if at4 error 0 <s 0 then make4 (\<lambda>i. saturating_neg_i32 (at4 error i)) else error)"

definition integrate_small_angle :: "i32 vec4 \<Rightarrow> i32 vec3 \<Rightarrow> i32 vec4" where
  "integrate_small_angle attitude delta =
     (let half = (Q30_ONE, saturating_mul_i32 (at3 delta 0) 32, saturating_mul_i32 (at3 delta 1) 32,
                  saturating_mul_i32 (at3 delta 2) 32)
      in normalize_quaternion (quaternion_product attitude half))"

subsection \<open>Integer square root\<close>

function sqrt_align :: "u64 \<Rightarrow> u64 \<Rightarrow> u64" where
  "sqrt_align bt value = (if value < bt then sqrt_align (drop_bit 2 bt) value else bt)"
  by pat_completeness auto
termination
  by (relation "measure (\<lambda>(bt, _). unat bt)") (auto simp: unat_drop_bit_div word_less_nat_alt)

declare sqrt_align.simps [simp del]

function sqrt_loop :: "u64 \<Rightarrow> u64 \<Rightarrow> u64 \<Rightarrow> u64" where
  "sqrt_loop result bt remainder =
     (if bt \<noteq> 0
      then if result + bt \<le> remainder
           then sqrt_loop (drop_bit 1 result + bt) (drop_bit 2 bt) (remainder - (result + bt))
           else sqrt_loop (drop_bit 1 result) (drop_bit 2 bt) remainder
      else result)"
  by pat_completeness auto
termination
  by (relation "measure (\<lambda>(_, bt, _). unat bt)") (auto simp: unat_drop_bit_div unat_gt_0)

declare sqrt_loop.simps [simp del]

definition integer_sqrt :: "u64 \<Rightarrow> u64" where
  "integer_sqrt value =
     (if value = 0 then 0
      else sqrt_loop 0 (sqrt_align (push_bit 62 1) value) value)"

definition body_x_attitude_from_velocity :: "i32 vec3 \<Rightarrow> i32 vec4" where
  "body_x_attitude_from_velocity velocity =
     (let sq = \<lambda>i. scast (at3 velocity i) * scast (at3 velocity i) :: i64;
          sum = sq 0 + sq 1 + sq 2
      in if sum \<le>s 0 then (Q30_ONE, 0, 0, 0)
         else
         let mag = ucast (min (integer_sqrt sum) 0x7fffffff) :: i32
         in normalize_quaternion (saturating_add_i32 mag (at3 velocity 0), 0, saturating_neg_i32 (at3 velocity 2),
              at3 velocity 1))"

subsection \<open>The square root is the floor\<close>

lemma sqrt_align_power:
  assumes "unat bt = 4 ^ k" "0 < value" "unat value < 4 * 4 ^ k"
  obtains j where "j \<le> k" "unat (sqrt_align bt value) = 4 ^ j" "4 ^ j \<le> unat value" "unat value < 4 * 4 ^ j"
  using assms
proof (induction k arbitrary: bt thesis)
  case 0
  then have "\<not> value < bt" by (simp add: word_less_nat_alt)
  moreover have "1 \<le> unat value" using 0(3) by (simp add: word_less_nat_alt)
  ultimately show ?case using 0 by (intro 0(1) [of 0]) (simp_all add: sqrt_align.simps [of bt])
next
  case (Suc k)
  show ?case
  proof (cases "value < bt")
    case True
    have "unat (drop_bit 2 bt) = 4 ^ k" using Suc.prems(2) by (simp add: unat_drop_bit_div)
    moreover have "unat value < 4 * 4 ^ k" using True Suc.prems(2) by (simp add: word_less_nat_alt)
    ultimately obtain j where "j \<le> k" "unat (sqrt_align (drop_bit 2 bt) value) = 4 ^ j" "4 ^ j \<le> unat value"
        "unat value < 4 * 4 ^ j"
      using Suc.IH Suc.prems(3) by blast
    with True show ?thesis by (intro Suc.prems(1) [of j]) (simp_all add: sqrt_align.simps [of bt])
  next
    case False
    with Suc.prems show ?thesis by (intro Suc.prems(1) [of "Suc k"]) (simp_all add: sqrt_align.simps [of bt] word_less_nat_alt)
  qed
qed

lemma sqrt_step:
  fixes bt result remainder :: u64
  assumes "unat bt = p * p" "unat result = R * (2 * p)" "unat remainder + R\<^sup>2 = V" "V < (R + 2 * p)\<^sup>2" "R + 2 * p \<le> 2 ^ 32" "0 < p" "p \<le> 2 ^ 31"
  shows "result + bt \<le> remainder \<longleftrightarrow> (R + p)\<^sup>2 \<le> V"
    "unat (drop_bit 1 result) = R * p"
    "(R + p)\<^sup>2 \<le> V \<Longrightarrow> unat (drop_bit 1 result + bt) = (R + p) * p"
    "(R + p)\<^sup>2 \<le> V \<Longrightarrow> unat (remainder - (result + bt)) + (R + p)\<^sup>2 = V"
proof -
  have "R * (2 * p) + p * p = p * (2 * R + p)" by (simp add: algebra_simps)
  also have "\<dots> < p * 2 ^ 33" using assms(5,6) by (intro mult_strict_left_mono) simp_all
  also have "\<dots> \<le> 2 ^ 31 * 2 ^ 33" using assms(7) by (intro mult_right_mono) simp_all
  finally have lt: "unat result + unat bt < 2 ^ 64" using assms(1,2) by simp
  then have u: "unat (result + bt) = R * (2 * p) + p * p"
    using assms(1,2) by (subst unat_add_lem [THEN iffD1]) simp_all
  have sq: "(R + p)\<^sup>2 = R\<^sup>2 + (R * (2 * p) + p * p)" by (simp add: power2_eq_square algebra_simps)
  show le: "result + bt \<le> remainder \<longleftrightarrow> (R + p)\<^sup>2 \<le> V"
    using assms(3) by (simp only: word_le_nat_alt u sq) linarith
  show h: "unat (drop_bit 1 result) = R * p" using assms(2) by (simp add: unat_drop_bit_div)
  have "R * p + p * p < 2 ^ 64" using lt assms(1,2) by simp
  then show "unat (drop_bit 1 result + bt) = (R + p) * p"
    using h assms(1) unat_add_lem [THEN iffD1, of "drop_bit 1 result" bt] by (simp add: distrib_right)
  assume "(R + p)\<^sup>2 \<le> V"
  then have "result + bt \<le> remainder" using le by simp
  then have "unat (remainder - (result + bt)) = unat remainder - (R * (2 * p) + p * p)"
    and "R * (2 * p) + p * p \<le> unat remainder"
    using u unat_sub [of "result + bt" remainder] by (simp_all add: word_le_nat_alt)
  then show "unat (remainder - (result + bt)) + (R + p)\<^sup>2 = V" using assms(3) sq by linarith
qed

lemma sqrt_loop_floor:
  assumes "unat bt = 4 ^ k" "unat result = R * 2 ^ Suc k" "unat remainder + R\<^sup>2 = V"
    "V < (R + 2 ^ Suc k)\<^sup>2" "R + 2 ^ Suc k \<le> 2 ^ 32" "k \<le> 31"
  shows "(unat (sqrt_loop result bt remainder))\<^sup>2 \<le> V \<and> V < (unat (sqrt_loop result bt remainder) + 1)\<^sup>2"
  using assms
proof (induction k arbitrary: result bt remainder R)
  case (Suc k)
  let ?p = "2 ^ Suc k :: nat"
  have "(4::nat) ^ Suc k = ?p * ?p" by (simp flip: power_mult_distrib)
  moreover have "?p \<le> 2 ^ 31" using Suc.prems(6) by (intro power_increasing) simp_all
  ultimately have st: "result + bt \<le> remainder \<longleftrightarrow> (R + ?p)\<^sup>2 \<le> V" "unat (drop_bit 1 result) = R * ?p"
      "(R + ?p)\<^sup>2 \<le> V \<Longrightarrow> unat (drop_bit 1 result + bt) = (R + ?p) * ?p"
      "(R + ?p)\<^sup>2 \<le> V \<Longrightarrow> unat (remainder - (result + bt)) + (R + ?p)\<^sup>2 = V"
    using sqrt_step [of bt ?p result R remainder V] Suc.prems by simp_all
  have b: "unat (drop_bit 2 bt) = 4 ^ k" using Suc.prems(1) by (simp add: unat_drop_bit_div)
  have nz: "bt \<noteq> 0" using Suc.prems(1) by (metis power_not_zero unsigned_0 zero_neq_numeral)
  show ?case
  proof (cases "(R + ?p)\<^sup>2 \<le> V")
    case True
    then show ?thesis
      using Suc.IH [OF b st(3) st(4)] Suc.prems nz st(1) by (simp add: sqrt_loop.simps [of result] add.commute)
  next
    case False
    then show ?thesis
      using Suc.IH [OF b st(2) Suc.prems(3)] Suc.prems nz st(1) by (simp add: sqrt_loop.simps [of result])
  qed
next
  case 0
  have st: "result + bt \<le> remainder \<longleftrightarrow> (R + 1)\<^sup>2 \<le> V" "unat (drop_bit 1 result) = R"
      "(R + 1)\<^sup>2 \<le> V \<Longrightarrow> unat (drop_bit 1 result + bt) = R + 1"
    using sqrt_step [of bt 1 result R remainder V] 0 by simp_all
  have b: "drop_bit 2 bt = 0" using 0(1) by (intro unat_eq_zero [THEN iffD1]) (simp add: unat_drop_bit_div)
  have nz: "bt \<noteq> 0" using 0(1) by auto
  show ?case
  proof (cases "(R + 1)\<^sup>2 \<le> V")
    case True
    then show ?thesis using st nz b 0(4) by (simp add: sqrt_loop.simps [of result] sqrt_loop.simps [of _ 0])
  next
    case False
    then show ?thesis using st nz b 0(3) by (simp add: sqrt_loop.simps [of result] sqrt_loop.simps [of _ 0])
  qed
qed

lemma integer_sqrt_floor:
  "(unat (integer_sqrt v))\<^sup>2 \<le> unat v \<and> unat v < (unat (integer_sqrt v) + 1)\<^sup>2"
proof (cases "v = 0")
  case False
  have "unat (push_bit 62 1 :: u64) = 4 ^ 31" by (simp add: unat_push_bit_mod)
  moreover have "unat v < 4 * 4 ^ 31" using unsigned_less [of v] by simp
  ultimately obtain k where k: "k \<le> 31" "unat (sqrt_align (push_bit 62 1) v) = 4 ^ k" "unat v < 4 * 4 ^ k"
    using sqrt_align_power [of "push_bit 62 1" 31 v] False by (metis word_neq_0_conv)
  have "4 * 4 ^ k = (2 ^ Suc k :: nat)\<^sup>2" by (simp add: power2_eq_square flip: power_mult_distrib)
  moreover have "(2::nat) ^ Suc k \<le> 2 ^ 32" using k(1) by (intro power_increasing) simp_all
  ultimately show ?thesis
    using sqrt_loop_floor [of "sqrt_align (push_bit 62 1) v" k 0 0 v "unat v"] k False
    by (simp add: integer_sqrt_def)
qed (simp add: integer_sqrt_def)

subsection \<open>Rounded shifts\<close>

lemma sint_i64_range: "- (2 ^ 63) \<le> sint (x :: i64)" "sint (x :: i64) < 2 ^ 63"
  using sint_greater_eq [of x] sint_less [of x] by simp_all

lemma sint_of_int_i64: "- (2 ^ 63) \<le> x \<Longrightarrow> x < 2 ^ 63 \<Longrightarrow> sint (word_of_int x :: i64) = x"
  by (simp add: sint_sbintrunc' signed_take_bit_int_eq_self)

lemma uint_of_int_u64: "0 \<le> x \<Longrightarrow> x < 2 ^ 64 \<Longrightarrow> uint (word_of_int x :: u64) = x"
  by (simp add: unsigned_of_int take_bit_int_eq_self)

lemma rounded_shift_eq:
  assumes "0 < shift" "shift \<le> 62"
  shows "rounded_shift v shift = sat_i32 (round_half_away (sint v) (2 ^ shift))"
proof -
  define a where "a = \<bar>sint v\<bar>"
  have a: "0 \<le> a" "a \<le> 2 ^ 63" using sint_i64_range [of v] by (auto simp: a_def)
  define h :: int where "h = 2 ^ (shift - 1)"
  have h2: "2 ^ shift = 2 * h" using assms(1) by (simp add: h_def flip: power_Suc)
  have "shift - 1 \<le> 61" using assms(2) by simp
  then have "h \<le> 2 ^ 61" unfolding h_def by (intro power_increasing) simp_all
  then have h: "1 \<le> h" "h \<le> 2 ^ 61" by (simp_all add: h_def)
  define q where "q = (a + h) div (2 * h)"
  have q0: "0 \<le> q" using a(1) h(1) by (simp add: q_def pos_imp_zdiv_nonneg_iff)
  have "(a + h) div (2 * h) \<le> (a + h) div 2" using a(1) h(1) by (intro zdiv_mono2) simp_all
  also have "\<dots> \<le> (2 ^ 63 + 2 ^ 61) div 2" using a(2) h(2) by (intro zdiv_mono1) simp_all
  finally have q1: "q < 2 ^ 63" by (simp add: q_def)
  have rng: "take_bit 64 (a + h) = a + h" using a h by (intro take_bit_int_eq_self) simp_all
  have "push_bit (shift - 1) 1 = (word_of_int h :: u64)" by (simp add: h_def push_bit_eq_mult)
  then have "word_of_int a + push_bit (shift - 1) 1 = (word_of_int (a + h) :: u64)" by simp
  moreover have "uint (word_of_int (a + h) :: u64) = a + h"
    using a h by (intro uint_of_int_u64) simp_all
  ultimately have "uint (drop_bit shift (word_of_int a + push_bit (shift - 1) 1 :: u64)) = drop_bit shift (a + h)"
    using rng by (simp only: unsigned_drop_bit_eq) simp
  then have "uint (drop_bit shift (word_of_int a + push_bit (shift - 1) 1 :: u64)) = q"
    by (simp only: drop_bit_eq_div h2 q_def)
  then have r: "drop_bit shift (word_of_int a + push_bit (shift - 1) 1 :: u64) = word_of_int q"
    by (metis word_of_int_uint)
  have s: "sint (if v <s 0 then - word_of_int q else word_of_int q :: i64) = (if sint v < 0 then - q else q)"
    using q0 q1 sint_of_int_i64 [of q] sint_of_int_i64 [of "- q"] by (simp add: word_sless_alt)
  have "(2 * a + 2 * h) div (2 * (2 * h)) = q" unfolding q_def
    by (metis distrib_left div_mult_mult1 zero_neq_numeral)
  then have "round_half_away (sint v) (2 ^ shift) = (if sint v < 0 then - q else q)"
    using h(1) a_def by (auto simp: round_half_away_def h2 sgn_if q_def)
  then show ?thesis unfolding rounded_shift_def Let_def a_def [symmetric] r s sat_i32_def by simp
qed

subsection \<open>Normalised quaternions\<close>

definition norm4 :: "i32 vec4 \<Rightarrow> int" where
  "norm4 q = (sint (at4 q 0))\<^sup>2 + (sint (at4 q 1))\<^sup>2 + (sint (at4 q 2))\<^sup>2 + (sint (at4 q 3))\<^sup>2"

definition unit_bounded :: "i32 vec4 \<Rightarrow> bool" where
  "unit_bounded q \<longleftrightarrow> (\<forall>i \<in> set [0, 1, 2, 3]. \<bar>sint (at4 q i)\<bar> \<le> 2 ^ 30)"

lemma unit_bounded_identity [simp]: "unit_bounded (Q30_ONE, 0, 0, 0)"
  by (simp add: unit_bounded_def Q30_ONE_def sint_uint_i32)

lemma truncate_unit:
  assumes "\<bar>c\<bar> \<le> m" "0 < m"
  shows "\<bar>truncate_div (c * 2 ^ 30) m\<bar> \<le> 2 ^ 30"
proof -
  have "\<bar>c * 2 ^ 30\<bar> div m \<le> (2 ^ 30 * m) div m" using assms by (intro zdiv_mono1) (simp_all add: abs_mult)
  moreover have "0 \<le> \<bar>c * 2 ^ 30\<bar> div m" using assms(2) by (simp add: pos_imp_zdiv_nonneg_iff)
  ultimately show ?thesis using assms(2) by (auto simp: truncate_div_def sgn_if abs_mult)
qed

lemma component_le_floor_norm:
  fixes c :: int
  assumes "c\<^sup>2 \<le> s" "s < (m + 1)\<^sup>2" "0 \<le> m"
  shows "\<bar>c\<bar> \<le> m"
proof (rule ccontr)
  assume "\<not> ?thesis"
  then have "(m + 1)\<^sup>2 \<le> \<bar>c\<bar>\<^sup>2" using assms(3) by (intro power_mono) simp_all
  then show False using assms(1,2) by simp
qed

lemma normalize_quaternion_eq:
  obtains (identity) "normalize_quaternion q = (Q30_ONE, 0, 0, 0)" "norm4 q = 0 \<or> 2 ^ 62 \<le> norm4 q"
  | (scaled) m where "0 < m" "m\<^sup>2 \<le> norm4 q" "norm4 q < (m + 1)\<^sup>2" "m < 2 ^ 31"
      "normalize_quaternion q = make4 (\<lambda>i. word_of_int (truncate_div (sint (at4 q i) * 2 ^ 30) m))"
proof (cases "at4 q 0 = i32_MIN \<and> at4 q 1 = i32_MIN \<and> at4 q 2 = i32_MIN \<and> at4 q 3 = i32_MIN")
  case True
  then show ?thesis using magnitude4_floor_exact [of "at4 q 0" "at4 q 1" "at4 q 2" "at4 q 3"]
    by (intro identity) (simp_all add: normalize_quaternion_def is_clear_def CLEAR_def norm4_def i32_MIN_def sint_uint_i32
        fail_with_def record_fault_def)
next
  case False
  then obtain r where r: "magnitude4_floor (at4 q 0) (at4 q 1) (at4 q 2) (at4 q 3) = State_Monad.return r"
      "(uint r)\<^sup>2 \<le> norm4 q" "norm4 q < (uint r + 1)\<^sup>2"
    using magnitude4_floor_exact [of "at4 q 0" "at4 q 1" "at4 q 2" "at4 q 3"] by (auto simp: norm4_def)
  show ?thesis
  proof (cases "r = 0 \<or> 0x7fffffff < r")
    case True
    have "norm4 q = 0 \<or> 2 ^ 62 \<le> norm4 q"
    proof (cases "r = 0")
      case True
      then show ?thesis using r(3) by (simp add: norm4_def) (smt (verit) zero_le_power2)
    next
      case False
      then have "(2 ^ 31)\<^sup>2 \<le> (uint r)\<^sup>2"
        using \<open>r = 0 \<or> 0x7fffffff < r\<close> by (intro power_mono) (simp_all add: word_less_alt)
      then show ?thesis using r(2) by simp
    qed
    then show ?thesis using True r(1) by (intro identity) (auto simp: normalize_quaternion_def is_clear_def CLEAR_def)
  next
    case False
    define m where "m = uint r"
    have "uint r \<noteq> 0" "\<not> 2147483647 < uint r" using False by (simp_all add: word_less_alt uint_0_iff)
    then have "0 < m" "m < 2147483648" using uint_ge_0 [of r] unfolding m_def by linarith+
    then have m: "0 < m" "m < 2 ^ 31" by simp_all
    have sr: "sint r = m" using m(2) by (simp add: sint_uint_i32 m_def)
    have clean: "divide_scaled_truncating (at4 q i) r 30 = State_Monad.return (word_of_int (truncate_div (sint (at4 q i) * 2 ^ 30) m))"
      if "i \<in> {0, 1, 2, 3}" for i
    proof -
      have "(sint (at4 q i))\<^sup>2 \<le> norm4 q" using that by (auto simp: norm4_def)
      then have "\<bar>sint (at4 q i)\<bar> \<le> m"
        using component_le_floor_norm [of "sint (at4 q i)" "norm4 q" m] r(3) m(1) by (simp add: m_def)
      then have "\<bar>truncate_div (sint (at4 q i) * 2 ^ 30) m\<bar> \<le> 2 ^ 30" using m(1) by (rule truncate_unit)
      then show ?thesis using False by (simp add: divide_scaled_truncating_eq sr saturating_i32_in_range)
    qed
    have "normalize_quaternion q = make4 (\<lambda>i. word_of_int (truncate_div (sint (at4 q i) * 2 ^ 30) m))"
      unfolding normalize_quaternion_def r(1) using False by (simp add: is_clear_def CLEAR_def clean make4_def Let_def)
    then show ?thesis using scaled [of m] m r(2,3) by (simp add: m_def)
  qed
qed

lemma unit_bounded_normalize [simp]: "unit_bounded (normalize_quaternion q)"
proof (cases rule: normalize_quaternion_eq [of q])
  case identity
  then show ?thesis by simp
next
  case (scaled m)
  have "\<bar>sint (word_of_int (truncate_div (sint (at4 q i) * 2 ^ 30) m) :: i32)\<bar> \<le> 2 ^ 30" if "i \<in> set [0, 1, 2, 3]" for i
  proof -
    have "(sint (at4 q i))\<^sup>2 \<le> norm4 q" using that by (auto simp: norm4_def)
    then have "\<bar>sint (at4 q i)\<bar> \<le> m" using component_le_floor_norm [of "sint (at4 q i)" "norm4 q" m] scaled(1,3) by simp
    then have "\<bar>truncate_div (sint (at4 q i) * 2 ^ 30) m\<bar> \<le> 2 ^ 30" using scaled(1) by (rule truncate_unit)
    then show ?thesis by (subst sint_of_int_i32) simp_all
  qed
  then show ?thesis using scaled(5) by (simp add: unit_bounded_def make4_def)
qed

subsection \<open>Products without overflow\<close>

lemma sint_scast_i64: "sint (scast (x :: i32) :: i64) = sint x"
  by (simp add: sint_up_scast is_up)

lemma scast_of_sint: "(scast (x :: i32) :: i64) = word_of_int (sint x)"
  by (simp flip: sint_scast_i64)

lemma abs_mult_unit:
  fixes a b :: int
  assumes "\<bar>a\<bar> \<le> 2 ^ 30" "\<bar>b\<bar> \<le> 2 ^ 30"
  shows "\<bar>a * b\<bar> \<le> 2 ^ 60"
proof -
  have "\<bar>a\<bar> * \<bar>b\<bar> \<le> 2 ^ 30 * 2 ^ 30" using assms by (intro mult_mono) simp_all
  then show ?thesis by (simp add: abs_mult)
qed

lemma abs_four:
  fixes a b c d m :: int
  assumes "\<bar>a\<bar> \<le> m" "\<bar>b\<bar> \<le> m" "\<bar>c\<bar> \<le> m" "\<bar>d\<bar> \<le> m"
  shows "\<bar>a - b - c - d\<bar> \<le> 4 * m" "\<bar>a + b + c - d\<bar> \<le> 4 * m" "\<bar>a - b + c + d\<bar> \<le> 4 * m" "\<bar>a + b - c + d\<bar> \<le> 4 * m"
  using assms by linarith+

definition hamilton :: "i32 vec4 \<Rightarrow> i32 vec4 \<Rightarrow> int vec4" where
  "hamilton p q =
     (let a = \<lambda>i. sint (at4 p i); b = \<lambda>i. sint (at4 q i)
      in (a 0 * b 0 - a 1 * b 1 - a 2 * b 2 - a 3 * b 3,
          a 0 * b 1 + a 1 * b 0 + a 2 * b 3 - a 3 * b 2,
          a 0 * b 2 - a 1 * b 3 + a 2 * b 0 + a 3 * b 1,
          a 0 * b 3 + a 1 * b 2 - a 2 * b 1 + a 3 * b 0))"

lemma hamilton_at:
  "at4 (hamilton p q) 0 = sint (at4 p 0) * sint (at4 q 0) - sint (at4 p 1) * sint (at4 q 1)
     - sint (at4 p 2) * sint (at4 q 2) - sint (at4 p 3) * sint (at4 q 3)"
  "at4 (hamilton p q) 1 = sint (at4 p 0) * sint (at4 q 1) + sint (at4 p 1) * sint (at4 q 0)
     + sint (at4 p 2) * sint (at4 q 3) - sint (at4 p 3) * sint (at4 q 2)"
  "at4 (hamilton p q) 2 = sint (at4 p 0) * sint (at4 q 2) - sint (at4 p 1) * sint (at4 q 3)
     + sint (at4 p 2) * sint (at4 q 0) + sint (at4 p 3) * sint (at4 q 1)"
  "at4 (hamilton p q) 3 = sint (at4 p 0) * sint (at4 q 3) + sint (at4 p 1) * sint (at4 q 2)
     - sint (at4 p 2) * sint (at4 q 1) + sint (at4 p 3) * sint (at4 q 0)"
  by (simp_all add: hamilton_def Let_def)

lemma quaternion_product_exact:
  assumes "unit_bounded p" "unit_bounded q"
  shows "quaternion_product p q = make4 (\<lambda>i. sat_i32 (round_half_away (at4 (hamilton p q) i) (2 ^ 30)))"
proof -
  have b: "\<bar>sint (at4 p i) * sint (at4 q j)\<bar> \<le> 2 ^ 60" if "i \<in> {0, 1, 2, 3}" "j \<in> {0, 1, 2, 3}" for i j
    using assms that by (intro abs_mult_unit) (auto simp: unit_bounded_def)
  have h: "\<bar>at4 (hamilton p q) 0\<bar> \<le> 4 * 2 ^ 60" "\<bar>at4 (hamilton p q) 1\<bar> \<le> 4 * 2 ^ 60"
      "\<bar>at4 (hamilton p q) 2\<bar> \<le> 4 * 2 ^ 60" "\<bar>at4 (hamilton p q) 3\<bar> \<le> 4 * 2 ^ 60"
    unfolding hamilton_at
    subgoal by (rule abs_four(1); rule b; blast)
    subgoal by (rule abs_four(2); rule b; blast)
    subgoal by (rule abs_four(3); rule b; blast)
    subgoal by (rule abs_four(4); rule b; blast)
    done
  have "quaternion_product p q = make4 (\<lambda>i. rounded_shift (word_of_int (at4 (hamilton p q) i)) 30)"
    unfolding quaternion_product_def make4_def Let_def hamilton_at scast_of_sint
    by (simp only: of_int_mult of_int_diff of_int_add)
  moreover have "rounded_shift (word_of_int x) 30 = sat_i32 (round_half_away x (2 ^ 30))" if "\<bar>x\<bar> \<le> 2 ^ 62" for x :: int
    using that by (simp add: rounded_shift_eq sint_of_int_i64)
  ultimately show ?thesis using h by (simp add: make4_def)
qed

subsection \<open>The contract of the attitude arithmetic\<close>

text \<open>
  Attitude arithmetic. The square root of the flight software is the exact floor
  for every 64-bit value; normalisation returns a quaternion whose components lie in
  the unit range for every input, the identity for a zero or oversized one, and
  otherwise the components divided by the floor of the norm; and the product of two
  quaternions in the unit range is the Hamilton product rounded half away from zero,
  with no intermediate overflow.
\<close>
theorem attitude_arithmetic_exact:
  "(unat (integer_sqrt v))\<^sup>2 \<le> unat v \<and> unat v < (unat (integer_sqrt v) + 1)\<^sup>2
   \<and> unit_bounded (normalize_quaternion q)
   \<and> (normalize_quaternion q = (Q30_ONE, 0, 0, 0) \<and> (norm4 q = 0 \<or> 2 ^ 62 \<le> norm4 q)
      \<or> (\<exists>m. 0 < m \<and> m < 2 ^ 31 \<and> m\<^sup>2 \<le> norm4 q \<and> norm4 q < (m + 1)\<^sup>2
           \<and> normalize_quaternion q = make4 (\<lambda>i. word_of_int (truncate_div (sint (at4 q i) * 2 ^ 30) m))))
   \<and> quaternion_product (normalize_quaternion p) (normalize_quaternion q) =
       make4 (\<lambda>i. sat_i32 (round_half_away (at4 (hamilton (normalize_quaternion p) (normalize_quaternion q)) i) (2 ^ 30)))"
proof -
  have "normalize_quaternion q = (Q30_ONE, 0, 0, 0) \<and> (norm4 q = 0 \<or> 2 ^ 62 \<le> norm4 q)
      \<or> (\<exists>m. 0 < m \<and> m < 2 ^ 31 \<and> m\<^sup>2 \<le> norm4 q \<and> norm4 q < (m + 1)\<^sup>2
           \<and> normalize_quaternion q = make4 (\<lambda>i. word_of_int (truncate_div (sint (at4 q i) * 2 ^ 30) m)))"
    by (rule normalize_quaternion_eq [of q]) blast+
  then show ?thesis by (simp only: integer_sqrt_floor unit_bounded_normalize quaternion_product_exact simp_thms)
qed

end
