(* ===== verification/Global_Navigation.thy ===== *)
theory Global_Navigation
  imports Global_Vectors
begin

text \<open>
  Configuration and navigation state of the phase 10 flight computer
  (\<^verbatim>\<open>flight/src/phase10.rs\<close>): frame transitions, inertial propagation and aiding, each
  returning the updated navigation, and the evidence checksums.
\<close>

unbundle bit_operations_syntax

subsection \<open>Configuration\<close>

record GlobalFlightConfig =
  cfg_session :: u16
  initial_frame :: GlobalFrameId
  initial_position_q12 :: "i32 vec3"
  initial_attitude_q30 :: "i32 vec4"
  launch_target_q30 :: "i32 vec4"
  powered_target_q30 :: "i32 vec4"
  entry_target_q30 :: "i32 vec4"
  pitch_program_end_q16 :: u32
  proportional_gain_q15 :: "i16 vec3"
  derivative_gain_q15 :: "i16 vec3"
  torque_limit_q12 :: "i32 vec3"
  gimbal_limit_q15 :: i16
  minimum_arming_time_q16 :: u32
  drogue_backup_time_q16 :: u32
  main_backup_time_q16 :: u32
  main_altitude_q12_km :: i32
  minimum_deployment_separation_q16 :: u32

definition ksa_g10r_reference_flight_config :: GlobalFlightConfig where
  "ksa_g10r_reference_flight_config =
     \<lparr>cfg_session = 0x10a0, initial_frame = LocalEnuV1, initial_position_q12 = (0, 0, 0),
      initial_attitude_q30 = (759250122, 0, - 759250129, 0),
      launch_target_q30 = (759250122, 0, - 759250129, 0),
      powered_target_q30 = (952420627, 0, - 495798804, - 1),
      entry_target_q30 = (759250122, 0, - 759250129, 0),
      pitch_program_end_q16 = 3932160,
      proportional_gain_q15 = (8192, 8192, 8192), derivative_gain_q15 = (32767, 32767, 32767),
      torque_limit_q12 = (16384, 16384, 16384), gimbal_limit_q15 = 455,
      minimum_arming_time_q16 = 3932160, drogue_backup_time_q16 = 39321600,
      main_backup_time_q16 = 58982400, main_altitude_q12_km = 6144,
      minimum_deployment_separation_q16 = 131072\<rparr>"

definition all3 :: "('a \<Rightarrow> bool) \<Rightarrow> 'a vec3 \<Rightarrow> bool" where
  "all3 P v \<longleftrightarrow> P (at3 v 0) \<and> P (at3 v 1) \<and> P (at3 v 2)"

definition config_is_valid :: "GlobalFlightConfig \<Rightarrow> bool" where
  "config_is_valid self \<longleftrightarrow>
     cfg_session self \<noteq> 0
     \<and> initial_attitude_q30 self \<noteq> (0, 0, 0, 0)
     \<and> 0 < pitch_program_end_q16 self
     \<and> all3 (\<lambda>gain. 0 \<le>s gain) (proportional_gain_q15 self)
     \<and> all3 (\<lambda>gain. 0 \<le>s gain) (derivative_gain_q15 self)
     \<and> all3 (\<lambda>limit. 0 <s limit) (torque_limit_q12 self)
     \<and> 0 \<le>s gimbal_limit_q15 self
     \<and> minimum_arming_time_q16 self < drogue_backup_time_q16 self
     \<and> drogue_backup_time_q16 self < main_backup_time_q16 self
     \<and> 0 <s main_altitude_q12_km self
     \<and> 0 < minimum_deployment_separation_q16 self"

subsection \<open>Evidence checksums\<close>

definition flight_hash_word :: "u32 \<Rightarrow> u32 \<Rightarrow> u32" where
  "flight_hash_word checksum value =
     foldl (\<lambda>checksum byte. (checksum XOR ucast byte) * 0x01000193) checksum (to_le_bytes32 value)"

definition list3 :: "'a vec3 \<Rightarrow> 'a list" where
  "list3 v = [at3 v 0, at3 v 1, at3 v 2]"

definition hash_navigation :: "u32 \<Rightarrow> u16 \<Rightarrow> GlobalFrameId \<Rightarrow> i32 vec3 \<Rightarrow> i32 vec3 \<Rightarrow> u32" where
  "hash_navigation checksum epoch frame position velocity =
     (let checksum = flight_hash_word checksum (ucast epoch);
          checksum = flight_hash_word checksum (ucast (frame_tag frame))
      in foldl flight_hash_word checksum (list3 position @ list3 velocity))"

definition hash_fast :: "u32 \<Rightarrow> GlobalFastSensorCell \<Rightarrow> u32" where
  "hash_fast checksum cell =
     (let checksum = flight_hash_word checksum (ucast (gf_measurement_epoch cell));
          checksum = flight_hash_word checksum (gf_mission_time_q16 cell);
          checksum = flight_hash_word checksum (ucast (frame_tag (gf_frame cell)))
      in foldl (\<lambda>checksum value. flight_hash_word checksum (ucast value)) checksum
           (list3 (delta_velocity_q24 cell) @ list3 (delta_angle_q24 cell)))"

definition hash_command :: "u32 \<Rightarrow> GlobalCommandCell \<Rightarrow> u32" where
  "hash_command checksum command =
     (let checksum = flight_hash_word checksum (ucast (gc_source_epoch command));
          checksum = flight_hash_word checksum (ucast (frame_tag (gc_frame command)));
          checksum = flight_hash_word checksum (ucast (gc_discrete command));
          checksum = foldl flight_hash_word checksum (list3 (torque_demand_q12 command))
      in foldl (\<lambda>checksum quantum. flight_hash_word checksum (ucast quantum)) checksum (rcs_pulse_quanta command))"

definition hash_flight :: "u32 \<Rightarrow> u16 \<Rightarrow> u32 \<Rightarrow> u32 \<Rightarrow> u16 \<Rightarrow> u32" where
  "hash_flight checksum epoch nav command alarm =
     (let checksum = flight_hash_word checksum (ucast epoch);
          checksum = flight_hash_word checksum nav;
          checksum = flight_hash_word checksum command
      in flight_hash_word checksum (ucast alarm))"

subsection \<open>Navigation\<close>

record GlobalNavigation =
  nav_frame :: GlobalFrameId
  nav_position_q12 :: "i32 vec3"
  nav_velocity_q24 :: "i32 vec3"
  attitude_q30 :: "i32 vec4"
  covariance_proxy_q16 :: "i32 vec3"
  nav_checksum :: u32

definition new_navigation :: "GlobalFlightConfig \<Rightarrow> GlobalNavigation" where
  "new_navigation config =
     \<lparr>nav_frame = initial_frame config, nav_position_q12 = initial_position_q12 config,
      nav_velocity_q24 = (0, 0, 0), attitude_q30 = normalize_quaternion (initial_attitude_q30 config),
      covariance_proxy_q16 = (4096, 4096, 4096), nav_checksum = 0x811c9dc5\<rparr>"

definition navigation_transition :: "GlobalNavigation \<Rightarrow> GlobalTransitionCell \<Rightarrow> bool \<times> GlobalNavigation" where
  "navigation_transition self cell =
     (if gt_from cell \<noteq> nav_frame self then (False, self)
      else
      let old_position = nav_position_q12 self;
          rotated_position = rotate_vector (rotation_q30 cell) old_position;
          self = self\<lparr>nav_position_q12 := add_vector rotated_position (translation_q12 cell)\<rparr>;
          self = self\<lparr>nav_velocity_q24 :=
            (case (gt_from cell, gt_to cell) of
               (EarthFixedEcefV1, EarthInertialEciV1) \<Rightarrow>
                 add_vector (rotate_vector (rotation_q30 cell) (nav_velocity_q24 self))
                   (cross_rate_position (omega_q24 cell) (nav_position_q12 self))
             | (EarthInertialEciV1, EarthFixedEcefV1) \<Rightarrow>
                 (let without_sweep = subtract_vector (nav_velocity_q24 self)
                        (cross_rate_position (omega_q24 cell) old_position)
                  in rotate_vector (rotation_q30 cell) without_sweep)
             | _ \<Rightarrow> add_vector (rotate_vector (rotation_q30 cell) (nav_velocity_q24 self)) (velocity_bias_q24 cell))\<rparr>;
          self = self\<lparr>attitude_q30 := normalize_quaternion (quaternion_product (rotation_q30 cell) (attitude_q30 self))\<rparr>;
          self = self\<lparr>nav_frame := gt_to cell\<rparr>;
          self = self\<lparr>nav_checksum := hash_navigation (nav_checksum self) (gt_effective_epoch cell) (nav_frame self)
                   (nav_position_q12 self) (nav_velocity_q24 self)\<rparr>
      in (True, self))"

definition navigation_inertial :: "GlobalNavigation \<Rightarrow> GlobalFastSensorCell \<Rightarrow> GlobalNavigation" where
  "navigation_inertial self cell =
     (let velocity = make3 (\<lambda>axis. saturating_add_i32 (at3 (nav_velocity_q24 self) axis)
                       (scast (at3 (delta_velocity_q24 cell) axis)));
          self = self\<lparr>nav_velocity_q24 := velocity,
            nav_position_q12 := make3 (\<lambda>axis. saturating_add_i32 (at3 (nav_position_q12 self) axis)
              (signed_drop_bit 17 (at3 velocity axis))),
            covariance_proxy_q16 := make3 (\<lambda>axis. saturating_add_i32 (at3 (covariance_proxy_q16 self) axis) 8)\<rparr>;
          self = self\<lparr>attitude_q30 := integrate_small_angle (attitude_q30 self)
                   (make3 (\<lambda>axis. scast (at3 (delta_angle_q24 cell) axis)))\<rparr>
      in self\<lparr>nav_checksum := hash_navigation (nav_checksum self) (gf_measurement_epoch cell) (nav_frame self)
                (nav_position_q12 self) (nav_velocity_q24 self)\<rparr>)"

definition max_i32 :: "i32 \<Rightarrow> i32 \<Rightarrow> i32" where
  "max_i32 a b = (if a <s b then b else a)"

definition navigation_aid :: "GlobalNavigation \<Rightarrow> GlobalAidFrameCell \<Rightarrow> i32 vec4 \<Rightarrow> i32 vec3 \<Rightarrow> i32 vec3 \<Rightarrow> GlobalNavigation" where
  "navigation_aid self cell rotation translation velocity_bias =
     (let self =
            (if ga_validity cell AND GLOBAL_AID_GNSS \<noteq> 0
             then let position = add_vector (rotate_vector rotation (gnss_position_q12_km cell)) translation;
                      velocity = add_vector (rotate_vector rotation (gnss_velocity_q24_km_s cell)) velocity_bias
                  in self\<lparr>nav_position_q12 := make3 (\<lambda>axis. blend (at3 (nav_position_q12 self) axis) (at3 position axis) 3),
                          nav_velocity_q24 := make3 (\<lambda>axis. blend (at3 (nav_velocity_q24 self) axis) (at3 velocity axis) 3),
                          covariance_proxy_q16 := make3 (\<lambda>axis. max_i32
                            (word_of_int (truncate_div (sint (at3 (covariance_proxy_q16 self) axis * 3)) 4)) 1)\<rparr>
             else self);
          self =
            (if ga_validity cell AND GLOBAL_AID_BAROMETER \<noteq> 0 \<and> nav_frame self = LocalEnuV1
             then self\<lparr>nav_position_q12 := (at3 (nav_position_q12 self) 0, at3 (nav_position_q12 self) 1,
                    blend (at3 (nav_position_q12 self) 2) (barometer_q12_km cell) 2)\<rparr>
             else self);
          self =
            (if ga_validity cell AND GLOBAL_AID_ATTITUDE \<noteq> 0
             then self\<lparr>attitude_q30 := normalize_quaternion (ga_attitude_q30 cell)\<rparr>
             else self)
      in self\<lparr>nav_checksum := hash_navigation (nav_checksum self) (ga_measurement_epoch cell) (nav_frame self)
                (nav_position_q12 self) (nav_velocity_q24 self)\<rparr>)"

definition descending_global :: "GlobalNavigation \<Rightarrow> bool" where
  "descending_global navigation \<longleftrightarrow>
     (let term = \<lambda>axis. scast (at3 (nav_position_q12 navigation) axis) * scast (at3 (nav_velocity_q24 navigation) axis) :: i64;
          radial = term 0 + term 1 + term 2
      in radial <s 0)"

end
