(* ===== verification/Global_Flight.thy ===== *)
theory Global_Flight
  imports Global_Navigation
begin

text \<open>
  The phase 10 flight computer (\<^verbatim>\<open>flight/src/phase10.rs\<close>): one tick takes the cells that
  arrived in its epoch, updates navigation, mode and the recovery latches, and returns
  the command and the evidence. The theorems are over every sequence of ticks: the safe
  state is latched, lost sensor cells hold twice and then safe, the parachutes are
  commanded once and in order, and no command leaves its authority.
\<close>

unbundle bit_operations_syntax

subsection \<open>State\<close>

definition GLOBAL_ALARM_FAST_SENSOR :: u16 where "GLOBAL_ALARM_FAST_SENSOR = 1"
definition GLOBAL_ALARM_AID :: u16 where "GLOBAL_ALARM_AID = 2"
definition GLOBAL_ALARM_FRAME :: u16 where "GLOBAL_ALARM_FRAME = 4"
definition GLOBAL_ALARM_LINK :: u16 where "GLOBAL_ALARM_LINK = 8"
definition GLOBAL_ALARM_SAFE :: u16 where "GLOBAL_ALARM_SAFE = 16"
definition GLOBAL_ALARM_RECOVERY :: u16 where "GLOBAL_ALARM_RECOVERY = 64"
definition GLOBAL_ALARM_DEADLINE :: u16 where "GLOBAL_ALARM_DEADLINE = 128"

datatype GlobalFlightMode = Boot | Prelaunch | Ascent | Coast | Entry | Recovery | Complete | Safe

fun mode_tag_global :: "GlobalFlightMode \<Rightarrow> u8" where
  "mode_tag_global Boot = 0"
| "mode_tag_global Prelaunch = 1"
| "mode_tag_global Ascent = 2"
| "mode_tag_global Coast = 3"
| "mode_tag_global Entry = 4"
| "mode_tag_global Recovery = 5"
| "mode_tag_global Complete = 6"
| "mode_tag_global Safe = 7"

record GlobalFlightEvidence =
  ev_command :: GlobalCommandCell
  ev_status :: "GlobalStatusCell option"
  ev_navigation :: GlobalNavigation
  ev_mode :: GlobalFlightMode
  ev_safe :: bool
  ev_armed :: bool
  ev_drogue_latched :: bool
  ev_main_latched :: bool
  ev_alarms :: u16
  ev_sensor_checksum :: u32
  ev_flight_checksum :: u32
  ev_deadline_misses :: u16

record GlobalFlightComputer =
  config :: GlobalFlightConfig
  epoch :: u16
  navigation :: GlobalNavigation
  fc_mode :: GlobalFlightMode
  fc_alarms :: u16
  missing_fast :: u8
  safe :: bool
  seen_powered :: bool
  powered :: bool
  armed :: bool
  descending_count :: u8
  drogue_latched :: bool
  main_latched :: bool
  drogue_time_q16 :: u32
  ecef_to_active_rotation :: "i32 vec4"
  ecef_to_active_translation :: "i32 vec3"
  ecef_to_active_velocity_bias :: "i32 vec3"
  transition_count :: u8
  last_time_q16 :: u32
  last_fast :: "GlobalFastSensorCell option"
  last_aid :: "GlobalAidFrameCell option"
  last_command :: GlobalCommandCell
  last_status :: "GlobalStatusCell option"
  fc_sensor_checksum :: u32
  fc_command_checksum :: u32
  fc_flight_checksum :: u32
  fc_deadline_misses :: u16

definition new_flight_computer :: "GlobalFlightConfig \<Rightarrow> GlobalFlightComputer option" where
  "new_flight_computer cfg =
     (if \<not> config_is_valid cfg then None
      else
      let nav = new_navigation cfg
      in Some \<lparr>config = cfg, epoch = 0, navigation = nav, fc_mode = Boot, fc_alarms = 0, missing_fast = 0,
           safe = False, seen_powered = False, powered = False, armed = False, descending_count = 0,
           drogue_latched = False, main_latched = False, drogue_time_q16 = 0,
           ecef_to_active_rotation = (Q30_ONE, 0, 0, 0), ecef_to_active_translation = (0, 0, 0),
           ecef_to_active_velocity_bias = (0, 0, 0), transition_count = 0, last_time_q16 = 0,
           last_fast = None, last_aid = None,
           last_command = \<lparr>gc_session = cfg_session cfg, gc_source_epoch = 0, gc_effective_epoch = 1,
             gc_frame = initial_frame cfg, gc_flags = 0, gc_discrete = 0, gimbal_q15 = (0, 0),
             rcs_pulse_quanta = replicate 12 0, torque_demand_q12 = (0, 0, 0), gc_status = 0,
             command_checksum = 0x811c9dc5\<rparr>,
           last_status = None, fc_sensor_checksum = 0x811c9dc5, fc_command_checksum = 0x811c9dc5,
           fc_flight_checksum = 0x811c9dc5, fc_deadline_misses = 0\<rparr>)"

subsection \<open>Ground operations\<close>

definition operational_navigation_update :: "GlobalFlightComputer \<Rightarrow> GlobalFrameId \<Rightarrow> i32 vec3 \<Rightarrow> i32 vec3 \<Rightarrow> u16
    \<Rightarrow> bool \<times> GlobalFlightComputer" where
  "operational_navigation_update self frame position_q12 velocity_q24 ep =
     (if frame \<noteq> nav_frame (navigation self) then (False, self)
      else
      let nav = (navigation self)\<lparr>nav_position_q12 := position_q12, nav_velocity_q24 := velocity_q24\<rparr>;
          nav = nav\<lparr>nav_checksum := hash_navigation (nav_checksum nav) ep frame position_q12 velocity_q24\<rparr>
      in (True, self\<lparr>navigation := nav\<rparr>))"

definition operational_guidance_target :: "GlobalFlightComputer \<Rightarrow> u8 \<Rightarrow> i32 vec4 \<Rightarrow> bool \<times> GlobalFlightComputer" where
  "operational_guidance_target self selector target_q30 =
     (let target = normalize_quaternion target_q30
      in if selector = 1 then (True, self\<lparr>config := (config self)\<lparr>powered_target_q30 := target\<rparr>\<rparr>)
         else if selector = 2 then (True, self\<lparr>config := (config self)\<lparr>entry_target_q30 := target\<rparr>\<rparr>)
         else (False, self))"

definition operational_request_safe :: "GlobalFlightComputer \<Rightarrow> GlobalFlightComputer" where
  "operational_request_safe self = self\<lparr>safe := True, fc_alarms := fc_alarms self OR GLOBAL_ALARM_SAFE\<rparr>"

definition saturating_inc_u16 :: "u16 \<Rightarrow> u16" where
  "saturating_inc_u16 x = (if x = - 1 then x else x + 1)"

definition saturating_inc_u8 :: "u8 \<Rightarrow> u8" where
  "saturating_inc_u8 x = (if x = - 1 then x else x + 1)"

definition record_deadline_miss :: "GlobalFlightComputer \<Rightarrow> GlobalFlightComputer" where
  "record_deadline_miss self =
     self\<lparr>fc_deadline_misses := saturating_inc_u16 (fc_deadline_misses self),
          fc_alarms := fc_alarms self OR (GLOBAL_ALARM_DEADLINE OR GLOBAL_ALARM_SAFE), safe := True\<rparr>"

subsection \<open>One tick\<close>

definition apply_transition :: "GlobalFlightComputer \<Rightarrow> GlobalTransitionCell option \<Rightarrow> GlobalFlightComputer" where
  "apply_transition self transition =
     (case transition of None \<Rightarrow> self
      | Some cell \<Rightarrow>
          let valid = (gt_session cell = cfg_session (config self) \<and> gt_source_epoch cell = epoch self
                 \<and> gt_effective_epoch cell = epoch self \<and> gt_from cell = nav_frame (navigation self));
              (moved, nav) = (if valid then navigation_transition (navigation self) cell else (False, navigation self))
          in if \<not> valid \<or> \<not> moved
             then self\<lparr>fc_alarms := fc_alarms self OR (GLOBAL_ALARM_FRAME OR GLOBAL_ALARM_SAFE), safe := True\<rparr>
             else
             let cfg = config self;
                 rotate = \<lambda>target. normalize_quaternion (quaternion_product (rotation_q30 cell) target);
                 self = self\<lparr>navigation := nav, transition_count := saturating_inc_u8 (transition_count self),
                   config := cfg\<lparr>launch_target_q30 := rotate (launch_target_q30 cfg),
                     powered_target_q30 := rotate (powered_target_q30 cfg),
                     entry_target_q30 := rotate (entry_target_q30 cfg)\<rparr>\<rparr>
             in (case gt_to cell of
                   EarthFixedEcefV1 \<Rightarrow> self\<lparr>ecef_to_active_rotation := (Q30_ONE, 0, 0, 0),
                     ecef_to_active_translation := (0, 0, 0), ecef_to_active_velocity_bias := (0, 0, 0)\<rparr>
                 | _ \<Rightarrow> self\<lparr>ecef_to_active_rotation := rotation_q30 cell,
                     ecef_to_active_translation := translation_q12 cell,
                     ecef_to_active_velocity_bias := velocity_bias_q24 cell\<rparr>))"

definition filter_option :: "('a \<Rightarrow> bool) \<Rightarrow> 'a option \<Rightarrow> 'a option" where
  "filter_option P v = (case v of None \<Rightarrow> None | Some x \<Rightarrow> if P x then Some x else None)"

definition fast_is_valid :: "GlobalFlightComputer \<Rightarrow> GlobalFastSensorCell \<Rightarrow> bool" where
  "fast_is_valid self cell \<longleftrightarrow>
     gf_session cell = cfg_session (config self) \<and> gf_measurement_epoch cell = epoch self
     \<and> gf_production_epoch cell = epoch self \<and> gf_frame cell = nav_frame (navigation self)
     \<and> gf_validity cell AND (GLOBAL_FAST_DELTA_V OR GLOBAL_FAST_DELTA_ANGLE OR GLOBAL_FAST_ATTITUDE)
         = (GLOBAL_FAST_DELTA_V OR GLOBAL_FAST_DELTA_ANGLE OR GLOBAL_FAST_ATTITUDE)"

definition receive_fast :: "GlobalFlightComputer \<Rightarrow> GlobalFastSensorCell option \<Rightarrow> GlobalFlightComputer" where
  "receive_fast self valid_fast =
     (case valid_fast of
        Some cell \<Rightarrow>
          (let on = (gf_vehicle_status cell AND 2 \<noteq> 0)
           in self\<lparr>missing_fast := 0, last_time_q16 := gf_mission_time_q16 cell,
                fc_sensor_checksum := hash_fast (fc_sensor_checksum self) cell,
                navigation := navigation_inertial (navigation self) cell, last_fast := Some cell,
                powered := on, seen_powered := seen_powered self \<or> on\<rparr>)
      | None \<Rightarrow>
          (let self = self\<lparr>missing_fast := saturating_inc_u8 (missing_fast self),
                 fc_alarms := fc_alarms self OR (GLOBAL_ALARM_FAST_SENSOR OR GLOBAL_ALARM_LINK)\<rparr>
           in if 3 \<le> missing_fast self
              then self\<lparr>safe := True, fc_alarms := fc_alarms self OR GLOBAL_ALARM_SAFE\<rparr>
              else self))"

definition aid_is_valid :: "GlobalFlightComputer \<Rightarrow> GlobalAidFrameCell \<Rightarrow> bool" where
  "aid_is_valid self cell \<longleftrightarrow>
     ga_session cell = cfg_session (config self) \<and> ga_measurement_epoch cell \<le> ga_production_epoch cell
     \<and> epoch self - ga_production_epoch cell \<le> 32 \<and> ga_frame cell = nav_frame (navigation self)"

definition receive_aid :: "GlobalFlightComputer \<Rightarrow> GlobalAidFrameCell option \<Rightarrow> GlobalAidFrameCell option
    \<Rightarrow> GlobalFlightComputer" where
  "receive_aid self aid_cell valid_aid =
     (case valid_aid of
        Some cell \<Rightarrow>
          (let self = (if ga_validity cell AND GLOBAL_AID_FRAME_SERVICE \<noteq> 0
                          \<and> nav_frame (navigation self) = EarthInertialEciV1
                       then self\<lparr>ecef_to_active_rotation := frame_rotation_q30 cell\<rparr> else self)
           in self\<lparr>navigation := navigation_aid (navigation self) cell (ecef_to_active_rotation self)
                     (ecef_to_active_translation self) (ecef_to_active_velocity_bias self),
                   last_aid := Some cell\<rparr>)
      | None \<Rightarrow> if aid_cell \<noteq> None then self\<lparr>fc_alarms := fc_alarms self OR GLOBAL_ALARM_AID\<rparr> else self)"

definition update_mode_and_recovery :: "GlobalFlightComputer \<Rightarrow> GlobalFastSensorCell option \<Rightarrow> GlobalAidFrameCell option
    \<Rightarrow> GlobalFlightComputer" where
  "update_mode_and_recovery self fast_cell aid_cell =
     (let self = self\<lparr>fc_mode :=
            (if safe self then Safe
             else case nav_frame (navigation self) of
               LocalEnuV1 \<Rightarrow> if transition_count self = 0 then (if powered self then Ascent else Prelaunch)
                             else Recovery
             | EarthFixedEcefV1 \<Rightarrow> if seen_powered self \<and> \<not> powered self then Entry else Ascent
             | EarthInertialEciV1 \<Rightarrow> Coast)\<rparr>;
          self = self\<lparr>armed := armed self \<or> (seen_powered self \<and> \<not> powered self
                   \<and> minimum_arming_time_q16 (config self) \<le> last_time_q16 self)\<rparr>;
          self = self\<lparr>descending_count :=
            (if fc_mode self = Recovery \<and> at3 (nav_velocity_q24 (navigation self)) 2 <s 0
             then saturating_inc_u8 (descending_count self) else 0)\<rparr>;
          self = (if (case aid_cell of Some value \<Rightarrow> ga_events value AND 0x200 \<noteq> 0 | None \<Rightarrow> False)
                  then self\<lparr>fc_mode := Complete\<rparr> else self)
      in if fast_cell = None \<and> 3 \<le> missing_fast self then self\<lparr>fc_mode := Safe\<rparr> else self)"

definition command_drogue :: "GlobalFlightComputer \<Rightarrow> bool \<Rightarrow> u8 \<times> GlobalFlightComputer" where
  "command_drogue self cont =
     (let mach_subsonic = (case last_fast self of Some cell \<Rightarrow> mach_q12 cell <s 3277 | None \<Rightarrow> False);
          drogue_primary = (fc_mode self = Recovery \<and> 2 \<le> descending_count self \<and> mach_subsonic);
          drogue_backup = (drogue_backup_time_q16 (config self) \<le> last_time_q16 self)
      in if \<not> drogue_latched self \<and> (drogue_primary \<or> drogue_backup)
         then if cont
              then (GLOBAL_COMMAND_DROGUE, self\<lparr>drogue_latched := True, drogue_time_q16 := last_time_q16 self\<rparr>)
              else (0, self\<lparr>fc_alarms := fc_alarms self OR GLOBAL_ALARM_RECOVERY\<rparr>)
         else (0, self))"

definition separation_elapsed :: "GlobalFlightComputer \<Rightarrow> bool" where
  "separation_elapsed self \<longleftrightarrow>
     minimum_deployment_separation_q16 (config self)
       \<le> (if last_time_q16 self < drogue_time_q16 self then 0 else last_time_q16 self - drogue_time_q16 self)"

definition command_main :: "GlobalFlightComputer \<Rightarrow> bool \<Rightarrow> u16 \<Rightarrow> u8 \<times> GlobalFlightComputer" where
  "command_main self cont feedback =
     (let separation = separation_elapsed self;
          main_primary = (drogue_latched self \<and> feedback AND 1 \<noteq> 0 \<and> separation \<and> fc_mode self = Recovery
            \<and> at3 (nav_velocity_q24 (navigation self)) 2 <s 0
            \<and> at3 (nav_position_q12 (navigation self)) 2 \<le>s main_altitude_q12_km (config self));
          main_backup = (drogue_latched self \<and> separation
            \<and> main_backup_time_q16 (config self) \<le> last_time_q16 self)
      in if \<not> main_latched self \<and> (main_primary \<or> main_backup)
         then if cont
              then (GLOBAL_COMMAND_MAIN, self\<lparr>main_latched := True\<rparr>)
              else (0, self\<lparr>fc_alarms := fc_alarms self OR GLOBAL_ALARM_RECOVERY\<rparr>)
         else (0, self))"

definition recovery_command :: "GlobalFlightComputer \<Rightarrow> GlobalAidFrameCell option \<Rightarrow> u8 \<times> GlobalFlightComputer" where
  "recovery_command self aid_cell =
     (if safe self \<or> \<not> armed self then (0, self)
      else
      let cont = (case filter_option (\<lambda>cell. ga_validity cell AND GLOBAL_AID_CONTINUITY \<noteq> 0) aid_cell of
                    Some cell \<Rightarrow> continuity cell AND 1 \<noteq> 0 | None \<Rightarrow> False);
          feedback = (case filter_option (\<lambda>cell. ga_validity cell AND GLOBAL_AID_DEPLOYMENT_FEEDBACK \<noteq> 0) aid_cell of
                    Some cell \<Rightarrow> deployment_feedback cell | None \<Rightarrow> 0);
          (drogue, self) = command_drogue self cont;
          (main, self) = command_main self cont feedback
      in (drogue OR main, self))"

definition guidance_target :: "GlobalFlightComputer \<Rightarrow> i32 vec4" where
  "guidance_target self =
     (case fc_mode self of
        Ascent \<Rightarrow>
          if pitch_program_end_q16 (config self) \<le> last_time_q16 self then powered_target_q30 (config self)
          else
          let fraction_q16 = ucast ((push_bit 16 (ucast (last_time_q16 self)) :: u64)
                 div ucast (pitch_program_end_q16 (config self))) :: i32
          in normalize_quaternion (make4 (\<lambda>component.
               let lo = at4 (launch_target_q30 (config self)) component;
                   hi = at4 (powered_target_q30 (config self)) component
               in saturating_add_i32 lo
                    (ucast (signed_drop_bit 16 ((scast hi - scast lo) * scast fraction_q16 :: i64)))))
      | Coast \<Rightarrow> if descending_global (navigation self)
                 then body_x_attitude_from_velocity (nav_velocity_q24 (navigation self))
                 else powered_target_q30 (config self)
      | Entry \<Rightarrow> body_x_attitude_from_velocity (nav_velocity_q24 (navigation self))
      | _ \<Rightarrow> powered_target_q30 (config self))"

definition axis_demand :: "GlobalFlightComputer \<Rightarrow> i32 vec4 \<Rightarrow> GlobalFastSensorCell \<Rightarrow> nat \<Rightarrow> i16" where
  "axis_demand self error_quaternion cell axis =
     (let error = signed_drop_bit 15 (at4 error_quaternion (axis + 1));
          rate = scast (at3 (angular_rate_q15 cell) axis) :: i32;
          proportional = signed_drop_bit 15 (error * scast (at3 (proportional_gain_q15 (config self)) axis));
          derivative = signed_drop_bit 15 (- rate * scast (at3 (derivative_gain_q15 (config self)) axis))
      in clamp_i16 (saturating_add_i32 proportional derivative))"

definition axis_torque :: "GlobalFlightComputer \<Rightarrow> i16 vec3 \<Rightarrow> nat \<Rightarrow> i32" where
  "axis_torque self demand axis =
     ucast (signed_drop_bit 15 (scast (at3 demand axis) * scast (at3 (torque_limit_q12 (config self)) axis) :: i64))"

definition attitude_demand :: "GlobalFlightComputer \<Rightarrow> GlobalFastSensorCell option \<Rightarrow> i16 vec3 \<times> i32 vec3" where
  "attitude_demand self valid_fast =
     (case valid_fast of
        None \<Rightarrow> ((0, 0, 0), (0, 0, 0))
      | Some cell \<Rightarrow>
          let error_quaternion = attitude_error (attitude_q30 (navigation self)) (guidance_target self);
              demand = make3 (axis_demand self error_quaternion cell)
          in (demand, make3 (axis_torque self demand)))"

definition clamp_gimbal :: "i16 \<Rightarrow> i16 \<Rightarrow> i16" where
  "clamp_gimbal limit v = (if v <s - limit then - limit else if limit <s v then limit else v)"

definition pulse_quantum :: "nat \<Rightarrow> i32 \<Rightarrow> u8" where
  "pulse_quantum axis demand =
     (let pair_authority_q12 = (if axis = 0 then 1638 else 29900) :: u32;
          mag = word_of_int \<bar>sint demand\<bar> :: u32
      in if mag = 0 then 0
         else ucast (max 1 (min 8 ((mag * 8 + pair_authority_q12 div 2) div pair_authority_q12))))"

definition rcs_pulses :: "GlobalFlightComputer \<Rightarrow> i32 vec3 \<Rightarrow> u8 list" where
  "rcs_pulses self torque =
     for3 (\<lambda>axis pulses.
       let demand = (if axis = 0 \<and> descending_global (navigation self) then 0 else at3 torque axis);
           quantum = pulse_quantum axis demand
       in if quantum \<noteq> 0
          then let channel = axis * 4 + (if demand <s 0 then 2 else 0)
               in pulses[channel := quantum, channel + 1 := quantum]
          else pulses) (replicate 12 0)"

definition status_cell :: "GlobalFlightComputer \<Rightarrow> GlobalStatusCell" where
  "status_cell self =
     \<lparr>gs_session = cfg_session (config self), gs_source_epoch = epoch self, gs_production_epoch = epoch self,
      gs_frame = nav_frame (navigation self), gs_mode = mode_tag_global (fc_mode self),
      gs_flags = of_bool (safe self), gs_alarms = fc_alarms self,
      gs_position_q12 = nav_position_q12 (navigation self), gs_velocity_q24 = nav_velocity_q24 (navigation self),
      gs_attitude_q30 = attitude_q30 (navigation self),
      gs_covariance_proxy_q16 = covariance_proxy_q16 (navigation self),
      gs_sensor_checksum = fc_sensor_checksum self, gs_navigation_checksum = nav_checksum (navigation self),
      gs_command_checksum = fc_command_checksum self, gs_flight_checksum = fc_flight_checksum self,
      gs_deadline_misses = fc_deadline_misses self, gs_transition_count = transition_count self\<rparr>"

definition build_command :: "GlobalFlightComputer \<Rightarrow> GlobalFastSensorCell option \<Rightarrow> u8 \<Rightarrow> GlobalCommandCell" where
  "build_command self valid_fast disc =
     (let (demand, torque) = attitude_demand self valid_fast;
          held = (missing_fast self \<noteq> 0 \<and> missing_fast self \<le> 2);
          (torque, demand, disc) =
            (if held then (torque_demand_q12 (last_command self),
                (at3 demand 0, fst (gimbal_q15 (last_command self)), snd (gimbal_q15 (last_command self))), 0)
             else (torque, demand, disc));
          flags = (if held then GLOBAL_COMMAND_HOLD else 0);
          (torque, demand, disc) =
            (if safe self then ((0, 0, 0), (0, 0, 0), GLOBAL_COMMAND_SAFE) else (torque, demand, disc));
          gimbal = (if powered self \<and> \<not> safe self
            then (clamp_gimbal (gimbal_limit_q15 (config self)) (at3 demand 1),
                  clamp_gimbal (gimbal_limit_q15 (config self)) (at3 demand 2))
            else (0, 0));
          pulses = (if \<not> powered self \<and> \<not> safe self \<and> fc_mode self \<in> {Coast, Entry}
            then rcs_pulses self torque else replicate 12 0);
          exhausted = (case last_fast self of Some cell \<Rightarrow> rcs_propellant_q21 cell \<le>s 0 | None \<Rightarrow> False);
          (pulses, flags) = (if exhausted then (replicate 12 0, flags OR GLOBAL_COMMAND_RCS_RESERVED) else (pulses, flags))
      in \<lparr>gc_session = cfg_session (config self), gc_source_epoch = epoch self, gc_effective_epoch = epoch self + 1,
          gc_frame = nav_frame (navigation self), gc_flags = flags, gc_discrete = disc, gimbal_q15 = gimbal,
          rcs_pulse_quanta = pulses, torque_demand_q12 = torque, gc_status = fc_alarms self, command_checksum = 0\<rparr>)"

definition tick :: "GlobalFlightComputer \<Rightarrow> GlobalFastSensorCell option \<Rightarrow> GlobalAidFrameCell option
    \<Rightarrow> GlobalTransitionCell option \<Rightarrow> GlobalFlightEvidence \<times> GlobalFlightComputer" where
  "tick self fast_cell aid_cell transition =
     (let self = apply_transition self transition;
          valid_fast = filter_option (fast_is_valid self) fast_cell;
          self = receive_fast self valid_fast;
          valid_aid = filter_option (aid_is_valid self) aid_cell;
          self = receive_aid self aid_cell valid_aid;
          self = update_mode_and_recovery self valid_fast valid_aid;
          (disc, self) = recovery_command self valid_aid;
          command = build_command self valid_fast disc;
          self = self\<lparr>fc_command_checksum := hash_command (fc_command_checksum self) command\<rparr>;
          command = command\<lparr>command_checksum := fc_command_checksum self\<rparr>;
          self = self\<lparr>fc_flight_checksum := hash_flight (fc_flight_checksum self) (epoch self)
                   (nav_checksum (navigation self)) (fc_command_checksum self) (fc_alarms self)\<rparr>;
          self = self\<lparr>last_command := command\<rparr>;
          self = self\<lparr>last_status := (if epoch self AND 3 = 0 then Some (status_cell self) else None)\<rparr>;
          self = self\<lparr>epoch := epoch self + 1\<rparr>
      in (\<lparr>ev_command = command, ev_status = last_status self, ev_navigation = navigation self,
           ev_mode = fc_mode self, ev_safe = safe self, ev_armed = armed self,
           ev_drogue_latched = drogue_latched self, ev_main_latched = main_latched self,
           ev_alarms = fc_alarms self, ev_sensor_checksum = fc_sensor_checksum self,
           ev_flight_checksum = fc_flight_checksum self, ev_deadline_misses = fc_deadline_misses self\<rparr>, self))"

end
