(* ===== verification/Flight_Safety.thy ===== *)
theory Flight_Safety
  imports Global_Flight
begin

text \<open>
  Safety of the phase 10 flight computer over every sequence of its public operations.
\<close>

unbundle bit_operations_syntax

subsection \<open>What each stage of a tick leaves unchanged\<close>

named_theorems stage_frame \<open>fields a stage of the tick does not change\<close>

definition fixed_config :: "GlobalFlightConfig \<Rightarrow> GlobalFlightConfig" where
  "fixed_config cfg = cfg\<lparr>launch_target_q30 := (0, 0, 0, 0), powered_target_q30 := (0, 0, 0, 0), entry_target_q30 := (0, 0, 0, 0)\<rparr>"

lemma fixed_config_fields:
  assumes "fixed_config a = fixed_config b"
  shows "cfg_session a = cfg_session b" "torque_limit_q12 a = torque_limit_q12 b" "gimbal_limit_q15 a = gimbal_limit_q15 b"
    "minimum_deployment_separation_q16 a = minimum_deployment_separation_q16 b"
    "drogue_backup_time_q16 a = drogue_backup_time_q16 b"
    "config_is_valid a = config_is_valid b"
proof -
  have e: "f (fixed_config a) = f (fixed_config b)" for f :: "GlobalFlightConfig \<Rightarrow> 'x" using assms by simp
  show "cfg_session a = cfg_session b" using e [of cfg_session] by (simp add: fixed_config_def)
  show "torque_limit_q12 a = torque_limit_q12 b" using e [of torque_limit_q12] by (simp add: fixed_config_def)
  show "gimbal_limit_q15 a = gimbal_limit_q15 b" using e [of gimbal_limit_q15] by (simp add: fixed_config_def)
  show "minimum_deployment_separation_q16 a = minimum_deployment_separation_q16 b"
    using e [of minimum_deployment_separation_q16] by (simp add: fixed_config_def)
  show "drogue_backup_time_q16 a = drogue_backup_time_q16 b"
    using e [of drogue_backup_time_q16] by (simp add: fixed_config_def)
  show "config_is_valid a = config_is_valid b" using e [of config_is_valid] by (simp add: config_is_valid_def fixed_config_def)
qed

lemma apply_transition_frame [stage_frame]:
  "missing_fast (apply_transition c t) = missing_fast c" "armed (apply_transition c t) = armed c"
  "seen_powered (apply_transition c t) = seen_powered c" "powered (apply_transition c t) = powered c"
  "drogue_latched (apply_transition c t) = drogue_latched c" "main_latched (apply_transition c t) = main_latched c"
  "drogue_time_q16 (apply_transition c t) = drogue_time_q16 c" "last_time_q16 (apply_transition c t) = last_time_q16 c"
  "last_command (apply_transition c t) = last_command c" "last_fast (apply_transition c t) = last_fast c"
  "epoch (apply_transition c t) = epoch c" "fixed_config (config (apply_transition c t)) = fixed_config (config c)"
  by (simp_all add: apply_transition_def fixed_config_def Let_def split: option.split prod.split GlobalFrameId.split)

lemma apply_transition_safe [stage_frame]: "safe c \<Longrightarrow> safe (apply_transition c t)"
  by (simp add: apply_transition_def Let_def split: option.split prod.split GlobalFrameId.split)

lemma receive_fast_frame [stage_frame]:
  "armed (receive_fast c f) = armed c" "drogue_latched (receive_fast c f) = drogue_latched c"
  "main_latched (receive_fast c f) = main_latched c" "drogue_time_q16 (receive_fast c f) = drogue_time_q16 c"
  "last_command (receive_fast c f) = last_command c" "epoch (receive_fast c f) = epoch c"
  "config (receive_fast c f) = config c" "safe c \<Longrightarrow> safe (receive_fast c f)"
  by (simp_all add: receive_fast_def Let_def split: option.split)

lemma receive_aid_frame [stage_frame]:
  "missing_fast (receive_aid c a v) = missing_fast c" "armed (receive_aid c a v) = armed c"
  "seen_powered (receive_aid c a v) = seen_powered c" "powered (receive_aid c a v) = powered c"
  "drogue_latched (receive_aid c a v) = drogue_latched c" "main_latched (receive_aid c a v) = main_latched c"
  "drogue_time_q16 (receive_aid c a v) = drogue_time_q16 c" "last_time_q16 (receive_aid c a v) = last_time_q16 c"
  "last_command (receive_aid c a v) = last_command c" "last_fast (receive_aid c a v) = last_fast c"
  "epoch (receive_aid c a v) = epoch c" "config (receive_aid c a v) = config c" "safe (receive_aid c a v) = safe c"
  by (simp_all add: receive_aid_def Let_def split: option.split)

lemma update_mode_frame [stage_frame]:
  "missing_fast (update_mode_and_recovery c f a) = missing_fast c"
  "seen_powered (update_mode_and_recovery c f a) = seen_powered c" "powered (update_mode_and_recovery c f a) = powered c"
  "drogue_latched (update_mode_and_recovery c f a) = drogue_latched c"
  "main_latched (update_mode_and_recovery c f a) = main_latched c"
  "drogue_time_q16 (update_mode_and_recovery c f a) = drogue_time_q16 c"
  "last_time_q16 (update_mode_and_recovery c f a) = last_time_q16 c"
  "last_command (update_mode_and_recovery c f a) = last_command c"
  "last_fast (update_mode_and_recovery c f a) = last_fast c" "epoch (update_mode_and_recovery c f a) = epoch c"
  "config (update_mode_and_recovery c f a) = config c" "safe (update_mode_and_recovery c f a) = safe c"
  "navigation (update_mode_and_recovery c f a) = navigation c"
  by (simp_all add: update_mode_and_recovery_def Let_def)

lemma command_drogue_frame:
  assumes "command_drogue c ct = (d, c')"
  shows "missing_fast c' = missing_fast c" "armed c' = armed c" "powered c' = powered c" "seen_powered c' = seen_powered c"
    "last_time_q16 c' = last_time_q16 c" "last_command c' = last_command c" "last_fast c' = last_fast c"
    "epoch c' = epoch c" "config c' = config c" "safe c' = safe c" "fc_mode c' = fc_mode c" "navigation c' = navigation c"
    "main_latched c' = main_latched c"
  using assms by (simp_all add: command_drogue_def Let_def split: if_splits) auto

lemma command_main_frame:
  assumes "command_main c ct fb = (d, c')"
  shows "missing_fast c' = missing_fast c" "armed c' = armed c" "powered c' = powered c" "seen_powered c' = seen_powered c"
    "last_time_q16 c' = last_time_q16 c" "last_command c' = last_command c" "last_fast c' = last_fast c"
    "epoch c' = epoch c" "config c' = config c" "safe c' = safe c" "fc_mode c' = fc_mode c" "navigation c' = navigation c"
    "drogue_latched c' = drogue_latched c" "drogue_time_q16 c' = drogue_time_q16 c"
  using assms by (simp_all add: command_main_def Let_def split: if_splits) auto

lemma recovery_command_cases:
  assumes "recovery_command c a = (d, c')"
  obtains "safe c \<or> \<not> armed c" "d = 0" "c' = c"
  | dr mn c1 ct fb where "\<not> safe c" "armed c" "command_drogue c ct = (dr, c1)" "command_main c1 ct fb = (mn, c')" "d = dr OR mn"
  using assms by (auto simp: recovery_command_def Let_def split: if_splits prod.splits)

lemma recovery_command_frame:
  assumes "recovery_command c a = (d, c')"
  shows "missing_fast c' = missing_fast c" "armed c' = armed c" "powered c' = powered c" "seen_powered c' = seen_powered c"
    "last_time_q16 c' = last_time_q16 c" "last_command c' = last_command c" "last_fast c' = last_fast c"
    "epoch c' = epoch c" "config c' = config c" "safe c' = safe c" "fc_mode c' = fc_mode c" "navigation c' = navigation c"
  by (cases rule: recovery_command_cases [OF assms]; simp add: command_drogue_frame command_main_frame)+

subsection \<open>One tick\<close>

definition advance :: "GlobalFlightComputer \<Rightarrow> GlobalFastSensorCell option \<Rightarrow> GlobalAidFrameCell option
    \<Rightarrow> GlobalTransitionCell option
    \<Rightarrow> GlobalFlightComputer \<times> GlobalFastSensorCell option \<times> GlobalAidFrameCell option" where
  "advance c f a t =
     (let c = apply_transition c t; vf = filter_option (fast_is_valid c) f; c = receive_fast c vf;
          va = filter_option (aid_is_valid c) a
      in (update_mode_and_recovery (receive_aid c a va) vf va, vf, va))"

lemma advance_frame:
  assumes "advance c f a t = (c1, vf, va)"
  shows "drogue_latched c1 = drogue_latched c" "main_latched c1 = main_latched c" "drogue_time_q16 c1 = drogue_time_q16 c"
    "last_command c1 = last_command c" "epoch c1 = epoch c" "fixed_config (config c1) = fixed_config (config c)"
    "safe c \<Longrightarrow> safe c1" "vf = None \<Longrightarrow> powered c1 = powered c" "vf = None \<Longrightarrow> last_time_q16 c1 = last_time_q16 c"
    "missing_fast c1 = (if vf = None then saturating_inc_u8 (missing_fast c) else 0)"
    "vf = None \<Longrightarrow> 3 \<le> missing_fast c1 \<Longrightarrow> safe c1" "f = None \<Longrightarrow> vf = None"
    "vf = None \<Longrightarrow> missing_fast c1 < 3 \<Longrightarrow> t = None \<Longrightarrow> safe c1 = safe c"
  using assms unfolding advance_def Let_def
  by (auto simp: stage_frame receive_fast_def filter_option_def apply_transition_def [of c None] Let_def
      split: option.splits if_splits)

lemma tick_advance:
  assumes "tick c f a t = (e, c')"
  obtains c1 vf va d c2 ck where "advance c f a t = (c1, vf, va)" "recovery_command c1 va = (d, c2)"
    "ev_command e = (build_command c2 vf d)\<lparr>command_checksum := ck\<rparr>" "last_command c' = ev_command e"
    "epoch c' = epoch c + 1" "config c' = config c2" "safe c' = safe c2" "missing_fast c' = missing_fast c2"
    "powered c' = powered c2" "drogue_latched c' = drogue_latched c2" "main_latched c' = main_latched c2"
    "drogue_time_q16 c' = drogue_time_q16 c2" "last_time_q16 c' = last_time_q16 c2" "armed c' = armed c2"
    "navigation c' = navigation c2" "fc_mode c' = fc_mode c2"
    "ev_safe e = safe c'" "ev_drogue_latched e = drogue_latched c'" "ev_main_latched e = main_latched c'" "ev_armed e = armed c'"
    "seen_powered c' = seen_powered c2"
proof -
  obtain c1 vf va where a: "advance c f a t = (c1, vf, va)" by (cases "advance c f a t") auto
  obtain d c2 where r: "recovery_command c1 va = (d, c2)" by fastforce
  define ck where "ck = hash_command (fc_command_checksum c2) (build_command c2 vf d)"
  have "epoch c2 = epoch c" using advance_frame(5) [OF a] recovery_command_frame(8) [OF r] by simp
  moreover have t: "tick c f a t = (e, c')" by (rule assms)
  ultimately show ?thesis
    using a r that [OF a r, of ck] unfolding tick_def advance_def Let_def ck_def by auto
qed

subsection \<open>Sequences of operations\<close>

datatype flight_op =
    Tick "GlobalFastSensorCell option" "GlobalAidFrameCell option" "GlobalTransitionCell option"
  | NavigationUpdate GlobalFrameId "i32 vec3" "i32 vec3" u16
  | GuidanceTarget u8 "i32 vec4"
  | RequestSafe
  | DeadlineMiss

fun flight_step :: "GlobalFlightComputer \<Rightarrow> flight_op \<Rightarrow> GlobalFlightEvidence list \<times> GlobalFlightComputer" where
  "flight_step c (Tick f a t) = (case tick c f a t of (e, c) \<Rightarrow> ([e], c))"
| "flight_step c (NavigationUpdate frame p v ep) = ([], snd (operational_navigation_update c frame p v ep))"
| "flight_step c (GuidanceTarget selector q) = ([], snd (operational_guidance_target c selector q))"
| "flight_step c RequestSafe = ([], operational_request_safe c)"
| "flight_step c DeadlineMiss = ([], record_deadline_miss c)"

fun flight_run :: "GlobalFlightComputer \<Rightarrow> flight_op list \<Rightarrow> GlobalFlightEvidence list \<times> GlobalFlightComputer" where
  "flight_run c [] = ([], c)"
| "flight_run c (opn # ops) =
     (case flight_step c opn of (e, c) \<Rightarrow> case flight_run c ops of (es, c) \<Rightarrow> (e @ es, c))"

text \<open>
  An operation other than a tick changes neither the recovery latches nor the last
  command, and it never leaves the safe state.
\<close>

definition same_latches :: "GlobalFlightComputer \<Rightarrow> GlobalFlightComputer \<Rightarrow> bool" where
  "same_latches c c' \<longleftrightarrow> drogue_latched c' = drogue_latched c \<and> main_latched c' = main_latched c
     \<and> drogue_time_q16 c' = drogue_time_q16 c \<and> last_command c' = last_command c \<and> powered c' = powered c
     \<and> fixed_config (config c') = fixed_config (config c) \<and> (safe c \<longrightarrow> safe c')"

lemma other_ops_same_latches:
  "same_latches c (snd (operational_navigation_update c frame p v ep))"
  "same_latches c (snd (operational_guidance_target c selector q))"
  "same_latches c (operational_request_safe c)" "same_latches c (record_deadline_miss c)"
  by (simp_all add: same_latches_def operational_navigation_update_def operational_guidance_target_def
      operational_request_safe_def record_deadline_miss_def fixed_config_def Let_def)

lemma flight_step_cases:
  assumes "flight_step c opn = (es, c')"
  obtains (tick) f a t e where "opn = Tick f a t" "tick c f a t = (e, c')" "es = [e]"
  | (other) "es = []" "same_latches c c'"
  using assms other_ops_same_latches by (cases opn) (auto split: prod.splits)

lemma flight_run_induct [consumes 1, case_names Nil Cons]:
  assumes "flight_run c ops = (es, c')"
    and "\<And>c. P c [] [] c"
    and "\<And>c opn e c1 ops es c'. flight_step c opn = (e, c1) \<Longrightarrow> flight_run c1 ops = (es, c') \<Longrightarrow> P c1 ops es c'
      \<Longrightarrow> P c (opn # ops) (e @ es) c'"
  shows "P c ops es c'"
  using assms(1)
proof (induction ops arbitrary: c es)
  case (Cons opn ops)
  obtain e c1 where st: "flight_step c opn = (e, c1)" by fastforce
  obtain es1 c2 where r: "flight_run c1 ops = (es1, c2)" by fastforce
  have "es = e @ es1" "c' = c2" using Cons.prems st r by simp_all
  then show ?case using assms(3) [OF st r] Cons.IH [OF r [folded \<open>c' = c2\<close>]] by simp
qed (use assms(2) in simp)

subsection \<open>The safe state\<close>

definition inert :: "GlobalCommandCell \<Rightarrow> bool" where
  "inert command \<longleftrightarrow> torque_demand_q12 command = (0, 0, 0) \<and> gimbal_q15 command = (0, 0)
     \<and> rcs_pulse_quanta command = replicate 12 0 \<and> gc_discrete command = GLOBAL_COMMAND_SAFE"

lemma build_command_safe: "safe c \<Longrightarrow> inert (build_command c vf d)"
  by (auto simp: build_command_def inert_def Let_def split: prod.splits)

lemma tick_safe:
  assumes "tick c f a t = (e, c')"
  shows "safe c \<Longrightarrow> safe c'" "safe c' \<Longrightarrow> inert (ev_command e)" "ev_safe e = safe c'"
proof -
  obtain c1 vf va d c2 ck where s: "advance c f a t = (c1, vf, va)" "recovery_command c1 va = (d, c2)"
      "ev_command e = (build_command c2 vf d)\<lparr>command_checksum := ck\<rparr>" "safe c' = safe c2" "ev_safe e = safe c'"
    by (rule tick_advance [OF assms])
  show "safe c \<Longrightarrow> safe c'" using advance_frame(7) [OF s(1)] recovery_command_frame(10) [OF s(2)] s(4) by simp
  show "ev_safe e = safe c'" by (rule s(5))
  show "inert (ev_command e)" if "safe c'" using build_command_safe [of c2 vf d] that s(3,4) by (simp add: inert_def)
qed

lemma flight_run_safe:
  assumes "flight_run c ops = (es, c')" "safe c"
  shows "\<forall>e \<in> set es. ev_safe e \<and> inert (ev_command e)"
  using assms
proof (induction rule: flight_run_induct)
  case (Cons c opn e c1 ops es c')
  have "safe c1 \<and> (\<forall>x \<in> set e. ev_safe x \<and> inert (ev_command x))"
    by (cases rule: flight_step_cases [OF Cons.hyps(1)]) (use Cons.prems tick_safe in \<open>auto simp: same_latches_def\<close>)
  then show ?case using Cons.IH by auto
qed simp

lemma flight_run_latched:
  assumes "flight_run c ops = (es, c')" "i \<le> j" "j < length es" "ev_safe (es ! i)"
  shows "ev_safe (es ! j) \<and> inert (ev_command (es ! j))"
  using assms
proof (induction arbitrary: i j rule: flight_run_induct)
  case (Cons c opn e c1 ops es c')
  from Cons.hyps(1) show ?case
  proof (cases rule: flight_step_cases)
    case (tick f a t x)
    show ?thesis
    proof (cases i)
      case 0
      then have "safe c1" using Cons.prems(3) tick tick_safe(3) by simp
      then have all: "\<forall>y \<in> set (x # es). ev_safe y \<and> inert (ev_command y)"
        using flight_run_safe [OF Cons.hyps(2)] tick_safe(2,3) [OF tick(2)] by simp
      then show ?thesis using Cons.prems(2) tick(3) by (simp del: set_simps)
    next
      case (Suc i')
      then show ?thesis using Cons.IH [of i' "j - 1"] Cons.prems tick(3) by (cases j) auto
    qed
  next
    case other
    then show ?thesis using Cons.IH [of i j] Cons.prems by simp
  qed
qed simp

subsection \<open>Authority\<close>

lemma clamp_gimbal_bound:
  assumes "0 \<le>s limit"
  shows "\<bar>sint (clamp_gimbal limit v)\<bar> \<le> sint limit"
proof -
  have l: "0 \<le> sint limit" "sint limit < 2 ^ 15" using assms sint_i16_range [of limit] by (simp_all add: word_sle_eq)
  then have n: "sint (- limit) = - sint limit"
    by (simp add: sint_word_minus signed_take_bit_int_eq_self)
  show ?thesis using l by (auto simp: clamp_gimbal_def word_sless_alt n)
qed

lemma sint_down_cast:
  assumes "- (2 ^ 31) \<le> sint (w :: i64)" "sint w < 2 ^ 31"
  shows "sint (ucast w :: i32) = sint w"
proof -
  have "(ucast w :: i32) = scast w"
    using fun_cong [OF down_cast_same [where 'a = 64 and 'b = 32], of w] by (simp add: is_down)
  then have "(ucast w :: i32) = word_of_int (sint w)" by (simp only: scast_eq)
  then show ?thesis by (simp only: sint_of_int_i32 assms)
qed

lemma axis_torque_bound:
  assumes "0 <s at3 (torque_limit_q12 (config c)) axis"
  shows "\<bar>sint (axis_torque c demand axis)\<bar> \<le> sint (at3 (torque_limit_q12 (config c)) axis)"
proof -
  define l where "l = sint (at3 (torque_limit_q12 (config c)) axis)"
  define d where "d = sint (at3 demand axis)"
  have l: "0 < l" "l < 2 ^ 31" using assms sint_i32_range by (simp_all add: l_def word_sless_alt)
  have d: "- (2 ^ 15) \<le> d" "d < 2 ^ 15" using sint_i16_range by (simp_all add: d_def)
  have lo: "- (2 ^ 15) * l \<le> d * l" and hi: "d * l \<le> 2 ^ 15 * l" using d l(1) by (intro mult_right_mono; simp)+
  have lo': "- 32768 * l \<le> d * l" and hi': "d * l \<le> 32768 * l" and l': "l < 2147483648" using lo hi l(2) by simp_all
  have p: "sint (scast (at3 demand axis) * scast (at3 (torque_limit_q12 (config c)) axis) :: i64) = d * l"
  proof -
    have "(scast (at3 demand axis) * scast (at3 (torque_limit_q12 (config c)) axis) :: i64) = word_of_int (d * l)"
      by (simp only: d_def l_def scast_eq of_int_mult)
    moreover have "- 9223372036854775808 \<le> d * l" "d * l < 9223372036854775808" using lo' hi' l' l(1) by linarith+
    ultimately show ?thesis using sint_of_int_i64 [of "d * l"] by simp
  qed
  have "(- l) * 2 ^ 15 div 2 ^ 15 \<le> d * l div 2 ^ 15" "d * l div 2 ^ 15 \<le> l * 2 ^ 15 div 2 ^ 15"
    using lo hi by (intro zdiv_mono1; simp)+
  then have q: "- l \<le> d * l div 2 ^ 15" "d * l div 2 ^ 15 \<le> l" by simp_all
  have "sint (axis_torque c demand axis) = d * l div 2 ^ 15"
    unfolding axis_torque_def using q l p
    by (subst sint_down_cast) (simp_all add: sint_signed_drop_bit_eq drop_bit_eq_div)
  then show ?thesis using q by (simp add: abs_le_iff flip: l_def)
qed

lemma pulse_quantum_le: "pulse_quantum axis d \<le> 8"
proof -
  have "unat (ucast (max 1 (min 8 x) :: u32) :: u8) \<le> 8" for x
  proof -
    have "max 1 (min 8 x) \<le> (8 :: u32)" by (auto simp: max_def min_def)
    then show ?thesis by (simp add: word_le_nat_alt unsigned_ucast_eq take_bit_eq_mod)
  qed
  then show ?thesis by (simp add: pulse_quantum_def Let_def word_le_nat_alt)
qed

definition axis_block :: "u8 \<Rightarrow> bool \<Rightarrow> u8 list" where
  "axis_block q negative = (if negative then [0, 0, q, q] else [q, q, 0, 0])"

lemma rcs_pulses_blocks:
  "\<exists>q0 q1 q2 n0 n1 n2. rcs_pulses c t = axis_block q0 n0 @ axis_block q1 n1 @ axis_block q2 n2 \<and> q0 \<le> 8 \<and> q1 \<le> 8 \<and> q2 \<le> 8"
proof -
  define d where "d axis = (if axis = 0 \<and> descending_global (navigation c) then 0 else at3 t axis)" for axis :: nat
  define q where "q axis = pulse_quantum axis (d axis)" for axis
  have z: "replicate 12 (0::u8) = [0, 0, 0, 0, 0, 0, 0, 0, 0, 0, 0, 0]" by (simp add: numeral_eq_Suc)
  have "rcs_pulses c t = axis_block (q 0) (d 0 <s 0) @ axis_block (q 1) (d 1 <s 0) @ axis_block (q 2) (d 2 <s 0)"
    unfolding rcs_pulses_def for3_unfold Let_def d_def [symmetric] q_def [symmetric] z axis_block_def
    by (auto simp: numeral_eq_Suc)
  moreover have "q axis \<le> 8" for axis by (simp add: q_def pulse_quantum_le)
  ultimately show ?thesis by blast
qed

definition within_authority :: "GlobalFlightConfig \<Rightarrow> GlobalCommandCell \<Rightarrow> bool" where
  "within_authority cfg command \<longleftrightarrow>
     \<bar>sint (fst (gimbal_q15 command))\<bar> \<le> sint (gimbal_limit_q15 cfg)
     \<and> \<bar>sint (snd (gimbal_q15 command))\<bar> \<le> sint (gimbal_limit_q15 cfg)
     \<and> (\<forall>axis \<in> {0, 1, 2}. \<bar>sint (at3 (torque_demand_q12 command) axis)\<bar> \<le> sint (at3 (torque_limit_q12 cfg) axis))
     \<and> (\<exists>q0 q1 q2 n0 n1 n2. rcs_pulse_quanta command = axis_block q0 n0 @ axis_block q1 n1 @ axis_block q2 n2
          \<and> q0 \<le> 8 \<and> q1 \<le> 8 \<and> q2 \<le> 8)
     \<and> (gimbal_q15 command = (0, 0) \<or> rcs_pulse_quanta command = replicate 12 0)
     \<and> gc_flags command \<in> {0, 1, 4, 5} \<and> gc_discrete command \<in> {0, 1, 2, 3, 4}"

lemma idle_pulses_blocks: "replicate 12 0 = axis_block 0 n0 @ axis_block 0 n1 @ axis_block 0 n2"
  by (simp add: axis_block_def numeral_eq_Suc)

lemma idle_pulses_ex:
  "\<exists>q0 q1 q2 n0 n1 n2. replicate 12 0 = axis_block q0 n0 @ axis_block q1 n1 @ axis_block q2 n2
     \<and> q0 \<le> 8 \<and> q1 \<le> 8 \<and> q2 \<le> 8"
  by (rule exI [of _ 0], rule exI [of _ 0], rule exI [of _ 0], rule exI [of _ True], rule exI [of _ True], rule exI [of _ True])
     (simp add: idle_pulses_blocks [of True True True, symmetric])

lemma attitude_demand_bound:
  assumes "config_is_valid (config c)" "axis \<in> {0, 1, 2}"
  shows "\<bar>sint (at3 (snd (attitude_demand c vf)) axis)\<bar> \<le> sint (at3 (torque_limit_q12 (config c)) axis)"
proof -
  have l: "0 <s at3 (torque_limit_q12 (config c)) axis" using assms by (auto simp: config_is_valid_def all3_def)
  then show ?thesis
    using axis_torque_bound [OF l] assms(2)
    by (auto simp: attitude_demand_def make3_def Let_def word_sless_alt split: option.split)
qed

lemma build_command_authority:
  assumes "config_is_valid (config c)" "within_authority (config c) (last_command c)" "d \<in> {0, 1, 2, 3}"
  shows "within_authority (config c) (build_command c vf d)" "\<not> powered c \<Longrightarrow> gimbal_q15 (build_command c vf d) = (0, 0)"
proof -
  have g: "0 \<le>s gimbal_limit_q15 (config c)" using assms(1) by (simp add: config_is_valid_def)
  then have g0: "0 \<le> sint (gimbal_limit_q15 (config c))" by (simp add: word_sle_eq)
  have t0: "0 \<le> sint (at3 (torque_limit_q12 (config c)) axis)" if "axis \<in> {0, 1, 2}" for axis
    using assms(1) that by (auto simp: config_is_valid_def all3_def word_sless_alt)
  obtain demand torque where dt: "attitude_demand c vf = (demand, torque)" by (rule prod.exhaust)
  have t: "\<bar>sint (at3 torque axis)\<bar> \<le> sint (at3 (torque_limit_q12 (config c)) axis)" if "axis \<in> {0, 1, 2}" for axis
    using attitude_demand_bound [OF assms(1) that, of vf] dt by simp
  note cg = clamp_gimbal_bound [OF g]
  show "\<not> powered c \<Longrightarrow> gimbal_q15 (build_command c vf d) = (0, 0)"
    by (simp add: build_command_def Let_def dt)
  have "\<forall>axis \<in> {0, 1, 2}. \<bar>sint (at3 (torque_demand_q12 (build_command c vf d)) axis)\<bar>
      \<le> sint (at3 (torque_limit_q12 (config c)) axis)"
    using t t0 assms(2) by (auto simp: build_command_def Let_def dt within_authority_def)
  moreover have "\<bar>sint (fst (gimbal_q15 (build_command c vf d)))\<bar> \<le> sint (gimbal_limit_q15 (config c))
      \<and> \<bar>sint (snd (gimbal_q15 (build_command c vf d)))\<bar> \<le> sint (gimbal_limit_q15 (config c))"
    using cg g0 by (simp add: build_command_def Let_def dt)
  moreover have "\<exists>q0 q1 q2 n0 n1 n2. rcs_pulse_quanta (build_command c vf d)
      = axis_block q0 n0 @ axis_block q1 n1 @ axis_block q2 n2 \<and> q0 \<le> 8 \<and> q1 \<le> 8 \<and> q2 \<le> 8"
    using rcs_pulses_blocks idle_pulses_ex by (simp add: build_command_def Let_def dt)
  moreover have "gimbal_q15 (build_command c vf d) = (0, 0) \<or> rcs_pulse_quanta (build_command c vf d) = replicate 12 0"
    by (simp add: build_command_def Let_def dt)
  moreover have "gc_flags (build_command c vf d) \<in> {0, 1, 4, 5}"
    by (simp add: build_command_def Let_def dt GLOBAL_COMMAND_HOLD_def GLOBAL_COMMAND_RCS_RESERVED_def)
  moreover have "gc_discrete (build_command c vf d) \<in> {0, 1, 2, 3, 4}"
    using assms(3) by (auto simp: build_command_def Let_def dt GLOBAL_COMMAND_SAFE_def)
  ultimately show "within_authority (config c) (build_command c vf d)" by (simp add: within_authority_def)
qed

subsection \<open>Recovery latches\<close>

lemma command_drogue_latch:
  assumes "command_drogue c ct = (d, c')"
  shows "d \<in> {0, 1}" "drogue_latched c \<Longrightarrow> drogue_latched c' \<and> drogue_time_q16 c' = drogue_time_q16 c \<and> d = 0"
    "d \<noteq> 0 \<Longrightarrow> drogue_latched c'" "\<not> drogue_latched c \<Longrightarrow> drogue_latched c' \<Longrightarrow> drogue_time_q16 c' = last_time_q16 c \<and> d = 1"
  using assms by (auto simp: command_drogue_def GLOBAL_COMMAND_DROGUE_def Let_def split: if_splits)

lemma command_main_latch:
  assumes "command_main c ct fb = (d, c')"
  shows "d \<in> {0, 2}" "main_latched c \<Longrightarrow> main_latched c' \<and> d = 0"
    "d \<noteq> 0 \<Longrightarrow> main_latched c' \<and> drogue_latched c \<and> separation_elapsed c"
    "\<not> main_latched c \<Longrightarrow> main_latched c' \<Longrightarrow> d = 2"
  using assms by (auto simp: command_main_def GLOBAL_COMMAND_MAIN_def Let_def split: if_splits)

lemma recovery_command_latch:
  assumes "recovery_command c a = (d, c')"
  shows "d \<in> {0, 1, 2, 3}" "drogue_latched c \<Longrightarrow> drogue_latched c' \<and> drogue_time_q16 c' = drogue_time_q16 c \<and> d AND 1 = 0"
    "d AND 1 \<noteq> 0 \<Longrightarrow> drogue_latched c'" "main_latched c \<Longrightarrow> main_latched c' \<and> d AND 2 = 0"
    "d AND 2 \<noteq> 0 \<Longrightarrow> main_latched c'"
    "d AND 2 \<noteq> 0 \<Longrightarrow> 0 < minimum_deployment_separation_q16 (config c) \<Longrightarrow> drogue_latched c \<and> separation_elapsed c"
proof -
  consider "d = 0" "c' = c"
    | dr mn c1 ct fb where "command_drogue c ct = (dr, c1)" "command_main c1 ct fb = (mn, c')" "d = dr OR mn"
    by (rule recovery_command_cases [OF assms]) auto
  then have "d \<in> {0, 1, 2, 3} \<and> (drogue_latched c \<longrightarrow> drogue_latched c' \<and> drogue_time_q16 c' = drogue_time_q16 c \<and> d AND 1 = 0)
      \<and> (d AND 1 \<noteq> 0 \<longrightarrow> drogue_latched c') \<and> (main_latched c \<longrightarrow> main_latched c' \<and> d AND 2 = 0)
      \<and> (d AND 2 \<noteq> 0 \<longrightarrow> main_latched c')
      \<and> (d AND 2 \<noteq> 0 \<longrightarrow> 0 < minimum_deployment_separation_q16 (config c) \<longrightarrow> drogue_latched c \<and> separation_elapsed c)"
  proof cases
    case 2
    note dl = command_drogue_latch [OF 2(1)] and ml = command_main_latch [OF 2(2)]
    note df = command_drogue_frame [OF 2(1)] and mf = command_main_frame [OF 2(2)]
    have sep: "drogue_latched c \<and> separation_elapsed c"
      if "mn \<noteq> 0" "0 < minimum_deployment_separation_q16 (config c)"
    proof -
      have el: "drogue_latched c1" "separation_elapsed c1" using ml(3) that(1) by auto
      have "drogue_latched c"
      proof (rule ccontr)
        assume "\<not> drogue_latched c"
        then have "drogue_time_q16 c1 = last_time_q16 c1" using dl(4) el(1) df(5) by simp
        then show False using el(2) that(2) df(9) by (simp add: separation_elapsed_def)
      qed
      moreover have t: "drogue_time_q16 c1 = drogue_time_q16 c" using dl(2) \<open>drogue_latched c\<close> by simp
      have "separation_elapsed c" using el(2) unfolding separation_elapsed_def df(5,9) t .
      ultimately show ?thesis by simp
    qed
    have "dr = 0 \<or> dr = 1" "mn = 0 \<or> mn = 2" using dl(1) ml(1) by auto
    then show ?thesis using 2(3) dl ml df(13) mf(13,14) sep by (elim disjE) auto
  qed simp
  then show "d \<in> {0, 1, 2, 3}" "drogue_latched c \<Longrightarrow> drogue_latched c' \<and> drogue_time_q16 c' = drogue_time_q16 c \<and> d AND 1 = 0"
    "d AND 1 \<noteq> 0 \<Longrightarrow> drogue_latched c'" "main_latched c \<Longrightarrow> main_latched c' \<and> d AND 2 = 0"
    "d AND 2 \<noteq> 0 \<Longrightarrow> main_latched c'"
    "d AND 2 \<noteq> 0 \<Longrightarrow> 0 < minimum_deployment_separation_q16 (config c) \<Longrightarrow> drogue_latched c \<and> separation_elapsed c"
    by blast+
qed

subsection \<open>Invariant\<close>

definition flight_inv :: "GlobalFlightComputer \<Rightarrow> bool" where
  "flight_inv c \<longleftrightarrow> config_is_valid (config c) \<and> within_authority (config c) (last_command c)
     \<and> (\<not> powered c \<longrightarrow> gimbal_q15 (last_command c) = (0, 0))"

lemma within_authority_cong:
  assumes "fixed_config a = fixed_config b"
  shows "within_authority a command = within_authority b command"
  by (simp only: within_authority_def fixed_config_fields [OF assms])

lemma within_authority_idle:
  assumes "config_is_valid cfg" "gimbal_q15 m = (0, 0)" "torque_demand_q12 m = (0, 0, 0)" "rcs_pulse_quanta m = replicate 12 0"
    "gc_flags m = 0" "gc_discrete m = 0"
  shows "within_authority cfg m"
  unfolding within_authority_def assms(2-6)
  using idle_pulses_ex assms(1) by (auto simp: config_is_valid_def all3_def word_sle_eq word_sless_alt)

lemma flight_inv_new:
  assumes "new_flight_computer cfg = Some c"
  shows "flight_inv c" "fixed_config (config c) = fixed_config cfg" "\<not> drogue_latched c" "\<not> main_latched c" "\<not> safe c"
proof -
  have "config_is_valid cfg" using assms by (simp add: new_flight_computer_def split: if_splits)
  then show "flight_inv c" "fixed_config (config c) = fixed_config cfg" "\<not> drogue_latched c" "\<not> main_latched c" "\<not> safe c"
    using assms by (auto simp: new_flight_computer_def flight_inv_def within_authority_idle Let_def split: if_splits)
qed

lemma tick_frames:
  assumes "tick c f a t = (e, c')"
  obtains c1 vf va d c2 ck where "advance c f a t = (c1, vf, va)" "recovery_command c1 va = (d, c2)"
    "ev_command e = (build_command c2 vf d)\<lparr>command_checksum := ck\<rparr>" "last_command c' = ev_command e"
    "config c' = config c2" "fixed_config (config c2) = fixed_config (config c)" "last_command c2 = last_command c"
    "powered c' = powered c2" "drogue_latched c' = drogue_latched c2" "main_latched c' = main_latched c2"
    "last_time_q16 c' = last_time_q16 c1" "config c1 = config c2" "safe c' = safe c2"
    "missing_fast c' = missing_fast c2" "drogue_time_q16 c' = drogue_time_q16 c2"
proof (rule tick_advance [OF assms])
  fix c1 vf va d c2 ck
  assume a: "advance c f a t = (c1, vf, va)" and r: "recovery_command c1 va = (d, c2)"
    and rest: "ev_command e = (build_command c2 vf d)\<lparr>command_checksum := ck\<rparr>" "last_command c' = ev_command e"
      "config c' = config c2" "powered c' = powered c2" "drogue_latched c' = drogue_latched c2"
      "main_latched c' = main_latched c2" "safe c' = safe c2" "missing_fast c' = missing_fast c2"
      "last_time_q16 c' = last_time_q16 c2" "drogue_time_q16 c' = drogue_time_q16 c2"
  note fr = advance_frame [OF a] recovery_command_frame [OF r]
  show thesis by (rule that [OF a r rest(1,2)]) (simp_all add: rest fr)
qed

lemma tick_inv:
  assumes "tick c f a t = (e, c')" "flight_inv c"
  shows "flight_inv c'" "within_authority (config c) (ev_command e)" "fixed_config (config c') = fixed_config (config c)"
proof -
  obtain c1 vf va d c2 ck where s: "advance c f a t = (c1, vf, va)" "recovery_command c1 va = (d, c2)"
      "ev_command e = (build_command c2 vf d)\<lparr>command_checksum := ck\<rparr>" "last_command c' = ev_command e"
      "config c' = config c2" "fixed_config (config c2) = fixed_config (config c)" "last_command c2 = last_command c"
      "powered c' = powered c2"
    by (rule tick_frames [OF assms(1)])
  have "config_is_valid (config c2)" "within_authority (config c2) (last_command c2)"
    using assms(2) fixed_config_fields(6) [OF s(6)] within_authority_cong [OF s(6)] s(7) by (simp_all add: flight_inv_def)
  note b = build_command_authority [OF this recovery_command_latch(1) [OF s(2)], of vf]
  have w: "within_authority (config c2) (ev_command e)" using b(1) s(3) by (simp add: within_authority_def)
  then show "flight_inv c'"
    using \<open>config_is_valid (config c2)\<close> b(2) s by (simp add: flight_inv_def)
  show "within_authority (config c) (ev_command e)" using w within_authority_cong [OF s(6)] by simp
  show "fixed_config (config c') = fixed_config (config c)" using s(5,6) by simp
qed

lemma same_latches_inv: "same_latches c c' \<Longrightarrow> flight_inv c \<Longrightarrow> flight_inv c'"
  using fixed_config_fields(6) [of "config c'" "config c"] within_authority_cong [of "config c'" "config c"]
  by (simp add: same_latches_def flight_inv_def)

lemma flight_run_inv:
  assumes "flight_run c ops = (es, c')" "flight_inv c"
  shows "flight_inv c' \<and> fixed_config (config c') = fixed_config (config c)
    \<and> (\<forall>e \<in> set es. within_authority (config c) (ev_command e))"
  using assms
proof (induction rule: flight_run_induct)
  case (Cons c opn e c1 ops es c')
  have "flight_inv c1 \<and> fixed_config (config c1) = fixed_config (config c)
      \<and> (\<forall>x \<in> set e. within_authority (config c) (ev_command x))"
    using Cons.hyps(1) Cons.prems
    by (cases rule: flight_step_cases) (auto simp: tick_inv same_latches_inv, auto simp: same_latches_def)
  then show ?case using Cons.IH within_authority_cong [of "config c1" "config c"] by auto
qed simp

subsection \<open>Parachutes over a run\<close>

definition orders_drogue :: "GlobalFlightEvidence \<Rightarrow> bool" where
  "orders_drogue e \<longleftrightarrow> gc_discrete (ev_command e) AND GLOBAL_COMMAND_DROGUE \<noteq> 0"

definition orders_main :: "GlobalFlightEvidence \<Rightarrow> bool" where
  "orders_main e \<longleftrightarrow> gc_discrete (ev_command e) AND GLOBAL_COMMAND_MAIN \<noteq> 0"

lemma build_command_discrete: "gc_discrete (build_command c vf d) \<in> {0, 4, d}"
  by (auto simp: build_command_def Let_def GLOBAL_COMMAND_SAFE_def split: prod.split)

lemma tick_latch:
  assumes "tick c f a t = (e, c')"
  shows "drogue_latched c \<Longrightarrow> drogue_latched c' \<and> \<not> orders_drogue e" "main_latched c \<Longrightarrow> main_latched c' \<and> \<not> orders_main e"
    "orders_drogue e \<Longrightarrow> drogue_latched c'" "orders_main e \<Longrightarrow> main_latched c'"
    "orders_main e \<Longrightarrow> config_is_valid (config c) \<Longrightarrow> drogue_latched c
       \<and> unat (minimum_deployment_separation_q16 (config c)) + unat (drogue_time_q16 c) \<le> unat (last_time_q16 c')"
    "ev_drogue_latched e = drogue_latched c'"
proof -
  obtain c1 vf va d c2 ck where s: "advance c f a t = (c1, vf, va)" "recovery_command c1 va = (d, c2)"
      "ev_command e = (build_command c2 vf d)\<lparr>command_checksum := ck\<rparr>" "drogue_latched c' = drogue_latched c2"
      "main_latched c' = main_latched c2" "last_time_q16 c' = last_time_q16 c1" "config c1 = config c2"
      "fixed_config (config c2) = fixed_config (config c)"
    by (rule tick_frames [OF assms])
  note fr = advance_frame [OF s(1)] and l = recovery_command_latch [OF s(2)]
  have d: "gc_discrete (ev_command e) \<in> {0, 4, d}" using build_command_discrete [of c2 vf d] s(3) by simp
  then have od: "orders_drogue e \<Longrightarrow> d AND 1 \<noteq> 0" and om: "orders_main e \<Longrightarrow> d AND 2 \<noteq> 0"
    by (auto simp: orders_drogue_def orders_main_def GLOBAL_COMMAND_DROGUE_def GLOBAL_COMMAND_MAIN_def)
  show "drogue_latched c \<Longrightarrow> drogue_latched c' \<and> \<not> orders_drogue e" using l(2) od s(4) fr(1) by auto
  show "main_latched c \<Longrightarrow> main_latched c' \<and> \<not> orders_main e" using l(4) om s(5) fr(2) by auto
  show "orders_drogue e \<Longrightarrow> drogue_latched c'" using l(3) od s(4) by simp
  show "orders_main e \<Longrightarrow> main_latched c'" using l(5) om s(5) by simp
  show "ev_drogue_latched e = drogue_latched c'" by (rule tick_advance [OF assms])
  assume o: "orders_main e" and v: "config_is_valid (config c)"
  have m: "minimum_deployment_separation_q16 (config c1) = minimum_deployment_separation_q16 (config c)"
    using fixed_config_fields(4) [OF s(8)] s(7) by simp
  have pos: "0 < minimum_deployment_separation_q16 (config c)" using v by (simp add: config_is_valid_def)
  have "drogue_latched c1" "separation_elapsed c1" using l(6) om [OF o] m pos by auto
  moreover have "unat (last_time_q16 c1) - unat (drogue_time_q16 c1) = unat (last_time_q16 c1 - drogue_time_q16 c1)"
      if "\<not> last_time_q16 c1 < drogue_time_q16 c1"
    using that by (simp add: unat_sub)
  ultimately show "drogue_latched c
       \<and> unat (minimum_deployment_separation_q16 (config c)) + unat (drogue_time_q16 c) \<le> unat (last_time_q16 c')"
    using fr(1,3) m pos s(6)
    by (auto simp: separation_elapsed_def word_le_nat_alt word_less_nat_alt split: if_splits)
qed

lemma flight_run_latches:
  assumes "flight_run c ops = (es, c')" "flight_inv c"
  shows "length (filter orders_drogue es) \<le> of_bool (\<not> drogue_latched c)
    \<and> length (filter orders_main es) \<le> of_bool (\<not> main_latched c)
    \<and> (\<forall>j < length es. orders_main (es ! j) \<longrightarrow> drogue_latched c \<or> (\<exists>i < j. ev_drogue_latched (es ! i)))"
  using assms
proof (induction rule: flight_run_induct)
  case (Cons c opn e c1 ops es c')
  from Cons.hyps(1) show ?case
  proof (cases rule: flight_step_cases)
    case (tick f a t x)
    note l = tick_latch [OF tick(2)]
    have v: "config_is_valid (config c)" using Cons.prems by (simp add: flight_inv_def)
    have IH: "length (filter orders_drogue es) \<le> of_bool (\<not> drogue_latched c1)"
        "length (filter orders_main es) \<le> of_bool (\<not> main_latched c1)"
        "\<And>j. j < length es \<Longrightarrow> orders_main (es ! j) \<Longrightarrow> drogue_latched c1 \<or> (\<exists>i < j. ev_drogue_latched (es ! i))"
      using Cons.IH tick_inv(1) [OF tick(2) Cons.prems] by blast+
    have "drogue_latched c \<or> (\<exists>i < j. ev_drogue_latched ((x # es) ! i))" if j: "j < length (x # es)" "orders_main ((x # es) ! j)" for j
    proof (cases j)
      case 0
      then show ?thesis using j(2) l(5) v by simp
    next
      case (Suc k)
      then show ?thesis using IH(3) [of k] j l(6) by (auto intro: exI [of _ 0] exI [of _ "Suc _"])
    qed
    then show ?thesis using IH(1,2) l(1-4) tick(3) by (auto simp: of_bool_def split: if_splits)
  next
    case other
    then have "flight_inv c1" using Cons.prems same_latches_inv by blast
    then show ?thesis using Cons.IH other by (simp add: same_latches_def)
  qed
qed simp

subsection \<open>Lost sensor cells\<close>

lemma clamp_gimbal_id:
  assumes "\<bar>sint v\<bar> \<le> sint limit"
  shows "clamp_gimbal limit v = v"
proof -
  have "- (2 ^ 15) \<le> - sint limit" "- sint limit < 2 ^ 15" using sint_i16_range [of limit] assms by linarith+
  then have "sint (- limit) = - sint limit" by (simp add: sint_word_minus signed_take_bit_int_eq_self)
  then show ?thesis using assms by (auto simp: clamp_gimbal_def word_sless_alt)
qed

definition repeats :: "GlobalCommandCell \<Rightarrow> GlobalCommandCell \<Rightarrow> bool" where
  "repeats old command \<longleftrightarrow> torque_demand_q12 command = torque_demand_q12 old \<and> gimbal_q15 command = gimbal_q15 old
     \<and> gc_discrete command = 0 \<and> gc_flags command AND GLOBAL_COMMAND_HOLD \<noteq> 0"

lemma held_tick:
  assumes "tick c None a None = (e, c')" "flight_inv c" "\<not> safe c" "missing_fast c = 0 \<or> missing_fast c = 1"
  shows "\<not> safe c'" "missing_fast c' = missing_fast c + 1" "repeats (last_command c) (ev_command e)"
    "last_command c' = ev_command e" "\<not> ev_safe e"
proof -
  obtain c1 vf va d c2 ck where s: "advance c None a None = (c1, vf, va)" "recovery_command c1 va = (d, c2)"
      "ev_command e = (build_command c2 vf d)\<lparr>command_checksum := ck\<rparr>" "last_command c' = ev_command e"
      "config c' = config c2" "fixed_config (config c2) = fixed_config (config c)" "last_command c2 = last_command c"
      "powered c' = powered c2" "safe c' = safe c2" "missing_fast c' = missing_fast c2"
    by (rule tick_frames [OF assms(1)])
  note fr = advance_frame [OF s(1)] and rf = recovery_command_frame [OF s(2)]
  have vf: "vf = None" using fr(12) by simp
  have m: "missing_fast c1 = missing_fast c + 1" "missing_fast c1 = 1 \<or> missing_fast c1 = 2"
    using fr(10) vf assms(4) by (auto simp: saturating_inc_u8_def)
  show "missing_fast c' = missing_fast c + 1" using m s(10) rf(1) by simp
  have ns: "\<not> safe c2" using fr(13) vf m assms(3) rf(10) by auto
  then show "\<not> safe c'" using s(9) by simp
  then show "\<not> ev_safe e" using tick_safe(3) [OF assms(1)] by simp
  show "last_command c' = ev_command e" by (rule s(4))
  have g: "clamp_gimbal (gimbal_limit_q15 (config c2)) (fst (gimbal_q15 (last_command c))) = fst (gimbal_q15 (last_command c))"
      "clamp_gimbal (gimbal_limit_q15 (config c2)) (snd (gimbal_q15 (last_command c))) = snd (gimbal_q15 (last_command c))"
    using assms(2) fixed_config_fields(3) [OF s(6)] by (auto simp: flight_inv_def within_authority_def intro!: clamp_gimbal_id)
  have p: "\<not> powered c2 \<longrightarrow> gimbal_q15 (last_command c) = (0, 0)"
    using assms(2) fr(8) vf rf(3) by (simp add: flight_inv_def)
  have h: "missing_fast c2 = 1 \<or> missing_fast c2 = 2" using m rf(1) by simp
  obtain g1 g2 where gg: "gimbal_q15 (last_command c) = (g1, g2)" by (rule prod.exhaust)
  show "repeats (last_command c) (ev_command e)"
    using ns h p s(3,7) g unfolding gg
    by (auto simp: gg repeats_def build_command_def Let_def GLOBAL_COMMAND_HOLD_def GLOBAL_COMMAND_RCS_RESERVED_def
        split: prod.split)
qed

lemma third_lost_tick:
  assumes "tick c None a t = (e, c')" "missing_fast c = 2"
  shows "ev_safe e \<and> inert (ev_command e)"
proof -
  obtain c1 vf va d c2 ck where s: "advance c None a t = (c1, vf, va)" "recovery_command c1 va = (d, c2)" "safe c' = safe c2"
    by (rule tick_frames [OF assms(1)])
  note fr = advance_frame [OF s(1)]
  have "missing_fast c1 = 3" "vf = None" using fr(10,12) assms(2) by (simp_all add: saturating_inc_u8_def)
  then have "safe c'" using fr(11) s(3) recovery_command_frame(10) [OF s(2)] by simp
  then show ?thesis using tick_safe(2,3) [OF assms(1)] by simp
qed

subsection \<open>A drogue order lost in a held epoch\<close>

definition continuity_cell :: "GlobalFlightComputer \<Rightarrow> GlobalAidFrameCell \<Rightarrow> bool" where
  "continuity_cell c cell \<longleftrightarrow> aid_is_valid c cell \<and> ga_validity cell AND GLOBAL_AID_CONTINUITY \<noteq> 0 \<and> continuity cell AND 1 \<noteq> 0"

lemma aid_is_valid_lost_cell: "aid_is_valid (receive_fast c None) cell = aid_is_valid c cell"
  by (simp add: aid_is_valid_def receive_fast_def Let_def)

lemma update_mode_armed: "armed c \<Longrightarrow> armed (update_mode_and_recovery c f a)"
  by (simp add: update_mode_and_recovery_def Let_def)

lemma advance_None:
  "advance c None (Some cell) None =
     (let va = (if aid_is_valid (receive_fast c None) cell then Some cell else None)
      in (update_mode_and_recovery (receive_aid (receive_fast c None) (Some cell) va) None va, None, va))"
  by (simp add: advance_def apply_transition_def filter_option_def Let_def)

lemma held_tick_latches_drogue:
  assumes "tick c None (Some cell) None = (e, c')" "flight_inv c" "\<not> safe c" "missing_fast c = 0 \<or> missing_fast c = 1"
    "armed c" "\<not> drogue_latched c" "drogue_backup_time_q16 (config c) \<le> last_time_q16 c" "continuity_cell c cell"
  shows "drogue_latched c'"
proof -
  obtain c1 vf va d c2 ck where s: "advance c None (Some cell) None = (c1, vf, va)" "recovery_command c1 va = (d, c2)"
      "drogue_latched c' = drogue_latched c2" "safe c' = safe c2" "config c1 = config c2"
      "fixed_config (config c2) = fixed_config (config c)"
    by (rule tick_frames [OF assms(1)])
  note fr = advance_frame [OF s(1)] and rf = recovery_command_frame [OF s(2)]
  have vf: "vf = None" using fr(12) by simp
  have "aid_is_valid (receive_fast c None) cell" using assms(8) by (simp add: aid_is_valid_lost_cell continuity_cell_def)
  then have va: "va = Some cell" and arm: "armed c1"
    using s(1) assms(5) update_mode_armed by (auto simp: advance_None stage_frame Let_def)
  have ns: "\<not> safe c1" using held_tick(1) [OF assms(1-4)] s(4) rf(10) by simp
  have b: "drogue_backup_time_q16 (config c1) \<le> last_time_q16 c1"
    using fixed_config_fields(5) [OF s(6)] s(5) fr(9) vf assms(7) by simp
  have "\<not> drogue_latched c1" using fr(1) assms(6) by simp
  then have "drogue_latched c2"
    using s(2) va arm ns b assms(8)
    by (auto simp: recovery_command_def Let_def filter_option_def continuity_cell_def command_drogue_def
        split: if_splits prod.splits dest: command_main_frame(13))
  then show ?thesis using s(3) by simp
qed

end
