(* ===== verification/Safehold.thy ===== *)
theory Safehold
  imports Mission_Load Event_Journal Flight_Safety
begin

text \<open>
  The contingency flight package of phase 11 (\<^verbatim>\<open>flight/src/phase11_safehold.rs\<close>): it consumes
  the same cells as the reference package, keeps its own navigation and journal, and
  implements coast, entry and local recovery only.  Its private vector arithmetic and hash
  functions are textually those of the phase 10 flight computer and are modelled by the
  same definitions.
\<close>

unbundle bit_operations_syntax

subsection \<open>Configuration and manifest\<close>

definition SAFEHOLD_RECOVERY_MANIFEST_ID :: u32 where "SAFEHOLD_RECOVERY_MANIFEST_ID = 0x11f5a002"
definition SAFEHOLD_RECOVERY_IMPLEMENTATION_ID :: u32 where "SAFEHOLD_RECOVERY_IMPLEMENTATION_ID = 0x11f51002"
definition SAFEHOLD_RECOVERY_CODE_ID :: u32 where "SAFEHOLD_RECOVERY_CODE_ID = 0x11f52002"
definition SAFEHOLD_RECOVERY_MISSION_ID :: u32 where "SAFEHOLD_RECOVERY_MISSION_ID = 0x11a00002"
definition SUBSONIC_MACH_Q12 :: i16 where "SUBSONIC_MACH_Q12 = 3277"
definition PACKAGE_CAP_EVENT_JOURNAL :: u32 where "PACKAGE_CAP_EVENT_JOURNAL = 128"
definition PACKAGE_SEGMENT_ECI_COAST :: u16 where "PACKAGE_SEGMENT_ECI_COAST = 4"
definition PACKAGE_SEGMENT_ECEF_ENTRY :: u16 where "PACKAGE_SEGMENT_ECEF_ENTRY = 8"
definition PACKAGE_SEGMENT_LOCAL_RECOVERY :: u16 where "PACKAGE_SEGMENT_LOCAL_RECOVERY = 16"

datatype SafeholdSessionSegment = EciCoast | EcefEntry | LocalRecovery

fun segment_frame :: "SafeholdSessionSegment \<Rightarrow> GlobalFrameId" where
  "segment_frame EciCoast = EarthInertialEciV1"
| "segment_frame EcefEntry = EarthFixedEcefV1"
| "segment_frame LocalRecovery = LocalEnuV1"

record SafeholdRecoveryConfig =
  shc_session :: u16
  initial_segment :: SafeholdSessionSegment
  shc_initial_position_q12 :: "i32 vec3"
  shc_initial_velocity_q24 :: "i32 vec3"
  shc_initial_attitude_q30 :: "i32 vec4"
  shc_attitude_target_q30 :: "i32 vec4"
  shc_proportional_gain_q15 :: "i16 vec3"
  shc_derivative_gain_q15 :: "i16 vec3"
  shc_torque_limit_q12 :: "i32 vec3"
  shc_drogue_backup_time_q16 :: u32
  shc_main_backup_time_q16 :: u32
  shc_main_altitude_q12_km :: i32
  shc_minimum_separation_q16 :: u32

definition safehold_config_is_valid :: "SafeholdRecoveryConfig \<Rightarrow> bool" where
  "safehold_config_is_valid self \<longleftrightarrow>
     shc_session self \<noteq> 0
     \<and> shc_initial_attitude_q30 self \<noteq> (0, 0, 0, 0)
     \<and> shc_attitude_target_q30 self \<noteq> (0, 0, 0, 0)
     \<and> all3 (\<lambda>gain. 0 \<le>s gain) (shc_proportional_gain_q15 self)
     \<and> all3 (\<lambda>gain. 0 \<le>s gain) (shc_derivative_gain_q15 self)
     \<and> all3 (\<lambda>limit. 0 <s limit) (shc_torque_limit_q12 self)
     \<and> shc_drogue_backup_time_q16 self < shc_main_backup_time_q16 self
     \<and> 0 <s shc_main_altitude_q12_km self
     \<and> 0 < shc_minimum_separation_q16 self"

definition ksa_g10r_safehold_coast_config :: SafeholdRecoveryConfig where
  "ksa_g10r_safehold_coast_config =
     \<lparr>shc_session = 0x10a0, initial_segment = EciCoast, shc_initial_position_q12 = (26558400, 0, 0),
      shc_initial_velocity_q24 = (0, 131701145, 0), shc_initial_attitude_q30 = (Q30_ONE, 0, 0, 0),
      shc_attitude_target_q30 = (Q30_ONE, 0, 0, 0), shc_proportional_gain_q15 = (6144, 6144, 6144),
      shc_derivative_gain_q15 = (24576, 24576, 24576), shc_torque_limit_q12 = (12288, 12288, 12288),
      shc_drogue_backup_time_q16 = 39321600, shc_main_backup_time_q16 = 58982400,
      shc_main_altitude_q12_km = 6144, shc_minimum_separation_q16 = 131072\<rparr>"

definition safehold_recovery_manifest :: FlightSoftwarePackageManifest where
  "safehold_recovery_manifest = \<lparr>manifest_identity = SAFEHOLD_RECOVERY_MANIFEST_ID,
     fm_package = SafeholdRecoveryV1, implementation_identity = SAFEHOLD_RECOVERY_IMPLEMENTATION_ID,
     fm_abi = GlobalKlr10V1, fm_vehicle_profile_identity = GLOBAL_ECEF_PROFILE_ID,
     mission_compatibility_identity = SAFEHOLD_RECOVERY_MISSION_ID, capabilities = PACKAGE_CAP_EVENT_JOURNAL,
     segment_support = PACKAGE_SEGMENT_ECI_COAST OR PACKAGE_SEGMENT_ECEF_ENTRY OR PACKAGE_SEGMENT_LOCAL_RECOVERY,
     command_load_support = 0, targets = PACKAGE_TARGET_HOST OR PACKAGE_TARGET_RUST_MOS,
     safe_state = EntryRecoverySafeholdV1, command_loss = ImmediateSafehold,
     resource = \<lparr>persistent_bytes = 1536, transient_bytes = 768, stack_bytes = 256, journal_records = 32,
       maximum_object_bytes = 512\<rparr>,
     fm_fast_hz = 32, fm_navigation_hz = 8, fm_guidance_hz = 1, maximum_plan_events = 0, maximum_branches = 0,
     maximum_decisions = 0, code_identity = SAFEHOLD_RECOVERY_CODE_ID, configuration_identity = KLR10_CONTRACT_ID,
     resource_evidence_sha256 =
       [0x6f, 0x73, 0x17, 0x79, 0x36, 0xf0, 0xe6, 0x53, 0x62, 0xad, 0x45, 0x3f, 0xe3, 0x87, 0x39, 0xf2,
        0x94, 0x8c, 0x4a, 0x26, 0x02, 0xa3, 0x7e, 0x5f, 0xb4, 0x5c, 0x73, 0xe7, 0x6c, 0x04, 0xc4, 0x05]\<rparr>"

fun mode_for_segment :: "SafeholdSessionSegment \<Rightarrow> GlobalFlightMode" where
  "mode_for_segment EciCoast = Coast"
| "mode_for_segment EcefEntry = Entry"
| "mode_for_segment LocalRecovery = Recovery"

subsection \<open>State\<close>

record SafeholdRecovery =
  sh_config :: SafeholdRecoveryConfig
  sh_segment :: SafeholdSessionSegment
  sh_epoch :: u16
  sh_navigation :: GlobalNavigation
  sh_target_q30 :: "i32 vec4"
  sh_last_time_q16 :: u32
  sh_last_fast :: "GlobalFastSensorCell option"
  sh_missing_fast :: u8
  sh_safe :: bool
  sh_descending_count :: u8
  sh_drogue_latched :: bool
  sh_main_latched :: bool
  sh_drogue_time_q16 :: u32
  sh_alarms :: u16
  sh_sensor_checksum :: u32
  sh_command_checksum :: u32
  sh_flight_checksum :: u32
  sh_transition_count :: u8
  sh_last_mode :: GlobalFlightMode
  sh_journal :: EventJournal

definition new_safehold :: "SafeholdRecoveryConfig \<Rightarrow> SafeholdRecovery option" where
  "new_safehold cfg =
     (if \<not> safehold_config_is_valid cfg then None
      else
      let nav = \<lparr>nav_frame = segment_frame (initial_segment cfg), nav_position_q12 = shc_initial_position_q12 cfg,
             nav_velocity_q24 = shc_initial_velocity_q24 cfg,
             attitude_q30 = normalize_quaternion (shc_initial_attitude_q30 cfg),
             covariance_proxy_q16 = (8192, 8192, 8192), nav_checksum = 0x811c9dc5\<rparr>
      in Some \<lparr>sh_config = cfg, sh_segment = initial_segment cfg, sh_epoch = 0, sh_navigation = nav,
           sh_target_q30 = normalize_quaternion (shc_attitude_target_q30 cfg), sh_last_time_q16 = 0,
           sh_last_fast = None, sh_missing_fast = 0, sh_safe = False, sh_descending_count = 0,
           sh_drogue_latched = False, sh_main_latched = False, sh_drogue_time_q16 = 0, sh_alarms = 0,
           sh_sensor_checksum = 0x811c9dc5, sh_command_checksum = 0x811c9dc5, sh_flight_checksum = 0x811c9dc5,
           sh_transition_count = 0, sh_last_mode = mode_for_segment (initial_segment cfg),
           sh_journal = new_event_journal\<rparr>)"

text \<open>The call \<^verbatim>\<open>self.journal.append(u32::from(self.epoch), ...)\<close>.\<close>

definition safehold_append :: "SafeholdRecovery \<Rightarrow> JournalEventKind \<Rightarrow> u32 \<Rightarrow> u32 \<Rightarrow> i32 list \<Rightarrow> SafeholdRecovery" where
  "safehold_append self knd p q args =
     self\<lparr>sh_journal := snd (journal_append (sh_journal self) (ucast (sh_epoch self)) knd p q args)\<rparr>"

definition enter_safe :: "SafeholdRecovery \<Rightarrow> u16 \<Rightarrow> SafeholdRecovery" where
  "enter_safe self alarm =
     (let was_safe = sh_safe self;
          self = self\<lparr>sh_alarms := sh_alarms self OR (alarm OR GLOBAL_ALARM_SAFE), sh_safe := True\<rparr>
      in if \<not> was_safe
         then safehold_append self SafeStateEvent (ucast alarm) SAFEHOLD_RECOVERY_MANIFEST_ID [0, 0, 0, 0]
         else self)"

subsection \<open>Frame transitions\<close>

definition next_segment_of :: "SafeholdSessionSegment \<Rightarrow> GlobalTransitionCell \<Rightarrow> SafeholdSessionSegment option" where
  "next_segment_of segment cell =
     (case (segment, gt_from cell, gt_to cell) of
        (EciCoast, EarthInertialEciV1, EarthFixedEcefV1) \<Rightarrow> Some EcefEntry
      | (EcefEntry, EarthFixedEcefV1, LocalEnuV1) \<Rightarrow> Some LocalRecovery
      | _ \<Rightarrow> None)"

definition safehold_transition :: "SafeholdRecovery \<Rightarrow> GlobalTransitionCell option \<Rightarrow> SafeholdRecovery" where
  "safehold_transition self transition =
     (case transition of
        None \<Rightarrow> self
      | Some cell \<Rightarrow>
          (case next_segment_of (sh_segment self) cell of
             None \<Rightarrow> enter_safe self GLOBAL_ALARM_FRAME
           | Some next_segm \<Rightarrow>
          if gt_session cell \<noteq> shc_session (sh_config self) \<or> gt_source_epoch cell \<noteq> sh_epoch self
             \<or> gt_effective_epoch cell \<noteq> sh_epoch self \<or> gt_from cell \<noteq> nav_frame (sh_navigation self)
          then enter_safe self GLOBAL_ALARM_FRAME
          else
          let nav = sh_navigation self;
              old_position = nav_position_q12 nav;
              old_velocity = nav_velocity_q24 nav;
              rotated_position = rotate_vector (rotation_q30 cell) old_position;
              position = add_vector rotated_position (translation_q12 cell);
              velocity = (if gt_from cell = EarthInertialEciV1 \<and> gt_to cell = EarthFixedEcefV1
                then rotate_vector (rotation_q30 cell)
                       (subtract_vector old_velocity (cross_rate_position (omega_q24 cell) old_position))
                else add_vector (rotate_vector (rotation_q30 cell) old_velocity) (velocity_bias_q24 cell));
              attitude = normalize_quaternion (quaternion_product (rotation_q30 cell) (attitude_q30 nav));
              target = normalize_quaternion (quaternion_product (rotation_q30 cell) (sh_target_q30 self));
              nav = nav\<lparr>nav_position_q12 := position, nav_velocity_q24 := velocity, attitude_q30 := attitude,
                        nav_frame := gt_to cell,
                        nav_checksum := hash_navigation (nav_checksum nav) (sh_epoch self) (gt_to cell) position velocity\<rparr>;
              self = self\<lparr>sh_navigation := nav, sh_target_q30 := target, sh_segment := next_segm,
                          sh_transition_count := saturating_inc_u8 (sh_transition_count self)\<rparr>
          in safehold_append self ModeEvent (ucast (frame_tag (gt_from cell))) (ucast (frame_tag (gt_to cell)))
               [transform_identity cell, 0, 0, 0]))"

subsection \<open>Sensors\<close>

definition safehold_fast_valid :: "SafeholdRecovery \<Rightarrow> GlobalFastSensorCell \<Rightarrow> bool" where
  "safehold_fast_valid self v \<longleftrightarrow>
     gf_session v = shc_session (sh_config self) \<and> gf_measurement_epoch v = sh_epoch self
     \<and> gf_production_epoch v = sh_epoch self \<and> gf_frame v = nav_frame (sh_navigation self)
     \<and> gf_validity v AND (GLOBAL_FAST_DELTA_V OR GLOBAL_FAST_DELTA_ANGLE OR GLOBAL_FAST_ATTITUDE)
         = (GLOBAL_FAST_DELTA_V OR GLOBAL_FAST_DELTA_ANGLE OR GLOBAL_FAST_ATTITUDE)"

definition safehold_inertial :: "GlobalNavigation \<Rightarrow> u16 \<Rightarrow> GlobalFastSensorCell \<Rightarrow> GlobalNavigation" where
  "safehold_inertial nav ep v =
     (let velocity = make3 (\<lambda>axis. saturating_add_i32 (at3 (nav_velocity_q24 nav) axis) (scast (at3 (delta_velocity_q24 v) axis)));
          nav = nav\<lparr>nav_velocity_q24 := velocity,
            nav_position_q12 := make3 (\<lambda>axis. saturating_add_i32 (at3 (nav_position_q12 nav) axis)
              (signed_drop_bit 17 (at3 velocity axis))),
            covariance_proxy_q16 := make3 (\<lambda>axis. saturating_add_i32 (at3 (covariance_proxy_q16 nav) axis) 16)\<rparr>;
          nav = nav\<lparr>attitude_q30 := integrate_small_angle (attitude_q30 nav)
                   (make3 (\<lambda>axis. scast (at3 (delta_angle_q24 v) axis)))\<rparr>
      in nav\<lparr>nav_checksum := hash_navigation (nav_checksum nav) ep (nav_frame nav) (nav_position_q12 nav) (nav_velocity_q24 nav)\<rparr>)"

definition accept_fast :: "SafeholdRecovery \<Rightarrow> GlobalFastSensorCell option \<Rightarrow> GlobalFastSensorCell option \<times> SafeholdRecovery" where
  "accept_fast self cell =
     (case filter_option (safehold_fast_valid self) cell of
        Some v \<Rightarrow> (Some v, self\<lparr>sh_missing_fast := 0, sh_last_time_q16 := gf_mission_time_q16 v,
            sh_sensor_checksum := hash_fast (sh_sensor_checksum self) v,
            sh_navigation := safehold_inertial (sh_navigation self) (sh_epoch self) v, sh_last_fast := Some v\<rparr>)
      | None \<Rightarrow> (None, enter_safe (self\<lparr>sh_missing_fast := saturating_inc_u8 (sh_missing_fast self)\<rparr>)
            (GLOBAL_ALARM_FAST_SENSOR OR GLOBAL_ALARM_LINK)))"

definition safehold_aid_valid :: "SafeholdRecovery \<Rightarrow> GlobalAidFrameCell \<Rightarrow> bool" where
  "safehold_aid_valid self v \<longleftrightarrow>
     ga_session v = shc_session (sh_config self) \<and> ga_measurement_epoch v \<le> ga_production_epoch v
     \<and> sh_epoch self - ga_production_epoch v \<le> 32 \<and> ga_frame v = nav_frame (sh_navigation self)"

definition safehold_aiding :: "GlobalNavigation \<Rightarrow> u16 \<Rightarrow> GlobalAidFrameCell \<Rightarrow> GlobalNavigation" where
  "safehold_aiding nav ep v =
     (let nav = (if ga_validity v AND GLOBAL_AID_GNSS \<noteq> 0 \<and> nav_frame nav = EarthFixedEcefV1
            then nav\<lparr>nav_position_q12 := make3 (\<lambda>axis. blend (at3 (nav_position_q12 nav) axis) (at3 (gnss_position_q12_km v) axis) 3),
                     nav_velocity_q24 := make3 (\<lambda>axis. blend (at3 (nav_velocity_q24 nav) axis) (at3 (gnss_velocity_q24_km_s v) axis) 3)\<rparr>
            else nav);
          nav = (if ga_validity v AND GLOBAL_AID_BAROMETER \<noteq> 0 \<and> nav_frame nav = LocalEnuV1
            then nav\<lparr>nav_position_q12 := (at3 (nav_position_q12 nav) 0, at3 (nav_position_q12 nav) 1,
                       blend (at3 (nav_position_q12 nav) 2) (barometer_q12_km v) 2)\<rparr>
            else nav);
          nav = (if ga_validity v AND GLOBAL_AID_ATTITUDE \<noteq> 0
            then nav\<lparr>attitude_q30 := normalize_quaternion (ga_attitude_q30 v)\<rparr> else nav)
      in nav\<lparr>nav_checksum := hash_navigation (nav_checksum nav) ep (nav_frame nav) (nav_position_q12 nav) (nav_velocity_q24 nav)\<rparr>)"

definition accept_aid :: "SafeholdRecovery \<Rightarrow> GlobalAidFrameCell option \<Rightarrow> GlobalAidFrameCell option \<times> SafeholdRecovery" where
  "accept_aid self cell =
     (case filter_option (safehold_aid_valid self) cell of
        Some v \<Rightarrow> (Some v, self\<lparr>sh_navigation := safehold_aiding (sh_navigation self) (sh_epoch self) v\<rparr>)
      | None \<Rightarrow> (None, if cell \<noteq> None then self\<lparr>sh_alarms := sh_alarms self OR GLOBAL_ALARM_AID\<rparr> else self))"

subsection \<open>Recovery\<close>

definition safehold_drogue :: "SafeholdRecovery \<Rightarrow> bool \<Rightarrow> u8 \<times> SafeholdRecovery" where
  "safehold_drogue self cont =
     (let subsonic = (case sh_last_fast self of Some v \<Rightarrow> mach_q12 v <s SUBSONIC_MACH_Q12 | None \<Rightarrow> False);
          drogue_due = (2 \<le> sh_descending_count self \<and> subsonic
            \<or> shc_drogue_backup_time_q16 (sh_config self) \<le> sh_last_time_q16 self)
      in if \<not> sh_drogue_latched self \<and> drogue_due
         then if cont
              then (GLOBAL_COMMAND_DROGUE,
                safehold_append (self\<lparr>sh_drogue_latched := True, sh_drogue_time_q16 := sh_last_time_q16 self\<rparr>)
                  ModeEvent (ucast GLOBAL_COMMAND_DROGUE) 0 [sh_last_time_q16 self, 0, 0, 0])
              else (0, self\<lparr>sh_alarms := sh_alarms self OR GLOBAL_ALARM_RECOVERY\<rparr>)
         else (0, self))"

definition safehold_separated :: "SafeholdRecovery \<Rightarrow> bool" where
  "safehold_separated self \<longleftrightarrow>
     shc_minimum_separation_q16 (sh_config self) \<le> saturating_sub (sh_last_time_q16 self) (sh_drogue_time_q16 self)"

definition safehold_main :: "SafeholdRecovery \<Rightarrow> bool \<Rightarrow> u16 \<Rightarrow> u8 \<times> SafeholdRecovery" where
  "safehold_main self cont feedback =
     (let main_due = (sh_drogue_latched self \<and> safehold_separated self
            \<and> (feedback AND 1 \<noteq> 0 \<and> at3 (nav_velocity_q24 (sh_navigation self)) 2 <s 0
                 \<and> at3 (nav_position_q12 (sh_navigation self)) 2 \<le>s shc_main_altitude_q12_km (sh_config self)
               \<or> shc_main_backup_time_q16 (sh_config self) \<le> sh_last_time_q16 self))
      in if \<not> sh_main_latched self \<and> main_due
         then if cont
              then (GLOBAL_COMMAND_MAIN,
                safehold_append (self\<lparr>sh_main_latched := True\<rparr>)
                  ModeEvent (ucast GLOBAL_COMMAND_MAIN) 0 [sh_last_time_q16 self, 0, 0, 0])
              else (0, self\<lparr>sh_alarms := sh_alarms self OR GLOBAL_ALARM_RECOVERY\<rparr>)
         else (0, self))"

definition safehold_recovery :: "SafeholdRecovery \<Rightarrow> GlobalAidFrameCell option \<Rightarrow> u8 \<times> SafeholdRecovery" where
  "safehold_recovery self aid =
     (if sh_segment self \<noteq> LocalRecovery then (0, self\<lparr>sh_descending_count := 0\<rparr>)
      else
      let self = self\<lparr>sh_descending_count :=
            (if at3 (nav_velocity_q24 (sh_navigation self)) 2 <s 0
             then saturating_inc_u8 (sh_descending_count self) else 0)\<rparr>;
          cont = (case filter_option (\<lambda>v. ga_validity v AND GLOBAL_AID_CONTINUITY \<noteq> 0) aid of
                    Some v \<Rightarrow> continuity v AND 1 \<noteq> 0 | None \<Rightarrow> False);
          feedback = (case filter_option (\<lambda>v. ga_validity v AND GLOBAL_AID_DEPLOYMENT_FEEDBACK \<noteq> 0) aid of
                    Some v \<Rightarrow> deployment_feedback v | None \<Rightarrow> 0);
          (drogue, self) = safehold_drogue self cont;
          (main, self) = safehold_main self cont feedback
      in (drogue OR main, self))"

subsection \<open>Control and release\<close>

definition safehold_axis_torque :: "SafeholdRecovery \<Rightarrow> i32 vec4 \<Rightarrow> GlobalFastSensorCell \<Rightarrow> nat \<Rightarrow> i32" where
  "safehold_axis_torque self error v axis =
     (let proportional = signed_drop_bit 15 (signed_drop_bit 15 (at4 error (axis + 1))
            * scast (at3 (shc_proportional_gain_q15 (sh_config self)) axis));
          derivative = signed_drop_bit 15 (- (scast (at3 (angular_rate_q15 v) axis))
            * scast (at3 (shc_derivative_gain_q15 (sh_config self)) axis));
          normalized = word_of_int (clamp_int (- (2 ^ 15)) (2 ^ 15 - 1) (sint (saturating_add_i32 proportional derivative))) :: i32
      in ucast (signed_drop_bit 15 (scast normalized * scast (at3 (shc_torque_limit_q12 (sh_config self)) axis) :: i64)))"

definition safehold_axis_pulses :: "i32 vec3 \<Rightarrow> nat \<Rightarrow> u8 list \<Rightarrow> u8 list" where
  "safehold_axis_pulses torque axis pulses =
     (let quantum = pulse_quantum axis (at3 torque axis)
      in if quantum \<noteq> 0
         then let channel = axis * 4 + (if at3 torque axis <s 0 then 2 else 0)
              in pulses[channel := quantum, channel + 1 := quantum]
         else pulses)"

definition safehold_control :: "SafeholdRecovery \<Rightarrow> GlobalFastSensorCell option \<Rightarrow> i32 vec3 \<times> u8 list" where
  "safehold_control self fast_cell =
     (if sh_safe self \<or> sh_segment self = LocalRecovery then ((0, 0, 0), replicate 12 0)
      else
      case fast_cell of
        None \<Rightarrow> ((0, 0, 0), replicate 12 0)
      | Some v \<Rightarrow>
          let error = attitude_error (attitude_q30 (sh_navigation self)) (sh_target_q30 self);
              torque = make3 (safehold_axis_torque self error v);
              pulses = for3 (safehold_axis_pulses torque) (replicate 12 0)
          in (torque, if rcs_propellant_q21 v \<le>s 0 then replicate 12 0 else pulses))"

definition safehold_mode :: "SafeholdRecovery \<Rightarrow> GlobalAidFrameCell option \<Rightarrow> GlobalFlightMode" where
  "safehold_mode self aid =
     (if (case aid of Some v \<Rightarrow> ga_events v AND 0x200 \<noteq> 0 | None \<Rightarrow> False) then Complete
      else if sh_safe self then Safe
      else mode_for_segment (sh_segment self))"

definition safehold_status :: "SafeholdRecovery \<Rightarrow> GlobalFlightMode \<Rightarrow> GlobalStatusCell" where
  "safehold_status self md =
     \<lparr>gs_session = shc_session (sh_config self), gs_source_epoch = sh_epoch self, gs_production_epoch = sh_epoch self,
      gs_frame = nav_frame (sh_navigation self), gs_mode = mode_tag_global md,
      gs_flags = of_bool (sh_safe self), gs_alarms = sh_alarms self,
      gs_position_q12 = nav_position_q12 (sh_navigation self), gs_velocity_q24 = nav_velocity_q24 (sh_navigation self),
      gs_attitude_q30 = attitude_q30 (sh_navigation self),
      gs_covariance_proxy_q16 = covariance_proxy_q16 (sh_navigation self),
      gs_sensor_checksum = sh_sensor_checksum self, gs_navigation_checksum = nav_checksum (sh_navigation self),
      gs_command_checksum = sh_command_checksum self, gs_flight_checksum = sh_flight_checksum self,
      gs_deadline_misses = 0, gs_transition_count = sh_transition_count self\<rparr>"

definition safehold_command :: "SafeholdRecovery \<Rightarrow> GlobalFastSensorCell option \<Rightarrow> u8 \<Rightarrow> GlobalCommandCell" where
  "safehold_command self valid_fast disc =
     (let (torque, pulses) = safehold_control self valid_fast;
          (disc, pulses) = (if sh_safe self then (disc OR GLOBAL_COMMAND_SAFE, replicate 12 0) else (disc, pulses));
          flags = (case valid_fast of
             Some v \<Rightarrow> if rcs_propellant_q21 v \<le>s 0 then GLOBAL_COMMAND_RCS_RESERVED else 0 | None \<Rightarrow> 0)
      in \<lparr>gc_session = shc_session (sh_config self), gc_source_epoch = sh_epoch self,
          gc_effective_epoch = sh_epoch self + 1, gc_frame = nav_frame (sh_navigation self), gc_flags = flags,
          gc_discrete = disc, gimbal_q15 = (0, 0), rcs_pulse_quanta = pulses, torque_demand_q12 = torque,
          gc_status = sh_alarms self, command_checksum = 0\<rparr>)"

definition safehold_note_mode :: "SafeholdRecovery \<Rightarrow> GlobalFlightMode \<Rightarrow> SafeholdRecovery" where
  "safehold_note_mode self md =
     (if md \<noteq> sh_last_mode self
      then (safehold_append self ModeEvent (ucast (mode_tag_global (sh_last_mode self))) (ucast (mode_tag_global md))
             [0, 0, 0, 0])\<lparr>sh_last_mode := md\<rparr>
      else self)"

definition safehold_release :: "SafeholdRecovery \<Rightarrow> GlobalFastSensorCell option \<Rightarrow> GlobalAidFrameCell option
    \<Rightarrow> GlobalTransitionCell option \<Rightarrow> GlobalFlightEvidence \<times> SafeholdRecovery" where
  "safehold_release self fast_cell aid_cell transition =
     (let self = safehold_transition self transition;
          (valid_fast, self) = accept_fast self fast_cell;
          (valid_aid, self) = accept_aid self aid_cell;
          (disc, self) = safehold_recovery self valid_aid;
          command = safehold_command self valid_fast disc;
          md = safehold_mode self valid_aid;
          self = safehold_note_mode self md;
          self = self\<lparr>sh_command_checksum := hash_command (sh_command_checksum self) command\<rparr>;
          command = command\<lparr>command_checksum := sh_command_checksum self\<rparr>;
          self = self\<lparr>sh_flight_checksum := hash_flight (sh_flight_checksum self) (sh_epoch self)
                   (nav_checksum (sh_navigation self)) (sh_command_checksum self) (sh_alarms self)\<rparr>;
          status = (if sh_epoch self AND 3 = 0 then Some (safehold_status self md) else None);
          self = self\<lparr>sh_epoch := sh_epoch self + 1\<rparr>
      in (\<lparr>ev_command = command, ev_status = status, ev_navigation = sh_navigation self, ev_mode = md,
           ev_safe = sh_safe self, ev_armed = True, ev_drogue_latched = sh_drogue_latched self,
           ev_main_latched = sh_main_latched self, ev_alarms = sh_alarms self,
           ev_sensor_checksum = sh_sensor_checksum self, ev_flight_checksum = sh_flight_checksum self,
           ev_deadline_misses = 0\<rparr>, self))"

end
