(* ===== verification/Global_Codec.thy ===== *)
theory Global_Codec
  imports Global_Cells
begin

text \<open>
  The five phase 10 cells as sealed codecs: each writer fills exactly its cell length,
  refuses reserved bits, and is inverted by its parser; no corrupted byte is accepted.
\<close>

unbundle bit_operations_syntax

subsection \<open>Stores and checks\<close>

lemma length_klr10_sync [simp]: "length KLR10_SYNC = 2"
  by (simp add: KLR10_SYNC_def)

lemma parse_frame_tag [simp]: "parse_frame_id (frame_tag f) = Inr f"
  by (cases f) (simp_all add: parse_frame_id_def)

lemma global_check_sealed: "global_check b n k = Inr u \<Longrightarrow> length b = n \<and> sealed16 b"
  by (auto simp: global_check_def sealed16_def split: if_splits)

lemmas global_lengths = GLOBAL_FAST_SENSOR_LENGTH_def GLOBAL_AID_FRAME_LENGTH_def GLOBAL_TRANSITION_LENGTH_def
  GLOBAL_COMMAND_LENGTH_def GLOBAL_STATUS_LENGTH_def

lemmas stores = p8_def p16_def p32_def pi16_def pi32_def global_prefix_def

lemmas cell_reads = make3_def make4_def read_i16_def read_i32_def global_check_def seal16_slice

subsection \<open>Fast sensor cells\<close>

lemma fast_sensor_fields_layout: "layout 64 (fast_sensor_fields v)"
  by (simp add: layout_def fast_sensor_fields_def stores)

lemma fast_sensor_fields_roundtrip:
  assumes "length out = 64" "gf_validity v AND NOT GLOBAL_FAST_VALID_MASK = 0"
  shows "length (seal16 (put_fields (fill0 out) (fast_sensor_fields v))) = 64
    \<and> parse_global_fast_sensor (seal16 (put_fields (fill0 out) (fast_sensor_fields v))) = Inr v"
proof -
  note r = layout_reads [OF assms(1) fast_sensor_fields_layout]
  note s = seal16_fields [OF r(1), simplified] seal16_slice [OF r(1), simplified]
  have "parse_global_fast_sensor (seal16 (put_fields (fill0 out) (fast_sensor_fields v))) = Inr v"
    by (simp add: parse_global_fast_sensor_def global_lengths cell_reads s r)
       (simp add: lookup_defs fast_sensor_fields_def stores assms)
  then show ?thesis using s by simp
qed

subsection \<open>Aiding cells\<close>

lemma aid_frame_fields_layout: "layout 96 (aid_frame_fields v)"
  by (simp add: layout_def aid_frame_fields_def stores)

lemma aid_frame_fields_roundtrip:
  assumes "length out = 96" "ga_validity v AND NOT GLOBAL_AID_VALID_MASK = 0"
  shows "length (seal16 (put_fields (fill0 out) (aid_frame_fields v))) = 96
    \<and> parse_global_aid_frame (seal16 (put_fields (fill0 out) (aid_frame_fields v))) = Inr v"
proof -
  note r = layout_reads [OF assms(1) aid_frame_fields_layout]
  note s = seal16_fields [OF r(1), simplified] seal16_slice [OF r(1), simplified]
  have "parse_global_aid_frame (seal16 (put_fields (fill0 out) (aid_frame_fields v))) = Inr v"
    by (simp add: parse_global_aid_frame_def global_lengths cell_reads s r)
       (simp add: lookup_defs aid_frame_fields_def stores assms)
  then show ?thesis using s by simp
qed

subsection \<open>Frame transition cells\<close>

lemma transition_fields_layout: "layout 192 (transition_fields v)"
  by (simp add: layout_def transition_fields_def stores)

lemma transition_fields_roundtrip:
  assumes "length out = 192" "gt_flags v = 0"
  shows "length (seal16 (put_fields (fill0 out) (transition_fields v))) = 192
    \<and> parse_global_transition (seal16 (put_fields (fill0 out) (transition_fields v))) = Inr v"
proof -
  note r = layout_reads [OF assms(1) transition_fields_layout]
  note s = seal16_fields [OF r(1), simplified] seal16_slice [OF r(1), simplified]
  have "parse_global_transition (seal16 (put_fields (fill0 out) (transition_fields v))) = Inr v"
    by (simp add: parse_global_transition_def global_lengths cell_reads s r)
       (simp add: lookup_defs transition_fields_def stores assms)
  then show ?thesis using s by simp
qed

subsection \<open>Command cells\<close>

lemma command_fields_layout: "length (rcs_pulse_quanta v) = 12 \<Longrightarrow> layout 64 (command_fields v)"
  by (simp add: layout_def command_fields_def stores)

lemma command_fields_roundtrip:
  assumes "length out = 64" "length (rcs_pulse_quanta v) = 12" "gc_flags v AND NOT GLOBAL_COMMAND_FLAG_MASK = 0" "gc_discrete v AND NOT GLOBAL_COMMAND_DISCRETE_MASK = 0" "\<forall>quantum \<in> set (rcs_pulse_quanta v). \<not> 8 < quantum"
  shows "length (seal16 (put_fields (fill0 out) (command_fields v))) = 64
    \<and> parse_global_command (seal16 (put_fields (fill0 out) (command_fields v))) = Inr v"
proof -
  note r = layout_reads [OF assms(1) command_fields_layout [OF assms(2)]]
  note s = seal16_fields [OF r(1), simplified] seal16_slice [OF r(1), simplified]
  have "parse_global_command (seal16 (put_fields (fill0 out) (command_fields v))) = Inr v"
    by (simp add: parse_global_command_def global_lengths cell_reads s r)
       (simp add: lookup_defs command_fields_def stores assms)
  then show ?thesis using s by simp
qed

subsection \<open>Status cells\<close>

lemma status_fields_layout: "layout 96 (status_fields v)"
  by (simp add: layout_def status_fields_def stores)

lemma status_fields_roundtrip:
  assumes "length out = 96"
  shows "length (seal16 (put_fields (fill0 out) (status_fields v))) = 96
    \<and> parse_global_status (seal16 (put_fields (fill0 out) (status_fields v))) = Inr v"
proof -
  note r = layout_reads [OF assms(1) status_fields_layout]
  note s = seal16_fields [OF r(1), simplified] seal16_slice [OF r(1), simplified]
  have "parse_global_status (seal16 (put_fields (fill0 out) (status_fields v))) = Inr v"
    by (simp add: parse_global_status_def global_lengths cell_reads s r)
       (simp add: lookup_defs status_fields_def stores assms)
  then show ?thesis using s by simp
qed

subsection \<open>The cells as sealed codecs\<close>

definition command_valid :: "GlobalCommandCell \<Rightarrow> bool" where
  "command_valid v \<longleftrightarrow> gc_flags v AND NOT GLOBAL_COMMAND_FLAG_MASK = 0
     \<and> gc_discrete v AND NOT GLOBAL_COMMAND_DISCRETE_MASK = 0 \<and> (\<forall>quantum \<in> set (rcs_pulse_quanta v). \<not> 8 < quantum)"

interpretation fast_cell: sealed_codec write_global_fast_sensor parse_global_fast_sensor 64
  "\<lambda>_. True" "\<lambda>v. gf_validity v AND NOT GLOBAL_FAST_VALID_MASK = 0" sealed16
proof
  fix out :: "u8 list" and v :: GlobalFastSensorCell
  assume "length out \<noteq> 64 \<or> \<not> (\<lambda>v. gf_validity v AND NOT GLOBAL_FAST_VALID_MASK = 0) v"
  then show "\<exists>e. write_global_fast_sensor v out = (Inl e, out)"
    by (auto simp: write_global_fast_sensor_def global_lengths command_valid_def)
next
  fix out :: "u8 list" and v :: GlobalFastSensorCell
  assume "length out = 64" "(\<lambda>_. True) v" "(\<lambda>v. gf_validity v AND NOT GLOBAL_FAST_VALID_MASK = 0) v"
  then show "\<exists>b. write_global_fast_sensor v out = (Inr (), b) \<and> length b = 64 \<and> parse_global_fast_sensor b = Inr v"
    using fast_sensor_fields_roundtrip [of out v] by (auto simp: write_global_fast_sensor_def global_lengths command_valid_def)
next
  fix b v
  assume "parse_global_fast_sensor b = Inr v"
  then show "length b = 64 \<and> sealed16 b"
    by (auto simp: parse_global_fast_sensor_def global_lengths dest: global_check_sealed)
qed (auto simp: sealed_breaks)

interpretation aid_cell: sealed_codec write_global_aid_frame parse_global_aid_frame 96
  "\<lambda>_. True" "\<lambda>v. ga_validity v AND NOT GLOBAL_AID_VALID_MASK = 0" sealed16
proof
  fix out :: "u8 list" and v :: GlobalAidFrameCell
  assume "length out \<noteq> 96 \<or> \<not> (\<lambda>v. ga_validity v AND NOT GLOBAL_AID_VALID_MASK = 0) v"
  then show "\<exists>e. write_global_aid_frame v out = (Inl e, out)"
    by (auto simp: write_global_aid_frame_def global_lengths command_valid_def)
next
  fix out :: "u8 list" and v :: GlobalAidFrameCell
  assume "length out = 96" "(\<lambda>_. True) v" "(\<lambda>v. ga_validity v AND NOT GLOBAL_AID_VALID_MASK = 0) v"
  then show "\<exists>b. write_global_aid_frame v out = (Inr (), b) \<and> length b = 96 \<and> parse_global_aid_frame b = Inr v"
    using aid_frame_fields_roundtrip [of out v] by (auto simp: write_global_aid_frame_def global_lengths command_valid_def)
next
  fix b v
  assume "parse_global_aid_frame b = Inr v"
  then show "length b = 96 \<and> sealed16 b"
    by (auto simp: parse_global_aid_frame_def global_lengths dest: global_check_sealed)
qed (auto simp: sealed_breaks)

interpretation transition_cell: sealed_codec write_global_transition parse_global_transition 192
  "\<lambda>_. True" "\<lambda>v. gt_flags v = 0" sealed16
proof
  fix out :: "u8 list" and v :: GlobalTransitionCell
  assume "length out \<noteq> 192 \<or> \<not> (\<lambda>v. gt_flags v = 0) v"
  then show "\<exists>e. write_global_transition v out = (Inl e, out)"
    by (auto simp: write_global_transition_def global_lengths command_valid_def)
next
  fix out :: "u8 list" and v :: GlobalTransitionCell
  assume "length out = 192" "(\<lambda>_. True) v" "(\<lambda>v. gt_flags v = 0) v"
  then show "\<exists>b. write_global_transition v out = (Inr (), b) \<and> length b = 192 \<and> parse_global_transition b = Inr v"
    using transition_fields_roundtrip [of out v] by (auto simp: write_global_transition_def global_lengths command_valid_def)
next
  fix b v
  assume "parse_global_transition b = Inr v"
  then show "length b = 192 \<and> sealed16 b"
    by (auto simp: parse_global_transition_def global_lengths dest: global_check_sealed)
qed (auto simp: sealed_breaks)

interpretation command_cell: sealed_codec write_global_command parse_global_command 64
  "\<lambda>v. length (rcs_pulse_quanta v) = 12" "command_valid" sealed16
proof
  fix out :: "u8 list" and v :: GlobalCommandCell
  assume "length out \<noteq> 64 \<or> \<not> (command_valid) v"
  then show "\<exists>e. write_global_command v out = (Inl e, out)"
    by (auto simp: write_global_command_def global_lengths command_valid_def)
next
  fix out :: "u8 list" and v :: GlobalCommandCell
  assume "length out = 64" "(\<lambda>v. length (rcs_pulse_quanta v) = 12) v" "(command_valid) v"
  then show "\<exists>b. write_global_command v out = (Inr (), b) \<and> length b = 64 \<and> parse_global_command b = Inr v"
    using command_fields_roundtrip [of out v] by (auto simp: write_global_command_def global_lengths command_valid_def)
next
  fix b v
  assume "parse_global_command b = Inr v"
  then show "length b = 64 \<and> sealed16 b"
    by (auto simp: parse_global_command_def global_lengths dest: global_check_sealed)
qed (auto simp: sealed_breaks)

interpretation status_cell: sealed_codec write_global_status parse_global_status 96
  "\<lambda>_. True" "\<lambda>_. True" sealed16
proof
  fix out :: "u8 list" and v :: GlobalStatusCell
  assume "length out \<noteq> 96 \<or> \<not> (\<lambda>_. True) v"
  then show "\<exists>e. write_global_status v out = (Inl e, out)"
    by (auto simp: write_global_status_def global_lengths command_valid_def)
next
  fix out :: "u8 list" and v :: GlobalStatusCell
  assume "length out = 96" "(\<lambda>_. True) v" "(\<lambda>_. True) v"
  then show "\<exists>b. write_global_status v out = (Inr (), b) \<and> length b = 96 \<and> parse_global_status b = Inr v"
    using status_fields_roundtrip [of out v] by (auto simp: write_global_status_def global_lengths command_valid_def)
next
  fix b v
  assume "parse_global_status b = Inr v"
  then show "length b = 96 \<and> sealed16 b"
    by (auto simp: parse_global_status_def global_lengths dest: global_check_sealed)
qed (auto simp: sealed_breaks)

subsection \<open>The contract of the cells\<close>

text \<open>
  Global cells round trip. For every cell of the five kinds a buffer of exactly the
  cell's length is filled and parses back to the same cell when its validity, flag,
  discrete and pulse fields are in contract; every other buffer or cell is refused with
  the buffer unchanged.
\<close>
theorem global_cells_roundtrip:
  assumes "length (rcs_pulse_quanta c) = 12"
  shows
  "(case write_global_fast_sensor f out of
      (Inl e, b) \<Rightarrow> b = out \<and> (length out \<noteq> 64 \<or> gf_validity f AND NOT GLOBAL_FAST_VALID_MASK \<noteq> 0)
    | (Inr u, b) \<Rightarrow> length b = 64 \<and> parse_global_fast_sensor b = Inr f)
   \<and> (case write_global_aid_frame a out of
      (Inl e, b) \<Rightarrow> b = out \<and> (length out \<noteq> 96 \<or> ga_validity a AND NOT GLOBAL_AID_VALID_MASK \<noteq> 0)
    | (Inr u, b) \<Rightarrow> length b = 96 \<and> parse_global_aid_frame b = Inr a)
   \<and> (case write_global_transition t out of
      (Inl e, b) \<Rightarrow> b = out \<and> (length out \<noteq> 192 \<or> gt_flags t \<noteq> 0)
    | (Inr u, b) \<Rightarrow> length b = 192 \<and> parse_global_transition b = Inr t)
   \<and> (case write_global_command c out of
      (Inl e, b) \<Rightarrow> b = out \<and> (length out \<noteq> 64 \<or> \<not> command_valid c)
    | (Inr u, b) \<Rightarrow> length b = 64 \<and> parse_global_command b = Inr c)
   \<and> (case write_global_status s out of
      (Inl e, b) \<Rightarrow> b = out \<and> length out \<noteq> 96
    | (Inr u, b) \<Rightarrow> length b = 96 \<and> parse_global_status b = Inr s)"
  using fast_cell.contract [where v = f and out = out] aid_cell.contract [where v = a and out = out]
    transition_cell.contract [where v = t and out = out] command_cell.contract [where v = c and out = out, OF assms]
    status_cell.contract [where v = s and out = out]
  by (auto split: prod.splits sum.splits)

definition sample_fast :: GlobalFastSensorCell where
  "sample_fast = \<lparr>gf_session = 0x10a0, gf_measurement_epoch = 1, gf_production_epoch = 1, gf_frame = LocalEnuV1,
     gf_validity = 63, gf_mission_time_q16 = 39321600, delta_velocity_q24 = (1, - 2, 3), delta_angle_q24 = (4, - 5, 6),
     attitude_vector_q15 = (0, 8192, 0), angular_rate_q15 = (7, 8, - 9), dynamic_pressure_q10 = 13, mach_q12 = 14,
     gimbal_applied_q15 = (15, - 16), rcs_propellant_q21 = 17, actuator_feedback = 18, gf_vehicle_status = 0,
     gf_sensor_checksum = 20\<rparr>"

definition sample_order :: GlobalCommandCell where
  "sample_order = \<lparr>gc_session = 0x10a0, gc_source_epoch = 1, gc_effective_epoch = 2, gc_frame = EarthInertialEciV1,
     gc_flags = 1, gc_discrete = 2, gimbal_q15 = (- 3, 4), rcs_pulse_quanta = [0, 0, 8, 8, 1, 1, 0, 0, 0, 0, 2, 2],
     torque_demand_q12 = (1, - 2, 3), gc_status = 9, command_checksum = 0xdeadbeef\<rparr>"

lemma sample_order_valid: "length (rcs_pulse_quanta sample_order) = 12" "command_valid sample_order"
  by (simp_all add: sample_order_def command_valid_def GLOBAL_COMMAND_FLAG_MASK_def GLOBAL_COMMAND_DISCRETE_MASK_def)

theorem global_cells_roundtrip_witness:
  "case write_global_command sample_order (replicate 64 0) of
     (Inl e, b) \<Rightarrow> False | (Inr u, b) \<Rightarrow> parse_global_command b = Inr sample_order"
  using global_cells_roundtrip [OF sample_order_valid(1), where out = "replicate 64 0"] sample_order_valid(2)
  by (auto split: prod.splits sum.splits)

text \<open>
  A global cell accepted by its parser is no longer accepted when any one of its
  bytes is replaced, for all five kinds.
\<close>
theorem global_cell_corruption_rejected:
  "(parse_global_fast_sensor b = Inr f \<and> i < 64 \<and> x \<noteq> b ! i \<longrightarrow> \<not> is_ok (parse_global_fast_sensor (b[i := x])))
   \<and> (parse_global_aid_frame b = Inr a \<and> i < 96 \<and> x \<noteq> b ! i \<longrightarrow> \<not> is_ok (parse_global_aid_frame (b[i := x])))
   \<and> (parse_global_transition b = Inr t \<and> i < 192 \<and> x \<noteq> b ! i \<longrightarrow> \<not> is_ok (parse_global_transition (b[i := x])))
   \<and> (parse_global_command b = Inr c \<and> i < 64 \<and> x \<noteq> b ! i \<longrightarrow> \<not> is_ok (parse_global_command (b[i := x])))
   \<and> (parse_global_status b = Inr s \<and> i < 96 \<and> x \<noteq> b ! i \<longrightarrow> \<not> is_ok (parse_global_status (b[i := x])))"
  using fast_cell.corruption_rejected aid_cell.corruption_rejected transition_cell.corruption_rejected
    command_cell.corruption_rejected status_cell.corruption_rejected by blast

theorem global_cell_corruption_rejected_witness:
  "\<exists>b. write_global_command sample_order (replicate 64 0) = (Inr (), b)
     \<and> \<not> is_ok (parse_global_command (b[12 := b ! 12 + 1]))"
proof -
  obtain b where b: "write_global_command sample_order (replicate 64 0) = (Inr (), b)" "parse_global_command b = Inr sample_order"
    using command_cell.write_parse [of "replicate 64 0" sample_order] sample_order_valid by auto
  moreover have "b ! 12 + 1 \<noteq> b ! 12" by simp
  ultimately show ?thesis using global_cell_corruption_rejected [of b _ 12 "b ! 12 + 1"] by auto
qed

end
