(* ===== verification/Safehold_Safety.thy ===== *)
theory Safehold_Safety
  imports Safehold Global_Codec
begin

text \<open>
  Lemmas about the stages of a release of the contingency package, composed over one
  release: what each stage keeps, the safe state, the recovery latches and the bounds of a
  command.
\<close>

unbundle bit_operations_syntax

subsection \<open>What the stages keep\<close>

lemma safehold_append_keeps [simp]:
  "sh_config (safehold_append s k p q r) = sh_config s" "sh_segment (safehold_append s k p q r) = sh_segment s"
  "sh_epoch (safehold_append s k p q r) = sh_epoch s" "sh_navigation (safehold_append s k p q r) = sh_navigation s"
  "sh_target_q30 (safehold_append s k p q r) = sh_target_q30 s"
  "sh_last_time_q16 (safehold_append s k p q r) = sh_last_time_q16 s"
  "sh_last_fast (safehold_append s k p q r) = sh_last_fast s"
  "sh_missing_fast (safehold_append s k p q r) = sh_missing_fast s" "sh_safe (safehold_append s k p q r) = sh_safe s"
  "sh_descending_count (safehold_append s k p q r) = sh_descending_count s"
  "sh_drogue_latched (safehold_append s k p q r) = sh_drogue_latched s"
  "sh_main_latched (safehold_append s k p q r) = sh_main_latched s"
  "sh_drogue_time_q16 (safehold_append s k p q r) = sh_drogue_time_q16 s"
  "sh_alarms (safehold_append s k p q r) = sh_alarms s"
  "sh_sensor_checksum (safehold_append s k p q r) = sh_sensor_checksum s"
  "sh_command_checksum (safehold_append s k p q r) = sh_command_checksum s"
  "sh_flight_checksum (safehold_append s k p q r) = sh_flight_checksum s"
  "sh_transition_count (safehold_append s k p q r) = sh_transition_count s"
  "sh_last_mode (safehold_append s k p q r) = sh_last_mode s"
  by (simp_all add: safehold_append_def)

lemma enter_safe_keeps [simp]:
  "sh_config (enter_safe s a) = sh_config s" "sh_segment (enter_safe s a) = sh_segment s"
  "sh_epoch (enter_safe s a) = sh_epoch s" "sh_navigation (enter_safe s a) = sh_navigation s"
  "sh_last_time_q16 (enter_safe s a) = sh_last_time_q16 s" "sh_last_fast (enter_safe s a) = sh_last_fast s"
  "sh_descending_count (enter_safe s a) = sh_descending_count s"
  "sh_drogue_latched (enter_safe s a) = sh_drogue_latched s" "sh_main_latched (enter_safe s a) = sh_main_latched s"
  "sh_drogue_time_q16 (enter_safe s a) = sh_drogue_time_q16 s"
  "sh_transition_count (enter_safe s a) = sh_transition_count s" "sh_safe (enter_safe s a)"
  by (simp_all add: enter_safe_def Let_def)

fun segment_index :: "SafeholdSessionSegment \<Rightarrow> nat" where
  "segment_index EciCoast = 0" | "segment_index EcefEntry = 1" | "segment_index LocalRecovery = 2"

lemma next_segment_of_Some:
  assumes "next_segment_of g cell = Some h"
  shows "segment_index h = Suc (segment_index g)" "gt_to cell = segment_frame h"
  using assms by (auto simp: next_segment_of_def split: SafeholdSessionSegment.splits GlobalFrameId.splits)

lemma transition_keeps [simp]:
  "sh_config (safehold_transition s t) = sh_config s" "sh_epoch (safehold_transition s t) = sh_epoch s"
  "sh_last_time_q16 (safehold_transition s t) = sh_last_time_q16 s"
  "sh_last_fast (safehold_transition s t) = sh_last_fast s"
  "sh_drogue_latched (safehold_transition s t) = sh_drogue_latched s"
  "sh_main_latched (safehold_transition s t) = sh_main_latched s"
  "sh_drogue_time_q16 (safehold_transition s t) = sh_drogue_time_q16 s"
  "sh_safe s \<Longrightarrow> sh_safe (safehold_transition s t)"
  by (simp_all add: safehold_transition_def Let_def split: option.split)

lemma transition_segment:
  assumes "nav_frame (sh_navigation s) = segment_frame (sh_segment s)"
  shows "nav_frame (sh_navigation (safehold_transition s t)) = segment_frame (sh_segment (safehold_transition s t))"
    "sh_segment (safehold_transition s t) = sh_segment s \<and> sh_transition_count (safehold_transition s t) = sh_transition_count s
     \<or> segment_index (sh_segment (safehold_transition s t)) = Suc (segment_index (sh_segment s))
       \<and> sh_transition_count (safehold_transition s t) = saturating_inc_u8 (sh_transition_count s)"
  using assms next_segment_of_Some by (auto simp: safehold_transition_def Let_def split: option.split)

lemma accept_fast_keeps:
  assumes "accept_fast s f = (v, s')"
  shows "sh_config s' = sh_config s" "sh_segment s' = sh_segment s" "sh_epoch s' = sh_epoch s"
    "nav_frame (sh_navigation s') = nav_frame (sh_navigation s)" "sh_drogue_latched s' = sh_drogue_latched s"
    "sh_main_latched s' = sh_main_latched s" "sh_drogue_time_q16 s' = sh_drogue_time_q16 s"
    "sh_transition_count s' = sh_transition_count s" "sh_safe s' = (sh_safe s \<or> v = None)"
    "v = filter_option (safehold_fast_valid s) f"
    "sh_last_time_q16 s' = (case v of Some c \<Rightarrow> gf_mission_time_q16 c | None \<Rightarrow> sh_last_time_q16 s)"
  using assms by (auto simp: accept_fast_def safehold_inertial_def Let_def split: option.splits)

lemma accept_aid_keeps:
  assumes "accept_aid s a = (v, s')"
  shows "sh_config s' = sh_config s" "sh_segment s' = sh_segment s" "sh_epoch s' = sh_epoch s"
    "nav_frame (sh_navigation s') = nav_frame (sh_navigation s)" "sh_drogue_latched s' = sh_drogue_latched s"
    "sh_main_latched s' = sh_main_latched s" "sh_drogue_time_q16 s' = sh_drogue_time_q16 s"
    "sh_transition_count s' = sh_transition_count s" "sh_safe s' = sh_safe s"
    "v = filter_option (safehold_aid_valid s) a" "sh_last_time_q16 s' = sh_last_time_q16 s"
    "sh_last_fast s' = sh_last_fast s"
  using assms by (auto simp: accept_aid_def safehold_aiding_def Let_def split: option.splits if_splits)

lemma safehold_drogue_keeps:
  assumes "safehold_drogue s cont = (d, s')"
  shows "sh_config s' = sh_config s" "sh_segment s' = sh_segment s" "sh_epoch s' = sh_epoch s"
    "sh_navigation s' = sh_navigation s" "sh_main_latched s' = sh_main_latched s"
    "sh_transition_count s' = sh_transition_count s" "sh_safe s' = sh_safe s" "sh_last_time_q16 s' = sh_last_time_q16 s"
  using assms by (auto simp: safehold_drogue_def Let_def split: if_splits)

lemma safehold_main_keeps:
  assumes "safehold_main s cont fb = (d, s')"
  shows "sh_config s' = sh_config s" "sh_segment s' = sh_segment s" "sh_epoch s' = sh_epoch s"
    "sh_navigation s' = sh_navigation s" "sh_drogue_latched s' = sh_drogue_latched s"
    "sh_transition_count s' = sh_transition_count s" "sh_safe s' = sh_safe s" "sh_last_time_q16 s' = sh_last_time_q16 s"
    "sh_drogue_time_q16 s' = sh_drogue_time_q16 s"
  using assms by (auto simp: safehold_main_def Let_def split: if_splits)

subsection \<open>Recovery\<close>

lemma safehold_drogue_latch:
  assumes "safehold_drogue s cont = (d, s')"
  shows "d \<in> {0, 1}" "sh_drogue_latched s \<Longrightarrow> sh_drogue_latched s' \<and> sh_drogue_time_q16 s' = sh_drogue_time_q16 s \<and> d = 0"
    "\<not> sh_drogue_latched s \<Longrightarrow> (sh_drogue_latched s' \<longleftrightarrow> d = 1) \<and> (d = 1 \<longrightarrow> sh_drogue_time_q16 s' = sh_last_time_q16 s)"
    "cont \<Longrightarrow> \<not> sh_drogue_latched s \<Longrightarrow> shc_drogue_backup_time_q16 (sh_config s) \<le> sh_last_time_q16 s \<Longrightarrow> d = 1"
  using assms by (auto simp: safehold_drogue_def GLOBAL_COMMAND_DROGUE_def Let_def split: if_splits)

lemma safehold_drogue_unlatched:
  "safehold_drogue s cont = (d, s') \<Longrightarrow> d \<noteq> 1 \<Longrightarrow> sh_drogue_time_q16 s' = sh_drogue_time_q16 s"
  by (auto simp: safehold_drogue_def GLOBAL_COMMAND_DROGUE_def Let_def split: if_splits)

lemma safehold_main_latch:
  assumes "safehold_main s cont fb = (d, s')"
  shows "d \<in> {0, 2}" "sh_main_latched s \<Longrightarrow> sh_main_latched s' \<and> d = 0"
    "\<not> sh_main_latched s \<Longrightarrow> (sh_main_latched s' \<longleftrightarrow> d = 2)"
    "d \<noteq> 0 \<Longrightarrow> sh_drogue_latched s \<and> safehold_separated s"
  using assms by (auto simp: safehold_main_def GLOBAL_COMMAND_MAIN_def Let_def split: if_splits)

lemma safehold_recovery_cases:
  assumes "safehold_recovery s a = (d, s')"
  obtains "sh_segment s \<noteq> LocalRecovery" "d = 0" "s' = s\<lparr>sh_descending_count := 0\<rparr>"
  | u cont fb dr w mn where "sh_segment s = LocalRecovery" "\<exists>n. u = s\<lparr>sh_descending_count := n\<rparr>"
      "cont = (case filter_option (\<lambda>v. ga_validity v AND GLOBAL_AID_CONTINUITY \<noteq> 0) a of
                 Some v \<Rightarrow> continuity v AND 1 \<noteq> 0 | None \<Rightarrow> False)"
      "safehold_drogue u cont = (dr, w)" "safehold_main w cont fb = (mn, s')" "d = dr OR mn"
proof (cases "sh_segment s = LocalRecovery")
  case True
  define u where "u = s\<lparr>sh_descending_count :=
     (if at3 (nav_velocity_q24 (sh_navigation s)) 2 <s 0 then saturating_inc_u8 (sh_descending_count s) else 0)\<rparr>"
  define cont where "cont = (case filter_option (\<lambda>v. ga_validity v AND GLOBAL_AID_CONTINUITY \<noteq> 0) a of
     Some v \<Rightarrow> continuity v AND 1 \<noteq> 0 | None \<Rightarrow> False)"
  define fb where "fb = (case filter_option (\<lambda>v. ga_validity v AND GLOBAL_AID_DEPLOYMENT_FEEDBACK \<noteq> 0) a of
     Some v \<Rightarrow> deployment_feedback v | None \<Rightarrow> 0)"
  obtain dr w where dr: "safehold_drogue u cont = (dr, w)" by fastforce
  obtain mn x where mn: "safehold_main w cont fb = (mn, x)" by fastforce
  have "d = dr OR mn \<and> s' = x"
    using assms True unfolding safehold_recovery_def Let_def u_def [symmetric] cont_def [symmetric] fb_def [symmetric]
    by (simp add: dr mn)
  then show ?thesis using that(2) [OF True _ cont_def dr] mn u_def by blast
qed (use assms that(1) in \<open>simp add: safehold_recovery_def\<close>)

lemma safehold_recovery_keeps:
  assumes "safehold_recovery s a = (d, s')"
  shows "sh_config s' = sh_config s" "sh_segment s' = sh_segment s" "sh_epoch s' = sh_epoch s"
    "sh_navigation s' = sh_navigation s" "sh_transition_count s' = sh_transition_count s" "sh_safe s' = sh_safe s"
    "sh_last_time_q16 s' = sh_last_time_q16 s"
  by (cases rule: safehold_recovery_cases [OF assms]; auto simp: safehold_drogue_keeps safehold_main_keeps)+

lemma bit_or_cases:
  assumes "dr \<in> {0, 1 :: u8}" "mn \<in> {0, 2}"
  shows "dr OR mn \<in> {0, 1, 2, 3}" "(dr OR mn) AND 1 \<noteq> 0 \<longleftrightarrow> dr = 1" "(dr OR mn) AND 2 \<noteq> 0 \<longleftrightarrow> mn = 2"
  using assms by auto

lemma safehold_recovery_latch:
  assumes "safehold_recovery s a = (d, s')"
  shows "d \<in> {0, 1, 2, 3}"
    "sh_drogue_latched s' \<longleftrightarrow> sh_drogue_latched s \<or> d AND 1 \<noteq> 0" "d AND 1 \<noteq> 0 \<Longrightarrow> \<not> sh_drogue_latched s"
    "sh_main_latched s' \<longleftrightarrow> sh_main_latched s \<or> d AND 2 \<noteq> 0" "d AND 2 \<noteq> 0 \<Longrightarrow> \<not> sh_main_latched s"
    "sh_drogue_time_q16 s' = (if d AND 1 \<noteq> 0 then sh_last_time_q16 s else sh_drogue_time_q16 s)"
    "d AND 2 \<noteq> 0 \<Longrightarrow> 0 < shc_minimum_separation_q16 (sh_config s) \<Longrightarrow> sh_drogue_latched s \<and> safehold_separated s"
proof -
  have "d \<in> {0, 1, 2, 3} \<and> (sh_drogue_latched s' \<longleftrightarrow> sh_drogue_latched s \<or> d AND 1 \<noteq> 0)
     \<and> (d AND 1 \<noteq> 0 \<longrightarrow> \<not> sh_drogue_latched s) \<and> (sh_main_latched s' \<longleftrightarrow> sh_main_latched s \<or> d AND 2 \<noteq> 0)
     \<and> (d AND 2 \<noteq> 0 \<longrightarrow> \<not> sh_main_latched s)
     \<and> sh_drogue_time_q16 s' = (if d AND 1 \<noteq> 0 then sh_last_time_q16 s else sh_drogue_time_q16 s)
     \<and> (d AND 2 \<noteq> 0 \<longrightarrow> 0 < shc_minimum_separation_q16 (sh_config s) \<longrightarrow> sh_drogue_latched s \<and> safehold_separated s)"
  proof (cases rule: safehold_recovery_cases [OF assms])
    case (2 u cont fb dr w mn)
    obtain n where u: "u = s\<lparr>sh_descending_count := n\<rparr>" using 2(2) by blast
    note dl = safehold_drogue_latch [OF 2(4)] and ml = safehold_main_latch [OF 2(5)]
    note dk = safehold_drogue_keeps [OF 2(4)] and mk = safehold_main_keeps [OF 2(5)]
    note b = bit_or_cases [OF dl(1) ml(1)]
    have "sh_drogue_latched s \<and> safehold_separated s"
      if "mn = 2" "0 < shc_minimum_separation_q16 (sh_config s)"
    proof -
      have m: "sh_drogue_latched w" "safehold_separated w" using ml(4) that(1) by auto
      have l: "sh_drogue_latched s"
      proof (rule ccontr)
        assume "\<not> sh_drogue_latched s"
        then have "sh_drogue_time_q16 w = sh_last_time_q16 w" using dl(3) m(1) dk(8) u by simp
        then show False using m(2) that(2) dk(1) u by (simp add: safehold_separated_def saturating_sub_def)
      qed
      then show ?thesis using m(2) dl(2) dk(1,8) u by (simp add: safehold_separated_def)
    qed
    moreover have "(sh_drogue_latched w \<longleftrightarrow> sh_drogue_latched s \<or> dr = 1) \<and> (dr = 1 \<longrightarrow> \<not> sh_drogue_latched s)
        \<and> sh_drogue_time_q16 w = (if dr = 1 then sh_last_time_q16 s else sh_drogue_time_q16 s)"
    proof (cases "sh_drogue_latched s")
      case True then show ?thesis using dl(2) u by simp
    next
      case False then show ?thesis using dl(3) safehold_drogue_unlatched [OF 2(4)] u by simp
    qed
    moreover have "(sh_main_latched s' \<longleftrightarrow> sh_main_latched s \<or> mn = 2) \<and> (mn = 2 \<longrightarrow> \<not> sh_main_latched s)"
    proof (cases "sh_main_latched s")
      case True then show ?thesis using ml(2) dk(5) u by simp
    next
      case False then show ?thesis using ml(3) dk(5) u by simp
    qed
    ultimately show ?thesis using 2(6) b mk(5,9) by simp
  qed simp
  then show "d \<in> {0, 1, 2, 3}"
    "sh_drogue_latched s' \<longleftrightarrow> sh_drogue_latched s \<or> d AND 1 \<noteq> 0" "d AND 1 \<noteq> 0 \<Longrightarrow> \<not> sh_drogue_latched s"
    "sh_main_latched s' \<longleftrightarrow> sh_main_latched s \<or> d AND 2 \<noteq> 0" "d AND 2 \<noteq> 0 \<Longrightarrow> \<not> sh_main_latched s"
    "sh_drogue_time_q16 s' = (if d AND 1 \<noteq> 0 then sh_last_time_q16 s else sh_drogue_time_q16 s)"
    "d AND 2 \<noteq> 0 \<Longrightarrow> 0 < shc_minimum_separation_q16 (sh_config s) \<Longrightarrow> sh_drogue_latched s \<and> safehold_separated s"
    by blast+
qed

lemma safehold_recovery_backup:
  assumes "safehold_recovery s a = (d, s')" "sh_segment s = LocalRecovery" "\<not> sh_drogue_latched s"
    "shc_drogue_backup_time_q16 (sh_config s) \<le> sh_last_time_q16 s"
    "a = Some v" "ga_validity v AND GLOBAL_AID_CONTINUITY \<noteq> 0" "continuity v AND 1 \<noteq> 0"
  shows "d AND 1 \<noteq> 0"
proof (cases rule: safehold_recovery_cases [OF assms(1)])
  case (2 u cont fb dr w mn)
  obtain n where u: "u = s\<lparr>sh_descending_count := n\<rparr>" using 2(2) by blast
  have "cont" using 2(3) assms(5-7) by (simp add: filter_option_def)
  then have "dr = 1" using safehold_drogue_latch(4) [OF 2(4)] assms(3,4) u by simp
  then show ?thesis using 2(6) bit_or_cases(2) [OF safehold_drogue_latch(1) [OF 2(4)] safehold_main_latch(1) [OF 2(5)]] by simp
qed (use assms(2) in simp)

subsection \<open>Commands\<close>

text \<open>
  A command of a safe state: it moves nothing, and its discrete says safe and nothing else but,
  at most, the order of a parachute.
\<close>

definition safed :: "GlobalCommandCell \<Rightarrow> bool" where
  "safed command \<longleftrightarrow> torque_demand_q12 command = (0, 0, 0) \<and> gimbal_q15 command = (0, 0)
     \<and> rcs_pulse_quanta command = replicate 12 0
     \<and> gc_discrete command AND NOT (GLOBAL_COMMAND_DROGUE OR GLOBAL_COMMAND_MAIN) = GLOBAL_COMMAND_SAFE"

lemma safed_inert: "inert command \<Longrightarrow> safed command"
  by (simp add: inert_def safed_def GLOBAL_COMMAND_DROGUE_def GLOBAL_COMMAND_MAIN_def GLOBAL_COMMAND_SAFE_def)

lemma safehold_command_safe: "sh_safe s \<Longrightarrow> d \<in> {0, 1, 2, 3} \<Longrightarrow> safed (safehold_command s v d)"
  by (auto simp: safehold_command_def safehold_control_def safed_def Let_def GLOBAL_COMMAND_DROGUE_def GLOBAL_COMMAND_MAIN_def
      GLOBAL_COMMAND_SAFE_def)

lemma pulses_length_bound:
  assumes "length ps = 12" "\<forall>q \<in> set ps. q \<le> 8" "quantum \<le> (8 :: u8)"
  shows "length (ps[channel := quantum, channel + 1 := quantum]) = 12"
    "\<forall>q \<in> set (ps[channel := quantum, channel + 1 := quantum]). q \<le> 8"
  using assms by (auto dest!: subsetD [OF set_update_subset_insert])

lemma safehold_axis_pulses_bound:
  assumes "length ps = 12 \<and> (\<forall>q \<in> set ps. q \<le> 8)"
  shows "length (safehold_axis_pulses torque axis ps) = 12 \<and> (\<forall>q \<in> set (safehold_axis_pulses torque axis ps). q \<le> 8)"
  using pulses_length_bound [OF conjunct1 conjunct2, OF assms assms pulse_quantum_le] assms
  by (simp add: safehold_axis_pulses_def Let_def)

lemma safehold_control_pulses:
  assumes "safehold_control s f = (torque, pulses)"
  shows "length pulses = 12 \<and> (\<forall>q \<in> set pulses. q \<le> 8)"
proof -
  have idle: "length (replicate 12 (0 :: u8)) = 12 \<and> (\<forall>q \<in> set (replicate 12 (0 :: u8)). q \<le> 8)" by simp
  have "length (for3 (safehold_axis_pulses tq) (replicate 12 0)) = 12
      \<and> (\<forall>q \<in> set (for3 (safehold_axis_pulses tq) (replicate 12 0)). q \<le> 8)" for tq
    unfolding for3_unfold by (intro safehold_axis_pulses_bound idle)
  moreover have "pulses = replicate 12 0 \<or> (\<exists>tq. pulses = for3 (safehold_axis_pulses tq) (replicate 12 0))"
    using assms by (auto simp: safehold_control_def Let_def simp del: for3_unfold split_paired_Ex split: if_splits option.splits)
  ultimately show ?thesis using idle by metis
qed

lemma safehold_command_valid:
  assumes "d \<in> {0, 1, 2, 3}"
  shows "length (rcs_pulse_quanta (safehold_command s v d)) = 12" "command_valid (safehold_command s v d)"
proof -
  obtain torque pulses where c: "safehold_control s v = (torque, pulses)" by fastforce
  note p = safehold_control_pulses [OF c]
  show "length (rcs_pulse_quanta (safehold_command s v d)) = 12"
    using p by (simp add: safehold_command_def c)
  have "gc_flags (safehold_command s v d) \<in> {0, 4}"
    by (simp add: safehold_command_def c GLOBAL_COMMAND_RCS_RESERVED_def split: option.split)
  moreover have "gc_discrete (safehold_command s v d) \<in> {0, 1, 2, 3, 4, 5, 6, 7}"
    using assms by (auto simp: safehold_command_def c GLOBAL_COMMAND_SAFE_def)
  moreover have "\<forall>q \<in> set (rcs_pulse_quanta (safehold_command s v d)). q \<le> 8"
    using p by (simp add: safehold_command_def c)
  ultimately show "command_valid (safehold_command s v d)"
    by (auto simp: command_valid_def GLOBAL_COMMAND_FLAG_MASK_def GLOBAL_COMMAND_DISCRETE_MASK_def not_less)
qed

lemma safehold_command_orders:
  assumes "d \<in> {0, 1, 2, 3}"
  shows "gc_discrete (safehold_command s v d) AND 1 \<noteq> 0 \<longleftrightarrow> d AND 1 \<noteq> 0"
    "gc_discrete (safehold_command s v d) AND 2 \<noteq> 0 \<longleftrightarrow> d AND 2 \<noteq> 0"
  using assms by (auto simp: safehold_command_def GLOBAL_COMMAND_SAFE_def split: prod.split)

subsection \<open>One release\<close>

lemma safehold_note_mode_keeps [simp]:
  "sh_config (safehold_note_mode s m) = sh_config s" "sh_segment (safehold_note_mode s m) = sh_segment s"
  "sh_epoch (safehold_note_mode s m) = sh_epoch s" "sh_navigation (safehold_note_mode s m) = sh_navigation s"
  "sh_last_time_q16 (safehold_note_mode s m) = sh_last_time_q16 s" "sh_safe (safehold_note_mode s m) = sh_safe s"
  "sh_drogue_latched (safehold_note_mode s m) = sh_drogue_latched s"
  "sh_main_latched (safehold_note_mode s m) = sh_main_latched s"
  "sh_drogue_time_q16 (safehold_note_mode s m) = sh_drogue_time_q16 s"
  "sh_transition_count (safehold_note_mode s m) = sh_transition_count s"
  by (simp_all add: safehold_note_mode_def)

lemma safehold_release_stages:
  assumes "safehold_release s f a t = (e, s')"
  obtains s1 v s2 w s3 d s4 ck where "s1 = safehold_transition s t" "accept_fast s1 f = (v, s2)"
    "accept_aid s2 a = (w, s3)" "safehold_recovery s3 w = (d, s4)"
    "ev_command e = (safehold_command s4 v d)\<lparr>command_checksum := ck\<rparr>"
    "ev_safe e = sh_safe s4" "ev_drogue_latched e = sh_drogue_latched s4" "ev_main_latched e = sh_main_latched s4"
    "sh_config s' = sh_config s4" "sh_segment s' = sh_segment s4" "sh_epoch s' = sh_epoch s4 + 1"
    "sh_navigation s' = sh_navigation s4" "sh_safe s' = sh_safe s4" "sh_drogue_latched s' = sh_drogue_latched s4"
    "sh_main_latched s' = sh_main_latched s4" "sh_drogue_time_q16 s' = sh_drogue_time_q16 s4"
    "sh_last_time_q16 s' = sh_last_time_q16 s4" "sh_transition_count s' = sh_transition_count s4"
    "ev_navigation e = sh_navigation s4"
proof -
  define s1 where "s1 = safehold_transition s t"
  obtain v s2 where f: "accept_fast s1 f = (v, s2)" by fastforce
  obtain w s3 where a: "accept_aid s2 a = (w, s3)" by fastforce
  obtain d s4 where r: "safehold_recovery s3 w = (d, s4)" by fastforce
  show ?thesis
    using assms by (intro that [OF s1_def f a r]) (auto simp: safehold_release_def Let_def f a r simp flip: s1_def)
qed

text \<open>The state between releases: a valid configuration and the frame of the segment.\<close>

definition safehold_inv :: "SafeholdRecovery \<Rightarrow> bool" where
  "safehold_inv s \<longleftrightarrow> safehold_config_is_valid (sh_config s) \<and> nav_frame (sh_navigation s) = segment_frame (sh_segment s)"

lemma new_safehold_fields:
  assumes "new_safehold cfg = Some s"
  shows "safehold_inv s" "sh_epoch s = 0" "\<not> sh_safe s" "\<not> sh_drogue_latched s" "\<not> sh_main_latched s"
    "sh_transition_count s = 0" "sh_segment s = initial_segment cfg" "sh_config s = cfg" "sh_last_time_q16 s = 0"
  using assms by (auto simp: new_safehold_def safehold_inv_def Let_def split: if_splits)

lemma safehold_release_step:
  assumes "safehold_release s f a t = (e, s')"
  shows "safehold_inv s \<Longrightarrow> safehold_inv s'" "sh_config s' = sh_config s"
    "gc_source_epoch (ev_command e) = sh_epoch s" "gc_effective_epoch (ev_command e) = sh_epoch s + 1"
    "sh_epoch s' = sh_epoch s + 1" "gc_session (ev_command e) = shc_session (sh_config s)"
    "gc_frame (ev_command e) = nav_frame (sh_navigation s')" "ev_navigation e = sh_navigation s'"
    "length (rcs_pulse_quanta (ev_command e)) = 12" "command_valid (ev_command e)"
    "ev_safe e = sh_safe s'" "sh_safe s \<Longrightarrow> sh_safe s'" "sh_safe s' \<Longrightarrow> safed (ev_command e)"
    "sh_drogue_latched s' \<longleftrightarrow> sh_drogue_latched s \<or> orders_drogue e" "orders_drogue e \<Longrightarrow> \<not> sh_drogue_latched s"
    "sh_main_latched s' \<longleftrightarrow> sh_main_latched s \<or> orders_main e" "orders_main e \<Longrightarrow> \<not> sh_main_latched s"
    "sh_drogue_time_q16 s' = (if orders_drogue e then sh_last_time_q16 s' else sh_drogue_time_q16 s)"
    "orders_main e \<Longrightarrow> safehold_inv s \<Longrightarrow> sh_drogue_latched s
       \<and> unat (shc_minimum_separation_q16 (sh_config s)) + unat (sh_drogue_time_q16 s) \<le> unat (sh_last_time_q16 s')"
    "ev_drogue_latched e = sh_drogue_latched s'" "ev_main_latched e = sh_main_latched s'"
    "safehold_inv s \<Longrightarrow> sh_segment s' = sh_segment s \<and> sh_transition_count s' = sh_transition_count s
      \<or> segment_index (sh_segment s') = Suc (segment_index (sh_segment s))
        \<and> sh_transition_count s' = saturating_inc_u8 (sh_transition_count s)"
    "filter_option (safehold_fast_valid (safehold_transition s t)) f = None \<Longrightarrow> sh_safe s'"
proof -
  obtain s1 v s2 w s3 d s4 ck where st: "s1 = safehold_transition s t" "accept_fast s1 f = (v, s2)"
    "accept_aid s2 a = (w, s3)" "safehold_recovery s3 w = (d, s4)"
    "ev_command e = (safehold_command s4 v d)\<lparr>command_checksum := ck\<rparr>"
    "ev_safe e = sh_safe s4" "ev_drogue_latched e = sh_drogue_latched s4" "ev_main_latched e = sh_main_latched s4"
    "sh_config s' = sh_config s4" "sh_segment s' = sh_segment s4" "sh_epoch s' = sh_epoch s4 + 1"
    "sh_navigation s' = sh_navigation s4" "sh_safe s' = sh_safe s4" "sh_drogue_latched s' = sh_drogue_latched s4"
    "sh_main_latched s' = sh_main_latched s4" "sh_drogue_time_q16 s' = sh_drogue_time_q16 s4"
    "sh_last_time_q16 s' = sh_last_time_q16 s4" "sh_transition_count s' = sh_transition_count s4"
    "ev_navigation e = sh_navigation s4"
    by (rule safehold_release_stages [OF assms])
  note fk = accept_fast_keeps [OF st(2)] and ak = accept_aid_keeps [OF st(3)]
    and rk = safehold_recovery_keeps [OF st(4)] and rl = safehold_recovery_latch [OF st(4)]
  have cmd: "gc_source_epoch (ev_command e) = sh_epoch s4" "gc_effective_epoch (ev_command e) = sh_epoch s4 + 1"
    "gc_session (ev_command e) = shc_session (sh_config s4)" "gc_frame (ev_command e) = nav_frame (sh_navigation s4)"
    using st(5) by (simp_all add: safehold_command_def Let_def split: prod.split)
  have ep: "sh_epoch s4 = sh_epoch s" and cfg: "sh_config s4 = sh_config s" and seg: "sh_segment s4 = sh_segment s1"
    and fr: "nav_frame (sh_navigation s4) = nav_frame (sh_navigation s1)" and tc: "sh_transition_count s4 = sh_transition_count s1"
    using fk ak rk st(1) by simp_all
  show c: "sh_config s' = sh_config s" and "sh_epoch s' = sh_epoch s + 1" using st(9,11) cfg ep by simp_all
  show "gc_source_epoch (ev_command e) = sh_epoch s" "gc_effective_epoch (ev_command e) = sh_epoch s + 1"
    "gc_session (ev_command e) = shc_session (sh_config s)" "gc_frame (ev_command e) = nav_frame (sh_navigation s')"
    using cmd ep cfg st(12) by simp_all
  show "ev_navigation e = sh_navigation s'" using st(12,19) by simp
  show "length (rcs_pulse_quanta (ev_command e)) = 12" "command_valid (ev_command e)"
    using safehold_command_valid [OF rl(1), of s4 v] st(5) by (simp_all add: command_valid_def)
  show "ev_safe e = sh_safe s'" using st(6,13) by simp
  show "sh_safe s'" if "sh_safe s" using that fk(9) ak(9) rk(6) st(1,13) by simp
  show "safed (ev_command e)" if "sh_safe s'" using that st(13) safehold_command_safe [OF _ rl(1), of s4 v] st(5) by (simp add: safed_def)
  have od: "orders_drogue e \<longleftrightarrow> d AND 1 \<noteq> 0" and om: "orders_main e \<longleftrightarrow> d AND 2 \<noteq> 0"
    using safehold_command_orders [OF rl(1), of s4 v] st(5)
    by (simp_all add: orders_drogue_def orders_main_def GLOBAL_COMMAND_DROGUE_def GLOBAL_COMMAND_MAIN_def)
  have l3: "sh_drogue_latched s3 = sh_drogue_latched s" "sh_main_latched s3 = sh_main_latched s"
    "sh_drogue_time_q16 s3 = sh_drogue_time_q16 s" using fk ak st(1) by simp_all
  show "sh_drogue_latched s' \<longleftrightarrow> sh_drogue_latched s \<or> orders_drogue e" "orders_drogue e \<Longrightarrow> \<not> sh_drogue_latched s"
    "sh_main_latched s' \<longleftrightarrow> sh_main_latched s \<or> orders_main e" "orders_main e \<Longrightarrow> \<not> sh_main_latched s"
    using rl(2-5) st(14,15) l3 od om by simp_all
  show "sh_drogue_time_q16 s' = (if orders_drogue e then sh_last_time_q16 s' else sh_drogue_time_q16 s)"
    using rl(6) rk(7) st(16,17) l3(3) od by simp
  show "ev_drogue_latched e = sh_drogue_latched s'" "ev_main_latched e = sh_main_latched s'" using st(7,8,14,15) by simp_all
  show "sh_drogue_latched s
       \<and> unat (shc_minimum_separation_q16 (sh_config s)) + unat (sh_drogue_time_q16 s) \<le> unat (sh_last_time_q16 s')"
    if "orders_main e" "safehold_inv s"
  proof -
    have pos: "0 < shc_minimum_separation_q16 (sh_config s)" using that(2) by (simp add: safehold_inv_def safehold_config_is_valid_def)
    have c3: "sh_config s3 = sh_config s" using cfg rk(1) by simp
    have "sh_drogue_latched s3 \<and> safehold_separated s3" using rl(7) om that(1) pos c3 by simp
    then have "shc_minimum_separation_q16 (sh_config s) \<le> saturating_sub (sh_last_time_q16 s') (sh_drogue_time_q16 s)"
      "sh_drogue_latched s"
      using l3 c3 rk(7) st(17) by (simp_all add: safehold_separated_def)
    then show ?thesis
      using pos by (auto simp: saturating_sub_def word_le_nat_alt word_less_nat_alt unat_sub split: if_splits)
  qed
  show "sh_segment s' = sh_segment s \<and> sh_transition_count s' = sh_transition_count s
      \<or> segment_index (sh_segment s') = Suc (segment_index (sh_segment s))
        \<and> sh_transition_count s' = saturating_inc_u8 (sh_transition_count s)" if "safehold_inv s"
    using transition_segment(2) [of s t] that st(1,10,18) seg tc by (simp add: safehold_inv_def)
  show "safehold_inv s'" if "safehold_inv s"
    using transition_segment(1) [of s t] that st(1,10,12) seg fr c by (simp add: safehold_inv_def)
  show "sh_safe s'" if "filter_option (safehold_fast_valid (safehold_transition s t)) f = None"
    using that fk(9,10) ak(9) rk(6) st(1,13) by simp
qed

end
