(* ===== verification/Flight_Contract.thy ===== *)
theory Flight_Contract
  imports Flight_Safety Global_Codec
begin

text \<open>
  The contract of the phase 10 flight computer, over every run of its public operations
  from a fresh computer, with a reachable execution for each statement.
\<close>

unbundle bit_operations_syntax

subsection \<open>A reachable execution\<close>

text \<open>
  A tick with an acceptable sensor cell, no aiding and no transition: what it does to
  the fields the recovery logic reads.
\<close>

lemma recovery_without_aid: "recovery_command c None = (d, c') \<Longrightarrow> drogue_latched c' = drogue_latched c"
  by (auto simp: recovery_command_def filter_option_def command_drogue_def Let_def split: if_splits prod.splits
      dest: command_main_frame(13))

lemma plain_tick:
  assumes "fast_is_valid c cell" "tick c (Some cell) None None = (e, c')"
  shows "epoch c' = epoch c + 1" "safe c' = safe c" "missing_fast c' = 0" "last_time_q16 c' = gf_mission_time_q16 cell"
    "powered c' = (gf_vehicle_status cell AND 2 \<noteq> 0)" "seen_powered c' = (seen_powered c \<or> powered c')"
    "nav_frame (navigation c') = nav_frame (navigation c)" "config c' = config c" "drogue_latched c' = drogue_latched c"
    "armed c' = (armed c \<or> seen_powered c' \<and> \<not> powered c' \<and> minimum_arming_time_q16 (config c) \<le> gf_mission_time_q16 cell)"
proof -
  define c1 where "c1 = update_mode_and_recovery (receive_aid (receive_fast c (Some cell)) None None) (Some cell) None"
  have adv: "advance c (Some cell) None None = (c1, Some cell, None)"
    using assms(1) by (simp add: advance_def apply_transition_def filter_option_def c1_def Let_def)
  obtain d c2 where r: "recovery_command c1 None = (d, c2)" by fastforce
  obtain c1' vf va d' c2' ck where t: "advance c (Some cell) None None = (c1', vf, va)" "recovery_command c1' va = (d', c2')"
      "epoch c' = epoch c + 1" "config c' = config c2'" "safe c' = safe c2'" "missing_fast c' = missing_fast c2'"
      "powered c' = powered c2'" "drogue_latched c' = drogue_latched c2'" "last_time_q16 c' = last_time_q16 c2'"
      "armed c' = armed c2'" "navigation c' = navigation c2'" "seen_powered c' = seen_powered c2'"
    by (rule tick_advance [OF assms(2)])
  have same: "c2' = c2" using t(1,2) adv r by simp
  note rf = recovery_command_frame [OF r] recovery_without_aid [OF r]
  have f: "safe c1 = safe c" "missing_fast c1 = 0" "last_time_q16 c1 = gf_mission_time_q16 cell"
      "powered c1 = (gf_vehicle_status cell AND 2 \<noteq> 0)" "seen_powered c1 = (seen_powered c \<or> powered c1)"
      "nav_frame (navigation c1) = nav_frame (navigation c)" "config c1 = config c" "drogue_latched c1 = drogue_latched c"
      "armed c1 = (armed c \<or> seen_powered c1 \<and> \<not> powered c1 \<and> minimum_arming_time_q16 (config c) \<le> gf_mission_time_q16 cell)"
    by (simp_all add: c1_def receive_fast_def receive_aid_def update_mode_and_recovery_def navigation_inertial_def Let_def)
  show "epoch c' = epoch c + 1" by (rule t(3))
  show "safe c' = safe c" "missing_fast c' = 0" "last_time_q16 c' = gf_mission_time_q16 cell"
    "powered c' = (gf_vehicle_status cell AND 2 \<noteq> 0)" "seen_powered c' = (seen_powered c \<or> powered c')"
    "nav_frame (navigation c') = nav_frame (navigation c)" "config c' = config c" "drogue_latched c' = drogue_latched c"
    "armed c' = (armed c \<or> seen_powered c' \<and> \<not> powered c' \<and> minimum_arming_time_q16 (config c) \<le> gf_mission_time_q16 cell)"
    using t(4-12) f rf unfolding same by simp_all
qed

definition sample_computer :: GlobalFlightComputer where
  "sample_computer = the (new_flight_computer ksa_g10r_reference_flight_config)"

lemma reference_config_valid: "config_is_valid ksa_g10r_reference_flight_config"
  by (simp add: config_is_valid_def ksa_g10r_reference_flight_config_def all3_def word_sle_eq word_sless_alt)

lemma sample_computer_new: "new_flight_computer ksa_g10r_reference_flight_config = Some sample_computer"
  by (simp add: sample_computer_def new_flight_computer_def reference_config_valid Let_def)

lemma new_flight_computer_fields:
  assumes "new_flight_computer cfg = Some c"
  shows "epoch c = 0" "safe c = False" "missing_fast c = 0" "seen_powered c = False" "armed c = False" "drogue_latched c = False"
    "nav_frame (navigation c) = initial_frame cfg" "config c = cfg"
  using assms by (auto simp: new_flight_computer_def new_navigation_def Let_def split: if_splits)

lemma sample_computer_frame: "nav_frame (navigation sample_computer) = LocalEnuV1"
  by (simp add: new_flight_computer_fields [OF sample_computer_new] ksa_g10r_reference_flight_config_def)

lemmas sample_computer_fields =
  new_flight_computer_fields(1-6,8) [OF sample_computer_new] sample_computer_frame

definition burn_cell :: GlobalFastSensorCell where
  "burn_cell = sample_fast\<lparr>gf_measurement_epoch := 0, gf_production_epoch := 0, gf_mission_time_q16 := 0, gf_vehicle_status := 2\<rparr>"

definition late_ops :: "flight_op list" where
  "late_ops = [Tick (Some burn_cell) None None, Tick (Some sample_fast) None None]"

definition late_computer :: GlobalFlightComputer where
  "late_computer = snd (flight_run sample_computer late_ops)"

lemma late_computer_run: "\<exists>es. flight_run sample_computer late_ops = (es, late_computer)"
  by (simp add: late_computer_def) (metis prod.collapse)

lemma late_computer_fields:
  "epoch late_computer = 2" "\<not> safe late_computer" "missing_fast late_computer = 0" "armed late_computer"
  "\<not> drogue_latched late_computer" "last_time_q16 late_computer = 39321600"
  "nav_frame (navigation late_computer) = LocalEnuV1" "config late_computer = ksa_g10r_reference_flight_config"
proof -
  obtain e1 c1 where t1: "tick sample_computer (Some burn_cell) None None = (e1, c1)" by fastforce
  obtain e2 c2 where t2: "tick c1 (Some sample_fast) None None = (e2, c2)" by fastforce
  have l: "late_computer = c2" by (simp add: late_computer_def late_ops_def t1 t2)
  have "fast_is_valid sample_computer burn_cell"
    by (simp add: fast_is_valid_def sample_computer_fields burn_cell_def sample_fast_def ksa_g10r_reference_flight_config_def
        GLOBAL_FAST_DELTA_V_def GLOBAL_FAST_DELTA_ANGLE_def GLOBAL_FAST_ATTITUDE_def)
  note f1 = plain_tick [OF this t1, unfolded sample_computer_fields]
  have "fast_is_valid c1 sample_fast"
    by (simp add: fast_is_valid_def f1 sample_fast_def ksa_g10r_reference_flight_config_def
        GLOBAL_FAST_DELTA_V_def GLOBAL_FAST_DELTA_ANGLE_def GLOBAL_FAST_ATTITUDE_def)
  note f2 = plain_tick [OF this t2, unfolded f1]
  show "epoch late_computer = 2" "\<not> safe late_computer" "missing_fast late_computer = 0" "armed late_computer"
    "\<not> drogue_latched late_computer" "last_time_q16 late_computer = 39321600"
    "nav_frame (navigation late_computer) = LocalEnuV1" "config late_computer = ksa_g10r_reference_flight_config"
    unfolding l by (simp_all add: f2 f1 burn_cell_def sample_fast_def ksa_g10r_reference_flight_config_def)
qed

definition continuity_aid :: GlobalAidFrameCell where
  "continuity_aid = \<lparr>ga_session = 0x10a0, ga_measurement_epoch = 2, ga_production_epoch = 2, ga_frame = LocalEnuV1,
     ga_validity = 16, ga_mission_time_q16 = 39321600, barometer_q12_km = 0, gnss_position_q12_km = (0, 0, 0),
     gnss_velocity_q24_km_s = (0, 0, 0), ga_attitude_q30 = (Q30_ONE, 0, 0, 0), frame_rotation_q30 = (Q30_ONE, 0, 0, 0),
     frame_omega_q24 = (0, 0, 0), ga_events = 0, continuity = 1, deployment_feedback = 0\<rparr>"

subsection \<open>The safe state is absorbing\<close>

text \<open>
  C1: the safe state is a latch.  In any sequence of ticks, operational updates, safe
  requests and deadline misses, once the evidence of one epoch reports the safe state every later epoch
  reports it too, and its command is inert: no torque, no gimbal deflection, no RCS pulse
  and only the safe discrete.
\<close>
theorem flight_safe_latched:
  assumes "flight_run c ops = (es, c')" "i \<le> j" "j < length es" "ev_safe (es ! i)"
  shows "ev_safe (es ! j) \<and> inert (ev_command (es ! j))"
  by (rule flight_run_latched [OF assms])

lemma lost_ticks:
  assumes "flight_inv c" "missing_fast c = 0" "\<not> safe c"
    "flight_run c [Tick None a1 None, Tick None a2 None, Tick None a3 None] = (es, c')"
  obtains e1 e2 e3 where "es = [e1, e2, e3]" "repeats (last_command c) (ev_command e1)" "\<not> ev_safe e1"
    "repeats (last_command c) (ev_command e2)" "\<not> ev_safe e2" "ev_safe e3" "inert (ev_command e3)"
proof -
  obtain e1 c1 where t1: "tick c None a1 None = (e1, c1)" by fastforce
  obtain e2 c2 where t2: "tick c1 None a2 None = (e2, c2)" by fastforce
  obtain e3 c3 where t3: "tick c2 None a3 None = (e3, c3)" by fastforce
  have es: "es = [e1, e2, e3]" using assms(4) t1 t2 t3 by simp
  have m0: "missing_fast c = 0 \<or> missing_fast c = 1" using assms(2) by simp
  note h1 = held_tick [OF t1 assms(1,3) m0]
  have m1: "missing_fast c1 = 0 \<or> missing_fast c1 = 1" using h1(2) assms(2) by simp
  note h2 = held_tick [OF t2 tick_inv(1) [OF t1 assms(1)] h1(1) m1]
  have m2: "missing_fast c2 = 2" using h1(2) h2(2) assms(2) by simp
  have "repeats (last_command c) (ev_command e2)" using h1(3,4) h2(3) by (simp add: repeats_def)
  then show thesis using that [OF es] h1(3,5) h2(5) third_lost_tick [OF t3 m2] by blast
qed

text \<open>
  C21: losing the sensors.  From any reachable, not yet safe state in which the sensor cell
  is fresh, an epoch without an acceptable sensor cell repeats the previous torque and gimbal
  command with the hold flag and no discrete, a second one does the same, and the third
  one enters the safe state with an inert command, whatever aiding arrives, as long as no
  frame transition is offered in these three epochs.
\<close>
theorem flight_holds_then_safes:
  assumes "new_flight_computer cfg = Some c0" "flight_run c0 ops = (es0, c)" "missing_fast c = 0" "\<not> safe c"
    "flight_run c [Tick None a1 None, Tick None a2 None, Tick None a3 None] = (es, c')"
  shows "\<exists>e1 e2 e3. es = [e1, e2, e3]
     \<and> repeats (last_command c) (ev_command e1) \<and> \<not> ev_safe e1
     \<and> repeats (last_command c) (ev_command e2) \<and> \<not> ev_safe e2
     \<and> ev_safe e3 \<and> inert (ev_command e3)"
proof -
  have "flight_inv c" using flight_run_inv [OF assms(2) flight_inv_new(1) [OF assms(1)]] by simp
  from lost_ticks [OF this assms(3-5)] show ?thesis by metis
qed

text \<open>A concrete loss of sensors, which ends in the safe state.\<close>

theorem flight_holds_then_safes_witness:
  "\<exists>e1 e2 e3 c'. flight_run sample_computer [Tick None None None, Tick None None None, Tick None None None] = ([e1, e2, e3], c')
     \<and> repeats (last_command sample_computer) (ev_command e1) \<and> \<not> ev_safe e2 \<and> ev_safe e3 \<and> inert (ev_command e3)"
proof -
  obtain es c' where r: "flight_run sample_computer [Tick None None None, Tick None None None, Tick None None None] = (es, c')"
    by fastforce
  have "flight_run sample_computer [] = ([], sample_computer)" by simp
  from flight_holds_then_safes [OF sample_computer_new this _ _ r] show ?thesis
    using r by (simp add: sample_computer_fields) metis
qed

theorem flight_safe_latched_witness:
  "\<exists>e1 e2 c'. flight_run sample_computer [RequestSafe, Tick None None None, Tick None None None] = ([e1, e2], c')
     \<and> inert (ev_command e2)"
proof -
  obtain e1 c1 where t1: "tick (operational_request_safe sample_computer) None None None = (e1, c1)" by fastforce
  obtain e2 c2 where t2: "tick c1 None None None = (e2, c2)" by fastforce
  have r: "flight_run sample_computer [RequestSafe, Tick None None None, Tick None None None] = ([e1, e2], c2)"
    using t1 t2 by simp
  have "safe (operational_request_safe sample_computer)" by (simp add: operational_request_safe_def Let_def)
  then have "ev_safe e1" using tick_safe(1,3) [OF t1] by simp
  then show ?thesis using flight_safe_latched [OF r, of 0 1] r by simp
qed

subsection \<open>Parachutes\<close>

text \<open>
  C19: the parachutes.  Over any run of a fresh computer at most one epoch orders the drogue
  and at most one orders the main parachute, and the main parachute is only ordered after an
  earlier epoch has reported the drogue latched.
\<close>
theorem parachutes_once_in_order:
  assumes "new_flight_computer cfg = Some c0" "flight_run c0 ops = (es, c)"
  shows "length (filter orders_drogue es) \<le> 1 \<and> length (filter orders_main es) \<le> 1
    \<and> (\<forall>j < length es. orders_main (es ! j) \<longrightarrow> (\<exists>i < j. ev_drogue_latched (es ! i)))"
  using flight_run_latches [OF assms(2) flight_inv_new(1) [OF assms(1)]] flight_inv_new(3,4) [OF assms(1)] by simp_all

theorem parachutes_once_in_order_witness:
  "\<exists>es. flight_run sample_computer late_ops = (es, late_computer) \<and> length (filter orders_drogue es) \<le> 1
     \<and> length (filter orders_main es) \<le> 1"
  using late_computer_run parachutes_once_in_order [OF sample_computer_new] by metis

subsection \<open>Authority\<close>

lemma axis_block_length: "length (axis_block q n) = 4"
  by (simp add: axis_block_def)

lemma axis_block_bound: "q \<le> 8 \<Longrightarrow> x \<in> set (axis_block q n) \<Longrightarrow> x \<le> 8"
  by (auto simp: axis_block_def split: if_splits)

lemma within_authority_valid:
  assumes "within_authority cfg m"
  shows "length (rcs_pulse_quanta m) = 12" "command_valid m"
proof -
  obtain q0 q1 q2 n0 n1 n2 where r: "rcs_pulse_quanta m = axis_block q0 n0 @ axis_block q1 n1 @ axis_block q2 n2"
      "q0 \<le> 8" "q1 \<le> 8" "q2 \<le> 8"
    using assms unfolding within_authority_def by blast
  then show "length (rcs_pulse_quanta m) = 12" by (simp add: axis_block_length)
  have "gc_flags m AND NOT GLOBAL_COMMAND_FLAG_MASK = 0" "gc_discrete m AND NOT GLOBAL_COMMAND_DISCRETE_MASK = 0"
    using assms by (auto simp: within_authority_def GLOBAL_COMMAND_FLAG_MASK_def GLOBAL_COMMAND_DISCRETE_MASK_def)
  then show "command_valid m" using r by (auto simp: command_valid_def axis_block_bound dest: axis_block_bound)
qed

text \<open>
  C20: authority.  Every command of every run of a fresh computer keeps its torque demand and
  gimbal angles within the limits of the configuration, never pulses the RCS while the
  gimbal is deflected, fires each axis for at most eight quanta on one side only, and is a
  command the cell writer accepts and the cell parser returns unchanged.
\<close>
theorem flight_within_authority:
  assumes "new_flight_computer cfg = Some c0" "flight_run c0 ops = (es, c)" "e \<in> set es" "length out = 64"
  shows "within_authority cfg (ev_command e)
    \<and> (\<exists>bytes. write_global_command (ev_command e) out = (Inr (), bytes) \<and> parse_global_command bytes = Inr (ev_command e))"
proof -
  note i = flight_inv_new(1,2) [OF assms(1)]
  have "within_authority (config c0) (ev_command e)" using flight_run_inv [OF assms(2) i(1)] assms(3) by blast
  then have w: "within_authority cfg (ev_command e)" using within_authority_cong [OF i(2)] by simp
  show ?thesis using w command_cell.write_parse [OF assms(4) within_authority_valid [OF w]] by blast
qed

theorem flight_within_authority_witness:
  "\<exists>e c. flight_run sample_computer [Tick (Some burn_cell) None None] = ([e], c)
     \<and> within_authority ksa_g10r_reference_flight_config (ev_command e)"
proof -
  obtain e c where "tick sample_computer (Some burn_cell) None None = (e, c)" by fastforce
  then have r: "flight_run sample_computer [Tick (Some burn_cell) None None] = ([e], c)" by simp
  then show ?thesis
    using flight_within_authority [OF sample_computer_new r, of e "replicate 64 0"] by simp
qed

subsection \<open>A drogue order lost in a held epoch\<close>

text \<open>
  C36: the lost drogue.  In a reachable, armed state past the backup time, an aiding cell that
  carries continuity in an epoch without a sensor cell latches the drogue, but the command
  of that epoch is a repeated one whose discrete is zero, so the drogue is not ordered;
  and since the latch forbids a second order no later sequence of operations orders
  it either.
\<close>
theorem held_epoch_loses_drogue:
  assumes "new_flight_computer cfg = Some c0" "flight_run c0 ops = (es0, c)"
    "missing_fast c = 0" "\<not> safe c" "armed c" "\<not> drogue_latched c"
    "drogue_backup_time_q16 (config c) \<le> last_time_q16 c" "continuity_cell c cell"
    "flight_run c (Tick None (Some cell) None # later) = (es, c')"
  shows "ev_drogue_latched (hd es) \<and> \<not> ev_safe (hd es) \<and> (\<forall>e \<in> set es. \<not> orders_drogue e)"
proof -
  have inv: "flight_inv c" using flight_run_inv [OF assms(2) flight_inv_new(1) [OF assms(1)]] by simp
  obtain e1 c1 where t: "tick c None (Some cell) None = (e1, c1)" by fastforce
  obtain es1 c2 where r: "flight_run c1 later = (es1, c2)" by fastforce
  have es: "es = e1 # es1" using assms(9) t r by simp
  have m: "missing_fast c = 0 \<or> missing_fast c = 1" using assms(3) by simp
  note h = held_tick [OF t inv assms(4) m]
  have d: "drogue_latched c1" by (rule held_tick_latches_drogue [OF t inv assms(4) m assms(5-8)])
  have n: "\<not> orders_drogue e1" using h(3) by (simp add: repeats_def orders_drogue_def)
  have "length (filter orders_drogue es1) \<le> 0"
    using flight_run_latches [OF r tick_inv(1) [OF t inv]] d by simp
  then have "\<forall>e \<in> set es1. \<not> orders_drogue e" by (auto simp: filter_empty_conv)
  then show ?thesis using es n d h(5) tick_latch(6) [OF t] by simp
qed

lemma continuity_aid_late: "continuity_cell late_computer continuity_aid"
  by (simp add: continuity_cell_def aid_is_valid_def late_computer_fields continuity_aid_def
      ksa_g10r_reference_flight_config_def GLOBAL_AID_CONTINUITY_def GLOBAL_AID_VALID_MASK_def)

theorem held_epoch_loses_drogue_witness:
  "\<exists>es c'. flight_run late_computer [Tick None (Some continuity_aid) None, Tick (Some sample_fast) None None] = (es, c')
     \<and> ev_drogue_latched (hd es) \<and> (\<forall>e \<in> set es. \<not> orders_drogue e)"
proof -
  obtain es0 where r0: "flight_run sample_computer late_ops = (es0, late_computer)" using late_computer_run by blast
  obtain es c' where r: "flight_run late_computer [Tick None (Some continuity_aid) None, Tick (Some sample_fast) None None] = (es, c')"
    by fastforce
  have b: "drogue_backup_time_q16 (config late_computer) \<le> last_time_q16 late_computer"
    by (simp add: late_computer_fields ksa_g10r_reference_flight_config_def)
  show ?thesis
    using held_epoch_loses_drogue [OF sample_computer_new r0 late_computer_fields(3,2,4,5) b continuity_aid_late r] r by blast
qed

end
