(* ===== verification/Uplink_Manager.thy ===== *)
theory Uplink_Manager
  imports Global_Navigation
begin

text \<open>
  The atomic uplink manager of the flight package (\<^verbatim>\<open>flight/src/phase11.rs\<close>): a load is
  staged, committed by a separate request and released at its effective epoch. Each
  operation returns its receipt and the updated manager. The histories of a manager
  are an inductive relation; the two-phase discipline and single execution are proved
  over all of them.
\<close>

unbundle bit_operations_syntax

subsection \<open>State\<close>

record PendingUplink =
  pu_load :: UplinkCommandLoad
  pu_state :: UplinkState
  pu_effective_epoch :: u32

record AtomicUplinkManager =
  um_pending :: "PendingUplink option"
  last_executed_identity :: u32
  receipt_chain :: u32

definition new_uplink_manager :: AtomicUplinkManager where
  "new_uplink_manager = \<lparr>um_pending = None, last_executed_identity = 0, receipt_chain = 0x811c9dc5\<rparr>"

definition uplink_state :: "AtomicUplinkManager \<Rightarrow> UplinkState" where
  "uplink_state self = (case um_pending self of Some value \<Rightarrow> pu_state value | None \<Rightarrow> Empty)"

definition residual :: "i32 \<Rightarrow> i32 \<Rightarrow> 64 word" where
  "residual left right = word_of_int \<bar>sint left - sint right\<bar>"

definition hash_receipt :: "u32 \<Rightarrow> u32 \<Rightarrow> u32 \<Rightarrow> u32 \<Rightarrow> u8 \<Rightarrow> u8 \<Rightarrow> u32" where
  "hash_receipt hash load req_epoch eff_epoch st reason =
     foldl (\<lambda>hash value. foldl (\<lambda>hash byte. (hash XOR ucast byte) * 0x01000193) hash (to_le_bytes32 value)) hash
       [load, req_epoch, eff_epoch, ucast st, ucast reason]"

definition receipt :: "AtomicUplinkManager \<Rightarrow> UplinkControlKind \<Rightarrow> UplinkCommandLoad \<Rightarrow> u32 \<Rightarrow> u32 \<Rightarrow> UplinkState
    \<Rightarrow> UplinkReasonCode \<Rightarrow> UplinkControlRecord \<times> AtomicUplinkManager" where
  "receipt self kind load req_epoch eff_epoch st reason =
     (let ident = load_identity load XOR word_rotl 11 req_epoch XOR ucast (control_kind_tag kind);
          self = self\<lparr>receipt_chain := hash_receipt (receipt_chain self) (load_identity load) req_epoch eff_epoch
                   (uplink_state_tag st) (reason_tag reason)\<rparr>
      in (\<lparr>uc_kind = kind, control_identity = max ident 1, uc_load_identity = load_identity load,
           uc_package_manifest_identity = ul_package_manifest_identity load,
           uc_plan_identity = ul_plan_identity load, request_epoch = req_epoch, uc_effective_epoch = eff_epoch,
           uc_state = st, uc_reason = reason, receipt_checksum = receipt_chain self\<rparr>, self))"

subsection \<open>Operations\<close>

definition axis_residual_exceeded :: "UplinkCommandLoad \<Rightarrow> GlobalNavigation \<Rightarrow> nat \<Rightarrow> bool" where
  "axis_residual_exceeded load navigation axis \<longleftrightarrow>
     scast (position_residual_limit_q12 load) < residual (ul_arguments load ! axis) (at3 (nav_position_q12 navigation) axis)
     \<or> scast (velocity_residual_limit_q24 load)
        < residual (ul_arguments load ! (axis + 3)) (at3 (nav_velocity_q24 navigation) axis)"

definition validate_stage :: "UplinkCommandLoad \<Rightarrow> u32 \<Rightarrow> u32 \<Rightarrow> GlobalNavigation \<Rightarrow> FlightSoftwarePackageManifest
    \<Rightarrow> MissionPlan \<Rightarrow> UplinkReasonCode" where
  "validate_stage load current_epoch completed_event_mask navigation manifest plan =
     (if ul_package_manifest_identity load \<noteq> manifest_identity manifest
         \<or> ul_plan_identity load \<noteq> plan_identity plan \<or> ul_abi load \<noteq> fm_abi manifest then Identity
      else if ul_frame load \<noteq> nav_frame navigation then Frame
      else if stage_epoch load \<noteq> current_epoch \<or> expires_epoch load < current_epoch then Stale
      else if requested_effective_epoch load < saturating_add current_epoch 2
         \<or> requested_effective_epoch load < not_before_epoch load
         \<or> expires_epoch load < requested_effective_epoch load then Late
      else if command_load_support manifest AND load_support_bit (load_type load) = 0 then Unsupported
      else if capabilities manifest AND ul_required_capabilities load \<noteq> ul_required_capabilities load
         \<or> mp_required_capabilities plan AND load_capability (load_type load) = 0 then Capability
      else if completed_event_mask AND prerequisite_event_mask load \<noteq> prerequisite_event_mask load then Prerequisite
      else if load_type load = GroundNavigationUpdate
         \<and> (\<exists>axis \<in> set [0, 1, 2]. axis_residual_exceeded load navigation axis) then Residual
      else Accepted)"

definition uplink_stage :: "AtomicUplinkManager \<Rightarrow> UplinkCommandLoad \<Rightarrow> u32 \<Rightarrow> u32 \<Rightarrow> GlobalNavigation
    \<Rightarrow> FlightSoftwarePackageManifest \<Rightarrow> MissionPlan \<Rightarrow> UplinkControlRecord \<times> AtomicUplinkManager" where
  "uplink_stage self load current_epoch completed_event_mask navigation manifest plan =
     (if last_executed_identity self = load_identity load
      then receipt self StageReceipt load current_epoch current_epoch Executed AlreadyApplied
      else case um_pending self of
        Some pending \<Rightarrow>
          if pu_load pending = load
          then receipt self StageReceipt load current_epoch (pu_effective_epoch pending) (pu_state pending) Accepted
          else receipt self StageReceipt load current_epoch current_epoch Rejected Occupied
      | None \<Rightarrow>
          let reason = validate_stage load current_epoch completed_event_mask navigation manifest plan
          in if reason \<noteq> Accepted
             then receipt self StageReceipt load current_epoch current_epoch Rejected reason
             else
             let self = self\<lparr>um_pending := Some \<lparr>pu_load = load, pu_state = Staged,
                          pu_effective_epoch = requested_effective_epoch load\<rparr>\<rparr>
             in receipt self StageReceipt load current_epoch (requested_effective_epoch load) Staged Accepted)"

definition uplink_commit :: "AtomicUplinkManager \<Rightarrow> UplinkControlRecord \<Rightarrow> u32
    \<Rightarrow> UplinkControlRecord \<times> AtomicUplinkManager" where
  "uplink_commit self request current_epoch =
     (case um_pending self of
        None \<Rightarrow> (request, self)
      | Some pending \<Rightarrow>
          if uc_kind request \<noteq> CommitRequest
             \<or> uc_load_identity request \<noteq> load_identity (pu_load pending)
             \<or> uc_package_manifest_identity request \<noteq> ul_package_manifest_identity (pu_load pending)
             \<or> uc_plan_identity request \<noteq> ul_plan_identity (pu_load pending)
          then receipt self CommitReceipt (pu_load pending) current_epoch (uc_effective_epoch request) Rejected Identity
          else if pu_state pending = Committed
          then receipt self CommitReceipt (pu_load pending) current_epoch (pu_effective_epoch pending) Committed Accepted
          else if uc_effective_epoch request \<noteq> requested_effective_epoch (pu_load pending)
             \<or> uc_effective_epoch request < saturating_add current_epoch 2
             \<or> uc_effective_epoch request < not_before_epoch (pu_load pending)
             \<or> expires_epoch (pu_load pending) < uc_effective_epoch request
          then receipt self CommitReceipt (pu_load pending) current_epoch (uc_effective_epoch request) Rejected Late
          else
          let pending = pending\<lparr>pu_state := Committed, pu_effective_epoch := uc_effective_epoch request\<rparr>;
              self = self\<lparr>um_pending := Some pending\<rparr>
          in receipt self CommitReceipt (pu_load pending) current_epoch (pu_effective_epoch pending) Committed Accepted)"

definition uplink_cancel :: "AtomicUplinkManager \<Rightarrow> UplinkControlRecord \<Rightarrow> u32
    \<Rightarrow> UplinkControlRecord \<times> AtomicUplinkManager" where
  "uplink_cancel self request current_epoch =
     (case um_pending self of
        None \<Rightarrow> (request, self)
      | Some pending \<Rightarrow>
          if uc_kind request \<noteq> Cancellation
             \<or> uc_load_identity request \<noteq> load_identity (pu_load pending)
             \<or> uc_package_manifest_identity request \<noteq> ul_package_manifest_identity (pu_load pending)
             \<or> uc_plan_identity request \<noteq> ul_plan_identity (pu_load pending)
          then receipt self Cancellation (pu_load pending) current_epoch current_epoch Rejected Identity
          else
          let self = self\<lparr>um_pending := None\<rparr>
          in receipt self Cancellation (pu_load pending) current_epoch current_epoch Cancelled Accepted)"

definition uplink_release :: "AtomicUplinkManager \<Rightarrow> u32
    \<Rightarrow> (UplinkCommandLoad \<times> UplinkControlRecord) option \<times> AtomicUplinkManager" where
  "uplink_release self epoch =
     (case um_pending self of
        None \<Rightarrow> (None, self)
      | Some pending \<Rightarrow>
          if expires_epoch (pu_load pending) < epoch then (None, self\<lparr>um_pending := None\<rparr>)
          else if pu_state pending \<noteq> Committed \<or> epoch \<noteq> pu_effective_epoch pending then (None, self)
          else
          let self = self\<lparr>um_pending := None, last_executed_identity := load_identity (pu_load pending)\<rparr>;
              (r, self) = receipt self ExecutionAcknowledgement (pu_load pending) epoch epoch Executed Accepted
          in (Some (pu_load pending, r), self))"

subsection \<open>Histories\<close>

datatype uplink_op =
    Stage UplinkCommandLoad u32 GlobalNavigation FlightSoftwarePackageManifest MissionPlan
  | Commit UplinkControlRecord
  | Cancel UplinkControlRecord
  | Release

text \<open>The load an operation executes, and the manager after it.\<close>

fun uplink_step :: "AtomicUplinkManager \<Rightarrow> uplink_op \<Rightarrow> u32 \<Rightarrow> UplinkCommandLoad option \<times> AtomicUplinkManager" where
  "uplink_step m (Stage load evm navigation manifest plan) e =
     (None, snd (uplink_stage m load e evm navigation manifest plan))"
| "uplink_step m (Commit request) e = (None, snd (uplink_commit m request e))"
| "uplink_step m (Cancel request) e = (None, snd (uplink_cancel m request e))"
| "uplink_step m Release e = (map_option fst (fst (uplink_release m e)), snd (uplink_release m e))"

text \<open>
  A history lists the operations with their epochs and the load each executed, latest
  first; epochs never decrease.
\<close>

inductive uplink_history :: "(uplink_op \<times> u32 \<times> UplinkCommandLoad option) list \<Rightarrow> AtomicUplinkManager \<Rightarrow> bool" where
  start: "uplink_history [] new_uplink_manager"
| step: "uplink_history h m \<Longrightarrow> \<forall>(_, e', _) \<in> set h. e' \<le> e \<Longrightarrow> uplink_step m opn e = (x, m') \<Longrightarrow>
    uplink_history ((opn, e, x) # h) m'"

inductive_cases uplink_history_ConsE: "uplink_history (a # h) m"

definition staged_in :: "UplinkCommandLoad \<Rightarrow> (uplink_op \<times> u32 \<times> UplinkCommandLoad option) list \<Rightarrow> bool" where
  "staged_in load h \<longleftrightarrow> (\<exists>s evm navigation manifest plan x. (Stage load evm navigation manifest plan, s, x) \<in> set h
     \<and> validate_stage load s evm navigation manifest plan = Accepted)"

definition committed_in :: "UplinkCommandLoad \<Rightarrow> (uplink_op \<times> u32 \<times> UplinkCommandLoad option) list \<Rightarrow> bool" where
  "committed_in load h \<longleftrightarrow> (\<exists>request c x h1 h2. h = h1 @ (Commit request, c, x) # h2 \<and> staged_in load h2
     \<and> uc_kind request = CommitRequest \<and> uc_load_identity request = load_identity load
     \<and> saturating_add c 2 \<le> requested_effective_epoch load)"

lemma staged_inI:
  "(Stage load evm navigation manifest plan, s, x) \<in> set h \<Longrightarrow>
     validate_stage load s evm navigation manifest plan = Accepted \<Longrightarrow> staged_in load h"
  unfolding staged_in_def by blast

lemma staged_in_mono: "staged_in load h \<Longrightarrow> staged_in load (a # h)"
  unfolding staged_in_def by (meson list.set_intros(2))

lemma committed_inI:
  "staged_in load h \<Longrightarrow> uc_kind request = CommitRequest \<Longrightarrow> uc_load_identity request = load_identity load \<Longrightarrow>
     saturating_add c 2 \<le> requested_effective_epoch load \<Longrightarrow> committed_in load ((Commit request, c, x) # h)"
  unfolding committed_in_def
  by (rule exI [of _ request], rule exI [of _ c], rule exI [of _ x], rule exI [of _ "[]"], rule exI [of _ h]) simp

lemma committed_in_mono:
  assumes "committed_in load h"
  shows "committed_in load (a # h)"
proof -
  obtain request c x h1 h2 where d: "h = h1 @ (Commit request, c, x) # h2" "staged_in load h2"
    "uc_kind request = CommitRequest" "uc_load_identity request = load_identity load"
    "saturating_add c 2 \<le> requested_effective_epoch load"
    using assms unfolding committed_in_def by blast
  then have "a # h = (a # h1) @ (Commit request, c, x) # h2" by simp
  with d show ?thesis unfolding committed_in_def by blast
qed

lemma snd_receipt [simp]:
  "um_pending (snd (receipt m k l q f s r)) = um_pending m"
  "last_executed_identity (snd (receipt m k l q f s r)) = last_executed_identity m"
  by (simp_all add: receipt_def Let_def)

definition pending_ok :: "(uplink_op \<times> u32 \<times> UplinkCommandLoad option) list \<Rightarrow> PendingUplink \<Rightarrow> bool" where
  "pending_ok h p \<longleftrightarrow> staged_in (pu_load p) h \<and> pu_effective_epoch p = requested_effective_epoch (pu_load p)
     \<and> (pu_state p = Staged \<or> pu_state p = Committed \<and> committed_in (pu_load p) h)"

lemma validate_stage_Accepted:
  assumes "validate_stage load e evm navigation manifest plan = Accepted"
  shows "stage_epoch load = e" "saturating_add e 2 \<le> requested_effective_epoch load"
    "not_before_epoch load \<le> requested_effective_epoch load" "requested_effective_epoch load \<le> expires_epoch load"
    "ul_package_manifest_identity load = manifest_identity manifest" "ul_plan_identity load = plan_identity plan"
    "ul_frame load = nav_frame navigation" "evm AND prerequisite_event_mask load = prerequisite_event_mask load"
  using assms by (auto simp: validate_stage_def split: if_splits)

lemma stage_pending:
  assumes "um_pending (snd (uplink_stage m load e evm navigation manifest plan)) = Some p"
  shows "um_pending m = Some p \<or> um_pending m = None \<and> validate_stage load e evm navigation manifest plan = Accepted
    \<and> p = \<lparr>pu_load = load, pu_state = Staged, pu_effective_epoch = requested_effective_epoch load\<rparr>"
  using assms by (auto simp: uplink_stage_def Let_def split: if_splits option.splits)

lemma commit_pending:
  assumes "um_pending (snd (uplink_commit m request e)) = Some p"
  shows "um_pending m = Some p \<or> (\<exists>q. um_pending m = Some q \<and> uc_kind request = CommitRequest
    \<and> uc_load_identity request = load_identity (pu_load q) \<and> saturating_add e 2 \<le> requested_effective_epoch (pu_load q)
    \<and> p = q\<lparr>pu_state := Committed, pu_effective_epoch := requested_effective_epoch (pu_load q)\<rparr>)"
  using assms by (auto simp: uplink_commit_def Let_def split: if_splits option.splits)

lemma cancel_pending: "um_pending (snd (uplink_cancel m request e)) = Some p \<Longrightarrow> um_pending m = Some p"
  by (auto simp: uplink_cancel_def Let_def split: if_splits option.splits)

lemma release_pending: "um_pending (snd (uplink_release m e)) = Some p \<Longrightarrow> um_pending m = Some p"
  by (auto simp: uplink_release_def receipt_def Let_def split: if_splits option.splits)

lemma release_executes:
  assumes "uplink_release m e = (Some (load, ack), m')"
  shows "\<exists>p. um_pending m = Some p \<and> pu_load p = load \<and> pu_state p = Committed \<and> pu_effective_epoch p = e
    \<and> e \<le> expires_epoch load \<and> um_pending m' = None \<and> last_executed_identity m' = load_identity load
    \<and> uc_state ack = Executed \<and> uc_load_identity ack = load_identity load \<and> uc_effective_epoch ack = e"
  using assms
  by (auto simp: uplink_release_def receipt_def Let_def split: if_splits option.splits)

lemma uplink_history_pending:
  "uplink_history h m \<Longrightarrow> um_pending m = Some p \<Longrightarrow> pending_ok h p"
proof (induction arbitrary: p rule: uplink_history.induct)
  case start
  then show ?case by (simp add: new_uplink_manager_def)
next
  case (step h m e opn x m')
  have keep: "pending_ok ((opn, e, x) # h) q" if "um_pending m = Some q" for q
    using step.IH [OF that] by (auto simp: pending_ok_def intro: staged_in_mono committed_in_mono)
  show ?case
  proof (cases opn)
    case (Stage load evm navigation manifest plan)
    then show ?thesis
      using stage_pending [of m load e evm navigation manifest plan p] step.hyps(3) step.prems keep
        staged_inI [of load evm navigation manifest plan e x "(opn, e, x) # h"]
      by (auto simp: pending_ok_def)
  next
    case (Commit request)
    then consider "um_pending m = Some p" | q where "um_pending m = Some q" "uc_kind request = CommitRequest"
        "uc_load_identity request = load_identity (pu_load q)"
        "saturating_add e 2 \<le> requested_effective_epoch (pu_load q)"
        "p = q\<lparr>pu_state := Committed, pu_effective_epoch := requested_effective_epoch (pu_load q)\<rparr>"
      using commit_pending [of m request e p] step.hyps(3) step.prems by auto
    then show ?thesis
    proof cases
      case 2
      then have "staged_in (pu_load q) h" using step.IH by (simp add: pending_ok_def)
      then have "committed_in (pu_load q) ((opn, e, x) # h)"
        unfolding Commit using 2(2-4) by (rule committed_inI)
      then show ?thesis using 2 keep [OF 2(1)] by (simp add: pending_ok_def)
    qed (rule keep)
  next
    case (Cancel request)
    then have "m' = snd (uplink_cancel m request e)" using step.hyps(3) by simp
    then show ?thesis using cancel_pending [of m request e p] step.prems keep by simp
  next
    case Release
    then have "m' = snd (uplink_release m e)" using step.hyps(3) by simp
    then show ?thesis using release_pending [of m e p] step.prems keep by simp
  qed
qed

definition executed :: "(uplink_op \<times> u32 \<times> UplinkCommandLoad option) list \<Rightarrow> UplinkCommandLoad list" where
  "executed h = List.map_filter (\<lambda>(_, _, x). x) h"

lemma executed_Cons [simp]: "executed ((opn, e, x) # h) = (case x of None \<Rightarrow> executed h | Some load \<Rightarrow> load # executed h)"
  by (simp add: executed_def List.map_filter_def split: option.splits)

lemma step_executes:
  assumes "uplink_step m opn e = (Some load, m')"
  shows "opn = Release \<and> (\<exists>p. um_pending m = Some p \<and> pu_load p = load \<and> pu_state p = Committed
    \<and> pu_effective_epoch p = e \<and> um_pending m' = None)"
proof (cases opn)
  case Release
  then obtain ack where "uplink_release m e = (Some (load, ack), m')"
    using assms by (cases "uplink_release m e") auto
  then show ?thesis using release_executes Release by blast
qed (use assms in auto)

lemma staged_epoch:
  assumes "staged_in load h" "\<forall>(_, e, _) \<in> set h. e < - 1"
  shows "stage_epoch load < requested_effective_epoch load" "\<exists>opn x. (opn, stage_epoch load, x) \<in> set h"
proof -
  obtain s evm navigation manifest plan x where st: "(Stage load evm navigation manifest plan, s, x) \<in> set h"
      "validate_stage load s evm navigation manifest plan = Accepted"
    using assms(1) unfolding staged_in_def by blast
  note v = validate_stage_Accepted [OF st(2)]
  have "s < - 1" using assms(2) st(1) by auto
  then have "unat s < 2 ^ 32 - 1" by (simp add: word_less_nat_alt unsigned_minus_1_eq_mask mask_eq_exp_minus_1)
  then have "s < saturating_add s 2" by (simp add: word_less_nat_alt unat_saturating_add)
  then show "stage_epoch load < requested_effective_epoch load" using v(1,2) by simp
  show "\<exists>opn x. (opn, stage_epoch load, x) \<in> set h" using st(1) v(1) by blast
qed

lemma uplink_history_executed:
  assumes "uplink_history h m" "\<forall>(_, e, _) \<in> set h. e < - 1"
  shows "distinct (executed h)
    \<and> (\<forall>load \<in> set (executed h). \<exists>opn e. (opn, e, Some load) \<in> set h \<and> stage_epoch load < e)
    \<and> (\<forall>p. um_pending m = Some p \<longrightarrow> pu_load p \<notin> set (executed h))"
  using assms
proof (induction rule: uplink_history.induct)
  case start
  then show ?case by (simp add: executed_def List.map_filter_def new_uplink_manager_def)
next
  case (step h m e opn x m')
  have IH: "distinct (executed h)"
      "\<And>load. load \<in> set (executed h) \<Longrightarrow> \<exists>opn e. (opn, e, Some load) \<in> set h \<and> stage_epoch load < e"
      "\<And>p. um_pending m = Some p \<Longrightarrow> pu_load p \<notin> set (executed h)"
    using step.IH step.prems by auto
  have fresh: "load \<notin> set (executed h)" if "stage_epoch load = e" for load
  proof
    assume "load \<in> set (executed h)"
    then obtain e' where "e' \<le> e" "stage_epoch load < e'" using IH(2) step.hyps(2) by fastforce
    then show False using that by simp
  qed
  show ?case
  proof (cases x)
    case None
    have "pu_load p \<notin> set (executed h)" if p: "um_pending m' = Some p" for p
    proof (cases opn)
      case (Stage load evm navigation manifest plan)
      then show ?thesis
        using stage_pending [of m load e evm navigation manifest plan p] step.hyps(3) p IH(3)
          validate_stage_Accepted(1) [of load e] fresh by auto
    next
      case (Commit request)
      then show ?thesis using commit_pending [of m request e p] step.hyps(3) p IH(3) by auto
    next
      case (Cancel request)
      then show ?thesis using cancel_pending [of m request e p] step.hyps(3) p IH(3) by auto
    next
      case Release
      then show ?thesis using release_pending [of m e p] step.hyps(3) p IH(3) by auto
    qed
    then show ?thesis using None IH(1,2) by simp
  next
    case (Some load)
    then obtain p where p: "um_pending m = Some p" "pu_load p = load" "pu_effective_epoch p = e" "um_pending m' = None"
      using step_executes [of m opn e load m'] step.hyps(3) by auto
    have "pending_ok h p" using uplink_history_pending [OF step.hyps(1) p(1)] .
    then have "stage_epoch load < e"
      using staged_epoch(1) [of load h] step.prems p by (auto simp: pending_ok_def)
    then have "\<exists>opn' e'. (opn', e', Some l) \<in> set ((opn, e, x) # h) \<and> stage_epoch l < e'"
      if l: "l = load \<or> l \<in> set (executed h)" for l
    proof (cases "l = load")
      case True
      then show ?thesis using Some \<open>stage_epoch load < e\<close> by auto
    next
      case False
      then show ?thesis using l IH(2) [of l] by auto
    qed
    then show ?thesis using Some IH(1) IH(3) [OF p(1)] p by simp
  qed
qed

subsection \<open>The contract of the uplink manager\<close>

lemma release_two_phase:
  assumes "uplink_history h m" "uplink_release m e = (Some (load, ack), m')"
  shows "committed_in load h \<and> e = requested_effective_epoch load \<and> not_before_epoch load \<le> e \<and> e \<le> expires_epoch load
    \<and> uc_state ack = Executed \<and> uplink_state m' = Empty"
proof -
  obtain p where p: "um_pending m = Some p" "pu_load p = load" "pu_state p = Committed" "pu_effective_epoch p = e"
      "um_pending m' = None" "uc_state ack = Executed"
    using release_executes [OF assms(2)] by blast
  have ok: "pending_ok h p" by (rule uplink_history_pending [OF assms(1) p(1)])
  then obtain s evm navigation manifest plan where "validate_stage load s evm navigation manifest plan = Accepted"
    using p(2) unfolding pending_ok_def staged_in_def by blast
  note v = validate_stage_Accepted [OF this]
  show ?thesis using ok p v by (auto simp: pending_ok_def uplink_state_def)
qed

text \<open>
  C3: no load is executed without its two phases. Over every history of operations, a
  load that is released was staged with every check accepted, was committed by a later
  separate request naming it, and is released at exactly the epoch it requested: at
  least two epochs after its commit, and inside its validity window.
\<close>
theorem uplink_two_phase:
  assumes "uplink_history h m" "uplink_release m e = (Some (load, ack), m')"
  shows "committed_in load h \<and> e = requested_effective_epoch load \<and> not_before_epoch load \<le> e \<and> e \<le> expires_epoch load
    \<and> uc_state ack = Executed \<and> uplink_state m' = Empty"
  by (rule release_two_phase [OF assms])

definition sample_manifest :: FlightSoftwarePackageManifest where
  "sample_manifest = \<lparr>manifest_identity = 0x11f5a001, fm_package = KsaG10rReferenceOpsV1,
     implementation_identity = 0x11f51001, fm_abi = GlobalKlr10V1, fm_vehicle_profile_identity = 5,
     mission_compatibility_identity = 0x10a00001, capabilities = 255, segment_support = 31,
     command_load_support = 31, targets = 7, safe_state = ReferenceGlobalSafeV1,
     command_loss = FrozenKlr10HoldThenSafe,
     resource = \<lparr>persistent_bytes = 4096, transient_bytes = 4096, stack_bytes = 512, journal_records = 32,
       maximum_object_bytes = 4096\<rparr>,
     fm_fast_hz = 32, fm_navigation_hz = 8, fm_guidance_hz = 1, maximum_plan_events = 24,
     maximum_branches = 8, maximum_decisions = 8, code_identity = 7, configuration_identity = 9,
     resource_evidence_sha256 = replicate 32 0x11\<rparr>"

definition sample_plan :: MissionPlan where
  "sample_plan = \<lparr>plan_identity = 0x11a00001, package_manifest_identity = 0x11f5a001,
     mp_package = KsaG10rReferenceOpsV1, mp_abi = GlobalKlr10V1, mp_vehicle_profile_identity = 5,
     mission_identity = 0x10a00001, earth_identity = 0x10e00001, environment_identity = 0x10a70001,
     onboard_prediction_model = 0x11d00001, ground_prediction_model = 0x11d00002,
     mp_required_capabilities = 255, event_count = 0, branch_count = 0, decision_count = 0,
     plan_events = replicate 24 EMPTY_EVENT, branches = replicate 8 EMPTY_BRANCH,
     decisions = replicate 8 EMPTY_DECISION\<rparr>"

definition sample_load :: UplinkCommandLoad where
  "sample_load = \<lparr>load_identity = 0x11c00001, ul_package_manifest_identity = 0x11f5a001,
     ul_plan_identity = 0x11a00001, ul_abi = GlobalKlr10V1, source_estimator_identity = 1,
     source_estimator_checksum = 2, stage_epoch = 100, not_before_epoch = 102, expires_epoch = 120,
     requested_effective_epoch = 104, ul_required_capabilities = 2, prerequisite_event_mask = 0,
     position_residual_limit_q12 = 4096, velocity_residual_limit_q24 = 16777, ul_frame = LocalEnuV1,
     load_type = GroundNavigationUpdate, ul_arguments = replicate 16 0\<rparr>"

definition sample_navigation :: GlobalNavigation where
  "sample_navigation = \<lparr>nav_frame = LocalEnuV1, nav_position_q12 = (1, 2, - 3), nav_velocity_q24 = (0, 0, 0),
     attitude_q30 = (0, 0, 0, 0), covariance_proxy_q16 = (0, 0, 0), nav_checksum = 0\<rparr>"

definition sample_request :: UplinkControlRecord where
  "sample_request = \<lparr>uc_kind = CommitRequest, control_identity = 5, uc_load_identity = 0x11c00001,
     uc_package_manifest_identity = 0x11f5a001, uc_plan_identity = 0x11a00001, request_epoch = 101,
     uc_effective_epoch = 104, uc_state = Staged, uc_reason = Accepted, receipt_checksum = 0\<rparr>"

definition staged_manager :: AtomicUplinkManager where
  "staged_manager = snd (uplink_stage new_uplink_manager sample_load 100 0 sample_navigation sample_manifest sample_plan)"

definition committed_manager :: AtomicUplinkManager where
  "committed_manager = snd (uplink_commit staged_manager sample_request 101)"

definition sample_history :: "(uplink_op \<times> u32 \<times> UplinkCommandLoad option) list" where
  "sample_history = [(Commit sample_request, 101, None),
     (Stage sample_load 0 sample_navigation sample_manifest sample_plan, 100, None)]"

lemma sample_stage: "validate_stage sample_load 100 0 sample_navigation sample_manifest sample_plan = Accepted"
  by (simp add: validate_stage_def sample_load_def sample_navigation_def sample_manifest_def sample_plan_def
      saturating_add_def package_masks axis_residual_exceeded_def residual_def)

lemma staged_manager_pending: "um_pending staged_manager =
    Some \<lparr>pu_load = sample_load, pu_state = Staged, pu_effective_epoch = 104\<rparr>"
  using sample_stage by (simp add: staged_manager_def uplink_stage_def new_uplink_manager_def)
    (simp add: sample_load_def)

lemma committed_manager_pending: "um_pending committed_manager =
    Some \<lparr>pu_load = sample_load, pu_state = Committed, pu_effective_epoch = 104\<rparr>"
  using staged_manager_pending
  by (simp add: committed_manager_def uplink_commit_def sample_request_def sample_load_def saturating_add_def)

lemma sample_history_reached: "uplink_history sample_history committed_manager"
  unfolding sample_history_def
  by (rule uplink_history.step, rule uplink_history.step, rule uplink_history.start)
     (simp_all add: staged_manager_def committed_manager_def)

lemma sample_release: "\<exists>ack m'. uplink_release committed_manager 104 = (Some (sample_load, ack), m')"
  using committed_manager_pending by (simp add: uplink_release_def receipt_def Let_def sample_load_def)

theorem uplink_two_phase_witness:
  "\<exists>ack m'. uplink_release committed_manager 104 = (Some (sample_load, ack), m')
     \<and> committed_in sample_load sample_history \<and> uplink_state m' = Empty"
proof -
  obtain ack m' where r: "uplink_release committed_manager 104 = (Some (sample_load, ack), m')"
    using sample_release by blast
  show ?thesis using uplink_two_phase [OF sample_history_reached r] r by blast
qed

text \<open>
  No load is executed twice. Over every history whose epochs do not decrease and stay
  below the saturation limit, the executed loads are pairwise different.
\<close>
theorem uplink_executes_once:
  assumes "uplink_history h m" "\<forall>(_, e, _) \<in> set h. e < - 1"
  shows "distinct (executed h)"
  using uplink_history_executed [OF assms] by blast

theorem uplink_executes_once_witness:
  "distinct (executed ((Release, 104, Some sample_load) # sample_history))
   \<and> executed ((Release, 104, Some sample_load) # sample_history) = [sample_load]"
proof
  obtain ack m' where r: "uplink_release committed_manager 104 = (Some (sample_load, ack), m')"
    using sample_release by blast
  have "uplink_history ((Release, 104, Some sample_load) # sample_history) m'"
    by (rule uplink_history.step [OF sample_history_reached]) (simp_all add: r sample_history_def)
  then show "distinct (executed ((Release, 104, Some sample_load) # sample_history))"
    by (rule uplink_executes_once) (simp add: sample_history_def word_less_nat_alt unsigned_minus_1_eq_mask mask_eq_exp_minus_1)
  show "executed ((Release, 104, Some sample_load) # sample_history) = [sample_load]"
    by (simp add: sample_history_def) (simp add: executed_def List.map_filter_def)
qed

text \<open>
  The manager fails closed. A rejected stage, commit or cancellation changes neither
  the pending load nor the record of what was executed, an accepted cancellation
  empties the manager, and an empty manager releases nothing at any epoch.
\<close>
theorem uplink_fail_closed:
  "(uc_state (fst (uplink_stage m load e evm navigation manifest plan)) = Rejected \<longrightarrow>
      um_pending (snd (uplink_stage m load e evm navigation manifest plan)) = um_pending m)
   \<and> (um_pending m \<noteq> None \<and> uc_state (fst (uplink_commit m request e)) = Rejected \<longrightarrow>
      um_pending (snd (uplink_commit m request e)) = um_pending m)
   \<and> (um_pending m \<noteq> None \<longrightarrow> uc_state (fst (uplink_cancel m request e)) \<in> {Rejected, Cancelled}
      \<and> (uc_state (fst (uplink_cancel m request e)) = Rejected \<longrightarrow> um_pending (snd (uplink_cancel m request e)) = um_pending m)
      \<and> (uc_state (fst (uplink_cancel m request e)) = Cancelled \<longrightarrow>
           fst (uplink_release (snd (uplink_cancel m request e)) e') = None))"
  by (auto simp: uplink_stage_def uplink_commit_def uplink_cancel_def uplink_release_def receipt_def Let_def
      split: option.splits)

theorem uplink_fail_closed_witness:
  "um_pending (snd (uplink_commit staged_manager (sample_request\<lparr>uc_effective_epoch := 103\<rparr>) 101)) = um_pending staged_manager
   \<and> fst (uplink_release (snd (uplink_cancel staged_manager (sample_request\<lparr>uc_kind := Cancellation\<rparr>) 101)) 104) = None"
proof -
  have "uc_state (fst (uplink_commit staged_manager (sample_request\<lparr>uc_effective_epoch := 103\<rparr>) 101)) = Rejected"
    "uc_state (fst (uplink_cancel staged_manager (sample_request\<lparr>uc_kind := Cancellation\<rparr>) 101)) = Cancelled"
    using staged_manager_pending
    by (simp_all add: uplink_commit_def uplink_cancel_def receipt_def Let_def sample_request_def sample_load_def)
  then show ?thesis
    using uplink_fail_closed [where m = staged_manager and e = 101 and request = "sample_request\<lparr>uc_effective_epoch := 103\<rparr>"]
      uplink_fail_closed [where m = staged_manager and e = 101 and request = "sample_request\<lparr>uc_kind := Cancellation\<rparr>" and e' = 104]
      staged_manager_pending by simp
qed

end
