(* ===== verification/Reference_Ops.thy ===== *)
theory Reference_Ops
  imports Mission_Load Flight_Contract Uplink_Manager Event_Journal
begin

text \<open>
  The reference operations package (\<^verbatim>\<open>flight/src/phase11.rs\<close>, \<^verbatim>\<open>KsaG10rReferenceOpsV1\<close>): the
  flight computer with a mission plan, the uplink manager, the event journal and the compact
  prediction around it.  Every run of the package is a run of the flight computer inside it,
  so the safety of the computer carries over; the package adds to it only the effects of
  loads that were staged, committed and released on their epoch.
\<close>

unbundle bit_operations_syntax

subsection \<open>The compact prediction\<close>

definition WGS84_SEMI_MAJOR_Q12_KM :: i32 where "WGS84_SEMI_MAJOR_Q12_KM = 26124849"
definition GRAVITY_Q28_KM_S2 :: int where "GRAVITY_Q28_KM_S2 = 2632453"

definition sat_i64 :: "int \<Rightarrow> i64" where
  "sat_i64 value = word_of_int (clamp_int (- (2 ^ 63)) (2 ^ 63 - 1) value)"

definition position_velocity_dot :: "i32 vec3 \<Rightarrow> i32 vec3 \<Rightarrow> i64" where
  "position_velocity_dot position velocity =
     foldl (\<lambda>sum axis. sat_i64 (sint sum + sint (scast (at3 position axis) * scast (at3 velocity axis) :: i64))) 0 [0, 1, 2]"

definition altitude_and_climb :: "GlobalNavigation \<Rightarrow> i32 \<times> i32" where
  "altitude_and_climb nav =
     (if nav_frame nav = LocalEnuV1 then (at3 (nav_position_q12 nav) 2, at3 (nav_velocity_q24 nav) 2)
      else
      let radius = fst (run_state (magnitude4_floor 0 (at3 (nav_position_q12 nav) 0) (at3 (nav_position_q12 nav) 1)
                 (at3 (nav_position_q12 nav) 2)) CLEAR) :: i32;
          dot = position_velocity_dot (nav_position_q12 nav) (nav_velocity_q24 nav);
          radial_velocity = (if 0 <s radius
            then word_of_int (clamp_int (- (2 ^ 31)) (2 ^ 31 - 1) (truncate_div (sint dot) (sint radius))) else 0)
      in (saturating_sub_i32 radius WGS84_SEMI_MAJOR_Q12_KM, radial_velocity))"

definition compact_prediction :: "GlobalNavigation \<Rightarrow> MissionPlan \<Rightarrow> u32 \<Rightarrow> PredictionSummary" where
  "compact_prediction nav plan ep =
     (let (altitude_q12, vertical_velocity_q24) = altitude_and_climb nav;
          ascending = (if vertical_velocity_q24 <s 0 then 0 else scast vertical_velocity_q24) :: i64;
          additional_q12 = word_of_int (clamp_int 0 (2 ^ 31 - 1)
            (truncate_div (sint (ascending * ascending)) (GRAVITY_Q28_KM_S2 * 512))) :: i32;
          to_apogee = word_of_int (clamp_int 0 (2 ^ 32 - 1)
            (truncate_div (sint (push_bit 20 ascending)) GRAVITY_Q28_KM_S2)) :: u32;
          apogee = saturating_add_i32 altitude_q12 additional_q12;
          checksum = hash_receipt (nav_checksum nav) (plan_identity plan) ep apogee (frame_tag (nav_frame nav)) 0
      in \<lparr>prediction_identity = max checksum 1, pd_model_identity = onboard_prediction_model plan,
          pd_product = OnboardCompact, source_estimate_identity = 0x11e10001,
          source_estimate_checksum = nav_checksum nav,
          pd_package_manifest_identity = package_manifest_identity plan, pd_plan_identity = plan_identity plan,
          pd_source_epoch = ep, generation_epoch = ep, valid_until_epoch = saturating_add ep 32,
          pd_frame = nav_frame nav, terminal_reason = ValidHorizon, apogee_q12_km = apogee, perigee_q12_km = 0,
          time_to_apogee_q16 = to_apogee, time_to_impact_q16 = 0,
          impact_position_q12_km = nav_position_q12 nav,
          transition_epochs = (0xffffffff, 0xffffffff, 0xffffffff), assumptions = 1, prediction_checksum = checksum\<rparr>)"

subsection \<open>The package\<close>

record ReferenceOps =
  inner :: GlobalFlightComputer
  ro_plan :: "MissionPlan option"
  uplink :: AtomicUplinkManager
  journal :: EventJournal
  ro_epoch :: u32
  last_prediction :: "PredictionSummary option"
  active_plan_checksum :: u32
  prediction_dirty :: bool

definition new_reference_ops :: "GlobalFlightConfig \<Rightarrow> ReferenceOps option" where
  "new_reference_ops cfg =
     (case new_flight_computer cfg of
        None \<Rightarrow> None
      | Some computer \<Rightarrow> Some \<lparr>inner = computer, ro_plan = None, uplink = new_uplink_manager,
          journal = new_event_journal, ro_epoch = 0, last_prediction = None, active_plan_checksum = 0,
          prediction_dirty = False\<rparr>)"

definition ops_journal :: "ReferenceOps \<Rightarrow> JournalEventKind \<Rightarrow> u32 \<Rightarrow> u32 \<Rightarrow> i32 list \<Rightarrow> ReferenceOps" where
  "ops_journal self knd prim secnd args =
     self\<lparr>journal := snd (journal_append (journal self) (ro_epoch self) knd prim secnd args)\<rparr>"

definition initialize_mission_plan :: "ReferenceOps \<Rightarrow> MissionPlan \<Rightarrow> bool \<times> ReferenceOps" where
  "initialize_mission_plan self plan =
     (let manifest = ksa_g10r_reference_ops_manifest
      in if package_manifest_identity plan \<noteq> manifest_identity manifest \<or> mp_package plan \<noteq> fm_package manifest
            \<or> mp_abi plan \<noteq> fm_abi manifest \<or> mp_vehicle_profile_identity plan \<noteq> fm_vehicle_profile_identity manifest
            \<or> mission_identity plan \<noteq> mission_compatibility_identity manifest
            \<or> mp_required_capabilities plan AND NOT (capabilities manifest) \<noteq> 0
         then (False, self)
         else
         let self = self\<lparr>ro_plan := Some plan, active_plan_checksum := plan_identity plan, prediction_dirty := True\<rparr>
         in (True, ops_journal self ModeEvent (plan_identity plan) (manifest_identity manifest) [1, 0, 0, 0]))"

definition journal_receipt :: "ReferenceOps \<Rightarrow> UplinkControlRecord \<Rightarrow> ReferenceOps" where
  "journal_receipt self r =
     ops_journal self UplinkEvent (uc_load_identity r) (control_identity r)
       [ucast (control_kind_tag (uc_kind r)), ucast (uplink_state_tag (uc_state r)), ucast (reason_tag (uc_reason r)),
        uc_effective_epoch r]"

definition stage_uplink :: "ReferenceOps \<Rightarrow> UplinkCommandLoad \<Rightarrow> u32 \<Rightarrow> UplinkControlRecord option \<times> ReferenceOps" where
  "stage_uplink self load completed_event_mask =
     (case ro_plan self of
        None \<Rightarrow> (None, self)
      | Some plan \<Rightarrow>
          let (r, manager) = uplink_stage (uplink self) load (ro_epoch self) completed_event_mask
                 (navigation (inner self)) ksa_g10r_reference_ops_manifest plan
          in (Some r, journal_receipt (self\<lparr>uplink := manager\<rparr>) r))"

definition commit_uplink :: "ReferenceOps \<Rightarrow> UplinkControlRecord \<Rightarrow> UplinkControlRecord option \<times> ReferenceOps" where
  "commit_uplink self request =
     (case ro_plan self of
        None \<Rightarrow> (None, self)
      | Some plan \<Rightarrow>
          let (r, manager) = uplink_commit (uplink self) request (ro_epoch self)
          in (Some r, journal_receipt (self\<lparr>uplink := manager\<rparr>) r))"

definition cancel_uplink :: "ReferenceOps \<Rightarrow> UplinkControlRecord \<Rightarrow> UplinkControlRecord option \<times> ReferenceOps" where
  "cancel_uplink self request =
     (case ro_plan self of
        None \<Rightarrow> (None, self)
      | Some plan \<Rightarrow>
          let (r, manager) = uplink_cancel (uplink self) request (ro_epoch self)
          in (Some r, journal_receipt (self\<lparr>uplink := manager\<rparr>) r))"

definition record_ground_communications :: "ReferenceOps \<Rightarrow> bool \<Rightarrow> ReferenceOps" where
  "record_ground_communications self available =
     ops_journal self CommunicationsEvent (of_bool available) 0 [0, 0, 0, 0]"

definition recover_journal_after :: "ReferenceOps \<Rightarrow> u32 \<Rightarrow> EventJournalRecord list \<Rightarrow> nat \<times> EventJournalRecord list" where
  "recover_journal_after self sq output = recover_after (journal self) sq output"

definition apply_committed :: "ReferenceOps \<Rightarrow> UplinkCommandLoad \<Rightarrow> bool \<times> ReferenceOps" where
  "apply_committed self load =
     (let a = \<lambda>i. ul_arguments load ! i
      in case load_type load of
        GroundNavigationUpdate \<Rightarrow>
          (let (applied, computer) = operational_navigation_update (inner self) (ul_frame load)
                 (a 0, a 1, a 2) (a 3, a 4, a 5) (ucast (ro_epoch self))
           in (applied, self\<lparr>inner := computer\<rparr>))
      | MissionEventTarget \<Rightarrow>
          (let (applied, computer) = operational_guidance_target (inner self) (ucast (a 0)) (a 1, a 2, a 3, a 4)
           in (applied, self\<lparr>inner := computer\<rparr>))
      | HighLevelMode \<Rightarrow>
          (True, if 2 \<le>s a 0 then self\<lparr>inner := operational_request_safe (inner self)\<rparr> else self)
      | _ \<Rightarrow> (True, self))"

definition execute_release :: "ReferenceOps \<Rightarrow> UplinkCommandLoad \<Rightarrow> UplinkControlRecord \<Rightarrow> ReferenceOps" where
  "execute_release self load ack =
     (let (applied, self) = apply_committed self load;
          self = journal_receipt self ack;
          self = (if applied \<and> load_type load \<noteq> GroundNavigationUpdate
            then self\<lparr>active_plan_checksum := hash_journal (active_plan_checksum self) (load_identity load) (ro_epoch self)
                        (load_type_tag (load_type load)) (ul_required_capabilities load) (ul_plan_identity load)
                        (map (\<lambda>i. ul_arguments load ! i) [0, 1, 2, 3]),
                      prediction_dirty := True\<rparr>
            else self)
      in ops_journal self ModeEvent (load_identity load) (ucast (load_type_tag (load_type load)))
           [of_bool applied, 0, 0, 0])"

definition release_uplink :: "ReferenceOps \<Rightarrow> ReferenceOps" where
  "release_uplink self =
     (if ro_plan self \<noteq> None
      then case uplink_release (uplink self) (ro_epoch self) of
          (None, manager) \<Rightarrow> self\<lparr>uplink := manager\<rparr>
        | (Some (load, ack), manager) \<Rightarrow> execute_release (self\<lparr>uplink := manager\<rparr>) load ack
      else self)"

definition update_prediction :: "ReferenceOps \<Rightarrow> GlobalFlightEvidence \<Rightarrow> ReferenceOps" where
  "update_prediction self evidence =
     (case ro_plan self of
        None \<Rightarrow> self
      | Some plan \<Rightarrow>
          if ro_epoch self AND 31 = 0 \<or> prediction_dirty self
          then
            let prediction = compact_prediction (ev_navigation evidence) plan (ro_epoch self);
                prediction = prediction\<lparr>prediction_checksum := hash_receipt (prediction_checksum prediction)
                  (active_plan_checksum self) (ro_epoch self) (plan_identity plan) (product_tag (pd_product prediction)) 0\<rparr>;
                prediction = prediction\<lparr>prediction_identity := max (prediction_checksum prediction) 1\<rparr>;
                self = (if (case last_prediction self of
                     Some prior \<Rightarrow> prediction_checksum prior \<noteq> prediction_checksum prediction | None \<Rightarrow> True)
                  then ops_journal self PredictionEvent (prediction_identity prediction) (source_estimate_identity prediction)
                    [apogee_q12_km prediction, time_to_apogee_q16 prediction, 0, 0]
                  else self)
            in self\<lparr>last_prediction := Some prediction, prediction_dirty := False\<rparr>
          else self)"

definition process_release :: "ReferenceOps \<Rightarrow> GlobalFastSensorCell option \<Rightarrow> GlobalAidFrameCell option
    \<Rightarrow> GlobalTransitionCell option \<Rightarrow> GlobalFlightEvidence \<times> ReferenceOps" where
  "process_release self fast_cell aid_cell transition =
     (let self = release_uplink self;
          (evidence, computer) = tick (inner self) fast_cell aid_cell transition;
          self = update_prediction (self\<lparr>inner := computer\<rparr>) evidence;
          self = self\<lparr>ro_epoch := saturating_add (ro_epoch self) 1\<rparr>
      in (evidence, self))"

subsection \<open>Runs\<close>

datatype ops_op =
    Initialize MissionPlan
  | StageLoad UplinkCommandLoad u32
  | CommitLoad UplinkControlRecord
  | CancelLoad UplinkControlRecord
  | Communications bool
  | ReleaseEpoch "GlobalFastSensorCell option" "GlobalAidFrameCell option" "GlobalTransitionCell option"

fun ops_step :: "ReferenceOps \<Rightarrow> ops_op \<Rightarrow> GlobalFlightEvidence list \<times> ReferenceOps" where
  "ops_step s (Initialize plan) = ([], snd (initialize_mission_plan s plan))"
| "ops_step s (StageLoad load evm) = ([], snd (stage_uplink s load evm))"
| "ops_step s (CommitLoad request) = ([], snd (commit_uplink s request))"
| "ops_step s (CancelLoad request) = ([], snd (cancel_uplink s request))"
| "ops_step s (Communications available) = ([], record_ground_communications s available)"
| "ops_step s (ReleaseEpoch f a t) = (case process_release s f a t of (e, s) \<Rightarrow> ([e], s))"

fun ops_run :: "ReferenceOps \<Rightarrow> ops_op list \<Rightarrow> GlobalFlightEvidence list \<times> ReferenceOps" where
  "ops_run s [] = ([], s)"
| "ops_run s (opn # ops) = (case ops_step s opn of (e, s) \<Rightarrow> case ops_run s ops of (es, s) \<Rightarrow> (e @ es, s))"

text \<open>The load that the next release executes, and its effect on the flight computer.\<close>

definition due_load :: "ReferenceOps \<Rightarrow> UplinkCommandLoad option" where
  "due_load s = (if ro_plan s = None then None else map_option fst (fst (uplink_release (uplink s) (ro_epoch s))))"

definition load_effect :: "u32 \<Rightarrow> UplinkCommandLoad \<Rightarrow> flight_op list" where
  "load_effect ep load =
     (let a = \<lambda>i. ul_arguments load ! i
      in case load_type load of
        GroundNavigationUpdate \<Rightarrow> [NavigationUpdate (ul_frame load) (a 0, a 1, a 2) (a 3, a 4, a 5) (ucast ep)]
      | MissionEventTarget \<Rightarrow> [GuidanceTarget (ucast (a 0)) (a 1, a 2, a 3, a 4)]
      | HighLevelMode \<Rightarrow> if 2 \<le>s a 0 then [RequestSafe] else []
      | _ \<Rightarrow> [])"

definition flight_ops :: "ReferenceOps \<Rightarrow> ops_op \<Rightarrow> flight_op list" where
  "flight_ops s opn =
     (case opn of
        ReleaseEpoch f a t \<Rightarrow> (case due_load s of None \<Rightarrow> [] | Some load \<Rightarrow> load_effect (ro_epoch s) load) @ [Tick f a t]
      | _ \<Rightarrow> [])"

fun flight_trace :: "ReferenceOps \<Rightarrow> ops_op list \<Rightarrow> flight_op list" where
  "flight_trace s [] = []"
| "flight_trace s (opn # ops) = flight_ops s opn @ flight_trace (snd (ops_step s opn)) ops"

lemma ops_run_append:
  "ops_run s (xs @ ys) = (fst (ops_run s xs) @ fst (ops_run (snd (ops_run s xs)) ys), snd (ops_run (snd (ops_run s xs)) ys))"
  by (induction xs arbitrary: s) (auto split: prod.splits)

lemma ops_run_Cons:
  "ops_run s (opn # ops) = (fst (ops_step s opn) @ fst (ops_run (snd (ops_step s opn)) ops), snd (ops_run (snd (ops_step s opn)) ops))"
  by (simp split: prod.splits)

lemma flight_run_append:
  "flight_run c (xs @ ys) = (fst (flight_run c xs) @ fst (flight_run (snd (flight_run c xs)) ys), snd (flight_run (snd (flight_run c xs)) ys))"
  by (induction xs arbitrary: c) (auto split: prod.splits)

subsection \<open>What the operations change\<close>

lemma ops_journal_fields [simp]:
  "inner (ops_journal s knd p q args) = inner s" "ro_plan (ops_journal s knd p q args) = ro_plan s"
  "uplink (ops_journal s knd p q args) = uplink s" "ro_epoch (ops_journal s knd p q args) = ro_epoch s"
  "last_prediction (ops_journal s knd p q args) = last_prediction s"
  "active_plan_checksum (ops_journal s knd p q args) = active_plan_checksum s"
  "prediction_dirty (ops_journal s knd p q args) = prediction_dirty s"
  by (simp_all add: ops_journal_def)

lemma journal_receipt_fields [simp]:
  "inner (journal_receipt s r) = inner s" "ro_plan (journal_receipt s r) = ro_plan s"
  "uplink (journal_receipt s r) = uplink s" "ro_epoch (journal_receipt s r) = ro_epoch s"
  "last_prediction (journal_receipt s r) = last_prediction s"
  "active_plan_checksum (journal_receipt s r) = active_plan_checksum s"
  by (simp_all add: journal_receipt_def)

lemma update_prediction_fields [simp]:
  "inner (update_prediction s e) = inner s" "ro_plan (update_prediction s e) = ro_plan s"
  "uplink (update_prediction s e) = uplink s" "ro_epoch (update_prediction s e) = ro_epoch s"
  by (simp_all add: update_prediction_def Let_def split: option.splits)

lemma apply_committed_fields:
  "ro_plan (snd (apply_committed s load)) = ro_plan s" "uplink (snd (apply_committed s load)) = uplink s"
  "ro_epoch (snd (apply_committed s load)) = ro_epoch s"
  "flight_run (inner s) (load_effect (ro_epoch s) load) = ([], inner (snd (apply_committed s load)))"
  by (cases "load_type load"; simp add: apply_committed_def load_effect_def Let_def split: prod.splits)+

lemma execute_release_fields:
  "ro_plan (execute_release s load ack) = ro_plan s" "uplink (execute_release s load ack) = uplink s"
  "ro_epoch (execute_release s load ack) = ro_epoch s"
  "flight_run (inner s) (load_effect (ro_epoch s) load) = ([], inner (execute_release s load ack))"
  using apply_committed_fields [of s load]
  by (cases "apply_committed s load"; simp add: execute_release_def Let_def)+

lemma release_uplink_fields:
  "ro_plan (release_uplink s) = ro_plan s" "ro_epoch (release_uplink s) = ro_epoch s"
  "uplink (release_uplink s) = (if ro_plan s = None then uplink s else snd (uplink_release (uplink s) (ro_epoch s)))"
  "flight_run (inner s) (case due_load s of None \<Rightarrow> [] | Some load \<Rightarrow> load_effect (ro_epoch s) load) = ([], inner (release_uplink s))"
proof -
  obtain r m where u: "uplink_release (uplink s) (ro_epoch s) = (r, m)" by fastforce
  note e = execute_release_fields [of "s\<lparr>uplink := m\<rparr>"]
  show "ro_plan (release_uplink s) = ro_plan s" "ro_epoch (release_uplink s) = ro_epoch s"
    "uplink (release_uplink s) = (if ro_plan s = None then uplink s else snd (uplink_release (uplink s) (ro_epoch s)))"
    using u e(1-3) by (auto simp: release_uplink_def split: option.splits)
  show "flight_run (inner s) (case due_load s of None \<Rightarrow> [] | Some load \<Rightarrow> load_effect (ro_epoch s) load) = ([], inner (release_uplink s))"
    using u e(4) by (auto simp: release_uplink_def due_load_def split: option.splits)
qed

lemma process_release_fields:
  assumes "process_release s f a t = (e, s')"
  shows "ro_plan s' = ro_plan s" "ro_epoch s' = saturating_add (ro_epoch s) 1"
    "uplink s' = (if ro_plan s = None then uplink s else snd (uplink_release (uplink s) (ro_epoch s)))"
    "tick (inner (release_uplink s)) f a t = (e, inner s')"
  using assms release_uplink_fields [of s] by (auto simp: process_release_def Let_def split: prod.splits)

lemma flight_ops_step: "flight_run (inner s) (flight_ops s opn) = (fst (ops_step s opn), inner (snd (ops_step s opn)))"
proof (cases opn)
  case (ReleaseEpoch f a t)
  obtain e s' where p: "process_release s f a t = (e, s')" by fastforce
  then show ?thesis
    using ReleaseEpoch release_uplink_fields(4) [of s] process_release_fields(4) [OF p]
    by (simp add: flight_ops_def flight_run_append)
qed (auto simp: flight_ops_def initialize_mission_plan_def Let_def stage_uplink_def commit_uplink_def cancel_uplink_def
    record_ground_communications_def split: option.splits prod.splits)

lemma flight_trace_run: "flight_run (inner s) (flight_trace s ops) = (fst (ops_run s ops), inner (snd (ops_run s ops)))"
proof (induction ops arbitrary: s)
  case (Cons opn ops)
  then show ?case using flight_ops_step [of s opn] by (simp add: flight_run_append split: prod.splits)
qed simp

subsection \<open>The uplink history of a run\<close>

definition step_history :: "ReferenceOps \<Rightarrow> ops_op \<Rightarrow> (uplink_op \<times> u32 \<times> UplinkCommandLoad option) list" where
  "step_history s opn =
     (case ro_plan s of
        None \<Rightarrow> []
      | Some plan \<Rightarrow>
          (case opn of
             StageLoad load evm \<Rightarrow>
               [(Stage load evm (navigation (inner s)) ksa_g10r_reference_ops_manifest plan, ro_epoch s, None)]
           | CommitLoad request \<Rightarrow> [(Commit request, ro_epoch s, None)]
           | CancelLoad request \<Rightarrow> [(Cancel request, ro_epoch s, None)]
           | ReleaseEpoch f a t \<Rightarrow> [(Release, ro_epoch s, due_load s)]
           | _ \<Rightarrow> []))"

fun ops_history :: "ReferenceOps \<Rightarrow> ops_op list \<Rightarrow> (uplink_op \<times> u32 \<times> UplinkCommandLoad option) list" where
  "ops_history s [] = []"
| "ops_history s (opn # ops) = ops_history (snd (ops_step s opn)) ops @ step_history s opn"

lemma step_history_step:
  assumes "uplink_history h (uplink s)" "\<forall>(_, e', _) \<in> set h. e' \<le> ro_epoch s"
  shows "uplink_history (step_history s opn @ h) (uplink (snd (ops_step s opn)))
    \<and> (\<forall>(_, e', _) \<in> set (step_history s opn @ h). e' \<le> ro_epoch (snd (ops_step s opn)))"
proof -
  have le: "ro_epoch s \<le> saturating_add (ro_epoch s) 1"
    using unsigned_less [of "ro_epoch s", where ?'a = nat] by (simp add: word_le_nat_alt unat_saturating_add)
  have mono: "\<forall>(_, e', _) \<in> set h. e' \<le> saturating_add (ro_epoch s) 1"
    using assms(2) le by (auto intro: order_trans)
  show ?thesis
  proof (cases "ro_plan s")
    case None
    then show ?thesis
      using assms mono process_release_fields
      by (cases opn) (auto simp: step_history_def initialize_mission_plan_def Let_def stage_uplink_def commit_uplink_def
          cancel_uplink_def record_ground_communications_def split: prod.splits)
  next
    case (Some plan)
    have st: "uplink_history ((uop, ro_epoch s, x) # h) m'" if "uplink_step (uplink s) uop (ro_epoch s) = (x, m')" for uop x m'
      using uplink_history.step [OF assms that] .
    show ?thesis
    proof (cases opn)
      case (StageLoad load evm)
      then show ?thesis
        using Some assms(2) st [of "Stage load evm (navigation (inner s)) ksa_g10r_reference_ops_manifest plan"]
        by (auto simp: step_history_def stage_uplink_def split: prod.splits)
    next
      case (CommitLoad request)
      then show ?thesis using Some assms(2) st [of "Commit request"]
        by (auto simp: step_history_def commit_uplink_def split: prod.splits)
    next
      case (CancelLoad request)
      then show ?thesis using Some assms(2) st [of "Cancel request"]
        by (auto simp: step_history_def cancel_uplink_def split: prod.splits)
    next
      case (ReleaseEpoch f a t)
      obtain e s' where p: "process_release s f a t = (e, s')" by fastforce
      note r = process_release_fields [OF p]
      have "uplink_step (uplink s) Release (ro_epoch s) = (due_load s, uplink s')"
        using Some r(3) by (simp add: due_load_def)
      then show ?thesis using ReleaseEpoch Some p r(2) le mono st by (auto simp: step_history_def)
    qed (use Some assms in \<open>auto simp: step_history_def initialize_mission_plan_def Let_def record_ground_communications_def\<close>)
  qed
qed

lemma ops_history_reached:
  assumes "uplink_history h (uplink s)" "\<forall>(_, e', _) \<in> set h. e' \<le> ro_epoch s"
  shows "uplink_history (ops_history s ops @ h) (uplink (snd (ops_run s ops)))"
  using assms
proof (induction ops arbitrary: s h)
  case (Cons opn ops)
  note st = step_history_step [OF Cons.prems, of opn]
  have "uplink_history (ops_history (snd (ops_step s opn)) ops @ step_history s opn @ h)
      (uplink (snd (ops_run (snd (ops_step s opn)) ops)))"
    using Cons.IH [of "step_history s opn @ h" "snd (ops_step s opn)"] st by simp
  then show ?case by (simp add: ops_run_Cons del: ops_run.simps)
qed simp

lemma step_history_single: "step_history s opn = [] \<or> (\<exists>x. step_history s opn = [x])"
  by (simp add: step_history_def split: option.splits ops_op.splits)

lemma ops_history_split:
  assumes "ops_history s ops = h1 @ x # h2"
  obtains ops1 opn ops2 where "ops = ops1 @ opn # ops2" "step_history (snd (ops_run s ops1)) opn = [x]" "ops_history s ops1 = h2"
  using assms
proof (induction ops arbitrary: s h2 thesis)
  case (Cons opn ops)
  let ?s = "snd (ops_step s opn)"
  have e: "ops_history ?s ops @ step_history s opn = h1 @ x # h2" using Cons.prems(2) by simp
  have here: ?case if "step_history s opn = r @ x # h2" for r
  proof -
    have "h2 = []" "step_history s opn = [x]"
      using that step_history_single [of s opn] by (auto simp: append_eq_Cons_conv Cons_eq_append_conv)
    then show ?thesis using Cons.prems(1) [of "[]" opn ops] by simp
  qed
  have later: ?case if h: "ops_history ?s ops = h1 @ x # h2'" "h2' @ step_history s opn = h2" for h2'
  proof -
    obtain ops1 opn' ops2 where i: "ops = ops1 @ opn' # ops2" "step_history (snd (ops_run ?s ops1)) opn' = [x]" "ops_history ?s ops1 = h2'"
      using Cons.IH [OF _ h(1)] by blast
    show ?thesis
    proof (rule Cons.prems(1))
      show "opn # ops = (opn # ops1) @ opn' # ops2" using i(1) by simp
      show "step_history (snd (ops_run s (opn # ops1))) opn' = [x]" using i(2) by (simp add: ops_run_Cons del: ops_run.simps)
      show "ops_history s (opn # ops1) = h2" using i(3) h(2) by simp
    qed
  qed
  from e consider ts where "ops_history ?s ops = h1 @ ts" "ts @ step_history s opn = x # h2"
    | ts where "step_history s opn = ts @ x # h2" unfolding append_eq_append_conv2 by blast
  then show ?case
  proof cases
    case (1 ts)
    show ?thesis
    proof (cases ts)
      case Nil
      then show ?thesis using 1 here [of "[]"] by simp
    next
      case (Cons y h2')
      then show ?thesis using 1 later [of h2'] by simp
    qed
  qed (rule here)
qed simp

subsection \<open>The package refines the flight computer\<close>

fun is_tick :: "flight_op \<Rightarrow> bool" where
  "is_tick (Tick f a t) \<longleftrightarrow> True"
| "is_tick _ \<longleftrightarrow> False"

fun release_ticks :: "ops_op \<Rightarrow> flight_op list" where
  "release_ticks (ReleaseEpoch f a t) = [Tick f a t]"
| "release_ticks _ = []"

lemma load_effect_no_tick: "filter is_tick (load_effect ep load) = []"
  by (simp add: load_effect_def Let_def split: UplinkLoadType.splits)

lemma flight_trace_ticks: "filter is_tick (flight_trace s ops) = concat (map release_ticks ops)"
proof (induction ops arbitrary: s)
  case (Cons opn ops)
  have "filter is_tick (flight_ops s opn) = release_ticks opn"
    by (cases opn) (auto simp: flight_ops_def load_effect_no_tick split: option.splits)
  then show ?case using Cons by simp
qed simp

lemma flight_trace_effects:
  assumes "fop \<in> set (flight_trace s ops)" "\<not> is_tick fop"
  shows "\<exists>ep load. (Release, ep, Some load) \<in> set (ops_history s ops) \<and> fop \<in> set (load_effect ep load)"
  using assms(1)
proof (induction ops arbitrary: s)
  case (Cons opn ops)
  show ?case
  proof (cases "fop \<in> set (flight_ops s opn)")
    case True
    then obtain f a t where o': "opn = ReleaseEpoch f a t" by (cases opn) (auto simp: flight_ops_def)
    then obtain load where l: "opn = ReleaseEpoch f a t" "due_load s = Some load" "fop \<in> set (load_effect (ro_epoch s) load)"
      using True assms(2) by (cases "due_load s") (auto simp: flight_ops_def)
    then have "ro_plan s \<noteq> None" by (auto simp: due_load_def split: if_splits)
    then have "step_history s opn = [(Release, ro_epoch s, Some load)]" using l by (auto simp: step_history_def)
    then show ?thesis using l(3) by auto
  next
    case False
    then have "fop \<in> set (flight_trace (snd (ops_step s opn)) ops)" using Cons.prems by simp
    from Cons.IH [OF this] show ?thesis by auto
  qed
qed simp

text \<open>
  C7: the reference package refines the flight computer.  Every run of the package yields the
  evidence of a run of the flight computer inside it, whose ticks are exactly the package's
  releases with the same cells, and whose other operations are all effects of loads the
  uplink manager executed in that run.
\<close>
theorem reference_ops_refines:
  "flight_run (inner s) (flight_trace s ops) = (fst (ops_run s ops), inner (snd (ops_run s ops)))
   \<and> filter is_tick (flight_trace s ops) = concat (map release_ticks ops)
   \<and> {fop \<in> set (flight_trace s ops). \<not> is_tick fop}
       \<subseteq> {fop. \<exists>ep load. (Release, ep, Some load) \<in> set (ops_history s ops) \<and> fop \<in> set (load_effect ep load)}"
  using flight_trace_run flight_trace_ticks flight_trace_effects by auto

fun is_initialize :: "ops_op \<Rightarrow> bool" where
  "is_initialize (Initialize plan) \<longleftrightarrow> True"
| "is_initialize _ \<longleftrightarrow> False"

lemma no_plan_step: "ro_plan s = None \<Longrightarrow> \<not> is_initialize opn \<Longrightarrow> ro_plan (snd (ops_step s opn)) = None"
  by (cases opn) (auto simp: stage_uplink_def commit_uplink_def cancel_uplink_def record_ground_communications_def
      process_release_fields split: prod.splits)

text \<open>
  The inactive package is the frozen flight computer.  While no plan has been
  initialized, whatever uplinks and communications events arrive, the package's evidence is
  that of the flight computer ticked with the same cells, and every uplink request is left
  unanswered.
\<close>
theorem inactive_package_is_frozen:
  assumes "new_reference_ops cfg = Some s" "\<forall>opn \<in> set ops. \<not> is_initialize opn"
  shows "new_flight_computer cfg = Some (inner s)
    \<and> flight_run (inner s) (concat (map release_ticks ops)) = (fst (ops_run s ops), inner (snd (ops_run s ops)))
    \<and> fst (stage_uplink (snd (ops_run s ops)) load evm) = None \<and> fst (commit_uplink (snd (ops_run s ops)) request) = None
    \<and> fst (cancel_uplink (snd (ops_run s ops)) request) = None"
proof -
  have n: "new_flight_computer cfg = Some (inner s)" "ro_plan s = None"
    using assms(1) by (auto simp: new_reference_ops_def split: option.splits)
  have "flight_trace s ops = concat (map release_ticks ops) \<and> ro_plan (snd (ops_run s ops)) = None"
    using n(2) assms(2)
  proof (induction ops arbitrary: s)
    case (Cons opn ops)
    have "flight_ops s opn = release_ticks opn"
      using Cons.prems(1) by (cases opn) (auto simp: flight_ops_def due_load_def)
    then show ?case
      using Cons.IH [of "snd (ops_step s opn)"] no_plan_step [of s opn] Cons.prems by (simp add: ops_run_Cons del: ops_run.simps)
  qed simp
  then show ?thesis
    using n(1) flight_trace_run [of s ops] by (simp add: stage_uplink_def commit_uplink_def cancel_uplink_def)
qed

subsection \<open>Loads take effect only after both phases\<close>

lemma package_loads_two_phase_epoch:
  assumes "new_reference_ops cfg = Some s0" "due_load (snd (ops_run s0 ops)) = Some load"
  shows "ro_epoch (snd (ops_run s0 ops)) = requested_effective_epoch load"
proof -
  let ?s = "snd (ops_run s0 ops)"
  have u0: "uplink s0 = new_uplink_manager" using assms(1) by (auto simp: new_reference_ops_def split: option.splits)
  have h: "uplink_history (ops_history s0 ops) (uplink ?s)"
    using ops_history_reached [of "[]" s0 ops] uplink_history.start u0 by simp
  obtain ack m' where "uplink_release (uplink ?s) (ro_epoch ?s) = (Some (load, ack), m')"
    using assms(2) by (cases "uplink_release (uplink ?s) (ro_epoch ?s)") (auto simp: due_load_def split: if_splits)
  from release_two_phase [OF h this] show ?thesis by simp
qed

text \<open>
  C6: two-phase commanding through the package.  When the next release executes a load, the
  run contains a request that staged this load and was accepted by every check under the
  plan, the epoch and the navigation of that moment, and after it a commit request naming
  the load, at least two releases before the load's requested epoch, which is now.
\<close>
theorem package_loads_two_phase:
  assumes "new_reference_ops cfg = Some s0" "due_load (snd (ops_run s0 ops)) = Some load"
  shows "ro_epoch (snd (ops_run s0 ops)) = requested_effective_epoch load
    \<and> (\<exists>before between after evm request plan.
        ops = before @ StageLoad load evm # between @ CommitLoad request # after
        \<and> ro_plan (snd (ops_run s0 before)) = Some plan
        \<and> validate_stage load (ro_epoch (snd (ops_run s0 before))) evm (navigation (inner (snd (ops_run s0 before))))
            ksa_g10r_reference_ops_manifest plan = Accepted
        \<and> uc_kind request = CommitRequest \<and> uc_load_identity request = load_identity load
        \<and> saturating_add (ro_epoch (snd (ops_run s0 (before @ StageLoad load evm # between)))) 2 \<le> requested_effective_epoch load)"
proof -
  let ?s = "snd (ops_run s0 ops)"
  have u0: "uplink s0 = new_uplink_manager" using assms(1) by (auto simp: new_reference_ops_def split: option.splits)
  have h: "uplink_history (ops_history s0 ops) (uplink ?s)"
    using ops_history_reached [of "[]" s0 ops] uplink_history.start u0 by simp
  obtain ack m' where r: "uplink_release (uplink ?s) (ro_epoch ?s) = (Some (load, ack), m')"
    using assms(2) by (cases "uplink_release (uplink ?s) (ro_epoch ?s)") (auto simp: due_load_def split: if_splits)
  note c = release_two_phase [OF h r]
  then obtain request c x h1 h2 where hc: "ops_history s0 ops = h1 @ (Commit request, c, x) # h2" "staged_in load h2"
      "uc_kind request = CommitRequest" "uc_load_identity request = load_identity load" "saturating_add c 2 \<le> requested_effective_epoch load"
    unfolding committed_in_def by blast
  obtain ops1 opn after where o1: "ops = ops1 @ opn # after" "step_history (snd (ops_run s0 ops1)) opn = [(Commit request, c, x)]"
      "ops_history s0 ops1 = h2"
    using hc(1) by (rule ops_history_split)
  have opn: "opn = CommitLoad request" "c = ro_epoch (snd (ops_run s0 ops1))"
    using o1(2) by (auto simp: step_history_def split: option.splits ops_op.splits)
  obtain e evm nav manifest plan y where st: "(Stage load evm nav manifest plan, e, y) \<in> set h2"
      "validate_stage load e evm nav manifest plan = Accepted"
    using hc(2) unfolding staged_in_def by blast
  then obtain k1 k2 where "ops_history s0 ops1 = k1 @ (Stage load evm nav manifest plan, e, y) # k2"
    using o1(3) by (auto dest: split_list)
  then obtain before opn' between where o2: "ops1 = before @ opn' # between"
      "step_history (snd (ops_run s0 before)) opn' = [(Stage load evm nav manifest plan, e, y)]"
    by (rule ops_history_split)
  have opn': "opn' = StageLoad load evm" "e = ro_epoch (snd (ops_run s0 before))" "nav = navigation (inner (snd (ops_run s0 before)))"
      "manifest = ksa_g10r_reference_ops_manifest" "ro_plan (snd (ops_run s0 before)) = Some plan"
    using o2(2) by (auto simp: step_history_def split: option.splits ops_op.splits)
  have "ops = before @ StageLoad load evm # between @ CommitLoad request # after" using o1(1) o2(1) opn(1) opn'(1) by simp
  moreover have "ro_plan (snd (ops_run s0 before)) = Some plan
      \<and> validate_stage load (ro_epoch (snd (ops_run s0 before))) evm (navigation (inner (snd (ops_run s0 before))))
          ksa_g10r_reference_ops_manifest plan = Accepted"
    using st(2) opn' by simp
  moreover have "saturating_add (ro_epoch (snd (ops_run s0 (before @ StageLoad load evm # between)))) 2 \<le> requested_effective_epoch load"
    using hc(5) opn(2) o2(1) opn'(1) by simp
  ultimately have "ops = before @ StageLoad load evm # between @ CommitLoad request # after
      \<and> ro_plan (snd (ops_run s0 before)) = Some plan
      \<and> validate_stage load (ro_epoch (snd (ops_run s0 before))) evm (navigation (inner (snd (ops_run s0 before))))
          ksa_g10r_reference_ops_manifest plan = Accepted
      \<and> uc_kind request = CommitRequest \<and> uc_load_identity request = load_identity load
      \<and> saturating_add (ro_epoch (snd (ops_run s0 (before @ StageLoad load evm # between)))) 2 \<le> requested_effective_epoch load"
    using hc(3,4) by simp
  then show ?thesis using c by blast
qed

end
