(* ===== verification/Ops_Contract.thy ===== *)
theory Ops_Contract
  imports Reference_Ops
begin

text \<open>
  Consequences for the reference operations package: a committed safe request silences the
  vehicle for good, a ground blackout does not touch the flight, what the package journals
  and predicts can be downlinked, and a concrete run that stages, commits and executes.
\<close>

unbundle bit_operations_syntax

subsection \<open>A concrete run\<close>

definition sample_ops :: ReferenceOps where
  "sample_ops = \<lparr>inner = sample_computer, ro_plan = None, uplink = new_uplink_manager, journal = new_event_journal,
     ro_epoch = 0, last_prediction = None, active_plan_checksum = 0, prediction_dirty = False\<rparr>"

definition sample_uplink :: "UplinkLoadType \<Rightarrow> i32 \<Rightarrow> UplinkCommandLoad" where
  "sample_uplink lt argument = \<lparr>load_identity = 9, ul_package_manifest_identity = 0x11f5a001, ul_plan_identity = 0x11a00001,
     ul_abi = GlobalKlr10V1, source_estimator_identity = 1, source_estimator_checksum = 1, stage_epoch = 0,
     not_before_epoch = 0, expires_epoch = 10, requested_effective_epoch = 2, ul_required_capabilities = load_capability lt,
     prerequisite_event_mask = 0, position_residual_limit_q12 = 0, velocity_residual_limit_q24 = 0,
     ul_frame = LocalEnuV1, load_type = lt, ul_arguments = argument # replicate 15 0\<rparr>"

definition safe_commit :: UplinkControlRecord where
  "safe_commit = \<lparr>uc_kind = CommitRequest, control_identity = 1, uc_load_identity = 9,
     uc_package_manifest_identity = 0x11f5a001, uc_plan_identity = 0x11a00001, request_epoch = 0,
     uc_effective_epoch = 2, uc_state = Committed, uc_reason = Accepted, receipt_checksum = 0\<rparr>"

definition command_ops :: "UplinkLoadType \<Rightarrow> i32 \<Rightarrow> ops_op list" where
  "command_ops lt argument = [Initialize ksa_g10r_reference_mission_plan, StageLoad (sample_uplink lt argument) 0, CommitLoad safe_commit]"

definition coasting :: "ops_op list" where
  "coasting = [ReleaseEpoch None None None, ReleaseEpoch None None None]"

lemma sample_ops_new: "new_reference_ops ksa_g10r_reference_flight_config = Some sample_ops"
  by (simp add: new_reference_ops_def sample_computer_new sample_ops_def)

lemma reference_plan_fields:
  "plan_identity ksa_g10r_reference_mission_plan = 0x11a00001"
  "mp_required_capabilities ksa_g10r_reference_mission_plan = 255"
  "manifest_identity ksa_g10r_reference_ops_manifest = 0x11f5a001" "fm_abi ksa_g10r_reference_ops_manifest = GlobalKlr10V1"
  "capabilities ksa_g10r_reference_ops_manifest = 255" "command_load_support ksa_g10r_reference_ops_manifest = 31"
  by (simp_all add: ksa_g10r_reference_mission_plan_def ksa_g10r_reference_ops_manifest_def reference_constants package_masks)

lemma initialized:
  "fst (initialize_mission_plan s ksa_g10r_reference_mission_plan)"
  "ro_plan (snd (initialize_mission_plan s ksa_g10r_reference_mission_plan)) = Some ksa_g10r_reference_mission_plan"
  "inner (snd (initialize_mission_plan s plan)) = inner s"
  "uplink (snd (initialize_mission_plan s plan)) = uplink s" "ro_epoch (snd (initialize_mission_plan s plan)) = ro_epoch s"
  using reference_plan_valid(3) by (simp_all add: initialize_mission_plan_def Let_def plan_fits_def)

lemma sample_uplink_fields:
  "load_identity (sample_uplink lt x) = 9" "requested_effective_epoch (sample_uplink lt x) = 2"
  "ul_package_manifest_identity (sample_uplink lt x) = 0x11f5a001" "ul_plan_identity (sample_uplink lt x) = 0x11a00001"
  "not_before_epoch (sample_uplink lt x) = 0" "expires_epoch (sample_uplink lt x) = 10"
  "load_type (sample_uplink lt x) = lt" "ul_arguments (sample_uplink lt x) ! 0 = x"
  by (simp_all add: sample_uplink_def)

lemma sample_uplink_accepted:
  "lt \<noteq> GroundNavigationUpdate \<Longrightarrow> validate_stage (sample_uplink lt x) 0 0 (navigation sample_computer) ksa_g10r_reference_ops_manifest ksa_g10r_reference_mission_plan = Accepted"
  by (cases lt) (simp_all add: validate_stage_def reference_plan_fields sample_computer_frame sample_uplink_def saturating_add_def
      package_masks)

lemma accepted_stage:
  assumes "ro_plan s = Some plan" "um_pending (uplink s) = None" "last_executed_identity (uplink s) \<noteq> load_identity load"
    "validate_stage load (ro_epoch s) evm (navigation (inner s)) ksa_g10r_reference_ops_manifest plan = Accepted"
    "stage_uplink s load evm = (r, s')"
  shows "ro_plan s' = Some plan" "inner s' = inner s" "ro_epoch s' = ro_epoch s"
    "um_pending (uplink s') = Some \<lparr>pu_load = load, pu_state = Staged, pu_effective_epoch = requested_effective_epoch load\<rparr>"
  using assms by (auto simp: stage_uplink_def uplink_stage_def receipt_def Let_def split: prod.splits)

lemma accepted_commit:
  assumes "ro_plan s = Some plan" "um_pending (uplink s) = Some p" "pu_state p = Staged"
    "uc_kind request = CommitRequest" "uc_load_identity request = load_identity (pu_load p)"
    "uc_package_manifest_identity request = ul_package_manifest_identity (pu_load p)"
    "uc_plan_identity request = ul_plan_identity (pu_load p)"
    "uc_effective_epoch request = requested_effective_epoch (pu_load p)"
    "saturating_add (ro_epoch s) 2 \<le> uc_effective_epoch request" "not_before_epoch (pu_load p) \<le> uc_effective_epoch request"
    "uc_effective_epoch request \<le> expires_epoch (pu_load p)"
    "commit_uplink s request = (r, s')"
  shows "ro_plan s' = Some plan" "inner s' = inner s" "ro_epoch s' = ro_epoch s"
    "um_pending (uplink s') = Some (p\<lparr>pu_state := Committed, pu_effective_epoch := requested_effective_epoch (pu_load p)\<rparr>)"
proof -
  have w: "\<not> uc_effective_epoch request < saturating_add (ro_epoch s) 2" "\<not> uc_effective_epoch request < not_before_epoch (pu_load p)"
    "\<not> expires_epoch (pu_load p) < uc_effective_epoch request"
    using assms(9-11) by (simp_all only: not_less)
  have "uplink_commit (uplink s) request (ro_epoch s) = receipt (uplink s\<lparr>um_pending :=
      Some (p\<lparr>pu_state := Committed, pu_effective_epoch := uc_effective_epoch request\<rparr>)\<rparr>) CommitReceipt (pu_load p)
      (ro_epoch s) (uc_effective_epoch request) Committed Accepted"
    using assms(2-8) w by (simp add: uplink_commit_def)
  then show "ro_plan s' = Some plan" "inner s' = inner s" "ro_epoch s' = ro_epoch s"
    "um_pending (uplink s') = Some (p\<lparr>pu_state := Committed, pu_effective_epoch := requested_effective_epoch (pu_load p)\<rparr>)"
    using assms(1,8,12) by (auto simp: commit_uplink_def receipt_def Let_def)
qed

lemma commanded:
  fixes x :: i32
  assumes "lt \<noteq> GroundNavigationUpdate"
  defines "s \<equiv> snd (ops_run sample_ops (command_ops lt x))"
  shows "um_pending (uplink s) = Some \<lparr>pu_load = sample_uplink lt x, pu_state = Committed, pu_effective_epoch = 2\<rparr>"
    "ro_epoch s = 0" "ro_plan s = Some ksa_g10r_reference_mission_plan" "inner s = sample_computer"
proof -
  obtain s1 where s1: "s1 = snd (initialize_mission_plan sample_ops ksa_g10r_reference_mission_plan)" by blast
  have f1: "ro_plan s1 = Some ksa_g10r_reference_mission_plan" "inner s1 = sample_computer" "uplink s1 = new_uplink_manager" "ro_epoch s1 = 0"
    by (simp_all add: s1 initialized) (simp_all add: sample_ops_def)
  obtain r2 s2 where s2: "stage_uplink s1 (sample_uplink lt x) 0 = (r2, s2)" by fastforce
  note id = sample_uplink_fields
  have v: "validate_stage (sample_uplink lt x) (ro_epoch s1) 0 (navigation (inner s1)) ksa_g10r_reference_ops_manifest ksa_g10r_reference_mission_plan = Accepted"
    using sample_uplink_accepted [OF assms(1)] f1 by simp
  have n: "um_pending (uplink s1) = None" "last_executed_identity (uplink s1) \<noteq> load_identity (sample_uplink lt x)"
    by (simp_all add: f1(3) new_uplink_manager_def id)
  note f2 = accepted_stage [OF f1(1) n v s2, unfolded f1 id]
  obtain r3 s3 where s3: "commit_uplink s2 safe_commit = (r3, s3)" by fastforce
  have f3: "ro_plan s3 = Some ksa_g10r_reference_mission_plan" "inner s3 = sample_computer" "ro_epoch s3 = 0"
    "um_pending (uplink s3) = Some \<lparr>pu_load = sample_uplink lt x, pu_state = Committed, pu_effective_epoch = 2\<rparr>"
    using accepted_commit [OF f2(1,4) _ _ _ _ _ _ _ _ _ s3] f2 id by (simp_all add: safe_commit_def saturating_add_def)
  have "s = s3" by (simp add: s_def command_ops_def s1 [symmetric] s2 s3)
  then show "um_pending (uplink s) = Some \<lparr>pu_load = sample_uplink lt x, pu_state = Committed, pu_effective_epoch = 2\<rparr>"
    "ro_epoch s = 0" "ro_plan s = Some ksa_g10r_reference_mission_plan" "inner s = sample_computer"
    using f3 by simp_all
qed

lemma waiting_release:
  assumes "um_pending (uplink s) = Some p" "ro_plan s \<noteq> None" "ro_epoch s < pu_effective_epoch p" "ro_epoch s \<le> expires_epoch (pu_load p)"
    "process_release s f a t = (e, s')"
  shows "um_pending (uplink s') = Some p" "ro_plan s' = ro_plan s" "ro_epoch s' = saturating_add (ro_epoch s) 1" "due_load s = None"
proof -
  have "uplink_release (uplink s) (ro_epoch s) = (None, uplink s)"
    using assms(1,3,4) by (auto simp: uplink_release_def)
  then show "um_pending (uplink s') = Some p" "ro_plan s' = ro_plan s" "ro_epoch s' = saturating_add (ro_epoch s) 1" "due_load s = None"
    using process_release_fields [OF assms(5)] assms(1,2) by (simp_all add: due_load_def)
qed

lemma sample_uplink_due:
  assumes "lt \<noteq> GroundNavigationUpdate"
  shows "due_load (snd (ops_run sample_ops (command_ops lt x @ coasting))) = Some (sample_uplink lt x)"
proof -
  let ?s = "snd (ops_run sample_ops (command_ops lt x))"
  obtain e1 s1 where r1: "process_release ?s None None None = (e1, s1)" by fastforce
  obtain e2 s2 where r2: "process_release s1 None None None = (e2, s2)" by fastforce
  note ex = sample_uplink_fields(6) [of lt x]
  note w1 = waiting_release [OF commanded(1) [OF assms] _ _ _ r1]
  have f1: "um_pending (uplink s1) = Some \<lparr>pu_load = sample_uplink lt x, pu_state = Committed, pu_effective_epoch = 2\<rparr>" "ro_plan s1 \<noteq> None" "ro_epoch s1 = 1"
    using w1 commanded(2,3) [OF assms, of x] ex by (simp_all add: saturating_add_def)
  have f2: "um_pending (uplink s2) = Some \<lparr>pu_load = sample_uplink lt x, pu_state = Committed, pu_effective_epoch = 2\<rparr>" "ro_plan s2 \<noteq> None" "ro_epoch s2 = 2"
    using waiting_release [OF f1(1,2) _ _ r2] f1(2,3) ex by (simp_all add: saturating_add_def)
  have "snd (ops_run sample_ops (command_ops lt x @ coasting)) = s2"
    by (simp add: ops_run_append coasting_def r1 r2)
  moreover have "due_load s2 = Some (sample_uplink lt x)" using f2 ex by (simp add: due_load_def uplink_release_def receipt_def Let_def)
  ultimately show ?thesis by simp
qed

definition safe_load :: UplinkCommandLoad where
  "safe_load = sample_uplink HighLevelMode 2"

definition safe_run :: "ops_op list" where
  "safe_run = command_ops HighLevelMode 2 @ coasting"

lemma safe_load_due: "due_load (snd (ops_run sample_ops safe_run)) = Some safe_load"
  unfolding safe_load_def safe_run_def by (rule sample_uplink_due) simp

theorem package_loads_two_phase_witness:
  "\<exists>before between after evm request. safe_run = before @ StageLoad safe_load evm # between @ CommitLoad request # after
     \<and> uc_load_identity request = load_identity safe_load"
  using package_loads_two_phase [OF sample_ops_new safe_load_due] by blast

theorem inactive_package_is_frozen_witness:
  "flight_run (inner sample_ops) [Tick None None None] = (fst (ops_run sample_ops [Communications True, ReleaseEpoch None None None]),
     inner (snd (ops_run sample_ops [Communications True, ReleaseEpoch None None None])))"
  using inactive_package_is_frozen [OF sample_ops_new, of "[Communications True, ReleaseEpoch None None None]"] by simp

subsection \<open>A committed safe request\<close>

text \<open>
  C24: a committed safe request is final.  When the load due at a release is a mode request of
  level two or above, the evidence of that release and of every later one reports the safe
  state with an inert command, whatever sensors, loads and ground events follow.
\<close>
theorem safe_request_silences:
  assumes "due_load s = Some load" "load_type load = HighLevelMode" "2 \<le>s ul_arguments load ! 0"
    "ops_run s (ReleaseEpoch f a t # ops) = (es, s')" "e \<in> set es"
  shows "ev_safe e \<and> inert (ev_command e)"
proof -
  let ?ops = "ReleaseEpoch f a t # ops"
  have "load_effect (ro_epoch s) load = [RequestSafe]" using assms(2,3) by (simp add: load_effect_def Let_def)
  then have "flight_trace s ?ops = RequestSafe # Tick f a t # flight_trace (snd (ops_step s (ReleaseEpoch f a t))) ops"
    using assms(1) by (simp add: flight_ops_def)
  then obtain rest where tr: "flight_trace s ?ops = RequestSafe # rest" by blast
  have "fst (ops_run s ?ops) = es" using assms(4) by (metis fst_conv)
  then have "flight_run (inner s) (RequestSafe # rest) = (es, inner (snd (ops_run s ?ops)))"
    using flight_trace_run [of s ?ops] unfolding tr by simp
  then have r: "flight_run (operational_request_safe (inner s)) rest = (es, inner (snd (ops_run s ?ops)))"
    by (simp split: prod.splits)
  have "safe (operational_request_safe (inner s))" by (simp add: operational_request_safe_def)
  then show ?thesis using flight_run_safe [OF r] assms(5) by blast
qed

theorem safe_request_silences_witness:
  "\<exists>e s'. ops_run (snd (ops_run sample_ops safe_run)) [ReleaseEpoch None None None] = ([e], s') \<and> ev_safe e \<and> inert (ev_command e)"
proof -
  let ?s = "snd (ops_run sample_ops safe_run)"
  obtain e s' where r: "process_release ?s None None None = (e, s')" by fastforce
  then have "ops_run ?s [ReleaseEpoch None None None] = ([e], s')" by simp
  with safe_request_silences [OF safe_load_due _ _ this, of e] show ?thesis
    by (auto simp: safe_load_def sample_uplink_fields)
qed

subsection \<open>Ground communications\<close>

definition flight_part :: "ReferenceOps \<Rightarrow> ReferenceOps" where
  "flight_part s = s\<lparr>journal := new_event_journal\<rparr>"

lemma flight_part_simps [simp]:
  "inner (flight_part s) = inner s" "ro_plan (flight_part s) = ro_plan s" "uplink (flight_part s) = uplink s"
  "ro_epoch (flight_part s) = ro_epoch s" "last_prediction (flight_part s) = last_prediction s"
  "active_plan_checksum (flight_part s) = active_plan_checksum s" "prediction_dirty (flight_part s) = prediction_dirty s"
  "flight_part (s\<lparr>inner := c\<rparr>) = (flight_part s)\<lparr>inner := c\<rparr>" "flight_part (s\<lparr>ro_plan := q\<rparr>) = (flight_part s)\<lparr>ro_plan := q\<rparr>"
  "flight_part (s\<lparr>uplink := m\<rparr>) = (flight_part s)\<lparr>uplink := m\<rparr>" "flight_part (s\<lparr>ro_epoch := n\<rparr>) = (flight_part s)\<lparr>ro_epoch := n\<rparr>"
  "flight_part (s\<lparr>last_prediction := r\<rparr>) = (flight_part s)\<lparr>last_prediction := r\<rparr>"
  "flight_part (s\<lparr>active_plan_checksum := k\<rparr>) = (flight_part s)\<lparr>active_plan_checksum := k\<rparr>"
  "flight_part (s\<lparr>prediction_dirty := d\<rparr>) = (flight_part s)\<lparr>prediction_dirty := d\<rparr>"
  "flight_part (flight_part s) = flight_part s" "flight_part (ops_journal s knd p q' args) = flight_part s"
  "flight_part (journal_receipt s u) = flight_part s"
  by (simp_all add: flight_part_def ops_journal_def journal_receipt_def)

lemma apply_committed_part:
  "fst (apply_committed (flight_part s) load) = fst (apply_committed s load)"
  "snd (apply_committed (flight_part s) load) = flight_part (snd (apply_committed s load))"
  by (simp_all add: apply_committed_def Let_def split: UplinkLoadType.splits prod.splits)

lemma execute_release_part:
  "flight_part (execute_release (flight_part s) load ack) = flight_part (execute_release s load ack)"
  using apply_committed_part [of s load]
  by (cases "apply_committed s load"; cases "apply_committed (flight_part s) load")
     (auto simp: execute_release_def Let_def)

lemma release_uplink_part: "flight_part (release_uplink (flight_part s)) = flight_part (release_uplink s)"
proof (cases "uplink_release (uplink s) (ro_epoch s)")
  case (Pair r m)
  have "flight_part (execute_release ((flight_part s)\<lparr>uplink := m\<rparr>) load ack) = flight_part (execute_release (s\<lparr>uplink := m\<rparr>) load ack)" for load ack
    using execute_release_part [of "s\<lparr>uplink := m\<rparr>" load ack] by simp
  then show ?thesis using Pair by (auto simp: release_uplink_def split: option.splits)
qed

lemma update_prediction_part: "flight_part (update_prediction (flight_part s) e) = flight_part (update_prediction s e)"
  by (simp add: update_prediction_def Let_def split: option.splits)

lemma process_release_part:
  "fst (process_release (flight_part s) f a t) = fst (process_release s f a t)"
  "flight_part (snd (process_release (flight_part s) f a t)) = flight_part (snd (process_release s f a t))"
proof -
  let ?r = "release_uplink s" and ?q = "release_uplink (flight_part s)"
  have p: "flight_part ?q = flight_part ?r" by (rule release_uplink_part)
  then have i: "inner ?q = inner ?r" "ro_epoch ?q = ro_epoch ?r" by (metis flight_part_simps(1), metis flight_part_simps(4))
  obtain e c where t: "tick (inner ?r) f a t = (e, c)" by fastforce
  then show "fst (process_release (flight_part s) f a t) = fst (process_release s f a t)"
    using i by (simp add: process_release_def Let_def)
  have "flight_part (update_prediction (?q\<lparr>inner := c\<rparr>) e) = flight_part (update_prediction (?r\<lparr>inner := c\<rparr>) e)"
    using update_prediction_part [of "?q\<lparr>inner := c\<rparr>" e] update_prediction_part [of "?r\<lparr>inner := c\<rparr>" e] p by simp
  then show "flight_part (snd (process_release (flight_part s) f a t)) = flight_part (snd (process_release s f a t))"
    using t i by (simp add: process_release_def Let_def)
qed

lemma ops_step_part:
  "fst (ops_step (flight_part s) opn) = fst (ops_step s opn)"
  "flight_part (snd (ops_step (flight_part s) opn)) = flight_part (snd (ops_step s opn))"
proof -
  have "fst (ops_step (flight_part s) opn) = fst (ops_step s opn)
      \<and> flight_part (snd (ops_step (flight_part s) opn)) = flight_part (snd (ops_step s opn))"
  proof (cases opn)
    case (Initialize plan)
    then show ?thesis by (simp add: initialize_mission_plan_def Let_def)
  next
    case (StageLoad load evm)
    then show ?thesis by (cases "ro_plan s") (auto simp: stage_uplink_def split: prod.splits)
  next
    case (CommitLoad request)
    then show ?thesis by (cases "ro_plan s") (auto simp: commit_uplink_def split: prod.splits)
  next
    case (CancelLoad request)
    then show ?thesis by (cases "ro_plan s") (auto simp: cancel_uplink_def split: prod.splits)
  next
    case (Communications available)
    then show ?thesis by (simp add: record_ground_communications_def)
  next
    case (ReleaseEpoch f a t)
    then show ?thesis using process_release_part [of s f a t]
      by (cases "process_release s f a t"; cases "process_release (flight_part s) f a t") simp
  qed
  then show "fst (ops_step (flight_part s) opn) = fst (ops_step s opn)"
    "flight_part (snd (ops_step (flight_part s) opn)) = flight_part (snd (ops_step s opn))" by simp_all
qed

fun is_communications :: "ops_op \<Rightarrow> bool" where
  "is_communications (Communications available) \<longleftrightarrow> True"
| "is_communications _ \<longleftrightarrow> False"

text \<open>
  C35: the flight does not depend on the ground link's communications events.  Removing every
  acquisition and loss of communications from a run leaves the evidence of every release
  and the whole state of the package unchanged, apart from the event journal.
\<close>
theorem blackout_preserves_flight:
  "fst (ops_run s (filter (\<lambda>opn. \<not> is_communications opn) ops)) = fst (ops_run s ops)
   \<and> flight_part (snd (ops_run s (filter (\<lambda>opn. \<not> is_communications opn) ops))) = flight_part (snd (ops_run s ops))"
proof -
  have "flight_part s = flight_part u \<Longrightarrow>
      fst (ops_run u (filter (\<lambda>opn. \<not> is_communications opn) ops)) = fst (ops_run s ops)
      \<and> flight_part (snd (ops_run u (filter (\<lambda>opn. \<not> is_communications opn) ops))) = flight_part (snd (ops_run s ops))" for s u
  proof (induction ops arbitrary: s u)
    case (Cons opn ops)
    have st: "fst (ops_step u opn) = fst (ops_step s opn)" "flight_part (snd (ops_step u opn)) = flight_part (snd (ops_step s opn))"
      using ops_step_part [of s opn] ops_step_part [of u opn] Cons.prems by simp_all
    show ?case
    proof (cases "is_communications opn")
      case True
      then have "fst (ops_step s opn) = []" "flight_part (snd (ops_step s opn)) = flight_part s"
        by (cases opn; simp add: record_ground_communications_def)+
      then show ?thesis using Cons.IH [of "snd (ops_step s opn)" u] Cons.prems True by (simp add: ops_run_Cons del: ops_run.simps(2))
    next
      case False
      then show ?thesis using Cons.IH [of "snd (ops_step s opn)" "snd (ops_step u opn)"] st by (simp add: ops_run_Cons del: ops_run.simps(2))
    qed
  qed simp
  then show ?thesis by blast
qed

subsection \<open>Loads acknowledged without effect\<close>

text \<open>
  C37: an executed load may have no effect.  A navigation update whose frame the flight has
  left since it was staged, and an event target for an unknown selector, change nothing in
  the flight computer; the release still acknowledges them as executed and accepted, and a
  repetition of the load is answered as already applied.
\<close>
theorem unapplied_load_acknowledged:
  assumes "ro_plan s \<noteq> None" "uplink_release (uplink s) (ro_epoch s) = (Some (load, ack), m)"
    "load_type load = GroundNavigationUpdate \<and> ul_frame load \<noteq> nav_frame (navigation (inner s))
     \<or> load_type load = MissionEventTarget \<and> (ucast (ul_arguments load ! 0) :: u8) \<notin> {1, 2}"
    "process_release s f a t = (e, s')"
  shows "tick (inner s) f a t = (e, inner s') \<and> uc_state ack = Executed \<and> uc_reason ack = Accepted
    \<and> (\<exists>r s''. stage_uplink s' load evm = (Some r, s'') \<and> uc_reason r = AlreadyApplied)"
proof -
  have ack: "uc_state ack = Executed" "uc_reason ack = Accepted" "last_executed_identity m = load_identity load"
    using assms(2) by (auto simp: uplink_release_def receipt_def Let_def split: option.splits if_splits)
  have "apply_committed (s\<lparr>uplink := m\<rparr>) load = (False, s\<lparr>uplink := m\<rparr>)"
    using assms(3) by (auto simp: apply_committed_def operational_navigation_update_def operational_guidance_target_def Let_def)
  then have "inner (release_uplink s) = inner s"
    using assms(1,2) by (auto simp: release_uplink_def execute_release_def Let_def)
  moreover note r = process_release_fields [OF assms(4)]
  moreover have "uplink s' = m" using r(3) assms(1,2) by simp
  moreover obtain plan where plan: "ro_plan s' = Some plan" using r(1) assms(1) by auto
  have st: "\<exists>r u. uplink_stage m load n evm nav manifest plan = (r, u) \<and> uc_reason r = AlreadyApplied" for n nav manifest plan
    using ack(3) by (simp add: uplink_stage_def receipt_def Let_def)
  ultimately have t: "tick (inner s) f a t = (e, inner s')" and u: "uplink s' = m" by simp_all
  have "\<exists>r s''. stage_uplink s' load evm = (Some r, s'') \<and> uc_reason r = AlreadyApplied"
  proof (cases "uplink_stage m load (ro_epoch s') evm (navigation (inner s')) ksa_g10r_reference_ops_manifest plan")
    case (Pair r v)
    then have "uc_reason r = AlreadyApplied" using st [of "ro_epoch s'" "navigation (inner s')" ksa_g10r_reference_ops_manifest plan] by simp
    then show ?thesis using Pair by (simp add: stage_uplink_def plan u)
  qed
  then show ?thesis using t ack(1,2) by blast
qed

theorem unapplied_load_acknowledged_witness:
  "\<exists>load ack m e s'. uplink_release (uplink (snd (ops_run sample_ops (command_ops MissionEventTarget 3 @ coasting)))) 2 = (Some (load, ack), m)
     \<and> process_release (snd (ops_run sample_ops (command_ops MissionEventTarget 3 @ coasting))) None None None = (e, s')
     \<and> tick (inner (snd (ops_run sample_ops (command_ops MissionEventTarget 3 @ coasting)))) None None None = (e, inner s')
     \<and> uc_state ack = Executed"
proof -
  let ?s = "snd (ops_run sample_ops (command_ops MissionEventTarget 3 @ coasting))"
  have d: "due_load ?s = Some (sample_uplink MissionEventTarget 3)" by (rule sample_uplink_due) simp
  then have p: "ro_plan ?s \<noteq> None" by (auto simp: due_load_def split: if_splits)
  obtain ack m where r: "uplink_release (uplink ?s) (ro_epoch ?s) = (Some (sample_uplink MissionEventTarget 3, ack), m)"
    using d by (cases "uplink_release (uplink ?s) (ro_epoch ?s)") (auto simp: due_load_def split: if_splits)
  obtain e s' where pr: "process_release ?s None None None = (e, s')" by fastforce
  have "ro_epoch ?s = 2"
    using package_loads_two_phase_epoch [OF sample_ops_new d] by (simp add: sample_uplink_fields)
  with unapplied_load_acknowledged [OF p r _ pr, of 0] r pr show ?thesis
    by (simp add: sample_uplink_fields)
qed

subsection \<open>What the package reports can be downlinked\<close>

definition record_ok :: "EventJournalRecord \<Rightarrow> bool" where
  "record_ok r \<longleftrightarrow> jr_sequence r \<noteq> 0 \<and> jr_flags r = 0 \<and> length (jr_arguments r) = 4"

definition journal_ok :: "EventJournal \<Rightarrow> bool" where
  "journal_ok j \<longleftrightarrow> journal_wf j \<and> next_sequence j \<noteq> 0 \<and> (\<forall>r \<in> set (contents j). record_ok r)"

definition plan_identified :: "MissionPlan \<Rightarrow> bool" where
  "plan_identified q \<longleftrightarrow> plan_identity q \<noteq> 0 \<and> package_manifest_identity q \<noteq> 0 \<and> onboard_prediction_model q \<noteq> 0"

definition reports_ok :: "ReferenceOps \<Rightarrow> bool" where
  "reports_ok s \<longleftrightarrow> journal_ok (journal s) \<and> (\<forall>q. ro_plan s = Some q \<longrightarrow> plan_identified q)
     \<and> (\<forall>p. last_prediction s = Some p \<longrightarrow> prediction_bound p)"

lemma journal_append_ok:
  assumes "journal_ok j" "length args = 4"
  shows "journal_ok (snd (journal_append j ep knd prim secnd args))"
proof -
  obtain entry j' where a: "journal_append j ep knd prim secnd args = (entry, j')" by fastforce
  have c: "journal_wf j' \<and> contents j' = last_n 32 (contents j @ [entry])"
    by (rule journal_append_contents [OF _ a]) (use assms(1) in \<open>simp add: journal_ok_def\<close>)
  have "record_ok entry" "next_sequence j' = saturating_add (next_sequence j) 1"
    using a assms by (auto simp: journal_append_def Let_def record_ok_def journal_ok_def split: if_splits prod.splits)
  moreover have "saturating_add (next_sequence j) 1 \<noteq> 0"
  proof -
    have "unat (saturating_add (next_sequence j) 1) \<noteq> 0" by (simp add: unat_saturating_add)
    then show ?thesis by auto
  qed
  ultimately show ?thesis using assms(1) c by (auto simp: journal_ok_def last_n_def a dest: in_set_dropD)
qed

lemma ops_journal_ok: "reports_ok s \<Longrightarrow> length args = 4 \<Longrightarrow> reports_ok (ops_journal s knd p q args)"
proof -
  assume "reports_ok s" "length args = 4"
  moreover from this have "journal_ok (snd (journal_append (journal s) (ro_epoch s) knd p q args))"
    by (intro journal_append_ok) (simp_all add: reports_ok_def)
  ultimately show ?thesis by (simp add: reports_ok_def ops_journal_def)
qed

lemma reports_ok_updates [simp]:
  "reports_ok (s\<lparr>inner := c\<rparr>) = reports_ok s" "reports_ok (s\<lparr>uplink := m\<rparr>) = reports_ok s"
  "reports_ok (s\<lparr>ro_epoch := n\<rparr>) = reports_ok s" "reports_ok (s\<lparr>active_plan_checksum := k\<rparr>) = reports_ok s"
  "reports_ok (s\<lparr>prediction_dirty := d\<rparr>) = reports_ok s"
  by (simp_all add: reports_ok_def)

lemma journal_receipt_ok: "reports_ok s \<Longrightarrow> reports_ok (journal_receipt s r)"
  by (simp add: journal_receipt_def ops_journal_ok)

lemma compact_prediction_bound:
  assumes "plan_identified q"
  shows "prediction_bound ((compact_prediction nav q ep)\<lparr>prediction_checksum := k, prediction_identity := max k 1\<rparr>)"
proof -
  have "max k 1 \<noteq> 0" by (cases "k = 0") (auto simp: max_def)
  moreover have "\<not> saturating_add ep 32 < ep"
    using unsigned_less [of ep, where ?'a = nat] by (simp add: word_less_nat_alt unat_saturating_add)
  ultimately show ?thesis
    using assms by (simp add: prediction_bound_def compact_prediction_def plan_identified_def Let_def split: prod.splits)
qed

lemma apply_committed_ok: "reports_ok s \<Longrightarrow> reports_ok (snd (apply_committed s load))"
  by (simp add: apply_committed_def Let_def split: UplinkLoadType.splits prod.splits)

lemma release_uplink_ok: "reports_ok s \<Longrightarrow> reports_ok (release_uplink s)"
proof -
  assume ok: "reports_ok s"
  have "reports_ok (execute_release (s\<lparr>uplink := m\<rparr>) load ack)" for m load ack
  proof (cases "apply_committed (s\<lparr>uplink := m\<rparr>) load")
    case (Pair applied u)
    then have "reports_ok u" using apply_committed_ok [of "s\<lparr>uplink := m\<rparr>" load] ok by simp
    then show ?thesis using Pair by (simp add: execute_release_def Let_def ops_journal_ok journal_receipt_ok)
  qed
  then show ?thesis using ok by (auto simp: release_uplink_def split: option.splits prod.splits)
qed

lemma update_prediction_ok: "reports_ok s \<Longrightarrow> reports_ok (update_prediction s e)"
proof (cases "ro_plan s")
  case (Some q)
  assume ok: "reports_ok s"
  have set_ok: "reports_ok (u\<lparr>last_prediction := Some p\<rparr>)" if "reports_ok u" "prediction_bound p" for u p
    using that by (simp add: reports_ok_def)
  have "plan_identified q" using ok Some by (simp add: reports_ok_def)
  from compact_prediction_bound [OF this, where nav = "ev_navigation e" and ep = "ro_epoch s"] show ?thesis
    using ok Some by (simp add: update_prediction_def Let_def set_ok ops_journal_ok)
qed (simp add: update_prediction_def)

lemma ops_step_ok:
  assumes "reports_ok s" "\<And>plan. opn = Initialize plan \<Longrightarrow> plan_identified plan"
  shows "reports_ok (snd (ops_step s opn))"
proof (cases opn)
  case (Initialize plan)
  then have "reports_ok (s\<lparr>ro_plan := Some plan, active_plan_checksum := k, prediction_dirty := d\<rparr>)" for k d
    using assms by (simp add: reports_ok_def)
  then show ?thesis using Initialize assms(1) by (simp add: initialize_mission_plan_def Let_def ops_journal_ok)
next
  case (ReleaseEpoch f a t)
  have "reports_ok (snd (process_release s f a t))"
    using update_prediction_ok release_uplink_ok [OF assms(1)] by (simp add: process_release_def Let_def split: prod.splits)
  then show ?thesis using ReleaseEpoch by (cases "process_release s f a t") simp
qed (use assms(1) in \<open>auto simp: stage_uplink_def commit_uplink_def cancel_uplink_def record_ground_communications_def
    journal_receipt_ok ops_journal_ok split: option.splits prod.splits\<close>)

text \<open>
  Whatever the package reports can be sent.  In every run whose mission plans are
  validated, the compact prediction and every journal record a recovery returns are
  accepted by the writers of their wire records and parsed back unchanged.
\<close>
theorem package_reports_encodable:
  assumes "new_reference_ops cfg = Some s0" "\<forall>plan. Initialize plan \<in> set ops \<longrightarrow> validate_plan plan = Inr ()"
    "length out = 256" "length buf = 64"
  shows "(\<forall>p. last_prediction (snd (ops_run s0 ops)) = Some p \<longrightarrow>
        (\<exists>b. write_kpd11 p out = (Inr (), b) \<and> parse_kpd11 b = Inr p))
    \<and> (\<forall>sq records n records'. recover_journal_after (snd (ops_run s0 ops)) sq records = (n, records') \<longrightarrow>
        (\<forall>i < n. \<exists>b. write_kej11 (records' ! i) buf = (Inr (), b) \<and> parse_kej11 b = Inr (records' ! i)))"
proof -
  let ?s = "snd (ops_run s0 ops)"
  have "journal_wf new_event_journal \<and> contents new_event_journal = []"
    using new_journal_wf by simp
  then have s0: "reports_ok s0"
    using assms(1) by (auto simp: new_reference_ops_def reports_ok_def journal_ok_def new_event_journal_def split: option.splits)
  have pid: "plan_identified plan" if "validate_plan plan = Inr ()" for plan
    using that by (simp add: validate_plan_def plan_identified_def)
  have "\<forall>plan. Initialize plan \<in> set ops \<longrightarrow> plan_identified plan" using assms(2) pid by blast
  then have ok: "reports_ok ?s" using s0
  proof (induction ops arbitrary: s0)
    case (Cons opn ops)
    then have "reports_ok (snd (ops_step s0 opn))" by (intro ops_step_ok) auto
    then show ?case using Cons by (simp add: ops_run_Cons del: ops_run.simps(2))
  qed simp
  have "\<exists>b. write_kpd11 p out = (Inr (), b) \<and> parse_kpd11 b = Inr p" if "last_prediction ?s = Some p" for p
    using kpd11.write_parse [OF assms(3), of p] ok that by (auto simp: reports_ok_def)
  moreover have "\<exists>b. write_kej11 (records' ! i) buf = (Inr (), b) \<and> parse_kej11 b = Inr (records' ! i)"
    if "recover_journal_after ?s sq records = (n, records')" "i < n" for sq records n records' i
  proof -
    let ?rs = "filter (\<lambda>r. sq < jr_sequence r) (contents (journal ?s))"
    have "(n, records') = copied ?rs records" using that(1) by (simp add: recover_journal_after_def recover_after_contents)
    then have "i < length ?rs" "records' ! i = ?rs ! i" using that(2) by (auto simp: copied_def nth_append)
    then have "records' ! i \<in> set (contents (journal ?s))"
      using nth_mem [of i ?rs] by simp
    then have "record_ok (records' ! i)" using ok by (simp add: reports_ok_def journal_ok_def)
    then show ?thesis using kej11.write_parse [OF assms(4), of "records' ! i"] by (auto simp: record_ok_def)
  qed
  ultimately show ?thesis by blast
qed

theorem package_reports_encodable_witness:
  "\<exists>p b. last_prediction (snd (ops_run sample_ops [Initialize ksa_g10r_reference_mission_plan, ReleaseEpoch None None None])) = Some p
     \<and> write_kpd11 p (replicate 256 0) = (Inr (), b) \<and> parse_kpd11 b = Inr p"
proof -
  let ?ops = "[Initialize ksa_g10r_reference_mission_plan, ReleaseEpoch None None None]"
  let ?s1 = "snd (initialize_mission_plan sample_ops ksa_g10r_reference_mission_plan)"
  have s1: "ro_plan ?s1 = Some ksa_g10r_reference_mission_plan" "ro_epoch ?s1 = 0" "uplink ?s1 = new_uplink_manager"
    by (simp_all add: initialized) (simp_all add: sample_ops_def)
  have "release_uplink ?s1 = ?s1\<lparr>uplink := new_uplink_manager\<rparr>"
    by (simp add: release_uplink_def s1) (simp add: uplink_release_def new_uplink_manager_def)
  then have "\<exists>p. last_prediction (snd (process_release ?s1 None None None)) = Some p"
    by (simp add: process_release_def Let_def update_prediction_def s1 split: prod.splits)
  then obtain p where p: "last_prediction (snd (ops_run sample_ops ?ops)) = Some p"
    by (cases "process_release ?s1 None None None") auto
  have "\<forall>plan. Initialize plan \<in> set ?ops \<longrightarrow> validate_plan plan = Inr ()" by (simp add: reference_plan_valid(2))
  from package_reports_encodable [OF sample_ops_new this, of "replicate 256 0" "replicate 64 0"] p show ?thesis by auto
qed

end
