(* ===== verification/Flight_Packages.thy ===== *)
theory Flight_Packages
  imports Safehold_Safety Ops_Contract
begin

text \<open>
  The interface the two flight packages share, the trait \<^verbatim>\<open>GlobalKlr10FlightPackage\<close> of
  \<^verbatim>\<open>flight/src/phase11.rs\<close>: one release takes the cells of its epoch and returns the evidence.
  The locale states what every release promises; its lemmas lift the promises to runs; it is
  interpreted on the reference operations package and on the contingency package.
\<close>

unbundle bit_operations_syntax

subsection \<open>Runs of releases\<close>

type_synonym release_cells = "GlobalFastSensorCell option \<times> GlobalAidFrameCell option \<times> GlobalTransitionCell option"

type_synonym 's release = "'s \<Rightarrow> GlobalFastSensorCell option \<Rightarrow> GlobalAidFrameCell option
    \<Rightarrow> GlobalTransitionCell option \<Rightarrow> GlobalFlightEvidence \<times> 's"

fun run_package :: "'s release \<Rightarrow> 's \<Rightarrow> release_cells list \<Rightarrow> GlobalFlightEvidence list \<times> 's" where
  "run_package release s [] = ([], s)"
| "run_package release s ((f, a, t) # cells) =
     (let (e, s') = release s f a t; (es, s'') = run_package release s' cells in (e # es, s''))"

lemma run_package_Cons:
  "release s f a t = (e, s') \<Longrightarrow> run_package release s ((f, a, t) # cells)
     = (e # fst (run_package release s' cells), snd (run_package release s' cells))"
  by (simp split: prod.split)

lemma run_package_append:
  "run_package release s (xs @ ys) =
     (fst (run_package release s xs) @ fst (run_package release (snd (run_package release s xs)) ys),
      snd (run_package release (snd (run_package release s xs)) ys))"
  by (induction release s xs rule: run_package.induct) (simp_all split: prod.split)

lemma run_package_length [simp]: "length (fst (run_package release s cells)) = length cells"
  by (induction cells arbitrary: s) (auto split: prod.splits simp: prod_eq_iff)

text \<open>The command reaches the vehicle: every buffer of the cell's length takes it unchanged.\<close>

definition transmissible :: "GlobalCommandCell \<Rightarrow> bool" where
  "transmissible command \<longleftrightarrow> (\<forall>out. length out = 64 \<longrightarrow>
     (\<exists>b. write_global_command command out = (Inr (), b) \<and> parse_global_command b = Inr command))"

lemma transmissible_valid:
  assumes "length (rcs_pulse_quanta c) = 12" "command_valid c"
  shows "transmissible c"
  unfolding transmissible_def using command_cell.write_parse [OF _ assms] by blast

text \<open>
  The contract of the evidence of a run that starts in epoch \<open>ep\<close> with the given latches:
  commands are numbered and transmissible, the safe state is a latch whose commands move nothing and say safe, and
  each parachute is ordered at most once, the main one only after the drogue latched.
\<close>

definition package_contract :: "u16 \<Rightarrow> bool \<Rightarrow> bool \<Rightarrow> GlobalFlightEvidence list \<Rightarrow> bool" where
  "package_contract ep drogue main es \<longleftrightarrow>
     (\<forall>i < length es. gc_source_epoch (ev_command (es ! i)) = ep + of_nat i
        \<and> gc_effective_epoch (ev_command (es ! i)) = ep + of_nat i + 1 \<and> transmissible (ev_command (es ! i)))
     \<and> (\<forall>i j. i \<le> j \<and> j < length es \<and> ev_safe (es ! i) \<longrightarrow> ev_safe (es ! j) \<and> safed (ev_command (es ! j)))
     \<and> length (filter orders_drogue es) \<le> of_bool (\<not> drogue) \<and> length (filter orders_main es) \<le> of_bool (\<not> main)
     \<and> (\<forall>j < length es. orders_main (es ! j) \<longrightarrow> drogue \<or> (\<exists>i < j. ev_drogue_latched (es ! i)))"

lemma package_contract_main:
  "package_contract ep drogue main es \<Longrightarrow> length (filter orders_main es) \<le> of_bool (\<not> main')
    \<Longrightarrow> package_contract ep drogue main' es"
  unfolding package_contract_def by blast

lemma package_contract_Cons:
  assumes "package_contract (ep + 1) (ev_drogue_latched e) (main \<or> orders_main e) es"
    "gc_source_epoch (ev_command e) = ep" "gc_effective_epoch (ev_command e) = ep + 1" "transmissible (ev_command e)"
    "ev_safe e \<Longrightarrow> safed (ev_command e)" "ev_safe e \<Longrightarrow> \<forall>x \<in> set es. ev_safe x \<and> safed (ev_command x)"
    "drogue \<Longrightarrow> ev_drogue_latched e \<and> \<not> orders_drogue e" "orders_drogue e \<Longrightarrow> ev_drogue_latched e"
    "orders_main e \<Longrightarrow> \<not> main \<and> drogue"
  shows "package_contract ep drogue main (e # es)"
  unfolding package_contract_def
proof (intro conjI)
  note c = assms(1) [unfolded package_contract_def]
  show "\<forall>i < length (e # es). gc_source_epoch (ev_command ((e # es) ! i)) = ep + of_nat i
      \<and> gc_effective_epoch (ev_command ((e # es) ! i)) = ep + of_nat i + 1 \<and> transmissible (ev_command ((e # es) ! i))"
    using c assms(2-4) by (auto simp: nth_Cons algebra_simps split: nat.split)
  show "\<forall>i j. i \<le> j \<and> j < length (e # es) \<and> ev_safe ((e # es) ! i)
      \<longrightarrow> ev_safe ((e # es) ! j) \<and> safed (ev_command ((e # es) ! j))"
  proof (intro allI impI)
    fix i j assume a: "i \<le> j \<and> j < length (e # es) \<and> ev_safe ((e # es) ! i)"
    show "ev_safe ((e # es) ! j) \<and> safed (ev_command ((e # es) ! j))"
    proof (cases j)
      case 0 then show ?thesis using a assms(5) by auto
    next
      case (Suc j')
      then have j: "j' < length es" using a by simp
      show ?thesis
      proof (cases i)
        case 0 then show ?thesis using a assms(6) Suc j by simp
      next
        case (Suc i')
        then show ?thesis using c a j \<open>j = Suc j'\<close> by auto
      qed
    qed
  qed
  show "length (filter orders_drogue (e # es)) \<le> of_bool (\<not> drogue)"
    using c assms(7,8) by (cases "ev_drogue_latched e"; cases drogue) auto
  show "length (filter orders_main (e # es)) \<le> of_bool (\<not> main)"
    using c assms(9) by (cases "orders_main e"; cases main) auto
  show "\<forall>j < length (e # es). orders_main ((e # es) ! j) \<longrightarrow> drogue \<or> (\<exists>i < j. ev_drogue_latched ((e # es) ! i))"
  proof (intro allI impI)
    fix j assume a: "j < length (e # es)" "orders_main ((e # es) ! j)"
    show "drogue \<or> (\<exists>i < j. ev_drogue_latched ((e # es) ! i))"
    proof (cases j)
      case 0 then show ?thesis using a assms(9) by simp
    next
      case (Suc j')
      then have "ev_drogue_latched e \<or> (\<exists>i < j'. ev_drogue_latched (es ! i))" using a c by auto
      then show ?thesis
      proof
        assume "ev_drogue_latched e"
        then show ?thesis using Suc by (intro disjI2 exI [of _ 0]) simp
      next
        assume "\<exists>i < j'. ev_drogue_latched (es ! i)"
        then obtain i where "i < j'" "ev_drogue_latched (es ! i)" by blast
        then show ?thesis using Suc by (intro disjI2 exI [of _ "Suc i"]) simp
      qed
    qed
  qed
qed

subsection \<open>The interface\<close>

locale flight_package =
  fixes release :: "'s release" and inv :: "'s \<Rightarrow> bool" and epoch_of :: "'s \<Rightarrow> u16"
    and safe_of :: "'s \<Rightarrow> bool" and drogue_of :: "'s \<Rightarrow> bool" and main_of :: "'s \<Rightarrow> bool"
  assumes inv_kept: "inv s \<Longrightarrow> release s f a t = (e, s') \<Longrightarrow> inv s'"
    and numbered: "release s f a t = (e, s') \<Longrightarrow> gc_source_epoch (ev_command e) = epoch_of s
      \<and> gc_effective_epoch (ev_command e) = epoch_of s + 1 \<and> epoch_of s' = epoch_of s + 1"
    and writable: "inv s \<Longrightarrow> release s f a t = (e, s') \<Longrightarrow>
      length (rcs_pulse_quanta (ev_command e)) = 12 \<and> command_valid (ev_command e)"
    and safe_latch: "release s f a t = (e, s') \<Longrightarrow> ev_safe e = safe_of s' \<and> (safe_of s \<longrightarrow> safe_of s')"
    and safe_idle: "release s f a t = (e, s') \<Longrightarrow> safe_of s' \<Longrightarrow> safed (ev_command e)"
    and drogue_latch: "release s f a t = (e, s') \<Longrightarrow> ev_drogue_latched e = drogue_of s'
      \<and> (drogue_of s \<longrightarrow> drogue_of s' \<and> \<not> orders_drogue e) \<and> (orders_drogue e \<longrightarrow> drogue_of s')"
    and main_latch: "inv s \<Longrightarrow> release s f a t = (e, s') \<Longrightarrow> (main_of s \<longrightarrow> main_of s') \<and> (orders_main e \<longrightarrow>
      \<not> main_of s \<and> main_of s' \<and> drogue_of s)"
begin

lemma run_inv: "inv s \<Longrightarrow> inv (snd (run_package release s cells))"
proof (induction cells arbitrary: s)
  case (Cons c cells)
  obtain f a t e s' where c: "c = (f, a, t)" "release s f a t = (e, s')" by (cases c) fastforce
  then show ?case using Cons.IH [of s'] inv_kept [OF Cons.prems c(2)] run_package_Cons [of release, OF c(2)] by simp
qed simp

lemma run_safe:
  "safe_of s \<Longrightarrow> \<forall>e \<in> set (fst (run_package release s cells)). ev_safe e \<and> safed (ev_command e)"
proof (induction cells arbitrary: s)
  case (Cons c cells)
  obtain f a t e s' where c: "c = (f, a, t)" "release s f a t = (e, s')" by (cases c) fastforce
  then have "safe_of s'" "ev_safe e" using safe_latch [OF c(2)] Cons.prems by simp_all
  then show ?case using Cons.IH [of s'] safe_idle [OF c(2)] run_package_Cons [of release, OF c(2)] c(1) by simp
qed simp

lemma run_contract:
  "inv s \<Longrightarrow> package_contract (epoch_of s) (drogue_of s) (main_of s) (fst (run_package release s cells))"
proof (induction cells arbitrary: s)
  case Nil
  then show ?case by (simp add: package_contract_def)
next
  case (Cons c cells)
  obtain f a t e s' where c: "c = (f, a, t)" "release s f a t = (e, s')" by (cases c) fastforce
  let ?es = "fst (run_package release s' cells)"
  note l = safe_latch [OF c(2)] and d = drogue_latch [OF c(2)] and m = main_latch [OF Cons.prems c(2)]
    and n = numbered [OF c(2)] and w = writable [OF Cons.prems c(2)]
  have ih: "package_contract (epoch_of s') (drogue_of s') (main_of s') ?es"
    by (rule Cons.IH [OF inv_kept [OF Cons.prems c(2)]])
  have "package_contract (epoch_of s + 1) (ev_drogue_latched e) (main_of s \<or> orders_main e) ?es"
  proof -
    have "length (filter orders_main ?es) \<le> of_bool (\<not> (main_of s \<or> orders_main e))"
      using ih m by (cases "main_of s'") (auto simp: package_contract_def)
    then show ?thesis using package_contract_main [OF ih] n d by simp
  qed
  then have "package_contract (epoch_of s) (drogue_of s) (main_of s) (e # ?es)"
  proof (rule package_contract_Cons)
    show "transmissible (ev_command e)" using transmissible_valid w by blast
    show "\<forall>x \<in> set ?es. ev_safe x \<and> safed (ev_command x)" if "ev_safe e" using run_safe [of s'] l that by simp
  qed (use n l d m safe_idle [OF c(2)] in auto)
  then show ?case using run_package_Cons [of release, OF c(2)] c(1) by simp
qed

end

subsection \<open>The contingency package provides it\<close>

interpretation safehold: flight_package safehold_release safehold_inv sh_epoch sh_safe sh_drogue_latched sh_main_latched
proof (unfold_locales, goal_cases)
  case (1 s f a t e s') then show ?case using safehold_release_step(1) by blast
next
  case (2 s f a t e s') then show ?case using safehold_release_step(3-5) by blast
next
  case (3 s f a t e s') then show ?case using safehold_release_step(9,10) by blast
next
  case (4 s f a t e s') then show ?case using safehold_release_step(11,12) by blast
next
  case (5 s f a t e s') then show ?case using safehold_release_step(13) by blast
next
  case (6 s f a t e s') then show ?case using safehold_release_step(14,15,20) [OF 6] by blast
next
  case (7 s f a t e s') then show ?case using safehold_release_step(16,17,19) [OF 7(2)] by blast
qed

subsection \<open>The reference package provides it\<close>

lemma apply_committed_latches:
  "same_latches (inner s) (inner (snd (apply_committed s load))) \<and> epoch (inner (snd (apply_committed s load))) = epoch (inner s)"
  by (cases "load_type load")
     (simp_all add: apply_committed_def same_latches_def operational_navigation_update_def operational_guidance_target_def
        operational_request_safe_def fixed_config_def Let_def)

lemma release_uplink_latches:
  "same_latches (inner s) (inner (release_uplink s)) \<and> epoch (inner (release_uplink s)) = epoch (inner s)"
proof -
  have e: "inner (execute_release (s\<lparr>uplink := m\<rparr>) load ack) = inner (snd (apply_committed (s\<lparr>uplink := m\<rparr>) load))"
    for m load ack
    by (cases "apply_committed (s\<lparr>uplink := m\<rparr>) load") (simp add: execute_release_def Let_def)
  have "same_latches c c" for c by (simp add: same_latches_def)
  then show ?thesis
    using apply_committed_latches [of "s\<lparr>uplink := m\<rparr>" for m]
    by (auto simp: release_uplink_def e split: option.split prod.split)
qed

lemma tick_epochs:
  assumes "tick c f a t = (e, c')"
  shows "gc_source_epoch (ev_command e) = epoch c" "gc_effective_epoch (ev_command e) = epoch c + 1" "epoch c' = epoch c + 1"
proof -
  obtain c1 vf va d c2 ck where s: "advance c f a t = (c1, vf, va)" "recovery_command c1 va = (d, c2)"
      "ev_command e = (build_command c2 vf d)\<lparr>command_checksum := ck\<rparr>" "epoch c' = epoch c + 1"
    by (rule tick_advance [OF assms])
  have "epoch c2 = epoch c" using advance_frame(5) [OF s(1)] recovery_command_frame(8) [OF s(2)] by simp
  then show "gc_source_epoch (ev_command e) = epoch c" "gc_effective_epoch (ev_command e) = epoch c + 1" "epoch c' = epoch c + 1"
    using s(3,4) by (simp_all add: build_command_def Let_def split: prod.split)
qed

interpretation reference: flight_package process_release "\<lambda>s. flight_inv (inner s)" "\<lambda>s. epoch (inner s)"
  "\<lambda>s. safe (inner s)" "\<lambda>s. drogue_latched (inner s)" "\<lambda>s. main_latched (inner s)"
proof (unfold_locales, goal_cases)
  case (1 s f a t e s')
  have "flight_inv (inner (release_uplink s))" using release_uplink_latches same_latches_inv 1(1) by blast
  then show ?case using tick_inv(1) process_release_fields(4) [OF 1(2)] by blast
next
  case (2 s f a t e s')
  then show ?case using tick_epochs [OF process_release_fields(4) [OF 2]] release_uplink_latches [of s] by simp
next
  case (3 s f a t e s')
  have "flight_inv (inner (release_uplink s))" using release_uplink_latches same_latches_inv 3(1) by blast
  then show ?case using tick_inv(2) [OF process_release_fields(4) [OF 3(2)]] within_authority_valid by blast
next
  case (4 s f a t e s')
  then show ?case using tick_safe [OF process_release_fields(4) [OF 4]] release_uplink_latches [of s] by (simp add: same_latches_def)
next
  case (5 s f a t e s')
  then show ?case using tick_safe(2) [OF process_release_fields(4) [OF 5(1)]] safed_inert by blast
next
  case (6 s f a t e s')
  then show ?case using tick_latch [OF process_release_fields(4) [OF 6]] release_uplink_latches [of s] by (simp add: same_latches_def)
next
  case (7 s f a t e s')
  have i: "flight_inv (inner (release_uplink s))" using release_uplink_latches same_latches_inv 7(1) by blast
  then have "config_is_valid (config (inner (release_uplink s)))" by (simp add: flight_inv_def)
  then show ?case
    using tick_latch(2,4,5) [OF process_release_fields(4) [OF 7(2)]] release_uplink_latches [of s]
    by (auto simp: same_latches_def)
qed

lemma reachable_reference:
  assumes "new_reference_ops cfg = Some r"
  shows "flight_inv (inner (snd (ops_run r ops)))"
proof -
  have "new_flight_computer cfg = Some (inner r)" using assms by (auto simp: new_reference_ops_def split: option.splits)
  then have "flight_inv (inner r)" by (rule flight_inv_new)
  then show ?thesis using flight_run_inv [OF flight_trace_run] by blast
qed

text \<open>
  C5: one contract for both flight packages.  From every state the reference package can reach
  by any operations, and from every fresh contingency package, any sequence of releases
  yields commands that are numbered without gaps and transmissible, a safe state that is
  never left and in which no effector is moved and the discrete is the safe order, with at most
  parachute orders added, and each parachute ordered at most once, the main one only
  after the drogue latched in an earlier release.
\<close>
theorem flight_packages_contract:
  "(new_reference_ops cfg = Some r \<longrightarrow> s = snd (ops_run r ops) \<longrightarrow>
      package_contract (epoch (inner s)) (drogue_latched (inner s)) (main_latched (inner s)) (fst (run_package process_release s cells)))
   \<and> (new_safehold scfg = Some h \<longrightarrow> package_contract 0 False False (fst (run_package safehold_release h cells)))"
proof (intro conjI impI)
  show "package_contract (epoch (inner s)) (drogue_latched (inner s)) (main_latched (inner s)) (fst (run_package process_release s cells))"
    if "new_reference_ops cfg = Some r" "s = snd (ops_run r ops)"
    using reference.run_contract reachable_reference [OF that(1)] that(2) by simp
  show "package_contract 0 False False (fst (run_package safehold_release h cells))" if "new_safehold scfg = Some h"
    using safehold.run_contract [OF new_safehold_fields(1) [OF that], of cells] new_safehold_fields(2,4,5) [OF that] by simp
qed

definition sample_safehold :: SafeholdRecovery where
  "sample_safehold = the (new_safehold ksa_g10r_safehold_coast_config)"

lemma sample_safehold_new: "new_safehold ksa_g10r_safehold_coast_config = Some sample_safehold"
  by (simp add: sample_safehold_def new_safehold_def safehold_config_is_valid_def ksa_g10r_safehold_coast_config_def
      all3_def Q30_ONE_def Let_def word_sless_alt word_sle_eq)

theorem flight_packages_contract_witness:
  "\<exists>e h. safehold_release sample_safehold None None None = (e, h) \<and> package_contract 0 False False [e]
     \<and> (\<exists>e' s. process_release sample_ops None None None = (e', s)
          \<and> package_contract (epoch (inner sample_ops)) (drogue_latched (inner sample_ops)) (main_latched (inner sample_ops)) [e'])"
proof -
  obtain e h where r: "safehold_release sample_safehold None None None = (e, h)" by fastforce
  obtain e' s where r': "process_release sample_ops None None None = (e', s)" by fastforce
  have "sample_ops = snd (ops_run sample_ops [])" by simp
  with flight_packages_contract [of ksa_g10r_reference_flight_config sample_ops sample_ops "[]" "[(None, None, None)]"
      ksa_g10r_safehold_coast_config sample_safehold]
  show ?thesis using r r' sample_safehold_new sample_ops_new by simp
qed

subsection \<open>Immediate safehold\<close>

text \<open>
  C12: command loss is answered at once.  The contingency package enters the safe state in the
  first release whose sensor cell is missing or not valid, and never leaves it, whatever
  arrives: from that release on every command has no torque, no gimbal and no thruster pulse,
  and its discrete is the safe order, to which at most the orders of the parachutes are
  added; the manifest announces this behaviour.
\<close>
theorem safehold_immediate:
  assumes "filter_option (safehold_fast_valid (safehold_transition s t)) f = None"
    "e \<in> set (fst (run_package safehold_release s ((f, a, t) # cells)))"
  shows "ev_safe e \<and> safed (ev_command e) \<and> command_loss safehold_recovery_manifest = ImmediateSafehold"
proof -
  obtain e0 s' where r: "safehold_release s f a t = (e0, s')" by fastforce
  note st = safehold_release_step [OF r]
  have "sh_safe s'" by (rule st(23) [OF assms(1)])
  then have "ev_safe e0 \<and> safed (ev_command e0)" "\<forall>x \<in> set (fst (run_package safehold_release s' cells)). ev_safe x \<and> safed (ev_command x)"
    using st(11,13) safehold.run_safe by blast+
  then show ?thesis
    using assms(2) run_package_Cons [of safehold_release, OF r] by (auto simp: safehold_recovery_manifest_def)
qed

theorem safehold_immediate_witness:
  "\<exists>e h. safehold_release sample_safehold None None None = (e, h) \<and> ev_safe e \<and> safed (ev_command e)"
proof -
  obtain e h where r: "safehold_release sample_safehold None None None = (e, h)" by fastforce
  have "filter_option (safehold_fast_valid (safehold_transition sample_safehold None)) None = None"
    by (simp add: filter_option_def)
  from safehold_immediate [OF this, of e None "[]"] r show ?thesis by simp
qed

subsection \<open>Segments\<close>

text \<open>
  The flight segments only advance.  In every run of a fresh contingency package the
  navigation is in the frame of the current segment, the number of transitions taken is
  the distance from the initial segment, so at most two are ever accepted, and every
  command carries the session and the frame the navigation is in.
\<close>
theorem safehold_segments:
  assumes "new_safehold cfg = Some s" "run_package safehold_release s cells = (es, s')"
  shows "nav_frame (sh_navigation s') = segment_frame (sh_segment s')
    \<and> segment_index (sh_segment s') = segment_index (initial_segment cfg) + unat (sh_transition_count s')
    \<and> (\<forall>e \<in> set es. gc_session (ev_command e) = shc_session cfg \<and> gc_frame (ev_command e) = nav_frame (ev_navigation e))"
proof -
  have "safehold_inv s \<Longrightarrow> segment_index (sh_segment s) = n + unat (sh_transition_count s) \<Longrightarrow>
      run_package safehold_release s cells = (es, s') \<Longrightarrow>
      safehold_inv s' \<and> segment_index (sh_segment s') = n + unat (sh_transition_count s')
      \<and> (\<forall>e \<in> set es. gc_session (ev_command e) = shc_session (sh_config s) \<and> gc_frame (ev_command e) = nav_frame (ev_navigation e))"
    for s es n
  proof (induction cells arbitrary: s es)
    case (Cons c cells)
    obtain f a t e u where c: "c = (f, a, t)" "safehold_release s f a t = (e, u)" by (cases c) fastforce
    obtain es1 where r: "run_package safehold_release u cells = (es1, s')" "es = e # es1"
      using Cons.prems(3) c by (auto split: prod.splits)
    note st = safehold_release_step [OF c(2)]
    have le: "segment_index g \<le> 2" for g by (cases g) simp_all
    have "segment_index (sh_segment u) = n + unat (sh_transition_count u)"
      using st(22) [OF Cons.prems(1)]
    proof
      assume u: "segment_index (sh_segment u) = Suc (segment_index (sh_segment s)) \<and> sh_transition_count u = saturating_inc_u8 (sh_transition_count s)"
      then have "unat (sh_transition_count s) < 2" using le [of "sh_segment u"] Cons.prems(2) by simp
      then have "unat (sh_transition_count s + 1) = Suc (unat (sh_transition_count s))" "sh_transition_count s \<noteq> - 1"
        by (auto simp: unat_word_ariths unsigned_minus_1_eq_mask mask_eq_exp_minus_1)
      then show ?thesis using u Cons.prems(2) by (simp add: saturating_inc_u8_def)
    qed (use Cons.prems(2) in simp)
    from Cons.IH [OF st(1) [OF Cons.prems(1)] this r(1)] show ?case using r(2) st(2,6,7,8) by simp
  qed simp
  from this [OF new_safehold_fields(1) [OF assms(1)], of "segment_index (initial_segment cfg)" es] show ?thesis
    using new_safehold_fields(6-8) [OF assms(1)] assms(2) by (simp add: safehold_inv_def)
qed

theorem safehold_segments_witness:
  "\<exists>e s. run_package safehold_release sample_safehold [(None, None, None)] = ([e], s)
     \<and> segment_index (sh_segment s) = unat (sh_transition_count s)"
proof -
  obtain e s where r: "safehold_release sample_safehold None None None = (e, s)" by fastforce
  then have "run_package safehold_release sample_safehold [(None, None, None)] = ([e], s)" by simp
  then show ?thesis
    using safehold_segments [OF sample_safehold_new, of "[(None, None, None)]" "[e]" s]
    by (simp add: ksa_g10r_safehold_coast_config_def)
qed

end
