(* ===== verification/Safehold_Contract.thy ===== *)
theory Safehold_Contract
  imports Flight_Packages
begin

text \<open>
  Recovery by the contingency package: its latches are exactly its orders, the parachutes
  keep their separation in mission time, and the drogue is deployed in the safe state too.
\<close>

unbundle bit_operations_syntax

definition mission_time :: "SafeholdRecovery \<Rightarrow> release_cells list \<Rightarrow> nat" where
  "mission_time s cells = unat (sh_last_time_q16 (snd (run_package safehold_release s cells)))"

lemma run_package_snoc:
  assumes "snd (run_package release s cells) = u" "release u f a t = (e, v)"
  shows "run_package release s (cells @ [(f, a, t)]) = (fst (run_package release s cells) @ [e], v)"
  using assms by (simp add: run_package_append)

lemma run_config: "sh_config (snd (run_package safehold_release s cells)) = sh_config s"
proof (induction cells arbitrary: s)
  case (Cons c cells)
  obtain f a t e u where c: "c = (f, a, t)" "safehold_release s f a t = (e, u)" by (cases c) fastforce
  then show ?case
    using Cons.IH [of u] safehold_release_step(2) [OF c(2)] run_package_Cons [of safehold_release, OF c(2)] by simp
qed simp

lemma latches_are_orders:
  "(sh_drogue_latched (snd (run_package safehold_release s cells))
     \<longleftrightarrow> sh_drogue_latched s \<or> (\<exists>e \<in> set (fst (run_package safehold_release s cells)). orders_drogue e))
   \<and> (sh_main_latched (snd (run_package safehold_release s cells))
     \<longleftrightarrow> sh_main_latched s \<or> (\<exists>e \<in> set (fst (run_package safehold_release s cells)). orders_main e))"
proof (induction cells arbitrary: s)
  case (Cons c cells)
  obtain f a t e u where c: "c = (f, a, t)" "safehold_release s f a t = (e, u)" by (cases c) fastforce
  note st = safehold_release_step(14,16) [OF c(2)]
  have r: "run_package safehold_release s (c # cells)
      = (e # fst (run_package safehold_release u cells), snd (run_package safehold_release u cells))"
    unfolding c(1) by (rule run_package_Cons [of safehold_release, OF c(2)])
  show ?case unfolding r using Cons.IH [of u] st by auto
qed simp

lemma drogue_time_of_order:
  assumes "\<not> sh_drogue_latched s" "sh_drogue_latched (snd (run_package safehold_release s cells))"
  shows "\<exists>i < length cells. orders_drogue (fst (run_package safehold_release s cells) ! i)
    \<and> unat (sh_drogue_time_q16 (snd (run_package safehold_release s cells))) = mission_time s (take (Suc i) cells)"
  using assms(2)
proof (induction cells rule: rev_induct)
  case (snoc c cells)
  let ?u = "snd (run_package safehold_release s cells)"
  obtain f a t e v where c: "c = (f, a, t)" "safehold_release ?u f a t = (e, v)" by (cases c) fastforce
  have r: "run_package safehold_release s (cells @ [c]) = (fst (run_package safehold_release s cells) @ [e], v)"
    using run_package_snoc [of safehold_release s cells, OF refl c(2)] c(1) by simp
  note st = safehold_release_step(14,18) [OF c(2)]
  show ?case
  proof (cases "orders_drogue e")
    case True
    then have "sh_drogue_time_q16 v = sh_last_time_q16 v" using st(2) by simp
    then show ?thesis using True r
      by (intro exI [of _ "length cells"]) (simp add: nth_append mission_time_def)
  next
    case False
    then have l: "sh_drogue_latched ?u" and t: "sh_drogue_time_q16 v = sh_drogue_time_q16 ?u" using st snoc.prems r by simp_all
    from snoc.IH [OF l] obtain i where i: "i < length cells" "orders_drogue (fst (run_package safehold_release s cells) ! i)"
      "unat (sh_drogue_time_q16 ?u) = mission_time s (take (Suc i) cells)" by blast
    show ?thesis
      using i r t by (intro exI [of _ i]) (simp add: nth_append)
  qed
qed (use assms(1) in simp)

text \<open>
  C25: no recovery order is lost, and orders keep their distance.  In every run of a fresh
  contingency package a parachute is latched if and only if a command of the run ordered
  it; and when a release orders the main parachute, an earlier one ordered the drogue, at a
  mission time at least the configured separation before.
\<close>
theorem safehold_orders_match:
  assumes "new_safehold cfg = Some s" "run_package safehold_release s cells = (es, s')"
  shows "(sh_drogue_latched s' \<longleftrightarrow> (\<exists>e \<in> set es. orders_drogue e)) \<and> (sh_main_latched s' \<longleftrightarrow> (\<exists>e \<in> set es. orders_main e))
    \<and> (\<forall>j < length es. orders_main (es ! j) \<longrightarrow> (\<exists>i < j. orders_drogue (es ! i)
         \<and> unat (shc_minimum_separation_q16 cfg) + mission_time s (take (Suc i) cells) \<le> mission_time s (take (Suc j) cells)))"
proof (intro conjI allI impI)
  note nw = new_safehold_fields [OF assms(1)]
  show "sh_drogue_latched s' \<longleftrightarrow> (\<exists>e \<in> set es. orders_drogue e)" "sh_main_latched s' \<longleftrightarrow> (\<exists>e \<in> set es. orders_main e)"
    using latches_are_orders [of s cells] nw(4,5) assms(2) by simp_all
  fix j assume j: "j < length es" "orders_main (es ! j)"
  have len: "length es = length cells" using run_package_length [of safehold_release s cells] assms(2) by simp
  let ?xs = "take j cells" and ?u = "snd (run_package safehold_release s (take j cells))"
  have split: "cells = ?xs @ cells ! j # drop (Suc j) cells" using j(1) len by (simp add: id_take_nth_drop)
  obtain f a t e v where c: "cells ! j = (f, a, t)" "safehold_release ?u f a t = (e, v)" by (cases "cells ! j") fastforce
  have es: "es = fst (run_package safehold_release s ?xs) @ e # fst (run_package safehold_release v (drop (Suc j) cells))"
    using assms(2) run_package_append [of safehold_release s ?xs "cells ! j # drop (Suc j) cells"]
      run_package_Cons [of safehold_release, OF c(2)] c(1) split by simp
  then have e: "es ! j = e" using j(1) len by (simp add: nth_append)
  have inv: "safehold_inv ?u" by (rule safehold.run_inv [OF nw(1)])
  have m: "sh_drogue_latched ?u" "unat (shc_minimum_separation_q16 cfg) + unat (sh_drogue_time_q16 ?u) \<le> unat (sh_last_time_q16 v)"
    using safehold_release_step(19) [OF c(2) _ inv] j(2) e nw(8) run_config [of s ?xs] by auto
  obtain i where i: "i < length ?xs" "orders_drogue (fst (run_package safehold_release s ?xs) ! i)"
    "unat (sh_drogue_time_q16 ?u) = mission_time s (take (Suc i) ?xs)"
    using drogue_time_of_order [OF nw(4) m(1)] by blast
  have "take (Suc i) ?xs = take (Suc i) cells" using i(1) by (simp add: min_absorb1)
  moreover have "es ! i = fst (run_package safehold_release s ?xs) ! i" using es i(1) by (simp add: nth_append)
  moreover have "mission_time s (take (Suc j) cells) = unat (sh_last_time_q16 v)"
    using run_package_snoc [of safehold_release s ?xs, OF refl c(2)] j(1) len c(1) by (simp add: mission_time_def take_Suc_conv_app_nth)
  ultimately show "\<exists>i < j. orders_drogue (es ! i)
      \<and> unat (shc_minimum_separation_q16 cfg) + mission_time s (take (Suc i) cells) \<le> mission_time s (take (Suc j) cells)"
    using i m(2) by (intro exI [of _ i]) auto
qed

theorem safehold_orders_match_witness:
  "\<exists>e s. safehold_release sample_safehold None None None = (e, s) \<and> (sh_drogue_latched s \<longleftrightarrow> orders_drogue e)"
proof -
  obtain e s where r: "safehold_release sample_safehold None None None = (e, s)" by fastforce
  then have "run_package safehold_release sample_safehold [(None, None, None)] = ([e], s)" by simp
  from safehold_orders_match [OF sample_safehold_new this] r show ?thesis by simp
qed

text \<open>
  C26: the safe state does not stop the recovery.  In the local recovery segment, in a release
  without a frame transition and past the backup time, a valid aiding cell that reports continuity makes the contingency package
  order a drogue that is not latched in that very release, whether or not it is in the
  safe state and whether or not a sensor cell arrived.
\<close>
theorem safehold_deploys:
  assumes "safehold_release s f (Some v) None = (e, s')" "sh_segment s = LocalRecovery" "\<not> sh_drogue_latched s"
    "shc_drogue_backup_time_q16 (sh_config s) \<le> sh_last_time_q16 s'" "safehold_aid_valid s v"
    "ga_validity v AND GLOBAL_AID_CONTINUITY \<noteq> 0" "continuity v AND 1 \<noteq> 0"
  shows "orders_drogue e \<and> sh_drogue_latched s' \<and> transmissible (ev_command e)"
proof -
  obtain s1 vf s2 w s3 d s4 ck where st: "s1 = safehold_transition s None" "accept_fast s1 f = (vf, s2)"
    "accept_aid s2 (Some v) = (w, s3)" "safehold_recovery s3 w = (d, s4)"
    "ev_command e = (safehold_command s4 vf d)\<lparr>command_checksum := ck\<rparr>" "sh_last_time_q16 s' = sh_last_time_q16 s4"
    by (rule safehold_release_stages [OF assms(1)])
  have s1: "s1 = s" using st(1) by (simp add: safehold_transition_def)
  note fk = accept_fast_keeps [OF st(2)] and ak = accept_aid_keeps [OF st(3)] and rk = safehold_recovery_keeps [OF st(4)]
  have "w = Some v" using ak(10) assms(5) fk(1,3,4) s1 by (simp add: filter_option_def safehold_aid_valid_def)
  moreover have "sh_segment s3 = LocalRecovery" "\<not> sh_drogue_latched s3"
    "shc_drogue_backup_time_q16 (sh_config s3) \<le> sh_last_time_q16 s3"
    using fk ak rk st(6) s1 assms(2-4) by simp_all
  ultimately have "d AND 1 \<noteq> 0" using safehold_recovery_backup [OF st(4)] assms(6,7) by blast
  then have "orders_drogue e"
    using safehold_command_orders(1) [OF safehold_recovery_latch(1) [OF st(4)], of s4 vf] st(5)
    by (simp add: orders_drogue_def GLOBAL_COMMAND_DROGUE_def)
  then show ?thesis
    using safehold_release_step(9,10,14) [OF assms(1)] transmissible_valid by blast
qed

definition recovery_safehold :: SafeholdRecovery where
  "recovery_safehold = the (new_safehold (ksa_g10r_safehold_coast_config\<lparr>initial_segment := LocalRecovery\<rparr>))"

definition recovery_cell :: GlobalFastSensorCell where
  "recovery_cell = \<lparr>gf_session = 0x10a0, gf_measurement_epoch = 0, gf_production_epoch = 0, gf_frame = LocalEnuV1,
     gf_validity = 7, gf_mission_time_q16 = 39321600, delta_velocity_q24 = (0, 0, 0), delta_angle_q24 = (0, 0, 0),
     attitude_vector_q15 = (0, 0, 0), angular_rate_q15 = (0, 0, 0), dynamic_pressure_q10 = 0, mach_q12 = 0,
     gimbal_applied_q15 = (0, 0), rcs_propellant_q21 = 0, actuator_feedback = 0, gf_vehicle_status = 0,
     gf_sensor_checksum = 0\<rparr>"

definition recovery_aid :: GlobalAidFrameCell where
  "recovery_aid = continuity_aid\<lparr>ga_session := 0x10a0, ga_measurement_epoch := 0, ga_production_epoch := 0,
     ga_frame := LocalEnuV1, ga_validity := 16, continuity := 1\<rparr>"

theorem safehold_deploys_witness:
  "\<exists>e s. safehold_release recovery_safehold (Some recovery_cell) (Some recovery_aid) None = (e, s) \<and> orders_drogue e"
proof -
  obtain e s' where r: "safehold_release recovery_safehold (Some recovery_cell) (Some recovery_aid) None = (e, s')" by fastforce
  have f: "sh_segment recovery_safehold = LocalRecovery" "\<not> sh_drogue_latched recovery_safehold"
    "shc_drogue_backup_time_q16 (sh_config recovery_safehold) = 39321600" "shc_session (sh_config recovery_safehold) = 0x10a0"
    "sh_epoch recovery_safehold = 0" "nav_frame (sh_navigation recovery_safehold) = LocalEnuV1"
    by (simp_all add: recovery_safehold_def new_safehold_def safehold_config_is_valid_def ksa_g10r_safehold_coast_config_def
        all3_def Q30_ONE_def Let_def word_sless_alt word_sle_eq)
  have v: "safehold_fast_valid recovery_safehold recovery_cell"
    by (simp add: safehold_fast_valid_def f recovery_cell_def GLOBAL_FAST_DELTA_V_def GLOBAL_FAST_DELTA_ANGLE_def GLOBAL_FAST_ATTITUDE_def)
  have t: "sh_last_time_q16 s' = 39321600"
  proof -
    obtain s1 vf s2 w s3 d s4 ck where st: "s1 = safehold_transition recovery_safehold None"
      "accept_fast s1 (Some recovery_cell) = (vf, s2)" "accept_aid s2 (Some recovery_aid) = (w, s3)"
      "safehold_recovery s3 w = (d, s4)" "sh_last_time_q16 s' = sh_last_time_q16 s4"
      by (rule safehold_release_stages [OF r])
    have "s1 = recovery_safehold" using st(1) by (simp add: safehold_transition_def)
    then have "vf = Some recovery_cell" using accept_fast_keeps(10) [OF st(2)] v by (simp add: filter_option_def)
    then show ?thesis
      using accept_fast_keeps(11) [OF st(2)] accept_aid_keeps(11) [OF st(3)] safehold_recovery_keeps(7) [OF st(4)] st(5)
      by (simp add: recovery_cell_def)
  qed
  have "safehold_aid_valid recovery_safehold recovery_aid" by (simp add: safehold_aid_valid_def f recovery_aid_def)
  then show ?thesis
    using safehold_deploys [OF r f(1,2)] r f(3) t by (simp add: recovery_aid_def GLOBAL_AID_CONTINUITY_def)
qed

end
