(* ===== verification/Ascent_Messages.thy ===== *)
theory Ascent_Messages
  imports Record_Fields
begin

text \<open>
  The messages between the ascent simulator and its flight computer
  (\<^verbatim>\<open>interface/src/lib.rs\<close>): sensor frames, actuator commands and flight outputs, with their
  writers and parsers.  Each is a sealed record whose parser accepts exactly the buffers
  the writer produces.
\<close>

unbundle bit_operations_syntax

subsection \<open>Constants and enumerations\<close>

definition SENSOR_FRAME_LENGTH :: nat where "SENSOR_FRAME_LENGTH = 56"
definition ACTUATOR_COMMAND_LENGTH :: nat where "ACTUATOR_COMMAND_LENGTH = 16"
definition FLIGHT_OUTPUT_LENGTH :: nat where "FLIGHT_OUTPUT_LENGTH = 52"
definition SENSOR_VALID_ACCEL :: u16 where "SENSOR_VALID_ACCEL = 1"
definition SENSOR_VALID_GYRO :: u16 where "SENSOR_VALID_GYRO = 2"
definition SENSOR_VALID_STEERING :: u16 where "SENSOR_VALID_STEERING = 4"
definition SENSOR_VALID_ALTIMETER :: u16 where "SENSOR_VALID_ALTIMETER = 8"
definition SENSOR_VALID_GPS :: u16 where "SENSOR_VALID_GPS = 16"
definition SENSOR_VALID_CLOCK :: u16 where "SENSOR_VALID_CLOCK = 32"
definition SENSOR_VALID_MASK :: u16 where "SENSOR_VALID_MASK = 63"
definition EVENT_MASK :: u16 where "EVENT_MASK = 255"
definition ALARM_SENSOR_FRAME :: u16 where "ALARM_SENSOR_FRAME = 1"
definition ALARM_NAVIGATION :: u16 where "ALARM_NAVIGATION = 2"
definition ALARM_STEERING :: u16 where "ALARM_STEERING = 4"
definition ALARM_ABORT :: u16 where "ALARM_ABORT = 8"
definition ALARM_MASK :: u16 where "ALARM_MASK = 31"

lemmas ascent_constants = SENSOR_FRAME_LENGTH_def ACTUATOR_COMMAND_LENGTH_def FLIGHT_OUTPUT_LENGTH_def
  SENSOR_VALID_ACCEL_def SENSOR_VALID_GYRO_def SENSOR_VALID_STEERING_def SENSOR_VALID_ALTIMETER_def
  SENSOR_VALID_GPS_def SENSOR_VALID_CLOCK_def SENSOR_VALID_MASK_def EVENT_MASK_def ALARM_SENSOR_FRAME_def
  ALARM_NAVIGATION_def ALARM_STEERING_def ALARM_ABORT_def ALARM_MASK_def

datatype StagePhase = CoastBeforeIgnition | Burning | CoastBeforeSeparation | StageComplete

fun stage_phase_tag :: "StagePhase \<Rightarrow> u8" where
  "stage_phase_tag CoastBeforeIgnition = 0" | "stage_phase_tag Burning = 1"
| "stage_phase_tag CoastBeforeSeparation = 2" | "stage_phase_tag StageComplete = 3"

definition parse_stage_phase :: "u8 \<Rightarrow> CodecError + StagePhase" where
  "parse_stage_phase v =
     (if v = 0 then Inr CoastBeforeIgnition else if v = 1 then Inr Burning
      else if v = 2 then Inr CoastBeforeSeparation else if v = 3 then Inr StageComplete else Inl Enum)"

datatype EngineAction = EngineHold | EngineIgnite | EngineCutoff

fun engine_tag :: "EngineAction \<Rightarrow> u8" where
  "engine_tag EngineHold = 0" | "engine_tag EngineIgnite = 1" | "engine_tag EngineCutoff = 2"

definition parse_engine :: "u8 \<Rightarrow> CodecError + EngineAction" where
  "parse_engine v =
     (if v = 0 then Inr EngineHold else if v = 1 then Inr EngineIgnite else if v = 2 then Inr EngineCutoff else Inl Enum)"

datatype FlightMode = BootMode | PrelaunchMode | ProgrammedAscent | StageTransition | Insertion | CoastMode
  | CompleteMode | AbortMode

fun flight_mode_tag :: "FlightMode \<Rightarrow> u8" where
  "flight_mode_tag BootMode = 0" | "flight_mode_tag PrelaunchMode = 1" | "flight_mode_tag ProgrammedAscent = 2"
| "flight_mode_tag StageTransition = 3" | "flight_mode_tag Insertion = 4" | "flight_mode_tag CoastMode = 5"
| "flight_mode_tag CompleteMode = 6" | "flight_mode_tag AbortMode = 7"

definition parse_flight_mode :: "u8 \<Rightarrow> CodecError + FlightMode" where
  "parse_flight_mode v =
     (if v = 0 then Inr BootMode else if v = 1 then Inr PrelaunchMode else if v = 2 then Inr ProgrammedAscent
      else if v = 3 then Inr StageTransition else if v = 4 then Inr Insertion else if v = 5 then Inr CoastMode
      else if v = 6 then Inr CompleteMode else if v = 7 then Inr AbortMode else Inl Enum)"

subsection \<open>Records\<close>

record SensorFrame =
  sf_sequence :: u32
  onboard_time_q16 :: i32
  accel_radial_q28 :: i32
  accel_tangential_q28 :: i32
  gyro_rate_q24 :: i32
  steering_pitch :: u16
  sf_validity :: u16
  sf_altitude_q12 :: i32
  gps_radius_q12 :: i32
  gps_downrange_q32 :: i32
  gps_radial_velocity_q24 :: i32
  gps_tangential_velocity_q24 :: i32
  sf_events :: u16
  active_stage :: u8
  stage_phase :: StagePhase
  sf_engine_on :: bool

record ActuatorCommand =
  ac_sequence :: u32
  desired_pitch :: u16
  engine_action :: EngineAction
  separate :: bool
  abort_safeing :: bool
  recovery_requested :: bool

record FlightOutput =
  fo_sequence :: u32
  nav_time_q16 :: i32
  nav_radius_q12 :: i32
  nav_downrange_q32 :: i32
  nav_radial_velocity_q24 :: i32
  nav_tangential_velocity_q24 :: i32
  nav_pitch :: u16
  fo_mode :: FlightMode
  fo_alarms :: u16
  fo_command :: ActuatorCommand
  fo_nav_checksum :: u32
  fo_flight_checksum :: u32

subsection \<open>Sensor frames\<close>

definition sensor_flags_ok :: "u16 \<Rightarrow> u16 \<Rightarrow> bool" where
  "sensor_flags_ok validity events \<longleftrightarrow>
     \<not> (validity AND NOT SENSOR_VALID_MASK \<noteq> 0 \<or> events AND NOT EVENT_MASK \<noteq> 0)"

definition sensor_frame_fields :: "SensorFrame \<Rightarrow> store list" where
  "sensor_frame_fields f =
     [p32 0 (sf_sequence f), pi32 4 (onboard_time_q16 f), pi32 8 (accel_radial_q28 f), pi32 12 (accel_tangential_q28 f),
      pi32 16 (gyro_rate_q24 f), p16 20 (steering_pitch f), p16 22 (sf_validity f), pi32 24 (sf_altitude_q12 f),
      pi32 28 (gps_radius_q12 f), pi32 32 (gps_downrange_q32 f), pi32 36 (gps_radial_velocity_q24 f),
      pi32 40 (gps_tangential_velocity_q24 f), p16 44 (sf_events f), p8 46 (active_stage f),
      p8 47 (stage_phase_tag (stage_phase f)), p8 48 (of_bool (sf_engine_on f))]"

definition write_sensor_frame :: "SensorFrame \<Rightarrow> u8 list \<Rightarrow> (CodecError + unit) \<times> u8 list" where
  "write_sensor_frame f out =
     (if length out \<noteq> SENSOR_FRAME_LENGTH then (Inl Length, out)
      else if \<not> sensor_flags_ok (sf_validity f) (sf_events f) then (Inl Flags, out)
      else (Inr (), seal32 (put_fields (fill0 out) (sensor_frame_fields f))))"

definition parse_sensor_frame :: "u8 list \<Rightarrow> CodecError + SensorFrame" where
  "parse_sensor_frame b =
     (if length b \<noteq> SENSOR_FRAME_LENGTH then Inl Length
      else if crc32_ieee (take 52 b) \<noteq> read_u32 b 52 then Inl Checksum
      else if b ! 49 \<noteq> 0 \<or> b ! 50 \<noteq> 0 \<or> b ! 51 \<noteq> 0 then Inl Reserved
      else
      let validity = read_u16 b 22; events = read_u16 b 44
      in if \<not> sensor_flags_ok validity events \<or> 1 < b ! 48 then Inl Flags
      else
      and_then (parse_stage_phase (b ! 47)) (\<lambda>phase.
      Inr \<lparr>sf_sequence = read_u32 b 0, onboard_time_q16 = read_i32 b 4, accel_radial_q28 = read_i32 b 8,
           accel_tangential_q28 = read_i32 b 12, gyro_rate_q24 = read_i32 b 16, steering_pitch = read_u16 b 20,
           sf_validity = validity, sf_altitude_q12 = read_i32 b 24, gps_radius_q12 = read_i32 b 28,
           gps_downrange_q32 = read_i32 b 32, gps_radial_velocity_q24 = read_i32 b 36,
           gps_tangential_velocity_q24 = read_i32 b 40, sf_events = events, active_stage = b ! 46,
           stage_phase = phase, sf_engine_on = (b ! 48 \<noteq> 0)\<rparr>))"

subsection \<open>Actuator commands\<close>

definition actuator_fields :: "ActuatorCommand \<Rightarrow> store list" where
  "actuator_fields c =
     [p32 0 (ac_sequence c), p16 4 (desired_pitch c), p8 6 (engine_tag (engine_action c)), p8 7 (of_bool (separate c)),
      p8 8 (of_bool (abort_safeing c)), p8 9 (of_bool (recovery_requested c))]"

definition write_actuator_command :: "ActuatorCommand \<Rightarrow> u8 list \<Rightarrow> (CodecError + unit) \<times> u8 list" where
  "write_actuator_command c out =
     (if length out \<noteq> ACTUATOR_COMMAND_LENGTH then (Inl Length, out)
      else (Inr (), seal32 (put_fields (fill0 out) (actuator_fields c))))"

definition parse_actuator_command :: "u8 list \<Rightarrow> CodecError + ActuatorCommand" where
  "parse_actuator_command b =
     (if length b \<noteq> ACTUATOR_COMMAND_LENGTH then Inl Length
      else if crc32_ieee (take 12 b) \<noteq> read_u32 b 12 then Inl Checksum
      else if b ! 10 \<noteq> 0 \<or> b ! 11 \<noteq> 0 then Inl Reserved
      else if 1 < b ! 7 \<or> 1 < b ! 8 \<or> 1 < b ! 9 then Inl Flags
      else
      and_then (parse_engine (b ! 6)) (\<lambda>action.
      Inr \<lparr>ac_sequence = read_u32 b 0, desired_pitch = read_u16 b 4, engine_action = action,
           separate = (b ! 7 \<noteq> 0), abort_safeing = (b ! 8 \<noteq> 0), recovery_requested = (b ! 9 \<noteq> 0)\<rparr>))"

subsection \<open>Flight outputs\<close>

definition flight_output_ok :: "FlightOutput \<Rightarrow> bool" where
  "flight_output_ok f \<longleftrightarrow> \<not> (fo_alarms f AND NOT ALARM_MASK \<noteq> 0 \<or> ac_sequence (fo_command f) \<noteq> fo_sequence f)"

definition flight_output_fields :: "FlightOutput \<Rightarrow> store list" where
  "flight_output_fields f =
     [p32 0 (fo_sequence f), pi32 4 (nav_time_q16 f), pi32 8 (nav_radius_q12 f), pi32 12 (nav_downrange_q32 f),
      pi32 16 (nav_radial_velocity_q24 f), pi32 20 (nav_tangential_velocity_q24 f), p16 24 (nav_pitch f),
      p8 26 (flight_mode_tag (fo_mode f)), p16 28 (fo_alarms f), p16 30 (desired_pitch (fo_command f)),
      p8 32 (engine_tag (engine_action (fo_command f))), p8 33 (of_bool (separate (fo_command f))),
      p8 34 (of_bool (abort_safeing (fo_command f))), p8 35 (of_bool (recovery_requested (fo_command f))),
      p32 36 (fo_nav_checksum f), p32 40 (fo_flight_checksum f), p32 44 (ac_sequence (fo_command f))]"

definition write_flight_output :: "FlightOutput \<Rightarrow> u8 list \<Rightarrow> (CodecError + unit) \<times> u8 list" where
  "write_flight_output f out =
     (if length out \<noteq> FLIGHT_OUTPUT_LENGTH then (Inl Length, out)
      else if \<not> flight_output_ok f then (Inl Flags, out)
      else (Inr (), seal32 (put_fields (fill0 out) (flight_output_fields f))))"

definition parse_flight_output :: "u8 list \<Rightarrow> CodecError + FlightOutput" where
  "parse_flight_output b =
     (if length b \<noteq> FLIGHT_OUTPUT_LENGTH then Inl Length
      else if crc32_ieee (take 48 b) \<noteq> read_u32 b 48 then Inl Checksum
      else if b ! 27 \<noteq> 0 \<or> 1 < b ! 33 \<or> 1 < b ! 34 \<or> 1 < b ! 35 then Inl Reserved
      else
      let alarm = read_u16 b 28
      in if alarm AND NOT ALARM_MASK \<noteq> 0 then Inl Flags
      else
      let sq = read_u32 b 0; command_sq = read_u32 b 44
      in if sq \<noteq> command_sq then Inl Sequence
      else
      and_then (parse_flight_mode (b ! 26)) (\<lambda>md.
      and_then (parse_engine (b ! 32)) (\<lambda>action.
      Inr \<lparr>fo_sequence = sq, nav_time_q16 = read_i32 b 4, nav_radius_q12 = read_i32 b 8, nav_downrange_q32 = read_i32 b 12,
           nav_radial_velocity_q24 = read_i32 b 16, nav_tangential_velocity_q24 = read_i32 b 20,
           nav_pitch = read_u16 b 24, fo_mode = md, fo_alarms = alarm,
           fo_command = \<lparr>ac_sequence = command_sq, desired_pitch = read_u16 b 30, engine_action = action,
             separate = (b ! 33 \<noteq> 0), abort_safeing = (b ! 34 \<noteq> 0), recovery_requested = (b ! 35 \<noteq> 0)\<rparr>,
           fo_nav_checksum = read_u32 b 36, fo_flight_checksum = read_u32 b 40\<rparr>)))"

subsection \<open>The codecs\<close>

lemma ascent_tag_parsed [simp]:
  "parse_stage_phase v = Inr p \<longleftrightarrow> v = stage_phase_tag p" "parse_engine v = Inr a \<longleftrightarrow> v = engine_tag a"
  "parse_flight_mode v = Inr m \<longleftrightarrow> v = flight_mode_tag m"
proof -
  show "parse_stage_phase v = Inr p \<longleftrightarrow> v = stage_phase_tag p" by (cases p) (auto simp: parse_stage_phase_def)
  show "parse_engine v = Inr a \<longleftrightarrow> v = engine_tag a" by (cases a) (auto simp: parse_engine_def)
  show "parse_flight_mode v = Inr m \<longleftrightarrow> v = flight_mode_tag m" by (cases m) (auto simp: parse_flight_mode_def)
qed

lemma flag_value: "\<not> 1 < (x :: u8) \<Longrightarrow> x \<noteq> 0 \<Longrightarrow> x = 1"
  by unat_arith

lemma flag_byte [simp]: "(x :: u8) = of_bool (x \<noteq> 0) \<longleftrightarrow> \<not> 1 < x" "\<not> 1 < (of_bool p :: u8)"
  by (auto dest: flag_value)

lemmas message_reads = blank_uncovered uncovered_def read_i32_def pi32_def sealed32_def layout_def Let_def

lemmas sensor_frame_defs = write_sensor_frame_def parse_sensor_frame_def sensor_frame_fields_def SENSOR_FRAME_LENGTH_def

interpretation sensor_frame: record_codec write_sensor_frame parse_sensor_frame 56 "\<lambda>_. True"
  "\<lambda>v. sensor_flags_ok (sf_validity v) (sf_events v)" sensor_frame_fields
proof
  show "\<exists>e. write_sensor_frame v out = (Inl e, out)" if "length out \<noteq> 56 \<or> \<not> (\<lambda>v. sensor_flags_ok (sf_validity v) (sf_events v)) v" for out v
    using that by (auto simp: sensor_frame_defs split: sum.splits)
  show "write_sensor_frame v out = (Inr (), seal32 (put_fields (fill0 out) (sensor_frame_fields v)))"
    if "length out = 56" "(\<lambda>v. sensor_flags_ok (sf_validity v) (sf_events v)) v" for out v
    using that by (auto simp: sensor_frame_defs split: sum.splits)
  show "layout (56 - 4) (sensor_frame_fields v)" if "(\<lambda>_. True) v" "(\<lambda>v. sensor_flags_ok (sf_validity v) (sf_events v)) v" for v
    using that by (simp add: sensor_frame_defs message_reads)
  show "parse_sensor_frame b = Inr v"
    if "length b = 56" "sealed32 b" "(\<lambda>_. True) v" "(\<lambda>v. sensor_flags_ok (sf_validity v) (sf_events v)) v"
      "holds b (sensor_frame_fields v)" "blank b (56 - 4) (sensor_frame_fields v)" for b v
    using that by (cases v; simp add: message_reads sensor_frame_fields_def; simp add: sensor_frame_defs message_reads)
  show "length b = 56 \<and> sealed32 b" if "parse_sensor_frame b = Inr v" for b v
    using that by (auto simp: sensor_frame_defs message_reads)
  show "(\<lambda>_. True) v \<and> (\<lambda>v. sensor_flags_ok (sf_validity v) (sf_events v)) v \<and> holds b (sensor_frame_fields v) \<and> blank b (56 - 4) (sensor_frame_fields v)"
    if "parse_sensor_frame b = Inr v" for b v
    using that by (auto simp: sensor_frame_defs message_reads dest: flag_value)
qed simp

lemmas actuator_defs = write_actuator_command_def parse_actuator_command_def actuator_fields_def ACTUATOR_COMMAND_LENGTH_def

interpretation actuator: record_codec write_actuator_command parse_actuator_command 16 "\<lambda>_. True"
  "\<lambda>_. True" actuator_fields
proof
  show "\<exists>e. write_actuator_command v out = (Inl e, out)" if "length out \<noteq> 16 \<or> \<not> (\<lambda>_. True) v" for out v
    using that by (auto simp: actuator_defs split: sum.splits)
  show "write_actuator_command v out = (Inr (), seal32 (put_fields (fill0 out) (actuator_fields v)))"
    if "length out = 16" "(\<lambda>_. True) v" for out v
    using that by (auto simp: actuator_defs split: sum.splits)
  show "layout (16 - 4) (actuator_fields v)" if "(\<lambda>_. True) v" "(\<lambda>_. True) v" for v
    using that by (simp add: actuator_defs message_reads)
  show "parse_actuator_command b = Inr v"
    if "length b = 16" "sealed32 b" "(\<lambda>_. True) v" "(\<lambda>_. True) v"
      "holds b (actuator_fields v)" "blank b (16 - 4) (actuator_fields v)" for b v
    using that by (cases v; simp add: message_reads actuator_fields_def; simp add: actuator_defs message_reads)
  show "length b = 16 \<and> sealed32 b" if "parse_actuator_command b = Inr v" for b v
    using that by (auto simp: actuator_defs message_reads)
  show "(\<lambda>_. True) v \<and> (\<lambda>_. True) v \<and> holds b (actuator_fields v) \<and> blank b (16 - 4) (actuator_fields v)"
    if "parse_actuator_command b = Inr v" for b v
    using that by (auto simp: actuator_defs message_reads dest: flag_value)
qed simp

lemmas flight_output_defs = write_flight_output_def parse_flight_output_def flight_output_fields_def FLIGHT_OUTPUT_LENGTH_def flight_output_ok_def

interpretation flight_output: record_codec write_flight_output parse_flight_output 52 "\<lambda>_. True"
  "flight_output_ok" flight_output_fields
proof
  show "\<exists>e. write_flight_output v out = (Inl e, out)" if "length out \<noteq> 52 \<or> \<not> (flight_output_ok) v" for out v
    using that by (auto simp: flight_output_defs split: sum.splits)
  show "write_flight_output v out = (Inr (), seal32 (put_fields (fill0 out) (flight_output_fields v)))"
    if "length out = 52" "(flight_output_ok) v" for out v
    using that by (auto simp: flight_output_defs split: sum.splits)
  show "layout (52 - 4) (flight_output_fields v)" if "(\<lambda>_. True) v" "(flight_output_ok) v" for v
    using that by (simp add: flight_output_defs message_reads)
  show "parse_flight_output b = Inr v"
    if "length b = 52" "sealed32 b" "(\<lambda>_. True) v" "(flight_output_ok) v"
      "holds b (flight_output_fields v)" "blank b (52 - 4) (flight_output_fields v)" for b v
    using that by (cases v; cases "fo_command v"; simp add: message_reads flight_output_fields_def; simp add: flight_output_defs message_reads)
  show "length b = 52 \<and> sealed32 b" if "parse_flight_output b = Inr v" for b v
    using that by (auto simp: flight_output_defs message_reads)
  show "(\<lambda>_. True) v \<and> (flight_output_ok) v \<and> holds b (flight_output_fields v) \<and> blank b (52 - 4) (flight_output_fields v)"
    if "parse_flight_output b = Inr v" for b v
    using that by (auto simp: flight_output_defs message_reads dest: flag_value)
qed simp

end
