(* ===== verification/Ascent_Navigation.thy ===== *)
theory Ascent_Navigation
  imports Ascent_Messages Global_Vectors
begin

text \<open>
  The aided inertial navigation of the ascent flight computer
  (\<^verbatim>\<open>flight/src/navigation.rs\<close>).  Its 64-bit products are words, so they wrap as in a
  build without overflow checks; a division that would panic makes the operation
  return no result, the value \<^term>\<open>None\<close>.  An operation that fails in the Rust sense
  returns an error and leaves the state alone.
\<close>

unbundle bit_operations_syntax

subsection \<open>State\<close>

definition EARTH_RADIUS_Q12 :: i32 where "EARTH_RADIUS_Q12 = 26124849"
definition EARTH_MU_Q12 :: i32 where "EARTH_MU_Q12 = 1632667410"
definition EARTH_ROTATION_RAD_Q30 :: i32 where "EARTH_ROTATION_RAD_Q30 = 78298"
definition INITIAL_TANGENTIAL_VELOCITY_Q24 :: i32 where "INITIAL_TANGENTIAL_VELOCITY_Q24 = 7803689"
definition ALT_ALPHA_SHIFT :: nat where "ALT_ALPHA_SHIFT = 3"
definition ALT_BETA_SHIFT :: nat where "ALT_BETA_SHIFT = 1"
definition GPS_POSITION_SHIFT :: nat where "GPS_POSITION_SHIFT = 1"
definition GPS_VELOCITY_SHIFT :: nat where "GPS_VELOCITY_SHIFT = 5"

datatype NavigationError = SequenceError | MissingInertial | NumericError

record NavigationState =
  nv_sequence :: u32
  nv_time_q16 :: i32
  nv_radius_q12 :: i32
  nv_downrange_q32 :: i32
  nv_radial_velocity_q24 :: i32
  nv_tangential_velocity_q24 :: i32
  nv_pitch :: u16
  gps_aided :: bool
  altitude_aided :: bool
  nv_checksum :: u32

record Navigation =
  nav_state :: NavigationState
  nav_initialized :: bool

definition new_ascent_navigation :: Navigation where
  "new_ascent_navigation =
     \<lparr>nav_state = \<lparr>nv_sequence = 0, nv_time_q16 = 0, nv_radius_q12 = EARTH_RADIUS_Q12, nv_downrange_q32 = 0,
        nv_radial_velocity_q24 = 0, nv_tangential_velocity_q24 = INITIAL_TANGENTIAL_VELOCITY_Q24, nv_pitch = 0,
        gps_aided = False, altitude_aided = False, nv_checksum = 2166136261\<rparr>,
      nav_initialized = False\<rparr>"

subsection \<open>Evidence checksum\<close>

definition nav_hash_word :: "u32 \<Rightarrow> u32 \<Rightarrow> u32" where
  "nav_hash_word h w = foldl (\<lambda>h s. (h XOR (drop_bit s w AND 0xff)) * 16777619) h [0, 8, 16, 24]"

definition hash_nav_state :: "u32 \<Rightarrow> NavigationState \<Rightarrow> u32" where
  "hash_nav_state h s =
     foldl nav_hash_word h
       [nv_sequence s, nv_time_q16 s, nv_radius_q12 s, nv_downrange_q32 s, nv_radial_velocity_q24 s,
        nv_tangential_velocity_q24 s, ucast (nv_pitch s), of_bool (gps_aided s) OR push_bit 1 (of_bool (altitude_aided s))]"

subsection \<open>Inertial propagation\<close>

definition idiv :: "i64 \<Rightarrow> i64 \<Rightarrow> i64 option" where
  "idiv a b =
     (if b = 0 \<or> sint a = - (2 ^ 63) \<and> sint b = - 1 then None
      else Some (word_of_int (truncate_div (sint a) (sint b))))"

definition propagate :: "NavigationState \<Rightarrow> SensorFrame \<Rightarrow> i32 \<Rightarrow> (NavigationError + NavigationState) option" where
  "propagate s frame dt =
     (let radius = scast (nv_radius_q12 s) :: i64; dt64 = scast dt :: i64
      in if radius \<le>s 0 then Some (Inl NumericError)
      else
      Option.bind (idiv (push_bit 24 (scast EARTH_MU_Q12)) radius) (\<lambda>mu_over_r_q24.
      Option.bind (idiv (push_bit 16 mu_over_r_q24) radius) (\<lambda>gravity_q28.
      let vt = scast (nv_tangential_velocity_q24 s) :: i64;
          vt2_q20 = signed_drop_bit 28 (vt * vt)
      in
      Option.bind (idiv (push_bit 20 vt2_q20) radius) (\<lambda>centrifugal_q28.
      let radial_accel = scast (accel_radial_q28 frame) + centrifugal_q28 - gravity_q28;
          tangential_accel = scast (accel_tangential_q28 frame) :: i64;
          vr = scast (nv_radial_velocity_q24 s) :: i64
      in
      Option.bind (idiv (signed_drop_bit 8 (vr * vt)) radius) (\<lambda>geometry.
      let geometry_accel_q28 = - geometry;
          new_vr = vr + signed_drop_bit 20 (radial_accel * dt64);
          new_vt = vt + signed_drop_bit 20 ((tangential_accel + geometry_accel_q28) * dt64);
          new_radius = radius + signed_drop_bit 28 (new_vr * dt64);
          atmosphere_vt = signed_drop_bit 18 (scast EARTH_ROTATION_RAD_Q30 * new_radius);
          relative_vt = new_vt - atmosphere_vt
      in
      Option.bind (idiv (relative_vt * dt64) new_radius) (\<lambda>angle_rad_q28.
      let delta_turns_q32 = signed_drop_bit 26 (angle_rad_q28 * 170891319);
          rate = signed_drop_bit 24 (scast (gyro_rate_q24 frame) * dt64);
          gyro_delta = ucast (word_of_int (truncate_div (sint rate) 360) :: i64) :: i32
      in Some
        (if new_radius \<le>s 0 \<or> sint new_vr < - (2 ^ 31) \<or> 2 ^ 31 - 1 < sint new_vr
            \<or> sint new_vt < - (2 ^ 31) \<or> 2 ^ 31 - 1 < sint new_vt
         then Inl NumericError
         else Inr (s\<lparr>nv_radius_q12 := ucast new_radius, nv_radial_velocity_q24 := ucast new_vr,
           nv_tangential_velocity_q24 := ucast new_vt,
           nv_downrange_q32 := nv_downrange_q32 s + ucast delta_turns_q32,
           nv_pitch := nv_pitch s + ucast gyro_delta\<rparr>))))))))"

subsection \<open>Aiding\<close>

definition apply_altimeter :: "i32 \<Rightarrow> NavigationState \<Rightarrow> NavigationState" where
  "apply_altimeter altitude s =
     (let measured = saturating_add_i32 EARTH_RADIUS_Q12 altitude;
          error = saturating_sub_i32 measured (nv_radius_q12 s)
      in s\<lparr>nv_radius_q12 := saturating_add_i32 (nv_radius_q12 s) (signed_drop_bit ALT_ALPHA_SHIFT error),
           nv_radial_velocity_q24 := saturating_add_i32 (nv_radial_velocity_q24 s)
             (signed_drop_bit (ALT_BETA_SHIFT + 2) (push_bit 12 error))\<rparr>)"

definition apply_gps :: "SensorFrame \<Rightarrow> NavigationState \<Rightarrow> NavigationState option" where
  "apply_gps frame s =
     (let measured_radius = saturating_add_i32 (gps_radius_q12 frame) (signed_drop_bit 14 (gps_radial_velocity_q24 frame));
          radius = scast (gps_radius_q12 frame) :: i64;
          atmosphere_vt = signed_drop_bit 18 (scast EARTH_ROTATION_RAD_Q30 * radius);
          relative_vt = scast (gps_tangential_velocity_q24 frame) - atmosphere_vt
      in
      Option.bind (idiv (relative_vt * 16384) radius) (\<lambda>angle_rad_q28.
      let delayed_turns = ucast (signed_drop_bit 26 (angle_rad_q28 * 170891319)) :: i32;
          measured_downrange = gps_downrange_q32 frame + delayed_turns;
          angle_error = measured_downrange - nv_downrange_q32 s
      in Some (s\<lparr>nv_radius_q12 := saturating_add_i32 (nv_radius_q12 s)
             (signed_drop_bit GPS_POSITION_SHIFT (measured_radius - nv_radius_q12 s)),
           nv_downrange_q32 := nv_downrange_q32 s + signed_drop_bit GPS_POSITION_SHIFT angle_error,
           nv_radial_velocity_q24 := saturating_add_i32 (nv_radial_velocity_q24 s)
             (signed_drop_bit GPS_VELOCITY_SHIFT (gps_radial_velocity_q24 frame - nv_radial_velocity_q24 s)),
           nv_tangential_velocity_q24 := saturating_add_i32 (nv_tangential_velocity_q24 s)
             (signed_drop_bit GPS_VELOCITY_SHIFT (gps_tangential_velocity_q24 frame - nv_tangential_velocity_q24 s))\<rparr>)))"

subsection \<open>Update\<close>

definition required_inertial :: u16 where
  "required_inertial = SENSOR_VALID_ACCEL OR SENSOR_VALID_GYRO OR SENSOR_VALID_STEERING OR SENSOR_VALID_CLOCK"

definition frame_dt :: "Navigation \<Rightarrow> SensorFrame \<Rightarrow> i32" where
  "frame_dt nv frame =
     (if nav_initialized nv then onboard_time_q16 frame - nv_time_q16 (nav_state nv) else onboard_time_q16 frame)"

definition nav_aiding :: "SensorFrame \<Rightarrow> NavigationState \<Rightarrow> NavigationState option" where
  "nav_aiding frame s =
     (let s = s\<lparr>nv_sequence := sf_sequence frame, nv_time_q16 := onboard_time_q16 frame,
            nv_pitch := steering_pitch frame, altitude_aided := False, gps_aided := False\<rparr>;
          s = (if sf_validity frame AND SENSOR_VALID_ALTIMETER \<noteq> 0
            then (apply_altimeter (sf_altitude_q12 frame) s)\<lparr>altitude_aided := True\<rparr> else s)
      in if sf_validity frame AND SENSOR_VALID_GPS \<noteq> 0
         then map_option (\<lambda>s. s\<lparr>gps_aided := True\<rparr>) (apply_gps frame s) else Some s)"

definition nav_finish :: "SensorFrame \<Rightarrow> NavigationState \<Rightarrow> ((NavigationError + NavigationState) \<times> Navigation) option" where
  "nav_finish frame s =
     map_option (\<lambda>s. let s = s\<lparr>nv_checksum := hash_nav_state (nv_checksum s) s\<rparr>
        in (Inr s, \<lparr>nav_state = s, nav_initialized = True\<rparr>)) (nav_aiding frame s)"

definition nav_update :: "Navigation \<Rightarrow> SensorFrame \<Rightarrow> ((NavigationError + NavigationState) \<times> Navigation) option" where
  "nav_update nv frame =
     (if sf_validity frame AND required_inertial \<noteq> required_inertial then Some (Inl MissingInertial, nv)
      else if nav_initialized nv \<and> sf_sequence frame \<noteq> nv_sequence (nav_state nv) + 1 then Some (Inl SequenceError, nv)
      else let dt = frame_dt nv frame
      in if \<not> (0 \<le> sint dt \<and> sint dt \<le> 16384) then Some (Inl NumericError, nv)
      else if nav_initialized nv \<and> 0 <s dt then
        (case propagate (nav_state nv) frame dt of
           None \<Rightarrow> None
         | Some (Inl e) \<Rightarrow> Some (Inl e, nv)
         | Some (Inr s) \<Rightarrow> nav_finish frame s)
      else nav_finish frame (nav_state nv))"

subsection \<open>Magnitude bounds of 64-bit expressions\<close>

definition abs_within :: "int \<Rightarrow> i64 \<Rightarrow> bool" where
  "abs_within A x \<longleftrightarrow> \<bar>sint x\<bar> \<le> A"

lemma abs_within_exact: "\<bar>x\<bar> \<le> A \<Longrightarrow> A < 2 ^ 63 \<Longrightarrow> sint (word_of_int x :: i64) = x"
  by (rule sint_of_int_i64) auto

lemma abs_within_of_int: "\<bar>x\<bar> \<le> A \<Longrightarrow> A < 2 ^ 63 \<Longrightarrow> abs_within A (word_of_int x)"
  by (simp only: abs_within_def abs_within_exact)

lemma abs_within_mono: "abs_within A x \<Longrightarrow> A \<le> B \<Longrightarrow> abs_within B x"
  by (simp add: abs_within_def)

lemma abs_within_scast: "abs_within (2 ^ 31) (scast (x :: i32))"
  using sint_i32_range [of x] by (simp add: abs_within_def sint_scast_i64 abs_le_iff)

lemma i64_of_ints:
  "a * b = (word_of_int (sint a * sint b) :: i64)" "a + b = (word_of_int (sint a + sint b) :: i64)"
  "a - b = (word_of_int (sint a - sint b) :: i64)" "push_bit n a = (word_of_int (sint a * 2 ^ n) :: i64)"
  by (simp_all add: push_bit_eq_mult)

lemma exact_add: "abs_within A a \<Longrightarrow> abs_within B b \<Longrightarrow> A + B < 2 ^ 63 \<Longrightarrow> sint (a + b) = sint a + sint b"
  by (subst i64_of_ints(2), rule abs_within_exact [of _ "A + B"]) (auto simp: abs_within_def)

lemma abs_within_add: "abs_within A a \<Longrightarrow> abs_within B b \<Longrightarrow> A + B < 2 ^ 63 \<Longrightarrow> abs_within (A + B) (a + b)"
  by (subst i64_of_ints(2), rule abs_within_of_int) (auto simp: abs_within_def)

lemma abs_within_diff: "abs_within A a \<Longrightarrow> abs_within B b \<Longrightarrow> A + B < 2 ^ 63 \<Longrightarrow> abs_within (A + B) (a - b)"
  by (subst i64_of_ints(3), rule abs_within_of_int) (auto simp: abs_within_def)

lemma abs_within_neg: "abs_within A a \<Longrightarrow> A < 2 ^ 63 \<Longrightarrow> abs_within A (- a)"
  using abs_within_diff [of 0 0 A a] by (simp add: abs_within_def)

lemma abs_within_mult: "abs_within A a \<Longrightarrow> abs_within B b \<Longrightarrow> A * B < 2 ^ 63 \<Longrightarrow> abs_within (A * B) (a * b)"
  by (subst i64_of_ints(1), rule abs_within_of_int) (auto simp: abs_within_def abs_mult intro!: mult_mono)

lemma abs_within_push: "abs_within A a \<Longrightarrow> A * 2 ^ n < 2 ^ 63 \<Longrightarrow> abs_within (A * 2 ^ n) (push_bit n a)"
  by (subst i64_of_ints(4), rule abs_within_of_int) (auto simp: abs_within_def abs_mult intro!: mult_mono)

lemma abs_within_shift: "abs_within A a \<Longrightarrow> A \<le> B * 2 ^ n \<Longrightarrow> abs_within B (signed_drop_bit n a)"
proof -
  assume a: "abs_within A a" "A \<le> B * 2 ^ n"
  have b: "- B * 2 ^ n \<le> sint a" "sint a \<le> B * 2 ^ n" using a by (auto simp: abs_within_def)
  have "sint a div 2 ^ n \<le> B * 2 ^ n div 2 ^ n" by (rule zdiv_mono1 [OF b(2)]) simp
  moreover have "- B * 2 ^ n div 2 ^ n \<le> sint a div 2 ^ n" by (rule zdiv_mono1 [OF b(1)]) simp
  moreover have "B * 2 ^ n div 2 ^ n = B" "- B * 2 ^ n div 2 ^ n = - B"
    by (rule nonzero_mult_div_cancel_right, simp)+
  ultimately show ?thesis
    by (simp only: abs_within_def sint_signed_drop_bit_eq drop_bit_eq_div abs_le_iff, intro conjI TrueI, linarith)
qed

lemma truncate_div_abs: "\<bar>truncate_div n d\<bar> = (if d = 0 then 0 else \<bar>n\<bar> div \<bar>d\<bar>)"
  by (auto simp: truncate_div_def abs_mult pos_imp_zdiv_nonneg_iff)

lemma idiv_defined: "abs_within A a \<Longrightarrow> A < 2 ^ 63 \<Longrightarrow> b \<noteq> 0 \<Longrightarrow> \<exists>c. idiv a b = Some c"
  by (auto simp: idiv_def abs_within_def)

lemma idiv_bound:
  assumes "abs_within A a" "A \<le> B * d" "0 < d" "d \<le> sint b" "A < 2 ^ 63" "B < 2 ^ 63"
  obtains c where "idiv a b = Some c" "abs_within B c"
proof -
  have "\<bar>sint a\<bar> div sint b \<le> \<bar>sint a\<bar> div d" using assms by (intro zdiv_mono2) auto
  also have "\<dots> \<le> B"
    using zdiv_mono1 [of "\<bar>sint a\<bar>" "B * d" d] assms by (simp add: abs_within_def)
  finally have "\<bar>truncate_div (sint a) (sint b)\<bar> \<le> B" using assms by (simp add: truncate_div_abs)
  then have "abs_within B (word_of_int (truncate_div (sint a) (sint b)))" using assms(6) by (rule abs_within_of_int)
  moreover have "idiv a b = Some (word_of_int (truncate_div (sint a) (sint b)))" using assms by (auto simp: idiv_def)
  ultimately show ?thesis using that by blast
qed

subsection \<open>Updates return\<close>

lemma propagate_defined:
  assumes r: "2 ^ 20 \<le> sint (nv_radius_q12 s)" and dt: "0 \<le> sint dt" "sint dt \<le> 2 ^ 14"
  shows "\<exists>res. propagate s frame dt = Some res"
proof -
  let ?r = "scast (nv_radius_q12 s) :: i64" and ?dt = "scast dt :: i64"
  let ?vt = "scast (nv_tangential_velocity_q24 s) :: i64" and ?vr = "scast (nv_radial_velocity_q24 s) :: i64"
  have r64: "2 ^ 20 \<le> sint ?r" "abs_within (2 ^ 31) ?r"
    using r by (simp only: sint_scast_i64) (rule abs_within_scast)
  have dt64: "abs_within (2 ^ 14) ?dt" using dt by (simp add: abs_within_def sint_scast_i64)
  have "abs_within (2 ^ 31) (scast EARTH_MU_Q12)" by (rule abs_within_scast)
  then have "abs_within (2 ^ 31 * 2 ^ 24) (push_bit 24 (scast EARTH_MU_Q12))" by (rule abs_within_push) simp
  then obtain mu where mu: "idiv (push_bit 24 (scast EARTH_MU_Q12)) ?r = Some mu" "abs_within (2 ^ 35) mu"
    by (rule idiv_bound [where d = "2 ^ 20" and B = "2 ^ 35"]) (use r64 in simp_all)
  have "abs_within (2 ^ 35 * 2 ^ 16) (push_bit 16 mu)" by (rule abs_within_push [OF mu(2)]) simp
  then obtain g where g: "idiv (push_bit 16 mu) ?r = Some g" "abs_within (2 ^ 31) g"
    by (rule idiv_bound [where d = "2 ^ 20" and B = "2 ^ 31"]) (use r64 in simp_all)
  have "abs_within (2 ^ 31 * 2 ^ 31) (?vt * ?vt)" by (rule abs_within_mult [OF abs_within_scast abs_within_scast]) simp
  then have "abs_within (2 ^ 34) (signed_drop_bit 28 (?vt * ?vt))" by (rule abs_within_shift) simp
  then have "abs_within (2 ^ 34 * 2 ^ 20) (push_bit 20 (signed_drop_bit 28 (?vt * ?vt)))" by (rule abs_within_push) simp
  then obtain c where c: "idiv (push_bit 20 (signed_drop_bit 28 (?vt * ?vt))) ?r = Some c" "abs_within (2 ^ 34) c"
    by (rule idiv_bound [where d = "2 ^ 20" and B = "2 ^ 34"]) (use r64 in simp_all)
  have "abs_within (2 ^ 31 * 2 ^ 31) (?vr * ?vt)" by (rule abs_within_mult [OF abs_within_scast abs_within_scast]) simp
  then have "abs_within (2 ^ 54) (signed_drop_bit 8 (?vr * ?vt))" by (rule abs_within_shift) simp
  then obtain e where e: "idiv (signed_drop_bit 8 (?vr * ?vt)) ?r = Some e" "abs_within (2 ^ 34) e"
    by (rule idiv_bound [where d = "2 ^ 20" and B = "2 ^ 34"]) (use r64 in simp_all)
  let ?ra = "scast (accel_radial_q28 frame) + c - g" and ?ta = "scast (accel_tangential_q28 frame) + - e :: i64"
  have "abs_within (2 ^ 31 + 2 ^ 34 + 2 ^ 31) ?ra"
    by (intro abs_within_diff abs_within_add abs_within_scast c g) simp_all
  then have "abs_within ((2 ^ 31 + 2 ^ 34 + 2 ^ 31) * 2 ^ 14) (?ra * ?dt)" by (rule abs_within_mult [OF _ dt64]) simp
  then have "abs_within (2 ^ 29) (signed_drop_bit 20 (?ra * ?dt))" by (rule abs_within_shift) simp
  then have vr: "abs_within (2 ^ 31 + 2 ^ 29) (?vr + signed_drop_bit 20 (?ra * ?dt))" (is "abs_within _ ?nvr")
    by (intro abs_within_add abs_within_scast) simp_all
  have "abs_within (2 ^ 31 + 2 ^ 34) ?ta" by (intro abs_within_add abs_within_scast abs_within_neg e) simp_all
  then have "abs_within ((2 ^ 31 + 2 ^ 34) * 2 ^ 14) (?ta * ?dt)" by (rule abs_within_mult [OF _ dt64]) simp
  then have "abs_within (2 ^ 29) (signed_drop_bit 20 (?ta * ?dt))" by (rule abs_within_shift) simp
  then have vt: "abs_within (2 ^ 31 + 2 ^ 29) (?vt + signed_drop_bit 20 (?ta * ?dt))" (is "abs_within _ ?nvt")
    by (intro abs_within_add abs_within_scast) simp_all
  have "abs_within ((2 ^ 31 + 2 ^ 29) * 2 ^ 14) (?nvr * ?dt)" by (rule abs_within_mult [OF vr dt64]) simp
  then have climb: "abs_within (2 ^ 18) (signed_drop_bit 28 (?nvr * ?dt))" (is "abs_within _ ?climb") by (rule abs_within_shift) simp
  have nr: "abs_within (2 ^ 31 + 2 ^ 18) (?r + ?climb)" by (intro abs_within_add r64 climb) simp
  have "sint (?r + ?climb) = sint ?r + sint ?climb" by (rule exact_add [OF r64(2) climb]) simp
  then have "?r + ?climb \<noteq> 0" using r64 climb by (auto simp: abs_within_def)
  have "abs_within (2 ^ 31 * (2 ^ 31 + 2 ^ 18)) (scast EARTH_ROTATION_RAD_Q30 * (?r + ?climb))"
    by (rule abs_within_mult [OF abs_within_scast nr]) simp
  then have "abs_within (2 ^ 45) (signed_drop_bit 18 (scast EARTH_ROTATION_RAD_Q30 * (?r + ?climb)))" (is "abs_within _ ?atm")
    by (rule abs_within_shift) simp
  then have "abs_within (2 ^ 31 + 2 ^ 29 + 2 ^ 45) (?nvt - ?atm)" by (rule abs_within_diff [OF vt]) simp
  then have "abs_within ((2 ^ 31 + 2 ^ 29 + 2 ^ 45) * 2 ^ 14) ((?nvt - ?atm) * ?dt)" by (rule abs_within_mult [OF _ dt64]) simp
  then obtain a where "idiv ((?nvt - ?atm) * ?dt) (?r + ?climb) = Some a"
    using idiv_defined [OF _ _ \<open>?r + ?climb \<noteq> 0\<close>] by fastforce
  then show ?thesis using mu(1) g(1) c(1) e(1) by (simp add: propagate_def Let_def)
qed

lemma apply_gps_defined:
  assumes "gps_radius_q12 frame \<noteq> 0"
  shows "\<exists>res. apply_gps frame s = Some res"
proof -
  let ?r = "scast (gps_radius_q12 frame) :: i64"
  have "sint ?r \<noteq> 0" using assms signed_word_eqI [of "gps_radius_q12 frame" 0] by (auto simp: sint_scast_i64)
  then have "?r \<noteq> 0" by auto
  have "abs_within (2 ^ 31 * 2 ^ 31) (scast EARTH_ROTATION_RAD_Q30 * ?r)" by (rule abs_within_mult [OF abs_within_scast abs_within_scast]) simp
  then have "abs_within (2 ^ 44) (signed_drop_bit 18 (scast EARTH_ROTATION_RAD_Q30 * ?r))" (is "abs_within _ ?atm")
    by (rule abs_within_shift) simp
  then have "abs_within (2 ^ 31 + 2 ^ 44) (scast (gps_tangential_velocity_q24 frame) - ?atm)"
    by (rule abs_within_diff [OF abs_within_scast]) simp
  then have "abs_within ((2 ^ 31 + 2 ^ 44) * 2 ^ 14) ((scast (gps_tangential_velocity_q24 frame) - ?atm) * 16384)"
    by (rule abs_within_mult) (simp_all add: abs_within_def)
  then obtain a where "idiv ((scast (gps_tangential_velocity_q24 frame) - ?atm) * 16384) ?r = Some a"
    using idiv_defined [OF _ _ \<open>?r \<noteq> 0\<close>] by fastforce
  then show ?thesis by (simp add: apply_gps_def Let_def)
qed

lemma apply_gps_zero: "gps_radius_q12 frame = 0 \<Longrightarrow> apply_gps frame s = None"
  by (simp add: apply_gps_def idiv_def Let_def)

lemma nav_finish_defined:
  "(\<exists>res. nav_finish frame s = Some res)
     \<longleftrightarrow> sf_validity frame AND SENSOR_VALID_GPS = 0 \<or> gps_radius_q12 frame \<noteq> 0"
  using apply_gps_defined apply_gps_zero by (fastforce simp: nav_finish_def nav_aiding_def Let_def)

lemma nav_update_error_keeps: "nav_update nv frame = Some (Inl e, nv') \<Longrightarrow> nv' = nv"
  by (auto simp: nav_update_def nav_finish_def Let_def split: if_splits option.splits sum.splits)

end
