(* ===== verification/Ascent_Guidance.thy ===== *)
theory Ascent_Guidance
  imports Ascent_Navigation
begin

text \<open>
  The ascent flight computer (\<^verbatim>\<open>flight/src/gnc.rs\<close>): the mode sequencing, the pitch
  program and its insertion feedback, the engine and separation commands, the steering
  monitor and the abort latch, composed into the step over a sensor frame and the step
  over a serialized frame.
\<close>

unbundle bit_operations_syntax

subsection \<open>State\<close>

definition STAGE1_CUTOFF_STEP :: u32 where "STAGE1_CUTOFF_STEP = 1240"
definition STAGE2_HANDOVER_STEPS :: u32 where "STAGE2_HANDOVER_STEPS = 16"
definition INSERTION_FEEDBACK_STEP :: u32 where "INSERTION_FEEDBACK_STEP = 1760"
definition STAGE2_FLIGHT_CUTOFF_STEP :: u32 where "STAGE2_FLIGHT_CUTOFF_STEP = 3171"
definition TRACKING_LIMIT :: u16 where "TRACKING_LIMIT = 364"
definition TRACKING_LIMIT_STEPS :: u8 where "TRACKING_LIMIT_STEPS = 16"
definition TARGET_RADIUS_Q12 :: i32 where "TARGET_RADIUS_Q12 = 26950193"
definition TARGET_TANGENTIAL_VELOCITY_Q24 :: i32 where "TARGET_TANGENTIAL_VELOCITY_Q24 = 130711290"
definition MIN_ORBIT_RADIUS_Q12 :: i32 where "MIN_ORBIT_RADIUS_Q12 = 26862129"
definition PITCH_STEPS :: "u32 list" where "PITCH_STEPS = [0, 80, 240, 560, 960, 1240, 1760, 3200]"
definition PITCH_ANGLES :: "u16 list" where "PITCH_ANGLES = [0, 0, 3160, 7133, 9065, 13266, 16220, 16384]"

record FlightStatus =
  fs_mode :: FlightMode
  fs_alarms :: u16
  abort_latched :: bool
  tracking_bad_steps :: u8
  stage2_ignition_step :: u32
  fs_checksum :: u32

record FlightComputer =
  fc_navigation :: Navigation
  fc_status :: FlightStatus
  last_desired_pitch :: u16

definition new_ascent_computer :: FlightComputer where
  "new_ascent_computer =
     \<lparr>fc_navigation = new_ascent_navigation,
      fc_status = \<lparr>fs_mode = BootMode, fs_alarms = 0, abort_latched = False, tracking_bad_steps = 0,
        stage2_ignition_step = - 1, fs_checksum = 2166136261\<rparr>,
      last_desired_pitch = 0\<rparr>"

subsection \<open>Guidance functions\<close>

definition saturating_add_u32 :: "u32 \<Rightarrow> u32 \<Rightarrow> u32" where
  "saturating_add_u32 a b = (if unat a + unat b < 2 ^ 32 then a + b else - 1)"

definition pitch_between :: "u32 \<Rightarrow> nat \<Rightarrow> u16" where
  "pitch_between stp i =
     (let span = PITCH_STEPS ! (i + 1) - PITCH_STEPS ! i;
          offset = stp - PITCH_STEPS ! i;
          range = ucast (PITCH_ANGLES ! (i + 1)) - ucast (PITCH_ANGLES ! i) :: i32
      in ucast (ucast (PITCH_ANGLES ! i)
           + word_of_int (truncate_div (sint (range * offset + word_of_int (truncate_div (sint span) 2))) (sint span)) :: i32))"

definition pitch_program :: "u32 \<Rightarrow> u16" where
  "pitch_program stp =
     (let last = length PITCH_STEPS - 1
      in if stp \<le> PITCH_STEPS ! 0 then PITCH_ANGLES ! 0
         else if PITCH_STEPS ! last \<le> stp then PITCH_ANGLES ! last
         else (case find (\<lambda>i. stp < PITCH_STEPS ! (i + 1)) [0..<last] of
             Some i \<Rightarrow> pitch_between stp i
           | None \<Rightarrow> PITCH_ANGLES ! last))"

definition clamp32 :: "int \<Rightarrow> int \<Rightarrow> i32 \<Rightarrow> i32" where
  "clamp32 lower upper x = word_of_int (clamp_int lower upper (sint x))"

definition insertion_pitch :: "u32 \<Rightarrow> NavigationState \<Rightarrow> u16" where
  "insertion_pitch sq nav =
     (let base = ucast (pitch_program (saturating_add_u32 sq 11)) :: i32;
          prograde_margin = (if 16384 - base <s 0 then 0 else 16384 - base);
          energy = clamp32 0 546 (signed_drop_bit 13 (TARGET_TANGENTIAL_VELOCITY_Q24 - nv_tangential_velocity_q24 nav));
          energy = (if prograde_margin <s energy then prograde_margin else energy);
          radial_raw = clamp32 (- 910) 910 (signed_drop_bit 10 (nv_radial_velocity_q24 nav)
            + signed_drop_bit 7 (nv_radius_q12 nav - TARGET_RADIUS_Q12));
          radial_ramp = clamp32 0 40960 (nv_radius_q12 nav - (TARGET_RADIUS_Q12 - 81920));
          radial_damping = word_of_int (truncate_div (sint (radial_raw * radial_ramp)) 40960)
      in ucast (clamp32 12743 20025 (base + energy + radial_damping)))"

definition abs32 :: "i32 \<Rightarrow> i32" where
  "abs32 x = (if x <s 0 then - x else x)"

definition should_cutoff :: "u32 \<Rightarrow> NavigationState \<Rightarrow> bool" where
  "should_cutoff sq nav \<longleftrightarrow>
     (let in_radius = MIN_ORBIT_RADIUS_Q12 \<le>s nv_radius_q12 nav \<and> nv_radius_q12 nav \<le>s 27025969;
          velocity_ready = TARGET_TANGENTIAL_VELOCITY_Q24 - 10000 \<le>s nv_tangential_velocity_q24 nav;
          radial_settled = abs32 (nv_radial_velocity_q24 nav) \<le>s 838861
      in in_radius \<and> velocity_ready \<and> radial_settled \<or> STAGE2_FLIGHT_CUTOFF_STEP \<le> saturating_add_u32 sq 1)"

definition circular_error :: "u16 \<Rightarrow> u16 \<Rightarrow> u16" where
  "circular_error a b = (let d = (if a < b then b - a else a - b) in min d (0xffff - d))"

definition ascent_hash_flight :: "u32 \<Rightarrow> FlightStatus \<Rightarrow> ActuatorCommand \<Rightarrow> u32" where
  "ascent_hash_flight h s c =
     foldl nav_hash_word h
       [ucast (flight_mode_tag (fs_mode s)), ucast (fs_alarms s), ac_sequence c, ucast (desired_pitch c),
        ucast (engine_tag (engine_action c)),
        of_bool (separate c) OR push_bit 1 (of_bool (abort_safeing c)) OR push_bit 2 (of_bool (recovery_requested c))]"

subsection \<open>Operations\<close>

definition with_status :: "(FlightStatus \<Rightarrow> FlightStatus) \<Rightarrow> FlightComputer \<Rightarrow> FlightComputer" where
  "with_status f fc = fc\<lparr>fc_status := f (fc_status fc)\<rparr>"

definition latch_abort :: "u16 \<Rightarrow> FlightComputer \<Rightarrow> FlightComputer" where
  "latch_abort alarm = with_status (\<lambda>s. s\<lparr>abort_latched := True, fs_mode := AbortMode,
     fs_alarms := fs_alarms s OR (alarm OR ALARM_ABORT)\<rparr>)"

definition make_output :: "u32 \<Rightarrow> NavigationState \<Rightarrow> ActuatorCommand \<Rightarrow> FlightComputer \<Rightarrow> FlightOutput \<times> FlightComputer" where
  "make_output sq nav cmd fc =
     (let fc = with_status (\<lambda>s. s\<lparr>fs_checksum := ascent_hash_flight (fs_checksum s) s cmd\<rparr>) fc
      in (\<lparr>fo_sequence = sq, nav_time_q16 = nv_time_q16 nav, nav_radius_q12 = nv_radius_q12 nav,
           nav_downrange_q32 = nv_downrange_q32 nav, nav_radial_velocity_q24 = nv_radial_velocity_q24 nav,
           nav_tangential_velocity_q24 = nv_tangential_velocity_q24 nav, nav_pitch = nv_pitch nav,
           fo_mode = fs_mode (fc_status fc), fo_alarms = fs_alarms (fc_status fc), fo_command = cmd,
           fo_nav_checksum = nv_checksum nav, fo_flight_checksum = fs_checksum (fc_status fc)\<rparr>, fc))"

definition safe_command :: "u32 \<Rightarrow> FlightComputer \<Rightarrow> ActuatorCommand" where
  "safe_command sq fc =
     \<lparr>ac_sequence = sq, desired_pitch = last_desired_pitch fc, engine_action = EngineCutoff, separate = False,
      abort_safeing = True, recovery_requested = True\<rparr>"

definition safe_output :: "u32 \<Rightarrow> FlightComputer \<Rightarrow> FlightOutput \<times> FlightComputer" where
  "safe_output sq fc = make_output sq (nav_state (fc_navigation fc)) (safe_command sq fc) fc"

definition update_mode :: "SensorFrame \<Rightarrow> FlightComputer \<Rightarrow> FlightComputer" where
  "update_mode frame fc =
     (if stage_phase frame = StageComplete then with_status (\<lambda>s. s\<lparr>fs_mode := CoastMode\<rparr>) fc
      else if active_stage frame = 0 then
        with_status (\<lambda>s. s\<lparr>fs_mode :=
          (if stage_phase frame = CoastBeforeSeparation then StageTransition else ProgrammedAscent)\<rparr>) fc
      else
      with_status (\<lambda>s.
        let s = (if active_stage frame = 1 \<and> sf_engine_on frame \<and> stage2_ignition_step s = - 1
            then s\<lparr>stage2_ignition_step := sf_sequence frame\<rparr> else s)
        in s\<lparr>fs_mode :=
          (if stage2_ignition_step s \<noteq> - 1
              \<and> saturating_add_u32 (stage2_ignition_step s) STAGE2_HANDOVER_STEPS \<le> sf_sequence frame
           then Insertion else StageTransition)\<rparr>) fc)"

definition monitor_steering :: "SensorFrame \<Rightarrow> FlightComputer \<Rightarrow> FlightComputer" where
  "monitor_steering frame fc =
     (let error = circular_error (last_desired_pitch fc) (steering_pitch frame);
          fc = with_status (\<lambda>s. s\<lparr>tracking_bad_steps :=
            (if TRACKING_LIMIT < error
             then if tracking_bad_steps s = 255 then 255 else tracking_bad_steps s + 1 else 0)\<rparr>) fc
      in if TRACKING_LIMIT_STEPS \<le> tracking_bad_steps (fc_status fc) then latch_abort ALARM_STEERING fc else fc)"

definition guidance_command :: "SensorFrame \<Rightarrow> NavigationState \<Rightarrow> FlightComputer \<Rightarrow> ActuatorCommand \<times> FlightComputer" where
  "guidance_command frame nav fc =
     (let sq = sf_sequence frame;
          cmd = \<lparr>ac_sequence = sq, desired_pitch = pitch_program (saturating_add_u32 sq 11),
            engine_action = EngineHold, separate = False, abort_safeing = False, recovery_requested = False\<rparr>
      in if active_stage frame = 0 then
        (let cmd = (if stage_phase frame = CoastBeforeIgnition then cmd\<lparr>engine_action := EngineIgnite\<rparr> else cmd);
             cmd = (if STAGE1_CUTOFF_STEP \<le> saturating_add_u32 sq 1 \<and> stage_phase frame = Burning
               then cmd\<lparr>engine_action := EngineCutoff\<rparr> else cmd);
             cmd = (if stage_phase frame = CoastBeforeSeparation then cmd\<lparr>separate := True\<rparr> else cmd)
         in (cmd, fc))
      else if active_stage frame = 1 then
        (let cmd = (if stage_phase frame = CoastBeforeIgnition then cmd\<lparr>engine_action := EngineIgnite\<rparr> else cmd);
             cmd = (if fs_mode (fc_status fc) = Insertion \<and> INSERTION_FEEDBACK_STEP \<le> sq
               then cmd\<lparr>desired_pitch := insertion_pitch sq nav\<rparr> else cmd)
         in if stage_phase frame = Burning \<and> should_cutoff sq nav
            then (cmd\<lparr>engine_action := EngineCutoff\<rparr>, with_status (\<lambda>s. s\<lparr>fs_mode := CoastMode\<rparr>) fc)
            else (cmd, fc))
      else (cmd, fc))"

definition ascent_step :: "SensorFrame \<Rightarrow> FlightComputer \<Rightarrow> (FlightOutput \<times> FlightComputer) option" where
  "ascent_step frame fc =
     map_option (\<lambda>(res, nv).
       let fc = fc\<lparr>fc_navigation := nv\<rparr>
       in case res of
            Inl e \<Rightarrow> safe_output (sf_sequence frame) (latch_abort ALARM_NAVIGATION fc)
          | Inr nav \<Rightarrow>
            if abort_latched (fc_status fc) then safe_output (sf_sequence frame) fc
            else
            let fc = update_mode frame fc;
                fc = (if fs_mode (fc_status fc) = Insertion then monitor_steering frame fc else fc)
            in if abort_latched (fc_status fc) then safe_output (sf_sequence frame) fc
            else
            let (cmd, fc) = guidance_command frame nav fc;
                fc = fc\<lparr>last_desired_pitch := desired_pitch cmd\<rparr>
            in make_output (sf_sequence frame) nav cmd fc)
       (nav_update (fc_navigation fc) frame)"

definition step_serialized :: "u8 list \<Rightarrow> FlightComputer \<Rightarrow> (FlightOutput \<times> FlightComputer) option" where
  "step_serialized bytes fc =
     (case parse_sensor_frame bytes of
        Inr frame \<Rightarrow> ascent_step frame fc
      | Inl e \<Rightarrow>
        let fc = latch_abort ALARM_SENSOR_FRAME fc
        in Some (safe_output (nv_sequence (nav_state (fc_navigation fc))) fc))"

end
