(* ===== verification/Ascent_Safety.thy ===== *)
theory Ascent_Safety
  imports Ascent_Guidance
begin

text \<open>
  What the ascent flight computer promises: the abort latch, the outputs it may send, the
  engine and separation policy, the pitch program's bounds, and exactly which frames stop
  it.
\<close>

unbundle bit_operations_syntax

subsection \<open>Outputs\<close>

definition safe_report :: "FlightOutput \<Rightarrow> bool" where
  "safe_report r \<longleftrightarrow> engine_action (fo_command r) = EngineCutoff \<and> \<not> separate (fo_command r)
     \<and> abort_safeing (fo_command r) \<and> recovery_requested (fo_command r)
     \<and> fo_mode r = AbortMode \<and> fo_alarms r AND ALARM_ABORT \<noteq> 0"

definition nominal_report :: "FlightOutput \<Rightarrow> bool" where
  "nominal_report r \<longleftrightarrow> \<not> abort_safeing (fo_command r) \<and> \<not> recovery_requested (fo_command r)
     \<and> fo_mode r \<noteq> AbortMode \<and> fo_alarms r = 0"

definition abort_consistent :: "FlightStatus \<Rightarrow> bool" where
  "abort_consistent s \<longleftrightarrow> fs_alarms s AND NOT ALARM_MASK = 0
     \<and> (if abort_latched s then fs_mode s = AbortMode \<and> fs_alarms s AND ALARM_ABORT \<noteq> 0
        else fs_mode s \<noteq> AbortMode \<and> fs_alarms s = 0)"

definition report_of :: "FlightComputer \<Rightarrow> FlightOutput \<times> FlightComputer \<Rightarrow> bool" where
  "report_of before res \<longleftrightarrow> (case res of (r, fc) \<Rightarrow>
     abort_consistent (fc_status fc) \<and> flight_output_ok r
     \<and> (if abort_latched (fc_status fc) then safe_report r
          \<and> desired_pitch (fo_command r) = last_desired_pitch before
          \<and> last_desired_pitch fc = last_desired_pitch before
        else nominal_report r))"

lemma with_status_simps [simp]:
  "fc_status (with_status f fc) = f (fc_status fc)" "fc_navigation (with_status f fc) = fc_navigation fc"
  "last_desired_pitch (with_status f fc) = last_desired_pitch fc"
  by (simp_all add: with_status_def)

lemma latch_abort_simps [simp]:
  "abort_latched (fc_status (latch_abort a fc))" "fs_mode (fc_status (latch_abort a fc)) = AbortMode"
  "fs_alarms (fc_status (latch_abort a fc)) = fs_alarms (fc_status fc) OR (a OR ALARM_ABORT)"
  "fc_navigation (latch_abort a fc) = fc_navigation fc" "last_desired_pitch (latch_abort a fc) = last_desired_pitch fc"
  by (simp_all add: latch_abort_def)

lemma latch_abort_consistent:
  assumes "fs_alarms (fc_status fc) AND NOT ALARM_MASK = 0" "a \<in> {ALARM_SENSOR_FRAME, ALARM_NAVIGATION, ALARM_STEERING}"
  shows "abort_consistent (fc_status (latch_abort a fc))"
proof -
  have "(fs_alarms (fc_status fc) OR (a OR ALARM_ABORT)) AND NOT ALARM_MASK = 0"
    using assms by (auto simp: word_ao_dist ascent_constants)
  moreover have "(fs_alarms (fc_status fc) OR (a OR ALARM_ABORT)) AND ALARM_ABORT \<noteq> 0"
  proof -
    have "bit ((fs_alarms (fc_status fc) OR (a OR ALARM_ABORT)) AND ALARM_ABORT) 3"
      by (simp add: bit_and_iff bit_or_iff ALARM_ABORT_def bit_numeral_word_iff)
    then show ?thesis by auto
  qed
  ultimately show ?thesis by (simp add: abort_consistent_def)
qed

lemma safe_output_report:
  "abort_consistent (fc_status fc) \<Longrightarrow> abort_latched (fc_status fc) \<Longrightarrow> last_desired_pitch fc = last_desired_pitch before
     \<Longrightarrow> report_of before (safe_output sq fc)"
  by (simp add: safe_output_def make_output_def safe_command_def report_of_def safe_report_def flight_output_ok_def
      abort_consistent_def Let_def)

lemma update_mode_unchanged [simp]:
  "fc_navigation (update_mode frame fc) = fc_navigation fc" "last_desired_pitch (update_mode frame fc) = last_desired_pitch fc"
  "abort_latched (fc_status (update_mode frame fc)) = abort_latched (fc_status fc)"
  "fs_alarms (fc_status (update_mode frame fc)) = fs_alarms (fc_status fc)"
  "tracking_bad_steps (fc_status (update_mode frame fc)) = tracking_bad_steps (fc_status fc)"
  "fs_mode (fc_status (update_mode frame fc)) \<noteq> AbortMode"
  by (simp_all add: update_mode_def Let_def)

lemma monitor_steering_consistent:
  "abort_consistent (fc_status fc) \<Longrightarrow> \<not> abort_latched (fc_status fc)
     \<Longrightarrow> abort_consistent (fc_status (monitor_steering frame fc))"
  unfolding monitor_steering_def Let_def
  by (auto intro!: latch_abort_consistent) (simp_all add: abort_consistent_def)

lemma monitor_steering_frame [simp]:
  "fc_navigation (monitor_steering frame fc) = fc_navigation fc"
  "last_desired_pitch (monitor_steering frame fc) = last_desired_pitch fc"
  by (simp_all add: monitor_steering_def Let_def)

lemma guidance_command_nominal:
  assumes "guidance_command frame nav fc = (cmd, fc')" "abort_consistent (fc_status fc)" "\<not> abort_latched (fc_status fc)"
  shows "ac_sequence cmd = sf_sequence frame" "\<not> abort_safeing cmd" "\<not> recovery_requested cmd"
    "abort_consistent (fc_status fc')" "\<not> abort_latched (fc_status fc')"
  using assms by (auto simp: guidance_command_def Let_def abort_consistent_def split: if_splits)

lemma make_output_nominal:
  "abort_consistent (fc_status fc) \<Longrightarrow> \<not> abort_latched (fc_status fc) \<Longrightarrow> ac_sequence cmd = sq \<Longrightarrow> \<not> abort_safeing cmd
     \<Longrightarrow> \<not> recovery_requested cmd \<Longrightarrow> report_of before (make_output sq nav cmd fc)"
  by (simp add: make_output_def report_of_def nominal_report_def flight_output_ok_def abort_consistent_def Let_def)

definition monitored :: "SensorFrame \<Rightarrow> FlightComputer \<Rightarrow> FlightComputer" where
  "monitored frame fc =
     (if fs_mode (fc_status (update_mode frame fc)) = Insertion then monitor_steering frame (update_mode frame fc)
      else update_mode frame fc)"

lemma monitored_consistent:
  assumes "abort_consistent (fc_status fc)" "\<not> abort_latched (fc_status fc)"
  shows "abort_consistent (fc_status (monitored frame fc))" "last_desired_pitch (monitored frame fc) = last_desired_pitch fc"
proof -
  have "abort_consistent (fc_status (update_mode frame fc))" using assms by (simp add: abort_consistent_def)
  then show "abort_consistent (fc_status (monitored frame fc))"
    using assms by (simp add: monitored_def monitor_steering_consistent)
qed (simp add: monitored_def)

lemma ascent_step_nominal:
  assumes "nav_update (fc_navigation fc) frame = Some (Inr nav, nv)" "\<not> abort_latched (fc_status fc)"
    "guidance_command frame nav (monitored frame (fc\<lparr>fc_navigation := nv\<rparr>)) = (cmd, fc')"
  shows "ascent_step frame fc = Some
     (if abort_latched (fc_status (monitored frame (fc\<lparr>fc_navigation := nv\<rparr>)))
      then safe_output (sf_sequence frame) (monitored frame (fc\<lparr>fc_navigation := nv\<rparr>))
      else make_output (sf_sequence frame) nav cmd (fc'\<lparr>last_desired_pitch := desired_pitch cmd\<rparr>))"
  using assms unfolding ascent_step_def Let_def monitored_def [symmetric] by simp

lemma ascent_step_report:
  assumes inv: "abort_consistent (fc_status fc)" and res: "ascent_step frame fc = Some res"
  shows "report_of fc res \<and> (abort_latched (fc_status fc) \<longrightarrow> abort_latched (fc_status (snd res)))"
proof -
  obtain r nv where u: "nav_update (fc_navigation fc) frame = Some (r, nv)" using res by (auto simp: ascent_step_def)
  let ?fc = "fc\<lparr>fc_navigation := nv\<rparr>"
  have alarms: "fs_alarms (fc_status fc) AND NOT ALARM_MASK = 0" using inv by (simp add: abort_consistent_def)
  have keep: "abort_latched (fc_status (snd (make_output sq nav c f))) = abort_latched (fc_status f)" for sq nav c f
    by (simp add: make_output_def Let_def)
  show ?thesis
  proof (cases r)
    case (Inl e)
    then have "res = safe_output (sf_sequence frame) (latch_abort ALARM_NAVIGATION ?fc)"
      using res u by (simp add: ascent_step_def Let_def)
    then show ?thesis
      using safe_output_report [OF latch_abort_consistent [of ?fc ALARM_NAVIGATION]] alarms
      by (simp add: safe_output_def keep)
  next
    case nav: (Inr nav)
    show ?thesis
    proof (cases "abort_latched (fc_status fc)")
      case True
      then have "res = safe_output (sf_sequence frame) ?fc" using res u nav by (simp add: ascent_step_def Let_def)
      then show ?thesis using safe_output_report [of ?fc fc "sf_sequence frame"] inv True by (simp add: safe_output_def keep)
    next
      case False
      let ?m = "monitored frame ?fc"
      have m: "abort_consistent (fc_status ?m)" "last_desired_pitch ?m = last_desired_pitch fc"
        using monitored_consistent [of ?fc frame] inv False by simp_all
      obtain cmd fc' where g: "guidance_command frame nav ?m = (cmd, fc')" by fastforce
      have r: "res = (if abort_latched (fc_status ?m) then safe_output (sf_sequence frame) ?m
          else make_output (sf_sequence frame) nav cmd (fc'\<lparr>last_desired_pitch := desired_pitch cmd\<rparr>))"
        using res ascent_step_nominal [of fc frame nav nv cmd fc'] u nav False g by simp
      show ?thesis
      proof (cases "abort_latched (fc_status ?m)")
        case True
        then show ?thesis using r m safe_output_report [of ?m fc "sf_sequence frame"] False by simp
      next
        case ok: False
        note gn = guidance_command_nominal [OF g m(1) ok]
        show ?thesis using r ok False gn make_output_nominal [of "fc'\<lparr>last_desired_pitch := desired_pitch cmd\<rparr>"] by simp
      qed
    qed
  qed
qed

lemma step_serialized_report:
  assumes inv: "abort_consistent (fc_status fc)" and res: "step_serialized packet fc = Some res"
  shows "report_of fc res \<and> (abort_latched (fc_status fc) \<longrightarrow> abort_latched (fc_status (snd res)))"
proof (cases "parse_sensor_frame packet")
  case (Inl e)
  have "abort_consistent (fc_status (latch_abort ALARM_SENSOR_FRAME fc))"
    by (rule latch_abort_consistent) (use inv in \<open>simp_all add: abort_consistent_def\<close>)
  then show ?thesis using res Inl safe_output_report [of "latch_abort ALARM_SENSOR_FRAME fc" fc]
    by (auto simp: step_serialized_def Let_def safe_output_def make_output_def)
next
  case (Inr frame)
  then show ?thesis using res ascent_step_report [OF inv] by (simp add: step_serialized_def)
qed

subsection \<open>The abort latch\<close>

fun ascent_run :: "u8 list list \<Rightarrow> FlightComputer \<Rightarrow> FlightOutput list \<times> FlightComputer option" where
  "ascent_run [] fc = ([], Some fc)"
| "ascent_run (packet # packets) fc =
     (case step_serialized packet fc of
        None \<Rightarrow> ([], None)
      | Some (r, fc) \<Rightarrow> let (rs, final) = ascent_run packets fc in (r # rs, final))"

lemma ascent_run_reports:
  assumes "abort_consistent (fc_status fc)"
  shows "\<exists>before after. fst (ascent_run packets fc) = before @ after \<and> (\<forall>r \<in> set before. nominal_report r)
      \<and> (\<forall>r \<in> set after. safe_report r) \<and> (\<exists>p. \<forall>r \<in> set after. desired_pitch (fo_command r) = p)
      \<and> (abort_latched (fc_status fc) \<longrightarrow> before = []
          \<and> (\<forall>r \<in> set after. desired_pitch (fo_command r) = last_desired_pitch fc))
      \<and> (\<forall>r \<in> set before \<union> set after. flight_output_ok r)"
  using assms
proof (induction packets arbitrary: fc)
  case (Cons packet packets)
  show ?case
  proof (cases "step_serialized packet fc")
    case (Some res)
    obtain r fc' where res: "res = (r, fc')" by fastforce
    note step = step_serialized_report [OF Cons.prems Some, unfolded res report_of_def prod.case snd_conv]
    then have inv: "abort_consistent (fc_status fc')" by simp
    from Cons.IH [OF inv] obtain before "after" where
      rest: "fst (ascent_run packets fc') = before @ after" "\<forall>r \<in> set before. nominal_report r"
        "\<forall>r \<in> set after. safe_report r" "\<exists>p. \<forall>r \<in> set after. desired_pitch (fo_command r) = p"
        "abort_latched (fc_status fc') \<longrightarrow> before = [] \<and> (\<forall>r \<in> set after. desired_pitch (fo_command r) = last_desired_pitch fc')"
        "\<forall>r \<in> set before \<union> set after. flight_output_ok r" by blast
    have outs: "fst (ascent_run (packet # packets) fc) = r # before @ after"
      using Some res rest(1) by (simp add: case_prod_beta)
    show ?thesis
    proof (cases "abort_latched (fc_status fc')")
      case True
      then show ?thesis using outs rest step by (intro exI [of _ "[]"] exI [of _ "r # after"]) auto
    next
      case False
      then show ?thesis using outs rest step by (intro exI [of _ "r # before"] exI [of _ "after"]) auto
    qed
  qed auto
qed auto

lemma new_ascent_computer_consistent: "abort_consistent (fc_status new_ascent_computer)"
  by (simp add: new_ascent_computer_def abort_consistent_def)

text \<open>
  C10: Over any sequence of packets, well formed or not, a flight computer started fresh
  first sends reports that are all nominal (no alarm, no safeing, not in the abort mode)
  and then, from the first abort on, only safe reports: engine cutoff, no separation, safeing and
  recovery requested, the abort mode and alarm set, and the desired pitch frozen at the
  last one commanded.
\<close>
theorem ascent_abort_latched:
  "\<exists>before after. fst (ascent_run packets new_ascent_computer) = before @ after
     \<and> list_all nominal_report before \<and> list_all safe_report after
     \<and> (\<exists>p. list_all (\<lambda>r. desired_pitch (fo_command r) = p) after)"
  using ascent_run_reports [OF new_ascent_computer_consistent, of packets] unfolding list_all_iff by blast

text \<open>
  Every report the ascent flight computer sends, whatever the packets, is one its
  writer accepts into a 52-byte buffer, and the parser gives the same report back.
\<close>
theorem ascent_reports_transmissible:
  "list_all (\<lambda>r. \<exists>packet. write_flight_output r (replicate 52 0) = (Inr (), packet) \<and> parse_flight_output packet = Inr r)
     (fst (ascent_run packets new_ascent_computer))"
proof -
  have "flight_output_ok r" if "r \<in> set (fst (ascent_run packets new_ascent_computer))" for r
    using that ascent_run_reports [OF new_ascent_computer_consistent, of packets] by auto
  moreover have "\<exists>packet. write_flight_output r (replicate 52 0) = (Inr (), packet) \<and> parse_flight_output packet = Inr r"
    if "flight_output_ok r" for r
    using flight_output.write_parse [of "replicate 52 0" r] that by auto
  ultimately show ?thesis by (simp add: list_all_iff)
qed

subsection \<open>Error paths\<close>

text \<open>
  When one byte of a well-formed sensor packet is altered, the flight computer, in any state
  it can be in, answers with a safe report that raises the sensor-frame alarm, latches the
  abort and leaves the navigation state alone.
\<close>
theorem ascent_corruption_aborts:
  assumes "parse_sensor_frame packet = Inr frame" "i < length packet" "x \<noteq> packet ! i"
    and "abort_consistent (fc_status fc)"
  shows "\<exists>r fc'. step_serialized (packet[i := x]) fc = Some (r, fc') \<and> safe_report r
     \<and> fo_alarms r AND ALARM_SENSOR_FRAME \<noteq> 0 \<and> abort_latched (fc_status fc') \<and> fc_navigation fc' = fc_navigation fc
     \<and> fo_sequence r = nv_sequence (nav_state (fc_navigation fc))"
proof -
  have "length packet = 56" using sensor_frame.parse_sealed [OF assms(1)] by simp
  then obtain e where e: "parse_sensor_frame (packet[i := x]) = Inl e"
    using sensor_frame.corruption_rejected [OF assms(1), of i x] assms(2,3) by (auto simp: not_ok_iff)
  let ?fc = "latch_abort ALARM_SENSOR_FRAME fc"
  have s: "step_serialized (packet[i := x]) fc = Some (safe_output (nv_sequence (nav_state (fc_navigation fc))) ?fc)"
    using e by (simp add: step_serialized_def Let_def)
  have "bit ((fs_alarms (fc_status fc) OR (ALARM_SENSOR_FRAME OR ALARM_ABORT)) AND ALARM_SENSOR_FRAME) 0"
    by (simp add: ascent_constants bit_and_iff bit_or_iff bit_numeral_word_iff)
  then have alarm: "(fs_alarms (fc_status fc) OR (ALARM_SENSOR_FRAME OR ALARM_ABORT)) AND ALARM_SENSOR_FRAME \<noteq> 0" by auto
  have "report_of fc (safe_output (nv_sequence (nav_state (fc_navigation fc))) ?fc)"
    using step_serialized_report [OF assms(4) s] by simp
  then show ?thesis using s alarm
    by (simp add: report_of_def safe_output_def make_output_def Let_def)
qed

definition pad_frame :: SensorFrame where
  "pad_frame = \<lparr>sf_sequence = 1, onboard_time_q16 = 8192, accel_radial_q28 = 0, accel_tangential_q28 = 0,
     gyro_rate_q24 = 0, steering_pitch = 0, sf_validity = 55, sf_altitude_q12 = 0, gps_radius_q12 = 0,
     gps_downrange_q32 = 0, gps_radial_velocity_q24 = 0, gps_tangential_velocity_q24 = 0, sf_events = 0,
     active_stage = 0, stage_phase = Burning, sf_engine_on = True\<rparr>"

theorem ascent_corruption_aborts_witness:
  "\<exists>packet r fc'. parse_sensor_frame packet = Inr pad_frame
     \<and> step_serialized (packet[0 := packet ! 0 + 1]) new_ascent_computer = Some (r, fc') \<and> safe_report r"
proof -
  obtain packet where packet: "length packet = 56" "parse_sensor_frame packet = Inr pad_frame"
    using sensor_frame.write_parse [of "replicate 56 0" pad_frame]
    by (auto simp: pad_frame_def sensor_flags_ok_def ascent_constants)
  then show ?thesis
    using ascent_corruption_aborts [OF packet(2), of 0 "packet ! 0 + 1" new_ascent_computer] new_ascent_computer_consistent by auto
qed

text \<open>Which frames the navigation takes in, and which of them it also aids with.\<close>

definition frame_timely :: "Navigation \<Rightarrow> SensorFrame \<Rightarrow> bool" where
  "frame_timely nv frame \<longleftrightarrow> sf_validity frame AND required_inertial = required_inertial
     \<and> (nav_initialized nv \<longrightarrow> sf_sequence frame = nv_sequence (nav_state nv) + 1)
     \<and> 0 \<le> sint (frame_dt nv frame) \<and> sint (frame_dt nv frame) \<le> 16384"

definition frame_admitted :: "Navigation \<Rightarrow> SensorFrame \<Rightarrow> bool" where
  "frame_admitted nv frame \<longleftrightarrow> frame_timely nv frame
     \<and> (nav_initialized nv \<and> 0 < sint (frame_dt nv frame) \<longrightarrow>
          (\<exists>s. propagate (nav_state nv) frame (frame_dt nv frame) = Some (Inr s)))"

text \<open>
  The last division of the propagation: the radius it divides by, the arc it divides, and when
  that division has no result.
\<close>

definition quotient64 :: "i64 \<Rightarrow> i64 \<Rightarrow> i64" where
  "quotient64 a b = word_of_int (truncate_div (sint a) (sint b))"

definition landed_radius :: "NavigationState \<Rightarrow> SensorFrame \<Rightarrow> i32 \<Rightarrow> i64" where
  "landed_radius s frame dt =
     (let radius = scast (nv_radius_q12 s); dt64 = scast dt; vt = scast (nv_tangential_velocity_q24 s);
          gravity = quotient64 (push_bit 16 (quotient64 (push_bit 24 (scast EARTH_MU_Q12)) radius)) radius;
          centrifugal = quotient64 (push_bit 20 (signed_drop_bit 28 (vt * vt))) radius;
          radial_accel = scast (accel_radial_q28 frame) + centrifugal - gravity
      in radius + signed_drop_bit 28 ((scast (nv_radial_velocity_q24 s) + signed_drop_bit 20 (radial_accel * dt64)) * dt64))"

definition travelled_arc :: "NavigationState \<Rightarrow> SensorFrame \<Rightarrow> i32 \<Rightarrow> i64" where
  "travelled_arc s frame dt =
     (let radius = scast (nv_radius_q12 s); dt64 = scast dt; vt = scast (nv_tangential_velocity_q24 s);
          geometry = quotient64 (signed_drop_bit 8 (scast (nv_radial_velocity_q24 s) * vt)) radius;
          new_vt = vt + signed_drop_bit 20 ((scast (accel_tangential_q28 frame) + - geometry) * dt64)
      in (new_vt - signed_drop_bit 18 (scast EARTH_ROTATION_RAD_Q30 * landed_radius s frame dt)) * dt64)"

definition landing_fails :: "NavigationState \<Rightarrow> SensorFrame \<Rightarrow> i32 \<Rightarrow> bool" where
  "landing_fails s frame dt \<longleftrightarrow> landed_radius s frame dt = 0
     \<or> sint (travelled_arc s frame dt) = - (2 ^ 63) \<and> sint (landed_radius s frame dt) = - 1"

lemma idiv_positive: "0 < sint b \<Longrightarrow> idiv a b = Some (quotient64 a b)"
  by (auto simp: idiv_def quotient64_def)

lemma idiv_fails: "idiv a b = None \<longleftrightarrow> b = 0 \<or> sint a = - (2 ^ 63) \<and> sint b = - 1"
  by (simp add: idiv_def)

lemma propagate_fails:
  "propagate s frame dt = None \<longleftrightarrow> 0 < sint (nv_radius_q12 s) \<and> landing_fails s frame dt"
proof (cases "0 < sint (nv_radius_q12 s)")
  case True
  then have r: "0 < sint (scast (nv_radius_q12 s) :: i64)" "\<not> (scast (nv_radius_q12 s) :: i64) \<le>s 0"
    by (simp_all add: sint_scast_i64 word_sle_eq)
  have bind: "Option.bind x (\<lambda>v. Some (f v)) = None \<longleftrightarrow> x = None" for x :: "i64 option" and f :: "i64 \<Rightarrow> NavigationError + NavigationState"
    by (cases x) simp_all
  have "propagate s frame dt = None \<longleftrightarrow> idiv (travelled_arc s frame dt) (landed_radius s frame dt) = None"
    using r(2) unfolding propagate_def landed_radius_def travelled_arc_def Let_def
    by (simp add: idiv_positive [OF r(1)] bind del: Option.bind_eq_None_conv)
  then show ?thesis using True by (simp add: idiv_fails landing_fails_def)
next
  case False
  then have "(scast (nv_radius_q12 s) :: i64) \<le>s 0" by (simp add: sint_scast_i64 word_sle_eq)
  then show ?thesis using False by (simp add: propagate_def Let_def)
qed

definition ascent_lands :: "SensorFrame \<Rightarrow> FlightComputer \<Rightarrow> bool" where
  "ascent_lands frame fc \<longleftrightarrow> frame_timely (fc_navigation fc) frame \<and> nav_initialized (fc_navigation fc)
     \<and> 0 < sint (frame_dt (fc_navigation fc) frame) \<and> 0 < sint (nv_radius_q12 (nav_state (fc_navigation fc)))
     \<and> landing_fails (nav_state (fc_navigation fc)) frame (frame_dt (fc_navigation fc) frame)"

text \<open>
  C28: The flight computer's step panics, in any state and on any frame, in exactly two cases: navigation
  admits the frame, and it carries the GPS flag with a GPS radius of zero; or the frame is timely
  and the propagation from a positive radius lands on a radius of zero (or on minus one
  with an arc of minus two to the 63), which it divides by before it checks its sign.  The
  second case cannot arise from a radius of at least 256 km (the Earth's is 6378 km).
\<close>
theorem ascent_panics_exactly:
  "(ascent_step frame fc = None \<longleftrightarrow>
       frame_admitted (fc_navigation fc) frame \<and> sf_validity frame AND SENSOR_VALID_GPS \<noteq> 0 \<and> gps_radius_q12 frame = 0
       \<or> ascent_lands frame fc)
     \<and> (2 ^ 20 \<le> sint (nv_radius_q12 (nav_state (fc_navigation fc))) \<longrightarrow> \<not> ascent_lands frame fc)"
proof
  let ?nv = "fc_navigation fc"
  have "ascent_step frame fc = None \<longleftrightarrow> nav_update ?nv frame = None" by (simp add: ascent_step_def)
  moreover have "nav_finish frame s = None \<longleftrightarrow> sf_validity frame AND SENSOR_VALID_GPS \<noteq> 0 \<and> gps_radius_q12 frame = 0" for s
    using nav_finish_defined [of frame s] by (cases "nav_finish frame s") auto
  ultimately show "ascent_step frame fc = None \<longleftrightarrow>
       frame_admitted ?nv frame \<and> sf_validity frame AND SENSOR_VALID_GPS \<noteq> 0 \<and> gps_radius_q12 frame = 0 \<or> ascent_lands frame fc"
    unfolding ascent_lands_def
    by (auto simp: nav_update_def frame_admitted_def frame_timely_def propagate_fails [symmetric] Let_def word_sless_alt
        split: option.splits sum.splits)
  show "2 ^ 20 \<le> sint (nv_radius_q12 (nav_state ?nv)) \<longrightarrow> \<not> ascent_lands frame fc"
    using propagate_defined [of "nav_state ?nv" "frame_dt ?nv frame" frame] propagate_fails [of "nav_state ?nv" frame "frame_dt ?nv frame"]
    by (auto simp: ascent_lands_def frame_timely_def)
qed

text \<open>A GPS radius of zero on the pad, and a navigation at 16 km that lands on zero.\<close>

definition sinking_computer :: FlightComputer where
  "sinking_computer = new_ascent_computer\<lparr>fc_navigation := \<lparr>nav_state = (nav_state new_ascent_navigation)
     \<lparr>nv_radius_q12 := 65536, nv_radial_velocity_q24 := 1117852172, nv_tangential_velocity_q24 := 0\<rparr>, nav_initialized = True\<rparr>\<rparr>"

theorem ascent_panics_exactly_witness:
  "ascent_step pad_frame new_ascent_computer = None \<and> ascent_step (pad_frame\<lparr>sf_validity := 39\<rparr>) sinking_computer = None"
proof
  show "ascent_step pad_frame new_ascent_computer = None"
    using ascent_panics_exactly [of pad_frame new_ascent_computer]
    by (simp add: new_ascent_computer_def new_ascent_navigation_def EARTH_RADIUS_Q12_def frame_admitted_def frame_timely_def frame_dt_def
        pad_frame_def required_inertial_def ascent_constants)
  have "landed_radius (nav_state (fc_navigation sinking_computer)) (pad_frame\<lparr>sf_validity := 39\<rparr>) 8192 = 0"
    by code_simp
  then show "ascent_step (pad_frame\<lparr>sf_validity := 39\<rparr>) sinking_computer = None"
    using ascent_panics_exactly [of "pad_frame\<lparr>sf_validity := 39\<rparr>" sinking_computer]
    by (simp add: sinking_computer_def new_ascent_navigation_def ascent_lands_def frame_timely_def frame_dt_def landing_fails_def
        pad_frame_def required_inertial_def ascent_constants)
qed

subsection \<open>Command policy\<close>

lemma guidance_policy:
  assumes "guidance_command frame nav fc = (cmd, fc')"
  shows "engine_action cmd = EngineIgnite \<longleftrightarrow> stage_phase frame = CoastBeforeIgnition \<and> active_stage frame \<in> {0, 1}"
    "separate cmd \<longleftrightarrow> stage_phase frame = CoastBeforeSeparation \<and> active_stage frame = 0"
    "engine_action cmd = EngineCutoff \<longleftrightarrow> stage_phase frame = Burning
       \<and> (active_stage frame = 0 \<and> STAGE1_CUTOFF_STEP \<le> saturating_add_u32 (sf_sequence frame) 1
         \<or> active_stage frame = 1 \<and> should_cutoff (sf_sequence frame) nav)"
    "\<not> abort_safeing cmd"
  using assms by (auto simp: guidance_command_def Let_def split: if_splits)

lemma output_command [simp]:
  "fo_command (fst (make_output sq nav c f)) = c" "fo_command (fst (safe_output sq f)) = safe_command sq f"
  by (simp_all add: make_output_def safe_output_def Let_def)

text \<open>When a step aborts: before it, by the navigation, or by the sixteenth step of lost steering in a row.\<close>

definition steering_lost :: "SensorFrame \<Rightarrow> FlightComputer \<Rightarrow> bool" where
  "steering_lost frame fc \<longleftrightarrow> fs_mode (fc_status (update_mode frame fc)) = Insertion
     \<and> TRACKING_LIMIT < circular_error (last_desired_pitch fc) (steering_pitch frame) \<and> 15 \<le> tracking_bad_steps (fc_status fc)"

definition ascent_aborts :: "SensorFrame \<Rightarrow> FlightComputer \<Rightarrow> bool" where
  "ascent_aborts frame fc \<longleftrightarrow> abort_latched (fc_status fc)
     \<or> (\<exists>e nv. nav_update (fc_navigation fc) frame = Some (Inl e, nv)) \<or> steering_lost frame fc"

lemma update_mode_navigation: "fc_status (update_mode frame (fc\<lparr>fc_navigation := nv\<rparr>)) = fc_status (update_mode frame fc)"
  by (simp add: update_mode_def Let_def with_status_def)

lemma sixteenth_step: "16 \<le> (if x = 255 then 255 else x + 1) \<longleftrightarrow> 15 \<le> (x :: u8)"
proof (cases "x = 255")
  case False
  then have "x + 1 \<noteq> 0" by (auto simp: add_eq_0_iff2)
  then have "unat (x + 1) = unat x + 1" using unatSuc [of x] by (simp add: add.commute)
  then show ?thesis using False by (simp add: word_le_nat_alt)
qed simp

lemma monitored_aborts:
  assumes "\<not> abort_latched (fc_status fc)"
  shows "abort_latched (fc_status (monitored frame (fc\<lparr>fc_navigation := nv\<rparr>))) \<longleftrightarrow> steering_lost frame fc"
  using assms sixteenth_step [of "tracking_bad_steps (fc_status fc)"]
  by (cases "tracking_bad_steps (fc_status fc) = 255")
    (auto simp: monitored_def monitor_steering_def steering_lost_def update_mode_navigation TRACKING_LIMIT_STEPS_def Let_def)

lemma ascent_step_command:
  assumes step: "ascent_step frame fc = Some (r, fc')"
  shows "(if ascent_aborts frame fc then \<exists>sq f. fo_command r = safe_command sq f
     else \<exists>nav nv f f'. nav_update (fc_navigation fc) frame = Some (Inr nav, nv) \<and> guidance_command frame nav f = (fo_command r, f'))"
proof -
  have r: "r = fst (the (ascent_step frame fc))" using step by simp
  obtain res nv where u: "nav_update (fc_navigation fc) frame = Some (res, nv)" using step by (auto simp: ascent_step_def)
  show ?thesis
  proof (cases "\<exists>nav. res = Inr nav \<and> \<not> abort_latched (fc_status fc)")
    case True
    then obtain nav where nav: "res = Inr nav" "\<not> abort_latched (fc_status fc)" by blast
    obtain cmd f' where g: "guidance_command frame nav (monitored frame (fc\<lparr>fc_navigation := nv\<rparr>)) = (cmd, f')" by fastforce
    have "ascent_aborts frame fc \<longleftrightarrow> steering_lost frame fc" using u nav by (simp add: ascent_aborts_def)
    then show ?thesis
      unfolding r ascent_step_nominal [OF u [unfolded nav(1)] nav(2) g] using u nav(1) g monitored_aborts [OF nav(2), of frame nv] by auto
  next
    case False
    then have "ascent_aborts frame fc" using u by (cases res) (auto simp: ascent_aborts_def)
    then show ?thesis unfolding r ascent_step_def using u False by (auto simp: Let_def split: sum.splits)
  qed
qed

text \<open>
  C27: Whenever the ascent step answers, in any state, its orders are those of the policy and no others.
  It orders safeing exactly when the abort was latched, the navigation fails or steering has been lost for
  sixteen steps, and then cuts off and does not separate.  Otherwise it ignites exactly while coasting
  before the ignition of a stage, separates exactly while the first stage coasts before separation, and
  cuts off exactly a burning first stage at its last step or later, or a burning second stage at
  its last step or later or in the insertion window.
\<close>
theorem ascent_command_policy:
  assumes "ascent_step frame fc = Some (r, fc')"
  shows "(abort_safeing (fo_command r) \<longleftrightarrow> ascent_aborts frame fc)
     \<and> (if ascent_aborts frame fc then engine_action (fo_command r) = EngineCutoff \<and> \<not> separate (fo_command r)
        else (engine_action (fo_command r) = EngineIgnite \<longleftrightarrow> stage_phase frame = CoastBeforeIgnition \<and> active_stage frame \<in> {0, 1})
          \<and> (separate (fo_command r) \<longleftrightarrow> stage_phase frame = CoastBeforeSeparation \<and> active_stage frame = 0)
          \<and> (engine_action (fo_command r) = EngineCutoff \<longleftrightarrow> stage_phase frame = Burning
              \<and> (active_stage frame = 0 \<and> STAGE1_CUTOFF_STEP \<le> saturating_add_u32 (sf_sequence frame) 1
                \<or> active_stage frame = 1 \<and> (\<exists>nav nv. nav_update (fc_navigation fc) frame = Some (Inr nav, nv)
                    \<and> should_cutoff (sf_sequence frame) nav))))
     \<and> (stage_phase frame = Burning \<and> (active_stage frame = 0 \<and> STAGE1_CUTOFF_STEP \<le> saturating_add_u32 (sf_sequence frame) 1
          \<or> active_stage frame = 1 \<and> STAGE2_FLIGHT_CUTOFF_STEP \<le> saturating_add_u32 (sf_sequence frame) 1)
        \<longrightarrow> engine_action (fo_command r) = EngineCutoff)"
proof (cases "ascent_aborts frame fc")
  case True
  then show ?thesis using ascent_step_command [OF assms] by (auto simp: safe_command_def)
next
  case False
  then obtain nav nv f f' where nav: "nav_update (fc_navigation fc) frame = Some (Inr nav, nv)"
    and g: "guidance_command frame nav f = (fo_command r, f')" using ascent_step_command [OF assms] by auto
  have "STAGE2_FLIGHT_CUTOFF_STEP \<le> saturating_add_u32 (sf_sequence frame) 1 \<Longrightarrow> should_cutoff (sf_sequence frame) nav"
    by (simp add: should_cutoff_def)
  then show ?thesis using False nav guidance_policy [OF g] by auto
qed

definition burnout_frame :: SensorFrame where
  "burnout_frame = pad_frame\<lparr>sf_validity := 39, sf_sequence := 1239\<rparr>"

definition ignition_frame :: SensorFrame where
  "ignition_frame = pad_frame\<lparr>sf_validity := 39, stage_phase := CoastBeforeIgnition\<rparr>"

lemma fresh_update:
  assumes "frame = burnout_frame \<or> frame = ignition_frame"
  shows "\<exists>s nv. nav_update (fc_navigation new_ascent_computer) frame = Some (Inr s, nv)"
proof -
  have "nav_update (fc_navigation new_ascent_computer) frame = nav_finish frame (nav_state (fc_navigation new_ascent_computer))"
    using assms by (auto simp: nav_update_def new_ascent_computer_def new_ascent_navigation_def burnout_frame_def ignition_frame_def
        pad_frame_def frame_dt_def required_inertial_def ascent_constants)
  moreover have "\<exists>res. nav_finish frame (nav_state (fc_navigation new_ascent_computer)) = Some res"
    by (rule nav_finish_defined [THEN iffD2]) (use assms in \<open>auto simp: burnout_frame_def ignition_frame_def pad_frame_def ascent_constants\<close>)
  ultimately show ?thesis by (auto simp: nav_finish_def Let_def)
qed

lemma fresh_step:
  assumes "frame = burnout_frame \<or> frame = ignition_frame"
  shows "\<exists>r fc'. ascent_step frame new_ascent_computer = Some (r, fc')" "\<not> ascent_aborts frame new_ascent_computer"
proof -
  obtain s nv where u: "nav_update (fc_navigation new_ascent_computer) frame = Some (Inr s, nv)" using fresh_update [OF assms] by blast
  then have "ascent_step frame new_ascent_computer \<noteq> None" by (simp add: ascent_step_def)
  then show "\<exists>r fc'. ascent_step frame new_ascent_computer = Some (r, fc')" by auto
  show "\<not> ascent_aborts frame new_ascent_computer"
    using u by (simp add: ascent_aborts_def steering_lost_def) (simp add: new_ascent_computer_def)
qed

theorem ascent_command_policy_witness:
  "(\<exists>r fc'. ascent_step burnout_frame new_ascent_computer = Some (r, fc') \<and> engine_action (fo_command r) = EngineCutoff
      \<and> \<not> abort_safeing (fo_command r))
   \<and> (\<exists>r fc'. ascent_step ignition_frame new_ascent_computer = Some (r, fc') \<and> engine_action (fo_command r) = EngineIgnite)"
proof -
  obtain r fc' where burnout: "ascent_step burnout_frame new_ascent_computer = Some (r, fc')" using fresh_step(1) by blast
  then have "engine_action (fo_command r) = EngineCutoff \<and> \<not> abort_safeing (fo_command r)"
    using ascent_command_policy [OF burnout] fresh_step(2) [of burnout_frame]
    by (simp add: burnout_frame_def pad_frame_def STAGE1_CUTOFF_STEP_def saturating_add_u32_def)
  moreover obtain q fd where ignition: "ascent_step ignition_frame new_ascent_computer = Some (q, fd)" using fresh_step(1) by blast
  have "engine_action (fo_command q) = EngineIgnite"
    using ascent_command_policy [OF ignition] fresh_step(2) [of ignition_frame] by (simp add: ignition_frame_def pad_frame_def)
  ultimately show ?thesis using burnout ignition by blast
qed

subsection \<open>The pitch program\<close>

definition pitch_line :: "nat \<Rightarrow> nat \<Rightarrow> nat \<Rightarrow> nat \<Rightarrow> nat" where
  "pitch_line a c s k = a + (c * k + s div 2) div s"

definition pitch_reference :: "nat \<Rightarrow> nat" where
  "pitch_reference n =
     (if n \<le> 80 then 0 else if n < 240 then pitch_line 0 3160 160 (n - 80) else if n < 560 then pitch_line 3160 3973 320 (n - 240)
      else if n < 960 then pitch_line 7133 1932 400 (n - 560) else if n < 1240 then pitch_line 9065 4201 280 (n - 960)
      else if n < 1760 then pitch_line 13266 2954 520 (n - 1240) else if n < 3200 then pitch_line 16220 164 1440 (n - 1760)
      else 16384)"

lemma unat_pitch_word: "n < 2 ^ 16 \<Longrightarrow> unat (ucast (of_nat n :: i32) :: u16) = n"
  by (simp add: unsigned_ucast_eq unsigned_of_nat take_bit_nat_eq_self)

lemma pitch_term:
  fixes x :: u32
  assumes "unat x = k" "k \<le> 1440" "c \<le> 4201" "0 < s" "s \<le> 1440" "a \<le> 16384" "(c * k + s div 2) div s \<le> 16384"
  shows "unat (ucast (of_nat a + word_of_int (truncate_div (sint (of_nat c * x + word_of_int (truncate_div (int s) 2))) (int s)) :: i32) :: u16)
     = pitch_line a c s k"
proof -
  have "c * k \<le> 4201 * 1440" using assms by (intro mult_mono) auto
  then have b: "c * k + s div 2 < 2 ^ 31" using assms by simp
  have half: "truncate_div (int s) 2 = int (s div 2)" using assms by (simp add: truncate_div_def zdiv_int)
  have x: "x = of_nat k" by (simp flip: assms(1))
  have "of_nat c * x + word_of_int (int (s div 2)) = (word_of_int (int (c * k + s div 2)) :: i32)" by (simp add: x)
  moreover have "sint (word_of_int (int (c * k + s div 2)) :: i32) = int (c * k + s div 2)"
  proof (rule sint_of_int_i32)
    show "int (c * k + s div 2) < 2 ^ 31" using of_nat_less_iff [where 'a = int, THEN iffD2, OF b] by simp
    have "0 \<le> int (c * k + s div 2)" by (rule of_nat_0_le_iff)
    moreover have "- (2 ^ 31) \<le> (0 :: int)" by simp
    ultimately show "- (2 ^ 31) \<le> int (c * k + s div 2)" by (rule order_trans [rotated])
  qed
  ultimately have "truncate_div (sint (of_nat c * x + word_of_int (truncate_div (int s) 2))) (int s)
      = int ((c * k + s div 2) div s)"
    using assms(4) by (simp add: half truncate_div_def zdiv_int sgn_if)
  then have "of_nat a + word_of_int (truncate_div (sint (of_nat c * x + word_of_int (truncate_div (int s) 2))) (int s))
      = (of_nat (pitch_line a c s k) :: i32)" by (simp add: pitch_line_def)
  then show ?thesis using assms(6,7) unat_pitch_word [of "pitch_line a c s k"] by (simp add: pitch_line_def)
qed

lemma upt_seven: "[0..<7] = [0, 1, 2, 3, 4, 5, 6 :: nat]"
  by (simp add: upt_rec)

lemma pitch_line_top: "c * k + s div 2 < s * (m + 1) \<Longrightarrow> a + m \<le> M \<Longrightarrow> pitch_line a c s k \<le> M"
proof -
  assume "c * k + s div 2 < s * (m + 1)" "a + m \<le> M"
  then have "(c * k + s div 2) div s < m + 1" by (intro less_mult_imp_div_less) (simp add: mult.commute)
  then show ?thesis using \<open>a + m \<le> M\<close> by (simp add: pitch_line_def)
qed

lemma pitch_line_mono: "j \<le> k \<Longrightarrow> pitch_line a c s j \<le> pitch_line a c s k"
  by (simp add: pitch_line_def div_le_mono)

lemma pitch_reference_Suc: "pitch_reference n \<le> pitch_reference (Suc n)"
proof (cases "n \<in> {80, 239, 559, 959, 1239, 1759, 3199}")
  case True
  then show ?thesis by (auto simp: pitch_reference_def pitch_line_def)
next
  case False
  then show ?thesis by (auto simp: pitch_reference_def intro!: pitch_line_mono)
qed

lemma pitch_reference_mono: "m \<le> n \<Longrightarrow> pitch_reference m \<le> pitch_reference n"
  by (rule lift_Suc_mono_le [of pitch_reference, OF pitch_reference_Suc])

lemma pitch_reference_top: "pitch_reference n \<le> 16384"
proof -
  have "pitch_reference n \<le> pitch_reference (n + 3200)" by (rule pitch_reference_mono) simp
  then show ?thesis by (simp add: pitch_reference_def)
qed

lemma pitch_program_reference: "unat (pitch_program s) = pitch_reference (unat s)"
proof -
  let ?n = "unat s"
  have less: "s < numeral w \<longleftrightarrow> ?n < unat (numeral w :: u32)" "numeral w \<le> s \<longleftrightarrow> unat (numeral w :: u32) \<le> ?n" for w
    by (simp_all add: word_less_nat_alt word_le_nat_alt)
  have diff: "numeral w \<le> s \<Longrightarrow> unat (s - numeral w) = ?n - unat (numeral w :: u32)" for w
    by (simp add: unat_sub)
  have term1: "unat (pitch_between s i) = pitch_line a c w (?n - b)"
    if "PITCH_STEPS ! i = of_nat b" "PITCH_STEPS ! (i + 1) - PITCH_STEPS ! i = of_nat w" "b \<le> ?n" "?n - b \<le> w"
      "ucast (PITCH_ANGLES ! i) = (of_nat a :: i32)" "ucast (PITCH_ANGLES ! (i + 1)) - ucast (PITCH_ANGLES ! i) = (of_nat c :: i32)"
      "c \<le> 4201" "0 < w" "w \<le> 1440" "a + c \<le> 16384" "b \<le> 3200" for i a b c w
  proof -
    have b: "unat (of_nat b :: u32) = b" using that by (simp add: unat_of_nat take_bit_nat_eq_self)
    have o: "unat (s - of_nat b) = ?n - b" using that b by (subst unat_sub) (simp_all add: word_le_nat_alt)
    have w: "sint (of_nat w :: u32) = int w" using that sint_of_int_i32 [of "int w"] by simp
    have "c * (?n - b) \<le> c * w" using that by (intro mult_le_mono2)
    moreover have "w div 2 < w" using that by simp
    ultimately have "c * (?n - b) + w div 2 < c * w + w" by (rule add_le_less_mono)
    then have top: "(c * (?n - b) + w div 2) div w \<le> c"
      using less_mult_imp_div_less [of "c * (?n - b) + w div 2" "c + 1" w] by simp
    have "unat (pitch_between s i) = pitch_line a c w (unat (s - of_nat b))"
      unfolding pitch_between_def Let_def that(2) that(6) w unfolding that(1) that(5)
      by (rule pitch_term) (use that o top in auto)
    then show ?thesis using o by simp
  qed
  have l: "length PITCH_STEPS - 1 = 7" by (simp add: PITCH_STEPS_def)
  have p: "pitch_program s = (if s \<le> 0 then 0 else if 3200 \<le> s then 16384 else if s < 80 then pitch_between s 0
      else if s < 240 then pitch_between s 1 else if s < 560 then pitch_between s 2 else if s < 960 then pitch_between s 3
      else if s < 1240 then pitch_between s 4 else if s < 1760 then pitch_between s 5 else pitch_between s 6)"
    unfolding pitch_program_def Let_def l upt_seven by (simp add: PITCH_STEPS_def PITCH_ANGLES_def) (auto simp: not_less)
  note tables = PITCH_STEPS_def PITCH_ANGLES_def
  have "?n \<le> 80 \<Longrightarrow> unat (pitch_between s 0) = pitch_line 0 0 80 (?n - 0)" by (rule term1) (simp_all add: tables)
  moreover have "80 \<le> ?n \<Longrightarrow> ?n \<le> 240 \<Longrightarrow> unat (pitch_between s 1) = pitch_line 0 3160 160 (?n - 80)"
    by (rule term1) (simp_all add: tables)
  moreover have "240 \<le> ?n \<Longrightarrow> ?n \<le> 560 \<Longrightarrow> unat (pitch_between s 2) = pitch_line 3160 3973 320 (?n - 240)"
    by (rule term1) (simp_all add: tables)
  moreover have "560 \<le> ?n \<Longrightarrow> ?n \<le> 960 \<Longrightarrow> unat (pitch_between s 3) = pitch_line 7133 1932 400 (?n - 560)"
    by (rule term1) (simp_all add: tables)
  moreover have "960 \<le> ?n \<Longrightarrow> ?n \<le> 1240 \<Longrightarrow> unat (pitch_between s 4) = pitch_line 9065 4201 280 (?n - 960)"
    by (rule term1) (simp_all add: tables)
  moreover have "1240 \<le> ?n \<Longrightarrow> ?n \<le> 1760 \<Longrightarrow> unat (pitch_between s 5) = pitch_line 13266 2954 520 (?n - 1240)"
    by (rule term1) (simp_all add: tables)
  moreover have "1760 \<le> ?n \<Longrightarrow> ?n \<le> 3200 \<Longrightarrow> unat (pitch_between s 6) = pitch_line 16220 164 1440 (?n - 1760)"
    by (rule term1) (simp_all add: tables)
  moreover have "pitch_line 0 0 80 (?n - 0) = 0" by (simp add: pitch_line_def)
  moreover have "pitch_line 0 3160 160 0 = 0" "s \<le> 0 \<longleftrightarrow> ?n = 0" by (simp_all add: pitch_line_def unat_eq_zero)
  ultimately show ?thesis unfolding p pitch_reference_def less by (auto split: if_splits)
qed

lemma insertion_pitch_range: "12743 \<le> insertion_pitch sq nav \<and> insertion_pitch sq nav \<le> 20025"
proof -
  have "unat (ucast (clamp32 12743 20025 x) :: u16) = nat (clamp_int 12743 20025 (sint x))" for x
  proof -
    have b: "12743 \<le> clamp_int 12743 20025 (sint x) \<and> clamp_int 12743 20025 (sint x) \<le> 20025"
      by (rule clamp_int_bounds) simp
    then obtain n where "clamp_int 12743 20025 (sint x) = int n" using nonneg_int_cases [of "clamp_int 12743 20025 (sint x)"] by auto
    moreover from this b have "n \<le> 20025" by simp
    ultimately show ?thesis using unat_pitch_word [of n] by (simp add: clamp32_def)
  qed
  moreover have "12743 \<le> nat (clamp_int 12743 20025 z) \<and> nat (clamp_int 12743 20025 z) \<le> 20025" for z
    using clamp_int_bounds [of 12743 20025 z] by auto
  ultimately show ?thesis by (simp add: insertion_pitch_def Let_def word_le_nat_alt)
qed

text \<open>
  The pitch program is, at every 32-bit step, the interpolation of its table rounded to the
  nearest angle, with no overflow on the way; it never turns back and never passes the
  horizontal, and the insertion feedback keeps the pitch in its band whatever the
  navigation state is.
\<close>
theorem ascent_pitch_program:
  "unat (pitch_program s) = pitch_reference (unat s) \<and> mono pitch_program \<and> pitch_program s \<le> 16384
   \<and> 12743 \<le> insertion_pitch s nav \<and> insertion_pitch s nav \<le> 20025"
proof -
  have "mono pitch_program"
    by (rule monoI) (simp add: word_le_nat_alt pitch_program_reference pitch_reference_mono)
  moreover have "pitch_program s \<le> 16384"
    using pitch_reference_top [of "unat s"] by (simp add: word_le_nat_alt pitch_program_reference)
  ultimately show ?thesis by (simp add: pitch_program_reference insertion_pitch_range)
qed

end
