(* ===== verification/Realtime_Flight.thy ===== *)
theory Realtime_Flight
  imports Global_Vectors
begin

text \<open>
  The realtime flight computer of phase 6 (\<^verbatim>\<open>flight/src/phase6_realtime.rs\<close>): the
  32/8/1 Hz scheduler, the missing-cell count with its safe latch, the aided navigation,
  the gimbal law and the guidance interpolation.  The generated guidance table
  and its lookup are in Realtime_Guidance.
\<close>

unbundle bit_operations_syntax

subsection \<open>State\<close>

definition PAL_CPU_HZ :: u32 where "PAL_CPU_HZ = 985248"
definition REALTIME_FAST_HZ :: u32 where "REALTIME_FAST_HZ = 32"
definition PAL_FAST_TICK_CYCLES :: u32 where "PAL_FAST_TICK_CYCLES = PAL_CPU_HZ div REALTIME_FAST_HZ"
definition PAL_TICK_BUDGET_CYCLES :: u32 where "PAL_TICK_BUDGET_CYCLES = PAL_FAST_TICK_CYCLES * 4 div 5"
definition ALARM_STALE_LINK :: u16 where "ALARM_STALE_LINK = 1"
definition ALARM_DEADLINE :: u16 where "ALARM_DEADLINE = 2"
definition ALARM_SAFEING :: u16 where "ALARM_SAFEING = 4"
definition REALTIME_AID_GPS :: u16 where "REALTIME_AID_GPS = 2"
definition REALTIME_AID_STAR :: u16 where "REALTIME_AID_STAR = 4"

record RealtimeGuidanceSlice =
  gs_start :: "i16 vec3"
  gs_end :: "i16 vec3"
  gs_rate :: "i16 vec3"

record ScheduleRelease =
  sr_epoch :: u16
  sr_fast :: bool
  sr_navigation :: bool
  sr_guidance :: bool
  sr_status :: bool

definition scheduled :: "u16 \<Rightarrow> ScheduleRelease" where
  "scheduled e = \<lparr>sr_epoch = e, sr_fast = True, sr_navigation = (e AND 3 = 0), sr_guidance = (e AND 31 = 2),
     sr_status = (e AND 3 = 0)\<rparr>"

record RealtimeNavigation =
  rn_position_q12 :: "i32 vec3"
  rn_velocity_q24 :: "i32 vec3"
  rn_platform_angle :: "i16 vec3"
  rn_angular_rate :: "i16 vec3"
  rn_checksum :: u32

record RealtimeFlightEvidence =
  re_command :: RealtimeCommandCell
  re_status :: "RealtimeStatusCell option"
  re_release :: ScheduleRelease
  re_safe :: bool

record RealtimeFlightComputer =
  rf_session :: u16
  rf_scheduler_epoch :: u16
  rf_navigation :: RealtimeNavigation
  rf_target :: "i16 vec3"
  rf_target_accumulator_q5 :: "i32 vec3"
  rf_target_delta_q5 :: "i32 vec3"
  rf_target_rate :: "i16 vec3"
  rf_delta_accumulator :: "i32 vec3"
  rf_missing :: u8
  rf_alarms :: u16
  rf_deadline_misses :: u16
  rf_flight_checksum :: u32
  rf_safe :: bool

definition new_realtime_flight :: "u16 \<Rightarrow> i32 vec3 \<Rightarrow> i32 vec3 \<Rightarrow> RealtimeFlightComputer" where
  "new_realtime_flight session position velocity =
     \<lparr>rf_session = session, rf_scheduler_epoch = 0,
      rf_navigation = \<lparr>rn_position_q12 = position, rn_velocity_q24 = velocity, rn_platform_angle = (0, 0, 0),
        rn_angular_rate = (0, 0, 0), rn_checksum = 2166136261\<rparr>,
      rf_target = (0, 0, 0), rf_target_accumulator_q5 = (0, 0, 0), rf_target_delta_q5 = (0, 0, 0),
      rf_target_rate = (0, 0, 0), rf_delta_accumulator = (0, 0, 0), rf_missing = 0, rf_alarms = 0,
      rf_deadline_misses = 0, rf_flight_checksum = 2166136261, rf_safe = False\<rparr>"

subsection \<open>Checksums\<close>

definition rt_hash_byte :: "u32 \<Rightarrow> u8 \<Rightarrow> u32" where
  "rt_hash_byte h byte = (word_rotl 5 h XOR ucast byte) + 0x9e3779b9"

definition rt_hash_word :: "u32 \<Rightarrow> u32 \<Rightarrow> u32" where
  "rt_hash_word h v = foldl rt_hash_byte h (to_le_bytes32 v)"

definition rt_hash_i16 :: "u32 \<Rightarrow> i16 \<Rightarrow> u32" where
  "rt_hash_i16 h v =
     (let low = ucast v :: u8; high = ucast (drop_bit 8 v) :: u8;
          sign = (if high AND 0x80 \<noteq> 0 then 0xff else 0)
      in foldl rt_hash_byte h [low, high, sign, sign])"

definition hash_navigation_release :: "u32 \<Rightarrow> u16 \<Rightarrow> i32 vec3 \<Rightarrow> i32 vec3 \<Rightarrow> u32" where
  "hash_navigation_release h e position velocity =
     (let h = rt_hash_word h (ucast e); axis = unat (drop_bit 2 e mod 3)
      in rt_hash_word (rt_hash_word h (at3 position axis)) (at3 velocity axis))"

definition rt_hash_command :: "u32 \<Rightarrow> RealtimeCommandCell \<Rightarrow> u32" where
  "rt_hash_command h c =
     (let h = rt_hash_word h (ucast (rc_source_epoch c));
          h = rt_hash_word h (ucast (rc_effective_epoch c));
          h = rt_hash_i16 h (fst (gimbal c));
          h = rt_hash_i16 h (snd (gimbal c))
      in rt_hash_word h (ucast (rc_flags c)))"

subsection \<open>Operations between ticks\<close>

definition set_guidance_segment :: "i16 vec3 \<Rightarrow> i16 vec3 \<Rightarrow> i16 vec3 \<Rightarrow> RealtimeFlightComputer \<Rightarrow> RealtimeFlightComputer" where
  "set_guidance_segment start finish rate s =
     s\<lparr>rf_target := start, rf_target_rate := rate,
       rf_target_accumulator_q5 := make3 (\<lambda>a. push_bit 5 (scast (at3 start a))),
       rf_target_delta_q5 := make3 (\<lambda>a. scast (at3 finish a) - scast (at3 start a))\<rparr>"

definition set_guidance_target_with_rate :: "i16 vec3 \<Rightarrow> i16 vec3 \<Rightarrow> RealtimeFlightComputer \<Rightarrow> RealtimeFlightComputer" where
  "set_guidance_target_with_rate target rate = set_guidance_segment target target rate"

definition set_guidance_target :: "i16 vec3 \<Rightarrow> RealtimeFlightComputer \<Rightarrow> RealtimeFlightComputer" where
  "set_guidance_target target = set_guidance_segment target target (0, 0, 0)"

definition record_cycles :: "u32 \<Rightarrow> RealtimeFlightComputer \<Rightarrow> RealtimeFlightComputer" where
  "record_cycles cycles s =
     (if PAL_TICK_BUDGET_CYCLES < cycles
      then s\<lparr>rf_deadline_misses := (if rf_deadline_misses s = - 1 then - 1 else rf_deadline_misses s + 1),
             rf_alarms := rf_alarms s OR (ALARM_DEADLINE OR ALARM_SAFEING), rf_safe := True\<rparr>
      else s)"

subsection \<open>The tick\<close>

definition sat_i16 :: "int \<Rightarrow> i16" where
  "sat_i16 value = word_of_int (clamp_int (- (2 ^ 15)) (2 ^ 15 - 1) value)"

definition rt_cell_valid :: "RealtimeFlightComputer \<Rightarrow> u16 \<Rightarrow> RealtimeInertialCell \<Rightarrow> bool" where
  "rt_cell_valid s e c \<longleftrightarrow> ri_session c = rf_session s \<and> ri_measurement_epoch c = e"

definition rt_accept :: "RealtimeInertialCell \<Rightarrow> RealtimeFlightComputer \<Rightarrow> RealtimeFlightComputer" where
  "rt_accept c s =
     s\<lparr>rf_missing := 0,
       rf_navigation := (rf_navigation s)\<lparr>rn_platform_angle := platform_angle c, rn_angular_rate := angular_rate c\<rparr>,
       rf_delta_accumulator := make3 (\<lambda>a. saturating_add_i32 (at3 (rf_delta_accumulator s) a) (scast (at3 (delta_velocity c) a)))\<rparr>"

definition rt_miss :: "RealtimeFlightComputer \<Rightarrow> RealtimeFlightComputer" where
  "rt_miss s =
     (let s = s\<lparr>rf_missing := (if rf_missing s = 255 then 255 else rf_missing s + 1),
                rf_alarms := rf_alarms s OR ALARM_STALE_LINK\<rparr>
      in if 3 \<le> rf_missing s then s\<lparr>rf_safe := True, rf_alarms := rf_alarms s OR ALARM_SAFEING\<rparr> else s)"

definition rt_receive :: "RealtimeInertialCell option \<Rightarrow> u16 \<Rightarrow> RealtimeFlightComputer \<Rightarrow> RealtimeFlightComputer" where
  "rt_receive inertial e s =
     (case inertial of
        Some c \<Rightarrow> if rt_cell_valid s e c then rt_accept c s else rt_miss s
      | None \<Rightarrow> rt_miss s)"

definition rt_gps :: "RealtimeAidCell \<Rightarrow> RealtimeNavigation \<Rightarrow> RealtimeNavigation" where
  "rt_gps fix n =
     n\<lparr>rn_position_q12 := make3 (\<lambda>a. saturating_add_i32 (at3 (rn_position_q12 n) a)
          (signed_drop_bit 2 (at3 (gps_position_q12 fix) a - at3 (rn_position_q12 n) a))),
       rn_velocity_q24 := make3 (\<lambda>a. saturating_add_i32 (at3 (rn_velocity_q24 n) a)
          (signed_drop_bit 3 (at3 (gps_velocity_q24 fix) a - at3 (rn_velocity_q24 n) a)))\<rparr>"

definition rt_star :: "RealtimeAidCell \<Rightarrow> RealtimeNavigation \<Rightarrow> RealtimeNavigation" where
  "rt_star fix n =
     n\<lparr>rn_platform_angle := make3 (\<lambda>a. sat_i16 (sint (at3 (rn_platform_angle n) a)
          + sint (signed_drop_bit 2 (at3 (star_angle fix) a - at3 (rn_platform_angle n) a))))\<rparr>"

definition rt_aiding :: "RealtimeAidCell option \<Rightarrow> u16 \<Rightarrow> RealtimeNavigation \<Rightarrow> RealtimeNavigation" where
  "rt_aiding aid session n =
     (case aid of
        Some fix \<Rightarrow>
          if ra_session fix = session
          then let n = (if ra_validity fix AND REALTIME_AID_GPS \<noteq> 0 then rt_gps fix n else n)
               in if ra_validity fix AND REALTIME_AID_STAR \<noteq> 0 then rt_star fix n else n
          else n
      | None \<Rightarrow> n)"

definition rt_integrate :: "u16 \<Rightarrow> i32 vec3 \<Rightarrow> RealtimeNavigation \<Rightarrow> RealtimeNavigation" where
  "rt_integrate e delta n =
     (let velocity = make3 (\<lambda>a. saturating_add_i32 (at3 (rn_velocity_q24 n) a) (push_bit 12 (at3 delta a)));
          position = make3 (\<lambda>a. saturating_add_i32 (at3 (rn_position_q12 n) a) (signed_drop_bit 15 (at3 velocity a)))
      in n\<lparr>rn_velocity_q24 := velocity, rn_position_q12 := position,
           rn_checksum := hash_navigation_release (rn_checksum n) e position velocity\<rparr>)"

definition rt_navigate :: "ScheduleRelease \<Rightarrow> RealtimeAidCell option \<Rightarrow> RealtimeFlightComputer \<Rightarrow> RealtimeFlightComputer" where
  "rt_navigate release aid s =
     (if sr_navigation release
      then s\<lparr>rf_navigation := rt_integrate (sr_epoch release) (rf_delta_accumulator s) (rt_aiding aid (rf_session s) (rf_navigation s)),
             rf_delta_accumulator := (0, 0, 0)\<rparr>
      else s)"

definition clamp32_to_i16 :: "int \<Rightarrow> i32 \<Rightarrow> i16" where
  "clamp32_to_i16 bound x = word_of_int (clamp_int (- bound) bound (sint x))"

definition rt_control :: "RealtimeFlightComputer \<Rightarrow> (i16 \<times> i16) \<times> i8 vec3" where
  "rt_control s =
     (if \<not> rf_safe s \<and> rf_missing s = 0
      then let error = (\<lambda>a. scast (at3 (rf_target s) a) - scast (at3 (rn_platform_angle (rf_navigation s)) a)) :: nat \<Rightarrow> i32;
               rate_error = (\<lambda>a. scast (at3 (rf_target_rate s) a) - scast (at3 (rn_angular_rate (rf_navigation s)) a)) :: nat \<Rightarrow> i32;
               pitch = - signed_drop_bit 1 (error 1) - push_bit 2 (rate_error 1);
               yaw = - signed_drop_bit 1 (error 2) - push_bit 2 (rate_error 2);
               roll = signed_drop_bit 11 (error 0) + signed_drop_bit 11 (rate_error 0)
           in ((clamp32_to_i16 6863 pitch, clamp32_to_i16 6863 yaw),
               (word_of_int (clamp_int (- 127) 127 (sint roll)), 0, 0))
      else ((0, 0), (0, 0, 0)))"

definition rt_discrete :: "bool \<Rightarrow> RealtimeInertialCell option \<Rightarrow> u8" where
  "rt_discrete safe inertial =
     (if safe then 4
      else case inertial of
        Some c \<Rightarrow> if stage_status c AND 3 = 0 then 1 else if stage_status c AND 3 = 2 then 2 else 0
      | None \<Rightarrow> 0)"

definition rt_command :: "u16 \<Rightarrow> RealtimeInertialCell option \<Rightarrow> RealtimeFlightComputer \<Rightarrow> RealtimeCommandCell" where
  "rt_command e inertial s =
     \<lparr>rc_session = rf_session s, rc_source_epoch = e, rc_effective_epoch = e + 1, rc_flags = (if rf_safe s then 1 else 0),
      discrete = rt_discrete (rf_safe s) inertial, gimbal = fst (rt_control s), rcs = snd (rt_control s),
      rc_status = rf_missing s\<rparr>"

definition rt_status :: "u16 \<Rightarrow> RealtimeFlightComputer \<Rightarrow> RealtimeStatusCell" where
  "rt_status e s =
     \<lparr>rs_session = rf_session s, rs_source_epoch = e, rs_production_epoch = e, rs_mode = (if rf_safe s then 7 else 2),
      rs_flags = 0, alarms = rf_alarms s, navigation_position_q12 = rn_position_q12 (rf_navigation s),
      navigation_velocity_q24 = rn_velocity_q24 (rf_navigation s), flight_checksum = rf_flight_checksum s,
      deadline_misses = rf_deadline_misses s\<rparr>"

definition advance_guidance_slice :: "RealtimeFlightComputer \<Rightarrow> RealtimeFlightComputer" where
  "advance_guidance_slice s =
     (let acc = make3 (\<lambda>a. saturating_add_i32 (at3 (rf_target_accumulator_q5 s) a) (at3 (rf_target_delta_q5 s) a))
      in s\<lparr>rf_target_accumulator_q5 := acc,
           rf_target := make3 (\<lambda>a. clamp_i16 (signed_drop_bit 5 (at3 acc a)))\<rparr>)"

definition realtime_tick :: "RealtimeInertialCell option \<Rightarrow> RealtimeAidCell option \<Rightarrow> RealtimeFlightComputer
    \<Rightarrow> RealtimeFlightEvidence \<times> RealtimeFlightComputer" where
  "realtime_tick inertial aid s =
     (let release = scheduled (rf_scheduler_epoch s);
          e = sr_epoch release;
          s = rt_receive inertial e (s\<lparr>rf_scheduler_epoch := e + 1\<rparr>);
          s = rt_navigate release aid s;
          cmd = rt_command e inertial s;
          s = s\<lparr>rf_flight_checksum := rt_hash_command (rf_flight_checksum s) cmd\<rparr>;
          status = (if sr_status release then Some (rt_status e s) else None);
          s = advance_guidance_slice s
      in (\<lparr>re_command = cmd, re_status = status, re_release = release, re_safe = rf_safe s\<rparr>, s))"

end
