(* ===== verification/Realtime_Safety.thy ===== *)
theory Realtime_Safety
  imports Realtime_Flight
begin

text \<open>
  What the realtime flight computer promises over every history of its operations: the
  safe latch and what enters it, inert commands behind it, bounded and transmissible
  commands before it, and the guidance interpolation.
\<close>

unbundle bit_operations_syntax

subsection \<open>Histories\<close>

datatype rt_op = RtTick "RealtimeInertialCell option" "RealtimeAidCell option" | RtCycles u32
  | RtSegment "i16 vec3" "i16 vec3" "i16 vec3"

fun rt_step :: "rt_op \<Rightarrow> RealtimeFlightComputer \<Rightarrow> RealtimeFlightEvidence list \<times> RealtimeFlightComputer" where
  "rt_step (RtTick c a) s = (let (e, s) = realtime_tick c a s in ([e], s))"
| "rt_step (RtCycles n) s = ([], record_cycles n s)"
| "rt_step (RtSegment p q r) s = ([], set_guidance_segment p q r s)"

fun rt_run :: "rt_op list \<Rightarrow> RealtimeFlightComputer \<Rightarrow> RealtimeFlightEvidence list \<times> RealtimeFlightComputer" where
  "rt_run [] s = ([], s)"
| "rt_run (x # xs) s = (let (es, s) = rt_step x s; (fs, s) = rt_run xs s in (es @ fs, s))"

subsection \<open>One tick\<close>

definition inert_command :: "RealtimeCommandCell \<Rightarrow> bool" where
  "inert_command c \<longleftrightarrow> gimbal c = (0, 0) \<and> rcs c = (0, 0, 0) \<and> discrete c = 4 \<and> rc_flags c = 1"

definition bounded_command :: "RealtimeCommandCell \<Rightarrow> bool" where
  "bounded_command c \<longleftrightarrow> \<bar>sint (fst (gimbal c))\<bar> \<le> 6863 \<and> \<bar>sint (snd (gimbal c))\<bar> \<le> 6863 \<and> \<bar>sint (at3 (rcs c) 0)\<bar> \<le> 127
     \<and> at3 (rcs c) 1 = 0 \<and> at3 (rcs c) 2 = 0 \<and> discrete c \<in> {0, 1, 2, 4}"

definition tick_valid :: "RealtimeFlightComputer \<Rightarrow> RealtimeInertialCell option \<Rightarrow> bool" where
  "tick_valid s inertial \<longleftrightarrow> (\<exists>c. inertial = Some c \<and> rt_cell_valid s (rf_scheduler_epoch s) c)"

lemma rt_frames [simp]:
  "rf_safe (rt_navigate r a s) = rf_safe s" "rf_missing (rt_navigate r a s) = rf_missing s"
  "rf_session (rt_navigate r a s) = rf_session s" "rf_scheduler_epoch (rt_navigate r a s) = rf_scheduler_epoch s"
  "rf_safe (advance_guidance_slice s) = rf_safe s" "rf_missing (advance_guidance_slice s) = rf_missing s"
  "rf_session (advance_guidance_slice s) = rf_session s"
  "rf_scheduler_epoch (advance_guidance_slice s) = rf_scheduler_epoch s"
  by (simp_all add: rt_navigate_def advance_guidance_slice_def Let_def)

lemma rt_receive_effect:
  "rf_session (rt_receive inertial e s) = rf_session s" "rf_scheduler_epoch (rt_receive inertial e s) = rf_scheduler_epoch s"
  "rf_missing (rt_receive inertial e s) = (if \<exists>c. inertial = Some c \<and> rt_cell_valid s e c then 0
     else if rf_missing s = 255 then 255 else rf_missing s + 1)"
  "rf_safe (rt_receive inertial e s) \<longleftrightarrow> rf_safe s
     \<or> \<not> (\<exists>c. inertial = Some c \<and> rt_cell_valid s e c) \<and> 3 \<le> rf_missing (rt_receive inertial e s)"
  by (auto simp: rt_receive_def rt_accept_def rt_miss_def Let_def split: option.splits)

definition rt_updated :: "RealtimeInertialCell option \<Rightarrow> RealtimeAidCell option \<Rightarrow> RealtimeFlightComputer \<Rightarrow> RealtimeFlightComputer" where
  "rt_updated inertial aid s =
     rt_navigate (scheduled (rf_scheduler_epoch s)) aid
       (rt_receive inertial (rf_scheduler_epoch s) (s\<lparr>rf_scheduler_epoch := rf_scheduler_epoch s + 1\<rparr>))"

lemma realtime_tick_stages:
  assumes "realtime_tick inertial aid s = (e, s')"
  shows "re_command e = rt_command (rf_scheduler_epoch s) inertial (rt_updated inertial aid s)"
    "re_safe e = rf_safe s'"
    "\<exists>h. s' = advance_guidance_slice (rt_updated inertial aid s\<lparr>rf_flight_checksum := h\<rparr>)"
  using assms unfolding realtime_tick_def Let_def rt_updated_def [symmetric] scheduled_def
  by (auto simp: rt_updated_def scheduled_def)

lemma rt_updated_effect [simp]:
  "rf_session (rt_updated inertial aid s) = rf_session s"
  "rf_scheduler_epoch (rt_updated inertial aid s) = rf_scheduler_epoch s + 1"
  "rf_missing (rt_updated inertial aid s)
     = (if tick_valid s inertial then 0 else if rf_missing s = 255 then 255 else rf_missing s + 1)"
  "rf_safe (rt_updated inertial aid s)
     \<longleftrightarrow> rf_safe s \<or> \<not> tick_valid s inertial \<and> 3 \<le> rf_missing (rt_updated inertial aid s)"
  by (auto simp: rt_updated_def rt_receive_effect tick_valid_def rt_cell_valid_def)

lemma realtime_tick_effect:
  assumes "realtime_tick inertial aid s = (e, s')"
  shows "rf_session s' = rf_session s" "rf_scheduler_epoch s' = rf_scheduler_epoch s + 1"
    "rf_missing s' = (if tick_valid s inertial then 0 else if rf_missing s = 255 then 255 else rf_missing s + 1)"
    "rf_safe s' \<longleftrightarrow> rf_safe s \<or> \<not> tick_valid s inertial \<and> 3 \<le> rf_missing s'"
    "re_safe e = rf_safe s'"
    "rc_session (re_command e) = rf_session s" "rc_source_epoch (re_command e) = rf_scheduler_epoch s"
    "rc_effective_epoch (re_command e) = rf_scheduler_epoch s + 1"
    "rf_safe s' \<Longrightarrow> inert_command (re_command e)"
    "\<not> rf_safe s' \<Longrightarrow> rc_flags (re_command e) = 0 \<and> discrete (re_command e) = rt_discrete False inertial"
    "rf_missing s' \<noteq> 0 \<Longrightarrow> gimbal (re_command e) = (0, 0) \<and> rcs (re_command e) = (0, 0, 0)"
proof -
  note c = realtime_tick_stages(1,2) [OF assms]
  obtain h where h: "s' = advance_guidance_slice (rt_updated inertial aid s\<lparr>rf_flight_checksum := h\<rparr>)"
    using realtime_tick_stages(3) [OF assms] by blast
  have u: "rf_safe s' = rf_safe (rt_updated inertial aid s)" "rf_missing s' = rf_missing (rt_updated inertial aid s)"
    by (simp_all add: h)
  show "rf_session s' = rf_session s" "rf_scheduler_epoch s' = rf_scheduler_epoch s + 1" by (simp_all add: h)
  show "rf_missing s' = (if tick_valid s inertial then 0 else if rf_missing s = 255 then 255 else rf_missing s + 1)"
    unfolding u by (rule rt_updated_effect)
  show "rf_safe s' \<longleftrightarrow> rf_safe s \<or> \<not> tick_valid s inertial \<and> 3 \<le> rf_missing s'" unfolding u by (rule rt_updated_effect)
  show "re_safe e = rf_safe s'" by (rule c)
  show "rc_session (re_command e) = rf_session s" "rc_source_epoch (re_command e) = rf_scheduler_epoch s"
    "rc_effective_epoch (re_command e) = rf_scheduler_epoch s + 1" by (simp_all add: c rt_command_def)
  show "inert_command (re_command e)" if "rf_safe s'"
    using that unfolding u c by (simp only: rt_command_def inert_command_def rt_control_def rt_discrete_def) simp
  show "rc_flags (re_command e) = 0 \<and> discrete (re_command e) = rt_discrete False inertial" if "\<not> rf_safe s'"
    using that unfolding u c by (simp only: rt_command_def) simp
  show "gimbal (re_command e) = (0, 0) \<and> rcs (re_command e) = (0, 0, 0)" if "rf_missing s' \<noteq> 0"
    using that unfolding u c by (simp only: rt_command_def rt_control_def) simp
qed

lemma clamped_i16: "0 \<le> b \<Longrightarrow> b < 2 ^ 15 \<Longrightarrow> \<bar>sint (clamp32_to_i16 b x)\<bar> \<le> b"
proof -
  assume b: "0 \<le> b" "b < 2 ^ 15"
  have c: "- b \<le> clamp_int (- b) b (sint x) \<and> clamp_int (- b) b (sint x) \<le> b" using b by (intro clamp_int_bounds) simp
  then have "sint (clamp32_to_i16 b x) = clamp_int (- b) b (sint x)"
    unfolding clamp32_to_i16_def using b by (intro sint_of_int_i16) auto
  then show ?thesis using c by auto
qed

lemma clamped_i8: "\<bar>sint (word_of_int (clamp_int (- 127) 127 v) :: i8)\<bar> \<le> 127"
proof -
  have c: "- 127 \<le> clamp_int (- 127) 127 v \<and> clamp_int (- 127) 127 v \<le> 127" by (rule clamp_int_bounds) simp
  then have "sint (word_of_int (clamp_int (- 127) 127 v) :: i8) = clamp_int (- 127) 127 v"
    by (simp add: sint_sbintrunc' signed_take_bit_int_eq_self)
  then show ?thesis using c by auto
qed

lemma rt_command_bounded: "bounded_command (rt_command e inertial s)"
  using clamped_i16 [of 6863] clamped_i8
  by (auto simp: bounded_command_def rt_command_def rt_control_def rt_discrete_def Let_def split: option.splits)

lemma realtime_tick_bounded: "realtime_tick inertial aid s = (e, s') \<Longrightarrow> bounded_command (re_command e)"
  by (simp add: realtime_tick_stages(1) rt_command_bounded)

subsection \<open>The safe latch\<close>

lemma record_cycles_frame [simp]:
  "rf_session (record_cycles n s) = rf_session s" "rf_scheduler_epoch (record_cycles n s) = rf_scheduler_epoch s"
  "rf_missing (record_cycles n s) = rf_missing s"
  "rf_safe (record_cycles n s) \<longleftrightarrow> rf_safe s \<or> PAL_TICK_BUDGET_CYCLES < n"
  by (simp_all add: record_cycles_def)

lemma set_guidance_segment_frame [simp]:
  "rf_session (set_guidance_segment p q r s) = rf_session s"
  "rf_scheduler_epoch (set_guidance_segment p q r s) = rf_scheduler_epoch s"
  "rf_missing (set_guidance_segment p q r s) = rf_missing s" "rf_safe (set_guidance_segment p q r s) = rf_safe s"
  by (simp_all add: set_guidance_segment_def)

definition evidence_ok :: "u16 \<Rightarrow> u16 \<Rightarrow> RealtimeFlightEvidence \<Rightarrow> bool" where
  "evidence_ok session e v \<longleftrightarrow> rc_session (re_command v) = session \<and> rc_source_epoch (re_command v) = e
     \<and> rc_effective_epoch (re_command v) = e + 1 \<and> bounded_command (re_command v)
     \<and> (if re_safe v then inert_command (re_command v) else rc_flags (re_command v) = 0 \<and> discrete (re_command v) \<noteq> 4)"

lemma realtime_tick_ok:
  "realtime_tick inertial aid s = (e, s') \<Longrightarrow> evidence_ok (rf_session s) (rf_scheduler_epoch s) e"
  using realtime_tick_effect [of inertial aid s e s'] realtime_tick_bounded [of inertial aid s e s']
  by (auto simp: evidence_ok_def rt_discrete_def split: option.splits)

lemma rt_run_latched:
  "(\<forall>i < length (fst (rt_run ops s)). evidence_ok (rf_session s) (rf_scheduler_epoch s + of_nat i) (fst (rt_run ops s) ! i))
   \<and> (\<forall>i j. i \<le> j \<longrightarrow> j < length (fst (rt_run ops s)) \<longrightarrow> re_safe (fst (rt_run ops s) ! i) \<longrightarrow> re_safe (fst (rt_run ops s) ! j))
   \<and> (rf_safe s \<longrightarrow> (\<forall>i < length (fst (rt_run ops s)). re_safe (fst (rt_run ops s) ! i)))"
proof (induction ops arbitrary: s)
  case (Cons x ops)
  show ?case
  proof (cases x)
    case (RtTick c a)
    obtain e s' where t: "realtime_tick c a s = (e, s')" by fastforce
    note eff = realtime_tick_effect(1,2,4,5) [OF t]
    have run: "fst (rt_run (x # ops) s) = e # fst (rt_run ops s')" using RtTick t by (simp add: case_prod_beta)
    have epoch: "rf_scheduler_epoch s + of_nat (Suc i) = rf_scheduler_epoch s' + of_nat i" for i by (simp add: eff)
    show ?thesis
      unfolding run using Cons.IH [of s'] realtime_tick_ok [OF t] eff
      by (auto simp: nth_Cons epoch split: nat.splits simp del: of_nat_Suc)
  next
    case (RtCycles n)
    then show ?thesis using Cons.IH [of "record_cycles n s"] by (simp add: case_prod_beta)
  next
    case (RtSegment p q r)
    then show ?thesis using Cons.IH [of "set_guidance_segment p q r s"] by (simp add: case_prod_beta)
  qed
qed simp

text \<open>
  C11: Over every history of ticks, deadline reports and guidance segments, the commands of a
  fresh realtime computer carry its session and consecutive epochs, stay within the
  gimbal and thruster bounds and survive the command cell codec; the safe state, once reported, is reported by
  every later tick, and exactly its commands are the inert ones.
\<close>
theorem realtime_safe_latched:
  assumes "fst (rt_run ops (new_realtime_flight session position velocity)) = es" "i < length es"
  shows "evidence_ok session (of_nat i) (es ! i)
    \<and> (re_safe (es ! i) \<longrightarrow> (\<forall>j. i \<le> j \<and> j < length es \<longrightarrow> re_safe (es ! j) \<and> inert_command (re_command (es ! j))))
    \<and> (\<exists>b. write_realtime_command (re_command (es ! i)) (replicate 24 0) = (Inr (), b)
        \<and> parse_realtime_command b = Inr (re_command (es ! i)))"
proof -
  have new: "rf_session (new_realtime_flight session position velocity) = session"
    "rf_scheduler_epoch (new_realtime_flight session position velocity) = 0" by (simp_all add: new_realtime_flight_def)
  note run = rt_run_latched [of ops "new_realtime_flight session position velocity", unfolded new assms(1)]
  have ok: "evidence_ok session (of_nat j) (es ! j)" if "j < length es" for j using run that by simp
  have latch: "re_safe (es ! j)" if "i \<le> j" "j < length es" "re_safe (es ! i)" for j using run that by blast
  have "inert_command (re_command (es ! j))" if "j < length es" "re_safe (es ! j)" for j
    using ok [OF that(1)] that(2) by (simp add: evidence_ok_def)
  then show ?thesis
    using ok [OF assms(2)] latch command.write_parse [of "replicate 24 0" "re_command (es ! i)"] by auto
qed

theorem realtime_safe_latched_witness:
  "\<exists>e. fst (rt_run [RtCycles 100000, RtTick None None] (new_realtime_flight 7 (0, 0, 0) (0, 0, 0))) = [e]
     \<and> re_safe e \<and> inert_command (re_command e)"
proof -
  let ?s = "record_cycles 100000 (new_realtime_flight 7 (0, 0, 0) (0, 0, 0))"
  obtain e s' where t: "realtime_tick None None ?s = (e, s')" by fastforce
  then have es: "fst (rt_run [RtCycles 100000, RtTick None None] (new_realtime_flight 7 (0, 0, 0) (0, 0, 0))) = [e]" by simp
  have "rf_safe ?s" by (simp add: PAL_TICK_BUDGET_CYCLES_def PAL_FAST_TICK_CYCLES_def PAL_CPU_HZ_def REALTIME_FAST_HZ_def)
  then have "re_safe e" using realtime_tick_effect(4,5) [OF t] by simp
  then show ?thesis using realtime_safe_latched [OF es, of 0] es by simp
qed

subsection \<open>Loss of the link\<close>

type_synonym rt_input = "RealtimeInertialCell option \<times> RealtimeAidCell option"

definition rt_ticks :: "rt_input list \<Rightarrow> rt_op list" where
  "rt_ticks inputs = map (\<lambda>(c, a). RtTick c a) inputs"

definition link_up :: "u16 \<Rightarrow> rt_input list \<Rightarrow> nat \<Rightarrow> bool" where
  "link_up session inputs k \<longleftrightarrow>
     (\<exists>c. fst (inputs ! k) = Some c \<and> ri_session c = session \<and> ri_measurement_epoch c = of_nat k)"

primrec trailing_misses :: "(nat \<Rightarrow> bool) \<Rightarrow> nat \<Rightarrow> nat" where
  "trailing_misses up 0 = 0"
| "trailing_misses up (Suc n) = (if up n then 0 else Suc (trailing_misses up n))"

lemma three_trailing:
  "3 \<le> trailing_misses up n \<longleftrightarrow> (\<exists>k. n = k + 3 \<and> \<not> up k \<and> \<not> up (k + 1) \<and> \<not> up (k + 2))"
proof (cases "3 \<le> n")
  case True
  then obtain k where "n = Suc (Suc (Suc k))" by (metis add.commute le_Suc_ex numeral_3_eq_3 plus_nat.simps(1,2) add_Suc)
  then show ?thesis by auto
next
  case False
  moreover have "trailing_misses up n \<le> n" by (induction n) auto
  ultimately show ?thesis by auto
qed

lemma rt_run_append:
  "rt_run (xs @ ys) s = (fst (rt_run xs s) @ fst (rt_run ys (snd (rt_run xs s))), snd (rt_run ys (snd (rt_run xs s))))"
  by (induction xs arbitrary: s) (simp_all add: case_prod_beta)

lemma ticks_state:
  fixes session :: u16 and position velocity :: "i32 vec3"
  assumes "n \<le> length inputs"
  defines "s \<equiv> snd (rt_run (rt_ticks (take n inputs)) (new_realtime_flight session position velocity))"
  shows "rf_session s = session \<and> rf_scheduler_epoch s = of_nat n
    \<and> unat (rf_missing s) = min 255 (trailing_misses (link_up session inputs) n)
    \<and> (rf_safe s \<longleftrightarrow> (\<exists>m \<le> n. 3 \<le> trailing_misses (link_up session inputs) m))"
  using assms(1) unfolding s_def
proof (induction n)
  case 0
  then show ?case by (simp add: rt_ticks_def new_realtime_flight_def)
next
  case (Suc n)
  let ?s = "snd (rt_run (rt_ticks (take n inputs)) (new_realtime_flight session position velocity))"
  let ?up = "link_up session inputs"
  have IH: "rf_session ?s = session" "rf_scheduler_epoch ?s = of_nat n" "unat (rf_missing ?s) = min 255 (trailing_misses ?up n)"
    "rf_safe ?s \<longleftrightarrow> (\<exists>m \<le> n. 3 \<le> trailing_misses ?up m)" using Suc by simp_all
  obtain c a where in_n: "inputs ! n = (c, a)" by fastforce
  obtain e s' where t: "realtime_tick c a ?s = (e, s')" by fastforce
  have run: "snd (rt_run (rt_ticks (take (Suc n) inputs)) (new_realtime_flight session position velocity)) = s'"
    using Suc.prems in_n t by (simp add: take_Suc_conv_app_nth rt_ticks_def rt_run_append case_prod_beta)
  note eff = realtime_tick_effect(1-4) [OF t]
  have up: "tick_valid ?s c \<longleftrightarrow> ?up n"
    by (auto simp: tick_valid_def rt_cell_valid_def link_up_def in_n IH(1,2))
  have "rf_missing ?s = 255 \<longleftrightarrow> 255 \<le> trailing_misses ?up n"
    using IH(3) by (auto simp: word_unat_eq_iff)
  moreover have "unat (rf_missing ?s + 1) = Suc (trailing_misses ?up n)" if "trailing_misses ?up n < 255"
    using IH(3) that by (subst unat_add_lem [THEN iffD1]) auto
  ultimately have missing: "unat (rf_missing s') = min 255 (trailing_misses ?up (Suc n))"
    using eff(3) by (auto simp: up)
  then have "3 \<le> rf_missing s' \<longleftrightarrow> 3 \<le> trailing_misses ?up (Suc n)" by (simp add: word_le_nat_alt)
  then have "rf_safe s' \<longleftrightarrow> (\<exists>m \<le> Suc n. 3 \<le> trailing_misses ?up m)"
    using eff(4) IH(4) by (auto simp: up le_Suc_eq)
  then show ?case unfolding run using eff(1,2) IH(1,2) missing by simp
qed

text \<open>
  A fresh realtime computer that only ticks is safe if and only if three consecutive ticks came without
  a cell of its session and epoch; whatever else the cells and aiding data hold makes no
  difference.
\<close>
theorem realtime_link_loss:
  "rf_safe (snd (rt_run (rt_ticks inputs) (new_realtime_flight session position velocity)))
     \<longleftrightarrow> (\<exists>k. k + 3 \<le> length inputs \<and> \<not> link_up session inputs k \<and> \<not> link_up session inputs (k + 1)
          \<and> \<not> link_up session inputs (k + 2))"
  using ticks_state [of "length inputs" inputs session position velocity] by (auto simp: three_trailing)

text \<open>
  The discrete orders are taken from a cell that was refused: a cell of another session,
  which counts as a missing one and leaves navigation and gimbals alone, still orders ignition or
  separation by its stage status, as long as the computer is not safe yet.
\<close>
theorem realtime_refused_cell_orders:
  assumes "\<not> rf_safe s" "rf_missing s \<le> 1" "ri_session c \<noteq> rf_session s" "realtime_tick (Some c) a s = (e, s')"
  shows "rf_missing s' = rf_missing s + 1 \<and> \<not> re_safe e \<and> gimbal (re_command e) = (0, 0)
    \<and> (stage_status c AND 3 = 0 \<longrightarrow> discrete (re_command e) = 1) \<and> (stage_status c AND 3 = 2 \<longrightarrow> discrete (re_command e) = 2)"
proof -
  note eff = realtime_tick_effect [OF assms(4)]
  have refused: "\<not> tick_valid s (Some c)" using assms(3) by (simp add: tick_valid_def rt_cell_valid_def)
  have "rf_missing s = 0 \<or> rf_missing s = 1" using assms(2) by unat_arith
  then have m: "rf_missing s' = rf_missing s + 1" "\<not> 3 \<le> rf_missing s'" "rf_missing s' \<noteq> 0"
    using eff(3) refused by (auto simp: word_le_nat_alt)
  then have "\<not> rf_safe s'" using eff(4) assms(1) by simp
  then show ?thesis using eff(5,10,11) m by (simp add: rt_discrete_def)
qed

definition foreign_cell :: RealtimeInertialCell where
  "foreign_cell = \<lparr>ri_session = 8, ri_measurement_epoch = 0, ri_production_epoch = 0, ri_validity = 0, ri_flags = 0,
     platform_angle = (0, 0, 0), angular_rate = (0, 0, 0), delta_velocity = (0, 0, 0), gimbal_applied = (0, 0), stage_status = 0\<rparr>"

theorem realtime_refused_cell_orders_witness:
  "\<exists>e s'. realtime_tick (Some foreign_cell) None (new_realtime_flight 7 (0, 0, 0) (0, 0, 0)) = (e, s')
     \<and> rf_missing s' = 1 \<and> discrete (re_command e) = 1"
proof -
  let ?s = "new_realtime_flight 7 (0, 0, 0) (0, 0, 0)"
  obtain e s' where t: "realtime_tick (Some foreign_cell) None ?s = (e, s')" by fastforce
  have "\<not> rf_safe ?s" "rf_missing ?s = 0" "ri_session foreign_cell \<noteq> rf_session ?s" "stage_status foreign_cell AND 3 = 0"
    by (simp_all add: new_realtime_flight_def foreign_cell_def)
  then show ?thesis using realtime_refused_cell_orders [OF _ _ _ t] t by simp
qed

subsection \<open>Guidance interpolation\<close>

lemma realtime_tick_guidance:
  assumes "realtime_tick inertial aid s = (e, s')"
  shows "rf_target_accumulator_q5 s' = make3 (\<lambda>a. saturating_add_i32 (at3 (rf_target_accumulator_q5 s) a) (at3 (rf_target_delta_q5 s) a))"
    "rf_target_delta_q5 s' = rf_target_delta_q5 s"
    "rf_target s' = make3 (\<lambda>a. clamp_i16 (signed_drop_bit 5 (at3 (rf_target_accumulator_q5 s') a)))"
proof -
  have u: "rf_target_accumulator_q5 (rt_updated inertial aid s) = rf_target_accumulator_q5 s"
    "rf_target_delta_q5 (rt_updated inertial aid s) = rf_target_delta_q5 s"
    by (auto simp: rt_updated_def rt_navigate_def rt_receive_def rt_accept_def rt_miss_def Let_def split: option.splits)
  obtain h where "s' = advance_guidance_slice (rt_updated inertial aid s\<lparr>rf_flight_checksum := h\<rparr>)"
    using realtime_tick_stages(3) [OF assms] by blast
  then show "rf_target_accumulator_q5 s' = make3 (\<lambda>a. saturating_add_i32 (at3 (rf_target_accumulator_q5 s) a) (at3 (rf_target_delta_q5 s) a))"
    "rf_target_delta_q5 s' = rf_target_delta_q5 s"
    "rf_target s' = make3 (\<lambda>a. clamp_i16 (signed_drop_bit 5 (at3 (rf_target_accumulator_q5 s') a)))"
    by (simp_all add: advance_guidance_slice_def Let_def u)
qed

lemma at3_make3: "a < 3 \<Longrightarrow> at3 (make3 f) a = f a"
  by (auto simp: make3_def less_Suc_eq numeral_3_eq_3 numeral_2_eq_2)

lemma sint_scast_i16: "sint (scast (x :: i16) :: i32) = sint x"
  by (simp add: sint_up_scast is_up)

lemma shifted_accumulator:
  assumes "32 * (- (2 ^ 15)) \<le> sint acc" "sint acc \<le> 32 * (2 ^ 15 - 1)"
  shows "sint (clamp_i16 (signed_drop_bit 5 acc)) = sint acc div 32"
proof -
  have "- (2 ^ 15) \<le> sint acc div 32" using zdiv_mono1 [OF assms(1), of 32] by simp
  moreover have "sint acc div 32 \<le> 2 ^ 15 - 1" using zdiv_mono1 [OF assms(2), of 32] by simp
  moreover have "sint (signed_drop_bit 5 acc) = sint acc div 32"
    by (simp add: sint_signed_drop_bit_eq drop_bit_eq_div)
  ultimately show ?thesis unfolding clamp_i16_def by (subst sint_of_int_i16) simp_all
qed

lemma between_bounds:
  fixes p q m :: int
  assumes "0 \<le> m" "m \<le> 32" "- (2 ^ 15) \<le> p" "p \<le> 2 ^ 15 - 1" "- (2 ^ 15) \<le> q" "q \<le> 2 ^ 15 - 1"
  shows "32 * (- (2 ^ 15)) \<le> 32 * p + m * (q - p)" "32 * p + m * (q - p) \<le> 32 * (2 ^ 15 - 1)"
proof -
  have e: "32 * p + m * (q - p) = (32 - m) * p + m * q" by algebra
  have "(32 - m) * p \<le> (32 - m) * (2 ^ 15 - 1)" "m * q \<le> m * (2 ^ 15 - 1)"
    "(32 - m) * (- (2 ^ 15)) \<le> (32 - m) * p" "m * (- (2 ^ 15)) \<le> m * q"
    using assms by (intro mult_left_mono; simp)+
  then show "32 * (- (2 ^ 15)) \<le> 32 * p + m * (q - p)" "32 * p + m * (q - p) \<le> 32 * (2 ^ 15 - 1)"
    unfolding e by (simp_all add: algebra_simps)
qed

text \<open>
  A guidance segment is interpolated exactly: after any k ticks, up to the thirty-two of its second, the
  target of every axis is the start plus k thirty-seconds of the way to the end, rounded
  down, so the thirty-second tick is at the end itself, and no sum saturates on the way.
\<close>
lemma segment_interpolated:
  assumes "length inputs \<le> 32" "a < 3"
  shows "sint (at3 (rf_target (snd (rt_run (RtSegment p q r # rt_ticks inputs) s))) a)
    = sint (at3 p a) + int (length inputs) * (sint (at3 q a) - sint (at3 p a)) div 32"
proof -
  let ?p = "sint (at3 p a)" and ?q = "sint (at3 q a)"
  let ?run = "\<lambda>n. snd (rt_run (rt_ticks (take n inputs)) (set_guidance_segment p q r s))"
  note range = sint_i16_range [of "at3 p a"] sint_i16_range [of "at3 q a"]
  have delta: "sint (at3 (rf_target_delta_q5 (set_guidance_segment p q r s)) a) = ?q - ?p"
  proof -
    have "sint (scast (at3 q a) - scast (at3 p a) :: i32) = ?q - ?p"
      using range by (subst sint_i32_diff) (simp_all add: sint_scast_i16)
    then show ?thesis by (simp add: set_guidance_segment_def at3_make3 assms(2))
  qed
  have acc: "sint (at3 (rf_target_accumulator_q5 (?run n)) a) = 32 * ?p + int n * (?q - ?p)
      \<and> rf_target_delta_q5 (?run n) = rf_target_delta_q5 (set_guidance_segment p q r s)
      \<and> sint (at3 (rf_target (?run n)) a) = (32 * ?p + int n * (?q - ?p)) div 32"
    if "n \<le> length inputs" for n
    using that
  proof (induction n)
    case 0
    have "(scast (at3 p a) :: i32) = word_of_int ?p" by (simp flip: sint_scast_i16)
    then have e: "push_bit 5 (scast (at3 p a)) = (word_of_int (32 * ?p) :: i32)" by (simp add: push_bit_eq_mult)
    have "sint (push_bit 5 (scast (at3 p a)) :: i32) = 32 * ?p"
      unfolding e by (rule sint_of_int_i32) (use range in simp_all)
    then show ?case by (simp add: rt_ticks_def set_guidance_segment_def at3_make3 assms(2))
  next
    case (Suc n)
    obtain c b where in_n: "inputs ! n = (c, b)" by fastforce
    obtain e s' where t: "realtime_tick c b (?run n) = (e, s')" by fastforce
    have run: "?run (Suc n) = s'"
      using Suc.prems in_n t by (simp add: take_Suc_conv_app_nth rt_ticks_def rt_run_append case_prod_beta)
    note g = realtime_tick_guidance [OF t]
    have IH: "sint (at3 (rf_target_accumulator_q5 (?run n)) a) = 32 * ?p + int n * (?q - ?p)"
      "rf_target_delta_q5 (?run n) = rf_target_delta_q5 (set_guidance_segment p q r s)" using Suc by simp_all
    have step: "32 * ?p + int n * (?q - ?p) + (?q - ?p) = 32 * ?p + int (Suc n) * (?q - ?p)" by (simp add: algebra_simps)
    note b = between_bounds [of "int (Suc n)" ?p ?q]
    have bounds: "32 * (- (2 ^ 15)) \<le> 32 * ?p + int (Suc n) * (?q - ?p)" "32 * ?p + int (Suc n) * (?q - ?p) \<le> 32 * (2 ^ 15 - 1)"
      using b Suc.prems assms(1) range by simp_all
    have "sint (at3 (rf_target_accumulator_q5 s') a)
        = clamp_int (- (2 ^ 31)) (2 ^ 31 - 1) (32 * ?p + int (Suc n) * (?q - ?p))"
      by (simp only: g(1) at3_make3 [OF assms(2)] saturating_add_i32_def sint_sat_i32 IH delta step)
    also have "\<dots> = 32 * ?p + int (Suc n) * (?q - ?p)" using bounds by (intro clamp_int_id) simp_all
    finally have acc: "sint (at3 (rf_target_accumulator_q5 s') a) = 32 * ?p + int (Suc n) * (?q - ?p)" .
    have "sint (at3 (rf_target s') a) = (32 * ?p + int (Suc n) * (?q - ?p)) div 32"
      unfolding g(3) at3_make3 [OF assms(2)] using shifted_accumulator [of "at3 (rf_target_accumulator_q5 s') a"] bounds
      by (simp only: acc)
    then show ?case unfolding run using acc g(2) IH(2) by simp
  qed
  have "(32 * ?p + int (length inputs) * (?q - ?p)) div 32 = ?p + int (length inputs) * (?q - ?p) div 32"
    by (simp add: div_plus_div_distrib_dvd_left)
  then show ?thesis using acc [of "length inputs"] by (simp add: case_prod_beta)
qed

end
