(* ===== verification/Realtime_Guidance.thy ===== *)
theory Realtime_Guidance
  imports Realtime_Safety
begin

text \<open>
  The generated guidance table of the realtime flight computer
  (\<^verbatim>\<open>flight/src/generated/phase6_guidance_v1.rs\<close>) and its lookup
  (\<^verbatim>\<open>flight/src/phase6_realtime.rs\<close>), with the continuity of the steering target from one
  slice to the next.
\<close>

subsection \<open>The table\<close>

definition slice :: "i16 vec3 \<Rightarrow> i16 vec3 \<Rightarrow> i16 vec3 \<Rightarrow> RealtimeGuidanceSlice" where
  "slice start finish rate = \<lparr>gs_start = start, gs_end = finish, gs_rate = rate\<rparr>"

definition guidance_rows_1 :: "RealtimeGuidanceSlice list" where
  "guidance_rows_1 =
   [slice (0, - 8066, 0) (- 1, - 8067, 0) (0, - 1, 0),
    slice (- 1, - 8067, 0) (- 1, - 8068, 0) (0, - 1, 0),
    slice (- 1, - 8068, 0) (- 1, - 8068, 1) (0, - 1, 0),
    slice (- 1, - 8068, 1) (- 1, - 8069, 1) (0, - 1, 0),
    slice (- 1, - 8069, 1) (- 1, - 8069, 2) (0, - 1, 0),
    slice (- 1, - 8069, 2) (- 1, - 8070, 2) (0, - 1, 0),
    slice (- 1, - 8070, 2) (- 1, - 8070, 3) (0, - 1, 0),
    slice (- 1, - 8070, 3) (- 1, - 8071, 3) (0, - 1, 0),
    slice (- 1, - 8071, 3) (- 2, - 8071, 4) (0, - 1, 0),
    slice (- 2, - 8071, 4) (- 2, - 8072, 4) (0, - 1, 0),
    slice (- 2, - 8072, 4) (- 49, - 8275, 190) (0, - 53, 48),
    slice (- 49, - 8275, 190) (- 96, - 8478, 377) (0, - 53, 48),
    slice (- 96, - 8478, 377) (- 144, - 8681, 563) (0, - 53, 48),
    slice (- 144, - 8681, 563) (- 191, - 8883, 750) (0, - 53, 48),
    slice (- 191, - 8883, 750) (- 238, - 9085, 936) (0, - 53, 48),
    slice (- 238, - 9085, 936) (- 286, - 9286, 1123) (0, - 53, 48),
    slice (- 286, - 9286, 1123) (- 333, - 9487, 1310) (0, - 53, 48),
    slice (- 333, - 9487, 1310) (- 381, - 9687, 1497) (0, - 53, 48),
    slice (- 381, - 9687, 1497) (- 428, - 9886, 1684) (0, - 53, 48),
    slice (- 428, - 9886, 1684) (- 476, - 10084, 1870) (0, - 53, 48),
    slice (- 476, - 10084, 1870) (- 523, - 10282, 2057) (0, - 53, 48),
    slice (- 523, - 10282, 2057) (- 570, - 10479, 2243) (0, - 53, 48),
    slice (- 570, - 10479, 2243) (- 618, - 10675, 2429) (0, - 53, 48),
    slice (- 618, - 10675, 2429) (- 665, - 10870, 2615) (0, - 53, 48),
    slice (- 665, - 10870, 2615) (- 712, - 11065, 2801) (0, - 53, 48),
    slice (- 712, - 11065, 2801) (- 759, - 11258, 2986) (0, - 53, 48),
    slice (- 759, - 11258, 2986) (- 806, - 11450, 3170) (0, - 53, 48),
    slice (- 806, - 11450, 3170) (- 853, - 11641, 3355) (0, - 53, 48),
    slice (- 853, - 11641, 3355) (- 899, - 11831, 3539) (0, - 53, 48),
    slice (- 899, - 11831, 3539) (- 946, - 12020, 3722) (0, - 53, 48),
    slice (- 946, - 12020, 3722) (- 967, - 12106, 3805) (0, - 24, 21),
    slice (- 967, - 12106, 3805) (- 988, - 12191, 3889) (0, - 24, 21),
    slice (- 988, - 12191, 3889) (- 1009, - 12277, 3972) (0, - 24, 21),
    slice (- 1009, - 12277, 3972) (- 1030, - 12362, 4055) (0, - 24, 21),
    slice (- 1030, - 12362, 4055) (- 1052, - 12447, 4138) (0, - 24, 21),
    slice (- 1052, - 12447, 4138) (- 1073, - 12532, 4221) (0, - 24, 21),
    slice (- 1073, - 12532, 4221) (- 1094, - 12617, 4305) (0, - 24, 21),
    slice (- 1094, - 12617, 4305) (- 1115, - 12701, 4388) (0, - 24, 21),
    slice (- 1115, - 12701, 4388) (- 1136, - 12785, 4471) (0, - 24, 21),
    slice (- 1136, - 12785, 4471) (- 1157, - 12870, 4554) (0, - 24, 21),
    slice (- 1157, - 12870, 4554) (- 1178, - 12954, 4637) (0, - 24, 21),
    slice (- 1178, - 12954, 4637) (- 1199, - 13038, 4720) (0, - 24, 21),
    slice (- 1199, - 13038, 4720) (- 1220, - 13121, 4803) (0, - 24, 21),
    slice (- 1220, - 13121, 4803) (- 1241, - 13205, 4886) (0, - 24, 21),
    slice (- 1241, - 13205, 4886) (- 1262, - 13288, 4968) (0, - 24, 21),
    slice (- 1262, - 13288, 4968) (- 1283, - 13371, 5051) (0, - 24, 21),
    slice (- 1283, - 13371, 5051) (- 1304, - 13454, 5134) (0, - 24, 21),
    slice (- 1304, - 13454, 5134) (- 1325, - 13537, 5216) (0, - 24, 21),
    slice (- 1325, - 13537, 5216) (- 1346, - 13619, 5299) (0, - 24, 21),
    slice (- 1346, - 13619, 5299) (- 1367, - 13702, 5381) (0, - 24, 21),
    slice (- 1367, - 13702, 5381) (- 1388, - 13784, 5464) (0, - 24, 21),
    slice (- 1388, - 13784, 5464) (- 1409, - 13865, 5546) (0, - 24, 21),
    slice (- 1409, - 13865, 5546) (- 1430, - 13947, 5628) (0, - 24, 21),
    slice (- 1430, - 13947, 5628) (- 1451, - 14028, 5710) (0, - 24, 21),
    slice (- 1451, - 14028, 5710) (- 1472, - 14110, 5792) (0, - 24, 21),
    slice (- 1472, - 14110, 5792) (- 1492, - 14190, 5874) (0, - 24, 21),
    slice (- 1492, - 14190, 5874) (- 1513, - 14271, 5956) (0, - 24, 21),
    slice (- 1513, - 14271, 5956) (- 1534, - 14352, 6037) (0, - 24, 21),
    slice (- 1534, - 14352, 6037) (- 1555, - 14432, 6119) (0, - 24, 21),
    slice (- 1555, - 14432, 6119) (- 1575, - 14512, 6200) (0, - 24, 21),
    slice (- 1575, - 14512, 6200) (- 1596, - 14591, 6282) (0, - 24, 21),
    slice (- 1596, - 14591, 6282) (- 1617, - 14671, 6363) (0, - 24, 21),
    slice (- 1617, - 14671, 6363) (- 1637, - 14750, 6444) (0, - 24, 21),
    slice (- 1637, - 14750, 6444) (- 1658, - 14829, 6525) (0, - 24, 21),
    slice (- 1658, - 14829, 6525) (- 1678, - 14908, 6605) (0, - 24, 21),
    slice (- 1678, - 14908, 6605) (- 1699, - 14986, 6686) (0, - 24, 21),
    slice (- 1699, - 14986, 6686) (- 1719, - 15064, 6766) (0, - 24, 21),
    slice (- 1719, - 15064, 6766) (- 1739, - 15142, 6847) (0, - 24, 21),
    slice (- 1739, - 15142, 6847) (- 1760, - 15219, 6927) (0, - 24, 21),
    slice (- 1760, - 15219, 6927) (- 1780, - 15297, 7007) (0, - 24, 21),
    slice (- 1780, - 15297, 7007) (- 1791, - 15337, 7048) (0, - 13, 11),
    slice (- 1791, - 15337, 7048) (- 1801, - 15376, 7090) (0, - 13, 11),
    slice (- 1801, - 15376, 7090) (- 1812, - 15416, 7131) (0, - 13, 11),
    slice (- 1812, - 15416, 7131) (- 1822, - 15456, 7173) (0, - 13, 11),
    slice (- 1822, - 15456, 7173) (- 1833, - 15496, 7214) (0, - 13, 11),
    slice (- 1833, - 15496, 7214) (- 1843, - 15535, 7255) (0, - 13, 11),
    slice (- 1843, - 15535, 7255) (- 1854, - 15575, 7297) (0, - 13, 11),
    slice (- 1854, - 15575, 7297) (- 1864, - 15615, 7338) (0, - 13, 11),
    slice (- 1864, - 15615, 7338) (- 1875, - 15654, 7379) (0, - 13, 11),
    slice (- 1875, - 15654, 7379) (- 1885, - 15694, 7420) (0, - 13, 11),
    slice (- 1885, - 15694, 7420) (- 1896, - 15733, 7461) (0, - 13, 11),
    slice (- 1896, - 15733, 7461) (- 1906, - 15772, 7503) (0, - 13, 11),
    slice (- 1906, - 15772, 7503) (- 1917, - 15811, 7544) (0, - 13, 11),
    slice (- 1917, - 15811, 7544) (- 1927, - 15851, 7585) (0, - 13, 11),
    slice (- 1927, - 15851, 7585) (- 1937, - 15890, 7626) (0, - 13, 11),
    slice (- 1937, - 15890, 7626) (- 1948, - 15929, 7667) (0, - 13, 11),
    slice (- 1948, - 15929, 7667) (- 1958, - 15968, 7708) (0, - 13, 11),
    slice (- 1958, - 15968, 7708) (- 1969, - 16007, 7749) (0, - 13, 11),
    slice (- 1969, - 16007, 7749) (- 1979, - 16046, 7790) (0, - 13, 11),
    slice (- 1979, - 16046, 7790) (- 1989, - 16084, 7831) (0, - 13, 11),
    slice (- 1989, - 16084, 7831) (- 2000, - 16123, 7872) (0, - 13, 11),
    slice (- 2000, - 16123, 7872) (- 2010, - 16162, 7913) (0, - 13, 11),
    slice (- 2010, - 16162, 7913) (- 2021, - 16200, 7954) (0, - 13, 11),
    slice (- 2021, - 16200, 7954) (- 2031, - 16239, 7994) (0, - 13, 11),
    slice (- 2031, - 16239, 7994) (- 2041, - 16277, 8035) (0, - 13, 11),
    slice (- 2041, - 16277, 8035) (- 2052, - 16316, 8076) (0, - 13, 11),
    slice (- 2052, - 16316, 8076) (- 2062, - 16354, 8117) (0, - 13, 11),
    slice (- 2062, - 16354, 8117) (- 2072, - 16392, 8157) (0, - 13, 11),
    slice (- 2072, - 16392, 8157) (- 2083, - 16430, 8198) (0, - 13, 11),
    slice (- 2083, - 16430, 8198) (- 2093, - 16469, 8239) (0, - 13, 11),
    slice (- 2093, - 16469, 8239) (- 2103, - 16507, 8279) (0, - 13, 11),
    slice (- 2103, - 16507, 8279) (- 2114, - 16545, 8320) (0, - 13, 11),
    slice (- 2114, - 16545, 8320) (- 2124, - 16582, 8360) (0, - 13, 11),
    slice (- 2124, - 16582, 8360) (- 2134, - 16620, 8401) (0, - 13, 11),
    slice (- 2134, - 16620, 8401) (- 2144, - 16658, 8441) (0, - 13, 11),
    slice (- 2144, - 16658, 8441) (- 2155, - 16696, 8481) (0, - 13, 11),
    slice (- 2155, - 16696, 8481) (- 2165, - 16733, 8522) (0, - 13, 11),
    slice (- 2165, - 16733, 8522) (- 2175, - 16771, 8562) (0, - 13, 11),
    slice (- 2175, - 16771, 8562) (- 2185, - 16808, 8602) (0, - 13, 11),
    slice (- 2185, - 16808, 8602) (- 2196, - 16846, 8642) (0, - 13, 11),
    slice (- 2196, - 16846, 8642) (- 2206, - 16883, 8683) (0, - 13, 11),
    slice (- 2206, - 16883, 8683) (- 2216, - 16920, 8723) (0, - 13, 11),
    slice (- 2216, - 16920, 8723) (- 2226, - 16957, 8763) (0, - 13, 11),
    slice (- 2226, - 16957, 8763) (- 2236, - 16994, 8803) (0, - 13, 11),
    slice (- 2236, - 16994, 8803) (- 2246, - 17031, 8843) (0, - 13, 11),
    slice (- 2246, - 17031, 8843) (- 2257, - 17068, 8883) (0, - 13, 11),
    slice (- 2257, - 17068, 8883) (- 2267, - 17105, 8923) (0, - 13, 11),
    slice (- 2267, - 17105, 8923) (- 2277, - 17142, 8963) (0, - 13, 11),
    slice (- 2277, - 17142, 8963) (- 2287, - 17179, 9002) (0, - 13, 11),
    slice (- 2287, - 17179, 9002) (- 2297, - 17215, 9042) (0, - 13, 11),
    slice (- 2297, - 17215, 9042) (- 2330, - 17334, 9172) (0, - 41, 37),
    slice (- 2330, - 17334, 9172) (- 2363, - 17453, 9302) (0, - 41, 37),
    slice (- 2363, - 17453, 9302) (- 2396, - 17571, 9431) (0, - 41, 37),
    slice (- 2396, - 17571, 9431) (- 2429, - 17688, 9560) (0, - 41, 37),
    slice (- 2429, - 17688, 9560) (- 2461, - 17805, 9689) (0, - 41, 37),
    slice (- 2461, - 17805, 9689) (- 2494, - 17921, 9818) (0, - 41, 37),
    slice (- 2494, - 17921, 9818) (- 2527, - 18036, 9946) (0, - 41, 37),
    slice (- 2527, - 18036, 9946) (- 2559, - 18151, 10074) (0, - 41, 37),
    slice (- 2559, - 18151, 10074) (- 2591, - 18265, 10201) (0, - 41, 37),
    slice (- 2591, - 18265, 10201) (- 2624, - 18378, 10328) (0, - 41, 37),
    slice (- 2624, - 18378, 10328) (- 2656, - 18490, 10455) (0, - 41, 37),
    slice (- 2656, - 18490, 10455) (- 2688, - 18602, 10582) (0, - 41, 37),
    slice (- 2688, - 18602, 10582) (- 2720, - 18713, 10708) (0, - 41, 37)]"

definition guidance_rows_2 :: "RealtimeGuidanceSlice list" where
  "guidance_rows_2 =
   [slice (- 2720, - 18713, 10708) (- 2752, - 18823, 10833) (0, - 41, 37),
    slice (- 2752, - 18823, 10833) (- 2784, - 18932, 10958) (0, - 41, 37),
    slice (- 2784, - 18932, 10958) (- 2815, - 19040, 11083) (0, - 41, 37),
    slice (- 2815, - 19040, 11083) (- 2847, - 19147, 11207) (0, - 41, 37),
    slice (- 2847, - 19147, 11207) (- 2878, - 19254, 11330) (0, - 41, 37),
    slice (- 2878, - 19254, 11330) (- 2909, - 19360, 11454) (0, - 41, 37),
    slice (- 2909, - 19360, 11454) (- 2941, - 19464, 11576) (0, - 41, 37),
    slice (- 2941, - 19464, 11576) (- 2972, - 19568, 11698) (0, - 41, 37),
    slice (- 2972, - 19568, 11698) (- 3002, - 19671, 11819) (0, - 41, 37),
    slice (- 3002, - 19671, 11819) (- 3033, - 19773, 11940) (0, - 41, 37),
    slice (- 3033, - 19773, 11940) (- 3064, - 19874, 12060) (0, - 41, 37),
    slice (- 3064, - 19874, 12060) (- 3094, - 19974, 12180) (0, - 41, 37),
    slice (- 3094, - 19974, 12180) (- 3124, - 20073, 12299) (0, - 41, 37),
    slice (- 3124, - 20073, 12299) (- 3154, - 20171, 12417) (0, - 41, 37),
    slice (- 3154, - 20171, 12417) (- 3184, - 20268, 12535) (0, - 41, 37),
    slice (- 3184, - 20268, 12535) (- 3214, - 20364, 12652) (0, - 41, 37),
    slice (- 3214, - 20364, 12652) (- 3243, - 20459, 12768) (0, - 41, 37),
    slice (- 3243, - 20459, 12768) (- 3273, - 20553, 12883) (0, - 41, 37),
    slice (- 3273, - 20553, 12883) (- 3302, - 20646, 12998) (0, - 41, 37),
    slice (- 3302, - 20646, 12998) (- 3331, - 20738, 13112) (0, - 41, 37),
    slice (- 3331, - 20738, 13112) (- 3359, - 20829, 13225) (0, - 41, 37),
    slice (- 3359, - 20829, 13225) (- 3388, - 20918, 13338) (0, - 41, 37),
    slice (- 3388, - 20918, 13338) (- 3397, - 20946, 13373) (0, - 13, 11),
    slice (- 3397, - 20946, 13373) (- 3406, - 20974, 13408) (0, - 13, 11),
    slice (- 3406, - 20974, 13408) (- 3415, - 21001, 13442) (0, - 13, 11),
    slice (- 3415, - 21001, 13442) (- 3423, - 21029, 13477) (0, - 13, 11),
    slice (- 3423, - 21029, 13477) (- 3432, - 21056, 13512) (0, - 13, 11),
    slice (- 3432, - 21056, 13512) (- 3441, - 21083, 13546) (0, - 13, 11),
    slice (- 3441, - 21083, 13546) (- 3450, - 21110, 13581) (0, - 13, 11),
    slice (- 3450, - 21110, 13581) (- 3458, - 21137, 13615) (0, - 13, 11),
    slice (- 3458, - 21137, 13615) (- 3467, - 21164, 13650) (0, - 13, 11),
    slice (- 3467, - 21164, 13650) (- 3476, - 21191, 13684) (0, - 13, 11),
    slice (- 3476, - 21191, 13684) (- 3485, - 21218, 13718) (0, - 13, 11),
    slice (- 3485, - 21218, 13718) (- 3493, - 21245, 13753) (0, - 13, 11),
    slice (- 3493, - 21245, 13753) (- 3502, - 21272, 13787) (0, - 13, 11),
    slice (- 3502, - 21272, 13787) (- 3511, - 21298, 13821) (0, - 13, 11),
    slice (- 3511, - 21298, 13821) (- 3519, - 21325, 13855) (0, - 13, 11),
    slice (- 3519, - 21325, 13855) (- 3528, - 21351, 13889) (0, - 13, 11),
    slice (- 3528, - 21351, 13889) (- 3537, - 21377, 13923) (0, - 13, 11),
    slice (- 3537, - 21377, 13923) (- 3545, - 21403, 13957) (0, - 13, 11),
    slice (- 3545, - 21403, 13957) (- 3554, - 21430, 13991) (0, - 13, 11),
    slice (- 3554, - 21430, 13991) (- 3562, - 21456, 14025) (0, - 13, 11),
    slice (- 3562, - 21456, 14025) (- 3571, - 21482, 14058) (0, - 13, 11),
    slice (- 3571, - 21482, 14058) (- 3580, - 21507, 14092) (0, - 13, 11),
    slice (- 3580, - 21507, 14092) (- 3588, - 21533, 14126) (0, - 13, 11),
    slice (- 3588, - 21533, 14126) (- 3597, - 21559, 14159) (0, - 13, 11),
    slice (- 3597, - 21559, 14159) (- 3605, - 21584, 14193) (0, - 13, 11),
    slice (- 3605, - 21584, 14193) (- 3614, - 21610, 14226) (0, - 13, 11),
    slice (- 3614, - 21610, 14226) (- 3622, - 21635, 14260) (0, - 13, 11),
    slice (- 3622, - 21635, 14260) (- 3631, - 21661, 14293) (0, - 13, 11),
    slice (- 3631, - 21661, 14293) (- 3639, - 21686, 14327) (0, - 13, 11),
    slice (- 3639, - 21686, 14327) (- 3648, - 21711, 14360) (0, - 13, 11),
    slice (- 3648, - 21711, 14360) (- 3656, - 21736, 14393) (0, - 13, 11),
    slice (- 3656, - 21736, 14393) (- 3664, - 21761, 14426) (0, - 13, 11),
    slice (- 3664, - 21761, 14426) (- 3673, - 21786, 14459) (0, - 13, 11),
    slice (- 3673, - 21786, 14459) (- 3681, - 21810, 14492) (0, - 13, 11),
    slice (- 3681, - 21810, 14492) (- 3689, - 21835, 14525) (0, - 13, 11),
    slice (- 3689, - 21835, 14525) (- 3698, - 21859, 14558) (0, - 13, 11),
    slice (- 3698, - 21859, 14558) (- 3706, - 21884, 14591) (0, - 13, 11),
    slice (- 3706, - 21884, 14591) (- 3714, - 21908, 14623) (0, - 13, 11),
    slice (- 3714, - 21908, 14623) (- 3723, - 21932, 14656) (0, - 13, 11),
    slice (- 3723, - 21932, 14656) (- 3731, - 21957, 14689) (0, - 13, 11),
    slice (- 3731, - 21957, 14689) (- 3739, - 21981, 14721) (0, - 13, 11),
    slice (- 3739, - 21981, 14721) (- 3748, - 22005, 14754) (0, - 13, 11),
    slice (- 3748, - 22005, 14754) (- 3756, - 22028, 14786) (0, - 13, 11),
    slice (- 3756, - 22028, 14786) (- 3764, - 22052, 14818) (0, - 13, 11),
    slice (- 3764, - 22052, 14818) (- 3772, - 22076, 14851) (0, - 13, 11),
    slice (- 3772, - 22076, 14851) (- 3780, - 22099, 14883) (0, - 13, 11),
    slice (- 3780, - 22099, 14883) (- 3789, - 22123, 14915) (0, - 13, 11),
    slice (- 3789, - 22123, 14915) (- 3797, - 22146, 14947) (0, - 13, 11),
    slice (- 3797, - 22146, 14947) (- 3805, - 22170, 14979) (0, - 13, 11),
    slice (- 3805, - 22170, 14979) (- 3813, - 22193, 15011) (0, - 13, 11),
    slice (- 3813, - 22193, 15011) (- 3821, - 22216, 15043) (0, - 13, 11),
    slice (- 3821, - 22216, 15043) (- 3829, - 22239, 15074) (0, - 13, 11),
    slice (- 3829, - 22239, 15074) (- 3837, - 22262, 15106) (0, - 13, 11),
    slice (- 3837, - 22262, 15106) (- 3845, - 22284, 15138) (0, - 13, 11),
    slice (- 3845, - 22284, 15138) (- 3853, - 22307, 15169) (0, - 13, 11),
    slice (- 3853, - 22307, 15169) (- 3861, - 22329, 15201) (0, - 13, 11),
    slice (- 3861, - 22329, 15201) (- 3869, - 22352, 15232) (0, - 13, 11),
    slice (- 3869, - 22352, 15232) (- 3877, - 22374, 15263) (0, - 13, 11),
    slice (- 3877, - 22374, 15263) (- 3885, - 22397, 15295) (0, - 13, 11),
    slice (- 3885, - 22397, 15295) (- 3893, - 22419, 15326) (0, - 13, 11),
    slice (- 3893, - 22419, 15326) (- 3901, - 22441, 15357) (0, - 13, 11),
    slice (- 3901, - 22441, 15357) (- 3909, - 22463, 15388) (0, - 13, 11),
    slice (- 3909, - 22463, 15388) (- 3917, - 22485, 15419) (0, - 13, 11),
    slice (- 3917, - 22485, 15419) (- 3924, - 22506, 15450) (0, - 13, 11),
    slice (- 3924, - 22506, 15450) (- 3932, - 22528, 15481) (0, - 13, 11),
    slice (- 3932, - 22528, 15481) (- 3934, - 22531, 15486) (0, - 3, 1),
    slice (- 3934, - 22531, 15486) (- 3935, - 22535, 15491) (0, - 3, 1),
    slice (- 3935, - 22535, 15491) (- 3936, - 22539, 15496) (0, - 3, 1),
    slice (- 3936, - 22539, 15496) (- 3937, - 22542, 15501) (0, - 3, 1),
    slice (- 3937, - 22542, 15501) (- 3939, - 22546, 15506) (0, - 3, 1),
    slice (- 3939, - 22546, 15506) (- 3940, - 22549, 15511) (0, - 3, 1),
    slice (- 3940, - 22549, 15511) (- 3941, - 22553, 15516) (0, - 3, 1),
    slice (- 3941, - 22553, 15516) (- 3943, - 22556, 15522) (0, - 3, 1),
    slice (- 3943, - 22556, 15522) (- 3944, - 22560, 15527) (0, - 3, 1),
    slice (- 3944, - 22560, 15527) (- 3945, - 22564, 15532) (0, - 3, 1),
    slice (- 3945, - 22564, 15532) (- 3946, - 22567, 15537) (0, - 3, 1),
    slice (- 3946, - 22567, 15537) (- 3948, - 22571, 15542) (0, - 3, 1),
    slice (- 3948, - 22571, 15542) (- 3949, - 22574, 15547) (0, - 3, 1),
    slice (- 3949, - 22574, 15547) (- 3950, - 22578, 15552) (0, - 3, 1),
    slice (- 3950, - 22578, 15552) (- 3952, - 22581, 15557) (0, - 3, 1),
    slice (- 3952, - 22581, 15557) (- 3953, - 22585, 15562) (0, - 3, 1),
    slice (- 3953, - 22585, 15562) (- 3954, - 22588, 15567) (0, - 3, 1),
    slice (- 3954, - 22588, 15567) (- 3956, - 22592, 15572) (0, - 3, 1),
    slice (- 3956, - 22592, 15572) (- 3957, - 22595, 15577) (0, - 3, 1),
    slice (- 3957, - 22595, 15577) (- 3958, - 22599, 15583) (0, - 3, 1),
    slice (- 3958, - 22599, 15583) (- 3959, - 22603, 15588) (0, - 3, 1),
    slice (- 3959, - 22603, 15588) (- 3961, - 22606, 15593) (0, - 3, 1),
    slice (- 3961, - 22606, 15593) (- 3962, - 22610, 15598) (0, - 3, 1),
    slice (- 3962, - 22610, 15598) (- 3963, - 22613, 15603) (0, - 3, 1),
    slice (- 3963, - 22613, 15603) (- 3965, - 22617, 15608) (0, - 3, 1),
    slice (- 3965, - 22617, 15608) (- 3966, - 22620, 15613) (0, - 3, 1),
    slice (- 3966, - 22620, 15613) (- 3967, - 22624, 15618) (0, - 3, 1),
    slice (- 3967, - 22624, 15618) (- 3968, - 22627, 15623) (0, - 3, 1),
    slice (- 3968, - 22627, 15623) (- 3970, - 22631, 15628) (0, - 3, 1),
    slice (- 3970, - 22631, 15628) (- 3971, - 22634, 15633) (0, - 3, 1),
    slice (- 3971, - 22634, 15633) (- 3972, - 22638, 15638) (0, - 3, 1),
    slice (- 3972, - 22638, 15638) (- 3974, - 22641, 15643) (0, - 3, 1),
    slice (- 3974, - 22641, 15643) (- 3975, - 22645, 15648) (0, - 3, 1),
    slice (- 3975, - 22645, 15648) (- 3976, - 22648, 15653) (0, - 3, 1),
    slice (- 3976, - 22648, 15653) (- 3977, - 22652, 15658) (0, - 3, 1),
    slice (- 3977, - 22652, 15658) (- 3979, - 22655, 15663) (0, - 3, 1),
    slice (- 3979, - 22655, 15663) (- 3980, - 22659, 15669) (0, - 3, 1),
    slice (- 3980, - 22659, 15669) (- 3981, - 22662, 15674) (0, - 3, 1),
    slice (- 3981, - 22662, 15674) (- 3982, - 22666, 15679) (0, - 3, 1),
    slice (- 3982, - 22666, 15679) (- 3984, - 22669, 15684) (0, - 3, 1),
    slice (- 3984, - 22669, 15684) (- 3985, - 22672, 15689) (0, - 3, 1),
    slice (- 3985, - 22672, 15689) (- 3986, - 22676, 15694) (0, - 3, 1),
    slice (- 3986, - 22676, 15694) (- 3988, - 22679, 15699) (0, - 3, 1),
    slice (- 3988, - 22679, 15699) (- 3989, - 22683, 15704) (0, - 3, 1),
    slice (- 3989, - 22683, 15704) (- 3990, - 22686, 15709) (0, - 3, 1),
    slice (- 3990, - 22686, 15709) (- 3991, - 22690, 15714) (0, - 3, 1)]"

definition guidance_rows_3 :: "RealtimeGuidanceSlice list" where
  "guidance_rows_3 =
   [slice (- 3991, - 22690, 15714) (- 3993, - 22693, 15719) (0, - 3, 1),
    slice (- 3993, - 22693, 15719) (- 3994, - 22697, 15724) (0, - 3, 1),
    slice (- 3994, - 22697, 15724) (- 3995, - 22700, 15729) (0, - 3, 1),
    slice (- 3995, - 22700, 15729) (- 3997, - 22704, 15734) (0, - 3, 1),
    slice (- 3997, - 22704, 15734) (- 3998, - 22707, 15739) (0, - 3, 1),
    slice (- 3998, - 22707, 15739) (- 3999, - 22711, 15744) (0, - 3, 1),
    slice (- 3999, - 22711, 15744) (- 4000, - 22714, 15749) (0, - 3, 1),
    slice (- 4000, - 22714, 15749) (- 4002, - 22717, 15754) (0, - 3, 1),
    slice (- 4002, - 22717, 15754) (- 4003, - 22721, 15759) (0, - 3, 1),
    slice (- 4003, - 22721, 15759) (- 4004, - 22724, 15764) (0, - 3, 1),
    slice (- 4004, - 22724, 15764) (- 4005, - 22728, 15769) (0, - 3, 1),
    slice (- 4005, - 22728, 15769) (- 4007, - 22731, 15774) (0, - 3, 1),
    slice (- 4007, - 22731, 15774) (- 4008, - 22735, 15779) (0, - 3, 1),
    slice (- 4008, - 22735, 15779) (- 4009, - 22738, 15784) (0, - 3, 1),
    slice (- 4009, - 22738, 15784) (- 4011, - 22741, 15789) (0, - 3, 1),
    slice (- 4011, - 22741, 15789) (- 4012, - 22745, 15794) (0, - 3, 1),
    slice (- 4012, - 22745, 15794) (- 4013, - 22748, 15799) (0, - 3, 1),
    slice (- 4013, - 22748, 15799) (- 4014, - 22752, 15804) (0, - 3, 1),
    slice (- 4014, - 22752, 15804) (- 4016, - 22755, 15809) (0, - 3, 1),
    slice (- 4016, - 22755, 15809) (- 4017, - 22758, 15814) (0, - 3, 1),
    slice (- 4017, - 22758, 15814) (- 4018, - 22762, 15819) (0, - 3, 1),
    slice (- 4018, - 22762, 15819) (- 4019, - 22765, 15824) (0, - 3, 1),
    slice (- 4019, - 22765, 15824) (- 4021, - 22769, 15829) (0, - 3, 1),
    slice (- 4021, - 22769, 15829) (- 4022, - 22772, 15834) (0, - 3, 1),
    slice (- 4022, - 22772, 15834) (- 4023, - 22775, 15839) (0, - 3, 1),
    slice (- 4023, - 22775, 15839) (- 4024, - 22779, 15844) (0, - 3, 1),
    slice (- 4024, - 22779, 15844) (- 4026, - 22782, 15849) (0, - 3, 1),
    slice (- 4026, - 22782, 15849) (- 4027, - 22786, 15854) (0, - 3, 1),
    slice (- 4027, - 22786, 15854) (- 4028, - 22789, 15859) (0, - 3, 1),
    slice (- 4028, - 22789, 15859) (- 4030, - 22792, 15864) (0, - 3, 1),
    slice (- 4030, - 22792, 15864) (- 4031, - 22796, 15869) (0, - 3, 1),
    slice (- 4031, - 22796, 15869) (- 4032, - 22799, 15874) (0, - 3, 1),
    slice (- 4032, - 22799, 15874) (- 4033, - 22803, 15879) (0, - 3, 1),
    slice (- 4033, - 22803, 15879) (- 4035, - 22806, 15884) (0, - 3, 1),
    slice (- 4035, - 22806, 15884) (- 4036, - 22809, 15889) (0, - 3, 1),
    slice (- 4036, - 22809, 15889) (- 4037, - 22813, 15894) (0, - 3, 1),
    slice (- 4037, - 22813, 15894) (- 4038, - 22816, 15899) (0, - 3, 1),
    slice (- 4038, - 22816, 15899) (- 4040, - 22819, 15903) (0, - 3, 1),
    slice (- 4040, - 22819, 15903) (- 4041, - 22823, 15908) (0, - 3, 1),
    slice (- 4041, - 22823, 15908) (- 4042, - 22826, 15913) (0, - 3, 1),
    slice (- 4042, - 22826, 15913) (- 4043, - 22829, 15918) (0, - 3, 1),
    slice (- 4043, - 22829, 15918) (- 4045, - 22833, 15923) (0, - 3, 1),
    slice (- 4045, - 22833, 15923) (- 4046, - 22836, 15928) (0, - 3, 1),
    slice (- 4046, - 22836, 15928) (- 4047, - 22839, 15933) (0, - 3, 1),
    slice (- 4047, - 22839, 15933) (- 4048, - 22843, 15938) (0, - 3, 1),
    slice (- 4048, - 22843, 15938) (- 4050, - 22846, 15943) (0, - 3, 1),
    slice (- 4050, - 22846, 15943) (- 4051, - 22849, 15948) (0, - 3, 1),
    slice (- 4051, - 22849, 15948) (- 4052, - 22853, 15953) (0, - 3, 1),
    slice (- 4052, - 22853, 15953) (- 4053, - 22856, 15958) (0, - 3, 1),
    slice (- 4053, - 22856, 15958) (- 4055, - 22859, 15963) (0, - 3, 1),
    slice (- 4055, - 22859, 15963) (- 4056, - 22863, 15968) (0, - 3, 1),
    slice (- 4056, - 22863, 15968) (- 4057, - 22866, 15973) (0, - 3, 1),
    slice (- 4057, - 22866, 15973) (- 4058, - 22869, 15978) (0, - 3, 1),
    slice (- 4058, - 22869, 15978) (- 4060, - 22873, 15982) (0, - 3, 1),
    slice (- 4060, - 22873, 15982) (- 4061, - 22876, 15987) (0, - 3, 1),
    slice (- 4061, - 22876, 15987) (- 4062, - 22879, 15992) (0, - 3, 1),
    slice (- 4062, - 22879, 15992) (- 4063, - 22883, 15997) (0, - 3, 1),
    slice (- 4063, - 22883, 15997) (- 4065, - 22886, 16002) (0, - 3, 1),
    slice (- 4065, - 22886, 16002) (- 4066, - 22889, 16007) (0, - 3, 1),
    slice (- 4066, - 22889, 16007) (- 4067, - 22893, 16012) (0, - 3, 1),
    slice (- 4067, - 22893, 16012) (- 4068, - 22896, 16017) (0, - 3, 1),
    slice (- 4068, - 22896, 16017) (- 4070, - 22899, 16022) (0, - 3, 1),
    slice (- 4070, - 22899, 16022) (- 4071, - 22902, 16027) (0, - 3, 1),
    slice (- 4071, - 22902, 16027) (- 4072, - 22906, 16032) (0, - 3, 1),
    slice (- 4072, - 22906, 16032) (- 4073, - 22909, 16037) (0, - 3, 1),
    slice (- 4073, - 22909, 16037) (- 4075, - 22912, 16041) (0, - 3, 1),
    slice (- 4075, - 22912, 16041) (- 4076, - 22916, 16046) (0, - 3, 1),
    slice (- 4076, - 22916, 16046) (- 4077, - 22919, 16051) (0, - 3, 1),
    slice (- 4077, - 22919, 16051) (- 4078, - 22922, 16056) (0, - 3, 1),
    slice (- 4078, - 22922, 16056) (- 4080, - 22925, 16061) (0, - 3, 1),
    slice (- 4080, - 22925, 16061) (- 4081, - 22929, 16066) (0, - 3, 1),
    slice (- 4081, - 22929, 16066) (- 4082, - 22932, 16071) (0, - 3, 1),
    slice (- 4082, - 22932, 16071) (- 4083, - 22935, 16076) (0, - 3, 1),
    slice (- 4083, - 22935, 16076) (- 4085, - 22938, 16081) (0, - 3, 1),
    slice (- 4085, - 22938, 16081) (- 4086, - 22942, 16085) (0, - 3, 1),
    slice (- 4086, - 22942, 16085) (- 4087, - 22945, 16090) (0, - 3, 1),
    slice (- 4087, - 22945, 16090) (- 4088, - 22948, 16095) (0, - 3, 1),
    slice (- 4088, - 22948, 16095) (- 4090, - 22951, 16100) (0, - 3, 1),
    slice (- 4090, - 22951, 16100) (- 4091, - 22955, 16105) (0, - 3, 1),
    slice (- 4091, - 22955, 16105) (- 4092, - 22958, 16110) (0, - 3, 1),
    slice (- 4092, - 22958, 16110) (- 4093, - 22961, 16115) (0, - 3, 1),
    slice (- 4093, - 22961, 16115) (- 4094, - 22964, 16120) (0, - 3, 1),
    slice (- 4094, - 22964, 16120) (- 4096, - 22968, 16124) (0, - 3, 1),
    slice (- 4096, - 22968, 16124) (- 4097, - 22971, 16129) (0, - 3, 1),
    slice (- 4097, - 22971, 16129) (- 4098, - 22974, 16134) (0, - 3, 1),
    slice (- 4098, - 22974, 16134) (- 4099, - 22977, 16139) (0, - 3, 1),
    slice (- 4099, - 22977, 16139) (- 4101, - 22981, 16144) (0, - 3, 1),
    slice (- 4101, - 22981, 16144) (- 4102, - 22984, 16149) (0, - 3, 1),
    slice (- 4102, - 22984, 16149) (- 4103, - 22987, 16154) (0, - 3, 1),
    slice (- 4103, - 22987, 16154) (- 4104, - 22990, 16159) (0, - 3, 1),
    slice (- 4104, - 22990, 16159) (- 4106, - 22993, 16163) (0, - 3, 1),
    slice (- 4106, - 22993, 16163) (- 4107, - 22997, 16168) (0, - 3, 1),
    slice (- 4107, - 22997, 16168) (- 4108, - 23000, 16173) (0, - 3, 1),
    slice (- 4108, - 23000, 16173) (- 4109, - 23003, 16178) (0, - 3, 1),
    slice (- 4109, - 23003, 16178) (- 4111, - 23006, 16183) (0, - 3, 1),
    slice (- 4111, - 23006, 16183) (- 4112, - 23009, 16188) (0, - 3, 1),
    slice (- 4112, - 23009, 16188) (- 4113, - 23013, 16192) (0, - 3, 1),
    slice (- 4113, - 23013, 16192) (- 4114, - 23016, 16197) (0, - 3, 1),
    slice (- 4114, - 23016, 16197) (- 4115, - 23019, 16202) (0, - 3, 1),
    slice (- 4115, - 23019, 16202) (- 4117, - 23022, 16207) (0, - 3, 1),
    slice (- 4117, - 23022, 16207) (- 4118, - 23025, 16212) (0, - 3, 1),
    slice (- 4118, - 23025, 16212) (- 4119, - 23029, 16217) (0, - 3, 1),
    slice (- 4119, - 23029, 16217) (- 4120, - 23032, 16221) (0, - 3, 1),
    slice (- 4120, - 23032, 16221) (- 4122, - 23035, 16226) (0, - 3, 1),
    slice (- 4122, - 23035, 16226) (- 4123, - 23038, 16231) (0, - 3, 1),
    slice (- 4123, - 23038, 16231) (- 4124, - 23041, 16236) (0, - 3, 1),
    slice (- 4124, - 23041, 16236) (- 4125, - 23044, 16241) (0, - 3, 1),
    slice (- 4125, - 23044, 16241) (- 4126, - 23048, 16246) (0, - 3, 1),
    slice (- 4126, - 23048, 16246) (- 4128, - 23051, 16250) (0, - 3, 1),
    slice (- 4128, - 23051, 16250) (- 4129, - 23054, 16255) (0, - 3, 1),
    slice (- 4129, - 23054, 16255) (- 4130, - 23057, 16260) (0, - 3, 1),
    slice (- 4130, - 23057, 16260) (- 4131, - 23060, 16265) (0, - 3, 1),
    slice (- 4131, - 23060, 16265) (- 4133, - 23063, 16270) (0, - 3, 1),
    slice (- 4133, - 23063, 16270) (- 4134, - 23067, 16274) (0, - 3, 1),
    slice (- 4134, - 23067, 16274) (- 4135, - 23070, 16279) (0, - 3, 1),
    slice (- 4135, - 23070, 16279) (- 4136, - 23073, 16284) (0, - 3, 1),
    slice (- 4136, - 23073, 16284) (- 4137, - 23076, 16289) (0, - 3, 1),
    slice (- 4137, - 23076, 16289) (- 4139, - 23079, 16294) (0, - 3, 1),
    slice (- 4139, - 23079, 16294) (- 4140, - 23082, 16298) (0, - 3, 1),
    slice (- 4140, - 23082, 16298) (- 4141, - 23085, 16303) (0, - 3, 1),
    slice (- 4141, - 23085, 16303) (- 4142, - 23088, 16308) (0, - 3, 1),
    slice (- 4142, - 23088, 16308) (- 4144, - 23092, 16313) (0, - 3, 1),
    slice (- 4144, - 23092, 16313) (- 4145, - 23095, 16318) (0, - 3, 1),
    slice (- 4145, - 23095, 16318) (- 4146, - 23098, 16322) (0, - 3, 1),
    slice (- 4146, - 23098, 16322) (- 4147, - 23101, 16327) (0, - 3, 1),
    slice (- 4147, - 23101, 16327) (- 4148, - 23104, 16332) (0, - 3, 1),
    slice (- 4148, - 23104, 16332) (- 4150, - 23107, 16337) (0, - 3, 1),
    slice (- 4150, - 23107, 16337) (- 4151, - 23110, 16342) (0, - 3, 1),
    slice (- 4151, - 23110, 16342) (- 4152, - 23113, 16346) (0, - 3, 1),
    slice (- 4152, - 23113, 16346) (- 4153, - 23117, 16351) (0, - 3, 1),
    slice (- 4153, - 23117, 16351) (- 4154, - 23120, 16356) (0, - 3, 1),
    slice (- 4154, - 23120, 16356) (- 4156, - 23123, 16361) (0, - 3, 1)]"

definition REALTIME_GUIDANCE_SLICES :: "RealtimeGuidanceSlice list" where
  "REALTIME_GUIDANCE_SLICES = guidance_rows_1 @ guidance_rows_2 @ guidance_rows_3"

definition guidance_slice :: "u16 \<Rightarrow> RealtimeGuidanceSlice" where
  "guidance_slice second =
     (let slices = REALTIME_GUIDANCE_SLICES
      in if slices = [] then slice (0, 0, 0) (0, 0, 0) (0, 0, 0)
         else slices ! min (unat second) (length slices - 1))"

subsection \<open>Continuity\<close>

definition joins :: "RealtimeGuidanceSlice \<Rightarrow> RealtimeGuidanceSlice \<Rightarrow> bool" where
  "joins a b \<longleftrightarrow> gs_end a = gs_start b"

lemma joins_slice [simp]: "joins (slice p q r) (slice p' q' r') \<longleftrightarrow> q = p'"
  by (simp add: joins_def slice_def)

lemma guidance_rows_joined:
  "successively joins guidance_rows_1" "successively joins guidance_rows_2" "successively joins guidance_rows_3"
  by (simp_all only: guidance_rows_1_def guidance_rows_2_def guidance_rows_3_def successively.simps joins_slice simp_thms)

lemma guidance_rows_ends:
  "hd guidance_rows_2 = slice (- 2720, - 18713, 10708) (- 2752, - 18823, 10833) (0, - 41, 37)" "last guidance_rows_1 = slice (- 2688, - 18602, 10582) (- 2720, - 18713, 10708) (0, - 41, 37)"
  "hd guidance_rows_3 = slice (- 3991, - 22690, 15714) (- 3993, - 22693, 15719) (0, - 3, 1)" "last guidance_rows_2 = slice (- 3990, - 22686, 15709) (- 3991, - 22690, 15714) (0, - 3, 1)"
  by (simp_all only: guidance_rows_1_def guidance_rows_2_def guidance_rows_3_def last.simps list.sel list.distinct if_False if_True simp_thms)

lemma guidance_rows_length:
  "length guidance_rows_1 = 133" "length guidance_rows_2 = 133" "length guidance_rows_3 = 132"
  by (simp_all add: guidance_rows_1_def guidance_rows_2_def guidance_rows_3_def)

lemma guidance_length: "length REALTIME_GUIDANCE_SLICES = 398"
  by (simp add: REALTIME_GUIDANCE_SLICES_def guidance_rows_length)

lemma guidance_joined: "successively joins REALTIME_GUIDANCE_SLICES"
proof -
  have ne: "guidance_rows_2 \<noteq> []" "guidance_rows_3 \<noteq> []" using guidance_rows_length by auto
  show ?thesis
    unfolding REALTIME_GUIDANCE_SLICES_def successively_append_iff
    using guidance_rows_joined guidance_rows_ends ne by (simp add: hd_append)
qed

lemma guidance_slice_joined:
  assumes "unat second < 397"
  shows "gs_end (guidance_slice second) = gs_start (guidance_slice (second + 1))"
proof -
  have "unat (second + 1) = Suc (unat second)" using assms by (simp add: unat_word_ariths)
  moreover have "joins (REALTIME_GUIDANCE_SLICES ! unat second) (REALTIME_GUIDANCE_SLICES ! Suc (unat second))"
    using guidance_joined assms by (simp add: successively_conv_nth guidance_length)
  ultimately show ?thesis
    using assms guidance_length by (auto simp: guidance_slice_def joins_def Let_def min_def)
qed

lemma at3_ext: "(\<And>a. a < 3 \<Longrightarrow> at3 u a = at3 v a) \<Longrightarrow> u = v"
  by (cases u; cases v) (auto dest: meta_spec [of _ 0] meta_spec [of _ 1] meta_spec [of _ 2])

definition slice_segment :: "RealtimeGuidanceSlice \<Rightarrow> rt_op" where
  "slice_segment g = RtSegment (gs_start g) (gs_end g) (gs_rate g)"

text \<open>
  C29: The steering target is continuous over the whole guidance table: when the slice of
  any second was installed and its thirty-two ticks have passed, whatever cells they
  received, the target is at the start of the next second's slice, so installing that slice does not
  move it.
\<close>
theorem realtime_guidance_continuous:
  assumes "unat second < 397" "length inputs = 32"
    "s' = snd (rt_run (slice_segment (guidance_slice second) # rt_ticks inputs) s)"
  shows "rf_target s' = gs_start (guidance_slice (second + 1))
    \<and> rf_target (snd (rt_step (slice_segment (guidance_slice (second + 1))) s')) = rf_target s'"
proof -
  let ?g = "guidance_slice second"
  have *: "sint (at3 (rf_target s') a) = sint (at3 (gs_end ?g) a)" if "a < 3" for a
    using segment_interpolated [of inputs a "gs_start ?g" "gs_end ?g" "gs_rate ?g" s] assms(2,3) that
    by (simp add: slice_segment_def)
  have "at3 (rf_target s') a = at3 (gs_end ?g) a" if "a < 3" for a
    by (rule signed_word_eqI [OF * [OF that]])
  then have "rf_target s' = gs_end ?g" by (rule at3_ext)
  then show ?thesis
    using guidance_slice_joined [OF assms(1)] by (simp add: slice_segment_def set_guidance_segment_def)
qed

theorem realtime_guidance_continuous_witness:
  "rf_target (snd (rt_run (slice_segment (guidance_slice 10) # rt_ticks (replicate 32 (None, None)))
     (new_realtime_flight 7 (0, 0, 0) (0, 0, 0)))) = (- 49, - 8275, 190)"
proof -
  have "gs_start (guidance_slice 11) = (- 49, - 8275, 190)"
    by (simp add: guidance_slice_def guidance_length Let_def REALTIME_GUIDANCE_SLICES_def guidance_rows_1_def nth_append slice_def)
  then show ?thesis
    using realtime_guidance_continuous [of 10 "replicate 32 (None, None)", OF _ _ refl] by simp
qed

end
