(* ===== verification/Event_Clock.thy ===== *)
theory Event_Clock
  imports Numeric
begin

text \<open>
  The exact event clock that interleaves physics and avionics
  (\<^verbatim>\<open>core/src/phase8_5_clock.rs\<close>): releases are due at the multiples of 8192 ticks, and a
  segment of physics ends at the next release or the physical deadline, whichever comes
  first.  The loop that drives it is that of the world endpoint
  (\<^verbatim>\<open>sim/src/phase8_5.rs\<close>, release) with the physics, which chooses the deadlines, as a
  parameter.
\<close>

subsection \<open>The clock\<close>

definition AVIONICS_PERIOD_RAW_Q18 :: i32 where "AVIONICS_PERIOD_RAW_Q18 = 8192"

datatype ExactClockError = NegativeTime | NonIncreasingDeadline | ReleasePending | TimeMismatch | EpochOverflow

record ExactSegment =
  seg_start :: i32
  seg_end :: i32
  ends_at_release :: bool
  ends_at_physical_deadline :: bool

definition seg_duration :: "ExactSegment \<Rightarrow> i32" where
  "seg_duration s = seg_end s - seg_start s"

record ExactEventClock =
  ck_epoch :: u32
  next_release_raw :: i32

definition new_event_clock :: ExactEventClock where
  "new_event_clock = \<lparr>ck_epoch = 0, next_release_raw = 0\<rparr>"

definition release_due :: "ExactEventClock \<Rightarrow> i32 \<Rightarrow> bool" where
  "release_due c now \<longleftrightarrow> now = next_release_raw c"

definition release_time :: "u32 \<Rightarrow> i32 option" where
  "release_time e =
     (if uint e < 2 ^ 31 \<and> uint e * sint AVIONICS_PERIOD_RAW_Q18 < 2 ^ 31
      then Some (word_of_int (uint e * sint AVIONICS_PERIOD_RAW_Q18)) else None)"

definition consume_release :: "i32 \<Rightarrow> ExactEventClock \<Rightarrow> (ExactClockError + u32) \<times> ExactEventClock" where
  "consume_release now c =
     (if now <s 0 then (Inl NegativeTime, c)
      else if now \<noteq> next_release_raw c then (Inl TimeMismatch, c)
      else
      let released = ck_epoch c
      in if unat (ck_epoch c) + 1 \<ge> 2 ^ 32 then (Inl EpochOverflow, c)
      else
      let c = c\<lparr>ck_epoch := ck_epoch c + 1\<rparr>
      in case release_time (ck_epoch c) of
           None \<Rightarrow> (Inl EpochOverflow, c)
         | Some t \<Rightarrow> (Inr released, c\<lparr>next_release_raw := t\<rparr>))"

definition next_segment :: "ExactEventClock \<Rightarrow> i32 \<Rightarrow> i32 \<Rightarrow> ExactClockError + ExactSegment" where
  "next_segment c now physical_deadline =
     (if now <s 0 then Inl NegativeTime
      else if physical_deadline \<le>s now then Inl NonIncreasingDeadline
      else if release_due c now then Inl ReleasePending
      else
      let end_raw = (if physical_deadline \<le>s next_release_raw c then physical_deadline else next_release_raw c)
      in if end_raw \<le>s now then Inl TimeMismatch
      else Inr \<lparr>seg_start = now, seg_end = end_raw, ends_at_release = (end_raw = next_release_raw c),
             ends_at_physical_deadline = (end_raw = physical_deadline)\<rparr>)"

lemma next_segment_accepted:
  assumes "next_segment c now dl = Inr s"
  shows "seg_start s = now" "sint now < sint (seg_end s)" "sint (seg_end s) \<le> sint (next_release_raw c)"
    "sint (seg_end s) \<le> sint dl"
  using assms by (auto simp: next_segment_def Let_def word_sle_eq word_sless_alt split: if_splits)

lemma next_segment_progress:
  "next_segment c now dl = Inr s \<Longrightarrow> sint now < sint (seg_end s) \<and> sint (seg_end s) \<le> sint (next_release_raw c)"
  using next_segment_accepted by blast

subsection \<open>The driving loop\<close>

function drive :: "ExactEventClock \<Rightarrow> (i32 \<Rightarrow> i32) \<Rightarrow> i32 \<Rightarrow> ExactClockError + ExactSegment list" where
  "drive c deadline now =
     (if release_due c now then Inr []
      else case next_segment c now (deadline now) of
        Inl e \<Rightarrow> Inl e
      | Inr s \<Rightarrow> and_then (drive c deadline (seg_end s)) (\<lambda>ss. Inr (s # ss)))"
  by pat_completeness auto

termination drive
  by (relation "measure (\<lambda>(c, deadline, now). nat (sint (next_release_raw c) - sint now))")
    (auto dest: next_segment_progress)

declare drive.simps [simp del]

fun clock_run :: "nat \<Rightarrow> ExactEventClock \<Rightarrow> (i32 \<Rightarrow> i32) \<Rightarrow> i32 \<Rightarrow> ExactClockError + (ExactSegment list \<times> u32) list" where
  "clock_run 0 c deadline now = Inr []"
| "clock_run (Suc n) c deadline now =
     and_then (drive c deadline now) (\<lambda>segments.
       (case consume_release (next_release_raw c) c of
          (Inl e, c') \<Rightarrow> Inl e
        | (Inr epoch, c') \<Rightarrow> and_then (clock_run n c' deadline (next_release_raw c)) (\<lambda>rest. Inr ((segments, epoch) # rest))))"

fun chained :: "i32 \<Rightarrow> ExactSegment list \<Rightarrow> i32 \<Rightarrow> bool" where
  "chained a [] b \<longleftrightarrow> a = b"
| "chained a (s # ss) b \<longleftrightarrow> seg_start s = a \<and> sint a < sint (seg_end s) \<and> chained (seg_end s) ss b"

lemma sint_i32_cancel: "sint (x :: i32) = sint y \<Longrightarrow> x = y"
  by (rule signed_word_eqI)

lemma unat_u32_of_nat: "k < 2 ^ 32 \<Longrightarrow> unat (of_nat k :: u32) = k"
  by (simp add: unat_of_nat take_bit_nat_eq_self)

lemma unat_u32_Suc: "unat (x :: u32) < 2 ^ 32 - 1 \<Longrightarrow> unat (x + 1) = Suc (unat x)"
  by (subst unat_add_lem [THEN iffD1]) auto

lemma uint_u32_Suc: "unat (x :: u32) < 2 ^ 32 - 1 \<Longrightarrow> uint (x + 1) = uint x + 1"
  using unat_u32_Suc [of x] by (metis Suc_eq_plus1 of_nat_1 of_nat_add uint_nat)

lemma drive_reaches:
  assumes "\<And>t. 0 \<le> sint t \<Longrightarrow> sint t < sint (next_release_raw c) \<Longrightarrow> sint t < sint (deadline t)"
    and "0 \<le> sint now" "sint now \<le> sint (next_release_raw c)"
  shows "\<exists>ss. drive c deadline now = Inr ss \<and> chained now ss (next_release_raw c)"
  using assms
proof (induction c deadline now rule: drive.induct)
  case (1 c deadline now)
  show ?case
  proof (cases "release_due c now")
    case True
    then show ?thesis by (subst drive.simps) (simp add: release_due_def)
  next
    case False
    then have "sint now < sint (next_release_raw c)"
      using "1.prems"(3) sint_i32_cancel [of now "next_release_raw c"] by (auto simp: release_due_def order_le_less)
    then obtain s where s: "next_segment c now (deadline now) = Inr s"
      using "1.prems"(1) [of now] "1.prems"(2) False by (auto simp: next_segment_def Let_def word_sless_alt word_sle_eq)
    note n = next_segment_accepted [OF s]
    obtain ss where "drive c deadline (seg_end s) = Inr ss" "chained (seg_end s) ss (next_release_raw c)"
      using "1.IH" [OF False s] "1.prems" n by fastforce
    then show ?thesis using False s n by (subst drive.simps) simp
  qed
qed

subsection \<open>Exact releases\<close>

definition clock_at :: "nat \<Rightarrow> ExactEventClock" where
  "clock_at k = \<lparr>ck_epoch = of_nat k, next_release_raw = word_of_int (8192 * int k)\<rparr>"

lemma clock_at_time: "k < 2 ^ 18 \<Longrightarrow> sint (next_release_raw (clock_at k)) = 8192 * int k"
  using sint_word_of_int_i32 [of "8192 * int k"] by (simp add: clock_at_def)

lemma consume_at:
  assumes "Suc k < 2 ^ 18"
  shows "consume_release (next_release_raw (clock_at k)) (clock_at k) = (Inr (of_nat k), clock_at (Suc k))"
proof -
  have k: "unat (of_nat k :: u32) = k" using assms by (intro unat_u32_of_nat) simp
  have "uint (of_nat k + 1 :: u32) = uint (of_nat k :: u32) + 1" using assms k by (intro uint_u32_Suc) simp
  moreover have "uint (of_nat k :: u32) = int k" using k by (metis uint_nat)
  ultimately have u: "uint (of_nat k + 1 :: u32) = int k + 1" by simp
  have "sint (next_release_raw (clock_at k)) = 8192 * int k" using assms by (intro clock_at_time) simp
  moreover have "sint AVIONICS_PERIOD_RAW_Q18 = 8192" by (simp add: AVIONICS_PERIOD_RAW_Q18_def)
  ultimately show ?thesis
    using assms u k by (simp add: consume_release_def Let_def release_time_def clock_at_def word_sless_alt add.commute mult.commute)
qed

lemma consume_overflow:
  "consume_release (next_release_raw (clock_at (2 ^ 18 - 1))) c = (Inl EpochOverflow, c\<lparr>ck_epoch := ck_epoch c + 1\<rparr>)"
  if "next_release_raw c = next_release_raw (clock_at (2 ^ 18 - 1))" "2 ^ 18 - 1 \<le> unat (ck_epoch c)" "unat (ck_epoch c) < 2 ^ 32 - 1"
proof -
  have "uint (ck_epoch c + 1) = uint (ck_epoch c) + 1" using that(3) by (rule uint_u32_Suc)
  moreover have "2 ^ 18 - 1 \<le> uint (ck_epoch c)"
    unfolding uint_nat using of_nat_mono [OF that(2), where 'a = int] by simp
  moreover have "sint AVIONICS_PERIOD_RAW_Q18 = 8192" by (simp add: AVIONICS_PERIOD_RAW_Q18_def)
  ultimately have "release_time (ck_epoch c + 1) = None" using that(2) by (simp add: release_time_def)
  moreover have "\<not> next_release_raw (clock_at (2 ^ 18 - 1)) <s 0"
    using clock_at_time [of "2 ^ 18 - 1"] by (simp add: word_sless_alt)
  ultimately show ?thesis using that by (simp add: consume_release_def Let_def)
qed

lemma clock_run_exact:
  assumes "\<forall>t. 0 \<le> sint t \<and> sint t < 2 ^ 31 - 1 \<longrightarrow> sint t < sint (deadline t)"
  shows "k + n < 2 ^ 18 \<Longrightarrow> 0 \<le> sint now \<Longrightarrow> sint now \<le> 8192 * int k \<Longrightarrow>
    \<exists>rs. clock_run n (clock_at k) deadline now = Inr rs \<and> length rs = n
      \<and> (\<forall>i < n. snd (rs ! i) = of_nat (k + i)
          \<and> chained (if i = 0 then now else next_release_raw (clock_at (k + i - 1))) (fst (rs ! i)) (next_release_raw (clock_at (k + i))))"
proof (induction n arbitrary: k now)
  case (Suc n)
  have time: "sint (next_release_raw (clock_at k)) = 8192 * int k" using Suc.prems by (intro clock_at_time) simp
  then have "\<And>t. 0 \<le> sint t \<Longrightarrow> sint t < sint (next_release_raw (clock_at k)) \<Longrightarrow> sint t < sint (deadline t)"
    using assms Suc.prems(1) by simp
  then obtain ss where ss: "drive (clock_at k) deadline now = Inr ss" "chained now ss (next_release_raw (clock_at k))"
    using drive_reaches [of "clock_at k" deadline now] time Suc.prems by auto
  obtain rs where rs: "clock_run n (clock_at (Suc k)) deadline (next_release_raw (clock_at k)) = Inr rs" "length rs = n"
    "\<forall>i < n. snd (rs ! i) = of_nat (Suc k + i) \<and> chained (if i = 0 then next_release_raw (clock_at k)
        else next_release_raw (clock_at (Suc k + i - 1))) (fst (rs ! i)) (next_release_raw (clock_at (Suc k + i)))"
    using Suc.IH [of "Suc k" "next_release_raw (clock_at k)"] time Suc.prems(1) by auto
  have "clock_run (Suc n) (clock_at k) deadline now = Inr ((ss, of_nat k) # rs)"
    using ss(1) rs(1) consume_at [of k] Suc.prems(1) by simp
  moreover have "snd (((ss, of_nat k) # rs) ! i) = of_nat (k + i)
      \<and> chained (if i = 0 then now else next_release_raw (clock_at (k + i - 1))) (fst (((ss, of_nat k) # rs) ! i))
          (next_release_raw (clock_at (k + i)))" if "i < Suc n" for i
  proof (cases i)
    case 0
    then show ?thesis using ss(2) by simp
  next
    case (Suc j)
    then show ?thesis using rs(3) [rule_format, of j] that by (cases j) (simp_all del: of_nat_Suc)
  qed
  ultimately show ?case using rs(2) by (intro exI [of _ "(ss, of_nat k) # rs"]) simp
qed simp

text \<open>
  C22: Whatever deadlines the physics sets, as long as each lies ahead, the event clock releases the first 262143
  avionics epochs in order, each exactly at its multiple of 8192 ticks, and the physics
  between two releases is cut into segments that follow each other without gap or overlap and end at the
  release; the driving loop always ends.
\<close>
theorem clock_releases_exact:
  assumes "n < 2 ^ 18" "\<forall>t. 0 \<le> sint t \<and> sint t < 2 ^ 31 - 1 \<longrightarrow> sint t < sint (deadline t)"
  shows "\<exists>rs. clock_run n new_event_clock deadline 0 = Inr rs \<and> length rs = n
    \<and> (\<forall>k < n. snd (rs ! k) = of_nat k
        \<and> chained (word_of_int (8192 * int (k - 1))) (fst (rs ! k)) (word_of_int (8192 * int k)))"
proof -
  have new: "new_event_clock = clock_at 0" by (simp add: new_event_clock_def clock_at_def)
  have start: "(if k = 0 then 0 else next_release_raw (clock_at (0 + k - 1))) = (word_of_int (8192 * int (k - 1)) :: i32)" for k
    by (simp add: clock_at_def)
  have stop: "next_release_raw (clock_at (0 + k)) = word_of_int (8192 * int k)" for k by (simp add: clock_at_def)
  show ?thesis
    using clock_run_exact [OF assms(2), of 0 n 0] assms(1) unfolding new start stop by simp
qed

definition far_deadline :: "i32 \<Rightarrow> i32" where
  "far_deadline t = (if t <s 20000 then 20000 else i32_MAX)"

theorem clock_releases_exact_witness:
  "\<exists>r0 r1 r2 r3. clock_run 4 new_event_clock far_deadline 0 = Inr [r0, r1, r2, r3] \<and> snd r3 = 3
     \<and> chained 16384 (fst r3) 24576"
proof -
  have "\<forall>t. 0 \<le> sint t \<and> sint t < 2 ^ 31 - 1 \<longrightarrow> sint t < sint (far_deadline t)"
    by (auto simp: far_deadline_def word_sless_alt)
  then obtain rs where rs: "clock_run 4 new_event_clock far_deadline 0 = Inr rs" "length rs = 4"
    "\<forall>k < 4. snd (rs ! k) = of_nat k \<and> chained (word_of_int (8192 * int (k - 1))) (fst (rs ! k)) (word_of_int (8192 * int k))"
    using clock_releases_exact [of 4 far_deadline] by auto
  then obtain r0 r1 r2 r3 where "rs = [r0, r1, r2, r3]" by (auto simp: numeral_eq_Suc length_Suc_conv)
  then show ?thesis using rs(1) rs(3) [rule_format, of 3] by simp
qed

text \<open>
  The release after that does not fail atomically: at the last representable release time each attempt
  answers an epoch overflow but has advanced the epoch, so repeated attempts make the
  epoch drift away from the release time.
\<close>
theorem clock_overflow_drifts:
  assumes "m < 2 ^ 31"
  shows "consume_release 2147475456 (((\<lambda>c. snd (consume_release 2147475456 c)) ^^ m) (clock_at (2 ^ 18 - 1)))
    = (Inl EpochOverflow, \<lparr>ck_epoch = of_nat (2 ^ 18 + m), next_release_raw = 2147475456\<rparr>)"
proof -
  let ?f = "\<lambda>c. snd (consume_release 2147475456 c)" and ?last = "clock_at (2 ^ 18 - 1)"
  have last: "next_release_raw (clock_at 262143) = 2147475456" by (simp add: clock_at_def)
  have at: "consume_release 2147475456 \<lparr>ck_epoch = of_nat (2 ^ 18 - 1 + j), next_release_raw = 2147475456\<rparr>
      = (Inl EpochOverflow, \<lparr>ck_epoch = of_nat (2 ^ 18 + j), next_release_raw = 2147475456\<rparr>)" if "j < 2 ^ 31" for j
  proof -
    have "unat (of_nat (2 ^ 18 - 1 + j) :: u32) = 2 ^ 18 - 1 + j" by (rule unat_u32_of_nat) (use that in simp)
    then show ?thesis
      using consume_overflow [of "\<lparr>ck_epoch = of_nat (2 ^ 18 - 1 + j), next_release_raw = 2147475456\<rparr>"] that
      by (simp add: last add.commute)
  qed
  have "(?f ^^ j) ?last = \<lparr>ck_epoch = of_nat (2 ^ 18 - 1 + j), next_release_raw = 2147475456\<rparr>" if "j \<le> m" for j
    using that
  proof (induction j)
    case 0
    then show ?case by (simp add: clock_at_def)
  next
    case (Suc j)
    then show ?case using at [of j] assms by simp
  qed
  then show ?thesis using at [OF assms] by simp
qed

theorem clock_overflow_drifts_witness:
  "fst (consume_release 2147475456 (snd (consume_release 2147475456 (clock_at (2 ^ 18 - 1))))) = Inl EpochOverflow
   \<and> ck_epoch (snd (consume_release 2147475456 (snd (consume_release 2147475456 (clock_at (2 ^ 18 - 1)))))) = 262145"
  using clock_overflow_drifts [of 1] by simp

end
