(* ===== verification/Link_Broker.thy ===== *)
theory Link_Broker
  imports Link_Codec
begin

text \<open>
  The deterministic broker between the endpoints of the link and its transcript
  (\<^verbatim>\<open>sim/src/phase6_link.rs\<close>): every frame is delivered, delayed, dropped, duplicated,
  corrupted or refused after a disconnection, as a schedule of call numbers says.  A
  slice that would be out of bounds makes the call return no result.
\<close>

unbundle bit_operations_syntax

subsection \<open>Transcript\<close>

datatype DeliveryDisposition = Delivered | Delayed | Dropped | Duplicated | Corrupted | Disconnected

fun disposition_tag :: "DeliveryDisposition \<Rightarrow> u32" where
  "disposition_tag Delivered = 0" | "disposition_tag Delayed = 1" | "disposition_tag Dropped = 2"
| "disposition_tag Duplicated = 3" | "disposition_tag Corrupted = 4" | "disposition_tag Disconnected = 5"

record TranscriptRecord =
  tr_logical_time :: u32
  tr_source :: EndpointRole
  tr_destination :: EndpointRole
  tr_disposition :: DeliveryDisposition
  tr_frame_length :: u16
  tr_frame_crc :: u32
  tr_chain :: u32

record Transcript =
  ts_count :: u32
  ts_chain :: u32
  ts_last :: "TranscriptRecord option"

definition TRANSCRIPT_INITIAL :: u32 where "TRANSCRIPT_INITIAL = 2166136261"

definition new_transcript :: Transcript where
  "new_transcript = \<lparr>ts_count = 0, ts_chain = TRANSCRIPT_INITIAL, ts_last = None\<rparr>"

definition transcript_hash :: "u32 \<Rightarrow> u32 \<Rightarrow> u32" where
  "transcript_hash h v = foldl (\<lambda>h s. (h XOR (drop_bit s v AND 255)) * 16777619) h [0, 8, 16, 24]"

definition transcript_record ::
    "u32 \<Rightarrow> EndpointRole \<Rightarrow> EndpointRole \<Rightarrow> DeliveryDisposition \<Rightarrow> u8 list \<Rightarrow> Transcript \<Rightarrow> Transcript" where
  "transcript_record logical_time source destination disposition frame t =
     (let crc = crc32_ieee frame;
          chain = foldl transcript_hash (ts_chain t)
            [logical_time, ucast (role_tag source), ucast (role_tag destination), disposition_tag disposition,
             of_nat (length frame), crc]
      in \<lparr>ts_count = ts_count t + 1, ts_chain = chain,
          ts_last = Some \<lparr>tr_logical_time = logical_time, tr_source = source, tr_destination = destination,
            tr_disposition = disposition, tr_frame_length = of_nat (length frame), tr_frame_crc = crc, tr_chain = chain\<rparr>\<rparr>)"

subsection \<open>Broker\<close>

record ImpairmentSchedule =
  delay_at :: "u32 option"
  drop_at :: "u32 option"
  duplicate_at :: "u32 option"
  corrupt_at :: "u32 option"
  disconnect_at :: "u32 option"

datatype BrokerError = BrokerCapacity | BrokerDisconnected

record DeterministicBroker =
  br_schedule :: ImpairmentSchedule
  br_logical_time :: u32
  br_connected :: bool
  br_pending :: "u8 list"
  br_pending_length :: nat
  br_pending_valid :: bool
  br_transcript :: Transcript

definition new_broker :: "ImpairmentSchedule \<Rightarrow> DeterministicBroker" where
  "new_broker schedule =
     \<lparr>br_schedule = schedule, br_logical_time = 0, br_connected = True, br_pending = replicate KLF6_MAX_ENCODED 0,
      br_pending_length = 0, br_pending_valid = False, br_transcript = new_transcript\<rparr>"

definition note_frame ::
    "u32 \<Rightarrow> EndpointRole \<Rightarrow> EndpointRole \<Rightarrow> DeliveryDisposition \<Rightarrow> u8 list \<Rightarrow> DeterministicBroker \<Rightarrow> DeterministicBroker" where
  "note_frame now source destination disposition frame b =
     b\<lparr>br_transcript := transcript_record now source destination disposition frame (br_transcript b)\<rparr>"

definition route :: "EndpointRole \<Rightarrow> EndpointRole \<Rightarrow> u8 list \<Rightarrow> u8 list \<Rightarrow> DeterministicBroker
    \<Rightarrow> ((BrokerError + nat \<times> bool) \<times> u8 list \<times> DeterministicBroker) option" where
  "route source destination input out b =
     (let now = br_logical_time b;
          b = b\<lparr>br_logical_time := now + 1\<rparr>;
          plan = br_schedule b
      in if \<not> br_connected b \<or> disconnect_at plan = Some now
      then Some (Inl BrokerDisconnected, out, note_frame now source destination Disconnected input (b\<lparr>br_connected := False\<rparr>))
      else if br_pending_valid b then
        if length out < br_pending_length b then Some (Inl BrokerCapacity, out, b)
        else
        let n = br_pending_length b;
            out = copy_from_slice out 0 (take n (br_pending b))
        in Some (Inr (n, False), out, note_frame now source destination Delivered (take n out) (b\<lparr>br_pending_valid := False\<rparr>))
      else if drop_at plan = Some now
      then Some (Inr (0, False), out, note_frame now source destination Dropped input b)
      else if length out < length input then Some (Inl BrokerCapacity, out, b)
      else
      let out = copy_from_slice out 0 input;
          corrupted = (corrupt_at plan = Some now \<and> input \<noteq> []);
          out = (if corrupted then out[length input div 2 := out ! (length input div 2) XOR 0x40] else out)
      in if delay_at plan = Some now then
        if KLF6_MAX_ENCODED < length input then None
        else Some (Inr (0, False), out, note_frame now source destination Delayed input
            (b\<lparr>br_pending := copy_from_slice (br_pending b) 0 (take (length input) out),
               br_pending_length := length input, br_pending_valid := True\<rparr>))
      else
      let duplicate = (duplicate_at plan = Some now);
          disposition = (if duplicate then Duplicated else if corrupted then Corrupted else Delivered)
      in Some (Inr (length input, duplicate), out,
           note_frame now source destination disposition (take (length input) out) b))"

subsection \<open>What the schedule promises\<close>

type_synonym broker_call = "EndpointRole \<times> EndpointRole \<times> u8 list"

fun broker_run :: "broker_call list \<Rightarrow> DeterministicBroker \<Rightarrow> ((BrokerError + u8 list \<times> bool) list \<times> DeterministicBroker) option" where
  "broker_run [] b = Some ([], b)"
| "broker_run ((source, destination, input) # calls) b =
     (case route source destination input (replicate KLF6_MAX_ENCODED 0) b of
        None \<Rightarrow> None
      | Some (res, out, b) \<Rightarrow>
          map_option (\<lambda>(rs, b). ((case res of Inl e \<Rightarrow> Inl e | Inr (n, duplicate) \<Rightarrow> Inr (take n out, duplicate)) # rs, b))
            (broker_run calls b))"

definition garbled :: "ImpairmentSchedule \<Rightarrow> nat \<Rightarrow> u8 list \<Rightarrow> u8 list" where
  "garbled plan i frame =
     (if corrupt_at plan = Some (of_nat i) \<and> frame \<noteq> [] then frame[length frame div 2 := frame ! (length frame div 2) XOR 0x40]
      else frame)"

definition cut_off :: "ImpairmentSchedule \<Rightarrow> nat \<Rightarrow> bool" where
  "cut_off plan i \<longleftrightarrow> (case disconnect_at plan of Some d \<Rightarrow> unat d \<le> i | None \<Rightarrow> False)"

definition withheld :: "ImpairmentSchedule \<Rightarrow> nat \<Rightarrow> bool" where
  "withheld plan i \<longleftrightarrow> delay_at plan = Some (of_nat i) \<and> drop_at plan \<noteq> Some (of_nat i)"

definition delivery :: "ImpairmentSchedule \<Rightarrow> u8 list list \<Rightarrow> nat \<Rightarrow> BrokerError + u8 list \<times> bool" where
  "delivery plan frames i =
     (if cut_off plan i then Inl BrokerDisconnected
      else if 0 < i \<and> withheld plan (i - 1) then Inr (garbled plan (i - 1) (frames ! (i - 1)), False)
      else if drop_at plan = Some (of_nat i) \<or> delay_at plan = Some (of_nat i) then Inr ([], False)
      else Inr (garbled plan i (frames ! i), duplicate_at plan = Some (of_nat i)))"

definition broker_at :: "ImpairmentSchedule \<Rightarrow> u8 list list \<Rightarrow> nat \<Rightarrow> DeterministicBroker \<Rightarrow> bool" where
  "broker_at plan frames i b \<longleftrightarrow> br_schedule b = plan \<and> br_logical_time b = of_nat i
     \<and> br_connected b = (\<not> (0 < i \<and> cut_off plan (i - 1))) \<and> length (br_pending b) = KLF6_MAX_ENCODED
     \<and> (br_connected b \<longrightarrow> br_pending_valid b = (0 < i \<and> withheld plan (i - 1)))
     \<and> (br_connected b \<and> br_pending_valid b \<longrightarrow> br_pending_length b \<le> KLF6_MAX_ENCODED
          \<and> take (br_pending_length b) (br_pending b) = garbled plan (i - 1) (frames ! (i - 1)))"

lemma unat_of_small: "i < 2 ^ 32 \<Longrightarrow> unat (of_nat i :: u32) = i"
  by (simp add: unat_of_nat take_bit_nat_eq_self)

lemma of_nat_u32_eq: "i < 2 ^ 32 \<Longrightarrow> j < 2 ^ 32 \<Longrightarrow> (of_nat i :: u32) = of_nat j \<longleftrightarrow> i = j"
  by (metis unat_of_small)

lemma note_frame_simps [simp]:
  "br_schedule (note_frame t s d x f b) = br_schedule b" "br_logical_time (note_frame t s d x f b) = br_logical_time b"
  "br_connected (note_frame t s d x f b) = br_connected b" "br_pending (note_frame t s d x f b) = br_pending b"
  "br_pending_length (note_frame t s d x f b) = br_pending_length b"
  "br_pending_valid (note_frame t s d x f b) = br_pending_valid b"
  by (simp_all add: note_frame_def)

lemma taken_copy_frame: "length src \<le> length out \<Longrightarrow> take (length src) (copy_from_slice out 0 src) = src"
  by (simp add: copy_from_slice_def)

lemma garbled_copy:
  assumes "length frame \<le> length out"
  defines "copied \<equiv> copy_from_slice out 0 frame"
  shows "take (length frame) (if corrupt_at plan = Some (of_nat i) \<and> frame \<noteq> []
      then copied[length frame div 2 := copied ! (length frame div 2) XOR 0x40] else copied) = garbled plan i frame"
proof -
  have "take (length frame) copied = frame" using assms by (simp add: taken_copy_frame)
  moreover from this have "frame \<noteq> [] \<Longrightarrow> copied ! (length frame div 2) = frame ! (length frame div 2)"
    using nth_take [of "length frame div 2" "length frame" copied] by simp
  ultimately show ?thesis by (simp add: garbled_def take_update_swap)
qed

lemma length_garbled [simp]: "length (garbled plan i frame) = length frame"
  by (simp add: garbled_def)

definition observed :: "(BrokerError + nat \<times> bool) \<times> u8 list \<times> DeterministicBroker \<Rightarrow> BrokerError + u8 list \<times> bool" where
  "observed r = (case r of (Inl e, _) \<Rightarrow> Inl e | (Inr (n, duplicate), out, _) \<Rightarrow> Inr (take n out, duplicate))"

lemma route_follows:
  assumes at: "broker_at plan frames i b" and i: "Suc i < 2 ^ 32" "i < length frames"
    and len: "length (frames ! i) \<le> KLF6_MAX_ENCODED"
  shows "\<exists>r. route s d (frames ! i) (replicate KLF6_MAX_ENCODED 0) b = Some r
    \<and> observed r = delivery plan frames i \<and> broker_at plan frames (Suc i) (snd (snd r))"
proof -
  let ?x = "frames ! i" and ?out = "replicate KLF6_MAX_ENCODED (0 :: u8)"
  note fields = at [unfolded broker_at_def]
  have basic: "br_schedule b = plan" "br_logical_time b = of_nat i" using fields by simp_all
  have capacity: "length (br_pending b) = KLF6_MAX_ENCODED" using fields by simp
  have cut: "cut_off plan i \<longleftrightarrow> \<not> br_connected b \<or> disconnect_at plan = Some (of_nat i)"
  proof -
    have "unat x \<le> i \<longleftrightarrow> 0 < i \<and> unat x \<le> i - 1 \<or> x = of_nat i" for x :: u32
      using i unat_of_small [of i] by (cases "unat x = i") (auto simp: word_unat_eq_iff)
    then show ?thesis using fields by (auto simp: cut_off_def split: option.splits)
  qed
  show ?thesis
  proof (cases "cut_off plan i")
    case True
    then have r: "route s d ?x ?out b = Some (Inl BrokerDisconnected, ?out,
        note_frame (of_nat i) s d Disconnected ?x (b\<lparr>br_logical_time := of_nat i + 1, br_connected := False\<rparr>))"
      using cut basic by (auto simp: route_def Let_def)
    show ?thesis using True fields by (simp add: r observed_def delivery_def broker_at_def add.commute)
  next
    case on: False
    then have c: "br_connected b" "disconnect_at plan \<noteq> Some (of_nat i)" using cut by auto
    show ?thesis
    proof (cases "br_pending_valid b")
      case True
      then have w: "0 < i" "withheld plan (i - 1)" using fields c by auto
      have p: "br_pending_length b \<le> KLF6_MAX_ENCODED"
        "take (br_pending_length b) (br_pending b) = garbled plan (i - 1) (frames ! (i - 1))" using fields c True by auto
      have n: "length (take (br_pending_length b) (br_pending b)) = br_pending_length b"
        using p(1) capacity by (simp only: length_take min_def) simp
      have not_now: "\<not> withheld plan i"
        using w i of_nat_u32_eq [of i "i - 1"] by (auto simp: withheld_def)
      let ?res = "copy_from_slice ?out 0 (take (br_pending_length b) (br_pending b))"
      have r: "route s d ?x ?out b = Some (Inr (br_pending_length b, False), ?res,
          note_frame (of_nat i) s d Delivered (take (br_pending_length b) ?res)
            (b\<lparr>br_logical_time := of_nat i + 1, br_pending_valid := False\<rparr>))"
        using c True basic p(1) by (simp add: route_def Let_def)
      have "take (br_pending_length b) ?res = garbled plan (i - 1) (frames ! (i - 1))"
        using taken_copy_frame [of "take (br_pending_length b) (br_pending b)" ?out] n p by simp
      then show ?thesis
        using on w not_now fields c by (simp add: r observed_def delivery_def broker_at_def add.commute)
    next
      case no: False
      then have w: "\<not> (0 < i \<and> withheld plan (i - 1))" using fields c by auto
      let ?copied = "copy_from_slice ?out 0 ?x"
      let ?res = "if corrupt_at plan = Some (of_nat i) \<and> ?x \<noteq> []
          then ?copied[length ?x div 2 := ?copied ! (length ?x div 2) XOR 0x40] else ?copied"
      have res: "take (length ?x) ?res = garbled plan i ?x" using garbled_copy [of ?x ?out plan i] len by simp
      show ?thesis
      proof (cases "drop_at plan = Some (of_nat i)")
        case True
        then have r: "route s d ?x ?out b = Some (Inr (0, False), ?out,
            note_frame (of_nat i) s d Dropped ?x (b\<lparr>br_logical_time := of_nat i + 1\<rparr>))"
          using c no basic by (simp add: route_def Let_def)
        have "delivery plan frames i = Inr ([], False)" "\<not> withheld plan i"
          using True on w by (auto simp: delivery_def withheld_def)
        then show ?thesis using on no fields c by (simp add: r observed_def broker_at_def add.commute)
      next
        case kept: False
        show ?thesis
        proof (cases "delay_at plan = Some (of_nat i)")
          case True
          then have r: "route s d ?x ?out b = Some (Inr (0, False), ?res, note_frame (of_nat i) s d Delayed ?x
              (b\<lparr>br_logical_time := of_nat i + 1, br_pending := copy_from_slice (br_pending b) 0 (take (length ?x) ?res),
                 br_pending_length := length ?x, br_pending_valid := True\<rparr>))"
            using c no kept basic len by (simp add: route_def Let_def)
          have "length (copy_from_slice (br_pending b) 0 (garbled plan i ?x)) = KLF6_MAX_ENCODED"
            using fields len by (simp add: length_copy_from_slice)
          moreover have "take (length ?x) (copy_from_slice (br_pending b) 0 (garbled plan i ?x)) = garbled plan i ?x"
            using taken_copy_frame [of "garbled plan i ?x" "br_pending b"] fields len by simp
          moreover have "delivery plan frames i = Inr ([], False)" "withheld plan i"
            using True kept on w by (auto simp: delivery_def withheld_def)
          ultimately show ?thesis
            using on fields c len by (simp add: r observed_def broker_at_def add.commute res del: if_split)
        next
          case False
          let ?disp = "if duplicate_at plan = Some (of_nat i) then Duplicated
              else if corrupt_at plan = Some (of_nat i) \<and> ?x \<noteq> [] then Corrupted else Delivered"
          have r: "route s d ?x ?out b = Some (Inr (length ?x, duplicate_at plan = Some (of_nat i)), ?res,
              note_frame (of_nat i) s d ?disp (take (length ?x) ?res) (b\<lparr>br_logical_time := of_nat i + 1\<rparr>))"
            using False c no kept basic len by (simp add: route_def Let_def del: if_split)
          have "delivery plan frames i = Inr (garbled plan i ?x, duplicate_at plan = Some (of_nat i))" "\<not> withheld plan i"
            using False kept on w by (auto simp: delivery_def withheld_def)
          then show ?thesis
            using on no fields c by (simp add: r observed_def broker_at_def add.commute res del: if_split)
        qed
      qed
    qed
  qed
qed

lemma broker_run_follows:
  assumes "broker_at plan frames i b" "frames = map (\<lambda>(s, d, x). x) (past @ calls)" "i = length past"
    "length (past @ calls) < 2 ^ 32" "list_all (\<lambda>x. length x \<le> KLF6_MAX_ENCODED) frames"
  shows "\<exists>b'. broker_run calls b = Some (map (delivery plan frames) [i..<i + length calls], b')"
  using assms
proof (induction calls arbitrary: i b past)
  case (Cons c calls)
  obtain s d x where c: "c = (s, d, x)" by (cases c)
  have x: "frames ! i = x" "i < length frames" using Cons.prems c by (simp_all add: nth_append)
  then have len: "length (frames ! i) \<le> KLF6_MAX_ENCODED" using Cons.prems(5) by (auto simp: list_all_length)
  obtain r out b1 where r: "route s d (frames ! i) (replicate KLF6_MAX_ENCODED 0) b = Some (r, out, b1)"
    "observed (r, out, b1) = delivery plan frames i" "broker_at plan frames (Suc i) b1"
    using route_follows [OF Cons.prems(1) _ x(2) len, of s d] Cons.prems(3,4) by fastforce
  obtain b' where rest: "broker_run calls b1 = Some (map (delivery plan frames) [Suc i..<Suc i + length calls], b')"
    using Cons.IH [of "Suc i" b1 "past @ [c]"] r(3) Cons.prems by auto
  have "(case r of Inl e \<Rightarrow> Inl e | Inr (n, duplicate) \<Rightarrow> Inr (take n out, duplicate)) = delivery plan frames i"
    using r(2) by (auto simp: observed_def split: sum.splits prod.splits)
  moreover have "[i..<i + length (c # calls)] = i # [Suc i..<Suc i + length calls]" by (subst upt_conv_Cons) (simp_all del: upt_Suc)
  ultimately show ?case using r(1) rest by (simp add: c x(1) del: upt_Suc)
qed simp

text \<open>
  C16: With the frames of any session that fit the link buffer, the broker never runs out of bounds and
  hands over, call by call, exactly what its schedule says: nothing after the
  disconnection; a withheld frame at the following call, in the place of that call's own
  frame and to that call's endpoints, whatever its own were; nothing for dropped and delayed frames; every other frame whole, with one bit of
  its middle byte flipped at the corruption, and marked for repetition at the duplication.
\<close>
theorem broker_follows_schedule:
  assumes "length calls < 2 ^ 32" "list_all (\<lambda>(s, d, x). length x \<le> KLF6_MAX_ENCODED) calls"
  shows "\<exists>b. broker_run calls (new_broker plan)
    = Some (map (delivery plan (map (\<lambda>(s, d, x). x) calls)) [0..<length calls], b)"
proof -
  have "list_all (\<lambda>x. length x \<le> KLF6_MAX_ENCODED) (map (\<lambda>(s, d, x). x) calls)"
    using assms(2) by (auto simp: list_all_iff)
  moreover have "broker_at plan (map (\<lambda>(s, d, x). x) calls) 0 (new_broker plan)"
    by (simp add: broker_at_def new_broker_def)
  ultimately have "\<exists>b. broker_run calls (new_broker plan)
      = Some (map (delivery plan (map (\<lambda>(s, d, x). x) calls)) [0..<0 + length calls], b)"
    using assms(1) by (intro broker_run_follows [where past = "[]"]) simp_all
  then show ?thesis by (simp only: add_0)
qed

definition delay_first :: ImpairmentSchedule where
  "delay_first = \<lparr>delay_at = Some 0, drop_at = None, duplicate_at = None, corrupt_at = Some 2, disconnect_at = Some 3\<rparr>"

theorem broker_follows_schedule_witness:
  "\<exists>b. broker_run [(World, Flight, [1]), (Flight, World, [2]), (World, Flight, [3]), (Flight, World, [4])] (new_broker delay_first)
     = Some ([Inr ([], False), Inr ([1], False), Inr ([67], False), Inl BrokerDisconnected], b)"
  using broker_follows_schedule [of "[(World, Flight, [1]), (Flight, World, [2]), (World, Flight, [3]), (Flight, World, [4])]" delay_first]
  by (simp add: KLF6_MAX_ENCODED_def delivery_def cut_off_def withheld_def garbled_def delay_first_def upt_rec)

text \<open>
  A delayed frame is misdirected: it is delivered by the next call whatever its endpoints are,
  and recorded in the transcript as sent by that call's source to that call's destination; the frame of that
  call is lost and no record mentions it.
\<close>
theorem broker_misdirects_delayed:
  assumes "length x \<le> KLF6_MAX_ENCODED" "delay_at plan = Some 0" "drop_at plan \<noteq> Some 0" "corrupt_at plan \<noteq> Some 0"
    "\<not> cut_off plan 1"
  shows "\<exists>b. broker_run [(World, Flight, x), (Flight, World, y)] (new_broker plan) = Some ([Inr ([], False), Inr (x, False)], b)
    \<and> ts_count (br_transcript b) = 2 \<and> (\<exists>r. ts_last (br_transcript b) = Some r \<and> tr_source r = Flight
        \<and> tr_destination r = World \<and> tr_disposition r = Delivered \<and> tr_frame_crc r = crc32_ieee x)"
proof -
  have off: "disconnect_at plan \<noteq> Some 0" "disconnect_at plan \<noteq> Some 1" using assms(5) by (auto simp: cut_off_def)
  let ?copied = "copy_from_slice (replicate KLF6_MAX_ENCODED 0) 0 x"
  have t: "take (length x) ?copied = x" "take (length x) (copy_from_slice (replicate KLF6_MAX_ENCODED 0) 0 x) = x"
    using assms(1) by (simp_all add: taken_copy_frame)
  then show ?thesis
    using assms off by (simp add: route_def Let_def new_broker_def note_frame_def transcript_record_def new_transcript_def)
qed

theorem broker_misdirects_delayed_witness:
  "\<exists>b r. broker_run [(World, Flight, [1]), (Flight, World, [2])] (new_broker delay_first) = Some ([Inr ([], False), Inr ([1], False)], b)
     \<and> ts_last (br_transcript b) = Some r \<and> tr_source r = Flight"
  using broker_misdirects_delayed [of "[1]" delay_first "[2]"] by (auto simp: KLF6_MAX_ENCODED_def delay_first_def cut_off_def)

end
