(* ===== verification/Spatial_Messages.thy ===== *)
theory Spatial_Messages
  imports Ascent_Messages Global_Cells
begin

text \<open>
  The messages of the spatial ascent (\<^verbatim>\<open>interface/src/phase5.rs\<close>): a sensor frame of 128 bytes
  and an actuator command of 32, each a sealed record whose parser accepts exactly what
  the writer produces.  The stage phases and engine actions, and their parsers, are those of the
  ascent messages, of which the source repeats the text.
\<close>

unbundle bit_operations_syntax

subsection \<open>Records\<close>

definition SPATIAL_SENSOR_FRAME_LENGTH :: nat where "SPATIAL_SENSOR_FRAME_LENGTH = 128"
definition SPATIAL_ACTUATOR_COMMAND_LENGTH :: nat where "SPATIAL_ACTUATOR_COMMAND_LENGTH = 32"
definition SPATIAL_VALID_MASK :: u16 where "SPATIAL_VALID_MASK = push_bit 6 1 - 1"
definition SPATIAL_EVENT_MASK :: u16 where "SPATIAL_EVENT_MASK = push_bit 12 1 - 1"

record SpatialSensorFrame =
  ss_sequence :: u32
  ss_time_q16 :: i32
  ss_validity :: u16
  ss_events :: u16
  accel_body_q28 :: "i32 vec3"
  gyro_body_q24 :: "i32 vec3"
  baro_altitude_q12 :: i32
  ss_gps_position_q12 :: "i32 vec3"
  ss_gps_velocity_q24 :: "i32 vec3"
  star_attitude_q30 :: "i32 vec4"
  gimbal_applied_q16 :: "i32 \<times> i32"
  ss_rcs_propellant_q12 :: i32
  ss_active_stage :: u8
  ss_stage_phase :: StagePhase
  ss_engine_on :: bool

record SpatialActuatorCommand =
  sa_sequence :: u32
  gimbal_q16 :: "i32 \<times> i32"
  rcs_q15 :: "i32 vec3"
  sa_engine_action :: EngineAction
  sa_separate :: bool
  sa_abort_safeing :: bool

definition SAFE_SPATIAL_COMMAND :: SpatialActuatorCommand where
  "SAFE_SPATIAL_COMMAND = \<lparr>sa_sequence = 0, gimbal_q16 = (0, 0), rcs_q15 = (0, 0, 0), sa_engine_action = EngineCutoff,
     sa_separate = False, sa_abort_safeing = True\<rparr>"

definition parse_bool :: "u8 \<Rightarrow> CodecError + bool" where
  "parse_bool v = (if v = 0 then Inr False else if v = 1 then Inr True else Inl Enum)"

subsection \<open>Sensor frames\<close>

definition spatial_flags_ok :: "u16 \<Rightarrow> u16 \<Rightarrow> bool" where
  "spatial_flags_ok validity events \<longleftrightarrow>
     \<not> (validity AND NOT SPATIAL_VALID_MASK \<noteq> 0 \<or> events AND NOT SPATIAL_EVENT_MASK \<noteq> 0)"

definition spatial_sensor_fields :: "SpatialSensorFrame \<Rightarrow> store list" where
  "spatial_sensor_fields f =
     [p32 0 (ss_sequence f), pi32 4 (ss_time_q16 f), p16 8 (ss_validity f), p16 10 (ss_events f)]
     @ each 3 (\<lambda>i. [pi32 (12 + i * 4) (at3 (accel_body_q28 f) i), pi32 (24 + i * 4) (at3 (gyro_body_q24 f) i),
          pi32 (40 + i * 4) (at3 (ss_gps_position_q12 f) i), pi32 (52 + i * 4) (at3 (ss_gps_velocity_q24 f) i)])
     @ [pi32 36 (baro_altitude_q12 f)]
     @ each 4 (\<lambda>i. [pi32 (64 + i * 4) (at4 (star_attitude_q30 f) i)])
     @ [pi32 80 (fst (gimbal_applied_q16 f)), pi32 84 (snd (gimbal_applied_q16 f)), pi32 88 (ss_rcs_propellant_q12 f),
        p8 92 (ss_active_stage f), p8 93 (stage_phase_tag (ss_stage_phase f)), p8 94 (of_bool (ss_engine_on f))]"

definition write_spatial_sensor_frame :: "SpatialSensorFrame \<Rightarrow> u8 list \<Rightarrow> (CodecError + unit) \<times> u8 list" where
  "write_spatial_sensor_frame f out =
     (if length out \<noteq> SPATIAL_SENSOR_FRAME_LENGTH then (Inl Length, out)
      else if \<not> spatial_flags_ok (ss_validity f) (ss_events f) then (Inl Flags, out)
      else (Inr (), seal32 (put_fields (fill0 out) (spatial_sensor_fields f))))"

definition parse_spatial_sensor_frame :: "u8 list \<Rightarrow> CodecError + SpatialSensorFrame" where
  "parse_spatial_sensor_frame b =
     (if length b \<noteq> SPATIAL_SENSOR_FRAME_LENGTH then Inl Length
      else if read_u32 b 124 \<noteq> crc32_ieee (take 124 b) then Inl Checksum
      else if any_nonzero b 95 124 then Inl Reserved
      else
      let validity = read_u16 b 8; events = read_u16 b 10
      in if \<not> spatial_flags_ok validity events then Inl Flags
      else
      let accel = (read_i32 b 12, read_i32 b 16, read_i32 b 20);
          gyro = (read_i32 b 24, read_i32 b 28, read_i32 b 32);
          gps_position = (read_i32 b 40, read_i32 b 44, read_i32 b 48);
          gps_velocity = (read_i32 b 52, read_i32 b 56, read_i32 b 60);
          star = (read_i32 b 64, read_i32 b 68, read_i32 b 72, read_i32 b 76)
      in
      and_then (parse_stage_phase (b ! 93)) (\<lambda>phase.
      and_then (parse_bool (b ! 94)) (\<lambda>engine_on.
      Inr \<lparr>ss_sequence = read_u32 b 0, ss_time_q16 = read_i32 b 4, ss_validity = validity, ss_events = events,
           accel_body_q28 = accel, gyro_body_q24 = gyro, baro_altitude_q12 = read_i32 b 36,
           ss_gps_position_q12 = gps_position, ss_gps_velocity_q24 = gps_velocity, star_attitude_q30 = star,
           gimbal_applied_q16 = (read_i32 b 80, read_i32 b 84), ss_rcs_propellant_q12 = read_i32 b 88,
           ss_active_stage = b ! 92, ss_stage_phase = phase, ss_engine_on = engine_on\<rparr>)))"

subsection \<open>Actuator commands\<close>

definition spatial_actuator_fields :: "SpatialActuatorCommand \<Rightarrow> store list" where
  "spatial_actuator_fields c =
     [p32 0 (sa_sequence c), pi32 4 (fst (gimbal_q16 c)), pi32 8 (snd (gimbal_q16 c))]
     @ each 3 (\<lambda>i. [pi32 (12 + i * 4) (at3 (rcs_q15 c) i)])
     @ [p8 24 (engine_tag (sa_engine_action c)), p8 25 (of_bool (sa_separate c)), p8 26 (of_bool (sa_abort_safeing c))]"

definition write_spatial_actuator_command :: "SpatialActuatorCommand \<Rightarrow> u8 list \<Rightarrow> (CodecError + unit) \<times> u8 list" where
  "write_spatial_actuator_command c out =
     (if length out \<noteq> SPATIAL_ACTUATOR_COMMAND_LENGTH then (Inl Length, out)
      else (Inr (), seal32 (put_fields (fill0 out) (spatial_actuator_fields c))))"

definition parse_spatial_actuator_command :: "u8 list \<Rightarrow> CodecError + SpatialActuatorCommand" where
  "parse_spatial_actuator_command b =
     (if length b \<noteq> SPATIAL_ACTUATOR_COMMAND_LENGTH then Inl Length
      else if read_u32 b 28 \<noteq> crc32_ieee (take 28 b) then Inl Checksum
      else if b ! 27 \<noteq> 0 then Inl Reserved
      else
      and_then (parse_engine (b ! 24)) (\<lambda>action.
      and_then (parse_bool (b ! 25)) (\<lambda>sep.
      and_then (parse_bool (b ! 26)) (\<lambda>safeing.
      Inr \<lparr>sa_sequence = read_u32 b 0, gimbal_q16 = (read_i32 b 4, read_i32 b 8),
           rcs_q15 = (read_i32 b 12, read_i32 b 16, read_i32 b 20), sa_engine_action = action,
           sa_separate = sep, sa_abort_safeing = safeing\<rparr>))))"

subsection \<open>The codecs\<close>

lemma parse_bool_parsed [simp]: "parse_bool v = Inr p \<longleftrightarrow> v = of_bool p"
  by (cases p) (auto simp: parse_bool_def)

lemmas spatial_reads = message_reads

lemmas spatial_sensor_defs = write_spatial_sensor_frame_def parse_spatial_sensor_frame_def spatial_sensor_fields_def SPATIAL_SENSOR_FRAME_LENGTH_def

interpretation spatial_sensor: record_codec write_spatial_sensor_frame parse_spatial_sensor_frame 128 "\<lambda>_. True"
  "\<lambda>v. spatial_flags_ok (ss_validity v) (ss_events v)" spatial_sensor_fields
proof
  show "\<exists>e. write_spatial_sensor_frame v out = (Inl e, out)" if "length out \<noteq> 128 \<or> \<not> (\<lambda>v. spatial_flags_ok (ss_validity v) (ss_events v)) v" for out v
    using that by (auto simp: spatial_sensor_defs split: sum.splits)
  show "write_spatial_sensor_frame v out = (Inr (), seal32 (put_fields (fill0 out) (spatial_sensor_fields v)))"
    if "length out = 128" "(\<lambda>v. spatial_flags_ok (ss_validity v) (ss_events v)) v" for out v
    using that by (auto simp: spatial_sensor_defs split: sum.splits)
  show "layout (128 - 4) (spatial_sensor_fields v)" if "(\<lambda>_. True) v" "(\<lambda>v. spatial_flags_ok (ss_validity v) (ss_events v)) v" for v
    using that by (simp add: spatial_sensor_defs spatial_reads)
  show "parse_spatial_sensor_frame b = Inr v"
    if "length b = 128" "sealed32 b" "(\<lambda>_. True) v" "(\<lambda>v. spatial_flags_ok (ss_validity v) (ss_events v)) v"
      "holds b (spatial_sensor_fields v)" "blank b (128 - 4) (spatial_sensor_fields v)" for b v
    using that by (cases v; simp add: spatial_reads spatial_sensor_fields_def; simp add: spatial_sensor_defs spatial_reads)
  show "length b = 128 \<and> sealed32 b" if "parse_spatial_sensor_frame b = Inr v" for b v
    using that by (auto simp: spatial_sensor_defs spatial_reads)
  show "(\<lambda>_. True) v \<and> (\<lambda>v. spatial_flags_ok (ss_validity v) (ss_events v)) v \<and> holds b (spatial_sensor_fields v) \<and> blank b (128 - 4) (spatial_sensor_fields v)"
    if "parse_spatial_sensor_frame b = Inr v" for b v
    using that by (auto simp: spatial_sensor_defs spatial_reads dest: flag_value)
qed simp

lemmas spatial_actuator_defs = write_spatial_actuator_command_def parse_spatial_actuator_command_def spatial_actuator_fields_def SPATIAL_ACTUATOR_COMMAND_LENGTH_def

interpretation spatial_actuator: record_codec write_spatial_actuator_command parse_spatial_actuator_command 32 "\<lambda>_. True"
  "\<lambda>_. True" spatial_actuator_fields
proof
  show "\<exists>e. write_spatial_actuator_command v out = (Inl e, out)" if "length out \<noteq> 32 \<or> \<not> (\<lambda>_. True) v" for out v
    using that by (auto simp: spatial_actuator_defs split: sum.splits)
  show "write_spatial_actuator_command v out = (Inr (), seal32 (put_fields (fill0 out) (spatial_actuator_fields v)))"
    if "length out = 32" "(\<lambda>_. True) v" for out v
    using that by (auto simp: spatial_actuator_defs split: sum.splits)
  show "layout (32 - 4) (spatial_actuator_fields v)" if "(\<lambda>_. True) v" "(\<lambda>_. True) v" for v
    using that by (simp add: spatial_actuator_defs spatial_reads)
  show "parse_spatial_actuator_command b = Inr v"
    if "length b = 32" "sealed32 b" "(\<lambda>_. True) v" "(\<lambda>_. True) v"
      "holds b (spatial_actuator_fields v)" "blank b (32 - 4) (spatial_actuator_fields v)" for b v
    using that by (cases v; simp add: spatial_reads spatial_actuator_fields_def; simp add: spatial_actuator_defs spatial_reads)
  show "length b = 32 \<and> sealed32 b" if "parse_spatial_actuator_command b = Inr v" for b v
    using that by (auto simp: spatial_actuator_defs spatial_reads)
  show "(\<lambda>_. True) v \<and> (\<lambda>_. True) v \<and> holds b (spatial_actuator_fields v) \<and> blank b (32 - 4) (spatial_actuator_fields v)"
    if "parse_spatial_actuator_command b = Inr v" for b v
    using that by (auto simp: spatial_actuator_defs spatial_reads dest: flag_value)
qed simp

text \<open>
  The spatial messages round trip in both directions: whatever frame the writer accepts is parsed
  back, the safe command among them, whatever buffer a parser accepts is what the writer produces for the
  parsed value, and a replaced byte is never accepted.
\<close>
theorem spatial_messages_canonical:
  "(spatial_flags_ok (ss_validity f) (ss_events f) \<and> length out = 128 \<longrightarrow>
      (\<exists>b. write_spatial_sensor_frame f out = (Inr (), b) \<and> parse_spatial_sensor_frame b = Inr f))
   \<and> (parse_spatial_sensor_frame b = Inr f \<and> length out = 128 \<longrightarrow> write_spatial_sensor_frame f out = (Inr (), b))
   \<and> (parse_spatial_sensor_frame b = Inr f \<and> i < 128 \<and> x \<noteq> b ! i \<longrightarrow> \<not> is_ok (parse_spatial_sensor_frame (b[i := x])))
   \<and> (length out = 32 \<longrightarrow>
      (\<exists>b. write_spatial_actuator_command c out = (Inr (), b) \<and> parse_spatial_actuator_command b = Inr c))
   \<and> (parse_spatial_actuator_command b = Inr c \<and> length out = 32 \<longrightarrow> write_spatial_actuator_command c out = (Inr (), b))
   \<and> (parse_spatial_actuator_command b = Inr c \<and> i < 32 \<and> x \<noteq> b ! i \<longrightarrow>
      \<not> is_ok (parse_spatial_actuator_command (b[i := x])))"
proof (intro conjI impI; (elim conjE)?)
  show "\<exists>b. write_spatial_sensor_frame f out = (Inr (), b) \<and> parse_spatial_sensor_frame b = Inr f"
    if "spatial_flags_ok (ss_validity f) (ss_events f)" "length out = 128"
    using spatial_sensor.write_parse [of out f] that by auto
  show "\<exists>b. write_spatial_actuator_command c out = (Inr (), b) \<and> parse_spatial_actuator_command b = Inr c" if "length out = 32"
    using spatial_actuator.write_parse [of out c] that by auto
qed (simp_all add: spatial_sensor.rewritten_record spatial_actuator.rewritten_record
      spatial_sensor.corruption_rejected spatial_actuator.corruption_rejected)

theorem spatial_messages_canonical_witness:
  "\<exists>b. write_spatial_actuator_command SAFE_SPATIAL_COMMAND (replicate 32 1) = (Inr (), b)
     \<and> parse_spatial_actuator_command b = Inr SAFE_SPATIAL_COMMAND \<and> \<not> is_ok (parse_spatial_actuator_command (b[26 := b ! 26 + 1]))"
proof -
  let ?c = SAFE_SPATIAL_COMMAND
  have "\<exists>b. write_spatial_actuator_command ?c (replicate 32 1) = (Inr (), b) \<and> parse_spatial_actuator_command b = Inr ?c"
    using spatial_messages_canonical [where out = "replicate 32 1" and c = ?c, THEN conjunct2, THEN conjunct2, THEN conjunct2, THEN conjunct1] by simp
  then obtain b where b: "write_spatial_actuator_command ?c (replicate 32 1) = (Inr (), b)" "parse_spatial_actuator_command b = Inr ?c"
    by blast
  moreover have "\<not> is_ok (parse_spatial_actuator_command (b[26 := b ! 26 + 1]))"
    using spatial_messages_canonical [of _ _ b 26 "b ! 26 + 1" ?c] b(2) by simp
  ultimately show ?thesis by blast
qed

end
