(* ===== verification/Local_Cells.thy ===== *)
theory Local_Cells
  imports Global_Codec
begin

text \<open>
  The cells of the local-flight link (\<^verbatim>\<open>interface/src/phase8_5.rs\<close>): inertial, command,
  aiding and status cells with their writers and parsers, each a sealed codec.
\<close>

unbundle bit_operations_syntax

subsection \<open>Constants and checks\<close>

definition KLR8_SYNC :: "u8 list" where "KLR8_SYNC = [0xd8, 0x5a]"
definition LOCAL_INERTIAL_LENGTH :: nat where "LOCAL_INERTIAL_LENGTH = 40"
definition LOCAL_COMMAND_LENGTH :: nat where "LOCAL_COMMAND_LENGTH = 24"
definition LOCAL_AID_LENGTH :: nat where "LOCAL_AID_LENGTH = 64"
definition LOCAL_STATUS_LENGTH :: nat where "LOCAL_STATUS_LENGTH = 48"
definition LOCAL_INERTIAL_VALID_MASK :: u8 where "LOCAL_INERTIAL_VALID_MASK = 15"
definition LOCAL_AID_BAROMETER :: u16 where "LOCAL_AID_BAROMETER = 1"
definition LOCAL_AID_GPS :: u16 where "LOCAL_AID_GPS = 2"
definition LOCAL_AID_CONTINUITY :: u16 where "LOCAL_AID_CONTINUITY = 8"
definition LOCAL_AID_DEPLOYMENT_FEEDBACK :: u16 where "LOCAL_AID_DEPLOYMENT_FEEDBACK = 16"
definition LOCAL_AID_VALID_MASK :: u16 where "LOCAL_AID_VALID_MASK = 31"
definition LOCAL_COMMAND_DROGUE :: u8 where "LOCAL_COMMAND_DROGUE = 1"
definition LOCAL_COMMAND_MAIN :: u8 where "LOCAL_COMMAND_MAIN = 2"
definition LOCAL_COMMAND_SAFE :: u8 where "LOCAL_COMMAND_SAFE = 4"
definition LOCAL_COMMAND_DISCRETE_MASK :: u8 where "LOCAL_COMMAND_DISCRETE_MASK = 7"

lemmas local_lengths = LOCAL_INERTIAL_LENGTH_def LOCAL_COMMAND_LENGTH_def LOCAL_AID_LENGTH_def LOCAL_STATUS_LENGTH_def

definition local_prefix :: "u8 \<Rightarrow> u16 \<Rightarrow> u16 \<Rightarrow> u16 \<Rightarrow> store list" where
  "local_prefix kind session a b =
     [(0, KLR8_SYNC), p8 2 8, p8 3 kind, p16 4 session, p16 6 a, p16 8 b]"

definition local_check :: "u8 list \<Rightarrow> nat \<Rightarrow> u8 \<Rightarrow> CodecError + unit" where
  "local_check b n kind =
     (if length b \<noteq> n then Inl CodecError.Length
      else if take 2 b \<noteq> KLR8_SYNC \<or> b ! 2 \<noteq> 8 \<or> b ! 3 \<noteq> kind then Inl Enum
      else if crc16_ccitt (take (n - 2) b) \<noteq> read_u16 b (n - 2) then Inl Checksum
      else Inr ())"

subsection \<open>Cells\<close>

record LocalInertialCell =
  li_session :: u16
  li_measurement_epoch :: u16
  li_production_epoch :: u16
  li_validity :: u8
  li_flags :: u8
  li_platform_angle :: "i16 vec3"
  li_angular_rate :: "i16 vec3"
  li_delta_velocity :: "i16 vec3"
  li_gimbal_applied :: "i16 \<times> i16"
  li_vehicle_status :: u16
  li_actuator_feedback :: u16

definition local_inertial_fields :: "LocalInertialCell \<Rightarrow> store list" where
  "local_inertial_fields v =
     local_prefix 1 (li_session v) (li_measurement_epoch v) (li_production_epoch v)
     @ [p8 10 (li_validity v), p8 11 (li_flags v)]
     @ each 3 (\<lambda>a. [pi16 (12 + a * 2) (at3 (li_platform_angle v) a), pi16 (18 + a * 2) (at3 (li_angular_rate v) a),
          pi16 (24 + a * 2) (at3 (li_delta_velocity v) a)])
     @ [pi16 30 (fst (li_gimbal_applied v)), pi16 32 (snd (li_gimbal_applied v)), p16 34 (li_vehicle_status v),
        p16 36 (li_actuator_feedback v)]"

definition write_local_inertial :: "LocalInertialCell \<Rightarrow> u8 list \<Rightarrow> (CodecError + unit) \<times> u8 list" where
  "write_local_inertial v out =
     (if length out \<noteq> LOCAL_INERTIAL_LENGTH \<or> li_validity v AND NOT LOCAL_INERTIAL_VALID_MASK \<noteq> 0 then (Inl Flags, out)
      else (Inr (), seal16 (put_fields (fill0 out) (local_inertial_fields v))))"

definition parse_local_inertial :: "u8 list \<Rightarrow> CodecError + LocalInertialCell" where
  "parse_local_inertial b =
     and_then (local_check b LOCAL_INERTIAL_LENGTH 1) (\<lambda>u.
       if b ! 10 AND NOT LOCAL_INERTIAL_VALID_MASK \<noteq> 0 then Inl Flags
       else Inr \<lparr>li_session = read_u16 b 4, li_measurement_epoch = read_u16 b 6, li_production_epoch = read_u16 b 8,
              li_validity = b ! 10, li_flags = b ! 11, li_platform_angle = make3 (\<lambda>a. read_i16 b (12 + a * 2)),
              li_angular_rate = make3 (\<lambda>a. read_i16 b (18 + a * 2)),
              li_delta_velocity = make3 (\<lambda>a. read_i16 b (24 + a * 2)),
              li_gimbal_applied = (read_i16 b 30, read_i16 b 32), li_vehicle_status = read_u16 b 34,
              li_actuator_feedback = read_u16 b 36\<rparr>)"

record LocalCommandCell =
  lc_session :: u16
  lc_source_epoch :: u16
  lc_effective_epoch :: u16
  lc_flags :: u8
  lc_discrete :: u8
  lc_gimbal :: "i16 \<times> i16"
  lc_control_demand :: "i16 \<times> i16"
  lc_status :: u16

definition local_command_fields :: "LocalCommandCell \<Rightarrow> store list" where
  "local_command_fields v =
     local_prefix 2 (lc_session v) (lc_source_epoch v) (lc_effective_epoch v)
     @ [p8 10 (lc_flags v), p8 11 (lc_discrete v), pi16 12 (fst (lc_gimbal v)), pi16 14 (snd (lc_gimbal v)),
        pi16 16 (fst (lc_control_demand v)), pi16 18 (snd (lc_control_demand v)), p16 20 (lc_status v)]"

definition write_local_command :: "LocalCommandCell \<Rightarrow> u8 list \<Rightarrow> (CodecError + unit) \<times> u8 list" where
  "write_local_command v out =
     (if length out \<noteq> LOCAL_COMMAND_LENGTH \<or> lc_discrete v AND NOT LOCAL_COMMAND_DISCRETE_MASK \<noteq> 0 then (Inl Flags, out)
      else (Inr (), seal16 (put_fields (fill0 out) (local_command_fields v))))"

definition parse_local_command :: "u8 list \<Rightarrow> CodecError + LocalCommandCell" where
  "parse_local_command b =
     and_then (local_check b LOCAL_COMMAND_LENGTH 2) (\<lambda>u.
       if b ! 11 AND NOT LOCAL_COMMAND_DISCRETE_MASK \<noteq> 0 then Inl Flags
       else Inr \<lparr>lc_session = read_u16 b 4, lc_source_epoch = read_u16 b 6, lc_effective_epoch = read_u16 b 8,
              lc_flags = b ! 10, lc_discrete = b ! 11, lc_gimbal = (read_i16 b 12, read_i16 b 14),
              lc_control_demand = (read_i16 b 16, read_i16 b 18), lc_status = read_u16 b 20\<rparr>)"

record LocalAidCell =
  la_session :: u16
  la_measurement_epoch :: u16
  la_production_epoch :: u16
  la_validity :: u16
  la_events :: u16
  la_onboard_time_q18 :: i32
  la_barometer_q13 :: i32
  la_gps_position_q13 :: "i32 vec3"
  la_gps_velocity_q19 :: "i32 vec3"
  la_attitude_vector :: "i16 vec3"
  la_continuity :: u16
  la_deployment_feedback :: u16
  la_vehicle_status :: u32
  la_clock_flags :: u16

definition local_aid_fields :: "LocalAidCell \<Rightarrow> store list" where
  "local_aid_fields v =
     local_prefix 3 (la_session v) (la_measurement_epoch v) (la_production_epoch v)
     @ [p16 10 (la_validity v), p16 12 (la_events v), pi32 14 (la_onboard_time_q18 v), pi32 18 (la_barometer_q13 v)]
     @ each 3 (\<lambda>a. [pi32 (22 + a * 4) (at3 (la_gps_position_q13 v) a), pi32 (34 + a * 4) (at3 (la_gps_velocity_q19 v) a),
          pi16 (46 + a * 2) (at3 (la_attitude_vector v) a)])
     @ [p16 52 (la_continuity v), p16 54 (la_deployment_feedback v), p32 56 (la_vehicle_status v), p16 60 (la_clock_flags v)]"

definition write_local_aid :: "LocalAidCell \<Rightarrow> u8 list \<Rightarrow> (CodecError + unit) \<times> u8 list" where
  "write_local_aid v out =
     (if length out \<noteq> LOCAL_AID_LENGTH \<or> la_validity v AND NOT LOCAL_AID_VALID_MASK \<noteq> 0 then (Inl Flags, out)
      else (Inr (), seal16 (put_fields (fill0 out) (local_aid_fields v))))"

definition parse_local_aid :: "u8 list \<Rightarrow> CodecError + LocalAidCell" where
  "parse_local_aid b =
     and_then (local_check b LOCAL_AID_LENGTH 3) (\<lambda>u.
       let validity = read_u16 b 10
       in if validity AND NOT LOCAL_AID_VALID_MASK \<noteq> 0 then Inl Flags
       else Inr \<lparr>la_session = read_u16 b 4, la_measurement_epoch = read_u16 b 6, la_production_epoch = read_u16 b 8,
              la_validity = validity, la_events = read_u16 b 12, la_onboard_time_q18 = read_i32 b 14,
              la_barometer_q13 = read_i32 b 18, la_gps_position_q13 = make3 (\<lambda>a. read_i32 b (22 + a * 4)),
              la_gps_velocity_q19 = make3 (\<lambda>a. read_i32 b (34 + a * 4)),
              la_attitude_vector = make3 (\<lambda>a. read_i16 b (46 + a * 2)), la_continuity = read_u16 b 52,
              la_deployment_feedback = read_u16 b 54, la_vehicle_status = read_u32 b 56, la_clock_flags = read_u16 b 60\<rparr>)"

record LocalStatusCell =
  ls_session :: u16
  ls_source_epoch :: u16
  ls_production_epoch :: u16
  ls_mode :: u8
  ls_flags :: u8
  ls_alarms :: u16
  ls_navigation_position_q13 :: "i32 vec3"
  ls_navigation_velocity_q19 :: "i32 vec3"
  ls_flight_checksum :: u32
  ls_deadline_misses :: u16
  ls_navigation_checksum :: u16

definition local_status_fields :: "LocalStatusCell \<Rightarrow> store list" where
  "local_status_fields v =
     local_prefix 4 (ls_session v) (ls_source_epoch v) (ls_production_epoch v)
     @ [p8 10 (ls_mode v), p8 11 (ls_flags v), p16 12 (ls_alarms v)]
     @ each 3 (\<lambda>a. [pi32 (14 + a * 4) (at3 (ls_navigation_position_q13 v) a),
          pi32 (26 + a * 4) (at3 (ls_navigation_velocity_q19 v) a)])
     @ [p32 38 (ls_flight_checksum v), p16 42 (ls_deadline_misses v), p16 44 (ls_navigation_checksum v)]"

definition write_local_status :: "LocalStatusCell \<Rightarrow> u8 list \<Rightarrow> (CodecError + unit) \<times> u8 list" where
  "write_local_status v out =
     (if length out \<noteq> LOCAL_STATUS_LENGTH then (Inl CodecError.Length, out)
      else (Inr (), seal16 (put_fields (fill0 out) (local_status_fields v))))"

definition parse_local_status :: "u8 list \<Rightarrow> CodecError + LocalStatusCell" where
  "parse_local_status b =
     and_then (local_check b LOCAL_STATUS_LENGTH 4) (\<lambda>u.
       Inr \<lparr>ls_session = read_u16 b 4, ls_source_epoch = read_u16 b 6, ls_production_epoch = read_u16 b 8,
            ls_mode = b ! 10, ls_flags = b ! 11, ls_alarms = read_u16 b 12,
            ls_navigation_position_q13 = make3 (\<lambda>a. read_i32 b (14 + a * 4)),
            ls_navigation_velocity_q19 = make3 (\<lambda>a. read_i32 b (26 + a * 4)), ls_flight_checksum = read_u32 b 38,
            ls_deadline_misses = read_u16 b 42, ls_navigation_checksum = read_u16 b 44\<rparr>)"

subsection \<open>The cells as sealed codecs\<close>

lemma length_klr8_sync [simp]: "length KLR8_SYNC = 2"
  by (simp add: KLR8_SYNC_def)

lemma local_check_sealed: "local_check b n k = Inr u \<Longrightarrow> length b = n \<and> sealed16 b"
  by (auto simp: local_check_def sealed16_def split: if_splits)

lemmas local_stores = stores local_prefix_def

lemmas local_reads = make3_def read_i16_def read_i32_def local_check_def seal16_slice Let_def

lemma local_inertial_layout: "layout 40 (local_inertial_fields v)"
  by (simp add: layout_def local_inertial_fields_def local_stores)

lemma local_inertial_roundtrip:
  assumes "length out = 40" "li_validity v AND NOT LOCAL_INERTIAL_VALID_MASK = 0"
  shows "length (seal16 (put_fields (fill0 out) (local_inertial_fields v))) = 40
    \<and> parse_local_inertial (seal16 (put_fields (fill0 out) (local_inertial_fields v))) = Inr v"
proof -
  note r = layout_reads [OF assms(1) local_inertial_layout]
  note s = seal16_fields [OF r(1), simplified] seal16_slice [OF r(1), simplified]
  have "parse_local_inertial (seal16 (put_fields (fill0 out) (local_inertial_fields v))) = Inr v"
    by (simp add: parse_local_inertial_def local_lengths local_reads s r)
       (simp add: lookup_defs local_inertial_fields_def local_stores assms)
  then show ?thesis using s by simp
qed

interpretation local_inertial: sealed_codec write_local_inertial parse_local_inertial 40
  "\<lambda>_. True" "\<lambda>v. li_validity v AND NOT LOCAL_INERTIAL_VALID_MASK = 0" sealed16
proof
  fix out :: "u8 list" and v :: LocalInertialCell
  assume "length out \<noteq> 40 \<or> \<not> (\<lambda>v. li_validity v AND NOT LOCAL_INERTIAL_VALID_MASK = 0) v"
  then show "\<exists>e. write_local_inertial v out = (Inl e, out)"
    by (auto simp: write_local_inertial_def local_lengths)
next
  fix out :: "u8 list" and v :: LocalInertialCell
  assume "length out = 40" "(\<lambda>_. True) v" "(\<lambda>v. li_validity v AND NOT LOCAL_INERTIAL_VALID_MASK = 0) v"
  then show "\<exists>b. write_local_inertial v out = (Inr (), b) \<and> length b = 40 \<and> parse_local_inertial b = Inr v"
    using local_inertial_roundtrip [of out v] by (auto simp: write_local_inertial_def local_lengths)
next
  fix b v
  assume "parse_local_inertial b = Inr v"
  then show "length b = 40 \<and> sealed16 b"
    by (auto simp: parse_local_inertial_def local_lengths dest: local_check_sealed)
qed (auto simp: sealed_breaks)

lemma local_command_layout: "layout 24 (local_command_fields v)"
  by (simp add: layout_def local_command_fields_def local_stores)

lemma local_command_roundtrip:
  assumes "length out = 24" "lc_discrete v AND NOT LOCAL_COMMAND_DISCRETE_MASK = 0"
  shows "length (seal16 (put_fields (fill0 out) (local_command_fields v))) = 24
    \<and> parse_local_command (seal16 (put_fields (fill0 out) (local_command_fields v))) = Inr v"
proof -
  note r = layout_reads [OF assms(1) local_command_layout]
  note s = seal16_fields [OF r(1), simplified] seal16_slice [OF r(1), simplified]
  have "parse_local_command (seal16 (put_fields (fill0 out) (local_command_fields v))) = Inr v"
    by (simp add: parse_local_command_def local_lengths local_reads s r)
       (simp add: lookup_defs local_command_fields_def local_stores assms)
  then show ?thesis using s by simp
qed

interpretation local_command: sealed_codec write_local_command parse_local_command 24
  "\<lambda>_. True" "\<lambda>v. lc_discrete v AND NOT LOCAL_COMMAND_DISCRETE_MASK = 0" sealed16
proof
  fix out :: "u8 list" and v :: LocalCommandCell
  assume "length out \<noteq> 24 \<or> \<not> (\<lambda>v. lc_discrete v AND NOT LOCAL_COMMAND_DISCRETE_MASK = 0) v"
  then show "\<exists>e. write_local_command v out = (Inl e, out)"
    by (auto simp: write_local_command_def local_lengths)
next
  fix out :: "u8 list" and v :: LocalCommandCell
  assume "length out = 24" "(\<lambda>_. True) v" "(\<lambda>v. lc_discrete v AND NOT LOCAL_COMMAND_DISCRETE_MASK = 0) v"
  then show "\<exists>b. write_local_command v out = (Inr (), b) \<and> length b = 24 \<and> parse_local_command b = Inr v"
    using local_command_roundtrip [of out v] by (auto simp: write_local_command_def local_lengths)
next
  fix b v
  assume "parse_local_command b = Inr v"
  then show "length b = 24 \<and> sealed16 b"
    by (auto simp: parse_local_command_def local_lengths dest: local_check_sealed)
qed (auto simp: sealed_breaks)

lemma local_aid_layout: "layout 64 (local_aid_fields v)"
  by (simp add: layout_def local_aid_fields_def local_stores)

lemma local_aid_roundtrip:
  assumes "length out = 64" "la_validity v AND NOT LOCAL_AID_VALID_MASK = 0"
  shows "length (seal16 (put_fields (fill0 out) (local_aid_fields v))) = 64
    \<and> parse_local_aid (seal16 (put_fields (fill0 out) (local_aid_fields v))) = Inr v"
proof -
  note r = layout_reads [OF assms(1) local_aid_layout]
  note s = seal16_fields [OF r(1), simplified] seal16_slice [OF r(1), simplified]
  have "parse_local_aid (seal16 (put_fields (fill0 out) (local_aid_fields v))) = Inr v"
    by (simp add: parse_local_aid_def local_lengths local_reads s r)
       (simp add: lookup_defs local_aid_fields_def local_stores assms)
  then show ?thesis using s by simp
qed

interpretation local_aid: sealed_codec write_local_aid parse_local_aid 64
  "\<lambda>_. True" "\<lambda>v. la_validity v AND NOT LOCAL_AID_VALID_MASK = 0" sealed16
proof
  fix out :: "u8 list" and v :: LocalAidCell
  assume "length out \<noteq> 64 \<or> \<not> (\<lambda>v. la_validity v AND NOT LOCAL_AID_VALID_MASK = 0) v"
  then show "\<exists>e. write_local_aid v out = (Inl e, out)"
    by (auto simp: write_local_aid_def local_lengths)
next
  fix out :: "u8 list" and v :: LocalAidCell
  assume "length out = 64" "(\<lambda>_. True) v" "(\<lambda>v. la_validity v AND NOT LOCAL_AID_VALID_MASK = 0) v"
  then show "\<exists>b. write_local_aid v out = (Inr (), b) \<and> length b = 64 \<and> parse_local_aid b = Inr v"
    using local_aid_roundtrip [of out v] by (auto simp: write_local_aid_def local_lengths)
next
  fix b v
  assume "parse_local_aid b = Inr v"
  then show "length b = 64 \<and> sealed16 b"
    by (auto simp: parse_local_aid_def local_lengths dest: local_check_sealed)
qed (auto simp: sealed_breaks)

lemma local_status_layout: "layout 48 (local_status_fields v)"
  by (simp add: layout_def local_status_fields_def local_stores)

lemma local_status_roundtrip:
  assumes "length out = 48" "True"
  shows "length (seal16 (put_fields (fill0 out) (local_status_fields v))) = 48
    \<and> parse_local_status (seal16 (put_fields (fill0 out) (local_status_fields v))) = Inr v"
proof -
  note r = layout_reads [OF assms(1) local_status_layout]
  note s = seal16_fields [OF r(1), simplified] seal16_slice [OF r(1), simplified]
  have "parse_local_status (seal16 (put_fields (fill0 out) (local_status_fields v))) = Inr v"
    by (simp add: parse_local_status_def local_lengths local_reads s r)
       (simp add: lookup_defs local_status_fields_def local_stores assms)
  then show ?thesis using s by simp
qed

interpretation local_status: sealed_codec write_local_status parse_local_status 48
  "\<lambda>_. True" "\<lambda>v. True" sealed16
proof
  fix out :: "u8 list" and v :: LocalStatusCell
  assume "length out \<noteq> 48 \<or> \<not> (\<lambda>v. True) v"
  then show "\<exists>e. write_local_status v out = (Inl e, out)"
    by (auto simp: write_local_status_def local_lengths)
next
  fix out :: "u8 list" and v :: LocalStatusCell
  assume "length out = 48" "(\<lambda>_. True) v" "(\<lambda>v. True) v"
  then show "\<exists>b. write_local_status v out = (Inr (), b) \<and> length b = 48 \<and> parse_local_status b = Inr v"
    using local_status_roundtrip [of out v] by (auto simp: write_local_status_def local_lengths)
next
  fix b v
  assume "parse_local_status b = Inr v"
  then show "length b = 48 \<and> sealed16 b"
    by (auto simp: parse_local_status_def local_lengths dest: local_check_sealed)
qed (auto simp: sealed_breaks)

end
