(* ===== verification/Advanced_Cells.thy ===== *)
theory Advanced_Cells
  imports Local_Cells
begin

text \<open>
  The cells of the advanced-effector link (\<^verbatim>\<open>interface/src/phase9_5.rs\<close>): fast sensor,
  command, aiding and status cells with their writers and parsers, each a sealed codec.
\<close>

unbundle bit_operations_syntax

subsection \<open>Constants and checks\<close>

definition KLR9_SYNC :: "u8 list" where "KLR9_SYNC = [0xd9, 0x5a]"
definition ADVANCED_FAST_SENSOR_LENGTH :: nat where "ADVANCED_FAST_SENSOR_LENGTH = 64"
definition ADVANCED_COMMAND_LENGTH :: nat where "ADVANCED_COMMAND_LENGTH = 64"
definition ADVANCED_AID_LENGTH :: nat where "ADVANCED_AID_LENGTH = 64"
definition ADVANCED_STATUS_LENGTH :: nat where "ADVANCED_STATUS_LENGTH = 80"
definition ADVANCED_VALID_PLATFORM :: u16 where "ADVANCED_VALID_PLATFORM = 1"
definition ADVANCED_VALID_RATE :: u16 where "ADVANCED_VALID_RATE = 2"
definition ADVANCED_VALID_DELTA_V :: u16 where "ADVANCED_VALID_DELTA_V = 4"
definition ADVANCED_VALID_ACTUATOR :: u16 where "ADVANCED_VALID_ACTUATOR = 8"
definition ADVANCED_VALID_AIR_DATA :: u16 where "ADVANCED_VALID_AIR_DATA = 16"
definition ADVANCED_VALID_SUPPLY :: u16 where "ADVANCED_VALID_SUPPLY = 32"
definition ADVANCED_VALID_MASK :: u16 where "ADVANCED_VALID_MASK = 63"
definition ADVANCED_AID_BAROMETER :: u16 where "ADVANCED_AID_BAROMETER = 1"
definition ADVANCED_AID_GPS :: u16 where "ADVANCED_AID_GPS = 2"
definition ADVANCED_AID_ATTITUDE :: u16 where "ADVANCED_AID_ATTITUDE = 4"
definition ADVANCED_AID_CONTINUITY :: u16 where "ADVANCED_AID_CONTINUITY = 8"
definition ADVANCED_AID_DEPLOYMENT_FEEDBACK :: u16 where "ADVANCED_AID_DEPLOYMENT_FEEDBACK = 16"
definition ADVANCED_AID_VALID_MASK :: u16 where "ADVANCED_AID_VALID_MASK = 31"
definition ADVANCED_COMMAND_SAFE :: u8 where "ADVANCED_COMMAND_SAFE = 4"
definition ADVANCED_COMMAND_DISCRETE_MASK :: u8 where "ADVANCED_COMMAND_DISCRETE_MASK = 7"
definition ADVANCED_COMMAND_FLAG_HOLD :: u8 where "ADVANCED_COMMAND_FLAG_HOLD = 1"
definition ADVANCED_COMMAND_FLAG_AIRDATA_FALLBACK :: u8 where "ADVANCED_COMMAND_FLAG_AIRDATA_FALLBACK = 2"
definition ADVANCED_COMMAND_FLAG_RCS_RESERVED :: u8 where "ADVANCED_COMMAND_FLAG_RCS_RESERVED = 4"
definition ADVANCED_COMMAND_FLAG_MASK :: u8 where "ADVANCED_COMMAND_FLAG_MASK = 7"

lemmas advanced_lengths = ADVANCED_FAST_SENSOR_LENGTH_def ADVANCED_COMMAND_LENGTH_def ADVANCED_AID_LENGTH_def ADVANCED_STATUS_LENGTH_def

definition advanced_prefix :: "u8 \<Rightarrow> u16 \<Rightarrow> u16 \<Rightarrow> u16 \<Rightarrow> store list" where
  "advanced_prefix kind session a b =
     [(0, KLR9_SYNC), p8 2 9, p8 3 kind, p16 4 session, p16 6 a, p16 8 b]"

definition advanced_check :: "u8 list \<Rightarrow> nat \<Rightarrow> u8 \<Rightarrow> CodecError + unit" where
  "advanced_check b n kind =
     (if length b \<noteq> n then Inl CodecError.Length
      else if take 2 b \<noteq> KLR9_SYNC \<or> b ! 2 \<noteq> 9 \<or> b ! 3 \<noteq> kind then Inl Enum
      else if crc16_ccitt (take (n - 2) b) \<noteq> read_u16 b (n - 2) then Inl Checksum
      else Inr ())"

subsection \<open>Cells\<close>

record AdvancedFastSensorCell =
  avf_session :: u16
  avf_measurement_epoch :: u16
  avf_production_epoch :: u16
  avf_validity :: u16
  avf_platform_angle :: "i16 vec3"
  avf_angular_rate :: "i16 vec3"
  avf_delta_velocity :: "i16 vec3"
  avf_dynamic_pressure_q10 :: i32
  avf_mach_q12 :: i16
  avf_gimbal_applied :: "i16 \<times> i16"
  canard_applied :: "i16 vec4"
  valve_open_mask :: u16
  propellant_q21 :: i32
  supply_scale_q15 :: u16
  avf_vehicle_status :: u16
  avf_actuator_feedback :: u16
  avf_flags :: u16

definition advanced_fast_ok :: "u16 \<Rightarrow> u16 \<Rightarrow> bool" where
  "advanced_fast_ok validity valves \<longleftrightarrow> \<not> (validity AND NOT ADVANCED_VALID_MASK \<noteq> 0 \<or> valves AND NOT 0x0fff \<noteq> 0)"

definition advanced_fast_sensor_fields :: "AdvancedFastSensorCell \<Rightarrow> store list" where
  "advanced_fast_sensor_fields v =
     advanced_prefix 1 (avf_session v) (avf_measurement_epoch v) (avf_production_epoch v)
     @ [p16 10 (avf_validity v)]
     @ each 3 (\<lambda>i. [pi16 (12 + i * 2) (at3 (avf_platform_angle v) i), pi16 (18 + i * 2) (at3 (avf_angular_rate v) i),
          pi16 (24 + i * 2) (at3 (avf_delta_velocity v) i)])
     @ [pi32 30 (avf_dynamic_pressure_q10 v), pi16 34 (avf_mach_q12 v), pi16 36 (fst (avf_gimbal_applied v)),
        pi16 38 (snd (avf_gimbal_applied v))]
     @ each 4 (\<lambda>i. [pi16 (40 + i * 2) (at4 (canard_applied v) i)])
     @ [p16 48 (valve_open_mask v), pi32 50 (propellant_q21 v), p16 54 (supply_scale_q15 v), p16 56 (avf_vehicle_status v),
        p16 58 (avf_actuator_feedback v), p16 60 (avf_flags v)]"

definition write_advanced_fast_sensor :: "AdvancedFastSensorCell \<Rightarrow> u8 list \<Rightarrow> (CodecError + unit) \<times> u8 list" where
  "write_advanced_fast_sensor v out =
     (if length out \<noteq> ADVANCED_FAST_SENSOR_LENGTH then (Inl CodecError.Length, out)
      else if \<not> advanced_fast_ok (avf_validity v) (valve_open_mask v) then (Inl Flags, out)
      else (Inr (), seal16 (put_fields (fill0 out) (advanced_fast_sensor_fields v))))"

definition parse_advanced_fast_sensor :: "u8 list \<Rightarrow> CodecError + AdvancedFastSensorCell" where
  "parse_advanced_fast_sensor b =
     and_then (advanced_check b ADVANCED_FAST_SENSOR_LENGTH 1) (\<lambda>u.
       let validity = read_u16 b 10; valves = read_u16 b 48
       in if \<not> advanced_fast_ok validity valves then Inl Flags
       else Inr \<lparr>avf_session = read_u16 b 4, avf_measurement_epoch = read_u16 b 6, avf_production_epoch = read_u16 b 8,
              avf_validity = validity, avf_platform_angle = make3 (\<lambda>i. read_i16 b (12 + i * 2)),
              avf_angular_rate = make3 (\<lambda>i. read_i16 b (18 + i * 2)), avf_delta_velocity = make3 (\<lambda>i. read_i16 b (24 + i * 2)),
              avf_dynamic_pressure_q10 = read_i32 b 30, avf_mach_q12 = read_i16 b 34,
              avf_gimbal_applied = (read_i16 b 36, read_i16 b 38), canard_applied = make4 (\<lambda>i. read_i16 b (40 + i * 2)),
              valve_open_mask = valves, propellant_q21 = read_i32 b 50, supply_scale_q15 = read_u16 b 54,
              avf_vehicle_status = read_u16 b 56, avf_actuator_feedback = read_u16 b 58, avf_flags = read_u16 b 60\<rparr>)"

record AdvancedCommandCell =
  avc_session :: u16
  avc_source_epoch :: u16
  avc_effective_epoch :: u16
  avc_flags :: u8
  avc_discrete :: u8
  avc_gimbal :: "i16 \<times> i16"
  avc_canards :: "i16 vec4"
  avc_torque_demand_q12 :: "i32 vec3"
  avc_rcs_pulse_quanta :: "u8 list"
  avc_status :: u16
  authority_mode :: u8
  avc_command_checksum :: u32

definition advanced_command_ok :: "u8 \<Rightarrow> u8 \<Rightarrow> u8 list \<Rightarrow> bool" where
  "advanced_command_ok flags disc quanta \<longleftrightarrow> \<not> (flags AND NOT ADVANCED_COMMAND_FLAG_MASK \<noteq> 0
     \<or> disc AND NOT ADVANCED_COMMAND_DISCRETE_MASK \<noteq> 0 \<or> (\<exists>q \<in> set quanta. 8 < q))"

definition advanced_command_fields :: "AdvancedCommandCell \<Rightarrow> store list" where
  "advanced_command_fields v =
     advanced_prefix 2 (avc_session v) (avc_source_epoch v) (avc_effective_epoch v)
     @ [p8 10 (avc_flags v), p8 11 (avc_discrete v), pi16 12 (fst (avc_gimbal v)), pi16 14 (snd (avc_gimbal v))]
     @ each 4 (\<lambda>i. [pi16 (16 + i * 2) (at4 (avc_canards v) i)])
     @ each 3 (\<lambda>i. [pi32 (24 + i * 4) (at3 (avc_torque_demand_q12 v) i)])
     @ [(36, avc_rcs_pulse_quanta v), p16 48 (avc_status v), p8 50 (authority_mode v), p32 52 (avc_command_checksum v)]"

definition write_advanced_command :: "AdvancedCommandCell \<Rightarrow> u8 list \<Rightarrow> (CodecError + unit) \<times> u8 list" where
  "write_advanced_command v out =
     (if length out \<noteq> ADVANCED_COMMAND_LENGTH then (Inl CodecError.Length, out)
      else if \<not> advanced_command_ok (avc_flags v) (avc_discrete v) (avc_rcs_pulse_quanta v) then (Inl Flags, out)
      else (Inr (), seal16 (put_fields (fill0 out) (advanced_command_fields v))))"

definition parse_advanced_command :: "u8 list \<Rightarrow> CodecError + AdvancedCommandCell" where
  "parse_advanced_command b =
     and_then (advanced_check b ADVANCED_COMMAND_LENGTH 2) (\<lambda>u.
       if \<not> advanced_command_ok (b ! 10) (b ! 11) (take 12 (drop 36 b)) then Inl Flags
       else if b ! 51 \<noteq> 0 \<or> (\<exists>x \<in> set (take 6 (drop 56 b)). x \<noteq> 0) then Inl Reserved
       else Inr \<lparr>avc_session = read_u16 b 4, avc_source_epoch = read_u16 b 6, avc_effective_epoch = read_u16 b 8,
              avc_flags = b ! 10, avc_discrete = b ! 11, avc_gimbal = (read_i16 b 12, read_i16 b 14),
              avc_canards = make4 (\<lambda>i. read_i16 b (16 + i * 2)),
              avc_torque_demand_q12 = make3 (\<lambda>i. read_i32 b (24 + i * 4)), avc_rcs_pulse_quanta = take 12 (drop 36 b),
              avc_status = read_u16 b 48, authority_mode = b ! 50, avc_command_checksum = read_u32 b 52\<rparr>)"

record AdvancedAidCell =
  ava_session :: u16
  ava_measurement_epoch :: u16
  ava_production_epoch :: u16
  ava_validity :: u16
  ava_events :: u16
  ava_onboard_time_q18 :: i32
  ava_barometer_q13 :: i32
  ava_gps_position_q13 :: "i32 vec3"
  ava_gps_velocity_q19 :: "i32 vec3"
  ava_attitude_vector :: "i16 vec3"
  ava_continuity :: u16
  ava_deployment_feedback :: u16
  ava_vehicle_status :: u32
  ava_clock_flags :: u16

definition advanced_aid_fields :: "AdvancedAidCell \<Rightarrow> store list" where
  "advanced_aid_fields v =
     advanced_prefix 3 (ava_session v) (ava_measurement_epoch v) (ava_production_epoch v)
     @ [p16 10 (ava_validity v), p16 12 (ava_events v), pi32 14 (ava_onboard_time_q18 v), pi32 18 (ava_barometer_q13 v)]
     @ each 3 (\<lambda>i. [pi32 (22 + i * 4) (at3 (ava_gps_position_q13 v) i), pi32 (34 + i * 4) (at3 (ava_gps_velocity_q19 v) i),
          pi16 (46 + i * 2) (at3 (ava_attitude_vector v) i)])
     @ [p16 52 (ava_continuity v), p16 54 (ava_deployment_feedback v), p32 56 (ava_vehicle_status v), p16 60 (ava_clock_flags v)]"

definition write_advanced_aid :: "AdvancedAidCell \<Rightarrow> u8 list \<Rightarrow> (CodecError + unit) \<times> u8 list" where
  "write_advanced_aid v out =
     (if length out \<noteq> ADVANCED_AID_LENGTH then (Inl CodecError.Length, out)
      else if ava_validity v AND NOT ADVANCED_AID_VALID_MASK \<noteq> 0 then (Inl Flags, out)
      else (Inr (), seal16 (put_fields (fill0 out) (advanced_aid_fields v))))"

definition parse_advanced_aid :: "u8 list \<Rightarrow> CodecError + AdvancedAidCell" where
  "parse_advanced_aid b =
     and_then (advanced_check b ADVANCED_AID_LENGTH 3) (\<lambda>u.
       let validity = read_u16 b 10
       in if validity AND NOT ADVANCED_AID_VALID_MASK \<noteq> 0 then Inl Flags
       else Inr \<lparr>ava_session = read_u16 b 4, ava_measurement_epoch = read_u16 b 6, ava_production_epoch = read_u16 b 8,
              ava_validity = validity, ava_events = read_u16 b 12, ava_onboard_time_q18 = read_i32 b 14,
              ava_barometer_q13 = read_i32 b 18, ava_gps_position_q13 = make3 (\<lambda>i. read_i32 b (22 + i * 4)),
              ava_gps_velocity_q19 = make3 (\<lambda>i. read_i32 b (34 + i * 4)),
              ava_attitude_vector = make3 (\<lambda>i. read_i16 b (46 + i * 2)), ava_continuity = read_u16 b 52,
              ava_deployment_feedback = read_u16 b 54, ava_vehicle_status = read_u32 b 56, ava_clock_flags = read_u16 b 60\<rparr>)"

record AdvancedStatusCell =
  avs_session :: u16
  avs_source_epoch :: u16
  avs_production_epoch :: u16
  avs_mode :: u8
  avs_flags :: u8
  avs_alarms :: u16
  avs_navigation_position_q13 :: "i32 vec3"
  avs_navigation_velocity_q19 :: "i32 vec3"
  avs_flight_checksum :: u32
  avs_deadline_misses :: u16
  avs_navigation_checksum :: u16
  avs_authority_state :: u16
  avs_requested_torque_q12 :: "i32 vec3"
  avs_achieved_torque_q12 :: "i16 vec3"
  avs_residual_torque_q12 :: "i16 vec3"
  avs_saturation_count :: u16
  avs_reserve_q15 :: u16
  avs_actuator_flags :: u16

definition advanced_status_fields :: "AdvancedStatusCell \<Rightarrow> store list" where
  "advanced_status_fields v =
     advanced_prefix 4 (avs_session v) (avs_source_epoch v) (avs_production_epoch v)
     @ [p8 10 (avs_mode v), p8 11 (avs_flags v), p16 12 (avs_alarms v)]
     @ each 3 (\<lambda>i. [pi32 (14 + i * 4) (at3 (avs_navigation_position_q13 v) i),
          pi32 (26 + i * 4) (at3 (avs_navigation_velocity_q19 v) i), pi32 (48 + i * 4) (at3 (avs_requested_torque_q12 v) i),
          pi16 (60 + i * 2) (at3 (avs_achieved_torque_q12 v) i), pi16 (66 + i * 2) (at3 (avs_residual_torque_q12 v) i)])
     @ [p32 38 (avs_flight_checksum v), p16 42 (avs_deadline_misses v), p16 44 (avs_navigation_checksum v),
        p16 46 (avs_authority_state v), p16 72 (avs_saturation_count v), p16 74 (avs_reserve_q15 v), p16 76 (avs_actuator_flags v)]"

definition write_advanced_status :: "AdvancedStatusCell \<Rightarrow> u8 list \<Rightarrow> (CodecError + unit) \<times> u8 list" where
  "write_advanced_status v out =
     (if length out \<noteq> ADVANCED_STATUS_LENGTH then (Inl CodecError.Length, out)
      else (Inr (), seal16 (put_fields (fill0 out) (advanced_status_fields v))))"

definition parse_advanced_status :: "u8 list \<Rightarrow> CodecError + AdvancedStatusCell" where
  "parse_advanced_status b =
     and_then (advanced_check b ADVANCED_STATUS_LENGTH 4) (\<lambda>u.
       Inr \<lparr>avs_session = read_u16 b 4, avs_source_epoch = read_u16 b 6, avs_production_epoch = read_u16 b 8,
            avs_mode = b ! 10, avs_flags = b ! 11, avs_alarms = read_u16 b 12,
            avs_navigation_position_q13 = make3 (\<lambda>i. read_i32 b (14 + i * 4)),
            avs_navigation_velocity_q19 = make3 (\<lambda>i. read_i32 b (26 + i * 4)), avs_flight_checksum = read_u32 b 38,
            avs_deadline_misses = read_u16 b 42, avs_navigation_checksum = read_u16 b 44, avs_authority_state = read_u16 b 46,
            avs_requested_torque_q12 = make3 (\<lambda>i. read_i32 b (48 + i * 4)),
            avs_achieved_torque_q12 = make3 (\<lambda>i. read_i16 b (60 + i * 2)),
            avs_residual_torque_q12 = make3 (\<lambda>i. read_i16 b (66 + i * 2)), avs_saturation_count = read_u16 b 72,
            avs_reserve_q15 = read_u16 b 74, avs_actuator_flags = read_u16 b 76\<rparr>)"

subsection \<open>The cells as sealed codecs\<close>

lemma length_klr9_sync [simp]: "length KLR9_SYNC = 2"
  by (simp add: KLR9_SYNC_def)

lemma advanced_check_sealed: "advanced_check b n k = Inr u \<Longrightarrow> length b = n \<and> sealed16 b"
  by (auto simp: advanced_check_def sealed16_def split: if_splits)

lemmas advanced_stores = stores advanced_prefix_def

lemmas advanced_reads = make3_def make4_def read_i16_def read_i32_def advanced_check_def seal16_slice Let_def

lemma advanced_fast_sensor_layout: "layout 64 (advanced_fast_sensor_fields v)"
  by (simp add: layout_def advanced_fast_sensor_fields_def advanced_stores)

lemma advanced_fast_sensor_roundtrip:
  assumes "length out = 64" "advanced_fast_ok (avf_validity v) (valve_open_mask v)"
  shows "length (seal16 (put_fields (fill0 out) (advanced_fast_sensor_fields v))) = 64
    \<and> parse_advanced_fast_sensor (seal16 (put_fields (fill0 out) (advanced_fast_sensor_fields v))) = Inr v"
proof -
  note r = layout_reads [OF assms(1) advanced_fast_sensor_layout]
  note s = seal16_fields [OF r(1), simplified] seal16_slice [OF r(1), simplified]
  have "parse_advanced_fast_sensor (seal16 (put_fields (fill0 out) (advanced_fast_sensor_fields v))) = Inr v"
    by (simp add: parse_advanced_fast_sensor_def advanced_lengths advanced_reads s r)
       (simp add: lookup_defs advanced_fast_sensor_fields_def advanced_stores assms)
  then show ?thesis using s by simp
qed

interpretation advanced_fast_sensor: sealed_codec write_advanced_fast_sensor parse_advanced_fast_sensor 64
  "\<lambda>v. True" "\<lambda>v. advanced_fast_ok (avf_validity v) (valve_open_mask v)" sealed16
proof
  fix out :: "u8 list" and v :: AdvancedFastSensorCell
  assume "length out \<noteq> 64 \<or> \<not> (\<lambda>v. advanced_fast_ok (avf_validity v) (valve_open_mask v)) v"
  then show "\<exists>e. write_advanced_fast_sensor v out = (Inl e, out)"
    by (auto simp: write_advanced_fast_sensor_def advanced_lengths)
next
  fix out :: "u8 list" and v :: AdvancedFastSensorCell
  assume "length out = 64" "(\<lambda>v. True) v" "(\<lambda>v. advanced_fast_ok (avf_validity v) (valve_open_mask v)) v"
  then show "\<exists>b. write_advanced_fast_sensor v out = (Inr (), b) \<and> length b = 64 \<and> parse_advanced_fast_sensor b = Inr v"
    using advanced_fast_sensor_roundtrip [of out v] by (auto simp: write_advanced_fast_sensor_def advanced_lengths)
next
  fix b v
  assume "parse_advanced_fast_sensor b = Inr v"
  then show "length b = 64 \<and> sealed16 b"
    by (auto simp: parse_advanced_fast_sensor_def advanced_lengths dest: advanced_check_sealed)
qed (auto simp: sealed_breaks)

lemma advanced_command_layout: "length (avc_rcs_pulse_quanta v) = 12 \<Longrightarrow> layout 64 (advanced_command_fields v)"
  by (simp add: layout_def advanced_command_fields_def advanced_stores)

lemma advanced_command_roundtrip:
  assumes "length out = 64" "length (avc_rcs_pulse_quanta v) = 12" "advanced_command_ok (avc_flags v) (avc_discrete v) (avc_rcs_pulse_quanta v)"
  shows "length (seal16 (put_fields (fill0 out) (advanced_command_fields v))) = 64
    \<and> parse_advanced_command (seal16 (put_fields (fill0 out) (advanced_command_fields v))) = Inr v"
proof -
  note r = layout_reads [OF assms(1) advanced_command_layout [OF assms(2)]]
  note s = seal16_fields [OF r(1), simplified] seal16_slice [OF r(1), simplified]
  have "parse_advanced_command (seal16 (put_fields (fill0 out) (advanced_command_fields v))) = Inr v"
    by (simp add: parse_advanced_command_def advanced_lengths advanced_reads s r)
       (simp add: lookup_defs advanced_command_fields_def advanced_stores assms)
  then show ?thesis using s by simp
qed

interpretation advanced_command: sealed_codec write_advanced_command parse_advanced_command 64
  "\<lambda>v. length (avc_rcs_pulse_quanta v) = 12" "\<lambda>v. advanced_command_ok (avc_flags v) (avc_discrete v) (avc_rcs_pulse_quanta v)" sealed16
proof
  fix out :: "u8 list" and v :: AdvancedCommandCell
  assume "length out \<noteq> 64 \<or> \<not> (\<lambda>v. advanced_command_ok (avc_flags v) (avc_discrete v) (avc_rcs_pulse_quanta v)) v"
  then show "\<exists>e. write_advanced_command v out = (Inl e, out)"
    by (auto simp: write_advanced_command_def advanced_lengths)
next
  fix out :: "u8 list" and v :: AdvancedCommandCell
  assume "length out = 64" "(\<lambda>v. length (avc_rcs_pulse_quanta v) = 12) v" "(\<lambda>v. advanced_command_ok (avc_flags v) (avc_discrete v) (avc_rcs_pulse_quanta v)) v"
  then show "\<exists>b. write_advanced_command v out = (Inr (), b) \<and> length b = 64 \<and> parse_advanced_command b = Inr v"
    using advanced_command_roundtrip [of out v] by (auto simp: write_advanced_command_def advanced_lengths)
next
  fix b v
  assume "parse_advanced_command b = Inr v"
  then show "length b = 64 \<and> sealed16 b"
    by (auto simp: parse_advanced_command_def advanced_lengths dest: advanced_check_sealed)
qed (auto simp: sealed_breaks)

lemma advanced_aid_layout: "layout 64 (advanced_aid_fields v)"
  by (simp add: layout_def advanced_aid_fields_def advanced_stores)

lemma advanced_aid_roundtrip:
  assumes "length out = 64" "ava_validity v AND NOT ADVANCED_AID_VALID_MASK = 0"
  shows "length (seal16 (put_fields (fill0 out) (advanced_aid_fields v))) = 64
    \<and> parse_advanced_aid (seal16 (put_fields (fill0 out) (advanced_aid_fields v))) = Inr v"
proof -
  note r = layout_reads [OF assms(1) advanced_aid_layout]
  note s = seal16_fields [OF r(1), simplified] seal16_slice [OF r(1), simplified]
  have "parse_advanced_aid (seal16 (put_fields (fill0 out) (advanced_aid_fields v))) = Inr v"
    by (simp add: parse_advanced_aid_def advanced_lengths advanced_reads s r)
       (simp add: lookup_defs advanced_aid_fields_def advanced_stores assms)
  then show ?thesis using s by simp
qed

interpretation advanced_aid: sealed_codec write_advanced_aid parse_advanced_aid 64
  "\<lambda>v. True" "\<lambda>v. ava_validity v AND NOT ADVANCED_AID_VALID_MASK = 0" sealed16
proof
  fix out :: "u8 list" and v :: AdvancedAidCell
  assume "length out \<noteq> 64 \<or> \<not> (\<lambda>v. ava_validity v AND NOT ADVANCED_AID_VALID_MASK = 0) v"
  then show "\<exists>e. write_advanced_aid v out = (Inl e, out)"
    by (auto simp: write_advanced_aid_def advanced_lengths)
next
  fix out :: "u8 list" and v :: AdvancedAidCell
  assume "length out = 64" "(\<lambda>v. True) v" "(\<lambda>v. ava_validity v AND NOT ADVANCED_AID_VALID_MASK = 0) v"
  then show "\<exists>b. write_advanced_aid v out = (Inr (), b) \<and> length b = 64 \<and> parse_advanced_aid b = Inr v"
    using advanced_aid_roundtrip [of out v] by (auto simp: write_advanced_aid_def advanced_lengths)
next
  fix b v
  assume "parse_advanced_aid b = Inr v"
  then show "length b = 64 \<and> sealed16 b"
    by (auto simp: parse_advanced_aid_def advanced_lengths dest: advanced_check_sealed)
qed (auto simp: sealed_breaks)

lemma advanced_status_layout: "layout 80 (advanced_status_fields v)"
  by (simp add: layout_def advanced_status_fields_def advanced_stores)

lemma advanced_status_roundtrip:
  assumes "length out = 80" "True"
  shows "length (seal16 (put_fields (fill0 out) (advanced_status_fields v))) = 80
    \<and> parse_advanced_status (seal16 (put_fields (fill0 out) (advanced_status_fields v))) = Inr v"
proof -
  note r = layout_reads [OF assms(1) advanced_status_layout]
  note s = seal16_fields [OF r(1), simplified] seal16_slice [OF r(1), simplified]
  have "parse_advanced_status (seal16 (put_fields (fill0 out) (advanced_status_fields v))) = Inr v"
    by (simp add: parse_advanced_status_def advanced_lengths advanced_reads s r)
       (simp add: lookup_defs advanced_status_fields_def advanced_stores assms)
  then show ?thesis using s by simp
qed

interpretation advanced_status: sealed_codec write_advanced_status parse_advanced_status 80
  "\<lambda>v. True" "\<lambda>v. True" sealed16
proof
  fix out :: "u8 list" and v :: AdvancedStatusCell
  assume "length out \<noteq> 80 \<or> \<not> (\<lambda>v. True) v"
  then show "\<exists>e. write_advanced_status v out = (Inl e, out)"
    by (auto simp: write_advanced_status_def advanced_lengths)
next
  fix out :: "u8 list" and v :: AdvancedStatusCell
  assume "length out = 80" "(\<lambda>v. True) v" "(\<lambda>v. True) v"
  then show "\<exists>b. write_advanced_status v out = (Inr (), b) \<and> length b = 80 \<and> parse_advanced_status b = Inr v"
    using advanced_status_roundtrip [of out v] by (auto simp: write_advanced_status_def advanced_lengths)
next
  fix b v
  assume "parse_advanced_status b = Inr v"
  then show "length b = 80 \<and> sealed16 b"
    by (auto simp: parse_advanced_status_def advanced_lengths dest: advanced_check_sealed)
qed (auto simp: sealed_breaks)

end
