(* ===== verification/Local_Flight.thy ===== *)
theory Local_Flight
  imports Local_Cells Global_Flight
begin

text \<open>
  The local flight computer of phase 8.5 (\<^verbatim>\<open>flight/src/phase8_5.rs\<close>): inertial and aided
  navigation in the launch frame, detection of launch, arming and burnout, the two
  recovery orders, the gimbal law and the safe latch.  One tick is the composition of the
  stages below, in the source's order.  The blend of a measurement is textually that of
  the phase 10 computer and shares its definition.
\<close>

unbundle bit_operations_syntax

subsection \<open>Configuration and state\<close>

definition LOCAL_ALARM_INERTIAL :: u16 where "LOCAL_ALARM_INERTIAL = 1"
definition LOCAL_ALARM_AID :: u16 where "LOCAL_ALARM_AID = 2"
definition LOCAL_ALARM_LINK :: u16 where "LOCAL_ALARM_LINK = 4"
definition LOCAL_ALARM_SAFE :: u16 where "LOCAL_ALARM_SAFE = 8"
definition LOCAL_ALARM_RECOVERY :: u16 where "LOCAL_ALARM_RECOVERY = 16"
definition LOCAL_ALARM_DEADLINE :: u16 where "LOCAL_ALARM_DEADLINE = 32"
definition GRAVITY_DELTA_V_Q19 :: i32 where "GRAVITY_DELTA_V_Q19 = 160671"

datatype LocalControlCapability = MonitorOnly | TwoAxisGimbal

record LocalFlightConfig =
  lcf_session :: u16
  capability :: LocalControlCapability
  minimum_arming_time_q18 :: i32
  minimum_arming_altitude_q13 :: i32
  burnout_qualification_time_q18 :: i32
  drogue_backup_time_q18 :: i32
  main_backup_time_q18 :: i32
  main_altitude_q13 :: i32
  minimum_deployment_separation_q18 :: i32
  lcf_proportional_gain_q15 :: i16
  lcf_derivative_gain_q15 :: i16
  gimbal_limit_q15 :: i16

definition local_config_valid :: "LocalFlightConfig \<Rightarrow> bool" where
  "local_config_valid c \<longleftrightarrow> lcf_session c \<noteq> 0 \<and> 0 \<le>s minimum_arming_time_q18 c \<and> 0 \<le>s minimum_arming_altitude_q13 c
     \<and> minimum_arming_time_q18 c <s burnout_qualification_time_q18 c
     \<and> burnout_qualification_time_q18 c <s drogue_backup_time_q18 c
     \<and> drogue_backup_time_q18 c <s main_backup_time_q18 c \<and> 0 <s main_altitude_q13 c
     \<and> 0 <s minimum_deployment_separation_q18 c \<and> 0 \<le>s lcf_proportional_gain_q15 c
     \<and> 0 \<le>s lcf_derivative_gain_q15 c \<and> 0 \<le>s gimbal_limit_q15 c"

record LocalNavigation =
  ln_position_q13 :: "i32 vec3"
  ln_velocity_q19 :: "i32 vec3"
  ln_attitude_vector :: "i16 vec3"
  ln_checksum :: u32

definition new_local_navigation :: "i32 vec3 \<Rightarrow> i16 vec3 \<Rightarrow> LocalNavigation" where
  "new_local_navigation position attitude =
     \<lparr>ln_position_q13 = position, ln_velocity_q19 = (0, 0, 0), ln_attitude_vector = attitude, ln_checksum = 0x811c9dc5\<rparr>"

record LocalFlightEvidence =
  le_command :: LocalCommandCell
  le_status :: "LocalStatusCell option"
  le_navigation :: LocalNavigation
  le_safe :: bool
  le_armed :: bool
  le_drogue_latched :: bool
  le_main_latched :: bool
  le_alarms :: u16
  le_flight_checksum :: u32
  le_deadline_misses :: u16

record LocalFlightComputer =
  lf_config :: LocalFlightConfig
  lf_epoch :: u16
  lf_navigation :: LocalNavigation
  lf_attitude_target :: "i16 vec3"
  lf_alarms :: u16
  lf_missing :: u8
  lf_safe :: bool
  lf_armed :: bool
  lf_launched :: bool
  lf_seen_powered :: bool
  lf_last_powered :: bool
  lf_burnout_qualified :: bool
  lf_descending_count :: u8
  lf_drogue_latched :: bool
  lf_main_latched :: bool
  lf_drogue_time_q18 :: i32
  lf_last_aid :: "LocalAidCell option"
  lf_last_command :: LocalCommandCell
  lf_last_status :: "LocalStatusCell option"
  lf_flight_checksum :: u32
  lf_deadline_misses :: u16

definition new_local_flight :: "LocalFlightConfig \<Rightarrow> i32 vec3 \<Rightarrow> i16 vec3 \<Rightarrow> LocalFlightComputer option" where
  "new_local_flight cfg position attitude =
     (if \<not> local_config_valid cfg then None
      else Some \<lparr>lf_config = cfg, lf_epoch = 0, lf_navigation = new_local_navigation position attitude,
        lf_attitude_target = attitude, lf_alarms = 0, lf_missing = 0, lf_safe = False, lf_armed = False,
        lf_launched = False, lf_seen_powered = False, lf_last_powered = False, lf_burnout_qualified = False,
        lf_descending_count = 0, lf_drogue_latched = False, lf_main_latched = False, lf_drogue_time_q18 = 0,
        lf_last_aid = None,
        lf_last_command = \<lparr>lc_session = lcf_session cfg, lc_source_epoch = 0, lc_effective_epoch = 1, lc_flags = 0,
          lc_discrete = 0, lc_gimbal = (0, 0), lc_control_demand = (0, 0), lc_status = 0\<rparr>,
        lf_last_status = None, lf_flight_checksum = 0x811c9dc5, lf_deadline_misses = 0\<rparr>)"

subsection \<open>Checksums\<close>

definition local_hash_word :: "u32 \<Rightarrow> u32 \<Rightarrow> u32" where
  "local_hash_word h value = (word_rotl 5 h + 0x9e3779b9) XOR value"

definition hash_local_nav :: "u32 \<Rightarrow> u16 \<Rightarrow> i32 vec3 \<Rightarrow> i32 vec3 \<Rightarrow> u32" where
  "hash_local_nav h e p v =
     foldl local_hash_word (local_hash_word h (ucast e)) [at3 p 0, at3 p 1, at3 p 2, at3 v 0, at3 v 1, at3 v 2]"

definition hash_local_command :: "u32 \<Rightarrow> LocalCommandCell \<Rightarrow> u32" where
  "hash_local_command h c =
     foldl local_hash_word h [ucast (lc_source_epoch c), ucast (lc_effective_epoch c), ucast (fst (lc_gimbal c)),
       ucast (snd (lc_gimbal c)), ucast (lc_discrete c)]"

subsection \<open>Navigation\<close>

definition local_inertial_update :: "LocalInertialCell \<Rightarrow> LocalNavigation \<Rightarrow> LocalNavigation" where
  "local_inertial_update cell n =
     (let velocity = make3 (\<lambda>a.
            let dv = push_bit 7 (scast (at3 (li_delta_velocity cell) a));
                v = saturating_add_i32 (at3 (ln_velocity_q19 n) a) dv
            in if a = 2 then saturating_sub_i32 v GRAVITY_DELTA_V_Q19 else v);
          position = make3 (\<lambda>a. saturating_add_i32 (at3 (ln_position_q13 n) a) (signed_drop_bit 11 (at3 velocity a)))
      in n\<lparr>ln_velocity_q19 := velocity, ln_position_q13 := position, ln_attitude_vector := li_platform_angle cell,
           ln_checksum := hash_local_nav (ln_checksum n) (li_measurement_epoch cell) position velocity\<rparr>)"

definition local_aid_update :: "LocalAidCell \<Rightarrow> LocalNavigation \<Rightarrow> LocalNavigation" where
  "local_aid_update cell n =
     (let n = (if la_validity cell AND LOCAL_AID_BAROMETER \<noteq> 0
               then n\<lparr>ln_position_q13 := make3 (\<lambda>a. if a = 2 then blend (at3 (ln_position_q13 n) 2) (la_barometer_q13 cell) 2
                      else at3 (ln_position_q13 n) a)\<rparr>
               else n);
          n = (if la_validity cell AND LOCAL_AID_GPS \<noteq> 0
               then n\<lparr>ln_position_q13 := make3 (\<lambda>a. blend (at3 (ln_position_q13 n) a) (at3 (la_gps_position_q13 cell) a) 3),
                      ln_velocity_q19 := make3 (\<lambda>a. blend (at3 (ln_velocity_q19 n) a) (at3 (la_gps_velocity_q19 cell) a) 3)\<rparr>
               else n)
      in n\<lparr>ln_checksum := hash_local_nav (ln_checksum n) (la_measurement_epoch cell) (ln_position_q13 n) (ln_velocity_q19 n)\<rparr>)"

subsection \<open>Reception\<close>

definition local_deadline_miss :: "LocalFlightComputer \<Rightarrow> LocalFlightComputer" where
  "local_deadline_miss s =
     (let s = s\<lparr>lf_deadline_misses := saturating_inc_u16 (lf_deadline_misses s), lf_alarms := lf_alarms s OR LOCAL_ALARM_DEADLINE\<rparr>
      in if 1 \<le> lf_deadline_misses s then s\<lparr>lf_safe := True, lf_alarms := lf_alarms s OR LOCAL_ALARM_SAFE\<rparr> else s)"

definition local_inertial_valid :: "LocalInertialCell \<Rightarrow> bool \<Rightarrow> LocalFlightComputer \<Rightarrow> bool" where
  "local_inertial_valid inertial present s \<longleftrightarrow> present \<and> li_session inertial = lcf_session (lf_config s)
     \<and> li_measurement_epoch inertial = lf_epoch s \<and> li_production_epoch inertial = lf_epoch s"

definition local_receive :: "LocalInertialCell \<Rightarrow> bool \<Rightarrow> LocalFlightComputer \<Rightarrow> LocalFlightComputer" where
  "local_receive inertial present s =
     (if local_inertial_valid inertial present s
      then s\<lparr>lf_navigation := local_inertial_update inertial (lf_navigation s), lf_missing := 0\<rparr>
      else
      let s = s\<lparr>lf_missing := saturating_inc_u8 (lf_missing s), lf_alarms := lf_alarms s OR (LOCAL_ALARM_INERTIAL OR LOCAL_ALARM_LINK)\<rparr>
      in if 3 \<le> lf_missing s then s\<lparr>lf_safe := True, lf_alarms := lf_alarms s OR LOCAL_ALARM_SAFE\<rparr> else s)"

definition local_aid_valid :: "LocalAidCell \<Rightarrow> bool \<Rightarrow> LocalFlightComputer \<Rightarrow> bool" where
  "local_aid_valid aid present s \<longleftrightarrow> present \<and> la_session aid = lcf_session (lf_config s)
     \<and> la_measurement_epoch aid \<le> la_production_epoch aid \<and> la_production_epoch aid \<le> lf_epoch s
     \<and> lf_epoch s - la_production_epoch aid \<le> 32"

definition local_aiding :: "LocalAidCell \<Rightarrow> bool \<Rightarrow> LocalFlightComputer \<Rightarrow> LocalFlightComputer" where
  "local_aiding aid present s =
     (if local_aid_valid aid present s
      then s\<lparr>lf_navigation := local_aid_update aid (lf_navigation s), lf_last_aid := Some aid\<rparr>
      else if present then s\<lparr>lf_alarms := lf_alarms s OR LOCAL_ALARM_AID\<rparr> else s)"

subsection \<open>Flight phase\<close>

definition local_time :: "u16 \<Rightarrow> i32" where
  "local_time e = saturating_mul_i32 (ucast e) 8192"

definition unsigned_abs_i16 :: "i16 \<Rightarrow> u32" where
  "unsigned_abs_i16 x = word_of_int \<bar>sint x\<bar>"

definition measured_powered :: "LocalInertialCell \<Rightarrow> bool \<Rightarrow> LocalFlightComputer \<Rightarrow> bool" where
  "measured_powered inertial present s = (if present then li_vehicle_status inertial AND 2 \<noteq> 0 else lf_last_powered s)"

definition local_detect :: "LocalInertialCell \<Rightarrow> bool \<Rightarrow> i32 \<Rightarrow> LocalFlightComputer \<Rightarrow> LocalFlightComputer" where
  "local_detect inertial present time s =
     (let burning = measured_powered inertial present s;
          s = (if present then s\<lparr>lf_last_powered := burning\<rparr> else s);
          s = s\<lparr>lf_seen_powered := lf_seen_powered s \<or> burning\<rparr>;
          indicator = unsigned_abs_i16 (at3 (li_delta_velocity inertial) 0) + unsigned_abs_i16 (at3 (li_delta_velocity inertial) 1)
            + unsigned_abs_i16 (at3 (li_delta_velocity inertial) 2);
          s = (if present \<and> push_bit 16 1 \<le>s time \<and> 1800 < indicator then s\<lparr>lf_launched := True\<rparr> else s);
          s = (if lf_launched s \<and> minimum_arming_time_q18 (lf_config s) \<le>s time
                 \<and> minimum_arming_altitude_q13 (lf_config s) \<le>s at3 (ln_position_q13 (lf_navigation s)) 2
               then s\<lparr>lf_armed := True\<rparr> else s)
      in if lf_seen_powered s \<and> \<not> burning \<and> burnout_qualification_time_q18 (lf_config s) \<le>s time
         then s\<lparr>lf_burnout_qualified := True\<rparr> else s)"

subsection \<open>Recovery\<close>

definition aid_continuity :: "LocalFlightComputer \<Rightarrow> bool" where
  "aid_continuity s =
     (case lf_last_aid s of Some a \<Rightarrow> la_validity a AND LOCAL_AID_CONTINUITY \<noteq> 0 \<and> la_continuity a AND 1 \<noteq> 0 | None \<Rightarrow> False)"

definition aid_feedback :: "LocalFlightComputer \<Rightarrow> u16" where
  "aid_feedback s =
     (case lf_last_aid s of
        Some a \<Rightarrow> if la_validity a AND LOCAL_AID_DEPLOYMENT_FEEDBACK \<noteq> 0 then la_deployment_feedback a else 0
      | None \<Rightarrow> 0)"

definition count_descent :: "LocalFlightComputer \<Rightarrow> LocalFlightComputer" where
  "count_descent s =
     s\<lparr>lf_descending_count := (if lf_burnout_qualified s \<and> at3 (ln_velocity_q19 (lf_navigation s)) 2 <s 0
        then saturating_inc_u8 (lf_descending_count s) else 0)\<rparr>"

definition local_drogue_due :: "i32 \<Rightarrow> LocalFlightComputer \<Rightarrow> bool" where
  "local_drogue_due time s \<longleftrightarrow> lf_armed s \<and> lf_burnout_qualified s \<and> 2 \<le> lf_descending_count s
     \<or> lf_armed s \<and> drogue_backup_time_q18 (lf_config s) \<le>s time"

definition local_drogue :: "i32 \<Rightarrow> LocalFlightComputer \<Rightarrow> u8 \<times> LocalFlightComputer" where
  "local_drogue time s =
     (if \<not> lf_drogue_latched s \<and> local_drogue_due time s then
        if aid_continuity s then (LOCAL_COMMAND_DROGUE, s\<lparr>lf_drogue_latched := True, lf_drogue_time_q18 := time\<rparr>)
        else (0, s\<lparr>lf_alarms := lf_alarms s OR LOCAL_ALARM_RECOVERY\<rparr>)
      else (0, s))"

definition local_separated :: "i32 \<Rightarrow> LocalFlightComputer \<Rightarrow> bool" where
  "local_separated time s \<longleftrightarrow>
     minimum_deployment_separation_q18 (lf_config s) \<le>s saturating_sub_i32 time (lf_drogue_time_q18 s)"

definition local_main_due :: "i32 \<Rightarrow> LocalFlightComputer \<Rightarrow> bool" where
  "local_main_due time s \<longleftrightarrow> lf_drogue_latched s \<and> aid_feedback s AND 1 \<noteq> 0 \<and> local_separated time s
       \<and> at3 (ln_velocity_q19 (lf_navigation s)) 2 <s 0
       \<and> at3 (ln_position_q13 (lf_navigation s)) 2 \<le>s main_altitude_q13 (lf_config s)
     \<or> lf_drogue_latched s \<and> local_separated time s \<and> main_backup_time_q18 (lf_config s) \<le>s time"

definition local_main :: "i32 \<Rightarrow> LocalFlightComputer \<Rightarrow> u8 \<times> LocalFlightComputer" where
  "local_main time s =
     (if \<not> lf_main_latched s \<and> local_main_due time s then
        if aid_continuity s then (LOCAL_COMMAND_MAIN, s\<lparr>lf_main_latched := True\<rparr>)
        else (0, s\<lparr>lf_alarms := lf_alarms s OR LOCAL_ALARM_RECOVERY\<rparr>)
      else (0, s))"

definition local_recovery :: "u16 \<Rightarrow> i32 \<Rightarrow> LocalFlightComputer \<Rightarrow> u8 \<times> LocalFlightComputer" where
  "local_recovery e time s =
     (if e AND 3 = 0 then
        let (d, s) = local_drogue time (count_descent s);
            (m, s) = local_main time s
        in (d OR m, s)
      else (0, s))"

subsection \<open>Control\<close>

definition saturating_sub_i16 :: "i16 \<Rightarrow> i16 \<Rightarrow> i16" where
  "saturating_sub_i16 a b = word_of_int (clamp_int (- (2 ^ 15)) (2 ^ 15 - 1) (sint a - sint b))"

definition local_axis_demand :: "LocalInertialCell \<Rightarrow> LocalFlightComputer \<Rightarrow> nat \<Rightarrow> i16" where
  "local_axis_demand value s a =
     (let angle = scast (saturating_sub_i16 (at3 (li_platform_angle value) (a + 1)) (at3 (lf_attitude_target s) (a + 1))) :: i32;
          rate = scast (at3 (li_angular_rate value) (a + 1)) :: i32;
          p = signed_drop_bit 15 (- angle * scast (lcf_proportional_gain_q15 (lf_config s)));
          d = signed_drop_bit 15 (- rate * scast (lcf_derivative_gain_q15 (lf_config s)))
      in clamp_i16 (saturating_add_i32 p d))"

definition local_demand :: "LocalInertialCell \<Rightarrow> bool \<Rightarrow> LocalFlightComputer \<Rightarrow> i16 \<times> i16" where
  "local_demand inertial present s =
     (if present then (local_axis_demand inertial s 0, local_axis_demand inertial s 1)
      else lc_control_demand (lf_last_command s))"

definition clamp_to :: "i16 \<Rightarrow> i16 \<Rightarrow> i16" where
  "clamp_to limit x = (if x <s - limit then - limit else if limit <s x then limit else x)"

definition local_gimbal :: "bool \<Rightarrow> i16 \<times> i16 \<Rightarrow> LocalFlightComputer \<Rightarrow> i16 \<times> i16" where
  "local_gimbal burning demand s =
     (if \<not> lf_safe s \<and> lf_missing s \<le> 2 \<and> burning \<and> capability (lf_config s) = TwoAxisGimbal then
        if lf_missing s = 0
        then (clamp_to (gimbal_limit_q15 (lf_config s)) (fst demand), clamp_to (gimbal_limit_q15 (lf_config s)) (snd demand))
        else lc_gimbal (lf_last_command s)
      else (0, 0))"

definition local_command :: "u16 \<Rightarrow> u8 \<Rightarrow> i16 \<times> i16 \<Rightarrow> bool \<Rightarrow> LocalFlightComputer \<Rightarrow> LocalCommandCell" where
  "local_command e orders demand burning s =
     \<lparr>lc_session = lcf_session (lf_config s), lc_source_epoch = e, lc_effective_epoch = e + 1, lc_flags = of_bool (lf_safe s),
      lc_discrete = (if lf_safe s then LOCAL_COMMAND_SAFE else orders), lc_gimbal = local_gimbal burning demand s,
      lc_control_demand = demand, lc_status = lf_alarms s\<rparr>"

definition local_mode :: "LocalFlightComputer \<Rightarrow> u8" where
  "local_mode s =
     (if lf_safe s then 7 else if lf_main_latched s then 5 else if lf_drogue_latched s then 4 else if lf_armed s then 2 else 1)"

definition local_status :: "u16 \<Rightarrow> LocalFlightComputer \<Rightarrow> LocalStatusCell option" where
  "local_status e s =
     (if e AND 3 = 0
      then Some \<lparr>ls_session = lcf_session (lf_config s), ls_source_epoch = e, ls_production_epoch = e, ls_mode = local_mode s,
        ls_flags = 0, ls_alarms = lf_alarms s, ls_navigation_position_q13 = ln_position_q13 (lf_navigation s),
        ls_navigation_velocity_q19 = ln_velocity_q19 (lf_navigation s), ls_flight_checksum = lf_flight_checksum s,
        ls_deadline_misses = lf_deadline_misses s, ls_navigation_checksum = ucast (ln_checksum (lf_navigation s))\<rparr>
      else None)"

subsection \<open>The tick\<close>

definition tick_in_place :: "LocalInertialCell \<Rightarrow> bool \<Rightarrow> LocalAidCell \<Rightarrow> bool \<Rightarrow> LocalFlightComputer \<Rightarrow> LocalFlightComputer" where
  "tick_in_place inertial inertial_present aid aid_present s =
     (let e = lf_epoch s; time = local_time e;
          s = local_aiding aid aid_present (local_receive inertial inertial_present s);
          burning = measured_powered inertial inertial_present s;
          (orders, s) = local_recovery e time (local_detect inertial inertial_present time s);
          cmd = local_command e orders (local_demand inertial inertial_present s) burning s;
          s = s\<lparr>lf_flight_checksum := hash_local_command (lf_flight_checksum s) cmd, lf_last_command := cmd\<rparr>
      in s\<lparr>lf_last_status := local_status e s, lf_epoch := lf_epoch s + 1\<rparr>)"

definition local_evidence :: "LocalFlightComputer \<Rightarrow> LocalFlightEvidence" where
  "local_evidence s =
     \<lparr>le_command = lf_last_command s, le_status = lf_last_status s, le_navigation = lf_navigation s, le_safe = lf_safe s,
      le_armed = lf_armed s, le_drogue_latched = lf_drogue_latched s, le_main_latched = lf_main_latched s,
      le_alarms = lf_alarms s, le_flight_checksum = lf_flight_checksum s, le_deadline_misses = lf_deadline_misses s\<rparr>"

definition missing_inertial :: LocalInertialCell where
  "missing_inertial = \<lparr>li_session = 0, li_measurement_epoch = 0, li_production_epoch = 0, li_validity = 0, li_flags = 0,
     li_platform_angle = (0, 0, 0), li_angular_rate = (0, 0, 0), li_delta_velocity = (0, 0, 0),
     li_gimbal_applied = (0, 0), li_vehicle_status = 0, li_actuator_feedback = 0\<rparr>"

definition missing_aid :: LocalAidCell where
  "missing_aid = \<lparr>la_session = 0, la_measurement_epoch = 0, la_production_epoch = 0, la_validity = 0, la_events = 0,
     la_onboard_time_q18 = 0, la_barometer_q13 = 0, la_gps_position_q13 = (0, 0, 0), la_gps_velocity_q19 = (0, 0, 0),
     la_attitude_vector = (0, 0, 0), la_continuity = 0, la_deployment_feedback = 0, la_vehicle_status = 0, la_clock_flags = 0\<rparr>"

definition local_tick :: "LocalInertialCell option \<Rightarrow> LocalAidCell option \<Rightarrow> LocalFlightComputer
    \<Rightarrow> LocalFlightEvidence \<times> LocalFlightComputer" where
  "local_tick inertial aid s =
     (let s = tick_in_place (case inertial of Some c \<Rightarrow> c | None \<Rightarrow> missing_inertial) (inertial \<noteq> None)
                (case aid of Some c \<Rightarrow> c | None \<Rightarrow> missing_aid) (aid \<noteq> None) s
      in (local_evidence s, s))"

end
