(* ===== verification/Local_Safety.thy ===== *)
theory Local_Safety
  imports Local_Flight
begin

text \<open>
  What the local flight computer promises over every history of its operations: numbered
  and transmissible commands within the gimbal's limit, each recovery order at most once and in
  order, and a safe state that is latched and inert, which silences the recovery orders too.
\<close>

unbundle bit_operations_syntax

subsection \<open>Histories\<close>

datatype local_op = LocalTick LocalInertialCell bool LocalAidCell bool | LocalDeadlineMiss

fun local_step :: "local_op \<Rightarrow> LocalFlightComputer \<Rightarrow> LocalFlightEvidence list \<times> LocalFlightComputer" where
  "local_step (LocalTick i p a q) s = ([local_evidence (tick_in_place i p a q s)], tick_in_place i p a q s)"
| "local_step LocalDeadlineMiss s = ([], local_deadline_miss s)"

fun local_run :: "local_op list \<Rightarrow> LocalFlightComputer \<Rightarrow> LocalFlightEvidence list \<times> LocalFlightComputer" where
  "local_run [] s = ([], s)"
| "local_run (x # xs) s = (let (es, s) = local_step x s; (fs, s) = local_run xs s in (es @ fs, s))"

definition orders_local_drogue :: "LocalFlightEvidence \<Rightarrow> bool" where
  "orders_local_drogue e \<longleftrightarrow> lc_discrete (le_command e) AND LOCAL_COMMAND_DROGUE \<noteq> 0"

definition orders_local_main :: "LocalFlightEvidence \<Rightarrow> bool" where
  "orders_local_main e \<longleftrightarrow> lc_discrete (le_command e) AND LOCAL_COMMAND_MAIN \<noteq> 0"

subsection \<open>The stages of a tick\<close>

lemma local_receive_effect [simp]:
  "lf_config (local_receive i p s) = lf_config s" "lf_epoch (local_receive i p s) = lf_epoch s"
  "lf_last_command (local_receive i p s) = lf_last_command s" "lf_last_aid (local_receive i p s) = lf_last_aid s"
  "lf_drogue_latched (local_receive i p s) = lf_drogue_latched s" "lf_main_latched (local_receive i p s) = lf_main_latched s"
  "lf_drogue_time_q18 (local_receive i p s) = lf_drogue_time_q18 s" "lf_armed (local_receive i p s) = lf_armed s"
  "lf_missing (local_receive i p s) = (if local_inertial_valid i p s then 0 else saturating_inc_u8 (lf_missing s))"
  "lf_safe (local_receive i p s) \<longleftrightarrow> lf_safe s \<or> \<not> local_inertial_valid i p s \<and> 3 \<le> saturating_inc_u8 (lf_missing s)"
  by (simp_all add: local_receive_def Let_def)

lemma local_aiding_effect [simp]:
  "lf_config (local_aiding a q s) = lf_config s" "lf_epoch (local_aiding a q s) = lf_epoch s"
  "lf_last_command (local_aiding a q s) = lf_last_command s" "lf_missing (local_aiding a q s) = lf_missing s"
  "lf_safe (local_aiding a q s) = lf_safe s" "lf_armed (local_aiding a q s) = lf_armed s"
  "lf_drogue_latched (local_aiding a q s) = lf_drogue_latched s" "lf_main_latched (local_aiding a q s) = lf_main_latched s"
  "lf_drogue_time_q18 (local_aiding a q s) = lf_drogue_time_q18 s"
  "lf_last_aid (local_aiding a q s) = (if local_aid_valid a q s then Some a else lf_last_aid s)"
  by (simp_all add: local_aiding_def)

lemma local_detect_effect [simp]:
  "lf_config (local_detect i p t s) = lf_config s" "lf_epoch (local_detect i p t s) = lf_epoch s"
  "lf_last_command (local_detect i p t s) = lf_last_command s" "lf_missing (local_detect i p t s) = lf_missing s"
  "lf_safe (local_detect i p t s) = lf_safe s" "lf_last_aid (local_detect i p t s) = lf_last_aid s"
  "lf_drogue_latched (local_detect i p t s) = lf_drogue_latched s" "lf_main_latched (local_detect i p t s) = lf_main_latched s"
  "lf_drogue_time_q18 (local_detect i p t s) = lf_drogue_time_q18 s" "lf_armed s \<Longrightarrow> lf_armed (local_detect i p t s)"
  by (simp_all add: local_detect_def Let_def)

lemma count_descent_effect [simp]:
  "lf_config (count_descent s) = lf_config s" "lf_drogue_latched (count_descent s) = lf_drogue_latched s"
  "lf_main_latched (count_descent s) = lf_main_latched s" "lf_armed (count_descent s) = lf_armed s"
  "lf_last_aid (count_descent s) = lf_last_aid s" "aid_continuity (count_descent s) = aid_continuity s"
  by (simp_all add: count_descent_def aid_continuity_def)

lemma local_recovery_frame:
  assumes "local_recovery e t s = (d, s')"
  shows "lf_config s' = lf_config s" "lf_epoch s' = lf_epoch s" "lf_last_command s' = lf_last_command s"
    "lf_missing s' = lf_missing s" "lf_safe s' = lf_safe s" "lf_attitude_target s' = lf_attitude_target s"
  using assms by (auto simp: local_recovery_def local_drogue_def local_main_def count_descent_def Let_def split: if_splits prod.splits)

lemma recovery_codes [simp]:
  "LOCAL_COMMAND_DROGUE AND LOCAL_COMMAND_DROGUE = LOCAL_COMMAND_DROGUE" "LOCAL_COMMAND_DROGUE \<noteq> 0"
  "LOCAL_COMMAND_MAIN AND LOCAL_COMMAND_MAIN = LOCAL_COMMAND_MAIN" "LOCAL_COMMAND_MAIN \<noteq> 0"
  "LOCAL_COMMAND_DROGUE AND LOCAL_COMMAND_MAIN = 0" "LOCAL_COMMAND_MAIN AND LOCAL_COMMAND_DROGUE = 0"
  "LOCAL_COMMAND_SAFE AND LOCAL_COMMAND_DROGUE = 0" "LOCAL_COMMAND_SAFE AND LOCAL_COMMAND_MAIN = 0"
  by (simp_all add: LOCAL_COMMAND_DROGUE_def LOCAL_COMMAND_MAIN_def LOCAL_COMMAND_SAFE_def)

lemma fresh_not_separated:
  "local_config_valid (lf_config s) \<Longrightarrow> lf_drogue_time_q18 s = t \<Longrightarrow> \<not> local_separated t s"
  by (auto simp: local_separated_def local_config_valid_def saturating_sub_i32_def sat_i32_def word_sle_eq word_sless_alt)

lemma local_recovery_latches:
  assumes "local_recovery e t s = (d, s')" "local_config_valid (lf_config s)"
  shows "d AND LOCAL_COMMAND_DROGUE \<noteq> 0 \<longleftrightarrow> \<not> lf_drogue_latched s \<and> lf_drogue_latched s'"
    "d AND LOCAL_COMMAND_MAIN \<noteq> 0 \<longleftrightarrow> \<not> lf_main_latched s \<and> lf_main_latched s'"
    "lf_drogue_latched s \<Longrightarrow> lf_drogue_latched s'" "lf_main_latched s \<Longrightarrow> lf_main_latched s'"
    "lf_main_latched s' \<Longrightarrow> lf_main_latched s \<or> lf_drogue_latched s" "d \<in> {0, LOCAL_COMMAND_DROGUE, LOCAL_COMMAND_MAIN}"
proof -
  have main: "\<not> local_main_due t (snd (local_drogue t s))" if "fst (local_drogue t s) \<noteq> 0" "lf_config s = lf_config s1" "local_config_valid (lf_config s1)"
    for s s1
    using that fresh_not_separated [of "s\<lparr>lf_drogue_latched := True, lf_drogue_time_q18 := t\<rparr>" t]
    by (auto simp: local_drogue_def local_main_due_def split: if_splits)
  note m = main [of "count_descent s" s, simplified]
  show "d AND LOCAL_COMMAND_DROGUE \<noteq> 0 \<longleftrightarrow> \<not> lf_drogue_latched s \<and> lf_drogue_latched s'"
    "d AND LOCAL_COMMAND_MAIN \<noteq> 0 \<longleftrightarrow> \<not> lf_main_latched s \<and> lf_main_latched s'"
    "lf_drogue_latched s \<Longrightarrow> lf_drogue_latched s'" "lf_main_latched s \<Longrightarrow> lf_main_latched s'"
    "lf_main_latched s' \<Longrightarrow> lf_main_latched s \<or> lf_drogue_latched s" "d \<in> {0, LOCAL_COMMAND_DROGUE, LOCAL_COMMAND_MAIN}"
    using assms m
    by (auto simp: local_recovery_def local_drogue_def local_main_def local_main_due_def Let_def split: if_splits prod.splits)
qed

subsection \<open>One tick\<close>

definition local_updated :: "LocalInertialCell \<Rightarrow> bool \<Rightarrow> LocalAidCell \<Rightarrow> bool \<Rightarrow> LocalFlightComputer \<Rightarrow> LocalFlightComputer" where
  "local_updated i p a q s = local_aiding a q (local_receive i p s)"

lemma local_updated_effect [simp]:
  "lf_config (local_updated i p a q s) = lf_config s" "lf_epoch (local_updated i p a q s) = lf_epoch s"
  "lf_last_command (local_updated i p a q s) = lf_last_command s" "lf_armed (local_updated i p a q s) = lf_armed s"
  "lf_drogue_latched (local_updated i p a q s) = lf_drogue_latched s" "lf_main_latched (local_updated i p a q s) = lf_main_latched s"
  "lf_missing (local_updated i p a q s) = (if local_inertial_valid i p s then 0 else saturating_inc_u8 (lf_missing s))"
  "lf_safe (local_updated i p a q s) \<longleftrightarrow> lf_safe s \<or> \<not> local_inertial_valid i p s \<and> 3 \<le> saturating_inc_u8 (lf_missing s)"
  by (simp_all add: local_updated_def)

lemma tick_stages:
  obtains orders r where
    "local_recovery (lf_epoch s) (local_time (lf_epoch s)) (local_detect i p (local_time (lf_epoch s)) (local_updated i p a q s)) = (orders, r)"
    "lf_last_command (tick_in_place i p a q s)
       = local_command (lf_epoch s) orders (local_demand i p r) (measured_powered i p (local_updated i p a q s)) r"
    "lf_config (tick_in_place i p a q s) = lf_config r" "lf_epoch (tick_in_place i p a q s) = lf_epoch r + 1"
    "lf_safe (tick_in_place i p a q s) = lf_safe r" "lf_missing (tick_in_place i p a q s) = lf_missing r"
    "lf_drogue_latched (tick_in_place i p a q s) = lf_drogue_latched r" "lf_main_latched (tick_in_place i p a q s) = lf_main_latched r"
proof -
  obtain orders r where r: "local_recovery (lf_epoch s) (local_time (lf_epoch s))
      (local_detect i p (local_time (lf_epoch s)) (local_updated i p a q s)) = (orders, r)" by fastforce
  show ?thesis
    by (rule that [OF r]) (simp_all add: tick_in_place_def Let_def r local_updated_def [symmetric])
qed

definition gimbal_within :: "LocalFlightConfig \<Rightarrow> i16 \<times> i16 \<Rightarrow> bool" where
  "gimbal_within c g \<longleftrightarrow> (if capability c = TwoAxisGimbal
     then \<bar>sint (fst g)\<bar> \<le> sint (gimbal_limit_q15 c) \<and> \<bar>sint (snd g)\<bar> \<le> sint (gimbal_limit_q15 c) else g = (0, 0))"

lemma sint_neg_i16: "0 \<le> sint (x :: i16) \<Longrightarrow> sint (- x) = - sint x"
proof -
  assume nonneg: "0 \<le> sint x"
  have "(- x) = (word_of_int (- sint x) :: i16)" by simp
  then have "sint (- x) = sint (word_of_int (- sint x) :: i16)" by simp
  also have "\<dots> = - sint x" using nonneg sint_i16_range [of x] by (intro sint_of_int_i16) simp_all
  finally show ?thesis .
qed

lemma clamp_to_within: "0 \<le> sint limit \<Longrightarrow> \<bar>sint (clamp_to limit x)\<bar> \<le> sint limit"
  by (auto simp: clamp_to_def word_sless_alt sint_neg_i16)

lemma local_gimbal_within:
  assumes "local_config_valid (lf_config s)" "gimbal_within (lf_config s) (lc_gimbal (lf_last_command s))"
  shows "gimbal_within (lf_config s) (local_gimbal burning demand s)"
  using assms clamp_to_within [of "gimbal_limit_q15 (lf_config s)"]
  by (auto simp: gimbal_within_def local_gimbal_def local_config_valid_def word_sle_eq)

definition local_inv :: "LocalFlightComputer \<Rightarrow> bool" where
  "local_inv s \<longleftrightarrow> local_config_valid (lf_config s) \<and> gimbal_within (lf_config s) (lc_gimbal (lf_last_command s))
     \<and> (lf_main_latched s \<longrightarrow> lf_drogue_latched s)"

definition inert_local :: "LocalCommandCell \<Rightarrow> bool" where
  "inert_local c \<longleftrightarrow> lc_gimbal c = (0, 0) \<and> lc_discrete c = LOCAL_COMMAND_SAFE \<and> lc_flags c = 1"

lemma tick_effect:
  assumes "local_inv s" "s' = tick_in_place i p a q s" "c = lf_last_command s'"
  shows "local_inv s'" "lf_config s' = lf_config s" "lf_epoch s' = lf_epoch s + 1"
    "lf_missing s' = (if local_inertial_valid i p s then 0 else saturating_inc_u8 (lf_missing s))"
    "lf_safe s' \<longleftrightarrow> lf_safe s \<or> \<not> local_inertial_valid i p s \<and> 3 \<le> lf_missing s'"
    "lc_session c = lcf_session (lf_config s)" "lc_source_epoch c = lf_epoch s" "lc_effective_epoch c = lf_epoch s + 1"
    "lf_safe s' \<Longrightarrow> inert_local c" "gimbal_within (lf_config s) (lc_gimbal c)"
    "lc_discrete c AND LOCAL_COMMAND_DROGUE \<noteq> 0 \<longleftrightarrow> \<not> lf_safe s' \<and> \<not> lf_drogue_latched s \<and> lf_drogue_latched s'"
    "lc_discrete c AND LOCAL_COMMAND_MAIN \<noteq> 0 \<longleftrightarrow> \<not> lf_safe s' \<and> \<not> lf_main_latched s \<and> lf_main_latched s'"
    "lf_drogue_latched s \<Longrightarrow> lf_drogue_latched s'" "lf_main_latched s \<Longrightarrow> lf_main_latched s'"
    "lf_main_latched s' \<Longrightarrow> lf_main_latched s \<or> lf_drogue_latched s"
    "lc_discrete c \<in> {0, LOCAL_COMMAND_DROGUE, LOCAL_COMMAND_MAIN, LOCAL_COMMAND_SAFE}"
proof -
  obtain orders r where r: "local_recovery (lf_epoch s) (local_time (lf_epoch s))
      (local_detect i p (local_time (lf_epoch s)) (local_updated i p a q s)) = (orders, r)"
    and t: "c = local_command (lf_epoch s) orders (local_demand i p r) (measured_powered i p (local_updated i p a q s)) r"
      "lf_config s' = lf_config r" "lf_epoch s' = lf_epoch r + 1" "lf_safe s' = lf_safe r" "lf_missing s' = lf_missing r"
      "lf_drogue_latched s' = lf_drogue_latched r" "lf_main_latched s' = lf_main_latched r"
    unfolding assms(2,3) by (rule tick_stages)
  note f = local_recovery_frame [OF r, simplified]
  have valid: "local_config_valid (lf_config s)" using assms(1) by (simp add: local_inv_def)
  note l = local_recovery_latches [OF r, simplified, OF valid]
  show conf: "lf_config s' = lf_config s" and "lf_epoch s' = lf_epoch s + 1"
    and m: "lf_missing s' = (if local_inertial_valid i p s then 0 else saturating_inc_u8 (lf_missing s))"
    using t f by simp_all
  then show "lf_safe s' \<longleftrightarrow> lf_safe s \<or> \<not> local_inertial_valid i p s \<and> 3 \<le> lf_missing s'" using t f by simp
  show "lc_session c = lcf_session (lf_config s)" "lc_source_epoch c = lf_epoch s" "lc_effective_epoch c = lf_epoch s + 1"
    using t(1) f by (simp_all add: local_command_def)
  show "inert_local c" if "lf_safe s'" using that t by (simp add: inert_local_def local_command_def local_gimbal_def)
  show g: "gimbal_within (lf_config s) (lc_gimbal c)"
    using local_gimbal_within [of r] assms(1) f t(1) by (simp add: local_command_def local_inv_def)
  show "lf_drogue_latched s \<Longrightarrow> lf_drogue_latched s'" "lf_main_latched s \<Longrightarrow> lf_main_latched s'"
    and md: "lf_main_latched s' \<Longrightarrow> lf_main_latched s \<or> lf_drogue_latched s"
    using l t by simp_all
  then show "local_inv s'" using assms(1,3) valid g conf by (auto simp: local_inv_def)
  have d: "lc_discrete c = (if lf_safe s' then LOCAL_COMMAND_SAFE else orders)" using t by (simp add: local_command_def)
  then show "lc_discrete c AND LOCAL_COMMAND_DROGUE \<noteq> 0 \<longleftrightarrow> \<not> lf_safe s' \<and> \<not> lf_drogue_latched s \<and> lf_drogue_latched s'"
    "lc_discrete c AND LOCAL_COMMAND_MAIN \<noteq> 0 \<longleftrightarrow> \<not> lf_safe s' \<and> \<not> lf_main_latched s \<and> lf_main_latched s'"
    "lc_discrete c \<in> {0, LOCAL_COMMAND_DROGUE, LOCAL_COMMAND_MAIN, LOCAL_COMMAND_SAFE}"
    using l(1,2,6) t by auto
qed

lemma new_local_flight_inv: "new_local_flight cfg position attitude = Some s \<Longrightarrow> local_inv s"
  by (auto simp: new_local_flight_def local_inv_def gimbal_within_def local_config_valid_def word_sle_eq split: if_splits)

lemma saturating_inc_u16_positive: "1 \<le> saturating_inc_u16 x"
proof -
  have "saturating_inc_u16 x \<noteq> 0" by (auto simp: saturating_inc_u16_def add_eq_0_iff2)
  then have "unat (saturating_inc_u16 x) \<noteq> 0" by (simp add: unat_eq_zero)
  then show ?thesis unfolding word_le_nat_alt by simp
qed

lemma deadline_miss_effect [simp]:
  "lf_safe (local_deadline_miss s)" "local_inv (local_deadline_miss s) = local_inv s"
  "lf_config (local_deadline_miss s) = lf_config s" "lf_epoch (local_deadline_miss s) = lf_epoch s"
  "lf_drogue_latched (local_deadline_miss s) = lf_drogue_latched s" "lf_main_latched (local_deadline_miss s) = lf_main_latched s"
  "lf_last_command (local_deadline_miss s) = lf_last_command s"
  by (simp_all add: local_deadline_miss_def local_inv_def Let_def saturating_inc_u16_positive)

subsection \<open>Runs\<close>

lemma local_evidence_fields [simp]:
  "le_command (local_evidence s) = lf_last_command s" "le_safe (local_evidence s) = lf_safe s"
  "le_drogue_latched (local_evidence s) = lf_drogue_latched s" "le_main_latched (local_evidence s) = lf_main_latched s"
  by (simp_all add: local_evidence_def)

definition local_command_ok :: "LocalFlightConfig \<Rightarrow> u16 \<Rightarrow> LocalFlightEvidence \<Rightarrow> bool" where
  "local_command_ok cfg e v \<longleftrightarrow> lc_session (le_command v) = lcf_session cfg \<and> lc_source_epoch (le_command v) = e
     \<and> lc_effective_epoch (le_command v) = e + 1 \<and> gimbal_within cfg (lc_gimbal (le_command v))
     \<and> lc_discrete (le_command v) AND NOT LOCAL_COMMAND_DISCRETE_MASK = 0 \<and> (le_safe v \<longrightarrow> inert_local (le_command v))"

lemma tick_command_ok:
  assumes "local_inv s"
  shows "local_command_ok (lf_config s) (lf_epoch s) (local_evidence (tick_in_place i p a q s))"
  using tick_effect(6-10,16) [OF assms refl refl, of i p a q]
  by (auto simp: local_command_ok_def LOCAL_COMMAND_DROGUE_def LOCAL_COMMAND_MAIN_def LOCAL_COMMAND_SAFE_def
      LOCAL_COMMAND_DISCRETE_MASK_def)

lemma local_run_commands:
  assumes "local_inv s"
  shows "(\<forall>i < length (fst (local_run ops s)). local_command_ok (lf_config s) (lf_epoch s + of_nat i) (fst (local_run ops s) ! i))
   \<and> (\<forall>i j. i \<le> j \<longrightarrow> j < length (fst (local_run ops s)) \<longrightarrow> le_safe (fst (local_run ops s) ! i) \<longrightarrow> le_safe (fst (local_run ops s) ! j))
   \<and> (lf_safe s \<longrightarrow> (\<forall>i < length (fst (local_run ops s)). le_safe (fst (local_run ops s) ! i)))"
  using assms
proof (induction ops arbitrary: s)
  case (Cons x ops)
  show ?case
  proof (cases x)
    case (LocalTick i p a q)
    let ?s' = "tick_in_place i p a q s"
    note eff = tick_effect(1-3,5) [OF Cons.prems refl refl, of i p a q]
    have run: "fst (local_run (x # ops) s) = local_evidence ?s' # fst (local_run ops ?s')"
      using LocalTick by (simp add: case_prod_beta)
    have ep: "lf_epoch s + of_nat (Suc k) = lf_epoch ?s' + of_nat k" for k by (simp add: eff)
    show ?thesis
      unfolding run using Cons.IH [OF eff(1)] tick_command_ok [OF Cons.prems, of i p a q] eff(2-4)
      by (auto simp: nth_Cons ep split: nat.splits simp del: of_nat_Suc)
  next
    case LocalDeadlineMiss
    then show ?thesis using Cons.IH [of "local_deadline_miss s"] Cons.prems by (simp add: case_prod_beta)
  qed
qed simp

lemma safe_run_silent:
  assumes "local_inv s" "lf_safe s" "v \<in> set (fst (local_run ops s))"
  shows "le_safe v \<and> inert_local (le_command v) \<and> \<not> orders_local_drogue v \<and> \<not> orders_local_main v"
proof -
  obtain i where i: "i < length (fst (local_run ops s))" "v = fst (local_run ops s) ! i"
    using assms(3) by (auto simp: in_set_conv_nth)
  then have "le_safe v" "local_command_ok (lf_config s) (lf_epoch s + of_nat i) v"
    using local_run_commands [OF assms(1), of ops] assms(2) by auto
  then show ?thesis by (simp add: local_command_ok_def inert_local_def orders_local_drogue_def orders_local_main_def)
qed

text \<open>
  Over every history of ticks and deadline misses, the commands of a local flight computer carry its
  session and consecutive epochs, keep the gimbal within the configured limit, and at zero
  when the configuration only monitors, and survive the command cell codec; once the safe state is
  reported every later command is inert.
\<close>
theorem local_commands_contract:
  assumes "new_local_flight cfg position attitude = Some s" "fst (local_run ops s) = es" "i < length es"
  shows "local_command_ok cfg (of_nat i) (es ! i)
    \<and> (le_safe (es ! i) \<longrightarrow> (\<forall>j. i \<le> j \<and> j < length es \<longrightarrow> le_safe (es ! j) \<and> inert_local (le_command (es ! j))))
    \<and> (\<exists>b. write_local_command (le_command (es ! i)) (replicate 24 0) = (Inr (), b)
        \<and> parse_local_command b = Inr (le_command (es ! i)))"
proof -
  have new: "lf_config s = cfg" "lf_epoch s = 0" using assms(1) by (auto simp: new_local_flight_def split: if_splits)
  note run = local_run_commands [OF new_local_flight_inv [OF assms(1)], of ops, unfolded new assms(2)]
  have ok: "local_command_ok cfg (of_nat j) (es ! j)" if "j < length es" for j using run that by simp
  have latch: "le_safe (es ! j)" if "i \<le> j" "j < length es" "le_safe (es ! i)" for j using run that by blast
  have "inert_local (le_command (es ! j))" if "j < length es" "le_safe (es ! j)" for j
    using ok [OF that(1)] that(2) by (simp add: local_command_ok_def)
  moreover have "lc_discrete (le_command (es ! i)) AND NOT LOCAL_COMMAND_DISCRETE_MASK = 0"
    using ok [OF assms(3)] by (simp add: local_command_ok_def)
  ultimately show ?thesis
    using ok [OF assms(3)] latch local_command.write_parse [of "replicate 24 0" "le_command (es ! i)"] by auto
qed

definition firestorm_config :: LocalFlightConfig where
  "firestorm_config = \<lparr>lcf_session = 0x8501, capability = TwoAxisGimbal, minimum_arming_time_q18 = 262144,
     minimum_arming_altitude_q13 = 81920, burnout_qualification_time_q18 = 786432, drogue_backup_time_q18 = 3932160,
     main_backup_time_q18 = 17039360, main_altitude_q13 = 1638400, minimum_deployment_separation_q18 = 524288,
     lcf_proportional_gain_q15 = 8192, lcf_derivative_gain_q15 = 4096, gimbal_limit_q15 = 455\<rparr>"

lemma firestorm_valid: "local_config_valid firestorm_config"
  by (simp add: local_config_valid_def firestorm_config_def word_sle_eq word_sless_alt)

theorem local_commands_contract_witness:
  "\<exists>s v. new_local_flight firestorm_config (0, 0, 0) (0, 0, 0) = Some s
     \<and> fst (local_run [LocalDeadlineMiss, LocalTick missing_inertial False missing_aid False] s) = [v]
     \<and> local_command_ok firestorm_config 0 v \<and> le_safe v"
proof -
  obtain s where s: "new_local_flight firestorm_config (0, 0, 0) (0, 0, 0) = Some s"
    using firestorm_valid by (simp add: new_local_flight_def)
  let ?t = "tick_in_place missing_inertial False missing_aid False (local_deadline_miss s)"
  have run: "fst (local_run [LocalDeadlineMiss, LocalTick missing_inertial False missing_aid False] s) = [local_evidence ?t]" by simp
  have "lf_safe ?t" using tick_effect(5) [OF _ refl refl] new_local_flight_inv [OF s] by simp
  then show ?thesis using local_commands_contract [OF s run, of 0] s by auto
qed

subsection \<open>Recovery\<close>

lemma tick_orders:
  assumes "local_inv s" "s' = tick_in_place i p a q s"
  shows "orders_local_drogue (local_evidence s') \<longleftrightarrow> \<not> lf_safe s' \<and> \<not> lf_drogue_latched s \<and> lf_drogue_latched s'"
    "orders_local_main (local_evidence s') \<longleftrightarrow> \<not> lf_safe s' \<and> \<not> lf_main_latched s \<and> lf_main_latched s'"
    "orders_local_main (local_evidence s') \<Longrightarrow> lf_drogue_latched s"
  using tick_effect(11,12,15) [OF assms refl] by (auto simp: orders_local_drogue_def orders_local_main_def)

definition recovery_contract :: "bool \<Rightarrow> bool \<Rightarrow> LocalFlightEvidence list \<Rightarrow> bool" where
  "recovery_contract drogue main es \<longleftrightarrow>
     length (filter orders_local_drogue es) \<le> of_bool (\<not> drogue) \<and> length (filter orders_local_main es) \<le> of_bool (\<not> main)
     \<and> (\<forall>j < length es. \<not> le_safe (es ! j) \<longrightarrow>
          le_drogue_latched (es ! j) = (drogue \<or> (\<exists>i \<le> j. orders_local_drogue (es ! i)))
          \<and> le_main_latched (es ! j) = (main \<or> (\<exists>i \<le> j. orders_local_main (es ! i))))
     \<and> (\<forall>j < length es. orders_local_main (es ! j) \<longrightarrow> drogue \<or> (\<exists>i < j. orders_local_drogue (es ! i)))"

lemma ex_le_Cons: "(\<exists>i \<le> Suc j. P ((e # es) ! i)) \<longleftrightarrow> P e \<or> (\<exists>i \<le> j. P (es ! i))"
  "(\<exists>i < Suc j. P ((e # es) ! i)) \<longleftrightarrow> P e \<or> (\<exists>i < j. P (es ! i))"
proof -
  have le: "i \<le> Suc j \<longleftrightarrow> i = 0 \<or> (\<exists>k \<le> j. i = Suc k)" and lt: "i < Suc j \<longleftrightarrow> i = 0 \<or> (\<exists>k < j. i = Suc k)" for i
    by (cases i; auto)+
  show "(\<exists>i \<le> Suc j. P ((e # es) ! i)) \<longleftrightarrow> P e \<or> (\<exists>i \<le> j. P (es ! i))"
    "(\<exists>i < Suc j. P ((e # es) ! i)) \<longleftrightarrow> P e \<or> (\<exists>i < j. P (es ! i))"
    unfolding le lt by auto
qed

lemma recovery_contract_Cons:
  assumes "recovery_contract drogue' main' es"
    "orders_local_drogue e \<longleftrightarrow> \<not> le_safe e \<and> \<not> drogue \<and> drogue'" "orders_local_main e \<longleftrightarrow> \<not> le_safe e \<and> \<not> main \<and> main'"
    "drogue \<Longrightarrow> drogue'" "main \<Longrightarrow> main'" "orders_local_main e \<Longrightarrow> drogue"
    "le_drogue_latched e = drogue'" "le_main_latched e = main'"
    "le_safe e \<Longrightarrow> \<forall>v \<in> set es. le_safe v \<and> \<not> orders_local_drogue v \<and> \<not> orders_local_main v"
  shows "recovery_contract drogue main (e # es)"
  unfolding recovery_contract_def
proof (intro conjI)
  note c = assms(1) [unfolded recovery_contract_def]
  show "length (filter orders_local_drogue (e # es)) \<le> of_bool (\<not> drogue)"
    using c assms(2,4,9) by (cases drogue; cases drogue') (auto simp: filter_empty_conv)
  show "length (filter orders_local_main (e # es)) \<le> of_bool (\<not> main)"
    using c assms(3,5,9) by (cases main; cases main') (auto simp: filter_empty_conv)
  show "\<forall>j < length (e # es). \<not> le_safe ((e # es) ! j) \<longrightarrow>
      le_drogue_latched ((e # es) ! j) = (drogue \<or> (\<exists>i \<le> j. orders_local_drogue ((e # es) ! i)))
      \<and> le_main_latched ((e # es) ! j) = (main \<or> (\<exists>i \<le> j. orders_local_main ((e # es) ! i)))"
  proof (intro allI impI)
    fix j assume j: "j < length (e # es)" "\<not> le_safe ((e # es) ! j)"
    show "le_drogue_latched ((e # es) ! j) = (drogue \<or> (\<exists>i \<le> j. orders_local_drogue ((e # es) ! i)))
      \<and> le_main_latched ((e # es) ! j) = (main \<or> (\<exists>i \<le> j. orders_local_main ((e # es) ! i)))"
    proof (cases j)
      case 0
      then show ?thesis using j assms(2-8) by auto
    next
      case (Suc k)
      then have k: "k < length es" "\<not> le_safe (es ! k)" using j by simp_all
      then have "\<not> le_safe e" using assms(9) by (meson nth_mem)
      then have "drogue' = (drogue \<or> orders_local_drogue e)" "main' = (main \<or> orders_local_main e)" using assms(2-5) by auto
      then show ?thesis unfolding Suc ex_le_Cons using c k by simp
    qed
  qed
  show "\<forall>j < length (e # es). orders_local_main ((e # es) ! j) \<longrightarrow> drogue \<or> (\<exists>i < j. orders_local_drogue ((e # es) ! i))"
  proof (intro allI impI)
    fix j assume j: "j < length (e # es)" "orders_local_main ((e # es) ! j)"
    show "drogue \<or> (\<exists>i < j. orders_local_drogue ((e # es) ! i))"
    proof (cases j)
      case 0
      then show ?thesis using j assms(6) by simp
    next
      case (Suc k)
      then have k: "k < length es" "orders_local_main (es ! k)" using j by simp_all
      then have "\<not> le_safe e" using assms(9) by (meson nth_mem)
      then have "drogue' \<longrightarrow> drogue \<or> orders_local_drogue e" using assms(2) by auto
      then show ?thesis unfolding Suc ex_le_Cons using c k by auto
    qed
  qed
qed

lemma local_run_recovery:
  "local_inv s \<Longrightarrow> recovery_contract (lf_drogue_latched s) (lf_main_latched s) (fst (local_run ops s))"
proof (induction ops arbitrary: s)
  case Nil
  then show ?case by (simp add: recovery_contract_def)
next
  case (Cons x ops)
  show ?case
  proof (cases x)
    case (LocalTick i p a q)
    let ?s' = "tick_in_place i p a q s"
    note eff = tick_effect(1,13,14) [OF Cons.prems refl refl, of i p a q] and o = tick_orders [OF Cons.prems refl, of i p a q]
    have run: "fst (local_run (x # ops) s) = local_evidence ?s' # fst (local_run ops ?s')"
      using LocalTick by (simp add: case_prod_beta)
    show ?thesis unfolding run
    proof (rule recovery_contract_Cons [OF Cons.IH [OF eff(1)]])
      show "\<forall>v \<in> set (fst (local_run ops ?s')). le_safe v \<and> \<not> orders_local_drogue v \<and> \<not> orders_local_main v"
        if "le_safe (local_evidence ?s')"
        using safe_run_silent [OF eff(1)] that by simp
    qed (use eff o in auto)
  next
    case LocalDeadlineMiss
    then show ?thesis using Cons.IH [of "local_deadline_miss s"] Cons.prems by (simp add: case_prod_beta)
  qed
qed

text \<open>
  C14: Over every history, a local flight computer orders each parachute at most once and the main one only
  after it ordered the drogue, and as long as it is not in the safe state its latches are closed exactly when
  the orders were sent.
\<close>
theorem local_recovery_orders:
  assumes "new_local_flight cfg position attitude = Some s"
  shows "recovery_contract False False (fst (local_run ops s))"
proof -
  have "\<not> lf_drogue_latched s" "\<not> lf_main_latched s" using assms by (auto simp: new_local_flight_def split: if_splits)
  then show ?thesis using local_run_recovery [OF new_local_flight_inv [OF assms], of ops] by simp
qed

theorem local_recovery_orders_witness:
  "\<exists>s. new_local_flight firestorm_config (0, 0, 0) (0, 0, 0) = Some s
     \<and> length (filter orders_local_drogue (fst (local_run [LocalTick missing_inertial False missing_aid False, LocalDeadlineMiss] s))) \<le> 1"
proof -
  obtain s where s: "new_local_flight firestorm_config (0, 0, 0) (0, 0, 0) = Some s"
    using firestorm_valid by (simp add: new_local_flight_def)
  show ?thesis
    using local_recovery_orders [OF s, of "[LocalTick missing_inertial False missing_aid False, LocalDeadlineMiss]"] s
    unfolding recovery_contract_def by auto
qed

subsection \<open>Recovery in the safe state\<close>

lemma aid_continuity_cong: "lf_last_aid r = lf_last_aid s \<Longrightarrow> aid_continuity r = aid_continuity s"
  by (simp add: aid_continuity_def)

lemma backup_latches:
  assumes "\<not> lf_drogue_latched s" "lf_epoch s AND 3 = 0" "lf_armed s" "aid_continuity s"
    "drogue_backup_time_q18 (lf_config s) \<le>s local_time (lf_epoch s)"
  shows "lf_drogue_latched (tick_in_place i p a False s)"
proof -
  let ?d = "local_detect i p (local_time (lf_epoch s)) (local_updated i p a False s)"
  obtain orders r where r: "local_recovery (lf_epoch s) (local_time (lf_epoch s)) ?d = (orders, r)"
    and t: "lf_drogue_latched (tick_in_place i p a False s) = lf_drogue_latched r" by (rule tick_stages)
  have "aid_continuity ?d" using assms(4) by (simp add: aid_continuity_def local_updated_def local_aid_valid_def)
  moreover have "local_drogue_due (local_time (lf_epoch s)) (count_descent ?d)"
    using assms(3,5) by (simp add: local_drogue_due_def)
  ultimately have "lf_drogue_latched r"
    using r assms(1,2) by (auto simp: local_recovery_def local_drogue_def local_main_def Let_def split: if_splits prod.splits)
  then show ?thesis by (simp add: t)
qed

text \<open>
  C38: The safe state loses the parachutes: a safe computer that reaches the backup time of the drogue
  in a recovery epoch, armed and with continuity, closes the drogue latch and reports it closed, but the
  command says only safe, and neither that command nor any later one, whatever happens,
  orders a parachute.
\<close>
theorem local_safe_loses_recovery:
  assumes "local_inv s" "lf_safe s" "\<not> lf_drogue_latched s" "lf_epoch s AND 3 = 0" "lf_armed s" "aid_continuity s"
    "drogue_backup_time_q18 (lf_config s) \<le>s local_time (lf_epoch s)"
  shows "\<exists>v vs. fst (local_run (LocalTick i p a False # ops) s) = v # vs \<and> le_drogue_latched v
    \<and> (\<forall>u \<in> set (v # vs). lc_discrete (le_command u) = LOCAL_COMMAND_SAFE \<and> \<not> orders_local_drogue u \<and> \<not> orders_local_main u)"
proof -
  let ?v = "local_evidence (tick_in_place i p a False s)" and ?vs = "fst (local_run ops (tick_in_place i p a False s))"
  have run: "fst (local_run (LocalTick i p a False # ops) s) = ?v # ?vs" by (simp add: case_prod_beta)
  have "le_drogue_latched ?v" using backup_latches [OF assms(3-7)] by simp
  moreover have "lc_discrete (le_command u) = LOCAL_COMMAND_SAFE \<and> \<not> orders_local_drogue u \<and> \<not> orders_local_main u"
    if "u \<in> set (?v # ?vs)" for u
    using safe_run_silent [OF assms(1,2), of u "LocalTick i p a False # ops"] that unfolding run by (simp add: inert_local_def)
  ultimately show ?thesis unfolding run by blast
qed

definition descending_safe :: LocalFlightComputer where
  "descending_safe = (the (new_local_flight firestorm_config (0, 0, 0) (0, 0, 0)))
     \<lparr>lf_epoch := 640, lf_safe := True, lf_armed := True, lf_launched := True,
      lf_last_aid := Some (missing_aid\<lparr>la_session := 0x8501, la_validity := 8, la_continuity := 1\<rparr>)\<rparr>"

theorem local_safe_loses_recovery_witness:
  "\<exists>v vs. fst (local_run [LocalTick missing_inertial False missing_aid False, LocalTick missing_inertial False missing_aid False] descending_safe)
     = v # vs \<and> le_drogue_latched v \<and> lc_discrete (le_command v) = LOCAL_COMMAND_SAFE"
proof -
  have "local_inv descending_safe"
    using firestorm_valid by (simp add: descending_safe_def local_inv_def new_local_flight_def gimbal_within_def)
      (simp add: firestorm_config_def)
  moreover have "aid_continuity descending_safe"
    by (simp add: descending_safe_def aid_continuity_def missing_aid_def LOCAL_AID_CONTINUITY_def)
  moreover have "lf_safe descending_safe" "\<not> lf_drogue_latched descending_safe" "lf_epoch descending_safe AND 3 = 0" "lf_armed descending_safe"
    "drogue_backup_time_q18 (lf_config descending_safe) \<le>s local_time (lf_epoch descending_safe)"
    using firestorm_valid by (simp_all add: descending_safe_def new_local_flight_def firestorm_config_def local_time_def
        saturating_mul_i32_def sat_i32_def clamp_int_def word_sle_eq)
  ultimately show ?thesis
    using local_safe_loses_recovery [of descending_safe missing_inertial False missing_aid
        "[LocalTick missing_inertial False missing_aid False]"] by auto
qed

end
