(* ===== verification/Advanced_Flight.thy ===== *)
theory Advanced_Flight
  imports Advanced_Cells Local_Safety
begin

text \<open>
  The advanced-effector flight computer of phase 9.5 (\<^verbatim>\<open>flight/src/phase9_5.rs\<close>): it wraps
  the local flight computer, estimates air data, adds roll control and turns the demand
  into a torque request.  The blend of demands into effectors is in Effector_Allocator.
\<close>

unbundle bit_operations_syntax

subsection \<open>State\<close>

definition ADVANCED_ALARM_AIR_DATA :: u16 where "ADVANCED_ALARM_AIR_DATA = push_bit 8 1"
definition ADVANCED_ALARM_SUPPLY :: u16 where "ADVANCED_ALARM_SUPPLY = push_bit 9 1"
definition LOCAL_INERTIAL_VALID_PLATFORM :: u8 where "LOCAL_INERTIAL_VALID_PLATFORM = 1"
definition LOCAL_INERTIAL_VALID_RATE :: u8 where "LOCAL_INERTIAL_VALID_RATE = 2"
definition LOCAL_INERTIAL_VALID_DELTA_V :: u8 where "LOCAL_INERTIAL_VALID_DELTA_V = 4"
definition LOCAL_INERTIAL_VALID_ACTUATOR :: u8 where "LOCAL_INERTIAL_VALID_ACTUATOR = 8"
definition LOCAL_AID_ATTITUDE :: u16 where "LOCAL_AID_ATTITUDE = 4"

datatype AirDataSource = Pitot | ConservativeFallback | Unavailable

record AirDataEstimate =
  ad_source :: AirDataSource
  ad_dynamic_pressure_q10 :: i32
  ad_mach_q12 :: i16

record AdvancedFlightConfig =
  acf_local :: LocalFlightConfig
  roll_proportional_gain_q15 :: i16
  roll_derivative_gain_q15 :: i16
  torque_limit_q12 :: "i32 vec3"
  fallback_density_upper_q10 :: i32
  maximum_wind_q19 :: i32
  minimum_sound_speed_mps :: u16
  maximum_navigation_speed_mps :: u16
  acf_propellant_wet_q21 :: i32
  acf_reserve_q15 :: u16

definition advanced_config_valid :: "AdvancedFlightConfig \<Rightarrow> bool" where
  "advanced_config_valid c \<longleftrightarrow> local_config_valid (acf_local c) \<and> capability (acf_local c) = MonitorOnly
     \<and> 0 \<le>s roll_proportional_gain_q15 c \<and> 0 \<le>s roll_derivative_gain_q15 c
     \<and> 0 <s at3 (torque_limit_q12 c) 0 \<and> 0 <s at3 (torque_limit_q12 c) 1 \<and> 0 <s at3 (torque_limit_q12 c) 2
     \<and> 0 <s fallback_density_upper_q10 c \<and> 0 \<le>s maximum_wind_q19 c \<and> 0 < minimum_sound_speed_mps c
     \<and> 0 < maximum_navigation_speed_mps c \<and> 0 <s acf_propellant_wet_q21 c \<and> acf_reserve_q15 c \<le> 32768"

record AdvancedFlightEvidence =
  ae_command :: AdvancedCommandCell
  ae_status :: "AdvancedStatusCell option"
  ae_local :: LocalFlightEvidence
  ae_air_data :: AirDataEstimate
  ae_sensor_checksum :: u32
  ae_demand_checksum :: u32
  ae_command_checksum :: u32
  ae_missing_fast_epochs :: u8

record AdvancedFlightComputer =
  ax_config :: AdvancedFlightConfig
  ax_local :: LocalFlightComputer
  ax_epoch :: u16
  ax_roll_target :: i16
  ax_missing_fast_epochs :: u8
  ax_sensor_checksum :: u32
  ax_demand_checksum :: u32
  ax_command_checksum :: u32
  ax_last_command :: AdvancedCommandCell
  ax_last_status :: "AdvancedStatusCell option"
  ax_last_air_data :: AirDataEstimate

definition new_advanced_flight :: "AdvancedFlightConfig \<Rightarrow> i32 vec3 \<Rightarrow> i16 vec3 \<Rightarrow> AdvancedFlightComputer option" where
  "new_advanced_flight cfg position attitude =
     (if \<not> advanced_config_valid cfg then None
      else map_option (\<lambda>loc.
        \<lparr>ax_config = cfg, ax_local = loc, ax_epoch = 0, ax_roll_target = at3 attitude 0, ax_missing_fast_epochs = 0,
         ax_sensor_checksum = 0x811c9dc5, ax_demand_checksum = 0x811c9dc5, ax_command_checksum = 0x811c9dc5,
         ax_last_command = \<lparr>avc_session = lcf_session (acf_local cfg), avc_source_epoch = 0, avc_effective_epoch = 1,
           avc_flags = 0, avc_discrete = 0, avc_gimbal = (0, 0), avc_canards = (0, 0, 0, 0),
           avc_torque_demand_q12 = (0, 0, 0), avc_rcs_pulse_quanta = replicate 12 0, avc_status = 0, authority_mode = 0,
           avc_command_checksum = 0x811c9dc5\<rparr>,
         ax_last_status = None,
         ax_last_air_data = \<lparr>ad_source = Unavailable, ad_dynamic_pressure_q10 = 0, ad_mach_q12 = 0\<rparr>\<rparr>)
        (new_local_flight (acf_local cfg) position attitude))"

definition advanced_deadline_miss :: "AdvancedFlightComputer \<Rightarrow> AdvancedFlightComputer" where
  "advanced_deadline_miss s = s\<lparr>ax_local := local_deadline_miss (ax_local s)\<rparr>"

subsection \<open>Checksums\<close>

definition advanced_mix :: "u32 \<Rightarrow> u32 \<Rightarrow> u32" where
  "advanced_mix h value = (word_rotl 5 h + 0x9e3779b9) XOR value"

definition hash_advanced_fast :: "u32 \<Rightarrow> AdvancedFastSensorCell \<Rightarrow> u32" where
  "hash_advanced_fast h c =
     foldl advanced_mix h [ucast (avf_measurement_epoch c), avf_dynamic_pressure_q10 c, propellant_q21 c,
       ucast (at3 (avf_platform_angle c) 0), ucast (at3 (avf_platform_angle c) 1), ucast (at3 (avf_platform_angle c) 2)]"

definition hash_demand :: "u32 \<Rightarrow> u16 \<Rightarrow> i32 vec3 \<Rightarrow> u32" where
  "hash_demand h e d = foldl advanced_mix h [ucast e, at3 d 0, at3 d 1, at3 d 2]"

definition hash_advanced_command :: "u32 \<Rightarrow> AdvancedCommandCell \<Rightarrow> u32" where
  "hash_advanced_command h c =
     foldl advanced_mix h [ucast (avc_source_epoch c), at3 (avc_torque_demand_q12 c) 0, at3 (avc_torque_demand_q12 c) 1,
       at3 (avc_torque_demand_q12 c) 2, ucast (avc_discrete c)]"

subsection \<open>Cells of the wrapped computer\<close>

definition copied_bit :: "'a::len word \<Rightarrow> 'a word \<Rightarrow> 'b::len word \<Rightarrow> 'b word" where
  "copied_bit value from_bit to_bit = (if value AND from_bit \<noteq> 0 then to_bit else 0)"

definition to_local_inertial :: "AdvancedFastSensorCell \<Rightarrow> LocalInertialCell" where
  "to_local_inertial c =
     \<lparr>li_session = avf_session c, li_measurement_epoch = avf_measurement_epoch c, li_production_epoch = avf_production_epoch c,
      li_validity = copied_bit (avf_validity c) ADVANCED_VALID_PLATFORM LOCAL_INERTIAL_VALID_PLATFORM
        OR copied_bit (avf_validity c) ADVANCED_VALID_RATE LOCAL_INERTIAL_VALID_RATE
        OR copied_bit (avf_validity c) ADVANCED_VALID_DELTA_V LOCAL_INERTIAL_VALID_DELTA_V
        OR copied_bit (avf_validity c) ADVANCED_VALID_ACTUATOR LOCAL_INERTIAL_VALID_ACTUATOR,
      li_flags = ucast (avf_flags c), li_platform_angle = avf_platform_angle c, li_angular_rate = avf_angular_rate c,
      li_delta_velocity = avf_delta_velocity c, li_gimbal_applied = avf_gimbal_applied c,
      li_vehicle_status = avf_vehicle_status c, li_actuator_feedback = avf_actuator_feedback c\<rparr>"

definition to_local_aid :: "AdvancedAidCell \<Rightarrow> LocalAidCell" where
  "to_local_aid c =
     \<lparr>la_session = ava_session c, la_measurement_epoch = ava_measurement_epoch c, la_production_epoch = ava_production_epoch c,
      la_validity = copied_bit (ava_validity c) ADVANCED_AID_BAROMETER LOCAL_AID_BAROMETER
        OR copied_bit (ava_validity c) ADVANCED_AID_GPS LOCAL_AID_GPS
        OR copied_bit (ava_validity c) ADVANCED_AID_ATTITUDE LOCAL_AID_ATTITUDE
        OR copied_bit (ava_validity c) ADVANCED_AID_CONTINUITY LOCAL_AID_CONTINUITY
        OR copied_bit (ava_validity c) ADVANCED_AID_DEPLOYMENT_FEEDBACK LOCAL_AID_DEPLOYMENT_FEEDBACK,
      la_events = ava_events c, la_onboard_time_q18 = ava_onboard_time_q18 c, la_barometer_q13 = ava_barometer_q13 c,
      la_gps_position_q13 = ava_gps_position_q13 c, la_gps_velocity_q19 = ava_gps_velocity_q19 c,
      la_attitude_vector = ava_attitude_vector c, la_continuity = ava_continuity c,
      la_deployment_feedback = ava_deployment_feedback c, la_vehicle_status = ava_vehicle_status c,
      la_clock_flags = ava_clock_flags c\<rparr>"

subsection \<open>Air data\<close>

definition i32_quotient :: "i32 \<Rightarrow> i32 \<Rightarrow> i32" where
  "i32_quotient a b = word_of_int (truncate_div (sint a) (sint b))"

definition speed_bound :: "AdvancedFlightConfig \<Rightarrow> i32 vec3 \<Rightarrow> i32" where
  "speed_bound cfg velocity =
     foldl (\<lambda>bound a. saturating_add_i32 bound (word_of_int (min \<bar>sint (at3 velocity a)\<bar> (2 ^ 31 - 1)))) (maximum_wind_q19 cfg) [0, 1, 2]"

definition fallback_air_data :: "AdvancedFlightConfig \<Rightarrow> i32 vec3 \<Rightarrow> AirDataEstimate" where
  "fallback_air_data cfg velocity =
     (let speed_mps = signed_drop_bit 19 (saturating_add_i32 (speed_bound cfg velocity) (push_bit 19 1 - 1))
      in if speed_mps <s 0 \<or> ucast (maximum_navigation_speed_mps cfg) <s speed_mps
         then \<lparr>ad_source = Unavailable, ad_dynamic_pressure_q10 = 0, ad_mach_q12 = 0\<rparr>
         else
         let speed_squared = saturating_mul_i32 speed_mps speed_mps;
             pressure = i32_quotient (saturating_mul_i32 speed_squared (fallback_density_upper_q10 cfg)) 2;
             mach = i32_quotient (push_bit 12 speed_mps) (ucast (minimum_sound_speed_mps cfg))
         in \<lparr>ad_source = ConservativeFallback, ad_dynamic_pressure_q10 = pressure,
             ad_mach_q12 = word_of_int (clamp_int 0 (2 ^ 15 - 1) (sint mach))\<rparr>)"

definition resolve_air_data :: "AdvancedFlightConfig \<Rightarrow> AdvancedFastSensorCell option \<Rightarrow> LocalFlightEvidence \<Rightarrow> AirDataEstimate" where
  "resolve_air_data cfg fast loc =
     (case fast of
        Some c \<Rightarrow>
          if avf_validity c AND ADVANCED_VALID_AIR_DATA \<noteq> 0 \<and> 0 \<le>s avf_dynamic_pressure_q10 c \<and> 0 \<le>s avf_mach_q12 c
          then \<lparr>ad_source = Pitot, ad_dynamic_pressure_q10 = avf_dynamic_pressure_q10 c, ad_mach_q12 = avf_mach_q12 c\<rparr>
          else fallback_air_data cfg (ln_velocity_q19 (le_navigation loc))
      | None \<Rightarrow> fallback_air_data cfg (ln_velocity_q19 (le_navigation loc)))"

definition air_alarm :: "AirDataEstimate \<Rightarrow> u16" where
  "air_alarm air = (if ad_source air \<noteq> Pitot then ADVANCED_ALARM_AIR_DATA else 0)"

subsection \<open>The tick\<close>

definition advanced_fast_valid :: "AdvancedFlightComputer \<Rightarrow> AdvancedFastSensorCell \<Rightarrow> bool" where
  "advanced_fast_valid s c \<longleftrightarrow>
     (let needed = ADVANCED_VALID_PLATFORM OR ADVANCED_VALID_RATE OR ADVANCED_VALID_DELTA_V
      in avf_session c = lcf_session (acf_local (ax_config s)) \<and> avf_measurement_epoch c = ax_epoch s
         \<and> avf_production_epoch c = ax_epoch s \<and> avf_validity c AND needed = needed)"

definition filtered_fast :: "AdvancedFlightComputer \<Rightarrow> AdvancedFastSensorCell option \<Rightarrow> AdvancedFastSensorCell option" where
  "filtered_fast s fast = (case fast of Some c \<Rightarrow> if advanced_fast_valid s c then Some c else None | None \<Rightarrow> None)"

definition roll_demand :: "AdvancedFlightComputer \<Rightarrow> AdvancedFastSensorCell \<Rightarrow> i16" where
  "roll_demand s c =
     (let angle = scast (saturating_sub_i16 (at3 (avf_platform_angle c) 0) (ax_roll_target s)) :: i32;
          rate = scast (at3 (avf_angular_rate c) 0) :: i32;
          p = signed_drop_bit 15 (- angle * scast (roll_proportional_gain_q15 (ax_config s)));
          d = signed_drop_bit 15 (- rate * scast (roll_derivative_gain_q15 (ax_config s)))
      in clamp_i16 (saturating_add_i32 p d))"

definition advanced_demand :: "AdvancedFlightComputer \<Rightarrow> AdvancedFastSensorCell option \<Rightarrow> LocalFlightEvidence \<Rightarrow> i16 vec3" where
  "advanced_demand s valid loc =
     (case valid of
        Some c \<Rightarrow> (roll_demand s c, fst (lc_control_demand (le_command loc)), snd (lc_control_demand (le_command loc)))
      | None \<Rightarrow> (0, 0, 0))"

definition scaled_torque :: "AdvancedFlightConfig \<Rightarrow> i16 vec3 \<Rightarrow> i32 vec3" where
  "scaled_torque cfg demand =
     make3 (\<lambda>a. word_of_int (clamp_int (- sint (at3 (torque_limit_q12 cfg) a)) (sint (at3 (torque_limit_q12 cfg) a))
       (sint (at3 demand a) * sint (at3 (torque_limit_q12 cfg) a) div 2 ^ 15)))"

definition advanced_held :: "AdvancedFlightComputer \<Rightarrow> bool" where
  "advanced_held s \<longleftrightarrow> ax_missing_fast_epochs s \<noteq> 0 \<and> ax_missing_fast_epochs s \<le> 2"

definition advanced_safe :: "AdvancedFlightComputer \<Rightarrow> LocalFlightEvidence \<Rightarrow> bool" where
  "advanced_safe s loc \<longleftrightarrow> 3 \<le> ax_missing_fast_epochs s \<or> le_safe loc"

definition advanced_torque :: "AdvancedFlightComputer \<Rightarrow> AdvancedFastSensorCell option \<Rightarrow> LocalFlightEvidence \<Rightarrow> i32 vec3" where
  "advanced_torque s valid loc =
     (let torque = scaled_torque (ax_config s) (advanced_demand s valid loc);
          torque = (if advanced_held s then avc_torque_demand_q12 (ax_last_command s) else torque)
      in if advanced_safe s loc then (0, 0, 0) else torque)"

definition supply_valid :: "AdvancedFastSensorCell option \<Rightarrow> bool" where
  "supply_valid valid = (case valid of Some c \<Rightarrow> avf_validity c AND ADVANCED_VALID_SUPPLY \<noteq> 0 | None \<Rightarrow> False)"

definition propellant_left :: "AdvancedFastSensorCell option \<Rightarrow> i32" where
  "propellant_left valid = (case valid of Some c \<Rightarrow> propellant_q21 c | None \<Rightarrow> 0)"

definition advanced_flags :: "AdvancedFlightComputer \<Rightarrow> AdvancedFastSensorCell option \<Rightarrow> AirDataEstimate \<Rightarrow> u8" where
  "advanced_flags s valid air =
     (let reserve_raw = word_of_int (sint (acf_propellant_wet_q21 (ax_config s)) * uint (acf_reserve_q15 (ax_config s)) div 2 ^ 15)
      in (if advanced_held s then ADVANCED_COMMAND_FLAG_HOLD else 0)
         OR (if ad_source air = ConservativeFallback then ADVANCED_COMMAND_FLAG_AIRDATA_FALLBACK else 0)
         OR (if supply_valid valid \<and> propellant_left valid \<le>s reserve_raw then ADVANCED_COMMAND_FLAG_RCS_RESERVED else 0))"

definition advanced_discrete :: "AdvancedFlightComputer \<Rightarrow> LocalFlightEvidence \<Rightarrow> u8" where
  "advanced_discrete s loc =
     (if advanced_safe s loc then ADVANCED_COMMAND_SAFE
      else if ax_missing_fast_epochs s = 0 then lc_discrete (le_command loc) else 0)"

definition advanced_command :: "AdvancedFlightComputer \<Rightarrow> AdvancedFastSensorCell option \<Rightarrow> LocalFlightEvidence
    \<Rightarrow> AirDataEstimate \<Rightarrow> AdvancedCommandCell" where
  "advanced_command s valid loc air =
     \<lparr>avc_session = lcf_session (acf_local (ax_config s)), avc_source_epoch = ax_epoch s, avc_effective_epoch = ax_epoch s + 1,
      avc_flags = advanced_flags s valid air, avc_discrete = advanced_discrete s loc, avc_gimbal = (0, 0),
      avc_canards = (0, 0, 0, 0), avc_torque_demand_q12 = advanced_torque s valid loc, avc_rcs_pulse_quanta = replicate 12 0,
      avc_status = le_alarms loc OR air_alarm air OR (if \<not> supply_valid valid then ADVANCED_ALARM_SUPPLY else 0),
      authority_mode = 0, avc_command_checksum = 0\<rparr>"

definition reserve_fraction :: "i32 \<Rightarrow> i32 \<Rightarrow> u16" where
  "reserve_fraction remaining wet =
     (if remaining \<le>s 0 \<or> wet \<le>s 0 then 0
      else word_of_int (clamp_int 0 32768 (truncate_div (sint remaining * 2 ^ 15) (sint wet))))"

definition advanced_status :: "AdvancedFlightComputer \<Rightarrow> AdvancedFastSensorCell option \<Rightarrow> AdvancedCommandCell
    \<Rightarrow> LocalStatusCell \<Rightarrow> AdvancedStatusCell" where
  "advanced_status s valid cmd v =
     \<lparr>avs_session = ls_session v, avs_source_epoch = ls_source_epoch v, avs_production_epoch = ls_production_epoch v,
      avs_mode = ls_mode v, avs_flags = avc_flags cmd, avs_alarms = avc_status cmd,
      avs_navigation_position_q13 = ls_navigation_position_q13 v, avs_navigation_velocity_q19 = ls_navigation_velocity_q19 v,
      avs_flight_checksum = ls_flight_checksum v, avs_deadline_misses = ls_deadline_misses v,
      avs_navigation_checksum = ls_navigation_checksum v, avs_authority_state = 0,
      avs_requested_torque_q12 = avc_torque_demand_q12 cmd, avs_achieved_torque_q12 = (0, 0, 0),
      avs_residual_torque_q12 = make3 (\<lambda>a. clamp_i16 (at3 (avc_torque_demand_q12 cmd) a)), avs_saturation_count = 0,
      avs_reserve_q15 = reserve_fraction (propellant_left valid) (acf_propellant_wet_q21 (ax_config s)),
      avs_actuator_flags = 0\<rparr>"

definition advanced_tick :: "AdvancedFastSensorCell option \<Rightarrow> AdvancedAidCell option \<Rightarrow> AdvancedFlightComputer
    \<Rightarrow> AdvancedFlightEvidence \<times> AdvancedFlightComputer" where
  "advanced_tick fast aid s =
     (let valid = filtered_fast s fast;
          s = s\<lparr>ax_missing_fast_epochs := (if valid \<noteq> None then 0 else saturating_inc_u8 (ax_missing_fast_epochs s))\<rparr>;
          s = (case valid of Some c \<Rightarrow> s\<lparr>ax_sensor_checksum := hash_advanced_fast (ax_sensor_checksum s) c\<rparr> | None \<Rightarrow> s);
          (loc, computer) = local_tick (map_option to_local_inertial valid) (map_option to_local_aid aid) (ax_local s);
          s = s\<lparr>ax_local := computer\<rparr>;
          air = resolve_air_data (ax_config s) valid loc;
          cmd = advanced_command s valid loc air;
          s = s\<lparr>ax_demand_checksum := hash_demand (ax_demand_checksum s) (ax_epoch s) (avc_torque_demand_q12 cmd),
                ax_command_checksum := hash_advanced_command (ax_command_checksum s) cmd\<rparr>;
          cmd = cmd\<lparr>avc_command_checksum := ax_command_checksum s\<rparr>;
          status = map_option (advanced_status s valid cmd) (le_status loc);
          s = s\<lparr>ax_last_air_data := air, ax_last_command := cmd, ax_last_status := status, ax_epoch := ax_epoch s + 1\<rparr>
      in (\<lparr>ae_command = cmd, ae_status = status, ae_local = loc, ae_air_data = air,
           ae_sensor_checksum = ax_sensor_checksum s, ae_demand_checksum = ax_demand_checksum s,
           ae_command_checksum = ax_command_checksum s, ae_missing_fast_epochs = ax_missing_fast_epochs s\<rparr>, s))"

end
