(* ===== verification/Effector_Allocator.thy ===== *)
theory Effector_Allocator
  imports Advanced_Flight
begin

text \<open>
  The priority allocator of phase 9.5 (\<^verbatim>\<open>flight/src/phase9_5_allocator.rs\<close>) and the flight
  computer that applies it: a torque demand is offered to the effector groups in the
  configured order, each takes what its authority allows and passes on the rest.  The
  64-bit intermediates of the source stay far below their width, so they are integers here;
  the 32-bit sums, which saturate in the source, are clamped.  Arrays over actuators are lists.
\<close>

unbundle bit_operations_syntax

subsection \<open>Configuration and state\<close>

definition GROUP_GIMBAL :: u8 where "GROUP_GIMBAL = 1"
definition GROUP_CANARD :: u8 where "GROUP_CANARD = 2"
definition GROUP_RCS :: u8 where "GROUP_RCS = 3"
definition AUTHORITY_GIMBAL :: u16 where "AUTHORITY_GIMBAL = 1"
definition AUTHORITY_CANARD :: u16 where "AUTHORITY_CANARD = 2"
definition AUTHORITY_RCS :: u16 where "AUTHORITY_RCS = 4"
definition AUTHORITY_HANDOFF :: u16 where "AUTHORITY_HANDOFF = 8"

record AdvancedAllocatorConfig =
  priorities :: "u8 vec3"
  canard_enable_q10 :: i32
  canard_full_q10 :: i32
  canard_disable_q10 :: i32
  alc_reserve_q15 :: u16
  alc_propellant_wet_q21 :: i32
  group_authority_q12 :: "i32 vec3 vec3"
  gimbal_mix_q15 :: "i16 list vec3"
  canard_mix_q15 :: "i16 list vec3"
  rcs_mix_q15 :: "i16 list vec3"
  gimbal_limit_turn16 :: "i16 list"
  canard_limit_turn16 :: "i16 list"
  rcs_max_quanta :: "u8 list"
  has_gimbal :: bool
  has_canards :: bool
  has_rcs :: bool

definition allocator_config_valid :: "AdvancedAllocatorConfig \<Rightarrow> bool" where
  "allocator_config_valid c \<longleftrightarrow>
     (\<forall>i \<in> {0, 1, 2}. 1 \<le> at3 (priorities c) i \<and> at3 (priorities c) i \<le> 3)
     \<and> at3 (priorities c) 0 \<noteq> at3 (priorities c) 1 \<and> at3 (priorities c) 0 \<noteq> at3 (priorities c) 2
     \<and> at3 (priorities c) 1 \<noteq> at3 (priorities c) 2
     \<and> 0 \<le>s canard_disable_q10 c \<and> canard_disable_q10 c <s canard_enable_q10 c \<and> canard_enable_q10 c \<le>s canard_full_q10 c
     \<and> alc_reserve_q15 c \<le> 32768 \<and> (\<not> has_rcs c \<or> 0 <s alc_propellant_wet_q21 c)
     \<and> (\<forall>axis \<in> {0, 1, 2}. \<forall>g \<in> {0, 1, 2}. 0 \<le>s at3 (at3 (group_authority_q12 c) axis) g)
     \<and> (\<not> has_gimbal c \<or> (\<forall>v \<in> set (gimbal_limit_turn16 c). 0 <s v))
     \<and> (\<not> has_canards c \<or> (\<forall>v \<in> set (canard_limit_turn16 c). 0 <s v))
     \<and> (\<not> has_rcs c \<or> (\<forall>v \<in> set (rcs_max_quanta c). 0 < v \<and> v \<le> 8))"

definition allocator_config_sized :: "AdvancedAllocatorConfig \<Rightarrow> bool" where
  "allocator_config_sized c \<longleftrightarrow> length (gimbal_limit_turn16 c) = 2 \<and> length (canard_limit_turn16 c) = 4
     \<and> length (rcs_max_quanta c) = 12
     \<and> (\<forall>axis < 3. length (at3 (gimbal_mix_q15 c) axis) = 2 \<and> length (at3 (canard_mix_q15 c) axis) = 4
         \<and> length (at3 (rcs_mix_q15 c) axis) = 12)"

record AllocatorFeedback =
  on_rail :: bool
  fb_powered :: bool
  fb_recovery :: bool
  fb_safe :: bool
  air_data_source :: AirDataSource
  fb_dynamic_pressure_q10 :: i32
  propellant_fraction_q15 :: u16
  fb_supply_valid :: bool
  gimbal_healthy_mask :: u8
  canard_healthy_mask :: u8
  rcs_healthy_mask :: u16

record AllocationResult =
  res_gimbal :: "i16 list"
  res_canards :: "i16 list"
  res_rcs_pulse_quanta :: "u8 list"
  requested_q12 :: "i32 vec3"
  achieved_q12 :: "i32 vec3"
  residual_q12 :: "i32 vec3"
  authority_state :: u16
  saturation_count :: u16
  canard_weight_q15 :: u16

definition ZERO_ALLOCATION :: AllocationResult where
  "ZERO_ALLOCATION = \<lparr>res_gimbal = replicate 2 0, res_canards = replicate 4 0, res_rcs_pulse_quanta = replicate 12 0,
     requested_q12 = (0, 0, 0), achieved_q12 = (0, 0, 0), residual_q12 = (0, 0, 0), authority_state = 0,
     saturation_count = 0, canard_weight_q15 = 0\<rparr>"

datatype AllocatorError = InvalidConfig

record PriorityResidualAllocator =
  al_config :: AdvancedAllocatorConfig
  canard_enabled :: bool
  rcs_fraction_q15 :: "i32 list"

definition new_allocator :: "AdvancedAllocatorConfig \<Rightarrow> PriorityResidualAllocator option" where
  "new_allocator cfg =
     (if allocator_config_valid cfg
      then Some \<lparr>al_config = cfg, canard_enabled = False, rcs_fraction_q15 = replicate 12 0\<rparr> else None)"

subsection \<open>Scaling\<close>

definition i32_clamp :: "int \<Rightarrow> int" where
  "i32_clamp v = clamp_int (- (2 ^ 31)) (2 ^ 31 - 1) v"

definition round_shift :: "int \<Rightarrow> nat \<Rightarrow> int" where
  "round_shift value k =
     (if 0 \<le> value then (value + 2 ^ (k - 1)) div 2 ^ k else - ((- value + 2 ^ (k - 1)) div 2 ^ k))"

definition scale_q15 :: "int \<Rightarrow> int \<Rightarrow> int" where
  "scale_q15 value scale = i32_clamp (round_shift (value * scale) 15)"

definition ratio_q15 :: "int \<Rightarrow> int \<Rightarrow> int" where
  "ratio_q15 value authority =
     (if authority \<le> 0 then 0 else clamp_int (- 32768) 32767 (truncate_div (value * 2 ^ 15) authority))"

definition allocated_within :: "i32 vec3 \<Rightarrow> i32 vec3 \<Rightarrow> nat \<Rightarrow> int" where
  "allocated_within residual authority axis =
     clamp_int (- sint (at3 authority axis)) (sint (at3 authority axis)) (sint (at3 residual axis))"

definition synth :: "nat \<Rightarrow> (nat \<Rightarrow> int) \<Rightarrow> i32 vec3 \<Rightarrow> i16 list vec3 \<Rightarrow> int list" where
  "synth n allocated authority mix =
     map (\<lambda>actuator. clamp_int (- 32768) 32767 (round_shift
         (sum_list (map (\<lambda>axis. ratio_q15 (allocated axis) (sint (at3 authority axis)) * sint (at3 mix axis ! actuator)) [0, 1, 2])) 15))
       [0..<n]"

subsection \<open>Continuous effectors\<close>

definition predict_continuous :: "nat \<Rightarrow> int list \<Rightarrow> i32 vec3 \<Rightarrow> i16 list vec3 \<Rightarrow> nat \<Rightarrow> int" where
  "predict_continuous n actual authority mix axis =
     (if at3 authority axis = 0 then 0
      else
      let dot = sum_list (map (\<lambda>k. actual ! k * sint (at3 mix axis ! k)) [0..<n]);
          norm = sum_list (map (\<lambda>k. sint (at3 mix axis ! k) * sint (at3 mix axis ! k)) [0..<n])
      in if norm \<noteq> 0
         then scale_q15 (sint (at3 authority axis)) (clamp_int (- 32768) 32767 (truncate_div (dot * 2 ^ 15) norm))
         else 0)"

definition physical_q :: "i16 \<Rightarrow> int \<Rightarrow> int" where
  "physical_q limit normalized = clamp_int (- sint limit) (sint limit) (scale_q15 (sint limit) normalized)"

definition allocate_continuous :: "nat \<Rightarrow> i32 vec3 \<Rightarrow> i32 vec3 \<Rightarrow> i16 list vec3 \<Rightarrow> i16 list \<Rightarrow> u8
    \<Rightarrow> (nat \<Rightarrow> int) \<times> i16 list \<times> nat" where
  "allocate_continuous n residual authority mix limits healthy_mask =
     (let allocated = allocated_within residual authority;
          normalized = synth n allocated authority mix;
          healthy = (\<lambda>k. healthy_mask AND push_bit k 1 \<noteq> 0);
          commands = map (\<lambda>k. if healthy k then word_of_int (physical_q (limits ! k) (normalized ! k)) else 0) [0..<n];
          actual = map (\<lambda>k. if healthy k then ratio_q15 (physical_q (limits ! k) (normalized ! k)) (sint (limits ! k)) else 0) [0..<n];
          saturation = length (filter (\<lambda>k. \<not> healthy k \<and> normalized ! k \<noteq> 0) [0..<n]);
          achieved = predict_continuous n actual authority mix
      in (achieved, commands, saturation + of_bool (\<exists>axis \<in> {0, 1, 2}. achieved axis \<noteq> allocated axis)))"

subsection \<open>Thrusters\<close>

definition predict_rcs :: "int list \<Rightarrow> i32 vec3 \<Rightarrow> i16 list vec3 \<Rightarrow> nat \<Rightarrow> int" where
  "predict_rcs actual authority mix axis =
     (if at3 authority axis = 0 then 0
      else
      let numerator = sum_list (map (\<lambda>k. actual ! k * sint (at3 mix axis ! k)) [0..<12]);
          positive = sum_list (map (\<lambda>k. if 0 < sint (at3 mix axis ! k) then sint (at3 mix axis ! k) else 0) [0..<12])
      in if positive \<noteq> 0
         then scale_q15 (sint (at3 authority axis)) (clamp_int (- 32768) 32767 (truncate_div numerator positive))
         else 0)"

definition rcs_accumulated :: "int \<Rightarrow> u8 \<Rightarrow> i32 \<Rightarrow> int" where
  "rcs_accumulated normalized maximum fraction =
     (let desired_q15 = i32_clamp (max normalized 0 * uint maximum) in i32_clamp (sint fraction + desired_q15))"

definition rcs_pulse :: "int \<Rightarrow> u8 \<Rightarrow> i32 \<Rightarrow> u8" where
  "rcs_pulse normalized maximum fraction =
     word_of_int (clamp_int 0 (uint maximum) (rcs_accumulated normalized maximum fraction div 2 ^ 15))"

definition rcs_remainder :: "int \<Rightarrow> u8 \<Rightarrow> i32 \<Rightarrow> i32" where
  "rcs_remainder normalized maximum fraction =
     word_of_int (i32_clamp (rcs_accumulated normalized maximum fraction - uint (rcs_pulse normalized maximum fraction) * 2 ^ 15))"

definition rcs_actual :: "u8 \<Rightarrow> u8 \<Rightarrow> int" where
  "rcs_actual q maximum = min (truncate_div (uint q * 32768) (uint maximum)) 32767"

definition allocate_rcs :: "i32 vec3 \<Rightarrow> i32 vec3 \<Rightarrow> i16 list vec3 \<Rightarrow> u8 list \<Rightarrow> u16 \<Rightarrow> i32 list
    \<Rightarrow> (nat \<Rightarrow> int) \<times> u8 list \<times> nat \<times> i32 list" where
  "allocate_rcs residual authority mix maximum healthy_mask fractional =
     (let allocated = allocated_within residual authority;
          normalized = synth 12 allocated authority mix;
          healthy = (\<lambda>k. healthy_mask AND push_bit k 1 \<noteq> 0);
          pulses = map (\<lambda>k. if healthy k then rcs_pulse (normalized ! k) (maximum ! k) (fractional ! k) else 0) [0..<12];
          remainders = map (\<lambda>k. if healthy k then rcs_remainder (normalized ! k) (maximum ! k) (fractional ! k) else fractional ! k) [0..<12];
          actual = map (\<lambda>k. if healthy k then rcs_actual (pulses ! k) (maximum ! k) else 0) [0..<12];
          saturation = length (filter (\<lambda>k. \<not> healthy k \<and> 0 < normalized ! k) [0..<12]);
          achieved = predict_rcs actual authority mix
      in (achieved, pulses, saturation + of_bool (\<exists>axis \<in> {0, 1, 2}. achieved axis \<noteq> allocated axis), remainders))"

subsection \<open>The allocation\<close>

definition saturating_add_u16 :: "u16 \<Rightarrow> nat \<Rightarrow> u16" where
  "saturating_add_u16 x n = of_nat (min (unat x + n) 65535)"

definition apply_group :: "AllocationResult \<Rightarrow> (nat \<Rightarrow> int) \<Rightarrow> nat \<Rightarrow> AllocationResult" where
  "apply_group out achieved saturation =
     (let total = make3 (\<lambda>axis. saturating_add_i32 (at3 (achieved_q12 out) axis) (word_of_int (achieved axis)))
      in out\<lparr>achieved_q12 := total,
             residual_q12 := make3 (\<lambda>axis. saturating_sub_i32 (at3 (requested_q12 out) axis) (at3 total axis)),
             saturation_count := saturating_add_u16 (saturation_count out) saturation\<rparr>)"

definition group_authority :: "AdvancedAllocatorConfig \<Rightarrow> nat \<Rightarrow> u16 \<Rightarrow> i32 vec3" where
  "group_authority c g weight_q15 =
     make3 (\<lambda>axis. word_of_int (scale_q15 (sint (at3 (at3 (group_authority_q12 c) axis) g)) (uint weight_q15)))"

definition canard_weight :: "AllocatorFeedback \<Rightarrow> PriorityResidualAllocator \<Rightarrow> u16 \<times> PriorityResidualAllocator" where
  "canard_weight feedback s =
     (let c = al_config s; pressure = fb_dynamic_pressure_q10 feedback
      in if air_data_source feedback = Unavailable \<or> pressure \<le>s canard_disable_q10 c
      then (0, s\<lparr>canard_enabled := False\<rparr>)
      else
      let s = (if \<not> canard_enabled s \<and> canard_enable_q10 c \<le>s pressure then s\<lparr>canard_enabled := True\<rparr> else s)
      in if \<not> canard_enabled s \<or> pressure \<le>s canard_enable_q10 c then (0, s)
      else if canard_full_q10 c \<le>s pressure then (32768, s)
      else
      let numerator = sint (pressure - canard_enable_q10 c) * 32768; denominator = sint (canard_full_q10 c - canard_enable_q10 c)
      in (word_of_int (clamp_int 0 32768 (truncate_div numerator denominator)), s))"

definition gimbal_available :: "AdvancedAllocatorConfig \<Rightarrow> AllocatorFeedback \<Rightarrow> bool" where
  "gimbal_available c f \<longleftrightarrow> has_gimbal c \<and> fb_powered f \<and> gimbal_healthy_mask f AND 3 \<noteq> 0"

definition canard_available :: "AdvancedAllocatorConfig \<Rightarrow> AllocatorFeedback \<Rightarrow> u16 \<Rightarrow> bool" where
  "canard_available c f weight \<longleftrightarrow> has_canards c \<and> weight \<noteq> 0 \<and> canard_healthy_mask f AND 15 \<noteq> 0"

definition rcs_available :: "AdvancedAllocatorConfig \<Rightarrow> AllocatorFeedback \<Rightarrow> bool" where
  "rcs_available c f \<longleftrightarrow> has_rcs c \<and> fb_supply_valid f \<and> alc_reserve_q15 c < propellant_fraction_q15 f
     \<and> rcs_healthy_mask f AND 0x0fff \<noteq> 0"

definition count_use :: "(nat \<Rightarrow> int) \<Rightarrow> nat \<Rightarrow> nat" where
  "count_use achieved used = (if \<exists>axis \<in> {0, 1, 2}. achieved axis \<noteq> 0 then used + 1 else used)"

definition allocate_group :: "AdvancedAllocatorConfig \<Rightarrow> AllocatorFeedback \<Rightarrow> u16 \<Rightarrow> u8
    \<Rightarrow> AllocationResult \<times> nat \<times> i32 list \<Rightarrow> AllocationResult \<times> nat \<times> i32 list" where
  "allocate_group c f weight priority = (\<lambda>(out, used, fraction).
     (if priority = GROUP_GIMBAL \<and> gimbal_available c f then
        let (a, g, s) = allocate_continuous 2 (residual_q12 out) (group_authority c 0 32768) (gimbal_mix_q15 c)
              (gimbal_limit_turn16 c) (gimbal_healthy_mask f)
        in (apply_group (out\<lparr>res_gimbal := g\<rparr>) a s, count_use a used, fraction)
      else if priority = GROUP_CANARD \<and> canard_available c f weight then
        let (a, g, s) = allocate_continuous 4 (residual_q12 out) (group_authority c 1 weight) (canard_mix_q15 c)
              (canard_limit_turn16 c) (canard_healthy_mask f)
        in (apply_group (out\<lparr>res_canards := g\<rparr>) a s, count_use a used, fraction)
      else if priority = GROUP_RCS \<and> rcs_available c f then
        let (a, q, s, fraction) = allocate_rcs (residual_q12 out) (group_authority c 2 32768) (rcs_mix_q15 c)
              (rcs_max_quanta c) (rcs_healthy_mask f) fraction
        in (apply_group (out\<lparr>res_rcs_pulse_quanta := q\<rparr>) a s, count_use a used, fraction)
      else (out, used, fraction)))"

definition allocate :: "i32 vec3 \<Rightarrow> AllocatorFeedback \<Rightarrow> PriorityResidualAllocator
    \<Rightarrow> (AllocatorError + AllocationResult) \<times> PriorityResidualAllocator" where
  "allocate demand feedback s =
     (if \<not> allocator_config_valid (al_config s) then (Inl InvalidConfig, s)
      else
      let out = ZERO_ALLOCATION\<lparr>requested_q12 := demand, residual_q12 := demand\<rparr>
      in if fb_safe feedback \<or> on_rail feedback \<or> fb_recovery feedback
      then (Inr out, s\<lparr>rcs_fraction_q15 := replicate 12 0\<rparr>)
      else
      let c = al_config s;
          (weight, s) = canard_weight feedback s;
          out = out\<lparr>canard_weight_q15 := weight,
            authority_state := (if gimbal_available c feedback then AUTHORITY_GIMBAL else 0)
              OR (if canard_available c feedback weight then AUTHORITY_CANARD else 0)
              OR (if rcs_available c feedback then AUTHORITY_RCS else 0)\<rparr>;
          (out, used, fraction) = fold (allocate_group c feedback weight)
            [at3 (priorities c) 0, at3 (priorities c) 1, at3 (priorities c) 2] (out, 0, rcs_fraction_q15 s);
          out = (if 1 < used then out\<lparr>authority_state := authority_state out OR AUTHORITY_HANDOFF\<rparr> else out);
          out = (if residual_q12 out \<noteq> (0, 0, 0) then out\<lparr>saturation_count := saturating_add_u16 (saturation_count out) 1\<rparr> else out)
      in (Inr out, s\<lparr>rcs_fraction_q15 := fraction\<rparr>))"

subsection \<open>The allocating flight computer\<close>

record AllocatedFlightEvidence =
  aw_base :: AdvancedFlightEvidence
  aw_command :: AdvancedCommandCell
  aw_status :: "AdvancedStatusCell option"
  aw_allocation :: AllocationResult
  aw_allocator_checksum :: u32

record AllocatedAdvancedFlightComputer =
  ay_base :: AdvancedFlightComputer
  ay_allocator :: PriorityResidualAllocator
  ay_last_continuous :: "(i16 \<times> i16) \<times> i16 vec4"
  ay_allocator_checksum :: u32

definition new_allocated_flight :: "AdvancedFlightComputer \<Rightarrow> AdvancedAllocatorConfig \<Rightarrow> AllocatedAdvancedFlightComputer option" where
  "new_allocated_flight flight_computer allocator =
     map_option (\<lambda>a. \<lparr>ay_base = flight_computer, ay_allocator = a, ay_last_continuous = ((0, 0), (0, 0, 0, 0)),
       ay_allocator_checksum = 0x811c9dc5\<rparr>) (new_allocator allocator)"

definition missing_fast_sensor :: AdvancedFastSensorCell where
  "missing_fast_sensor = \<lparr>avf_session = 0, avf_measurement_epoch = 0, avf_production_epoch = 0, avf_validity = 0,
     avf_platform_angle = (0, 0, 0), avf_angular_rate = (0, 0, 0), avf_delta_velocity = (0, 0, 0),
     avf_dynamic_pressure_q10 = 0, avf_mach_q12 = 0, avf_gimbal_applied = (0, 0), canard_applied = (0, 0, 0, 0),
     valve_open_mask = 0, propellant_q21 = 0, supply_scale_q15 = 0, avf_vehicle_status = 0, avf_actuator_feedback = 0,
     avf_flags = 0\<rparr>"

definition present_fraction :: "i32 \<Rightarrow> i32 \<Rightarrow> bool \<Rightarrow> u16" where
  "present_fraction remaining wet present =
     (if \<not> present \<or> remaining \<le>s 0 \<or> wet \<le>s 0 then 0
      else word_of_int (clamp_int 0 32768 (truncate_div (sint remaining * 2 ^ 15) (sint wet))))"

definition allocator_feedback :: "AdvancedAllocatorConfig \<Rightarrow> AdvancedFastSensorCell \<Rightarrow> AdvancedFlightEvidence \<Rightarrow> AllocatorFeedback" where
  "allocator_feedback c cell b =
     (let present = (ae_missing_fast_epochs b = 0)
      in \<lparr>on_rail = (avf_vehicle_status cell AND 1 \<noteq> 0), fb_powered = (avf_vehicle_status cell AND 2 \<noteq> 0),
          fb_recovery = (avf_vehicle_status cell AND 4 \<noteq> 0), fb_safe = le_safe (ae_local b),
          air_data_source = ad_source (ae_air_data b), fb_dynamic_pressure_q10 = ad_dynamic_pressure_q10 (ae_air_data b),
          propellant_fraction_q15 = present_fraction (propellant_q21 cell) (alc_propellant_wet_q21 c) present,
          fb_supply_valid = (present \<and> avf_validity cell AND ADVANCED_VALID_SUPPLY \<noteq> 0),
          gimbal_healthy_mask = 3, canard_healthy_mask = 15, rcs_healthy_mask = 0x0fff\<rparr>)"

definition pair_of :: "i16 list \<Rightarrow> i16 \<times> i16" where "pair_of xs = (xs ! 0, xs ! 1)"
definition quad_of :: "i16 list \<Rightarrow> i16 vec4" where "quad_of xs = (xs ! 0, xs ! 1, xs ! 2, xs ! 3)"

definition hash_alloc :: "u32 \<Rightarrow> AdvancedCommandCell \<Rightarrow> AllocationResult \<Rightarrow> u32" where
  "hash_alloc h c a =
     foldl advanced_mix h ([ucast (avc_source_epoch c), at3 (achieved_q12 a) 0, at3 (achieved_q12 a) 1, at3 (achieved_q12 a) 2]
       @ map (\<lambda>jet. ucast (avc_rcs_pulse_quanta c ! jet)) [0..<12])"

definition effector_command :: "AdvancedFlightEvidence \<Rightarrow> AllocationResult \<Rightarrow> AllocatedAdvancedFlightComputer
    \<Rightarrow> AdvancedCommandCell \<times> AllocatedAdvancedFlightComputer" where
  "effector_command b allocation s =
     (let cmd = (ae_command b)\<lparr>avc_gimbal := pair_of (res_gimbal allocation), avc_canards := quad_of (res_canards allocation),
            avc_rcs_pulse_quanta := res_rcs_pulse_quanta allocation, authority_mode := ucast (authority_state allocation)\<rparr>
      in if 0 < ae_missing_fast_epochs b \<and> ae_missing_fast_epochs b \<le> 2
      then (cmd\<lparr>avc_gimbal := fst (ay_last_continuous s), avc_canards := snd (ay_last_continuous s),
              avc_rcs_pulse_quanta := replicate 12 0, avc_flags := avc_flags cmd OR ADVANCED_COMMAND_FLAG_HOLD\<rparr>, s)
      else if 3 \<le> ae_missing_fast_epochs b \<or> le_safe (ae_local b)
      then (cmd\<lparr>avc_gimbal := (0, 0), avc_canards := (0, 0, 0, 0), avc_rcs_pulse_quanta := replicate 12 0,
              avc_discrete := ADVANCED_COMMAND_SAFE\<rparr>, s)
      else (cmd, s\<lparr>ay_last_continuous := (avc_gimbal cmd, avc_canards cmd)\<rparr>))"

definition allocated_status :: "AllocationResult \<Rightarrow> AdvancedStatusCell \<Rightarrow> AdvancedStatusCell" where
  "allocated_status a v =
     v\<lparr>avs_authority_state := authority_state a, avs_achieved_torque_q12 := make3 (\<lambda>axis. clamp_i16 (at3 (achieved_q12 a) axis)),
       avs_residual_torque_q12 := make3 (\<lambda>axis. clamp_i16 (at3 (residual_q12 a) axis)),
       avs_saturation_count := saturation_count a, avs_actuator_flags := canard_weight_q15 a\<rparr>"

definition allocated_tick :: "AdvancedFastSensorCell option \<Rightarrow> AdvancedAidCell option \<Rightarrow> AllocatedAdvancedFlightComputer
    \<Rightarrow> AllocatedFlightEvidence \<times> AllocatedAdvancedFlightComputer" where
  "allocated_tick fast aid s =
     (let (b, computer) = advanced_tick fast aid (ay_base s);
          cell = (case fast of Some c \<Rightarrow> c | None \<Rightarrow> missing_fast_sensor);
          feedback = allocator_feedback (al_config (ay_allocator s)) cell b;
          (r, allocator) = allocate (avc_torque_demand_q12 (ae_command b)) feedback (ay_allocator s);
          allocation = (case r of Inr a \<Rightarrow> a | Inl e \<Rightarrow> ZERO_ALLOCATION);
          s = s\<lparr>ay_base := computer, ay_allocator := allocator\<rparr>;
          (cmd, s) = effector_command b allocation s;
          s = s\<lparr>ay_allocator_checksum := hash_alloc (ay_allocator_checksum s) cmd allocation\<rparr>;
          cmd = cmd\<lparr>avc_command_checksum := ay_allocator_checksum s\<rparr>
      in (\<lparr>aw_base = b, aw_command = cmd, aw_status = map_option (allocated_status allocation) (ae_status b),
           aw_allocation = allocation, aw_allocator_checksum = ay_allocator_checksum s\<rparr>, s))"

end
