(* ===== verification/Advanced_Safety.thy ===== *)
theory Advanced_Safety
  imports Effector_Allocator
begin

text \<open>
  What the allocating flight computer promises: effectors within their limits, thruster
  pulses that add up exactly, numbered and transmissible commands over every history, and
  the one case in which its safe state moves a surface.
\<close>

unbundle bit_operations_syntax

subsection \<open>The wrapped computer\<close>

lemma local_tick_step: "\<exists>i p a q. local_tick inertial aid s = (local_evidence (tick_in_place i p a q s), tick_in_place i p a q s)"
  by (auto simp: local_tick_def Let_def)

lemma advanced_flags_ok: "advanced_flags s valid air AND NOT ADVANCED_COMMAND_FLAG_MASK = 0"
  by (auto simp: advanced_flags_def Let_def ADVANCED_COMMAND_FLAG_HOLD_def ADVANCED_COMMAND_FLAG_AIRDATA_FALLBACK_def
      ADVANCED_COMMAND_FLAG_RCS_RESERVED_def ADVANCED_COMMAND_FLAG_MASK_def)

definition advanced_inv :: "AdvancedFlightComputer \<Rightarrow> bool" where
  "advanced_inv s \<longleftrightarrow> local_inv (ax_local s)"

lemma discrete_codes:
  "d \<in> {0, LOCAL_COMMAND_DROGUE, LOCAL_COMMAND_MAIN, LOCAL_COMMAND_SAFE} \<Longrightarrow> d AND NOT ADVANCED_COMMAND_DISCRETE_MASK = 0"
  "ADVANCED_COMMAND_SAFE AND NOT ADVANCED_COMMAND_DISCRETE_MASK = 0"
  by (auto simp: LOCAL_COMMAND_DROGUE_def LOCAL_COMMAND_MAIN_def LOCAL_COMMAND_SAFE_def ADVANCED_COMMAND_DISCRETE_MASK_def
      ADVANCED_COMMAND_SAFE_def)

lemma advanced_tick_effect:
  assumes "advanced_tick fast aid s = (e, s')" "advanced_inv s"
  shows "advanced_inv s'" "ax_config s' = ax_config s" "ax_epoch s' = ax_epoch s + 1"
    "ae_missing_fast_epochs e = ax_missing_fast_epochs s'"
    "ax_missing_fast_epochs s' = (if filtered_fast s fast = None then saturating_inc_u8 (ax_missing_fast_epochs s) else 0)"
    "le_safe (ae_local e) = lf_safe (ax_local s')" "lf_safe (ax_local s) \<Longrightarrow> lf_safe (ax_local s')"
    "avc_session (ae_command e) = lcf_session (acf_local (ax_config s))" "avc_source_epoch (ae_command e) = ax_epoch s"
    "avc_effective_epoch (ae_command e) = ax_epoch s + 1"
    "avc_flags (ae_command e) AND NOT ADVANCED_COMMAND_FLAG_MASK = 0"
    "avc_discrete (ae_command e) AND NOT ADVANCED_COMMAND_DISCRETE_MASK = 0"
    "3 \<le> ax_missing_fast_epochs s' \<or> lf_safe (ax_local s') \<Longrightarrow>
       avc_discrete (ae_command e) = ADVANCED_COMMAND_SAFE \<and> avc_torque_demand_q12 (ae_command e) = (0, 0, 0)"
proof -
  let ?in = "map_option to_local_inertial (filtered_fast s fast)" and ?aid = "map_option to_local_aid aid"
  obtain i p a q where l: "local_tick ?in ?aid (ax_local s)
      = (local_evidence (tick_in_place i p a q (ax_local s)), tick_in_place i p a q (ax_local s))"
    using local_tick_step by blast
  let ?t = "tick_in_place i p a q (ax_local s)"
  have inv: "local_inv (ax_local s)" using assms(2) by (simp add: advanced_inv_def)
  note t = tick_effect [OF inv refl refl, of i p a q]
  have fields: "ax_local s' = ?t" "ax_config s' = ax_config s" "ax_epoch s' = ax_epoch s + 1"
    "ae_missing_fast_epochs e = ax_missing_fast_epochs s'" "ae_local e = local_evidence ?t"
    "ax_missing_fast_epochs s' = (if filtered_fast s fast = None then saturating_inc_u8 (ax_missing_fast_epochs s) else 0)"
    "\<exists>r h. ae_command e = (advanced_command r (filtered_fast s fast) (local_evidence ?t)
        (resolve_air_data (ax_config s) (filtered_fast s fast) (local_evidence ?t)))\<lparr>avc_command_checksum := h\<rparr>
      \<and> ax_config r = ax_config s \<and> ax_epoch r = ax_epoch s \<and> ax_missing_fast_epochs r = ax_missing_fast_epochs s'"
    using assms(1) l by (cases "filtered_fast s fast"; auto simp: advanced_tick_def Let_def)+
  then obtain r h where c: "ae_command e = (advanced_command r (filtered_fast s fast) (local_evidence ?t)
        (resolve_air_data (ax_config s) (filtered_fast s fast) (local_evidence ?t)))\<lparr>avc_command_checksum := h\<rparr>"
    and r: "ax_config r = ax_config s" "ax_epoch r = ax_epoch s" "ax_missing_fast_epochs r = ax_missing_fast_epochs s'" by blast
  show "advanced_inv s'" using t(1) by (simp add: advanced_inv_def fields)
  show "ax_config s' = ax_config s" "ax_epoch s' = ax_epoch s + 1" "ae_missing_fast_epochs e = ax_missing_fast_epochs s'"
    "ax_missing_fast_epochs s' = (if filtered_fast s fast = None then saturating_inc_u8 (ax_missing_fast_epochs s) else 0)"
    by (fact fields)+
  show "le_safe (ae_local e) = lf_safe (ax_local s')" "lf_safe (ax_local s) \<Longrightarrow> lf_safe (ax_local s')"
    using t(5) by (simp_all add: fields)
  show "avc_session (ae_command e) = lcf_session (acf_local (ax_config s))" "avc_source_epoch (ae_command e) = ax_epoch s"
    "avc_effective_epoch (ae_command e) = ax_epoch s + 1"
    "avc_flags (ae_command e) AND NOT ADVANCED_COMMAND_FLAG_MASK = 0"
    by (simp_all add: c advanced_command_def r advanced_flags_ok)
  show "avc_discrete (ae_command e) AND NOT ADVANCED_COMMAND_DISCRETE_MASK = 0"
    using discrete_codes(1) [OF t(16)] discrete_codes(2) by (simp add: c advanced_command_def advanced_discrete_def)
  show "avc_discrete (ae_command e) = ADVANCED_COMMAND_SAFE \<and> avc_torque_demand_q12 (ae_command e) = (0, 0, 0)"
    if "3 \<le> ax_missing_fast_epochs s' \<or> lf_safe (ax_local s')"
    using that by (simp add: c advanced_command_def advanced_discrete_def advanced_torque_def advanced_safe_def r fields Let_def)
qed

subsection \<open>Effectors within their limits\<close>

definition within_limits :: "i16 list \<Rightarrow> i16 list \<Rightarrow> bool" where
  "within_limits limits xs \<longleftrightarrow> length xs = length limits
     \<and> (\<forall>k < length xs. xs ! k = 0 \<or> \<bar>sint (xs ! k)\<bar> \<le> sint (limits ! k))"

definition quanta_within :: "u8 list \<Rightarrow> u8 list \<Rightarrow> bool" where
  "quanta_within maximum qs \<longleftrightarrow> length qs = 12 \<and> (\<forall>k < 12. qs ! k = 0 \<or> qs ! k \<le> maximum ! k \<and> qs ! k \<le> 8)"

lemma physical_within: "0 < sint limit \<Longrightarrow> \<bar>sint (word_of_int (physical_q limit x) :: i16)\<bar> \<le> sint limit"
proof -
  assume pos: "0 < sint limit"
  then have b: "- sint limit \<le> physical_q limit x \<and> physical_q limit x \<le> sint limit"
    unfolding physical_q_def by (intro clamp_int_bounds) simp
  then have "sint (word_of_int (physical_q limit x) :: i16) = physical_q limit x"
    using sint_i16_range [of limit] by (intro sint_of_int_i16) auto
  then show ?thesis using b by auto
qed

lemma continuous_within:
  assumes "allocate_continuous n residual authority mix limits healthy = (a, g, c)" "length limits = n" "\<forall>v \<in> set limits. 0 <s v"
  shows "within_limits limits g"
proof -
  have "0 < sint (limits ! k)" if "k < n" for k using assms(2,3) that nth_mem [of k limits] by (auto simp: word_sless_alt)
  then show ?thesis
    using assms(1,2) physical_within by (auto simp: allocate_continuous_def Let_def within_limits_def)
qed

lemma rcs_pulse_value: "uint (rcs_pulse x m f) = clamp_int 0 (uint m) (rcs_accumulated x m f div 2 ^ 15)"
proof -
  have "0 \<le> clamp_int 0 (uint m) (rcs_accumulated x m f div 2 ^ 15) \<and> clamp_int 0 (uint m) (rcs_accumulated x m f div 2 ^ 15) \<le> uint m"
    by (rule clamp_int_bounds) simp
  moreover have "uint m < 2 ^ 8" using uint_bounded [of m] by simp
  ultimately show ?thesis unfolding rcs_pulse_def by (simp add: uint_word_of_int_eq take_bit_int_eq_self)
qed

lemma rcs_within:
  assumes "allocate_rcs residual authority mix maximum healthy fraction = (a, q, c, fraction')"
    "length maximum = 12" "\<forall>v \<in> set maximum. 0 < v \<and> v \<le> 8"
  shows "quanta_within maximum q"
proof -
  have "rcs_pulse x (maximum ! k) f \<le> maximum ! k" for x k f
    using clamp_int_bounds [of 0 "uint (maximum ! k)"] by (simp add: word_le_def rcs_pulse_value)
  moreover have "maximum ! k \<le> 8" if "k < 12" for k using assms(2,3) that by simp
  ultimately have p: "rcs_pulse x (maximum ! k) f \<le> maximum ! k" "k < 12 \<Longrightarrow> rcs_pulse x (maximum ! k) f \<le> 8" for x k f
    using order_trans by blast+
  have "q = map (\<lambda>k. if healthy AND push_bit k 1 \<noteq> 0
      then rcs_pulse (synth 12 (allocated_within residual authority) authority mix ! k) (maximum ! k) (fraction ! k) else 0) [0..<12]"
    using assms(1) by (simp add: allocate_rcs_def Let_def)
  then show ?thesis using p by (simp add: quanta_within_def)
qed

definition allocation_within :: "AdvancedAllocatorConfig \<Rightarrow> AllocationResult \<Rightarrow> bool" where
  "allocation_within c out \<longleftrightarrow> within_limits (gimbal_limit_turn16 c) (res_gimbal out)
     \<and> within_limits (canard_limit_turn16 c) (res_canards out) \<and> quanta_within (rcs_max_quanta c) (res_rcs_pulse_quanta out)"

definition residual_exact :: "AllocationResult \<Rightarrow> bool" where
  "residual_exact out \<longleftrightarrow> residual_q12 out
     = make3 (\<lambda>axis. saturating_sub_i32 (at3 (requested_q12 out) axis) (at3 (achieved_q12 out) axis))"

lemma apply_group_effect:
  "allocation_within c (apply_group out a n) = allocation_within c out" "residual_exact (apply_group out a n)"
  "requested_q12 (apply_group out a n) = requested_q12 out"
  by (simp_all add: apply_group_def Let_def allocation_within_def residual_exact_def)

lemma allocate_group_effect:
  assumes "allocator_config_valid c" "allocator_config_sized c" "allocation_within c out" "residual_exact out"
    "allocate_group c f w p (out, used, fraction) = (out', used', fraction')"
  shows "allocation_within c out'" "residual_exact out'" "requested_q12 out' = requested_q12 out"
proof -
  have g: "has_gimbal c \<Longrightarrow> \<forall>v \<in> set (gimbal_limit_turn16 c). 0 <s v" "has_canards c \<Longrightarrow> \<forall>v \<in> set (canard_limit_turn16 c). 0 <s v"
    "has_rcs c \<Longrightarrow> \<forall>v \<in> set (rcs_max_quanta c). 0 < v \<and> v \<le> 8"
    using assms(1) by (simp_all add: allocator_config_valid_def)
  have n: "length (gimbal_limit_turn16 c) = 2" "length (canard_limit_turn16 c) = 4" "length (rcs_max_quanta c) = 12"
    using assms(2) by (simp_all add: allocator_config_sized_def)
  note within = continuous_within [OF _ n(1) g(1)] continuous_within [OF _ n(2) g(2)] rcs_within [OF _ n(3) g(3)]
  note eff = apply_group_effect and defs = allocate_group_def allocation_within_def
  consider (g) "p = GROUP_GIMBAL" "gimbal_available c f" | (c) "p = GROUP_CANARD" "canard_available c f w"
    | (r) "p = GROUP_RCS" "rcs_available c f" | (none) "(out', used', fraction') = (out, used, fraction)"
    using assms(5) by (auto simp: allocate_group_def split: if_splits)
  then have "allocation_within c out' \<and> residual_exact out' \<and> requested_q12 out' = requested_q12 out"
  proof cases
    case g
    obtain a x n where r: "allocate_continuous 2 (residual_q12 out) (group_authority c 0 32768) (gimbal_mix_q15 c)
        (gimbal_limit_turn16 c) (gimbal_healthy_mask f) = (a, x, n)" using prod_cases3 by blast
    then have "out' = apply_group (out\<lparr>res_gimbal := x\<rparr>) a n" using g assms(5) by (simp add: allocate_group_def)
    then show ?thesis
      using within(1) [OF r] g(2) assms(3) by (simp add: eff gimbal_available_def) (simp add: allocation_within_def)
  next
    case c
    obtain a x n where r: "allocate_continuous 4 (residual_q12 out) (group_authority c 1 w) (canard_mix_q15 c)
        (canard_limit_turn16 c) (canard_healthy_mask f) = (a, x, n)" using prod_cases3 by blast
    have "p \<noteq> GROUP_GIMBAL" using c(1) by (simp add: GROUP_GIMBAL_def GROUP_CANARD_def)
    then have "out' = apply_group (out\<lparr>res_canards := x\<rparr>) a n" using c r assms(5) by (simp add: allocate_group_def)
    then show ?thesis
      using within(2) [OF r] c(2) assms(3) by (simp add: eff canard_available_def) (simp add: allocation_within_def)
  next
    case r
    obtain a x n fr where q: "allocate_rcs (residual_q12 out) (group_authority c 2 32768) (rcs_mix_q15 c)
        (rcs_max_quanta c) (rcs_healthy_mask f) fraction = (a, x, n, fr)" using prod_cases4 by blast
    have "p \<noteq> GROUP_GIMBAL" "p \<noteq> GROUP_CANARD" using r(1) by (simp_all add: GROUP_GIMBAL_def GROUP_CANARD_def GROUP_RCS_def)
    then have "out' = apply_group (out\<lparr>res_rcs_pulse_quanta := x\<rparr>) a n" using r q assms(5) by (simp add: allocate_group_def)
    then show ?thesis
      using within(3) [OF q] r(2) assms(3) by (simp add: eff rcs_available_def) (simp add: allocation_within_def)
  qed (use assms in simp)
  then show "allocation_within c out'" "residual_exact out'" "requested_q12 out' = requested_q12 out" by simp_all
qed

lemma zero_allocation_within: "allocator_config_sized c \<Longrightarrow> allocation_within c (ZERO_ALLOCATION\<lparr>requested_q12 := r, residual_q12 := r'\<rparr>)"
  by (simp add: allocation_within_def within_limits_def quanta_within_def ZERO_ALLOCATION_def allocator_config_sized_def)

lemma make3_eq_at3: "make3 (at3 v) = v"
  by (simp add: make3_def)

lemma saturating_sub_zero: "saturating_sub_i32 x 0 = x"
  using sint_i32_range [of x] by (simp add: saturating_sub_i32_def sat_i32_def)

lemma marked_allocation:
  "allocation_within c (if b then out\<lparr>saturation_count := n\<rparr> else out) = allocation_within c out"
  "residual_exact (if b then out\<lparr>saturation_count := n\<rparr> else out) = residual_exact out"
  "requested_q12 (if b then out\<lparr>saturation_count := n\<rparr> else out) = requested_q12 out"
  "allocation_within c (if b then out\<lparr>authority_state := m\<rparr> else out) = allocation_within c out"
  "residual_exact (if b then out\<lparr>authority_state := m\<rparr> else out) = residual_exact out"
  "requested_q12 (if b then out\<lparr>authority_state := m\<rparr> else out) = requested_q12 out"
  by (simp_all add: allocation_within_def residual_exact_def)

lemma canard_weight_config: "al_config (snd (canard_weight f s)) = al_config s"
  by (simp add: canard_weight_def Let_def)

lemma allocate_effect:
  assumes "allocate demand f s = (r, s')" "allocator_config_valid (al_config s)" "allocator_config_sized (al_config s)"
  shows "al_config s' = al_config s" "\<exists>out. r = Inr out \<and> allocation_within (al_config s) out \<and> residual_exact out \<and> requested_q12 out = demand
    \<and> (fb_safe f \<or> on_rail f \<or> fb_recovery f \<longrightarrow> out = ZERO_ALLOCATION\<lparr>requested_q12 := demand, residual_q12 := demand\<rparr>)"
proof -
  let ?c = "al_config s" and ?z = "ZERO_ALLOCATION\<lparr>requested_q12 := demand, residual_q12 := demand\<rparr>"
  have z: "allocation_within ?c ?z" "residual_exact ?z"
    using zero_allocation_within [OF assms(3)] by (simp_all add: residual_exact_def ZERO_ALLOCATION_def saturating_sub_zero make3_def)
  show "al_config s' = ?c"
    using assms(1) canard_weight_config [of f s] by (auto simp: allocate_def Let_def split: if_splits prod.splits)
  show "\<exists>out. r = Inr out \<and> allocation_within ?c out \<and> residual_exact out \<and> requested_q12 out = demand
    \<and> (fb_safe f \<or> on_rail f \<or> fb_recovery f \<longrightarrow> out = ?z)"
  proof (cases "fb_safe f \<or> on_rail f \<or> fb_recovery f")
    case True
    then show ?thesis using assms(1,2) z by (auto simp: allocate_def Let_def ZERO_ALLOCATION_def)
  next
    case False
    obtain w s1 where w: "canard_weight f s = (w, s1)" by fastforce
    let ?o = "?z\<lparr>canard_weight_q15 := w, authority_state := (if gimbal_available ?c f then AUTHORITY_GIMBAL else 0)
              OR (if canard_available ?c f w then AUTHORITY_CANARD else 0)
              OR (if rcs_available ?c f then AUTHORITY_RCS else 0)\<rparr>"
    have o: "allocation_within ?c ?o" "residual_exact ?o" "requested_q12 ?o = demand"
      using z by (simp_all add: allocation_within_def residual_exact_def)
    obtain o1 u1 f1 where 1: "allocate_group ?c f w (at3 (priorities ?c) 0) (?o, 0, rcs_fraction_q15 s1) = (o1, u1, f1)"
      using prod_cases3 by blast
    obtain o2 u2 f2 where 2: "allocate_group ?c f w (at3 (priorities ?c) 1) (o1, u1, f1) = (o2, u2, f2)" using prod_cases3 by blast
    obtain o3 u3 f3 where 3: "allocate_group ?c f w (at3 (priorities ?c) 2) (o2, u2, f2) = (o3, u3, f3)" using prod_cases3 by blast
    note e1 = allocate_group_effect [OF assms(2,3) o(1,2) 1]
    note e2 = allocate_group_effect [OF assms(2,3) e1(1,2) 2]
    note e3 = allocate_group_effect [OF assms(2,3) e2(1,2) 3]
    have fold: "fold (allocate_group ?c f w) [at3 (priorities ?c) 0, at3 (priorities ?c) 1, at3 (priorities ?c) 2]
        (?o, 0, rcs_fraction_q15 s1) = (o3, u3, f3)" by (simp only: fold_simps 1 2 3 id_apply)
    let ?h = "if 1 < u3 then o3\<lparr>authority_state := authority_state o3 OR AUTHORITY_HANDOFF\<rparr> else o3"
    have r: "r = Inr (if residual_q12 ?h \<noteq> (0, 0, 0) then ?h\<lparr>saturation_count := saturating_add_u16 (saturation_count ?h) 1\<rparr> else ?h)"
      using assms(1,2) False w fold by (simp add: allocate_def Let_def split: if_splits)
    show ?thesis unfolding r using e3 e2(3) e1(3) o(3) False by (simp add: marked_allocation del: One_nat_def)
  qed
qed

subsection \<open>Thruster pulses\<close>

lemma i32_clamp_id: "- (2 ^ 31) \<le> v \<Longrightarrow> v \<le> 2 ^ 31 - 1 \<Longrightarrow> i32_clamp v = v"
  by (simp add: i32_clamp_def)

lemma rcs_jet_exact:
  assumes "0 \<le> sint f" "sint f < 2 ^ 15" "x \<le> 32767" "0 < m" "m \<le> 8"
  shows "uint (rcs_pulse x m f) = (sint f + max x 0 * uint m) div 2 ^ 15"
    "sint (rcs_remainder x m f) = (sint f + max x 0 * uint m) mod 2 ^ 15"
proof -
  have m: "1 \<le> uint m" "uint m \<le> 8" using assms(4,5) by (simp_all add: word_le_def word_less_def)
  define d where "d = max x 0 * uint m"
  have w: "0 \<le> d" "d \<le> 32767 * uint m"
    unfolding d_def using assms(3) m by (simp, intro mult_right_mono) simp_all
  have acc: "rcs_accumulated x m f = sint f + d"
    unfolding rcs_accumulated_def Let_def d_def [symmetric] using w m assms(1,2) by (simp add: i32_clamp_id)
  have "sint f + d < (uint m + 1) * 32768" using w(2) assms(2) m(1) by simp
  then have "(sint f + d) div 32768 \<le> (32767 + uint m * 32768) div 32768" by (intro zdiv_mono1) simp_all
  then have "(sint f + d) div 32768 \<le> uint m" by simp
  moreover have "0 \<le> (sint f + d) div 32768" using w(1) assms(1) by (simp add: pos_imp_zdiv_nonneg_iff)
  ultimately have p: "uint (rcs_pulse x m f) = (sint f + d) div 2 ^ 15" by (simp add: rcs_pulse_value acc)
  have "sint f + d - (sint f + d) div 2 ^ 15 * 2 ^ 15 = (sint f + d) mod 2 ^ 15"
    by (simp only: minus_div_mult_eq_mod)
  moreover have "0 \<le> (sint f + d) mod 2 ^ 15" "(sint f + d) mod 2 ^ 15 < 2 ^ 15" by simp_all
  ultimately have "sint (rcs_remainder x m f) = (sint f + d) mod 2 ^ 15"
    unfolding rcs_remainder_def acc p by (simp add: i32_clamp_id sint_of_int_i32)
  then show "uint (rcs_pulse x m f) = (sint f + max x 0 * uint m) div 2 ^ 15"
    "sint (rcs_remainder x m f) = (sint f + max x 0 * uint m) mod 2 ^ 15"
    using p by (simp_all add: d_def)
qed

fun rcs_run :: "i16 list vec3 \<Rightarrow> u8 list \<Rightarrow> u16 \<Rightarrow> (i32 vec3 \<times> i32 vec3) list \<Rightarrow> i32 list \<Rightarrow> u8 list list \<times> i32 list" where
  "rcs_run mix maximum healthy [] fraction = ([], fraction)"
| "rcs_run mix maximum healthy ((residual, authority) # inputs) fraction =
     (let (a, q, c, fraction) = allocate_rcs residual authority mix maximum healthy fraction;
          (qs, fraction) = rcs_run mix maximum healthy inputs fraction
      in (q # qs, fraction))"

definition rcs_wish :: "i16 list vec3 \<Rightarrow> u8 list \<Rightarrow> nat \<Rightarrow> i32 vec3 \<times> i32 vec3 \<Rightarrow> int" where
  "rcs_wish mix maximum k = (\<lambda>(residual, authority).
     max (synth 12 (allocated_within residual authority) authority mix ! k) 0 * uint (maximum ! k))"

lemma div_carry: "t div 32768 + (t mod 32768 + u) div 32768 = (t + u) div (32768 :: int)"
proof -
  have "t + u = (t mod 32768 + u) + t div 32768 * 32768" using mult_div_mod_eq [of 32768 t] by simp
  then have "(t + u) div 32768 = ((t mod 32768 + u) + t div 32768 * 32768) div 32768" by simp
  also have "\<dots> = t div 32768 + (t mod 32768 + u) div 32768" by (rule div_mult_self1) simp
  finally show ?thesis by simp
qed

lemma synth_bounds: "k < n \<Longrightarrow> synth n allocated authority mix ! k \<le> 32767"
  unfolding synth_def using clamp_int_bounds [of "- 32768" 32767] by simp

lemma rcs_run_exact:
  assumes "0 < maximum ! k" "maximum ! k \<le> 8" "k < 12" "healthy AND push_bit k 1 \<noteq> 0"
    "0 \<le> sint (fraction ! k)" "sint (fraction ! k) < 2 ^ 15"
  shows "sum_list (map (\<lambda>q. uint (q ! k)) (fst (rcs_run mix maximum healthy inputs fraction)))
    = (sint (fraction ! k) + sum_list (map (rcs_wish mix maximum k) inputs)) div 2 ^ 15"
  using assms(5,6)
proof (induction inputs arbitrary: fraction)
  case Nil
  then show ?case by simp
next
  case (Cons i inputs)
  obtain residual authority where i: "i = (residual, authority)" by (cases i)
  obtain a q c fr where r: "allocate_rcs residual authority mix maximum healthy fraction = (a, q, c, fr)" using prod_cases4 by blast
  let ?x = "synth 12 (allocated_within residual authority) authority mix ! k"
  have q: "q ! k = rcs_pulse ?x (maximum ! k) (fraction ! k)" "fr ! k = rcs_remainder ?x (maximum ! k) (fraction ! k)"
    using r assms(3,4) by (auto simp: allocate_rcs_def Let_def)
  note jet = rcs_jet_exact [OF Cons.prems synth_bounds [OF assms(3)] assms(1,2), of "allocated_within residual authority" authority mix,
      folded q]
  have w: "max ?x 0 * uint (maximum ! k) = rcs_wish mix maximum k i" by (simp add: rcs_wish_def i)
  have "sum_list (map (\<lambda>q. uint (q ! k)) (fst (rcs_run mix maximum healthy inputs fr)))
      = (sint (fr ! k) + sum_list (map (rcs_wish mix maximum k) inputs)) div 2 ^ 15"
    by (rule Cons.IH) (simp_all add: jet(2))
  moreover have "fst (rcs_run mix maximum healthy (i # inputs) fraction) = q # fst (rcs_run mix maximum healthy inputs fr)"
    by (simp add: i r case_prod_beta)
  ultimately show ?case using jet w by (simp add: div_carry add.assoc)
qed

text \<open>
  C15: No thruster demand is lost or invented by the quantisation into pulses: over any sequence of
  demands, the pulses a healthy jet has fired are the sum of its demanded pulse widths,
  rounded down.
\<close>
theorem rcs_pulses_exact:
  assumes "k < 12" "healthy AND push_bit k 1 \<noteq> 0" "0 < maximum ! k" "maximum ! k \<le> 8"
  shows "sum_list (map (\<lambda>q. uint (q ! k)) (fst (rcs_run mix maximum healthy inputs (replicate 12 0))))
    = sum_list (map (rcs_wish mix maximum k) inputs) div 2 ^ 15"
  using rcs_run_exact [OF assms(3,4,1,2), of "replicate 12 0" mix inputs] assms(1) by simp

theorem rcs_pulses_exact_witness:
  "sum_list (map (\<lambda>q. uint (q ! 1)) (fst (rcs_run (replicate 12 0, replicate 12 8192, replicate 12 0) (replicate 12 3) 0x0fff
     (replicate 4 ((0, 20, 0), (0, 40, 0))) (replicate 12 0)))) = 1"
proof -
  have "rcs_wish (replicate 12 0, replicate 12 8192, replicate 12 0) (replicate 12 3) 1 ((0, 20, 0), (0, 40, 0)) = 12288"
    by code_simp
  then show ?thesis
    using rcs_pulses_exact [of 1 "0x0fff" "replicate 12 3" "(replicate 12 0, replicate 12 8192, replicate 12 0)"
        "replicate 4 ((0, 20, 0), (0, 40, 0))"] by (simp add: sum_list_replicate)
qed

subsection \<open>The allocating computer\<close>

definition list4 :: "'a vec4 \<Rightarrow> 'a list" where
  "list4 v = map (at4 v) [0..<4]"

definition effectors_within :: "AdvancedAllocatorConfig \<Rightarrow> AdvancedCommandCell \<Rightarrow> bool" where
  "effectors_within c v \<longleftrightarrow> within_limits (gimbal_limit_turn16 c) [fst (avc_gimbal v), snd (avc_gimbal v)]
     \<and> within_limits (canard_limit_turn16 c) (list4 (avc_canards v)) \<and> quanta_within (rcs_max_quanta c) (avc_rcs_pulse_quanta v)"

definition alloc_inv :: "AllocatedAdvancedFlightComputer \<Rightarrow> bool" where
  "alloc_inv s \<longleftrightarrow> advanced_inv (ay_base s) \<and> allocator_config_valid (al_config (ay_allocator s))
     \<and> allocator_config_sized (al_config (ay_allocator s))
     \<and> within_limits (gimbal_limit_turn16 (al_config (ay_allocator s))) [fst (fst (ay_last_continuous s)), snd (fst (ay_last_continuous s))]
     \<and> within_limits (canard_limit_turn16 (al_config (ay_allocator s))) (list4 (snd (ay_last_continuous s)))"

abbreviation alloc_safe :: "AllocatedAdvancedFlightComputer \<Rightarrow> bool" where
  "alloc_safe s \<equiv> lf_safe (ax_local (ay_base s))"

abbreviation alloc_missing :: "AllocatedAdvancedFlightComputer \<Rightarrow> u8" where
  "alloc_missing s \<equiv> ax_missing_fast_epochs (ay_base s)"

lemma two_elements: "length xs = 2 \<Longrightarrow> [xs ! 0, xs ! 1] = xs"
  by (auto simp: numeral_2_eq_2 length_Suc_conv)

lemma four_elements: "length xs = 4 \<Longrightarrow> list4 (quad_of xs) = xs"
  by (rule nth_equalityI) (auto simp: list4_def quad_of_def less_Suc_eq numeral_eq_Suc)

lemma zero_effectors:
  "length l = 2 \<Longrightarrow> within_limits l [0, 0]" "length l = 4 \<Longrightarrow> within_limits l (list4 (0, 0, 0, 0))" "quanta_within m (replicate 12 0)"
  by (auto simp: within_limits_def quanta_within_def list4_def less_Suc_eq nth_Cons' numeral_eq_Suc)

lemma hold_flag: "f AND NOT ADVANCED_COMMAND_FLAG_MASK = 0 \<Longrightarrow> (f OR ADVANCED_COMMAND_FLAG_HOLD) AND NOT ADVANCED_COMMAND_FLAG_MASK = 0"
  by (simp add: bit.conj_disj_distrib2 ADVANCED_COMMAND_FLAG_HOLD_def ADVANCED_COMMAND_FLAG_MASK_def)

lemma effector_command_effect:
  assumes "effector_command b a s = (v, s')"
  shows "ay_base s' = ay_base s" "ay_allocator s' = ay_allocator s"
    "avc_session v = avc_session (ae_command b)" "avc_source_epoch v = avc_source_epoch (ae_command b)"
    "avc_effective_epoch v = avc_effective_epoch (ae_command b)" "avc_torque_demand_q12 v = avc_torque_demand_q12 (ae_command b)"
    "avc_flags (ae_command b) AND NOT ADVANCED_COMMAND_FLAG_MASK = 0 \<Longrightarrow> avc_flags v AND NOT ADVANCED_COMMAND_FLAG_MASK = 0"
    "avc_discrete v = avc_discrete (ae_command b) \<or> avc_discrete v = ADVANCED_COMMAND_SAFE"
    "0 < ae_missing_fast_epochs b \<Longrightarrow> ae_missing_fast_epochs b \<le> 2 \<Longrightarrow>
       avc_gimbal v = fst (ay_last_continuous s) \<and> avc_canards v = snd (ay_last_continuous s) \<and> avc_rcs_pulse_quanta v = replicate 12 0 \<and> ay_last_continuous s' = ay_last_continuous s"
    "3 \<le> ae_missing_fast_epochs b \<or> ae_missing_fast_epochs b = 0 \<and> le_safe (ae_local b) \<Longrightarrow>
       avc_gimbal v = (0, 0) \<and> avc_canards v = (0, 0, 0, 0) \<and> avc_rcs_pulse_quanta v = replicate 12 0 \<and> ay_last_continuous s' = ay_last_continuous s"
    "ae_missing_fast_epochs b = 0 \<Longrightarrow> \<not> le_safe (ae_local b) \<Longrightarrow>
       avc_gimbal v = pair_of (res_gimbal a) \<and> avc_canards v = quad_of (res_canards a) \<and> avc_rcs_pulse_quanta v = res_rcs_pulse_quanta a
       \<and> ay_last_continuous s' = (avc_gimbal v, avc_canards v)"
proof -
  have missing: "\<not> (0 < m \<and> m \<le> 2)" if "3 \<le> m" for m :: u8
  proof -
    have "(2 :: u8) < 3" by simp
    then show ?thesis using that by (meson leD le_less_trans order_less_le_trans)
  qed
  show "3 \<le> ae_missing_fast_epochs b \<or> ae_missing_fast_epochs b = 0 \<and> le_safe (ae_local b) \<Longrightarrow>
       avc_gimbal v = (0, 0) \<and> avc_canards v = (0, 0, 0, 0) \<and> avc_rcs_pulse_quanta v = replicate 12 0 \<and> ay_last_continuous s' = ay_last_continuous s"
    using assms missing [of "ae_missing_fast_epochs b"] by (auto simp: effector_command_def Let_def split: if_splits)
qed (use assms hold_flag in \<open>auto simp: effector_command_def Let_def split: if_splits\<close>)

definition zero_command :: "AdvancedCommandCell \<Rightarrow> bool" where
  "zero_command v \<longleftrightarrow> avc_gimbal v = (0, 0) \<and> avc_canards v = (0, 0, 0, 0) \<and> avc_rcs_pulse_quanta v = replicate 12 0"

definition safe_order :: "AdvancedCommandCell \<Rightarrow> bool" where
  "safe_order v \<longleftrightarrow> avc_discrete v = ADVANCED_COMMAND_SAFE \<and> avc_torque_demand_q12 v = (0, 0, 0)
     \<and> avc_rcs_pulse_quanta v = replicate 12 0"

lemma missing_cases:
  obtains (present) "(m :: u8) = 0" | (held) "0 < m" "m \<le> 2" | (lost) "3 \<le> m"
  by (cases "m = 0"; cases "m \<le> 2") (auto simp: word_less_nat_alt word_le_nat_alt unat_gt_0)

lemma allocated_tick_parts:
  assumes "allocated_tick fast aid s = (e, s')" "alloc_inv s"
  obtains b t out al v s2 h where "advanced_tick fast aid (ay_base s) = (b, t)"
    "allocation_within (al_config (ay_allocator s)) out" "al_config al = al_config (ay_allocator s)"
    "effector_command b out (s\<lparr>ay_base := t, ay_allocator := al\<rparr>) = (v, s2)"
    "s' = s2\<lparr>ay_allocator_checksum := h\<rparr>" "aw_command e = v\<lparr>avc_command_checksum := h\<rparr>" "aw_base e = b"
proof -
  obtain b t where b: "advanced_tick fast aid (ay_base s) = (b, t)" by fastforce
  let ?f = "allocator_feedback (al_config (ay_allocator s)) (case fast of Some c \<Rightarrow> c | None \<Rightarrow> missing_fast_sensor) b"
  obtain r al where a: "allocate (avc_torque_demand_q12 (ae_command b)) ?f (ay_allocator s) = (r, al)" by fastforce
  have inv: "allocator_config_valid (al_config (ay_allocator s))" "allocator_config_sized (al_config (ay_allocator s))"
    using assms(2) by (simp_all add: alloc_inv_def)
  obtain out where out: "r = Inr out" "allocation_within (al_config (ay_allocator s)) out"
    using allocate_effect(2) [OF a inv] by blast
  obtain v s2 where v: "effector_command b out (s\<lparr>ay_base := t, ay_allocator := al\<rparr>) = (v, s2)" by fastforce
  show thesis
    by (rule that [OF b out(2) allocate_effect(1) [OF a inv] v, of "hash_alloc (ay_allocator_checksum s2) v out"])
      (use assms(1) b a out(1) v in \<open>auto simp: allocated_tick_def Let_def\<close>)
qed

lemma allocated_tick_effect:
  assumes "allocated_tick fast aid s = (e, s')" "alloc_inv s"
  shows "alloc_inv s'" "al_config (ay_allocator s') = al_config (ay_allocator s)" "ax_config (ay_base s') = ax_config (ay_base s)"
    "ax_epoch (ay_base s') = ax_epoch (ay_base s) + 1"
    "alloc_missing s' = (if filtered_fast (ay_base s) fast = None then saturating_inc_u8 (alloc_missing s) else 0)"
    "le_safe (ae_local (aw_base e)) = alloc_safe s'" "alloc_safe s \<Longrightarrow> alloc_safe s'"
    "avc_session (aw_command e) = lcf_session (acf_local (ax_config (ay_base s)))"
    "avc_source_epoch (aw_command e) = ax_epoch (ay_base s)" "avc_effective_epoch (aw_command e) = ax_epoch (ay_base s) + 1"
    "avc_flags (aw_command e) AND NOT ADVANCED_COMMAND_FLAG_MASK = 0"
    "avc_discrete (aw_command e) AND NOT ADVANCED_COMMAND_DISCRETE_MASK = 0"
    "effectors_within (al_config (ay_allocator s)) (aw_command e)"
    "alloc_safe s' \<Longrightarrow> safe_order (aw_command e)"
    "0 < alloc_missing s' \<Longrightarrow> alloc_missing s' \<le> 2 \<Longrightarrow>
       avc_gimbal (aw_command e) = fst (ay_last_continuous s) \<and> avc_canards (aw_command e) = snd (ay_last_continuous s) \<and> ay_last_continuous s' = ay_last_continuous s"
    "3 \<le> alloc_missing s' \<or> alloc_missing s' = 0 \<and> alloc_safe s' \<Longrightarrow> zero_command (aw_command e) \<and> ay_last_continuous s' = ay_last_continuous s"
    "alloc_missing s' = 0 \<Longrightarrow> \<not> alloc_safe s' \<Longrightarrow> ay_last_continuous s' = (avc_gimbal (aw_command e), avc_canards (aw_command e))"
proof -
  obtain b t out al v s2 h where b: "advanced_tick fast aid (ay_base s) = (b, t)"
    and out: "allocation_within (al_config (ay_allocator s)) out" and al: "al_config al = al_config (ay_allocator s)"
    and v: "effector_command b out (s\<lparr>ay_base := t, ay_allocator := al\<rparr>) = (v, s2)"
    and s': "s' = s2\<lparr>ay_allocator_checksum := h\<rparr>" "aw_command e = v\<lparr>avc_command_checksum := h\<rparr>" "aw_base e = b"
    using allocated_tick_parts [OF assms] by blast
  have inv: "advanced_inv (ay_base s)" "allocator_config_valid (al_config (ay_allocator s))"
    "allocator_config_sized (al_config (ay_allocator s))" using assms(2) by (simp_all add: alloc_inv_def)
  note base = advanced_tick_effect [OF b inv(1)] and eff = effector_command_effect [OF v, simplified]
  have parts: "ay_base s' = t" "al_config (ay_allocator s') = al_config (ay_allocator s)" "ay_last_continuous s' = ay_last_continuous s2"
    using eff(1,2) al s'(1) by simp_all
  have n: "length (gimbal_limit_turn16 (al_config (ay_allocator s))) = 2" "length (canard_limit_turn16 (al_config (ay_allocator s))) = 4"
    using inv(3) by (simp_all add: allocator_config_sized_def)
  note sizes = n zero_effectors(1) [OF n(1)] zero_effectors(2) [OF n(2)] zero_effectors(3)
  have within: "within_limits (gimbal_limit_turn16 (al_config (ay_allocator s))) [fst (pair_of (res_gimbal out)), snd (pair_of (res_gimbal out))]"
    "within_limits (canard_limit_turn16 (al_config (ay_allocator s))) (list4 (quad_of (res_canards out)))"
    "quanta_within (rcs_max_quanta (al_config (ay_allocator s))) (res_rcs_pulse_quanta out)"
    using out n two_elements [of "res_gimbal out"] four_elements [of "res_canards out"]
    by (simp_all add: allocation_within_def pair_of_def within_limits_def)
  have last: "within_limits (gimbal_limit_turn16 (al_config (ay_allocator s))) [fst (fst (ay_last_continuous s)), snd (fst (ay_last_continuous s))]"
    "within_limits (canard_limit_turn16 (al_config (ay_allocator s))) (list4 (snd (ay_last_continuous s)))"
    using assms(2) by (simp_all add: alloc_inv_def)
  show "al_config (ay_allocator s') = al_config (ay_allocator s)" by (rule parts)
  show "ax_config (ay_base s') = ax_config (ay_base s)" "ax_epoch (ay_base s') = ax_epoch (ay_base s) + 1"
    "alloc_missing s' = (if filtered_fast (ay_base s) fast = None then saturating_inc_u8 (alloc_missing s) else 0)"
    "le_safe (ae_local (aw_base e)) = alloc_safe s'" "alloc_safe s \<Longrightarrow> alloc_safe s'"
    using base(2-7) parts(1) s'(3) by simp_all
  show "avc_session (aw_command e) = lcf_session (acf_local (ax_config (ay_base s)))"
    "avc_source_epoch (aw_command e) = ax_epoch (ay_base s)" "avc_effective_epoch (aw_command e) = ax_epoch (ay_base s) + 1"
    "avc_flags (aw_command e) AND NOT ADVANCED_COMMAND_FLAG_MASK = 0"
    using base(8-11) eff(3-7) s'(2) by simp_all
  show "avc_discrete (aw_command e) AND NOT ADVANCED_COMMAND_DISCRETE_MASK = 0"
    using base(12) eff(8) discrete_codes(2) s'(2) by auto
  have cases: "effectors_within (al_config (ay_allocator s)) v \<and> alloc_inv s' \<and> (alloc_safe s' \<longrightarrow> avc_rcs_pulse_quanta v = replicate 12 0)"
    by (cases "ae_missing_fast_epochs b" rule: missing_cases; cases "le_safe (ae_local b)")
      (use base(1,6) eff(9-11) within last sizes parts s' inv in
        \<open>auto simp: effectors_within_def alloc_inv_def\<close>)
  then show "alloc_inv s'" "effectors_within (al_config (ay_allocator s)) (aw_command e)" using s'(2) by (simp_all add: effectors_within_def)
  show "safe_order (aw_command e)" if "alloc_safe s'"
    using that base(6,13) eff(6,8) parts(1) s'(2) cases by (auto simp: safe_order_def)
  show "0 < alloc_missing s' \<Longrightarrow> alloc_missing s' \<le> 2 \<Longrightarrow>
       avc_gimbal (aw_command e) = fst (ay_last_continuous s) \<and> avc_canards (aw_command e) = snd (ay_last_continuous s) \<and> ay_last_continuous s' = ay_last_continuous s"
    "3 \<le> alloc_missing s' \<or> alloc_missing s' = 0 \<and> alloc_safe s' \<Longrightarrow> zero_command (aw_command e) \<and> ay_last_continuous s' = ay_last_continuous s"
    "alloc_missing s' = 0 \<Longrightarrow> \<not> alloc_safe s' \<Longrightarrow> ay_last_continuous s' = (avc_gimbal (aw_command e), avc_canards (aw_command e))"
    using eff(9-11) base(4,6) parts s'(2) by (simp_all add: zero_command_def)
qed

subsection \<open>The hysteresis of the canards\<close>

lemma canard_weight_stateless: "fst (canard_weight f (s\<lparr>canard_enabled := was\<rparr>)) = fst (canard_weight f s)"
  by (auto simp: canard_weight_def Let_def word_sle_eq)

lemma canard_weight_fraction: "rcs_fraction_q15 (snd (canard_weight f s)) = rcs_fraction_q15 s"
  by (simp add: canard_weight_def Let_def)

text \<open>
  C40: The hysteresis of the canards has no effect: whatever was remembered of the canards being enabled, the
  allocation of a demand is the same, so the disabling pressure of the configuration, below the
  enabling one, never keeps canards in use.
\<close>
theorem canard_hysteresis_void: "fst (allocate demand f (s\<lparr>canard_enabled := was\<rparr>)) = fst (allocate demand f s)"
  by (simp add: allocate_def Let_def case_prod_beta canard_weight_config canard_weight_fraction canard_weight_stateless)

subsection \<open>Runs\<close>

fun allocated_run :: "(AdvancedFastSensorCell option \<times> AdvancedAidCell option) list \<Rightarrow> AllocatedAdvancedFlightComputer
    \<Rightarrow> AllocatedFlightEvidence list \<times> AllocatedAdvancedFlightComputer" where
  "allocated_run [] s = ([], s)"
| "allocated_run ((fast, aid) # inputs) s =
     (let (e, s) = allocated_tick fast aid s; (es, s) = allocated_run inputs s in (e # es, s))"

definition allocated_command_ok :: "u16 \<Rightarrow> u16 \<Rightarrow> AdvancedAllocatorConfig \<Rightarrow> AllocatedFlightEvidence \<Rightarrow> bool" where
  "allocated_command_ok sid n c v \<longleftrightarrow> avc_session (aw_command v) = sid \<and> avc_source_epoch (aw_command v) = n
     \<and> avc_effective_epoch (aw_command v) = n + 1
     \<and> avc_flags (aw_command v) AND NOT ADVANCED_COMMAND_FLAG_MASK = 0
     \<and> avc_discrete (aw_command v) AND NOT ADVANCED_COMMAND_DISCRETE_MASK = 0
     \<and> effectors_within c (aw_command v) \<and> (le_safe (ae_local (aw_base v)) \<longrightarrow> safe_order (aw_command v))"

lemma allocated_run_commands:
  assumes "alloc_inv s"
  shows "length (fst (allocated_run inputs s)) = length inputs
   \<and> (\<forall>i < length inputs. allocated_command_ok (lcf_session (acf_local (ax_config (ay_base s)))) (ax_epoch (ay_base s) + of_nat i)
        (al_config (ay_allocator s)) (fst (allocated_run inputs s) ! i))
   \<and> (\<forall>i j. i \<le> j \<longrightarrow> j < length inputs \<longrightarrow> le_safe (ae_local (aw_base (fst (allocated_run inputs s) ! i)))
        \<longrightarrow> le_safe (ae_local (aw_base (fst (allocated_run inputs s) ! j))))
   \<and> (alloc_safe s \<longrightarrow> (\<forall>i < length inputs. le_safe (ae_local (aw_base (fst (allocated_run inputs s) ! i)))))"
  using assms
proof (induction inputs arbitrary: s)
  case (Cons input inputs)
  obtain fast aid where i: "input = (fast, aid)" by (cases input)
  obtain e s' where t: "allocated_tick fast aid s = (e, s')" by fastforce
  note eff = allocated_tick_effect [OF t Cons.prems]
  have run: "fst (allocated_run (input # inputs) s) = e # fst (allocated_run inputs s')"
    by (simp add: i t case_prod_beta)
  have ep: "ax_epoch (ay_base s) + of_nat (Suc k) = ax_epoch (ay_base s') + of_nat k" for k by (simp add: eff(4))
  have first: "allocated_command_ok (lcf_session (acf_local (ax_config (ay_base s)))) (ax_epoch (ay_base s)) (al_config (ay_allocator s)) e"
    using eff(6,8-14) by (simp add: allocated_command_ok_def)
  show ?case unfolding run using Cons.IH [OF eff(1)] first eff(2,3,6,7)
    by (auto simp: nth_Cons ep split: nat.splits simp del: of_nat_Suc)
qed simp

lemma new_allocated_flight_inv:
  assumes "new_advanced_flight cfg position attitude = Some b" "new_allocated_flight b c = Some s" "allocator_config_sized c"
  shows "alloc_inv s" "ax_config (ay_base s) = cfg" "ax_epoch (ay_base s) = 0" "al_config (ay_allocator s) = c"
    "ay_last_continuous s = ((0, 0), (0, 0, 0, 0))"
proof -
  have n: "length (gimbal_limit_turn16 c) = 2" "length (canard_limit_turn16 c) = 4"
    using assms(3) by (simp_all add: allocator_config_sized_def)
  obtain l where l: "new_local_flight (acf_local cfg) position attitude = Some l" "ax_local b = l" "ax_config b = cfg" "ax_epoch b = 0"
    using assms(1) by (auto simp: new_advanced_flight_def split: if_splits)
  show "ax_config (ay_base s) = cfg" "ax_epoch (ay_base s) = 0" "al_config (ay_allocator s) = c"
    "ay_last_continuous s = ((0, 0), (0, 0, 0, 0))"
    using assms(2) l by (auto simp: new_allocated_flight_def new_allocator_def split: if_splits)
  show "alloc_inv s"
    using assms(2,3) l new_local_flight_inv [OF l(1)] zero_effectors(1) [OF n(1)] zero_effectors(2) [OF n(2)]
    by (auto simp: new_allocated_flight_def new_allocator_def alloc_inv_def advanced_inv_def split: if_splits)
qed

lemma quanta_transmissible: "length (rcs_max_quanta c) = 12 \<Longrightarrow> effectors_within c v \<Longrightarrow>
    length (avc_rcs_pulse_quanta v) = 12 \<and> (\<forall>q \<in> set (avc_rcs_pulse_quanta v). \<not> 8 < q)"
  by (fastforce simp: effectors_within_def quanta_within_def in_set_conv_nth)

text \<open>
  C13: Over every history of sensor and aiding cells, present, missing or malformed, the commands of the
  allocating computer carry its session and consecutive epochs, keep every gimbal, canard and
  thruster within the limits of the configuration, and survive the command cell codec; once the
  safe state is reported, every later command orders only safe, without torque or thruster
  pulses.
\<close>
theorem allocated_commands_contract:
  assumes "new_advanced_flight cfg position attitude = Some b" "new_allocated_flight b c = Some s" "allocator_config_sized c"
    "fst (allocated_run inputs s) = es" "i < length inputs"
  shows "length es = length inputs \<and> allocated_command_ok (lcf_session (acf_local cfg)) (of_nat i) c (es ! i)
    \<and> (le_safe (ae_local (aw_base (es ! i))) \<longrightarrow> (\<forall>j. i \<le> j \<and> j < length es \<longrightarrow> safe_order (aw_command (es ! j))))
    \<and> (\<exists>bytes. write_advanced_command (aw_command (es ! i)) (replicate 64 0) = (Inr (), bytes)
        \<and> parse_advanced_command bytes = Inr (aw_command (es ! i)))"
proof -
  note new = new_allocated_flight_inv [OF assms(1-3)]
  note run = allocated_run_commands [OF new(1), of inputs, unfolded new assms(4)]
  have ok: "allocated_command_ok (lcf_session (acf_local cfg)) (of_nat j) c (es ! j)" if "j < length inputs" for j using run that by simp
  have latch: "safe_order (aw_command (es ! j))"
    if "i \<le> j" "j < length inputs" "le_safe (ae_local (aw_base (es ! i)))" for j
    using run ok [OF that(2)] that unfolding allocated_command_ok_def by blast
  have q: "length (avc_rcs_pulse_quanta (aw_command (es ! i))) = 12 \<and> (\<forall>q \<in> set (avc_rcs_pulse_quanta (aw_command (es ! i))). \<not> 8 < q)"
    using ok [OF assms(5)] assms(3) by (intro quanta_transmissible [of c]) (auto simp: allocated_command_ok_def allocator_config_sized_def)
  have "advanced_command_ok (avc_flags (aw_command (es ! i))) (avc_discrete (aw_command (es ! i))) (avc_rcs_pulse_quanta (aw_command (es ! i)))"
    using ok [OF assms(5)] q by (simp add: advanced_command_ok_def allocated_command_ok_def)
  then have "\<exists>bytes. write_advanced_command (aw_command (es ! i)) (replicate 64 0) = (Inr (), bytes)
        \<and> parse_advanced_command bytes = Inr (aw_command (es ! i))"
    using advanced_command.write_parse [of "replicate 64 0" "aw_command (es ! i)"] q by auto
  then show ?thesis using run ok [OF assms(5)] latch by simp
qed

definition tower_config :: AdvancedFlightConfig where
  "tower_config = \<lparr>acf_local = firestorm_config\<lparr>lcf_session := 0x9510, capability := MonitorOnly, gimbal_limit_q15 := 0\<rparr>,
     roll_proportional_gain_q15 = 8192, roll_derivative_gain_q15 = 4096, torque_limit_q12 = (4096, 4096, 4096),
     fallback_density_upper_q10 = 1255, maximum_wind_q19 = 5242880, minimum_sound_speed_mps = 300,
     maximum_navigation_speed_mps = 400, acf_propellant_wet_q21 = 209715, acf_reserve_q15 = 6554\<rparr>"

definition gimbal_allocator :: AdvancedAllocatorConfig where
  "gimbal_allocator = \<lparr>priorities = (1, 2, 3), canard_enable_q10 = 307200, canard_full_q10 = 2048000, canard_disable_q10 = 204800,
     alc_reserve_q15 = 6554, alc_propellant_wet_q21 = 209715,
     group_authority_q12 = ((0, 1638, 2048), (2048, 2458, 2048), (2048, 2458, 2048)),
     gimbal_mix_q15 = ([0, 0], [32767, 0], [0, 32767]), canard_mix_q15 = (replicate 4 0, replicate 4 0, replicate 4 0),
     rcs_mix_q15 = (replicate 12 0, replicate 12 0, replicate 12 0), gimbal_limit_turn16 = [455, 455],
     canard_limit_turn16 = [1, 1, 1, 1], rcs_max_quanta = replicate 12 1, has_gimbal = True, has_canards = False, has_rcs = False\<rparr>"

lemma tower_valid: "advanced_config_valid tower_config" "allocator_config_valid gimbal_allocator" "allocator_config_sized gimbal_allocator"
proof -
  show "advanced_config_valid tower_config"
    using firestorm_valid by (simp add: advanced_config_valid_def local_config_valid_def tower_config_def word_sle_eq word_sless_alt)
  show "allocator_config_valid gimbal_allocator"
    by (simp add: allocator_config_valid_def gimbal_allocator_def word_sle_eq word_sless_alt)
  show "allocator_config_sized gimbal_allocator"
    by (simp add: allocator_config_sized_def gimbal_allocator_def less_Suc_eq numeral_3_eq_3)
qed

definition tower_flight :: AdvancedFlightComputer where
  "tower_flight = the (new_advanced_flight tower_config (0, 0, 0) (0, 0, 0))"

definition tower_computer :: AllocatedAdvancedFlightComputer where
  "tower_computer = the (new_allocated_flight tower_flight gimbal_allocator)"

lemma tower_new: "new_advanced_flight tower_config (0, 0, 0) (0, 0, 0) = Some tower_flight"
  "new_allocated_flight tower_flight gimbal_allocator = Some tower_computer"
  using tower_valid
  by (simp_all add: tower_flight_def tower_computer_def new_advanced_flight_def new_local_flight_def advanced_config_valid_def
      new_allocated_flight_def new_allocator_def)

theorem allocated_commands_contract_witness:
  "allocated_command_ok 0x9510 1 gimbal_allocator (fst (allocated_run [(None, None), (None, None)] tower_computer) ! 1)"
  using allocated_commands_contract [OF tower_new tower_valid(3) refl, of 1 "[(None, None), (None, None)]"]
  by (simp add: tower_config_def)

subsection \<open>The held safe computer\<close>

lemma unat_lt2p_8: "unat (y :: u8) < 256"
  using unsigned_less [where 'a = nat, of y] by simp

lemma three_misses: "3 \<le> saturating_inc_u8 (saturating_inc_u8 (saturating_inc_u8 x))"
proof -
  have inc: "unat (saturating_inc_u8 y) = min (unat y + 1) 255" for y
  proof (cases "y = - 1")
    case True
    then show ?thesis by (simp add: saturating_inc_u8_def unsigned_minus_1_eq_mask mask_eq_exp_minus_1)
  next
    case False
    then have "1 + y \<noteq> 0" by (metis add.commute eq_neg_iff_add_eq_0)
    then have "unat (1 + y) = Suc (unat y)" by (rule unatSuc)
    then show ?thesis using False unat_lt2p_8 [of "1 + y"] by (simp add: saturating_inc_u8_def add.commute)
  qed
  show ?thesis by (simp add: word_le_nat_alt inc)
qed

lemma advanced_tick_local:
  "ax_local (snd (advanced_tick fast aid s))
   = snd (local_tick (map_option to_local_inertial (filtered_fast s fast)) (map_option to_local_aid aid) (ax_local s))"
  by (cases "filtered_fast s fast") (simp_all add: advanced_tick_def Let_def case_prod_beta)

lemma local_tick_missing:
  "snd (local_tick None aid s) = tick_in_place missing_inertial False (case aid of Some a \<Rightarrow> a | None \<Rightarrow> missing_aid) (aid \<noteq> None) s"
  by (simp add: local_tick_def Let_def)

lemma allocated_miss:
  assumes "allocated_tick None aid s = (e, s')" "alloc_inv s"
  shows "lf_missing (ax_local (ay_base s')) = saturating_inc_u8 (lf_missing (ax_local (ay_base s)))"
    "3 \<le> lf_missing (ax_local (ay_base s')) \<Longrightarrow> alloc_safe s'"
proof -
  obtain b t out al v s2 h where b: "advanced_tick None aid (ay_base s) = (b, t)"
    and "allocation_within (al_config (ay_allocator s)) out" "al_config al = al_config (ay_allocator s)"
    and v: "effector_command b out (s\<lparr>ay_base := t, ay_allocator := al\<rparr>) = (v, s2)"
    and s': "s' = s2\<lparr>ay_allocator_checksum := h\<rparr>" and "aw_command e = v\<lparr>avc_command_checksum := h\<rparr>" "aw_base e = b"
    using allocated_tick_parts [OF assms] by blast
  have "ay_base s' = t" using effector_command_effect(1) [OF v] unfolding s' by simp
  moreover have "ax_local t = snd (local_tick None (map_option to_local_aid aid) (ax_local (ay_base s)))"
    using advanced_tick_local [of None aid "ay_base s", unfolded b] by (simp only: snd_conv filtered_fast_def option.case option.map)
  ultimately have t: "ax_local (ay_base s') = tick_in_place missing_inertial False
      (case map_option to_local_aid aid of Some a \<Rightarrow> a | None \<Rightarrow> missing_aid) (map_option to_local_aid aid \<noteq> None) (ax_local (ay_base s))"
    by (simp only: local_tick_missing)
  have "local_inv (ax_local (ay_base s))" using assms(2) by (simp add: alloc_inv_def advanced_inv_def)
  note eff = tick_effect(4,5) [OF this t refl]
  show "lf_missing (ax_local (ay_base s')) = saturating_inc_u8 (lf_missing (ax_local (ay_base s)))"
    "3 \<le> lf_missing (ax_local (ay_base s')) \<Longrightarrow> alloc_safe s'"
    using eff by (simp_all add: local_inertial_valid_def)
qed

lemma alloc_held_tick:
  assumes "allocated_tick None aid s = (e, s')" "alloc_inv s"
  shows "alloc_inv s'" "alloc_missing s' = saturating_inc_u8 (alloc_missing s)" "ay_last_continuous s' = ay_last_continuous s"
    "ax_config (ay_base s') = ax_config (ay_base s)" "ax_epoch (ay_base s') = ax_epoch (ay_base s) + 1" "alloc_safe s \<Longrightarrow> alloc_safe s'"
proof -
  note eff = allocated_tick_effect [OF assms]
  show "alloc_inv s'" "alloc_missing s' = saturating_inc_u8 (alloc_missing s)"
    "ax_config (ay_base s') = ax_config (ay_base s)" "ax_epoch (ay_base s') = ax_epoch (ay_base s) + 1" "alloc_safe s \<Longrightarrow> alloc_safe s'"
    using eff(1,3-5,7) by (simp_all add: filtered_fast_def)
  have "alloc_missing s' \<noteq> 0" using eff(5) by (auto simp: filtered_fast_def saturating_inc_u8_def add_eq_0_iff2)
  then show "ay_last_continuous s' = ay_last_continuous s"
    using eff(15,16) by (cases "alloc_missing s'" rule: missing_cases) auto
qed

lemma valid_tick:
  assumes "allocated_tick (Some c) aid s = (e, s')" "alloc_inv s" "advanced_fast_valid (ay_base s) c"
  shows "alloc_inv s'" "alloc_missing s' = 0" "ax_config (ay_base s') = ax_config (ay_base s)"
    "ax_epoch (ay_base s') = ax_epoch (ay_base s) + 1" "le_safe (ae_local (aw_base e)) = alloc_safe s'" "alloc_safe s \<Longrightarrow> alloc_safe s'"
    "alloc_safe s' \<Longrightarrow> zero_command (aw_command e) \<and> ay_last_continuous s' = ay_last_continuous s"
    "\<not> alloc_safe s' \<Longrightarrow> ay_last_continuous s' = (avc_gimbal (aw_command e), avc_canards (aw_command e))"
  using allocated_tick_effect [OF assms(1,2)] assms(3) by (simp_all add: filtered_fast_def)

lemma advanced_fast_valid_cong:
  "ax_config r = ax_config s \<Longrightarrow> ax_epoch r = ax_epoch s \<Longrightarrow> advanced_fast_valid r c = advanced_fast_valid s c"
  by (simp add: advanced_fast_valid_def)

text \<open>
  C39: The safe state moves the surfaces again: a computer that commanded a deflection, then lost three cells
  and went safe, with zero effectors, gets one valid cell and misses the next; as that counts as
  a short interruption, the last deflection from before the safe state is commanded again, in a
  command that says safe.
\<close>
theorem safe_reapplies_deflection:
  assumes "alloc_inv s" "advanced_fast_valid (ay_base s) c0"
    "advanced_fast_valid ((ay_base s)\<lparr>ax_epoch := ax_epoch (ay_base s) + 4\<rparr>) c4"
    "fst (allocated_run [(Some c0, a0), (None, a1), (None, a2), (None, a3), (Some c4, a4), (None, a5)] s) = [v0, v1, v2, v3, v4, v5]"
    "\<not> le_safe (ae_local (aw_base v0))"
  shows "le_safe (ae_local (aw_base v3)) \<and> le_safe (ae_local (aw_base v5)) \<and> zero_command (aw_command v4)
    \<and> avc_discrete (aw_command v5) = ADVANCED_COMMAND_SAFE
    \<and> avc_gimbal (aw_command v5) = avc_gimbal (aw_command v0) \<and> avc_canards (aw_command v5) = avc_canards (aw_command v0)"
proof -
  obtain s0 where t0: "allocated_tick (Some c0) a0 s = (v0, s0)" and r0: "fst (allocated_run [(None, a1), (None, a2), (None, a3), (Some c4, a4), (None, a5)] s0) = [v1, v2, v3, v4, v5]"
    using assms(4) by (auto split: prod.splits)
  obtain s1 where t1: "allocated_tick None a1 s0 = (v1, s1)" and r1: "fst (allocated_run [(None, a2), (None, a3), (Some c4, a4), (None, a5)] s1) = [v2, v3, v4, v5]"
    using r0 by (auto split: prod.splits)
  obtain s2 where t2: "allocated_tick None a2 s1 = (v2, s2)" and r2: "fst (allocated_run [(None, a3), (Some c4, a4), (None, a5)] s2) = [v3, v4, v5]"
    using r1 by (auto split: prod.splits)
  obtain s3 where t3: "allocated_tick None a3 s2 = (v3, s3)" and r3: "fst (allocated_run [(Some c4, a4), (None, a5)] s3) = [v4, v5]"
    using r2 by (auto split: prod.splits)
  obtain s4 s5 where t4: "allocated_tick (Some c4) a4 s3 = (v4, s4)" and t5: "allocated_tick None a5 s4 = (v5, s5)"
    using r3 by (auto split: prod.splits)
  note k0 = valid_tick [OF t0 assms(1,2)]
  note k1 = alloc_held_tick [OF t1 k0(1)]
  note k2 = alloc_held_tick [OF t2 k1(1)]
  note k3 = alloc_held_tick [OF t3 k2(1)]
  have safe3: "alloc_safe s3"
    using allocated_miss [OF t1 k0(1)] allocated_miss [OF t2 k1(1)] allocated_miss [OF t3 k2(1)] three_misses by simp
  have valid4: "advanced_fast_valid (ay_base s3) c4"
    using assms(3) advanced_fast_valid_cong [of "ay_base s3" "(ay_base s)\<lparr>ax_epoch := ax_epoch (ay_base s) + 4\<rparr>" c4]
      k0(3,4) k1(4,5) k2(4,5) k3(4,5) by simp
  note k4 = valid_tick [OF t4 k3(1) valid4] and k5 = alloc_held_tick [OF t5 valid_tick(1) [OF t4 k3(1) valid4]]
  have safe4: "alloc_safe s4" using k4(6) safe3 by simp
  note e3 = allocated_tick_effect [OF t3 k2(1)] and e5 = allocated_tick_effect [OF t5 k4(1)]
  have last: "ay_last_continuous s4 = (avc_gimbal (aw_command v0), avc_canards (aw_command v0))"
    using k0(5,8) assms(5) k1(3) k2(3) k3(3) k4(7) safe4 by simp
  have "alloc_missing s5 = 1" using k5(2) k4(2) by (simp add: saturating_inc_u8_def)
  then have "avc_gimbal (aw_command v5) = avc_gimbal (aw_command v0) \<and> avc_canards (aw_command v5) = avc_canards (aw_command v0)"
    using e5(15) last by simp
  then show ?thesis
    using e3(6) safe3 e5(6,14) k5(6) safe4 k4(7) by (simp add: safe_order_def)
qed

definition tower_cell :: "u16 \<Rightarrow> AdvancedFastSensorCell" where
  "tower_cell n = missing_fast_sensor\<lparr>avf_session := 0x9510, avf_measurement_epoch := n, avf_production_epoch := n,
     avf_validity := 7, avf_platform_angle := (0, 10000, - 10000), avf_vehicle_status := 2\<rparr>"

lemma valid_tick_not_safe:
  assumes "allocated_tick (Some c) aid s = (e, s')" "alloc_inv s" "advanced_fast_valid (ay_base s) c" "\<not> alloc_safe s"
    "lf_config (ax_local (ay_base s)) = acf_local (ax_config (ay_base s))" "lf_epoch (ax_local (ay_base s)) = ax_epoch (ay_base s)"
  shows "\<not> alloc_safe s'"
proof -
  obtain b t out al v s2 h where b: "advanced_tick (Some c) aid (ay_base s) = (b, t)"
    and "allocation_within (al_config (ay_allocator s)) out" "al_config al = al_config (ay_allocator s)"
    and v: "effector_command b out (s\<lparr>ay_base := t, ay_allocator := al\<rparr>) = (v, s2)"
    and s': "s' = s2\<lparr>ay_allocator_checksum := h\<rparr>" and "aw_command e = v\<lparr>avc_command_checksum := h\<rparr>" "aw_base e = b"
    using allocated_tick_parts [OF assms(1,2)] by blast
  have base: "ay_base s' = t" using effector_command_effect(1) [OF v] unfolding s' by simp
  have f: "filtered_fast (ay_base s) (Some c) = Some c" using assms(3) by (simp add: filtered_fast_def)
  have "ax_local t = snd (local_tick (Some (to_local_inertial c)) (map_option to_local_aid aid) (ax_local (ay_base s)))"
    using advanced_tick_local [of "Some c" aid "ay_base s", unfolded b f] by (simp only: snd_conv option.map)
  then have t: "ax_local t = tick_in_place (to_local_inertial c) True (case map_option to_local_aid aid of Some a \<Rightarrow> a | None \<Rightarrow> missing_aid)
      (map_option to_local_aid aid \<noteq> None) (ax_local (ay_base s))"
    by (simp add: local_tick_def Let_def)
  have "local_inertial_valid (to_local_inertial c) True (ax_local (ay_base s))"
    using assms(3,5,6) by (simp add: local_inertial_valid_def to_local_inertial_def advanced_fast_valid_def Let_def)
  moreover have "local_inv (ax_local (ay_base s))" using assms(2) by (simp add: alloc_inv_def advanced_inv_def)
  ultimately show ?thesis using tick_effect(5) [OF _ t refl] assms(4) unfolding base by simp
qed

lemma tower_fields: "lf_config (ax_local (ay_base tower_computer)) = acf_local (ax_config (ay_base tower_computer))"
  "lf_epoch (ax_local (ay_base tower_computer)) = ax_epoch (ay_base tower_computer)" "\<not> alloc_safe tower_computer"
  "ax_epoch (ay_base tower_computer) = 0" "lcf_session (acf_local (ax_config (ay_base tower_computer))) = 0x9510"
proof -
  have "ay_base tower_computer = tower_flight"
    using tower_valid(2) by (simp add: tower_computer_def new_allocated_flight_def new_allocator_def)
  moreover have "lf_config (ax_local tower_flight) = acf_local (ax_config tower_flight)" "lf_epoch (ax_local tower_flight) = 0"
    "\<not> lf_safe (ax_local tower_flight)" "ax_epoch tower_flight = 0" "ax_config tower_flight = tower_config"
    using tower_valid(1) by (simp_all add: tower_flight_def new_advanced_flight_def new_local_flight_def advanced_config_valid_def)
  ultimately show "lf_config (ax_local (ay_base tower_computer)) = acf_local (ax_config (ay_base tower_computer))"
    "lf_epoch (ax_local (ay_base tower_computer)) = ax_epoch (ay_base tower_computer)" "\<not> alloc_safe tower_computer"
    "ax_epoch (ay_base tower_computer) = 0" "lcf_session (acf_local (ax_config (ay_base tower_computer))) = 0x9510"
    by (simp_all add: tower_config_def)
qed

abbreviation tower_inputs :: "(AdvancedFastSensorCell option \<times> AdvancedAidCell option) list" where
  "tower_inputs \<equiv> [(Some (tower_cell 0), None), (None, None), (None, None), (None, None), (Some (tower_cell 4), None), (None, None)]"

theorem safe_reapplies_deflection_witness:
  "\<exists>v0 v1 v2 v3 v4 v5. fst (allocated_run tower_inputs tower_computer) = [v0, v1, v2, v3, v4, v5]
     \<and> avc_gimbal (aw_command v5) = avc_gimbal (aw_command v0) \<and> zero_command (aw_command v4) \<and> le_safe (ae_local (aw_base v5))"
proof -
  note inv = new_allocated_flight_inv(1) [OF tower_new tower_valid(3)]
  have "length (fst (allocated_run tower_inputs tower_computer)) = 6" using allocated_run_commands [OF inv, of tower_inputs] by simp
  then obtain v0 v1 v2 v3 v4 v5 where vs: "fst (allocated_run tower_inputs tower_computer) = [v0, v1, v2, v3, v4, v5]"
    by (auto simp: length_Suc_conv numeral_eq_Suc)
  have valid: "advanced_fast_valid (ay_base tower_computer) (tower_cell 0)"
    "advanced_fast_valid ((ay_base tower_computer)\<lparr>ax_epoch := ax_epoch (ay_base tower_computer) + 4\<rparr>) (tower_cell 4)"
    using tower_fields by (simp_all add: advanced_fast_valid_def tower_cell_def ADVANCED_VALID_PLATFORM_def ADVANCED_VALID_RATE_def
        ADVANCED_VALID_DELTA_V_def missing_fast_sensor_def)
  obtain s0 where t: "allocated_tick (Some (tower_cell 0)) None tower_computer = (v0, s0)"
    using vs by (auto split: prod.splits)
  have "\<not> le_safe (ae_local (aw_base v0))"
    using valid_tick_not_safe [OF t inv valid(1) tower_fields(3,1,2)] valid_tick(5) [OF t inv valid(1)] by simp
  then show ?thesis using safe_reapplies_deflection [OF inv valid vs] vs by blast
qed

end
