(* ===== verification/Spec2Isabelle.thy ===== *)
theory Spec2Isabelle
  imports Stream_Capture Link_Pumps Ground_Codec Safehold_Contract Ascent_Safety Realtime_Guidance Event_Clock Link_Broker
    Spatial_Messages Advanced_Safety
begin

text \<open>
  KSA64 verification library.

  KSA64 is a deterministic aerospace simulation in fixed-point Rust: a portable core
  (\<^verbatim>\<open>core/\<close>) that flies a vehicle, flight software (\<^verbatim>\<open>flight/\<close>) that sees only sensor cells
  and answers with command cells, the record formats between them (\<^verbatim>\<open>interface/\<close>), worlds and
  links that join the two (\<^verbatim>\<open>sim/\<close>), and host tools (\<^verbatim>\<open>host/\<close>).  The library follows these
  parts from the arithmetic up.  All paths below are relative to the repository's root.

  \<^bold>\<open>Foundations.\<close>
  Ksa_Prelude holds the types, the result monad and the facts on words and lists that the
  components share; Byte_Records the little-endian fields of buffers; Checksums the CRC-32,
  CRC-16 and FNV-1a hashes.  The locale \<^verbatim>\<open>byte_hash\<close> derives from the permutation law of one
  byte step that a hash detects every one-byte change; it is interpreted on all three
  hashes, and \<^verbatim>\<open>sealed_record\<close> extends it to records that end in their checksum.

  \<^bold>\<open>Simulator core.\<close>
  \<^item> \<^verbatim>\<open>core/src/numeric.rs\<close>: Fault_Status (the sticky fault register), Limb_Arithmetic (64-bit
    integers in two limbs, division and square root by bits), Numeric (scaled
    multiplication and division) and Interpolation (magnitudes and table lookup).  Each
    routine equals its integer specification with one rounding, or reports the fault.  The
    two fractions of the interpolation share the locale \<^verbatim>\<open>q16_fraction\<close>.
  \<^item> \<^verbatim>\<open>core/src/scenario.rs\<close>, \<^verbatim>\<open>quantities.rs\<close>: Scenario, the 76-byte image and its validation.
  \<^item> \<^verbatim>\<open>core/src/environment.rs\<close> and its generated tables: Earth_Environment.
  \<^item> \<^verbatim>\<open>core/src/vehicle.rs\<close>, \<^verbatim>\<open>dynamics.rs\<close>: Vertical_Dynamics, one checked integration step, equal
    to an integer specification when no fault is raised.
  \<^item> \<^verbatim>\<open>core/src/mission.rs\<close>: Mission, the loop with its observer (locale \<^verbatim>\<open>accepting_observer\<close>) and
    its reachable states as inductive relations.
  \<^item> \<^verbatim>\<open>core/src/telemetry.rs\<close>: Telemetry; \<^verbatim>\<open>host/src/lib.rs\<close>: Stream_Capture, where the locale
    \<^verbatim>\<open>recording_sink\<close> carries the proof that what is captured passes inspection.
  \<^item> \<^verbatim>\<open>core/src/phase8_5_clock.rs\<close> with the loop of \<^verbatim>\<open>sim/src/phase8_5.rs\<close> that drives it: Event_Clock.

  \<^bold>\<open>Links.\<close>
  \<^item> \<^verbatim>\<open>interface/src/phase6.rs\<close>: Cobs (byte stuffing), Link_Codec (frames and capabilities),
    Realtime_Cells (the four cells of the realtime link, locale \<^verbatim>\<open>cell_codec\<close>).
  \<^item> \<^verbatim>\<open>interface/src/phase6_transport.rs\<close>: Byte_Transport (ring buffer, a refinement of a bounded
    queue through \<^verbatim>\<open>bounded_fifo\<close>; the memory transport, which provides \<^verbatim>\<open>byte_sink\<close>, and the ACIA and UCI drivers, the latter
    as a step relation) and Link_Pumps (the receivers, over \<^verbatim>\<open>byte_source\<close>).
  \<^item> \<^verbatim>\<open>sim/src/phase6_link.rs\<close>: Link_Broker, the impairing broker, which refines what its schedule
    prescribes.

  \<^bold>\<open>Flight software.\<close>
  \<^item> Ascent (\<^verbatim>\<open>interface/src/lib.rs\<close>, \<^verbatim>\<open>flight/src/navigation.rs\<close>, \<^verbatim>\<open>flight/src/gnc.rs\<close>): Ascent_Messages,
    Ascent_Navigation, Ascent_Guidance, and Ascent_Safety with the abort latch, the command
    policy and the exact condition under which a frame makes a step panic.
  \<^item> Spatial ascent messages (\<^verbatim>\<open>interface/src/phase5.rs\<close>): Spatial_Messages.
  \<^item> Realtime (\<^verbatim>\<open>flight/src/phase6_realtime.rs\<close> with its generated guidance table): Realtime_Flight,
    Realtime_Safety, Realtime_Guidance.
  \<^item> Local flight (\<^verbatim>\<open>interface/src/phase8_5.rs\<close>, \<^verbatim>\<open>flight/src/phase8_5.rs\<close>): Local_Cells, Local_Flight, and
    Local_Safety with the commands and the recovery orders over every history.
  \<^item> Advanced effectors (\<^verbatim>\<open>interface/src/phase9_5.rs\<close>, \<^verbatim>\<open>flight/src/phase9_5.rs\<close>,
    \<^verbatim>\<open>flight/src/phase9_5_allocator.rs\<close>): Advanced_Cells, Advanced_Flight (the wrapper around the
    local computer), Effector_Allocator (the allocation of torque to effector groups) and
    Advanced_Safety (limits, exact thruster pulses, the safe state).
  \<^item> Global flight (\<^verbatim>\<open>interface/src/phase10.rs\<close>, \<^verbatim>\<open>flight/src/phase10.rs\<close>): Global_Cells and Global_Codec,
    Global_Vectors, Global_Navigation, Global_Flight, and Flight_Safety and Flight_Contract
    with the properties over every run of the computer's public operations.
  \<^item> Mission operations (\<^verbatim>\<open>interface/src/phase11.rs\<close>, \<^verbatim>\<open>flight/src/phase11.rs\<close>): Operations_Records,
    Operations_Codec, Plan_Codec and Ground_Codec (the records), Object_Transfer (segmented
    transfer), Mission_Load, Uplink_Manager (two-phase uplinks), Event_Journal,
    Reference_Ops (the package that composes them around the phase 10 computer) and
    Ops_Contract.
  \<^item> Contingency package (\<^verbatim>\<open>flight/src/phase11_safehold.rs\<close>): Safehold, Safehold_Safety,
    Safehold_Contract.  Flight_Packages states what both packages promise the world as the
    locale \<^verbatim>\<open>flight_package\<close>, over the release operation and its observations, and interprets
    it on both.

  \<^bold>\<open>Records.\<close>
  Sealed_Records and Record_Fields hold the discipline of all fixed-length records: a record's
  fields are a list of stores, that they fit and are disjoint is evaluated once, and the
  locales \<^verbatim>\<open>sealed_codec\<close>, \<^verbatim>\<open>field_codec\<close>, \<^verbatim>\<open>record_codec\<close>, \<^verbatim>\<open>canonical_codec\<close> and \<^verbatim>\<open>record_table\<close> derive
  the round trips in both directions, uniqueness of the encoding and rejection of corrupted
  bytes.  Each writer and parser is a definition of its own, translated from the source; an
  interpretation connects it.

  \<^bold>\<open>Correspondence.\<close>
  A struct is a record with the source's fields (prefixed where two structs share a name), an
  enum a datatype with a tag function for its discriminants, an array of three a tuple read
  by \<^verbatim>\<open>at3\<close>, other arrays and buffers lists.  An \<^verbatim>\<open>i32\<close> or \<^verbatim>\<open>u32\<close> is a 32-bit word, read signed or
  unsigned by the operation that uses it.  Arithmetic the source leaves unchecked wraps, as
  in the release build; checked and saturating arithmetic is written out.  A result is a
  sum with the error on the left; a panic (slice out of bounds, division by zero) is the
  value None of the operation that can reach it.  A method on \<^verbatim>\<open>&mut self\<close> returns the updated
  record, changed also where the source changes it before it fails.

  \<^bold>\<open>Termination.\<close>
  Loops over data are structural or have a measure.  The poll loops of
  the receivers (Link_Pumps) read until the device has nothing left; they are partial
  functions into option, where None is not returning, and that they return is proved for a
  transport that satisfies \<^verbatim>\<open>byte_source\<close>, as the memory transport does.
  The mission loop decreases the steps left, the square roots the remaining bits, the clock
  loop the distance to the next release.  No function uses fuel; the two run functions that
  take a number (releases of the clock, ticks of a computer) count inputs.

  \<^bold>\<open>Parameters.\<close>
  A device behind a transport, the observer of a mission and the physics that chooses the
  clock's deadlines are arguments of the definitions that use them.

  \<^bold>\<open>Deviations the lemmas record.\<close>
  Safety lemmas state what the code does, also where it seems unintended: a refused cell
  still chooses the discrete order (Realtime_Safety), a delayed frame is delivered under the
  endpoints of the next call (Link_Broker), a failed release advances the epoch
  (Event_Clock), a zero GPS radius and a propagation that lands on radius zero panic (Ascent_Safety), a held epoch loses the drogue and
  an unapplied load is acknowledged (Flight_Contract, Ops_Contract), three parsers accept reserved bytes
  (Ground_Codec), the safe local computer never orders a parachute (Local_Safety), and the safe
  allocating computer commands an old deflection again and ignores the canards' hysteresis
  (Advanced_Safety).

  \<^bold>\<open>Not modelled.\<close>
  The planar, rigid-body and flexible dynamics, the worlds and campaigns of later phases
  (their outputs reach the flight software only as cells, and the properties of the flight
  software hold for arbitrary cells), the intermediate flight computer of phase 5,
  the KAT8 telemetry container, the debrief and procedure records, sessions, brokers over sockets, viewers
  and the terminal interfaces (concurrency, serialisation and I/O of external crates), and
  the clients in other languages.  Reports and display conversions of \<^verbatim>\<open>host/\<close> are pure output.
\<close>

end
